(* ===== verification/Prelude.thy ===== *)
theory Prelude
  imports Main
begin

text \<open>
  Shared vocabulary of the development: the exceptions the services throw, the shape of a
  handler's result (an exception or a value, together with the state it leaves), database
  tables as lists of rows, and the lemma collections the component theories use.
\<close>

section \<open>Results\<close>

text \<open>
  One constructor per exception class the services throw (the Nest HTTP exceptions, Prisma's
  "record not found" and "unique constraint" errors, and a plain Error).  The string is the
  message; where the code interpolates a number or a non-ASCII currency sign the model keeps
  the fixed text only.
\<close>

datatype http_error =
    BadRequest string
  | Unauthorized string
  | Forbidden string
  | NotFound string
  | Conflict string
  | ServiceUnavailable string
  | BadGateway string
  | NotImplementedHttp string
  | UpstreamError nat string
  | RecordNotFound
  | UniqueViolation
  | PlainError string

type_synonym 'a result = "http_error + 'a"

text \<open>A handler may change its state before it throws, so the state is returned either way.\<close>

type_synonym ('s, 'a) outcome = "'a result \<times> 's"

type_synonym millis = int

abbreviation throws :: "http_error \<Rightarrow> 's \<Rightarrow> ('s, 'a) outcome" where
  "throws e s \<equiv> (Inl e, s)"

abbreviation returns :: "'a \<Rightarrow> 's \<Rightarrow> ('s, 'a) outcome" where
  "returns a s \<equiv> (Inr a, s)"

text \<open>The message of a thrown exception.\<close>

fun error_message :: "http_error \<Rightarrow> string" where
  "error_message (BadRequest m) = m"
| "error_message (Unauthorized m) = m"
| "error_message (Forbidden m) = m"
| "error_message (NotFound m) = m"
| "error_message (Conflict m) = m"
| "error_message (ServiceUnavailable m) = m"
| "error_message (BadGateway m) = m"
| "error_message (NotImplementedHttp m) = m"
| "error_message (UpstreamError n m) = m"
| "error_message RecordNotFound = ''No record was found''"
| "error_message UniqueViolation = ''Unique constraint failed''"
| "error_message (PlainError m) = m"

definition succeeded :: "('s, 'a) outcome \<Rightarrow> bool" where
  "succeeded r \<longleftrightarrow> \<not> isl (fst r)"

lemma succeeded_simps [simp]:
  "succeeded (Inl e, s) = False" "succeeded (Inr a, s) = True"
  by (simp_all add: succeeded_def)

lemma succeededE:
  assumes "succeeded r"
  obtains a s where "r = (Inr a, s)"
  using assms by (cases r; cases "fst r") (auto simp: succeeded_def)

section \<open>Tables\<close>

text \<open>
  A table that is scanned (findMany, count, updateMany) is the list of its rows; the functions
  below are the queries the services use on it.
\<close>

definition find_row :: "('r \<Rightarrow> bool) \<Rightarrow> 'r list \<Rightarrow> 'r option" where
  "find_row p rows = find p rows"

definition update_where :: "('r \<Rightarrow> bool) \<Rightarrow> ('r \<Rightarrow> 'r) \<Rightarrow> 'r list \<Rightarrow> 'r list" where
  "update_where p f rows = map (\<lambda>r. if p r then f r else r) rows"

definition count_where :: "('r \<Rightarrow> bool) \<Rightarrow> 'r list \<Rightarrow> nat" where
  "count_where p rows = length (filter p rows)"

named_theorems table_simps \<open>lookups, updates and counts on tables\<close>

lemma find_row_Nil [simp, table_simps]: "find_row p [] = None"
  by (simp add: find_row_def)

lemma find_row_Cons [simp, table_simps]:
  "find_row p (r # rs) = (if p r then Some r else find_row p rs)"
  by (simp add: find_row_def)

lemma find_row_SomeD: "find_row p rs = Some r \<Longrightarrow> r \<in> set rs \<and> p r"
  by (induction rs) (auto split: if_splits)

lemma find_row_NoneD: "find_row p rs = None \<Longrightarrow> r \<in> set rs \<Longrightarrow> \<not> p r"
  by (induction rs) (auto split: if_splits)

lemma find_row_None_iff: "find_row p rs = None \<longleftrightarrow> (\<forall>r \<in> set rs. \<not> p r)"
  by (induction rs) auto

lemma find_row_append:
  "find_row p (rs @ ts) = (case find_row p rs of None \<Rightarrow> find_row p ts | Some r \<Rightarrow> Some r)"
  by (induction rs) auto

text \<open>An update that leaves the lookup's predicate alone commutes with the lookup.\<close>

lemma find_row_update_where:
  assumes "\<And>r. p (f r) = p r"
  shows "find_row p (update_where q f rs) =
    map_option (\<lambda>r. if q r then f r else r) (find_row p rs)"
  using assms by (induction rs) (auto simp: update_where_def)

lemma update_where_Nil [simp]: "update_where p f [] = []"
  by (simp add: update_where_def)

lemma update_where_Cons [simp]:
  "update_where p f (r # rs) = (if p r then f r else r) # update_where p f rs"
  by (simp add: update_where_def)

lemma length_update_where [simp]: "length (update_where p f rs) = length rs"
  by (simp add: update_where_def)

lemma set_update_where:
  "set (update_where p f rs) = (\<lambda>r. if p r then f r else r) ` set rs"
  by (simp add: update_where_def)

lemma in_update_where:
  "x \<in> set (update_where p f rs) \<Longrightarrow> \<exists>y \<in> set rs. x = (if p y then f y else y)"
  by (auto simp: set_update_where)

lemma update_where_mem: "y \<in> set rs \<Longrightarrow> (if p y then f y else y) \<in> set (update_where p f rs)"
  by (auto simp: set_update_where)

lemma update_where_ident [simp]: "update_where p (\<lambda>x. x) rs = rs"
  by (induction rs) (auto simp: update_where_def)

lemma update_where_append [simp]:
  "update_where p f (rs @ ts) = update_where p f rs @ update_where p f ts"
  by (simp add: update_where_def)

lemma update_where_idle: "(\<And>r. r \<in> set rs \<Longrightarrow> \<not> p r) \<Longrightarrow> update_where p f rs = rs"
  by (induction rs) auto

lemma map_update_where:
  "(\<And>r. g (f r) = g r) \<Longrightarrow> map g (update_where p f rs) = map g rs"
  by (induction rs) auto

lemma count_where_Nil [simp]: "count_where p [] = 0"
  by (simp add: count_where_def)

lemma count_where_Cons [simp]:
  "count_where p (r # rs) = (if p r then Suc (count_where p rs) else count_where p rs)"
  by (simp add: count_where_def)

lemma count_where_append [simp]:
  "count_where p (rs @ ts) = count_where p rs + count_where p ts"
  by (simp add: count_where_def)

lemma count_where_le: "count_where p rs \<le> length rs"
  by (simp add: count_where_def)

lemma count_where_0_iff: "count_where p rs = 0 \<longleftrightarrow> (\<forall>r \<in> set rs. \<not> p r)"
  by (induction rs) auto

lemma count_where_pos_iff: "0 < count_where p rs \<longleftrightarrow> (\<exists>r \<in> set rs. p r)"
  using count_where_0_iff [of p rs] by auto

lemma count_where_cleared: "(\<And>r. \<not> p (f r)) \<Longrightarrow> count_where p (update_where p f rs) = 0"
  by (induction rs) auto

lemma count_where_update:
  "(\<And>r. \<not> q (f r)) \<Longrightarrow> count_where q (update_where p f rs) = count_where (\<lambda>r. q r \<and> \<not> p r) rs"
  by (induction rs) auto

lemma count_where_and_le: "count_where (\<lambda>r. q r \<and> p r) rs \<le> count_where q rs"
  by (induction rs) auto

lemma count_where_and_less:
  assumes "r \<in> set rs" "q r" "\<not> p r"
  shows "count_where (\<lambda>r. q r \<and> p r) rs < count_where q rs"
  using assms
proof (induction rs)
  case (Cons x xs)
  show ?case
  proof (cases "x = r")
    case True
    with Cons.prems count_where_and_le [of q p xs] show ?thesis by simp
  next
    case False
    with Cons show ?thesis by auto
  qed
qed simp

text \<open>Rows with distinct keys: a lookup by key finds the row itself.\<close>

lemma find_row_unique:
  assumes "distinct (map k rs)" and "r \<in> set rs"
  shows "find_row (\<lambda>x. k x = k r) rs = Some r"
  using assms by (induction rs) (auto simp: rev_image_eqI)

lemma update_where_key_unique:
  assumes "distinct (map k rs)" "r \<in> set rs" "k r = i"
    "\<And>x. k (f x) = k x" "x \<in> set (update_where (\<lambda>y. k y = i) f rs)" "k x = i"
  shows "x = f r"
proof -
  obtain y where y: "y \<in> set rs" "x = (if k y = i then f y else y)"
    using assms(5) by (auto simp: set_update_where)
  have "k y = i"
    using y assms(4,6) by (auto split: if_splits)
  moreover have "y = r"
    using assms(1,2,3) y(1) \<open>k y = i\<close> by (metis distinct_map inj_on_eq_iff)
  ultimately show ?thesis
    using y(2) by simp
qed

section \<open>Lists\<close>

text \<open>Array.prototype.includes and slice, as the services use them.\<close>

definition js_includes :: "'a list \<Rightarrow> 'a \<Rightarrow> bool" where
  "js_includes xs x = (x \<in> set xs)"

lemma js_includes_code [code]: "js_includes xs x = List.member xs x"
  by (simp add: js_includes_def)

lemma js_includes_iff [simp]: "js_includes xs x \<longleftrightarrow> x \<in> set xs"
  by (simp add: js_includes_def)

text \<open>The insertion-ordered values of a JavaScript Set built from a list.\<close>

fun js_set :: "'a list \<Rightarrow> 'a list" where
  "js_set [] = []"
| "js_set (x # xs) = x # js_set (filter (\<lambda>y. y \<noteq> x) xs)"

lemma set_js_set [simp]: "set (js_set xs) = set xs"
  by (induction xs rule: js_set.induct) auto

lemma distinct_js_set [simp]: "distinct (js_set xs)"
  by (induction xs rule: js_set.induct) auto

text \<open>
  \<open>chunked\<close>: the code's loop over i, i + size, i + 2 size, ...; for a positive size it splits
  the list into consecutive pieces.
\<close>

function chunked :: "nat \<Rightarrow> 'a list \<Rightarrow> 'a list list" where
  "chunked n xs = (if xs = [] \<or> n = 0 then [] else take n xs # chunked n (drop n xs))"
  by pat_completeness auto
termination
  by (relation "measure (\<lambda>(n, xs). length xs)") auto

declare chunked.simps [simp del]

lemma concat_chunked: "0 < n \<Longrightarrow> concat (chunked n xs) = xs"
proof (induction n xs rule: chunked.induct)
  case (1 n xs)
  then show ?case by (subst chunked.simps) auto
qed

lemma chunked_lengths: "c \<in> set (chunked n xs) \<Longrightarrow> c \<noteq> [] \<and> length c \<le> n"
proof (induction n xs rule: chunked.induct)
  case (1 n xs)
  then show ?case by (subst (asm) (2) chunked.simps) (auto split: if_splits)
qed

end
