(* ===== verification/Js_String.thy ===== *)
theory Js_String
  imports Prelude
begin

text \<open>
  The string operations of the JavaScript library the services use, on strings of single-byte
  characters: trim, toLowerCase, toUpperCase, split at one character, startsWith, slice, repeat
  and join.  Case folding and white space are those of ASCII.
\<close>

section \<open>Characters\<close>

definition is_space :: "char \<Rightarrow> bool" where
  "is_space c = (let n = (of_char c :: nat) in n = 32 \<or> (9 \<le> n \<and> n \<le> 13))"

definition is_digit :: "char \<Rightarrow> bool" where
  "is_digit c = (let n = (of_char c :: nat) in 48 \<le> n \<and> n \<le> 57)"

definition is_lower :: "char \<Rightarrow> bool" where
  "is_lower c = (let n = (of_char c :: nat) in 97 \<le> n \<and> n \<le> 122)"

definition is_upper :: "char \<Rightarrow> bool" where
  "is_upper c = (let n = (of_char c :: nat) in 65 \<le> n \<and> n \<le> 90)"

definition is_word :: "char \<Rightarrow> bool" where
  "is_word c = (is_lower c \<or> is_upper c \<or> is_digit c \<or> c = CHR ''_'')"

definition char_lower :: "char \<Rightarrow> char" where
  "char_lower c = (if is_upper c then char_of ((of_char c :: nat) + 32) else c)"

definition char_upper :: "char \<Rightarrow> char" where
  "char_upper c = (if is_lower c then char_of ((of_char c :: nat) - 32) else c)"

lemmas char_class_defs =
  is_space_def is_digit_def is_lower_def is_upper_def is_word_def

lemma of_char_inj: "(of_char c :: nat) = of_char d \<Longrightarrow> c = d"
  by (simp add: of_char_eq_iff)

section \<open>Strings\<close>

definition toLowerCase :: "string \<Rightarrow> string" where
  "toLowerCase s = map char_lower s"

definition toUpperCase :: "string \<Rightarrow> string" where
  "toUpperCase s = map char_upper s"

definition trim :: "string \<Rightarrow> string" where
  "trim s = rev (dropWhile is_space (rev (dropWhile is_space s)))"

fun split_on :: "char \<Rightarrow> string \<Rightarrow> string list" where
  "split_on d [] = [[]]"
| "split_on d (c # cs) =
     (if c = d then [] # split_on d cs
      else (case split_on d cs of [] \<Rightarrow> [[c]] | w # ws \<Rightarrow> (c # w) # ws))"

fun join_with :: "string \<Rightarrow> string list \<Rightarrow> string" where
  "join_with sep [] = []"
| "join_with sep [s] = s"
| "join_with sep (s # ss) = s @ sep @ join_with sep ss"

definition startsWith :: "string \<Rightarrow> string \<Rightarrow> bool" where
  "startsWith s p = (take (length p) s = p)"

definition endsWith :: "string \<Rightarrow> string \<Rightarrow> bool" where
  "endsWith s p = (length p \<le> length s \<and> drop (length s - length p) s = p)"

text \<open>Substring search: \<open>includes\<close>, and the database's \<open>contains\<close>.\<close>

fun contains_str :: "string \<Rightarrow> string \<Rightarrow> bool" where
  "contains_str [] q = (q = [])"
| "contains_str (c # cs) q = (startsWith (c # cs) q \<or> contains_str cs q)"

definition slice_last :: "nat \<Rightarrow> string \<Rightarrow> string" where
  "slice_last n s = drop (length s - n) s"

definition repeat_char :: "char \<Rightarrow> nat \<Rightarrow> string" where
  "repeat_char c n = replicate n c"

text \<open>\<open>replace\<close> with a string pattern replaces the first occurrence only.\<close>

fun replace_first_char :: "char \<Rightarrow> char \<Rightarrow> string \<Rightarrow> string" where
  "replace_first_char a b [] = []"
| "replace_first_char a b (c # cs) = (if c = a then b # cs else c # replace_first_char a b cs)"

text \<open>An empty string is falsy: \<open>s?.trim()\<close> used as a condition.\<close>

definition truthy :: "string option \<Rightarrow> bool" where
  "truthy s = (case s of None \<Rightarrow> False | Some t \<Rightarrow> t \<noteq> [])"

lemma truthy_simps [simp]:
  "truthy None = False" "truthy (Some t) = (t \<noteq> [])"
  by (simp_all add: truthy_def)

section \<open>Facts\<close>

lemma split_on_nonempty [simp]: "split_on d s \<noteq> []"
  by (induction s) (auto split: list.splits)

lemma join_split_on: "join_with [d] (split_on d s) = s"
proof (induction s)
  case Nil
  then show ?case by simp
next
  case (Cons c cs)
  obtain w ws where w: "split_on d cs = w # ws"
    by (cases "split_on d cs") auto
  with Cons show ?case by (cases ws) auto
qed

lemma split_on_no_sep: "d \<notin> set s \<Longrightarrow> split_on d s = [s]"
  by (induction s) auto

lemma split_on_parts: "p \<in> set (split_on d s) \<Longrightarrow> d \<notin> set p"
  by (induction s arbitrary: p) (auto split: list.splits if_splits)

lemma split_on_append:
  "d \<notin> set a \<Longrightarrow> split_on d (a @ d # b) = a # split_on d b"
  by (induction a) auto

lemma startsWith_iff: "startsWith s p \<longleftrightarrow> (\<exists>t. s = p @ t)"
  by (metis append_eq_conv_conj append_take_drop_id startsWith_def)

lemma trim_subset: "set (trim s) \<subseteq> set s"
proof
  fix x
  assume "x \<in> set (trim s)"
  then have "x \<in> set (dropWhile is_space s)"
    unfolding trim_def by (metis set_dropWhileD set_rev)
  then show "x \<in> set s"
    by (rule set_dropWhileD)
qed

lemma trim_no_space: "(\<forall>c \<in> set s. \<not> is_space c) \<Longrightarrow> trim s = s"
proof -
  assume a: "\<forall>c \<in> set s. \<not> is_space c"
  have d: "dropWhile is_space t = t" if "\<forall>c \<in> set t. \<not> is_space c" for t
    using that by (cases t) auto
  show ?thesis
    using a by (simp add: trim_def d)
qed

lemma trim_eq_Nil_iff: "trim s = [] \<longleftrightarrow> (\<forall>c \<in> set s. is_space c)"
proof -
  have "dropWhile is_space t = [] \<longleftrightarrow> (\<forall>c \<in> set t. is_space c)" for t
    by (rule dropWhile_eq_Nil_conv)
  moreover have "(\<forall>c \<in> set (dropWhile is_space s). is_space c) \<longleftrightarrow> (\<forall>c \<in> set s. is_space c)"
    by (induction s) auto
  ultimately show ?thesis
    by (simp add: trim_def)
qed

lemma length_toUpperCase [simp]: "length (toUpperCase s) = length s"
  by (simp add: toUpperCase_def)

lemma char_upper_idem [simp]: "char_upper (char_upper c) = char_upper c"
proof (cases "is_lower c")
  case True
  then have "(of_char c :: nat) - 32 < 256" "65 \<le> (of_char c :: nat) - 32" "(of_char c :: nat) - 32 \<le> 90"
    by (auto simp: is_lower_def Let_def)
  then have "\<not> is_lower (char_of ((of_char c :: nat) - 32))"
    by (simp add: is_lower_def Let_def)
  with True show ?thesis by (simp add: char_upper_def)
qed (simp add: char_upper_def)

lemma char_lower_idem [simp]: "char_lower (char_lower c) = char_lower c"
proof (cases "is_upper c")
  case True
  then have "\<not> is_upper (char_of ((of_char c :: nat) + 32))"
    by (auto simp: is_upper_def Let_def)
  with True show ?thesis by (simp add: char_lower_def)
qed (simp add: char_lower_def)

lemma toUpperCase_idem [simp]: "toUpperCase (toUpperCase s) = toUpperCase s"
  by (simp add: toUpperCase_def)

lemma toLowerCase_idem [simp]: "toLowerCase (toLowerCase s) = toLowerCase s"
  by (simp add: toLowerCase_def)

end
