(* ===== verification/Admin_Model.thy ===== *)
theory Admin_Model
  imports Js_String
begin

text \<open>
  The rows the components share: staff members and roles of the Admin database, the principal
  a request carries, and the append-only audit log with the JSON snapshots it stores.
\<close>

section \<open>JSON snapshots\<close>

datatype json =
    JNull
  | JBool bool
  | JInt int
  | JStr string
  | JArr "json list"
  | JObj "(string \<times> json) list"

definition jstr_opt :: "string option \<Rightarrow> json" where
  "jstr_opt s = (case s of None \<Rightarrow> JNull | Some t \<Rightarrow> JStr t)"

definition jint_opt :: "int option \<Rightarrow> json" where
  "jint_opt s = (case s of None \<Rightarrow> JNull | Some t \<Rightarrow> JInt t)"

definition jstrs :: "string list \<Rightarrow> json" where
  "jstrs ss = JArr (map JStr ss)"

section \<open>Staff, roles and the principal of a request\<close>

datatype staff_status = INVITED | ACTIVE | SUSPENDED | DISABLED

fun staff_status_name :: "staff_status \<Rightarrow> string" where
  "staff_status_name INVITED = ''INVITED''"
| "staff_status_name ACTIVE = ''ACTIVE''"
| "staff_status_name SUSPENDED = ''SUSPENDED''"
| "staff_status_name DISABLED = ''DISABLED''"

record role_row =
  ro_id :: string
  ro_key :: string
  ro_name :: string
  ro_description :: "string option"
  ro_permissions :: "string list"
  ro_ipAllowlist :: "string list"
  ro_isSystem :: bool

record staff_row =
  st_id :: string
  st_email :: string
  st_name :: string
  st_passwordHash :: string
  st_totpSecret :: "string option"
  st_totpEnabled :: bool
  st_status :: staff_status
  st_roleId :: string
  st_extraPermissions :: "string list"
  st_failedLoginCount :: nat
  st_lockedUntil :: "millis option"
  st_lastLoginAt :: "millis option"
  st_lastLoginIp :: "string option"
  st_sessionEpoch :: nat
  st_emailPrefs :: "string list"

record principal =
  sp_id :: string
  sp_email :: string
  sp_name :: string
  sp_roleId :: string
  sp_roleKey :: string
  sp_permissions :: "string list"
  sp_sessionId :: string
  sp_sessionEpoch :: nat
  sp_ip :: "string option"
  sp_userAgent :: "string option"
  sp_impersonating :: "(string \<times> millis) option"

definition hasPermission :: "principal \<Rightarrow> string \<Rightarrow> bool" where
  "hasPermission p perm = js_includes (sp_permissions p) perm"

section \<open>The audit log\<close>

record audit_actor =
  ac_id :: string
  ac_email :: string
  ac_ip :: "string option"
  ac_userAgent :: "string option"

record audit_entry =
  en_actor :: "audit_actor option"
  en_action :: string
  en_targetType :: "string option"
  en_targetId :: "string option"
  en_before :: json
  en_after :: json
  en_reason :: "string option"
  en_metadata :: json
  en_requestId :: "string option"

record audit_row =
  au_actorId :: "string option"
  au_actorEmail :: "string option"
  au_action :: string
  au_targetType :: "string option"
  au_targetId :: "string option"
  au_before :: json
  au_after :: json
  au_reason :: "string option"
  au_metadata :: json
  au_ip :: "string option"
  au_userAgent :: "string option"
  au_requestId :: "string option"

text \<open>\<open>AuditService.record\<close>: one row per entry, never changed afterwards.\<close>

definition audit_record :: "audit_entry \<Rightarrow> audit_row list \<Rightarrow> audit_row list" where
  "audit_record e log = log @ [\<lparr>
     au_actorId = map_option ac_id (en_actor e),
     au_actorEmail = map_option ac_email (en_actor e),
     au_action = en_action e,
     au_targetType = en_targetType e,
     au_targetId = en_targetId e,
     au_before = en_before e,
     au_after = en_after e,
     au_reason = en_reason e,
     au_metadata = en_metadata e,
     au_ip = (case en_actor e of None \<Rightarrow> None | Some a \<Rightarrow> ac_ip a),
     au_userAgent = (case en_actor e of None \<Rightarrow> None | Some a \<Rightarrow> ac_userAgent a),
     au_requestId = en_requestId e\<rparr>]"

definition actor_of :: "principal \<Rightarrow> audit_actor" where
  "actor_of p = \<lparr>ac_id = sp_id p, ac_email = sp_email p, ac_ip = sp_ip p, ac_userAgent = sp_userAgent p\<rparr>"

text \<open>The entry a service passes for an action of a staff member on a target.\<close>

definition staff_entry ::
  "principal \<Rightarrow> string \<Rightarrow> string \<Rightarrow> string \<Rightarrow> string option \<Rightarrow> json \<Rightarrow> json \<Rightarrow> json \<Rightarrow> audit_entry" where
  "staff_entry p action ttype tid reason before after meta = \<lparr>
     en_actor = Some (actor_of p), en_action = action, en_targetType = Some ttype,
     en_targetId = Some tid, en_before = before, en_after = after, en_reason = reason,
     en_metadata = meta, en_requestId = None\<rparr>"

lemma audit_record_grows: "\<exists>row. audit_record e log = log @ [row]"
  by (simp add: audit_record_def)

lemma length_audit_record [simp]: "length (audit_record e log) = Suc (length log)"
  by (simp add: audit_record_def)

lemma last_audit_staff_entry:
  "au_actorId (last (audit_record (staff_entry p a tt tid r b af m) log)) = Some (sp_id p)"
  "au_action (last (audit_record (staff_entry p a tt tid r b af m) log)) = a"
  "au_reason (last (audit_record (staff_entry p a tt tid r b af m) log)) = r"
  "au_before (last (audit_record (staff_entry p a tt tid r b af m) log)) = b"
  "au_after (last (audit_record (staff_entry p a tt tid r b af m) log)) = af"
  "au_targetId (last (audit_record (staff_entry p a tt tid r b af m) log)) = Some tid"
  by (simp_all add: audit_record_def staff_entry_def actor_of_def)

end
