(* ===== verification/Decision_Policy.thy ===== *)
theory Decision_Policy
  imports Prelude
begin

text \<open>
  The interface two review queues share: a table of what a reviewer may do in each status, and
  an assertion that throws unless the action is in the table.  Handlers that run the assertion
  first can only act as the table says.
\<close>

locale decision_policy =
  fixes allowed :: "'st \<Rightarrow> 'act list"
    and assert_allowed :: "'act \<Rightarrow> 'st \<Rightarrow> unit result"
  assumes assert_ok: "a \<in> set (allowed st) \<Longrightarrow> assert_allowed a st = Inr ()"
    and assert_fails: "a \<notin> set (allowed st) \<Longrightarrow> isl (assert_allowed a st)"
begin

lemma assert_iff: "assert_allowed a st = Inr () \<longleftrightarrow> a \<in> set (allowed st)"
  using assert_ok assert_fails by (metis isl_def Inl_Inr_False)

lemma assert_cases:
  obtains (ok) "a \<in> set (allowed st)" "assert_allowed a st = Inr ()"
  | (refused) e where "a \<notin> set (allowed st)" "assert_allowed a st = Inl e"
proof (cases "a \<in> set (allowed st)")
  case True
  then show ?thesis using assert_ok ok by blast
next
  case False
  then show ?thesis using assert_fails [OF False] refused by (metis isl_def)
qed

text \<open>A handler that asserts first and otherwise throws the assertion's error.\<close>

lemma guarded_success:
  assumes "(case assert_allowed a st of Inl e \<Rightarrow> throws e s | Inr _ \<Rightarrow> k s) = returns v s'"
  shows "a \<in> set (allowed st)" "k s = returns v s'"
  using assms by (cases a st rule: assert_cases; auto)+

end

end
