(* ===== verification/Sender_Id_State.thy ===== *)
theory Sender_Id_State
  imports Admin_Model Decision_Policy
begin

text \<open>
  \<open>modules/sender-ids/sender-id-state.ts\<close>: the statuses a review stores, the four statuses the
  product knows, the mapping between them, what a reviewer may decide in each, the notice the
  customer gets and the reviewer's checklist.
\<close>

section \<open>Statuses\<close>

datatype review_status =
    RS_SUBMITTED | RS_IN_REVIEW | RS_CHANGES_REQUESTED | RS_REJECTED | RS_APPROVED
  | RS_SUBMITTED_TO_OPERATORS | RS_ACTIVE | RS_OPERATOR_REJECTED | RS_SUSPENDED

datatype product_status = PS_DRAFT | PS_PENDING_REVIEW | PS_APPROVED | PS_REJECTED

fun review_status_name :: "review_status \<Rightarrow> string" where
  "review_status_name RS_SUBMITTED = ''SUBMITTED''"
| "review_status_name RS_IN_REVIEW = ''IN_REVIEW''"
| "review_status_name RS_CHANGES_REQUESTED = ''CHANGES_REQUESTED''"
| "review_status_name RS_REJECTED = ''REJECTED''"
| "review_status_name RS_APPROVED = ''APPROVED''"
| "review_status_name RS_SUBMITTED_TO_OPERATORS = ''SUBMITTED_TO_OPERATORS''"
| "review_status_name RS_ACTIVE = ''ACTIVE''"
| "review_status_name RS_OPERATOR_REJECTED = ''OPERATOR_REJECTED''"
| "review_status_name RS_SUSPENDED = ''SUSPENDED''"

fun product_status_name :: "product_status \<Rightarrow> string" where
  "product_status_name PS_DRAFT = ''DRAFT''"
| "product_status_name PS_PENDING_REVIEW = ''PENDING_REVIEW''"
| "product_status_name PS_APPROVED = ''APPROVED''"
| "product_status_name PS_REJECTED = ''REJECTED''"

definition PRODUCT_STATUSES :: "product_status list" where
  "PRODUCT_STATUSES = [PS_DRAFT, PS_PENDING_REVIEW, PS_APPROVED, PS_REJECTED]"

fun AS_PRODUCT :: "review_status \<Rightarrow> product_status" where
  "AS_PRODUCT RS_SUBMITTED = PS_PENDING_REVIEW"
| "AS_PRODUCT RS_IN_REVIEW = PS_PENDING_REVIEW"
| "AS_PRODUCT RS_APPROVED = PS_APPROVED"
| "AS_PRODUCT RS_REJECTED = PS_REJECTED"
| "AS_PRODUCT RS_CHANGES_REQUESTED = PS_REJECTED"
| "AS_PRODUCT RS_SUBMITTED_TO_OPERATORS = PS_APPROVED"
| "AS_PRODUCT RS_ACTIVE = PS_APPROVED"
| "AS_PRODUCT RS_OPERATOR_REJECTED = PS_REJECTED"
| "AS_PRODUCT RS_SUSPENDED = PS_REJECTED"

text \<open>The keys of \<open>AS_PRODUCT\<close>, in the order the object literal lists them.\<close>

definition AS_PRODUCT_keys :: "review_status list" where
  "AS_PRODUCT_keys = [RS_SUBMITTED, RS_IN_REVIEW, RS_APPROVED, RS_REJECTED, RS_CHANGES_REQUESTED,
     RS_SUBMITTED_TO_OPERATORS, RS_ACTIVE, RS_OPERATOR_REJECTED, RS_SUSPENDED]"

text \<open>The typed status whose name a string is, if any (the cast of a stored string).\<close>

definition review_status_of :: "string \<Rightarrow> review_status option" where
  "review_status_of s = find (\<lambda>st. review_status_name st = s) AS_PRODUCT_keys"

definition presentStatus :: "string \<Rightarrow> product_status" where
  "presentStatus s = (case review_status_of s of None \<Rightarrow> PS_PENDING_REVIEW | Some st \<Rightarrow> AS_PRODUCT st)"

definition toReviewStatus :: "string \<Rightarrow> review_status option" where
  "toReviewStatus productStatus =
     (let s = toUpperCase (trim productStatus) in
      if s = ''PENDING_REVIEW'' then Some RS_SUBMITTED
      else if s = ''APPROVED'' then Some RS_APPROVED
      else if s = ''REJECTED'' then Some RS_REJECTED
      else None)"

definition reviewStatusesFor :: "product_status \<Rightarrow> review_status list" where
  "reviewStatusesFor status = filter (\<lambda>s. AS_PRODUCT s = status) AS_PRODUCT_keys"

section \<open>Decisions\<close>

datatype decision = D_APPROVED | D_REJECTED

fun decision_name :: "decision \<Rightarrow> string" where
  "decision_name D_APPROVED = ''APPROVED''"
| "decision_name D_REJECTED = ''REJECTED''"

fun decision_status :: "decision \<Rightarrow> review_status" where
  "decision_status D_APPROVED = RS_APPROVED"
| "decision_status D_REJECTED = RS_REJECTED"

definition allowedDecisions :: "string \<Rightarrow> decision list" where
  "allowedDecisions status =
     (case presentStatus status of
        PS_PENDING_REVIEW \<Rightarrow> [D_APPROVED, D_REJECTED]
      | PS_APPROVED \<Rightarrow> [D_REJECTED]
      | PS_REJECTED \<Rightarrow> [D_APPROVED]
      | PS_DRAFT \<Rightarrow> [])"

definition assertDecision :: "string \<Rightarrow> decision \<Rightarrow> unit result" where
  "assertDecision current decision =
     (if js_includes (allowedDecisions current) decision then Inr ()
      else (let now = presentStatus current in
        Inl (Conflict
          (if product_status_name now = decision_name decision
           then ''This application is already '' @ toLowerCase (decision_name decision) @ ''.''
           else ''A '' @ replace_first_char (CHR ''_'') (CHR '' '') (toLowerCase (product_status_name now))
             @ '' application cannot be '' @ toLowerCase (decision_name decision) @ ''.''))))"

definition REASON_REQUIRED :: "decision list" where
  "REASON_REQUIRED = [D_REJECTED]"

datatype notice_severity = SUCCESS | ERROR

record customer_notice =
  cn_severity :: notice_severity
  cn_title :: string
  cn_body :: string

definition customerNotice :: "decision \<Rightarrow> string \<Rightarrow> string option \<Rightarrow> customer_notice" where
  "customerNotice decision senderId reason =
     (if decision = D_APPROVED
      then \<lparr>cn_severity = SUCCESS,
        cn_title = ''Sender ID '' @ senderId @ '' approved'',
        cn_body = ''Your sender ID '' @ senderId
          @ '' has been approved. Messages from your project now go out under it.''\<rparr>
      else \<lparr>cn_severity = ERROR,
        cn_title = ''Sender ID '' @ senderId @ '' was not approved'',
        cn_body = (case reason of None \<Rightarrow> ''Your application was not approved.'' | Some r \<Rightarrow> trim r)
          @ '' You can edit your application and submit it again.''\<rparr>)"

definition CHECKLIST :: "(string \<times> string) list" where
  "CHECKLIST =
     [(''business_registration_matches'', ''Business registration matches the applicant''),
      (''loa_signed'', ''Letter of authorisation is signed''),
      (''matches_brand'', ''Sender ID matches the brand''),
      (''sample_content_ok'', ''Sample message content is acceptable'')]"

section \<open>Facts\<close>

lemma AS_PRODUCT_keys_complete: "set AS_PRODUCT_keys = UNIV"
proof -
  have "x \<in> set AS_PRODUCT_keys" for x
    by (cases x) (simp_all add: AS_PRODUCT_keys_def)
  then show ?thesis by auto
qed

lemma review_status_of_name [simp]: "review_status_of (review_status_name st) = Some st"
  by (cases st) (simp_all add: review_status_of_def AS_PRODUCT_keys_def)

lemma presentStatus_name [simp]: "presentStatus (review_status_name st) = AS_PRODUCT st"
  by (simp add: presentStatus_def)

lemma presentStatus_not_draft [simp]: "presentStatus s \<noteq> PS_DRAFT"
proof -
  have "AS_PRODUCT st \<noteq> PS_DRAFT" for st by (cases st) simp_all
  then show ?thesis by (simp add: presentStatus_def split: option.split)
qed

lemma toReviewStatus_range:
  "toReviewStatus s = Some st \<Longrightarrow> st \<in> {RS_SUBMITTED, RS_APPROVED, RS_REJECTED}"
  by (auto simp: toReviewStatus_def Let_def split: if_splits)

lemma toReviewStatus_product [simp]:
  "toReviewStatus ''PENDING_REVIEW'' = Some RS_SUBMITTED"
  "toReviewStatus ''APPROVED'' = Some RS_APPROVED"
  "toReviewStatus ''REJECTED'' = Some RS_REJECTED"
  "toReviewStatus ''DRAFT'' = None"
  by code_simp+

lemma toReviewStatus_decision [simp]:
  "toReviewStatus (decision_name d) = Some (decision_status d)"
  by (cases d) simp_all

lemma presentStatus_decision [simp]: "presentStatus (decision_name d) = AS_PRODUCT (decision_status d)"
  by (cases d) (simp_all add: presentStatus_def review_status_of_def AS_PRODUCT_keys_def)

lemma presentStatus_literals [simp]:
  "presentStatus ''APPROVED'' = PS_APPROVED"
  "presentStatus ''REJECTED'' = PS_REJECTED"
  "presentStatus ''SUBMITTED'' = PS_PENDING_REVIEW"
  "presentStatus ''IN_REVIEW'' = PS_PENDING_REVIEW"
  by (simp_all add: presentStatus_def review_status_of_def AS_PRODUCT_keys_def)

lemma reviewStatusesFor_iff: "st \<in> set (reviewStatusesFor p) \<longleftrightarrow> AS_PRODUCT st = p"
  by (simp add: reviewStatusesFor_def AS_PRODUCT_keys_complete)

text \<open>The review queue's policy: the locale's laws, for the code's own tables.\<close>

interpretation sid_policy: decision_policy allowedDecisions "\<lambda>d st. assertDecision st d"
  by unfold_locales (auto simp: assertDecision_def Let_def)

lemma allowedDecisions_change:
  "d \<in> set (allowedDecisions st) \<Longrightarrow> AS_PRODUCT (decision_status d) \<noteq> presentStatus st"
  by (cases d) (auto simp: allowedDecisions_def split: product_status.splits)

end
