(* ===== verification/Inbox.thy ===== *)
theory Inbox
  imports Admin_Model
begin

text \<open>
  \<open>modules/inbox\<close>: the gateway that writes staff notifications (to everyone whose role or
  personal grants carry a permission, or to one staff member), pushes them over SSE and emails
  those who asked for the alert's type, and the controller's read marks.
  Delivery itself (Redis, SES) is outside: the state records the publishes and the mails handed
  over, and a failed mail batch is only logged by the code.
\<close>

datatype risk_severity = LOW | MEDIUM | HIGH | CRITICAL

record staff_alert =
  al_type :: string
  al_severity :: risk_severity
  al_title :: string
  al_body :: "string option"
  al_link :: "string option"

record staff_note =
  no_id :: nat
  no_staffId :: string
  no_alert :: staff_alert
  no_readAt :: "millis option"
  no_emailedAt :: "millis option"

record outbound_mail =
  ml_to :: string
  ml_subject :: string
  ml_html :: string

record inbox_state =
  ib_staff :: "staff_row list"
  ib_roles :: "role_row list"
  ib_notes :: "staff_note list"
  ib_nextNote :: nat
  ib_pushed :: "(string \<times> staff_alert) list"
  ib_mails :: "outbound_mail list"

definition role_permissions :: "role_row list \<Rightarrow> string \<Rightarrow> string list" where
  "role_permissions roles roleId =
     (case find_row (\<lambda>r. ro_id r = roleId) roles of None \<Rightarrow> [] | Some r \<Rightarrow> ro_permissions r)"

text \<open>The staff rows the broadcast's query selects.\<close>

definition holds_permission :: "role_row list \<Rightarrow> string \<Rightarrow> staff_row \<Rightarrow> bool" where
  "holds_permission roles perm st \<longleftrightarrow>
     st_status st = ACTIVE \<and>
     (js_includes (role_permissions roles (st_roleId st)) perm
      \<or> js_includes (st_extraPermissions st) perm)"

fun html_escape_char :: "char \<Rightarrow> string" where
  "html_escape_char c =
     (if c = CHR ''&'' then ''&#38;'' else if c = CHR ''<'' then ''&#60;''
      else if c = CHR ''>'' then ''&#62;'' else if c = CHR 0x22 then ''&#34;''
      else if c = CHR 0x27 then ''&#39;'' else [c])"

definition escapeHtml :: "string \<Rightarrow> string" where
  "escapeHtml value = concat (map html_escape_char value)"

definition alert_mail :: "staff_alert \<Rightarrow> staff_row \<Rightarrow> outbound_mail" where
  "alert_mail alert r = \<lparr>ml_to = st_email r,
     ml_subject = ''[Zapiack Admin] '' @ al_title alert,
     ml_html = ''<p>'' @ escapeHtml (al_title alert) @ ''</p>'' @
       (case al_body alert of None \<Rightarrow> [] | Some b \<Rightarrow>
         if b = [] then [] else ''<p>'' @ escapeHtml b @ ''</p>'')\<rparr>"

text \<open>\<open>createMany\<close>: one unread, unmailed row per staff id, numbered from the next id.\<close>

fun new_notes :: "nat \<Rightarrow> staff_alert \<Rightarrow> string list \<Rightarrow> staff_note list" where
  "new_notes n alert [] = []"
| "new_notes n alert (sid # sids) =
     \<lparr>no_id = n, no_staffId = sid, no_alert = alert, no_readAt = None, no_emailedAt = None\<rparr>
     # new_notes (Suc n) alert sids"

text \<open>The rows and the SSE publishes of a broadcast; then the mails of those who asked for them.\<close>

definition store_alert :: "staff_row list \<Rightarrow> staff_alert \<Rightarrow> inbox_state \<Rightarrow> inbox_state" where
  "store_alert recipients alert s =
     s\<lparr>ib_notes := ib_notes s @ new_notes (ib_nextNote s) alert (map st_id recipients),
       ib_nextNote := ib_nextNote s + length recipients,
       ib_pushed := ib_pushed s @ map (\<lambda>r. (''staff:'' @ st_id r, alert)) recipients\<rparr>"

definition mail_alert :: "millis \<Rightarrow> staff_row list \<Rightarrow> staff_alert \<Rightarrow> inbox_state \<Rightarrow> inbox_state" where
  "mail_alert now wantsEmail alert s =
     s\<lparr>ib_mails := ib_mails s @ map (alert_mail alert) wantsEmail,
       ib_notes := update_where
         (\<lambda>n. no_staffId n \<in> set (map st_id wantsEmail)
            \<and> al_type (no_alert n) = al_type alert \<and> no_emailedAt n = None)
         (\<lambda>n. n\<lparr>no_emailedAt := Some now\<rparr>) (ib_notes s)\<rparr>"

definition broadcastToPermission ::
  "millis \<Rightarrow> string \<Rightarrow> staff_alert \<Rightarrow> inbox_state \<Rightarrow> nat \<times> inbox_state" where
  "broadcastToPermission now perm alert s =
     (let recipients = filter (holds_permission (ib_roles s) perm) (ib_staff s) in
      if recipients = [] then (0, s)
      else
        (let wantsEmail = filter (\<lambda>r. js_includes (st_emailPrefs r) (al_type alert)) recipients;
             s1 = store_alert recipients alert s
         in (length recipients,
             if wantsEmail = [] then s1 else mail_alert now wantsEmail alert s1)))"

definition notifyStaff :: "string \<Rightarrow> staff_alert \<Rightarrow> inbox_state \<Rightarrow> inbox_state" where
  "notifyStaff staffId alert s =
     s\<lparr>ib_notes := ib_notes s @ new_notes (ib_nextNote s) alert [staffId],
       ib_nextNote := Suc (ib_nextNote s),
       ib_pushed := ib_pushed s @ [(''staff:'' @ staffId, alert)]\<rparr>"

definition inbox_unread :: "string \<Rightarrow> inbox_state \<Rightarrow> nat" where
  "inbox_unread staffId s = count_where (\<lambda>n. no_staffId n = staffId \<and> no_readAt n = None) (ib_notes s)"

definition markRead :: "millis \<Rightarrow> string \<Rightarrow> nat \<Rightarrow> inbox_state \<Rightarrow> inbox_state" where
  "markRead now staffId i s =
     s\<lparr>ib_notes := update_where
        (\<lambda>n. no_id n = i \<and> no_staffId n = staffId \<and> no_readAt n = None)
        (\<lambda>n. n\<lparr>no_readAt := Some now\<rparr>) (ib_notes s)\<rparr>"

definition markAllRead :: "millis \<Rightarrow> string \<Rightarrow> inbox_state \<Rightarrow> nat \<times> inbox_state" where
  "markAllRead now staffId s =
     (0, s\<lparr>ib_notes := update_where (\<lambda>n. no_staffId n = staffId \<and> no_readAt n = None)
        (\<lambda>n. n\<lparr>no_readAt := Some now\<rparr>) (ib_notes s)\<rparr>)"

section \<open>Facts\<close>

lemma new_notes_staff: "map no_staffId (new_notes n alert sids) = sids"
  by (induction n alert sids rule: new_notes.induct) auto

lemma new_notes_alert: "x \<in> set (new_notes n alert sids) \<Longrightarrow> no_alert x = alert"
  by (induction n alert sids rule: new_notes.induct) auto

lemma new_notes_ids: "map no_id (new_notes n alert sids) = [n ..< n + length sids]"
proof (induction n alert sids rule: new_notes.induct)
  case (2 n alert sid sids)
  then show ?case
    by (simp add: upt_rec)
qed simp

lemma new_notes_eq_Nil [simp]: "new_notes n alert sids = [] \<longleftrightarrow> sids = []"
  by (cases sids) auto

definition sees_alert :: "inbox_state \<Rightarrow> staff_alert \<Rightarrow> bool" where
  "sees_alert s alert \<longleftrightarrow> (\<exists>n \<in> set (ib_notes s). no_alert n = alert)"

lemma notifyStaff_sees [simp]: "sees_alert (notifyStaff sid alert s) alert"
  by (simp add: sees_alert_def notifyStaff_def)

text \<open>A broadcast adds one note per recipient and changes no note's alert, reader or owner.\<close>

lemma emailed_frame [simp]:
  "map no_alert (update_where p (\<lambda>n. n\<lparr>no_emailedAt := t\<rparr>) ns) = map no_alert ns"
  "map no_staffId (update_where p (\<lambda>n. n\<lparr>no_emailedAt := t\<rparr>) ns) = map no_staffId ns"
  by (induction ns) auto

lemma new_notes_alerts: "map no_alert (new_notes n alert sids) = replicate (length sids) alert"
  by (induction n alert sids rule: new_notes.induct) auto

lemma mail_alert_frame [simp]:
  "map no_alert (ib_notes (mail_alert now w alert s)) = map no_alert (ib_notes s)"
  "map no_staffId (ib_notes (mail_alert now w alert s)) = map no_staffId (ib_notes s)"
  "ib_staff (mail_alert now w alert s) = ib_staff s"
  "ib_roles (mail_alert now w alert s) = ib_roles s"
  by (simp_all add: mail_alert_def)

lemma store_alert_effect [simp]:
  "map no_alert (ib_notes (store_alert rs alert s)) = map no_alert (ib_notes s) @ replicate (length rs) alert"
  "map no_staffId (ib_notes (store_alert rs alert s)) = map no_staffId (ib_notes s) @ map st_id rs"
  "ib_staff (store_alert rs alert s) = ib_staff s"
  "ib_roles (store_alert rs alert s) = ib_roles s"
  by (simp_all add: store_alert_def new_notes_alerts new_notes_staff)

lemma broadcast_staff [simp]:
  "ib_staff (snd (broadcastToPermission now perm alert s)) = ib_staff s"
  "ib_roles (snd (broadcastToPermission now perm alert s)) = ib_roles s"
  by (simp_all add: broadcastToPermission_def Let_def)

lemma broadcast_notes:
  "map no_alert (ib_notes (snd (broadcastToPermission now perm alert s))) =
     map no_alert (ib_notes s)
     @ replicate (length (filter (holds_permission (ib_roles s) perm) (ib_staff s))) alert"
  by (simp add: broadcastToPermission_def Let_def del: filter_empty_conv)

lemma broadcast_owners:
  "map no_staffId (ib_notes (snd (broadcastToPermission now perm alert s))) =
     map no_staffId (ib_notes s)
     @ map st_id (filter (holds_permission (ib_roles s) perm) (ib_staff s))"
  by (simp add: broadcastToPermission_def Let_def del: filter_empty_conv)

lemma markAllRead_unread: "inbox_unread staffId (snd (markAllRead now staffId s)) = 0"
  by (simp add: inbox_unread_def markAllRead_def count_where_cleared)

lemma markRead_others:
  assumes "other \<noteq> staffId"
  shows "filter (\<lambda>n. no_staffId n = other) (ib_notes (markRead now staffId i s)) =
    filter (\<lambda>n. no_staffId n = other) (ib_notes s)"
proof -
  have "filter (\<lambda>n. no_staffId n = other)
      (update_where (\<lambda>n. no_id n = i \<and> no_staffId n = staffId \<and> no_readAt n = None)
        (\<lambda>n. n\<lparr>no_readAt := Some now\<rparr>) ns) = filter (\<lambda>n. no_staffId n = other) ns" for ns
    using assms by (induction ns) auto
  then show ?thesis by (simp add: markRead_def)
qed

end
