(* ===== verification/Pagination.thy ===== *)
theory Pagination
  imports Js_String "HOL-Library.List_Lexorder" "HOL-Library.Char_ord" "HOL-Library.Product_Lexorder"
begin

text \<open>
  \<open>common/http/pagination.ts\<close>: keyset pagination.  A page is built from limit + 1 fetched rows;
  the cursor is the sort key of the last row shown.  The cursor token is represented by the key
  it encodes.  The locale states what any keyset walk over a sorted query needs; it is
  interpreted here on the code's descending (createdAt, id) order and, in \<open>Sender_Ids\<close>, on the
  review queue's ascending (slaDueAt, id) order.
\<close>

section \<open>Pages\<close>

record ('r, 'c) page =
  pg_data :: "'r list"
  pg_next :: "'c option"
  pg_hasMore :: bool

definition buildPage :: "('r \<Rightarrow> 'c) \<Rightarrow> 'r list \<Rightarrow> nat \<Rightarrow> ('r, 'c) page" where
  "buildPage key rows limit =
     (let hasMore = length rows > limit;
          data = (if hasMore then take limit rows else rows)
      in \<lparr>pg_data = data,
          pg_next = (if hasMore \<and> data \<noteq> [] then Some (key (last data)) else None),
          pg_hasMore = hasMore\<rparr>)"

text \<open>The row's sort key; \<open>createdAt\<close> in milliseconds.\<close>

type_synonym cursor_key = "millis \<times> string"

definition cursorWhere :: "cursor_key option \<Rightarrow> cursor_key \<Rightarrow> bool" where
  "cursorWhere cursor row =
     (case cursor of None \<Rightarrow> True
      | Some (createdAt, rowId) \<Rightarrow> fst row < createdAt \<or> (fst row = createdAt \<and> snd row < rowId))"

text \<open>
  The services' query: the rows after the cursor that match the filter, newest first,
  ties by descending id, at most \<open>n\<close> of them.
\<close>

definition newest_first :: "('r \<Rightarrow> cursor_key) \<Rightarrow> 'r list \<Rightarrow> 'r list" where
  "newest_first key rows = rev (sort_key key rows)"

definition findMany_desc :: "('r \<Rightarrow> cursor_key) \<Rightarrow> cursor_key option \<Rightarrow> nat \<Rightarrow> 'r list \<Rightarrow> 'r list" where
  "findMany_desc key cursor n rows =
     take n (filter (\<lambda>r. cursorWhere cursor (key r)) (newest_first key rows))"

text \<open>A client that follows the cursors, for at most \<open>fuel\<close> requests.\<close>

fun walk_pages :: "('c option \<Rightarrow> ('r, 'c) page) \<Rightarrow> nat \<Rightarrow> 'c option \<Rightarrow> 'r list" where
  "walk_pages load 0 c = []"
| "walk_pages load (Suc fuel) c =
     (let p = load c in pg_data p @
        (case pg_next p of None \<Rightarrow> [] | Some k \<Rightarrow> walk_pages load fuel (Some k)))"

text \<open>A page whose rows are shown through a function.\<close>

definition map_page :: "('r \<Rightarrow> 'd) \<Rightarrow> ('r, 'c) page \<Rightarrow> ('d, 'c) page" where
  "map_page f p = \<lparr>pg_data = map f (pg_data p), pg_next = pg_next p, pg_hasMore = pg_hasMore p\<rparr>"

lemma walk_map_page: "walk_pages (\<lambda>c. map_page f (load c)) n c = map f (walk_pages load n c)"
  by (induction n arbitrary: c) (auto simp: map_page_def Let_def split: option.split)

section \<open>Keyset walks\<close>

locale keyset_paging =
  fixes key :: "'r \<Rightarrow> 'k"
    and before :: "'k \<Rightarrow> 'k \<Rightarrow> bool"
    and ordered :: "'r list \<Rightarrow> 'r list"
    and fetch :: "'k option \<Rightarrow> nat \<Rightarrow> 'r list \<Rightarrow> 'r list"
  assumes before_asym: "before a b \<Longrightarrow> \<not> before b a"
    and ordered_sorted: "distinct (map key rows) \<Longrightarrow> sorted_wrt before (map key (ordered rows))"
    and fetch_first: "fetch None n rows = take n (ordered rows)"
    and fetch_after: "fetch (Some k) n rows = take n (filter (\<lambda>r. before k (key r)) (ordered rows))"
begin

lemma after_cursor:
  assumes "sorted_wrt before (map key (A @ B))" "A \<noteq> []"
  shows "filter (\<lambda>r. before (key (last A)) (key r)) (A @ B) = B"
proof -
  have "before (key (last A)) (key b)" if "b \<in> set B" for b
    using assms that last_in_set [OF assms(2)] by (auto simp: sorted_wrt_append)
  moreover have "\<not> before (key (last A)) (key a)" if "a \<in> set A" for a
  proof -
    obtain A' l where A: "A = A' @ [l]"
      using assms(2) by (cases A rule: rev_cases) auto
    show ?thesis
    proof (cases "a = l")
      case True
      then show ?thesis using A before_asym by fastforce
    next
      case False
      then have "before (key a) (key l)"
        using assms(1) that A by (auto simp: sorted_wrt_append)
      then show ?thesis using A before_asym by auto
    qed
  qed
  ultimately have "filter (\<lambda>r. before (key (last A)) (key r)) A = []"
    "filter (\<lambda>r. before (key (last A)) (key r)) B = B"
    by (auto intro: filter_True)
  then show ?thesis by simp
qed

definition page_at :: "nat \<Rightarrow> 'r list \<Rightarrow> 'k option \<Rightarrow> ('r, 'k) page" where
  "page_at limit rows c = buildPage key (fetch c (limit + 1) rows) limit"

lemma walk_suffix:
  assumes "distinct (map key rows)" "0 < limit" "ordered rows = A @ B"
    "c = (if A = [] then None else Some (key (last A)))" "length B < fuel"
  shows "walk_pages (page_at limit rows) fuel c = B"
  using assms(3-5)
proof (induction fuel arbitrary: A B c)
  case 0
  then show ?case by simp
next
  case (Suc fuel)
  have srt: "sorted_wrt before (map key (A @ B))"
    using ordered_sorted [OF assms(1)] Suc.prems(1) by simp
  have f: "fetch c (Suc limit) rows = take (Suc limit) B"
    using Suc.prems(1,2) after_cursor [OF srt] fetch_first fetch_after by auto
  show ?case
  proof (cases "length B > limit")
    case False
    then have "page_at limit rows c = \<lparr>pg_data = B, pg_next = None, pg_hasMore = False\<rparr>"
      using f by (simp add: page_at_def buildPage_def)
    then show ?thesis by simp
  next
    case True
    have ne: "take limit B \<noteq> []" using True assms(2) by auto
    have "walk_pages (page_at limit rows) fuel (Some (key (last (take limit B)))) = drop limit B"
    proof (rule Suc.IH)
      show "ordered rows = (A @ take limit B) @ drop limit B"
        using Suc.prems(1) by simp
      show "Some (key (last (take limit B))) =
          (if A @ take limit B = [] then None else Some (key (last (A @ take limit B))))"
        using ne by simp
      show "length (drop limit B) < fuel"
        using Suc.prems(3) True assms(2) by simp
    qed
    moreover have "page_at limit rows c = \<lparr>pg_data = take limit B,
        pg_next = Some (key (last (take limit B))), pg_hasMore = True\<rparr>"
      using True ne f by (simp add: page_at_def buildPage_def min_def Let_def)
    ultimately show ?thesis by simp
  qed
qed

text \<open>Following the cursors shows every row exactly once, in order.\<close>

lemma walk_complete:
  assumes "distinct (map key rows)" "0 < limit" "length (ordered rows) < fuel"
  shows "walk_pages (page_at limit rows) fuel None = ordered rows"
  using walk_suffix [of rows limit "[]" "ordered rows" None fuel] assms by simp

end

lemma sorted_desc:
  assumes "distinct (map key rows)"
  shows "sorted_wrt (\<lambda>a b. b < a) (map key (newest_first key rows))"
proof -
  have "sorted_wrt (<) (map key (sort_key key rows))"
    using assms by (simp add: strict_sorted_iff distinct_map inj_on_def)
  then show ?thesis
    by (simp add: newest_first_def rev_map [symmetric] sorted_wrt_rev)
qed

interpretation desc_paging: keyset_paging key "\<lambda>a b. b < a" "newest_first key" "findMany_desc key"
  for key :: "'r \<Rightarrow> cursor_key"
proof unfold_locales
  fix rows :: "'r list"
  assume "distinct (map key rows)"
  then show "sorted_wrt (\<lambda>a b. b < a) (map key (newest_first key rows))"
    by (rule sorted_desc)
qed (auto simp: findMany_desc_def cursorWhere_def less_prod_def split: prod.splits
       intro!: arg_cong [where f = "take _"] filter_cong)

text \<open>
  Following nextCursor from the first page of a newest-first list shows every row of the
  table exactly once and in order, whatever the page size, as long as no two rows share both
  createdAt and id.
\<close>

theorem desc_pages_cover_rows:
  assumes "distinct (map key rows)" "0 < limit" "length rows < fuel"
  shows "walk_pages (\<lambda>c. buildPage key (findMany_desc key c (limit + 1) rows) limit) fuel None =
    rev (sort_key key rows)"
proof -
  have "length (newest_first key rows) < fuel"
    using assms(3) by (simp add: newest_first_def)
  from desc_paging.walk_complete [OF assms(1,2) this] show ?thesis
    by (simp add: desc_paging.page_at_def [abs_def] newest_first_def)
qed

end
