(* ===== verification/Sender_Ids.thy ===== *)
theory Sender_Ids
  imports Sender_Id_State Inbox Pagination
begin

text \<open>
  \<open>modules/sender-ids/sender-ids.service.ts\<close>: the compliance queue.  The application is a row of
  the product database; the review (status, assignee, checklist, history, SLA clock) is a row of
  the Admin database keyed by the application id.  The state holds both, the product's customer
  notifications, the staff inbox, the audit log, and the product-cache keys and live updates the
  service asked Redis for (best effort in the code, so only recorded).
\<close>

section \<open>State\<close>

record application =
  ap_id :: string
  ap_accountId :: string
  ap_projectId :: string
  ap_senderId :: string
  ap_status :: string
  ap_submittedAt :: "millis option"
  ap_createdAt :: millis
  ap_updatedAt :: millis
  ap_reviewedAt :: "millis option"
  ap_rejectionReason :: "string option"

record checklist_item =
  ck_key :: string
  ck_label :: string
  ck_passed :: "bool option"
  ck_note :: "string option"
  ck_checkedBy :: "string option"
  ck_checkedAt :: "millis option"

record review_event =
  ev_from :: "review_status option"
  ev_to :: review_status
  ev_actorId :: "string option"
  ev_comment :: "string option"

record review =
  rv_id :: string
  rv_applicationId :: string
  rv_accountId :: string
  rv_senderId :: string
  rv_status :: review_status
  rv_assigneeId :: "string option"
  rv_submittedAt :: millis
  rv_slaDueAt :: millis
  rv_decidedAt :: "millis option"
  rv_decisionReason :: "string option"
  rv_checklist :: "checklist_item list"
  rv_events :: "review_event list"

record user_notification =
  un_userId :: string
  un_accountId :: string
  un_type :: string
  un_severity :: string
  un_title :: string
  un_body :: string
  un_actionUrl :: "string option"
  un_metadata :: json

record sid_state =
  ss_reviews :: "review list"
  ss_apps :: "application list"
  ss_accounts :: "string \<rightharpoonup> string"
  ss_userNotes :: "user_notification list"
  ss_inbox :: inbox_state
  ss_audit :: "audit_row list"
  ss_cacheDel :: "string list"
  ss_nudged :: "string list"

definition SLA_HOURS :: int where
  "SLA_HOURS = 24"

definition hour_ms :: int where
  "hour_ms = 3600000"

abbreviation find_review :: "string \<Rightarrow> sid_state \<Rightarrow> review option" where
  "find_review i s \<equiv> find_row (\<lambda>r. rv_id r = i) (ss_reviews s)"

abbreviation find_review_of :: "string \<Rightarrow> sid_state \<Rightarrow> review option" where
  "find_review_of appId s \<equiv> find_row (\<lambda>r. rv_applicationId r = appId) (ss_reviews s)"

abbreviation find_app :: "string \<Rightarrow> sid_state \<Rightarrow> application option" where
  "find_app i s \<equiv> find_row (\<lambda>a. ap_id a = i) (ss_apps s)"

definition update_review :: "string \<Rightarrow> (review \<Rightarrow> review) \<Rightarrow> sid_state \<Rightarrow> sid_state" where
  "update_review i f s = s\<lparr>ss_reviews := update_where (\<lambda>r. rv_id r = i) f (ss_reviews s)\<rparr>"

section \<open>Creating and importing reviews\<close>

definition initial_checklist :: "checklist_item list" where
  "initial_checklist = map (\<lambda>(k, l). \<lparr>ck_key = k, ck_label = l, ck_passed = None, ck_note = None,
     ck_checkedBy = None, ck_checkedAt = None\<rparr>) CHECKLIST"

text \<open>The row \<open>ensureReview\<close> creates for a filed application.\<close>

definition new_review :: "millis \<Rightarrow> string \<Rightarrow> application \<Rightarrow> review_status \<Rightarrow> review" where
  "new_review now newId a status =
     (let submittedAt = (case ap_submittedAt a of None \<Rightarrow> ap_createdAt a | Some t \<Rightarrow> t);
          decided = js_includes [''APPROVED'', ''REJECTED'', ''ACTIVE'', ''OPERATOR_REJECTED'']
                      (review_status_name status)
      in \<lparr>rv_id = newId, rv_applicationId = ap_id a, rv_accountId = ap_accountId a,
          rv_senderId = ap_senderId a, rv_status = status, rv_assigneeId = None,
          rv_submittedAt = submittedAt, rv_slaDueAt = submittedAt + SLA_HOURS * hour_ms,
          rv_decidedAt = (if decided
            then Some (case ap_reviewedAt a of None \<Rightarrow> now | Some t \<Rightarrow> t) else None),
          rv_decisionReason = ap_rejectionReason a,
          rv_checklist = initial_checklist,
          rv_events = [\<lparr>ev_from = None, ev_to = status, ev_actorId = None,
            ev_comment = Some ''Application received''\<rparr>]\<rparr>)"

text \<open>\<open>toISO\<close> stands for Date.prototype.toISOString in the alert's body.\<close>

definition ensureReview ::
  "(millis \<Rightarrow> string) \<Rightarrow> millis \<Rightarrow> string \<Rightarrow> string \<Rightarrow> bool \<Rightarrow> sid_state \<Rightarrow> (sid_state, review option) outcome" where
  "ensureReview toISO now newId applicationId notify s =
     (case find_review_of applicationId s of
        Some existing \<Rightarrow> returns (Some existing) s
      | None \<Rightarrow>
        (case find_app applicationId s of
           None \<Rightarrow> throws (NotFound ''Sender ID application not found'') s
         | Some application \<Rightarrow>
           (case toReviewStatus (ap_status application) of
              None \<Rightarrow> returns None s
            | Some status \<Rightarrow>
              (let review = new_review now newId application status;
                   s1 = s\<lparr>ss_reviews := ss_reviews s @ [review]\<rparr>
               in if \<not> notify then returns (Some review) s1
                  else returns (Some review) (s1\<lparr>ss_inbox := snd (broadcastToPermission now ''senderid.review''
                    \<lparr>al_type = ''senderid.submitted'', al_severity = MEDIUM,
                      al_title = ''New sender ID application: '' @ ap_senderId application,
                      al_body = Some (''Due for review by '' @ toISO (rv_slaDueAt review)),
                      al_link = Some (''/sender-ids/'' @ rv_id review)\<rparr> (ss_inbox s1))\<rparr>)))))"

text \<open>One review against the application the product has now; None where nothing drifted.\<close>

definition refresh_review :: "millis \<Rightarrow> application list \<Rightarrow> review \<Rightarrow> review option" where
  "refresh_review now apps review =
     (case find_row (\<lambda>a. ap_id a = rv_applicationId review) apps of
        None \<Rightarrow> None
      | Some application \<Rightarrow>
        (case toReviewStatus (ap_status application) of
           None \<Rightarrow> None
         | Some mapped \<Rightarrow>
           if presentStatus (review_status_name mapped)
              = presentStatus (review_status_name (rv_status review)) then None
           else
             (let decided = (mapped = RS_APPROVED \<or> mapped = RS_REJECTED);
                  resubmitted = (\<not> decided);
                  submittedAt = (case ap_submittedAt application of None \<Rightarrow> now | Some t \<Rightarrow> t);
                  r1 = review\<lparr>rv_status := mapped,
                    rv_decidedAt := (if decided
                      then Some (case ap_reviewedAt application of None \<Rightarrow> now | Some t \<Rightarrow> t) else None),
                    rv_decisionReason := (if decided then ap_rejectionReason application else None)\<rparr>;
                  r2 = (if resubmitted
                    then r1\<lparr>rv_submittedAt := submittedAt,
                            rv_slaDueAt := submittedAt + SLA_HOURS * hour_ms,
                            rv_assigneeId := None,
                            rv_checklist := map (\<lambda>c. c\<lparr>ck_passed := None\<rparr>) (rv_checklist r1)\<rparr>
                    else r1)
              in Some (r2\<lparr>rv_events := rv_events r2 @ [\<lparr>ev_from = Some (rv_status review), ev_to = mapped,
                   ev_actorId = None,
                   ev_comment = Some (if resubmitted then ''Resubmitted by the customer''
                     else ''Status changed in the Zapiack app'')\<rparr>]\<rparr>))))"

definition refreshDrifted :: "millis \<Rightarrow> application list \<Rightarrow> review list \<Rightarrow> nat \<times> review list" where
  "refreshDrifted now apps reviews =
     (count_where (\<lambda>r. refresh_review now apps r \<noteq> None) reviews,
      map (\<lambda>r. case refresh_review now apps r of None \<Rightarrow> r | Some r' \<Rightarrow> r') reviews)"

text \<open>The counter object of skipped statuses, in the order their keys were first written.\<close>

fun bump_count :: "string \<Rightarrow> (string \<times> nat) list \<Rightarrow> (string \<times> nat) list" where
  "bump_count k [] = [(k, 1)]"
| "bump_count k ((k', n) # kvs) = (if k = k' then (k', Suc n) # kvs else (k', n) # bump_count k kvs)"

text \<open>The import loop over the missing applications; a lost race (P2002) is swallowed.\<close>

fun import_missing ::
  "(millis \<Rightarrow> string) \<Rightarrow> millis \<Rightarrow> (string \<Rightarrow> string) \<Rightarrow> bool \<Rightarrow> application list \<Rightarrow> nat \<Rightarrow> (string \<times> nat) list
   \<Rightarrow> sid_state \<Rightarrow> (sid_state, nat \<times> (string \<times> nat) list) outcome" where
  "import_missing toISO now newId loud [] created unmapped s = returns (created, unmapped) s"
| "import_missing toISO now newId loud (a # as) created unmapped s =
     (if toUpperCase (trim (ap_status a)) = ''DRAFT'' then import_missing toISO now newId loud as created unmapped s
      else if toReviewStatus (ap_status a) = None
      then import_missing toISO now newId loud as created
             (bump_count (if ap_status a = [] then ''(empty)'' else ap_status a) unmapped) s
      else (case ensureReview toISO now (newId (ap_id a)) (ap_id a) loud s of
              (Inr (Some _), s') \<Rightarrow> import_missing toISO now newId loud as (Suc created) unmapped s'
            | (Inr None, s') \<Rightarrow> import_missing toISO now newId loud as created unmapped s'
            | (Inl e, s') \<Rightarrow> (if e = UniqueViolation
                then import_missing toISO now newId loud as created unmapped s'
                else throws e s')))"

record sync_result =
  sy_created :: nat
  sy_refreshed :: nat
  sy_skipped :: "(string \<times> nat) list"

definition missing_apps :: "sid_state \<Rightarrow> application list" where
  "missing_apps s = filter (\<lambda>a. ap_id a \<notin> set (map rv_applicationId (ss_reviews s))) (ss_apps s)"

text \<open>\<open>nat_text\<close> stands for the decimal rendering of a count in the summary's title.\<close>

definition syncFromProduct ::
  "(nat \<Rightarrow> string) \<Rightarrow> (millis \<Rightarrow> string) \<Rightarrow> millis \<Rightarrow> (string \<Rightarrow> string) \<Rightarrow> sid_state \<Rightarrow> (sid_state, sync_result) outcome" where
  "syncFromProduct nat_text toISO now newId s =
     (let missing = missing_apps s;
          (refreshed, reviews) = refreshDrifted now (ss_apps s) (ss_reviews s);
          s1 = s\<lparr>ss_reviews := reviews\<rparr>;
          loud = (length missing \<le> 5)
      in case import_missing toISO now newId loud missing 0 [] s1 of
           (Inl e, s2) \<Rightarrow> throws e s2
         | (Inr (created, unmapped), s2) \<Rightarrow>
             (let s3 = (if \<not> loud \<and> created > 0
                then s2\<lparr>ss_inbox := snd (broadcastToPermission now ''senderid.review''
                  \<lparr>al_type = ''senderid.submitted'', al_severity = MEDIUM,
                    al_title = nat_text created @ '' sender ID applications imported'',
                    al_body = Some ''Existing applications were added to the review queue.'',
                    al_link = Some ''/sender-ids''\<rparr> (ss_inbox s2))\<rparr>
                else s2)
              in returns \<lparr>sy_created = created, sy_refreshed = refreshed, sy_skipped = unmapped\<rparr> s3))"

section \<open>Assignment and checklist\<close>

record assign_result =
  as_id :: string
  as_status :: product_status
  as_assigneeId :: "string option"

definition assign_review ::
  "principal \<Rightarrow> string \<Rightarrow> string option \<Rightarrow> sid_state \<Rightarrow> (sid_state, assign_result) outcome" where
  "assign_review actor reviewId assigneeId s =
     (let target = (case assigneeId of None \<Rightarrow> sp_id actor | Some t \<Rightarrow> t) in
      case find_review reviewId s of
        None \<Rightarrow> throws RecordNotFound s
      | Some before \<Rightarrow>
        (let s1 = update_review reviewId (\<lambda>r. r\<lparr>rv_assigneeId := Some target,
                rv_events := rv_events r @ [\<lparr>ev_from = Some (rv_status before), ev_to = rv_status before,
                  ev_actorId = Some (sp_id actor),
                  ev_comment = Some (''Assigned to '' @ (if target = sp_id actor then ''self'' else target))\<rparr>]\<rparr>) s;
             s2 = s1\<lparr>ss_audit := audit_record (staff_entry actor ''senderid.assigned'' ''sender_id_review'' reviewId
                None (JObj [(''assigneeId'', jstr_opt (rv_assigneeId before))])
                (JObj [(''assigneeId'', JStr target)]) JNull) (ss_audit s1)\<rparr>;
             s3 = (if target \<noteq> sp_id actor
                then s2\<lparr>ss_inbox := notifyStaff target
                  \<lparr>al_type = ''senderid.assigned'', al_severity = MEDIUM,
                    al_title = ''Sender ID '' @ rv_senderId before @ '' assigned to you'',
                    al_body = None, al_link = Some (''/sender-ids/'' @ reviewId)\<rparr> (ss_inbox s2)\<rparr>
                else s2)
         in returns \<lparr>as_id = reviewId,
              as_status = presentStatus (review_status_name (rv_status before)),
              as_assigneeId = Some target\<rparr> s3))"

record checklist_update =
  cu_key :: string
  cu_passed :: bool
  cu_note :: "string option"

text \<open>
  The transaction's updates, one per submitted item.  Each addresses the item by
  (reviewId, key), so the whole fails, and changes nothing, when the review has no such item.
  A note that is left out stays as it was.
\<close>

definition tick_item :: "principal \<Rightarrow> millis \<Rightarrow> checklist_update \<Rightarrow> checklist_item \<Rightarrow> checklist_item" where
  "tick_item actor now u c =
     c\<lparr>ck_passed := Some (cu_passed u),
       ck_note := (case cu_note u of None \<Rightarrow> ck_note c | Some n \<Rightarrow> Some n),
       ck_checkedBy := Some (sp_id actor), ck_checkedAt := Some now\<rparr>"

fun tick_items ::
  "principal \<Rightarrow> millis \<Rightarrow> checklist_update list \<Rightarrow> checklist_item list \<Rightarrow> checklist_item list option" where
  "tick_items actor now [] cs = Some cs"
| "tick_items actor now (u # us) cs =
     (if find_row (\<lambda>c. ck_key c = cu_key u) cs = None then None
      else tick_items actor now us (update_where (\<lambda>c. ck_key c = cu_key u) (tick_item actor now u) cs))"

definition update_json :: "checklist_update \<Rightarrow> json" where
  "update_json u = JObj ([(''key'', JStr (cu_key u)), (''passed'', JBool (cu_passed u))]
     @ (case cu_note u of None \<Rightarrow> [] | Some n \<Rightarrow> [(''note'', JStr n)]))"

definition updateChecklist ::
  "principal \<Rightarrow> millis \<Rightarrow> string \<Rightarrow> checklist_update list \<Rightarrow> sid_state \<Rightarrow> (sid_state, checklist_item list) outcome" where
  "updateChecklist actor now reviewId items s =
     (let known = map fst CHECKLIST;
          unknown = filter (\<lambda>i. cu_key i \<notin> set known) items
      in if unknown \<noteq> []
         then throws (BadRequest (''Unknown checklist items: '' @ join_with '', '' (map cu_key unknown))) s
         else (let current = (case find_review reviewId s of None \<Rightarrow> [] | Some r \<Rightarrow> rv_checklist r) in
           case tick_items actor now items current of
             None \<Rightarrow> throws RecordNotFound s
           | Some cs \<Rightarrow>
             (let s1 = update_review reviewId (\<lambda>r. r\<lparr>rv_checklist := cs\<rparr>) s;
                  s2 = s1\<lparr>ss_audit := audit_record (staff_entry actor ''senderid.checklist_updated''
                     ''sender_id_review'' reviewId None JNull
                     (JObj [(''items'', JArr (map update_json items))]) JNull) (ss_audit s1)\<rparr>
              in returns (sort_key ck_key cs) s2)))"

section \<open>Deciding\<close>

record decision_dto =
  dd_status :: string
  dd_reason :: "string option"

record decide_result =
  de_id :: string
  de_status :: product_status
  de_decidedAt :: "millis option"

text \<open>What the DTO asks for: the decision, and the reason the customer is shown.\<close>

definition dto_decision :: "decision_dto \<Rightarrow> decision" where
  "dto_decision dto = (if dd_status dto = ''APPROVED'' then D_APPROVED else D_REJECTED)"

definition dto_reason :: "decision_dto \<Rightarrow> string option" where
  "dto_reason dto =
     (let trimmed = map_option trim (dd_reason dto) in
      if dd_status dto = ''CHANGES_REQUESTED'' \<and> truthy trimmed
      then Some (''Changes requested: '' @ (case trimmed of None \<Rightarrow> [] | Some t \<Rightarrow> t))
      else trimmed)"

text \<open>The two checklist guards of an approval.\<close>

definition checklist_guard :: "review \<Rightarrow> unit result" where
  "checklist_guard review =
     (let unchecked = filter (\<lambda>i. ck_passed i = None) (rv_checklist review);
          failed = filter (\<lambda>i. ck_passed i = Some False) (rv_checklist review)
      in if unchecked \<noteq> []
         then Inl (BadRequest (''Complete the checklist before approving: '' @ join_with '', '' (map ck_key unchecked)))
         else if failed \<noteq> []
         then Inl (BadRequest (''Checklist items failed: '' @ join_with '', '' (map ck_key failed)
           @ ''. Reject the application instead.''))
         else Inr ())"

fun severity_name :: "notice_severity \<Rightarrow> string" where
  "severity_name SUCCESS = ''SUCCESS''"
| "severity_name ERROR = ''ERROR''"

text \<open>The product transaction: the application's row and, where the account exists, its owner's notification.\<close>

definition decide_tx :: "millis \<Rightarrow> decision \<Rightarrow> string option \<Rightarrow> review \<Rightarrow> sid_state \<Rightarrow> string option \<times> sid_state" where
  "decide_tx now decision reason review s =
     (let notice = customerNotice decision (rv_senderId review) reason;
          s1 = s\<lparr>ss_apps := update_where (\<lambda>a. ap_id a = rv_applicationId review)
             (\<lambda>a. a\<lparr>ap_status := decision_name decision,
                    ap_rejectionReason := (if decision = D_REJECTED then reason else None),
                    ap_reviewedAt := Some now\<rparr>) (ss_apps s)\<rparr>
      in case ss_accounts s (rv_accountId review) of
           None \<Rightarrow> (None, s1)
         | Some userId \<Rightarrow> (Some userId, s1\<lparr>ss_userNotes := ss_userNotes s1 @ [
             \<lparr>un_userId = userId, un_accountId = rv_accountId review, un_type = ''SENDER_ID'',
              un_severity = severity_name (cn_severity notice), un_title = cn_title notice,
              un_body = cn_body notice, un_actionUrl = Some ''/sender-ids'',
              un_metadata = JObj [(''applicationId'', JStr (rv_applicationId review)),
                (''status'', JStr (decision_name decision))]\<rparr>]\<rparr>))"

text \<open>The cache keys and live updates that follow the commit.\<close>

definition decide_cache :: "string \<Rightarrow> string option \<Rightarrow> sid_state \<Rightarrow> sid_state" where
  "decide_cache projectId userId s =
     (let s1 = s\<lparr>ss_cacheDel := ss_cacheDel s @ [''sender:'' @ projectId]\<rparr>
      in case userId of None \<Rightarrow> s1
         | Some u \<Rightarrow> if u = [] then s1 else s1\<lparr>ss_nudged := ss_nudged s1 @ [u]\<rparr>)"

definition decide_review :: "principal \<Rightarrow> millis \<Rightarrow> decision \<Rightarrow> string option \<Rightarrow> review \<Rightarrow> sid_state \<Rightarrow> sid_state" where
  "decide_review actor now decision reason review s =
     (let s1 = update_review (rv_id review) (\<lambda>r. r\<lparr>rv_status := decision_status decision,
            rv_decisionReason := reason, rv_decidedAt := Some now,
            rv_events := rv_events r @ [\<lparr>ev_from = Some (rv_status review), ev_to = decision_status decision,
              ev_actorId = Some (sp_id actor), ev_comment = reason\<rparr>]\<rparr>) s
      in s1\<lparr>ss_audit := audit_record (staff_entry actor
           (''senderid.'' @ toLowerCase (decision_name decision)) ''sender_id_application''
           (rv_applicationId review) reason
           (JObj [(''status'', JStr (product_status_name (presentStatus (review_status_name (rv_status review)))))])
           (JObj [(''status'', JStr (decision_name decision))])
           (JObj [(''reviewId'', JStr (rv_id review)), (''senderId'', JStr (rv_senderId review)),
             (''accountId'', JStr (rv_accountId review))])) (ss_audit s1)\<rparr>)"

definition decide ::
  "principal \<Rightarrow> millis \<Rightarrow> string \<Rightarrow> decision_dto \<Rightarrow> sid_state \<Rightarrow> (sid_state, decide_result) outcome" where
  "decide actor now reviewId dto s =
     (case find_review reviewId s of
        None \<Rightarrow> throws (NotFound ''Review not found'') s
      | Some review \<Rightarrow>
        (let decision = dto_decision dto; reason = dto_reason dto;
             from = review_status_name (rv_status review)
         in case assertDecision from decision of
              Inl e \<Rightarrow> throws e s
            | Inr _ \<Rightarrow>
              if js_includes REASON_REQUIRED decision \<and> \<not> truthy reason
              then throws (BadRequest
                ''A written reason is required to reject an application. The customer is shown it.'') s
              else (case (if decision = D_APPROVED then checklist_guard review else Inr ()) of
                Inl e \<Rightarrow> throws e s
              | Inr _ \<Rightarrow>
                (case find_app (rv_applicationId review) s of
                   None \<Rightarrow> throws (NotFound ''Application not found'') s
                 | Some application \<Rightarrow>
                   (let live = toReviewStatus (ap_status application) in
                    if live = None
                       \<or> presentStatus (case live of None \<Rightarrow> [] | Some l \<Rightarrow> review_status_name l) \<noteq> presentStatus from
                    then throws (Conflict (''This application changed in the customer's app and is now ''
                      @ replace_first_char (CHR ''_'') (CHR '' '') (toLowerCase (ap_status application))
                      @ ''. Refresh and review it again.'')) s
                    else (let (userId, s1) = decide_tx now decision reason review s;
                              s2 = decide_cache (ap_projectId application) userId s1;
                              s3 = decide_review actor now decision reason review s2
                          in returns \<lparr>de_id = reviewId,
                               de_status = presentStatus (review_status_name (decision_status decision)),
                               de_decidedAt = Some now\<rparr> s3))))))"

section \<open>The SLA sweep\<close>

definition sla_alert :: "(millis \<Rightarrow> string) \<Rightarrow> review \<Rightarrow> staff_alert" where
  "sla_alert toISO review = \<lparr>al_type = ''senderid.sla_breach'', al_severity = HIGH,
     al_title = ''Sender ID '' @ rv_senderId review @ '' is past its review SLA'',
     al_body = Some (''Due '' @ toISO (rv_slaDueAt review)),
     al_link = Some (''/sender-ids/'' @ rv_id review)\<rparr>"

definition is_overdue :: "millis \<Rightarrow> review \<Rightarrow> bool" where
  "is_overdue now r \<longleftrightarrow> rv_decidedAt r = None \<and> rv_slaDueAt r < now
     \<and> rv_status r \<in> {RS_SUBMITTED, RS_IN_REVIEW}"

definition already_alerted :: "staff_alert \<Rightarrow> inbox_state \<Rightarrow> bool" where
  "already_alerted alert s \<longleftrightarrow>
     find_row (\<lambda>n. al_type (no_alert n) = al_type alert \<and> al_link (no_alert n) = al_link alert) (ib_notes s) \<noteq> None"

definition sweep_one :: "(millis \<Rightarrow> string) \<Rightarrow> millis \<Rightarrow> review \<Rightarrow> inbox_state \<Rightarrow> inbox_state" where
  "sweep_one toISO now review s =
     (let alert = sla_alert toISO review in
      if already_alerted alert s then s
      else (case rv_assigneeId review of
              Some a \<Rightarrow> notifyStaff a alert s
            | None \<Rightarrow> snd (broadcastToPermission now ''senderid.review'' alert s)))"

definition sweepSlaBreaches :: "(millis \<Rightarrow> string) \<Rightarrow> millis \<Rightarrow> sid_state \<Rightarrow> nat \<times> sid_state" where
  "sweepSlaBreaches toISO now s =
     (let overdue = filter (is_overdue now) (ss_reviews s)
      in (length overdue, s\<lparr>ss_inbox := fold (sweep_one toISO now) overdue (ss_inbox s)\<rparr>))"

section \<open>The queue and the review screen\<close>

definition asProductStatus :: "string option \<Rightarrow> product_status option" where
  "asProductStatus status =
     (case status of None \<Rightarrow> None
      | Some s \<Rightarrow> if s = [] then None
          else if s = ''SUBMITTED'' \<or> s = ''IN_REVIEW'' then Some PS_PENDING_REVIEW
          else find (\<lambda>p. product_status_name p = s) PRODUCT_STATUSES)"

definition contains_ci :: "string \<Rightarrow> string \<Rightarrow> bool" where
  "contains_ci s q = contains_str (toLowerCase s) (toLowerCase q)"

record list_query =
  lq_status :: "string option"
  lq_assigneeId :: "string option"
  lq_overdueOnly :: bool
  lq_q :: "string option"

definition queue_filter :: "millis \<Rightarrow> list_query \<Rightarrow> review \<Rightarrow> bool" where
  "queue_filter now query r \<longleftrightarrow>
     (case asProductStatus (lq_status query) of None \<Rightarrow> True
      | Some wanted \<Rightarrow> rv_status r \<in> set (reviewStatusesFor wanted))
     \<and> (truthy (lq_assigneeId query) \<longrightarrow> rv_assigneeId r = lq_assigneeId query)
     \<and> (lq_overdueOnly query \<longrightarrow> rv_slaDueAt r < now \<and> rv_decidedAt r = None)
     \<and> (case lq_q query of None \<Rightarrow> True
        | Some q \<Rightarrow> q = [] \<or> contains_ci (rv_senderId r) q \<or> rv_accountId r = q \<or> rv_applicationId r = q)"

definition review_key :: "review \<Rightarrow> cursor_key" where
  "review_key r = (rv_slaDueAt r, rv_id r)"

text \<open>The keyset clause (after the cursor, by due date and then id) and the ordered query.\<close>

definition queue_after :: "cursor_key option \<Rightarrow> review \<Rightarrow> bool" where
  "queue_after after r \<longleftrightarrow>
     (case after of None \<Rightarrow> True
      | Some (slaDueAt, rowId) \<Rightarrow> slaDueAt < rv_slaDueAt r \<or> (rv_slaDueAt r = slaDueAt \<and> rowId < rv_id r))"

definition queue_rows :: "cursor_key option \<Rightarrow> nat \<Rightarrow> review list \<Rightarrow> review list" where
  "queue_rows after n rows = take n (filter (queue_after after) (sort_key review_key rows))"

record queue_row =
  qr_review :: review
  qr_status :: product_status
  qr_overdue :: bool
  qr_hoursRemaining :: "int option"

text \<open>Math.round(ms / 3600000).\<close>

definition round_hours :: "int \<Rightarrow> int" where
  "round_hours ms = (2 * ms + hour_ms) div (2 * hour_ms)"

definition queue_row_of :: "millis \<Rightarrow> review \<Rightarrow> queue_row" where
  "queue_row_of now r =
     (let status = presentStatus (review_status_name (rv_status r));
          waiting = (status = PS_PENDING_REVIEW \<and> rv_decidedAt r = None)
      in \<lparr>qr_review = r, qr_status = status,
          qr_overdue = (waiting \<and> rv_slaDueAt r < now),
          qr_hoursRemaining = (if waiting then Some (round_hours (rv_slaDueAt r - now)) else None)\<rparr>)"

definition queue_list ::
  "millis \<Rightarrow> list_query \<Rightarrow> cursor_key option \<Rightarrow> nat \<Rightarrow> review list \<Rightarrow> (queue_row, cursor_key) page" where
  "queue_list now query after limit rows =
     (let reviews = queue_rows after (limit + 1) (filter (queue_filter now query) rows);
          page = take limit reviews
      in \<lparr>pg_data = map (queue_row_of now) page,
          pg_next = (if length reviews > limit \<and> page \<noteq> [] then Some (review_key (last page)) else None),
          pg_hasMore = length reviews > limit\<rparr>)"

record queue_counts =
  qc_draft :: nat
  qc_pending :: nat
  qc_approved :: nat
  qc_rejected :: nat
  qc_overdue :: nat

definition queueCounts :: "millis \<Rightarrow> sid_state \<Rightarrow> queue_counts" where
  "queueCounts now s =
     (let presents = (\<lambda>p. count_where (\<lambda>r. presentStatus (review_status_name (rv_status r)) = p) (ss_reviews s))
      in \<lparr>qc_draft = count_where (\<lambda>a. ap_status a = ''DRAFT'') (ss_apps s),
          qc_pending = presents PS_PENDING_REVIEW,
          qc_approved = presents PS_APPROVED,
          qc_rejected = presents PS_REJECTED,
          qc_overdue = count_where (\<lambda>r. rv_decidedAt r = None \<and> rv_slaDueAt r < now) (ss_reviews s)\<rparr>)"

text \<open>Drafts are paged by offset over the product's rows, newest change first.\<close>

definition drafts_page :: "nat \<Rightarrow> nat \<Rightarrow> application list \<Rightarrow> (application, nat) page" where
  "drafts_page limit offset rows =
     (let found = take (limit + 1) (drop offset
            (rev (sort_key (\<lambda>a. (ap_updatedAt a, ap_id a)) (filter (\<lambda>a. ap_status a = ''DRAFT'') rows))));
          more = length found > limit
      in \<lparr>pg_data = take limit found, pg_next = (if more then Some (offset + limit) else None),
          pg_hasMore = more\<rparr>)"

text \<open>\<open>list\<close> itself: the drafts of the product for DRAFT, otherwise the review queue.\<close>

definition list_sender_ids ::
  "millis \<Rightarrow> list_query \<Rightarrow> cursor_key option \<Rightarrow> nat \<Rightarrow> nat \<Rightarrow> sid_state
   \<Rightarrow> ((application, nat) page + (queue_row, cursor_key) page) \<times> queue_counts" where
  "list_sender_ids now query after offset limit s =
     (if asProductStatus (lq_status query) = Some PS_DRAFT
      then (Inl (drafts_page limit offset (ss_apps s)), queueCounts now s)
      else (Inr (queue_list now query after limit (ss_reviews s)), queueCounts now s))"

record review_screen =
  sc_review :: review
  sc_status :: product_status
  sc_overdue :: bool
  sc_allowedDecisions :: "decision list"
  sc_history :: "(product_status option \<times> product_status) list"
  sc_others :: "(string \<times> product_status) list"

definition get_review :: "millis \<Rightarrow> string \<Rightarrow> sid_state \<Rightarrow> review_screen result" where
  "get_review now reviewId s =
     (case find_review reviewId s of
        None \<Rightarrow> Inl (NotFound ''Review not found'')
      | Some review \<Rightarrow>
        (let status = presentStatus (review_status_name (rv_status review));
             others = take 10 (rev (sort_key rv_submittedAt
               (filter (\<lambda>r. rv_accountId r = rv_accountId review \<and> rv_id r \<noteq> reviewId) (ss_reviews s))))
         in Inr \<lparr>sc_review = review, sc_status = status,
              sc_overdue = (status = PS_PENDING_REVIEW \<and> rv_slaDueAt review < now),
              sc_allowedDecisions = allowedDecisions (review_status_name (rv_status review)),
              sc_history = rev (map (\<lambda>e. (map_option (\<lambda>f. presentStatus (review_status_name f)) (ev_from e),
                presentStatus (review_status_name (ev_to e)))) (rv_events review)),
              sc_others = map (\<lambda>r. (rv_id r, presentStatus (review_status_name (rv_status r)))) others\<rparr>))"

end
