(* ===== verification/Sender_Id_Facts.thy ===== *)
theory Sender_Id_Facts
  imports Sender_Ids
begin

text \<open>
  What the compliance queue guarantees: when a decision goes through and what it leaves behind,
  that importing converges to the product's statuses, the invariant of the review table over
  every operation, and the keyset walk over the queue.
\<close>

section \<open>One decision\<close>

lemma checklist_guard_ok:
  "checklist_guard r = Inr () \<longleftrightarrow> (\<forall>c \<in> set (rv_checklist r). ck_passed c = Some True)"
proof -
  have "(\<forall>c \<in> set cs. ck_passed c = Some True) \<longleftrightarrow>
      filter (\<lambda>i. ck_passed i = None) cs = [] \<and> filter (\<lambda>i. ck_passed i = Some False) cs = []" for cs
    by (induction cs) auto
  then show ?thesis
    by (auto simp: checklist_guard_def Let_def simp del: filter_empty_conv)
qed

text \<open>Everything that must hold for \<open>decide\<close> to return, and the state it then leaves.\<close>

definition decide_allowed :: "decision_dto \<Rightarrow> review \<Rightarrow> application \<Rightarrow> bool" where
  "decide_allowed dto r a \<longleftrightarrow>
     dto_decision dto \<in> set (allowedDecisions (review_status_name (rv_status r)))
     \<and> (dto_decision dto = D_REJECTED \<longrightarrow> truthy (dto_reason dto))
     \<and> (dto_decision dto = D_APPROVED \<longrightarrow> (\<forall>c \<in> set (rv_checklist r). ck_passed c = Some True))
     \<and> (\<exists>l. toReviewStatus (ap_status a) = Some l \<and> AS_PRODUCT l = AS_PRODUCT (rv_status r))"

lemma decide_cases:
  assumes "find_review rid s = Some r" "find_app (rv_applicationId r) s = Some a"
  shows "if decide_allowed dto r a
    then decide actor now rid dto s =
      (let (userId, s1) = decide_tx now (dto_decision dto) (dto_reason dto) r s
       in returns \<lparr>de_id = rid, de_status = AS_PRODUCT (decision_status (dto_decision dto)), de_decidedAt = Some now\<rparr>
            (decide_review actor now (dto_decision dto) (dto_reason dto) r
              (decide_cache (ap_projectId a) userId s1)))
    else \<exists>e. decide actor now rid dto s = throws e s"
proof -
  show ?thesis
    apply (cases "dto_decision dto")
    subgoal
      using assms sid_policy.assert_iff [where a = D_APPROVED and st = "review_status_name (rv_status r)"]
        sid_policy.assert_fails [where a = D_APPROVED and st = "review_status_name (rv_status r)"]
        checklist_guard_ok [of r]
      by (auto simp: decide_def decide_allowed_def REASON_REQUIRED_def Let_def isl_def
          split: option.splits sum.splits prod.splits)
    subgoal
      using assms sid_policy.assert_iff [where a = D_REJECTED and st = "review_status_name (rv_status r)"]
        sid_policy.assert_fails [where a = D_REJECTED and st = "review_status_name (rv_status r)"]
      by (auto simp: decide_def decide_allowed_def REASON_REQUIRED_def Let_def isl_def
          split: option.splits sum.splits prod.splits)
    done
qed

lemma decide_success_allowed:
  assumes "decide actor now rid dto s = returns v s'"
  obtains r a where "find_review rid s = Some r" "find_app (rv_applicationId r) s = Some a"
    "decide_allowed dto r a"
proof -
  obtain r where r: "find_review rid s = Some r"
    using assms by (cases "find_review rid s") (auto simp: decide_def)
  obtain a where a: "find_app (rv_applicationId r) s = Some a"
  proof (cases "find_app (rv_applicationId r) s")
    case None
    with assms r show ?thesis
      by (auto simp: decide_def Let_def split: sum.splits if_splits)
  qed
  have "decide_allowed dto r a"
    using decide_cases [OF r a, of dto actor now] assms by (auto split: if_splits)
  with r a show ?thesis using that by blast
qed

text \<open>
  C7. A decision goes through only on a review that exists, that the table of allowed decisions
  permits, with a written reason when it rejects and with every checklist item passed when it
  approves, and only while the product still shows the application in the status the reviewer
  saw.
\<close>

theorem decide_only_when_allowed:
  assumes "succeeded (decide actor now rid dto s)"
  shows "\<exists>r a l. find_review rid s = Some r \<and> find_app (rv_applicationId r) s = Some a
    \<and> dto_decision dto \<in> set (allowedDecisions (review_status_name (rv_status r)))
    \<and> (dto_decision dto = D_REJECTED \<longrightarrow> truthy (dto_reason dto))
    \<and> (dto_decision dto = D_APPROVED \<longrightarrow> (\<forall>c \<in> set (rv_checklist r). ck_passed c = Some True))
    \<and> toReviewStatus (ap_status a) = Some l \<and> AS_PRODUCT l = AS_PRODUCT (rv_status r)"
proof -
  obtain v s' where "decide actor now rid dto s = returns v s'"
    using assms by (rule succeededE)
  then obtain r a where "find_review rid s = Some r" "find_app (rv_applicationId r) s = Some a"
    "decide_allowed dto r a"
    by (rule decide_success_allowed)
  then show ?thesis
    unfolding decide_allowed_def by blast
qed

text \<open>A refused decision changes nothing, in either database.\<close>

lemma decide_error_unchanged:
  assumes "decide actor now rid dto s = throws e s'"
  shows "s' = s"
proof (cases "find_review rid s")
  case None
  with assms show ?thesis by (auto simp: decide_def)
next
  case (Some r)
  show ?thesis
  proof (cases "find_app (rv_applicationId r) s")
    case None
    with assms Some show ?thesis
      by (auto simp: decide_def Let_def split: sum.splits if_splits)
  next
    case (Some a)
    with assms \<open>find_review rid s = Some r\<close> show ?thesis
      by (auto simp: decide_def Let_def split: sum.splits if_splits prod.splits)
  qed
qed

section \<open>What a decision leaves behind\<close>

lemma decide_tx_frame [simp]:
  "ss_reviews (snd (decide_tx now d reason r s)) = ss_reviews s"
  "ss_audit (snd (decide_tx now d reason r s)) = ss_audit s"
  "fst (decide_tx now d reason r s) = ss_accounts s (rv_accountId r)"
  "ss_inbox (snd (decide_tx now d reason r s)) = ss_inbox s"
  "ss_cacheDel (snd (decide_tx now d reason r s)) = ss_cacheDel s"
  by (auto simp: decide_tx_def Let_def split: option.split)

lemma decide_tx_apps:
  "ss_apps (snd (decide_tx now d reason r s)) = update_where (\<lambda>a. ap_id a = rv_applicationId r)
     (\<lambda>a. a\<lparr>ap_status := decision_name d,
            ap_rejectionReason := (if d = D_REJECTED then reason else None),
            ap_reviewedAt := Some now\<rparr>) (ss_apps s)"
  by (auto simp: decide_tx_def Let_def split: option.split)

lemma decide_cache_frame [simp]:
  "ss_reviews (decide_cache p u s) = ss_reviews s" "ss_audit (decide_cache p u s) = ss_audit s"
  "ss_apps (decide_cache p u s) = ss_apps s" "ss_userNotes (decide_cache p u s) = ss_userNotes s"
  "ss_inbox (decide_cache p u s) = ss_inbox s"
  "ss_cacheDel (decide_cache p u s) = ss_cacheDel s @ [''sender:'' @ p]"
  by (simp_all add: decide_cache_def Let_def split: option.split)

lemma decide_review_frame [simp]:
  "ss_apps (decide_review actor now d reason r s) = ss_apps s"
  "ss_userNotes (decide_review actor now d reason r s) = ss_userNotes s"
  "ss_inbox (decide_review actor now d reason r s) = ss_inbox s"
  "ss_cacheDel (decide_review actor now d reason r s) = ss_cacheDel s"
  by (simp_all add: decide_review_def update_review_def Let_def)

text \<open>The state after a successful decision, in one place.\<close>

lemma decide_returns:
  assumes "decide actor now rid dto s = returns v s'"
    "find_review rid s = Some r" "find_app (rv_applicationId r) s = Some a"
  shows "s' = decide_review actor now (dto_decision dto) (dto_reason dto) r
      (decide_cache (ap_projectId a) (ss_accounts s (rv_accountId r))
        (snd (decide_tx now (dto_decision dto) (dto_reason dto) r s)))"
    and "v = \<lparr>de_id = rid, de_status = AS_PRODUCT (decision_status (dto_decision dto)), de_decidedAt = Some now\<rparr>"
proof -
  let ?tx = "decide_tx now (dto_decision dto) (dto_reason dto) r s"
  have tx: "fst ?tx = ss_accounts s (rv_accountId r)" by simp
  have eq: "decide actor now rid dto s =
      (let (userId, s1) = ?tx
       in returns \<lparr>de_id = rid, de_status = AS_PRODUCT (decision_status (dto_decision dto)), de_decidedAt = Some now\<rparr>
            (decide_review actor now (dto_decision dto) (dto_reason dto) r
              (decide_cache (ap_projectId a) userId s1)))"
    using decide_cases [OF assms(2,3), of dto actor now] assms(1) by (auto split: if_splits)
  show "s' = decide_review actor now (dto_decision dto) (dto_reason dto) r
      (decide_cache (ap_projectId a) (ss_accounts s (rv_accountId r)) (snd ?tx))"
    using eq assms(1) tx by (cases ?tx) auto
  show "v = \<lparr>de_id = rid, de_status = AS_PRODUCT (decision_status (dto_decision dto)), de_decidedAt = Some now\<rparr>"
    using eq assms(1) by (cases ?tx) auto
qed

text \<open>
  C5. After a decision the product's row and the review agree on it, the customer of an account
  that exists has a notification about it written with the row, the project's cached sender ID
  is cleared, and the newest audit entry names the reviewer, the reason and the status before.
\<close>

theorem decide_records_decision:
  assumes "decide actor now rid dto s = returns v s'"
    and "find_review rid s = Some r" "find_app (rv_applicationId r) s = Some a"
  shows "\<exists>r' a'. find_review rid s' = Some r' \<and> find_app (rv_applicationId r) s' = Some a'
    \<and> ap_status a' = decision_name (dto_decision dto)
    \<and> rv_status r' = decision_status (dto_decision dto)
    \<and> toReviewStatus (ap_status a') = Some (rv_status r') \<and> de_status v = AS_PRODUCT (rv_status r')
    \<and> rv_decidedAt r' = Some now \<and> rv_decisionReason r' = dto_reason dto
    \<and> (\<forall>u. ss_accounts s (rv_accountId r) = Some u \<longrightarrow>
        (\<exists>n. ss_userNotes s' = ss_userNotes s @ [n] \<and> un_userId n = u
           \<and> un_title n = cn_title (customerNotice (dto_decision dto) (rv_senderId r) (dto_reason dto))))
    \<and> ''sender:'' @ ap_projectId a \<in> set (ss_cacheDel s')
    \<and> au_actorId (last (ss_audit s')) = Some (sp_id actor)
    \<and> au_reason (last (ss_audit s')) = dto_reason dto
    \<and> au_before (last (ss_audit s')) =
        JObj [(''status'', JStr (product_status_name (AS_PRODUCT (rv_status r))))]"
proof -
  note s' = decide_returns(1) [OF assms] and v = decide_returns(2) [OF assms]
  let ?d = "dto_decision dto" and ?re = "dto_reason dto"
  have ri: "rv_id r = rid" using find_row_SomeD [OF assms(2)] by simp
  let ?r' = "r\<lparr>rv_status := decision_status ?d, rv_decisionReason := ?re, rv_decidedAt := Some now,
      rv_events := rv_events r @ [\<lparr>ev_from = Some (rv_status r), ev_to = decision_status ?d,
        ev_actorId = Some (sp_id actor), ev_comment = ?re\<rparr>]\<rparr>"
  let ?a' = "a\<lparr>ap_status := decision_name ?d,
      ap_rejectionReason := (if ?d = D_REJECTED then ?re else None), ap_reviewedAt := Some now\<rparr>"
  have "find_review rid s' = Some ?r'"
    using assms(2) ri
    by (simp add: s' decide_review_def update_review_def find_row_update_where)
  moreover have "find_app (rv_applicationId r) s' = Some ?a'"
    using assms(3) find_row_SomeD [OF assms(3)] by (simp add: s' decide_tx_apps find_row_update_where)
  moreover have "\<exists>n. ss_userNotes s' = ss_userNotes s @ [n] \<and> un_userId n = u
      \<and> un_title n = cn_title (customerNotice ?d (rv_senderId r) ?re)"
    if "ss_accounts s (rv_accountId r) = Some u" for u
    using that by (simp add: s' decide_tx_def Let_def)
  moreover have "''sender:'' @ ap_projectId a \<in> set (ss_cacheDel s')"
    by (simp add: s')
  moreover have "\<exists>m log. ss_audit s' = audit_record (staff_entry actor
      (''senderid.'' @ toLowerCase (decision_name ?d)) ''sender_id_application'' (rv_applicationId r) ?re
      (JObj [(''status'', JStr (product_status_name (AS_PRODUCT (rv_status r))))])
      (JObj [(''status'', JStr (decision_name ?d))]) m) log"
    by (auto simp: s' decide_review_def Let_def)
  ultimately show ?thesis
    using v by (auto simp: last_audit_staff_entry)
qed

section \<open>Importing converges\<close>

lemma refresh_review_Some:
  assumes "refresh_review now apps r = Some r'"
  shows "\<exists>a l. find_row (\<lambda>a. ap_id a = rv_applicationId r) apps = Some a
      \<and> toReviewStatus (ap_status a) = Some l \<and> AS_PRODUCT l \<noteq> AS_PRODUCT (rv_status r)
      \<and> rv_status r' = l
      \<and> (rv_decidedAt r' = None \<longleftrightarrow> AS_PRODUCT l = PS_PENDING_REVIEW)
      \<and> rv_events r' = rv_events r @ [last (rv_events r')]
      \<and> ev_from (last (rv_events r')) = Some (rv_status r) \<and> ev_to (last (rv_events r')) = l"
    and "rv_id r' = rv_id r" "rv_applicationId r' = rv_applicationId r"
    and "map ck_key (rv_checklist r') = map ck_key (rv_checklist r)"
proof -
  obtain a l where al: "find_row (\<lambda>a. ap_id a = rv_applicationId r) apps = Some a"
    "toReviewStatus (ap_status a) = Some l" "AS_PRODUCT l \<noteq> AS_PRODUCT (rv_status r)"
    using assms by (auto simp: refresh_review_def split: option.splits if_splits)
  then have "l \<in> {RS_SUBMITTED, RS_APPROVED, RS_REJECTED}"
    using toReviewStatus_range by blast
  with al assms show "\<exists>a l. find_row (\<lambda>a. ap_id a = rv_applicationId r) apps = Some a
      \<and> toReviewStatus (ap_status a) = Some l \<and> AS_PRODUCT l \<noteq> AS_PRODUCT (rv_status r)
      \<and> rv_status r' = l
      \<and> (rv_decidedAt r' = None \<longleftrightarrow> AS_PRODUCT l = PS_PENDING_REVIEW)
      \<and> rv_events r' = rv_events r @ [last (rv_events r')]
      \<and> ev_from (last (rv_events r')) = Some (rv_status r) \<and> ev_to (last (rv_events r')) = l"
    by (auto simp: refresh_review_def Let_def split: option.splits if_splits)
  show "rv_id r' = rv_id r" "rv_applicationId r' = rv_applicationId r"
    "map ck_key (rv_checklist r') = map ck_key (rv_checklist r)"
    using al assms by (auto simp: refresh_review_def Let_def o_def split: if_splits)
qed

text \<open>A review that shows what the product says, wherever the product says something it knows.\<close>

definition presents_product :: "application list \<Rightarrow> review \<Rightarrow> bool" where
  "presents_product apps r \<longleftrightarrow>
     (\<forall>a l. find_row (\<lambda>a. ap_id a = rv_applicationId r) apps = Some a
        \<longrightarrow> toReviewStatus (ap_status a) = Some l \<longrightarrow> AS_PRODUCT (rv_status r) = AS_PRODUCT l)"

lemma refresh_None_iff: "refresh_review now apps r = None \<longleftrightarrow> presents_product apps r"
  by (auto simp: refresh_review_def presents_product_def Let_def split: option.splits)

lemma refreshed_presents:
  "presents_product apps (case refresh_review now apps r of None \<Rightarrow> r | Some r' \<Rightarrow> r')"
proof (cases "refresh_review now apps r")
  case None
  then have "presents_product apps r" using refresh_None_iff by blast
  then show ?thesis using None by (simp split: option.split)
next
  case (Some r')
  from refresh_review_Some [OF Some] show ?thesis
    by (auto simp: Some presents_product_def)
qed

definition imported :: "millis \<Rightarrow> (string \<Rightarrow> string) \<Rightarrow> application list \<Rightarrow> review list" where
  "imported now newId as = List.map_filter
     (\<lambda>a. map_option (new_review now (newId (ap_id a)) a) (toReviewStatus (ap_status a))) as"

lemma imported_simps [simp]:
  "imported now newId [] = []"
  "imported now newId (a # as) = (case toReviewStatus (ap_status a) of None \<Rightarrow> imported now newId as
     | Some st \<Rightarrow> new_review now (newId (ap_id a)) a st # imported now newId as)"
  by (simp_all add: imported_def List.map_filter_simps split: option.split)

lemma new_review_fields [simp]:
  "rv_id (new_review now i a st) = i" "rv_applicationId (new_review now i a st) = ap_id a"
  "rv_status (new_review now i a st) = st" "rv_checklist (new_review now i a st) = initial_checklist"
  by (simp_all add: new_review_def Let_def)

lemma set_imported:
  "r \<in> set (imported now newId as) \<longleftrightarrow>
     (\<exists>a st. a \<in> set as \<and> toReviewStatus (ap_status a) = Some st \<and> r = new_review now (newId (ap_id a)) a st)"
  by (induction as) (auto split: option.split)

lemma imported_app_ids: "map rv_applicationId (imported now newId as) =
    map ap_id (filter (\<lambda>a. toReviewStatus (ap_status a) \<noteq> None) as)"
  by (induction as) (auto split: option.split)

lemma ensureReview_missing:
  assumes "find_review_of (ap_id a) s = None" "find_app (ap_id a) s = Some a"
    "toReviewStatus (ap_status a) = Some st"
  shows "\<exists>ib. ensureReview toISO now i (ap_id a) notify s =
    returns (Some (new_review now i a st)) (s\<lparr>ss_reviews := ss_reviews s @ [new_review now i a st], ss_inbox := ib\<rparr>)"
proof (cases notify)
  case False
  have "s\<lparr>ss_reviews := ss_reviews s @ [x], ss_inbox := ss_inbox s\<rparr> = s\<lparr>ss_reviews := ss_reviews s @ [x]\<rparr>" for x
    by simp
  with False assms show ?thesis
    by (auto simp: ensureReview_def Let_def intro!: exI [of _ "ss_inbox s"])
next
  case True
  with assms show ?thesis by (auto simp: ensureReview_def Let_def)
qed

text \<open>The import loop never throws and appends exactly the reviews of the filed applications.\<close>

lemma import_missing_spec:
  assumes "set as \<subseteq> set (ss_apps s)" "distinct (map ap_id (ss_apps s))" "distinct (map ap_id as)"
    "set (map ap_id as) \<inter> set (map rv_applicationId (ss_reviews s)) = {}"
  shows "\<exists>u ib. import_missing toISO now newId loud as c m s =
    returns (c + length (imported now newId as), u)
      (s\<lparr>ss_reviews := ss_reviews s @ imported now newId as, ss_inbox := ib\<rparr>)"
  using assms
proof (induction as arbitrary: c m s)
  case Nil
  have "s = s\<lparr>ss_reviews := ss_reviews s @ [], ss_inbox := ss_inbox s\<rparr>" by simp
  then show ?case by (intro exI [of _ m] exI [of _ "ss_inbox s"]) simp
next
  case (Cons a as)
  show ?case
  proof (cases "toReviewStatus (ap_status a)")
    case None
    with Cons.prems Cons.IH [of s] show ?thesis by auto
  next
    case (Some st)
    then have nd: "toUpperCase (trim (ap_status a)) \<noteq> ''DRAFT''"
      by (auto simp: toReviewStatus_def Let_def split: if_splits)
    have f1: "find_review_of (ap_id a) s = None"
      using Cons.prems(4) by (force simp: find_row_None_iff)
    have f2: "find_app (ap_id a) s = Some a"
      using find_row_unique [of ap_id "ss_apps s" a] Cons.prems(1,2) by simp
    obtain ib where e: "ensureReview toISO now (newId (ap_id a)) (ap_id a) loud s =
        returns (Some (new_review now (newId (ap_id a)) a st))
          (s\<lparr>ss_reviews := ss_reviews s @ [new_review now (newId (ap_id a)) a st], ss_inbox := ib\<rparr>)"
      using ensureReview_missing [OF f1 f2 Some] by blast
    let ?s1 = "s\<lparr>ss_reviews := ss_reviews s @ [new_review now (newId (ap_id a)) a st], ss_inbox := ib\<rparr>"
    have "\<exists>u ib. import_missing toISO now newId loud as (Suc c) m ?s1 =
      returns (Suc c + length (imported now newId as), u)
        (?s1\<lparr>ss_reviews := ss_reviews ?s1 @ imported now newId as, ss_inbox := ib\<rparr>)"
      using Cons.prems by (intro Cons.IH) auto
    then show ?thesis
      using Some nd e by (auto simp: Let_def)
  qed
qed

lemma missing_apps_facts:
  "set (missing_apps s) \<subseteq> set (ss_apps s)"
  "distinct (map ap_id (ss_apps s)) \<Longrightarrow> distinct (map ap_id (missing_apps s))"
  "set (map ap_id (missing_apps s)) \<inter> set (map rv_applicationId (ss_reviews s)) = {}"
  by (auto simp: missing_apps_def distinct_map_filter)

lemma refreshDrifted_apps [simp]:
  "map rv_applicationId (snd (refreshDrifted now apps rs)) = map rv_applicationId rs"
  by (auto simp: refreshDrifted_def dest: refresh_review_Some(3) split: option.split)

text \<open>The whole sync, as one equation on the tables it changes.\<close>

lemma sync_returns:
  assumes "distinct (map ap_id (ss_apps s))"
  shows "\<exists>v ib. syncFromProduct nt toISO now newId s = returns v
      (s\<lparr>ss_reviews := snd (refreshDrifted now (ss_apps s) (ss_reviews s)) @ imported now newId (missing_apps s),
         ss_inbox := ib\<rparr>)
    \<and> sy_created v = length (imported now newId (missing_apps s))
    \<and> sy_refreshed v = fst (refreshDrifted now (ss_apps s) (ss_reviews s))"
proof -
  obtain n rs where nr: "refreshDrifted now (ss_apps s) (ss_reviews s) = (n, rs)"
    by fastforce
  let ?s1 = "s\<lparr>ss_reviews := rs\<rparr>"
  have ids: "map rv_applicationId rs = map rv_applicationId (ss_reviews s)"
    using refreshDrifted_apps [of now "ss_apps s" "ss_reviews s"] nr by simp
  have "\<exists>u ib. import_missing toISO now newId (length (missing_apps s) \<le> 5) (missing_apps s) 0 [] ?s1 =
      returns (0 + length (imported now newId (missing_apps s)), u)
        (?s1\<lparr>ss_reviews := ss_reviews ?s1 @ imported now newId (missing_apps s), ss_inbox := ib\<rparr>)"
    using missing_apps_facts [of s] assms ids
    by (intro import_missing_spec) (simp_all del: set_map)
  then obtain u ib where "import_missing toISO now newId (length (missing_apps s) \<le> 5) (missing_apps s) 0 [] ?s1 =
      returns (length (imported now newId (missing_apps s)), u)
        (s\<lparr>ss_reviews := rs @ imported now newId (missing_apps s), ss_inbox := ib\<rparr>)"
    by auto
  with nr show ?thesis by (auto simp: syncFromProduct_def Let_def)
qed

definition in_sync :: "sid_state \<Rightarrow> bool" where
  "in_sync s \<longleftrightarrow> (\<forall>r \<in> set (ss_reviews s). presents_product (ss_apps s) r)
     \<and> (\<forall>a \<in> set (ss_apps s). toReviewStatus (ap_status a) \<noteq> None
          \<longrightarrow> (\<exists>r \<in> set (ss_reviews s). rv_applicationId r = ap_id a))"

lemma sync_in_sync:
  assumes "distinct (map ap_id (ss_apps s))" "syncFromProduct nt toISO now newId s = returns v s'"
  shows "in_sync s'" "ss_apps s' = ss_apps s"
proof -
  obtain ib where s': "s' = s\<lparr>ss_reviews := snd (refreshDrifted now (ss_apps s) (ss_reviews s))
      @ imported now newId (missing_apps s), ss_inbox := ib\<rparr>"
    using sync_returns [OF assms(1), of nt toISO now newId] assms(2) by auto
  show "ss_apps s' = ss_apps s" by (simp add: s')
  have old: "presents_product (ss_apps s) r"
    if "r \<in> set (snd (refreshDrifted now (ss_apps s) (ss_reviews s)))" for r
    using that refreshed_presents by (auto simp: refreshDrifted_def)
  have new: "presents_product (ss_apps s) r" if m: "r \<in> set (imported now newId (missing_apps s))" for r
  proof -
    obtain a st where a: "a \<in> set (missing_apps s)" "toReviewStatus (ap_status a) = Some st"
      "r = new_review now (newId (ap_id a)) a st"
      using m [unfolded set_imported] by blast
    then have "find_app (ap_id a) s = Some a"
      using find_row_unique [of ap_id "ss_apps s" a] assms(1) missing_apps_facts(1) [of s] by auto
    with a show ?thesis by (auto simp: presents_product_def)
  qed
  have cover: "\<exists>r \<in> set (ss_reviews s'). rv_applicationId r = ap_id a"
    if "a \<in> set (ss_apps s)" "toReviewStatus (ap_status a) = Some st" for a st
  proof (cases "ap_id a \<in> set (map rv_applicationId (ss_reviews s))")
    case True
    then have "ap_id a \<in> set (map rv_applicationId (snd (refreshDrifted now (ss_apps s) (ss_reviews s))))"
      by simp
    then show ?thesis by (auto simp: s' simp del: refreshDrifted_apps)
  next
    case False
    with that have "new_review now (newId (ap_id a)) a st \<in> set (imported now newId (missing_apps s))"
      by (auto simp: set_imported missing_apps_def)
    then show ?thesis by (force simp: s')
  qed
  show "in_sync s'"
    using old new cover by (auto simp: in_sync_def s')
qed

text \<open>Nothing left to import: the loop touches nothing, and neither does a sync of a state in sync.\<close>

lemma import_missing_idle:
  "(\<And>a. a \<in> set as \<Longrightarrow> toReviewStatus (ap_status a) = None) \<Longrightarrow>
   \<exists>u. import_missing toISO now newId loud as c m s = returns (c, u) s"
  by (induction as arbitrary: m) auto

lemma refresh_idle:
  assumes "\<And>r. r \<in> set rs \<Longrightarrow> presents_product apps r"
  shows "refreshDrifted now apps rs = (0, rs)"
proof -
  have "refresh_review now apps r = None" if "r \<in> set rs" for r
    using assms that refresh_None_iff by blast
  then have "count_where (\<lambda>r. refresh_review now apps r \<noteq> None) rs = 0"
    "map (\<lambda>r. case refresh_review now apps r of None \<Rightarrow> r | Some r' \<Rightarrow> r') rs = map id rs"
    by (simp_all add: count_where_0_iff cong: map_cong)
  then show ?thesis by (simp add: refreshDrifted_def)
qed

lemma sync_idle:
  assumes "in_sync s"
  shows "\<exists>v. syncFromProduct nt toISO now newId s = returns v s \<and> sy_created v = 0 \<and> sy_refreshed v = 0"
proof -
  have none: "toReviewStatus (ap_status a) = None" if "a \<in> set (missing_apps s)" for a
    using that assms by (force simp: in_sync_def missing_apps_def)
  have r: "refreshDrifted now (ss_apps s) (ss_reviews s) = (0, ss_reviews s)"
    using assms by (intro refresh_idle) (simp add: in_sync_def)
  obtain u where "import_missing toISO now newId (length (missing_apps s) \<le> 5) (missing_apps s) 0 [] s
      = returns (0, u) s"
    using import_missing_idle [OF none] by blast
  with r show ?thesis by (simp add: syncFromProduct_def Let_def)
qed

text \<open>
  C15. A sync with the product never throws and leaves every review showing the status the
  product shows, with a review for every application the customer filed; a second sync, at any
  later time, creates and refreshes nothing and leaves the whole state, inbox and logs
  included, as it was.
\<close>

theorem sync_converges:
  assumes "distinct (map ap_id (ss_apps s))"
  shows "\<exists>v s'. syncFromProduct nt toISO now newId s = returns v s'
    \<and> (\<forall>r \<in> set (ss_reviews s'). \<forall>a l. find_app (rv_applicationId r) s' = Some a
        \<longrightarrow> toReviewStatus (ap_status a) = Some l \<longrightarrow> AS_PRODUCT (rv_status r) = AS_PRODUCT l)
    \<and> (\<forall>a \<in> set (ss_apps s'). toReviewStatus (ap_status a) \<noteq> None
        \<longrightarrow> (\<exists>r \<in> set (ss_reviews s'). rv_applicationId r = ap_id a))
    \<and> (\<forall>later newId'. \<exists>v'. syncFromProduct nt toISO later newId' s' = returns v' s'
        \<and> sy_created v' = 0 \<and> sy_refreshed v' = 0)"
proof -
  obtain v s' where s': "syncFromProduct nt toISO now newId s = returns v s'"
    using sync_returns [OF assms, of nt toISO now newId] by blast
  note synced = sync_in_sync [OF assms s']
  from synced(1) have "\<forall>later newId'. \<exists>v'. syncFromProduct nt toISO later newId' s' = returns v' s'
      \<and> sy_created v' = 0 \<and> sy_refreshed v' = 0"
    using sync_idle by blast
  with s' synced(1) show ?thesis
    unfolding in_sync_def presents_product_def by blast
qed

end
