(* ===== verification/Sender_Id_Invariant.thy ===== *)
theory Sender_Id_Invariant
  imports Sender_Id_Facts
begin

text \<open>
  The review table over time: every handler of the service, the inbox operations of staff and
  whatever the customer does to the application in between are the steps of one relation, and
  the invariant of the table holds in every state they reach.  The last section is about the SLA
  alert across a resubmission.
\<close>

section \<open>The invariant\<close>

text \<open>The history of a review, oldest first: it starts from nothing and every event starts where the last one ended.\<close>

fun history_ok :: "review_status option \<Rightarrow> review_event list \<Rightarrow> review_status \<Rightarrow> bool" where
  "history_ok f [] st = (f = Some st)"
| "history_ok f (e # es) st = (ev_from e = f \<and> history_ok (Some (ev_to e)) es st)"

lemma history_ok_snoc:
  "history_ok f es st \<Longrightarrow> ev_from e = Some st \<Longrightarrow> history_ok f (es @ [e]) (ev_to e)"
  by (induction es arbitrary: f) auto

lemma history_chain:
  assumes "history_ok f es st" "es \<noteq> []"
  shows "ev_from (hd es) = f \<and> ev_to (last es) = st
    \<and> (\<forall>i. Suc i < length es \<longrightarrow> ev_from (es ! Suc i) = Some (ev_to (es ! i)))"
  using assms
proof (induction es arbitrary: f)
  case (Cons e es)
  have e: "ev_from e = f" "history_ok (Some (ev_to e)) es st"
    using Cons.prems(1) by auto
  show ?case
  proof (cases es)
    case Nil
    with e show ?thesis by simp
  next
    case (Cons e' es')
    with Cons.IH [OF e(2)] e(1) show ?thesis
      by (auto simp: nth_Cons' gr0_conv_Suc)
  qed
qed simp

definition review_ok :: "(string \<Rightarrow> string) \<Rightarrow> review \<Rightarrow> bool" where
  "review_ok newId r \<longleftrightarrow> rv_id r = newId (rv_applicationId r)
     \<and> (rv_decidedAt r = None \<longleftrightarrow> AS_PRODUCT (rv_status r) = PS_PENDING_REVIEW)
     \<and> map ck_key (rv_checklist r) = map fst CHECKLIST
     \<and> history_ok None (rv_events r) (rv_status r)"

definition reviews_ok :: "(string \<Rightarrow> string) \<Rightarrow> review list \<Rightarrow> bool" where
  "reviews_ok newId rs \<longleftrightarrow> distinct (map rv_applicationId rs) \<and> (\<forall>r \<in> set rs. review_ok newId r)"

lemma reviews_ok_same_row:
  assumes "inj newId" "reviews_ok newId rs" "r \<in> set rs" "r' \<in> set rs" "rv_id r = rv_id r'"
  shows "r = r'"
proof -
  have "rv_applicationId r = rv_applicationId r'"
    using assms by (auto simp: reviews_ok_def review_ok_def dest: injD)
  then show ?thesis
    using assms(2-4) by (auto simp: reviews_ok_def distinct_map dest: inj_onD)
qed

lemma reviews_ok_map:
  assumes "reviews_ok newId rs"
    "\<And>r. r \<in> set rs \<Longrightarrow> review_ok newId (f r) \<and> rv_applicationId (f r) = rv_applicationId r"
  shows "reviews_ok newId (map f rs)"
proof -
  have "map rv_applicationId (map f rs) = map rv_applicationId rs"
    using assms(2) by simp
  moreover have "\<forall>r \<in> set (map f rs). review_ok newId r"
    using assms(2) by simp
  ultimately show ?thesis
    using assms(1) unfolding reviews_ok_def by presburger
qed

lemma reviews_ok_update:
  assumes "inj newId" "reviews_ok newId rs" "find_row (\<lambda>r. rv_id r = i) rs = Some r"
    "review_ok newId (f r)" "rv_applicationId (f r) = rv_applicationId r"
  shows "reviews_ok newId (update_where (\<lambda>r. rv_id r = i) f rs)"
  unfolding update_where_def
proof (rule reviews_ok_map [OF assms(2)])
  fix x assume x: "x \<in> set rs"
  have "x = r" if "rv_id x = i"
    using find_row_SomeD [OF assms(3)] that x by (intro reviews_ok_same_row [OF assms(1,2)]) auto
  then show "review_ok newId (if rv_id x = i then f x else x)
      \<and> rv_applicationId (if rv_id x = i then f x else x) = rv_applicationId x"
    using assms x by (auto simp: reviews_ok_def)
qed

lemma reviews_ok_add:
  assumes "reviews_ok newId rs" "rv_applicationId r \<notin> set (map rv_applicationId rs)" "review_ok newId r"
  shows "reviews_ok newId (rs @ [r])"
  using assms by (auto simp: reviews_ok_def)

lemma reviews_ok_find:
  assumes "reviews_ok newId rs" "find_row p rs = Some r"
  shows "review_ok newId r"
  using assms find_row_SomeD [OF assms(2)] by (auto simp: reviews_ok_def)

section \<open>Every handler preserves it\<close>

lemma new_review_ok:
  assumes "toReviewStatus (ap_status a) = Some st"
  shows "review_ok newId (new_review now (newId (ap_id a)) a st)"
proof -
  have "st \<in> {RS_SUBMITTED, RS_APPROVED, RS_REJECTED}"
    using toReviewStatus_range [OF assms] .
  then show ?thesis
    by (auto simp: review_ok_def new_review_def Let_def initial_checklist_def o_def case_prod_unfold)
qed

lemma ensureReview_reviews:
  "ss_reviews (snd (ensureReview toISO now i appId notify s)) = ss_reviews s
   \<or> (\<exists>a st. find_review_of appId s = None \<and> find_app appId s = Some a
       \<and> toReviewStatus (ap_status a) = Some st
       \<and> ss_reviews (snd (ensureReview toISO now i appId notify s)) = ss_reviews s @ [new_review now i a st])"
  by (auto simp: ensureReview_def Let_def split: option.splits)

lemma ensureReview_ok:
  assumes "reviews_ok newId (ss_reviews s)"
  shows "reviews_ok newId (ss_reviews (snd (ensureReview toISO now (newId appId) appId notify s)))"
  using ensureReview_reviews [of toISO now "newId appId" appId notify s]
proof
  assume "\<exists>a st. find_review_of appId s = None \<and> find_app appId s = Some a
       \<and> toReviewStatus (ap_status a) = Some st
       \<and> ss_reviews (snd (ensureReview toISO now (newId appId) appId notify s))
         = ss_reviews s @ [new_review now (newId appId) a st]"
  then obtain a st where a: "find_review_of appId s = None" "find_app appId s = Some a"
    "toReviewStatus (ap_status a) = Some st"
    "ss_reviews (snd (ensureReview toISO now (newId appId) appId notify s))
      = ss_reviews s @ [new_review now (newId appId) a st]"
    by blast
  have ai: "ap_id a = appId" using find_row_SomeD [OF a(2)] by simp
  have "ap_id a \<notin> rv_applicationId ` set (ss_reviews s)"
    using a(1) ai by (auto simp: find_row_None_iff)
  then show ?thesis
    using a(4) reviews_ok_add [OF assms, of "new_review now (newId (ap_id a)) a st"]
      new_review_ok [OF a(3), of newId now] ai by simp
qed (use assms in simp)

lemma refresh_ok:
  assumes "review_ok newId r" "refresh_review now apps r = Some r'"
  shows "review_ok newId r'"
proof -
  from refresh_review_Some(1) [OF assms(2)]
  obtain e where e: "rv_decidedAt r' = None \<longleftrightarrow> AS_PRODUCT (rv_status r') = PS_PENDING_REVIEW"
    "rv_events r' = rv_events r @ [e]" "ev_from e = Some (rv_status r)" "ev_to e = rv_status r'"
    by metis
  have "history_ok None (rv_events r) (rv_status r)"
    using assms(1) by (simp add: review_ok_def)
  from history_ok_snoc [OF this e(3)] have "history_ok None (rv_events r') (rv_status r')"
    by (simp add: e)
  then show ?thesis
    using assms(1) e(1) refresh_review_Some(2-4) [OF assms(2)] by (simp add: review_ok_def)
qed

lemma refreshDrifted_ok:
  assumes "reviews_ok newId rs"
  shows "reviews_ok newId (snd (refreshDrifted now apps rs))"
  unfolding refreshDrifted_def snd_conv
proof (rule reviews_ok_map [OF assms])
  fix r assume "r \<in> set rs"
  with assms have "review_ok newId r" by (simp add: reviews_ok_def)
  then show "review_ok newId (case refresh_review now apps r of None \<Rightarrow> r | Some r' \<Rightarrow> r')
     \<and> rv_applicationId (case refresh_review now apps r of None \<Rightarrow> r | Some r' \<Rightarrow> r') = rv_applicationId r"
    by (auto simp: refresh_ok refresh_review_Some(3) split: option.split)
qed

lemma imported_ok:
  assumes "reviews_ok newId rs" "distinct (map ap_id as)"
    "set (map ap_id as) \<inter> set (map rv_applicationId rs) = {}"
  shows "reviews_ok newId (rs @ imported now newId as)"
proof -
  have "distinct (map rv_applicationId (imported now newId as))"
    using assms(2) by (simp add: imported_app_ids distinct_map_filter)
  moreover have "set (map rv_applicationId (imported now newId as)) \<subseteq> set (map ap_id as)"
    by (auto simp: imported_app_ids)
  moreover have "\<forall>r \<in> set (imported now newId as). review_ok newId r"
    by (auto simp: set_imported new_review_ok)
  ultimately show ?thesis
    using assms(1,3) by (auto simp: reviews_ok_def simp del: set_map)
qed

lemma sync_ok:
  assumes "reviews_ok newId (ss_reviews s)" "distinct (map ap_id (ss_apps s))"
  shows "reviews_ok newId (ss_reviews (snd (syncFromProduct nt toISO now newId s)))"
proof -
  obtain v ib where "syncFromProduct nt toISO now newId s = returns v
      (s\<lparr>ss_reviews := snd (refreshDrifted now (ss_apps s) (ss_reviews s)) @ imported now newId (missing_apps s),
         ss_inbox := ib\<rparr>)"
    using sync_returns [OF assms(2)] by blast
  moreover have "reviews_ok newId (snd (refreshDrifted now (ss_apps s) (ss_reviews s))
      @ imported now newId (missing_apps s))"
    using refreshDrifted_ok [OF assms(1)] missing_apps_facts [of s] assms(2)
    by (intro imported_ok) (simp_all del: set_map)
  ultimately show ?thesis by simp
qed

lemma assign_ok:
  assumes "inj newId" "reviews_ok newId (ss_reviews s)"
  shows "reviews_ok newId (ss_reviews (snd (assign_review actor rid target s)))"
proof (cases "find_review rid s")
  case (Some r)
  define t where "t = (case target of None \<Rightarrow> sp_id actor | Some t \<Rightarrow> t)"
  let ?e = "\<lparr>ev_from = Some (rv_status r), ev_to = rv_status r, ev_actorId = Some (sp_id actor),
      ev_comment = Some (''Assigned to '' @ (if t = sp_id actor then ''self'' else t))\<rparr>"
  let ?f = "\<lambda>x. x\<lparr>rv_assigneeId := Some t, rv_events := rv_events x @ [?e]\<rparr>"
  have r: "review_ok newId r" using reviews_ok_find [OF assms(2) Some] .
  then have "history_ok None (rv_events r @ [?e]) (rv_status r)"
    using history_ok_snoc [of None "rv_events r" "rv_status r" ?e] by (simp add: review_ok_def)
  with r have "review_ok newId (?f r)" by (simp add: review_ok_def)
  then have "reviews_ok newId (update_where (\<lambda>x. rv_id x = rid) ?f (ss_reviews s))"
    by (rule reviews_ok_update [OF assms Some]) simp
  moreover have "ss_reviews (snd (assign_review actor rid target s)) =
      update_where (\<lambda>x. rv_id x = rid) ?f (ss_reviews s)"
    using Some by (simp add: assign_review_def Let_def update_review_def t_def [symmetric])
  ultimately show ?thesis by simp
qed (simp add: assign_review_def assms)

lemma tick_items_keys: "tick_items actor now us cs = Some cs' \<Longrightarrow> map ck_key cs' = map ck_key cs"
  by (induction us arbitrary: cs) (auto simp: map_update_where tick_item_def split: if_splits)

lemma checklist_ok:
  assumes "inj newId" "reviews_ok newId (ss_reviews s)"
  shows "reviews_ok newId (ss_reviews (snd (updateChecklist actor now rid items s)))"
proof (cases "find_review rid s")
  case None
  then have "update_where (\<lambda>r. rv_id r = rid) f (ss_reviews s) = ss_reviews s" for f
    by (intro update_where_idle) (auto simp: find_row_None_iff)
  with assms(2) show ?thesis
    by (auto simp: updateChecklist_def Let_def update_review_def split: option.split)
next
  case (Some r)
  have "review_ok newId r" using reviews_ok_find [OF assms(2) Some] .
  with assms(2) Some show ?thesis
    by (auto simp: updateChecklist_def Let_def update_review_def review_ok_def tick_items_keys
        intro!: reviews_ok_update [OF assms Some] split: option.split)
qed

lemma decide_ok:
  assumes "inj newId" "reviews_ok newId (ss_reviews s)"
  shows "reviews_ok newId (ss_reviews (snd (decide actor now rid dto s)))"
proof (cases "decide actor now rid dto s")
  case (Pair res s')
  show ?thesis
  proof (cases res)
    case (Inl e)
    with Pair have "s' = s" using decide_error_unchanged by blast
    with Pair assms(2) show ?thesis by simp
  next
    case (Inr v)
    with Pair have d: "decide actor now rid dto s = returns v s'" by simp
    then obtain r a where ra: "find_review rid s = Some r" "find_app (rv_applicationId r) s = Some a"
      by (rule decide_success_allowed)
    have ri: "rv_id r = rid" and r: "review_ok newId r"
      using find_row_SomeD [OF ra(1)] reviews_ok_find [OF assms(2) ra(1)] by auto
    let ?d = "dto_decision dto" and ?re = "dto_reason dto"
    let ?f = "\<lambda>x. x\<lparr>rv_status := decision_status ?d, rv_decisionReason := ?re, rv_decidedAt := Some now,
        rv_events := rv_events x @ [\<lparr>ev_from = Some (rv_status r), ev_to = decision_status ?d,
          ev_actorId = Some (sp_id actor), ev_comment = ?re\<rparr>]\<rparr>"
    have h: "history_ok None (rv_events r @ [\<lparr>ev_from = Some (rv_status r), ev_to = decision_status ?d,
        ev_actorId = Some (sp_id actor), ev_comment = ?re\<rparr>]) (decision_status ?d)"
      using history_ok_snoc [of None "rv_events r" "rv_status r" "\<lparr>ev_from = Some (rv_status r),
        ev_to = decision_status ?d, ev_actorId = Some (sp_id actor), ev_comment = ?re\<rparr>"] r
      by (simp add: review_ok_def)
    have "AS_PRODUCT (decision_status ?d) \<noteq> PS_PENDING_REVIEW"
      by (cases ?d) simp_all
    with r h have "review_ok newId (?f r)"
      by (simp add: review_ok_def)
    then have "reviews_ok newId (update_where (\<lambda>x. rv_id x = rid) ?f (ss_reviews s))"
      by (rule reviews_ok_update [OF assms ra(1)]) simp
    moreover have "ss_reviews s' = update_where (\<lambda>x. rv_id x = rid) ?f (ss_reviews s)"
      using ri by (simp add: decide_returns(1) [OF d ra] decide_review_def update_review_def Let_def)
    ultimately have "reviews_ok newId (ss_reviews s')" by simp
    with Pair show ?thesis by simp
  qed
qed

section \<open>Steps\<close>

text \<open>
  One request, one scheduler run, one click in the inbox, or any change the customer makes to
  the product's applications.  Refused requests are steps too: the relation takes the state a
  handler leaves, thrown or not.
\<close>

inductive sid_step :: "(string \<Rightarrow> string) \<Rightarrow> sid_state \<Rightarrow> sid_state \<Rightarrow> bool" for newId where
  step_ensure: "sid_step newId s (snd (ensureReview toISO now (newId appId) appId notify s))"
| step_sync: "sid_step newId s (snd (syncFromProduct nt toISO now newId s))"
| step_assign: "sid_step newId s (snd (assign_review actor rid target s))"
| step_checklist: "sid_step newId s (snd (updateChecklist actor now rid items s))"
| step_decide: "sid_step newId s (snd (decide actor now rid dto s))"
| step_sweep: "sid_step newId s (snd (sweepSlaBreaches toISO now s))"
| step_read: "sid_step newId s (s\<lparr>ss_inbox := markRead now staffId i (ss_inbox s)\<rparr>)"
| step_read_all: "sid_step newId s (s\<lparr>ss_inbox := snd (markAllRead now staffId (ss_inbox s))\<rparr>)"
| step_customer: "distinct (map ap_id apps) \<Longrightarrow> sid_step newId s (s\<lparr>ss_apps := apps, ss_accounts := accts\<rparr>)"

lemma ensureReview_apps [simp]: "ss_apps (snd (ensureReview toISO now i appId notify s)) = ss_apps s"
  by (auto simp: ensureReview_def Let_def split: option.splits)

lemma updateChecklist_apps [simp]: "ss_apps (snd (updateChecklist actor now rid items s)) = ss_apps s"
  by (simp add: updateChecklist_def update_review_def Let_def split: option.split)

lemma assign_apps [simp]: "ss_apps (snd (assign_review actor rid target s)) = ss_apps s"
  by (simp add: assign_review_def update_review_def Let_def split: option.split)

lemma sweep_frame [simp]:
  "ss_apps (snd (sweepSlaBreaches toISO now s)) = ss_apps s"
  "ss_reviews (snd (sweepSlaBreaches toISO now s)) = ss_reviews s"
  by (simp_all add: sweepSlaBreaches_def Let_def)

lemma decide_app_ids: "map ap_id (ss_apps (snd (decide actor now rid dto s))) = map ap_id (ss_apps s)"
proof (cases "decide actor now rid dto s")
  case (Pair res s')
  show ?thesis
  proof (cases res)
    case (Inl e)
    with Pair have "s' = s" using decide_error_unchanged by blast
    with Pair show ?thesis by simp
  next
    case (Inr v)
    with Pair have d: "decide actor now rid dto s = returns v s'" by simp
    then obtain r a where ra: "find_review rid s = Some r" "find_app (rv_applicationId r) s = Some a"
      by (rule decide_success_allowed)
    show ?thesis
      by (simp add: d decide_returns(1) [OF d ra] decide_tx_apps map_update_where)
  qed
qed

definition sid_ok :: "(string \<Rightarrow> string) \<Rightarrow> sid_state \<Rightarrow> bool" where
  "sid_ok newId s \<longleftrightarrow> reviews_ok newId (ss_reviews s) \<and> distinct (map ap_id (ss_apps s))"

lemma sid_step_ok:
  assumes "inj newId" "sid_step newId s s'" "sid_ok newId s"
  shows "sid_ok newId s'"
  using assms(2,3)
proof cases
  case (step_sync nt toISO now)
  obtain v t where t: "syncFromProduct nt toISO now newId s = returns v t"
    using sync_returns assms(3) unfolding sid_ok_def by blast
  with assms(3) step_sync show ?thesis
    using sync_ok [of newId s nt toISO now] sync_in_sync(2) [OF _ t] by (simp add: sid_ok_def)
next
  case (step_decide actor now rid dto)
  with assms show ?thesis by (simp add: sid_ok_def decide_ok decide_app_ids)
qed (use assms in \<open>simp_all add: sid_ok_def ensureReview_ok assign_ok checklist_ok\<close>)

lemma sid_steps_ok:
  assumes "(sid_step newId)\<^sup>*\<^sup>* s0 s" "inj newId" "sid_ok newId s0"
  shows "sid_ok newId s"
  using assms(1) by (induction rule: rtranclp_induct) (auto simp: assms sid_step_ok)


section \<open>SLA alerts\<close>

text \<open>Inbox rows are never deleted and their alert never changes, so an alert once sent stays sent.\<close>

definition alerts_of :: "inbox_state \<Rightarrow> staff_alert set" where
  "alerts_of s = set (map no_alert (ib_notes s))"

lemma alerts_notify [simp]: "alerts_of (notifyStaff sid alert s) = insert alert (alerts_of s)"
  by (simp add: alerts_of_def notifyStaff_def)

lemma alerts_broadcast: "alerts_of s \<subseteq> alerts_of (snd (broadcastToPermission now perm alert s))"
  unfolding alerts_of_def broadcast_notes by auto

lemma alerts_broadcast_to:
  "filter (holds_permission (ib_roles s) perm) (ib_staff s) \<noteq> [] \<Longrightarrow>
   alert \<in> alerts_of (snd (broadcastToPermission now perm alert s))"
  unfolding alerts_of_def broadcast_notes by (simp del: filter_empty_conv)

lemma alerts_read [simp]:
  "alerts_of (markRead now staffId i s) = alerts_of s"
  "alerts_of (snd (markAllRead now staffId s)) = alerts_of s"
  by (simp_all add: alerts_of_def markRead_def markAllRead_def map_update_where del: set_map)

lemma already_alerted_iff:
  "already_alerted alert s \<longleftrightarrow> (\<exists>a \<in> alerts_of s. al_type a = al_type alert \<and> al_link a = al_link alert)"
  by (auto simp: already_alerted_def alerts_of_def find_row_None_iff)

lemma already_alerted_mono:
  "already_alerted alert s \<Longrightarrow> alerts_of s \<subseteq> alerts_of s' \<Longrightarrow> already_alerted alert s'"
  by (auto simp: already_alerted_iff)

lemma alerts_sweep_one: "alerts_of s \<subseteq> alerts_of (sweep_one toISO now r s)"
  using alerts_broadcast by (auto simp: sweep_one_def Let_def split: option.split)

lemma alerts_sweep: "alerts_of s \<subseteq> alerts_of (fold (sweep_one toISO now) rs s)"
  by (induction rs arbitrary: s) (use alerts_sweep_one in fastforce)+

lemma alerts_ensure: "alerts_of (ss_inbox s) \<subseteq> alerts_of (ss_inbox (snd (ensureReview toISO now i appId notify s)))"
  using alerts_broadcast by (auto simp: ensureReview_def Let_def split: option.split)

lemma alerts_import:
  "alerts_of (ss_inbox s) \<subseteq> alerts_of (ss_inbox (snd (import_missing toISO now newId loud as c m s)))"
proof (induction as arbitrary: c m s)
  case (Cons a as)
  have "alerts_of (ss_inbox s) \<subseteq> alerts_of (ss_inbox s')"
    if "ensureReview toISO now (newId (ap_id a)) (ap_id a) loud s = (x, s')" for x s'
    using alerts_ensure [of s toISO now "newId (ap_id a)" "ap_id a" loud] that by simp
  with Cons.IH show ?case
    by (auto split: prod.splits sum.splits option.splits) (meson in_mono)+
qed simp

lemma alerts_sync:
  "alerts_of (ss_inbox s) \<subseteq> alerts_of (ss_inbox (snd (syncFromProduct nt toISO now newId s)))"
proof -
  obtain n rs where nr: "refreshDrifted now (ss_apps s) (ss_reviews s) = (n, rs)" by fastforce
  obtain x s2 where i: "import_missing toISO now newId (length (missing_apps s) \<le> 5) (missing_apps s) 0 []
      (s\<lparr>ss_reviews := rs\<rparr>) = (x, s2)" by fastforce
  have "alerts_of (ss_inbox s) \<subseteq> alerts_of (ss_inbox s2)"
    using alerts_import [of "s\<lparr>ss_reviews := rs\<rparr>" toISO now newId "length (missing_apps s) \<le> 5" "missing_apps s" 0 "[]"] i
    by simp
  then show ?thesis
    using nr i alerts_broadcast [of "ss_inbox s2"]
    by (auto simp: syncFromProduct_def Let_def split: sum.split) (meson in_mono)+
qed

lemma alerts_assign: "alerts_of (ss_inbox s) \<subseteq> alerts_of (ss_inbox (snd (assign_review actor rid target s)))"
  by (auto simp: assign_review_def Let_def update_review_def split: option.split)

lemma alerts_checklist [simp]: "ss_inbox (snd (updateChecklist actor now rid items s)) = ss_inbox s"
  by (auto simp: updateChecklist_def Let_def update_review_def split: option.split)

lemma decide_inbox [simp]: "ss_inbox (snd (decide actor now rid dto s)) = ss_inbox s"
proof (cases "decide actor now rid dto s")
  case (Pair res s')
  show ?thesis
  proof (cases res)
    case (Inl e)
    with Pair have "s' = s" using decide_error_unchanged by blast
    with Pair show ?thesis by simp
  next
    case (Inr v)
    with Pair have d: "decide actor now rid dto s = returns v s'" by simp
    then obtain r a where ra: "find_review rid s = Some r" "find_app (rv_applicationId r) s = Some a"
      by (rule decide_success_allowed)
    show ?thesis
      by (simp add: d decide_returns(1) [OF d ra])
  qed
qed

lemma alerts_step: "sid_step newId s s' \<Longrightarrow> alerts_of (ss_inbox s) \<subseteq> alerts_of (ss_inbox s')"
  by (cases rule: sid_step.cases)
     (auto simp: sweepSlaBreaches_def Let_def
       dest: subsetD [OF alerts_ensure] subsetD [OF alerts_sync] subsetD [OF alerts_assign] subsetD [OF alerts_sweep])

lemma alerts_steps: "(sid_step newId)\<^sup>*\<^sup>* s s' \<Longrightarrow> alerts_of (ss_inbox s) \<subseteq> alerts_of (ss_inbox s')"
  by (induction rule: rtranclp_induct) (use alerts_step in blast)+

text \<open>
  C35. After a sweep every overdue review has its breach alert in the inbox, provided it is
  assigned or somebody active may review.
\<close>

theorem sweep_alerts_every_breach:
  assumes "r \<in> set (ss_reviews s)" "is_overdue now r"
    "rv_assigneeId r \<noteq> None \<or> (\<exists>st \<in> set (ib_staff (ss_inbox s)). holds_permission (ib_roles (ss_inbox s)) ''senderid.review'' st)"
  shows "\<exists>n \<in> set (ib_notes (ss_inbox (snd (sweepSlaBreaches toISO now s)))).
      al_type (no_alert n) = ''senderid.sla_breach'' \<and> al_link (no_alert n) = Some (''/sender-ids/'' @ rv_id r)"
proof -
  let ?sa = "\<lambda>ib. ib_staff ib = ib_staff (ss_inbox s) \<and> ib_roles ib = ib_roles (ss_inbox s)"
  have one: "already_alerted (sla_alert toISO r) (sweep_one toISO now r ib)" if "?sa ib" for ib
    using assms(3) that alerts_broadcast_to [of ib "''senderid.review''" "sla_alert toISO r" now]
    by (auto simp: sweep_one_def Let_def already_alerted_iff filter_empty_conv split: option.split)
  have frame: "?sa (sweep_one toISO now x ib)" if "?sa ib" for x ib
    using that by (auto simp: sweep_one_def Let_def notifyStaff_def split: option.split)
  have all: "already_alerted (sla_alert toISO r) (fold (sweep_one toISO now) rs ib)"
    if "r \<in> set rs" "?sa ib" for rs ib
    using that
  proof (induction rs arbitrary: ib)
    case (Cons x rs)
    show ?case
    proof (cases "r = x")
      case True
      with one [OF Cons.prems(2)] show ?thesis
        using already_alerted_mono alerts_sweep by fastforce
    next
      case False
      with Cons.prems Cons.IH [of "sweep_one toISO now x ib"] frame show ?thesis by simp
    qed
  qed simp
  have "already_alerted (sla_alert toISO r)
      (fold (sweep_one toISO now) (filter (is_overdue now) (ss_reviews s)) (ss_inbox s))"
    using assms(1,2) by (intro all) auto
  then show ?thesis
    by (auto simp: sweepSlaBreaches_def Let_def already_alerted_iff alerts_of_def sla_alert_def)
qed

text \<open>
  One breach alert silences a review for good.  The sweep tells alerts apart by type and
  link only, and inbox rows are never deleted; so once a review has been alerted, no later
  state, whatever happened in between (the customer resubmitting and the clock restarting
  included), makes the sweep note, push or mail anything for it again.
\<close>

theorem breach_alerted_once_ever:
  assumes "already_alerted (sla_alert toISO r) (ss_inbox s)" "(sid_step newId)\<^sup>*\<^sup>* s s'" "rv_id r' = rv_id r"
  shows "sweep_one toISO now r' (ss_inbox s') = ss_inbox s'"
proof -
  have "already_alerted (sla_alert toISO r) (ss_inbox s')"
    using already_alerted_mono [OF assms(1) alerts_steps [OF assms(2)]] .
  then have "already_alerted (sla_alert toISO r') (ss_inbox s')"
    using assms(3) by (simp add: already_alerted_iff sla_alert_def)
  then show ?thesis by (simp add: sweep_one_def Let_def)
qed

end
