(* ===== verification/Sender_Id_Queue.thy ===== *)
theory Sender_Id_Queue
  imports Sender_Id_Invariant
begin

text \<open>
  The review queue as the screen shows it: the keyset walk over (slaDueAt, id), the filters and
  the counts above it, and concrete runs of the service on a small state.
\<close>

section \<open>Walking the queue\<close>

lemma sorted_asc:
  fixes key :: "'r \<Rightarrow> 'k::linorder"
  assumes "distinct (map key rows)"
  shows "sorted_wrt (<) (map key (sort_key key rows))"
  using assms by (simp add: strict_sorted_iff distinct_map inj_on_def)

interpretation queue_paging: keyset_paging review_key "(<)" "sort_key review_key" queue_rows
proof unfold_locales
  fix rows :: "review list"
  assume "distinct (map review_key rows)"
  then show "sorted_wrt (<) (map review_key (sort_key review_key rows))" by (rule sorted_asc)
qed (auto simp: queue_rows_def queue_after_def review_key_def less_prod_def split: prod.splits
       intro!: arg_cong [where f = "take _"] filter_cong)

lemma queue_list_page:
  "queue_list now query c limit rows =
     map_page (queue_row_of now) (queue_paging.page_at limit (filter (queue_filter now query) rows) c)"
  by (simp add: queue_list_def queue_paging.page_at_def buildPage_def map_page_def Let_def)

text \<open>
  C34. Following the queue's cursors shows every review that matches the filters exactly once,
  the one due soonest first, whatever the page size.
\<close>

theorem queue_walk_complete:
  assumes "distinct (map rv_id rows)" "0 < limit" "length rows < fuel"
  shows "walk_pages (\<lambda>c. queue_list now query c limit rows) fuel None =
    map (queue_row_of now) (sort_key review_key (filter (queue_filter now query) rows))"
proof -
  let ?rows = "filter (queue_filter now query) rows"
  have "distinct (map review_key ?rows)"
  proof -
    have "inj_on review_key (set rows)"
      using assms(1) by (auto simp: distinct_map inj_on_def review_key_def)
    then show ?thesis
      using assms(1) by (auto simp: distinct_map intro: inj_on_subset)
  qed
  moreover have "length (sort_key review_key ?rows) < fuel"
    using assms(3) le_less_trans [OF length_filter_le] by fastforce
  ultimately show ?thesis
    using queue_paging.walk_complete [OF _ assms(2)] by (simp add: queue_list_page [abs_def] walk_map_page)
qed

text \<open>
  What the reviewer sees is consistent: a status filter shows only rows of that status, a
  row is overdue only while it is pending and undecided, and the three status counts above the
  queue add up to the number of reviews.
\<close>

theorem queue_shows_status:
  "(\<forall>row \<in> set (pg_data (queue_list now query after limit (ss_reviews s))).
      (\<forall>p. asProductStatus (lq_status query) = Some p \<longrightarrow> qr_status row = p)
      \<and> (qr_overdue row \<longrightarrow> qr_status row = PS_PENDING_REVIEW \<and> rv_decidedAt (qr_review row) = None
           \<and> rv_slaDueAt (qr_review row) < now)
      \<and> qr_review row \<in> set (ss_reviews s))
   \<and> qc_pending (queueCounts now s) + qc_approved (queueCounts now s) + qc_rejected (queueCounts now s)
      = length (ss_reviews s)"
proof -
  have sum: "count_where (\<lambda>r. AS_PRODUCT (rv_status r) = PS_PENDING_REVIEW) rs
      + count_where (\<lambda>r. AS_PRODUCT (rv_status r) = PS_APPROVED) rs
      + count_where (\<lambda>r. AS_PRODUCT (rv_status r) = PS_REJECTED) rs = length rs" for rs
  proof (induction rs)
    case (Cons r rs)
    then show ?case by (cases "rv_status r") auto
  qed simp
  have rows: "set (take n (queue_rows after m (filter P rs))) \<subseteq> {r \<in> set rs. P r}" for n m P rs
    by (auto simp: queue_rows_def dest!: in_set_takeD)
  show ?thesis
    using sum [of "ss_reviews s"] rows [of limit "limit + 1" "queue_filter now query" "ss_reviews s"]
    by (auto simp: queueCounts_def Let_def queue_list_def queue_row_of_def queue_filter_def
        reviewStatusesFor_iff dest!: subsetD)
qed

section \<open>Concrete runs\<close>

text \<open>One reviewer, one customer, one application waiting for review.\<close>

definition ex_reviewer :: principal where
  "ex_reviewer = \<lparr>sp_id = ''u1'', sp_email = ''r@z'', sp_name = ''R'', sp_roleId = ''role'', sp_roleKey = ''compliance'',
     sp_permissions = [''senderid.review''], sp_sessionId = ''s'', sp_sessionEpoch = 0, sp_ip = None,
     sp_userAgent = None, sp_impersonating = None\<rparr>"

definition ex_app :: "string \<Rightarrow> string \<Rightarrow> application" where
  "ex_app i st = \<lparr>ap_id = i, ap_accountId = ''acc'', ap_projectId = ''p1'', ap_senderId = ''ACME'', ap_status = st,
     ap_submittedAt = Some 0, ap_createdAt = 0, ap_updatedAt = 0, ap_reviewedAt = None, ap_rejectionReason = None\<rparr>"

definition ex_inbox :: inbox_state where
  "ex_inbox = \<lparr>ib_staff = [], ib_roles = [], ib_notes = [], ib_nextNote = 0, ib_pushed = [], ib_mails = []\<rparr>"

definition ex_start :: sid_state where
  "ex_start = \<lparr>ss_reviews = [], ss_apps = [ex_app ''a'' ''PENDING_REVIEW'', ex_app ''d'' ''DRAFT''],
     ss_accounts = [''acc'' \<mapsto> ''owner''], ss_userNotes = [], ss_inbox = ex_inbox, ss_audit = [],
     ss_cacheDel = [], ss_nudged = []\<rparr>"

definition ex_review :: review where
  "ex_review = new_review 0 ''r'' (ex_app ''a'' ''PENDING_REVIEW'') RS_SUBMITTED"

definition ex_queued :: sid_state where
  "ex_queued = ex_start\<lparr>ss_reviews := [ex_review\<lparr>rv_assigneeId := Some ''u1''\<rparr>]\<rparr>"

definition ex_reject :: decision_dto where
  "ex_reject = \<lparr>dd_status = ''REJECTED'', dd_reason = Some ''No letter''\<rparr>"

lemmas ex_defs = ex_reviewer_def ex_app_def ex_inbox_def ex_start_def ex_review_def ex_queued_def ex_reject_def

lemma ex_decide: "\<exists>v s'. decide ex_reviewer 5 ''r'' ex_reject ex_queued = returns v s'"
proof -
  have "find_review ''r'' ex_queued = Some (ex_review\<lparr>rv_assigneeId := Some ''u1''\<rparr>)"
    "find_app (rv_applicationId (ex_review\<lparr>rv_assigneeId := Some ''u1''\<rparr>)) ex_queued = Some (ex_app ''a'' ''PENDING_REVIEW'')"
    by (simp_all add: ex_defs new_review_def Let_def)
  moreover have "decide_allowed ex_reject (ex_review\<lparr>rv_assigneeId := Some ''u1''\<rparr>) (ex_app ''a'' ''PENDING_REVIEW'')"
    by (simp add: decide_allowed_def ex_defs new_review_def Let_def dto_decision_def dto_reason_def
        allowedDecisions_def truthy_def trim_eq_Nil_iff is_space_def)
  ultimately show ?thesis
    using decide_cases [of "''r''" ex_queued] by (simp add: case_prod_unfold Let_def)
qed

lemma desc_pages_cover_rows_witness:
  "walk_pages (\<lambda>c. buildPage id (findMany_desc id c (1 + 1) [(1, ''a''), (1, ''b''), (0, ''c'')]) 1) 4 None =
    rev (sort_key id [(1::int, ''a''), (1, ''b''), (0, ''c'')])"
  using desc_pages_cover_rows [of id "[(1, ''a''), (1, ''b''), (0, ''c'')]" 1 4] by simp

lemma decide_only_when_allowed_witness:
  "\<exists>r a l. find_review ''r'' ex_queued = Some r \<and> find_app (rv_applicationId r) ex_queued = Some a
    \<and> toReviewStatus (ap_status a) = Some l \<and> AS_PRODUCT l = AS_PRODUCT (rv_status r)"
proof -
  have "succeeded (decide ex_reviewer 5 ''r'' ex_reject ex_queued)"
    using ex_decide by force
  from decide_only_when_allowed [OF this] show ?thesis by blast
qed

lemma decide_records_decision_witness:
  "\<exists>v s' r'. decide ex_reviewer 5 ''r'' ex_reject ex_queued = returns v s'
    \<and> find_review ''r'' s' = Some r' \<and> rv_status r' = RS_REJECTED \<and> rv_decidedAt r' = Some 5"
proof -
  obtain v s' where d: "decide ex_reviewer 5 ''r'' ex_reject ex_queued = returns v s'"
    using ex_decide by blast
  then obtain r a where "find_review ''r'' ex_queued = Some r" "find_app (rv_applicationId r) ex_queued = Some a"
    by (rule decide_success_allowed)
  from decide_records_decision [OF d this] d show ?thesis
    by (auto simp: ex_reject_def dto_decision_def)
qed

lemma sync_converges_witness:
  "\<exists>v s'. syncFromProduct (\<lambda>_. '''') (\<lambda>_. '''') 3 id ex_start = returns v s'
    \<and> (\<exists>r \<in> set (ss_reviews s'). rv_applicationId r = ''a'')"
proof -
  have "distinct (map ap_id (ss_apps ex_start))" by (simp add: ex_defs)
  from sync_converges [OF this, of "\<lambda>_. ''''" "\<lambda>_. ''''" 3 id]
  obtain v s' where s': "syncFromProduct (\<lambda>_. '''') (\<lambda>_. '''') 3 id ex_start = returns v s'"
    and all: "\<forall>a \<in> set (ss_apps s'). toReviewStatus (ap_status a) \<noteq> None
        \<longrightarrow> (\<exists>r \<in> set (ss_reviews s'). rv_applicationId r = ap_id a)" by blast
  have "ss_apps s' = ss_apps ex_start"
    using sync_in_sync(2) [OF _ s'] by (simp add: ex_defs)
  with s' all show ?thesis by (auto simp: ex_defs)
qed


lemma sweep_alerts_every_breach_witness:
  "\<exists>n \<in> set (ib_notes (ss_inbox (snd (sweepSlaBreaches (\<lambda>_. '''') 90000000 ex_queued)))).
      al_link (no_alert n) = Some ''/sender-ids/r''"
  using sweep_alerts_every_breach [of "ex_review\<lparr>rv_assigneeId := Some ''u1''\<rparr>" ex_queued 90000000 "\<lambda>_. ''''"]
  by (auto simp: ex_defs new_review_def is_overdue_def Let_def SLA_HOURS_def hour_ms_def)

text \<open>
  The run behind the once-ever property: the breach is alerted, the customer resubmits, the
  review is back in the queue with a new due date, that date passes as well, and the sweep is
  silent.
\<close>

definition ex_alerted :: sid_state where
  "ex_alerted = snd (sweepSlaBreaches (\<lambda>_. '''') 90000000 ex_queued)"

lemma breach_alerted_once_ever_witness:
  "let resubmitted = ex_review\<lparr>rv_submittedAt := 100000000, rv_slaDueAt := 186400000\<rparr> in
   is_overdue 200000000 resubmitted
   \<and> sweep_one (\<lambda>_. '''') 200000000 resubmitted (ss_inbox ex_alerted) = ss_inbox ex_alerted"
proof -
  have "already_alerted (sla_alert (\<lambda>_. '''') ex_review) (ss_inbox ex_alerted)"
    by (simp add: ex_alerted_def ex_defs new_review_def sweepSlaBreaches_def Let_def is_overdue_def
        SLA_HOURS_def hour_ms_def sweep_one_def already_alerted_def sla_alert_def notifyStaff_def)
  moreover have "(sid_step id)\<^sup>*\<^sup>* ex_alerted ex_alerted" by simp
  moreover have "rv_id (ex_review\<lparr>rv_submittedAt := 100000000, rv_slaDueAt := 186400000\<rparr>) = rv_id ex_review" by simp
  ultimately have "sweep_one (\<lambda>_. '''') 200000000 (ex_review\<lparr>rv_submittedAt := 100000000, rv_slaDueAt := 186400000\<rparr>)
      (ss_inbox ex_alerted) = ss_inbox ex_alerted"
    by (rule breach_alerted_once_ever)
  moreover have "is_overdue 200000000 (ex_review\<lparr>rv_submittedAt := 100000000, rv_slaDueAt := 186400000\<rparr>)"
    by (simp add: Let_def is_overdue_def ex_defs new_review_def)
  ultimately show ?thesis by (simp add: Let_def)
qed

definition ex_all :: list_query where
  "ex_all = \<lparr>lq_status = None, lq_assigneeId = None, lq_overdueOnly = False, lq_q = None\<rparr>"

lemma queue_walk_complete_witness:
  "length (walk_pages (\<lambda>c. queue_list 0 ex_all c 1 [ex_review, ex_review\<lparr>rv_id := ''q''\<rparr>]) 3 None) = 2"
proof -
  have "distinct (map rv_id [ex_review, ex_review\<lparr>rv_id := ''q''\<rparr>])"
    by (simp add: ex_defs new_review_def Let_def)
  from queue_walk_complete [OF this, where limit = 1 and fuel = 3 and now = 0 and query = ex_all]
  show ?thesis by (simp add: queue_filter_def asProductStatus_def ex_all_def)
qed

lemma queue_shows_status_witness:
  "qc_pending (queueCounts 0 ex_queued) + qc_approved (queueCounts 0 ex_queued)
     + qc_rejected (queueCounts 0 ex_queued) = 1"
  using queue_shows_status [of 0 ex_all None 1 ex_queued]
  by (simp add: ex_queued_def)

end
