(* ===== verification/Sessions.thy ===== *)
theory Sessions
  imports Prelude
begin

text \<open>
  \<open>common/auth/session.service.ts\<close>: console sessions in Redis.  The store maps a session id to
  the record and the time Redis drops it, and a staff id to the set of its session ids.  Random
  ids and tokens are arguments; every handler reads the clock once, as \<open>now\<close>.
\<close>

section \<open>State\<close>

record session_record =
  se_sessionId :: string
  se_staffId :: string
  se_sessionEpoch :: nat
  se_createdAt :: millis
  se_lastSeenAt :: millis
  se_absoluteExpiresAt :: millis
  se_ip :: "string option"
  se_userAgent :: "string option"
  se_mfaVerified :: bool
  se_csrfToken :: string
  se_impersonation :: "(string \<times> millis) option"

record session_cfg =
  sc_idleTimeoutSeconds :: int
  sc_absoluteLifetimeSeconds :: int

record session_store =
  ks_sessions :: "string \<rightharpoonup> session_record \<times> millis"
  ks_index :: "string \<Rightarrow> string list"

definition PENDING_MIN_MS :: int where
  "PENDING_MIN_MS = 10 * 60000"

definition idleMs :: "session_cfg \<Rightarrow> session_record \<Rightarrow> int" where
  "idleMs cfg r = (let idle = sc_idleTimeoutSeconds cfg * 1000
     in if se_mfaVerified r then idle else max idle PENDING_MIN_MS)"

section \<open>Redis\<close>

text \<open>GET with PX expiry, DEL, SADD, SREM and SMEMBERS.\<close>

definition redis_get :: "millis \<Rightarrow> string \<Rightarrow> session_store \<Rightarrow> session_record option" where
  "redis_get now i s = (case ks_sessions s i of None \<Rightarrow> None
     | Some (r, expires) \<Rightarrow> if now < expires then Some r else None)"

definition redis_del :: "string \<Rightarrow> session_store \<Rightarrow> session_store" where
  "redis_del i s = s\<lparr>ks_sessions := (ks_sessions s)(i := None)\<rparr>"

definition index_add :: "string \<Rightarrow> string \<Rightarrow> session_store \<Rightarrow> session_store" where
  "index_add staffId i s = s\<lparr>ks_index := (ks_index s)(staffId := List.insert i (ks_index s staffId))\<rparr>"

definition index_remove :: "string \<Rightarrow> string \<Rightarrow> session_store \<Rightarrow> session_store" where
  "index_remove staffId i s = s\<lparr>ks_index := (ks_index s)(staffId := removeAll i (ks_index s staffId))\<rparr>"

definition index_del :: "string \<Rightarrow> session_store \<Rightarrow> session_store" where
  "index_del staffId s = s\<lparr>ks_index := (ks_index s)(staffId := [])\<rparr>"

section \<open>The service\<close>

definition persist :: "session_cfg \<Rightarrow> millis \<Rightarrow> session_record \<Rightarrow> session_store \<Rightarrow> (session_store, unit) outcome" where
  "persist cfg now r s =
     (let ttlMs = min (se_absoluteExpiresAt r - now) (idleMs cfg r) in
      if ttlMs \<le> 0 then throws (PlainError ''Refusing to store a session that has already expired'') s
      else returns () (s\<lparr>ks_sessions := (ks_sessions s)(se_sessionId r \<mapsto> (r, now + ttlMs))\<rparr>))"

record create_input =
  ci_staffId :: string
  ci_sessionEpoch :: nat
  ci_ip :: "string option"
  ci_userAgent :: "string option"
  ci_mfaVerified :: bool

definition fresh_record :: "session_cfg \<Rightarrow> millis \<Rightarrow> string \<Rightarrow> string \<Rightarrow> create_input \<Rightarrow> session_record" where
  "fresh_record cfg now sid csrf i =
     \<lparr>se_sessionId = sid, se_staffId = ci_staffId i, se_sessionEpoch = ci_sessionEpoch i,
      se_createdAt = now, se_lastSeenAt = now,
      se_absoluteExpiresAt = now + sc_absoluteLifetimeSeconds cfg * 1000,
      se_ip = ci_ip i, se_userAgent = ci_userAgent i, se_mfaVerified = ci_mfaVerified i,
      se_csrfToken = csrf, se_impersonation = None\<rparr>"

definition create_session ::
  "session_cfg \<Rightarrow> millis \<Rightarrow> string \<Rightarrow> string \<Rightarrow> create_input \<Rightarrow> session_store \<Rightarrow> (session_store, session_record) outcome" where
  "create_session cfg now sid csrf i s =
     (let r = fresh_record cfg now sid csrf i in
      case persist cfg now r s of
        (Inl e, s1) \<Rightarrow> throws e s1
      | (Inr _, s1) \<Rightarrow> returns r (index_add (ci_staffId i) sid s1))"

definition revoke :: "millis \<Rightarrow> string \<Rightarrow> session_store \<Rightarrow> session_store" where
  "revoke now i s =
     (case redis_get now i s of
        None \<Rightarrow> redis_del i s
      | Some r \<Rightarrow> index_remove (se_staffId r) i (redis_del i s))"

definition get_session :: "session_cfg \<Rightarrow> millis \<Rightarrow> string \<Rightarrow> session_store \<Rightarrow> session_record option \<times> session_store" where
  "get_session cfg now i s =
     (case redis_get now i s of
        None \<Rightarrow> (None, s)
      | Some r \<Rightarrow>
          if now > se_absoluteExpiresAt r then (None, revoke now i s)
          else if now - se_lastSeenAt r > idleMs cfg r then (None, revoke now i s)
          else (Some r, s))"

fun firstLive :: "session_cfg \<Rightarrow> millis \<Rightarrow> string list \<Rightarrow> session_store \<Rightarrow> session_record option \<times> session_store" where
  "firstLive cfg now [] s = (None, s)"
| "firstLive cfg now (i # is) s =
     (case get_session cfg now i s of
        (Some r, s') \<Rightarrow> (Some r, s')
      | (None, s') \<Rightarrow> firstLive cfg now is s')"

definition touch :: "session_cfg \<Rightarrow> millis \<Rightarrow> session_record \<Rightarrow> session_store \<Rightarrow> (session_store, unit) outcome" where
  "touch cfg now r s = persist cfg now (r\<lparr>se_lastSeenAt := now\<rparr>) s"

definition update_session :: "session_cfg \<Rightarrow> millis \<Rightarrow> session_record \<Rightarrow> session_store \<Rightarrow> (session_store, unit) outcome" where
  "update_session cfg now r s = persist cfg now r s"

definition revokeAllForStaff :: "millis \<Rightarrow> string \<Rightarrow> session_store \<Rightarrow> nat \<times> session_store" where
  "revokeAllForStaff now staffId s =
     (let ids = ks_index s staffId
      in (length ids, index_del staffId (fold (revoke now) ids s)))"

fun listForStaff_loop :: "session_cfg \<Rightarrow> millis \<Rightarrow> string list \<Rightarrow> session_store \<Rightarrow> session_record list \<times> session_store" where
  "listForStaff_loop cfg now [] s = ([], s)"
| "listForStaff_loop cfg now (i # is) s =
     (let (r, s1) = get_session cfg now i s; (rs, s2) = listForStaff_loop cfg now is s1
      in ((case r of None \<Rightarrow> rs | Some x \<Rightarrow> x # rs), s2))"

definition listForStaff :: "session_cfg \<Rightarrow> millis \<Rightarrow> string \<Rightarrow> session_store \<Rightarrow> session_record list \<times> session_store" where
  "listForStaff cfg now staffId s = listForStaff_loop cfg now (ks_index s staffId) s"

text \<open>An equal length and a constant-time equality of the bytes: equality of the strings.\<close>

definition verifyCsrf :: "session_record \<Rightarrow> string option \<Rightarrow> bool" where
  "verifyCsrf r presented = (case presented of None \<Rightarrow> False
     | Some p \<Rightarrow> p \<noteq> [] \<and> length (se_csrfToken r) = length p \<and> se_csrfToken r = p)"

section \<open>Facts\<close>

lemma index_frame [simp]:
  "ks_sessions (index_add st i s) = ks_sessions s"
  "ks_sessions (index_remove st i s) = ks_sessions s"
  "ks_sessions (index_del st s) = ks_sessions s"
  "ks_index (redis_del i s) = ks_index s"
  by (simp_all add: index_add_def index_remove_def index_del_def redis_del_def)

lemma revoke_sessions [simp]: "ks_sessions (revoke now i s) = (ks_sessions s)(i := None)"
  by (simp add: revoke_def redis_del_def index_remove_def split: option.split)

lemma revoke_index: "set (ks_index (revoke now i s) st) \<subseteq> set (ks_index s st)"
  "j \<in> set (ks_index s st) \<Longrightarrow> j \<noteq> i \<Longrightarrow> j \<in> set (ks_index (revoke now i s) st)"
  by (auto simp: revoke_def index_remove_def split: option.splits)

lemma fold_revoke_sessions:
  "ks_sessions (fold (revoke now) is s) = (\<lambda>i. if i \<in> set is then None else ks_sessions s i)"
  by (induction "is" arbitrary: s) (auto simp: fun_eq_iff)

lemma get_session_Some:
  assumes "get_session cfg now i s = (Some r, s')"
  shows "s' = s" "redis_get now i s = Some r" "now \<le> se_absoluteExpiresAt r"
    "now - se_lastSeenAt r \<le> idleMs cfg r"
  using assms by (auto simp: get_session_def split: option.splits if_splits)

lemma get_session_sessions:
  "ks_sessions (snd (get_session cfg now i s)) j = ks_sessions s j \<or>
   j = i \<and> ks_sessions (snd (get_session cfg now i s)) j = None"
  by (auto simp: get_session_def split: option.splits)

lemma firstLive_Some:
  assumes "firstLive cfg now is s = (Some r, s')"
  shows "\<exists>i \<in> set is. \<exists>s1. get_session cfg now i s1 = (Some r, s') \<and> s1 = s'"
  using assms
proof (induction "is" arbitrary: s)
  case (Cons i "is")
  show ?case
  proof (cases "get_session cfg now i s")
    case (Pair ro s1)
    with Cons show ?thesis
      by (cases ro) (use get_session_Some(1) in force)+
  qed
qed simp

end
