(* ===== verification/Session_Facts.thy ===== *)
theory Session_Facts
  imports Sessions
begin

text \<open>
  The guarantees of the session store.  The locale is the contract the staff and auth services
  use: signing a staff member out everywhere leaves none of their sessions and nobody else's
  touched.  It is interpreted on the store of \<open>Sessions\<close>; the invariant that makes it hold is
  kept by every request, and fails only when a request's touch lands after a revocation.
\<close>

section \<open>The contract\<close>

locale session_registry =
  fixes ok :: "'s \<Rightarrow> bool"
    and holds :: "'s \<Rightarrow> 'id \<Rightarrow> 'staff \<Rightarrow> bool"
    and revoke_all :: "'staff \<Rightarrow> 's \<Rightarrow> 's"
  assumes ok_revoke: "ok s \<Longrightarrow> ok (revoke_all st s)"
    and revoked: "ok s \<Longrightarrow> holds (revoke_all st s) i st' \<longleftrightarrow> holds s i st' \<and> st' \<noteq> st"
begin

text \<open>Signing out several staff members, in any order.\<close>

lemma ok_fold: "ok s \<Longrightarrow> ok (fold revoke_all sts s)"
  by (induction sts arbitrary: s) (auto simp: ok_revoke)

lemma fold_revoked: "ok s \<Longrightarrow> holds (fold revoke_all sts s) i st \<longleftrightarrow> holds s i st \<and> st \<notin> set sts"
  by (induction sts arbitrary: s) (auto simp: ok_revoke revoked)

end

section \<open>The invariant\<close>

definition record_ok :: "session_cfg \<Rightarrow> session_store \<Rightarrow> string \<Rightarrow> session_record \<Rightarrow> millis \<Rightarrow> bool" where
  "record_ok cfg s i r expires \<longleftrightarrow>
     se_sessionId r = i \<and> (\<forall>st. i \<in> set (ks_index s st) \<longleftrightarrow> st = se_staffId r)
     \<and> se_absoluteExpiresAt r = se_createdAt r + sc_absoluteLifetimeSeconds cfg * 1000
     \<and> expires \<le> se_absoluteExpiresAt r"

definition store_ok :: "session_cfg \<Rightarrow> session_store \<Rightarrow> bool" where
  "store_ok cfg s \<longleftrightarrow> (\<forall>i r expires. ks_sessions s i = Some (r, expires) \<longrightarrow> record_ok cfg s i r expires)"

text \<open>A session a staff member could still use at some time.\<close>

definition holds_session :: "session_store \<Rightarrow> string \<Rightarrow> string \<Rightarrow> bool" where
  "holds_session s i staffId \<longleftrightarrow> (\<exists>r expires. ks_sessions s i = Some (r, expires) \<and> se_staffId r = staffId)"

lemma removeAll_index:
  "ks_index (revoke now i s) st = ks_index s st \<or> ks_index (revoke now i s) st = removeAll i (ks_index s st)"
  by (simp add: revoke_def index_remove_def split: option.split)

lemma revoke_index_iff: "j \<noteq> i \<Longrightarrow> j \<in> set (ks_index (revoke now i s) st) \<longleftrightarrow> j \<in> set (ks_index s st)"
  using removeAll_index [of now i s st] by auto

lemma revoke_ok: "store_ok cfg s \<Longrightarrow> store_ok cfg (revoke now i s)"
  by (fastforce simp: store_ok_def record_ok_def revoke_index_iff split: if_splits)

lemma fold_revoke_ok: "store_ok cfg s \<Longrightarrow> store_ok cfg (fold (revoke now) is s)"
  by (induction "is" arbitrary: s) (auto simp: revoke_ok)

lemma fold_revoke_index_iff:
  "j \<notin> set is \<Longrightarrow> j \<in> set (ks_index (fold (revoke now) is s) st) \<longleftrightarrow> j \<in> set (ks_index s st)"
  by (induction "is" arbitrary: s) (auto simp: revoke_index_iff)

lemma revokeAll_sessions:
  "ks_sessions (snd (revokeAllForStaff now st s)) = (\<lambda>i. if i \<in> set (ks_index s st) then None else ks_sessions s i)"
  by (simp add: revokeAllForStaff_def Let_def fold_revoke_sessions)

lemma revokeAll_index:
  "ks_index (snd (revokeAllForStaff now st s)) st' =
     (if st' = st then [] else ks_index (fold (revoke now) (ks_index s st) s) st')"
  by (simp add: revokeAllForStaff_def Let_def index_del_def)

lemma revokeAll_ok:
  assumes "store_ok cfg s"
  shows "store_ok cfg (snd (revokeAllForStaff now st s))"
  unfolding store_ok_def
proof (intro allI impI)
  fix i r expires
  assume "ks_sessions (snd (revokeAllForStaff now st s)) i = Some (r, expires)"
  then have i: "i \<notin> set (ks_index s st)" "ks_sessions s i = Some (r, expires)"
    by (auto simp: revokeAll_sessions split: if_splits)
  then have "record_ok cfg s i r expires" using assms by (simp add: store_ok_def)
  with i show "record_ok cfg (snd (revokeAllForStaff now st s)) i r expires"
    by (auto simp: record_ok_def revokeAll_index fold_revoke_index_iff)
qed

interpretation sessions: session_registry "store_ok cfg" holds_session "\<lambda>st s. snd (revokeAllForStaff now st s)"
  for cfg now
proof unfold_locales
  fix s st
  assume ok: "store_ok cfg s"
  show "store_ok cfg (snd (revokeAllForStaff now st s))" using ok by (rule revokeAll_ok)
  fix i st'
  show "holds_session (snd (revokeAllForStaff now st s)) i st' \<longleftrightarrow> holds_session s i st' \<and> st' \<noteq> st"
    using ok by (auto simp: holds_session_def revokeAll_sessions store_ok_def record_ok_def)
qed

lemma get_ok: "store_ok cfg s \<Longrightarrow> store_ok cfg (snd (get_session cfg now i s))"
  by (auto simp: get_session_def revoke_ok split: option.split)

lemma firstLive_ok: "store_ok cfg s \<Longrightarrow> store_ok cfg (snd (firstLive cfg now is s))"
proof (induction "is" arbitrary: s)
  case (Cons i "is")
  then show ?case
    using get_ok [OF Cons.prems, of now i] by (auto split: prod.split option.split)
qed simp

text \<open>What a write leaves: the store as it was, or the record under its id until at most its absolute expiry.\<close>

lemma persist_cases:
  obtains (refused) e where "persist cfg now r s = throws e s"
  | (stored) expires where "persist cfg now r s =
      returns () (s\<lparr>ks_sessions := (ks_sessions s)(se_sessionId r \<mapsto> (r, expires))\<rparr>)"
    "now < expires" "expires \<le> se_absoluteExpiresAt r"
proof (cases "min (se_absoluteExpiresAt r - now) (idleMs cfg r) \<le> 0")
  case True
  then show ?thesis by (intro refused) (simp add: persist_def Let_def)
next
  case False
  then have "now < se_absoluteExpiresAt r" "0 < idleMs cfg r" by auto
  with False show ?thesis
    by (intro stored [of "now + min (se_absoluteExpiresAt r - now) (idleMs cfg r)"])
       (simp_all add: persist_def Let_def)
qed

lemma store_ok_put:
  assumes "store_ok cfg s" "record_ok cfg s (se_sessionId r) r expires"
  shows "store_ok cfg (s\<lparr>ks_sessions := (ks_sessions s)(se_sessionId r \<mapsto> (r, expires))\<rparr>)"
  unfolding store_ok_def
proof (intro allI impI)
  fix i r' e'
  assume "ks_sessions (s\<lparr>ks_sessions := (ks_sessions s)(se_sessionId r \<mapsto> (r, expires))\<rparr>) i = Some (r', e')"
  then have "record_ok cfg s i r' e'"
    using assms by (auto simp: store_ok_def split: if_splits)
  then show "record_ok cfg (s\<lparr>ks_sessions := (ks_sessions s)(se_sessionId r \<mapsto> (r, expires))\<rparr>) i r' e'"
    by (simp add: record_ok_def)
qed

text \<open>Writing back a record that was read from the store, with other fields changed.\<close>

lemma persist_ok:
  assumes "store_ok cfg s" "ks_sessions s (se_sessionId r) = Some (r0, e0)"
    "se_staffId r = se_staffId r0" "se_absoluteExpiresAt r = se_absoluteExpiresAt r0"
    "se_createdAt r = se_createdAt r0"
  shows "store_ok cfg (snd (persist cfg now r s))"
proof (cases rule: persist_cases [of cfg now r s])
  case (stored expires)
  have "record_ok cfg s (se_sessionId r) r0 e0"
    using assms(1,2) by (simp add: store_ok_def)
  then have "record_ok cfg s (se_sessionId r) r expires"
    using assms(3-5) stored(3) by (simp add: record_ok_def)
  from store_ok_put [OF assms(1) this] stored(1) show ?thesis by simp
qed (simp add: assms(1))

lemma index_add_ok:
  assumes "store_ok cfg s" "\<And>st. sid \<notin> set (ks_index s st)"
  shows "store_ok cfg (index_add st sid s)"
  unfolding store_ok_def
proof (intro allI impI)
  fix i r e
  assume "ks_sessions (index_add st sid s) i = Some (r, e)"
  then have "record_ok cfg s i r e" using assms(1) by (simp add: store_ok_def)
  with assms(2) show "record_ok cfg (index_add st sid s) i r e"
    by (auto simp: record_ok_def index_add_def)
qed

lemma create_ok:
  assumes "store_ok cfg s" "\<And>st. sid \<notin> set (ks_index s st)"
  shows "store_ok cfg (snd (create_session cfg now sid csrf i s))"
proof -
  let ?r = "fresh_record cfg now sid csrf i"
  have r: "se_sessionId ?r = sid" "se_staffId ?r = ci_staffId i" by (simp_all add: fresh_record_def)
  show ?thesis
  proof (cases rule: persist_cases [of cfg now ?r s])
    case (stored expires)
    have "record_ok cfg (index_add (ci_staffId i) sid s) sid ?r expires"
      using stored(3) assms(2) r by (auto simp: record_ok_def index_add_def fresh_record_def)
    then have "record_ok cfg (index_add (ci_staffId i) sid s) (se_sessionId ?r) ?r expires"
      using r by simp
    from store_ok_put [OF index_add_ok [OF assms] this] r
    have "store_ok cfg ((index_add (ci_staffId i) sid s)\<lparr>ks_sessions := (ks_sessions s)(sid \<mapsto> (?r, expires))\<rparr>)"
      by simp
    moreover have "index_add st sid (s\<lparr>ks_sessions := m\<rparr>) = (index_add st sid s)\<lparr>ks_sessions := m\<rparr>" for st m
      by (simp add: index_add_def)
    ultimately show ?thesis
      using stored(1) r by (simp add: create_session_def Let_def)
  qed (simp add: create_session_def Let_def assms(1))
qed

section \<open>Requests\<close>

text \<open>
  The requests the console serves, each taken as one step: sign-in, a guarded request (look the
  cookies up, slide the idle window), a change of the session (second factor verified, view-as
  started or ended), sign-out, sign-out everywhere and the session list.
\<close>

inductive session_step :: "session_cfg \<Rightarrow> session_store \<Rightarrow> session_store \<Rightarrow> bool" for cfg where
  sign_in: "(\<And>st. sid \<notin> set (ks_index s st)) \<Longrightarrow>
    session_step cfg s (snd (create_session cfg now sid csrf i s))"
| lookup: "session_step cfg s (snd (firstLive cfg now is s))"
| request: "firstLive cfg now is s = (Some r, s1) \<Longrightarrow> session_step cfg s (snd (touch cfg now r s1))"
| change: "firstLive cfg now is s = (Some r, s1) \<Longrightarrow>
    session_step cfg s (snd (update_session cfg now (r\<lparr>se_mfaVerified := m, se_impersonation := imp\<rparr>) s1))"
| sign_out: "session_step cfg s (revoke now i s)"
| sign_out_all: "session_step cfg s (snd (revokeAllForStaff now staffId s))"
| list_sessions: "session_step cfg s (snd (listForStaff cfg now staffId s))"

definition empty_store :: session_store where
  "empty_store = \<lparr>ks_sessions = (\<lambda>_. None), ks_index = (\<lambda>_. [])\<rparr>"

lemma firstLive_stored:
  assumes "firstLive cfg now is s = (Some r, s1)" "store_ok cfg s"
  shows "\<exists>e. ks_sessions s1 (se_sessionId r) = Some (r, e) \<and> now < e" "store_ok cfg s1"
    "se_sessionId r \<in> set is" "now \<le> se_absoluteExpiresAt r" "now - se_lastSeenAt r \<le> idleMs cfg r"
proof -
  obtain i where i: "i \<in> set is" "get_session cfg now i s1 = (Some r, s1)"
    using firstLive_Some [OF assms(1)] by blast
  show ok: "store_ok cfg s1" using firstLive_ok [OF assms(2), of now "is"] assms(1) by simp
  obtain e where e: "ks_sessions s1 i = Some (r, e)" "now < e"
    using get_session_Some(2) [OF i(2)] by (auto simp: redis_get_def split: option.splits if_splits)
  then have "se_sessionId r = i" using ok by (simp add: store_ok_def record_ok_def)
  with e i(1) show "\<exists>e. ks_sessions s1 (se_sessionId r) = Some (r, e) \<and> now < e" "se_sessionId r \<in> set is"
    by simp_all
  show "now \<le> se_absoluteExpiresAt r" "now - se_lastSeenAt r \<le> idleMs cfg r"
    using get_session_Some [OF i(2)] by simp_all
qed

lemma list_ok: "store_ok cfg s \<Longrightarrow> store_ok cfg (snd (listForStaff_loop cfg now is s))"
proof (induction "is" arbitrary: s)
  case (Cons i "is")
  have "store_ok cfg (snd (get_session cfg now i s))" using get_ok [OF Cons.prems] .
  with Cons.IH show ?case by (auto simp: Let_def case_prod_unfold)
qed simp

lemma session_step_ok: "session_step cfg s s' \<Longrightarrow> store_ok cfg s \<Longrightarrow> store_ok cfg s'"
proof (induction rule: session_step.induct)
  case (request now "is" s r s1)
  obtain e where "ks_sessions s1 (se_sessionId r) = Some (r, e)"
    using firstLive_stored(1) [OF request.hyps request.prems] by blast
  then show ?case
    using firstLive_stored(2) [OF request.hyps request.prems] by (auto simp: touch_def intro!: persist_ok)
next
  case (change now "is" s r s1 m imp)
  obtain e where "ks_sessions s1 (se_sessionId r) = Some (r, e)"
    using firstLive_stored(1) [OF change.hyps change.prems] by blast
  then show ?case
    using firstLive_stored(2) [OF change.hyps change.prems] by (auto simp: update_session_def intro!: persist_ok)
qed (simp_all add: create_ok firstLive_ok revoke_ok revokeAll_ok listForStaff_def list_ok)

lemma sessions_reachable_ok: "(session_step cfg)\<^sup>*\<^sup>* empty_store s \<Longrightarrow> store_ok cfg s"
proof (induction rule: rtranclp_induct)
  case base
  show ?case by (simp add: store_ok_def empty_store_def)
next
  case (step s1 s2)
  then show ?case by (blast intro: session_step_ok)
qed

section \<open>Lifetimes and revocation\<close>

text \<open>
  C33. Whatever requests were served before, a session is only ever answered while it is younger
  than the absolute lifetime and was used within its idle allowance (ten minutes at least while
  the second factor is outstanding).  Using it never extends the absolute limit.
\<close>

theorem session_within_limits:
  assumes "(session_step cfg)\<^sup>*\<^sup>* empty_store s" "get_session cfg now i s = (Some r, s')"
  shows "se_sessionId r = i \<and> now \<le> se_createdAt r + sc_absoluteLifetimeSeconds cfg * 1000
    \<and> now - se_lastSeenAt r \<le> (if se_mfaVerified r then sc_idleTimeoutSeconds cfg * 1000
        else max (sc_idleTimeoutSeconds cfg * 1000) 600000)"
proof -
  have ok: "store_ok cfg s" by (rule sessions_reachable_ok [OF assms(1)])
  note g = get_session_Some [OF assms(2)]
  obtain e where "ks_sessions s i = Some (r, e)"
    using g(2) by (auto simp: redis_get_def split: option.splits if_splits)
  then have "record_ok cfg s i r e" using ok by (simp add: store_ok_def)
  with g(3,4) show ?thesis by (simp add: record_ok_def idleMs_def Let_def PENDING_MIN_MS_def split: if_splits)
qed

lemma redis_get_Some: "redis_get now i s = Some r \<Longrightarrow> \<exists>e. ks_sessions s i = Some (r, e) \<and> now < e"
  by (auto simp: redis_get_def split: option.splits if_splits)

lemma redis_get_holds: "redis_get now i s = Some r \<Longrightarrow> holds_session s i (se_staffId r)"
  by (auto simp: redis_get_def holds_session_def split: option.splits if_splits)

text \<open>
  C10. Signing a staff member out everywhere is complete and exact: afterwards, at any later
  time, no id answers with a session of theirs, and every session of anyone else that answered
  before still answers.
\<close>

theorem revoke_all_exact:
  assumes "(session_step cfg)\<^sup>*\<^sup>* empty_store s"
  shows "(\<forall>later i r. redis_get later i (snd (revokeAllForStaff now staffId s)) = Some r \<longrightarrow> se_staffId r \<noteq> staffId)
    \<and> (\<forall>later i r. redis_get later i s = Some r \<longrightarrow> se_staffId r \<noteq> staffId
        \<longrightarrow> redis_get later i (snd (revokeAllForStaff now staffId s)) = Some r)"
proof -
  have ok: "store_ok cfg s" by (rule sessions_reachable_ok [OF assms])
  have "se_staffId r \<noteq> staffId" if "redis_get later i (snd (revokeAllForStaff now staffId s)) = Some r" for later i r
    using redis_get_holds [OF that] sessions.revoked [OF ok] by blast
  moreover have "redis_get later i (snd (revokeAllForStaff now staffId s)) = Some r"
    if g: "redis_get later i s = Some r" and st: "se_staffId r \<noteq> staffId" for later i r
  proof -
    obtain e where e: "ks_sessions s i = Some (r, e)" "later < e"
      using redis_get_Some [OF g] by blast
    then have "i \<notin> set (ks_index s staffId)"
      using ok st by (auto simp: store_ok_def record_ok_def)
    with e show ?thesis by (simp add: redis_get_def revokeAll_sessions)
  qed
  ultimately show ?thesis by blast
qed

text \<open>
  The revocation does not survive a request that is already under way.  A request that
  looked the session up before it was signed out everywhere, and slides its idle window after,
  puts it back: it answers again, no index lists it, and signing out everywhere once more does
  not remove it.
\<close>

theorem touch_undoes_revocation:
  assumes "get_session cfg now i s = (Some r, s1)" "se_sessionId r = i" "now < se_absoluteExpiresAt r"
    "0 < idleMs cfg r"
  shows "let s2 = snd (revokeAllForStaff now (se_staffId r) s1); (res, s3) = touch cfg now r s2 in
    res = Inr () \<and> redis_get now i s3 = Some (r\<lparr>se_lastSeenAt := now\<rparr>)
    \<and> ks_index s3 (se_staffId r) = []
    \<and> redis_get now i (snd (revokeAllForStaff now (se_staffId r) s3)) = Some (r\<lparr>se_lastSeenAt := now\<rparr>)"
proof -
  have "idleMs cfg (r\<lparr>se_lastSeenAt := now\<rparr>) = idleMs cfg r" by (simp add: idleMs_def)
  then show ?thesis
    using assms(2-4)
    by (auto simp: touch_def persist_def Let_def redis_get_def revokeAll_sessions revokeAll_index
        split: prod.split)
qed

section \<open>Concrete runs\<close>

definition ex_cfg :: session_cfg where
  "ex_cfg = \<lparr>sc_idleTimeoutSeconds = 1800, sc_absoluteLifetimeSeconds = 43200\<rparr>"

definition ex_input :: create_input where
  "ex_input = \<lparr>ci_staffId = ''u1'', ci_sessionEpoch = 0, ci_ip = None, ci_userAgent = None, ci_mfaVerified = False\<rparr>"

definition ex_store :: session_store where
  "ex_store = snd (create_session ex_cfg 0 ''sid'' ''csrf'' ex_input empty_store)"

lemma ex_store_reachable: "(session_step ex_cfg)\<^sup>*\<^sup>* empty_store ex_store"
  unfolding ex_store_def by (intro r_into_rtranclp sign_in) (simp add: empty_store_def)

lemma ex_store_get:
  "get_session ex_cfg 1000 ''sid'' ex_store = (Some (fresh_record ex_cfg 0 ''sid'' ''csrf'' ex_input), ex_store)"
  by (simp add: ex_store_def create_session_def persist_def Let_def fresh_record_def ex_cfg_def ex_input_def
      get_session_def redis_get_def idleMs_def index_add_def PENDING_MIN_MS_def)

lemma session_within_limits_witness:
  "se_sessionId (fresh_record ex_cfg 0 ''sid'' ''csrf'' ex_input) = ''sid'' \<and> (1000::int) \<le> 43200000"
  using session_within_limits [OF ex_store_reachable ex_store_get]
  by (simp add: ex_cfg_def fresh_record_def)

lemma revoke_all_exact_witness:
  "redis_get 1000 ''sid'' ex_store \<noteq> None \<and>
   redis_get 1000 ''sid'' (snd (revokeAllForStaff 500 ''u1'' ex_store)) = None"
proof -
  have g: "redis_get 1000 ''sid'' ex_store = Some (fresh_record ex_cfg 0 ''sid'' ''csrf'' ex_input)"
    using get_session_Some(2) [OF ex_store_get] .
  have "se_staffId r \<noteq> ''u1''" if "redis_get 1000 ''sid'' (snd (revokeAllForStaff 500 ''u1'' ex_store)) = Some r" for r
    using revoke_all_exact [OF ex_store_reachable, where now = 500 and staffId = "''u1''"] that by blast
  moreover have "redis_get 1000 ''sid'' (snd (revokeAllForStaff 500 ''u1'' ex_store)) \<in>
      {None, Some (fresh_record ex_cfg 0 ''sid'' ''csrf'' ex_input)}"
    using g by (auto simp: redis_get_def revokeAll_sessions split: option.splits if_splits)
  ultimately show ?thesis using g by (auto simp: fresh_record_def ex_input_def)
qed

lemma touch_undoes_revocation_witness:
  "redis_get 1000 ''sid'' (snd (touch ex_cfg 1000 (fresh_record ex_cfg 0 ''sid'' ''csrf'' ex_input)
     (snd (revokeAllForStaff 1000 ''u1'' ex_store)))) \<noteq> None"
  using touch_undoes_revocation [OF ex_store_get]
  by (simp add: fresh_record_def ex_input_def ex_cfg_def idleMs_def Let_def case_prod_unfold PENDING_MIN_MS_def)

end
