(* ===== verification/Ttl_Cache.thy ===== *)
theory Ttl_Cache
  imports Prelude
begin

text \<open>
  \<open>common/cache/ttl-cache.ts\<close>: the in-process cache.  The entries are a JavaScript Map, kept as
  the list of its keys in insertion order; a load is split into its start and its end, since
  other callers run in between.
\<close>

section \<open>The cache\<close>

record 'v ttl_cache =
  tc_entries :: "(string \<times> 'v \<times> millis) list"
  tc_loading :: "string list"

definition empty_cache :: "'v ttl_cache" where
  "empty_cache = \<lparr>tc_entries = [], tc_loading = []\<rparr>"

definition entry_of :: "string \<Rightarrow> (string \<times> 'v \<times> millis) list \<Rightarrow> (string \<times> 'v \<times> millis) option" where
  "entry_of k es = find_row (\<lambda>e. fst e = k) es"

definition cache_hit :: "millis \<Rightarrow> string \<Rightarrow> 'v ttl_cache \<Rightarrow> 'v option" where
  "cache_hit now k c = (case entry_of k (tc_entries c) of None \<Rightarrow> None
     | Some (_, v, expires) \<Rightarrow> if expires > now then Some v else None)"

text \<open>Map.set: in place where the key is present, at the end otherwise.\<close>

fun map_set :: "string \<Rightarrow> 'v \<times> millis \<Rightarrow> (string \<times> 'v \<times> millis) list \<Rightarrow> (string \<times> 'v \<times> millis) list" where
  "map_set k x [] = [(k, x)]"
| "map_set k x (e # es) = (if fst e = k then (k, x) # es else e # map_set k x es)"

definition cache_put :: "int \<Rightarrow> nat \<Rightarrow> millis \<Rightarrow> string \<Rightarrow> 'v \<Rightarrow> (string \<times> 'v \<times> millis) list \<Rightarrow> (string \<times> 'v \<times> millis) list" where
  "cache_put ttlMs maxEntries now k v es =
     (let es1 = (if length es \<ge> maxEntries then filter (\<lambda>e. snd (snd e) > now) es else es);
          es2 = (if length es \<ge> maxEntries \<and> length es1 \<ge> maxEntries then tl es1 else es1)
      in map_set k (v, now + ttlMs) es2)"

text \<open>What a caller of \<open>get\<close> is given: the cached value, a load already under way, or its own load.\<close>

datatype 'v lookup = Hit 'v | Joined | Loading

definition begin_get :: "millis \<Rightarrow> string \<Rightarrow> 'v ttl_cache \<Rightarrow> 'v lookup \<times> 'v ttl_cache" where
  "begin_get now k c =
     (case cache_hit now k c of
        Some v \<Rightarrow> (Hit v, c)
      | None \<Rightarrow> if k \<in> set (tc_loading c) then (Joined, c)
          else (Loading, c\<lparr>tc_loading := tc_loading c @ [k]\<rparr>))"

definition finish_load :: "int \<Rightarrow> nat \<Rightarrow> millis \<Rightarrow> string \<Rightarrow> 'v option \<Rightarrow> 'v ttl_cache \<Rightarrow> 'v ttl_cache" where
  "finish_load ttlMs maxEntries now k loaded c =
     (let c1 = (case loaded of None \<Rightarrow> c
        | Some v \<Rightarrow> c\<lparr>tc_entries := cache_put ttlMs maxEntries now k v (tc_entries c)\<rparr>)
      in c1\<lparr>tc_loading := removeAll k (tc_loading c1)\<rparr>)"

definition cache_delete :: "string \<Rightarrow> 'v ttl_cache \<Rightarrow> 'v ttl_cache" where
  "cache_delete k c = c\<lparr>tc_entries := filter (\<lambda>e. fst e \<noteq> k) (tc_entries c)\<rparr>"

definition cache_clear :: "'v ttl_cache \<Rightarrow> 'v ttl_cache" where
  "cache_clear c = c\<lparr>tc_entries := []\<rparr>"

text \<open>\<open>get\<close> where nothing else runs during the load.\<close>

definition cache_get :: "int \<Rightarrow> nat \<Rightarrow> millis \<Rightarrow> (string \<Rightarrow> 'v) \<Rightarrow> string \<Rightarrow> 'v ttl_cache \<Rightarrow> 'v \<times> 'v ttl_cache" where
  "cache_get ttlMs maxEntries now load k c =
     (case cache_hit now k c of
        Some v \<Rightarrow> (v, c)
      | None \<Rightarrow> (load k, finish_load ttlMs maxEntries now k (Some (load k)) c))"

section \<open>Runs\<close>

text \<open>Callers and loads in any order on a clock that does not go back; the log has every finished load.\<close>

inductive cache_run :: "int \<Rightarrow> nat \<Rightarrow> millis \<Rightarrow> 'v ttl_cache \<Rightarrow> (millis \<times> string \<times> 'v) list \<Rightarrow> bool" for ttlMs maxEntries where
  run_start: "cache_run ttlMs maxEntries t empty_cache []"
| run_tick: "cache_run ttlMs maxEntries t c log \<Longrightarrow> t \<le> t' \<Longrightarrow> cache_run ttlMs maxEntries t' c log"
| run_get: "cache_run ttlMs maxEntries t c log \<Longrightarrow> cache_run ttlMs maxEntries t (snd (begin_get t k c)) log"
| run_loaded: "cache_run ttlMs maxEntries t c log \<Longrightarrow> k \<in> set (tc_loading c) \<Longrightarrow>
    cache_run ttlMs maxEntries t (finish_load ttlMs maxEntries t k (Some v) c) ((t, k, v) # log)"
| run_failed: "cache_run ttlMs maxEntries t c log \<Longrightarrow> k \<in> set (tc_loading c) \<Longrightarrow>
    cache_run ttlMs maxEntries t (finish_load ttlMs maxEntries t k None c) log"
| run_delete: "cache_run ttlMs maxEntries t c log \<Longrightarrow> cache_run ttlMs maxEntries t (cache_delete k c) log"
| run_clear: "cache_run ttlMs maxEntries t c log \<Longrightarrow> cache_run ttlMs maxEntries t (cache_clear c) log"

lemma map_set_keys: "set (map_set k x es) \<subseteq> insert (k, x) (set es)"
  by (induction es) auto

lemma map_set_length: "length (map_set k x es) \<le> Suc (length es)"
  by (induction es) auto

lemma map_set_distinct: "distinct (map fst es) \<Longrightarrow> distinct (map fst (map_set k x es))"
proof (induction es)
  case (Cons e es)
  have "fst ` set (map_set k x es) \<subseteq> insert k (fst ` set es)"
    using map_set_keys [of k x es] by auto
  with Cons show ?case by auto
qed simp

lemma tl_subset: "set (tl xs) \<subseteq> set xs"
  by (cases xs) auto

text \<open>The entries an insertion keeps: some of the old ones, fewer than the limit.\<close>

definition kept :: "nat \<Rightarrow> millis \<Rightarrow> (string \<times> 'v \<times> millis) list \<Rightarrow> (string \<times> 'v \<times> millis) list" where
  "kept m now es =
     (let es1 = (if length es \<ge> m then filter (\<lambda>e. snd (snd e) > now) es else es)
      in if length es \<ge> m \<and> length es1 \<ge> m then tl es1 else es1)"

lemma cache_put_kept: "cache_put ttlMs m now k v es = map_set k (v, now + ttlMs) (kept m now es)"
  by (simp add: cache_put_def kept_def Let_def)

lemma kept_facts:
  "set (kept m now es) \<subseteq> set es"
  "0 < m \<Longrightarrow> length es \<le> m \<Longrightarrow> length (kept m now es) < m"
  "distinct (map fst es) \<Longrightarrow> distinct (map fst (kept m now es))"
proof -
  let ?f = "filter (\<lambda>e. snd (snd e) > now) es"
  show "set (kept m now es) \<subseteq> set es"
    using tl_subset [of ?f] by (auto simp: kept_def Let_def)
  have "length ?f \<le> length es" by simp
  then have "length ?f - 1 < length es" if "es \<noteq> []"
    using that by (cases "length ?f") auto
  then show "length (kept m now es) < m" if "0 < m" "length es \<le> m"
    using that by (auto simp: kept_def Let_def)
  have "distinct (map fst ?f)" if "distinct (map fst es)"
    using that by (simp add: distinct_map_filter)
  then show "distinct (map fst (kept m now es))" if "distinct (map fst es)"
    using that by (auto simp: kept_def Let_def map_tl distinct_tl)
qed

lemma cache_put_facts:
  "set (cache_put ttlMs m now k v es) \<subseteq> insert (k, v, now + ttlMs) (set es)"
  "0 < m \<Longrightarrow> length es \<le> m \<Longrightarrow> length (cache_put ttlMs m now k v es) \<le> m"
  "distinct (map fst es) \<Longrightarrow> distinct (map fst (cache_put ttlMs m now k v es))"
proof -
  show "set (cache_put ttlMs m now k v es) \<subseteq> insert (k, v, now + ttlMs) (set es)"
    using map_set_keys [of k "(v, now + ttlMs)" "kept m now es"] kept_facts(1) [of m now es]
    by (auto simp: cache_put_kept)
  show "length (cache_put ttlMs m now k v es) \<le> m" if "0 < m" "length es \<le> m"
    using map_set_length [of k "(v, now + ttlMs)" "kept m now es"] kept_facts(2) [OF that, of now]
    by (simp add: cache_put_kept)
  show "distinct (map fst (cache_put ttlMs m now k v es))" if "distinct (map fst es)"
    using kept_facts(3) [OF that] by (simp add: cache_put_kept map_set_distinct)
qed

definition cache_ok :: "int \<Rightarrow> nat \<Rightarrow> millis \<Rightarrow> 'v ttl_cache \<Rightarrow> (millis \<times> string \<times> 'v) list \<Rightarrow> bool" where
  "cache_ok ttlMs m now c log \<longleftrightarrow>
     distinct (map fst (tc_entries c)) \<and> distinct (tc_loading c)
     \<and> (0 < m \<longrightarrow> length (tc_entries c) \<le> m)
     \<and> (\<forall>(k, v, e) \<in> set (tc_entries c). \<exists>t0 \<le> now. (t0, k, v) \<in> set log \<and> e = t0 + ttlMs)"

lemma finish_load_ok:
  assumes "cache_ok ttlMs m now c log"
  shows "cache_ok ttlMs m now (finish_load ttlMs m now k (Some v) c) ((now, k, v) # log)"
proof -
  have "\<exists>t0 \<le> now. (t0, k', v') \<in> set ((now, k, v) # log) \<and> e = t0 + ttlMs"
    if "(k', v', e) \<in> set (cache_put ttlMs m now k v (tc_entries c))" for k' v' e
    using subsetD [OF cache_put_facts(1) that] assms by (fastforce simp: cache_ok_def)
  then show ?thesis
    using assms cache_put_facts(2,3) [where es = "tc_entries c"]
    by (auto simp: cache_ok_def finish_load_def Let_def distinct_removeAll)
qed

lemma cache_run_ok: "cache_run ttlMs m t c log \<Longrightarrow> cache_ok ttlMs m t c log"
proof (induction rule: cache_run.induct)
  case (run_tick t c log t')
  then show ?case by (fastforce simp: cache_ok_def)
next
  case (run_loaded t c log k v)
  then show ?case by (simp add: finish_load_ok)
next
  case (run_delete t c log k)
  then show ?case
    by (auto simp: cache_ok_def cache_delete_def distinct_map_filter intro: le_trans [OF length_filter_le])
qed (auto simp: cache_ok_def empty_cache_def begin_get_def finish_load_def cache_clear_def Let_def
      distinct_removeAll split: option.split)

text \<open>
  The cache never grows past its limit and never has two loads for one key under way; and a
  value it serves is the result of a load that finished less than \<open>ttlMs\<close> earlier, however
  callers, loads, deletions and evictions interleave.
\<close>

theorem cache_serves_fresh:
  assumes "cache_run ttlMs maxEntries now c log"
  shows "(0 < maxEntries \<longrightarrow> length (tc_entries c) \<le> maxEntries) \<and> distinct (tc_loading c)
    \<and> (\<forall>k v. fst (begin_get now k c) = Hit v \<longrightarrow>
         (\<exists>t0. (t0, k, v) \<in> set log \<and> t0 \<le> now \<and> now < t0 + ttlMs))"
proof -
  have ok: "cache_ok ttlMs maxEntries now c log" by (rule cache_run_ok [OF assms])
  have "\<exists>t0. (t0, k, v) \<in> set log \<and> t0 \<le> now \<and> now < t0 + ttlMs" if h: "fst (begin_get now k c) = Hit v" for k v
  proof -
    obtain e where "entry_of k (tc_entries c) = Some (k, v, e)" "now < e"
      using h by (auto simp: begin_get_def cache_hit_def entry_of_def split: option.splits if_splits
          dest!: find_row_SomeD)
    then have "(k, v, e) \<in> set (tc_entries c)"
      using find_row_SomeD by (fastforce simp: entry_of_def)
    with \<open>now < e\<close> ok show ?thesis by (fastforce simp: cache_ok_def)
  qed
  with ok show ?thesis by (simp add: cache_ok_def)
qed

lemma cache_serves_fresh_witness:
  "fst (begin_get 15 ''k'' (finish_load 10 1 7 ''k'' (Some True) (snd (begin_get 5 ''k'' empty_cache)))) = Hit True
   \<and> length (tc_entries (finish_load 10 1 7 ''k'' (Some True) (snd (begin_get 5 ''k'' empty_cache)))) \<le> 1"
proof -
  let ?c = "snd (begin_get 5 ''k'' (empty_cache :: bool ttl_cache))"
  have "cache_run 10 1 7 ?c ([] :: (millis \<times> string \<times> bool) list)"
    by (rule run_tick [OF run_get [OF run_start]]) simp
  then have "cache_run 10 1 7 (finish_load 10 1 7 ''k'' (Some True) ?c) [(7, ''k'', True)]"
    by (rule run_loaded) (simp add: begin_get_def cache_hit_def entry_of_def empty_cache_def)
  from cache_serves_fresh [OF this] show ?thesis
    by (simp add: begin_get_def cache_hit_def entry_of_def empty_cache_def finish_load_def cache_put_def Let_def)
qed

end
