(* ===== verification/Js_Number.thy ===== *)
theory Js_Number
  imports Js_String Complex_Main
begin

text \<open>
  The JavaScript Number conversion of strings and the 32-bit operators, as the address and
  amount checks use them: \<open>Number(s)\<close> with its empty-string, radix, decimal and exponent forms,
  rounded to the nearest double (ties to even), and Number.isInteger.
\<close>

section \<open>Numbers\<close>

text \<open>\<open>Fin m e\<close> is m times 2 to the e; the sign of zero is not kept.\<close>

datatype js_num = NaN | Infinite bool | Fin int int

fun num_int :: "js_num \<Rightarrow> int option" where
  "num_int (Fin m e) =
     (if 0 \<le> e then Some (m * 2 ^ nat e)
      else if m mod 2 ^ nat (- e) = 0 then Some (m div 2 ^ nat (- e)) else None)"
| "num_int NaN = None"
| "num_int (Infinite neg) = None"

fun bitlen :: "nat \<Rightarrow> nat" where
  "bitlen n = (if n = 0 then 0 else Suc (bitlen (n div 2)))"

declare bitlen.simps [simp del]

definition round_half_even :: "nat \<Rightarrow> nat \<Rightarrow> nat" where
  "round_half_even a b = (let q = a div b; r = a mod b in
     if 2 * r < b \<or> (2 * r = b \<and> even q) then q else q + 1)"

text \<open>The double nearest to num / den: 53 bits of mantissa, exponents down to -1074.\<close>

definition double_exponent :: "nat \<Rightarrow> nat \<Rightarrow> int" where
  "double_exponent num den =
     (let e0 = int (bitlen num) - int (bitlen den) - 53;
          e = (if num * 2 ^ nat (- e0) < 2 ^ 53 * den * 2 ^ nat e0 then e0 else e0 + 1)
      in max e (- 1074))"

definition to_double :: "bool \<Rightarrow> nat \<Rightarrow> nat \<Rightarrow> js_num" where
  "to_double neg num den =
     (let e = double_exponent num den;
          q = round_half_even (num * 2 ^ nat (- e)) (den * 2 ^ nat e)
      in if 0 < e \<and> 2 ^ 1024 \<le> q * 2 ^ nat e then Infinite neg
         else Fin (if neg then - int q else int q) e)"

section \<open>Number of a string\<close>

definition digit_value :: "char \<Rightarrow> nat" where
  "digit_value c = (if is_digit c then of_char c - 48
     else if is_lower c then of_char c - 87 else if is_upper c then of_char c - 55 else 99)"

definition radix_value :: "nat \<Rightarrow> string \<Rightarrow> nat" where
  "radix_value b ds = foldl (\<lambda>acc c. acc * b + digit_value c) 0 ds"

definition radix_literal :: "nat \<Rightarrow> string \<Rightarrow> js_num" where
  "radix_literal b ds = (if ds \<noteq> [] \<and> list_all (\<lambda>c. digit_value c < b) ds
     then to_double False (radix_value b ds) 1 else NaN)"

fun split_sign :: "string \<Rightarrow> bool \<times> string" where
  "split_sign [] = (False, [])"
| "split_sign (c # cs) = (if c = CHR ''-'' then (True, cs) else if c = CHR ''+'' then (False, cs)
     else (False, c # cs))"

text \<open>The exponent part after the digits: nothing, or e and a signed run of digits.\<close>

fun exponent_part :: "string \<Rightarrow> int option" where
  "exponent_part [] = Some 0"
| "exponent_part (c # cs) =
     (if c = CHR ''e'' \<or> c = CHR ''E''
      then (let (neg, ds) = split_sign cs in
        if ds \<noteq> [] \<and> list_all is_digit ds
        then Some (if neg then - int (radix_value 10 ds) else int (radix_value 10 ds)) else None)
      else None)"

definition decimal_literal :: "bool \<Rightarrow> string \<Rightarrow> js_num" where
  "decimal_literal neg s =
     (if s = ''Infinity'' then Infinite neg
      else (let ip = takeWhile is_digit s;
                r = dropWhile is_digit s;
                dot = (r \<noteq> [] \<and> hd r = CHR ''.'');
                fp = (if dot then takeWhile is_digit (tl r) else []);
                r2 = (if dot then dropWhile is_digit (tl r) else r)
            in if ip = [] \<and> fp = [] then NaN
               else (case exponent_part r2 of
                  None \<Rightarrow> NaN
                | Some x \<Rightarrow> (let e = x - int (length fp); m = radix_value 10 (ip @ fp)
                    in to_double neg (m * 10 ^ nat e) (10 ^ nat (- e))))))"

definition js_Number :: "string \<Rightarrow> js_num" where
  "js_Number s =
     (let t = trim s in
      if t = [] then Fin 0 0
      else if 2 \<le> length t \<and> hd t = CHR ''0'' \<and> t ! 1 \<in> {CHR ''x'', CHR ''X''} then radix_literal 16 (drop 2 t)
      else if 2 \<le> length t \<and> hd t = CHR ''0'' \<and> t ! 1 \<in> {CHR ''o'', CHR ''O''} then radix_literal 8 (drop 2 t)
      else if 2 \<le> length t \<and> hd t = CHR ''0'' \<and> t ! 1 \<in> {CHR ''b'', CHR ''B''} then radix_literal 2 (drop 2 t)
      else (let (neg, u) = split_sign t in decimal_literal neg u))"

section \<open>Decimal numerals\<close>

text \<open>The decimal rendering of a natural number (String(n), template literals).\<close>

fun dec :: "nat \<Rightarrow> string" where
  "dec n = (if n < 10 then [char_of (48 + n)] else dec (n div 10) @ [char_of (48 + n mod 10)])"

declare dec.simps [simp del]

lemma bitlen_le: "n < 2 ^ k \<Longrightarrow> bitlen n \<le> k"
proof (induction k arbitrary: n)
  case 0
  then show ?case by (simp add: bitlen.simps)
next
  case (Suc k)
  then have "n div 2 < 2 ^ k" by simp
  from Suc.IH [OF this] show ?case by (subst bitlen.simps) simp
qed

text \<open>Integers below 2 to the 53 are exact.\<close>

lemma to_double_int:
  assumes "n < 2 ^ 53"
  shows "num_int (to_double False n 1) = Some (int n)"
proof -
  have b1: "bitlen (Suc 0) = 1" using bitlen.simps [of 1] bitlen.simps [of 0] by simp
  have e: "double_exponent n 1 \<le> 0"
    using bitlen_le [OF assms] b1 by (auto simp: double_exponent_def Let_def)
  let ?e = "double_exponent n 1"
  have q: "round_half_even (n * 2 ^ nat (- ?e)) (1 * 2 ^ nat ?e) = n * 2 ^ nat (- ?e)"
    using e by (simp add: round_half_even_def)
  show ?thesis
    using e q by (auto simp: to_double_def Let_def)
qed

lemma is_digit_char: "d < (10::nat) \<Longrightarrow> is_digit (char_of (48 + d))"
  by (simp add: is_digit_def)

lemma digit_value_char: "d < (10::nat) \<Longrightarrow> digit_value (char_of (48 + d)) = d"
  by (simp add: digit_value_def is_digit_char)

lemma dec_digits: "list_all is_digit (dec n) \<and> dec n \<noteq> []"
proof (induction n rule: dec.induct)
  case (1 n)
  then show ?case
    by (subst dec.simps) (auto simp: is_digit_char dec.simps [of n])
qed

lemma radix_value_dec: "radix_value 10 (dec n) = n"
proof (induction n rule: dec.induct)
  case (1 n)
  show ?case
  proof (cases "n < 10")
    case True
    then show ?thesis by (simp add: dec.simps radix_value_def digit_value_char)
  next
    case False
    then have "radix_value 10 (dec n) = radix_value 10 (dec (n div 10)) * 10 + n mod 10"
      by (subst dec.simps) (simp add: radix_value_def digit_value_char)
    with False 1 show ?thesis by simp
  qed
qed

lemma dec_inj: "dec m = dec n \<Longrightarrow> m = n"
  using radix_value_dec [of m] radix_value_dec [of n] by metis

lemma digit_chars:
  assumes "is_digit c"
  shows "\<not> is_space c" "c \<noteq> CHR ''-''" "c \<noteq> CHR ''+''" "c \<noteq> CHR ''.''" "c \<noteq> CHR ''/''"
    "c \<noteq> CHR ''x''" "c \<noteq> CHR ''X''" "c \<noteq> CHR ''o''" "c \<noteq> CHR ''O''" "c \<noteq> CHR ''b''" "c \<noteq> CHR ''B''" "c \<noteq> CHR ''I''"
  using assms by (auto simp: is_digit_def is_space_def Let_def)

lemma js_Number_digits:
  assumes "list_all is_digit s" "s \<noteq> []" "radix_value 10 s < 2 ^ 53"
  shows "num_int (js_Number s) = Some (int (radix_value 10 s))"
proof -
  have d: "\<forall>c \<in> set s. is_digit c" using assms(1) by (simp add: list_all_iff)
  then have t: "trim s = s" by (intro trim_no_space) (auto simp: digit_chars)
  have tw: "takeWhile is_digit s = s" "dropWhile is_digit s = []"
    using d by (simp_all add: takeWhile_eq_all_conv dropWhile_eq_Nil_conv)
  obtain c cs where s: "s = c # cs" using assms(2) by (cases s) auto
  have sg: "split_sign s = (False, s)" using d s by (simp add: digit_chars)
  have inf: "s \<noteq> ''Infinity''" using d by (auto simp: is_digit_def)
  have nx: "\<not> (2 \<le> length s \<and> hd s = CHR ''0'' \<and> s ! 1 \<in> {CHR ''x'', CHR ''X''})"
    "\<not> (2 \<le> length s \<and> hd s = CHR ''0'' \<and> s ! 1 \<in> {CHR ''o'', CHR ''O''})"
    "\<not> (2 \<le> length s \<and> hd s = CHR ''0'' \<and> s ! 1 \<in> {CHR ''b'', CHR ''B''})"
    using d digit_chars by (auto dest!: bspec [OF _ nth_mem])
  have "js_Number s = to_double False (radix_value 10 s) 1"
    unfolding js_Number_def Let_def t if_not_P [OF nx(1)] if_not_P [OF nx(2)] if_not_P [OF nx(3)]
    by (simp add: sg inf assms(2) decimal_literal_def Let_def tw
        del: takeWhile_eq_all_conv dropWhile_eq_Nil_conv)
  then show ?thesis using to_double_int [OF assms(3)] by simp
qed

lemma js_Number_dec: "n < 2 ^ 53 \<Longrightarrow> num_int (js_Number (dec n)) = Some (int n)"
  using js_Number_digits [of "dec n"] dec_digits [of n] radix_value_dec [of n] by simp

lemma js_Number_empty: "num_int (js_Number []) = Some 0"
  by (simp add: js_Number_def trim_def)

end
