(* ===== verification/Cidr.thy ===== *)
theory Cidr
  imports Js_Number Prelude "HOL-Library.Word"
begin

unbundle bit_operations_syntax

text \<open>
  \<open>common/auth/cidr.ts\<close>: IPv4 CIDR matching for the per-role network allowlist, with the
  JavaScript 32-bit operators on 32-bit words.
\<close>

section \<open>Operators\<close>

text \<open>The signed 32-bit left shift and the unsigned reading \<open>x >>> 0\<close>, on integers.\<close>

definition js_shl :: "int \<Rightarrow> nat \<Rightarrow> int" where
  "js_shl a n = sint (push_bit (n mod 32) (word_of_int a :: 32 word))"

definition js_uint32 :: "int \<Rightarrow> int" where
  "js_uint32 a = uint (word_of_int a :: 32 word)"

definition js_and :: "int \<Rightarrow> int \<Rightarrow> int" where
  "js_and a b = sint ((word_of_int a :: 32 word) AND word_of_int b)"

section \<open>Addresses\<close>

definition octet_ok :: "js_num \<Rightarrow> bool" where
  "octet_ok p = (case num_int p of None \<Rightarrow> False | Some n \<Rightarrow> 0 \<le> n \<and> n \<le> 255)"

definition toInt :: "string \<Rightarrow> int option" where
  "toInt addr =
     (let parts = map js_Number (split_on (CHR ''.'') addr) in
      if length parts \<noteq> 4 then None
      else if \<exists>p \<in> set parts. \<not> octet_ok p then None
      else Some (js_uint32 (foldl (\<lambda>acc part. js_shl acc 8 + the (num_int part)) 0 parts)))"

definition ipInCidr :: "string \<Rightarrow> string \<Rightarrow> bool" where
  "ipInCidr ip cidr =
     (let parts = split_on (CHR ''/'') cidr;
          bits = (if length parts < 2 then Some 32 else num_int (js_Number (parts ! 1)))
      in case toInt ip of None \<Rightarrow> False
         | Some target \<Rightarrow> (case toInt (hd parts) of None \<Rightarrow> False
         | Some base \<Rightarrow> (case bits of None \<Rightarrow> False
         | Some b \<Rightarrow>
            if b < 0 \<or> b > 32 then False
            else if b = 0 then True
            else (let mask = js_uint32 (js_shl 0xffffffff (nat (32 - b)))
              in js_and target mask = js_and base mask))))"

definition normaliseIp :: "string option \<Rightarrow> string option" where
  "normaliseIp ip = (case ip of None \<Rightarrow> None
     | Some s \<Rightarrow> if s = [] then None else if startsWith s ''::ffff:'' then Some (drop 7 s) else Some s)"

section \<open>Dotted addresses\<close>

definition dotted :: "nat \<Rightarrow> nat \<Rightarrow> nat \<Rightarrow> nat \<Rightarrow> string" where
  "dotted a b c d = dec a @ ''.'' @ dec b @ ''.'' @ dec c @ ''.'' @ dec d"

definition address :: "nat \<Rightarrow> nat \<Rightarrow> nat \<Rightarrow> nat \<Rightarrow> nat" where
  "address a b c d = ((a * 256 + b) * 256 + c) * 256 + d"

lemma dec_no_sep: "CHR ''.'' \<notin> set (dec n)" "CHR ''/'' \<notin> set (dec n)"
  using dec_digits [of n] digit_chars(4,5) by (fastforce simp: list_all_iff)+

lemma split_dotted: "split_on (CHR ''.'') (dotted a b c d) = [dec a, dec b, dec c, dec d]"
  by (simp add: dotted_def split_on_append split_on_no_sep dec_no_sep)

lemma dotted_no_slash: "CHR ''/'' \<notin> set (dotted a b c d)"
  by (simp add: dotted_def dec_no_sep)

lemma js_shl_word: "(word_of_int (js_shl a 8) :: 32 word) = word_of_int a * 256"
  by (simp add: js_shl_def push_bit_eq_mult)

lemma address_less:
  "a < 256 \<Longrightarrow> b < 256 \<Longrightarrow> c < 256 \<Longrightarrow> d < 256 \<Longrightarrow> address a b c d < 2 ^ 32"
  by (simp add: address_def)

lemma toInt_dotted:
  assumes "a < 256" "b < 256" "c < 256" "d < 256"
  shows "toInt (dotted a b c d) = Some (int (address a b c d))"
proof -
  have n: "num_int (js_Number (dec x)) = Some (int x)" if "x < 256" for x
    using that by (intro js_Number_dec) simp
  have w: "(word_of_int (js_shl (js_shl (js_shl (js_shl 0 8 + int a) 8 + int b) 8 + int c) 8 + int d) :: 32 word)
      = word_of_nat (address a b c d)"
    by (simp add: js_shl_word address_def algebra_simps)
  have "js_uint32 (js_shl (js_shl (js_shl (js_shl 0 8 + int a) 8 + int b) 8 + int c) 8 + int d)
      = int (address a b c d)"
    unfolding js_uint32_def w
    using address_less [OF assms] by (simp add: uint_nat unat_of_nat take_bit_nat_eq_self)
  then show ?thesis
    using assms by (simp add: toInt_def Let_def split_dotted octet_ok_def n)
qed

section \<open>Prefixes\<close>

lemma and_mask_iff:
  fixes v w :: "32 word"
  assumes "k < 32"
  shows "(v AND NOT (mask k) = w AND NOT (mask k)) \<longleftrightarrow> unat v div 2 ^ k = unat w div 2 ^ k"
proof -
  have "(v AND NOT (mask k) = w AND NOT (mask k)) \<longleftrightarrow> drop_bit k v = drop_bit k w"
  proof
    assume e: "v AND NOT (mask k) = w AND NOT (mask k)"
    show "drop_bit k v = drop_bit k w"
    proof (rule bit_word_eqI)
      fix n assume "n < LENGTH(32)"
      have "bit (v AND NOT (mask k)) (k + n) = bit (w AND NOT (mask k)) (k + n)"
        using e by simp
      then show "bit (drop_bit k v) n = bit (drop_bit k w) n"
        by (auto simp: bit_simps dest: bit_imp_le_length)
    qed
  next
    assume e: "drop_bit k v = drop_bit k w"
    show "v AND NOT (mask k) = w AND NOT (mask k)"
    proof (rule bit_word_eqI)
      fix n assume "n < LENGTH(32)"
      have "bit (drop_bit k v) (n - k) = bit (drop_bit k w) (n - k)"
        using e by simp
      then show "bit (v AND NOT (mask k)) n = bit (w AND NOT (mask k)) n"
        by (auto simp: bit_simps)
    qed
  qed
  also have "\<dots> \<longleftrightarrow> unat v div 2 ^ k = unat w div 2 ^ k"
    using unat_drop_bit_eq [of k v] unat_drop_bit_eq [of k w]
    by (metis drop_bit_eq_div word_unat_eq_iff)
  finally show ?thesis .
qed

lemma mask_word:
  "k < 32 \<Longrightarrow> (word_of_int (js_uint32 (js_shl 0xffffffff k)) :: 32 word) = NOT (mask k)"
proof -
  assume "k < 32"
  moreover have m: "(0xffffffff :: 32 word) = - 1" by simp
  ultimately show ?thesis
    by (simp add: js_uint32_def js_shl_def del: word_of_int_numeral) (simp only: m push_bit_minus_one_eq_not_mask)
qed

lemma sint_inj: "(sint (v :: 32 word) = sint w) \<longleftrightarrow> v = w"
proof
  assume "sint v = sint w"
  then have "(word_of_int (sint v) :: 32 word) = word_of_int (sint w)" by simp
  then show "v = w" by simp
qed simp

lemma js_and_eq: "js_and a b = js_and c b \<longleftrightarrow>
    (word_of_int a :: 32 word) AND word_of_int b = word_of_int c AND word_of_int b"
  by (simp add: js_and_def sint_inj)

text \<open>
  C27. On well-formed addresses the check is the prefix test it documents: the address is in the
  range exactly when the two agree on their first \<open>n\<close> bits, for every prefix length from 0 to
  32, high-bit addresses included; a bare address is a range of one.
\<close>

theorem cidr_prefix_match:
  assumes "list_all (\<lambda>x. x < 256) [a, b, c, d, a', b', c', d']" "n \<le> 32"
  shows "(ipInCidr (dotted a b c d) (dotted a' b' c' d' @ ''/'' @ dec n) \<longleftrightarrow>
      address a b c d div 2 ^ (32 - n) = address a' b' c' d' div 2 ^ (32 - n))
    \<and> (ipInCidr (dotted a b c d) (dotted a' b' c' d') \<longleftrightarrow> address a b c d = address a' b' c' d')"
proof -
  let ?x = "address a b c d" and ?y = "address a' b' c' d'"
  have o: "a < 256" "b < 256" "c < 256" "d < 256" "a' < 256" "b' < 256" "c' < 256" "d' < 256"
    using assms(1) by auto
  note lt = address_less [OF o(1-4)] address_less [OF o(5-8)]
  note ti = toInt_dotted [OF o(1-4)] toInt_dotted [OF o(5-8)]
  have sp: "split_on (CHR ''/'') (dotted a' b' c' d' @ CHR ''/'' # dec n) = [dotted a' b' c' d', dec n]"
    by (simp add: split_on_append split_on_no_sep dotted_no_slash dec_no_sep)
  have bits: "num_int (js_Number (dec n)) = Some (int n)"
    using assms(2) by (intro js_Number_dec) simp
  have m: "js_and (int ?x) (js_uint32 (js_shl 0xffffffff k)) = js_and (int ?y) (js_uint32 (js_shl 0xffffffff k))
      \<longleftrightarrow> ?x div 2 ^ k = ?y div 2 ^ k" if "k < 32" for k
    using that lt by (simp add: js_and_eq mask_word and_mask_iff unat_of_nat take_bit_nat_eq_self)
  have k: "nat (32 - int n) = 32 - n" using assms(2) by simp
  have "?x div 2 ^ 32 = ?y div 2 ^ 32" using lt by simp
  then have ranges: "ipInCidr (dotted a b c d) (dotted a' b' c' d' @ ''/'' @ dec n) \<longleftrightarrow>
      ?x div 2 ^ (32 - n) = ?y div 2 ^ (32 - n)"
    using assms(2) m [of "32 - n"] by (simp add: ipInCidr_def Let_def sp ti bits k)
  have "ipInCidr (dotted a b c d) (dotted a' b' c' d') \<longleftrightarrow> ?x = ?y"
    using m [of 0] by (simp add: ipInCidr_def Let_def split_on_no_sep dotted_no_slash ti)
  with ranges show ?thesis by blast
qed


lemma cidr_prefix_match_witness:
  "ipInCidr (dotted 102 89 23 14) (dotted 102 89 23 0 @ ''/'' @ dec 24)
   \<and> \<not> ipInCidr (dotted 102 89 24 14) (dotted 102 89 23 0 @ ''/'' @ dec 24)
   \<and> ipInCidr (dotted 200 0 0 1) (dotted 128 0 0 0 @ ''/'' @ dec 1)"
  using cidr_prefix_match [of 102 89 23 14 102 89 23 0 24]
    cidr_prefix_match [of 102 89 24 14 102 89 23 0 24]
    cidr_prefix_match [of 200 0 0 1 128 0 0 0 1] by (simp add: address_def)

text \<open>
  An entry with nothing after the slash matches every IPv4 address: the empty string
  converts to zero, and a zero-length prefix is the whole internet.  (The comment in the source
  says anything malformed returns false.)
\<close>

theorem cidr_empty_prefix_matches_all:
  assumes "list_all (\<lambda>x. x < 256) [a, b, c, d, a', b', c', d']"
  shows "ipInCidr (dotted a b c d) (dotted a' b' c' d' @ ''/'')"
proof -
  have "split_on (CHR ''/'') (dotted a' b' c' d' @ CHR ''/'' # []) = [dotted a' b' c' d', []]"
    by (simp only: split_on_append [OF dotted_no_slash] split_on.simps)
  then show ?thesis
    using assms by (simp add: ipInCidr_def Let_def toInt_dotted js_Number_empty)
qed

lemma cidr_empty_prefix_matches_all_witness:
  "ipInCidr (dotted 8 8 8 8) (dotted 10 0 0 0 @ ''/'')"
  by (rule cidr_empty_prefix_matches_all) simp

end
