(* ===== verification/Uri.thy ===== *)
theory Uri
  imports Js_Number
begin

text \<open>
  \<open>decodeURIComponent\<close>, as the session cookie and the address of a document are read.
\<close>

definition hex_digit :: "char \<Rightarrow> nat option" where
  "hex_digit c = (if digit_value c < 16 then Some (digit_value c) else None)"

text \<open>
  decodeURIComponent on bytes: each %XX becomes a byte, and the bytes so written must be
  well-formed UTF-8 (checked by \<open>utf8_ok\<close>: lead byte, continuation count, no overlong or
  surrogate forms); None is the URIError.
\<close>

definition is_continuation :: "nat \<Rightarrow> bool" where
  "is_continuation b \<longleftrightarrow> 128 \<le> b \<and> b \<le> 191"

fun utf8_ok :: "nat list \<Rightarrow> bool" where
  "utf8_ok [] = True"
| "utf8_ok (a # bs) =
     (if a < 128 then utf8_ok bs
      else if 194 \<le> a \<and> a \<le> 223 then (case bs of b # r \<Rightarrow> is_continuation b \<and> utf8_ok r | _ \<Rightarrow> False)
      else if 224 \<le> a \<and> a \<le> 239 then (case bs of b # c # r \<Rightarrow>
          is_continuation b \<and> is_continuation c \<and> (a = 224 \<longrightarrow> 160 \<le> b) \<and> (a = 237 \<longrightarrow> b \<le> 159) \<and> utf8_ok r
        | _ \<Rightarrow> False)
      else if 240 \<le> a \<and> a \<le> 244 then (case bs of b # c # d # r \<Rightarrow>
          is_continuation b \<and> is_continuation c \<and> is_continuation d
          \<and> (a = 240 \<longrightarrow> 144 \<le> b) \<and> (a = 244 \<longrightarrow> b \<le> 143) \<and> utf8_ok r
        | _ \<Rightarrow> False)
      else False)"

fun percent_decode :: "string \<Rightarrow> string option" where
  "percent_decode [] = Some []"
| "percent_decode (c # cs) =
     (if c \<noteq> CHR ''%'' then map_option (Cons c) (percent_decode cs)
      else (case cs of
         h # l # r \<Rightarrow> (case (hex_digit h, hex_digit l) of
             (Some a, Some b) \<Rightarrow> map_option (Cons (char_of (16 * a + b))) (percent_decode r)
           | _ \<Rightarrow> None)
       | _ \<Rightarrow> None))"

definition decodeURIComponent :: "string \<Rightarrow> string option" where
  "decodeURIComponent s = (case percent_decode s of None \<Rightarrow> None
     | Some t \<Rightarrow> if utf8_ok (map of_char t) then Some t else None)"

end
