(* ===== verification/Guards.thy ===== *)
theory Guards
  imports Session_Facts Ttl_Cache Cidr Admin_Model Uri
begin

text \<open>
  The guards in front of every route (\<open>common/auth\<close>): the cookie reader, \<open>SessionGuard\<close>,
  \<open>PermissionsGuard\<close> and \<open>IpAllowlistGuard\<close> in the order \<open>app.module.ts\<close> registers them, and
  the reason check of \<open>AuditInterceptor\<close>.
\<close>

section \<open>Cookies\<close>

definition cookie_part :: "string \<Rightarrow> string \<Rightarrow> string list" where
  "cookie_part cookieName part =
     (if CHR ''='' \<notin> set part then []
      else if trim (takeWhile (\<lambda>c. c \<noteq> CHR ''='') part) \<noteq> cookieName then []
      else (let raw = trim (tl (dropWhile (\<lambda>c. c \<noteq> CHR ''='') part))
        in [case decodeURIComponent raw of None \<Rightarrow> raw | Some v \<Rightarrow> v]))"

definition cookieValues :: "string option \<Rightarrow> string \<Rightarrow> string list" where
  "cookieValues header cookieName =
     (if \<not> truthy header then []
      else concat (map (cookie_part cookieName) (split_on (CHR '';'') (case header of None \<Rightarrow> [] | Some h \<Rightarrow> h))))"

section \<open>SessionGuard\<close>

record http_request =
  rq_method :: string
  rq_cookie :: "string option"
  rq_csrf :: "string option"
  rq_ip :: "string option"
  rq_userAgent :: "string option"
  rq_reason :: "string option"

definition SAFE_METHODS :: "string list" where
  "SAFE_METHODS = [''GET'', ''HEAD'', ''OPTIONS'']"

definition STAFF_TTL_MS :: int where
  "STAFF_TTL_MS = 10000"

type_synonym staff_with_role = "staff_row \<times> role_row"

record guard_state =
  gs_sessions :: session_store
  gs_cache :: "staff_with_role option ttl_cache"
  gs_staff :: "staff_row list"
  gs_roles :: "role_row list"

text \<open>findUnique with the role included; the role is a required foreign key.\<close>

definition load_staff :: "staff_row list \<Rightarrow> role_row list \<Rightarrow> string \<Rightarrow> staff_with_role option" where
  "load_staff staff roles i =
     (case find_row (\<lambda>st. st_id st = i) staff of None \<Rightarrow> None
      | Some st \<Rightarrow> map_option (Pair st) (find_row (\<lambda>ro. ro_id ro = st_roleId st) roles))"

definition principal_of ::
  "millis \<Rightarrow> http_request \<Rightarrow> session_record \<Rightarrow> staff_with_role \<Rightarrow> principal" where
  "principal_of now rq r sr = (case sr of (st, ro) \<Rightarrow>
     \<lparr>sp_id = st_id st, sp_email = st_email st, sp_name = st_name st, sp_roleId = st_roleId st,
      sp_roleKey = ro_key ro, sp_permissions = js_set (ro_permissions ro @ st_extraPermissions st),
      sp_sessionId = se_sessionId r, sp_sessionEpoch = se_sessionEpoch r, sp_ip = rq_ip rq,
      sp_userAgent = rq_userAgent rq,
      sp_impersonating = (case se_impersonation r of None \<Rightarrow> None
        | Some (acc, expiresAt) \<Rightarrow> if expiresAt > now then Some (acc, expiresAt) else None)\<rparr>)"

text \<open>The checks after the session was found, on the staff row the cache or the database gave.\<close>

definition guard_staff ::
  "session_cfg \<Rightarrow> millis \<Rightarrow> http_request \<Rightarrow> session_record \<Rightarrow> guard_state \<Rightarrow> (guard_state, principal) outcome" where
  "guard_staff cfg now rq r s =
     (let (found, cache) = cache_get STAFF_TTL_MS 500 now (load_staff (gs_staff s) (gs_roles s)) (se_staffId r) (gs_cache s);
          s1 = s\<lparr>gs_cache := cache\<rparr>;
          dropped = s1\<lparr>gs_cache := cache_delete (se_staffId r) cache,
                       gs_sessions := revoke now (se_sessionId r) (gs_sessions s1)\<rparr>
      in case found of
           None \<Rightarrow> throws (Unauthorized ''Staff account is not active'') dropped
         | Some (st, ro) \<Rightarrow>
             if st_status st \<noteq> ACTIVE then throws (Unauthorized ''Staff account is not active'') dropped
             else if st_sessionEpoch st \<noteq> se_sessionEpoch r
             then throws (Unauthorized ''Permissions changed; sign in again'') dropped
             else (case touch cfg now r (gs_sessions s1) of
                 (Inl e, ks) \<Rightarrow> throws e (s1\<lparr>gs_sessions := ks\<rparr>)
               | (Inr _, ks) \<Rightarrow> returns (principal_of now rq (r\<lparr>se_lastSeenAt := now\<rparr>) (st, ro)) (s1\<lparr>gs_sessions := ks\<rparr>)))"

definition session_guard ::
  "session_cfg \<Rightarrow> string \<Rightarrow> millis \<Rightarrow> bool \<Rightarrow> http_request \<Rightarrow> guard_state \<Rightarrow> (guard_state, principal option) outcome" where
  "session_guard cfg accessCookie now isPublic rq s =
     (if isPublic then returns None s
      else (let sessionIds = cookieValues (rq_cookie rq) accessCookie in
        if sessionIds = [] then throws (Unauthorized ''No admin session'') s
        else (case firstLive cfg now sessionIds (gs_sessions s) of
            (None, ks) \<Rightarrow> throws (Unauthorized ''Session expired'') (s\<lparr>gs_sessions := ks\<rparr>)
          | (Some r, ks) \<Rightarrow>
              (let s1 = s\<lparr>gs_sessions := ks\<rparr> in
               if \<not> se_mfaVerified r then throws (Unauthorized ''Two-factor verification required'') s1
               else if \<not> js_includes SAFE_METHODS (rq_method rq) \<and> \<not> verifyCsrf r (rq_csrf rq)
               then throws (Forbidden ''CSRF token missing or invalid'') s1
               else (case guard_staff cfg now rq r s1 of
                   (Inl e, s2) \<Rightarrow> throws e s2
                 | (Inr p, s2) \<Rightarrow> returns (Some p) s2)))))"

section \<open>PermissionsGuard, IpAllowlistGuard, AuditInterceptor\<close>

definition permissions_guard :: "string list \<Rightarrow> string \<Rightarrow> principal option \<Rightarrow> unit result" where
  "permissions_guard required httpMethod staff =
     (if required = [] then Inr ()
      else (case staff of None \<Rightarrow> Inl (Forbidden ''No staff principal on request'')
       | Some p \<Rightarrow>
          (let missing = filter (\<lambda>q. \<not> js_includes (sp_permissions p) q) required in
           if missing \<noteq> [] then Inl (Forbidden (''Missing permission: '' @ join_with '', '' missing))
           else if sp_impersonating p \<noteq> None \<and> httpMethod \<noteq> ''GET''
           then Inl (Forbidden ''View-as-customer sessions are read-only'')
           else Inr ())))"

definition ip_allowlist_guard :: "role_row list \<Rightarrow> string option \<Rightarrow> principal option \<Rightarrow> unit result" where
  "ip_allowlist_guard roles requestIp staff =
     (case staff of None \<Rightarrow> Inr ()
      | Some p \<Rightarrow>
        (case find_row (\<lambda>ro. ro_id ro = sp_roleId p) roles of None \<Rightarrow> Inr ()
         | Some role \<Rightarrow>
            if ro_ipAllowlist role = [] then Inr ()
            else (case normaliseIp requestIp of
                None \<Rightarrow> Inl (Forbidden (''Role '' @ ro_key role @ '' may not be used from this network''))
              | Some ip \<Rightarrow>
                  if ip = [] \<or> \<not> list_ex (ipInCidr ip) (ro_ipAllowlist role)
                  then Inl (Forbidden (''Role '' @ ro_key role @ '' may not be used from this network''))
                  else Inr ())))"

definition reason_check :: "bool \<Rightarrow> string option \<Rightarrow> unit result" where
  "reason_check reasonRequired reason =
     (if reasonRequired \<and> \<not> truthy (map_option trim reason)
      then Inl (BadRequest ''This action requires a written reason'') else Inr ())"

record route =
  ro_isPublic :: bool
  ro_required :: "string list"
  ro_reasonRequired :: bool

definition admit ::
  "session_cfg \<Rightarrow> string \<Rightarrow> millis \<Rightarrow> route \<Rightarrow> http_request \<Rightarrow> guard_state \<Rightarrow> (guard_state, principal option) outcome" where
  "admit cfg accessCookie now route rq s =
     (case session_guard cfg accessCookie now (ro_isPublic route) rq s of
        (Inl e, s1) \<Rightarrow> throws e s1
      | (Inr staff, s1) \<Rightarrow>
          (case permissions_guard (ro_required route) (rq_method rq) staff of
             Inl e \<Rightarrow> throws e s1
           | Inr _ \<Rightarrow>
              (case ip_allowlist_guard (gs_roles s1) (rq_ip rq) staff of
                 Inl e \<Rightarrow> throws e s1
               | Inr _ \<Rightarrow>
                  (case reason_check (ro_reasonRequired route) (rq_reason rq) of
                     Inl e \<Rightarrow> throws e s1
                   | Inr _ \<Rightarrow> returns staff s1))))"

text \<open>What a request must have to get past the guards, and what they read to decide it.\<close>

lemma permissions_guard_iff:
  "permissions_guard required m staff = Inr () \<longleftrightarrow> required = []
     \<or> (\<exists>p. staff = Some p \<and> set required \<subseteq> set (sp_permissions p) \<and> (sp_impersonating p = None \<or> m = ''GET''))"
proof -
  have "filter (\<lambda>q. q \<notin> set ps) required = [] \<longleftrightarrow> set required \<subseteq> set ps" for ps
    by (induction required) auto
  then show ?thesis
    by (cases staff; cases "sp_impersonating (the staff)")
       (auto simp: permissions_guard_def Let_def simp del: filter_empty_conv)
qed

lemma ip_allowlist_guard_ok:
  assumes "ip_allowlist_guard roles rip (Some p) = Inr ()"
    "find_row (\<lambda>ro. ro_id ro = sp_roleId p) roles = Some role" "ro_ipAllowlist role \<noteq> []"
  shows "\<exists>ip entry. normaliseIp rip = Some ip \<and> entry \<in> set (ro_ipAllowlist role) \<and> ipInCidr ip entry"
  using assms by (auto simp: ip_allowlist_guard_def list_ex_iff split: option.splits if_splits)

lemma reason_check_ok: "reason_check b reason = Inr () \<longleftrightarrow> (b \<longrightarrow> truthy (map_option trim reason))"
  by (simp add: reason_check_def)

text \<open>The staff row the guard decides on: a cached copy if there is a fresh one, else the database's.\<close>

definition served :: "guard_state \<Rightarrow> millis \<Rightarrow> string \<Rightarrow> staff_with_role option" where
  "served s now i = (case cache_hit now i (gs_cache s) of
     Some v \<Rightarrow> v | None \<Rightarrow> load_staff (gs_staff s) (gs_roles s) i)"

lemma served_frame [simp]: "served (s\<lparr>gs_sessions := ks\<rparr>) now i = served s now i"
  by (simp add: served_def split: option.split)

lemma cache_get_served:
  "fst (cache_get ttl m now (load_staff (gs_staff s) (gs_roles s)) i (gs_cache s)) = served s now i"
  by (simp add: cache_get_def served_def split: option.split)

lemma guard_staff_success:
  assumes "guard_staff cfg now rq r s = returns p s'"
  obtains st ro where "served s now (se_staffId r) = Some (st, ro)" "st_status st = ACTIVE"
    "st_sessionEpoch st = se_sessionEpoch r" "p = principal_of now rq (r\<lparr>se_lastSeenAt := now\<rparr>) (st, ro)"
    "gs_roles s' = gs_roles s" "gs_staff s' = gs_staff s"
proof -
  obtain found cache where g: "cache_get STAFF_TTL_MS 500 now (load_staff (gs_staff s) (gs_roles s)) (se_staffId r) (gs_cache s)
      = (found, cache)" by fastforce
  then have "served s now (se_staffId r) = found"
    using cache_get_served [of STAFF_TTL_MS 500 now s "se_staffId r"] by simp
  with g assms that show ?thesis
    by (auto simp: guard_staff_def Let_def split: option.splits if_splits prod.splits sum.splits)
qed

lemma session_guard_success:
  assumes "session_guard cfg ck now False rq s = returns staff s'"
  obtains r ks p where "firstLive cfg now (cookieValues (rq_cookie rq) ck) (gs_sessions s) = (Some r, ks)"
    "se_mfaVerified r" "rq_method rq \<in> set SAFE_METHODS \<or> verifyCsrf r (rq_csrf rq)"
    "guard_staff cfg now rq r (s\<lparr>gs_sessions := ks\<rparr>) = returns p s'" "staff = Some p"
  using assms by (auto simp: session_guard_def Let_def split: if_splits prod.splits option.splits sum.splits)


text \<open>
  The guard decides on a copy of the staff row and role that may be up to ten seconds old:
  while a fresh copy is cached, nothing that happened to the staff and role tables since (a role
  narrowed, an account suspended, an epoch bumped) changes what the guard answers.
\<close>

theorem guard_ignores_staff_changes:
  assumes "firstLive cfg now (cookieValues (rq_cookie rq) ck) (gs_sessions s) = (Some r, ks)"
    "cache_hit now (se_staffId r) (gs_cache s) = Some sr"
  shows "fst (session_guard cfg ck now False rq (s\<lparr>gs_staff := staff, gs_roles := roles\<rparr>)) =
    fst (session_guard cfg ck now False rq s)"
proof -
  have "fst (guard_staff cfg now rq r (s\<lparr>gs_staff := staff, gs_roles := roles, gs_sessions := ks\<rparr>)) =
      fst (guard_staff cfg now rq r (s\<lparr>gs_sessions := ks\<rparr>))"
    using assms(2) by (simp add: guard_staff_def cache_get_def Let_def split: option.split prod.split sum.split)
  with assms(1) show ?thesis
    by (auto simp: session_guard_def Let_def split: prod.split sum.split)
qed

section \<open>Concrete runs\<close>

definition ex_role :: role_row where
  "ex_role = \<lparr>ro_id = ''r1'', ro_key = ''finance'', ro_name = ''Finance'', ro_description = None,
     ro_permissions = [''credits.adjust''], ro_ipAllowlist = [''10.0.0.0/8''], ro_isSystem = True\<rparr>"

definition ex_staff :: staff_row where
  "ex_staff = \<lparr>st_id = ''u1'', st_email = ''a@z'', st_name = ''A'', st_passwordHash = ''h'', st_totpSecret = Some ''t'',
     st_totpEnabled = True, st_status = ACTIVE, st_roleId = ''r1'', st_extraPermissions = [],
     st_failedLoginCount = 0, st_lockedUntil = None, st_lastLoginAt = None, st_lastLoginIp = None,
     st_sessionEpoch = 0, st_emailPrefs = []\<rparr>"

definition ex_session :: session_record where
  "ex_session = \<lparr>se_sessionId = ''sid'', se_staffId = ''u1'', se_sessionEpoch = 0, se_createdAt = 0, se_lastSeenAt = 0,
     se_absoluteExpiresAt = 43200000, se_ip = None, se_userAgent = None, se_mfaVerified = True,
     se_csrfToken = ''tok'', se_impersonation = None\<rparr>"

definition ex_guards :: guard_state where
  "ex_guards = \<lparr>gs_sessions = \<lparr>ks_sessions = [''sid'' \<mapsto> (ex_session, 1800000)], ks_index = (\<lambda>_. [])(''u1'' := [''sid''])\<rparr>,
     gs_cache = empty_cache, gs_staff = [ex_staff], gs_roles = [ex_role\<lparr>ro_ipAllowlist := []\<rparr>]\<rparr>"

definition ex_request :: http_request where
  "ex_request = \<lparr>rq_method = ''POST'', rq_cookie = Some ''zpk=sid'', rq_csrf = Some ''tok'', rq_ip = None,
     rq_userAgent = None, rq_reason = Some ''refund''\<rparr>"

definition ex_route :: route where
  "ex_route = \<lparr>ro_isPublic = False, ro_required = [''credits.adjust''], ro_reasonRequired = True\<rparr>"

lemma ex_cookie: "cookieValues (rq_cookie ex_request) ''zpk'' = [''sid'']"
  by code_simp

lemma ex_live: "get_session ex_cfg 1000 ''sid'' (gs_sessions ex_guards) = (Some ex_session, gs_sessions ex_guards)"
  by (simp add: ex_guards_def ex_session_def get_session_def redis_get_def idleMs_def ex_cfg_def Let_def)

lemma ex_reason: "truthy (map_option trim (Some ''refund''))"
  by code_simp

lemma ex_admitted: "\<exists>p s'. admit ex_cfg ''zpk'' 1000 ex_route ex_request ex_guards = returns (Some p) s'"
proof -
  have "\<exists>s'. guard_staff ex_cfg 1000 ex_request ex_session ex_guards =
      returns (principal_of 1000 ex_request (ex_session\<lparr>se_lastSeenAt := 1000\<rparr>) (ex_staff, ex_role\<lparr>ro_ipAllowlist := []\<rparr>)) s'
      \<and> gs_roles s' = [ex_role\<lparr>ro_ipAllowlist := []\<rparr>]"
    by (simp add: guard_staff_def Let_def cache_get_def cache_hit_def entry_of_def empty_cache_def ex_guards_def
        load_staff_def ex_session_def ex_staff_def ex_role_def touch_def persist_def idleMs_def ex_cfg_def)
  moreover have "verifyCsrf ex_session (rq_csrf ex_request)"
    by (simp add: verifyCsrf_def ex_session_def ex_request_def)
  moreover have "se_mfaVerified ex_session" by (simp add: ex_session_def)
  ultimately obtain s' where g: "session_guard ex_cfg ''zpk'' 1000 False ex_request ex_guards =
      returns (Some (principal_of 1000 ex_request (ex_session\<lparr>se_lastSeenAt := 1000\<rparr>) (ex_staff, ex_role\<lparr>ro_ipAllowlist := []\<rparr>))) s'"
    and ro: "gs_roles s' = [ex_role\<lparr>ro_ipAllowlist := []\<rparr>]"
    by (auto simp: session_guard_def Let_def ex_cookie ex_live)
  have "reason_check True (rq_reason ex_request) = Inr ()"
    using ex_reason by (simp add: reason_check_ok ex_request_def)
  moreover have "permissions_guard [''credits.adjust''] (rq_method ex_request)
      (Some (principal_of 1000 ex_request (ex_session\<lparr>se_lastSeenAt := 1000\<rparr>) (ex_staff, ex_role\<lparr>ro_ipAllowlist := []\<rparr>))) = Inr ()"
    by (simp add: permissions_guard_iff principal_of_def ex_role_def ex_staff_def ex_session_def)
  moreover have "ip_allowlist_guard (gs_roles s') (rq_ip ex_request)
      (Some (principal_of 1000 ex_request (ex_session\<lparr>se_lastSeenAt := 1000\<rparr>) (ex_staff, ex_role\<lparr>ro_ipAllowlist := []\<rparr>))) = Inr ()"
    by (simp add: ip_allowlist_guard_def ro principal_of_def ex_role_def ex_staff_def)
  ultimately show ?thesis
    using g by (simp add: admit_def ex_route_def)
qed

lemma ex_store_ok: "store_ok ex_cfg (gs_sessions ex_guards)"
  by (simp add: store_ok_def record_ok_def ex_guards_def ex_session_def ex_cfg_def)


lemma guard_ignores_staff_changes_witness:
  "let s = ex_guards\<lparr>gs_cache := \<lparr>tc_entries = [(''u1'', Some (ex_staff, ex_role), 5000)], tc_loading = []\<rparr>\<rparr> in
   fst (session_guard ex_cfg ''zpk'' 1000 False ex_request (s\<lparr>gs_staff := [ex_staff\<lparr>st_status := SUSPENDED\<rparr>], gs_roles := []\<rparr>)) =
   fst (session_guard ex_cfg ''zpk'' 1000 False ex_request s)"
proof -
  let ?s = "ex_guards\<lparr>gs_cache := \<lparr>tc_entries = [(''u1'', Some (ex_staff, ex_role), 5000)], tc_loading = []\<rparr>\<rparr>"
  have "firstLive ex_cfg 1000 (cookieValues (rq_cookie ex_request) ''zpk'') (gs_sessions ?s) = (Some ex_session, gs_sessions ?s)"
    using ex_live by (simp add: ex_cookie)
  moreover have "cache_hit 1000 (se_staffId ex_session) (gs_cache ?s) = Some (Some (ex_staff, ex_role))"
    by (simp add: cache_hit_def entry_of_def ex_session_def)
  ultimately show ?thesis
    unfolding Let_def by (rule guard_ignores_staff_changes)
qed

end
