(* ===== verification/Auth.thy ===== *)
theory Auth
  imports Session_Facts Inbox
begin

text \<open>
  \<open>modules/auth/auth.service.ts\<close> and the strength rules of \<open>password.service.ts\<close>: the two-step
  sign-in with its lockout, sign-out, password change, invitations and view-as-customer.
  Hashing, TOTP, encryption and geo lookup are arguments (\<open>auth_env\<close>).
\<close>

section \<open>State\<close>

record invite_row =
  iv_id :: string
  iv_email :: string
  iv_name :: string
  iv_roleId :: string
  iv_tokenHash :: string
  iv_invitedById :: string
  iv_expiresAt :: millis
  iv_acceptedAt :: "millis option"
  iv_revokedAt :: "millis option"

record login_context =
  lc_ip :: "string option"
  lc_userAgent :: "string option"

record login_attempt =
  la_email :: string
  la_context :: login_context
  la_success :: bool
  la_reason :: "string option"

record staff_session_row =
  ssr_id :: string
  ssr_staffId :: string
  ssr_country :: "string option"
  ssr_city :: "string option"
  ssr_absoluteExpiresAt :: millis
  ssr_revoked :: "(millis \<times> string) option"

record sign_in_row =
  sir_staffId :: string
  sir_email :: string
  sir_ip :: "string option"
  sir_country :: "string option"

record impersonation_row =
  imp_staffId :: string
  imp_accountId :: string
  imp_reason :: string
  imp_expiresAt :: millis
  imp_endedAt :: "millis option"

record console_state =
  co_staff :: "staff_row list"
  co_roles :: "role_row list"
  co_invites :: "invite_row list"
  co_sessions :: session_store
  co_attempts :: "login_attempt list"
  co_staffSessions :: "staff_session_row list"
  co_signIns :: "sign_in_row list"
  co_impersonations :: "impersonation_row list"
  co_audit :: "audit_row list"
  co_mails :: "outbound_mail list"

record auth_env =
  cx_verify :: "string \<Rightarrow> string \<Rightarrow> bool"
  cx_hash :: "string \<Rightarrow> string"
  cx_totp :: "string \<Rightarrow> string \<Rightarrow> bool"
  cx_encrypt :: "string \<Rightarrow> string"
  cx_decrypt :: "string \<Rightarrow> string"
  cx_qrCode :: "string \<Rightarrow> string \<Rightarrow> string"
  cx_hashToken :: "string \<Rightarrow> string"
  cx_geo :: "string option \<Rightarrow> string option \<times> string option"

record auth_cfg =
  cf_maxFailedLogins :: nat
  cf_lockoutMinutes :: int
  cf_impersonationMinutes :: int
  cf_inviteTtlHours :: int
  cf_session :: session_cfg
  cf_origin :: string

definition minute_ms :: int where
  "minute_ms = 60000"

abbreviation find_staff :: "string \<Rightarrow> console_state \<Rightarrow> staff_row option" where
  "find_staff i s \<equiv> find_row (\<lambda>st. st_id st = i) (co_staff s)"

definition update_staff :: "string \<Rightarrow> (staff_row \<Rightarrow> staff_row) \<Rightarrow> console_state \<Rightarrow> console_state" where
  "update_staff i f s = s\<lparr>co_staff := update_where (\<lambda>st. st_id st = i) f (co_staff s)\<rparr>"

definition add_audit :: "audit_entry \<Rightarrow> console_state \<Rightarrow> console_state" where
  "add_audit e s = s\<lparr>co_audit := audit_record e (co_audit s)\<rparr>"

section \<open>Passwords\<close>

definition validateStrength :: "string \<Rightarrow> string list" where
  "validateStrength password =
     (if length password < 12 then [''must be at least 12 characters''] else [])
     @ (if list_ex is_lower password then [] else [''must contain a lowercase letter''])
     @ (if list_ex is_upper password then [] else [''must contain an uppercase letter''])
     @ (if list_ex is_digit password then [] else [''must contain a digit''])
     @ (if list_ex (\<lambda>c. \<not> is_word c \<and> \<not> is_space c) password then [] else [''must contain a symbol''])"

section \<open>Signing in\<close>

definition recordAttempt :: "string \<Rightarrow> login_context \<Rightarrow> bool \<Rightarrow> string option \<Rightarrow> console_state \<Rightarrow> console_state" where
  "recordAttempt email ctx success reason s =
     s\<lparr>co_attempts := co_attempts s @ [\<lparr>la_email = email, la_context = ctx, la_success = success, la_reason = reason\<rparr>]\<rparr>"

text \<open>The two updates of a failure on the row itself: count, and lock when the count reaches the limit.\<close>

definition failed_row :: "auth_cfg \<Rightarrow> millis \<Rightarrow> staff_row \<Rightarrow> staff_row" where
  "failed_row cfg now st =
     (let st1 = st\<lparr>st_failedLoginCount := Suc (st_failedLoginCount st)\<rparr>
      in if st_failedLoginCount st1 \<ge> cf_maxFailedLogins cfg
         then st1\<lparr>st_lockedUntil := Some (now + cf_lockoutMinutes cfg * minute_ms), st_failedLoginCount := 0\<rparr>
         else st1)"

definition registerFailure ::
  "auth_cfg \<Rightarrow> millis \<Rightarrow> string \<Rightarrow> string \<Rightarrow> login_context \<Rightarrow> string \<Rightarrow> console_state \<Rightarrow> console_state" where
  "registerFailure cfg now staffId email ctx reason s =
     recordAttempt email ctx False (Some reason) (update_staff staffId (failed_row cfg now) s)"

definition login_refusal :: "auth_env \<Rightarrow> millis \<Rightarrow> string \<Rightarrow> staff_row \<Rightarrow> (http_error \<times> string) option" where
  "login_refusal env now password st =
     (if (case st_lockedUntil st of None \<Rightarrow> False | Some t \<Rightarrow> t > now)
      then Some (Forbidden ''Account locked after repeated failed sign-ins'', ''locked'')
      else if st_status st \<noteq> ACTIVE
      then Some (Forbidden ''This staff account is not active'', ''status_'' @ toLowerCase (staff_status_name (st_status st)))
      else if \<not> cx_verify env password (st_passwordHash st)
      then Some (Unauthorized ''Invalid credentials'', ''bad_password'')
      else None)"

record login_result =
  lr_session :: session_record
  lr_enrolment :: "(string \<times> string) option"

definition enrol :: "auth_env \<Rightarrow> string \<Rightarrow> staff_row \<Rightarrow> console_state \<Rightarrow> (string \<times> string) option \<times> console_state" where
  "enrol env secret st s =
     (if st_totpEnabled st then (None, s)
      else (Some (cx_qrCode env (st_email st) secret, secret),
            update_staff (st_id st) (\<lambda>x. x\<lparr>st_totpSecret := Some (cx_encrypt env secret)\<rparr>) s))"

definition login_session ::
  "auth_env \<Rightarrow> auth_cfg \<Rightarrow> millis \<Rightarrow> string \<Rightarrow> string \<Rightarrow> string \<Rightarrow> login_context \<Rightarrow> staff_row \<Rightarrow> console_state
   \<Rightarrow> (console_state, login_result) outcome" where
  "login_session env cfg now sid csrf secret ctx st s =
     (let s1 = update_staff (st_id st) (\<lambda>x. x\<lparr>st_failedLoginCount := 0, st_lockedUntil := None\<rparr>) s
      in case create_session (cf_session cfg) now sid csrf
            \<lparr>ci_staffId = st_id st, ci_sessionEpoch = st_sessionEpoch st, ci_ip = lc_ip ctx,
             ci_userAgent = lc_userAgent ctx, ci_mfaVerified = False\<rparr> (co_sessions s1) of
           (Inl e, ks) \<Rightarrow> throws e (s1\<lparr>co_sessions := ks\<rparr>)
         | (Inr r, ks) \<Rightarrow> (let (enrolment, s2) = enrol env secret st (s1\<lparr>co_sessions := ks\<rparr>)
             in returns \<lparr>lr_session = r, lr_enrolment = enrolment\<rparr> s2))"

definition login ::
  "auth_env \<Rightarrow> auth_cfg \<Rightarrow> millis \<Rightarrow> string \<Rightarrow> string \<Rightarrow> string \<Rightarrow> string \<Rightarrow> string \<Rightarrow> login_context \<Rightarrow> console_state
   \<Rightarrow> (console_state, login_result) outcome" where
  "login env cfg now sid csrf secret email password ctx s =
     (case find_row (\<lambda>st. st_email st = trim (toLowerCase email)) (co_staff s) of
        None \<Rightarrow> throws (Unauthorized ''Invalid credentials'') (recordAttempt email ctx False (Some ''unknown_email'') s)
      | Some st \<Rightarrow>
          (case login_refusal env now password st of
             Some (e, reason) \<Rightarrow>
               if reason = ''bad_password'' then throws e (registerFailure cfg now (st_id st) email ctx reason s)
               else throws e (recordAttempt email ctx False (Some reason) s)
           | None \<Rightarrow> login_session env cfg now sid csrf secret ctx st s))"

section \<open>The second factor\<close>

definition totp_rows ::
  "auth_env \<Rightarrow> millis \<Rightarrow> login_context \<Rightarrow> session_record \<Rightarrow> staff_row \<Rightarrow> console_state \<Rightarrow> console_state" where
  "totp_rows env now ctx r st s =
     (let geo = cx_geo env (lc_ip ctx);
          s1 = update_staff (st_id st) (\<lambda>x. x\<lparr>st_totpEnabled := True, st_lastLoginAt := Some now, st_lastLoginIp := lc_ip ctx\<rparr>) s;
          s2 = s1\<lparr>co_staffSessions := co_staffSessions s1 @ [\<lparr>ssr_id = se_sessionId r, ssr_staffId = st_id st,
                 ssr_country = fst geo, ssr_city = snd geo, ssr_absoluteExpiresAt = se_absoluteExpiresAt r, ssr_revoked = None\<rparr>],
                 co_signIns := co_signIns s1 @ [\<lparr>sir_staffId = st_id st, sir_email = st_email st, sir_ip = lc_ip ctx,
                   sir_country = fst geo\<rparr>]\<rparr>;
          s3 = recordAttempt (st_email st) ctx True None s2
      in add_audit \<lparr>en_actor = Some \<lparr>ac_id = st_id st, ac_email = st_email st, ac_ip = lc_ip ctx, ac_userAgent = lc_userAgent ctx\<rparr>,
           en_action = ''auth.login'', en_targetType = Some ''staff'', en_targetId = Some (st_id st), en_before = JNull,
           en_after = JNull, en_reason = None,
           en_metadata = JObj [(''country'', jstr_opt (fst geo)), (''city'', jstr_opt (snd geo))], en_requestId = None\<rparr> s3)"

definition verifyTotp ::
  "auth_env \<Rightarrow> auth_cfg \<Rightarrow> millis \<Rightarrow> string list \<Rightarrow> string \<Rightarrow> login_context \<Rightarrow> console_state
   \<Rightarrow> (console_state, session_record) outcome" where
  "verifyTotp env cfg now sessionIds code ctx s =
     (case firstLive (cf_session cfg) now sessionIds (co_sessions s) of
        (None, ks) \<Rightarrow> throws (Unauthorized ''Session expired; sign in again'') (s\<lparr>co_sessions := ks\<rparr>)
      | (Some r, ks) \<Rightarrow>
         (let s1 = s\<lparr>co_sessions := ks\<rparr> in
          if se_mfaVerified r then returns r s1
          else (case find_staff (se_staffId r) s1 of
             None \<Rightarrow> throws (Unauthorized ''No second factor enrolled'') s1
           | Some st \<Rightarrow>
              (case st_totpSecret st of
                 None \<Rightarrow> throws (Unauthorized ''No second factor enrolled'') s1
               | Some secret \<Rightarrow>
                  if secret = [] then throws (Unauthorized ''No second factor enrolled'') s1
                  else if \<not> cx_totp env (cx_decrypt env secret) (filter (\<lambda>c. \<not> is_space c) code)
                  then throws (Unauthorized ''Invalid two-factor code'')
                         (registerFailure cfg now (st_id st) (st_email st) ctx ''bad_totp'' s1)
                  else (let r1 = r\<lparr>se_mfaVerified := True\<rparr> in
                    case update_session (cf_session cfg) now r1 (co_sessions s1) of
                      (Inl e, ks1) \<Rightarrow> throws e (s1\<lparr>co_sessions := ks1\<rparr>)
                    | (Inr _, ks1) \<Rightarrow> returns r1 (totp_rows env now ctx r1 st (s1\<lparr>co_sessions := ks1\<rparr>)))))))"

section \<open>Signing out and changing the password\<close>

definition logout :: "principal \<Rightarrow> millis \<Rightarrow> console_state \<Rightarrow> console_state" where
  "logout p now s =
     (let s1 = s\<lparr>co_sessions := revoke now (sp_sessionId p) (co_sessions s),
          co_staffSessions := update_where (\<lambda>x. ssr_id x = sp_sessionId p)
            (\<lambda>x. x\<lparr>ssr_revoked := Some (now, ''logout'')\<rparr>) (co_staffSessions s)\<rparr>
      in add_audit (staff_entry p ''auth.logout'' ''staff'' (sp_id p) None JNull JNull JNull) s1)"

definition changePassword ::
  "auth_env \<Rightarrow> principal \<Rightarrow> millis \<Rightarrow> string \<Rightarrow> string \<Rightarrow> console_state \<Rightarrow> (console_state, unit) outcome" where
  "changePassword env p now current next_pw s =
     (case find_staff (sp_id p) s of
        None \<Rightarrow> throws RecordNotFound s
      | Some record \<Rightarrow>
          if \<not> cx_verify env current (st_passwordHash record)
          then throws (Unauthorized ''Current password is incorrect'') s
          else if validateStrength next_pw \<noteq> []
          then throws (BadRequest (''Password '' @ join_with '', '' (validateStrength next_pw))) s
          else (let s1 = update_staff (sp_id p)
                      (\<lambda>x. x\<lparr>st_passwordHash := cx_hash env next_pw, st_sessionEpoch := Suc (st_sessionEpoch x)\<rparr>) s;
                    s2 = s1\<lparr>co_sessions := snd (revokeAllForStaff now (sp_id p) (co_sessions s1))\<rparr>
            in returns () (add_audit (staff_entry p ''auth.password_changed'' ''staff'' (sp_id p) None JNull JNull JNull) s2)))"

section \<open>Invitations\<close>

definition accepted_staff :: "auth_env \<Rightarrow> string \<Rightarrow> invite_row \<Rightarrow> string \<Rightarrow> staff_row" where
  "accepted_staff env newId iv password =
     \<lparr>st_id = newId, st_email = toLowerCase (iv_email iv), st_name = iv_name iv,
      st_passwordHash = cx_hash env password, st_totpSecret = None, st_totpEnabled = False, st_status = ACTIVE,
      st_roleId = iv_roleId iv, st_extraPermissions = [], st_failedLoginCount = 0, st_lockedUntil = None,
      st_lastLoginAt = None, st_lastLoginIp = None, st_sessionEpoch = 0, st_emailPrefs = []\<rparr>"

definition invite_problem :: "millis \<Rightarrow> string \<Rightarrow> invite_row option \<Rightarrow> http_error option" where
  "invite_problem now password invite =
     (case invite of None \<Rightarrow> Some (BadRequest ''Invite is not valid'')
      | Some iv \<Rightarrow>
          if iv_revokedAt iv \<noteq> None then Some (BadRequest ''Invite is not valid'')
          else if iv_acceptedAt iv \<noteq> None then Some (BadRequest ''Invite has already been used'')
          else if iv_expiresAt iv < now then Some (BadRequest ''Invite has expired'')
          else if validateStrength password \<noteq> []
          then Some (BadRequest (''Password '' @ join_with '', '' (validateStrength password)))
          else None)"

text \<open>The transaction creates the account (its email is unique) and marks the invite.\<close>

definition acceptInvite ::
  "auth_env \<Rightarrow> millis \<Rightarrow> string \<Rightarrow> string \<Rightarrow> string \<Rightarrow> login_context \<Rightarrow> console_state
   \<Rightarrow> (console_state, string \<times> string) outcome" where
  "acceptInvite env now newId token password ctx s =
     (let found = find_row (\<lambda>iv. iv_tokenHash iv = cx_hashToken env token) (co_invites s) in
      case invite_problem now password found of
        Some e \<Rightarrow> throws e s
      | None \<Rightarrow>
         (case found of None \<Rightarrow> throws (BadRequest ''Invite is not valid'') s
          | Some iv \<Rightarrow>
            (let st = accepted_staff env newId iv password in
             if find_row (\<lambda>x. st_email x = st_email st) (co_staff s) \<noteq> None then throws UniqueViolation s
             else (let s1 = s\<lparr>co_staff := co_staff s @ [st],
                      co_invites := update_where (\<lambda>x. iv_id x = iv_id iv) (\<lambda>x. x\<lparr>iv_acceptedAt := Some now\<rparr>) (co_invites s)\<rparr>
               in returns (st_id st, st_email st) (add_audit
                 \<lparr>en_actor = Some \<lparr>ac_id = st_id st, ac_email = st_email st, ac_ip = lc_ip ctx, ac_userAgent = lc_userAgent ctx\<rparr>,
                  en_action = ''staff.invite_accepted'', en_targetType = Some ''staff'', en_targetId = Some (st_id st),
                  en_before = JNull, en_after = JNull, en_reason = None,
                  en_metadata = JObj [(''roleKey'', jstr_opt (map_option ro_key
                    (find_row (\<lambda>ro. ro_id ro = iv_roleId iv) (co_roles s))))], en_requestId = None\<rparr> s1)))))"

section \<open>View as customer\<close>

definition startImpersonation ::
  "auth_cfg \<Rightarrow> principal \<Rightarrow> millis \<Rightarrow> string \<Rightarrow> string \<Rightarrow> console_state \<Rightarrow> (console_state, millis) outcome" where
  "startImpersonation cfg p now accountId reason s =
     (let expiresAt = now + cf_impersonationMinutes cfg * minute_ms in
      case get_session (cf_session cfg) now (sp_sessionId p) (co_sessions s) of
        (None, ks) \<Rightarrow> throws (Unauthorized ''Session expired'') (s\<lparr>co_sessions := ks\<rparr>)
      | (Some r, ks) \<Rightarrow>
          (case update_session (cf_session cfg) now (r\<lparr>se_impersonation := Some (accountId, expiresAt)\<rparr>) ks of
             (Inl e, ks1) \<Rightarrow> throws e (s\<lparr>co_sessions := ks1\<rparr>)
           | (Inr _, ks1) \<Rightarrow>
               (let s1 = s\<lparr>co_sessions := ks1, co_impersonations := co_impersonations s @
                     [\<lparr>imp_staffId = sp_id p, imp_accountId = accountId, imp_reason = reason, imp_expiresAt = expiresAt,
                       imp_endedAt = None\<rparr>]\<rparr>
                in returns expiresAt (add_audit (staff_entry p ''customers.impersonate'' ''account'' accountId (Some reason)
                     JNull JNull (JObj [(''expiresAt'', JInt expiresAt), (''readOnly'', JBool True)])) s1))))"

definition endImpersonation :: "auth_cfg \<Rightarrow> principal \<Rightarrow> millis \<Rightarrow> console_state \<Rightarrow> (console_state, unit) outcome" where
  "endImpersonation cfg p now s =
     (let (session, ks) = get_session (cf_session cfg) now (sp_sessionId p) (co_sessions s);
          cleared = (case session of None \<Rightarrow> (Inr (), ks)
            | Some r \<Rightarrow> if se_impersonation r = None then (Inr (), ks)
                else update_session (cf_session cfg) now (r\<lparr>se_impersonation := None\<rparr>) ks)
      in case cleared of
           (Inl e, ks1) \<Rightarrow> throws e (s\<lparr>co_sessions := ks1\<rparr>)
         | (Inr _, ks1) \<Rightarrow> returns () (add_audit
             \<lparr>en_actor = Some (actor_of p), en_action = ''customers.impersonate_end'', en_targetType = None, en_targetId = None,
              en_before = JNull, en_after = JNull, en_reason = None, en_metadata = JNull, en_requestId = None\<rparr>
             (s\<lparr>co_sessions := ks1, co_impersonations := update_where (\<lambda>x. imp_staffId x = sp_id p \<and> imp_endedAt x = None)
                (\<lambda>x. x\<lparr>imp_endedAt := Some now\<rparr>) (co_impersonations s)\<rparr>)))"

text \<open>What signing in guarantees, and what the lockout does and does not stop.\<close>

lemma console_frame [simp]:
  "co_staff (recordAttempt e c b r s) = co_staff s" "co_sessions (recordAttempt e c b r s) = co_sessions s"
  "co_roles (recordAttempt e c b r s) = co_roles s" "co_invites (recordAttempt e c b r s) = co_invites s"
  "co_staff (add_audit en s) = co_staff s" "co_sessions (add_audit en s) = co_sessions s"
  "co_roles (add_audit en s) = co_roles s" "co_invites (add_audit en s) = co_invites s"
  "co_sessions (update_staff i f s) = co_sessions s" "co_roles (update_staff i f s) = co_roles s"
  "co_invites (update_staff i f s) = co_invites s"
  "co_staff (update_staff i f s) = update_where (\<lambda>st. st_id st = i) f (co_staff s)"
  by (simp_all add: recordAttempt_def add_audit_def update_staff_def)

lemma registerFailure_simps [simp]:
  "co_staff (registerFailure cfg now i e c r s) = update_where (\<lambda>st. st_id st = i) (failed_row cfg now) (co_staff s)"
  "co_sessions (registerFailure cfg now i e c r s) = co_sessions s"
  by (simp_all add: registerFailure_def)

lemma failed_row_frame [simp]:
  "st_id (failed_row cfg now st) = st_id st" "st_email (failed_row cfg now st) = st_email st"
  "st_status (failed_row cfg now st) = st_status st" "st_passwordHash (failed_row cfg now st) = st_passwordHash st"
  "st_totpSecret (failed_row cfg now st) = st_totpSecret st" "st_roleId (failed_row cfg now st) = st_roleId st"
  by (simp_all add: failed_row_def Let_def)

section \<open>Signing in\<close>

abbreviation by_email :: "string \<Rightarrow> console_state \<Rightarrow> staff_row option" where
  "by_email e s \<equiv> find_row (\<lambda>st. st_email st = e) (co_staff s)"

lemma login_refusal_None:
  "login_refusal env now password st = None \<longleftrightarrow>
     st_status st = ACTIVE \<and> cx_verify env password (st_passwordHash st)
     \<and> (\<forall>t. st_lockedUntil st = Some t \<longrightarrow> t \<le> now)"
  by (auto simp: login_refusal_def split: option.split)

text \<open>
  A sign-in succeeds only for an active staff member with the right password who is not
  locked out; the session it creates has not passed the second factor, so no guarded route
  accepts it yet, and the failure count starts again from zero.
\<close>

theorem login_success:
  assumes "login env cfg now sid csrf secret email password ctx s = returns v s'"
  shows "\<exists>st. by_email (trim (toLowerCase email)) s = Some st \<and> st_status st = ACTIVE
    \<and> cx_verify env password (st_passwordHash st) \<and> (\<forall>t. st_lockedUntil st = Some t \<longrightarrow> t \<le> now)
    \<and> se_staffId (lr_session v) = st_id st \<and> \<not> se_mfaVerified (lr_session v)
    \<and> redis_get now sid (co_sessions s') = Some (lr_session v)
    \<and> (\<forall>x. by_email (trim (toLowerCase email)) s' = Some x \<longrightarrow> st_failedLoginCount x = 0 \<and> st_lockedUntil x = None)
    \<and> (lr_enrolment v = None \<longleftrightarrow> st_totpEnabled st)"
proof -
  let ?e = "trim (toLowerCase email)"
  obtain st where st: "by_email ?e s = Some st"
    using assms by (cases "by_email ?e s") (auto simp: login_def)
  have ok: "login_refusal env now password st = None"
    using assms st by (cases "login_refusal env now password st") (auto simp: login_def split: if_splits)
  have ls: "login_session env cfg now sid csrf secret ctx st s = returns v s'"
    using assms st ok by (simp add: login_def)
  let ?i = "\<lparr>ci_staffId = st_id st, ci_sessionEpoch = st_sessionEpoch st, ci_ip = lc_ip ctx,
      ci_userAgent = lc_userAgent ctx, ci_mfaVerified = False\<rparr>"
  let ?r = "fresh_record (cf_session cfg) now sid csrf ?i"
  obtain ks where cs: "create_session (cf_session cfg) now sid csrf ?i (co_sessions s) = returns ?r ks"
    and g: "redis_get now sid ks = Some ?r"
  proof (cases rule: persist_cases [of "cf_session cfg" now ?r "co_sessions s"])
    case (refused e)
    then show ?thesis using ls by (simp add: login_session_def Let_def create_session_def)
  next
    case (stored expires)
    have "se_sessionId ?r = sid" by (simp add: fresh_record_def)
    with stored that show ?thesis
      by (simp add: create_session_def Let_def redis_get_def)
  qed
  have v: "lr_session v = ?r" "co_sessions s' = ks" "lr_enrolment v = None \<longleftrightarrow> st_totpEnabled st"
    using ls cs by (auto simp: login_session_def Let_def enrol_def split: if_splits)
  have c: "st_failedLoginCount x = 0 \<and> st_lockedUntil x = None" if "by_email ?e s' = Some x" for x
  proof -
    let ?f = "\<lambda>x. x\<lparr>st_failedLoginCount := 0, st_lockedUntil := None\<rparr>"
    have si: "st_email st = ?e" using find_row_SomeD [OF st] by simp
    have a: "by_email ?e (update_staff (st_id st) ?f s) = Some (?f st)"
      using st by (simp add: find_row_update_where)
    have b: "by_email ?e (update_staff (st_id st) (\<lambda>x. x\<lparr>st_totpSecret := sec\<rparr>) (update_staff (st_id st) ?f s))
        = Some ((?f st)\<lparr>st_totpSecret := sec\<rparr>)" for sec
      using st by (simp add: find_row_update_where)
    show ?thesis
      using ls cs that a b by (auto simp: login_session_def Let_def enrol_def split: if_splits)
  qed
  have "se_staffId ?r = st_id st" "\<not> se_mfaVerified ?r" by (simp_all add: fresh_record_def)
  with st ok v g c show ?thesis
    by (auto simp: login_refusal_None)
qed

section \<open>Lockout\<close>

text \<open>A run of sign-in attempts for one email, each with its time and password.\<close>

fun attempts ::
  "auth_env \<Rightarrow> auth_cfg \<Rightarrow> string \<Rightarrow> string \<Rightarrow> string \<Rightarrow> string \<Rightarrow> login_context \<Rightarrow> (millis \<times> string) list \<Rightarrow> console_state \<Rightarrow> console_state" where
  "attempts env cfg sid csrf secret email ctx [] s = s"
| "attempts env cfg sid csrf secret email ctx ((t, pw) # ws) s =
     attempts env cfg sid csrf secret email ctx ws (snd (login env cfg t sid csrf secret email pw ctx s))"

lemma wrong_login:
  assumes "by_email (trim (toLowerCase email)) s = Some st" "st_status st = ACTIVE" "st_lockedUntil st = None"
    "\<not> cx_verify env pw (st_passwordHash st)"
  shows "by_email (trim (toLowerCase email)) (snd (login env cfg t sid csrf secret email pw ctx s)) = Some (failed_row cfg t st)"
  using assms by (simp add: login_def login_refusal_def find_row_update_where)

lemma attempts_lock:
  assumes "by_email (trim (toLowerCase email)) s = Some st" "st_status st = ACTIVE" "st_lockedUntil st = None"
    "st_failedLoginCount st < cf_maxFailedLogins cfg" "length ws = cf_maxFailedLogins cfg - st_failedLoginCount st"
    "\<forall>(t, pw) \<in> set ws. \<not> cx_verify env pw (st_passwordHash st)"
  shows "\<exists>st'. by_email (trim (toLowerCase email)) (attempts env cfg sid csrf secret email ctx ws s) = Some st'
    \<and> st_lockedUntil st' = Some (fst (last ws) + cf_lockoutMinutes cfg * minute_ms)"
  using assms
proof (induction ws arbitrary: s st)
  case (Cons w ws)
  obtain t pw where w: "w = (t, pw)" by fastforce
  let ?s1 = "snd (login env cfg t sid csrf secret email pw ctx s)"
  have s1: "by_email (trim (toLowerCase email)) ?s1 = Some (failed_row cfg t st)"
    using Cons.prems w by (intro wrong_login) auto
  show ?case
  proof (cases ws)
    case Nil
    with Cons.prems s1 w show ?thesis by (auto simp: failed_row_def Let_def)
  next
    case (Cons w' ws')
    then have "Suc (st_failedLoginCount st) < cf_maxFailedLogins cfg"
      using Cons.prems(5) by simp
    then have f: "failed_row cfg t st = st\<lparr>st_failedLoginCount := Suc (st_failedLoginCount st)\<rparr>"
      by (simp add: failed_row_def Let_def)
    have "\<exists>st'. by_email (trim (toLowerCase email)) (attempts env cfg sid csrf secret email ctx ws ?s1) = Some st'
        \<and> st_lockedUntil st' = Some (fst (last ws) + cf_lockoutMinutes cfg * minute_ms)"
      using s1 Cons.prems f \<open>Suc (st_failedLoginCount st) < cf_maxFailedLogins cfg\<close>
      by (intro Cons.IH [of ?s1 "failed_row cfg t st"]) auto
    then show ?thesis using w Cons by simp
  qed
qed simp

text \<open>
  C26. As many wrong passwords as the limit allows lock the account: from the last of them until
  the lockout is over, no sign-in goes through, not even with the right password.
\<close>

theorem lockout_blocks_sign_in:
  assumes "by_email (trim (toLowerCase email)) s = Some st" "st_status st = ACTIVE" "st_lockedUntil st = None"
    "st_failedLoginCount st < cf_maxFailedLogins cfg" "length ws = cf_maxFailedLogins cfg - st_failedLoginCount st"
    "\<forall>(t, pw) \<in> set ws. \<not> cx_verify env pw (st_passwordHash st)"
    "now < fst (last ws) + cf_lockoutMinutes cfg * minute_ms"
  shows "fst (login env cfg now sid' csrf' secret' email password ctx'
      (attempts env cfg sid csrf secret email ctx ws s)) = Inl (Forbidden ''Account locked after repeated failed sign-ins'')"
proof -
  obtain st' where "by_email (trim (toLowerCase email)) (attempts env cfg sid csrf secret email ctx ws s) = Some st'"
    "st_lockedUntil st' = Some (fst (last ws) + cf_lockoutMinutes cfg * minute_ms)"
    using attempts_lock [OF assms(1-6)] by blast
  with assms(7) show ?thesis
    by (simp add: login_def login_refusal_def)
qed

text \<open>A run of second-factor codes on one pending session.\<close>

fun guesses :: "auth_env \<Rightarrow> auth_cfg \<Rightarrow> millis \<Rightarrow> string list \<Rightarrow> login_context \<Rightarrow> string list \<Rightarrow> console_state \<Rightarrow> console_state" where
  "guesses env cfg now ids ctx [] s = s"
| "guesses env cfg now ids ctx (c # cs) s = guesses env cfg now ids ctx cs (snd (verifyTotp env cfg now ids c ctx s))"

lemma wrong_guess:
  assumes "firstLive (cf_session cfg) now ids (co_sessions s) = (Some r, co_sessions s)" "\<not> se_mfaVerified r"
    "find_staff (se_staffId r) s = Some st" "st_totpSecret st = Some sec" "sec \<noteq> []"
    "\<not> cx_totp env (cx_decrypt env sec) (filter (\<lambda>c. \<not> is_space c) code)"
  shows "co_sessions (snd (verifyTotp env cfg now ids code ctx s)) = co_sessions s"
    "find_staff (se_staffId r) (snd (verifyTotp env cfg now ids code ctx s)) = Some (failed_row cfg now st)"
  using assms find_row_SomeD [OF assms(3)]
  by (simp_all add: verifyTotp_def Let_def find_row_update_where)

lemma wrong_guesses:
  assumes "firstLive (cf_session cfg) now ids (co_sessions s) = (Some r, co_sessions s)" "\<not> se_mfaVerified r"
    "find_staff (se_staffId r) s = Some st" "st_totpSecret st = Some sec" "sec \<noteq> []"
    "\<forall>c \<in> set cs. \<not> cx_totp env (cx_decrypt env sec) (filter (\<lambda>c. \<not> is_space c) c)"
  shows "co_sessions (guesses env cfg now ids ctx cs s) = co_sessions s
    \<and> find_staff (se_staffId r) (guesses env cfg now ids ctx cs s) = Some ((failed_row cfg now ^^ length cs) st)"
  using assms
proof (induction cs arbitrary: s st)
  case (Cons c cs)
  let ?s1 = "snd (verifyTotp env cfg now ids c ctx s)"
  have w: "co_sessions ?s1 = co_sessions s" "find_staff (se_staffId r) ?s1 = Some (failed_row cfg now st)"
    using wrong_guess [OF Cons.prems(1-5)] Cons.prems(6) by simp_all
  have "co_sessions (guesses env cfg now ids ctx cs ?s1) = co_sessions ?s1
    \<and> find_staff (se_staffId r) (guesses env cfg now ids ctx cs ?s1) = Some ((failed_row cfg now ^^ length cs) (failed_row cfg now st))"
    using w Cons.prems by (intro Cons.IH) auto
  then show ?case using w(1) by (simp add: funpow_swap1)
qed simp

lemma failed_rows_frame: "st_totpSecret ((failed_row cfg now ^^ n) st) = st_totpSecret st"
  "st_id ((failed_row cfg now ^^ n) st) = st_id st"
  by (induction n) auto

lemma failed_rows_lock:
  assumes "st_failedLoginCount st = 0" "0 < cf_maxFailedLogins cfg"
  shows "st_lockedUntil ((failed_row cfg now ^^ n) st) = Some (now + cf_lockoutMinutes cfg * minute_ms)
    \<or> n < cf_maxFailedLogins cfg \<and> st_failedLoginCount ((failed_row cfg now ^^ n) st) = n"
  using assms by (induction n) (auto simp: failed_row_def Let_def)

text \<open>
  The lockout does not cover the second factor.  On a pending session any number of wrong
  codes leaves the right code working: the account is locked for passwords by then (from the
  limit on), but \<open>verifyTotp\<close> never looks at the lock, so the codes can be tried as fast as they
  can be sent while the session lasts.
\<close>

theorem totp_guesses_unlimited:
  assumes "firstLive (cf_session cfg) now ids (co_sessions s) = (Some r, co_sessions s)" "\<not> se_mfaVerified r"
    "find_staff (se_staffId r) s = Some st" "st_totpSecret st = Some sec" "sec \<noteq> []"
    "\<forall>c \<in> set wrong. \<not> cx_totp env (cx_decrypt env sec) (filter (\<lambda>c. \<not> is_space c) c)"
    "cx_totp env (cx_decrypt env sec) (filter (\<lambda>c. \<not> is_space c) code)"
    "now < se_absoluteExpiresAt r" "0 < sc_idleTimeoutSeconds (cf_session cfg)"
  shows "fst (verifyTotp env cfg now ids code ctx (guesses env cfg now ids ctx wrong s)) = Inr (r\<lparr>se_mfaVerified := True\<rparr>)
    \<and> (st_failedLoginCount st = 0 \<longrightarrow> 0 < cf_maxFailedLogins cfg \<longrightarrow> cf_maxFailedLogins cfg \<le> length wrong \<longrightarrow>
        (\<exists>x. find_staff (se_staffId r) (guesses env cfg now ids ctx wrong s) = Some x
           \<and> st_lockedUntil x = Some (now + cf_lockoutMinutes cfg * minute_ms)))"
proof -
  let ?s = "guesses env cfg now ids ctx wrong s"
  note w = wrong_guesses [OF assms(1-6), of ctx]
  have sec: "st_totpSecret ((failed_row cfg now ^^ length wrong) st) = Some sec"
    using assms(4) by (simp add: failed_rows_frame)
  have u: "\<exists>ks. update_session (cf_session cfg) now (r\<lparr>se_mfaVerified := True\<rparr>) (co_sessions s) = returns () ks"
    using assms(8,9) by (simp add: update_session_def persist_def idleMs_def Let_def)
  have "fst (verifyTotp env cfg now ids code ctx ?s) = Inr (r\<lparr>se_mfaVerified := True\<rparr>)"
    using w sec u assms(1,2,5,7) by (auto simp: verifyTotp_def Let_def)
  moreover have "\<exists>x. find_staff (se_staffId r) ?s = Some x \<and> st_lockedUntil x = Some (now + cf_lockoutMinutes cfg * minute_ms)"
    if "st_failedLoginCount st = 0" "0 < cf_maxFailedLogins cfg" "cf_maxFailedLogins cfg \<le> length wrong"
    using w failed_rows_lock [OF that(1,2), where now = now and n = "length wrong"] that(3) by auto
  ultimately show ?thesis by blast
qed

section \<open>Passwords and invitations\<close>

text \<open>
  A password change needs the current password and a strong new one, stores only its hash,
  moves the account to the next epoch and ends every session the account has, the one that
  asked for the change included.
\<close>

theorem change_password_ends_sessions:
  assumes "changePassword env p now current next_pw s = returns u s'" "store_ok scfg (co_sessions s)"
  shows "\<exists>st. find_staff (sp_id p) s = Some st \<and> cx_verify env current (st_passwordHash st) \<and> validateStrength next_pw = []
    \<and> find_staff (sp_id p) s' = Some (st\<lparr>st_passwordHash := cx_hash env next_pw, st_sessionEpoch := Suc (st_sessionEpoch st)\<rparr>)
    \<and> (\<forall>i. \<not> holds_session (co_sessions s') i (sp_id p))
    \<and> (\<forall>i other. other \<noteq> sp_id p \<longrightarrow> holds_session (co_sessions s') i other = holds_session (co_sessions s) i other)"
proof -
  obtain st where st: "find_staff (sp_id p) s = Some st" "cx_verify env current (st_passwordHash st)" "validateStrength next_pw = []"
    using assms(1) by (auto simp: changePassword_def split: option.splits if_splits)
  have s': "co_sessions s' = snd (revokeAllForStaff now (sp_id p) (co_sessions s))"
    "find_staff (sp_id p) s' = Some (st\<lparr>st_passwordHash := cx_hash env next_pw, st_sessionEpoch := Suc (st_sessionEpoch st)\<rparr>)"
    using assms(1) st find_row_SomeD [OF st(1)] by (auto simp: changePassword_def Let_def find_row_update_where)
  show ?thesis
    using st s' sessions.revoked [OF assms(2)] by auto
qed

text \<open>
  An invitation works once: it must be neither used, revoked nor expired, it creates one
  active account with the invited role and no personal grants, and afterwards the same token is
  refused whatever the password.
\<close>

theorem invite_accepted_once:
  assumes "acceptInvite env now newId token password ctx s = returns v s'" "distinct (map iv_id (co_invites s))"
  shows "\<exists>iv. iv \<in> set (co_invites s) \<and> iv_tokenHash iv = cx_hashToken env token \<and> iv_revokedAt iv = None
    \<and> iv_acceptedAt iv = None \<and> now \<le> iv_expiresAt iv \<and> validateStrength password = []
    \<and> co_staff s' = co_staff s @ [accepted_staff env newId iv password]
    \<and> st_roleId (accepted_staff env newId iv password) = iv_roleId iv
    \<and> st_status (accepted_staff env newId iv password) = ACTIVE
    \<and> (\<forall>later newId' password' ctx'. \<exists>m. acceptInvite env later newId' token password' ctx' s' = throws (BadRequest m) s')"
proof -
  let ?h = "\<lambda>iv. iv_tokenHash iv = cx_hashToken env token"
  obtain iv where iv: "find_row ?h (co_invites s) = Some iv" "invite_problem now password (Some iv) = None"
    using assms(1) by (auto simp: acceptInvite_def Let_def split: option.splits)
  then have ok: "iv_revokedAt iv = None" "iv_acceptedAt iv = None" "now \<le> iv_expiresAt iv" "validateStrength password = []"
    by (auto simp: invite_problem_def split: if_splits)
  have new: "co_staff s' = co_staff s @ [accepted_staff env newId iv password]"
    "co_invites s' = update_where (\<lambda>x. iv_id x = iv_id iv) (\<lambda>x. x\<lparr>iv_acceptedAt := Some now\<rparr>) (co_invites s)"
    using assms(1) iv by (auto simp: acceptInvite_def Let_def split: if_splits)
  have "find_row ?h (co_invites s') = Some (iv\<lparr>iv_acceptedAt := Some now\<rparr>)"
    using iv(1) by (simp add: new(2) find_row_update_where)
  then have "\<exists>m. acceptInvite env later newId' token password' ctx' s' = throws (BadRequest m) s'"
    for later newId' password' ctx'
    by (auto simp: acceptInvite_def Let_def invite_problem_def)
  with find_row_SomeD [OF iv(1)] ok new(1) show ?thesis
    by (auto simp: accepted_staff_def)
qed

section \<open>Concrete runs\<close>

definition ex_env :: auth_env where
  "ex_env = \<lparr>cx_verify = (=), cx_hash = id, cx_totp = (=), cx_encrypt = id, cx_decrypt = id, cx_qrCode = (@),
     cx_hashToken = id, cx_geo = (\<lambda>_. (None, None))\<rparr>"

definition ex_auth_cfg :: auth_cfg where
  "ex_auth_cfg = \<lparr>cf_maxFailedLogins = 2, cf_lockoutMinutes = 15, cf_impersonationMinutes = 30, cf_inviteTtlHours = 72,
     cf_session = ex_cfg, cf_origin = ''http://console''\<rparr>"

definition ex_member :: staff_row where
  "ex_member = \<lparr>st_id = ''u1'', st_email = ''a@z'', st_name = ''A'', st_passwordHash = ''pw'', st_totpSecret = Some ''123456'',
     st_totpEnabled = True, st_status = ACTIVE, st_roleId = ''r1'', st_extraPermissions = [],
     st_failedLoginCount = 0, st_lockedUntil = None, st_lastLoginAt = None, st_lastLoginIp = None,
     st_sessionEpoch = 0, st_emailPrefs = []\<rparr>"

definition ex_ctx :: login_context where
  "ex_ctx = \<lparr>lc_ip = None, lc_userAgent = None\<rparr>"

definition ex_console :: console_state where
  "ex_console = \<lparr>co_staff = [ex_member], co_roles = [], co_invites = [\<lparr>iv_id = ''i'', iv_email = ''B@z'', iv_name = ''B'',
     iv_roleId = ''r1'', iv_tokenHash = ''t'', iv_invitedById = ''u1'', iv_expiresAt = 100, iv_acceptedAt = None, iv_revokedAt = None\<rparr>],
     co_sessions = ex_store, co_attempts = [], co_staffSessions = [], co_signIns = [], co_impersonations = [],
     co_audit = [], co_mails = []\<rparr>"

lemma ex_email: "trim (toLowerCase ''A@z'') = ''a@z''"
  by code_simp

lemma ex_by_email: "by_email (trim (toLowerCase ''A@z'')) ex_console = Some ex_member"
  by (simp add: ex_email ex_console_def ex_member_def)

lemma login_success_witness:
  "\<exists>v s'. login ex_env ex_auth_cfg 0 ''n'' ''c'' ''x'' ''A@z'' ''pw'' ex_ctx ex_console = returns v s'
    \<and> \<not> se_mfaVerified (lr_session v)"
proof -
  have "login_refusal ex_env 0 ''pw'' ex_member = None"
    by (simp add: login_refusal_None ex_member_def ex_env_def)
  then have "\<exists>v s'. login ex_env ex_auth_cfg 0 ''n'' ''c'' ''x'' ''A@z'' ''pw'' ex_ctx ex_console = returns v s'"
    by (simp add: login_def ex_by_email login_session_def Let_def create_session_def persist_def fresh_record_def
        ex_auth_cfg_def ex_cfg_def idleMs_def enrol_def ex_member_def PENDING_MIN_MS_def)
  then obtain v s' where l: "login ex_env ex_auth_cfg 0 ''n'' ''c'' ''x'' ''A@z'' ''pw'' ex_ctx ex_console = returns v s'"
    by blast
  from login_success [OF l] l show ?thesis by blast
qed

lemma lockout_blocks_sign_in_witness:
  "fst (login ex_env ex_auth_cfg 1000 ''n'' ''c'' ''x'' ''A@z'' ''pw'' ex_ctx
     (attempts ex_env ex_auth_cfg ''n'' ''c'' ''x'' ''A@z'' ex_ctx [(0, ''wrong''), (10, ''worse'')] ex_console))
   = Inl (Forbidden ''Account locked after repeated failed sign-ins'')"
  by (rule lockout_blocks_sign_in [OF ex_by_email]) (simp_all add: ex_member_def ex_auth_cfg_def ex_env_def minute_ms_def)

lemma ex_code: "filter (\<lambda>c. \<not> is_space c) ''123456'' = ''123456''" "filter (\<lambda>c. \<not> is_space c) ''000000'' = ''000000''"
  by (simp_all add: is_space_def)

lemma totp_guesses_unlimited_witness:
  "fst (verifyTotp ex_env ex_auth_cfg 1000 [''sid''] ''123456'' ex_ctx
     (guesses ex_env ex_auth_cfg 1000 [''sid''] ex_ctx [''000000'', ''000000'', ''000000''] ex_console))
   = Inr ((fresh_record ex_cfg 0 ''sid'' ''csrf'' ex_input)\<lparr>se_mfaVerified := True\<rparr>)"
proof -
  let ?r = "fresh_record ex_cfg 0 ''sid'' ''csrf'' ex_input"
  have "firstLive (cf_session ex_auth_cfg) 1000 [''sid''] (co_sessions ex_console) = (Some ?r, co_sessions ex_console)"
    using ex_store_get by (simp add: ex_auth_cfg_def ex_console_def)
  moreover have "\<not> se_mfaVerified ?r" by (simp add: fresh_record_def ex_input_def)
  moreover have "find_staff (se_staffId ?r) ex_console = Some ex_member"
    by (simp add: fresh_record_def ex_input_def ex_console_def ex_member_def)
  moreover have "st_totpSecret ex_member = Some ''123456''" by (simp add: ex_member_def)
  moreover have "(''123456'' :: string) \<noteq> []" by simp
  moreover have "\<forall>c \<in> set [''000000'', ''000000'', ''000000'']. \<not> cx_totp ex_env (cx_decrypt ex_env ''123456'') (filter (\<lambda>c. \<not> is_space c) c)"
    using ex_code(2) by (simp add: ex_env_def del: filter.simps)
  moreover have "cx_totp ex_env (cx_decrypt ex_env ''123456'') (filter (\<lambda>c. \<not> is_space c) ''123456'')"
    using ex_code(1) by (simp add: ex_env_def del: filter.simps)
  moreover have "1000 < se_absoluteExpiresAt ?r" "0 < sc_idleTimeoutSeconds (cf_session ex_auth_cfg)"
    by (simp_all add: fresh_record_def ex_cfg_def ex_auth_cfg_def)
  ultimately show ?thesis
    using totp_guesses_unlimited by blast
qed

definition ex_member_principal :: principal where
  "ex_member_principal = \<lparr>sp_id = ''u1'', sp_email = ''a@z'', sp_name = ''A'', sp_roleId = ''r1'', sp_roleKey = ''finance'',
     sp_permissions = [], sp_sessionId = ''sid'', sp_sessionEpoch = 0, sp_ip = None, sp_userAgent = None, sp_impersonating = None\<rparr>"

lemma ex_strong: "validateStrength ''Str0ng-enough!'' = []"
  by code_simp

lemma change_password_ends_sessions_witness:
  "\<exists>s'. changePassword ex_env ex_member_principal 1000 ''pw'' ''Str0ng-enough!'' ex_console = returns () s'
    \<and> \<not> holds_session (co_sessions s') ''sid'' ''u1''"
proof -
  have f: "find_staff (sp_id ex_member_principal) ex_console = Some ex_member"
    by (simp add: ex_member_principal_def ex_console_def ex_member_def)
  then obtain s' where c: "changePassword ex_env ex_member_principal 1000 ''pw'' ''Str0ng-enough!'' ex_console = returns () s'"
    by (simp add: changePassword_def ex_strong ex_env_def ex_member_def Let_def)
  have "store_ok ex_cfg (co_sessions ex_console)"
    using sessions_reachable_ok [OF ex_store_reachable] by (simp add: ex_console_def)
  from change_password_ends_sessions [OF c this] c show ?thesis
    by (auto simp: ex_member_principal_def)
qed

lemma invite_accepted_once_witness:
  "\<exists>v s' m. acceptInvite ex_env 50 ''n'' ''t'' ''Str0ng-enough!'' ex_ctx ex_console = returns v s'
    \<and> acceptInvite ex_env 60 ''n2'' ''t'' ''Str0ng-enough!'' ex_ctx s' = throws (BadRequest m) s'"
proof -
  have "toLowerCase ''B@z'' = ''b@z''" by code_simp
  then have "\<exists>v s'. acceptInvite ex_env 50 ''n'' ''t'' ''Str0ng-enough!'' ex_ctx ex_console = returns v s'"
    by (simp add: acceptInvite_def ex_console_def ex_env_def invite_problem_def ex_strong Let_def accepted_staff_def ex_member_def)
  then obtain v s' where a: "acceptInvite ex_env 50 ''n'' ''t'' ''Str0ng-enough!'' ex_ctx ex_console = returns v s'"
    by blast
  have "distinct (map iv_id (co_invites ex_console))" by (simp add: ex_console_def)
  from invite_accepted_once [OF a this] a show ?thesis by blast
qed

end
