(* ===== verification/Staff_Admin.thy ===== *)
theory Staff_Admin
  imports Auth Pagination Js_Number
begin

text \<open>
  \<open>common/auth/permissions.ts\<close>, \<open>modules/staff/staff.service.ts\<close> and
  \<open>super-admin-sync.service.ts\<close>: the permission catalogue, invitations, changes to staff and
  roles with the sessions they end, the staff list, and the top-up of the super admin role at
  start-up.
\<close>

section \<open>Permissions\<close>

definition PERMISSIONS :: "(string \<times> string list) list" where
  "PERMISSIONS =
    [(''metrics'', [''metrics.read'']),
     (''customers'', [''customers.read'', ''customers.manage'', ''customers.suspend'', ''customers.notes'', ''customers.impersonate'']),
     (''credits'', [''credits.adjust'', ''credits.approve'']),
     (''pii'', [''pii.reveal'']),
     (''plans'', [''plans.manage'', ''pricing.manage'']),
     (''finance'', [''finance.read'', ''finance.export'']),
     (''geo'', [''geo.view'']),
     (''availability'', [''availability.manage'']),
     (''senderid'', [''senderid.review'', ''senderid.documents.download'']),
     (''templates'', [''templates.review'']),
     (''messages'', [''messages.read'']),
     (''notifications'', [''notifications.send'', ''notifications.broadcast'', ''notifications.segments'']),
     (''staff'', [''staff.manage'']),
     (''audit'', [''audit.read''])]"

definition ALL_PERMISSIONS :: "string list" where
  "ALL_PERMISSIONS = concat (map snd PERMISSIONS)"

definition SYSTEM_ROLES :: "(string \<times> string list) list" where
  "SYSTEM_ROLES =
    [(''super_admin'', ALL_PERMISSIONS),
     (''finance'', [''metrics.read'', ''customers.read'', ''finance.read'', ''finance.export'', ''credits.adjust'',
        ''credits.approve'', ''plans.manage'', ''pricing.manage'', ''pii.reveal'', ''audit.read'']),
     (''support'', [''metrics.read'', ''customers.read'', ''customers.manage'', ''customers.notes'', ''customers.impersonate'',
        ''credits.adjust'', ''pii.reveal'', ''notifications.send'']),
     (''compliance'', [''metrics.read'', ''customers.read'', ''customers.notes'', ''customers.suspend'', ''senderid.review'',
        ''senderid.documents.download'', ''templates.review'', ''messages.read'', ''pii.reveal'', ''audit.read'']),
     (''ops'', [''metrics.read'', ''customers.read'', ''geo.view'', ''finance.read'']),
     (''growth'', [''metrics.read'', ''notifications.send'', ''notifications.broadcast'', ''notifications.segments'']),
     (''read_only'', [''metrics.read'', ''finance.read''])]"

section \<open>Staff list\<close>

record list_staff_query =
  ls_q :: "string option"
  ls_status :: "staff_status option"
  ls_roleKey :: "string option"

definition role_key :: "role_row list \<Rightarrow> staff_row \<Rightarrow> string option" where
  "role_key roles st = map_option ro_key (find_row (\<lambda>ro. ro_id ro = st_roleId st) roles)"

text \<open>
  The where clause is one object: the cursor's OR and the search's OR are the same key, and the
  later spread wins.  \<open>key\<close> gives a row's createdAt and id.
\<close>

definition staff_where :: "(staff_row \<Rightarrow> cursor_key) \<Rightarrow> role_row list \<Rightarrow> list_staff_query \<Rightarrow> cursor_key option \<Rightarrow> staff_row \<Rightarrow> bool" where
  "staff_where key roles query cursor st \<longleftrightarrow>
     (if truthy (ls_q query)
      then (let q = toLowerCase (case ls_q query of None \<Rightarrow> [] | Some q \<Rightarrow> q)
        in contains_str (toLowerCase (st_email st)) q \<or> contains_str (toLowerCase (st_name st)) q)
      else cursorWhere cursor (key st))
     \<and> (case ls_status query of None \<Rightarrow> True | Some x \<Rightarrow> st_status st = x)
     \<and> (truthy (ls_roleKey query) \<longrightarrow> role_key roles st = ls_roleKey query)"

definition staff_list ::
  "(staff_row \<Rightarrow> cursor_key) \<Rightarrow> role_row list \<Rightarrow> list_staff_query \<Rightarrow> cursor_key option \<Rightarrow> nat \<Rightarrow> staff_row list
   \<Rightarrow> (staff_row, cursor_key) page" where
  "staff_list key roles query cursor limit rows =
     buildPage key (take (limit + 1) (filter (staff_where key roles query cursor) (newest_first key rows))) limit"

section \<open>Invitations\<close>

definition newline :: string where
  "newline = [CHR 0x0A]"

definition quote_mark :: string where
  "quote_mark = [CHR 0x22]"

definition invite_mail :: "auth_cfg \<Rightarrow> string \<Rightarrow> principal \<Rightarrow> string \<Rightarrow> string \<Rightarrow> role_row \<Rightarrow> outbound_mail" where
  "invite_mail cfg token actor email invitee role =
     \<lparr>ml_to = email, ml_subject = ''Your Zapiack Admin Console invitation'',
      ml_html = ''<p>Hello '' @ escapeHtml invitee @ '',</p>'' @ newline
        @ ''<p>'' @ escapeHtml (sp_name actor) @ '' has invited you to the Zapiack Admin Console as <strong>''
        @ escapeHtml (ro_name role) @ ''</strong>.</p>'' @ newline
        @ ''<p><a href='' @ quote_mark @ cf_origin cfg @ ''/invite?token='' @ token @ quote_mark
        @ ''>Set your password and enrol two-factor authentication</a></p>'' @ newline
        @ ''<p>This invitation expires in '' @ dec (nat (cf_inviteTtlHours cfg)) @ '' hours.</p>''\<rparr>"

definition invite_staff ::
  "auth_env \<Rightarrow> auth_cfg \<Rightarrow> principal \<Rightarrow> millis \<Rightarrow> string \<Rightarrow> string \<Rightarrow> string \<Rightarrow> string \<Rightarrow> string \<Rightarrow> console_state
   \<Rightarrow> (console_state, string) outcome" where
  "invite_staff env cfg actor now newId token dtoEmail dtoName dtoRoleId s =
     (let email = trim (toLowerCase dtoEmail) in
      if find_row (\<lambda>st. st_email st = email) (co_staff s) \<noteq> None
      then throws (Conflict ''A staff account with that email already exists'') s
      else (case find_row (\<lambda>ro. ro_id ro = dtoRoleId) (co_roles s) of
          None \<Rightarrow> throws (NotFound ''Role not found'') s
        | Some role \<Rightarrow>
            (let expiresAt = now + cf_inviteTtlHours cfg * 60 * minute_ms;
                 s1 = s\<lparr>co_invites := co_invites s @ [\<lparr>iv_id = newId, iv_email = email, iv_name = dtoName,
                        iv_roleId = ro_id role, iv_tokenHash = cx_hashToken env token, iv_invitedById = sp_id actor,
                        iv_expiresAt = expiresAt, iv_acceptedAt = None, iv_revokedAt = None\<rparr>],
                        co_mails := co_mails s @ [invite_mail cfg token actor email dtoName role]\<rparr>
             in returns newId (add_audit (staff_entry actor ''staff.invited'' ''staff_invite'' newId None JNull
                  (JObj [(''email'', JStr email), (''roleKey'', JStr (ro_key role)), (''expiresAt'', JInt expiresAt)]) JNull) s1))))"

definition revokeInvite :: "principal \<Rightarrow> millis \<Rightarrow> string \<Rightarrow> console_state \<Rightarrow> (console_state, unit) outcome" where
  "revokeInvite actor now inviteId s =
     (if find_row (\<lambda>x. iv_id x = inviteId) (co_invites s) = None then throws RecordNotFound s
      else returns () (add_audit (staff_entry actor ''staff.invite_revoked'' ''staff_invite'' inviteId None JNull JNull JNull)
        (s\<lparr>co_invites := update_where (\<lambda>x. iv_id x = inviteId) (\<lambda>x. x\<lparr>iv_revokedAt := Some now\<rparr>) (co_invites s)\<rparr>)))"

section \<open>Changing a staff member\<close>

record update_staff_dto =
  ud_name :: "string option"
  ud_roleId :: "string option"
  ud_status :: "staff_status option"
  ud_extraPermissions :: "string list option"
  ud_emailPrefs :: "string list option"
  ud_resetTotp :: bool
  ud_reason :: string

definition given :: "'a option \<Rightarrow> 'a \<Rightarrow> 'a" where
  "given x old = (case x of None \<Rightarrow> old | Some y \<Rightarrow> y)"

definition access_changed :: "staff_row \<Rightarrow> update_staff_dto \<Rightarrow> bool" where
  "access_changed before dto \<longleftrightarrow>
     (truthy (ud_roleId dto) \<and> ud_roleId dto \<noteq> Some (st_roleId before))
     \<or> ud_extraPermissions dto \<noteq> None \<or> ud_status dto \<noteq> None"

definition updated_row :: "staff_row \<Rightarrow> update_staff_dto \<Rightarrow> staff_row \<Rightarrow> staff_row" where
  "updated_row before dto st =
     (let st1 = st\<lparr>st_name := given (ud_name dto) (st_name st), st_roleId := given (ud_roleId dto) (st_roleId st),
            st_status := given (ud_status dto) (st_status st),
            st_extraPermissions := given (ud_extraPermissions dto) (st_extraPermissions st),
            st_emailPrefs := given (ud_emailPrefs dto) (st_emailPrefs st)\<rparr>;
          st2 = (if ud_resetTotp dto then st1\<lparr>st_totpSecret := None, st_totpEnabled := False\<rparr> else st1)
      in if access_changed before dto then st2\<lparr>st_sessionEpoch := Suc (st_sessionEpoch st2)\<rparr> else st2)"

definition access_json :: "role_row list \<Rightarrow> staff_row \<Rightarrow> json" where
  "access_json roles st = JObj [(''roleKey'', jstr_opt (role_key roles st)),
     (''status'', JStr (staff_status_name (st_status st))), (''extraPermissions'', jstrs (st_extraPermissions st))]"

text \<open>
  \<open>update\<close>.  The new role must exist (a foreign key of the table); a role id that does not is the
  database's error.
\<close>

definition update_member ::
  "principal \<Rightarrow> millis \<Rightarrow> string \<Rightarrow> update_staff_dto \<Rightarrow> console_state \<Rightarrow> (console_state, staff_row) outcome" where
  "update_member actor now staffId dto s =
     (case find_staff staffId s of
        None \<Rightarrow> throws (NotFound ''Staff member not found'') s
      | Some before \<Rightarrow>
         (let remaining = count_where (\<lambda>st. role_key (co_roles s) st = Some ''super_admin'' \<and> st_status st = ACTIVE
                \<and> st_id st \<noteq> staffId) (co_staff s)
          in if role_key (co_roles s) before = Some ''super_admin'' \<and> (truthy (ud_roleId dto) \<or> ud_status dto \<noteq> None)
                \<and> remaining = 0
             then throws (BadRequest ''At least one active super admin must remain'') s
             else if (case ud_roleId dto of None \<Rightarrow> False | Some r \<Rightarrow> find_row (\<lambda>ro. ro_id ro = r) (co_roles s) = None)
             then throws (PlainError ''Foreign key constraint violated'') s
             else (let s1 = update_staff staffId (updated_row before dto) s;
                       s2 = (if access_changed before dto
                         then s1\<lparr>co_sessions := snd (revokeAllForStaff now staffId (co_sessions s1))\<rparr> else s1);
                       after = updated_row before dto before
               in returns after (add_audit (staff_entry actor ''staff.updated'' ''staff'' staffId (Some (ud_reason dto))
                    (access_json (co_roles s) before) (access_json (co_roles s) after) JNull) s2))))"

section \<open>Roles\<close>

record upsert_role_dto =
  ur_key :: string
  ur_name :: string
  ur_description :: "string option"
  ur_permissions :: "string list"
  ur_ipAllowlist :: "string list option"

definition arraysEqual :: "string list \<Rightarrow> string list \<Rightarrow> bool" where
  "arraysEqual a b \<longleftrightarrow> length a = length b \<and> sort a = sort b"

definition role_json :: "role_row \<Rightarrow> json" where
  "role_json ro = JObj [(''permissions'', jstrs (ro_permissions ro)), (''ipAllowlist'', jstrs (ro_ipAllowlist ro))]"

definition edited_role :: "upsert_role_dto \<Rightarrow> role_row \<Rightarrow> role_row" where
  "edited_role dto ro = ro\<lparr>ro_name := ur_name dto, ro_description := given (map_option Some (ur_description dto)) (ro_description ro),
     ro_permissions := ur_permissions dto, ro_ipAllowlist := given (ur_ipAllowlist dto) []\<rparr>"

definition created_role :: "string \<Rightarrow> upsert_role_dto \<Rightarrow> role_row" where
  "created_role newId dto = \<lparr>ro_id = newId, ro_key = ur_key dto, ro_name = ur_name dto, ro_description = ur_description dto,
     ro_permissions = ur_permissions dto, ro_ipAllowlist = given (ur_ipAllowlist dto) [], ro_isSystem = False\<rparr>"

definition sign_out_holders :: "millis \<Rightarrow> string \<Rightarrow> console_state \<Rightarrow> console_state" where
  "sign_out_holders now roleId s =
     (let holders = map st_id (filter (\<lambda>st. st_roleId st = roleId) (co_staff s))
      in s\<lparr>co_staff := update_where (\<lambda>st. st_roleId st = roleId) (\<lambda>st. st\<lparr>st_sessionEpoch := Suc (st_sessionEpoch st)\<rparr>) (co_staff s),
           co_sessions := fold (\<lambda>st ks. snd (revokeAllForStaff now st ks)) holders (co_sessions s)\<rparr>)"

definition upsertRole ::
  "principal \<Rightarrow> millis \<Rightarrow> string \<Rightarrow> upsert_role_dto \<Rightarrow> console_state \<Rightarrow> (console_state, role_row) outcome" where
  "upsertRole actor now newId dto s =
     (case find_row (\<lambda>ro. ro_key ro = ur_key dto) (co_roles s) of
        None \<Rightarrow>
          (let role = created_role newId dto
           in returns role (add_audit (staff_entry actor ''roles.created'' ''role'' newId None JNull (role_json role) JNull)
                (s\<lparr>co_roles := co_roles s @ [role]\<rparr>)))
      | Some before \<Rightarrow>
          if ro_isSystem before \<and> \<not> arraysEqual (ro_permissions before) (ur_permissions dto)
          then throws (BadRequest (ur_key dto @ '' is a system role. Create a new role instead of editing its permissions.'')) s
          else (let s1 = s\<lparr>co_roles := update_where (\<lambda>ro. ro_key ro = ur_key dto) (edited_role dto) (co_roles s)\<rparr>;
                    s2 = sign_out_holders now (ro_id before) s1
            in returns (edited_role dto before) (add_audit (staff_entry actor ''roles.updated'' ''role'' (ro_id before) None
                 (role_json before) (role_json (edited_role dto before)) JNull) s2)))"

section \<open>The super admin role at start-up\<close>

definition super_admin_sync :: "role_row list \<Rightarrow> role_row list" where
  "super_admin_sync roles =
     (case find_row (\<lambda>ro. ro_key ro = ''super_admin'') roles of
        None \<Rightarrow> roles
      | Some role \<Rightarrow>
         (let missing = filter (\<lambda>q. \<not> js_includes (ro_permissions role) q) ALL_PERMISSIONS
          in if missing = [] then roles
             else update_where (\<lambda>ro. ro_id ro = ro_id role)
               (\<lambda>ro. ro\<lparr>ro_permissions := ro_permissions role @ missing\<rparr>) roles))"

end
