(* ===== verification/Staff_Facts.thy ===== *)
theory Staff_Facts
  imports Staff_Admin "HOL-Library.Multiset"
begin

text \<open>
  What changes to staff and roles guarantee: the console always keeps an active super admin,
  and a change of access leaves no session that was minted before it.
\<close>

section \<open>Access changes end sessions\<close>

lemma updated_row_frame [simp]:
  "st_id (updated_row b dto st) = st_id st"
  "st_roleId (updated_row b dto st) = given (ud_roleId dto) (st_roleId st)"
  "st_status (updated_row b dto st) = given (ud_status dto) (st_status st)"
  "st_extraPermissions (updated_row b dto st) = given (ud_extraPermissions dto) (st_extraPermissions st)"
  "st_sessionEpoch (updated_row b dto st) = (if access_changed b dto then Suc (st_sessionEpoch st) else st_sessionEpoch st)"
  by (simp_all add: updated_row_def Let_def)

lemma update_member_success:
  assumes "update_member actor now i dto s = returns st' s'"
  obtains before where "find_staff i s = Some before"
    "role_key (co_roles s) before = Some ''super_admin'' \<and> (truthy (ud_roleId dto) \<or> ud_status dto \<noteq> None)
       \<longrightarrow> 0 < count_where (\<lambda>st. role_key (co_roles s) st = Some ''super_admin'' \<and> st_status st = ACTIVE \<and> st_id st \<noteq> i) (co_staff s)"
    "\<forall>r. ud_roleId dto = Some r \<longrightarrow> find_row (\<lambda>ro. ro_id ro = r) (co_roles s) \<noteq> None"
    "co_staff s' = update_where (\<lambda>st. st_id st = i) (updated_row before dto) (co_staff s)" "co_roles s' = co_roles s"
    "co_sessions s' = (if access_changed before dto then snd (revokeAllForStaff now i (co_sessions s)) else co_sessions s)"
    "st' = updated_row before dto before"
  using assms by (auto simp: update_member_def Let_def split: option.splits if_splits)

text \<open>
  C28. When an update changes what a staff member may do (their role, their personal grants or
  their status), they move to the next session epoch and none of their sessions is left; nobody
  else's sessions are touched.  An update that changes none of these keeps both.
\<close>

theorem access_change_ends_sessions:
  assumes "update_member actor now i dto s = returns st' s'" "store_ok cfg (co_sessions s)" "find_staff i s = Some before"
  shows "find_staff i s' = Some st'
    \<and> (if (truthy (ud_roleId dto) \<and> ud_roleId dto \<noteq> Some (st_roleId before)) \<or> ud_extraPermissions dto \<noteq> None \<or> ud_status dto \<noteq> None
       then st_sessionEpoch st' = Suc (st_sessionEpoch before)
         \<and> (\<forall>k. \<not> holds_session (co_sessions s') k i)
         \<and> (\<forall>k other. other \<noteq> i \<longrightarrow> holds_session (co_sessions s') k other = holds_session (co_sessions s) k other)
       else st_sessionEpoch st' = st_sessionEpoch before \<and> co_sessions s' = co_sessions s
         \<and> st_status st' = st_status before \<and> st_extraPermissions st' = st_extraPermissions before)"
proof -
  from assms(3) update_member_success [OF assms(1)]
  have s': "co_staff s' = update_where (\<lambda>st. st_id st = i) (updated_row before dto) (co_staff s)"
    "co_sessions s' = (if access_changed before dto then snd (revokeAllForStaff now i (co_sessions s)) else co_sessions s)"
    "st' = updated_row before dto before"
    by (metis option.inject)+
  have f: "find_staff i s' = Some st'"
    using assms(3) find_row_SomeD [OF assms(3)] by (simp add: s'(1,3) find_row_update_where)
  show ?thesis
  proof (cases "access_changed before dto")
    case True
    with f s' sessions.revoked [OF assms(2)] show ?thesis
      by (auto simp: access_changed_def)
  next
    case False
    with f s' show ?thesis by (auto simp: access_changed_def given_def)
  qed
qed

text \<open>
  Editing a role signs out everybody who holds it and moves them to the next epoch, so
  nobody works on with what the role allowed before; other sessions go on.  A system role's
  permissions are never changed this way.
\<close>

theorem role_edit_signs_out_holders:
  assumes "upsertRole actor now newId dto s = returns role s'" "store_ok cfg (co_sessions s)"
    "find_row (\<lambda>ro. ro_key ro = ur_key dto) (co_roles s) = Some before"
  shows "(\<forall>st \<in> set (co_staff s). st_roleId st = ro_id before \<longrightarrow>
        (\<forall>k. \<not> holds_session (co_sessions s') k (st_id st))
        \<and> st\<lparr>st_sessionEpoch := Suc (st_sessionEpoch st)\<rparr> \<in> set (co_staff s'))
    \<and> (\<forall>k other. (\<forall>st \<in> set (co_staff s). st_roleId st = ro_id before \<longrightarrow> st_id st \<noteq> other) \<longrightarrow>
        holds_session (co_sessions s') k other = holds_session (co_sessions s) k other)
    \<and> (ro_isSystem before \<longrightarrow> mset (ro_permissions role) = mset (ro_permissions before))"
proof -
  have eq: "co_sessions s' = fold (\<lambda>st ks. snd (revokeAllForStaff now st ks))
      (map st_id (filter (\<lambda>st. st_roleId st = ro_id before) (co_staff s))) (co_sessions s)"
    "co_staff s' = update_where (\<lambda>st. st_roleId st = ro_id before) (\<lambda>st. st\<lparr>st_sessionEpoch := Suc (st_sessionEpoch st)\<rparr>) (co_staff s)"
    "role = edited_role dto before" "ro_isSystem before \<Longrightarrow> arraysEqual (ro_permissions before) (ur_permissions dto)"
    using assms(1,3) by (auto simp: upsertRole_def sign_out_holders_def Let_def split: if_splits)
  have h: "holds_session (co_sessions s') k st \<longleftrightarrow> holds_session (co_sessions s) k st
      \<and> st \<notin> st_id ` {x \<in> set (co_staff s). st_roleId x = ro_id before}" for k st
    using sessions.fold_revoked [OF assms(2), of now "map st_id (filter (\<lambda>st. st_roleId st = ro_id before) (co_staff s))" k st]
    by (simp add: eq(1))
  have "st\<lparr>st_sessionEpoch := Suc (st_sessionEpoch st)\<rparr> \<in> set (co_staff s')"
    if "st \<in> set (co_staff s)" "st_roleId st = ro_id before" for st
    using that by (force simp: eq(2) set_update_where)
  moreover have "mset (ro_permissions role) = mset (ro_permissions before)" if "ro_isSystem before"
  proof -
    have "sort (ro_permissions before) = sort (ur_permissions dto)"
      using eq(4) [OF that] by (simp add: arraysEqual_def)
    then have "mset (ro_permissions before) = mset (ur_permissions dto)" by (metis mset_sort)
    then show ?thesis by (simp add: eq(3) edited_role_def)
  qed
  ultimately show ?thesis using h by blast
qed

section \<open>The last super admin\<close>

definition has_super_admin :: "console_state \<Rightarrow> bool" where
  "has_super_admin s \<longleftrightarrow> (\<exists>st \<in> set (co_staff s). st_status st = ACTIVE \<and> role_key (co_roles s) st = Some ''super_admin'')"

text \<open>What sign-ins, sign-outs, password changes and invitations leave of a staff row.\<close>

definition standing :: "console_state \<Rightarrow> (string \<times> staff_status \<times> string) list" where
  "standing s = map (\<lambda>st. (st_id st, st_status st, st_roleId st)) (co_staff s)"

definition same_standing :: "console_state \<Rightarrow> console_state \<Rightarrow> bool" where
  "same_standing s s' \<longleftrightarrow> co_roles s' = co_roles s \<and> standing s' = standing s"

lemma standing_simps [simp]:
  "standing (add_audit en s) = standing s" "standing (recordAttempt e c b r s) = standing s"
  "standing (registerFailure cfg now i e c rs s) = standing s"
  "(\<And>st. st_id (f st) = st_id st \<and> st_status (f st) = st_status st \<and> st_roleId (f st) = st_roleId st) \<Longrightarrow>
     standing (update_staff i f s) = standing s"
  "standing (s\<lparr>co_sessions := ks\<rparr>) = standing s"
  by (simp_all add: standing_def map_update_where)

lemma roles_simps [simp]: "co_roles (registerFailure cfg now i e c r s) = co_roles s"
  by (simp add: registerFailure_def)

lemma login_standing: "same_standing s (snd (login env cfg now sid csrf secret email password ctx s))"
  by (auto simp: same_standing_def login_def login_session_def enrol_def Let_def split: option.split prod.split sum.split)

lemma totp_rows_standing: "standing (totp_rows env now ctx r st s) = standing s" "co_roles (totp_rows env now ctx r st s) = co_roles s"
proof -
  have "standing (x\<lparr>co_staffSessions := a, co_signIns := b\<rparr>) = standing x" for x a b by (simp add: standing_def)
  then show "standing (totp_rows env now ctx r st s) = standing s"
    by (simp add: totp_rows_def Let_def)
  show "co_roles (totp_rows env now ctx r st s) = co_roles s" by (simp add: totp_rows_def Let_def)
qed

lemma verifyTotp_standing: "same_standing s (snd (verifyTotp env cfg now ids code ctx s))"
  by (auto simp: same_standing_def verifyTotp_def Let_def totp_rows_standing split: prod.split option.split sum.split)

lemma logout_standing: "same_standing s (logout p now s)"
  by (simp add: same_standing_def logout_def Let_def standing_def)

lemma changePassword_standing: "same_standing s (snd (changePassword env p now c n s))"
  by (auto simp: same_standing_def changePassword_def Let_def split: option.split)

lemma impersonation_standing:
  "same_standing s (snd (startImpersonation cfg p now acc reason s))" "same_standing s (snd (endImpersonation cfg p now s))"
  by (auto simp: same_standing_def startImpersonation_def endImpersonation_def standing_def Let_def split: prod.split option.split sum.split)

lemma invites_standing:
  "same_standing s (snd (invite_staff env cfg actor now newId token e n r s))" "same_standing s (snd (revokeInvite actor now i s))"
  by (auto simp: same_standing_def invite_staff_def revokeInvite_def standing_def Let_def split: option.split)

text \<open>Roles are only added or edited in place: a role id keeps its key.\<close>

definition roles_grow :: "role_row list \<Rightarrow> role_row list \<Rightarrow> bool" where
  "roles_grow roles roles' \<longleftrightarrow> (\<forall>i k. map_option ro_key (find_row (\<lambda>ro. ro_id ro = i) roles) = Some k \<longrightarrow>
     map_option ro_key (find_row (\<lambda>ro. ro_id ro = i) roles') = Some k)"

lemma roles_grow_refl [simp]: "roles_grow roles roles"
  by (simp add: roles_grow_def)

lemma roles_grow_add: "roles_grow roles (roles @ extra)"
  by (auto simp: roles_grow_def find_row_append)

lemma roles_grow_edit:
  assumes "\<And>ro. ro_id (f ro) = ro_id ro \<and> ro_key (f ro) = ro_key ro"
  shows "roles_grow roles (update_where p f roles)"
proof -
  have "map_option ro_key (find_row (\<lambda>ro. ro_id ro = i) (update_where p f roles)) =
      map_option ro_key (find_row (\<lambda>ro. ro_id ro = i) roles)" for i
    using assms by (induction roles) auto
  then show ?thesis by (simp add: roles_grow_def)
qed

lemma sync_grow: "roles_grow roles (super_admin_sync roles)"
  by (auto simp: super_admin_sync_def Let_def intro!: roles_grow_edit split: option.split)

lemma role_key_grow: "roles_grow roles roles' \<Longrightarrow> role_key roles st = Some k \<Longrightarrow> role_key roles' st = Some k"
  by (auto simp: roles_grow_def role_key_def)

definition staffing_ok :: "console_state \<Rightarrow> bool" where
  "staffing_ok s \<longleftrightarrow> (\<forall>ro \<in> set (co_roles s). ro_id ro \<noteq> []) \<and> distinct (map st_id (co_staff s)) \<and> has_super_admin s"

lemma super_admin_iff: "has_super_admin s \<longleftrightarrow>
   (\<exists>(i, status, r) \<in> set (standing s). status = ACTIVE \<and> map_option ro_key (find_row (\<lambda>ro. ro_id ro = r) (co_roles s)) = Some ''super_admin'')"
  by (auto simp: has_super_admin_def standing_def role_key_def)

lemma standing_ids: "map st_id (co_staff s) = map fst (standing s)"
  by (simp add: standing_def)

lemma staffing_kept: "same_standing s s' \<Longrightarrow> staffing_ok s \<Longrightarrow> staffing_ok s'"
  by (simp add: staffing_ok_def same_standing_def super_admin_iff standing_ids)

lemma staffing_grow:
  assumes "staffing_ok s" "roles_grow (co_roles s) (co_roles s')" "standing s' = standing s @ extra"
    "fst ` set extra \<inter> st_id ` set (co_staff s) = {}" "distinct (map fst extra)" "\<forall>ro \<in> set (co_roles s'). ro_id ro \<noteq> []"
  shows "staffing_ok s'"
proof -
  have "fst ` set extra \<inter> fst ` set (standing s) = {}"
    using assms(4) by (simp add: standing_def image_image)
  then have "distinct (map st_id (co_staff s'))"
    using assms(1,3,5) by (auto simp: staffing_ok_def standing_ids)
  moreover obtain i r where "(i, ACTIVE, r) \<in> set (standing s)"
    "map_option ro_key (find_row (\<lambda>ro. ro_id ro = r) (co_roles s)) = Some ''super_admin''"
    using assms(1) by (auto simp: staffing_ok_def super_admin_iff simp del: map_option_eq_Some)
  then have "has_super_admin s'"
    using assms(2,3) unfolding super_admin_iff roles_grow_def
    by (intro bexI [of _ "(i, ACTIVE, r)"]) simp_all
  ultimately show ?thesis
    using assms(6) by (simp add: staffing_ok_def)
qed

lemma update_member_ok:
  assumes "staffing_ok s"
  shows "staffing_ok (snd (update_member actor now i dto s))"
proof (cases "update_member actor now i dto s")
  case (Pair res s')
  show ?thesis
  proof (cases res)
    case (Inl e)
    with Pair assms show ?thesis
      by (auto simp: update_member_def Let_def split: option.splits if_splits)
  next
    case (Inr st')
    with Pair have u: "update_member actor now i dto s = returns st' s'" by simp
    obtain before where b: "find_staff i s = Some before"
      and guard: "role_key (co_roles s) before = Some ''super_admin'' \<and> (truthy (ud_roleId dto) \<or> ud_status dto \<noteq> None)
       \<longrightarrow> 0 < count_where (\<lambda>st. role_key (co_roles s) st = Some ''super_admin'' \<and> st_status st = ACTIVE \<and> st_id st \<noteq> i) (co_staff s)"
      and fk: "\<forall>r. ud_roleId dto = Some r \<longrightarrow> find_row (\<lambda>ro. ro_id ro = r) (co_roles s) \<noteq> None"
      and st: "co_staff s' = update_where (\<lambda>st. st_id st = i) (updated_row before dto) (co_staff s)" "co_roles s' = co_roles s"
        "co_sessions s' = (if access_changed before dto then snd (revokeAllForStaff now i (co_sessions s)) else co_sessions s)"
        "st' = updated_row before dto before"
      using u by (rule update_member_success)
    have ids: "map st_id (co_staff s') = map st_id (co_staff s)"
      by (simp add: st(1) map_update_where)
    have other: "has_super_admin s'" if "x \<in> set (co_staff s)" "st_id x \<noteq> i" "st_status x = ACTIVE"
      "role_key (co_roles s) x = Some ''super_admin''" for x
      using that by (force simp: has_super_admin_def st set_update_where)
    have "has_super_admin s'"
    proof (cases "role_key (co_roles s) before = Some ''super_admin'' \<and> (truthy (ud_roleId dto) \<or> ud_status dto \<noteq> None)")
      case True
      from guard True have "0 < count_where (\<lambda>st. role_key (co_roles s) st = Some ''super_admin'' \<and> st_status st = ACTIVE \<and> st_id st \<noteq> i) (co_staff s)"
        by (rule mp)
      with other show ?thesis by (auto simp: count_where_pos_iff)
    next
      case False
      obtain x where x: "x \<in> set (co_staff s)" "st_status x = ACTIVE" "role_key (co_roles s) x = Some ''super_admin''"
        using assms by (auto simp: staffing_ok_def has_super_admin_def)
      show ?thesis
      proof (cases "st_id x = i")
        case True
        with x(1) b assms have "x = before"
          using find_row_unique [of st_id "co_staff s" x] by (simp add: staffing_ok_def)
        with False x(3) have n: "\<not> truthy (ud_roleId dto)" "ud_status dto = None" by auto
        show ?thesis
        proof (cases "ud_roleId dto")
          case None
          have "updated_row before dto x \<in> set (co_staff s')"
            using x(1) True by (auto simp: st(1) set_update_where intro!: rev_image_eqI [of x])
          moreover have "role_key (co_roles s') (updated_row before dto x) = Some ''super_admin''"
            using x(3) None by (simp add: st(2) role_key_def given_def)
          moreover have "st_status (updated_row before dto x) = ACTIVE"
            using x(2) n(2) by (simp add: given_def)
          ultimately show ?thesis unfolding has_super_admin_def by blast
        next
          case (Some r)
          with n have "r = []" by simp
          with fk Some assms show ?thesis
            by (auto simp: staffing_ok_def dest: find_row_SomeD)
        qed
      qed (use other x in blast)
    qed
    with ids assms Pair st(2) show ?thesis by (simp add: staffing_ok_def)
  qed
qed

lemma upsertRole_ok:
  assumes "staffing_ok s" "newId \<noteq> []"
  shows "staffing_ok (snd (upsertRole actor now newId dto s))"
proof (cases "find_row (\<lambda>ro. ro_key ro = ur_key dto) (co_roles s)")
  case None
  let ?s' = "s\<lparr>co_roles := co_roles s @ [created_role newId dto]\<rparr>"
  have "staffing_ok ?s'"
    by (rule staffing_grow [OF assms(1), where extra = "[]"])
       (use assms in \<open>auto simp: roles_grow_add standing_def staffing_ok_def created_role_def\<close>)
  with None show ?thesis
    by (simp add: upsertRole_def Let_def staffing_ok_def has_super_admin_def)
next
  case (Some before)
  let ?roles = "update_where (\<lambda>ro. ro_key ro = ur_key dto) (edited_role dto) (co_roles s)"
  let ?s1 = "sign_out_holders now (ro_id before) (s\<lparr>co_roles := ?roles\<rparr>)"
  have ids: "map ro_id ?roles = map ro_id (co_roles s)"
    by (simp add: map_update_where edited_role_def)
  have "\<forall>ro \<in> set ?roles. ro_id ro \<noteq> []"
    using assms(1) ids unfolding staffing_ok_def by (metis (no_types, lifting) in_set_conv_nth length_map nth_map)
  moreover have "roles_grow (co_roles s) ?roles"
    by (rule roles_grow_edit) (simp add: edited_role_def)
  ultimately have "staffing_ok ?s1"
    by (intro staffing_grow [OF assms(1), where extra = "[]"])
       (auto simp: sign_out_holders_def Let_def standing_def map_update_where)
  with Some assms(1) show ?thesis
    by (simp add: upsertRole_def Let_def staffing_ok_def has_super_admin_def)
qed

lemma accept_ok:
  assumes "staffing_ok s" "newId \<notin> st_id ` set (co_staff s)"
  shows "staffing_ok (snd (acceptInvite env now newId token password ctx s))"
proof (cases "acceptInvite env now newId token password ctx s")
  case (Pair res s')
  show ?thesis
  proof (cases res)
    case (Inl e)
    with Pair assms(1) show ?thesis
      by (auto simp: acceptInvite_def Let_def split: option.splits if_splits)
  next
    case (Inr v)
    then have "\<exists>st. st_id st = newId \<and> co_staff s' = co_staff s @ [st] \<and> co_roles s' = co_roles s"
      using Pair by (auto simp: acceptInvite_def Let_def accepted_staff_def split: option.splits if_splits)
    then obtain st where "st_id st = newId" "co_staff s' = co_staff s @ [st]" "co_roles s' = co_roles s"
      by blast
    then have "staffing_ok s'"
      using assms by (intro staffing_grow [OF assms(1), where extra = "[(newId, st_status st, st_roleId st)]"])
        (auto simp: standing_def staffing_ok_def)
    with Pair show ?thesis by simp
  qed
qed

lemma sync_ok_roles:
  assumes "staffing_ok s"
  shows "staffing_ok (s\<lparr>co_roles := super_admin_sync (co_roles s)\<rparr>)"
proof -
  have "map ro_id (super_admin_sync (co_roles s)) = map ro_id (co_roles s)"
    by (simp add: super_admin_sync_def Let_def map_update_where split: option.split)
  then have "\<forall>ro \<in> set (super_admin_sync (co_roles s)). ro_id ro \<noteq> []"
    using assms unfolding staffing_ok_def by (metis (no_types, lifting) in_set_conv_nth length_map nth_map)
  then show ?thesis
    by (intro staffing_grow [OF assms, where extra = "[]"]) (auto simp: sync_grow standing_def)
qed

text \<open>Everything that changes staff or roles, each request as one step.\<close>

inductive console_step :: "auth_env \<Rightarrow> auth_cfg \<Rightarrow> console_state \<Rightarrow> console_state \<Rightarrow> bool" for env cfg where
  step_login: "console_step env cfg s (snd (login env cfg now sid csrf secret email password ctx s))"
| step_totp: "console_step env cfg s (snd (verifyTotp env cfg now ids code ctx s))"
| step_logout: "console_step env cfg s (logout p now s)"
| step_password: "console_step env cfg s (snd (changePassword env p now current next_pw s))"
| step_accept: "newId \<notin> st_id ` set (co_staff s) \<Longrightarrow>
    console_step env cfg s (snd (acceptInvite env now newId token password ctx s))"
| step_view_as: "console_step env cfg s (snd (startImpersonation cfg p now acc reason s))"
| step_view_end: "console_step env cfg s (snd (endImpersonation cfg p now s))"
| step_invite: "console_step env cfg s (snd (invite_staff env cfg actor now newId token e n r s))"
| step_revoke_invite: "console_step env cfg s (snd (revokeInvite actor now i s))"
| step_update: "console_step env cfg s (snd (update_member actor now i dto s))"
| step_role: "newId \<noteq> [] \<Longrightarrow> console_step env cfg s (snd (upsertRole actor now newId rdto s))"
| step_boot: "console_step env cfg s (s\<lparr>co_roles := super_admin_sync (co_roles s)\<rparr>)"

lemma console_step_ok: "console_step env cfg s s' \<Longrightarrow> staffing_ok s \<Longrightarrow> staffing_ok s'"
  by (induction rule: console_step.induct)
     (simp_all add: staffing_kept [OF login_standing] staffing_kept [OF verifyTotp_standing] staffing_kept [OF logout_standing]
       staffing_kept [OF changePassword_standing] staffing_kept [OF impersonation_standing(1)]
       staffing_kept [OF impersonation_standing(2)] staffing_kept [OF invites_standing(1)] staffing_kept [OF invites_standing(2)]
       accept_ok update_member_ok upsertRole_ok sync_ok_roles)

text \<open>
  C9. From a console with an active super admin, no sequence of requests and restarts leaves it
  without one: the last active super admin can neither be given another role nor be suspended or
  disabled, by themselves or anybody else.
\<close>

theorem super_admin_remains:
  assumes "(console_step env cfg)\<^sup>*\<^sup>* s0 s" "distinct (map st_id (co_staff s0))" "\<forall>ro \<in> set (co_roles s0). ro_id ro \<noteq> []"
    "st0 \<in> set (co_staff s0)" "st_status st0 = ACTIVE" "role_key (co_roles s0) st0 = Some ''super_admin''"
  shows "\<exists>st \<in> set (co_staff s). st_status st = ACTIVE \<and> role_key (co_roles s) st = Some ''super_admin''"
proof -
  have "staffing_ok s0"
    using assms(2-6) by (auto simp: staffing_ok_def has_super_admin_def)
  with assms(1) have "staffing_ok s"
    by (induction rule: rtranclp_induct) (auto intro: console_step_ok)
  then show ?thesis by (simp add: staffing_ok_def has_super_admin_def)
qed

section \<open>The super admin role and the staff list\<close>

text \<open>
  After start-up the super admin role, where it exists, holds every permission of this
  release; it keeps the ones it had, in their order, its network allowlist is untouched, and
  every other role is exactly as it was.
\<close>

theorem super_admin_complete:
  assumes "find_row (\<lambda>ro. ro_key ro = ''super_admin'') roles = Some role" "distinct (map ro_id roles)"
  shows "\<exists>extra. find_row (\<lambda>ro. ro_key ro = ''super_admin'') (super_admin_sync roles) =
        Some (role\<lparr>ro_permissions := ro_permissions role @ extra\<rparr>)
    \<and> set ALL_PERMISSIONS \<subseteq> set (ro_permissions role @ extra)
    \<and> (\<forall>ro \<in> set roles. ro_id ro \<noteq> ro_id role \<longrightarrow> ro \<in> set (super_admin_sync roles))
    \<and> length (super_admin_sync roles) = length roles"
proof -
  let ?m = "filter (\<lambda>q. \<not> js_includes (ro_permissions role) q) ALL_PERMISSIONS"
  have all: "set ALL_PERMISSIONS \<subseteq> set (ro_permissions role @ ?m)" by auto
  show ?thesis
  proof (cases "?m = []")
    case True
    then have "super_admin_sync roles = roles" using assms(1) by (simp add: super_admin_sync_def Let_def)
    with True all assms(1) show ?thesis by (intro exI [of _ "[]"]) auto
  next
    case False
    then have eq: "super_admin_sync roles = update_where (\<lambda>ro. ro_id ro = ro_id role)
        (\<lambda>ro. ro\<lparr>ro_permissions := ro_permissions role @ ?m\<rparr>) roles"
      using assms(1) by (simp add: super_admin_sync_def Let_def)
    with all assms(1) show ?thesis
      by (intro exI [of _ ?m]) (auto simp: find_row_update_where set_update_where rev_image_eqI)
  qed
qed

text \<open>
  Searching the staff list ignores the cursor: the search's OR replaces the cursor's in the
  query object, so every cursor gives the first page again, and a client that follows
  nextCursor never gets past it.
\<close>

theorem staff_search_ignores_cursor:
  assumes "truthy (ls_q query)"
  shows "staff_list key roles query cursor limit rows = staff_list key roles query None limit rows"
proof -
  have "staff_where key roles query cursor = staff_where key roles query None"
    using assms by (simp add: staff_where_def fun_eq_iff)
  then show ?thesis by (simp add: staff_list_def)
qed

section \<open>Concrete runs\<close>

definition ex_roles :: "role_row list" where
  "ex_roles = [\<lparr>ro_id = ''r0'', ro_key = ''super_admin'', ro_name = ''Super admin'', ro_description = None,
      ro_permissions = [''metrics.read''], ro_ipAllowlist = [], ro_isSystem = True\<rparr>,
    \<lparr>ro_id = ''r1'', ro_key = ''night_shift'', ro_name = ''Night shift'', ro_description = None,
      ro_permissions = [''metrics.read'', ''messages.read''], ro_ipAllowlist = [], ro_isSystem = False\<rparr>]"

definition ex_office :: console_state where
  "ex_office = ex_console\<lparr>co_roles := ex_roles, co_staff := [ex_member, ex_member\<lparr>st_id := ''boss'', st_email := ''b@z'', st_roleId := ''r0''\<rparr>]\<rparr>"

definition ex_suspend :: update_staff_dto where
  "ex_suspend = \<lparr>ud_name = None, ud_roleId = None, ud_status = Some SUSPENDED, ud_extraPermissions = None,
     ud_emailPrefs = None, ud_resetTotp = False, ud_reason = ''left the company''\<rparr>"

definition ex_narrow :: upsert_role_dto where
  "ex_narrow = \<lparr>ur_key = ''night_shift'', ur_name = ''Night shift'', ur_description = None,
     ur_permissions = [''metrics.read''], ur_ipAllowlist = None\<rparr>"

lemma ex_office_store: "store_ok ex_cfg (co_sessions ex_office)"
  using sessions_reachable_ok [OF ex_store_reachable] by (simp add: ex_office_def ex_console_def)

lemma ex_office_member: "find_staff ''u1'' ex_office = Some ex_member"
  by (simp add: ex_office_def ex_member_def)

lemma access_change_ends_sessions_witness:
  "\<exists>st' s'. update_member ex_member_principal 5 ''u1'' ex_suspend ex_office = returns st' s'
    \<and> st_sessionEpoch st' = 1 \<and> \<not> holds_session (co_sessions s') ''sid'' ''u1''"
proof -
  have "role_key (co_roles ex_office) ex_member = Some ''night_shift''"
    by (simp add: role_key_def ex_office_def ex_roles_def ex_member_def)
  then obtain st' s' where u: "update_member ex_member_principal 5 ''u1'' ex_suspend ex_office = returns st' s'"
    using ex_office_member by (simp add: update_member_def Let_def ex_suspend_def)
  from access_change_ends_sessions [OF u ex_office_store ex_office_member] u show ?thesis
    by (auto simp: ex_suspend_def ex_member_def)
qed

lemma role_edit_signs_out_holders_witness:
  "\<exists>role s'. upsertRole ex_member_principal 5 ''new'' ex_narrow ex_office = returns role s'
    \<and> \<not> holds_session (co_sessions s') ''sid'' ''u1''"
proof -
  obtain before where b: "find_row (\<lambda>ro. ro_key ro = ur_key ex_narrow) (co_roles ex_office) = Some before"
    "\<not> ro_isSystem before" "ro_id before = ''r1''"
    by (simp add: ex_narrow_def ex_office_def ex_roles_def)
  then obtain role s' where u: "upsertRole ex_member_principal 5 ''new'' ex_narrow ex_office = returns role s'"
    by (simp add: upsertRole_def Let_def)
  have "ex_member \<in> set (co_staff ex_office)" "st_roleId ex_member = ro_id before" "st_id ex_member = ''u1''"
    using b(3) by (simp_all add: ex_office_def ex_member_def)
  with role_edit_signs_out_holders [OF u ex_office_store b(1)] u show ?thesis by metis
qed

lemma super_admin_remains_witness:
  "\<exists>st \<in> set (co_staff (snd (update_member ex_member_principal 5 ''boss'' ex_suspend ex_office))).
     st_status st = ACTIVE \<and> role_key (co_roles (snd (update_member ex_member_principal 5 ''boss'' ex_suspend ex_office))) st = Some ''super_admin''"
proof -
  have step: "(console_step ex_env ex_auth_cfg)\<^sup>*\<^sup>* ex_office (snd (update_member ex_member_principal 5 ''boss'' ex_suspend ex_office))"
    by (rule r_into_rtranclp) (rule step_update)
  let ?boss = "ex_member\<lparr>st_id := ''boss'', st_email := ''b@z'', st_roleId := ''r0''\<rparr>"
  have "distinct (map st_id (co_staff ex_office))" "\<forall>ro \<in> set (co_roles ex_office). ro_id ro \<noteq> []"
    "?boss \<in> set (co_staff ex_office)" "st_status ?boss = ACTIVE" "role_key (co_roles ex_office) ?boss = Some ''super_admin''"
    by (simp_all add: ex_office_def ex_member_def ex_roles_def role_key_def)
  from super_admin_remains [OF step this] show ?thesis .
qed

lemma super_admin_complete_witness:
  "\<exists>role. find_row (\<lambda>ro. ro_key ro = ''super_admin'') (super_admin_sync ex_roles) = Some role
    \<and> ''staff.manage'' \<in> set (ro_permissions role)"
proof -
  have "\<exists>role. find_row (\<lambda>ro. ro_key ro = ''super_admin'') ex_roles = Some role"
    by (simp add: ex_roles_def)
  moreover have "distinct (map ro_id ex_roles)" by (simp add: ex_roles_def)
  moreover have "''staff.manage'' \<in> set ALL_PERMISSIONS" by (simp add: ALL_PERMISSIONS_def PERMISSIONS_def)
  ultimately show ?thesis
    using super_admin_complete [of ex_roles] by fastforce
qed

lemma staff_search_ignores_cursor_witness:
  "let query = \<lparr>ls_q = Some ''z'', ls_status = None, ls_roleKey = None\<rparr>; key = (\<lambda>st. (0, st_id st)) in
   staff_list key ex_roles query (Some (0, ''u1'')) 1 (co_staff ex_office) = staff_list key ex_roles query None 1 (co_staff ex_office)"
  unfolding Let_def by (rule staff_search_ignores_cursor) simp

end
