(* ===== verification/Idempotency.thy ===== *)
theory Idempotency
  imports Prelude
begin

text \<open>
  \<open>common/idempotency/idempotency.interceptor.ts\<close>: the Idempotency-Key interceptor.  Its records
  are a table with a unique index on (key, staffId, route); any number of requests are between
  any two of their database calls at once, so each call is a step of its own.
\<close>

section \<open>Records and claims\<close>

record idem_request =
  ir_key :: string
  ir_staffId :: string
  ir_route :: string
  ir_hash :: string

record 'b idem_record =
  id_id :: nat
  id_request :: idem_request
  id_completedAt :: "millis option"
  id_body :: "'b option"

text \<open>The columns of the unique index.\<close>

definition claim_key :: "idem_request \<Rightarrow> string \<times> string \<times> string" where
  "claim_key r = (ir_key r, ir_staffId r, ir_route r)"

definition find_claim :: "idem_request \<Rightarrow> 'b idem_record list \<Rightarrow> 'b idem_record option" where
  "find_claim r recs = find_row (\<lambda>x. claim_key (id_request x) = claim_key r) recs"

text \<open>Without the header the request is refused before anything is read.\<close>

definition key_header :: "string option \<Rightarrow> string result" where
  "key_header h = (case h of None \<Rightarrow> Inl (BadRequest ''Idempotency-Key header is required'')
     | Some k \<Rightarrow> if k = [] then Inl (BadRequest ''Idempotency-Key header is required'') else Inr k)"

definition asReplay :: "'b idem_record \<Rightarrow> string \<Rightarrow> ('b option) result" where
  "asReplay r requestHash =
     (if ir_hash (id_request r) \<noteq> requestHash then Inl (Conflict ''Idempotency-Key already used with a different payload'')
      else if id_completedAt r = None then Inl (Conflict ''A request with this Idempotency-Key is still in flight'')
      else Inr (id_body r))"

section \<open>Steps\<close>

text \<open>
  Where a request is: not started, past the lookup that found no record, past the create that
  hit the unique index, running its handler on the record it owns, writing the completion,
  releasing the key, or finished (with its own result, a replayed one, or an error).
\<close>

datatype 'b phase =
    Waiting
  | Creating
  | Raced
  | Running nat
  | Completing nat 'b
  | Releasing nat http_error
  | Returned 'b
  | Replayed "'b option"
  | Failed http_error

record 'b idem_state =
  is_records :: "'b idem_record list"
  is_next :: nat
  is_phase :: "nat \<Rightarrow> 'b phase"

definition set_phase :: "nat \<Rightarrow> 'b phase \<Rightarrow> 'b idem_state \<Rightarrow> 'b idem_state" where
  "set_phase i p s = s\<lparr>is_phase := (is_phase s)(i := p)\<rparr>"

definition replay_phase :: "'b idem_record \<Rightarrow> idem_request \<Rightarrow> 'b phase" where
  "replay_phase x r = (case asReplay x (ir_hash r) of Inl e \<Rightarrow> Failed e | Inr b \<Rightarrow> Replayed b)"

text \<open>claim: the lookup, the create, and the second lookup of the loser of a race.\<close>

definition claim_lookup :: "nat \<Rightarrow> idem_request \<Rightarrow> 'b idem_state \<Rightarrow> 'b idem_state" where
  "claim_lookup i r s = (case find_claim r (is_records s) of
     Some x \<Rightarrow> set_phase i (replay_phase x r) s | None \<Rightarrow> set_phase i Creating s)"

definition claim_create :: "nat \<Rightarrow> idem_request \<Rightarrow> 'b idem_state \<Rightarrow> 'b idem_state" where
  "claim_create i r s = (case find_claim r (is_records s) of
     Some x \<Rightarrow> set_phase i Raced s
   | None \<Rightarrow> set_phase i (Running (is_next s))
       (s\<lparr>is_records := is_records s @ [\<lparr>id_id = is_next s, id_request = r, id_completedAt = None, id_body = None\<rparr>],
          is_next := Suc (is_next s)\<rparr>))"

definition claim_raced :: "nat \<Rightarrow> idem_request \<Rightarrow> 'b idem_state \<Rightarrow> 'b idem_state" where
  "claim_raced i r s = (case find_claim r (is_records s) of
     Some x \<Rightarrow> set_phase i (replay_phase x r) s | None \<Rightarrow> set_phase i (Failed RecordNotFound) s)"

text \<open>The completion write; \<open>stored\<close> is the result after its JSON round trip.\<close>

definition complete_record :: "millis \<Rightarrow> ('b \<Rightarrow> 'b) \<Rightarrow> nat \<Rightarrow> 'b \<Rightarrow> 'b idem_record list \<Rightarrow> 'b idem_record list" where
  "complete_record now stored rid b recs =
     update_where (\<lambda>x. id_id x = rid) (\<lambda>x. x\<lparr>id_completedAt := Some now, id_body := Some (stored b)\<rparr>) recs"

definition release_record :: "nat \<Rightarrow> 'b idem_record list \<Rightarrow> 'b idem_record list" where
  "release_record rid recs = filter (\<lambda>x. id_id x \<noteq> rid) recs"

inductive idem_step :: "(nat \<Rightarrow> idem_request) \<Rightarrow> ('b \<Rightarrow> 'b) \<Rightarrow> 'b idem_state \<Rightarrow> 'b idem_state \<Rightarrow> bool" for req stored where
  idem_lookup: "is_phase s i = Waiting \<Longrightarrow> idem_step req stored s (claim_lookup i (req i) s)"
| idem_create: "is_phase s i = Creating \<Longrightarrow> idem_step req stored s (claim_create i (req i) s)"
| idem_raced: "is_phase s i = Raced \<Longrightarrow> idem_step req stored s (claim_raced i (req i) s)"
| idem_handled: "is_phase s i = Running rid \<Longrightarrow> idem_step req stored s (set_phase i (Completing rid b) s)"
| idem_thrown: "is_phase s i = Running rid \<Longrightarrow> idem_step req stored s (set_phase i (Releasing rid e) s)"
| idem_completed: "is_phase s i = Completing rid b \<Longrightarrow>
    idem_step req stored s (set_phase i (Returned b) (s\<lparr>is_records := complete_record now stored rid b (is_records s)\<rparr>))"
| idem_unrecorded: "is_phase s i = Completing rid b \<Longrightarrow> idem_step req stored s (set_phase i (Releasing rid e) s)"
| idem_released: "is_phase s i = Releasing rid e \<Longrightarrow>
    idem_step req stored s (set_phase i (Failed e) (s\<lparr>is_records := release_record rid (is_records s)\<rparr>))"

definition idem_start :: "'b idem_state" where
  "idem_start = \<lparr>is_records = [], is_next = 0, is_phase = (\<lambda>_. Waiting)\<rparr>"

section \<open>The invariant\<close>

text \<open>The record a request owns while it works.\<close>

fun owned :: "'b phase \<Rightarrow> nat option" where
  "owned (Running rid) = Some rid"
| "owned (Completing rid b) = Some rid"
| "owned (Releasing rid e) = Some rid"
| "owned p = None"

definition table_ok :: "'b idem_state \<Rightarrow> bool" where
  "table_ok s \<longleftrightarrow> distinct (map (claim_key \<circ> id_request) (is_records s)) \<and> distinct (map id_id (is_records s))
     \<and> (\<forall>x \<in> set (is_records s). id_id x < is_next s)"

definition owners_ok :: "(nat \<Rightarrow> idem_request) \<Rightarrow> 'b idem_state \<Rightarrow> bool" where
  "owners_ok req s \<longleftrightarrow>
     (\<forall>i rid. owned (is_phase s i) = Some rid \<longrightarrow>
        (\<exists>x \<in> set (is_records s). id_id x = rid \<and> id_request x = req i \<and> id_completedAt x = None))
     \<and> (\<forall>i j rid. owned (is_phase s i) = Some rid \<longrightarrow> owned (is_phase s j) = Some rid \<longrightarrow> i = j)"

definition results_ok :: "(nat \<Rightarrow> idem_request) \<Rightarrow> ('b \<Rightarrow> 'b) \<Rightarrow> 'b idem_state \<Rightarrow> bool" where
  "results_ok req stored s \<longleftrightarrow>
     (\<forall>x \<in> set (is_records s). id_completedAt x \<noteq> None \<longrightarrow>
        (\<exists>i b. is_phase s i = Returned b \<and> id_request x = req i \<and> id_body x = Some (stored b)))
     \<and> (\<forall>i b. is_phase s i = Returned b \<longrightarrow>
        (\<exists>x \<in> set (is_records s). id_request x = req i \<and> id_completedAt x \<noteq> None \<and> id_body x = Some (stored b)))
     \<and> (\<forall>i j b c. is_phase s i = Returned b \<longrightarrow> is_phase s j = Returned c \<longrightarrow> claim_key (req i) = claim_key (req j) \<longrightarrow> i = j)
     \<and> (\<forall>j b. is_phase s j = Replayed b \<longrightarrow>
        (\<exists>i c. is_phase s i = Returned c \<and> claim_key (req i) = claim_key (req j) \<and> ir_hash (req i) = ir_hash (req j)
           \<and> b = Some (stored c)))"

lemma phase_simps [simp]:
  "is_phase (set_phase i p s) j = (if j = i then p else is_phase s j)"
  "is_records (set_phase i p s) = is_records s" "is_next (set_phase i p s) = is_next s"
  "is_phase (s\<lparr>is_records := rs\<rparr>) = is_phase s"
  by (simp_all add: set_phase_def)

lemma find_claim_Some:
  "find_claim r recs = Some x \<Longrightarrow> x \<in> set recs \<and> claim_key (id_request x) = claim_key r"
  by (auto simp: find_claim_def dest: find_row_SomeD)

lemma find_claim_None: "find_claim r recs = None \<longleftrightarrow> claim_key r \<notin> set (map (claim_key \<circ> id_request) recs)"
  by (force simp: find_claim_def find_row_None_iff)

definition idem_ok :: "(nat \<Rightarrow> idem_request) \<Rightarrow> ('b \<Rightarrow> 'b) \<Rightarrow> 'b idem_state \<Rightarrow> bool" where
  "idem_ok req stored s \<longleftrightarrow> table_ok s \<and> owners_ok req s \<and> results_ok req stored s"

text \<open>Moving a request to a phase that owns nothing and returned nothing.\<close>

lemma idle_phase_ok:
  assumes "idem_ok req stored s" "owned p = None \<or> owned p = owned (is_phase s i)" "\<And>b. p \<noteq> Returned b"
    "\<And>b. is_phase s i \<noteq> Returned b" "\<And>b. is_phase s i \<noteq> Replayed b"
    "\<And>b. p = Replayed b \<Longrightarrow> \<exists>j c. is_phase s j = Returned c \<and> claim_key (req j) = claim_key (req i)
        \<and> ir_hash (req j) = ir_hash (req i) \<and> b = Some (stored c)"
  shows "idem_ok req stored (set_phase i p s)"
proof -
  have t: "table_ok (set_phase i p s)" using assms(1) by (simp add: idem_ok_def table_ok_def)
  have own: "owned (is_phase s j) = Some rid" if "owned (is_phase (set_phase i p s) j) = Some rid" for j rid
    using that assms(2) by (auto split: if_splits)
  have o: "owners_ok req (set_phase i p s)"
    using assms(1) own unfolding idem_ok_def owners_ok_def phase_simps(2) by blast
  have ret: "is_phase (set_phase i p s) j = Returned b \<longleftrightarrow> is_phase s j = Returned b" for j b
    using assms(3,4) by auto
  have rep: "is_phase (set_phase i p s) j = Replayed b \<Longrightarrow>
      \<exists>k c. is_phase s k = Returned c \<and> claim_key (req k) = claim_key (req j) \<and> ir_hash (req k) = ir_hash (req j) \<and> b = Some (stored c)"
    for j b
    using assms(1,6) unfolding idem_ok_def results_ok_def by (auto split: if_splits)
  have "results_ok req stored (set_phase i p s)"
    using assms(1) rep unfolding idem_ok_def results_ok_def ret phase_simps(2) by blast
  with t o show ?thesis by (simp add: idem_ok_def)
qed

lemma replay_phase_ok:
  assumes "idem_ok req stored s" "find_claim (req i) (is_records s) = Some x" "owned (is_phase s i) = None"
    "\<And>b. is_phase s i \<noteq> Returned b" "\<And>b. is_phase s i \<noteq> Replayed b"
  shows "idem_ok req stored (set_phase i (replay_phase x (req i)) s)"
proof (rule idle_phase_ok [OF assms(1)])
  have x: "x \<in> set (is_records s)" "claim_key (id_request x) = claim_key (req i)"
    using find_claim_Some [OF assms(2)] by auto
  fix b assume "replay_phase x (req i) = Replayed b"
  then have "ir_hash (id_request x) = ir_hash (req i)" "id_completedAt x \<noteq> None" "b = id_body x"
    by (auto simp: replay_phase_def asReplay_def split: if_splits)
  with x assms(1) show "\<exists>j c. is_phase s j = Returned c \<and> claim_key (req j) = claim_key (req i)
        \<and> ir_hash (req j) = ir_hash (req i) \<and> b = Some (stored c)"
    unfolding idem_ok_def results_ok_def by metis
qed (use assms(4,5) in \<open>auto simp: replay_phase_def split: sum.split\<close>)

text \<open>The three steps that write the table.\<close>

lemma create_claim_ok:
  assumes "idem_ok req stored s" "is_phase s i = Creating" "find_claim (req i) (is_records s) = None"
  shows "idem_ok req stored (claim_create i (req i) s)"
proof -
  let ?x = "\<lparr>id_id = is_next s, id_request = req i, id_completedAt = None, id_body = None\<rparr>"
  let ?s' = "set_phase i (Running (is_next s)) (s\<lparr>is_records := is_records s @ [?x], is_next := Suc (is_next s)\<rparr>)"
  have s': "claim_create i (req i) s = ?s'" using assms(3) by (simp add: claim_create_def)
  have new: "claim_key (req i) \<notin> set (map (claim_key \<circ> id_request) (is_records s))"
    using assms(3) by (simp add: find_claim_None)
  have lt: "id_id x < is_next s" if "x \<in> set (is_records s)" for x
    using assms(1) that by (simp add: idem_ok_def table_ok_def)
  have t: "table_ok ?s'"
    using assms(1) new lt by (auto simp: idem_ok_def table_ok_def dest!: lt)
  have fresh: "owned (is_phase s j) \<noteq> Some (is_next s)" for j
    using assms(1) lt unfolding idem_ok_def owners_ok_def by (metis less_irrefl)
  have o: "owners_ok req ?s'"
    using assms(1) fresh unfolding idem_ok_def owners_ok_def by (auto split: if_splits)
  have ret: "is_phase ?s' j = Returned b \<longleftrightarrow> is_phase s j = Returned b"
    "is_phase ?s' j = Replayed d \<longleftrightarrow> is_phase s j = Replayed d" for j b d
    using assms(2) by auto
  have "results_ok req stored ?s'"
    using assms(1) unfolding idem_ok_def results_ok_def ret by simp
  with t o show ?thesis by (simp add: idem_ok_def s')
qed

lemma distinct_map_eqD: "distinct (map f xs) \<Longrightarrow> x \<in> set xs \<Longrightarrow> y \<in> set xs \<Longrightarrow> f x = f y \<Longrightarrow> x = y"
  by (auto simp: distinct_map dest: inj_onD)

lemma complete_record_facts:
  assumes "distinct (map id_id recs)" "x \<in> set recs" "id_id x = rid"
  shows "map (claim_key \<circ> id_request) (complete_record now stored rid b recs) = map (claim_key \<circ> id_request) recs"
    and "map id_id (complete_record now stored rid b recs) = map id_id recs"
    and "set (complete_record now stored rid b recs) =
       insert (x\<lparr>id_completedAt := Some now, id_body := Some (stored b)\<rparr>) (set recs - {x})"
proof -
  show "map (claim_key \<circ> id_request) (complete_record now stored rid b recs) = map (claim_key \<circ> id_request) recs"
    "map id_id (complete_record now stored rid b recs) = map id_id recs"
    by (simp_all add: complete_record_def map_update_where)
  let ?f = "\<lambda>y. y\<lparr>id_completedAt := Some now, id_body := Some (stored b)\<rparr>"
  have only: "id_id y = rid \<longleftrightarrow> y = x" if "y \<in> set recs" for y
    using assms that distinct_map_eqD [OF assms(1)] by blast
  have "set (complete_record now stored rid b recs) = (\<lambda>y. if id_id y = rid then ?f y else y) ` set recs"
    by (simp add: complete_record_def update_where_def)
  also have "\<dots> = (\<lambda>y. if y = x then ?f x else y) ` set recs"
    by (rule image_cong) (auto simp: only)
  also have "\<dots> = insert (?f x) (set recs - {x})"
    using assms(2) by (auto simp: image_def)
  finally show "set (complete_record now stored rid b recs) = insert (?f x) (set recs - {x})" .
qed

lemma complete_claim_ok:
  assumes "idem_ok req stored s" "is_phase s i = Completing rid b"
  shows "idem_ok req stored (set_phase i (Returned b) (s\<lparr>is_records := complete_record now stored rid b (is_records s)\<rparr>))"
    (is "idem_ok req stored ?s'")
proof -
  have own: "owned (is_phase s i) = Some rid" using assms(2) by simp
  obtain x where x: "x \<in> set (is_records s)" "id_id x = rid" "id_request x = req i" "id_completedAt x = None"
    using assms(1) own unfolding idem_ok_def owners_ok_def by blast
  let ?x = "x\<lparr>id_completedAt := Some now, id_body := Some (stored b)\<rparr>"
  have d: "distinct (map id_id (is_records s))" "distinct (map (claim_key \<circ> id_request) (is_records s))"
    using assms(1) by (simp_all add: idem_ok_def table_ok_def)
  note f = complete_record_facts [OF d(1) x(1,2), of now stored b]
  have recs: "set (is_records ?s') = insert ?x (set (is_records s) - {x})" using f(3) by simp
  have t: "table_ok ?s'"
    using assms(1) f x(1) unfolding idem_ok_def table_ok_def by (auto simp: f(1,2))
  have o: "owners_ok req ?s'"
    unfolding owners_ok_def
  proof (intro conjI allI impI)
    fix j r assume j: "owned (is_phase ?s' j) = Some r"
    then have j': "j \<noteq> i" "owned (is_phase s j) = Some r" by (auto split: if_splits)
    then obtain y where y: "y \<in> set (is_records s)" "id_id y = r" "id_request y = req j" "id_completedAt y = None"
      using assms(1) unfolding idem_ok_def owners_ok_def by blast
    have "y \<noteq> x" using j' own x(2) y(2) assms(1) unfolding idem_ok_def owners_ok_def by metis
    with y recs show "\<exists>y \<in> set (is_records ?s'). id_id y = r \<and> id_request y = req j \<and> id_completedAt y = None"
      by auto
    fix k assume "owned (is_phase ?s' k) = Some r"
    then have "owned (is_phase s k) = Some r" by (auto split: if_splits)
    with j' show "j = k" using assms(1) unfolding idem_ok_def owners_ok_def by blast
  qed
  have noret: "claim_key (req j) \<noteq> claim_key (req i)" if r: "is_phase s j = Returned c" for j c
  proof
    assume e: "claim_key (req j) = claim_key (req i)"
    obtain y where y: "y \<in> set (is_records s)" "id_request y = req j" "id_completedAt y \<noteq> None"
      using assms(1) r unfolding idem_ok_def results_ok_def by blast
    then have "y = x" using distinct_map_eqD [OF d(2) y(1) x(1)] x(3) e by simp
    with x(4) y(3) show False by simp
  qed
  have R: "results_ok req stored s" using assms(1) by (simp add: idem_ok_def)
  have ret: "is_phase ?s' j = Returned c \<longleftrightarrow> (if j = i then c = b else is_phase s j = Returned c)"
    "is_phase ?s' j = Replayed e \<longleftrightarrow> is_phase s j = Replayed e" for j c e
    using assms(2) by auto
  have "results_ok req stored ?s'"
    unfolding results_ok_def
  proof (intro conjI allI impI ballI)
    fix y assume y: "y \<in> set (is_records ?s')" "id_completedAt y \<noteq> None"
    show "\<exists>j c. is_phase ?s' j = Returned c \<and> id_request y = req j \<and> id_body y = Some (stored c)"
    proof (cases "y = ?x")
      case True
      with x(3) show ?thesis by (intro exI [of _ i] exI [of _ b]) simp
    next
      case False
      with y recs have "y \<in> set (is_records s)" by auto
      then obtain j c where "is_phase s j = Returned c" "id_request y = req j" "id_body y = Some (stored c)"
        using R y(2) unfolding results_ok_def by blast
      with assms(2) show ?thesis by (intro exI [of _ j] exI [of _ c]) auto
    qed
  next
    fix j c assume jr: "is_phase ?s' j = Returned c"
    show "\<exists>y \<in> set (is_records ?s'). id_request y = req j \<and> id_completedAt y \<noteq> None \<and> id_body y = Some (stored c)"
    proof (cases "j = i")
      case True
      with jr x(3) recs show ?thesis unfolding ret by auto
    next
      case False
      then have "is_phase s j = Returned c" using jr by simp
      then obtain y where "y \<in> set (is_records s)" "id_request y = req j" "id_completedAt y \<noteq> None" "id_body y = Some (stored c)"
        using R unfolding results_ok_def by blast
      with recs x(4) show ?thesis by auto
    qed
  next
    fix j k c e assume "is_phase ?s' j = Returned c" "is_phase ?s' k = Returned e" "claim_key (req j) = claim_key (req k)"
    then show "j = k"
      using R noret unfolding ret results_ok_def by (metis (full_types))
  next
    fix j e assume "is_phase ?s' j = Replayed e"
    then have "is_phase s j = Replayed e" using ret(2) by blast
    then obtain k c where "is_phase s k = Returned c" "claim_key (req k) = claim_key (req j)" "ir_hash (req k) = ir_hash (req j)"
      "e = Some (stored c)"
      using R unfolding results_ok_def by blast
    moreover from this have "k \<noteq> i" using assms(2) by auto
    ultimately show "\<exists>k c. is_phase ?s' k = Returned c \<and> claim_key (req k) = claim_key (req j) \<and> ir_hash (req k) = ir_hash (req j)
        \<and> e = Some (stored c)" by auto
  qed
  with t o show ?thesis by (simp add: idem_ok_def)
qed

lemma release_claim_ok:
  assumes "idem_ok req stored s" "is_phase s i = Releasing rid e"
  shows "idem_ok req stored (set_phase i (Failed e) (s\<lparr>is_records := release_record rid (is_records s)\<rparr>))"
    (is "idem_ok req stored ?s'")
proof -
  have own: "owned (is_phase s i) = Some rid" using assms(2) by simp
  obtain x where x: "x \<in> set (is_records s)" "id_id x = rid" "id_completedAt x = None"
    using assms(1) own unfolding idem_ok_def owners_ok_def by blast
  have d: "distinct (map id_id (is_records s))" using assms(1) by (simp add: idem_ok_def table_ok_def)
  then have only: "y = x" if "y \<in> set (is_records s)" "id_id y = rid" for y
    using distinct_map_eqD [OF d that(1) x(1)] that(2) x(2) by simp
  have recs: "set (is_records ?s') = {y \<in> set (is_records s). id_id y \<noteq> rid}" by (simp add: release_record_def)
  have t: "table_ok ?s'"
    using assms(1) by (auto simp: idem_ok_def table_ok_def release_record_def distinct_map_filter)
  have own': "owned (is_phase s j) = Some r \<and> r \<noteq> rid" if "owned (is_phase ?s' j) = Some r" for j r
    using that own assms(1) unfolding idem_ok_def owners_ok_def by (auto split: if_splits)
  have o: "owners_ok req ?s'"
    using assms(1) own' unfolding idem_ok_def owners_ok_def recs by blast
  have ret: "is_phase ?s' j = Returned c \<longleftrightarrow> is_phase s j = Returned c"
    "is_phase ?s' j = Replayed f \<longleftrightarrow> is_phase s j = Replayed f" for j c f
    using assms(2) by auto
  have keep: "y \<in> set (is_records ?s') \<longleftrightarrow> y \<in> set (is_records s)" if "id_completedAt y \<noteq> None" for y
    unfolding recs using that only [of y] x(3) by fastforce
  have R: "results_ok req stored s" using assms(1) by (simp add: idem_ok_def)
  have "results_ok req stored ?s'"
    unfolding results_ok_def ret
  proof (intro conjI)
    show "\<forall>y \<in> set (is_records ?s'). id_completedAt y \<noteq> None \<longrightarrow>
        (\<exists>j b. is_phase s j = Returned b \<and> id_request y = req j \<and> id_body y = Some (stored b))"
      using R keep unfolding results_ok_def by blast
    show "\<forall>j b. is_phase s j = Returned b \<longrightarrow>
        (\<exists>y \<in> set (is_records ?s'). id_request y = req j \<and> id_completedAt y \<noteq> None \<and> id_body y = Some (stored b))"
      using R keep unfolding results_ok_def by meson
  qed (use R in \<open>unfold results_ok_def, blast\<close>)+
  with t o show ?thesis by (simp add: idem_ok_def)
qed

text \<open>Every step keeps the invariant, so it holds in every reachable state.\<close>

lemma idem_step_ok:
  assumes "idem_step req stored s s'" "idem_ok req stored s"
  shows "idem_ok req stored s'"
  using assms
proof (cases rule: idem_step.cases)
  case (idem_lookup i)
  with assms(2) show ?thesis
    by (auto simp: claim_lookup_def split: option.split intro!: idle_phase_ok replay_phase_ok)
next
  case (idem_create i)
  show ?thesis
  proof (cases "find_claim (req i) (is_records s)")
    case None
    with idem_create assms(2) show ?thesis by (auto intro: create_claim_ok)
  next
    case (Some x)
    with idem_create assms(2) show ?thesis by (auto simp: claim_create_def intro!: idle_phase_ok)
  qed
next
  case (idem_raced i)
  with assms(2) show ?thesis
    by (auto simp: claim_raced_def split: option.split intro!: idle_phase_ok replay_phase_ok)
next
  case (idem_completed i rid b now)
  with assms(2) show ?thesis by (auto intro: complete_claim_ok)
next
  case (idem_released i rid e)
  with assms(2) show ?thesis by (auto intro: release_claim_ok)
qed (use assms(2) in \<open>auto intro!: idle_phase_ok\<close>)

lemma idem_start_ok: "idem_ok req stored idem_start"
  by (simp add: idem_ok_def table_ok_def owners_ok_def results_ok_def idem_start_def)

lemma idem_reachable_ok: "(idem_step req stored)\<^sup>*\<^sup>* idem_start s \<Longrightarrow> idem_ok req stored s"
  by (induction rule: rtranclp_induct) (auto intro: idem_start_ok idem_step_ok)

text \<open>A request that is working, or has returned a result of its own.\<close>

fun has_run :: "'b phase \<Rightarrow> bool" where
  "has_run (Running rid) = True"
| "has_run (Completing rid b) = True"
| "has_run (Releasing rid e) = True"
| "has_run (Returned b) = True"
| "has_run p = False"

lemma has_run_record:
  assumes "idem_ok req stored s" "has_run (is_phase s i)"
  shows "\<exists>x \<in> set (is_records s). id_request x = req i
    \<and> (id_completedAt x = None \<longleftrightarrow> owned (is_phase s i) = Some (id_id x))"
proof (cases "owned (is_phase s i)")
  case None
  then obtain b where "is_phase s i = Returned b" using assms(2) by (cases "is_phase s i") auto
  then obtain x where "x \<in> set (is_records s)" "id_request x = req i" "id_completedAt x \<noteq> None"
    using assms(1) unfolding idem_ok_def results_ok_def by blast
  with None show ?thesis by auto
next
  case (Some rid)
  then obtain x where "x \<in> set (is_records s)" "id_id x = rid" "id_request x = req i" "id_completedAt x = None"
    using assms(1) unfolding idem_ok_def owners_ok_def by blast
  with Some show ?thesis by auto
qed

lemma has_run_unique:
  assumes ok: "idem_ok req stored s" and runs: "has_run (is_phase s i)" "has_run (is_phase s j)"
    and key: "claim_key (req i) = claim_key (req j)"
  shows "i = j"
proof -
  obtain x where x: "x \<in> set (is_records s)" "id_request x = req i"
      "id_completedAt x = None \<longleftrightarrow> owned (is_phase s i) = Some (id_id x)"
    using has_run_record [OF ok runs(1)] by (elim bexE conjE) (rule that)
  obtain y where y: "y \<in> set (is_records s)" "id_request y = req j"
      "id_completedAt y = None \<longleftrightarrow> owned (is_phase s j) = Some (id_id y)"
    using has_run_record [OF ok runs(2)] by (elim bexE conjE) (rule that)
  have d: "distinct (map (claim_key \<circ> id_request) (is_records s))"
    using ok by (simp add: idem_ok_def table_ok_def)
  have yx: "y = x" using distinct_map_eqD [OF d y(1) x(1)] x(2) y(2) key by simp
  show ?thesis
  proof (cases "id_completedAt x = None")
    case True
    with x(3) y(3) yx show ?thesis using ok unfolding idem_ok_def owners_ok_def by metis
  next
    case False
    have "\<exists>b. is_phase s k = Returned b" if "has_run (is_phase s k)" "id_request z = req k" "z = x" for k z
    proof (cases "owned (is_phase s k)")
      case None
      with that(1) show ?thesis by (cases "is_phase s k") auto
    next
      case (Some rid)
      then obtain w where w: "w \<in> set (is_records s)" "id_request w = req k" "id_completedAt w = None"
        using ok unfolding idem_ok_def owners_ok_def by blast
      then have "w = x" using distinct_map_eqD [OF d w(1) x(1)] that(2,3) by simp
      with w(3) False show ?thesis by simp
    qed
    then obtain b c where "is_phase s i = Returned b" "is_phase s j = Returned c"
      using runs x(2) y(2) yx by metis
    with key show ?thesis using ok unfolding idem_ok_def results_ok_def by metis
  qed
qed

section \<open>Properties\<close>


text \<open>A run to the point where the first request has its result, and its two continuations.\<close>

definition demo_request :: idem_request where
  "demo_request = \<lparr>ir_key = ''k'', ir_staffId = ''s1'', ir_route = ''POST /x'', ir_hash = ''h''\<rparr>"

definition demo_running :: "nat \<Rightarrow> nat idem_state \<Rightarrow> nat idem_state" where
  "demo_running i s = set_phase i (Completing (is_next s) 7) (claim_create i demo_request (claim_lookup i demo_request s))"

definition demo_returned :: "nat \<Rightarrow> nat idem_state \<Rightarrow> nat idem_state" where
  "demo_returned i s = (let s = demo_running i s in
     set_phase i (Returned 7) (s\<lparr>is_records := complete_record 5 id (is_next s - 1) 7 (is_records s)\<rparr>))"

definition demo_unrecorded :: "nat idem_state \<Rightarrow> nat idem_state" where
  "demo_unrecorded s = set_phase 0 (Failed RecordNotFound) (s\<lparr>is_records := release_record 0 (is_records s)\<rparr>)"

abbreviation demo_steps :: "nat idem_state \<Rightarrow> nat idem_state \<Rightarrow> bool" where
  "demo_steps \<equiv> (idem_step (\<lambda>_. demo_request) id)\<^sup>*\<^sup>*"

lemma demo_running_reached:
  assumes "is_phase s i = Waiting" "find_claim demo_request (is_records s) = None"
  shows "demo_steps s (demo_running i s)"
proof -
  let ?s1 = "claim_lookup i demo_request s"
  have p1: "is_phase ?s1 i = Creating" "is_records ?s1 = is_records s" "is_next ?s1 = is_next s"
    using assms(2) by (simp_all add: claim_lookup_def)
  have 1: "idem_step (\<lambda>_. demo_request) id s ?s1"
    using idem_lookup [of s i "\<lambda>_. demo_request" id] assms(1) by simp
  have 2: "idem_step (\<lambda>_. demo_request) id ?s1 (claim_create i demo_request ?s1)"
    using idem_create [of ?s1 i "\<lambda>_. demo_request" id] p1(1) by simp
  have "is_phase (claim_create i demo_request ?s1) i = Running (is_next s)"
    using assms(2) by (simp add: claim_create_def p1)
  then have 3: "idem_step (\<lambda>_. demo_request) id (claim_create i demo_request ?s1) (demo_running i s)"
    unfolding demo_running_def by (rule idem_handled)
  from 1 2 3 show ?thesis by (meson rtranclp.rtrancl_into_rtrancl rtranclp.rtrancl_refl)
qed

lemma demo_running_facts:
  assumes "find_claim demo_request (is_records s) = None"
  shows "is_phase (demo_running i s) = (is_phase s)(i := Completing (is_next s) 7)"
    and "is_records (demo_running i s) = is_records s
       @ [\<lparr>id_id = is_next s, id_request = demo_request, id_completedAt = None, id_body = None\<rparr>]"
    and "is_next (demo_running i s) = Suc (is_next s)"
  using assms by (simp_all add: demo_running_def claim_create_def claim_lookup_def set_phase_def)

lemma demo_returned_reached:
  assumes "is_phase s i = Waiting" "find_claim demo_request (is_records s) = None"
  shows "demo_steps s (demo_returned i s)"
proof -
  note f = demo_running_facts [OF assms(2)]
  have "idem_step (\<lambda>_. demo_request) id (demo_running i s) (demo_returned i s)"
    unfolding demo_returned_def Let_def f(3) diff_Suc_1
    by (rule idem_completed) (simp add: f(1))
  with demo_running_reached [OF assms] show ?thesis by (rule rtranclp.rtrancl_into_rtrancl)
qed


text \<open>
  A completion write that fails releases the key after the handler has done its work, so the
  same key can run the handler again: a state is reachable in which one request has a result to
  record, and from it one where that request failed and a second one, with the same key and
  payload, has run the handler and returned.
\<close>

theorem failed_completion_reruns:
  "\<exists>s s'. demo_steps idem_start s \<and> is_phase s 0 = Completing 0 7 \<and> demo_steps s s'
     \<and> is_phase s' 0 = Failed RecordNotFound \<and> is_phase s' 1 = Returned 7"
proof -
  have n: "find_claim demo_request (is_records (idem_start :: nat idem_state)) = None" "is_phase (idem_start :: nat idem_state) i = Waiting"
    "is_next (idem_start :: nat idem_state) = 0" "is_records (idem_start :: nat idem_state) = []" for i
    by (simp_all add: idem_start_def find_claim_def)
  let ?s = "demo_running 0 idem_start"
  let ?m = "set_phase 0 (Releasing 0 RecordNotFound) ?s"
  let ?u = "demo_unrecorded ?m"
  note f = demo_running_facts [OF n(1)]
  have p: "is_phase ?s 0 = Completing 0 7" by (simp add: f n(3))
  then have 1: "idem_step (\<lambda>_. demo_request) id ?s ?m" by (rule idem_unrecorded)
  have 2: "idem_step (\<lambda>_. demo_request) id ?m ?u"
    unfolding demo_unrecorded_def by (rule idem_released) simp
  have u: "is_phase ?u 1 = Waiting" "find_claim demo_request (is_records ?u) = None"
    by (simp_all add: demo_unrecorded_def f n release_record_def find_claim_def)
  note g = demo_running_facts [OF u(2)]
  have "demo_steps ?s (demo_returned 1 ?u)"
    using 1 2 demo_returned_reached [OF u] by (meson converse_rtranclp_into_rtranclp)
  moreover have "is_phase (demo_returned 1 ?u) 0 = Failed RecordNotFound" "is_phase (demo_returned 1 ?u) 1 = Returned 7"
    unfolding demo_returned_def Let_def by (simp_all add: g) (simp add: demo_unrecorded_def)
  ultimately show ?thesis using demo_running_reached [OF n(2,1)] p by blast
qed

end
