(* ===== verification/Credits.thy ===== *)
theory Credits
  imports Inbox Js_Number Pagination
begin

text \<open>
  \<open>modules/credits/credits.service.ts\<close>: credit adjustments.  The wallet moves in api-core; what
  it answers to a ledger call is the argument \<open>ledger\<close> of each operation, and the calls handed
  to it are recorded.  \<open>column\<close> is what the Decimal(19,4) column makes of the amount's text.
\<close>

section \<open>Amounts\<close>

text \<open>\<open>amount > threshold\<close> and \<open>amount <= 0\<close> on a Number, and Number.isFinite.\<close>

fun num_exceeds :: "js_num \<Rightarrow> int \<Rightarrow> bool" where
  "num_exceeds (Fin m e) t = (if 0 \<le> e then t < m * 2 ^ nat e else t * 2 ^ nat (- e) < m)"
| "num_exceeds (Infinite neg) t = (\<not> neg)"
| "num_exceeds NaN t = False"

fun isFinite :: "js_num \<Rightarrow> bool" where
  "isFinite (Fin m e) = True"
| "isFinite x = False"

definition valid_amount :: "string \<Rightarrow> bool" where
  "valid_amount s \<longleftrightarrow> isFinite (js_Number s) \<and> num_exceeds (js_Number s) 0"

definition above :: "int \<Rightarrow> string \<Rightarrow> bool" where
  "above threshold amountNgn \<longleftrightarrow> num_exceeds (js_Number amountNgn) threshold"

section \<open>Rows and ledger calls\<close>

datatype direction = CREDIT | DEBIT

fun direction_name :: "direction \<Rightarrow> string" where
  "direction_name CREDIT = ''CREDIT''"
| "direction_name DEBIT = ''DEBIT''"

datatype adjustment_status = PENDING_APPROVAL | APPROVED | APPLIED | REJECTED | FAILED

fun adjustment_status_name :: "adjustment_status \<Rightarrow> string" where
  "adjustment_status_name PENDING_APPROVAL = ''PENDING_APPROVAL''"
| "adjustment_status_name APPROVED = ''APPROVED''"
| "adjustment_status_name APPLIED = ''APPLIED''"
| "adjustment_status_name REJECTED = ''REJECTED''"
| "adjustment_status_name FAILED = ''FAILED''"

record adjustment_row =
  ca_id :: string
  ca_accountId :: string
  ca_direction :: direction
  ca_amountNgn :: string
  ca_reason :: string
  ca_status :: adjustment_status
  ca_idempotencyKey :: string
  ca_requestedById :: string
  ca_approvedById :: "string option"
  ca_approvedAt :: "millis option"
  ca_rejectedReason :: "string option"
  ca_ledgerTxnId :: "string option"
  ca_appliedAt :: "millis option"
  ca_failureReason :: "string option"
  ca_createdAt :: millis

record ledger_call =
  lc_accountId :: string
  lc_direction :: direction
  lc_amount :: string
  lc_reason :: string
  lc_idempotencyKey :: string
  lc_recordedBy :: string

record ledger_reply =
  lr_transactionId :: string
  lr_balanceAfter :: "string option"

text \<open>The answer may be an empty body, which the client returns as null.\<close>

type_synonym ledger = "ledger_call \<Rightarrow> ledger_reply option result"

record credit_state =
  cr_rows :: "adjustment_row list"
  cr_accounts :: "string \<Rightarrow> string option"
  cr_inbox :: inbox_state
  cr_calls :: "ledger_call list"
  cr_audit :: "audit_row list"

record credit_request =
  cq_direction :: direction
  cq_amountNgn :: string
  cq_reason :: string

datatype credit_reply =
    Awaiting string adjustment_status
  | Settled string adjustment_status "string option" "string option"
  | Marked string adjustment_status

section \<open>Operations\<close>

definition find_adjustment :: "string \<Rightarrow> credit_state \<Rightarrow> adjustment_row option" where
  "find_adjustment aid s = find_row (\<lambda>a. ca_id a = aid) (cr_rows s)"

definition update_adjustment :: "string \<Rightarrow> (adjustment_row \<Rightarrow> adjustment_row) \<Rightarrow> credit_state \<Rightarrow> credit_state" where
  "update_adjustment aid f s = s\<lparr>cr_rows := update_where (\<lambda>a. ca_id a = aid) f (cr_rows s)\<rparr>"

definition credit_log :: "audit_entry \<Rightarrow> credit_state \<Rightarrow> credit_state" where
  "credit_log e s = s\<lparr>cr_audit := audit_record e (cr_audit s)\<rparr>"

definition call_of :: "principal \<Rightarrow> adjustment_row \<Rightarrow> ledger_call" where
  "call_of actor a = \<lparr>lc_accountId = ca_accountId a, lc_direction = ca_direction a,
     lc_amount = ca_amountNgn a, lc_reason = ca_reason a,
     lc_idempotencyKey = ca_idempotencyKey a, lc_recordedBy = sp_email actor\<rparr>"

definition apply_adjustment ::
  "ledger \<Rightarrow> principal \<Rightarrow> millis \<Rightarrow> string \<Rightarrow> credit_state \<Rightarrow> (credit_state, credit_reply) outcome" where
  "apply_adjustment ledger actor now aid s =
     (case find_adjustment aid s of
        None \<Rightarrow> throws RecordNotFound s
      | Some a \<Rightarrow>
         (let s1 = s\<lparr>cr_calls := cr_calls s @ [call_of actor a]\<rparr> in
          case ledger (call_of actor a) of
            Inl e \<Rightarrow> throws e (update_adjustment aid (\<lambda>r. r\<lparr>ca_status := FAILED,
                       ca_failureReason := Some (take 500 (error_message e))\<rparr>) s1)
          | Inr reply \<Rightarrow>
             (let txn = map_option lr_transactionId reply;
                  balance = (case reply of None \<Rightarrow> None | Some r \<Rightarrow> lr_balanceAfter r);
                  s2 = update_adjustment aid (\<lambda>r. r\<lparr>ca_status := APPLIED,
                         ca_ledgerTxnId := txn, ca_appliedAt := Some now\<rparr>) s1;
                  s3 = credit_log (staff_entry actor ''credits.adjust_applied'' ''account'' (ca_accountId a)
                         (Some (ca_reason a)) JNull
                         (JObj [(''adjustmentId'', JStr aid), (''ledgerTxnId'', jstr_opt txn),
                            (''balanceAfter'', jstr_opt balance)]) JNull) s2
              in returns (Settled aid APPLIED txn balance) s3)))"

text \<open>Everyone active whose role carries credits.approve, told in the inbox only.\<close>

definition approvers :: "inbox_state \<Rightarrow> staff_row list" where
  "approvers ib = filter (\<lambda>st. st_status st = ACTIVE
     \<and> js_includes (role_permissions (ib_roles ib) (st_roleId st)) ''credits.approve'') (ib_staff ib)"

definition approval_alert :: "string \<Rightarrow> string \<Rightarrow> string \<Rightarrow> staff_alert" where
  "approval_alert aid accountId amountNgn = \<lparr>al_type = ''credits.approval_required'', al_severity = HIGH,
     al_title = ''Credit adjustment of '' @ amountNgn @ '' needs approval'',
     al_body = Some (''Account '' @ accountId), al_link = Some (''/credit-adjustments/'' @ aid)\<rparr>"

definition notifyApprovers :: "string \<Rightarrow> string \<Rightarrow> string \<Rightarrow> inbox_state \<Rightarrow> inbox_state" where
  "notifyApprovers aid accountId amountNgn ib =
     (if approvers ib = [] then ib
      else ib\<lparr>ib_notes := ib_notes ib
                @ new_notes (ib_nextNote ib) (approval_alert aid accountId amountNgn) (map st_id (approvers ib)),
              ib_nextNote := ib_nextNote ib + length (approvers ib)\<rparr>)"

definition new_adjustment ::
  "int \<Rightarrow> (string \<Rightarrow> string) \<Rightarrow> principal \<Rightarrow> millis \<Rightarrow> string \<Rightarrow> string \<Rightarrow> string \<Rightarrow> credit_request \<Rightarrow> adjustment_row" where
  "new_adjustment threshold column actor now aid uuid accountId input =
     (let needsApproval = above threshold (cq_amountNgn input) in
      \<lparr>ca_id = aid, ca_accountId = accountId, ca_direction = cq_direction input,
       ca_amountNgn = column (cq_amountNgn input), ca_reason = cq_reason input,
       ca_status = (if needsApproval then PENDING_APPROVAL else APPROVED),
       ca_idempotencyKey = uuid, ca_requestedById = sp_id actor,
       ca_approvedById = (if needsApproval then None else Some (sp_id actor)),
       ca_approvedAt = (if needsApproval then None else Some now),
       ca_rejectedReason = None, ca_ledgerTxnId = None, ca_appliedAt = None, ca_failureReason = None,
       ca_createdAt = now\<rparr>)"

definition request_entry :: "int \<Rightarrow> principal \<Rightarrow> string \<Rightarrow> string \<Rightarrow> string \<Rightarrow> credit_request \<Rightarrow> audit_entry" where
  "request_entry threshold actor aid accountId balance input =
     staff_entry actor ''credits.adjust_requested'' ''account'' accountId (Some (cq_reason input)) JNull
       (JObj [(''adjustmentId'', JStr aid), (''direction'', JStr (direction_name (cq_direction input))),
          (''amountNgn'', JStr (cq_amountNgn input)), (''needsApproval'', JBool (above threshold (cq_amountNgn input)))])
       (JObj [(''thresholdNgn'', JInt threshold), (''balanceBefore'', JStr balance)])"

definition request_adjustment ::
  "int \<Rightarrow> (string \<Rightarrow> string) \<Rightarrow> ledger \<Rightarrow> principal \<Rightarrow> millis \<Rightarrow> string \<Rightarrow> string \<Rightarrow> string \<Rightarrow> credit_request
   \<Rightarrow> credit_state \<Rightarrow> (credit_state, credit_reply) outcome" where
  "request_adjustment threshold column ledger actor now aid uuid accountId input s =
     (if \<not> valid_amount (cq_amountNgn input) then throws (BadRequest ''amountNgn must be a positive decimal'') s
      else (case cr_accounts s accountId of
          None \<Rightarrow> throws (NotFound ''Account not found'') s
        | Some balance \<Rightarrow>
           if \<exists>a \<in> set (cr_rows s). ca_id a = aid \<or> ca_idempotencyKey a = uuid then throws UniqueViolation s
           else
             (let s1 = s\<lparr>cr_rows := cr_rows s @ [new_adjustment threshold column actor now aid uuid accountId input]\<rparr>;
                  s2 = credit_log (request_entry threshold actor aid accountId balance input) s1
              in if above threshold (cq_amountNgn input)
                 then returns (Awaiting aid PENDING_APPROVAL)
                   (s2\<lparr>cr_inbox := notifyApprovers aid accountId (cq_amountNgn input) (cr_inbox s2)\<rparr>)
                 else apply_adjustment ledger actor now aid s2)))"

definition approve_adjustment ::
  "ledger \<Rightarrow> principal \<Rightarrow> millis \<Rightarrow> string \<Rightarrow> string \<Rightarrow> credit_state \<Rightarrow> (credit_state, credit_reply) outcome" where
  "approve_adjustment ledger actor now aid reason s =
     (case find_adjustment aid s of
        None \<Rightarrow> throws (NotFound ''Adjustment not found'') s
      | Some a \<Rightarrow>
          if ca_status a \<noteq> PENDING_APPROVAL
          then throws (Conflict (''Adjustment is '' @ adjustment_status_name (ca_status a) @ '', not awaiting approval'')) s
          else if ca_requestedById a = sp_id actor
          then throws (Forbidden ''A second approver is required; you raised this adjustment'') s
          else
            (let s1 = update_adjustment aid (\<lambda>r. r\<lparr>ca_status := APPROVED,
                        ca_approvedById := Some (sp_id actor), ca_approvedAt := Some now\<rparr>) s;
                 s2 = credit_log (staff_entry actor ''credits.adjust_approved'' ''credit_adjustment'' aid (Some reason) JNull
                        (JObj [(''accountId'', JStr (ca_accountId a)), (''amountNgn'', JStr (ca_amountNgn a))]) JNull) s1
             in apply_adjustment ledger actor now aid s2))"

definition reject_adjustment ::
  "principal \<Rightarrow> string \<Rightarrow> string \<Rightarrow> credit_state \<Rightarrow> (credit_state, credit_reply) outcome" where
  "reject_adjustment actor aid reason s =
     (case find_adjustment aid s of
        None \<Rightarrow> throws RecordNotFound s
      | Some a \<Rightarrow> returns (Marked aid REJECTED)
          (credit_log (staff_entry actor ''credits.adjust_rejected'' ''credit_adjustment'' aid (Some reason) JNull JNull JNull)
            (update_adjustment aid (\<lambda>r. r\<lparr>ca_status := REJECTED, ca_rejectedReason := Some reason\<rparr>) s)))"

definition retry_adjustment ::
  "ledger \<Rightarrow> principal \<Rightarrow> millis \<Rightarrow> string \<Rightarrow> credit_state \<Rightarrow> (credit_state, credit_reply) outcome" where
  "retry_adjustment ledger actor now aid s =
     (case find_adjustment aid s of
        None \<Rightarrow> throws RecordNotFound s
      | Some a \<Rightarrow>
          if ca_status a \<noteq> FAILED
          then throws (Conflict (''Only FAILED adjustments can be retried; this is '' @ adjustment_status_name (ca_status a))) s
          else apply_adjustment ledger actor now aid s)"

definition list_adjustments ::
  "cursor_key option \<Rightarrow> nat option \<Rightarrow> string \<Rightarrow> adjustment_status option \<Rightarrow> adjustment_row list \<Rightarrow> (adjustment_row, cursor_key) page" where
  "list_adjustments cursor limit accountId status rows =
     (let limit = (case limit of None \<Rightarrow> 50 | Some n \<Rightarrow> n); key = (\<lambda>a. (ca_createdAt a, ca_id a)) in
      buildPage key (findMany_desc key cursor (limit + 1)
        (filter (\<lambda>a. (accountId = [] \<or> ca_accountId a = accountId)
           \<and> (case status of None \<Rightarrow> True | Some x \<Rightarrow> ca_status a = x)) rows)) limit)"

text \<open>Any run of the service: each operation by anyone, with any answer of the ledger.\<close>

inductive credit_step :: "int \<Rightarrow> (string \<Rightarrow> string) \<Rightarrow> credit_state \<Rightarrow> credit_state \<Rightarrow> bool" for threshold column where
  credit_requested: "credit_step threshold column s (snd (request_adjustment threshold column ledger actor now aid uuid accountId input s))"
| credit_approved: "credit_step threshold column s (snd (approve_adjustment ledger actor now aid reason s))"
| credit_rejected: "credit_step threshold column s (snd (reject_adjustment actor aid reason s))"
| credit_retried: "credit_step threshold column s (snd (retry_adjustment ledger actor now aid s))"

end
