(* ===== verification/Credit_Facts.thy ===== *)
theory Credit_Facts
  imports Credits
begin

text \<open>
  What the credit adjustments promise: no ledger call above the threshold without a second
  approver, one idempotency key per adjustment on every call, and the effect of a request.
\<close>

section \<open>The invariant\<close>

definition approved_row :: "int \<Rightarrow> adjustment_row \<Rightarrow> bool" where
  "approved_row threshold a \<longleftrightarrow> (\<exists>q. ca_approvedById a = Some q
     \<and> (above threshold (ca_amountNgn a) \<longrightarrow> q \<noteq> ca_requestedById a))"

definition call_for :: "adjustment_row \<Rightarrow> ledger_call \<Rightarrow> bool" where
  "call_for a c \<longleftrightarrow> lc_idempotencyKey c = ca_idempotencyKey a \<and> lc_accountId c = ca_accountId a
     \<and> lc_direction c = ca_direction a \<and> lc_amount c = ca_amountNgn a \<and> lc_reason c = ca_reason a"

definition status_ok :: "int \<Rightarrow> adjustment_row \<Rightarrow> bool" where
  "status_ok threshold a \<longleftrightarrow> (if ca_status a = PENDING_APPROVAL then ca_approvedById a = None
     else ca_status a \<noteq> REJECTED \<longrightarrow> approved_row threshold a)"

definition called :: "credit_state \<Rightarrow> adjustment_row \<Rightarrow> bool" where
  "called s a \<longleftrightarrow> (\<exists>c \<in> set (cr_calls s). lc_idempotencyKey c = ca_idempotencyKey a)"

definition credit_ok :: "int \<Rightarrow> credit_state \<Rightarrow> bool" where
  "credit_ok threshold s \<longleftrightarrow>
     distinct (map ca_id (cr_rows s)) \<and> distinct (map ca_idempotencyKey (cr_rows s))
     \<and> (\<forall>a \<in> set (cr_rows s). status_ok threshold a \<and> (ca_status a = APPLIED \<longrightarrow> called s a))
     \<and> (\<forall>c \<in> set (cr_calls s). \<exists>a \<in> set (cr_rows s). call_for a c \<and> approved_row threshold a)"

text \<open>An update of one row that keeps what the ledger calls carry.\<close>

definition keeps_terms :: "(adjustment_row \<Rightarrow> adjustment_row) \<Rightarrow> bool" where
  "keeps_terms f \<longleftrightarrow> (\<forall>a. ca_id (f a) = ca_id a \<and> ca_idempotencyKey (f a) = ca_idempotencyKey a
     \<and> ca_accountId (f a) = ca_accountId a \<and> ca_direction (f a) = ca_direction a
     \<and> ca_amountNgn (f a) = ca_amountNgn a \<and> ca_reason (f a) = ca_reason a
     \<and> ca_requestedById (f a) = ca_requestedById a)"

lemma find_adjustment_Some:
  "find_adjustment aid s = Some a \<Longrightarrow> a \<in> set (cr_rows s) \<and> ca_id a = aid"
  by (auto simp: find_adjustment_def dest: find_row_SomeD)

lemma credit_log_simps [simp]:
  "cr_rows (credit_log e s) = cr_rows s" "cr_calls (credit_log e s) = cr_calls s"
  "cr_accounts (credit_log e s) = cr_accounts s" "cr_inbox (credit_log e s) = cr_inbox s"
  "find_adjustment aid (credit_log e s) = find_adjustment aid s"
  "credit_ok t (credit_log e s) = credit_ok t s"
  "credit_ok t (s\<lparr>cr_inbox := ib\<rparr>) = credit_ok t s"
  by (simp_all add: credit_log_def find_adjustment_def credit_ok_def called_def)

lemma update_adjustment_simps [simp]:
  "cr_calls (update_adjustment aid f s) = cr_calls s" "cr_inbox (update_adjustment aid f s) = cr_inbox s"
  "cr_rows (update_adjustment aid f s) = update_where (\<lambda>a. ca_id a = aid) f (cr_rows s)"
  by (simp_all add: update_adjustment_def)

lemma credit_ok_unique:
  assumes "credit_ok t s" "x \<in> set (cr_rows s)" "y \<in> set (cr_rows s)" "ca_id x = ca_id y"
  shows "x = y"
  using assms unfolding credit_ok_def by (metis distinct_map inj_onD)

text \<open>
  The row \<open>a\<close> may be rewritten by \<open>f\<close> if the new row is in order and keeps \<open>a\<close>'s approval
  whenever a call was made for it.
\<close>

lemma update_adjustment_ok:
  assumes ok: "credit_ok t s" and a: "a \<in> set (cr_rows s)" "ca_id a = aid" and f: "keeps_terms f"
    and new: "status_ok t (f a)" "ca_status (f a) = APPLIED \<Longrightarrow> called s a"
    and approved: "approved_row t a \<Longrightarrow> approved_row t (f a)"
  shows "credit_ok t (update_adjustment aid f s)"
proof -
  have only: "ca_id x = aid \<longleftrightarrow> x = a" if "x \<in> set (cr_rows s)" for x
    using credit_ok_unique [OF ok that a(1)] a(2) by auto
  have ids: "map ca_id (update_where (\<lambda>a. ca_id a = aid) f (cr_rows s)) = map ca_id (cr_rows s)"
    "map ca_idempotencyKey (update_where (\<lambda>a. ca_id a = aid) f (cr_rows s)) = map ca_idempotencyKey (cr_rows s)"
    using f by (auto simp: keeps_terms_def map_update_where)
  let ?s = "update_adjustment aid f s"
  have old: "status_ok t x \<and> (ca_status x = APPLIED \<longrightarrow> called s x)" if "x \<in> set (cr_rows s)" for x
    using ok that by (simp add: credit_ok_def)
  have "status_ok t y \<and> (ca_status y = APPLIED \<longrightarrow> called ?s y)" if y: "y \<in> set (cr_rows ?s)" for y
  proof -
    obtain x where x: "x \<in> set (cr_rows s)" "y = (if ca_id x = aid then f x else x)"
      using y by (auto simp: set_update_where)
    show ?thesis
    proof (cases "x = a")
      case True
      then have "y = f a" using x only by auto
      with new f show ?thesis by (auto simp: called_def keeps_terms_def)
    next
      case False
      then have "y = x" using x only by auto
      with old [OF x(1)] show ?thesis by (simp add: called_def)
    qed
  qed
  moreover have "\<exists>y \<in> set (cr_rows ?s). call_for y c \<and> approved_row t y" if c: "c \<in> set (cr_calls s)" for c
  proof -
    obtain x where x: "x \<in> set (cr_rows s)" "call_for x c" "approved_row t x"
      using ok c unfolding credit_ok_def by blast
    let ?y = "if ca_id x = aid then f x else x"
    have "?y \<in> set (cr_rows ?s)" using x(1) by (auto simp: set_update_where)
    moreover have "call_for ?y c" using x(2) f by (auto simp: call_for_def keeps_terms_def)
    moreover have "approved_row t ?y" using x approved only by (cases "x = a") auto
    ultimately show ?thesis by blast
  qed
  ultimately show ?thesis
    using ok ids unfolding credit_ok_def by simp
qed

lemma add_call_ok:
  assumes "credit_ok t s" "a \<in> set (cr_rows s)" "approved_row t a"
  shows "credit_ok t (s\<lparr>cr_calls := cr_calls s @ [call_of actor a]\<rparr>)"
proof -
  have "call_for a (call_of actor a)" by (simp add: call_for_def call_of_def)
  with assms show ?thesis unfolding credit_ok_def called_def by auto
qed

lemma apply_adjustment_ok:
  assumes ok: "credit_ok t s"
    and approved: "\<And>a. find_adjustment aid s = Some a \<Longrightarrow> ca_status a \<in> {APPROVED, FAILED}"
  shows "credit_ok t (snd (apply_adjustment ledger actor now aid s))"
proof (cases "find_adjustment aid s")
  case None
  with ok show ?thesis by (simp add: apply_adjustment_def)
next
  case (Some a)
  note a = find_adjustment_Some [OF Some]
  have ap: "approved_row t a"
    using ok a approved [OF Some] unfolding credit_ok_def status_ok_def by auto
  let ?s = "s\<lparr>cr_calls := cr_calls s @ [call_of actor a]\<rparr>"
  have s1: "credit_ok t ?s" by (rule add_call_ok [OF ok _ ap]) (use a in simp)
  have "call_of actor a \<in> set (cr_calls ?s)" "lc_idempotencyKey (call_of actor a) = ca_idempotencyKey a"
    by (simp_all add: call_of_def)
  then have called: "called ?s a" unfolding called_def by blast
  have upd: "credit_ok t (update_adjustment aid f ?s)"
    if "keeps_terms f" "\<And>r. ca_approvedById (f r) = ca_approvedById r" "ca_status (f a) \<in> {FAILED, APPLIED}" for f
  proof (rule update_adjustment_ok [OF s1])
    have "approved_row t (f a)" using ap that(1,2) by (simp add: approved_row_def keeps_terms_def)
    then show "status_ok t (f a)" "approved_row t (f a)" using that(3) by (auto simp: status_ok_def)
  qed (use a that(1) called in auto)
  show ?thesis
  proof (cases "ledger (call_of actor a)")
    case (Inl e)
    with Some show ?thesis by (simp add: apply_adjustment_def Let_def) (rule upd, auto simp: keeps_terms_def)
  next
    case (Inr reply)
    with Some show ?thesis by (simp add: apply_adjustment_def Let_def) (rule upd, auto simp: keeps_terms_def)
  qed
qed

lemma request_adjustment_ok:
  assumes ok: "credit_ok t s" and column: "\<And>x. above t (column x) \<Longrightarrow> above t x"
  shows "credit_ok t (snd (request_adjustment t column ledger actor now aid uuid accountId input s))"
proof (cases "valid_amount (cq_amountNgn input) \<and> cr_accounts s accountId \<noteq> None
    \<and> \<not> (\<exists>a \<in> set (cr_rows s). ca_id a = aid \<or> ca_idempotencyKey a = uuid)")
  case False
  with ok show ?thesis by (auto simp: request_adjustment_def split: option.split)
next
  case True
  then obtain balance where b: "cr_accounts s accountId = Some balance" by auto
  let ?a = "new_adjustment t column actor now aid uuid accountId input"
  let ?s1 = "s\<lparr>cr_rows := cr_rows s @ [?a]\<rparr>"
  have "status_ok t ?a" "ca_status ?a \<noteq> APPLIED"
    using column by (auto simp: new_adjustment_def Let_def status_ok_def approved_row_def)
  moreover have "ca_id ?a = aid" "ca_idempotencyKey ?a = uuid" by (simp_all add: new_adjustment_def Let_def)
  ultimately have s1: "credit_ok t ?s1"
    using ok True unfolding credit_ok_def called_def by auto
  have f: "find_adjustment aid ?s1 = Some ?a"
  proof -
    have "find_row (\<lambda>a. ca_id a = aid) (cr_rows s) = None" using True by (auto simp: find_row_None_iff)
    with \<open>ca_id ?a = aid\<close> show ?thesis by (simp add: find_adjustment_def find_row_append)
  qed
  show ?thesis
  proof (cases "above t (cq_amountNgn input)")
    case a: True
    with True b s1 show ?thesis by (auto simp: request_adjustment_def Let_def)
  next
    case a: False
    have "ca_status ?a = APPROVED" using a by (simp add: new_adjustment_def Let_def)
    then have "credit_ok t (snd (apply_adjustment ledger actor now aid
        (credit_log (request_entry t actor aid accountId balance input) ?s1)))"
      by (intro apply_adjustment_ok) (use s1 f in auto)
    moreover have "request_adjustment t column ledger actor now aid uuid accountId input s
        = apply_adjustment ledger actor now aid (credit_log (request_entry t actor aid accountId balance input) ?s1)"
      using True a b by (simp add: request_adjustment_def Let_def)
    ultimately show ?thesis by simp
  qed
qed

lemma approve_adjustment_ok:
  assumes ok: "credit_ok t s"
  shows "credit_ok t (snd (approve_adjustment ledger actor now aid reason s))"
proof (cases "find_adjustment aid s")
  case None
  with ok show ?thesis by (simp add: approve_adjustment_def)
next
  case (Some a)
  note a = find_adjustment_Some [OF Some]
  show ?thesis
  proof (cases "ca_status a = PENDING_APPROVAL \<and> ca_requestedById a \<noteq> sp_id actor")
    case False
    with Some ok show ?thesis by (auto simp: approve_adjustment_def)
  next
    case True
    let ?f = "\<lambda>r. r\<lparr>ca_status := APPROVED, ca_approvedById := Some (sp_id actor), ca_approvedAt := Some now\<rparr>"
    have s1: "credit_ok t (update_adjustment aid ?f s)"
      by (rule update_adjustment_ok [OF ok]) (use a True in \<open>auto simp: keeps_terms_def status_ok_def approved_row_def\<close>)
    have f: "find_adjustment aid (update_adjustment aid ?f s) = Some (?f a)"
      using Some a by (simp add: find_adjustment_def find_row_update_where)
    have r: "snd (approve_adjustment ledger actor now aid reason s) =
        snd (apply_adjustment ledger actor now aid
          (credit_log (staff_entry actor ''credits.adjust_approved'' ''credit_adjustment'' aid (Some reason) JNull
             (JObj [(''accountId'', JStr (ca_accountId a)), (''amountNgn'', JStr (ca_amountNgn a))]) JNull)
           (update_adjustment aid ?f s)))"
      using True Some by (auto simp: approve_adjustment_def Let_def)
    show ?thesis
      unfolding r by (rule apply_adjustment_ok) (use s1 f in auto)
  qed
qed

lemma reject_adjustment_ok:
  assumes ok: "credit_ok t s"
  shows "credit_ok t (snd (reject_adjustment actor aid reason s))"
proof (cases "find_adjustment aid s")
  case (Some a)
  have "credit_ok t (update_adjustment aid (\<lambda>r. r\<lparr>ca_status := REJECTED, ca_rejectedReason := Some reason\<rparr>) s)"
    by (rule update_adjustment_ok [OF ok])
      (use find_adjustment_Some [OF Some] in \<open>auto simp: keeps_terms_def status_ok_def approved_row_def\<close>)
  with Some show ?thesis by (simp add: reject_adjustment_def)
qed (use ok in \<open>simp add: reject_adjustment_def\<close>)

lemma retry_adjustment_ok:
  assumes ok: "credit_ok t s"
  shows "credit_ok t (snd (retry_adjustment ledger actor now aid s))"
proof (cases "find_adjustment aid s")
  case (Some a)
  show ?thesis
  proof (cases "ca_status a = FAILED")
    case True
    with Some have "snd (retry_adjustment ledger actor now aid s) = snd (apply_adjustment ledger actor now aid s)"
      by (simp add: retry_adjustment_def)
    with apply_adjustment_ok [OF ok, of aid] Some True show ?thesis by simp
  qed (use Some ok in \<open>simp add: retry_adjustment_def\<close>)
qed (use ok in \<open>simp add: retry_adjustment_def\<close>)

definition credit_start :: "credit_state \<Rightarrow> bool" where
  "credit_start s \<longleftrightarrow> cr_rows s = [] \<and> cr_calls s = []"

lemma credit_reachable_ok:
  assumes "(credit_step t column)\<^sup>*\<^sup>* s0 s" "credit_start s0" "\<And>x. above t (column x) \<Longrightarrow> above t x"
  shows "credit_ok t s"
  using assms(1)
proof (induction rule: rtranclp_induct)
  case base
  with assms(2) show ?case by (simp add: credit_ok_def credit_start_def)
next
  case (step s s')
  from step.hyps(2) show ?case
    by cases (use step.IH assms(3) in
      \<open>auto intro: request_adjustment_ok approve_adjustment_ok reject_adjustment_ok retry_adjustment_ok\<close>)
qed

section \<open>Properties\<close>

definition demo_staff :: "string \<Rightarrow> principal" where
  "demo_staff i = \<lparr>sp_id = i, sp_email = i @ ''@x'', sp_name = i, sp_roleId = ''r'', sp_roleKey = ''finance'',
     sp_permissions = [], sp_sessionId = ''s'', sp_sessionEpoch = 0, sp_ip = None, sp_userAgent = None,
     sp_impersonating = None\<rparr>"

definition demo_credits :: credit_state where
  "demo_credits = \<lparr>cr_rows = [], cr_accounts = [''acc'' \<mapsto> ''10''],
     cr_inbox = \<lparr>ib_staff = [], ib_roles = [], ib_notes = [], ib_nextNote = 0, ib_pushed = [], ib_mails = []\<rparr>,
     cr_calls = [], cr_audit = []\<rparr>"

definition demo_input :: credit_request where
  "demo_input = \<lparr>cq_direction = CREDIT, cq_amountNgn = ''250000'', cq_reason = ''goodwill''\<rparr>"

definition demo_raised :: credit_state where
  "demo_raised = snd (request_adjustment 100000 (\<lambda>x. x) (\<lambda>_. Inr None) (demo_staff ''a'') 1 ''adj'' ''key'' ''acc'' demo_input demo_credits)"

definition demo_applied :: credit_state where
  "demo_applied = snd (approve_adjustment (\<lambda>_. Inr None) (demo_staff ''b'') 2 ''adj'' ''checked'' demo_raised)"

text \<open>An integral number against an integer.\<close>

lemma num_exceeds_int: "num_int x = Some n \<Longrightarrow> num_exceeds x t \<longleftrightarrow> t < n"
proof (induction x rule: num_int.induct)
  case (1 m e)
  show ?case
  proof (cases "0 \<le> e")
    case False
    then have "n * 2 ^ nat (- e) = m" using 1 by (auto split: if_splits)
    with False show ?thesis by auto
  qed (use 1 in auto)
qed auto

lemma num_int_isFinite: "num_int x = Some n \<Longrightarrow> isFinite x"
  by (cases x) auto

lemma demo_amount: "valid_amount ''250000''" "above 100000 ''250000''"
proof -
  have d: "list_all is_digit ''250000''" by code_simp
  have v: "radix_value 10 ''250000'' = 250000"
    by (simp add: radix_value_def digit_value_def is_digit_def)
  have n: "num_int (js_Number ''250000'') = Some 250000"
    using js_Number_digits [OF d] v by simp
  show "valid_amount ''250000''" "above 100000 ''250000''"
    by (simp_all add: valid_amount_def above_def num_exceeds_int [OF n] num_int_isFinite [OF n])
qed

lemma demo_raised_rows:
  "cr_rows demo_raised = [new_adjustment 100000 (\<lambda>x. x) (demo_staff ''a'') 1 ''adj'' ''key'' ''acc'' demo_input]"
  "cr_calls demo_raised = []"
  by (simp_all add: demo_raised_def request_adjustment_def demo_input_def demo_amount demo_credits_def Let_def)

lemma demo_applied_facts:
  "map ca_status (cr_rows demo_applied) = [APPLIED]" "map ca_id (cr_rows demo_applied) = [''adj'']"
  "map lc_idempotencyKey (cr_calls demo_applied) = [''key'']" "map lc_amount (cr_calls demo_applied) = [''250000'']"
  by (simp_all add: demo_applied_def approve_adjustment_def find_adjustment_def demo_raised_rows new_adjustment_def
    Let_def demo_input_def demo_amount demo_staff_def apply_adjustment_def call_of_def)

lemma demo_applied_reached: "(credit_step 100000 (\<lambda>x. x))\<^sup>*\<^sup>* demo_credits demo_applied"
proof -
  have "credit_step 100000 (\<lambda>x. x) demo_credits demo_raised"
    unfolding demo_raised_def by (rule credit_requested)
  moreover have "credit_step 100000 (\<lambda>x. x) demo_raised demo_applied"
    unfolding demo_applied_def by (rule credit_approved)
  ultimately show ?thesis by (meson rtranclp.rtrancl_into_rtrancl rtranclp.rtrancl_refl)
qed

text \<open>
  C4. Four eyes on large adjustments.  Whatever sequence of requests, approvals, rejections and
  retries is run, by anyone and with any answers of the ledger, every call that moves money
  carries the terms of an adjustment on record; and if its amount is above the threshold, that
  adjustment was approved by a staff member other than the one who asked for it.  The only
  assumption is that storing an amount in the decimal column does not lift it over the
  threshold.
\<close>

theorem credit_four_eyes:
  assumes "(credit_step threshold column)\<^sup>*\<^sup>* s0 s" "credit_start s0"
    and "\<And>x. above threshold (column x) \<Longrightarrow> above threshold x"
  shows "\<forall>c \<in> set (cr_calls s). \<exists>a \<in> set (cr_rows s). call_for a c
    \<and> (above threshold (lc_amount c) \<longrightarrow> (\<exists>q. ca_approvedById a = Some q \<and> q \<noteq> ca_requestedById a))"
proof
  fix c assume "c \<in> set (cr_calls s)"
  then obtain a where a: "a \<in> set (cr_rows s)" "call_for a c" "approved_row threshold a"
    using credit_reachable_ok [OF assms] unfolding credit_ok_def by blast
  then have "above threshold (lc_amount c) \<longrightarrow> (\<exists>q. ca_approvedById a = Some q \<and> q \<noteq> ca_requestedById a)"
    by (auto simp: call_for_def approved_row_def)
  with a show "\<exists>a \<in> set (cr_rows s). call_for a c
    \<and> (above threshold (lc_amount c) \<longrightarrow> (\<exists>q. ca_approvedById a = Some q \<and> q \<noteq> ca_requestedById a))" by blast
qed

theorem credit_four_eyes_witness:
  "map lc_amount (cr_calls demo_applied) = [''250000''] \<and> above 100000 ''250000''
    \<and> (\<exists>c \<in> set (cr_calls demo_applied). \<exists>a \<in> set (cr_rows demo_applied). call_for a c
      \<and> (\<exists>q. ca_approvedById a = Some q \<and> q \<noteq> ca_requestedById a))"
proof -
  obtain c where c: "cr_calls demo_applied = [c]" "lc_amount c = ''250000''" using demo_applied_facts(4) by auto
  have "credit_start demo_credits" by (simp add: credit_start_def demo_credits_def)
  from credit_four_eyes [OF demo_applied_reached this] c demo_amount(2) show ?thesis by simp
qed

text \<open>
  C24. A ledger call can be repeated safely.  In any run, two calls with the same idempotency key
  are the same movement (account, direction, amount and reason), and an adjustment shown as
  applied has had a call with its key; no two adjustments share a key.
\<close>

theorem ledger_calls_replay_safe:
  assumes "(credit_step threshold column)\<^sup>*\<^sup>* s0 s" "credit_start s0"
    and "\<And>x. above threshold (column x) \<Longrightarrow> above threshold x"
  shows "(\<forall>c \<in> set (cr_calls s). \<forall>d \<in> set (cr_calls s). lc_idempotencyKey c = lc_idempotencyKey d \<longrightarrow>
        lc_accountId c = lc_accountId d \<and> lc_direction c = lc_direction d \<and> lc_amount c = lc_amount d
          \<and> lc_reason c = lc_reason d)
    \<and> (\<forall>a \<in> set (cr_rows s). ca_status a = APPLIED \<longrightarrow> (\<exists>c \<in> set (cr_calls s). lc_idempotencyKey c = ca_idempotencyKey a))
    \<and> distinct (map ca_idempotencyKey (cr_rows s))"
proof (intro conjI ballI impI)
  note ok = credit_reachable_ok [OF assms]
  show "distinct (map ca_idempotencyKey (cr_rows s))" using ok by (simp add: credit_ok_def)
  fix c d assume cd: "c \<in> set (cr_calls s)" "d \<in> set (cr_calls s)" "lc_idempotencyKey c = lc_idempotencyKey d"
  obtain a where a: "a \<in> set (cr_rows s)" "call_for a c" using ok cd(1) unfolding credit_ok_def by blast
  obtain b where b: "b \<in> set (cr_rows s)" "call_for b d" using ok cd(2) unfolding credit_ok_def by blast
  have "inj_on ca_idempotencyKey (set (cr_rows s))" using ok by (simp add: credit_ok_def distinct_map)
  moreover have "ca_idempotencyKey a = ca_idempotencyKey b" using a(2) b(2) cd(3) by (simp add: call_for_def)
  ultimately have "a = b" using a(1) b(1) by (rule_tac inj_onD)
  with a(2) b(2) show "lc_accountId c = lc_accountId d" "lc_direction c = lc_direction d"
    "lc_amount c = lc_amount d" "lc_reason c = lc_reason d" by (simp_all add: call_for_def)
next
  fix a assume "a \<in> set (cr_rows s)" "ca_status a = APPLIED"
  with credit_reachable_ok [OF assms] show "\<exists>c \<in> set (cr_calls s). lc_idempotencyKey c = ca_idempotencyKey a"
    unfolding credit_ok_def called_def by blast
qed

theorem ledger_calls_replay_safe_witness:
  "map ca_status (cr_rows demo_applied) = [APPLIED] \<and> distinct (map ca_idempotencyKey (cr_rows demo_applied))
    \<and> (\<exists>a \<in> set (cr_rows demo_applied). \<exists>c \<in> set (cr_calls demo_applied). lc_idempotencyKey c = ca_idempotencyKey a)"
proof -
  obtain a where a: "cr_rows demo_applied = [a]" "ca_status a = APPLIED" using demo_applied_facts(1) by auto
  have "credit_start demo_credits" by (simp add: credit_start_def demo_credits_def)
  from ledger_calls_replay_safe [OF demo_applied_reached this] a show ?thesis by simp
qed

text \<open>
  Rejecting looks at nothing but the id: in a reachable state an adjustment whose money has
  already moved is marked rejected by a later reject, while its ledger call stands.
\<close>

theorem applied_adjustment_rejected:
  "\<exists>s s'. (credit_step 100000 (\<lambda>x. x))\<^sup>*\<^sup>* demo_credits s \<and> map ca_status (cr_rows s) = [APPLIED]
     \<and> s' = snd (reject_adjustment (demo_staff ''c'') ''adj'' ''mistake'' s)
     \<and> map ca_status (cr_rows s') = [REJECTED] \<and> cr_calls s' = cr_calls s
     \<and> map lc_idempotencyKey (cr_calls s') = map ca_idempotencyKey (cr_rows s')"
proof -
  obtain a where a: "cr_rows demo_applied = [a]" "ca_id a = ''adj''"
    using demo_applied_facts(2) by auto
  let ?s' = "snd (reject_adjustment (demo_staff ''c'') ''adj'' ''mistake'' demo_applied)"
  have f: "find_adjustment ''adj'' demo_applied = Some a" by (simp add: find_adjustment_def a)
  have "ca_idempotencyKey a = ''key''"
    using credit_reachable_ok [OF demo_applied_reached] demo_applied_facts(3) a
    by (auto simp: credit_ok_def credit_start_def demo_credits_def call_for_def)
  then have "map ca_status (cr_rows ?s') = [REJECTED]" "cr_calls ?s' = cr_calls demo_applied"
    "map ca_idempotencyKey (cr_rows ?s') = [''key'']"
    by (simp_all add: reject_adjustment_def f a)
  with demo_applied_reached demo_applied_facts show ?thesis
    by (intro exI [of _ demo_applied] exI [of _ ?s']) simp
qed

end
