(* ===== verification/Masking.thy ===== *)
theory Masking
  imports Js_String
begin

text \<open>
  \<open>common/http/masking.ts\<close>: what leaves the service of an email address, a phone number, an IP
  address or an API key prefix.  A missing value and the empty string both mask to null.
\<close>

section \<open>Masks\<close>

definition nonblank :: "string option \<Rightarrow> string option" where
  "nonblank v = (case v of None \<Rightarrow> None | Some s \<Rightarrow> if s = [] then None else Some s)"

text \<open>\<open>const [local, domain] = email.split('@')\<close>; an absent or empty domain is not shown.\<close>

definition mask_email :: "string \<Rightarrow> string" where
  "mask_email email =
     (case split_on (CHR ''@'') email of
        lcl # domain # rest \<Rightarrow>
          if domain = [] then ''***''
          else take 2 lcl @ repeat_char (CHR ''*'') (max (length lcl - 2) 1) @ ''@'' @ domain
      | _ \<Rightarrow> ''***'')"

definition maskEmail :: "string option \<Rightarrow> string option" where
  "maskEmail v = map_option mask_email (nonblank v)"

definition mask_phone :: "string \<Rightarrow> string" where
  "mask_phone phone = repeat_char (CHR ''*'') (length phone - 3) @ slice_last 3 phone"

definition maskPhone :: "string option \<Rightarrow> string option" where
  "maskPhone v = map_option mask_phone (nonblank v)"

definition normalised_ip :: "string \<Rightarrow> string" where
  "normalised_ip ip = (if startsWith ip ''::ffff:'' then drop 7 ip else ip)"

definition mask_ip :: "string \<Rightarrow> string" where
  "mask_ip ip =
     (let n = normalised_ip ip in
      if CHR '':'' \<in> set n then join_with '':'' (take 3 (split_on (CHR '':'') n)) @ ''::/48''
      else (let parts = split_on (CHR ''.'') n in
        if length parts = 4 then parts ! 0 @ ''.'' @ parts ! 1 @ ''.x.x'' else ''x.x.x.x''))"

definition maskIp :: "string option \<Rightarrow> string option" where
  "maskIp v = map_option mask_ip (nonblank v)"

text \<open>The first eight characters; the sign for what is left out is dropped.\<close>

definition maskApiKeyPrefix :: "string option \<Rightarrow> string option" where
  "maskApiKeyPrefix v = map_option (take 8) (nonblank v)"

definition maskDestination :: "string option \<Rightarrow> string option" where
  "maskDestination v = (case nonblank v of None \<Rightarrow> None
     | Some s \<Rightarrow> if CHR ''@'' \<in> set s then maskEmail (Some s) else maskPhone (Some s))"

section \<open>What a mask gives away\<close>

lemma split_on_two:
  "CHR ''@'' \<notin> set l \<Longrightarrow> split_on d (l @ [d] @ r) = l # split_on d r" if "d = CHR ''@''"
  using that by (induction l) auto

lemma mask_email_form:
  assumes "CHR ''@'' \<notin> set lcl" "CHR ''@'' \<notin> set domain" "domain \<noteq> []"
  shows "mask_email (lcl @ ''@'' @ domain) =
    take 2 lcl @ repeat_char (CHR ''*'') (max (length lcl - 2) 1) @ ''@'' @ domain"
  using assms split_on_two [of "CHR ''@''" lcl domain] by (simp add: mask_email_def split_on_no_sep)

lemma mask_ip_dotted:
  assumes "\<forall>x \<in> {a, b, c, d}. CHR ''.'' \<notin> set x \<and> CHR '':'' \<notin> set x"
  shows "mask_ip (a @ ''.'' @ b @ ''.'' @ c @ ''.'' @ d) = a @ ''.'' @ b @ ''.x.x''"
proof -
  let ?ip = "a @ ''.'' @ b @ ''.'' @ c @ ''.'' @ d"
  have nc: "CHR '':'' \<notin> set ?ip" using assms by auto
  have "CHR '':'' \<in> set s" if "startsWith s ''::ffff:''" for s
    using that by (auto simp: startsWith_iff)
  then have "\<not> startsWith ?ip ''::ffff:''" using nc by blast
  then have "normalised_ip ?ip = ?ip" by (simp add: normalised_ip_def)
  moreover have "split_on (CHR ''.'') ?ip = [a, b, c, d]"
    using assms by (simp add: split_on_append split_on_no_sep)
  ultimately show ?thesis using nc by (simp add: mask_ip_def Let_def)
qed

text \<open>
  What masking hides.  A masked phone number depends only on its length and its last three
  characters, a masked address only on the length and first two characters of its local part and
  on its domain, and a masked IPv4 address only on its first two octets: values that agree there
  cannot be told apart by what leaves the service.
\<close>

theorem masks_hide:
  assumes "length p = length q" "slice_last 3 p = slice_last 3 q"
    and "CHR ''@'' \<notin> set l" "CHR ''@'' \<notin> set m" "CHR ''@'' \<notin> set domain" "domain \<noteq> []"
      "length l = length m" "take 2 l = take 2 m"
    and "\<forall>x \<in> {a, b, c, d, e, f}. CHR ''.'' \<notin> set x \<and> CHR '':'' \<notin> set x"
  shows "maskPhone (Some p) = maskPhone (Some q)
    \<and> maskEmail (Some (l @ ''@'' @ domain)) = maskEmail (Some (m @ ''@'' @ domain))
    \<and> maskIp (Some (a @ ''.'' @ b @ ''.'' @ c @ ''.'' @ d)) = maskIp (Some (a @ ''.'' @ b @ ''.'' @ e @ ''.'' @ f))"
proof (intro conjI)
  show "maskPhone (Some p) = maskPhone (Some q)"
    using assms(1,2) by (cases "p = []") (auto simp: maskPhone_def nonblank_def mask_phone_def)
  show "maskEmail (Some (l @ ''@'' @ domain)) = maskEmail (Some (m @ ''@'' @ domain))"
    using assms(3-8) mask_email_form [of l domain] mask_email_form [of m domain]
    by (simp add: maskEmail_def nonblank_def)
  show "maskIp (Some (a @ ''.'' @ b @ ''.'' @ c @ ''.'' @ d)) = maskIp (Some (a @ ''.'' @ b @ ''.'' @ e @ ''.'' @ f))"
    using assms(9) mask_ip_dotted [of a b c d] mask_ip_dotted [of a b e f]
    by (simp add: maskIp_def nonblank_def)
qed

theorem masks_hide_witness:
  "maskPhone (Some ''08031234567'') = maskPhone (Some ''08099994567'')
    \<and> maskEmail (Some ''adaobi@x.ng'') = maskEmail (Some ''adeola@x.ng'')
    \<and> maskIp (Some ''10.0.3.4'') = maskIp (Some ''10.0.77.9'')
    \<and> maskPhone (Some ''08031234567'') = Some ''********567'' \<and> maskIp (Some ''10.0.3.4'') = Some ''10.0.x.x''"
proof -
  have "maskPhone (Some ''08031234567'') = Some ''********567'' \<and> maskIp (Some ''10.0.3.4'') = Some ''10.0.x.x''"
    by code_simp
  with masks_hide [of "''08031234567''" "''08099994567''" "''adaobi''" "''adeola''" "''x.ng''" "''10''" "''0''" "''3''" "''4''" "''77''" "''9''"]
  show ?thesis by (simp add: slice_last_def)
qed

end
