(* ===== verification/Segments.thy ===== *)
theory Segments
  imports Inbox Masking Complex_Main "HOL-Library.List_Lexorder" "HOL-Library.Char_ord"
begin

text \<open>
  \<open>modules/notifications/segments.service.ts\<close>: saved audiences.  Accounts are the product's
  rows, read at the time of the call; a segment stores its filter.
\<close>

section \<open>Accounts and filters\<close>

record account_row =
  aw_id :: string
  aw_userId :: string
  aw_status :: string
  aw_countryCode :: string
  aw_creditBalance :: rat
  aw_email :: string
  aw_displayName :: "string option"
  aw_emailVerified :: bool
  aw_subscriptions :: "(string \<times> string) list"
  aw_logEvents :: "(string \<times> millis) list"

record segment_filter =
  sf_planIds :: "string list option"
  sf_statuses :: "string list option"
  sf_countries :: "string list option"
  sf_creditsBelow :: "rat option"
  sf_balanceBelowNgn :: "rat option"
  sf_inactiveForDays :: "nat option"
  sf_usedChannel :: "string option"
  sf_emailVerified :: "bool option"

record segment_row =
  sg_id :: string
  sg_name :: string
  sg_description :: "string option"
  sg_filter :: segment_filter
  sg_createdBy :: "string option"

record resolved_recipient =
  rr_accountId :: string
  rr_userId :: string
  rr_email :: string
  rr_phone :: "string option"
  rr_businessName :: "string option"

definition everyone :: segment_filter where
  "everyone = \<lparr>sf_planIds = None, sf_statuses = None, sf_countries = None, sf_creditsBelow = None,
     sf_balanceBelowNgn = None, sf_inactiveForDays = None, sf_usedChannel = None, sf_emailVerified = None\<rparr>"

text \<open>\<open>xs?.length\<close> as a condition: an absent or empty list adds no clause.\<close>

definition given_list :: "string list option \<Rightarrow> string list option" where
  "given_list xs = (case xs of None \<Rightarrow> None | Some ys \<Rightarrow> if ys = [] then None else Some ys)"

text \<open>A day is 86,400,000 milliseconds in the zones the service runs in (no daylight saving).\<close>

definition day_millis :: int where
  "day_millis = 86400000"

definition clause :: "('a \<Rightarrow> account_row \<Rightarrow> bool) \<Rightarrow> 'a option \<Rightarrow> (account_row \<Rightarrow> bool) list" where
  "clause p v = (case v of None \<Rightarrow> [] | Some x \<Rightarrow> [p x])"

definition buildWhere :: "millis \<Rightarrow> segment_filter \<Rightarrow> (account_row \<Rightarrow> bool) list" where
  "buildWhere now f =
     clause (\<lambda>xs a. js_includes xs (aw_status a)) (given_list (sf_statuses f))
     @ clause (\<lambda>xs a. js_includes (map toUpperCase xs) (aw_countryCode a)) (given_list (sf_countries f))
     @ clause (\<lambda>x a. aw_creditBalance a < x)
         (case sf_creditsBelow f of None \<Rightarrow> sf_balanceBelowNgn f | Some x \<Rightarrow> Some x)
     @ clause (\<lambda>v a. aw_emailVerified a = v) (sf_emailVerified f)
     @ clause (\<lambda>xs a. \<exists>(plan, status) \<in> set (aw_subscriptions a). js_includes xs plan \<and> status = ''ACTIVE'')
         (given_list (sf_planIds f))
     @ clause (\<lambda>c a. \<exists>(channel, sent) \<in> set (aw_logEvents a). channel = c)
         (case sf_usedChannel f of None \<Rightarrow> None | Some c \<Rightarrow> if c = [] then None else Some c)
     @ clause (\<lambda>n a. \<forall>(channel, sent) \<in> set (aw_logEvents a). sent < now - int n * day_millis) (sf_inactiveForDays f)"

definition matches :: "millis \<Rightarrow> segment_filter \<Rightarrow> account_row \<Rightarrow> bool" where
  "matches now f a \<longleftrightarrow> list_all (\<lambda>p. p a) (buildWhere now f)"

section \<open>Resolving\<close>

definition segment_count :: "millis \<Rightarrow> segment_filter \<Rightarrow> account_row list \<Rightarrow> nat" where
  "segment_count now f accounts = count_where (matches now f) accounts"

definition recipient_of :: "account_row \<Rightarrow> resolved_recipient" where
  "recipient_of a = \<lparr>rr_accountId = aw_id a, rr_userId = aw_userId a, rr_email = aw_email a,
     rr_phone = None, rr_businessName = aw_displayName a\<rparr>"

text \<open>\<open>limit ? take : all\<close>: a limit of 0 is no limit.\<close>

definition resolve :: "millis \<Rightarrow> segment_filter \<Rightarrow> nat option \<Rightarrow> account_row list \<Rightarrow> resolved_recipient list" where
  "resolve now f limit accounts =
     (let rows = filter (matches now f) (sort_key aw_id accounts) in
      map recipient_of (case limit of None \<Rightarrow> rows | Some n \<Rightarrow> if n = 0 then rows else take n rows))"

definition resolveAccounts :: "string list \<Rightarrow> account_row list \<Rightarrow> resolved_recipient list" where
  "resolveAccounts accountIds accounts =
     (if accountIds = [] then []
      else map recipient_of (filter (\<lambda>a. js_includes accountIds (aw_id a)) (sort_key aw_id accounts)))"

definition resolveById ::
  "millis \<Rightarrow> string \<Rightarrow> segment_row list \<Rightarrow> account_row list \<Rightarrow> resolved_recipient list result" where
  "resolveById now segmentId segments accounts =
     (case find_row (\<lambda>g. sg_id g = segmentId) segments of
        None \<Rightarrow> Inl (NotFound ''Segment not found'')
      | Some g \<Rightarrow> Inr (resolve now (sg_filter g) None accounts))"

record segment_preview =
  pv_estimatedSize :: nat
  pv_sample :: "(string \<times> string option \<times> string option \<times> string option) list"

definition preview :: "millis \<Rightarrow> segment_filter \<Rightarrow> account_row list \<Rightarrow> segment_preview" where
  "preview now f accounts =
     \<lparr>pv_estimatedSize = segment_count now f accounts,
      pv_sample = map (\<lambda>r. (rr_accountId r, rr_businessName r, maskEmail (Some (rr_email r)), maskPhone (rr_phone r)))
        (resolve now f (Some 10) accounts)\<rparr>"

section \<open>Saving\<close>

definition json_field :: "string \<Rightarrow> ('a \<Rightarrow> json) \<Rightarrow> 'a option \<Rightarrow> (string \<times> json) list" where
  "json_field name g v = (case v of None \<Rightarrow> [] | Some x \<Rightarrow> [(name, g x)])"

definition filter_json :: "segment_filter \<Rightarrow> (rat \<Rightarrow> json) \<Rightarrow> json" where
  "filter_json f num = JObj
     (json_field ''planIds'' jstrs (sf_planIds f) @ json_field ''statuses'' jstrs (sf_statuses f)
      @ json_field ''countries'' jstrs (sf_countries f) @ json_field ''creditsBelow'' num (sf_creditsBelow f)
      @ json_field ''balanceBelowNgn'' num (sf_balanceBelowNgn f)
      @ json_field ''inactiveForDays'' (JInt \<circ> int) (sf_inactiveForDays f)
      @ json_field ''usedChannel'' JStr (sf_usedChannel f) @ json_field ''emailVerified'' JBool (sf_emailVerified f))"

record upsert_segment =
  us_name :: string
  us_description :: "string option"
  us_filter :: segment_filter

text \<open>The row written and the audit log; \<open>num\<close> is the JSON of a number.\<close>

definition upsert_segment_row ::
  "principal \<Rightarrow> string \<Rightarrow> upsert_segment \<Rightarrow> segment_row list \<Rightarrow> segment_row \<times> segment_row list" where
  "upsert_segment_row actor newId dto segments =
     (case find_row (\<lambda>g. sg_name g = us_name dto) segments of
        Some g \<Rightarrow>
          (let f = (\<lambda>g. g\<lparr>sg_description := (case us_description dto of None \<Rightarrow> sg_description g | Some d \<Rightarrow> Some d),
                         sg_filter := us_filter dto\<rparr>)
           in (f g, update_where (\<lambda>x. sg_name x = us_name dto) f segments))
      | None \<Rightarrow>
          (let g = \<lparr>sg_id = newId, sg_name = us_name dto, sg_description = us_description dto,
                    sg_filter = us_filter dto, sg_createdBy = Some (sp_id actor)\<rparr>
           in (g, segments @ [g])))"

definition upsertSegment ::
  "(rat \<Rightarrow> json) \<Rightarrow> principal \<Rightarrow> millis \<Rightarrow> string \<Rightarrow> upsert_segment \<Rightarrow> account_row list
   \<Rightarrow> segment_row list \<Rightarrow> audit_row list \<Rightarrow> (segment_row \<times> nat) \<times> segment_row list \<times> audit_row list" where
  "upsertSegment num actor now newId dto accounts segments trail =
     (let (g, rows) = upsert_segment_row actor newId dto segments;
          trail' = audit_record (staff_entry actor ''segments.upserted'' ''segment'' (sg_id g) None JNull
             (JObj ([(''name'', JStr (us_name dto))]
               @ json_field ''description'' JStr (us_description dto)
               @ [(''filter'', filter_json (us_filter dto) num)])) JNull) trail
      in ((g, segment_count now (us_filter dto) accounts), rows, trail'))"

definition system_segments :: "(string \<times> string \<times> segment_filter) list" where
  "system_segments =
     [(''All customers'', ''Every account, whatever its status.'', everyone),
      (''Active customers'', ''Accounts in good standing.'', everyone\<lparr>sf_statuses := Some [''ACTIVE'']\<rparr>)]"

definition create_system_segment ::
  "(string \<Rightarrow> string) \<Rightarrow> string \<times> string \<times> segment_filter \<Rightarrow> segment_row list \<Rightarrow> segment_row list" where
  "create_system_segment newId seg rows =
     (let (name, description, f) = seg in
      if find_row (\<lambda>g. sg_name g = name) rows \<noteq> None then rows
      else rows @ [\<lparr>sg_id = newId name, sg_name = name, sg_description = Some description,
                    sg_filter = f, sg_createdBy = None\<rparr>])"

definition segments_bootstrap :: "(string \<Rightarrow> string) \<Rightarrow> segment_row list \<Rightarrow> segment_row list" where
  "segments_bootstrap newId rows = fold (create_system_segment newId) system_segments rows"

section \<open>Facts\<close>

lemma count_where_sort: "count_where p (sort_key k xs) = count_where p xs"
  by (simp add: count_where_def filter_sort)

lemma length_resolve: "length (resolve now f None accounts) = segment_count now f accounts"
  using count_where_sort [of "matches now f" aw_id accounts]
  by (simp add: resolve_def segment_count_def count_where_def)

lemma resolve_ids_distinct:
  assumes "distinct (map aw_id accounts)"
  shows "distinct (map rr_accountId (resolve now f None accounts))"
proof -
  have m: "map rr_accountId (resolve now f None accounts) = map aw_id (filter (matches now f) (sort_key aw_id accounts))"
    by (simp add: resolve_def recipient_of_def comp_def)
  have "distinct (map aw_id (sort_key aw_id accounts))"
    using assms by (simp add: distinct_map)
  then show ?thesis unfolding m by (rule distinct_map_filter)
qed

lemma matches_iff:
  "matches now f a \<longleftrightarrow>
     (\<forall>xs. sf_statuses f = Some xs \<and> xs \<noteq> [] \<longrightarrow> aw_status a \<in> set xs)
     \<and> (\<forall>xs. sf_countries f = Some xs \<and> xs \<noteq> [] \<longrightarrow> aw_countryCode a \<in> toUpperCase ` set xs)
     \<and> (\<forall>x. sf_creditsBelow f = Some x \<or> sf_creditsBelow f = None \<and> sf_balanceBelowNgn f = Some x
           \<longrightarrow> aw_creditBalance a < x)
     \<and> (\<forall>v. sf_emailVerified f = Some v \<longrightarrow> aw_emailVerified a = v)
     \<and> (\<forall>xs. sf_planIds f = Some xs \<and> xs \<noteq> [] \<longrightarrow> (\<exists>p \<in> set xs. (p, ''ACTIVE'') \<in> set (aw_subscriptions a)))
     \<and> (\<forall>c. sf_usedChannel f = Some c \<and> c \<noteq> [] \<longrightarrow> c \<in> fst ` set (aw_logEvents a))
     \<and> (\<forall>n. sf_inactiveForDays f = Some n \<longrightarrow> (\<forall>e \<in> set (aw_logEvents a). snd e < now - int n * day_millis))"
proof -
  have c: "list_all (\<lambda>q. q a) (clause p v) \<longleftrightarrow> (\<forall>x. v = Some x \<longrightarrow> p x a)" for p :: "'x \<Rightarrow> account_row \<Rightarrow> bool" and v
    by (auto simp: clause_def split: option.split)
  have g: "given_list v = Some xs \<longleftrightarrow> v = Some xs \<and> xs \<noteq> []" for v xs
    by (auto simp: given_list_def split: option.split)
  have u: "(case v of None \<Rightarrow> None | Some c \<Rightarrow> if c = [] then None else Some c) = Some x \<longleftrightarrow> v = Some x \<and> x \<noteq> []"
    for v :: "string option" and x by (auto split: option.split)
  have b: "(case v of None \<Rightarrow> w | Some x \<Rightarrow> Some x) = Some y \<longleftrightarrow> v = Some y \<or> v = None \<and> w = Some y"
    for v w :: "rat option" and y by (auto split: option.split)
  have subs: "(\<exists>(plan, status) \<in> S. js_includes xs plan \<and> status = ''ACTIVE'') \<longleftrightarrow> (\<exists>p \<in> set xs. (p, ''ACTIVE'') \<in> S)"
    for S :: "(string \<times> string) set" and xs by auto
  have chan: "(\<exists>(channel, sent) \<in> S. channel = c) \<longleftrightarrow> c \<in> fst ` S" for S :: "(string \<times> millis) set" and c
    by force
  show ?thesis
    unfolding matches_def buildWhere_def list_all_append c g u b subs chan by (auto simp: case_prod_beta)
qed

text \<open>
  A segment reaches exactly who matches it: its size estimate is the number of accounts it
  resolves to, the resolved accounts are those that satisfy every given clause of the filter, and
  a hand-picked list resolves to the listed accounts that exist, each once.
\<close>

theorem segment_reaches_matches:
  "length (resolve now f None accounts) = segment_count now f accounts
    \<and> set (resolve now f None accounts) = recipient_of ` {a \<in> set accounts. matches now f a}
    \<and> set (resolveAccounts ids accounts) = recipient_of ` {a \<in> set accounts. aw_id a \<in> set ids}
    \<and> sorted (map rr_accountId (resolve now f None accounts))
    \<and> (matches now f a \<longleftrightarrow>
        (\<forall>xs. sf_statuses f = Some xs \<and> xs \<noteq> [] \<longrightarrow> aw_status a \<in> set xs)
        \<and> (\<forall>xs. sf_countries f = Some xs \<and> xs \<noteq> [] \<longrightarrow> aw_countryCode a \<in> toUpperCase ` set xs)
        \<and> (\<forall>x. sf_creditsBelow f = Some x \<or> sf_creditsBelow f = None \<and> sf_balanceBelowNgn f = Some x
              \<longrightarrow> aw_creditBalance a < x)
        \<and> (\<forall>v. sf_emailVerified f = Some v \<longrightarrow> aw_emailVerified a = v)
        \<and> (\<forall>xs. sf_planIds f = Some xs \<and> xs \<noteq> [] \<longrightarrow> (\<exists>p \<in> set xs. (p, ''ACTIVE'') \<in> set (aw_subscriptions a)))
        \<and> (\<forall>c. sf_usedChannel f = Some c \<and> c \<noteq> [] \<longrightarrow> c \<in> fst ` set (aw_logEvents a))
        \<and> (\<forall>n. sf_inactiveForDays f = Some n \<longrightarrow>
              (\<forall>e \<in> set (aw_logEvents a). snd e < now - int n * day_millis)))"
proof (intro conjI)
  show "length (resolve now f None accounts) = segment_count now f accounts" by (rule length_resolve)
  show "set (resolve now f None accounts) = recipient_of ` {a \<in> set accounts. matches now f a}"
    by (simp add: resolve_def)
  show "set (resolveAccounts ids accounts) = recipient_of ` {a \<in> set accounts. aw_id a \<in> set ids}"
    by (auto simp: resolveAccounts_def)
  have "map rr_accountId (resolve now f None accounts) = map aw_id (filter (matches now f) (sort_key aw_id accounts))"
    by (simp add: resolve_def recipient_of_def comp_def)
  then show "sorted (map rr_accountId (resolve now f None accounts))"
    by (simp add: sorted_filter)
qed (use matches_iff in blast)+

definition demo_account :: "string \<Rightarrow> string \<Rightarrow> account_row" where
  "demo_account i status = \<lparr>aw_id = i, aw_userId = ''u'' @ i, aw_status = status, aw_countryCode = ''NG'',
     aw_creditBalance = 5, aw_email = i @ ''@x'', aw_displayName = Some i, aw_emailVerified = True,
     aw_subscriptions = [(''pro'', ''ACTIVE'')], aw_logEvents = []\<rparr>"

theorem segment_reaches_matches_witness:
  "length (resolve 0 everyone None [demo_account ''b'' ''ACTIVE'', demo_account ''a'' ''BANNED'']) = 2
    \<and> matches 0 (everyone\<lparr>sf_statuses := Some [''ACTIVE''], sf_countries := Some [''ng'']\<rparr>) (demo_account ''b'' ''ACTIVE'')
    \<and> \<not> matches 0 (everyone\<lparr>sf_statuses := Some [''ACTIVE''], sf_countries := Some [''ng'']\<rparr>) (demo_account ''a'' ''BANNED'')"
proof -
  let ?f = "everyone\<lparr>sf_statuses := Some [''ACTIVE''], sf_countries := Some [''ng'']\<rparr>"
  have u: "toUpperCase ''ng'' = ''NG''" by code_simp
  have "matches 0 ?f (demo_account ''b'' ''ACTIVE'')"
    using segment_reaches_matches [of 0 ?f "[]" "[]" "demo_account ''b'' ''ACTIVE''"]
    by (simp add: everyone_def demo_account_def u)
  moreover have "\<not> matches 0 ?f (demo_account ''a'' ''BANNED'')"
    using segment_reaches_matches [of 0 ?f "[]" "[]" "demo_account ''a'' ''BANNED''"]
    by (simp add: everyone_def demo_account_def u)
  moreover have "segment_count 0 everyone [demo_account ''b'' ''ACTIVE'', demo_account ''a'' ''BANNED''] = 2"
    by (simp add: segment_count_def matches_def buildWhere_def clause_def given_list_def everyone_def)
  ultimately show ?thesis
    using segment_reaches_matches [of 0 everyone "[demo_account ''b'' ''ACTIVE'', demo_account ''a'' ''BANNED'']"] by simp
qed

end
