(* ===== verification/Render.thy ===== *)
theory Render
  imports Js_String
begin

text \<open>
  \<open>CampaignsService.render\<close> and \<open>common/http/stringify.ts\<close>: substituting the placeholders of a
  message.  Variables are strings and objects, which is all the callers pass; JavaScript's own
  properties of such values (length, constructor and the like) read as undefined here.
\<close>

section \<open>Display of a value\<close>

datatype jsval = VStr string | VObj "(string \<times> jsval) list"

definition json_escape :: "char \<Rightarrow> string" where
  "json_escape c =
     (if c = CHR 0x22 then [CHR 0x5C, CHR 0x22] else if c = CHR 0x5C then [CHR 0x5C, CHR 0x5C]
      else if c = CHR 0x08 then [CHR 0x5C, CHR ''b''] else if c = CHR 0x0C then [CHR 0x5C, CHR ''f'']
      else if c = CHR 0x0A then [CHR 0x5C, CHR ''n''] else if c = CHR 0x0D then [CHR 0x5C, CHR ''r'']
      else if c = CHR 0x09 then [CHR 0x5C, CHR ''t'']
      else if (of_char c :: nat) < 32
      then [CHR 0x5C, CHR ''u'', CHR ''0'', CHR ''0'', (if (of_char c :: nat) < 16 then CHR ''0'' else CHR ''1''),
            ''0123456789abcdef'' ! (of_char c mod 16)]
      else [c])"

definition json_quote :: "string \<Rightarrow> string" where
  "json_quote s = [CHR 0x22] @ concat (map json_escape s) @ [CHR 0x22]"

fun json_stringify :: "jsval \<Rightarrow> string" where
  "json_stringify (VStr s) = json_quote s"
| "json_stringify (VObj fs) =
     ''{'' @ join_with '','' (map (\<lambda>(k, v). json_quote k @ '':'' @ json_stringify v) fs) @ ''}''"

definition toDisplayString :: "jsval option \<Rightarrow> string" where
  "toDisplayString v = (case v of None \<Rightarrow> [] | Some (VStr s) \<Rightarrow> s | Some (VObj fs) \<Rightarrow> json_stringify (VObj fs))"

section \<open>Placeholders\<close>

text \<open>\<open>path.split('.').reduce((acc, key) => acc?.[key], variables)\<close>.\<close>

definition property :: "jsval option \<Rightarrow> string \<Rightarrow> jsval option" where
  "property v k = (case v of Some (VObj fs) \<Rightarrow> map_of fs k | _ \<Rightarrow> None)"

definition path_value :: "jsval \<Rightarrow> string \<Rightarrow> string" where
  "path_value vars path = toDisplayString (foldl property (Some vars) (split_on (CHR ''.'') path))"

definition path_char :: "char \<Rightarrow> bool" where
  "path_char c \<longleftrightarrow> is_word c \<or> c = CHR ''.''"

text \<open>
  A match of the placeholder pattern at the head of the text: the path and what follows it.
  The character classes of the pattern exclude each other, so the greedy match is the only one.
\<close>

definition placeholder_at :: "string \<Rightarrow> (string \<times> string) option" where
  "placeholder_at s =
     (if take 2 s = ''{{''
      then (let r = dropWhile is_space (drop 2 s);
                path = takeWhile path_char r;
                r2 = dropWhile is_space (dropWhile path_char r)
            in if path \<noteq> [] \<and> take 2 r2 = ''}}'' then Some (path, drop 2 r2) else None)
      else None)"

lemma placeholder_at_shorter: "placeholder_at s = Some (p, r) \<Longrightarrow> length r < length s"
proof -
  assume a: "placeholder_at s = Some (p, r)"
  have "length (dropWhile P xs) \<le> length xs" for P and xs :: string
    by (rule length_dropWhile_le)
  then have "length (dropWhile is_space (dropWhile path_char (dropWhile is_space (drop 2 s)))) \<le> length (drop 2 s)"
    by (meson order_trans)
  moreover have "s \<noteq> []" using a by (auto simp: placeholder_at_def)
  ultimately show ?thesis using a by (cases s) (auto simp: placeholder_at_def Let_def split: if_splits)
qed

function render :: "string \<Rightarrow> jsval \<Rightarrow> string" where
  "render template vars =
     (case template of [] \<Rightarrow> []
      | c # cs \<Rightarrow> (case placeholder_at template of
          Some (path, rest) \<Rightarrow> path_value vars path @ render rest vars
        | None \<Rightarrow> c # render cs vars))"
  by pat_completeness auto
termination
  by (relation "measure (\<lambda>(t, v). length t)") (auto dest: placeholder_at_shorter)

declare render.simps [simp del]

lemma render_Nil [simp]: "render [] vars = []"
  by (simp add: render.simps)

text \<open>The matches of the same pattern, for the variables a stored template expects.\<close>

function placeholders :: "string \<Rightarrow> string list" where
  "placeholders template =
     (case template of [] \<Rightarrow> []
      | c # cs \<Rightarrow> (case placeholder_at template of
          Some (path, rest) \<Rightarrow> path # placeholders rest
        | None \<Rightarrow> placeholders cs))"
  by pat_completeness auto
termination
  by (relation "measure length") (auto dest: placeholder_at_shorter)

declare placeholders.simps [simp del]

section \<open>Rendering a template of literals and placeholders\<close>

datatype piece = Lit string | Hole string string string

fun piece_ok :: "piece \<Rightarrow> bool" where
  "piece_ok (Lit s) \<longleftrightarrow> CHR ''{'' \<notin> set s"
| "piece_ok (Hole a p b) \<longleftrightarrow> list_all is_space a \<and> list_all path_char p \<and> p \<noteq> [] \<and> list_all is_space b"

fun piece_text :: "piece \<Rightarrow> string" where
  "piece_text (Lit s) = s"
| "piece_text (Hole a p b) = ''{{'' @ a @ p @ b @ ''}}''"

fun piece_value :: "jsval \<Rightarrow> piece \<Rightarrow> string" where
  "piece_value vars (Lit s) = s"
| "piece_value vars (Hole a p b) = path_value vars p"

fun piece_paths :: "piece \<Rightarrow> string list" where
  "piece_paths (Lit s) = []"
| "piece_paths (Hole a p b) = [p]"

lemma render_literal:
  "CHR ''{'' \<notin> set s \<Longrightarrow> render (s @ t) vars = s @ render t vars"
proof (induction s)
  case (Cons c s)
  then have "placeholder_at (c # s @ t) = None" by (auto simp: placeholder_at_def)
  with Cons show ?case by (subst render.simps) simp
qed simp

lemma placeholders_literal:
  "CHR ''{'' \<notin> set s \<Longrightarrow> placeholders (s @ t) = placeholders t"
proof (induction s)
  case (Cons c s)
  then have "placeholder_at (c # s @ t) = None" by (auto simp: placeholder_at_def)
  with Cons show ?case by (subst placeholders.simps) simp
qed simp

lemma path_char_not_space: "path_char c \<Longrightarrow> \<not> is_space c"
  by (auto simp: path_char_def char_class_defs Let_def)

lemma close_not_class: "\<not> is_space (CHR ''}'')" "\<not> path_char (CHR ''}'')"
  by (simp_all add: path_char_def char_class_defs)

lemma dropWhile_all_append:
  "list_all P xs \<Longrightarrow> dropWhile P (xs @ ys) = dropWhile P ys"
  by (induction xs) auto

lemma placeholder_at_hole:
  assumes "list_all is_space a" "list_all path_char p" "p \<noteq> []" "list_all is_space b"
  shows "placeholder_at (''{{'' @ a @ p @ b @ ''}}'' @ t) = Some (p, t)"
proof -
  let ?close = "''}}'' @ t"
  obtain c p' where p: "p = c # p'" using assms(3) by (cases p) auto
  have 1: "dropWhile is_space (a @ p @ b @ ?close) = p @ b @ ?close"
    using assms(1,2) p path_char_not_space by (simp add: dropWhile_all_append)
  have nb: "takeWhile path_char (b @ ?close) = [] \<and> dropWhile path_char (b @ ?close) = b @ ?close"
    using assms(4) path_char_not_space close_not_class by (cases b) auto
  have 2: "takeWhile path_char (p @ b @ ?close) = p" "dropWhile path_char (p @ b @ ?close) = b @ ?close"
    using assms(2) nb by (simp_all add: list_all_iff takeWhile_append dropWhile_append)
  have 3: "dropWhile is_space (b @ ?close) = ?close"
    using assms(4) close_not_class by (simp add: dropWhile_all_append)
  show ?thesis
    using 1 2 3 assms(3) by (simp add: placeholder_at_def Let_def)
qed

lemma render_pieces:
  assumes "list_all piece_ok ps"
  shows "render (concat (map piece_text ps)) vars = concat (map (piece_value vars) ps)
    \<and> placeholders (concat (map piece_text ps)) = concat (map piece_paths ps)"
  using assms
proof (induction ps)
  case Nil
  then show ?case by (simp add: placeholders.simps)
next
  case (Cons x ps)
  show ?case
  proof (cases x)
    case (Lit s)
    with Cons show ?thesis by (simp add: render_literal placeholders_literal)
  next
    case (Hole a p b)
    with Cons have "placeholder_at (''{{'' @ a @ p @ b @ ''}}'' @ concat (map piece_text ps)) = Some (p, concat (map piece_text ps))"
      by (intro placeholder_at_hole) auto
    with Cons Hole show ?thesis
      by (simp add: render.simps [of "CHR ''{'' # _"] placeholders.simps [of "CHR ''{'' # _"])
  qed
qed

text \<open>
  A message is rendered piece by piece: in a template made of text without an opening brace
  and of placeholders (a path in double braces, with any white space around it), every
  placeholder is replaced by the value of its path, nothing else changes, and the variables
  recorded for the template are exactly the paths in order.
\<close>

theorem render_substitutes:
  assumes "list_all piece_ok ps"
  shows "render (concat (map piece_text ps)) vars = concat (map (piece_value vars) ps)
    \<and> placeholders (concat (map piece_text ps)) = concat (map piece_paths ps)"
  by (rule render_pieces [OF assms])

theorem render_substitutes_witness:
  "render ''Dear {{ account.businessName }}, {{x}}bye'' (VObj [(''account'', VObj [(''businessName'', VStr ''Ada'')])])
     = ''Dear Ada, bye''
   \<and> placeholders ''Dear {{ account.businessName }}, {{x}}bye'' = [''account.businessName'', ''x'']"
proof -
  let ?ps = "[Lit ''Dear '', Hole '' '' ''account.businessName'' '' '', Lit '', '', Hole [] ''x'' [], Lit ''bye'']"
  let ?v = "VObj [(''account'', VObj [(''businessName'', VStr ''Ada'')])]"
  have ok: "list_all piece_ok ?ps" by code_simp
  have "concat (map (piece_value ?v) ?ps) = ''Dear Ada, bye''" by code_simp
  with render_substitutes [OF ok, of ?v] show ?thesis by simp
qed

end
