(* ===== verification/Campaigns.thy ===== *)
theory Campaigns
  imports Segments Render Pagination Js_Number
begin

text \<open>
  \<open>modules/notifications/campaigns.service.ts\<close>: outbound messages to customers, from their draft
  to the job handed to the queue.  The queue itself (BullMQ) is outside: the state records the
  jobs handed to it and the removals asked of it.
\<close>

section \<open>Rows\<close>

datatype channel = IN_APP | EMAIL | SMS

fun channel_name :: "channel \<Rightarrow> string" where
  "channel_name IN_APP = ''IN_APP''"
| "channel_name EMAIL = ''EMAIL''"
| "channel_name SMS = ''SMS''"

datatype audience_kind = SINGLE_ACCOUNT | ACCOUNT_LIST | SEGMENT

datatype campaign_status = DRAFT | PENDING_APPROVAL | SCHEDULED | SENDING | SENT | FAILED | CANCELLED

fun campaign_status_name :: "campaign_status \<Rightarrow> string" where
  "campaign_status_name DRAFT = ''DRAFT''"
| "campaign_status_name PENDING_APPROVAL = ''PENDING_APPROVAL''"
| "campaign_status_name SCHEDULED = ''SCHEDULED''"
| "campaign_status_name SENDING = ''SENDING''"
| "campaign_status_name SENT = ''SENT''"
| "campaign_status_name FAILED = ''FAILED''"
| "campaign_status_name CANCELLED = ''CANCELLED''"

record campaign_row =
  cm_id :: string
  cm_name :: string
  cm_channel :: channel
  cm_templateId :: "string option"
  cm_subject :: "string option"
  cm_body :: string
  cm_audienceKind :: audience_kind
  cm_segmentId :: "string option"
  cm_accountIds :: "string list"
  cm_status :: campaign_status
  cm_scheduledAt :: "millis option"
  cm_startedAt :: "millis option"
  cm_completedAt :: "millis option"
  cm_recipientCount :: nat
  cm_sentCount :: nat
  cm_failedCount :: nat
  cm_requiresApproval :: bool
  cm_approvedById :: "string option"
  cm_approvedAt :: "millis option"
  cm_createdById :: string
  cm_createdAt :: millis

datatype recipient_status = R_PENDING | R_SENT | R_DELIVERED | R_FAILED | R_SKIPPED

record recipient_row =
  rc_id :: nat
  rc_campaignId :: string
  rc_accountId :: string
  rc_destination :: "string option"
  rc_status :: recipient_status
  rc_failureReason :: "string option"
  rc_sentAt :: "millis option"

record campaign_job =
  jb_campaignId :: string
  jb_retry :: bool
  jb_delay :: int
  jb_jobId :: string

record bell_row =
  bl_userId :: string
  bl_accountId :: string
  bl_severity :: string
  bl_title :: string
  bl_body :: string
  bl_actionUrl :: "string option"
  bl_campaignId :: string

record sms_message =
  sm_to :: string
  sm_body :: string

record campaign_state =
  cs_campaigns :: "campaign_row list"
  cs_recipients :: "recipient_row list"
  cs_nextRecipient :: nat
  cs_segments :: "segment_row list"
  cs_accounts :: "account_row list"
  cs_inbox :: inbox_state
  cs_jobs :: "campaign_job list"
  cs_removed :: "string list"
  cs_mails :: "outbound_mail list"
  cs_texts :: "sms_message list"
  cs_bell :: "bell_row list"
  cs_nudged :: "string list"
  cs_audit :: "audit_row list"

section \<open>Creating\<close>

record create_campaign =
  cc_name :: string
  cc_channel :: channel
  cc_templateId :: "string option"
  cc_subject :: "string option"
  cc_body :: string
  cc_audienceKind :: audience_kind
  cc_segmentId :: "string option"
  cc_accountIds :: "string list option"

definition given_ids :: "create_campaign \<Rightarrow> string list" where
  "given_ids dto = (case cc_accountIds dto of None \<Rightarrow> [] | Some xs \<Rightarrow> xs)"

definition validateAudience :: "create_campaign \<Rightarrow> unit result" where
  "validateAudience dto =
     (if cc_audienceKind dto = SEGMENT \<and> \<not> truthy (cc_segmentId dto)
      then Inl (BadRequest ''A segment campaign needs segmentId'')
      else if cc_audienceKind dto \<noteq> SEGMENT \<and> given_ids dto = []
      then Inl (BadRequest ''An account campaign needs at least one accountId'')
      else if cc_audienceKind dto = SINGLE_ACCOUNT \<and> length (given_ids dto) \<noteq> 1
      then Inl (BadRequest ''A single-account campaign takes exactly one accountId'')
      else if cc_channel dto = EMAIL \<and> \<not> truthy (cc_subject dto)
      then Inl (BadRequest ''An email campaign needs a subject'')
      else Inr ())"

definition estimateSize :: "millis \<Rightarrow> create_campaign \<Rightarrow> campaign_state \<Rightarrow> nat result" where
  "estimateSize now dto s =
     (if cc_audienceKind dto = SEGMENT
      then (case find_row (\<lambda>g. Some (sg_id g) = cc_segmentId dto) (cs_segments s) of
              None \<Rightarrow> Inl (NotFound ''Segment not found'')
            | Some g \<Rightarrow> Inr (segment_count now (sg_filter g) (cs_accounts s)))
      else Inr (length (given_ids dto)))"

definition campaign_log :: "audit_entry \<Rightarrow> campaign_state \<Rightarrow> campaign_state" where
  "campaign_log e s = s\<lparr>cs_audit := audit_record e (cs_audit s)\<rparr>"

definition new_campaign :: "nat \<Rightarrow> principal \<Rightarrow> millis \<Rightarrow> string \<Rightarrow> create_campaign \<Rightarrow> nat \<Rightarrow> campaign_row" where
  "new_campaign threshold actor now cid dto n =
     \<lparr>cm_id = cid, cm_name = cc_name dto, cm_channel = cc_channel dto, cm_templateId = cc_templateId dto,
      cm_subject = cc_subject dto, cm_body = cc_body dto, cm_audienceKind = cc_audienceKind dto,
      cm_segmentId = cc_segmentId dto, cm_accountIds = given_ids dto, cm_status = DRAFT,
      cm_scheduledAt = None, cm_startedAt = None, cm_completedAt = None, cm_recipientCount = n,
      cm_sentCount = 0, cm_failedCount = 0, cm_requiresApproval = (threshold < n),
      cm_approvedById = None, cm_approvedAt = None, cm_createdById = sp_id actor, cm_createdAt = now\<rparr>"

definition create_campaign_row ::
  "nat \<Rightarrow> principal \<Rightarrow> millis \<Rightarrow> string \<Rightarrow> create_campaign \<Rightarrow> campaign_state \<Rightarrow> (campaign_state, campaign_row) outcome" where
  "create_campaign_row threshold actor now cid dto s =
     (case validateAudience dto of Inl e \<Rightarrow> throws e s
      | Inr _ \<Rightarrow> (case estimateSize now dto s of Inl e \<Rightarrow> throws e s
        | Inr n \<Rightarrow>
           if threshold < n \<and> \<not> js_includes (sp_permissions actor) ''notifications.broadcast''
           then throws (Forbidden (''Reaching '' @ dec n @ '' accounts needs notifications.broadcast'')) s
           else if cid \<in> set (map cm_id (cs_campaigns s)) then throws UniqueViolation s
           else (let c = new_campaign threshold actor now cid dto n;
                     s1 = s\<lparr>cs_campaigns := cs_campaigns s @ [c]\<rparr>
                 in returns c (campaign_log (staff_entry actor ''campaigns.created'' ''campaign'' cid None JNull
                      (JObj [(''name'', JStr (cc_name dto)), (''channel'', JStr (channel_name (cc_channel dto))),
                         (''recipientCount'', JInt (int n)), (''requiresApproval'', JBool (threshold < n))]) JNull) s1))))"

section \<open>Lookups and updates\<close>

definition find_campaign :: "string \<Rightarrow> campaign_state \<Rightarrow> campaign_row option" where
  "find_campaign cid s = find_row (\<lambda>c. cm_id c = cid) (cs_campaigns s)"

definition update_campaign :: "string \<Rightarrow> (campaign_row \<Rightarrow> campaign_row) \<Rightarrow> campaign_state \<Rightarrow> campaign_state" where
  "update_campaign cid f s = s\<lparr>cs_campaigns := update_where (\<lambda>c. cm_id c = cid) f (cs_campaigns s)\<rparr>"

definition update_recipients :: "(recipient_row \<Rightarrow> bool) \<Rightarrow> (recipient_row \<Rightarrow> recipient_row) \<Rightarrow> campaign_state \<Rightarrow> campaign_state" where
  "update_recipients p f s = s\<lparr>cs_recipients := update_where p f (cs_recipients s)\<rparr>"

definition in_status :: "string \<Rightarrow> recipient_status \<Rightarrow> recipient_row \<Rightarrow> bool" where
  "in_status cid st r \<longleftrightarrow> rc_campaignId r = cid \<and> rc_status r = st"

section \<open>Test sends and approval\<close>

definition sampleVariables :: jsval where
  "sampleVariables = VObj
     [(''account'', VObj [(''businessName'', VStr ''Sample Business Ltd''), (''balanceNgn'', VStr ''12,500.00'')]),
      (''staff'', VObj [(''name'', VStr ''Zapiack'')])]"

datatype test_reply = Preview channel string "string option" | SentTo string

text \<open>\<open>mailer\<close> is the mail service's answer.  \<open>recordSafe\<close> writes the same row as record.\<close>

definition testSend ::
  "(outbound_mail \<Rightarrow> http_error option) \<Rightarrow> principal \<Rightarrow> string \<Rightarrow> campaign_state \<Rightarrow> (campaign_state, test_reply) outcome" where
  "testSend mailer actor cid s =
     (case find_campaign cid s of
        None \<Rightarrow> throws RecordNotFound s
      | Some c \<Rightarrow>
          if cm_channel c \<noteq> EMAIL
          then returns (Preview (cm_channel c) (render (cm_body c) sampleVariables)
                 (if truthy (cm_subject c) then map_option (\<lambda>t. render t sampleVariables) (cm_subject c) else None)) s
          else (let m = \<lparr>ml_to = sp_email actor,
                       ml_subject = ''[TEST] '' @ render (case cm_subject c of None \<Rightarrow> cm_name c | Some t \<Rightarrow> t) sampleVariables,
                       ml_html = render (cm_body c) sampleVariables\<rparr>;
                    s1 = s\<lparr>cs_mails := cs_mails s @ [m]\<rparr>
                in case mailer m of Some e \<Rightarrow> throws e s1
                   | None \<Rightarrow> returns (SentTo (sp_email actor))
                       (campaign_log (staff_entry actor ''campaigns.test_sent'' ''campaign'' cid None JNull JNull
                          (JObj [(''to'', JStr (sp_email actor))])) s1)))"

definition other_super_admins :: "string \<Rightarrow> inbox_state \<Rightarrow> nat" where
  "other_super_admins actorId ib = count_where
     (\<lambda>st. st_status st = ACTIVE \<and> st_id st \<noteq> actorId
        \<and> (case find_row (\<lambda>r. ro_id r = st_roleId st) (ib_roles ib) of None \<Rightarrow> False
           | Some r \<Rightarrow> ro_key r = ''super_admin'')) (ib_staff ib)"

definition approved_alert :: "campaign_row \<Rightarrow> staff_alert" where
  "approved_alert c = \<lparr>al_type = ''campaigns.approved'', al_severity = MEDIUM,
     al_title = ''Campaign '' @ [CHR 0x22] @ cm_name c @ [CHR 0x22] @ '' approved'', al_body = None,
     al_link = Some (''/campaigns/'' @ cm_id c)\<rparr>"

definition approve_campaign ::
  "principal \<Rightarrow> millis \<Rightarrow> string \<Rightarrow> string \<Rightarrow> campaign_state \<Rightarrow> (campaign_state, string \<times> millis) outcome" where
  "approve_campaign actor now cid reason s =
     (if sp_roleKey actor \<noteq> ''super_admin''
      then throws (Forbidden ''Broadcast approval is limited to Super admin'') s
      else (case find_campaign cid s of
          None \<Rightarrow> throws RecordNotFound s
        | Some c \<Rightarrow>
            if cm_createdById c = sp_id actor \<and> 0 < other_super_admins (sp_id actor) (cs_inbox s)
            then throws (Forbidden ''A campaign cannot be approved by the staff member who created it'') s
            else (let selfApproved = (cm_createdById c = sp_id actor);
                      s1 = update_campaign cid (\<lambda>x. x\<lparr>cm_approvedById := Some (sp_id actor), cm_approvedAt := Some now\<rparr>) s;
                      s2 = campaign_log (staff_entry actor ''campaigns.approved'' ''campaign'' cid (Some reason) JNull
                             (JObj [(''recipientCount'', JInt (int (cm_recipientCount c)))])
                             (JObj [(''selfApproved'', JBool selfApproved)])) s1
                  in returns (cid, now) (s2\<lparr>cs_inbox := notifyStaff (cm_createdById c) (approved_alert c) (cs_inbox s2)\<rparr>))))"

section \<open>Scheduling, retrying, cancelling\<close>

definition schedule_campaign ::
  "(millis \<Rightarrow> string) \<Rightarrow> principal \<Rightarrow> millis \<Rightarrow> string \<Rightarrow> millis \<Rightarrow> campaign_state \<Rightarrow> (campaign_state, campaign_status \<times> millis) outcome" where
  "schedule_campaign iso_text actor now cid scheduledAt s =
     (case find_campaign cid s of
        None \<Rightarrow> throws RecordNotFound s
      | Some c \<Rightarrow>
          if cm_status c \<notin> {DRAFT, PENDING_APPROVAL, SCHEDULED}
          then throws (Conflict (''Campaign is '' @ campaign_status_name (cm_status c) @ '' and can no longer be scheduled'')) s
          else if cm_requiresApproval c \<and> cm_approvedAt c = None
          then throws (Forbidden (''This campaign reaches '' @ dec (cm_recipientCount c)
                 @ '' accounts and needs Super admin approval first'')) s
          else (let s1 = update_campaign cid (\<lambda>x. x\<lparr>cm_status := SCHEDULED, cm_scheduledAt := Some scheduledAt\<rparr>) s;
                    s2 = s1\<lparr>cs_jobs := cs_jobs s1 @ [\<lparr>jb_campaignId = cid, jb_retry = False,
                            jb_delay = max (scheduledAt - now) 0, jb_jobId = ''campaign-'' @ cid\<rparr>]\<rparr>
                in returns (SCHEDULED, scheduledAt)
                     (campaign_log (staff_entry actor ''campaigns.scheduled'' ''campaign'' cid None JNull
                        (JObj [(''scheduledAt'', JStr (iso_text scheduledAt)),
                           (''recipientCount'', JInt (int (cm_recipientCount c)))]) JNull) s2)))"

definition sendNow ::
  "(millis \<Rightarrow> string) \<Rightarrow> principal \<Rightarrow> millis \<Rightarrow> string \<Rightarrow> campaign_state \<Rightarrow> (campaign_state, campaign_status \<times> millis) outcome" where
  "sendNow iso_text actor now cid s = schedule_campaign iso_text actor now cid now s"

definition retry_campaign ::
  "principal \<Rightarrow> millis \<Rightarrow> string \<Rightarrow> campaign_state \<Rightarrow> (campaign_state, nat) outcome" where
  "retry_campaign actor now cid s =
     (case find_campaign cid s of
        None \<Rightarrow> throws RecordNotFound s
      | Some c \<Rightarrow>
          if cm_status c \<notin> {SENT, FAILED}
          then throws (Conflict (''Only a finished campaign can be retried; this one is '' @ campaign_status_name (cm_status c))) s
          else (let failed = count_where (in_status cid R_FAILED) (cs_recipients s) in
            if failed = 0 then throws (Conflict ''No recipient failed, so there is nothing to retry'') s
            else (let s1 = update_recipients (in_status cid R_FAILED)
                             (\<lambda>r. r\<lparr>rc_status := R_PENDING, rc_failureReason := None\<rparr>) s;
                      s2 = update_campaign cid (\<lambda>x. x\<lparr>cm_status := SCHEDULED, cm_completedAt := None\<rparr>) s1;
                      s3 = s2\<lparr>cs_jobs := cs_jobs s2 @ [\<lparr>jb_campaignId = cid, jb_retry = True, jb_delay = 0,
                              jb_jobId = ''campaign-'' @ cid @ ''-retry-'' @ dec (nat now)\<rparr>]\<rparr>
                  in returns failed (campaign_log (staff_entry actor ''campaigns.retried'' ''campaign'' cid None JNull
                       (JObj [(''retrying'', JInt (int failed))]) JNull) s3))))"

definition cancel_campaign ::
  "principal \<Rightarrow> string \<Rightarrow> string \<Rightarrow> campaign_state \<Rightarrow> (campaign_state, campaign_status) outcome" where
  "cancel_campaign actor cid reason s =
     (case find_campaign cid s of
        None \<Rightarrow> throws RecordNotFound s
      | Some c \<Rightarrow>
          if cm_status c \<in> {SENT, SENDING}
          then throws (Conflict ''A campaign already sending or sent cannot be cancelled'') s
          else (let s1 = s\<lparr>cs_removed := cs_removed s @ [''campaign-'' @ cid]\<rparr>;
                    s2 = update_campaign cid (\<lambda>x. x\<lparr>cm_status := CANCELLED\<rparr>) s1
                in returns CANCELLED (campaign_log
                     (staff_entry actor ''campaigns.cancelled'' ''campaign'' cid (Some reason) JNull JNull JNull) s2)))"

section \<open>Lists and stored templates\<close>

definition list_campaigns ::
  "cursor_key option \<Rightarrow> nat option \<Rightarrow> campaign_status option \<Rightarrow> campaign_row list \<Rightarrow> (campaign_row, cursor_key) page" where
  "list_campaigns cursor limit status rows =
     (let limit = (case limit of None \<Rightarrow> 50 | Some n \<Rightarrow> n); key = (\<lambda>c. (cm_createdAt c, cm_id c)) in
      buildPage key (findMany_desc key cursor (limit + 1)
        (filter (\<lambda>c. case status of None \<Rightarrow> True | Some x \<Rightarrow> cm_status c = x) rows)) limit)"

text \<open>The campaign and its delivery counts: a status no recipient has is absent.\<close>

definition get_campaign ::
  "string \<Rightarrow> campaign_state \<Rightarrow> (campaign_row \<times> (recipient_status \<Rightarrow> nat option)) result" where
  "get_campaign cid s =
     (case find_campaign cid s of
        None \<Rightarrow> Inl (NotFound ''Campaign not found'')
      | Some c \<Rightarrow> Inr (c, \<lambda>st. let n = count_where (in_status cid st) (cs_recipients s) in
          if n = 0 then None else Some n))"

record template_row =
  tp_id :: string
  tp_key :: string
  tp_name :: string
  tp_channel :: channel
  tp_subject :: "string option"
  tp_body :: string
  tp_variables :: "string list"
  tp_createdBy :: "string option"

record upsert_template =
  ut_key :: string
  ut_name :: string
  ut_channel :: channel
  ut_subject :: "string option"
  ut_body :: string

definition upsertTemplate ::
  "principal \<Rightarrow> string \<Rightarrow> upsert_template \<Rightarrow> template_row list \<Rightarrow> audit_row list
   \<Rightarrow> template_row \<times> template_row list \<times> audit_row list" where
  "upsertTemplate actor newId dto rows trail =
     (let variables = js_set (placeholders (ut_body dto));
          upd = (\<lambda>t. t\<lparr>tp_name := ut_name dto, tp_channel := ut_channel dto,
             tp_subject := (case ut_subject dto of None \<Rightarrow> tp_subject t | Some x \<Rightarrow> Some x),
             tp_body := ut_body dto, tp_variables := variables\<rparr>);
          fresh = \<lparr>tp_id = newId, tp_key = ut_key dto, tp_name = ut_name dto, tp_channel = ut_channel dto,
             tp_subject = ut_subject dto, tp_body = ut_body dto, tp_variables = variables, tp_createdBy = Some (sp_id actor)\<rparr>;
          (t, rows') = (case find_row (\<lambda>t. tp_key t = ut_key dto) rows of
             Some t \<Rightarrow> (upd t, update_where (\<lambda>t. tp_key t = ut_key dto) upd rows)
           | None \<Rightarrow> (fresh, rows @ [fresh]))
      in (t, rows', audit_record (staff_entry actor ''templates.upserted'' ''notification_template'' (tp_id t) None
            JNull JNull JNull) trail))"

end
