(* ===== verification/Campaign_Worker.thy ===== *)
theory Campaign_Worker
  imports Campaigns
begin

text \<open>
  \<open>modules/notifications/campaign.processor.ts\<close>, \<open>in-app-delivery.service.ts\<close> and the recipient
  list of \<open>campaigns.service.ts\<close>: the job that sends a campaign.  The mail and SMS services and
  the product's notification table answer through \<open>send_env\<close>; findMany without an order takes
  rows in table order.
\<close>

section \<open>The recipient list\<close>

definition resolveRecipients :: "millis \<Rightarrow> campaign_row \<Rightarrow> campaign_state \<Rightarrow> resolved_recipient list result" where
  "resolveRecipients now c s =
     (if cm_audienceKind c = SEGMENT
      then (case cm_segmentId c of
              None \<Rightarrow> Inl (BadRequest ''Campaign has no segment'')
            | Some sid \<Rightarrow> if sid = [] then Inl (BadRequest ''Campaign has no segment'')
                else resolveById now sid (cs_segments s) (cs_accounts s))
      else Inr (resolveAccounts (cm_accountIds c) (cs_accounts s)))"

text \<open>createMany with skipDuplicates, on the unique index (campaignId, accountId).\<close>

definition new_recipient :: "campaign_row \<Rightarrow> nat \<Rightarrow> resolved_recipient \<Rightarrow> recipient_row" where
  "new_recipient c n r = \<lparr>rc_id = n, rc_campaignId = cm_id c, rc_accountId = rr_accountId r,
     rc_destination = maskDestination (if cm_channel c = SMS then rr_phone r else Some (rr_email r)),
     rc_status = R_PENDING, rc_failureReason = None, rc_sentAt = None\<rparr>"

definition listed :: "string \<Rightarrow> string \<Rightarrow> recipient_row list \<Rightarrow> bool" where
  "listed cid accountId rows \<longleftrightarrow> (\<exists>x \<in> set rows. rc_campaignId x = cid \<and> rc_accountId x = accountId)"

definition create_recipient :: "campaign_row \<Rightarrow> resolved_recipient \<Rightarrow> campaign_state \<Rightarrow> campaign_state" where
  "create_recipient c r s =
     (if listed (cm_id c) (rr_accountId r) (cs_recipients s) then s
      else s\<lparr>cs_recipients := cs_recipients s @ [new_recipient c (cs_nextRecipient s) r],
             cs_nextRecipient := Suc (cs_nextRecipient s)\<rparr>)"

definition create_recipients :: "campaign_row \<Rightarrow> resolved_recipient list \<Rightarrow> campaign_state \<Rightarrow> campaign_state" where
  "create_recipients c rs s = fold (create_recipient c) rs s"

definition materialiseRecipients :: "millis \<Rightarrow> string \<Rightarrow> campaign_state \<Rightarrow> (campaign_state, nat) outcome" where
  "materialiseRecipients now cid s =
     (case find_campaign cid s of
        None \<Rightarrow> throws RecordNotFound s
      | Some c \<Rightarrow> (case resolveRecipients now c s of
          Inl e \<Rightarrow> throws e s
        | Inr rs \<Rightarrow> returns (length rs)
            (update_campaign cid (\<lambda>x. x\<lparr>cm_recipientCount := length rs\<rparr>)
              (fold (create_recipients c) (chunked 1000 rs) s))))"

section \<open>Delivery\<close>

record send_env =
  se_mailer :: "outbound_mail \<Rightarrow> http_error option"
  se_texter :: "sms_message \<Rightarrow> http_error option"
  se_writer :: "bell_row list \<Rightarrow> http_error option"

record in_app_recipient =
  ia_accountId :: string
  ia_userId :: string
  ia_title :: string
  ia_body :: string

text \<open>
  \<open>InAppDeliveryService.deliver\<close>: users that already have this campaign's notification are
  skipped; the rest are written in one statement, then nudged.
\<close>

definition bell_of :: "string \<Rightarrow> in_app_recipient \<Rightarrow> bell_row" where
  "bell_of cid r = \<lparr>bl_userId = ia_userId r, bl_accountId = ia_accountId r, bl_severity = ''INFO'',
     bl_title = ia_title r, bl_body = ia_body r, bl_actionUrl = None, bl_campaignId = cid\<rparr>"

definition has_bell :: "string \<Rightarrow> bell_row list \<Rightarrow> in_app_recipient \<Rightarrow> bool" where
  "has_bell cid bells r \<longleftrightarrow> (\<exists>b \<in> set bells. bl_userId b = ia_userId r \<and> bl_campaignId b = cid)"

definition deliver ::
  "(bell_row list \<Rightarrow> http_error option) \<Rightarrow> string \<Rightarrow> in_app_recipient list \<Rightarrow> campaign_state \<Rightarrow> (campaign_state, nat \<times> nat) outcome" where
  "deliver writer cid recipients s =
     (if recipients = [] then returns (0, 0) s
      else (let fresh = filter (\<lambda>r. \<not> has_bell cid (cs_bell s) r) recipients;
                result = (length fresh, length recipients - length fresh)
            in if fresh = [] then returns result s
               else (case writer (map (bell_of cid) fresh) of
                  Some e \<Rightarrow> throws e s
                | None \<Rightarrow> returns result (s\<lparr>cs_bell := cs_bell s @ map (bell_of cid) fresh,
                            cs_nudged := cs_nudged s @ map ia_userId fresh\<rparr>))))"

text \<open>A Map built from pairs: the last entry of a key wins.\<close>

definition js_map :: "('k \<times> 'v) list \<Rightarrow> 'k \<Rightarrow> 'v option" where
  "js_map kvs = map_of (rev kvs)"

type_synonym contacts = "string \<Rightarrow> resolved_recipient option"

definition contact_vars :: "resolved_recipient option \<Rightarrow> string \<Rightarrow> jsval" where
  "contact_vars contact accountId = VObj [(''account'', VObj
     [(''businessName'', VStr (case contact of None \<Rightarrow> [] | Some k \<Rightarrow> (case rr_businessName k of None \<Rightarrow> [] | Some n \<Rightarrow> n))),
      (''id'', VStr accountId)])]"

definition title_of :: "campaign_row \<Rightarrow> string" where
  "title_of c = (case cm_subject c of None \<Rightarrow> cm_name c | Some t \<Rightarrow> t)"

definition set_sent :: "millis \<Rightarrow> recipient_row \<Rightarrow> recipient_row" where
  "set_sent now r = r\<lparr>rc_status := R_SENT, rc_sentAt := Some now\<rparr>"

definition set_failed :: "string \<Rightarrow> recipient_row \<Rightarrow> recipient_row" where
  "set_failed reason r = r\<lparr>rc_status := R_FAILED, rc_failureReason := Some reason\<rparr>"

definition in_app_for :: "campaign_row \<Rightarrow> contacts \<Rightarrow> recipient_row \<Rightarrow> in_app_recipient option" where
  "in_app_for c contacts r = (case contacts (rc_accountId r) of None \<Rightarrow> None
     | Some k \<Rightarrow> (let v = contact_vars (Some k) (rc_accountId r) in
         Some \<lparr>ia_accountId = rc_accountId r, ia_userId = rr_userId k,
               ia_title = render (title_of c) v, ia_body = render (cm_body c) v\<rparr>))"

definition gone_ids :: "contacts \<Rightarrow> recipient_row list \<Rightarrow> nat list" where
  "gone_ids contacts batch = map rc_id (filter (\<lambda>r. contacts (rc_accountId r) = None) batch)"

definition deliverable_ids :: "recipient_row list \<Rightarrow> in_app_recipient list \<Rightarrow> nat list" where
  "deliverable_ids batch deliverable =
     map (\<lambda>r. the (js_map (map (\<lambda>x. (rc_accountId x, rc_id x)) batch) (ia_accountId r))) deliverable"

definition mark_ids :: "nat list \<Rightarrow> (recipient_row \<Rightarrow> recipient_row) \<Rightarrow> campaign_state \<Rightarrow> campaign_state" where
  "mark_ids ids f s = (if ids = [] then s else update_recipients (\<lambda>r. js_includes ids (rc_id r)) f s)"

definition in_app_batch ::
  "send_env \<Rightarrow> millis \<Rightarrow> campaign_row \<Rightarrow> contacts \<Rightarrow> recipient_row list \<Rightarrow> campaign_state \<Rightarrow> campaign_state" where
  "in_app_batch env now c contacts batch s =
     (let deliverable = List.map_filter (in_app_for c contacts) batch;
          s1 = mark_ids (gone_ids contacts batch)
                 (set_failed ''The account no longer exists or no longer matches'') s;
          ids = deliverable_ids batch deliverable
      in if deliverable = [] then s1
         else (case deliver (se_writer env) (cm_id c) deliverable s1 of
            (Inr _, s2) \<Rightarrow> mark_ids ids (set_sent now) s2
          | (Inl e, s2) \<Rightarrow> mark_ids ids (set_failed (take 300 (error_message e))) s2))"

text \<open>One email or SMS recipient: what is sent, if anything, and what the row becomes.\<close>

definition mail_for :: "campaign_row \<Rightarrow> contacts \<Rightarrow> recipient_row \<Rightarrow> outbound_mail option" where
  "mail_for c contacts r =
     (let contact = contacts (rc_accountId r); v = contact_vars contact (rc_accountId r) in
      case contact of None \<Rightarrow> None
      | Some k \<Rightarrow> if rr_email k = [] then None
          else Some \<lparr>ml_to = rr_email k, ml_subject = render (title_of c) v, ml_html = render (cm_body c) v\<rparr>)"

definition sms_for :: "campaign_row \<Rightarrow> contacts \<Rightarrow> recipient_row \<Rightarrow> sms_message option" where
  "sms_for c contacts r =
     (let contact = contacts (rc_accountId r); v = contact_vars contact (rc_accountId r) in
      case (case contact of None \<Rightarrow> None | Some k \<Rightarrow> rr_phone k) of None \<Rightarrow> None
      | Some phone \<Rightarrow> if phone = [] then None else Some \<lparr>sm_to = phone, sm_body = render (cm_body c) v\<rparr>)"

definition message_error :: "send_env \<Rightarrow> campaign_row \<Rightarrow> contacts \<Rightarrow> recipient_row \<Rightarrow> http_error option" where
  "message_error env c contacts r =
     (if cm_channel c = EMAIL
      then (case mail_for c contacts r of None \<Rightarrow> Some (PlainError ''No email address on file'')
            | Some m \<Rightarrow> se_mailer env m)
      else (case sms_for c contacts r of None \<Rightarrow> Some (PlainError ''No phone number on file'')
            | Some m \<Rightarrow> se_texter env m))"

definition message_result :: "send_env \<Rightarrow> millis \<Rightarrow> campaign_row \<Rightarrow> contacts \<Rightarrow> recipient_row \<Rightarrow> recipient_row \<Rightarrow> recipient_row" where
  "message_result env now c contacts r =
     (case message_error env c contacts r of None \<Rightarrow> set_sent now
      | Some e \<Rightarrow> set_failed (take 300 (error_message e)))"

definition hand_over :: "campaign_row \<Rightarrow> contacts \<Rightarrow> recipient_row \<Rightarrow> campaign_state \<Rightarrow> campaign_state" where
  "hand_over c contacts r s =
     (if cm_channel c = EMAIL
      then s\<lparr>cs_mails := cs_mails s @ (case mail_for c contacts r of None \<Rightarrow> [] | Some m \<Rightarrow> [m])\<rparr>
      else s\<lparr>cs_texts := cs_texts s @ (case sms_for c contacts r of None \<Rightarrow> [] | Some m \<Rightarrow> [m])\<rparr>)"

definition message_one ::
  "send_env \<Rightarrow> millis \<Rightarrow> campaign_row \<Rightarrow> contacts \<Rightarrow> recipient_row \<Rightarrow> campaign_state \<Rightarrow> campaign_state" where
  "message_one env now c contacts r s =
     update_recipients (\<lambda>x. rc_id x = rc_id r) (message_result env now c contacts r) (hand_over c contacts r s)"

definition send_batch ::
  "send_env \<Rightarrow> millis \<Rightarrow> campaign_row \<Rightarrow> contacts \<Rightarrow> recipient_row list \<Rightarrow> campaign_state \<Rightarrow> campaign_state" where
  "send_batch env now c contacts batch s =
     (if cm_channel c = IN_APP then in_app_batch env now c contacts batch s
      else fold (message_one env now c contacts) batch s)"

section \<open>The loop ends\<close>

definition batch_size :: nat where
  "batch_size = 200"

definition next_batch :: "string \<Rightarrow> campaign_state \<Rightarrow> recipient_row list" where
  "next_batch cid s = take batch_size (filter (in_status cid R_PENDING) (cs_recipients s))"

definition pending_count :: "string \<Rightarrow> campaign_state \<Rightarrow> nat" where
  "pending_count cid s = count_where (in_status cid R_PENDING) (cs_recipients s)"

text \<open>Updates of the worker leave PENDING for good.\<close>

definition settles :: "(recipient_row \<Rightarrow> recipient_row) \<Rightarrow> bool" where
  "settles f \<longleftrightarrow> (\<forall>r. rc_status (f r) \<in> {R_SENT, R_FAILED} \<and> rc_id (f r) = rc_id r
     \<and> rc_campaignId (f r) = rc_campaignId r \<and> rc_accountId (f r) = rc_accountId r)"

lemma settles_results [simp]: "settles (set_sent now)" "settles (set_failed reason)"
  "settles (message_result env now c contacts r)"
  by (auto simp: settles_def set_sent_def set_failed_def message_result_def split: option.split)

lemma settles_not_pending: "settles f \<Longrightarrow> \<not> in_status cid R_PENDING (f r)"
  unfolding settles_def in_status_def by (metis insertE singletonD recipient_status.distinct(1,5))

text \<open>What an update of the worker does to the pending rows of a campaign.\<close>

lemma update_recipients_simps [simp]:
  "cs_recipients (update_recipients p f s) = update_where p f (cs_recipients s)"
  "cs_campaigns (update_recipients p f s) = cs_campaigns s" "cs_mails (update_recipients p f s) = cs_mails s"
  "cs_texts (update_recipients p f s) = cs_texts s" "cs_bell (update_recipients p f s) = cs_bell s"
  by (simp_all add: update_recipients_def)

lemma hand_over_simps [simp]:
  "cs_recipients (hand_over c contacts r s) = cs_recipients s" "cs_campaigns (hand_over c contacts r s) = cs_campaigns s"
  "cs_bell (hand_over c contacts r s) = cs_bell s"
  by (simp_all add: hand_over_def)

lemma deliver_recipients: "cs_recipients (snd (deliver w cid rs s)) = cs_recipients s"
  by (auto simp: deliver_def Let_def split: option.split)

lemma update_pending_le: "settles f \<Longrightarrow> pending_count cid (update_recipients p f s) \<le> pending_count cid s"
  by (simp add: pending_count_def count_where_update settles_not_pending count_where_and_le)

lemma update_pending_less:
  assumes "settles f" "r \<in> set (cs_recipients s)" "in_status cid R_PENDING r" "p r"
  shows "pending_count cid (update_recipients p f s) < pending_count cid s"
  using assms count_where_and_less [of r "cs_recipients s" "in_status cid R_PENDING" "\<lambda>r. \<not> p r"]
  by (simp add: pending_count_def count_where_update settles_not_pending)

lemma mark_ids_le: "settles f \<Longrightarrow> pending_count cid (mark_ids ids f s) \<le> pending_count cid s"
  by (simp add: mark_ids_def update_pending_le)

lemma mark_ids_less:
  "settles f \<Longrightarrow> r \<in> set (cs_recipients s) \<Longrightarrow> in_status cid R_PENDING r \<Longrightarrow> rc_id r \<in> set ids
    \<Longrightarrow> pending_count cid (mark_ids ids f s) < pending_count cid s"
  by (auto simp: mark_ids_def intro: update_pending_less)

lemma next_batch_member:
  "r \<in> set (next_batch cid s) \<Longrightarrow> r \<in> set (cs_recipients s) \<and> in_status cid R_PENDING r"
  by (auto simp: next_batch_def dest: in_set_takeD)

lemma message_one_le: "pending_count cid (message_one env now c contacts r s) \<le> pending_count cid s"
proof -
  have "pending_count cid (hand_over c contacts r s) = pending_count cid s" by (simp add: pending_count_def)
  then show ?thesis unfolding message_one_def
    using update_pending_le [OF settles_results(3), of cid _ env now c contacts r "hand_over c contacts r s"] by simp
qed

lemma messages_le: "pending_count cid (fold (message_one env now c contacts) batch s) \<le> pending_count cid s"
  by (induction batch arbitrary: s) (use message_one_le order_trans in \<open>fastforce+\<close>)

text \<open>A row of the batch is settled by the in-app branch: as gone, or with the batch.\<close>

lemma deliverable_ids_mem:
  assumes "r \<in> set batch" "contacts (rc_accountId r) \<noteq> None"
  shows "\<exists>x \<in> set batch. rc_id x \<in> set (deliverable_ids batch (List.map_filter (in_app_for c contacts) batch))
    \<and> contacts (rc_accountId x) \<noteq> None"
proof -
  obtain ia where ia: "in_app_for c contacts r = Some ia" "ia_accountId ia = rc_accountId r"
    using assms(2) by (auto simp: in_app_for_def Let_def)
  let ?m = "map (\<lambda>x. (rc_accountId x, rc_id x)) batch"
  have "rc_accountId r \<in> fst ` set (rev ?m)" using assms(1) by force
  then obtain i where i: "map_of (rev ?m) (rc_accountId r) = Some i"
    by (metis map_of_eq_None_iff option.exhaust)
  then have "(rc_accountId r, i) \<in> set (rev ?m)" by (rule map_of_SomeD)
  then obtain x where x: "x \<in> set batch" "rc_accountId x = rc_accountId r" "rc_id x = i" by auto
  have "ia \<in> set (List.map_filter (in_app_for c contacts) batch)"
    using assms(1) ia(1) by (force simp: map_filter_def)
  then have "i \<in> set (deliverable_ids batch (List.map_filter (in_app_for c contacts) batch))"
    using ia(2) i by (force simp: deliverable_ids_def js_map_def)
  with x assms(2) show ?thesis by auto
qed

lemma in_app_batch_less:
  assumes batch: "batch = next_batch cid s" "batch \<noteq> []"
  shows "pending_count cid (in_app_batch env now c contacts batch s) < pending_count cid s"
proof -
  let ?d = "List.map_filter (in_app_for c contacts) batch"
  let ?s1 = "mark_ids (gone_ids contacts batch) (set_failed ''The account no longer exists or no longer matches'') s"
  have le1: "pending_count cid ?s1 \<le> pending_count cid s" by (rule mark_ids_le) simp
  have rest: "pending_count cid (in_app_batch env now c contacts batch s) \<le> pending_count cid ?s1"
  proof (cases "?d = []")
    case False
    obtain r s2 where d: "deliver (se_writer env) (cm_id c) ?d ?s1 = (r, s2)" by fastforce
    have "pending_count cid s2 = pending_count cid ?s1"
      using deliver_recipients [of "se_writer env" "cm_id c" ?d ?s1] d by (simp add: pending_count_def)
    then have "pending_count cid (mark_ids ids f s2) \<le> pending_count cid ?s1" if "settles f" for ids f
      using mark_ids_le [OF that] by metis
    with False d show ?thesis
      by (auto simp: in_app_batch_def Let_def split: sum.split)
  qed (simp add: in_app_batch_def Let_def)
  show ?thesis
  proof (cases "\<exists>r \<in> set batch. contacts (rc_accountId r) = None")
    case True
    then obtain r where r: "r \<in> set batch" "contacts (rc_accountId r) = None" by blast
    have "pending_count cid ?s1 < pending_count cid s"
      by (rule mark_ids_less [of _ r]) (use r batch(1) next_batch_member in \<open>auto simp: gone_ids_def\<close>)
    with rest show ?thesis by simp
  next
    case False
    then have s1: "?s1 = s" by (auto simp: gone_ids_def mark_ids_def)
    obtain r where r: "r \<in> set batch" using batch(2) by (cases batch) auto
    have "contacts (rc_accountId r) \<noteq> None" using False r by auto
    from deliverable_ids_mem [of r batch contacts, OF r this, of c] obtain x
      where x: "x \<in> set batch" "rc_id x \<in> set (deliverable_ids batch ?d)" by (elim bexE conjE) (rule that)
    from x(2) have ne: "?d \<noteq> []" by (auto simp: deliverable_ids_def)
    obtain q s2 where d: "deliver (se_writer env) (cm_id c) ?d s = (q, s2)" by fastforce
    have s2: "cs_recipients s2 = cs_recipients s"
      using deliver_recipients [of "se_writer env" "cm_id c" ?d s] d by simp
    have xs: "x \<in> set (cs_recipients s2)" "in_status cid R_PENDING x"
      using x(1) batch(1) next_batch_member s2 by auto
    have "pending_count cid (mark_ids (deliverable_ids batch ?d) f s2) < pending_count cid s2" if "settles f" for f
      using mark_ids_less [OF that xs x(2)] .
    moreover have "pending_count cid s2 = pending_count cid s" using s2 by (simp add: pending_count_def)
    ultimately show ?thesis
      using ne d s1 by (auto simp: in_app_batch_def Let_def split: sum.split)
  qed
qed

lemma send_batch_less:
  assumes "next_batch cid s \<noteq> []"
  shows "pending_count cid (send_batch env now c contacts (next_batch cid s) s) < pending_count cid s"
proof (cases "cm_channel c = IN_APP")
  case True
  with assms in_app_batch_less show ?thesis by (simp add: send_batch_def)
next
  case False
  obtain r rs where b: "next_batch cid s = r # rs" using assms by (cases "next_batch cid s") auto
  have r: "r \<in> set (cs_recipients s)" "in_status cid R_PENDING r"
    using next_batch_member [of r cid s] b by auto
  have "pending_count cid (message_one env now c contacts r s) < pending_count cid (hand_over c contacts r s)"
    unfolding message_one_def by (rule update_pending_less [of _ r]) (use r in auto)
  moreover have "pending_count cid (hand_over c contacts r s) = pending_count cid s" by (simp add: pending_count_def)
  ultimately have "pending_count cid (message_one env now c contacts r s) < pending_count cid s" by simp
  with messages_le [of cid env now c contacts rs "message_one env now c contacts r s"] b False
  show ?thesis by (simp add: send_batch_def)
qed

text \<open>\<open>for (;;)\<close>: batches until none is pending.\<close>

function send_loop :: "send_env \<Rightarrow> millis \<Rightarrow> campaign_row \<Rightarrow> contacts \<Rightarrow> campaign_state \<Rightarrow> campaign_state" where
  "send_loop env now c contacts s =
     (let batch = next_batch (cm_id c) s in
      if batch = [] then s else send_loop env now c contacts (send_batch env now c contacts batch s))"
  by pat_completeness auto
termination
  by (relation "measure (\<lambda>(env, now, c, contacts, s). pending_count (cm_id c) s)") (auto intro: send_batch_less)

declare send_loop.simps [simp del]

section \<open>The job\<close>

datatype job_reply = NoReply | SkippedJob string | Finished nat nat

definition finish_campaign :: "millis \<Rightarrow> string \<Rightarrow> campaign_state \<Rightarrow> (campaign_state, job_reply) outcome" where
  "finish_campaign now cid s =
     (let sentTotal = count_where (in_status cid R_SENT) (cs_recipients s);
          failedTotal = count_where (in_status cid R_FAILED) (cs_recipients s)
      in returns (Finished sentTotal failedTotal)
           (update_campaign cid (\<lambda>x. x\<lparr>cm_status := (if sentTotal = 0 \<and> 0 < failedTotal then FAILED else SENT),
              cm_completedAt := Some now, cm_sentCount := sentTotal, cm_failedCount := failedTotal\<rparr>) s))"

definition send_campaign ::
  "send_env \<Rightarrow> millis \<Rightarrow> campaign_row \<Rightarrow> bool \<Rightarrow> campaign_state \<Rightarrow> (campaign_state, job_reply) outcome" where
  "send_campaign env now c retry s =
     (let cid = cm_id c;
          s1 = update_campaign cid (\<lambda>x. x\<lparr>cm_status := SENDING, cm_startedAt := Some now\<rparr>) s
      in case (if retry then returns 0 s1 else materialiseRecipients now cid s1) of
           (Inl e, s2) \<Rightarrow> throws e s2
         | (Inr _, s2) \<Rightarrow> (case resolveRecipients now c s2 of
              Inl e \<Rightarrow> throws e s2
            | Inr rs \<Rightarrow> finish_campaign now cid
                (send_loop env now c (js_map (map (\<lambda>r. (rr_accountId r, r)) rs)) s2)))"

definition run_job ::
  "send_env \<Rightarrow> millis \<Rightarrow> string \<Rightarrow> string \<Rightarrow> bool \<Rightarrow> campaign_state \<Rightarrow> (campaign_state, job_reply) outcome" where
  "run_job env now jobName cid retry s =
     (if jobName \<noteq> ''send-campaign'' then returns NoReply s
      else (case find_campaign cid s of
          None \<Rightarrow> returns (SkippedJob ''campaign deleted'') s
        | Some c \<Rightarrow>
            if cm_status c = CANCELLED then returns (SkippedJob ''cancelled'') s
            else if cm_status c = SENT then returns (SkippedJob ''already sent'') s
            else if cm_requiresApproval c \<and> cm_approvedAt c = None
            then returns (SkippedJob ''not approved'') (update_campaign cid (\<lambda>x. x\<lparr>cm_status := PENDING_APPROVAL\<rparr>) s)
            else send_campaign env now c retry s))"

text \<open>
  What the campaign worker does with the recipients: the loop leaves none pending, sending in
  batches is a single pass, and a retry touches the failed ones only.
\<close>

section \<open>The loop as a single pass\<close>

lemma next_batch_Nil: "next_batch cid s = [] \<longleftrightarrow> filter (in_status cid R_PENDING) (cs_recipients s) = []"
  by (simp add: next_batch_def batch_size_def)

lemma send_loop_done: "filter (in_status (cm_id c) R_PENDING) (cs_recipients (send_loop env now c contacts s)) = []"
proof (induction env now c contacts s rule: send_loop.induct)
  case (1 env now c contacts s)
  show ?case
  proof (cases "next_batch (cm_id c) s = []")
    case True
    then show ?thesis by (subst send_loop.simps) (simp add: next_batch_Nil)
  next
    case False
    with 1 [OF refl False] show ?thesis by (subst send_loop.simps) (simp add: Let_def)
  qed
qed

definition pass_row :: "send_env \<Rightarrow> millis \<Rightarrow> campaign_row \<Rightarrow> contacts \<Rightarrow> recipient_row \<Rightarrow> recipient_row" where
  "pass_row env now c contacts r =
     (if in_status (cm_id c) R_PENDING r then message_result env now c contacts r r else r)"

lemma message_result_id: "rc_id (message_result env now c contacts r x) = rc_id x"
  using settles_results(3) [of env now c contacts r] by (simp add: settles_def)

lemma message_one_recipients:
  assumes "distinct (map rc_id (cs_recipients s))" "r \<in> set (cs_recipients s)"
  shows "cs_recipients (message_one env now c contacts r s) =
    map (\<lambda>x. if x = r then message_result env now c contacts r r else x) (cs_recipients s)"
proof -
  have "rc_id x = rc_id r \<longleftrightarrow> x = r" if "x \<in> set (cs_recipients s)" for x
    using assms that by (auto simp: distinct_map dest: inj_onD)
  then show ?thesis by (auto simp: message_one_def update_where_def)
qed

lemma send_messages:
  assumes "distinct (map rc_id (cs_recipients s))" "set rs \<subseteq> set (cs_recipients s)" "distinct rs"
  shows "cs_recipients (fold (message_one env now c contacts) rs s) =
    map (\<lambda>x. if x \<in> set rs then message_result env now c contacts x x else x) (cs_recipients s)"
  using assms
proof (induction rs arbitrary: s)
  case (Cons r rs)
  let ?F = "message_result env now c contacts"
  let ?s1 = "message_one env now c contacts r s"
  note rows = message_one_recipients [OF Cons.prems(1), of r env now c contacts]
  have r: "r \<in> set (cs_recipients s)" using Cons.prems(2) by simp
  have uniq: "x = r" if "x \<in> set (cs_recipients s)" "rc_id x = rc_id r" for x
    using Cons.prems(1) r that by (auto simp: distinct_map dest: inj_onD)
  have ids: "map rc_id (cs_recipients ?s1) = map rc_id (cs_recipients s)"
    by (simp add: rows [OF r] message_result_id)
  have sub: "set rs \<subseteq> set (cs_recipients ?s1)"
    using Cons.prems(2,3) by (force simp: rows [OF r])
  have notin: "?F r r \<notin> set rs"
  proof
    assume "?F r r \<in> set rs"
    then have "?F r r \<in> set (cs_recipients s)" using Cons.prems(2) by auto
    then have "?F r r = r" using uniq message_result_id by blast
    with \<open>?F r r \<in> set rs\<close> Cons.prems(3) show False by simp
  qed
  have "cs_recipients (fold (message_one env now c contacts) (r # rs) s) =
      map (\<lambda>x. if x \<in> set rs then ?F x x else x) (cs_recipients ?s1)"
    using Cons.IH [of ?s1] ids sub Cons.prems(1,3) by simp
  also have "\<dots> = map (\<lambda>x. if x \<in> set (r # rs) then ?F x x else x) (cs_recipients s)"
    using notin Cons.prems(3) by (auto simp: rows [OF r])
  finally show ?case .
qed simp

lemma send_messages_out:
  "cm_channel c = EMAIL \<Longrightarrow> cs_mails (fold (message_one env now c contacts) rs s) =
     cs_mails s @ List.map_filter (mail_for c contacts) rs"
  "cm_channel c = SMS \<Longrightarrow> cs_texts (fold (message_one env now c contacts) rs s) =
     cs_texts s @ List.map_filter (sms_for c contacts) rs"
  by (induction rs arbitrary: s)
    (auto simp: message_one_def hand_over_def map_filter_simps split: option.split)

lemma filter_outside_prefix:
  assumes "distinct xs"
  shows "filter (\<lambda>x. x \<notin> set (take n xs)) xs = drop n xs"
proof -
  have "set (take n xs) \<inter> set (drop n xs) = {}"
    using assms by (rule set_take_disj_set_drop_if_distinct) simp
  then have "filter (\<lambda>x. x \<notin> set (take n xs)) (take n xs @ drop n xs) = drop n xs"
    by (subst filter_append) (auto simp: filter_empty_conv filter_id_conv)
  then show ?thesis by simp
qed

text \<open>A settled batch leaves the rest of the pending rows, in order.\<close>

lemma pending_after_batch:
  assumes "distinct rows" "batch = take n (filter P rows)" "\<And>x. \<not> P (f x)"
  shows "filter P (map (\<lambda>x. if x \<in> set batch then f x else x) rows) = drop n (filter P rows)"
proof -
  have "filter P (map (\<lambda>x. if x \<in> set batch then f x else x) rows) = filter (\<lambda>x. P x \<and> x \<notin> set batch) rows"
    using assms(3) by (induction rows) auto
  also have "\<dots> = filter (\<lambda>x. x \<notin> set batch) (filter P rows)"
    by (simp add: conj_commute)
  also have "\<dots> = drop n (filter P rows)"
    unfolding assms(2) by (rule filter_outside_prefix) (simp add: assms(1))
  finally show ?thesis .
qed

lemma map_filter_batch:
  "List.map_filter g (next_batch cid s) @ List.map_filter g (drop batch_size (filter (in_status cid R_PENDING) (cs_recipients s)))
    = List.map_filter g (filter (in_status cid R_PENDING) (cs_recipients s))"
proof -
  have "List.map_filter g (xs @ ys) = List.map_filter g xs @ List.map_filter g ys" for xs ys
    by (simp add: map_filter_def)
  from this [symmetric] show ?thesis by (simp add: next_batch_def)
qed

lemma send_loop_pass:
  assumes "distinct (map rc_id (cs_recipients s))" "cm_channel c \<noteq> IN_APP"
  shows "cs_recipients (send_loop env now c contacts s) = map (pass_row env now c contacts) (cs_recipients s)
    \<and> (cm_channel c = EMAIL \<longrightarrow> cs_mails (send_loop env now c contacts s) = cs_mails s
        @ List.map_filter (mail_for c contacts) (filter (in_status (cm_id c) R_PENDING) (cs_recipients s)))
    \<and> (cm_channel c = SMS \<longrightarrow> cs_texts (send_loop env now c contacts s) = cs_texts s
        @ List.map_filter (sms_for c contacts) (filter (in_status (cm_id c) R_PENDING) (cs_recipients s)))"
  using assms
proof (induction env now c contacts s rule: send_loop.induct)
  case (1 env now c contacts s)
  let ?P = "in_status (cm_id c) R_PENDING" and ?F = "message_result env now c contacts"
  let ?b = "next_batch (cm_id c) s" and ?rows = "cs_recipients s"
  show ?case
  proof (cases "?b = []")
    case True
    then have none: "filter ?P ?rows = []" by (simp add: next_batch_Nil)
    then have "map (pass_row env now c contacts) ?rows = ?rows"
      by (simp add: filter_empty_conv pass_row_def map_idI)
    with True none show ?thesis by (subst (1 2 3) send_loop.simps) (simp add: map_filter_simps)
  next
    case False
    let ?s1 = "send_batch env now c contacts ?b s"
    have loop: "send_loop env now c contacts s = send_loop env now c contacts ?s1"
      using False by (subst send_loop.simps) (simp add: Let_def)
    have s1: "?s1 = fold (message_one env now c contacts) ?b s"
      using "1.prems"(2) by (simp add: send_batch_def)
    have drows: "distinct ?rows" using "1.prems"(1) by (simp add: distinct_map)
    then have "distinct ?b" by (simp add: next_batch_def)
    with send_messages [OF "1.prems"(1), of ?b env now c contacts] next_batch_member
    have rows1: "cs_recipients ?s1 = map (\<lambda>x. if x \<in> set ?b then ?F x x else x) ?rows"
      unfolding s1 by blast
    have settled: "\<not> ?P (?F x x)" for x by (rule settles_not_pending) simp
    have ids: "distinct (map rc_id (cs_recipients ?s1))"
      using "1.prems"(1) by (simp add: rows1 comp_def if_distrib message_result_id cong: if_cong)
    note IH = "1.IH" [OF refl False ids "1.prems"(2)]
    have "map (pass_row env now c contacts) (cs_recipients ?s1) = map (pass_row env now c contacts) ?rows"
      using next_batch_member [of _ "cm_id c" s] settled by (auto simp: rows1 pass_row_def)
    moreover have "filter ?P (cs_recipients ?s1) = drop batch_size (filter ?P ?rows)"
      unfolding rows1 by (rule pending_after_batch [OF drows]) (auto simp: next_batch_def settled)
    ultimately show ?thesis
      using IH send_messages_out [of c env now contacts ?b s] unfolding loop by (simp add: s1 map_filter_batch)
  qed
qed

section \<open>The run as a whole\<close>

definition worker_statuses :: "campaign_state \<Rightarrow> bool" where
  "worker_statuses s \<longleftrightarrow> (\<forall>r \<in> set (cs_recipients s). rc_status r \<in> {R_PENDING, R_SENT, R_FAILED})"

lemma update_recipients_statuses:
  "settles f \<Longrightarrow> worker_statuses s \<Longrightarrow> worker_statuses (update_recipients p f s)"
  by (auto simp: worker_statuses_def set_update_where settles_def)

lemma mark_ids_statuses: "settles f \<Longrightarrow> worker_statuses s \<Longrightarrow> worker_statuses (mark_ids ids f s)"
  by (simp add: mark_ids_def update_recipients_statuses)

lemma statuses_cong: "cs_recipients s' = cs_recipients s \<Longrightarrow> worker_statuses s' = worker_statuses s"
  by (simp add: worker_statuses_def)

lemma send_batch_statuses:
  assumes "worker_statuses s"
  shows "worker_statuses (send_batch env now c contacts batch s)"
proof (cases "cm_channel c = IN_APP")
  case True
  let ?d = "List.map_filter (in_app_for c contacts) batch"
  let ?s1 = "mark_ids (gone_ids contacts batch) (set_failed ''The account no longer exists or no longer matches'') s"
  have s1: "worker_statuses ?s1" by (rule mark_ids_statuses [OF _ assms]) simp
  obtain r s2 where d: "deliver (se_writer env) (cm_id c) ?d ?s1 = (r, s2)" by fastforce
  have "worker_statuses s2"
    using s1 deliver_recipients [of "se_writer env" "cm_id c" ?d ?s1] d by (simp add: worker_statuses_def)
  then show ?thesis
    using True s1 d by (auto simp: send_batch_def in_app_batch_def Let_def mark_ids_statuses split: sum.split)
next
  case False
  have one: "worker_statuses (message_one env now c contacts r s)" if "worker_statuses s" for r s
    unfolding message_one_def
    by (rule update_recipients_statuses) (use that in \<open>simp_all add: worker_statuses_def\<close>)
  have "worker_statuses (fold (message_one env now c contacts) batch s)"
    using assms by (induction batch arbitrary: s) (auto intro: one)
  with False show ?thesis by (simp add: send_batch_def)
qed

lemma send_loop_statuses: "worker_statuses s \<Longrightarrow> worker_statuses (send_loop env now c contacts s)"
proof (induction env now c contacts s rule: send_loop.induct)
  case (1 env now c contacts s)
  show ?case
  proof (cases "next_batch (cm_id c) s = []")
    case True
    with "1.prems" show ?thesis by (subst send_loop.simps) simp
  next
    case False
    with "1.IH" [OF refl False] "1.prems" send_batch_statuses show ?thesis
      by (subst send_loop.simps) (simp add: Let_def)
  qed
qed

lemma create_recipient_statuses: "worker_statuses s \<Longrightarrow> worker_statuses (create_recipient c r s)"
  by (auto simp: create_recipient_def worker_statuses_def new_recipient_def)

lemma fold_invariant: "(\<And>x s. P s \<Longrightarrow> P (f x s)) \<Longrightarrow> P s \<Longrightarrow> P (fold f xs s)"
  by (induction xs arbitrary: s) auto

lemma create_recipients_statuses:
  "worker_statuses s \<Longrightarrow> worker_statuses (fold (create_recipients c) chunks s)"
  by (intro fold_invariant [of worker_statuses])
    (auto simp: create_recipients_def intro!: fold_invariant [of worker_statuses] create_recipient_statuses)

lemma update_campaign_simps [simp]:
  "cs_recipients (update_campaign cid f s) = cs_recipients s" "cs_segments (update_campaign cid f s) = cs_segments s"
  "cs_accounts (update_campaign cid f s) = cs_accounts s" "cs_bell (update_campaign cid f s) = cs_bell s"
  "cs_mails (update_campaign cid f s) = cs_mails s" "cs_audit (update_campaign cid f s) = cs_audit s"
  "cs_campaigns (update_campaign cid f s) = update_where (\<lambda>c. cm_id c = cid) f (cs_campaigns s)"
  by (simp_all add: update_campaign_def)

lemma update_campaign_statuses [simp]: "worker_statuses (update_campaign cid f s) = worker_statuses s"
  by (simp add: worker_statuses_def)

lemma resolveRecipients_cong:
  "cs_segments s' = cs_segments s \<Longrightarrow> cs_accounts s' = cs_accounts s \<Longrightarrow>
   cm_audienceKind c' = cm_audienceKind c \<Longrightarrow> cm_segmentId c' = cm_segmentId c \<Longrightarrow> cm_accountIds c' = cm_accountIds c \<Longrightarrow>
   resolveRecipients now c' s' = resolveRecipients now c s"
  by (simp add: resolveRecipients_def split: option.split)

lemma create_recipients_frame:
  "cs_segments (fold (create_recipients c) ch s) = cs_segments s"
  "cs_accounts (fold (create_recipients c) ch s) = cs_accounts s"
  "cs_campaigns (fold (create_recipients c) ch s) = cs_campaigns s"
  "cs_mails (fold (create_recipients c) ch s) = cs_mails s"
  "cs_audit (fold (create_recipients c) ch s) = cs_audit s"
  "cs_bell (fold (create_recipients c) ch s) = cs_bell s"
proof -
  let ?same = "\<lambda>t. cs_segments t = cs_segments s \<and> cs_accounts t = cs_accounts s \<and> cs_campaigns t = cs_campaigns s
    \<and> cs_mails t = cs_mails s \<and> cs_audit t = cs_audit s \<and> cs_bell t = cs_bell s"
  have "?same (create_recipient c r t)" if "?same t" for r t
    using that by (simp add: create_recipient_def)
  then have "?same (create_recipients c rs t)" if "?same t" for rs t
    unfolding create_recipients_def by (rule fold_invariant [of ?same]) (use that in auto)
  then have "?same (fold (create_recipients c) ch s)"
    by (rule fold_invariant [of ?same]) auto
  then show "cs_segments (fold (create_recipients c) ch s) = cs_segments s"
    "cs_accounts (fold (create_recipients c) ch s) = cs_accounts s"
    "cs_campaigns (fold (create_recipients c) ch s) = cs_campaigns s"
    "cs_mails (fold (create_recipients c) ch s) = cs_mails s"
    "cs_audit (fold (create_recipients c) ch s) = cs_audit s"
    "cs_bell (fold (create_recipients c) ch s) = cs_bell s" by auto
qed

text \<open>Frame facts of the loop: it leaves the campaigns and the audit log alone.\<close>

lemma mark_ids_frame [simp]:
  "cs_campaigns (mark_ids ids f s) = cs_campaigns s" "cs_audit (mark_ids ids f s) = cs_audit s"
  "cs_bell (mark_ids ids f s) = cs_bell s" "cs_mails (mark_ids ids f s) = cs_mails s"
  by (simp_all add: mark_ids_def update_recipients_def)

lemma deliver_frame:
  "deliver w cid rs s = (r, s2) \<Longrightarrow> cs_campaigns s2 = cs_campaigns s \<and> cs_audit s2 = cs_audit s \<and> cs_recipients s2 = cs_recipients s
     \<and> set (cs_bell s2) \<subseteq> set (cs_bell s) \<union> {b. bl_campaignId b = cid}"
  by (auto simp: deliver_def Let_def bell_of_def split: if_splits option.splits)

definition reached :: "campaign_state \<Rightarrow> string set" where
  "reached s = rc_campaignId ` set (cs_recipients s) \<union> bl_campaignId ` set (cs_bell s)"

lemma settles_campaignId: "settles f \<Longrightarrow> rc_campaignId (f r) = rc_campaignId r"
  by (simp add: settles_def)

lemma update_recipients_campaigns:
  "settles f \<Longrightarrow> rc_campaignId ` set (update_where p f rows) = rc_campaignId ` set rows"
  using map_update_where [of rc_campaignId f p rows] by (metis list.set_map settles_campaignId)

lemma mark_ids_reached: "settles f \<Longrightarrow> reached (mark_ids ids f s) = reached s"
  by (simp add: reached_def mark_ids_def update_recipients_campaigns)

lemma send_batch_frame:
  "cs_campaigns (send_batch env now c contacts batch s) = cs_campaigns s
   \<and> cs_audit (send_batch env now c contacts batch s) = cs_audit s
   \<and> reached (send_batch env now c contacts batch s) \<subseteq> insert (cm_id c) (reached s)"
proof (cases "cm_channel c = IN_APP")
  case True
  let ?d = "List.map_filter (in_app_for c contacts) batch"
  let ?s1 = "mark_ids (gone_ids contacts batch) (set_failed ''The account no longer exists or no longer matches'') s"
  obtain r s2 where d: "deliver (se_writer env) (cm_id c) ?d ?s1 = (r, s2)" by fastforce
  have "reached ?s1 = reached s" by (rule mark_ids_reached) simp
  then have "reached s2 \<subseteq> insert (cm_id c) (reached s)"
    using deliver_frame [OF d] unfolding reached_def by fastforce
  then show ?thesis
    using True deliver_frame [OF d] \<open>reached ?s1 = reached s\<close> d
    by (auto simp: send_batch_def in_app_batch_def Let_def mark_ids_reached split: sum.split)
next
  case False
  let ?same = "\<lambda>t. cs_campaigns t = cs_campaigns s \<and> cs_audit t = cs_audit s \<and> reached t = reached s"
  have "?same (message_one env now c contacts r t)" if "?same t" for r t
    using that by (simp add: message_one_def reached_def update_recipients_campaigns hand_over_def update_recipients_def)
  then have "?same (fold (message_one env now c contacts) batch s)"
    by (rule fold_invariant [of ?same]) auto
  with False show ?thesis by (auto simp: send_batch_def)
qed

lemma send_loop_frame:
  "cs_campaigns (send_loop env now c contacts s) = cs_campaigns s
   \<and> cs_audit (send_loop env now c contacts s) = cs_audit s
   \<and> reached (send_loop env now c contacts s) \<subseteq> insert (cm_id c) (reached s)"
proof (induction env now c contacts s rule: send_loop.induct)
  case (1 env now c contacts s)
  show ?case
  proof (cases "next_batch (cm_id c) s = []")
    case True
    then show ?thesis by (subst (1 2 3) send_loop.simps) auto
  next
    case False
    let ?s1 = "send_batch env now c contacts (next_batch (cm_id c) s) s"
    have loop: "send_loop env now c contacts s = send_loop env now c contacts ?s1"
      using False by (subst send_loop.simps) (simp add: Let_def)
    show ?thesis
      using "1.IH" [OF refl False] send_batch_frame [of env now c contacts "next_batch (cm_id c) s" s]
      unfolding loop by auto
  qed
qed

end
