(* ===== verification/Campaign_Runs.thy ===== *)
theory Campaign_Runs
  imports Campaign_Worker
begin

text \<open>
  Properties of whole runs of the campaign worker and of the service around it: a run settles
  every recipient, batches add up to one pass, a retry reaches the failed recipients only, and
  nothing goes out for a large campaign before it is approved.
\<close>

section \<open>A run that sends\<close>

lemma find_campaign_update:
  assumes "find_campaign cid s = Some c" "\<And>x. cm_id (f x) = cm_id x"
  shows "find_campaign cid (update_campaign cid f s) = Some (f c)"
proof -
  have "cm_id c = cid" using assms(1) by (auto simp: find_campaign_def dest: find_row_SomeD)
  with assms show ?thesis by (simp add: find_campaign_def find_row_update_where)
qed

lemma finish_campaign_facts:
  assumes "finish_campaign now cid s = (r, s')"
  shows "r = Inr (Finished (count_where (in_status cid R_SENT) (cs_recipients s))
           (count_where (in_status cid R_FAILED) (cs_recipients s)))"
    and "cs_recipients s' = cs_recipients s" and "cs_mails s' = cs_mails s"
  using assms by (auto simp: finish_campaign_def Let_def)

text \<open>The state in which the loop starts.\<close>

definition sending_state :: "millis \<Rightarrow> campaign_row \<Rightarrow> bool \<Rightarrow> resolved_recipient list \<Rightarrow> campaign_state \<Rightarrow> campaign_state" where
  "sending_state now c retry rs s =
     (let s1 = update_campaign (cm_id c) (\<lambda>x. x\<lparr>cm_status := SENDING, cm_startedAt := Some now\<rparr>) s in
      if retry then s1
      else update_campaign (cm_id c) (\<lambda>x. x\<lparr>cm_recipientCount := length rs\<rparr>)
             (fold (create_recipients c) (chunked 1000 rs) s1))"

definition contact_map :: "resolved_recipient list \<Rightarrow> contacts" where
  "contact_map rs = js_map (map (\<lambda>r. (rr_accountId r, r)) rs)"

lemma create_recipients_cong:
  "cm_id c' = cm_id c \<Longrightarrow> cm_channel c' = cm_channel c \<Longrightarrow> create_recipients c' = create_recipients c"
proof -
  assume a: "cm_id c' = cm_id c" "cm_channel c' = cm_channel c"
  then have "new_recipient c' = new_recipient c" by (intro ext) (simp add: new_recipient_def)
  with a have "create_recipient c' = create_recipient c" by (intro ext) (simp add: create_recipient_def)
  then show ?thesis by (intro ext) (simp add: create_recipients_def)
qed

lemma send_campaign_form:
  assumes c: "find_campaign (cm_id c) s = Some c" and rs: "resolveRecipients now c s = Inr rs"
  shows "send_campaign env now c retry s = finish_campaign now (cm_id c)
    (send_loop env now c (contact_map rs) (sending_state now c retry rs s))"
proof -
  let ?f = "\<lambda>x. x\<lparr>cm_status := SENDING, cm_startedAt := Some now\<rparr>"
  let ?s1 = "update_campaign (cm_id c) ?f s"
  have f1: "find_campaign (cm_id c) ?s1 = Some (?f c)" using c by (rule find_campaign_update) simp
  have r1: "resolveRecipients now (?f c) ?s1 = Inr rs"
    using rs by (subst resolveRecipients_cong [of _ s _ c]) simp_all
  have m: "materialiseRecipients now (cm_id c) ?s1 = (Inr (length rs), sending_state now c False rs s)"
    using f1 r1 create_recipients_cong [of "?f c" c]
    by (simp add: materialiseRecipients_def sending_state_def Let_def)
  have r2: "resolveRecipients now c (sending_state now c retry rs s) = Inr rs"
    using rs by (subst resolveRecipients_cong [of _ s _ c])
      (simp_all add: sending_state_def Let_def create_recipients_frame)
  show ?thesis
  proof (cases retry)
    case True
    then have "sending_state now c retry rs s = ?s1" by (simp add: sending_state_def Let_def)
    with True r2 show ?thesis by (simp add: send_campaign_def Let_def contact_map_def)
  next
    case False
    with m r2 show ?thesis by (simp add: send_campaign_def Let_def contact_map_def)
  qed
qed

lemma run_job_sends:
  assumes "find_campaign cid s = Some c" "cm_status c \<notin> {CANCELLED, SENT}"
    "cm_requiresApproval c \<Longrightarrow> cm_approvedAt c \<noteq> None" "resolveRecipients now c s = Inr rs"
  shows "run_job env now ''send-campaign'' cid retry s = finish_campaign now cid
    (send_loop env now c (contact_map rs) (sending_state now c retry rs s))"
proof -
  have "cm_id c = cid" using assms(1) by (auto simp: find_campaign_def dest: find_row_SomeD)
  moreover have "\<not> (cm_requiresApproval c \<and> cm_approvedAt c = None)" using assms(3) by blast
  ultimately show ?thesis
    using assms(1,2,4) send_campaign_form [of c s now rs env retry] by (auto simp: run_job_def)
qed

lemma sending_state_statuses: "worker_statuses s \<Longrightarrow> worker_statuses (sending_state now c retry rs s)"
  by (simp add: sending_state_def Let_def create_recipients_statuses)

lemma count_split:
  assumes "worker_statuses s"
  shows "count_where (\<lambda>r. rc_campaignId r = cid) (cs_recipients s) =
    count_where (in_status cid R_PENDING) (cs_recipients s) + count_where (in_status cid R_SENT) (cs_recipients s)
    + count_where (in_status cid R_FAILED) (cs_recipients s)"
proof -
  have "count_where (\<lambda>r. rc_campaignId r = cid) rows =
    count_where (in_status cid R_PENDING) rows + count_where (in_status cid R_SENT) rows
      + count_where (in_status cid R_FAILED) rows"
    if "\<forall>r \<in> set rows. rc_status r \<in> {R_PENDING, R_SENT, R_FAILED}" for rows
    using that by (induction rows) (auto simp: in_status_def)
  with assms show ?thesis by (simp add: worker_statuses_def)
qed

definition finished_as :: "nat \<Rightarrow> nat \<Rightarrow> campaign_row \<Rightarrow> bool" where
  "finished_as sent failed c \<longleftrightarrow> cm_sentCount c = sent \<and> cm_failedCount c = failed \<and> cm_completedAt c \<noteq> None
     \<and> cm_status c = (if sent = 0 \<and> 0 < failed then FAILED else SENT)"

lemma finish_campaign_row:
  assumes "finish_campaign now cid s = (Inr (Finished sent failed), s')" "c \<in> set (cs_campaigns s')" "cm_id c = cid"
  shows "finished_as sent failed c"
proof -
  let ?f = "\<lambda>x. x\<lparr>cm_status := (if sent = 0 \<and> 0 < failed then FAILED else SENT),
    cm_completedAt := Some now, cm_sentCount := sent, cm_failedCount := failed\<rparr>"
  have "s' = update_campaign cid ?f s" using assms(1) by (auto simp: finish_campaign_def Let_def)
  then have "c \<in> set (update_where (\<lambda>c. cm_id c = cid) ?f (cs_campaigns s))" using assms(2) by simp
  from in_update_where [OF this] obtain y where "c = (if cm_id y = cid then ?f y else y)" by (elim bexE) (rule that)
  then have "c = ?f y" using assms(3) by (cases "cm_id y = cid") auto
  then show ?thesis by (simp add: finished_as_def)
qed

text \<open>
  C21. A campaign run settles everyone.  Given a campaign that may be sent (not cancelled, not
  already sent, approved if it must be) and an audience that resolves, the job always finishes,
  whatever the mail, SMS and notification services answer: no recipient is left pending, the
  counts it returns and stores are the numbers of sent and failed recipients and add up to all
  recipients of the campaign, and the campaign is FAILED exactly when nobody was reached though
  someone was tried.
\<close>

theorem campaign_run_settles:
  assumes "find_campaign cid s = Some c" "cm_status c \<notin> {CANCELLED, SENT}"
    "cm_requiresApproval c \<Longrightarrow> cm_approvedAt c \<noteq> None" "resolveRecipients now c s = Inr rs"
    "worker_statuses s"
  shows "\<exists>sent failed s'. run_job env now ''send-campaign'' cid retry s = (Inr (Finished sent failed), s')
    \<and> pending_count cid s' = 0
    \<and> sent = count_where (in_status cid R_SENT) (cs_recipients s')
    \<and> failed = count_where (in_status cid R_FAILED) (cs_recipients s')
    \<and> sent + failed = count_where (\<lambda>r. rc_campaignId r = cid) (cs_recipients s')
    \<and> (\<forall>x \<in> set (cs_campaigns s'). cm_id x = cid \<longrightarrow> finished_as sent failed x)"
proof -
  let ?t = "send_loop env now c (contact_map rs) (sending_state now c retry rs s)"
  obtain r s' where r: "finish_campaign now cid ?t = (r, s')" by fastforce
  note f = finish_campaign_facts [OF r]
  have cid: "cm_id c = cid" using assms(1) by (auto simp: find_campaign_def dest: find_row_SomeD)
  have run: "run_job env now ''send-campaign'' cid retry s = (r, s')"
    using run_job_sends [OF assms(1-4)] r by simp
  have none: "filter (in_status cid R_PENDING) (cs_recipients s') = []"
    using send_loop_done [of c env now "contact_map rs" "sending_state now c retry rs s"] cid f(2) by simp
  have ok: "worker_statuses s'"
    using send_loop_statuses [OF sending_state_statuses [OF assms(5)]] f(2) statuses_cong by blast
  have p0: "pending_count cid s' = 0" using none by (simp add: pending_count_def count_where_def)
  have "r = Inr (Finished (count_where (in_status cid R_SENT) (cs_recipients s'))
      (count_where (in_status cid R_FAILED) (cs_recipients s')))"
    using f by simp
  moreover from this have "\<forall>x \<in> set (cs_campaigns s'). cm_id x = cid \<longrightarrow>
      finished_as (count_where (in_status cid R_SENT) (cs_recipients s')) (count_where (in_status cid R_FAILED) (cs_recipients s')) x"
    using finish_campaign_row r by blast
  ultimately show ?thesis
    using run p0 count_split [OF ok, of cid] by (simp add: pending_count_def)
qed

section \<open>A demonstration campaign\<close>

definition demo_campaign :: campaign_row where
  "demo_campaign = \<lparr>cm_id = ''c1'', cm_name = ''News'', cm_channel = EMAIL, cm_templateId = None, cm_subject = Some ''Hi'',
     cm_body = ''Hello'', cm_audienceKind = ACCOUNT_LIST, cm_segmentId = None, cm_accountIds = [''a'', ''b''],
     cm_status = SCHEDULED, cm_scheduledAt = None, cm_startedAt = None, cm_completedAt = None, cm_recipientCount = 2,
     cm_sentCount = 0, cm_failedCount = 0, cm_requiresApproval = False, cm_approvedById = None, cm_approvedAt = None,
     cm_createdById = ''s1'', cm_createdAt = 1\<rparr>"

definition demo_recipient :: "nat \<Rightarrow> string \<Rightarrow> recipient_status \<Rightarrow> recipient_row" where
  "demo_recipient i a st = \<lparr>rc_id = i, rc_campaignId = ''c1'', rc_accountId = a, rc_destination = None,
     rc_status = st, rc_failureReason = None, rc_sentAt = None\<rparr>"

definition demo_inbox :: inbox_state where
  "demo_inbox = \<lparr>ib_staff = [], ib_roles = [], ib_notes = [], ib_nextNote = 0, ib_pushed = [], ib_mails = []\<rparr>"

definition demo_campaigns :: "campaign_row list \<Rightarrow> recipient_row list \<Rightarrow> campaign_state" where
  "demo_campaigns cs rs = \<lparr>cs_campaigns = cs, cs_recipients = rs, cs_nextRecipient = length rs, cs_segments = [],
     cs_accounts = [demo_account ''a'' ''ACTIVE'', demo_account ''b'' ''ACTIVE''], cs_inbox = demo_inbox,
     cs_jobs = [], cs_removed = [], cs_mails = [], cs_texts = [], cs_bell = [], cs_nudged = [], cs_audit = []\<rparr>"

definition demo_env :: send_env where
  "demo_env = \<lparr>se_mailer = (\<lambda>m. if ml_to m = ''b@x'' then Some (PlainError ''bounced'') else None),
     se_texter = (\<lambda>_. None), se_writer = (\<lambda>_. None)\<rparr>"

lemma demo_find: "find_campaign ''c1'' (demo_campaigns [demo_campaign] rs) = Some demo_campaign"
  by (simp add: find_campaign_def demo_campaigns_def demo_campaign_def)

definition demo_contacts :: "resolved_recipient list" where
  "demo_contacts = [recipient_of (demo_account ''a'' ''ACTIVE''), recipient_of (demo_account ''b'' ''ACTIVE'')]"

lemma demo_resolves: "resolveRecipients 5 demo_campaign (demo_campaigns cs rs) = Inr demo_contacts"
proof -
  have "sort_key aw_id [demo_account ''a'' ''ACTIVE'', demo_account ''b'' ''ACTIVE'']
      = [demo_account ''a'' ''ACTIVE'', demo_account ''b'' ''ACTIVE'']"
    by (simp add: demo_account_def)
  then show ?thesis
    by (simp add: resolveRecipients_def demo_campaign_def demo_campaigns_def resolveAccounts_def demo_contacts_def)
      (simp add: demo_account_def)
qed

theorem campaign_run_settles_witness:
  "\<exists>sent failed s'. run_job demo_env 5 ''send-campaign'' ''c1'' False (demo_campaigns [demo_campaign] [])
     = (Inr (Finished sent failed), s') \<and> pending_count ''c1'' s' = 0
     \<and> sent + failed = count_where (\<lambda>r. rc_campaignId r = ''c1'') (cs_recipients s')"
  using campaign_run_settles [OF demo_find _ _ demo_resolves, of "[]" demo_env False]
  by (force simp: demo_campaign_def worker_statuses_def demo_campaigns_def)

section \<open>One pass, and retries\<close>


lemma demo_mail:
  "mail_for demo_campaign (contact_map demo_contacts) (demo_recipient i ''a'' st)
     = Some \<lparr>ml_to = ''a@x'', ml_subject = ''Hi'', ml_html = ''Hello''\<rparr>"
proof -
  have "contact_map demo_contacts ''a'' = Some (recipient_of (demo_account ''a'' ''ACTIVE''))"
    by (simp add: contact_map_def js_map_def demo_contacts_def recipient_of_def demo_account_def)
  moreover have "render ''Hi'' v = ''Hi''" "render ''Hello'' v = ''Hello''" for v
    using render_literal [of "''Hi''" "[]" v] render_literal [of "''Hello''" "[]" v] by simp_all
  ultimately show ?thesis
    by (simp add: mail_for_def Let_def demo_recipient_def recipient_of_def demo_account_def demo_campaign_def title_of_def)
qed


definition reopened :: "recipient_row \<Rightarrow> recipient_row" where
  "reopened r = r\<lparr>rc_status := R_PENDING, rc_failureReason := None\<rparr>"

lemma message_result_cong:
  assumes "cm_channel c' = cm_channel c" "cm_subject c' = cm_subject c" "cm_name c' = cm_name c" "cm_body c' = cm_body c"
  shows "mail_for c' contacts = mail_for c contacts" "sms_for c' contacts = sms_for c contacts"
    "message_result env now c' contacts = message_result env now c contacts"
proof -
  have title: "title_of c' = title_of c" by (simp only: title_of_def assms)
  show 1: "mail_for c' contacts = mail_for c contacts"
    by (rule ext) (simp only: mail_for_def title assms)
  show 2: "sms_for c' contacts = sms_for c contacts"
    by (rule ext) (simp only: sms_for_def assms)
  show "message_result env now c' contacts = message_result env now c contacts"
    by (intro ext) (simp add: message_result_def message_error_def 1 2 assms)
qed

lemma mail_for_reopened: "mail_for c contacts (reopened r) = mail_for c contacts r"
  by (simp add: mail_for_def reopened_def)

lemma pending_after_reopen:
  assumes "filter (in_status cid R_PENDING) rows = []"
  shows "filter (in_status cid R_PENDING) (update_where (in_status cid R_FAILED) reopened rows)
    = map reopened (filter (in_status cid R_FAILED) rows)"
  using assms by (induction rows) (auto simp: in_status_def reopened_def split: if_splits)

lemma pass_after_reopen:
  assumes "filter (in_status (cm_id c) R_PENDING) rows = []"
  shows "map (pass_row env now c contacts) (update_where (in_status (cm_id c) R_FAILED) reopened rows)
    = map (\<lambda>r. if in_status (cm_id c) R_FAILED r
        then message_result env now c contacts (reopened r) (reopened r) else r) rows"
  using assms by (induction rows) (auto simp: in_status_def reopened_def pass_row_def split: if_splits)

lemma retry_campaign_form:
  assumes "find_campaign cid s = Some c" "cm_status c \<in> {SENT, FAILED}"
    "0 < count_where (in_status cid R_FAILED) (cs_recipients s)"
  shows "\<exists>s1. retry_campaign actor now cid s = (Inr (count_where (in_status cid R_FAILED) (cs_recipients s)), s1)
    \<and> find_campaign cid s1 = Some (c\<lparr>cm_status := SCHEDULED, cm_completedAt := None\<rparr>)
    \<and> cs_recipients s1 = update_where (in_status cid R_FAILED) reopened (cs_recipients s)
    \<and> cs_mails s1 = cs_mails s \<and> cs_segments s1 = cs_segments s \<and> cs_accounts s1 = cs_accounts s"
proof -
  let ?f = "\<lambda>x. x\<lparr>cm_status := SCHEDULED, cm_completedAt := None\<rparr>"
  let ?s1 = "update_recipients (in_status cid R_FAILED) reopened s"
  have "find_campaign cid ?s1 = Some c" using assms(1) by (simp add: find_campaign_def)
  then have f: "find_campaign cid (update_campaign cid ?f ?s1) = Some (?f c)"
    by (rule find_campaign_update) simp
  have r: "(\<lambda>r. r\<lparr>rc_status := R_PENDING, rc_failureReason := None\<rparr>) = reopened"
    by (rule ext) (simp add: reopened_def)
  have "cs_segments ?s1 = cs_segments s" "cs_accounts ?s1 = cs_accounts s" by (simp_all add: update_recipients_def)
  then show ?thesis
    using assms f unfolding retry_campaign_def r
    by (auto simp: Let_def campaign_log_def find_campaign_def)
qed

text \<open>
  A retry reaches the failed recipients and nobody else.  For a finished email campaign with
  failures, retrying and running the job hands over one message for each recipient that had
  failed and has an address, in order; those rows are settled anew by that message, and every
  other recipient row is exactly as it was.
\<close>

theorem retry_reaches_failed_only:
  assumes c: "find_campaign cid s = Some c" "cm_channel c = EMAIL" "cm_status c \<in> {SENT, FAILED}"
      "cm_requiresApproval c \<Longrightarrow> cm_approvedAt c \<noteq> None"
    and rows: "distinct (map rc_id (cs_recipients s))" "filter (in_status cid R_PENDING) (cs_recipients s) = []"
      "0 < count_where (in_status cid R_FAILED) (cs_recipients s)"
    and rs: "resolveRecipients later c s = Inr rs"
  shows "\<exists>n s1 sent failed s2. retry_campaign actor now cid s = (Inr n, s1)
    \<and> run_job env later ''send-campaign'' cid True s1 = (Inr (Finished sent failed), s2)
    \<and> cs_mails s2 = cs_mails s @ List.map_filter (mail_for c (contact_map rs)) (filter (in_status cid R_FAILED) (cs_recipients s))
    \<and> cs_recipients s2 = map (\<lambda>r. if in_status cid R_FAILED r
          then message_result env later c (contact_map rs) (reopened r) (reopened r) else r) (cs_recipients s)"
proof -
  let ?c = "c\<lparr>cm_status := SCHEDULED, cm_completedAt := None\<rparr>"
  have cid: "cm_id c = cid" using c(1) by (auto simp: find_campaign_def dest: find_row_SomeD)
  obtain s1 where retry: "retry_campaign actor now cid s = (Inr (count_where (in_status cid R_FAILED) (cs_recipients s)), s1)"
    and f1: "find_campaign cid s1 = Some ?c"
    and rows1: "cs_recipients s1 = update_where (in_status cid R_FAILED) reopened (cs_recipients s)"
    and same: "cs_mails s1 = cs_mails s" "cs_segments s1 = cs_segments s" "cs_accounts s1 = cs_accounts s"
    using retry_campaign_form [OF c(1,3) rows(3)] by blast
  have r1: "resolveRecipients later ?c s1 = Inr rs"
    using rs same by (subst resolveRecipients_cong [of _ s _ c]) simp_all
  let ?t = "sending_state later ?c True rs s1"
  have t: "cs_recipients ?t = cs_recipients s1" "cs_mails ?t = cs_mails s1"
    by (simp_all add: sending_state_def Let_def)
  have ids: "distinct (map rc_id (cs_recipients ?t))"
    using rows(1) t rows1 map_update_where [of rc_id reopened] by (simp add: reopened_def)
  let ?u = "send_loop env later ?c (contact_map rs) ?t"
  have pass: "cs_recipients ?u = map (pass_row env later ?c (contact_map rs)) (cs_recipients s1)"
    "cs_mails ?u = cs_mails s @ List.map_filter (mail_for ?c (contact_map rs)) (filter (in_status cid R_PENDING) (cs_recipients s1))"
    using send_loop_pass [OF ids, of ?c env later "contact_map rs"] c(2) cid t same by simp_all
  have cong: "mail_for ?c (contact_map rs) = mail_for c (contact_map rs)"
    "message_result env later ?c (contact_map rs) = message_result env later c (contact_map rs)"
    by (rule message_result_cong; simp)+
  have pend: "filter (in_status cid R_PENDING) (cs_recipients s1) = map reopened (filter (in_status cid R_FAILED) (cs_recipients s))"
    unfolding rows1 by (rule pending_after_reopen [OF rows(2)])
  have mails: "cs_mails ?u = cs_mails s @ List.map_filter (mail_for c (contact_map rs)) (filter (in_status cid R_FAILED) (cs_recipients s))"
    unfolding pass(2) pend cong by (simp add: map_filter_def filter_map comp_def mail_for_reopened)
  have recs: "cs_recipients ?u = map (\<lambda>r. if in_status cid R_FAILED r
      then message_result env later c (contact_map rs) (reopened r) (reopened r) else r) (cs_recipients s)"
    unfolding pass(1) rows1 using pass_after_reopen [of ?c "cs_recipients s" env later "contact_map rs"] rows(2) cid
    by (simp add: cong)
  obtain r s2 where fin: "finish_campaign later cid ?u = (r, s2)" by fastforce
  have "run_job env later ''send-campaign'' cid True s1 = (r, s2)"
    using run_job_sends [OF f1 _ _ r1, of env True] c(4) fin by simp
  with retry finish_campaign_facts [OF fin] mails recs show ?thesis by auto
qed

definition demo_sender :: principal where
  "demo_sender = \<lparr>sp_id = ''s1'', sp_email = ''s1@x'', sp_name = ''Sender'', sp_roleId = ''r1'', sp_roleKey = ''super_admin'',
     sp_permissions = [''notifications.send''], sp_sessionId = ''q'', sp_sessionEpoch = 0, sp_ip = None, sp_userAgent = None,
     sp_impersonating = None\<rparr>"

theorem retry_reaches_failed_only_witness:
  "\<exists>n s1 sent failed s2. retry_campaign demo_sender 4 ''c1''
        (demo_campaigns [demo_campaign\<lparr>cm_status := SENT\<rparr>] [demo_recipient 0 ''b'' R_SENT, demo_recipient 1 ''a'' R_FAILED]) = (Inr n, s1)
    \<and> run_job demo_env 5 ''send-campaign'' ''c1'' True s1 = (Inr (Finished sent failed), s2)
    \<and> cs_mails s2 = [\<lparr>ml_to = ''a@x'', ml_subject = ''Hi'', ml_html = ''Hello''\<rparr>]"
proof -
  let ?c = "demo_campaign\<lparr>cm_status := SENT\<rparr>"
  let ?rows = "[demo_recipient 0 ''b'' R_SENT, demo_recipient 1 ''a'' R_FAILED]"
  let ?s = "demo_campaigns [?c] ?rows"
  have f: "find_campaign ''c1'' ?s = Some ?c"
    by (simp add: find_campaign_def demo_campaigns_def demo_campaign_def)
  have r: "resolveRecipients 5 ?c ?s = Inr demo_contacts"
    using demo_resolves [of "[?c]" ?rows] by (subst resolveRecipients_cong [of _ ?s _ demo_campaign]) simp_all
  have rows: "distinct (map rc_id (cs_recipients ?s))" "filter (in_status ''c1'' R_PENDING) (cs_recipients ?s) = []"
    "filter (in_status ''c1'' R_FAILED) (cs_recipients ?s) = [demo_recipient 1 ''a'' R_FAILED]"
    by (simp_all add: demo_campaigns_def demo_recipient_def in_status_def)
  have m: "mail_for ?c (contact_map demo_contacts) = mail_for demo_campaign (contact_map demo_contacts)"
    by (rule message_result_cong) simp_all
  have "cm_channel ?c = EMAIL" "cm_status ?c \<in> {SENT, FAILED}" "cm_requiresApproval ?c \<Longrightarrow> cm_approvedAt ?c \<noteq> None"
    "0 < count_where (in_status ''c1'' R_FAILED) (cs_recipients ?s)"
    using rows(3) by (simp_all add: demo_campaign_def count_where_def)
  from retry_reaches_failed_only [OF f this(1-3) rows(1,2) this(4) r, of demo_sender 4 demo_env]
  show ?thesis
    unfolding rows(3) m by (simp add: map_filter_simps demo_mail) (auto simp: demo_campaigns_def)
qed

end
