(* ===== verification/Campaign_Approval.thy ===== *)
theory Campaign_Approval
  imports Campaign_Runs
begin

text \<open>
  The approval rule over any history of the campaigns service: drafts, test sends, approvals,
  schedules, retries, cancellations and worker runs, by anyone, with the audience, the staff and
  the segments changing in between.
\<close>

section \<open>Histories\<close>

inductive campaign_step :: "nat \<Rightarrow> campaign_state \<Rightarrow> campaign_state \<Rightarrow> bool" for threshold where
  campaign_created: "campaign_step threshold s (snd (create_campaign_row threshold actor now cid dto s))"
| campaign_tested: "campaign_step threshold s (snd (testSend mailer actor cid s))"
| campaign_approved: "campaign_step threshold s (snd (approve_campaign actor now cid reason s))"
| campaign_scheduled: "campaign_step threshold s (snd (schedule_campaign iso_text actor now cid scheduledAt s))"
| campaign_retried: "campaign_step threshold s (snd (retry_campaign actor now cid s))"
| campaign_cancelled: "campaign_step threshold s (snd (cancel_campaign actor cid reason s))"
| campaign_run: "campaign_step threshold s (snd (run_job env now jobName cid retry s))"
| surroundings: "campaign_step threshold s (s\<lparr>cs_segments := segments, cs_accounts := accounts, cs_inbox := inbox\<rparr>)"

section \<open>The invariant\<close>

definition approval_logged :: "audit_row list \<Rightarrow> campaign_row \<Rightarrow> bool" where
  "approval_logged trail c \<longleftrightarrow> (\<exists>q. cm_approvedById c = Some q
     \<and> (\<exists>e \<in> set trail. au_action e = ''campaigns.approved'' \<and> au_targetId e = Some (cm_id c) \<and> au_actorId e = Some q))"

definition row_ok :: "audit_row list \<Rightarrow> campaign_row \<Rightarrow> bool" where
  "row_ok trail c \<longleftrightarrow> (cm_approvedAt c \<noteq> None \<longrightarrow> approval_logged trail c)
     \<and> (cm_startedAt c \<noteq> None \<longrightarrow> cm_requiresApproval c \<longrightarrow> cm_approvedAt c \<noteq> None)"

definition started :: "campaign_state \<Rightarrow> string \<Rightarrow> bool" where
  "started s cid \<longleftrightarrow> (\<exists>c \<in> set (cs_campaigns s). cm_id c = cid \<and> cm_startedAt c \<noteq> None)"

definition approvals_ok :: "campaign_state \<Rightarrow> bool" where
  "approvals_ok s \<longleftrightarrow> distinct (map cm_id (cs_campaigns s))
     \<and> (\<forall>c \<in> set (cs_campaigns s). row_ok (cs_audit s) c) \<and> (\<forall>cid \<in> reached s. started s cid)"

text \<open>An update of a row that keeps its id and its start.\<close>

definition keeps_start :: "(campaign_row \<Rightarrow> campaign_row) \<Rightarrow> bool" where
  "keeps_start f \<longleftrightarrow> (\<forall>c. cm_id (f c) = cm_id c \<and> (cm_startedAt c \<noteq> None \<longrightarrow> cm_startedAt (f c) \<noteq> None))"

lemma row_ok_mono: "set trail \<subseteq> set trail' \<Longrightarrow> row_ok trail c \<Longrightarrow> row_ok trail' c"
  unfolding row_ok_def approval_logged_def by blast

lemma started_update:
  assumes f: "keeps_start f" and i: "started s i"
  shows "started (update_campaign cid f s) i"
proof -
  obtain c where c: "c \<in> set (cs_campaigns s)" "cm_id c = i" "cm_startedAt c \<noteq> None"
    using i unfolding started_def by blast
  let ?c = "if cm_id c = cid then f c else c"
  have "?c \<in> set (update_where (\<lambda>c. cm_id c = cid) f (cs_campaigns s))" using c(1) by (rule update_where_mem)
  moreover have "cm_id ?c = i" "cm_startedAt ?c \<noteq> None" using c f by (auto simp: keeps_start_def)
  ultimately show ?thesis unfolding started_def by (intro bexI [of _ ?c]) simp_all
qed

text \<open>The shape of every operation: one row rewritten, log entries added, nobody new reached.\<close>

lemma approvals_update:
  assumes ok: "approvals_ok s" and f: "keeps_start f"
    and s': "cs_campaigns s' = update_where (\<lambda>c. cm_id c = cid) f (cs_campaigns s)"
      "set (cs_audit s) \<subseteq> set (cs_audit s')" "reached s' \<subseteq> reached s"
    and row: "\<And>c. c \<in> set (cs_campaigns s) \<Longrightarrow> cm_id c = cid \<Longrightarrow> row_ok (cs_audit s) c \<Longrightarrow> row_ok (cs_audit s') (f c)"
  shows "approvals_ok s'"
proof -
  have "map cm_id (cs_campaigns s') = map cm_id (cs_campaigns s)"
    using f by (simp add: s'(1) keeps_start_def map_update_where)
  moreover have "row_ok (cs_audit s') c" if c: "c \<in> set (cs_campaigns s')" for c
  proof -
    from in_update_where [OF c [unfolded s'(1)]]
    obtain x where x: "x \<in> set (cs_campaigns s)" "c = (if cm_id x = cid then f x else x)" by (elim bexE) (rule that)
    have "row_ok (cs_audit s) x" using ok x(1) by (simp add: approvals_ok_def)
    then show ?thesis using x row row_ok_mono [OF s'(2)] by (cases "cm_id x = cid") auto
  qed
  moreover have "started s' i" if "i \<in> reached s'" for i
  proof -
    have "started s i" using ok that s'(3) by (auto simp: approvals_ok_def)
    then show ?thesis using started_update [OF f, of s i cid] by (simp add: started_def s'(1))
  qed
  ultimately show ?thesis using ok by (simp add: approvals_ok_def)
qed

lemma approvals_same:
  assumes "approvals_ok s" "cs_campaigns s' = cs_campaigns s" "set (cs_audit s) \<subseteq> set (cs_audit s')" "reached s' \<subseteq> reached s"
  shows "approvals_ok s'"
proof (rule approvals_update [OF assms(1), of "\<lambda>x. x" _ "[]"])
  show "row_ok (cs_audit s') c" if "row_ok (cs_audit s) c" for c
    using row_ok_mono [OF assms(3) that] .
qed (use assms in \<open>auto simp: keeps_start_def\<close>)

lemma campaign_log_frame [simp]:
  "cs_campaigns (campaign_log e s) = cs_campaigns s" "cs_recipients (campaign_log e s) = cs_recipients s"
  "cs_bell (campaign_log e s) = cs_bell s" "cs_inbox (campaign_log e s) = cs_inbox s"
  "set (cs_audit s) \<subseteq> set (cs_audit (campaign_log e s))" "reached (campaign_log e s) = reached s"
  by (auto simp: campaign_log_def audit_record_def reached_def)

lemma update_campaign_reached [simp]: "reached (update_campaign cid f s) = reached s"
  by (simp add: reached_def)

lemma find_campaign_Some: "find_campaign cid s = Some c \<Longrightarrow> c \<in> set (cs_campaigns s) \<and> cm_id c = cid"
  by (auto simp: find_campaign_def dest: find_row_SomeD)

lemma approvals_unique:
  assumes "approvals_ok s" "find_campaign cid s = Some c" "x \<in> set (cs_campaigns s)" "cm_id x = cid"
  shows "x = c"
  using assms find_campaign_Some [OF assms(2)] unfolding approvals_ok_def by (metis distinct_map inj_onD)

section \<open>Every operation keeps it\<close>

lemma approve_campaign_ok:
  assumes "approvals_ok s"
  shows "approvals_ok (snd (approve_campaign actor now cid reason s))"
proof (cases "fst (approve_campaign actor now cid reason s)")
  case (Inl e)
  then have "snd (approve_campaign actor now cid reason s) = s"
    by (auto simp: approve_campaign_def Let_def split: option.splits if_splits)
  with assms show ?thesis by simp
next
  case (Inr r)
  then obtain c where c: "find_campaign cid s = Some c"
    by (auto simp: approve_campaign_def split: option.splits if_splits)
  let ?f = "\<lambda>x. x\<lparr>cm_approvedById := Some (sp_id actor), cm_approvedAt := Some now\<rparr>"
  let ?e = "staff_entry actor ''campaigns.approved'' ''campaign'' cid (Some reason) JNull
     (JObj [(''recipientCount'', JInt (int (cm_recipientCount c)))])
     (JObj [(''selfApproved'', JBool (cm_createdById c = sp_id actor))])"
  let ?s2 = "campaign_log ?e (update_campaign cid ?f s)"
  have s': "\<exists>ib. snd (approve_campaign actor now cid reason s) = ?s2\<lparr>cs_inbox := ib\<rparr>"
    using Inr c by (auto simp: approve_campaign_def Let_def split: if_splits)
  have "approval_logged (cs_audit ?s2) (?f x)" if "cm_id x = cid" for x
    using that by (simp add: approval_logged_def campaign_log_def audit_record_def staff_entry_def actor_of_def)
  then have "row_ok (cs_audit ?s2) (?f x)" if "cm_id x = cid" for x
    using that by (simp add: row_ok_def)
  then have "approvals_ok ?s2"
  proof (rule approvals_update [OF assms, of ?f _ cid, rotated 4])
    show "set (cs_audit s) \<subseteq> set (cs_audit ?s2)" by (auto simp: campaign_log_def audit_record_def)
  qed (auto simp: keeps_start_def)
  then have "approvals_ok (?s2\<lparr>cs_inbox := ib\<rparr>)" for ib
    by (rule approvals_same) (auto simp: reached_def)
  with s' show ?thesis by metis
qed

lemma create_campaign_ok:
  assumes "approvals_ok s"
  shows "approvals_ok (snd (create_campaign_row threshold actor now cid dto s))"
proof (cases "fst (create_campaign_row threshold actor now cid dto s)")
  case (Inl e)
  then have "snd (create_campaign_row threshold actor now cid dto s) = s"
    by (auto simp: create_campaign_row_def Let_def split: sum.splits if_splits)
  with assms show ?thesis by simp
next
  case (Inr c)
  then obtain n e where c: "c = new_campaign threshold actor now cid dto n" "cid \<notin> set (map cm_id (cs_campaigns s))"
    "snd (create_campaign_row threshold actor now cid dto s) = campaign_log e (s\<lparr>cs_campaigns := cs_campaigns s @ [c]\<rparr>)"
    by (auto simp: create_campaign_row_def Let_def split: sum.splits if_splits)
  have new: "cm_id c = cid" "row_ok trail c" for trail by (simp_all add: c(1) new_campaign_def row_ok_def)
  let ?s1 = "s\<lparr>cs_campaigns := cs_campaigns s @ [c]\<rparr>"
  have "approvals_ok ?s1"
    using assms c(2) new unfolding approvals_ok_def by (auto simp: reached_def started_def)
  then show ?thesis
    unfolding c(3) by (rule approvals_same) (auto simp: campaign_log_def audit_record_def reached_def)
qed

text \<open>Updates that leave the approval and the start of a row alone.\<close>

definition keeps_approval :: "(campaign_row \<Rightarrow> campaign_row) \<Rightarrow> bool" where
  "keeps_approval f \<longleftrightarrow> (\<forall>c. cm_id (f c) = cm_id c \<and> cm_startedAt (f c) = cm_startedAt c
     \<and> cm_approvedAt (f c) = cm_approvedAt c \<and> cm_approvedById (f c) = cm_approvedById c
     \<and> cm_requiresApproval (f c) = cm_requiresApproval c)"

lemma approvals_plain:
  assumes "approvals_ok s" "keeps_approval f"
    "cs_campaigns s' = update_where (\<lambda>c. cm_id c = cid) f (cs_campaigns s)"
    "set (cs_audit s) \<subseteq> set (cs_audit s')" "reached s' \<subseteq> reached s"
  shows "approvals_ok s'"
proof (rule approvals_update [OF assms(1) _ assms(3-5)])
  show "keeps_start f" using assms(2) by (simp add: keeps_approval_def keeps_start_def)
  fix c assume "row_ok (cs_audit s) c"
  from row_ok_mono [OF assms(4) this] show "row_ok (cs_audit s') (f c)"
    using assms(2) by (simp add: row_ok_def approval_logged_def keeps_approval_def)
qed

lemma reached_retry: "reached (update_recipients p f s) = reached s" if "\<And>r. rc_campaignId (f r) = rc_campaignId r"
proof -
  have "map rc_campaignId (update_where p f (cs_recipients s)) = map rc_campaignId (cs_recipients s)"
    using that by (rule map_update_where)
  then show ?thesis unfolding reached_def by (metis list.set_map update_recipients_simps(1,5))
qed

lemma test_send_ok:
  assumes "approvals_ok s"
  shows "approvals_ok (snd (testSend mailer actor cid s))"
  by (rule approvals_same [OF assms])
    (auto simp: testSend_def Let_def reached_def campaign_log_def audit_record_def split: option.split)

lemma schedule_campaign_ok:
  assumes "approvals_ok s"
  shows "approvals_ok (snd (schedule_campaign iso_text actor now cid scheduledAt s))"
proof (cases "fst (schedule_campaign iso_text actor now cid scheduledAt s)")
  case (Inl e)
  then have "snd (schedule_campaign iso_text actor now cid scheduledAt s) = s"
    by (auto simp: schedule_campaign_def Let_def split: option.splits if_splits)
  with assms show ?thesis by simp
next
  case (Inr r)
  show ?thesis
    by (rule approvals_plain [OF assms, of "\<lambda>x. x\<lparr>cm_status := SCHEDULED, cm_scheduledAt := Some scheduledAt\<rparr>" _ cid])
      (use Inr in \<open>auto simp: schedule_campaign_def Let_def keeps_approval_def reached_def campaign_log_def audit_record_def
        split: option.splits if_splits\<close>)
qed

lemma retry_campaign_ok:
  assumes "approvals_ok s"
  shows "approvals_ok (snd (retry_campaign actor now cid s))"
proof (cases "fst (retry_campaign actor now cid s)")
  case (Inl e)
  then have "snd (retry_campaign actor now cid s) = s"
    by (auto simp: retry_campaign_def Let_def split: option.splits if_splits)
  with assms show ?thesis by simp
next
  case (Inr r)
  let ?f = "\<lambda>r. r\<lparr>rc_status := R_PENDING, rc_failureReason := None\<rparr>"
  let ?s1 = "update_recipients (in_status cid R_FAILED) ?f s"
  have s1: "reached ?s1 = reached s" by (rule reached_retry) simp
  then have r: "reached (snd (retry_campaign actor now cid s)) = reached s"
    using Inr by (auto simp: retry_campaign_def Let_def campaign_log_def reached_def split: option.splits if_splits)
  show ?thesis
    by (rule approvals_plain [OF assms, of "\<lambda>x. x\<lparr>cm_status := SCHEDULED, cm_completedAt := None\<rparr>" _ cid])
      (use Inr r in \<open>auto simp: retry_campaign_def Let_def keeps_approval_def campaign_log_def audit_record_def update_recipients_def
        split: option.splits if_splits\<close>)
qed

lemma cancel_campaign_ok:
  assumes "approvals_ok s"
  shows "approvals_ok (snd (cancel_campaign actor cid reason s))"
proof (cases "fst (cancel_campaign actor cid reason s)")
  case (Inl e)
  then have "snd (cancel_campaign actor cid reason s) = s"
    by (auto simp: cancel_campaign_def Let_def split: option.splits if_splits)
  with assms show ?thesis by simp
next
  case (Inr r)
  show ?thesis
    by (rule approvals_plain [OF assms, of "\<lambda>x. x\<lparr>cm_status := CANCELLED\<rparr>" _ cid])
      (use Inr in \<open>auto simp: cancel_campaign_def Let_def keeps_approval_def reached_def campaign_log_def audit_record_def
        split: option.splits if_splits\<close>)
qed

text \<open>The worker reaches recipients of a campaign it has started.\<close>

lemma approvals_extend:
  assumes "approvals_ok s" "started s cid" "cs_campaigns s' = cs_campaigns s" "cs_audit s' = cs_audit s"
    "reached s' \<subseteq> insert cid (reached s)"
  shows "approvals_ok s' \<and> started s' cid"
  using assms unfolding approvals_ok_def started_def by auto

lemma create_recipients_reached:
  "reached (fold (create_recipients c) ch s) \<subseteq> insert (cm_id c) (reached s)"
proof -
  let ?in = "\<lambda>t. reached t \<subseteq> insert (cm_id c) (reached s)"
  have "?in (create_recipient c r t)" if "?in t" for r t
    using that by (auto simp: create_recipient_def reached_def new_recipient_def)
  then have "?in (create_recipients c rs t)" if "?in t" for rs t
    unfolding create_recipients_def by (rule fold_invariant [of ?in]) (use that in auto)
  then show ?thesis by (rule fold_invariant [of ?in]) auto
qed

lemma finish_campaign_ok:
  assumes "approvals_ok s"
  shows "approvals_ok (snd (finish_campaign now cid s))"
  by (rule approvals_plain [OF assms, of "\<lambda>x. x\<lparr>cm_status := (if count_where (in_status cid R_SENT) (cs_recipients s) = 0
        \<and> 0 < count_where (in_status cid R_FAILED) (cs_recipients s) then FAILED else SENT),
      cm_completedAt := Some now, cm_sentCount := count_where (in_status cid R_SENT) (cs_recipients s),
      cm_failedCount := count_where (in_status cid R_FAILED) (cs_recipients s)\<rparr>" _ cid])
    (auto simp: finish_campaign_def Let_def keeps_approval_def)

lemma materialise_ok:
  assumes "approvals_ok s" "started s cid"
  shows "approvals_ok (snd (materialiseRecipients now cid s)) \<and> started (snd (materialiseRecipients now cid s)) cid"
proof (cases "\<exists>c rs. find_campaign cid s = Some c \<and> resolveRecipients now c s = Inr rs")
  case False
  then have "snd (materialiseRecipients now cid s) = s"
    by (auto simp: materialiseRecipients_def split: option.split sum.split)
  with assms show ?thesis by simp
next
  case True
  then obtain c rs where c: "find_campaign cid s = Some c" "resolveRecipients now c s = Inr rs" by blast
  let ?s1 = "fold (create_recipients c) (chunked 1000 rs) s"
  let ?f = "\<lambda>x. x\<lparr>cm_recipientCount := length rs\<rparr>"
  have s': "snd (materialiseRecipients now cid s) = update_campaign cid ?f ?s1"
    using c by (simp add: materialiseRecipients_def)
  have s1: "approvals_ok ?s1 \<and> started ?s1 cid"
    by (rule approvals_extend [OF assms])
      (use create_recipients_frame create_recipients_reached [of c "chunked 1000 rs" s] find_campaign_Some [OF c(1)] in auto)
  have "approvals_ok (update_campaign cid ?f ?s1)"
    by (rule approvals_plain [of ?s1 ?f _ cid]) (use s1 in \<open>auto simp: keeps_approval_def\<close>)
  moreover have "started (update_campaign cid ?f ?s1) cid"
    by (rule started_update) (use s1 in \<open>auto simp: keeps_start_def\<close>)
  ultimately show ?thesis by (simp add: s')
qed

lemma send_campaign_ok:
  assumes ok: "approvals_ok s" and c: "find_campaign cid s = Some c"
    and approved: "cm_requiresApproval c \<longrightarrow> cm_approvedAt c \<noteq> None"
  shows "approvals_ok (snd (send_campaign env now c retry s))"
proof -
  let ?f = "\<lambda>x. x\<lparr>cm_status := SENDING, cm_startedAt := Some now\<rparr>"
  let ?s1 = "update_campaign cid ?f s"
  have cid: "cm_id c = cid" "c \<in> set (cs_campaigns s)" using find_campaign_Some [OF c] by auto
  have s1: "approvals_ok ?s1"
  proof (rule approvals_update [OF ok, of ?f _ cid])
    fix x assume x: "x \<in> set (cs_campaigns s)" "cm_id x = cid" "row_ok (cs_audit s) x"
    then have "x = c" using approvals_unique [OF ok c] by blast
    with x(3) approved show "row_ok (cs_audit ?s1) (?f x)" by (simp add: row_ok_def approval_logged_def)
  qed (auto simp: keeps_start_def)
  have "?f c \<in> set (cs_campaigns ?s1)"
    using update_where_mem [OF cid(2), of "\<lambda>c. cm_id c = cid" ?f] cid(1) by simp
  then have st1: "started ?s1 cid" using cid(1) unfolding started_def by (intro bexI [of _ "?f c"]) auto
  obtain r2 s2 where m: "(if retry then returns 0 ?s1 else materialiseRecipients now cid ?s1) = (r2, s2)" by fastforce
  then have s2: "approvals_ok s2 \<and> started s2 cid"
    using s1 st1 materialise_ok [OF s1 st1, of now] by (cases retry) auto
  have "approvals_ok (send_loop env now c contacts s2)" for contacts
    using approvals_extend [of s2 cid "send_loop env now c contacts s2"] s2 send_loop_frame [of env now c contacts s2] cid(1) by auto
  then have "approvals_ok (snd (finish_campaign now cid (send_loop env now c contacts s2)))" for contacts
    by (rule finish_campaign_ok)
  with s2 m show ?thesis
    by (auto simp: send_campaign_def Let_def cid(1) split: sum.split)
qed

lemma run_job_ok:
  assumes "approvals_ok s"
  shows "approvals_ok (snd (run_job env now jobName cid retry s))"
proof -
  have "approvals_ok (update_campaign cid (\<lambda>x. x\<lparr>cm_status := PENDING_APPROVAL\<rparr>) s)"
    by (rule approvals_plain [OF assms, of "\<lambda>x. x\<lparr>cm_status := PENDING_APPROVAL\<rparr>" _ cid]) (auto simp: keeps_approval_def)
  with assms send_campaign_ok [OF assms] show ?thesis
    by (auto simp: run_job_def split: option.split)
qed

lemma campaign_step_ok: "campaign_step threshold s s' \<Longrightarrow> approvals_ok s \<Longrightarrow> approvals_ok s'"
proof (induction rule: campaign_step.induct)
  case (surroundings s segments accounts inbox)
  then show ?case by (rule approvals_same) (auto simp: reached_def)
qed (auto intro: create_campaign_ok test_send_ok approve_campaign_ok schedule_campaign_ok retry_campaign_ok
  cancel_campaign_ok run_job_ok)

section \<open>Properties\<close>

definition campaigns_start :: "campaign_state \<Rightarrow> bool" where
  "campaigns_start s \<longleftrightarrow> cs_campaigns s = [] \<and> cs_recipients s = [] \<and> cs_bell s = []"

lemma campaigns_reachable_ok:
  assumes "(campaign_step threshold)\<^sup>*\<^sup>* s0 s" "campaigns_start s0"
  shows "approvals_ok s"
  using assms(1)
proof (induction rule: rtranclp_induct)
  case base
  with assms(2) show ?case by (simp add: approvals_ok_def campaigns_start_def reached_def)
next
  case (step s s')
  then show ?case by (blast intro: campaign_step_ok)
qed

lemma approve_campaign_guards:
  assumes "approve_campaign actor now cid reason s = (Inr r, s')"
  shows "sp_roleKey actor = ''super_admin''"
    and "\<exists>c. find_campaign cid s = Some c \<and> (cm_createdById c = sp_id actor \<longrightarrow> other_super_admins (sp_id actor) (cs_inbox s) = 0)"
  using assms by (auto simp: approve_campaign_def Let_def split: option.splits if_splits)


text \<open>A draft for a segment of one account, which has grown when the job runs.\<close>

definition demo_dto :: create_campaign where
  "demo_dto = \<lparr>cc_name = ''News'', cc_channel = EMAIL, cc_templateId = None, cc_subject = Some ''Hi'', cc_body = ''Hello'',
     cc_audienceKind = SEGMENT, cc_segmentId = Some ''g'', cc_accountIds = None\<rparr>"

definition demo_segment :: segment_row where
  "demo_segment = \<lparr>sg_id = ''g'', sg_name = ''All customers'', sg_description = None, sg_filter = everyone, sg_createdBy = None\<rparr>"

definition demo_before :: campaign_state where
  "demo_before = (demo_campaigns [] [])\<lparr>cs_segments := [demo_segment], cs_accounts := [demo_account ''a'' ''ACTIVE'']\<rparr>"

definition demo_drafted :: campaign_state where
  "demo_drafted = snd (create_campaign_row 1 demo_sender 1 ''c1'' demo_dto demo_before)"

definition demo_grown :: campaign_state where
  "demo_grown = demo_drafted\<lparr>cs_segments := [demo_segment],
     cs_accounts := [demo_account ''a'' ''ACTIVE'', demo_account ''b'' ''ACTIVE'', demo_account ''c'' ''ACTIVE''], cs_inbox := demo_inbox\<rparr>"

definition demo_ran :: campaign_state where
  "demo_ran = snd (run_job (demo_env\<lparr>se_mailer := \<lambda>_. None\<rparr>) 5 ''send-campaign'' ''c1'' False demo_grown)"

lemma demo_ran_reached: "(campaign_step 1)\<^sup>*\<^sup>* demo_before demo_ran"
proof -
  have "campaign_step 1 demo_before demo_drafted" unfolding demo_drafted_def by (rule campaign_created)
  moreover have "campaign_step 1 demo_drafted demo_grown" unfolding demo_grown_def by (rule surroundings)
  moreover have "campaign_step 1 demo_grown demo_ran" unfolding demo_ran_def by (rule campaign_run)
  ultimately show ?thesis by (meson rtranclp.rtrancl_into_rtrancl rtranclp.rtrancl_refl)
qed

lemma demo_ran_facts:
  "map rc_status (cs_recipients demo_ran) = [R_SENT, R_SENT, R_SENT]"
  "map rc_campaignId (cs_recipients demo_ran) = [''c1'', ''c1'', ''c1'']"
  "map cm_id (cs_campaigns demo_ran) = [''c1'']"
  "map cm_approvedAt (cs_campaigns demo_ran) = [None]" "map cm_recipientCount (cs_campaigns demo_ran) = [3]"
  "map ml_to (cs_mails demo_ran) = [''a@x'', ''b@x'', ''c@x'']"
  by (code_simp)+


text \<open>
  The threshold is checked against the audience of the day of the draft.  A reachable history
  exists in which a campaign drafted for one account, with a threshold of one, is delivered to
  three customers without any approval, because its segment had grown by the time it was sent.
\<close>

theorem grown_segment_skips_approval:
  "\<exists>s. (campaign_step 1)\<^sup>*\<^sup>* demo_before s \<and> map cm_id (cs_campaigns s) = [''c1'']
     \<and> 1 < count_where (in_status ''c1'' R_SENT) (cs_recipients s)
     \<and> map cm_approvedAt (cs_campaigns s) = [None]
     \<and> map au_action (cs_audit s) = [''campaigns.created'']"
proof (intro exI conjI)
  show "(campaign_step 1)\<^sup>*\<^sup>* demo_before demo_ran" by (rule demo_ran_reached)
  show "map cm_id (cs_campaigns demo_ran) = [''c1'']" "map cm_approvedAt (cs_campaigns demo_ran) = [None]"
    by (rule demo_ran_facts)+
  show "1 < count_where (in_status ''c1'' R_SENT) (cs_recipients demo_ran)" by code_simp
  show "map au_action (cs_audit demo_ran) = [''campaigns.created'']" by code_simp
qed

text \<open>Rescheduling hands the queue a second job under the id of the first, which stays there.\<close>

lemma reschedule_reuses_job_id:
  assumes "schedule_campaign txt actor now cid t s = (Inr r, s1)"
  shows "\<exists>r2 s2. schedule_campaign txt actor2 now2 cid t2 s1 = (Inr r2, s2) \<and> cs_removed s2 = cs_removed s
    \<and> map jb_jobId (cs_jobs s2) = map jb_jobId (cs_jobs s) @ [''campaign-'' @ cid, ''campaign-'' @ cid]"
proof -
  obtain c where c: "find_campaign cid s = Some c" "\<not> (cm_requiresApproval c \<and> cm_approvedAt c = None)"
    using assms by (auto simp: schedule_campaign_def split: option.splits if_splits)
  let ?f = "\<lambda>x. x\<lparr>cm_status := SCHEDULED, cm_scheduledAt := Some t\<rparr>"
  have "find_campaign cid (update_campaign cid ?f s) = Some (?f c)"
    using c(1) by (rule find_campaign_update) simp
  then have "find_campaign cid s1 = Some (?f c)" "cs_removed s1 = cs_removed s"
    "map jb_jobId (cs_jobs s1) = map jb_jobId (cs_jobs s) @ [''campaign-'' @ cid]"
    using assms c by (auto simp: schedule_campaign_def Let_def find_campaign_def campaign_log_def update_campaign_def
      split: if_splits)
  with c(2) show ?thesis
    by (auto simp: schedule_campaign_def Let_def campaign_log_def update_campaign_def)
qed

end
