(* ===== verification/Codec.thy ===== *)
theory Codec
  imports Render Js_Number Pagination
begin

text \<open>
  The tokens clients hold: \<open>encodeCursor\<close> and \<open>decodeCursor\<close> of \<open>common/http/pagination.ts\<close>
  and the offset tokens of \<open>templates.service.ts\<close>.  Node's base64url coding of a byte string and
  JSON.parse are modelled as far as these use them; strings are the bytes of their UTF-8 form.
\<close>

section \<open>base64url\<close>

definition b64_alphabet :: string where
  "b64_alphabet = ''ABCDEFGHIJKLMNOPQRSTUVWXYZabcdefghijklmnopqrstuvwxyz0123456789-_''"

definition b64_char :: "nat \<Rightarrow> char" where
  "b64_char n = b64_alphabet ! n"

text \<open>The decoder takes both alphabets, skips every other character and stops at a padding sign.\<close>

definition b64_value :: "char \<Rightarrow> nat option" where
  "b64_value c =
     (if is_upper c then Some (of_char c - 65)
      else if is_lower c then Some (of_char c - 71)
      else if is_digit c then Some (of_char c + 4)
      else if c = CHR ''-'' \<or> c = CHR ''+'' then Some 62
      else if c = CHR ''_'' \<or> c = CHR ''/'' then Some 63 else None)"

fun b64_sextets :: "nat list \<Rightarrow> nat list" where
  "b64_sextets [] = []"
| "b64_sextets [a] = [a div 4, a mod 4 * 16]"
| "b64_sextets [a, b] = [a div 4, a mod 4 * 16 + b div 16, b mod 16 * 4]"
| "b64_sextets (a # b # c # r) =
     [a div 4, a mod 4 * 16 + b div 16, b mod 16 * 4 + c div 64, c mod 64] @ b64_sextets r"

fun b64_octets :: "nat list \<Rightarrow> nat list" where
  "b64_octets (w # x # y # z # r) =
     [w * 4 + x div 16, x mod 16 * 16 + y div 4, y mod 4 * 64 + z] @ b64_octets r"
| "b64_octets [w, x, y] = [w * 4 + x div 16, x mod 16 * 16 + y div 4]"
| "b64_octets [w, x] = [w * 4 + x div 16]"
| "b64_octets [w] = []"
| "b64_octets [] = []"

definition base64url_encode :: "string \<Rightarrow> string" where
  "base64url_encode s = map b64_char (b64_sextets (map of_char s))"

definition base64url_decode :: "string \<Rightarrow> string" where
  "base64url_decode s =
     map char_of (b64_octets (List.map_filter b64_value (takeWhile (\<lambda>c. c \<noteq> CHR ''='') s)))"

lemma b64_char_value:
  assumes "n < 64"
  shows "b64_value (b64_char n) = Some n" "b64_char n \<noteq> CHR ''=''"
proof -
  have "\<forall>n \<in> set [0..<64]. b64_value (b64_char n) = Some n \<and> b64_char n \<noteq> CHR ''=''"
    by code_simp
  then show "b64_value (b64_char n) = Some n" "b64_char n \<noteq> CHR ''=''"
    using assms by simp_all
qed

lemma b64_sextets_bound:
  "\<forall>n \<in> set ns. n < 256 \<Longrightarrow> \<forall>m \<in> set (b64_sextets ns). m < 64"
  by (induction ns rule: b64_sextets.induct) auto

lemma b64_octets_sextets: "\<forall>n \<in> set ns. n < 256 \<Longrightarrow> b64_octets (b64_sextets ns) = ns"
  by (induction ns rule: b64_sextets.induct) auto

lemma b64_decode_chars:
  assumes "\<forall>n \<in> set ns. n < 64"
  shows "List.map_filter b64_value (takeWhile (\<lambda>c. c \<noteq> CHR ''='') (map b64_char ns)) = ns"
  using assms by (induction ns) (auto simp: b64_char_value map_filter_simps)

lemma base64url_round_trip [simp]: "base64url_decode (base64url_encode s) = s"
proof -
  have o: "\<forall>n \<in> set (map of_char s). n < (256 :: nat)" by auto
  show ?thesis
    using b64_sextets_bound [OF o] b64_octets_sextets [OF o]
    by (simp add: base64url_encode_def base64url_decode_def b64_decode_chars o_def)
qed

lemma base64url_encode_Nil_iff [simp]: "base64url_encode s = [] \<longleftrightarrow> s = []"
  by (cases "map of_char s :: nat list" rule: b64_sextets.cases)
    (auto simp: base64url_encode_def)

section \<open>JSON.parse\<close>

datatype jval = JvNull | JvBool bool | JvNum js_num | JvStr string | JvArr "jval list"
  | JvObj "(string \<times> jval) list"

definition json_ws :: "char \<Rightarrow> bool" where
  "json_ws c \<longleftrightarrow> (of_char c :: nat) \<in> {9, 10, 13, 32}"

definition hex4 :: "string \<Rightarrow> nat option" where
  "hex4 s = (if length s = 4 \<and> list_all (\<lambda>c. digit_value c < 16) s then Some (radix_value 16 s) else None)"

text \<open>The bytes of a code unit; the halves of a surrogate pair are kept as three bytes each.\<close>

definition utf8_unit :: "nat \<Rightarrow> string" where
  "utf8_unit n =
     (if n < 128 then [char_of n]
      else if n < 2048 then [char_of (192 + n div 64), char_of (128 + n mod 64)]
      else [char_of (224 + n div 4096), char_of (128 + n div 64 mod 64), char_of (128 + n mod 64)])"

definition json_unescape :: "char \<Rightarrow> string option" where
  "json_unescape c =
     (if c = CHR 0x22 \<or> c = CHR 0x5C \<or> c = CHR ''/'' then Some [c]
      else if c = CHR ''b'' then Some [CHR 0x08] else if c = CHR ''f'' then Some [CHR 0x0C]
      else if c = CHR ''n'' then Some [CHR 0x0A] else if c = CHR ''r'' then Some [CHR 0x0D]
      else if c = CHR ''t'' then Some [CHR 0x09] else None)"

text \<open>The characters of a string literal after its opening quote, and the text behind it.\<close>

function json_chars :: "string \<Rightarrow> (string \<times> string) option" where
  "json_chars s =
     (case s of [] \<Rightarrow> None
      | c # cs \<Rightarrow>
          if c = CHR 0x22 then Some ([], cs)
          else if c = CHR 0x5C
          then (case cs of [] \<Rightarrow> None
            | d # ds \<Rightarrow>
                if d = CHR ''u''
                then (case hex4 (take 4 ds) of None \<Rightarrow> None
                  | Some n \<Rightarrow> map_option (apfst ((@) (utf8_unit n))) (json_chars (drop 4 ds)))
                else (case json_unescape d of None \<Rightarrow> None
                  | Some t \<Rightarrow> map_option (apfst ((@) t)) (json_chars ds)))
          else if (of_char c :: nat) < 32 then None
          else map_option (apfst ((#) c)) (json_chars cs))"
  by pat_completeness auto
termination
  by (relation "measure length") auto

declare json_chars.simps [simp del]

definition json_number :: "string \<Rightarrow> (jval \<times> string) option" where
  "json_number s =
     (let (neg, u) = (if s \<noteq> [] \<and> hd s = CHR ''-'' then (True, tl s) else (False, s));
          ip = takeWhile is_digit u;
          r = dropWhile is_digit u;
          fp = (if r \<noteq> [] \<and> hd r = CHR ''.'' then takeWhile is_digit (tl r) else []);
          dot = (r \<noteq> [] \<and> hd r = CHR ''.'');
          r2 = (if dot then dropWhile is_digit (tl r) else r);
          ex = (r2 \<noteq> [] \<and> (hd r2 = CHR ''e'' \<or> hd r2 = CHR ''E''));
          sg = (if ex \<and> tl r2 \<noteq> [] \<and> (hd (tl r2) = CHR ''+'' \<or> hd (tl r2) = CHR ''-'') then [hd (tl r2)] else []);
          xp = (if ex then takeWhile is_digit (drop (length sg) (tl r2)) else [])
      in if ip = [] \<or> (1 < length ip \<and> hd ip = CHR ''0'') \<or> (dot \<and> fp = []) \<or> (ex \<and> xp = []) then None
         else Some (JvNum (decimal_literal neg
                (ip @ (if dot then ''.'' @ fp else []) @ (if ex then ''e'' @ sg @ xp else []))),
              (if ex then dropWhile is_digit (drop (length sg) (tl r2)) else r2)))"

text \<open>
  Values, the rest of an array and the rest of an object.  A call for an
  element is followed by one that consumes a character, so a text of length n needs no more than
  2 n + 2 nested calls.
\<close>

fun json_value :: "nat \<Rightarrow> string \<Rightarrow> (jval \<times> string) option"
  and json_elems :: "nat \<Rightarrow> string \<Rightarrow> (jval list \<times> string) option"
  and json_members :: "nat \<Rightarrow> string \<Rightarrow> ((string \<times> jval) list \<times> string) option" where
  "json_value 0 s = None"
| "json_value (Suc k) s =
     (let t = dropWhile json_ws s in
      if t = [] then None
      else if hd t = CHR 0x22 then map_option (apfst JvStr) (json_chars (tl t))
      else if hd t = CHR ''{''
      then (let u = dropWhile json_ws (tl t) in
        if u \<noteq> [] \<and> hd u = CHR ''}'' then Some (JvObj [], tl u)
        else map_option (apfst JvObj) (json_members k u))
      else if hd t = CHR ''[''
      then (let u = dropWhile json_ws (tl t) in
        if u \<noteq> [] \<and> hd u = CHR '']'' then Some (JvArr [], tl u)
        else map_option (apfst JvArr) (json_elems k u))
      else if startsWith t ''true'' then Some (JvBool True, drop 4 t)
      else if startsWith t ''false'' then Some (JvBool False, drop 5 t)
      else if startsWith t ''null'' then Some (JvNull, drop 4 t)
      else json_number t)"
| "json_elems 0 s = None"
| "json_elems (Suc k) s =
     (case json_value k s of None \<Rightarrow> None
      | Some (v, r) \<Rightarrow> (let t = dropWhile json_ws r in
          if t \<noteq> [] \<and> hd t = CHR '']'' then Some ([v], tl t)
          else if t \<noteq> [] \<and> hd t = CHR '','' then map_option (apfst ((#) v)) (json_elems k (tl t))
          else None))"
| "json_members 0 s = None"
| "json_members (Suc k) s =
     (let q = dropWhile json_ws s in
      if q = [] \<or> hd q \<noteq> CHR 0x22 then None
      else (case json_chars (tl q) of None \<Rightarrow> None
      | Some (key, r1) \<Rightarrow> (let c = dropWhile json_ws r1 in
          if c = [] \<or> hd c \<noteq> CHR '':'' then None
          else (case json_value k (tl c) of None \<Rightarrow> None
          | Some (v, r2) \<Rightarrow> (let t = dropWhile json_ws r2 in
              if t \<noteq> [] \<and> hd t = CHR ''}'' then Some ([(key, v)], tl t)
              else if t \<noteq> [] \<and> hd t = CHR '','' then map_option (apfst ((#) (key, v))) (json_members k (tl t))
              else None)))))"

definition JSON_parse :: "string \<Rightarrow> jval option" where
  "JSON_parse s = (case json_value (2 * length s + 2) s of None \<Rightarrow> None
     | Some (v, r) \<Rightarrow> if dropWhile json_ws r = [] then Some v else None)"

text \<open>A repeated key keeps its last value.\<close>

fun field_of :: "jval \<Rightarrow> string \<Rightarrow> jval option" where
  "field_of (JvObj fs) k = map_of (rev fs) k"
| "field_of _ k = None"

text \<open>The text of a value that is a string.\<close>

fun string_of :: "jval \<Rightarrow> string" where
  "string_of (JvStr s) = s"
| "string_of _ = []"

section \<open>Cursors\<close>

definition encodeCursor :: "string \<Rightarrow> string \<Rightarrow> string" where
  "encodeCursor createdAt rowId =
     base64url_encode (json_stringify (VObj [(''createdAt'', VStr createdAt), (''id'', VStr rowId)]))"

definition decodeCursor :: "string option \<Rightarrow> (string \<times> string) option" where
  "decodeCursor cursor =
     (case cursor of None \<Rightarrow> None
      | Some c \<Rightarrow> if c = [] then None
          else (case JSON_parse (base64url_decode c) of None \<Rightarrow> None
            | Some parsed \<Rightarrow> (case (field_of parsed ''id'', field_of parsed ''createdAt'') of
                (Some (JvStr i), Some (JvStr a)) \<Rightarrow> Some (a, i)
              | _ \<Rightarrow> None)))"

section \<open>Round trips\<close>

lemma hex_digit:
  assumes "k < 16"
  shows "digit_value (''0123456789abcdef'' ! k) = k"
proof -
  have "\<forall>k \<in> set [0..<16]. digit_value (''0123456789abcdef'' ! k) = k" by code_simp
  then show ?thesis using assms by simp
qed

lemma hex4_control:
  assumes "n < 32"
  shows "hex4 [CHR ''0'', CHR ''0'', if n < 16 then CHR ''0'' else CHR ''1'', ''0123456789abcdef'' ! (n mod 16)] = Some n"
proof -
  have d: "digit_value (CHR ''0'') = 0" "digit_value (CHR ''1'') = 1" by code_simp+
  have "16 + n mod 16 = n" if "\<not> n < 16"
    using that assms by presburger
  then show ?thesis
    by (simp add: hex4_def radix_value_def d hex_digit)
qed

lemma json_chars_escape:
  "json_chars (json_escape c @ r) = map_option (apfst ((#) c)) (json_chars r)"
proof -
  have u: "utf8_unit (of_char c) = [c]" if "(of_char c :: nat) < 32"
    using that by (simp add: utf8_unit_def)
  have app1: "(@) [x] = (#) x" for x :: char
    by (rule ext) simp
  have esc: "json_chars (CHR 0x5C # d # r) = map_option (apfst ((#) c)) (json_chars r)"
    if "json_unescape d = Some [c]" "d \<noteq> CHR ''u''" for d
    using that app1 by (subst json_chars.simps) (simp add: app1)
  show ?thesis
    using hex4_control [of "of_char c"] u esc
    by (auto simp: json_escape_def json_unescape_def json_chars.simps [of "_ # _"] app1)
qed

lemma json_chars_quoted:
  "json_chars (concat (map json_escape s) @ CHR 0x22 # r) = Some (s, r)"
proof (induction s)
  case Nil
  then show ?case by (simp add: json_chars.simps)
next
  case (Cons c s)
  then show ?case by (simp add: json_chars_escape)
qed

lemma ws_free [simp]:
  "\<not> json_ws (CHR 0x22)" "\<not> json_ws (CHR ''{'')" "\<not> json_ws (CHR ''}'')" "\<not> json_ws (CHR '':'')" "\<not> json_ws (CHR '','')"
  by (simp_all add: json_ws_def)

lemma json_value_quoted:
  "json_value (Suc k) (json_quote s @ r) = Some (JvStr s, r)"
  by (simp add: json_quote_def json_chars_quoted)

lemma json_members_field:
  "json_members (Suc (Suc k)) (json_quote a @ CHR '':'' # json_quote b @ r) =
     (let t = dropWhile json_ws r in
      if t \<noteq> [] \<and> hd t = CHR ''}'' then Some ([(a, JvStr b)], tl t)
      else if t \<noteq> [] \<and> hd t = CHR '','' then map_option (apfst ((#) (a, JvStr b))) (json_members (Suc k) (tl t))
      else None)"
proof -
  have q: "json_quote a @ CHR '':'' # json_quote b @ r =
      CHR 0x22 # concat (map json_escape a) @ CHR 0x22 # CHR '':'' # json_quote b @ r"
    by (simp add: json_quote_def)
  have v: "json_value (Suc k) (json_quote b @ r) = Some (JvStr b, r)"
    by (rule json_value_quoted)
  show ?thesis
    unfolding q json_members.simps(2) [of "Suc k"]
    by (simp add: json_chars_quoted v del: json_value.simps json_members.simps)
qed

lemma JSON_parse_pair:
  "JSON_parse (json_stringify (VObj [(a, VStr x), (b, VStr y)])) = Some (JvObj [(a, JvStr x), (b, JvStr y)])"
proof -
  let ?m = "json_quote a @ CHR '':'' # json_quote x @ CHR '','' # json_quote b @ CHR '':'' # json_quote y @ ''}''"
  have s: "json_stringify (VObj [(a, VStr x), (b, VStr y)]) = CHR ''{'' # ?m" by simp
  have m: "?m = CHR 0x22 # tl ?m" by (simp add: json_quote_def)
  have "json_members (Suc (Suc (Suc (Suc k)))) ?m = Some ([(a, JvStr x), (b, JvStr y)], [])" for k
    by (simp add: json_members_field del: json_members.simps)
  moreover have "json_value (Suc k) (CHR ''{'' # ?m) = map_option (apfst JvObj) (json_members k ?m)" for k
    by (subst m, subst (2) m) (simp add: del: json_members.simps)
  moreover obtain k where "2 * length (CHR ''{'' # ?m) + 2 = Suc (Suc (Suc (Suc (Suc k))))"
    by (cases "2 * length ?m") (auto simp: json_quote_def)
  ultimately show ?thesis
    unfolding JSON_parse_def s by (simp del: json_value.simps json_members.simps)
qed

text \<open>
  C38. A cursor the console hands out is read back as the very key it was made from: decodeCursor
  undoes encodeCursor for every createdAt and id, whatever characters they contain, through the
  JSON escapes and the URL-safe base64.
\<close>

theorem cursor_round_trip:
  "decodeCursor (Some (encodeCursor createdAt rowId)) = Some (createdAt, rowId)"
proof -
  have "json_stringify (VObj [(''createdAt'', VStr createdAt), (''id'', VStr rowId)]) \<noteq> []" by simp
  then show ?thesis
    unfolding decodeCursor_def encodeCursor_def by (simp add: JSON_parse_pair del: json_stringify.simps)
qed

end
