(* ===== verification/Review_Client.thy ===== *)
theory Review_Client
  imports Codec
begin

text \<open>
  \<open>integrations/api-core/template-review.client.ts\<close>: the calls guarded by the shared admin key,
  the URL each one asks for, and how an answer becomes a payload or an exception.  What api-core
  answers is an argument.
\<close>

section \<open>URLs\<close>

text \<open>encodeURIComponent: the bytes it keeps, and an escape of two hexadecimal digits for the rest.\<close>

definition uri_kept :: "char \<Rightarrow> bool" where
  "uri_kept c \<longleftrightarrow> is_lower c \<or> is_upper c \<or> is_digit c \<or> c \<in> set ''-_.!~*()'' \<or> c = CHR 0x27"

definition uri_escape :: "char \<Rightarrow> string" where
  "uri_escape c =
     (if uri_kept c then [c]
      else [CHR ''%'', ''0123456789ABCDEF'' ! (of_char c div 16), ''0123456789ABCDEF'' ! (of_char c mod 16)])"

definition encodeURIComponent :: "string \<Rightarrow> string" where
  "encodeURIComponent s = concat (map uri_escape s)"

datatype http_method = GET | POST | PUT | DELETE

record api_request =
  rq_method :: http_method
  rq_path :: string
  rq_hasBody :: bool

definition queue_request :: "string \<Rightarrow> api_request" where
  "queue_request status = \<lparr>rq_method = GET,
     rq_path = ''/admin/templates/queue?status='' @ encodeURIComponent status, rq_hasBody = False\<rparr>"

definition get_request :: "string \<Rightarrow> api_request" where
  "get_request tid = \<lparr>rq_method = GET, rq_path = ''/admin/templates/'' @ encodeURIComponent tid, rq_hasBody = False\<rparr>"

definition decide_request :: "string \<Rightarrow> string \<Rightarrow> api_request" where
  "decide_request tid reviewer = \<lparr>rq_method = POST,
     rq_path = ''/admin/templates/'' @ encodeURIComponent tid @ ''/decision?reviewer='' @ encodeURIComponent reviewer,
     rq_hasBody = True\<rparr>"

definition letters_request :: "string \<Rightarrow> api_request" where
  "letters_request applicationId = \<lparr>rq_method = POST,
     rq_path = ''/admin/sender-ids/'' @ encodeURIComponent applicationId @ ''/letters'', rq_hasBody = True\<rparr>"

definition plan_payment_request :: "string \<Rightarrow> api_request" where
  "plan_payment_request accountId = \<lparr>rq_method = POST,
     rq_path = ''/admin/accounts/'' @ encodeURIComponent accountId @ ''/plan-payment'', rq_hasBody = True\<rparr>"

definition plan_card_request :: "string \<Rightarrow> api_request" where
  "plan_card_request accountId = \<lparr>rq_method = POST,
     rq_path = ''/admin/accounts/'' @ encodeURIComponent accountId @ ''/plan-card'', rq_hasBody = True\<rparr>"

definition adjust_balance_request :: "string \<Rightarrow> api_request" where
  "adjust_balance_request accountId = \<lparr>rq_method = POST,
     rq_path = ''/admin/accounts/'' @ encodeURIComponent accountId @ ''/balance-adjustment'', rq_hasBody = True\<rparr>"

definition list_availability_request :: api_request where
  "list_availability_request = \<lparr>rq_method = GET, rq_path = ''/admin/service-availability'', rq_hasBody = False\<rparr>"

definition set_availability_request :: api_request where
  "set_availability_request = \<lparr>rq_method = PUT, rq_path = ''/admin/service-availability'', rq_hasBody = True\<rparr>"

definition change_availability_request :: api_request where
  "change_availability_request = \<lparr>rq_method = POST, rq_path = ''/admin/service-availability/bulk'', rq_hasBody = True\<rparr>"

definition delete_availability_request :: "string \<Rightarrow> api_request" where
  "delete_availability_request rid = \<lparr>rq_method = DELETE,
     rq_path = ''/admin/service-availability/'' @ encodeURIComponent rid, rq_hasBody = False\<rparr>"

definition list_markets_request :: api_request where
  "list_markets_request = \<lparr>rq_method = GET, rq_path = ''/admin/billing-markets'', rq_hasBody = False\<rparr>"

definition set_market_request :: api_request where
  "set_market_request = \<lparr>rq_method = PUT, rq_path = ''/admin/billing-markets'', rq_hasBody = True\<rparr>"

definition delete_market_request :: "string \<Rightarrow> api_request" where
  "delete_market_request mid = \<lparr>rq_method = DELETE,
     rq_path = ''/admin/billing-markets/'' @ encodeURIComponent mid, rq_hasBody = False\<rparr>"

section \<open>The call\<close>

record review_config =
  rc_adminKey :: string
  rc_adminBaseUrl :: string

definition configured :: "review_config \<Rightarrow> bool" where
  "configured cfg \<longleftrightarrow> rc_adminKey cfg \<noteq> [] \<and> rc_adminBaseUrl cfg \<noteq> []"

text \<open>fetch rejects (the network, the timeout) or answers with a status and a text.\<close>

datatype fetched = Unreached | Answered nat string

text \<open>What is sent: the URL, the method and the x-admin-key header.\<close>

record sent_request =
  sr_url :: string
  sr_method :: http_method
  sr_adminKey :: string
  sr_jsonBody :: bool

definition strip_slash :: "string \<Rightarrow> string" where
  "strip_slash u = (if u \<noteq> [] \<and> last u = CHR ''/'' then butlast u else u)"

definition sent_of :: "review_config \<Rightarrow> api_request \<Rightarrow> sent_request" where
  "sent_of cfg rq = \<lparr>sr_url = strip_slash (rc_adminBaseUrl cfg) @ rq_path rq,
     sr_method = rq_method rq, sr_adminKey = rc_adminKey cfg, sr_jsonBody = rq_hasBody rq\<rparr>"

definition response_ok :: "nat \<Rightarrow> bool" where
  "response_ok status \<longleftrightarrow> 200 \<le> status \<and> status < 300"

definition payload_of :: "string \<Rightarrow> jval option" where
  "payload_of t = (if t = [] then None else JSON_parse t)"

text \<open>
  The message of an error payload: a string, or a list of strings joined; without one (or with
  null) the status.
\<close>

definition detail_of :: "nat \<Rightarrow> jval option \<Rightarrow> string" where
  "detail_of status payload =
     (case payload of None \<Rightarrow> ''api-core answered '' @ dec status
      | Some p \<Rightarrow> (case field_of p ''message'' of
          None \<Rightarrow> ''api-core answered '' @ dec status
        | Some JvNull \<Rightarrow> ''api-core answered '' @ dec status
        | Some (JvArr ms) \<Rightarrow> join_with ''; '' (map string_of ms)
        | Some m \<Rightarrow> string_of m))"

definition call :: "review_config \<Rightarrow> (sent_request \<Rightarrow> fetched) \<Rightarrow> api_request \<Rightarrow> jval option result" where
  "call cfg fetch rq =
     (if \<not> configured cfg
      then Inl (ServiceUnavailable ''Template review is not configured: set API_CORE_ADMIN_KEY on admin-core.'')
      else (case fetch (sent_of cfg rq) of
          Unreached \<Rightarrow> Inl (ServiceUnavailable ''Could not reach api-core'')
        | Answered status t \<Rightarrow>
            (let payload = payload_of t; detail = detail_of status payload in
             if response_ok status then Inr payload
             else if status = 404 then Inl (NotFound detail)
             else if status = 400 then Inl (BadRequest detail)
             else if status = 409 then Inl (Conflict detail)
             else if status = 401 \<or> status = 403
             then Inl (BadGateway ''api-core rejected admin-core's credentials for template review'')
             else Inl (BadGateway ''api-core could not complete the request''))))"

section \<open>A path names one record\<close>

lemma hex_upper_value:
  assumes "k < 16"
  shows "digit_value (''0123456789ABCDEF'' ! k) = k" "''0123456789ABCDEF'' ! k \<in> set ''0123456789ABCDEF''"
proof -
  have "\<forall>k \<in> set [0..<16]. digit_value (''0123456789ABCDEF'' ! k) = k" by code_simp
  then show "digit_value (''0123456789ABCDEF'' ! k) = k" using assms by simp
qed (rule nth_mem, use assms in simp)

text \<open>The escape can be read back: it starts with a percent sign exactly when the byte is not kept.\<close>

lemma uri_escape_append:
  assumes "uri_escape c @ r = uri_escape d @ t"
  shows "c = d \<and> r = t"
proof -
  have pc: "\<not> uri_kept (CHR ''%'')" by code_simp
  have b: "of_char c div 16 < (16::nat)" "of_char d div 16 < (16::nat)"
    by (simp_all add: less_mult_imp_div_less)
  show ?thesis
  proof (cases "uri_kept c \<or> uri_kept d")
    case True
    then show ?thesis using assms pc by (auto simp: uri_escape_def split: if_splits)
  next
    case False
    then have e: "''0123456789ABCDEF'' ! (of_char c div 16) = ''0123456789ABCDEF'' ! (of_char d div 16)"
      "''0123456789ABCDEF'' ! (of_char c mod 16) = ''0123456789ABCDEF'' ! (of_char d mod 16)" "r = t"
      using assms by (auto simp: uri_escape_def)
    have "of_char c div 16 = (of_char d div 16 :: nat)" "of_char c mod 16 = (of_char d mod 16 :: nat)"
      using hex_upper_value(1) b e(1,2) by (metis mod_less_divisor zero_less_numeral)+
    then have "(of_char c :: nat) = of_char d"
      by (metis div_mult_mod_eq)
    then show ?thesis using e(3) of_char_inj by blast
  qed
qed

lemma uri_escape_nonempty [simp]: "uri_escape c \<noteq> []"
  by (simp add: uri_escape_def)

lemma encodeURIComponent_inj: "encodeURIComponent a = encodeURIComponent b \<Longrightarrow> a = b"
proof (induction a arbitrary: b)
  case Nil
  then show ?case by (cases b) (simp_all add: encodeURIComponent_def)
next
  case (Cons c a)
  then show ?case
    by (cases b) (auto simp: encodeURIComponent_def dest!: uri_escape_append)
qed

lemma uri_escape_chars:
  assumes "x \<in> set (uri_escape c)"
  shows "uri_kept x \<or> x = CHR ''%''"
proof -
  have "\<forall>k \<in> set [0..<16]. uri_kept (''0123456789ABCDEF'' ! k)" by code_simp
  then have h: "uri_kept (''0123456789ABCDEF'' ! k)" if "k < 16" for k
    using that by (simp del: upt_rec_numeral)
  have "of_char c div 16 < (16::nat)" "of_char c mod 16 < (16::nat)"
    by (simp_all add: less_mult_imp_div_less)
  from this [THEN h] assms show ?thesis
    unfolding uri_escape_def by (auto split: if_splits simp del: nth_Cons_numeral)
qed

lemma encodeURIComponent_chars:
  "x \<in> set (encodeURIComponent s) \<Longrightarrow> uri_kept x \<or> x = CHR ''%''"
  using uri_escape_chars by (auto simp: encodeURIComponent_def)

lemma uri_no_separator:
  "CHR ''/'' \<notin> set (encodeURIComponent s)" "CHR ''?'' \<notin> set (encodeURIComponent s)" "CHR ''#'' \<notin> set (encodeURIComponent s)"
proof -
  have "\<not> uri_kept (CHR ''/'')" "\<not> uri_kept (CHR ''?'')" "\<not> uri_kept (CHR ''#'')" by code_simp+
  then show "CHR ''/'' \<notin> set (encodeURIComponent s)" "CHR ''?'' \<notin> set (encodeURIComponent s)" "CHR ''#'' \<notin> set (encodeURIComponent s)"
    using encodeURIComponent_chars by fastforce+
qed

text \<open>Whoever supplies the id, the request stays on its route and names that one record.\<close>

lemma decide_path_names_template:
  assumes "rq_path (decide_request a u) = rq_path (decide_request b v)"
  shows "a = b \<and> u = v"
proof -
  let ?A = "encodeURIComponent a" and ?B = "encodeURIComponent b"
  have e: "?A @ CHR ''/'' # ''decision?reviewer='' @ encodeURIComponent u
      = ?B @ CHR ''/'' # ''decision?reviewer='' @ encodeURIComponent v"
    using assms by (simp add: decide_request_def)
  have "takeWhile (\<lambda>c. c \<noteq> CHR ''/'') (encodeURIComponent s @ CHR ''/'' # t) = encodeURIComponent s" for s t
    using uri_no_separator(1) by (auto simp: takeWhile_append1 intro!: takeWhile_append2 [THEN trans])
  then have "?A = ?B" using e by metis
  with e show ?thesis using encodeURIComponent_inj by auto
qed

lemma call_key_only_to_api_core:
  assumes "call cfg fetch rq = Inr p"
  shows "configured cfg" "\<exists>status t. fetch (sent_of cfg rq) = Answered status t \<and> response_ok status"
  using assms by (auto simp: call_def Let_def split: if_splits fetched.splits)

end
