(* ===== verification/Templates.thy ===== *)
theory Templates
  imports Review_Client Decision_Policy Admin_Model
begin

text \<open>
  \<open>modules/templates\<close>: what a reviewer may do to a message template in each status
  (\<open>template-rules.ts\<close>), and the service that lists templates and passes decisions to api-core
  (\<open>templates.service.ts\<close>).  Times are milliseconds; api-core's answers are arguments.
\<close>

section \<open>Rules\<close>

definition TEMPLATE_STATUSES :: "string list" where
  "TEMPLATE_STATUSES = [''DRAFT'', ''SUBMITTED'', ''IN_REVIEW'', ''APPROVED'', ''REJECTED'']"

datatype template_action = Approve | Reject | Revoke

fun action_name :: "template_action \<Rightarrow> string" where
  "action_name Approve = ''approve''"
| "action_name Reject = ''reject''"
| "action_name Revoke = ''revoke''"

definition allowedActions :: "string \<Rightarrow> bool \<Rightarrow> template_action list" where
  "allowedActions status hasContent =
     (if status = ''DRAFT'' then (if hasContent then [Approve, Reject] else [Reject])
      else if status = ''SUBMITTED'' \<or> status = ''IN_REVIEW''
      then (if hasContent then [Approve, Reject] else [Reject])
      else if status = ''APPROVED'' then [Revoke]
      else if status = ''REJECTED'' then (if hasContent then [Approve] else [])
      else [])"

definition assertAllowed_template :: "template_action \<Rightarrow> string \<times> bool \<Rightarrow> unit result" where
  "assertAllowed_template action st =
     (let (status, hasContent) = st in
      if js_includes (allowedActions status hasContent) action then Inr ()
      else if action = Approve \<and> status = ''APPROVED''
      then Inl (Conflict ''This template is already approved.'')
      else if action = Approve \<and> \<not> hasContent
      then Inl (BadRequest ''This template has no content to approve. The customer has not written a body yet.'')
      else if action = Reject \<and> status = ''APPROVED''
      then Inl (Conflict ''This template is approved. Use revoke to withdraw an approval.'')
      else if action = Reject \<and> status = ''REJECTED''
      then Inl (Conflict ''This template is already rejected.'')
      else if action = Revoke
      then Inl (Conflict (''Only an approved template can be revoked; this one is '' @ status @ ''.''))
      else Inl (Conflict (''A '' @ status @ '' template cannot be '' @ action_name action @ ''d.'')))"

definition flagsOf :: "string option \<Rightarrow> string list" where
  "flagsOf reviewNotes =
     filter (\<lambda>l. l \<noteq> []) (map trim (split_on (CHR 0x0A) (case reviewNotes of None \<Rightarrow> [] | Some n \<Rightarrow> n)))"

fun auditAction :: "template_action \<Rightarrow> string" where
  "auditAction Approve = ''templates.approved''"
| "auditAction Revoke = ''templates.revoked''"
| "auditAction Reject = ''templates.rejected''"

text \<open>The names a template expects: a string, or the key of an object with its type's mark.\<close>

fun variable_name :: "jval \<Rightarrow> string list" where
  "variable_name (JvStr s) = [s]"
| "variable_name (JvObj fs) =
     (case field_of (JvObj fs) ''key'' of
        Some (JvStr k) \<Rightarrow> [if field_of (JvObj fs) ''type'' = Some (JvStr ''array'') then k @ ''[]'' else k]
      | _ \<Rightarrow> [])"
| "variable_name _ = []"

fun variableNames :: "jval \<Rightarrow> string list" where
  "variableNames (JvArr vs) = concat (map variable_name vs)"
| "variableNames _ = []"

interpretation template_policy: decision_policy
  "\<lambda>(status, hasContent). allowedActions status hasContent" assertAllowed_template
  by unfold_locales (auto simp: assertAllowed_template_def split: prod.splits)

lemma action_name_inj: "action_name a = action_name b \<Longrightarrow> a = b"
  by (cases a; cases b) simp_all

section \<open>Templates as api-core presents them\<close>

record template =
  tp_id :: string
  tp_templateId :: string
  tp_name :: string
  tp_slug :: string
  tp_category :: string
  tp_subject :: "string option"
  tp_variables :: jval
  tp_status :: string
  tp_rejectionReason :: "string option"
  tp_reviewNotes :: "string option"
  tp_submittedAt :: "millis option"
  tp_reviewedAt :: "millis option"
  tp_createdAt :: millis
  tp_updatedAt :: millis
  tp_accountId :: "string option"
  tp_project :: "(string \<times> string) option"
  tp_html :: "string option"

record template_summary =
  ts_id :: string
  ts_templateId :: string
  ts_name :: string
  ts_slug :: string
  ts_category :: string
  ts_subject :: "string option"
  ts_status :: string
  ts_accountId :: "string option"
  ts_project :: "(string \<times> string) option"
  ts_flags :: "string list"
  ts_rejectionReason :: "string option"
  ts_submittedAt :: "millis option"
  ts_reviewedAt :: "millis option"
  ts_createdAt :: millis
  ts_updatedAt :: millis

definition summary :: "template \<Rightarrow> template_summary" where
  "summary row = \<lparr>ts_id = tp_id row, ts_templateId = tp_templateId row, ts_name = tp_name row,
     ts_slug = tp_slug row, ts_category = tp_category row, ts_subject = tp_subject row,
     ts_status = tp_status row, ts_accountId = tp_accountId row, ts_project = tp_project row,
     ts_flags = flagsOf (tp_reviewNotes row), ts_rejectionReason = tp_rejectionReason row,
     ts_submittedAt = tp_submittedAt row, ts_reviewedAt = tp_reviewedAt row,
     ts_createdAt = tp_createdAt row, ts_updatedAt = tp_updatedAt row\<rparr>"

record template_detail =
  td_summary :: template_summary
  td_variables :: "string list"
  td_html :: "string option"
  td_hasContent :: bool
  td_allowedActions :: "template_action list"
  td_approvalSkipsChecks :: bool

definition template_view :: "template \<Rightarrow> template_detail" where
  "template_view row =
     (let hasContent = truthy (tp_html row) in
      \<lparr>td_summary = summary row, td_variables = variableNames (tp_variables row), td_html = tp_html row,
       td_hasContent = hasContent, td_allowedActions = allowedActions (tp_status row) hasContent,
       td_approvalSkipsChecks = (tp_status row = ''DRAFT'')\<rparr>)"

text \<open>What api-core answers: the queue of a status, a template (or nothing), and a decision.\<close>

record review_api =
  ra_queue :: "string \<Rightarrow> template list result"
  ra_get :: "string \<Rightarrow> template option result"
  ra_decide :: "string \<Rightarrow> string \<Rightarrow> bool \<Rightarrow> string option \<Rightarrow> template option result"

text \<open>
  The service's state: its cache (when it was filled, and the rows), the decisions passed to
  api-core, and the audit log.
\<close>

record templates_state =
  tm_cache :: "(millis \<times> template list) option"
  tm_decisions :: "(string \<times> string \<times> bool \<times> string option) list"
  tm_audit :: "audit_row list"

section \<open>The list\<close>

definition CACHE_MS :: millis where
  "CACHE_MS = 15000"

definition API_CORE_PAGE :: nat where
  "API_CORE_PAGE = 200"

definition DEFAULT_PAGE :: nat where
  "DEFAULT_PAGE = 50"

text \<open>
  \<open>everything\<close> reads the cache, asks api-core for every status when it is stale, and stores the
  answer.  Other requests can run between the question and the answer, so its two halves are
  separate steps.
\<close>

definition cached_rows :: "millis \<Rightarrow> templates_state \<Rightarrow> template list option" where
  "cached_rows now s =
     (case tm_cache s of None \<Rightarrow> None
      | Some (filled, rows) \<Rightarrow> if now - filled < CACHE_MS then Some rows else None)"

fun all_queues :: "(string \<Rightarrow> template list result) \<Rightarrow> string list \<Rightarrow> template list result" where
  "all_queues q [] = Inr []"
| "all_queues q (st # sts) =
     (case q st of Inl e \<Rightarrow> Inl e
      | Inr rows \<Rightarrow> (case all_queues q sts of Inl e \<Rightarrow> Inl e | Inr more_rows \<Rightarrow> Inr (rows @ more_rows)))"

definition store_rows :: "millis \<Rightarrow> template list \<Rightarrow> templates_state \<Rightarrow> templates_state" where
  "store_rows now rows s = s\<lparr>tm_cache := Some (now, rows)\<rparr>"

definition everything :: "review_api \<Rightarrow> millis \<Rightarrow> templates_state \<Rightarrow> (templates_state, template list) outcome" where
  "everything api now s =
     (case cached_rows now s of Some rows \<Rightarrow> returns rows s
      | None \<Rightarrow> (case all_queues (ra_queue api) TEMPLATE_STATUSES of
          Inl e \<Rightarrow> throws e s
        | Inr rows \<Rightarrow> returns rows (store_rows now rows s)))"

definition count_of :: "(string \<Rightarrow> nat option) \<Rightarrow> string \<Rightarrow> nat" where
  "count_of counts st = (case counts st of None \<Rightarrow> 0 | Some n \<Rightarrow> n)"

definition status_counts :: "template list \<Rightarrow> (string \<Rightarrow> nat option)" where
  "status_counts rows =
     (let zeros = map_of (map (\<lambda>st. (st, 0)) TEMPLATE_STATUSES);
          c = foldl (\<lambda>m row. m(tp_status row \<mapsto> count_of m (tp_status row) + 1)) zeros rows
      in c(''PENDING'' \<mapsto> count_of c ''SUBMITTED'' + count_of c ''IN_REVIEW''))"

definition status_wanted :: "string \<Rightarrow> template \<Rightarrow> bool" where
  "status_wanted status row =
     (if status = ''PENDING'' then tp_status row = ''SUBMITTED'' \<or> tp_status row = ''IN_REVIEW''
      else status = ''ALL'' \<or> tp_status row = status)"

definition needle_of :: "string option \<Rightarrow> string option" where
  "needle_of q = map_option (\<lambda>s. toLowerCase (trim s)) q"

definition needle_in :: "string option \<Rightarrow> template \<Rightarrow> bool" where
  "needle_in needle row =
     (case needle of None \<Rightarrow> True
      | Some n \<Rightarrow> n = [] \<or> list_ex (\<lambda>field. case field of None \<Rightarrow> False | Some f \<Rightarrow> contains_str (toLowerCase f) n)
          [Some (tp_name row), Some (tp_slug row), tp_subject row, Some (tp_templateId row),
           tp_accountId row, map_option snd (tp_project row)])"

definition list_key :: "string \<Rightarrow> template \<Rightarrow> int" where
  "list_key status row =
     (if status = ''PENDING'' then (case tp_submittedAt row of Some t \<Rightarrow> t | None \<Rightarrow> tp_updatedAt row)
      else - tp_updatedAt row)"

definition wanted_rows :: "string \<Rightarrow> string option \<Rightarrow> template list \<Rightarrow> template list" where
  "wanted_rows status needle rows =
     sort_key (list_key status) (filter (\<lambda>row. status_wanted status row \<and> needle_in needle row) rows)"

definition encodeOffset :: "nat \<Rightarrow> string" where
  "encodeOffset offset = base64url_encode (dec offset)"

definition decodeOffset :: "string option \<Rightarrow> nat" where
  "decodeOffset cursor =
     (case cursor of None \<Rightarrow> 0
      | Some c \<Rightarrow> if c = [] then 0
          else (case num_int (js_Number (base64url_decode c)) of
              Some n \<Rightarrow> if n > 0 then nat n else 0
            | None \<Rightarrow> 0))"

record template_query =
  tq_status :: "string option"
  tq_q :: "string option"
  tq_cursor :: "string option"
  tq_limit :: "nat option"

record template_page =
  tg_counts :: "string \<Rightarrow> nat option"
  tg_countsCapped :: "string list"
  tg_data :: "template_summary list"
  tg_hasMore :: bool
  tg_nextCursor :: "string option"

definition page_of_rows :: "template_query \<Rightarrow> template list \<Rightarrow> template_page" where
  "page_of_rows query rows =
     (let status = (case tq_status query of None \<Rightarrow> ''PENDING'' | Some st \<Rightarrow> st);
          counts = status_counts rows;
          wanted = wanted_rows status (needle_of (tq_q query)) rows;
          limit = (case tq_limit query of None \<Rightarrow> DEFAULT_PAGE | Some l \<Rightarrow> l);
          offset = decodeOffset (tq_cursor query);
          page = take limit (drop offset wanted);
          more_rows = (offset + limit < length wanted)
      in \<lparr>tg_counts = counts,
          tg_countsCapped = filter (\<lambda>st. API_CORE_PAGE \<le> count_of counts st) TEMPLATE_STATUSES,
          tg_data = map summary page, tg_hasMore = more_rows,
          tg_nextCursor = (if more_rows then Some (encodeOffset (offset + limit)) else None)\<rparr>)"

definition list_templates ::
  "review_api \<Rightarrow> millis \<Rightarrow> template_query \<Rightarrow> templates_state \<Rightarrow> (templates_state, template_page) outcome" where
  "list_templates api now query s =
     (case everything api now s of (Inl e, s1) \<Rightarrow> throws e s1
      | (Inr rows, s1) \<Rightarrow> returns (page_of_rows query rows) s1)"

text \<open>\<open>get\<close>: an empty answer from api-core is read as a template and fails.\<close>

definition get_template :: "review_api \<Rightarrow> string \<Rightarrow> template_detail result" where
  "get_template api tid =
     (case ra_get api tid of Inl e \<Rightarrow> Inl e
      | Inr None \<Rightarrow> Inl (PlainError ''Cannot read properties of null'')
      | Inr (Some t) \<Rightarrow> Inr (template_view t))"

section \<open>Decisions\<close>

record decided =
  dc_id :: string
  dc_templateId :: string
  dc_status :: string
  dc_previousStatus :: string
  dc_rejectionReason :: "string option"
  dc_reviewedAt :: "millis option"

definition decision_entry :: "principal \<Rightarrow> template_action \<Rightarrow> string \<Rightarrow> template \<Rightarrow> template \<Rightarrow> audit_entry" where
  "decision_entry actor action reason before after =
     staff_entry actor (auditAction action) ''template'' (tp_id before) (Some reason)
       (JObj [(''status'', JStr (tp_status before))]) (JObj [(''status'', JStr (tp_status after))])
       (JObj [(''templateId'', JStr (tp_templateId before)), (''name'', JStr (tp_name before)),
              (''accountId'', jstr_opt (tp_accountId before)),
              (''automatedFlags'', jstrs (flagsOf (tp_reviewNotes before))),
              (''approvedFromDraft'', JBool (action = Approve \<and> tp_status before = ''DRAFT''))])"

definition decide_template ::
  "review_api \<Rightarrow> principal \<Rightarrow> string \<Rightarrow> template_action \<Rightarrow> string \<Rightarrow> templates_state
     \<Rightarrow> (templates_state, decided) outcome" where
  "decide_template api actor tid action reason s =
     (case ra_get api tid of Inl e \<Rightarrow> throws e s
      | Inr None \<Rightarrow> throws (NotFound ''Template not found'') s
      | Inr (Some before) \<Rightarrow>
         (case assertAllowed_template action (tp_status before, truthy (tp_html before)) of
            Inl e \<Rightarrow> throws e s
          | Inr _ \<Rightarrow>
             (let reviewer = ''console:'' @ sp_id actor;
                  note = (if action = Approve then None else Some reason);
                  s1 = s\<lparr>tm_decisions := tm_decisions s @ [(tp_id before, reviewer, action = Approve, note)]\<rparr>
              in (case ra_decide api (tp_id before) reviewer (action = Approve) note of
                 Inl e \<Rightarrow> throws e s1
               | Inr answer \<Rightarrow>
                  (let s2 = s1\<lparr>tm_cache := None\<rparr> in
                   (case answer of
                      None \<Rightarrow> throws (PlainError ''Cannot read properties of null'') s2
                    | Some after \<Rightarrow>
                        returns \<lparr>dc_id = tp_id after, dc_templateId = tp_templateId after,
                            dc_status = tp_status after, dc_previousStatus = tp_status before,
                            dc_rejectionReason = tp_rejectionReason after, dc_reviewedAt = tp_reviewedAt after\<rparr>
                          (s2\<lparr>tm_audit := audit_record (decision_entry actor action reason before after) (tm_audit s2)\<rparr>)))))))"

text \<open>
  What \<open>modules/templates\<close> guarantees: decisions follow the rules and are recorded, the counts of
  the tabs, the offset tokens of the list, and the window in which the list's cache is stale.
\<close>

section \<open>Offset tokens\<close>

lemma dec_nonempty [simp]: "dec n \<noteq> []"
  using dec_digits [of n] by simp

lemma decodeOffset_encode:
  "n < 2 ^ 53 \<Longrightarrow> decodeOffset (Some (encodeOffset n)) = n"
  by (simp add: decodeOffset_def encodeOffset_def js_Number_dec)

definition load_list :: "template_query \<Rightarrow> template list \<Rightarrow> string option \<Rightarrow> (template_summary, string) page" where
  "load_list query rows c =
     (let p = page_of_rows (query\<lparr>tq_cursor := c\<rparr>) rows in
      \<lparr>pg_data = tg_data p, pg_next = tg_nextCursor p, pg_hasMore = tg_hasMore p\<rparr>)"

lemma walk_offsets:
  assumes "tq_limit query = Some limit" "0 < limit"
    "status = (case tq_status query of None \<Rightarrow> ''PENDING'' | Some st \<Rightarrow> st)"
    "wanted = wanted_rows status (needle_of (tq_q query)) rows" "length wanted < 2 ^ 53"
    "length wanted - decodeOffset c < fuel"
  shows "walk_pages (load_list query rows) fuel c = map summary (drop (decodeOffset c) wanted)"
  using assms(6)
proof (induction fuel arbitrary: c)
  case 0
  then show ?case by simp
next
  case (Suc fuel)
  let ?o = "decodeOffset c"
  have p: "load_list query rows c = \<lparr>pg_data = map summary (take limit (drop ?o wanted)),
      pg_next = (if ?o + limit < length wanted then Some (encodeOffset (?o + limit)) else None),
      pg_hasMore = (?o + limit < length wanted)\<rparr>"
    using assms(1,3,4) by (simp add: load_list_def page_of_rows_def Let_def)
  show ?case
  proof (cases "?o + limit < length wanted")
    case False
    then show ?thesis by (simp add: p)
  next
    case True
    then have d: "decodeOffset (Some (encodeOffset (?o + limit))) = ?o + limit"
      using assms(5) by (intro decodeOffset_encode) simp
    have "length wanted - (?o + limit) < fuel" using Suc.prems True assms(2) by simp
    with Suc.IH [of "Some (encodeOffset (?o + limit))"] d True
    have "walk_pages (load_list query rows) fuel (Some (encodeOffset (?o + limit)))
        = map summary (drop (?o + limit) wanted)" by simp
    moreover have "drop ?o wanted = take limit (drop ?o wanted) @ drop (?o + limit) wanted"
      by (simp add: add.commute flip: drop_drop)
    ultimately show ?thesis using True by (simp add: p flip: map_append)
  qed
qed

text \<open>
  While api-core's answer does not change, following nextCursor from the first page of the
  template list shows every template the filter wants exactly once and in the list's order,
  whatever the page size: each token is read back as the offset it was made from.
\<close>

theorem template_list_walk:
  assumes "tq_limit query = Some limit" "0 < limit" "length rows < 2 ^ 53" "length rows < fuel"
  shows "walk_pages (load_list query rows) fuel None =
    map summary (wanted_rows (case tq_status query of None \<Rightarrow> ''PENDING'' | Some st \<Rightarrow> st)
      (needle_of (tq_q query)) rows)"
proof -
  let ?w = "wanted_rows (case tq_status query of None \<Rightarrow> ''PENDING'' | Some st \<Rightarrow> st) (needle_of (tq_q query)) rows"
  have "length ?w \<le> length rows" by (simp add: wanted_rows_def)
  then show ?thesis
    using walk_offsets [OF assms(1,2) refl refl, of rows None fuel] assms(3,4)
    by (simp add: decodeOffset_def)
qed

definition demo_template :: "string \<Rightarrow> string \<Rightarrow> millis \<Rightarrow> template" where
  "demo_template i st t = \<lparr>tp_id = i, tp_templateId = ''tpl'', tp_name = ''Welcome'', tp_slug = ''welcome'',
     tp_category = ''TRANSACTIONAL'', tp_subject = Some ''Hello'', tp_variables = JvNull, tp_status = st,
     tp_rejectionReason = None, tp_reviewNotes = None, tp_submittedAt = Some t, tp_reviewedAt = None,
     tp_createdAt = t, tp_updatedAt = t, tp_accountId = Some ''acc1'', tp_project = Some (''p1'', ''Shop''),
     tp_html = None\<rparr>"

theorem template_list_walk_witness:
  "map ts_id (walk_pages (load_list \<lparr>tq_status = None, tq_q = Some '' WELC '', tq_cursor = None, tq_limit = Some 2\<rparr>
       [demo_template ''a'' ''SUBMITTED'' 30, demo_template ''b'' ''DRAFT'' 5, demo_template ''c'' ''IN_REVIEW'' 10,
        demo_template ''d'' ''SUBMITTED'' 20]) 5 None) = [''c'', ''d'', ''a'']"
proof -
  let ?rows = "[demo_template ''a'' ''SUBMITTED'' 30, demo_template ''b'' ''DRAFT'' 5,
    demo_template ''c'' ''IN_REVIEW'' 10, demo_template ''d'' ''SUBMITTED'' 20]"
  let ?q = "\<lparr>tq_status = None, tq_q = Some '' WELC '', tq_cursor = None, tq_limit = Some (2::nat)\<rparr>"
  have "map ts_id (map summary (wanted_rows ''PENDING'' (needle_of (Some '' WELC '')) ?rows)) = [''c'', ''d'', ''a'']"
    by code_simp
  with template_list_walk [of ?q 2 ?rows 5] show ?thesis by simp
qed

section \<open>Counts\<close>

lemma foldl_counts:
  "count_of (foldl (\<lambda>m row. m(tp_status row \<mapsto> count_of m (tp_status row) + 1)) m rows) st
     = count_of m st + count_where (\<lambda>r. tp_status r = st) rows"
  by (induction rows arbitrary: m) (auto simp: count_of_def)

lemma status_counts:
  assumes "st \<noteq> ''PENDING''"
  shows "count_of (status_counts rows) st = count_where (\<lambda>r. tp_status r = st) rows"
proof -
  have "count_of (map_of (map (\<lambda>st. (st, 0)) TEMPLATE_STATUSES)) st = 0"
    by (auto simp: count_of_def TEMPLATE_STATUSES_def)
  then show ?thesis
    using assms foldl_counts [of "map_of (map (\<lambda>st. (st, 0)) TEMPLATE_STATUSES)" rows st]
    by (simp add: status_counts_def Let_def count_of_def)
qed

lemma count_where_disj:
  "(\<And>r. \<not> (p r \<and> q r)) \<Longrightarrow> count_where (\<lambda>r. p r \<or> q r) rows = count_where p rows + count_where q rows"
  by (induction rows) auto

text \<open>The tab's number is the length of the tab's list, when nothing is searched for.\<close>

lemma pending_count:
  "count_of (status_counts rows) ''PENDING'' = length (wanted_rows ''PENDING'' None rows)"
proof -
  have "count_of (status_counts rows) ''PENDING''
      = count_where (\<lambda>r. tp_status r = ''SUBMITTED'') rows + count_where (\<lambda>r. tp_status r = ''IN_REVIEW'') rows"
    using status_counts [of "''SUBMITTED''" rows] status_counts [of "''IN_REVIEW''" rows]
    by (simp add: status_counts_def Let_def count_of_def)
  also have "\<dots> = count_where (\<lambda>r. tp_status r = ''SUBMITTED'' \<or> tp_status r = ''IN_REVIEW'') rows"
    by (rule count_where_disj [symmetric]) auto
  finally show ?thesis
    by (simp add: wanted_rows_def status_wanted_def needle_in_def count_where_def)
qed

lemma status_count:
  assumes "st \<in> set TEMPLATE_STATUSES"
  shows "count_of (status_counts rows) st = length (wanted_rows st None rows)"
proof -
  have "st \<noteq> ''PENDING''" "st \<noteq> ''ALL''" using assms by (auto simp: TEMPLATE_STATUSES_def)
  then show ?thesis
    by (simp add: status_counts wanted_rows_def status_wanted_def needle_in_def count_where_def)
qed

section \<open>Decisions\<close>

lemma decide_template_cases:
  assumes "decide_template api actor tid action reason s = (r, s')"
  obtains (unread) "tm_decisions s' = tm_decisions s" "isl r" "s' = s"
  | (sent) before where "ra_get api tid = Inr (Some before)"
      "action \<in> set (allowedActions (tp_status before) (truthy (tp_html before)))"
      "tm_decisions s' = tm_decisions s @ [(tp_id before, ''console:'' @ sp_id actor, action = Approve,
          if action = Approve then None else Some reason)]"
proof (cases "ra_get api tid")
  case (Inl e)
  then have "isl r" "s' = s" using assms by (auto simp: decide_template_def)
  then show ?thesis by (intro unread) simp_all
next
  case (Inr t)
  show ?thesis
  proof (cases t)
    case None
    then have "isl r" "s' = s" using Inr assms by (auto simp: decide_template_def)
    then show ?thesis by (intro unread) simp_all
  next
    case (Some before)
    show ?thesis
    proof (cases rule: template_policy.assert_cases [of action "(tp_status before, truthy (tp_html before))"])
      case ok
      then have "assertAllowed_template action (tp_status before, truthy (tp_html before)) = Inr ()"
        by simp
      then have "tm_decisions s' = tm_decisions s @ [(tp_id before, ''console:'' @ sp_id actor, action = Approve,
          if action = Approve then None else Some reason)]"
        using Some Inr assms by (auto simp: decide_template_def Let_def split: sum.splits option.splits)
      with ok(1) Some Inr show ?thesis by (intro sent) simp_all
    next
      case (refused e)
      then have "isl r" "s' = s" using Some Inr assms by (auto simp: decide_template_def)
      then show ?thesis by (intro unread) simp_all
    qed
  qed
qed

lemma decide_template_success:
  assumes "decide_template api actor tid action reason s = (Inr d, s')"
  shows "\<exists>before after. ra_get api tid = Inr (Some before)
    \<and> action \<in> set (allowedActions (tp_status before) (truthy (tp_html before)))
    \<and> ra_decide api (tp_id before) (''console:'' @ sp_id actor) (action = Approve)
        (if action = Approve then None else Some reason) = Inr (Some after)
    \<and> (action = Approve \<and> truthy (tp_html before) \<or> action = Reject
        \<or> action = Revoke \<and> tp_status before = ''APPROVED'')
    \<and> dc_previousStatus d = tp_status before \<and> dc_status d = tp_status after
    \<and> s' = \<lparr>tm_cache = None,
        tm_decisions = tm_decisions s @ [(tp_id before, ''console:'' @ sp_id actor, action = Approve,
          if action = Approve then None else Some reason)],
        tm_audit = audit_record (decision_entry actor action reason before after) (tm_audit s)\<rparr>"
proof -
  obtain before after where b: "ra_get api tid = Inr (Some before)"
    "assertAllowed_template action (tp_status before, truthy (tp_html before)) = Inr ()"
    "ra_decide api (tp_id before) (''console:'' @ sp_id actor) (action = Approve)
        (if action = Approve then None else Some reason) = Inr (Some after)"
    "dc_previousStatus d = tp_status before" "dc_status d = tp_status after"
    "s' = \<lparr>tm_cache = None,
        tm_decisions = tm_decisions s @ [(tp_id before, ''console:'' @ sp_id actor, action = Approve,
          if action = Approve then None else Some reason)],
        tm_audit = audit_record (decision_entry actor action reason before after) (tm_audit s)\<rparr>"
    using assms by (auto simp: decide_template_def Let_def split: sum.splits option.splits if_splits)
  have al: "action \<in> set (allowedActions (tp_status before) (truthy (tp_html before)))"
    using template_policy.assert_iff [of action "(tp_status before, truthy (tp_html before))"] b(2) by simp
  then have "action = Approve \<and> truthy (tp_html before) \<or> action = Reject
      \<or> action = Revoke \<and> tp_status before = ''APPROVED''"
    by (cases action) (auto simp: allowedActions_def split: if_splits)
  with b al show ?thesis by blast
qed

lemma decide_template_failure:
  assumes "decide_template api actor tid action reason s = (Inl e, s')"
  shows "tm_audit s' = tm_audit s"
  using assms by (auto simp: decide_template_def Let_def split: sum.splits option.splits if_splits)

lemma decide_template_failure_sent:
  assumes "decide_template api actor tid action reason s = (r, s')"
  shows "tm_decisions s' = tm_decisions s \<or> (\<exists>before. ra_get api tid = Inr (Some before)
      \<and> action \<in> set (allowedActions (tp_status before) (truthy (tp_html before)))
      \<and> length (tm_decisions s') = Suc (length (tm_decisions s)))"
  using assms
proof (cases rule: decide_template_cases)
  case unread
  then show ?thesis by simp
next
  case (sent before)
  from sent(3) have "length (tm_decisions s') = Suc (length (tm_decisions s))" by simp
  with sent(1,2) show ?thesis by blast
qed

text \<open>
  A successful template decision was allowed by the status api-core reported at that moment
  (an approval had a body to approve, a revocation hit an approved template), passed api-core
  exactly one decision in the reviewer's name, with the reason unless it was an approval, emptied
  the list's cache, and left one audit entry with both statuses and the reason.  A failed one is
  not audited, and passed api-core at most one decision, which the rules allowed.
\<close>

theorem template_decision:
  "case decide_template api actor tid action reason s of
     (Inr d, s') \<Rightarrow> \<exists>before after. ra_get api tid = Inr (Some before)
       \<and> action \<in> set (allowedActions (tp_status before) (truthy (tp_html before)))
       \<and> (action = Approve \<and> truthy (tp_html before) \<or> action = Reject
           \<or> action = Revoke \<and> tp_status before = ''APPROVED'')
       \<and> ra_decide api (tp_id before) (''console:'' @ sp_id actor) (action = Approve)
           (if action = Approve then None else Some reason) = Inr (Some after)
       \<and> dc_previousStatus d = tp_status before \<and> dc_status d = tp_status after
       \<and> s' = \<lparr>tm_cache = None,
           tm_decisions = tm_decisions s @ [(tp_id before, ''console:'' @ sp_id actor, action = Approve,
             if action = Approve then None else Some reason)],
           tm_audit = audit_record (decision_entry actor action reason before after) (tm_audit s)\<rparr>
   | (Inl e, s') \<Rightarrow> tm_audit s' = tm_audit s
       \<and> (tm_decisions s' = tm_decisions s
         \<or> (\<exists>before. ra_get api tid = Inr (Some before)
             \<and> action \<in> set (allowedActions (tp_status before) (truthy (tp_html before)))
             \<and> length (tm_decisions s') = Suc (length (tm_decisions s))))"
proof -
  obtain r s' where d: "decide_template api actor tid action reason s = (r, s')" by fastforce
  show ?thesis
  proof (cases r)
    case (Inl e)
    have a: "tm_audit s' = tm_audit s" using decide_template_failure d Inl by blast
    have "tm_decisions s' = tm_decisions s \<or> (\<exists>before. ra_get api tid = Inr (Some before)
        \<and> action \<in> set (allowedActions (tp_status before) (truthy (tp_html before)))
        \<and> length (tm_decisions s') = Suc (length (tm_decisions s)))"
      using decide_template_failure_sent [OF d] .
    with a show ?thesis unfolding d Inl prod.case sum.case by (rule conjI)
  next
    case (Inr a)
    with d have ok: "decide_template api actor tid action reason s = (Inr a, s')" by simp
    obtain before after where f: "ra_get api tid = Inr (Some before)"
      "action \<in> set (allowedActions (tp_status before) (truthy (tp_html before)))"
      "ra_decide api (tp_id before) (''console:'' @ sp_id actor) (action = Approve)
        (if action = Approve then None else Some reason) = Inr (Some after)"
      "action = Approve \<and> truthy (tp_html before) \<or> action = Reject
        \<or> action = Revoke \<and> tp_status before = ''APPROVED''"
      "dc_previousStatus a = tp_status before" "dc_status a = tp_status after"
      "s' = \<lparr>tm_cache = None,
        tm_decisions = tm_decisions s @ [(tp_id before, ''console:'' @ sp_id actor, action = Approve,
          if action = Approve then None else Some reason)],
        tm_audit = audit_record (decision_entry actor action reason before after) (tm_audit s)\<rparr>"
      using decide_template_success [OF ok] by (elim exE conjE) (rule that)
    show ?thesis
      unfolding ok prod.case sum.case
      by (intro exI [of _ before] exI [of _ after] conjI f)
  qed
qed

section \<open>The cache\<close>

text \<open>
  A list that had asked api-core before a decision, and stores the answer after it, puts back what
  the decision had cleared: for CACHE_MS every list shows the rows from before the decision.
\<close>

lemma template_cache_refilled_stale:
  assumes "decide_template api actor tid action reason s = (Inr d, s1)"
    "now \<le> later" "later < now + CACHE_MS"
  shows "list_templates api' later query (store_rows now rows s1) =
    (Inr (page_of_rows query rows), store_rows now rows s1)"
  using assms(2,3) by (simp add: list_templates_def everything_def cached_rows_def store_rows_def)

lemma decision_clears_cache:
  assumes "decide_template api actor tid action reason s = (Inr d, s1)"
  shows "everything api' later s1 =
    (case all_queues (ra_queue api') TEMPLATE_STATUSES of Inl e \<Rightarrow> throws e s1
     | Inr rows \<Rightarrow> returns rows (store_rows later rows s1))"
proof -
  have "tm_cache s1 = None"
    using assms by (auto simp: decide_template_def Let_def split: sum.splits option.splits if_splits)
  then show ?thesis by (simp add: everything_def cached_rows_def)
qed

end
