(* ===== verification/Api_Core.thy ===== *)
theory Api_Core
  imports Codec
begin

text \<open>
  \<open>integrations/api-core/api-core.client.ts\<close>: the signed commands sent to api-core, how its
  answers become results or exceptions, and the check of a signature on an inbound call.  The
  keyed hash (HMAC-SHA256 in hexadecimal) and what api-core answers are arguments.
\<close>

record api_core_config =
  ak_baseUrl :: string
  ak_serviceToken :: string
  ak_signingSecret :: string
  ak_timeoutMs :: nat

record command_context =
  cx_actorId :: string
  cx_actorEmail :: string
  cx_idempotencyKey :: "string option"
  cx_requestId :: "string option"

text \<open>fetch is aborted by the timer, fails with a message, or is answered.\<close>

datatype post_answer = TimedOut | Failed string | Replied nat string

record signed_post =
  sn_url :: string
  sn_body :: string
  sn_authorization :: string
  sn_signature :: string
  sn_timestamp :: string
  sn_idempotencyKey :: string
  sn_actorId :: string
  sn_actorEmail :: string
  sn_requestId :: string

section \<open>Signatures\<close>

definition sign :: "(string \<Rightarrow> string \<Rightarrow> string) \<Rightarrow> string \<Rightarrow> string \<Rightarrow> string \<Rightarrow> string \<Rightarrow> string \<Rightarrow> string" where
  "sign hmac secret timestamp meth path body =
     hmac secret (timestamp @ ''.'' @ meth @ ''.'' @ path @ ''.'' @ body)"

text \<open>
  \<open>Math.abs(now - x) > d\<close> on Numbers, the difference taken exactly; a comparison with NaN is
  false.
\<close>

fun apart :: "int \<Rightarrow> js_num \<Rightarrow> int \<Rightarrow> bool" where
  "apart now (Fin m e) d =
     (if 0 \<le> e then d < \<bar>now - m * 2 ^ nat e\<bar> else d * 2 ^ nat (- e) < \<bar>now * 2 ^ nat (- e) - m\<bar>)"
| "apart now (Infinite neg) d = True"
| "apart now NaN d = False"

definition signature_window :: millis where
  "signature_window = 5 * 60000"

definition verifySignature ::
  "(string \<Rightarrow> string \<Rightarrow> string) \<Rightarrow> string \<Rightarrow> millis \<Rightarrow> string \<Rightarrow> string \<Rightarrow> string \<Rightarrow> string \<Rightarrow> string \<Rightarrow> bool" where
  "verifySignature hmac secret now timestamp meth path body presented =
     (let expected = sign hmac secret timestamp meth path body in
      if length expected \<noteq> length presented then False
      else if apart now (js_Number timestamp) signature_window then False
      else expected = presented)"

section \<open>Commands\<close>

text \<open>A payload that is not JSON is kept under the key raw.\<close>

definition parsed_answer :: "string \<Rightarrow> jval" where
  "parsed_answer t = (if t = [] then JvNull
     else (case JSON_parse t of None \<Rightarrow> JvObj [(''raw'', JvStr t)] | Some v \<Rightarrow> v))"

text \<open>A list of messages is passed on as it is; its text is the one with commas between them.\<close>

definition message_of :: "jval \<Rightarrow> string option" where
  "message_of v = (case field_of v ''message'' of
      None \<Rightarrow> None
    | Some JvNull \<Rightarrow> None
    | Some (JvArr ms) \<Rightarrow> Some (join_with '','' (map string_of ms))
    | Some m \<Rightarrow> Some (string_of m))"

definition no_such_route :: "nat \<Rightarrow> jval \<Rightarrow> bool" where
  "no_such_route status v \<longleftrightarrow> status = 404 \<and>
     (case message_of v of None \<Rightarrow> False
      | Some m \<Rightarrow> startsWith m ''Cannot POST'' \<or> startsWith m ''Cannot GET'')"

definition answer_result :: "nat \<Rightarrow> jval \<Rightarrow> jval result" where
  "answer_result status v =
     (if 200 \<le> status \<and> status < 300 then Inr v
      else if no_such_route status v
      then Inl (NotImplementedHttp ''api-core does not support this action yet (its internal endpoint is not built). Nothing was changed.'')
      else Inl (UpstreamError (if 400 \<le> status \<and> status < 500 then status else 502)
             (case message_of v of None \<Rightarrow> ''api-core rejected the command'' | Some m \<Rightarrow> m)))"

definition signed_of ::
  "(string \<Rightarrow> string \<Rightarrow> string) \<Rightarrow> api_core_config \<Rightarrow> millis \<Rightarrow> string \<Rightarrow> string \<Rightarrow> string \<Rightarrow> string \<Rightarrow> command_context \<Rightarrow> signed_post" where
  "signed_of hmac cfg now uuid1 uuid2 path body ctx =
     (let timestamp = dec (nat now) in
      \<lparr>sn_url = ak_baseUrl cfg @ path, sn_body = body,
       sn_authorization = ''Bearer '' @ ak_serviceToken cfg,
       sn_signature = sign hmac (ak_signingSecret cfg) timestamp ''POST'' path body,
       sn_timestamp = timestamp,
       sn_idempotencyKey = (case cx_idempotencyKey ctx of None \<Rightarrow> uuid1 | Some k \<Rightarrow> k),
       sn_actorId = cx_actorId ctx, sn_actorEmail = cx_actorEmail ctx,
       sn_requestId = (case cx_requestId ctx of None \<Rightarrow> uuid2 | Some r \<Rightarrow> r)\<rparr>)"

text \<open>\<open>post\<close>: nothing is sent without a token and a signing secret.\<close>

definition post ::
  "(string \<Rightarrow> string \<Rightarrow> string) \<Rightarrow> api_core_config \<Rightarrow> (signed_post \<Rightarrow> post_answer) \<Rightarrow> millis \<Rightarrow> string \<Rightarrow> string
     \<Rightarrow> string \<Rightarrow> string \<Rightarrow> command_context \<Rightarrow> signed_post list \<Rightarrow> (signed_post list, jval) outcome" where
  "post hmac cfg fetch now uuid1 uuid2 path body ctx sent =
     (if ak_serviceToken cfg = [] \<or> ak_signingSecret cfg = []
      then throws (ServiceUnavailable ''api-core is not configured on admin-core: set API_CORE_SERVICE_TOKEN and API_CORE_SIGNING_SECRET'') sent
      else (let p = signed_of hmac cfg now uuid1 uuid2 path body ctx; s1 = sent @ [p] in
        (case fetch p of
           TimedOut \<Rightarrow> throws (ServiceUnavailable (''api-core timed out after '' @ dec (ak_timeoutMs cfg) @ ''ms'')) s1
         | Failed m \<Rightarrow> throws (BadGateway (''api-core unreachable at '' @ ak_baseUrl cfg @ '' ('' @ m @ ''). Check API_CORE_BASE_URL.'')) s1
         | Replied status t \<Rightarrow> (answer_result status (parsed_answer t), s1))))"

text \<open>The paths of the commands.\<close>

datatype command =
    SuspendAccount string
  | ReactivateAccount string
  | ForceLogout string
  | RevokeApiKey string string
  | ChangePlan string
  | ResetRateLimits string
  | AdjustCredit string
  | UpsertProductPricing
  | UpsertPlan
  | SetSenderIdStatus string
  | CreateInAppNotifications

fun command_path :: "command \<Rightarrow> string" where
  "command_path (SuspendAccount a) = ''/accounts/'' @ a @ ''/suspend''"
| "command_path (ReactivateAccount a) = ''/accounts/'' @ a @ ''/reactivate''"
| "command_path (ForceLogout a) = ''/accounts/'' @ a @ ''/force-logout''"
| "command_path (RevokeApiKey a k) = ''/accounts/'' @ a @ ''/api-keys/'' @ k @ ''/revoke''"
| "command_path (ChangePlan a) = ''/accounts/'' @ a @ ''/plan''"
| "command_path (ResetRateLimits a) = ''/accounts/'' @ a @ ''/rate-limits/reset''"
| "command_path (AdjustCredit a) = ''/accounts/'' @ a @ ''/credit-adjustments''"
| "command_path UpsertProductPricing = ''/pricing''"
| "command_path UpsertPlan = ''/plans''"
| "command_path (SetSenderIdStatus a) = ''/sender-ids/'' @ a @ ''/status''"
| "command_path CreateInAppNotifications = ''/notifications/in-app''"

section \<open>Facts\<close>

lemma verify_own_signature:
  assumes "verifySignature hmac secret now timestamp meth path body presented"
  shows "presented = sign hmac secret timestamp meth path body"
    "\<not> apart now (js_Number timestamp) signature_window"
  using assms by (auto simp: verifySignature_def Let_def split: if_splits)

lemma num_int_apart:
  assumes "num_int x = Some n"
  shows "apart now x d \<longleftrightarrow> d < \<bar>now - n\<bar>"
proof (cases x)
  case (Fin m e)
  show ?thesis
  proof (cases "0 \<le> e")
    case True
    with Fin assms show ?thesis by simp
  next
    case False
    let ?p = "2 ^ nat (- e) :: int"
    have p: "0 < ?p" by simp
    have m: "m = n * ?p"
      using Fin assms False by (auto split: if_splits)
    have "\<bar>now * ?p - m\<bar> = \<bar>now - n\<bar> * ?p"
      using p by (simp add: m abs_mult flip: left_diff_distrib)
    then have "apart now x d \<longleftrightarrow> d * ?p < \<bar>now - n\<bar> * ?p"
      using Fin False by simp
    then show ?thesis using p by (simp only: mult_less_cancel_right_pos)
  qed
qed (use assms in auto)

text \<open>What the client signs is accepted by the same check within five minutes of signing.\<close>

lemma signed_post_verifies:
  assumes "0 \<le> sent" "sent < 2 ^ 53" "\<bar>now - sent\<bar> \<le> signature_window"
  shows "verifySignature hmac (ak_signingSecret cfg) now
    (sn_timestamp (signed_of hmac cfg sent u1 u2 path body ctx)) ''POST'' path body
    (sn_signature (signed_of hmac cfg sent u1 u2 path body ctx))"
proof -
  have "nat sent < 2 ^ 53" using assms(2) by (simp add: nat_less_iff)
  then have "num_int (js_Number (dec (nat sent))) = Some sent"
    using js_Number_dec assms(1) by simp
  then have "\<not> apart now (js_Number (dec (nat sent))) signature_window"
    using assms(3) num_int_apart by fastforce
  then show ?thesis
    by (simp add: verifySignature_def signed_of_def Let_def)
qed

lemma post_unsigned_refused:
  assumes "ak_signingSecret cfg = [] \<or> ak_serviceToken cfg = []"
  shows "isl (fst (post hmac cfg fetch now u1 u2 path body ctx sent))"
    "snd (post hmac cfg fetch now u1 u2 path body ctx sent) = sent"
  using assms by (auto simp: post_def)

lemma post_once:
  assumes "post hmac cfg fetch now u1 u2 path body ctx sent = (Inr v, sent')"
  shows "sent' = sent @ [signed_of hmac cfg now u1 u2 path body ctx]"
    "\<exists>status t. fetch (signed_of hmac cfg now u1 u2 path body ctx) = Replied status t
      \<and> 200 \<le> status \<and> status < 300 \<and> v = parsed_answer t"
  using assms
  by (auto simp: post_def Let_def answer_result_def split: if_splits post_answer.splits)

text \<open>An error of api-core's own never looks like success, and a 5xx never like a fault of the caller.\<close>

lemma answer_result_error:
  assumes "status < 200 \<or> 300 \<le> status"
  shows "\<exists>e. answer_result status v = Inl e \<and>
    (500 \<le> status \<longrightarrow> (\<exists>m. e = UpstreamError 502 m))"
  using assms by (auto simp: answer_result_def no_such_route_def)

text \<open>
  A timestamp that is not a number passes the freshness test: comparisons with NaN are false, so a
  captured request signed with such a timestamp could be replayed for ever.
\<close>

lemma nan_timestamp_never_expires:
  assumes "js_Number timestamp = NaN"
  shows "verifySignature hmac secret now timestamp meth path body presented
    \<longleftrightarrow> presented = sign hmac secret timestamp meth path body"
  using assms by (auto simp: verifySignature_def Let_def)

end
