(* ===== verification/Geo_Ip.thy ===== *)
theory Geo_Ip
  imports Js_String
begin

text \<open>
  \<open>integrations/geoip/geoip.service.ts\<close>: looking an address up in the loaded database through
  a bounded cache.  The database is a reader, a function from addresses to what it holds (or
  nothing: an unknown or malformed address); coordinates are kept as the text of the number.
\<close>

record geo_location =
  gl_country :: "string option"
  gl_countryName :: "string option"
  gl_region :: "string option"
  gl_city :: "string option"
  gl_latitude :: "string option"
  gl_longitude :: "string option"

definition no_location :: geo_location where
  "no_location = \<lparr>gl_country = None, gl_countryName = None, gl_region = None, gl_city = None,
     gl_latitude = None, gl_longitude = None\<rparr>"

text \<open>What the database answers: a country, a registered country, the first subdivision and so on.\<close>

record city_response =
  cr_country :: "string option"
  cr_registeredCountry :: "string option"
  cr_countryName :: "string option"
  cr_region :: "string option"
  cr_city :: "string option"
  cr_latitude :: "string option"
  cr_longitude :: "string option"

definition location_of :: "city_response option \<Rightarrow> geo_location" where
  "location_of answer =
     (case answer of None \<Rightarrow> no_location
      | Some c \<Rightarrow> \<lparr>gl_country = (case cr_country c of None \<Rightarrow> cr_registeredCountry c | Some x \<Rightarrow> Some x),
          gl_countryName = cr_countryName c, gl_region = cr_region c, gl_city = cr_city c,
          gl_latitude = cr_latitude c, gl_longitude = cr_longitude c\<rparr>)"

record geoip_state =
  gi_reader :: "(string \<Rightarrow> city_response option) option"
  gi_cache :: "(string \<times> geo_location) list"

definition geo_cacheLimit :: nat where
  "geo_cacheLimit = 50000"

text \<open>\<open>load\<close>: the file read, or nothing when it cannot be opened.\<close>

definition geo_load :: "(string \<Rightarrow> city_response option) option \<Rightarrow> geoip_state \<Rightarrow> bool \<times> geoip_state" where
  "geo_load file s =
     (case file of None \<Rightarrow> (False, s)
      | Some reader \<Rightarrow> (True, s\<lparr>gi_reader := Some reader, gi_cache := []\<rparr>))"

definition geo_ready :: "geoip_state \<Rightarrow> bool" where
  "geo_ready s \<longleftrightarrow> gi_reader s \<noteq> None"

definition normalised :: "string \<Rightarrow> string" where
  "normalised ip = (if startsWith ip ''::ffff:'' then drop 7 ip else ip)"

definition geo_lookup :: "string option \<Rightarrow> geoip_state \<Rightarrow> geo_location \<times> geoip_state" where
  "geo_lookup ip s =
     (case (ip, gi_reader s) of
        (Some a, Some reader) \<Rightarrow>
          if a = [] then (no_location, s)
          else (let n = normalised a in
            (case map_of (gi_cache s) n of Some l \<Rightarrow> (l, s)
             | None \<Rightarrow>
                (let l = location_of (reader n);
                     kept = (if geo_cacheLimit \<le> length (gi_cache s) then [] else gi_cache s)
                 in (l, s\<lparr>gi_cache := kept @ [(n, l)]\<rparr>))))
      | _ \<Rightarrow> (no_location, s))"

text \<open>What a lookup means: the reader's answer for the address, whatever the cache holds.\<close>

definition geo_spec :: "(string \<Rightarrow> city_response option) option \<Rightarrow> string option \<Rightarrow> geo_location" where
  "geo_spec reader ip =
     (case (ip, reader) of
        (Some a, Some r) \<Rightarrow> if a = [] then no_location else location_of (r (normalised a))
      | _ \<Rightarrow> no_location)"

text \<open>The cache holds only what the loaded database says, each address once, within its limit.\<close>

definition geo_ok :: "geoip_state \<Rightarrow> bool" where
  "geo_ok s \<longleftrightarrow> length (gi_cache s) \<le> geo_cacheLimit \<and> distinct (map fst (gi_cache s))
     \<and> (case gi_reader s of None \<Rightarrow> gi_cache s = []
        | Some reader \<Rightarrow> list_all (\<lambda>(a, l). l = location_of (reader a)) (gi_cache s))"

definition geo_start :: geoip_state where
  "geo_start = \<lparr>gi_reader = None, gi_cache = []\<rparr>"

lemma geo_start_ok: "geo_ok geo_start"
  by (simp add: geo_ok_def geo_start_def)

lemma geo_load_ok: "geo_ok s \<Longrightarrow> geo_ok (snd (geo_load file s))"
  by (auto simp: geo_ok_def geo_load_def split: option.splits)

lemma geo_lookup_ok:
  assumes "geo_ok s"
  shows "fst (geo_lookup ip s) = geo_spec (gi_reader s) ip" "geo_ok (snd (geo_lookup ip s))"
    "gi_reader (snd (geo_lookup ip s)) = gi_reader s"
proof -
  have "fst (geo_lookup ip s) = geo_spec (gi_reader s) ip \<and> geo_ok (snd (geo_lookup ip s))
      \<and> gi_reader (snd (geo_lookup ip s)) = gi_reader s"
  proof (cases ip)
    case None
    then show ?thesis using assms by (simp add: geo_lookup_def geo_spec_def)
  next
    case (Some a)
    show ?thesis
    proof (cases "gi_reader s")
      case None
      then show ?thesis using assms Some by (simp add: geo_lookup_def geo_spec_def)
    next
      case r: (Some reader)
      show ?thesis
      proof (cases "map_of (gi_cache s) (normalised a)")
        case (Some l)
        then have "(normalised a, l) \<in> set (gi_cache s)" by (rule map_of_SomeD)
        then have "l = location_of (reader (normalised a))"
          using assms r by (auto simp: geo_ok_def list_all_iff)
        with Some show ?thesis
          using assms r \<open>ip = Some a\<close> by (simp add: geo_lookup_def geo_spec_def)
      next
        case None
        then have "normalised a \<notin> set (map fst (gi_cache s))"
          by (simp add: map_of_eq_None_iff)
        with None show ?thesis
          using assms r \<open>ip = Some a\<close>
          by (auto simp: geo_lookup_def geo_spec_def geo_ok_def geo_cacheLimit_def Let_def list_all_iff)
      qed
    qed
  qed
  then show "fst (geo_lookup ip s) = geo_spec (gi_reader s) ip" "geo_ok (snd (geo_lookup ip s))"
    "gi_reader (snd (geo_lookup ip s)) = gi_reader s" by simp_all
qed

section \<open>Every history of loads and lookups\<close>

datatype geo_op = GeoLoad "(string \<Rightarrow> city_response option) option" | GeoLookup "string option"

fun geo_step :: "geo_op \<Rightarrow> geoip_state \<Rightarrow> geoip_state" where
  "geo_step (GeoLoad file) s = snd (geo_load file s)"
| "geo_step (GeoLookup ip) s = snd (geo_lookup ip s)"

text \<open>The abstract state is the database alone: the last one that could be opened.\<close>

fun geo_abs_step :: "geo_op \<Rightarrow> (string \<Rightarrow> city_response option) option \<Rightarrow> (string \<Rightarrow> city_response option) option" where
  "geo_abs_step (GeoLoad file) r = (case file of None \<Rightarrow> r | Some f \<Rightarrow> Some f)"
| "geo_abs_step (GeoLookup ip) r = r"

lemma geo_step_ok: "geo_ok s \<Longrightarrow> geo_ok (geo_step op s)"
  by (cases op) (simp_all add: geo_load_ok geo_lookup_ok(2))

lemma geo_step_reader: "geo_ok s \<Longrightarrow> gi_reader (geo_step op s) = geo_abs_step op (gi_reader s)"
proof (cases op)
  case (GeoLoad f)
  then show ?thesis by (cases f) (simp_all add: geo_load_def)
qed (simp add: geo_lookup_ok(3))

lemma geo_simulation:
  "geo_ok s \<Longrightarrow> geo_ok (fold geo_step ops s) \<and> gi_reader (fold geo_step ops s) = fold geo_abs_step ops (gi_reader s)"
proof (induction ops arbitrary: s)
  case (Cons op ops)
  have "geo_ok (geo_step op s)" "gi_reader (geo_step op s) = geo_abs_step op (gi_reader s)"
    using geo_step_ok geo_step_reader Cons.prems by blast+
  with Cons.IH show ?case by simp
qed simp

text \<open>
  The cache never shows: after any sequence of database loads (failed ones included) and
  lookups, a lookup answers exactly what the last database that could be opened says of the
  address, and the cache never holds more than its limit.  The detailed service refines the
  specification whose only state is that database.
\<close>

theorem geo_cache_transparent:
  "fst (geo_lookup ip (fold geo_step ops geo_start)) = geo_spec (fold geo_abs_step ops None) ip
   \<and> length (gi_cache (fold geo_step ops geo_start)) \<le> geo_cacheLimit"
proof -
  have "geo_ok (fold geo_step ops geo_start)"
    "gi_reader (fold geo_step ops geo_start) = fold geo_abs_step ops None"
    using geo_simulation [OF geo_start_ok, of ops] by (simp_all add: geo_start_def)
  then show ?thesis
    using geo_lookup_ok(1) [of "fold geo_step ops geo_start" ip] by (simp add: geo_ok_def)
qed

end
