(* ===== verification/Events.thy ===== *)
theory Events
  imports Api_Core Geo_Ip Sender_Ids
begin

text \<open>
  \<open>modules/events\<close>: inbound events from the other services.  The controller checks the
  signature, the service stores each event and queues a job for it, a sweep queues again what
  never finished, and the processor handles one job at a time.  Jobs handed to the queue are
  recorded; adding a job under an id still on file does nothing.
\<close>

section \<open>State\<close>

datatype event_status = EvPending | EvProcessing | EvProcessed | EvFailed | EvSkipped

record incoming_event =
  ie_eventId :: string
  ie_type :: string
  ie_source :: string
  ie_payload :: jval

record event_row =
  iv_eventId :: string
  iv_type :: string
  iv_source :: string
  iv_payload :: jval
  iv_status :: event_status
  iv_attempts :: nat
  iv_lastError :: "string option"
  iv_receivedAt :: millis
  iv_processedAt :: "millis option"

record event_job =
  ej_jobId :: string
  ej_eventId :: string

record signin_row =
  sg_surface :: string
  sg_staffId :: "string option"
  sg_accountId :: "string option"
  sg_userId :: "string option"
  sg_email :: "string option"
  sg_success :: bool
  sg_ip :: "string option"
  sg_userAgent :: "string option"
  sg_location :: geo_location
  sg_occurredAt :: millis

record events_state =
  es_rows :: "event_row list"
  es_jobs :: "event_job list"
  es_signins :: "signin_row list"
  es_geo :: geoip_state
  es_senderIds :: sid_state

definition add_job :: "string \<Rightarrow> string \<Rightarrow> event_job list \<Rightarrow> event_job list" where
  "add_job jobId eventId jobs =
     (if \<exists>j \<in> set jobs. ej_jobId j = jobId then jobs
      else jobs @ [\<lparr>ej_jobId = jobId, ej_eventId = eventId\<rparr>])"

definition find_event :: "string \<Rightarrow> event_row list \<Rightarrow> event_row option" where
  "find_event eventId rows = find_row (\<lambda>r. iv_eventId r = eventId) rows"

section \<open>Ingestion\<close>

definition new_event :: "millis \<Rightarrow> incoming_event \<Rightarrow> event_row" where
  "new_event now e = \<lparr>iv_eventId = ie_eventId e, iv_type = ie_type e, iv_source = ie_source e,
     iv_payload = ie_payload e, iv_status = EvPending, iv_attempts = 0, iv_lastError = None,
     iv_receivedAt = now, iv_processedAt = None\<rparr>"

text \<open>
  \<open>ingest\<close> looks the event up, creates its row (which the unique index refuses when another
  delivery got there first) and queues its job.  Each of the three is one step.
\<close>

definition ingest_create :: "millis \<Rightarrow> incoming_event \<Rightarrow> events_state \<Rightarrow> (events_state, unit) outcome" where
  "ingest_create now e s =
     (if find_event (ie_eventId e) (es_rows s) \<noteq> None then throws UniqueViolation s
      else returns () (s\<lparr>es_rows := es_rows s @ [new_event now e]\<rparr>))"

definition ingest_enqueue :: "incoming_event \<Rightarrow> events_state \<Rightarrow> events_state" where
  "ingest_enqueue e s = s\<lparr>es_jobs := add_job (''event-'' @ ie_eventId e) (ie_eventId e) (es_jobs s)\<rparr>"

definition ingest :: "millis \<Rightarrow> incoming_event \<Rightarrow> events_state \<Rightarrow> (events_state, bool) outcome" where
  "ingest now e s =
     (if find_event (ie_eventId e) (es_rows s) \<noteq> None then returns True s
      else (case ingest_create now e s of (Inl err, s1) \<Rightarrow> throws err s1
        | (Inr _, s1) \<Rightarrow> returns False (ingest_enqueue e s1)))"

text \<open>
  \<open>ingestBatch\<close> starts every ingest together: all the look-ups are answered before the first
  row is created, then each delivery goes on by itself; the batch fails if one of them does.
\<close>

fun batch_rest :: "millis \<Rightarrow> (incoming_event \<times> bool) list \<Rightarrow> events_state \<Rightarrow> (events_state, unit) outcome" where
  "batch_rest now [] s = returns () s"
| "batch_rest now ((e, known) # es) s =
     (if known then batch_rest now es s
      else (case ingest_create now e s of
          (Inl err, s1) \<Rightarrow> (Inl err, snd (batch_rest now es s1))
        | (Inr _, s1) \<Rightarrow> batch_rest now es (ingest_enqueue e s1)))"

definition ingestBatch :: "millis \<Rightarrow> incoming_event list \<Rightarrow> events_state \<Rightarrow> (events_state, nat \<times> nat) outcome" where
  "ingestBatch now events s =
     (let looked = map (\<lambda>e. (e, find_event (ie_eventId e) (es_rows s) \<noteq> None)) events in
      (case batch_rest now looked s of (Inl err, s1) \<Rightarrow> throws err s1
       | (Inr _, s1) \<Rightarrow> returns (count_where (\<lambda>(e, known). \<not> known) looked, count_where snd looked) s1))"

text \<open>The controller: the headers, the signature over the raw body, and a non-empty list.\<close>

definition ingest_request ::
  "(string \<Rightarrow> string \<Rightarrow> string) \<Rightarrow> string \<Rightarrow> millis \<Rightarrow> string option \<Rightarrow> string option \<Rightarrow> string
     \<Rightarrow> incoming_event list option \<Rightarrow> events_state \<Rightarrow> (events_state, nat \<times> nat) outcome" where
  "ingest_request hmac secret now signature timestamp raw events s =
     (if \<not> truthy signature \<or> \<not> truthy timestamp
      then throws (BadRequest ''Signature headers are required'') s
      else if \<not> verifySignature hmac secret now (the timestamp) ''POST'' ''/events/ingest'' raw (the signature)
      then throws (BadRequest ''Invalid or expired signature'') s
      else (case events of None \<Rightarrow> throws (BadRequest ''events must be a non-empty array'') s
        | Some es \<Rightarrow> if es = [] then throws (BadRequest ''events must be a non-empty array'') s
            else ingestBatch now es s))"

section \<open>The sweep\<close>

definition stuck :: "millis \<Rightarrow> event_row \<Rightarrow> bool" where
  "stuck now r \<longleftrightarrow> (iv_status r = EvPending \<or> iv_status r = EvProcessing)
     \<and> iv_receivedAt r < now - 2 * 60000 \<and> iv_attempts r < 10"

definition sweep_take :: nat where
  "sweep_take = 500"

definition retry_job_id :: "millis \<Rightarrow> string \<Rightarrow> string" where
  "retry_job_id now eventId = ''event-'' @ eventId @ ''-retry-'' @ dec (nat now)"

definition retry_job :: "millis \<Rightarrow> string \<Rightarrow> event_job list \<Rightarrow> event_job list" where
  "retry_job now eventId jobs = add_job (retry_job_id now eventId) eventId jobs"

definition event_sweep :: "millis \<Rightarrow> events_state \<Rightarrow> nat \<times> events_state" where
  "event_sweep now s =
     (let rows = take sweep_take (filter (stuck now) (es_rows s)) in
      (length rows, s\<lparr>es_jobs := fold (\<lambda>r. retry_job now (iv_eventId r)) rows (es_jobs s)\<rparr>))"

definition event_stats :: "events_state \<Rightarrow> (event_status \<times> nat) list" where
  "event_stats s =
     map (\<lambda>st. (st, count_where (\<lambda>r. iv_status r = st) (es_rows s))) (js_set (map iv_status (es_rows s)))"

section \<open>Handling\<close>

definition PAYMENT_FAILURE_SPIKE :: nat where
  "PAYMENT_FAILURE_SPIKE = 20"

text \<open>A payload's field where the column wants a text: absent and null are none, anything else fails.\<close>

definition text_field :: "jval \<Rightarrow> string \<Rightarrow> string option result" where
  "text_field p k = (case field_of p k of None \<Rightarrow> Inr None | Some JvNull \<Rightarrow> Inr None
     | Some (JvStr t) \<Rightarrow> Inr (Some t) | Some _ \<Rightarrow> Inl (PlainError ''Invalid value provided''))"

fun jval_truthy :: "jval \<Rightarrow> bool" where
  "jval_truthy JvNull = False"
| "jval_truthy (JvBool b) = b"
| "jval_truthy (JvNum n) = (n \<noteq> NaN \<and> num_int n \<noteq> Some 0)"
| "jval_truthy (JvStr t) = (t \<noteq> [])"
| "jval_truthy _ = True"

definition occurred_at :: "(jval \<Rightarrow> millis option) \<Rightarrow> millis \<Rightarrow> jval \<Rightarrow> millis result" where
  "occurred_at to_date now p =
     (case field_of p ''occurredAt'' of None \<Rightarrow> Inr now
      | Some v \<Rightarrow> if jval_truthy v
          then (case to_date v of None \<Rightarrow> Inl (PlainError ''Invalid value provided'') | Some t \<Rightarrow> Inr t)
          else Inr now)"

definition handle_signin :: "(jval \<Rightarrow> millis option) \<Rightarrow> millis \<Rightarrow> jval \<Rightarrow> events_state \<Rightarrow> (events_state, unit) outcome" where
  "handle_signin to_date now p s =
     (case (text_field p ''ip'', text_field p ''accountId'', text_field p ''userId'', text_field p ''email'',
            text_field p ''userAgent'', occurred_at to_date now p) of
        (Inr ip, Inr accountId, Inr userId, Inr email, Inr userAgent, Inr occurredAt) \<Rightarrow>
          (let (geo, g) = geo_lookup ip (es_geo s) in
           returns () (s\<lparr>es_geo := g, es_signins := es_signins s @
             [\<lparr>sg_surface = ''CUSTOMER_APP'', sg_staffId = None, sg_accountId = accountId, sg_userId = userId, sg_email = email,
               sg_success = (field_of p ''success'' \<noteq> Some (JvBool False)), sg_ip = ip,
               sg_userAgent = userAgent, sg_location = geo, sg_occurredAt = occurredAt\<rparr>]\<rparr>))
      | _ \<Rightarrow> throws (PlainError ''Invalid value provided'') s)"

definition spike_alert :: "nat \<Rightarrow> staff_alert" where
  "spike_alert recent = \<lparr>al_type = ''payment.failure_spike'', al_severity = HIGH,
     al_title = dec recent @ '' failed payments in the last hour'',
     al_body = Some ''Check Paystack status and the checkout flow'', al_link = Some ''/finance/cash''\<rparr>"

definition recent_failures :: "millis \<Rightarrow> event_row list \<Rightarrow> nat" where
  "recent_failures now rows =
     count_where (\<lambda>r. iv_type r = ''payment.failed'' \<and> now - 3600000 \<le> iv_receivedAt r) rows"

definition handle_payment_failed :: "millis \<Rightarrow> events_state \<Rightarrow> events_state" where
  "handle_payment_failed now s =
     (let recent = recent_failures now (es_rows s) in
      if recent = PAYMENT_FAILURE_SPIKE
      then s\<lparr>es_senderIds := (es_senderIds s)\<lparr>ss_inbox :=
             snd (broadcastToPermission now ''finance.read'' (spike_alert recent) (ss_inbox (es_senderIds s)))\<rparr>\<rparr>
      else s)"

text \<open>\<open>newId\<close> is the id the database gives a review created for an application.\<close>

definition handle_submitted ::
  "(millis \<Rightarrow> string) \<Rightarrow> (string \<Rightarrow> string) \<Rightarrow> millis \<Rightarrow> jval \<Rightarrow> events_state \<Rightarrow> (events_state, unit) outcome" where
  "handle_submitted toISO newId now p s =
     (case field_of p ''applicationId'' of
        Some (JvStr a) \<Rightarrow>
          (case ensureReview toISO now (newId a) a True (es_senderIds s) of
             (Inl e, sid) \<Rightarrow> throws e (s\<lparr>es_senderIds := sid\<rparr>)
           | (Inr _, sid) \<Rightarrow> returns () (s\<lparr>es_senderIds := sid\<rparr>))
      | _ \<Rightarrow> throws (PlainError ''Invalid value provided'') s)"

definition handle_event ::
  "(millis \<Rightarrow> string) \<Rightarrow> (string \<Rightarrow> string) \<Rightarrow> (jval \<Rightarrow> millis option) \<Rightarrow> millis \<Rightarrow> string \<Rightarrow> jval
     \<Rightarrow> events_state \<Rightarrow> (events_state, unit) outcome" where
  "handle_event toISO newId to_date now ty p s =
     (if ty \<in> {''usage.recorded'', ''delivery.receipt'', ''account.created'', ''subscription.changed''}
      then returns () s
      else if ty = ''auth.signin'' then handle_signin to_date now p s
      else if ty = ''senderid.submitted'' then handle_submitted toISO newId now p s
      else if ty = ''payment.failed'' then returns () (handle_payment_failed now s)
      else returns () s)"

section \<open>The processor\<close>

datatype event_outcome = SkippedMissing | SkippedProcessed | Handled string

definition set_event :: "string \<Rightarrow> (event_row \<Rightarrow> event_row) \<Rightarrow> events_state \<Rightarrow> events_state" where
  "set_event eventId f s = s\<lparr>es_rows := update_where (\<lambda>r. iv_eventId r = eventId) f (es_rows s)\<rparr>"

definition start_event :: "event_row \<Rightarrow> event_row" where
  "start_event r = r\<lparr>iv_status := EvProcessing, iv_attempts := iv_attempts r + 1\<rparr>"

definition finish_event :: "millis \<Rightarrow> event_row \<Rightarrow> event_row" where
  "finish_event now r = r\<lparr>iv_status := EvProcessed, iv_processedAt := Some now, iv_lastError := None\<rparr>"

definition fail_event :: "http_error \<Rightarrow> event_row \<Rightarrow> event_row" where
  "fail_event e r = r\<lparr>iv_status := EvFailed, iv_lastError := Some (take 500 (error_message e))\<rparr>"

definition process_event ::
  "(millis \<Rightarrow> string) \<Rightarrow> (string \<Rightarrow> string) \<Rightarrow> (jval \<Rightarrow> millis option) \<Rightarrow> millis \<Rightarrow> string
     \<Rightarrow> events_state \<Rightarrow> (events_state, event_outcome) outcome" where
  "process_event toISO newId to_date now eventId s =
     (case find_event eventId (es_rows s) of
        None \<Rightarrow> returns SkippedMissing s
      | Some event \<Rightarrow>
          if iv_status event = EvProcessed then returns SkippedProcessed s
          else (let s1 = set_event eventId start_event s in
            (case handle_event toISO newId to_date now (iv_type event) (iv_payload event) s1 of
               (Inr _, s2) \<Rightarrow> returns (Handled (iv_type event)) (set_event eventId (finish_event now) s2)
             | (Inl e, s2) \<Rightarrow> throws e (set_event eventId (fail_event e) s2))))"

end
