(* ===== verification/Event_Facts.thy ===== *)
theory Event_Facts
  imports Events Sender_Id_Facts
begin

text \<open>
  What the event pipeline guarantees: only signed requests change anything, an event is stored
  once whatever deliveries run together, stored events keep what arrived, the sweep queues again
  what never finished, and a handled event is not handled again.
\<close>

section \<open>Tables\<close>

lemma find_event_None_iff: "find_event i rows = None \<longleftrightarrow> i \<notin> iv_eventId ` set rows"
  by (auto simp: find_event_def find_row_None_iff)

lemma add_job_on_file: "\<exists>j \<in> set (add_job jobId i jobs). ej_jobId j = jobId"
  by (auto simp: add_job_def)

lemma add_job_mono: "set jobs \<subseteq> set (add_job jobId i jobs)"
  by (auto simp: add_job_def)

lemma add_job_events: "ej_eventId ` set (add_job jobId i jobs) \<subseteq> insert i (ej_eventId ` set jobs)"
  by (auto simp: add_job_def)

text \<open>What arrived: the parts of a row no handler changes.\<close>

definition arrived :: "event_row \<Rightarrow> string \<times> string \<times> string \<times> jval \<times> millis" where
  "arrived r = (iv_eventId r, iv_type r, iv_source r, iv_payload r, iv_receivedAt r)"

lemma arrived_status [simp]:
  "arrived (start_event r) = arrived r" "arrived (finish_event now r) = arrived r" "arrived (fail_event e r) = arrived r"
  by (simp_all add: arrived_def start_event_def finish_event_def fail_event_def)

lemma set_event_arrived:
  "(\<And>r. arrived (f r) = arrived r) \<Longrightarrow> map arrived (es_rows (set_event i f s)) = map arrived (es_rows s)"
  by (simp add: set_event_def map_update_where)

lemma arrived_ids: "map arrived rows = map arrived rows' \<Longrightarrow> map iv_eventId rows = map iv_eventId rows'"
proof -
  assume "map arrived rows = map arrived rows'"
  then have "map (fst \<circ> arrived) rows = map (fst \<circ> arrived) rows'" by (metis map_map)
  then show ?thesis by (simp add: arrived_def [abs_def] o_def)
qed

lemma handle_event_frame:
  "es_rows (snd (handle_event toISO newId to_date now ty p s)) = es_rows s"
  "es_jobs (snd (handle_event toISO newId to_date now ty p s)) = es_jobs s"
  by (simp_all add: handle_event_def handle_signin_def handle_submitted_def handle_payment_failed_def Let_def
      split: option.split jval.split sum.split prod.split)

lemma process_event_frame:
  "map arrived (es_rows (snd (process_event toISO newId to_date now i s))) = map arrived (es_rows s)"
  "es_jobs (snd (process_event toISO newId to_date now i s)) = es_jobs s"
proof -
  let ?h = "\<lambda>ev. handle_event toISO newId to_date now (iv_type ev) (iv_payload ev) (set_event i start_event s)"
  have r: "es_rows (snd (?h ev)) = es_rows (set_event i start_event s)"
    "es_jobs (snd (?h ev)) = es_jobs s" for ev
    by (simp_all add: handle_event_frame set_event_def)
  have "map arrived (es_rows (snd (process_event toISO newId to_date now i s))) = map arrived (es_rows s)
      \<and> es_jobs (snd (process_event toISO newId to_date now i s)) = es_jobs s"
  proof (cases "find_event i (es_rows s)")
    case (Some ev)
    obtain h s2 where hs: "?h ev = (h, s2)" by fastforce
    with r [of ev] have f: "map arrived (es_rows s2) = map arrived (es_rows s)" "es_jobs s2 = es_jobs s"
      by (simp_all add: set_event_arrived)
    have "map arrived (es_rows (set_event i (finish_event now) s2)) = map arrived (es_rows s)"
      "map arrived (es_rows (set_event i (fail_event e) s2)) = map arrived (es_rows s)"
      "es_jobs (set_event i g s2) = es_jobs s" for e g
      using f by (simp_all add: set_event_arrived) (simp add: set_event_def)
    then show ?thesis
      using Some hs by (simp add: process_event_def Let_def split: sum.split)
  qed (simp add: process_event_def)
  then show "map arrived (es_rows (snd (process_event toISO newId to_date now i s))) = map arrived (es_rows s)"
    "es_jobs (snd (process_event toISO newId to_date now i s)) = es_jobs s" by simp_all
qed

section \<open>Only signed requests\<close>


definition demo_event :: "string \<Rightarrow> string \<Rightarrow> jval \<Rightarrow> incoming_event" where
  "demo_event i ty p = \<lparr>ie_eventId = i, ie_type = ty, ie_source = ''api-core'', ie_payload = p\<rparr>"

definition demo_sid :: "application list \<Rightarrow> sid_state" where
  "demo_sid apps = \<lparr>ss_reviews = [], ss_apps = apps, ss_accounts = (\<lambda>_. None), ss_userNotes = [],
     ss_inbox = \<lparr>ib_staff = [], ib_roles = [], ib_notes = [], ib_nextNote = 0, ib_pushed = [], ib_mails = []\<rparr>,
     ss_audit = [], ss_cacheDel = [], ss_nudged = []\<rparr>"

definition demo_events :: "event_row list \<Rightarrow> application list \<Rightarrow> events_state" where
  "demo_events rows apps = \<lparr>es_rows = rows, es_jobs = [], es_signins = [], es_geo = geo_start,
     es_senderIds = demo_sid apps\<rparr>"

lemma ingest_one_changes:
  assumes "verifySignature hmac secret now t ''POST'' ''/events/ingest'' raw g" "t \<noteq> []" "g \<noteq> []"
    "find_event (ie_eventId e) (es_rows s) = None"
  shows "es_rows (snd (ingest_request hmac secret now (Some g) (Some t) raw (Some [e]) s)) = es_rows s @ [new_event now e]"
  using assms by (simp add: ingest_request_def ingestBatch_def ingest_create_def ingest_enqueue_def Let_def)


section \<open>Deliveries that run together\<close>

text \<open>
  The steps of the service: a delivery arrives (alone or in a batch), looks its event up, creates
  the row, queues the job; a sweep runs; a job is processed; the process stops and forgets the
  deliveries it was serving.  Deliveries interleave freely.
\<close>

datatype delivery = Looking incoming_event | Creating incoming_event | Queueing incoming_event

record events_world =
  ew_state :: events_state
  ew_open :: "delivery list"

inductive events_step ::
  "(millis \<Rightarrow> string) \<Rightarrow> (string \<Rightarrow> string) \<Rightarrow> (jval \<Rightarrow> millis option) \<Rightarrow> events_world \<Rightarrow> events_world \<Rightarrow> bool"
  for toISO newId to_date where
  arrive: "events_step toISO newId to_date w (w\<lparr>ew_open := Looking e # ew_open w\<rparr>)"
| looked: "ew_open w = a @ Looking e # b \<Longrightarrow>
    events_step toISO newId to_date w (w\<lparr>ew_open := a @
      (if find_event (ie_eventId e) (es_rows (ew_state w)) \<noteq> None then [] else [Creating e]) @ b\<rparr>)"
| created: "ew_open w = a @ Creating e # b \<Longrightarrow> ingest_create now e (ew_state w) = (Inr (), s') \<Longrightarrow>
    events_step toISO newId to_date w (w\<lparr>ew_state := s', ew_open := a @ Queueing e # b\<rparr>)"
| refused: "ew_open w = a @ Creating e # b \<Longrightarrow> ingest_create now e (ew_state w) = (Inl err, s') \<Longrightarrow>
    events_step toISO newId to_date w (w\<lparr>ew_state := s', ew_open := a @ b\<rparr>)"
| queued: "ew_open w = a @ Queueing e # b \<Longrightarrow>
    events_step toISO newId to_date w (w\<lparr>ew_state := ingest_enqueue e (ew_state w), ew_open := a @ b\<rparr>)"
| swept: "events_step toISO newId to_date w (w\<lparr>ew_state := snd (event_sweep now (ew_state w))\<rparr>)"
| processed: "j \<in> set (es_jobs (ew_state w)) \<Longrightarrow>
    events_step toISO newId to_date w (w\<lparr>ew_state :=
      snd (process_event toISO newId to_date now (ej_eventId j) (ew_state w))\<rparr>)"
| stopped: "events_step toISO newId to_date w (w\<lparr>ew_open := []\<rparr>)"

text \<open>
  Events are stored once; every job on file is for a stored event, and every delivery about to
  queue its job has stored its event.
\<close>

definition events_ok :: "events_world \<Rightarrow> bool" where
  "events_ok w \<longleftrightarrow> distinct (map iv_eventId (es_rows (ew_state w)))
     \<and> ej_eventId ` set (es_jobs (ew_state w)) \<subseteq> iv_eventId ` set (es_rows (ew_state w))
     \<and> (\<forall>e. Queueing e \<in> set (ew_open w) \<longrightarrow> ie_eventId e \<in> iv_eventId ` set (es_rows (ew_state w)))"

text \<open>Rows are only added, and what arrived with them stays.\<close>

definition kept_rows :: "events_world \<Rightarrow> events_world \<Rightarrow> bool" where
  "kept_rows w w' \<longleftrightarrow> (\<exists>rest. map arrived (es_rows (ew_state w')) = map arrived (es_rows (ew_state w)) @ rest)"

lemma kept_rows_refl: "map arrived (es_rows (ew_state w')) = map arrived (es_rows (ew_state w)) \<Longrightarrow> kept_rows w w'"
  by (simp add: kept_rows_def)

lemma ids_kept:
  assumes "map arrived rows = map arrived rows'"
  shows "distinct (map iv_eventId rows) = distinct (map iv_eventId rows')"
    "iv_eventId ` set rows = iv_eventId ` set rows'"
  using arrived_ids [OF assms] by (simp_all flip: set_map)

lemma retry_jobs_events:
  "ej_eventId ` set (fold (\<lambda>r. retry_job now (iv_eventId r)) rows jobs) \<subseteq> iv_eventId ` set rows \<union> ej_eventId ` set jobs"
proof (induction rows arbitrary: jobs)
  case (Cons r rows)
  have "ej_eventId ` set (retry_job now (iv_eventId r) jobs) \<subseteq> insert (iv_eventId r) (ej_eventId ` set jobs)"
    by (simp add: retry_job_def add_job_events)
  with Cons.IH [of "retry_job now (iv_eventId r) jobs"] show ?case by auto
qed simp

lemma events_step_ok:
  assumes "events_step toISO newId to_date w w'" "events_ok w"
  shows "events_ok w' \<and> kept_rows w w'"
  using assms
proof (cases rule: events_step.cases)
  case (arrive e)
  then show ?thesis using assms(2) by (auto simp: events_ok_def kept_rows_def)
next
  case (looked a e b)
  then show ?thesis using assms(2) by (auto simp: events_ok_def kept_rows_def)
next
  case (created a e b now s')
  then have "ie_eventId e \<notin> iv_eventId ` set (es_rows (ew_state w))"
    "s' = (ew_state w)\<lparr>es_rows := es_rows (ew_state w) @ [new_event now e]\<rparr>"
    by (auto simp: ingest_create_def find_event_None_iff split: if_splits)
  then show ?thesis using created(1,2) assms(2)
    by (auto simp: events_ok_def kept_rows_def new_event_def)
next
  case (refused a e b now err s')
  then have "s' = ew_state w" by (auto simp: ingest_create_def split: if_splits)
  then show ?thesis using refused(1,2) assms(2) by (auto simp: events_ok_def kept_rows_def)
next
  case (queued a e b)
  then have "ie_eventId e \<in> iv_eventId ` set (es_rows (ew_state w))"
    using assms(2) by (auto simp: events_ok_def)
  moreover have "ej_eventId ` set (es_jobs (ew_state w)) \<subseteq> iv_eventId ` set (es_rows (ew_state w))"
    using assms(2) by (simp add: events_ok_def)
  ultimately have "ej_eventId ` set (add_job (''event-'' @ ie_eventId e) (ie_eventId e) (es_jobs (ew_state w)))
      \<subseteq> iv_eventId ` set (es_rows (ew_state w))"
    by (intro subset_trans [OF add_job_events]) simp
  moreover have "es_rows (ingest_enqueue e (ew_state w)) = es_rows (ew_state w)"
    by (simp add: ingest_enqueue_def)
  ultimately show ?thesis using queued assms(2)
    by (auto simp: events_ok_def kept_rows_def ingest_enqueue_def simp del: append.simps)
next
  case (swept now)
  have "ej_eventId ` set (es_jobs (snd (event_sweep now (ew_state w)))) \<subseteq>
      iv_eventId ` set (es_rows (ew_state w)) \<union> ej_eventId ` set (es_jobs (ew_state w))"
    using retry_jobs_events [of now "take sweep_take (filter (stuck now) (es_rows (ew_state w)))" "es_jobs (ew_state w)"]
    by (auto simp: event_sweep_def Let_def dest!: in_set_takeD)
  moreover have "es_rows (snd (event_sweep now (ew_state w))) = es_rows (ew_state w)"
    by (simp add: event_sweep_def Let_def)
  ultimately show ?thesis using swept assms(2)
    by (auto simp: events_ok_def kept_rows_def)
next
  case (processed j now)
  let ?s' = "snd (process_event toISO newId to_date now (ej_eventId j) (ew_state w))"
  have m: "map arrived (es_rows ?s') = map arrived (es_rows (ew_state w))" "es_jobs ?s' = es_jobs (ew_state w)"
    by (rule process_event_frame)+
  from ids_kept [OF m(1)] m show ?thesis
    using processed(1) assms(2) by (simp add: events_ok_def kept_rows_def)
next
  case stopped
  then show ?thesis using assms(2) by (auto simp: events_ok_def kept_rows_def)
qed

lemma kept_rows_trans: "kept_rows a b \<Longrightarrow> kept_rows b c \<Longrightarrow> kept_rows a c"
  by (auto simp: kept_rows_def)

lemma events_run_ok:
  assumes "(events_step toISO newId to_date)\<^sup>*\<^sup>* w w'" "events_ok w"
  shows "events_ok w' \<and> kept_rows w w'"
  using assms
proof (induction rule: rtranclp_induct)
  case base
  then show ?case by (simp add: kept_rows_def)
next
  case (step x y)
  then show ?case using events_step_ok kept_rows_trans by blast
qed


definition demo_world :: "event_row list \<Rightarrow> event_job list \<Rightarrow> delivery list \<Rightarrow> events_world" where
  "demo_world rows jobs ds = \<lparr>ew_state = (demo_events rows [])\<lparr>es_jobs := jobs\<rparr>, ew_open = ds\<rparr>"

lemma demo_double_delivery:
  fixes e :: incoming_event
  defines "row \<equiv> new_event 5 e" and "job \<equiv> \<lparr>ej_jobId = ''event-'' @ ie_eventId e, ej_eventId = ie_eventId e\<rparr>"
  shows "(events_step toISO newId to_date)\<^sup>*\<^sup>* (demo_world [] [] []) (demo_world [row] [job] [])"
proof -
  let ?R = "events_step toISO newId to_date"
  have f: "find_event (ie_eventId e) [] = None" "find_event (ie_eventId e) [row] = Some row"
    by (simp_all add: find_event_def row_def new_event_def)
  have 1: "?R (demo_world [] [] []) (demo_world [] [] [Looking e])"
    using events_step.arrive [of toISO newId to_date "demo_world [] [] []" e] by (simp add: demo_world_def)
  have 2: "?R (demo_world [] [] [Looking e]) (demo_world [] [] [Looking e, Looking e])"
    using events_step.arrive [of toISO newId to_date "demo_world [] [] [Looking e]" e] by (simp add: demo_world_def)
  have 3: "?R (demo_world [] [] [Looking e, Looking e]) (demo_world [] [] [Creating e, Looking e])"
    using events_step.looked [of "demo_world [] [] [Looking e, Looking e]" "[]" e "[Looking e]" toISO newId to_date] f
    by (simp add: demo_world_def demo_events_def)
  have 4: "?R (demo_world [] [] [Creating e, Looking e]) (demo_world [] [] [Creating e, Creating e])"
    using events_step.looked [of "demo_world [] [] [Creating e, Looking e]" "[Creating e]" e "[]" toISO newId to_date] f
    by (simp add: demo_world_def demo_events_def)
  have 5: "?R (demo_world [] [] [Creating e, Creating e]) (demo_world [row] [] [Queueing e, Creating e])"
    using events_step.created [of "demo_world [] [] [Creating e, Creating e]" "[]" e "[Creating e]" 5
        "(demo_events [] [])\<lparr>es_rows := [row]\<rparr>" toISO newId to_date] f
    by (simp add: demo_world_def demo_events_def ingest_create_def row_def)
  have 6: "?R (demo_world [row] [] [Queueing e, Creating e]) (demo_world [row] [] [Queueing e])"
    using events_step.refused [of "demo_world [row] [] [Queueing e, Creating e]" "[Queueing e]" e "[]" 6
        UniqueViolation "demo_events [row] []" toISO newId to_date] f
    by (simp add: demo_world_def demo_events_def ingest_create_def)
  have 7: "?R (demo_world [row] [] [Queueing e]) (demo_world [row] [job] [])"
    using events_step.queued [of "demo_world [row] [] [Queueing e]" "[]" e "[]" toISO newId to_date]
    by (simp add: demo_world_def demo_events_def ingest_enqueue_def add_job_def job_def)
  from 1 2 3 4 5 6 7 show ?thesis
    by (meson rtranclp.rtrancl_refl rtranclp.rtrancl_into_rtrancl)
qed


section \<open>Sweeping\<close>

lemma retry_job_on_file: "\<exists>j \<in> set (retry_job now i jobs). ej_jobId j = retry_job_id now i"
  unfolding retry_job_def by (rule add_job_on_file)

lemma retry_jobs_on_file:
  "r \<in> set rows \<Longrightarrow> \<exists>j \<in> set (fold (\<lambda>r. retry_job now (iv_eventId r)) rows jobs).
     ej_jobId j = retry_job_id now (iv_eventId r)"
proof (induction rows arbitrary: jobs rule: rev_induct)
  case (snoc x rows)
  let ?before = "fold (\<lambda>r. retry_job now (iv_eventId r)) rows jobs"
  have mono: "set ?before \<subseteq> set (retry_job now (iv_eventId x) ?before)"
    unfolding retry_job_def by (rule add_job_mono)
  show ?case
  proof (cases "r = x")
    case True
    then show ?thesis
      using retry_job_on_file [of now "iv_eventId x" ?before] by simp
  next
    case False
    with snoc obtain j where "j \<in> set ?before" "ej_jobId j = retry_job_id now (iv_eventId r)"
      by auto
    with mono show ?thesis by auto
  qed
qed simp

lemma sweep_requeues:
  assumes "r \<in> set (es_rows s)" "stuck now r" "count_where (stuck now) (es_rows s) \<le> sweep_take"
  shows "\<exists>j \<in> set (es_jobs (snd (event_sweep now s))). ej_jobId j = retry_job_id now (iv_eventId r)"
proof -
  have "take sweep_take (filter (stuck now) (es_rows s)) = filter (stuck now) (es_rows s)"
    using assms(3) by (simp add: count_where_def)
  then show ?thesis
    using retry_jobs_on_file [of r "filter (stuck now) (es_rows s)" now "es_jobs s"] assms(1,2)
    by (simp add: event_sweep_def Let_def del: append.simps)
qed

section \<open>Processing\<close>

lemma find_event_set:
  "find_event i (es_rows (set_event i f s)) = map_option f (find_event i (es_rows s))"
  if "\<And>r. iv_eventId (f r) = iv_eventId r"
proof -
  have "find_row (\<lambda>r. iv_eventId r = i) (update_where (\<lambda>r. iv_eventId r = i) f rows) =
      map_option f (find_row (\<lambda>r. iv_eventId r = i) rows)" for rows
    using that by (induction rows) auto
  then show ?thesis by (simp add: find_event_def set_event_def)
qed

lemma event_update_ids [simp]:
  "iv_eventId (start_event r) = iv_eventId r" "iv_eventId (finish_event now r) = iv_eventId r"
  "iv_eventId (fail_event e r) = iv_eventId r"
  by (simp_all add: start_event_def finish_event_def fail_event_def)

lemma process_event_done:
  assumes "process_event toISO newId to_date now i s = (Inr o', s')" "find_event i (es_rows s) = Some ev"
  shows "\<exists>ev'. find_event i (es_rows s') = Some ev' \<and> iv_status ev' = EvProcessed"
proof (cases "iv_status ev = EvProcessed")
  case True
  then show ?thesis using assms by (auto simp: process_event_def)
next
  case False
  let ?s1 = "set_event i start_event s"
  obtain s2 where h: "handle_event toISO newId to_date now (iv_type ev) (iv_payload ev) ?s1 = (Inr (), s2)"
    "s' = set_event i (finish_event now) s2"
    using assms False by (auto simp: process_event_def Let_def split: sum.splits prod.splits)
  have "es_rows s2 = es_rows ?s1"
    using handle_event_frame(1) [of toISO newId to_date now "iv_type ev" "iv_payload ev" ?s1] h(1) by simp
  then have "find_event i (es_rows s') = Some (finish_event now (start_event ev))"
    using h(2) assms(2) by (simp add: find_event_set)
  then show ?thesis by (simp add: finish_event_def)
qed

text \<open>Handling a finished event again does nothing.\<close>

lemma process_event_again:
  assumes "process_event toISO newId to_date now i s = (Inr o', s')" "find_event i (es_rows s) = Some ev"
  shows "process_event toISO newId to_date now' i s' = (Inr SkippedProcessed, s')"
  using process_event_done [OF assms] by (auto simp: process_event_def)

text \<open>
  A sender ID application whose submission arrives as an event gets its review: processing
  the event (application known, not reviewed yet, its status one the queue maps) succeeds, adds
  exactly one review for that application with the mapped status and due one SLA after it was
  submitted, marks the event processed, and processing the same event again, at any time, changes
  nothing.
\<close>

theorem submitted_event_opens_review:
  assumes "find_event i (es_rows s) = Some ev" "iv_status ev \<noteq> EvProcessed"
    "iv_type ev = ''senderid.submitted''" "field_of (iv_payload ev) ''applicationId'' = Some (JvStr (ap_id a))"
    "find_review_of (ap_id a) (es_senderIds s) = None" "find_app (ap_id a) (es_senderIds s) = Some a"
    "toReviewStatus (ap_status a) = Some st"
  shows "\<exists>s' ev'. process_event toISO newId to_date now i s = (Inr (Handled ''senderid.submitted''), s')
    \<and> ss_reviews (es_senderIds s') = ss_reviews (es_senderIds s) @ [new_review now (newId (ap_id a)) a st]
    \<and> find_event i (es_rows s') = Some ev' \<and> iv_status ev' = EvProcessed \<and> iv_attempts ev' = iv_attempts ev + 1
    \<and> process_event toISO newId to_date now' i s' = (Inr SkippedProcessed, s')"
proof -
  let ?s1 = "set_event i start_event s"
  have sid: "es_senderIds ?s1 = es_senderIds s" by (simp add: set_event_def)
  obtain ib where e: "ensureReview toISO now (newId (ap_id a)) (ap_id a) True (es_senderIds s) =
      returns (Some (new_review now (newId (ap_id a)) a st))
        ((es_senderIds s)\<lparr>ss_reviews := ss_reviews (es_senderIds s) @ [new_review now (newId (ap_id a)) a st], ss_inbox := ib\<rparr>)"
    using ensureReview_missing [OF assms(5-7)] by blast
  let ?s2 = "?s1\<lparr>es_senderIds := (es_senderIds s)\<lparr>ss_reviews := ss_reviews (es_senderIds s) @ [new_review now (newId (ap_id a)) a st],
    ss_inbox := ib\<rparr>\<rparr>"
  let ?s' = "set_event i (finish_event now) ?s2"
  have h: "handle_event toISO newId to_date now (iv_type ev) (iv_payload ev) ?s1 = (Inr (), ?s2)"
    using assms(3,4) e sid by (simp add: handle_event_def handle_submitted_def)
  have p: "process_event toISO newId to_date now i s = (Inr (Handled ''senderid.submitted''), ?s')"
    using assms(1-3) h by (simp add: process_event_def Let_def)
  have f: "find_event i (es_rows ?s') = Some (finish_event now (start_event ev))"
    using assms(1) by (simp add: find_event_set)
  have "ss_reviews (es_senderIds ?s') = ss_reviews (es_senderIds s) @ [new_review now (newId (ap_id a)) a st]"
    by (simp add: set_event_def)
  moreover have "iv_status (finish_event now (start_event ev)) = EvProcessed"
    "iv_attempts (finish_event now (start_event ev)) = iv_attempts ev + 1"
    by (simp_all add: finish_event_def start_event_def)
  ultimately show ?thesis
    using p f process_event_again [OF p assms(1)] by blast
qed

definition demo_app :: application where
  "demo_app = \<lparr>ap_id = ''a1'', ap_accountId = ''acc1'', ap_projectId = ''p1'', ap_senderId = ''SHOP'',
     ap_status = ''PENDING_REVIEW'', ap_submittedAt = Some 100, ap_createdAt = 50, ap_updatedAt = 100,
     ap_reviewedAt = None, ap_rejectionReason = None\<rparr>"

definition demo_submitted :: events_state where
  "demo_submitted = demo_events [new_event 100 (demo_event ''e1'' ''senderid.submitted''
     (JvObj [(''applicationId'', JvStr ''a1'')]))] [demo_app]"

theorem submitted_event_opens_review_witness:
  "\<exists>s' ev'. process_event (\<lambda>_. []) (\<lambda>a. ''r-'' @ a) (\<lambda>_. None) 200 ''e1'' demo_submitted
      = (Inr (Handled ''senderid.submitted''), s')
    \<and> ss_reviews (es_senderIds s') = [new_review 200 ''r-a1'' demo_app RS_SUBMITTED]
    \<and> find_event ''e1'' (es_rows s') = Some ev' \<and> iv_status ev' = EvProcessed \<and> iv_attempts ev' = 1
    \<and> process_event (\<lambda>_. []) (\<lambda>a. ''r-'' @ a) (\<lambda>_. None) 900 ''e1'' s' = (Inr SkippedProcessed, s')"
proof -
  let ?ev = "new_event 100 (demo_event ''e1'' ''senderid.submitted'' (JvObj [(''applicationId'', JvStr ''a1'')]))"
  have 1: "find_event ''e1'' (es_rows demo_submitted) = Some ?ev"
    by (simp add: demo_submitted_def demo_events_def find_event_def new_event_def demo_event_def)
  have 2: "iv_status ?ev \<noteq> EvProcessed" "iv_type ?ev = ''senderid.submitted''"
    "field_of (iv_payload ?ev) ''applicationId'' = Some (JvStr (ap_id demo_app))" "iv_attempts ?ev = 0"
    by (simp_all add: new_event_def demo_event_def demo_app_def)
  have 3: "find_review_of (ap_id demo_app) (es_senderIds demo_submitted) = None"
    "find_app (ap_id demo_app) (es_senderIds demo_submitted) = Some demo_app"
    by (simp_all add: demo_submitted_def demo_events_def demo_sid_def demo_app_def)
  have 4: "toReviewStatus (ap_status demo_app) = Some RS_SUBMITTED" by (simp add: demo_app_def)
  have 5: "ss_reviews (es_senderIds demo_submitted) = []" "ap_id demo_app = ''a1''"
    by (simp_all add: demo_submitted_def demo_events_def demo_sid_def demo_app_def)
  show ?thesis
    using submitted_event_opens_review [OF 1 2(1,2,3) 3 4, of "\<lambda>_. []" "\<lambda>a. ''r-'' @ a" "\<lambda>_. None" 200 900] 2(4) 5
    by simp
qed

section \<open>The payment alert\<close>

text \<open>The alert goes out when exactly PAYMENT_FAILURE_SPIKE failures are stored at the moment one is handled.\<close>

lemma payment_failed_alerts:
  assumes "find_event i (es_rows s) = Some ev" "iv_status ev \<noteq> EvProcessed" "iv_type ev = ''payment.failed''"
  shows "es_senderIds (snd (process_event toISO newId to_date now i s)) =
    (if recent_failures now (es_rows s) = PAYMENT_FAILURE_SPIKE
     then (es_senderIds s)\<lparr>ss_inbox := snd (broadcastToPermission now ''finance.read''
       (spike_alert PAYMENT_FAILURE_SPIKE) (ss_inbox (es_senderIds s)))\<rparr>
     else es_senderIds s)"
proof -
  have c: "count_where (\<lambda>r. iv_type r = ''payment.failed'' \<and> now - 3600000 \<le> iv_receivedAt r)
      (update_where (\<lambda>r. iv_eventId r = i) start_event rows) =
    count_where (\<lambda>r. iv_type r = ''payment.failed'' \<and> now - 3600000 \<le> iv_receivedAt r) rows" for rows
    by (induction rows) (auto simp: start_event_def)
  have "recent_failures now (es_rows (set_event i start_event s)) = recent_failures now (es_rows s)"
    by (simp add: recent_failures_def set_event_def c)
  then show ?thesis
    using assms by (simp add: process_event_def handle_event_def handle_payment_failed_def Let_def set_event_def)
qed

lemma recent_failures_arrived:
  assumes "map arrived rows = map arrived rows'"
  shows "recent_failures now rows = recent_failures now rows'"
proof -
  let ?p = "\<lambda>(i, ty, so, pl, t). ty = ''payment.failed'' \<and> now - 3600000 \<le> t"
  have "recent_failures now rs = length (filter ?p (map arrived rs))" for rs
    by (induction rs) (auto simp: recent_failures_def arrived_def)
  then show ?thesis using assms by (simp only:)
qed

lemma ingest_pair:
  assumes "find_event (ie_eventId p) (es_rows s) = None" "find_event (ie_eventId q) (es_rows s) = None"
    "ie_eventId p \<noteq> ie_eventId q"
  shows "fst (ingestBatch t [p, q] s) = Inr (2, 0)"
    "es_rows (snd (ingestBatch t [p, q] s)) = es_rows s @ [new_event t p, new_event t q]"
    "es_senderIds (snd (ingestBatch t [p, q] s)) = es_senderIds s"
proof -
  have "find_event (ie_eventId q) (es_rows s @ [new_event t p]) = None"
    using assms by (simp add: find_event_def find_row_append new_event_def)
  then show "fst (ingestBatch t [p, q] s) = Inr (2, 0)"
    "es_rows (snd (ingestBatch t [p, q] s)) = es_rows s @ [new_event t p, new_event t q]"
    "es_senderIds (snd (ingestBatch t [p, q] s)) = es_senderIds s"
    using assms by (simp_all add: ingestBatch_def ingest_create_def ingest_enqueue_def Let_def)
qed

text \<open>
  The payment-failure alert can be skipped altogether: with nineteen failed payments in the
  hour, a batch that brings the twentieth and the twenty-first together stores both before either
  is handled; each handler then counts twenty-one, and nobody is alerted, although the comment
  says the alert fires on the crossing of twenty.
\<close>

theorem payment_spike_skipped:
  assumes "recent_failures t (es_rows s) = 19"
    "find_event (ie_eventId p) (es_rows s) = None" "find_event (ie_eventId q) (es_rows s) = None"
    "ie_eventId p \<noteq> ie_eventId q" "ie_type p = ''payment.failed''" "ie_type q = ''payment.failed''"
  shows "let s0 = snd (ingestBatch t [p, q] s);
             s1 = snd (process_event toISO newId to_date t (ie_eventId p) s0);
             s2 = snd (process_event toISO newId to_date t (ie_eventId q) s1)
         in recent_failures t (es_rows s2) = 21 \<and> es_senderIds s2 = es_senderIds s"
proof -
  define s0 where "s0 = snd (ingestBatch t [p, q] s)"
  define s1 where "s1 = snd (process_event toISO newId to_date t (ie_eventId p) s0)"
  define s2 where "s2 = snd (process_event toISO newId to_date t (ie_eventId q) s1)"
  note b = ingest_pair(2,3) [OF assms(2-4), of t, folded s0_def]
  have n: "recent_failures t (es_rows s0) = 21"
    using assms(1,5,6) by (simp add: b(1) recent_failures_def new_event_def)
  have k: "find_event (ie_eventId p) (es_rows s0) = Some (new_event t p)"
    "find_event (ie_eventId q) (es_rows s0) = Some (new_event t q)"
    using assms(2-4) by (simp_all add: b(1) find_event_def find_row_append new_event_def)
  have a: "map arrived (es_rows s1) = map arrived (es_rows s0)" "map arrived (es_rows s2) = map arrived (es_rows s1)"
    unfolding s1_def s2_def by (rule process_event_frame(1))+
  have n': "recent_failures t (es_rows s1) = 21" "recent_failures t (es_rows s2) = 21"
    using recent_failures_arrived [OF a(1)] recent_failures_arrived [OF a(2)] n by simp_all
  have 1: "es_senderIds s1 = es_senderIds s0"
    using payment_failed_alerts [OF k(1), of toISO newId to_date t] n assms(5)
    by (simp add: s1_def new_event_def PAYMENT_FAILURE_SPIKE_def)
  have "map_option arrived (find_event i rows) = map_option arrived (find_event i rows')"
    if "map arrived rows = map arrived rows'" for i rows rows'
    using that by (induction rows rows' rule: list_induct2') (auto simp: find_event_def arrived_def)
  from this [OF a(1), of "ie_eventId q"] k(2) obtain ev where
    ev: "find_event (ie_eventId q) (es_rows s1) = Some ev" "arrived ev = arrived (new_event t q)"
    by auto
  have 2: "es_senderIds s2 = es_senderIds s1"
  proof (cases "iv_status ev = EvProcessed")
    case True
    then show ?thesis using ev(1) by (simp add: s2_def process_event_def)
  next
    case False
    then show ?thesis
      using payment_failed_alerts [OF ev(1) False, of toISO newId to_date t] ev(2) n' assms(6)
      by (simp add: s2_def arrived_def new_event_def PAYMENT_FAILURE_SPIKE_def)
  qed
  show ?thesis
    unfolding Let_def s0_def [symmetric] s1_def [symmetric] s2_def [symmetric]
    using n'(2) 1 2 b(2) by simp
qed

definition failures :: "nat \<Rightarrow> event_row list" where
  "failures n = map (\<lambda>k. (new_event 1000 (demo_event (replicate (Suc k) (CHR ''f'')) ''payment.failed'' JvNull))
     \<lparr>iv_status := EvProcessed\<rparr>) [0..<n]"

theorem payment_spike_skipped_witness:
  "let s = demo_events (failures 19) [];
       s0 = snd (ingestBatch 2000 [demo_event ''p'' ''payment.failed'' JvNull, demo_event ''q'' ''payment.failed'' JvNull] s);
       s1 = snd (process_event (\<lambda>_. []) (\<lambda>_. []) (\<lambda>_. None) 2000 ''p'' s0);
       s2 = snd (process_event (\<lambda>_. []) (\<lambda>_. []) (\<lambda>_. None) 2000 ''q'' s1)
   in recent_failures 2000 (es_rows s2) = 21 \<and> es_senderIds s2 = es_senderIds s"
proof -
  let ?s = "demo_events (failures 19) []"
  let ?p = "demo_event ''p'' ''payment.failed'' JvNull" and ?q = "demo_event ''q'' ''payment.failed'' JvNull"
  have r: "es_rows ?s = failures 19" by (simp add: demo_events_def)
  have n: "recent_failures 2000 (failures 19) = 19" by code_simp
  have f: "find_event ''p'' (failures 19) = None" "find_event ''q'' (failures 19) = None"
    by (auto simp: find_event_None_iff failures_def new_event_def demo_event_def)
  have d: "ie_eventId ?p = ''p''" "ie_eventId ?q = ''q''" "ie_type ?p = ''payment.failed''" "ie_type ?q = ''payment.failed''"
    by (simp_all add: demo_event_def)
  show ?thesis
    using payment_spike_skipped [of 2000 ?s ?p ?q "\<lambda>_. []" "\<lambda>_. []" "\<lambda>_. None"] n f r d by simp
qed

section \<open>A batch that repeats an event\<close>

text \<open>
  The duplicate is not answered as one: both look-ups miss, the second row is refused by the unique
  index, and the whole batch fails, although the event is stored and queued.
\<close>

lemma batch_repeat_fails:
  assumes "find_event (ie_eventId e) (es_rows s) = None"
  shows "fst (ingestBatch t [e, e] s) = Inl UniqueViolation"
    "es_rows (snd (ingestBatch t [e, e] s)) = es_rows s @ [new_event t e]"
proof -
  have "find_event (ie_eventId e) (es_rows s @ [new_event t e]) \<noteq> None"
    using assms by (simp add: find_event_def find_row_append new_event_def)
  then show "fst (ingestBatch t [e, e] s) = Inl UniqueViolation"
    "es_rows (snd (ingestBatch t [e, e] s)) = es_rows s @ [new_event t e]"
    using assms by (auto simp: ingestBatch_def ingest_create_def ingest_enqueue_def Let_def)
qed

end
