(* ===== verification/Plans.thy ===== *)
theory Plans
  imports Admin_Model Js_Number "HOL-Library.List_Lexorder" "HOL-Library.Char_ord" "HOL-Library.Product_Lexorder"
begin

text \<open>
  \<open>modules/plans\<close>: the billable catalogue (products, the credits they cost per country, the
  plans customers subscribe to) in \<open>catalogue.service.ts\<close> with \<open>plan-update.ts\<close>, and the
  listings, provider costs and margin targets of \<open>plans.service.ts\<close>.  Decimal columns keep the
  decimal text written to them and are compared as the code does, as Numbers.
\<close>

section \<open>Numbers\<close>

text \<open>\<open>===\<close> on Numbers; zero has one sign here.\<close>

fun num_same :: "js_num \<Rightarrow> js_num \<Rightarrow> bool" where
  "num_same (Fin m e) (Fin n d) \<longleftrightarrow> m * 2 ^ nat (e - min e d) = n * 2 ^ nat (d - min e d)"
| "num_same (Infinite a) (Infinite b) \<longleftrightarrow> a = b"
| "num_same _ _ \<longleftrightarrow> False"

definition price_zero :: "string \<Rightarrow> bool" where
  "price_zero s \<longleftrightarrow> num_same (js_Number s) (Fin 0 0)"

text \<open>Quotas are digit strings (the DTO's pattern), stored as the integer they denote.\<close>

definition quota :: "string \<Rightarrow> int" where
  "quota s = (case num_int (js_Number s) of Some n \<Rightarrow> n | None \<Rightarrow> 0)"

section \<open>Rows\<close>

record product_row =
  pr_id :: string
  pr_name :: string
  pr_channel :: string
  pr_description :: "string option"
  pr_isActive :: bool
  pr_billingTypes :: "string list"

record pricing_row =
  pp_id :: string
  pp_productId :: string
  pp_countryCode :: string
  pp_creditCost :: string
  pp_isActive :: bool

record plan_row =
  pl_id :: string
  pl_name :: string
  pl_slug :: string
  pl_description :: "string option"
  pl_type :: string
  pl_channel :: string
  pl_billingInterval :: string
  pl_basePrice :: string
  pl_overagePrice :: string
  pl_overageEnabled :: bool
  pl_monthlyQuota :: int
  pl_dailyQuota :: "int option"
  pl_maxContacts :: int
  pl_isActive :: bool
  pl_isPublic :: bool
  pl_isFree :: bool

record provider_cost =
  co_id :: string
  co_provider :: string
  co_channel :: string
  co_country :: "string option"
  co_network :: "string option"
  co_unitCost :: string
  co_from :: millis
  co_to :: "millis option"
  co_note :: "string option"
  co_createdBy :: string

record margin_target =
  mt_id :: string
  mt_channel :: string
  mt_target :: string
  mt_from :: millis
  mt_createdBy :: string

text \<open>Both databases as far as this module reads and writes them; a subscription is its plan and status.\<close>

record catalogue_state =
  ct_products :: "product_row list"
  ct_pricing :: "pricing_row list"
  ct_plans :: "plan_row list"
  ct_subscriptions :: "(string \<times> string) list"
  ct_costs :: "provider_cost list"
  ct_margins :: "margin_target list"
  ct_audit :: "audit_row list"

definition find_product :: "string \<Rightarrow> catalogue_state \<Rightarrow> product_row option" where
  "find_product i s = find_row (\<lambda>p. pr_id p = i) (ct_products s)"

definition find_plan :: "string \<Rightarrow> catalogue_state \<Rightarrow> plan_row option" where
  "find_plan i s = find_row (\<lambda>p. pl_id p = i) (ct_plans s)"

definition plan_with_slug :: "string \<Rightarrow> catalogue_state \<Rightarrow> plan_row option" where
  "plan_with_slug slug s = find_row (\<lambda>p. pl_slug p = slug) (ct_plans s)"

definition activeSubscribers :: "string \<Rightarrow> catalogue_state \<Rightarrow> nat" where
  "activeSubscribers planId s = count_where (\<lambda>(p, st). p = planId \<and> st = ''ACTIVE'') (ct_subscriptions s)"

section \<open>Products and their pricing\<close>

record upsert_product =
  up_name :: string
  up_channel :: string
  up_description :: "string option"
  up_billingTypes :: "string list"
  up_isActive :: "bool option"
  up_reason :: string

definition product_json :: "product_row \<Rightarrow> json" where
  "product_json p = JObj [(''id'', JStr (pr_id p)), (''name'', JStr (pr_name p)), (''channel'', JStr (pr_channel p)),
     (''description'', jstr_opt (pr_description p)), (''isActive'', JBool (pr_isActive p)),
     (''billingTypes'', jstrs (pr_billingTypes p))]"

definition createProduct ::
  "string \<Rightarrow> principal \<Rightarrow> upsert_product \<Rightarrow> catalogue_state \<Rightarrow> (catalogue_state, product_row) outcome" where
  "createProduct newId actor dto s =
     (case find_row (\<lambda>p. pr_channel p = up_channel dto) (ct_products s) of
        Some existing \<Rightarrow> throws (Conflict (''The '' @ up_channel dto @ '' channel already has a product (\"'' @ pr_name existing
           @ ''\", id '' @ pr_id existing @ ''). Update that one instead.'')) s
      | None \<Rightarrow>
          (let p = \<lparr>pr_id = newId, pr_name = up_name dto, pr_channel = up_channel dto,
                pr_description = up_description dto,
                pr_isActive = (case up_isActive dto of None \<Rightarrow> True | Some b \<Rightarrow> b),
                pr_billingTypes = up_billingTypes dto\<rparr>
           in returns p (s\<lparr>ct_products := ct_products s @ [p],
                ct_audit := audit_record (staff_entry actor ''products.created'' ''product'' newId (Some (up_reason dto))
                  JNull (product_json p) JNull) (ct_audit s)\<rparr>)))"

text \<open>An update leaves out what is undefined: a description that is not sent stays.\<close>

definition updated_product :: "upsert_product \<Rightarrow> product_row \<Rightarrow> product_row" where
  "updated_product dto p = p\<lparr>pr_name := up_name dto,
     pr_description := (case up_description dto of None \<Rightarrow> pr_description p | Some d \<Rightarrow> Some d),
     pr_billingTypes := up_billingTypes dto,
     pr_isActive := (case up_isActive dto of None \<Rightarrow> pr_isActive p | Some b \<Rightarrow> b)\<rparr>"

definition updateProduct ::
  "principal \<Rightarrow> string \<Rightarrow> upsert_product \<Rightarrow> catalogue_state \<Rightarrow> (catalogue_state, product_row) outcome" where
  "updateProduct actor productId dto s =
     (case find_product productId s of
        None \<Rightarrow> throws (NotFound ''Product not found'') s
      | Some before \<Rightarrow>
          if up_channel dto \<noteq> pr_channel before
          then throws (Conflict (''A product's channel cannot change ('' @ pr_channel before @ '' to '' @ up_channel dto
             @ ''). Create a separate product instead.'')) s
          else (let p = updated_product dto before in
            returns p (s\<lparr>ct_products := update_where (\<lambda>q. pr_id q = productId) (updated_product dto) (ct_products s),
              ct_audit := audit_record (staff_entry actor ''products.updated'' ''product'' productId (Some (up_reason dto))
                (product_json before) (product_json p) JNull) (ct_audit s)\<rparr>)))"

record upsert_pricing =
  ur_productId :: string
  ur_countryCode :: string
  ur_creditCost :: string
  ur_isActive :: "bool option"
  ur_reason :: string

definition pricing_json :: "pricing_row \<Rightarrow> json" where
  "pricing_json p = JObj [(''creditCost'', JStr (pp_creditCost p)), (''isActive'', JBool (pp_isActive p))]"

definition upsertPricing ::
  "string \<Rightarrow> principal \<Rightarrow> upsert_pricing \<Rightarrow> catalogue_state \<Rightarrow> (catalogue_state, pricing_row) outcome" where
  "upsertPricing newId actor dto s =
     (case find_product (ur_productId dto) s of
        None \<Rightarrow> throws (NotFound ''Product not found'') s
      | Some product \<Rightarrow>
          (let countryCode = toUpperCase (ur_countryCode dto);
               at_key = (\<lambda>p. pp_productId p = ur_productId dto \<and> pp_countryCode p = countryCode);
               active = (case ur_isActive dto of None \<Rightarrow> True | Some b \<Rightarrow> b);
               before = find_row at_key (ct_pricing s);
               pricing = (case before of
                   Some b \<Rightarrow> b\<lparr>pp_creditCost := ur_creditCost dto, pp_isActive := active\<rparr>
                 | None \<Rightarrow> \<lparr>pp_id = newId, pp_productId = ur_productId dto, pp_countryCode = countryCode,
                     pp_creditCost = ur_creditCost dto, pp_isActive = active\<rparr>);
               rows = (case before of
                   Some b \<Rightarrow> update_where at_key (\<lambda>p. p\<lparr>pp_creditCost := ur_creditCost dto, pp_isActive := active\<rparr>) (ct_pricing s)
                 | None \<Rightarrow> ct_pricing s @ [pricing])
           in returns pricing (s\<lparr>ct_pricing := rows,
                ct_audit := audit_record (staff_entry actor
                  (case before of Some b \<Rightarrow> ''pricing.updated'' | None \<Rightarrow> ''pricing.created'') ''product_pricing'' (pp_id pricing)
                  (Some (ur_reason dto)) (case before of Some b \<Rightarrow> pricing_json b | None \<Rightarrow> JNull) (pricing_json pricing)
                  (JObj [(''channel'', JStr (pr_channel product)), (''countryCode'', JStr countryCode)])) (ct_audit s)\<rparr>)))"

section \<open>Editing a plan\<close>

text \<open>
  The fields of a partial edit: None is a field not sent.  A description and a daily quota may be
  sent as null.
\<close>

record update_plan =
  ud_name :: "string option"
  ud_slug :: "string option"
  ud_description :: "string option option"
  ud_type :: "string option"
  ud_channel :: "string option"
  ud_billingInterval :: "string option"
  ud_basePrice :: "string option"
  ud_overagePrice :: "string option"
  ud_overageEnabled :: "bool option"
  ud_monthlyQuota :: "string option"
  ud_dailyQuota :: "string option option"
  ud_maxContacts :: "string option"
  ud_isPublic :: "bool option"
  ud_isFree :: "bool option"
  ud_reason :: string

record plan_changes =
  pc_name :: "string option"
  pc_slug :: "string option"
  pc_description :: "string option option"
  pc_type :: "string option"
  pc_channel :: "string option"
  pc_billingInterval :: "string option"
  pc_basePrice :: "string option"
  pc_overagePrice :: "string option"
  pc_overageEnabled :: "bool option"
  pc_monthlyQuota :: "int option"
  pc_dailyQuota :: "int option option"
  pc_maxContacts :: "int option"
  pc_isPublic :: "bool option"
  pc_isFree :: "bool option"

definition requested_changes :: "update_plan \<Rightarrow> plan_changes" where
  "requested_changes dto = \<lparr>pc_name = ud_name dto, pc_slug = ud_slug dto, pc_description = ud_description dto,
     pc_type = ud_type dto, pc_channel = ud_channel dto, pc_billingInterval = ud_billingInterval dto,
     pc_basePrice = ud_basePrice dto, pc_overagePrice = ud_overagePrice dto,
     pc_overageEnabled = ud_overageEnabled dto,
     pc_monthlyQuota = (if truthy (ud_monthlyQuota dto) then map_option quota (ud_monthlyQuota dto) else None),
     pc_dailyQuota = map_option (map_option quota) (ud_dailyQuota dto),
     pc_maxContacts = (if truthy (ud_maxContacts dto) then map_option quota (ud_maxContacts dto) else None),
     pc_isPublic = ud_isPublic dto, pc_isFree = ud_isFree dto\<rparr>"

text \<open>A value equal to the stored one is dropped; prices are equal when their Numbers are.\<close>

definition moved :: "'a \<Rightarrow> 'a option \<Rightarrow> 'a option" where
  "moved current v = (case v of None \<Rightarrow> None | Some x \<Rightarrow> if x = current then None else Some x)"

definition moved_price :: "string \<Rightarrow> string option \<Rightarrow> string option" where
  "moved_price current v = (case v of None \<Rightarrow> None
     | Some x \<Rightarrow> if num_same (js_Number current) (js_Number x) then None else Some x)"

definition changed_fields :: "plan_row \<Rightarrow> plan_changes \<Rightarrow> plan_changes" where
  "changed_fields p next = \<lparr>pc_name = moved (pl_name p) (pc_name next), pc_slug = moved (pl_slug p) (pc_slug next),
     pc_description = moved (pl_description p) (pc_description next), pc_type = moved (pl_type p) (pc_type next),
     pc_channel = moved (pl_channel p) (pc_channel next),
     pc_billingInterval = moved (pl_billingInterval p) (pc_billingInterval next),
     pc_basePrice = moved_price (pl_basePrice p) (pc_basePrice next),
     pc_overagePrice = moved_price (pl_overagePrice p) (pc_overagePrice next),
     pc_overageEnabled = moved (pl_overageEnabled p) (pc_overageEnabled next),
     pc_monthlyQuota = moved (pl_monthlyQuota p) (pc_monthlyQuota next),
     pc_dailyQuota = moved (pl_dailyQuota p) (pc_dailyQuota next),
     pc_maxContacts = moved (pl_maxContacts p) (pc_maxContacts next),
     pc_isPublic = moved (pl_isPublic p) (pc_isPublic next), pc_isFree = moved (pl_isFree p) (pc_isFree next)\<rparr>"

definition planChanges :: "plan_row \<Rightarrow> update_plan \<Rightarrow> plan_changes result" where
  "planChanges before dto =
     (let changed = changed_fields before (requested_changes dto);
          finalFree = (case pc_isFree changed of None \<Rightarrow> pl_isFree before | Some b \<Rightarrow> b);
          finalPrice = (case pc_basePrice changed of None \<Rightarrow> pl_basePrice before | Some p \<Rightarrow> p)
      in if pc_isPublic changed = Some True \<and> \<not> pl_isActive before
         then Inl (BadRequest ''A retired plan cannot be made public. Reactivate it first.'')
         else if finalFree \<and> \<not> price_zero finalPrice
         then Inl (BadRequest ''A free plan must have a base price of 0. Set the price to 0, or mark the plan as not free.'')
         else Inr changed)"

definition no_changes :: plan_changes where
  "no_changes = \<lparr>pc_name = None, pc_slug = None, pc_description = None, pc_type = None, pc_channel = None,
     pc_billingInterval = None, pc_basePrice = None, pc_overagePrice = None, pc_overageEnabled = None,
     pc_monthlyQuota = None, pc_dailyQuota = None, pc_maxContacts = None, pc_isPublic = None, pc_isFree = None\<rparr>"

definition keep_or :: "'a \<Rightarrow> 'a option \<Rightarrow> 'a" where
  "keep_or current v = (case v of None \<Rightarrow> current | Some x \<Rightarrow> x)"

definition apply_changes :: "plan_changes \<Rightarrow> plan_row \<Rightarrow> plan_row" where
  "apply_changes c p = p\<lparr>pl_name := keep_or (pl_name p) (pc_name c), pl_slug := keep_or (pl_slug p) (pc_slug c),
     pl_description := keep_or (pl_description p) (pc_description c), pl_type := keep_or (pl_type p) (pc_type c),
     pl_channel := keep_or (pl_channel p) (pc_channel c),
     pl_billingInterval := keep_or (pl_billingInterval p) (pc_billingInterval c),
     pl_basePrice := keep_or (pl_basePrice p) (pc_basePrice c),
     pl_overagePrice := keep_or (pl_overagePrice p) (pc_overagePrice c),
     pl_overageEnabled := keep_or (pl_overageEnabled p) (pc_overageEnabled c),
     pl_monthlyQuota := keep_or (pl_monthlyQuota p) (pc_monthlyQuota c),
     pl_dailyQuota := keep_or (pl_dailyQuota p) (pc_dailyQuota c),
     pl_maxContacts := keep_or (pl_maxContacts p) (pc_maxContacts c),
     pl_isPublic := keep_or (pl_isPublic p) (pc_isPublic c), pl_isFree := keep_or (pl_isFree p) (pc_isFree c)\<rparr>"

text \<open>The keys of a change with their values, as the audit log stores them.\<close>

definition json_field :: "string \<Rightarrow> ('a \<Rightarrow> json) \<Rightarrow> 'a \<Rightarrow> 'b option \<Rightarrow> (string \<times> json) list" where
  "json_field k f v present = (case present of None \<Rightarrow> [] | Some _ \<Rightarrow> [(k, f v)])"

definition changes_json :: "plan_changes \<Rightarrow> plan_row \<Rightarrow> json" where
  "changes_json c p = JObj (json_field ''name'' JStr (pl_name p) (pc_name c) @ json_field ''slug'' JStr (pl_slug p) (pc_slug c)
     @ json_field ''description'' jstr_opt (pl_description p) (pc_description c)
     @ json_field ''type'' JStr (pl_type p) (pc_type c) @ json_field ''channel'' JStr (pl_channel p) (pc_channel c)
     @ json_field ''billingInterval'' JStr (pl_billingInterval p) (pc_billingInterval c)
     @ json_field ''basePrice'' JStr (pl_basePrice p) (pc_basePrice c)
     @ json_field ''overagePrice'' JStr (pl_overagePrice p) (pc_overagePrice c)
     @ json_field ''overageEnabled'' JBool (pl_overageEnabled p) (pc_overageEnabled c)
     @ json_field ''monthlyQuota'' JInt (pl_monthlyQuota p) (pc_monthlyQuota c)
     @ json_field ''dailyQuota'' jint_opt (pl_dailyQuota p) (pc_dailyQuota c)
     @ json_field ''maxContacts'' JInt (pl_maxContacts p) (pc_maxContacts c)
     @ json_field ''isPublic'' JBool (pl_isPublic p) (pc_isPublic c)
     @ json_field ''isFree'' JBool (pl_isFree p) (pc_isFree c))"

definition slug_taken :: "string \<Rightarrow> string \<Rightarrow> catalogue_state \<Rightarrow> bool" where
  "slug_taken slug planId s = (case plan_with_slug slug s of None \<Rightarrow> False | Some clash \<Rightarrow> pl_id clash \<noteq> planId)"

definition updatePlan ::
  "principal \<Rightarrow> string \<Rightarrow> update_plan \<Rightarrow> catalogue_state \<Rightarrow> (catalogue_state, plan_row \<times> nat) outcome" where
  "updatePlan actor planId dto s =
     (case find_plan planId s of None \<Rightarrow> throws (NotFound ''Plan not found'') s
      | Some before \<Rightarrow>
         (case planChanges before dto of Inl e \<Rightarrow> throws e s
          | Inr changes \<Rightarrow>
             if changes = no_changes then throws (BadRequest ''Nothing to change: no field differs.'') s
             else if truthy (pc_slug changes) \<and> slug_taken (the (pc_slug changes)) planId s
             then throws (Conflict (''A plan already uses the slug \"'' @ the (pc_slug changes) @ ''\"'')) s
             else (let plan = apply_changes changes before in
               returns (plan, activeSubscribers planId s)
                 (s\<lparr>ct_plans := update_where (\<lambda>p. pl_id p = planId) (apply_changes changes) (ct_plans s),
                    ct_audit := audit_record (staff_entry actor ''plans.updated'' ''plan'' planId (Some (ud_reason dto))
                      (changes_json changes before) (changes_json changes plan)
                      (JObj [(''activeSubscribers'', JInt (int (activeSubscribers planId s)))])) (ct_audit s)\<rparr>))))"

section \<open>Plans\<close>

record upsert_plan_dto =
  un_id :: "string option"
  un_name :: string
  un_slug :: string
  un_description :: "string option"
  un_type :: string
  un_channel :: string
  un_billingInterval :: "string option"
  un_basePrice :: string
  un_overagePrice :: string
  un_overageEnabled :: "bool option"
  un_monthlyQuota :: string
  un_dailyQuota :: "string option"
  un_maxContacts :: "string option"
  un_isActive :: "bool option"
  un_isPublic :: "bool option"
  un_isFree :: "bool option"
  un_reason :: string

text \<open>The data of an upsert on a row: everything from the defaults, an unsent description as it was.\<close>

definition upsert_data :: "upsert_plan_dto \<Rightarrow> plan_row \<Rightarrow> plan_row" where
  "upsert_data dto p = p\<lparr>pl_name := un_name dto, pl_slug := un_slug dto,
     pl_description := (case un_description dto of None \<Rightarrow> pl_description p | Some d \<Rightarrow> Some d),
     pl_type := un_type dto, pl_channel := un_channel dto,
     pl_billingInterval := keep_or ''MONTHLY'' (un_billingInterval dto),
     pl_basePrice := un_basePrice dto, pl_overagePrice := un_overagePrice dto,
     pl_overageEnabled := keep_or True (un_overageEnabled dto),
     pl_monthlyQuota := quota (un_monthlyQuota dto),
     pl_dailyQuota := (if truthy (un_dailyQuota dto) then map_option quota (un_dailyQuota dto) else None),
     pl_maxContacts := (case un_maxContacts dto of None \<Rightarrow> 0 | Some m \<Rightarrow> if m = [] then 0 else quota m),
     pl_isActive := keep_or True (un_isActive dto), pl_isPublic := keep_or True (un_isPublic dto),
     pl_isFree := keep_or False (un_isFree dto)\<rparr>"

definition empty_plan :: "string \<Rightarrow> plan_row" where
  "empty_plan newId = \<lparr>pl_id = newId, pl_name = [], pl_slug = [], pl_description = None, pl_type = [],
     pl_channel = [], pl_billingInterval = [], pl_basePrice = [], pl_overagePrice = [], pl_overageEnabled = True,
     pl_monthlyQuota = 0, pl_dailyQuota = None, pl_maxContacts = 0, pl_isActive = True, pl_isPublic = True,
     pl_isFree = False\<rparr>"

definition plan_json :: "plan_row \<Rightarrow> json" where
  "plan_json p = JObj [(''id'', JStr (pl_id p)), (''name'', JStr (pl_name p)), (''slug'', JStr (pl_slug p)),
     (''basePrice'', JStr (pl_basePrice p)), (''overagePrice'', JStr (pl_overagePrice p)),
     (''isActive'', JBool (pl_isActive p)), (''isPublic'', JBool (pl_isPublic p)), (''isFree'', JBool (pl_isFree p))]"

definition upsertPlan ::
  "string \<Rightarrow> principal \<Rightarrow> upsert_plan_dto \<Rightarrow> catalogue_state \<Rightarrow> (catalogue_state, plan_row) outcome" where
  "upsertPlan newId actor dto s =
     (let before = (if truthy (un_id dto) then find_plan (the (un_id dto)) s else None);
          clash = (case plan_with_slug (un_slug dto) s of None \<Rightarrow> False | Some c \<Rightarrow> Some (pl_id c) \<noteq> un_id dto)
      in if truthy (un_id dto) \<and> before = None then throws (NotFound ''Plan not found'') s
         else if clash then throws (Conflict (''A plan already uses the slug \"'' @ un_slug dto @ ''\"'')) s
         else (case before of
            Some b \<Rightarrow> (let plan = upsert_data dto b in returns plan
              (s\<lparr>ct_plans := update_where (\<lambda>p. pl_id p = pl_id b) (upsert_data dto) (ct_plans s),
                 ct_audit := audit_record (staff_entry actor ''plans.updated'' ''plan'' (pl_id b) (Some (un_reason dto))
                   (plan_json b) (plan_json plan) JNull) (ct_audit s)\<rparr>))
          | None \<Rightarrow> (let plan = upsert_data dto (empty_plan newId) in returns plan
              (s\<lparr>ct_plans := ct_plans s @ [plan],
                 ct_audit := audit_record (staff_entry actor ''plans.created'' ''plan'' newId (Some (un_reason dto))
                   JNull (plan_json plan) JNull) (ct_audit s)\<rparr>))))"

definition setPlanVisibility ::
  "principal \<Rightarrow> string \<Rightarrow> bool \<Rightarrow> string \<Rightarrow> catalogue_state \<Rightarrow> (catalogue_state, bool \<times> bool) outcome" where
  "setPlanVisibility actor planId isPublic reason s =
     (case find_plan planId s of None \<Rightarrow> throws (NotFound ''Plan not found'') s
      | Some before \<Rightarrow>
          if isPublic \<and> \<not> pl_isActive before
          then throws (BadRequest ''A retired plan cannot be made public. Reactivate it first.'') s
          else if pl_isPublic before = isPublic then returns (isPublic, False) s
          else returns (isPublic, True)
            (s\<lparr>ct_plans := update_where (\<lambda>p. pl_id p = planId) (\<lambda>p. p\<lparr>pl_isPublic := isPublic\<rparr>) (ct_plans s),
               ct_audit := audit_record (staff_entry actor
                 (if isPublic then ''plans.made_public'' else ''plans.made_private'') ''plan'' planId (Some reason)
                 (JObj [(''isPublic'', JBool (pl_isPublic before))]) (JObj [(''isPublic'', JBool isPublic)]) JNull)
                 (ct_audit s)\<rparr>))"

definition retired_plan :: "bool \<Rightarrow> plan_row \<Rightarrow> plan_row" where
  "retired_plan isActive p = p\<lparr>pl_isActive := isActive, pl_isPublic := (if isActive then pl_isPublic p else False)\<rparr>"

definition setPlanActive ::
  "principal \<Rightarrow> string \<Rightarrow> bool \<Rightarrow> string \<Rightarrow> catalogue_state \<Rightarrow> (catalogue_state, bool \<times> nat) outcome" where
  "setPlanActive actor planId isActive reason s =
     (case find_plan planId s of None \<Rightarrow> throws (NotFound ''Plan not found'') s
      | Some before \<Rightarrow>
         (let plan = retired_plan isActive before; subscribers = activeSubscribers planId s in
          returns (pl_isActive plan, subscribers)
            (s\<lparr>ct_plans := update_where (\<lambda>p. pl_id p = planId) (retired_plan isActive) (ct_plans s),
               ct_audit := audit_record (staff_entry actor (if isActive then ''plans.activated'' else ''plans.retired'')
                 ''plan'' planId (Some reason)
                 (JObj [(''isActive'', JBool (pl_isActive before)), (''isPublic'', JBool (pl_isPublic before))])
                 (JObj [(''isActive'', JBool (pl_isActive plan)), (''isPublic'', JBool (pl_isPublic plan))])
                 (JObj [(''activeSubscribers'', JInt (int subscribers))])) (ct_audit s)\<rparr>)))"

section \<open>Listings\<close>

text \<open>The channel column is an enumeration: rows sort by its declared order.\<close>

definition channel_rank :: "string \<Rightarrow> nat" where
  "channel_rank c = (if c = ''EMAIL'' then 0 else if c = ''SMS'' then 1 else 2)"

definition listProducts :: "catalogue_state \<Rightarrow> (product_row \<times> pricing_row list) list" where
  "listProducts s = map (\<lambda>p. (p, sort_key pp_countryCode (filter (\<lambda>r. pp_productId r = pr_id p) (ct_pricing s))))
     (sort_key (channel_rank \<circ> pr_channel) (ct_products s))"

text \<open>A plan with the number of its subscriptions ever and of its active subscribers.\<close>

definition listPlans :: "catalogue_state \<Rightarrow> (plan_row \<times> nat \<times> nat) list" where
  "listPlans s = map (\<lambda>p. (p, count_where (\<lambda>(i, st). i = pl_id p) (ct_subscriptions s), activeSubscribers (pl_id p) s))
     (sort_key pl_name (ct_plans s))"

definition listPricing :: "string option \<Rightarrow> bool \<Rightarrow> catalogue_state \<Rightarrow> (pricing_row \<times> product_row option) list" where
  "listPricing channel includeHistory s =
     map (\<lambda>r. (r, find_product (pp_productId r) s))
       (sort_key pp_countryCode
         (filter (\<lambda>r. (includeHistory \<or> pp_isActive r)
            \<and> (\<not> truthy channel \<or> map_option pr_channel (find_product (pp_productId r) s) = channel)) (ct_pricing s)))"

section \<open>Provider costs\<close>

definition in_force :: "millis \<Rightarrow> provider_cost \<Rightarrow> bool" where
  "in_force t c \<longleftrightarrow> co_from c \<le> t \<and> (case co_to c of None \<Rightarrow> True | Some e \<Rightarrow> t < e)"

definition listProviderCosts :: "millis \<Rightarrow> string option \<Rightarrow> string option \<Rightarrow> bool \<Rightarrow> catalogue_state \<Rightarrow> provider_cost list" where
  "listProviderCosts now channel provider includeHistory s =
     sort_key (\<lambda>c. (co_channel c, co_provider c, - co_from c))
       (filter (\<lambda>c. (\<not> truthy channel \<or> Some (co_channel c) = channel) \<and> (\<not> truthy provider \<or> Some (co_provider c) = provider)
          \<and> (includeHistory \<or> in_force now c)) (ct_costs s))"

text \<open>\<open>findFirst\<close> with an order: the first row of those no other row comes before.\<close>

fun first_by :: "('r \<Rightarrow> 'r \<Rightarrow> bool) \<Rightarrow> 'r list \<Rightarrow> 'r option" where
  "first_by before [] = None"
| "first_by before (r # rs) =
     (case first_by before rs of None \<Rightarrow> Some r | Some x \<Rightarrow> if before x r then Some x else Some r)"

record upsert_cost =
  uc_provider :: string
  uc_channel :: string
  uc_country :: "string option"
  uc_network :: "string option"
  uc_unitCost :: string
  uc_from :: millis
  uc_to :: "millis option"
  uc_note :: "string option"
  uc_reason :: string

definition superseded :: "upsert_cost \<Rightarrow> provider_cost list \<Rightarrow> provider_cost option" where
  "superseded dto costs =
     first_by (\<lambda>a b. co_from b < co_from a)
       (filter (\<lambda>c. co_provider c = uc_provider dto \<and> co_channel c = uc_channel dto \<and> co_country c = uc_country dto
          \<and> co_network c = uc_network dto \<and> co_to c = None \<and> co_from c < uc_from dto) costs)"

definition new_cost :: "string \<Rightarrow> principal \<Rightarrow> upsert_cost \<Rightarrow> provider_cost" where
  "new_cost newId actor dto = \<lparr>co_id = newId, co_provider = uc_provider dto, co_channel = uc_channel dto,
     co_country = uc_country dto, co_network = uc_network dto, co_unitCost = uc_unitCost dto, co_from = uc_from dto,
     co_to = uc_to dto, co_note = uc_note dto, co_createdBy = sp_id actor\<rparr>"

definition upsertProviderCost ::
  "(millis \<Rightarrow> string) \<Rightarrow> string \<Rightarrow> principal \<Rightarrow> upsert_cost \<Rightarrow> catalogue_state \<Rightarrow> (catalogue_state, provider_cost) outcome" where
  "upsertProviderCost toISO newId actor dto s =
     (let old = superseded dto (ct_costs s);
          closed = (case old of None \<Rightarrow> ct_costs s
            | Some o' \<Rightarrow> update_where (\<lambda>c. co_id c = co_id o') (\<lambda>c. c\<lparr>co_to := Some (uc_from dto)\<rparr>) (ct_costs s));
          created = new_cost newId actor dto
      in returns created (s\<lparr>ct_costs := closed @ [created],
           ct_audit := audit_record (staff_entry actor ''provider_costs.updated'' ''provider_cost'' newId (Some (uc_reason dto))
             (case old of None \<Rightarrow> JNull
              | Some o' \<Rightarrow> JObj [(''id'', JStr (co_id o')), (''unitCostNgn'', JStr (co_unitCost o'))])
             (JObj [(''unitCostNgn'', JStr (uc_unitCost dto)), (''effectiveFrom'', JStr (toISO (uc_from dto)))]) JNull)
             (ct_audit s)\<rparr>))"

definition setMarginTarget ::
  "(millis \<Rightarrow> string) \<Rightarrow> string \<Rightarrow> principal \<Rightarrow> string \<Rightarrow> string \<Rightarrow> millis \<Rightarrow> string \<Rightarrow> catalogue_state
     \<Rightarrow> (catalogue_state, margin_target) outcome" where
  "setMarginTarget toISO newId actor channel target from reason s =
     (let t = \<lparr>mt_id = newId, mt_channel = channel, mt_target = target, mt_from = from, mt_createdBy = sp_id actor\<rparr>
      in returns t (s\<lparr>ct_margins := ct_margins s @ [t],
           ct_audit := audit_record (staff_entry actor ''margin_targets.set'' ''margin_target'' newId (Some reason)
             JNull (JObj [(''channel'', JStr channel), (''targetMargin'', JStr target),
               (''effectiveFrom'', JStr (toISO from)), (''reason'', JStr reason)]) JNull) (ct_audit s)\<rparr>))"

text \<open>
  \<open>costAt\<close> orders by network, country and start, all descending; the database puts nulls first in
  a descending order.
\<close>

definition desc_nulls_first :: "string option \<Rightarrow> string option \<Rightarrow> bool" where
  "desc_nulls_first a b = (case (a, b) of (None, Some _) \<Rightarrow> True | (Some x, Some y) \<Rightarrow> y < x | _ \<Rightarrow> False)"

definition cost_before :: "provider_cost \<Rightarrow> provider_cost \<Rightarrow> bool" where
  "cost_before a b \<longleftrightarrow> desc_nulls_first (co_network a) (co_network b)
     \<or> (co_network a = co_network b \<and> (desc_nulls_first (co_country a) (co_country b)
        \<or> (co_country a = co_country b \<and> co_from b < co_from a)))"

definition cost_matches ::
  "string \<Rightarrow> millis \<Rightarrow> string option \<Rightarrow> string option \<Rightarrow> string option \<Rightarrow> provider_cost \<Rightarrow> bool" where
  "cost_matches channel t provider country network c \<longleftrightarrow>
     co_channel c = channel \<and> (\<not> truthy provider \<or> Some (co_provider c) = provider) \<and> in_force t c
     \<and> (co_country c = country \<or> co_country c = None) \<and> (co_network c = network \<or> co_network c = None)"

definition costAt ::
  "string \<Rightarrow> millis \<Rightarrow> string option \<Rightarrow> string option \<Rightarrow> string option \<Rightarrow> catalogue_state \<Rightarrow> provider_cost option" where
  "costAt channel t provider country network s =
     first_by cost_before (filter (cost_matches channel t provider country network) (ct_costs s))"

end
