(* ===== verification/Plan_Facts.thy ===== *)
theory Plan_Facts
  imports Plans
begin

text \<open>
  What the catalogue guarantees: a public plan is active and a free one costs nothing (as long as
  full upserts are consistent), an edit changes what was sent and nothing else, and a new provider
  cost leaves the past as it was.
\<close>

section \<open>The rules of a plan\<close>

definition plan_ok :: "plan_row \<Rightarrow> bool" where
  "plan_ok p \<longleftrightarrow> (pl_isPublic p \<longrightarrow> pl_isActive p) \<and> (pl_isFree p \<longrightarrow> price_zero (pl_basePrice p))"

definition plans_ok :: "catalogue_state \<Rightarrow> bool" where
  "plans_ok s \<longleftrightarrow> list_all plan_ok (ct_plans s) \<and> distinct (map pl_id (ct_plans s))
     \<and> distinct (map pl_slug (ct_plans s))"

text \<open>A full upsert whose own fields respect the rules, defaults included.\<close>

definition consistent_upsert :: "upsert_plan_dto \<Rightarrow> bool" where
  "consistent_upsert dto \<longleftrightarrow> (keep_or True (un_isPublic dto) \<longrightarrow> keep_or True (un_isActive dto))
     \<and> (keep_or False (un_isFree dto) \<longrightarrow> price_zero (un_basePrice dto))"

lemma keep_or_moved [simp]: "keep_or c (moved c v) = keep_or c v"
  by (simp add: keep_or_def moved_def split: option.split)

lemma keep_or_None [simp]: "keep_or c None = c"
  and keep_or_Some [simp]: "keep_or c (Some x) = x"
  by (simp_all add: keep_or_def)

lemma planChanges_ok:
  assumes "planChanges p dto = Inr c" "plan_ok p"
  shows "plan_ok (apply_changes c p)" "c = changed_fields p (requested_changes dto)"
proof -
  show c: "c = changed_fields p (requested_changes dto)"
    using assms(1) by (auto simp: planChanges_def Let_def split: if_splits)
  have pub: "\<not> (pc_isPublic c = Some True \<and> \<not> pl_isActive p)"
    and free: "\<not> (keep_or (pl_isFree p) (pc_isFree c) \<and> \<not> price_zero (keep_or (pl_basePrice p) (pc_basePrice c)))"
    using assms(1) unfolding planChanges_def Let_def keep_or_def by (auto split: if_splits)
  have "pl_isPublic (apply_changes c p) \<Longrightarrow> pl_isActive (apply_changes c p)"
    using pub assms(2) by (cases "pc_isPublic c") (auto simp: apply_changes_def plan_ok_def)
  moreover have "pl_isFree (apply_changes c p) \<Longrightarrow> price_zero (pl_basePrice (apply_changes c p))"
    using free by (simp add: apply_changes_def)
  ultimately show "plan_ok (apply_changes c p)"
    by (simp add: plan_ok_def)
qed

lemma find_plan_SomeD: "find_plan i s = Some p \<Longrightarrow> p \<in> set (ct_plans s) \<and> pl_id p = i"
  by (auto simp: find_plan_def dest: find_row_SomeD)

text \<open>A changed row keeps the table's rules when it keeps its own and nobody else has its slug.\<close>

lemma plans_ok_update:
  assumes "plans_ok s" "find_plan i s = Some p" "plan_ok (f p)" "\<And>q. pl_id (f q) = pl_id q"
    "\<And>q. q \<in> set (ct_plans s) \<Longrightarrow> pl_id q \<noteq> i \<Longrightarrow> pl_slug q \<noteq> pl_slug (f p)"
  shows "plans_ok (s\<lparr>ct_plans := update_where (\<lambda>q. pl_id q = i) f (ct_plans s), ct_audit := l\<rparr>)"
proof -
  let ?rows = "ct_plans s" and ?new = "update_where (\<lambda>q. pl_id q = i) f (ct_plans s)"
  have p: "p \<in> set ?rows" "pl_id p = i" using find_plan_SomeD [OF assms(2)] by simp_all
  have d: "distinct (map pl_id ?rows)" "distinct (map pl_slug ?rows)" "\<forall>q \<in> set ?rows. plan_ok q"
    using assms(1) by (auto simp: plans_ok_def list_all_iff)
  have only: "q = p" if "q \<in> set ?rows" "pl_id q = i" for q
    using that p d(1) by (metis distinct_map inj_on_eq_iff)
  have ok: "list_all plan_ok ?new"
    using d(3) only assms(3) by (auto simp: list_all_iff set_update_where split: if_splits)
  have ids: "map pl_id ?new = map pl_id ?rows"
    using assms(4) by (rule map_update_where)
  have inj: "inj_on (\<lambda>q. pl_slug (if pl_id q = i then f q else q)) (set ?rows)"
  proof (rule inj_onI)
    fix a b assume ab: "a \<in> set ?rows" "b \<in> set ?rows"
      "pl_slug (if pl_id a = i then f a else a) = pl_slug (if pl_id b = i then f b else b)"
    show "a = b"
    proof (cases "pl_id a = i"; cases "pl_id b = i")
      assume "pl_id a = i" "pl_id b = i"
      then show ?thesis using only ab(1,2) by metis
    next
      assume "pl_id a = i" "pl_id b \<noteq> i"
      then show ?thesis using ab only assms(5) by metis
    next
      assume "pl_id a \<noteq> i" "pl_id b = i"
      then show ?thesis using ab only assms(5) by metis
    next
      assume "pl_id a \<noteq> i" "pl_id b \<noteq> i"
      then show ?thesis using ab d(2) by (simp add: distinct_map inj_on_def)
    qed
  qed
  have "distinct ?rows" using d(1) by (simp add: distinct_map)
  with inj have "distinct (map (\<lambda>q. pl_slug (if pl_id q = i then f q else q)) ?rows)"
    by (simp add: distinct_map)
  then have "distinct (map pl_slug ?new)"
    by (simp add: update_where_def o_def)
  with ok ids d(1) show ?thesis by (simp add: plans_ok_def)
qed

lemma plan_slug_unique:
  assumes "plans_ok s" "q \<in> set (ct_plans s)" "p \<in> set (ct_plans s)" "pl_id q \<noteq> pl_id p"
  shows "pl_slug q \<noteq> pl_slug p"
  using assms by (metis distinct_map inj_on_eq_iff plans_ok_def)

lemma slug_not_taken:
  assumes "\<not> slug_taken slug i s" "q \<in> set (ct_plans s)" "pl_id q \<noteq> i" "plans_ok s"
  shows "pl_slug q \<noteq> slug"
proof
  assume "pl_slug q = slug"
  then have "plan_with_slug slug s = Some q"
    using find_row_unique [of pl_slug "ct_plans s" q] assms(2,4) by (simp add: plan_with_slug_def plans_ok_def)
  then show False using assms(1,3) by (simp add: slug_taken_def)
qed

section \<open>Operations keep the rules\<close>

lemma updatePlan_success:
  assumes "updatePlan actor i dto s = (Inr (plan, n), s')"
  obtains before c where "find_plan i s = Some before" "planChanges before dto = Inr c" "c \<noteq> no_changes"
    "\<not> (truthy (pc_slug c) \<and> slug_taken (the (pc_slug c)) i s)" "plan = apply_changes c before"
    "n = activeSubscribers i s"
    "s' = s\<lparr>ct_plans := update_where (\<lambda>p. pl_id p = i) (apply_changes c) (ct_plans s),
       ct_audit := audit_record (staff_entry actor ''plans.updated'' ''plan'' i (Some (ud_reason dto))
         (changes_json c before) (changes_json c plan)
         (JObj [(''activeSubscribers'', JInt (int (activeSubscribers i s)))])) (ct_audit s)\<rparr>"
proof (cases "find_plan i s")
  case None
  with assms show ?thesis by (simp add: updatePlan_def)
next
  case b: (Some before)
  show ?thesis
  proof (cases "planChanges before dto")
    case (Inl e)
    with assms b show ?thesis by (simp add: updatePlan_def)
  next
    case (Inr c)
    have ne: "c \<noteq> no_changes" and cl: "\<not> (truthy (pc_slug c) \<and> slug_taken (the (pc_slug c)) i s)"
      using assms b Inr unfolding updatePlan_def by (auto split: if_splits)
    from assms b Inr ne cl show ?thesis
      unfolding updatePlan_def Let_def by (intro that [of before c]) auto
  qed
qed

lemma updatePlan_failure: "updatePlan actor i dto s = (Inl e, s') \<Longrightarrow> s' = s"
  by (auto simp: updatePlan_def Let_def split: option.splits sum.splits if_splits)

lemma updatePlan_ok:
  assumes "plans_ok s" "ud_slug dto \<noteq> Some []"
  shows "plans_ok (snd (updatePlan actor i dto s))"
proof (cases "updatePlan actor i dto s")
  case (Pair r s')
  show ?thesis
  proof (cases r)
    case (Inl e)
    then show ?thesis using Pair updatePlan_failure assms(1) by fastforce
  next
    case (Inr v)
    obtain plan n where v: "v = (plan, n)" by (cases v)
    from Pair Inr v have u: "updatePlan actor i dto s = (Inr (plan, n), s')" by simp
    show ?thesis
    proof (rule updatePlan_success [OF u])
      fix before c
      assume b: "find_plan i s = Some before" and ch: "planChanges before dto = Inr c"
        and cl: "\<not> (truthy (pc_slug c) \<and> slug_taken (the (pc_slug c)) i s)"
        and s': "s' = s\<lparr>ct_plans := update_where (\<lambda>p. pl_id p = i) (apply_changes c) (ct_plans s),
          ct_audit := audit_record (staff_entry actor ''plans.updated'' ''plan'' i (Some (ud_reason dto))
            (changes_json c before) (changes_json c plan)
            (JObj [(''activeSubscribers'', JInt (int (activeSubscribers i s)))])) (ct_audit s)\<rparr>"
      have bm: "before \<in> set (ct_plans s)" "pl_id before = i" using find_plan_SomeD [OF b] by simp_all
      have bok: "plan_ok before" using assms(1) bm(1) by (auto simp: plans_ok_def list_all_iff)
      have slug: "pl_slug q \<noteq> pl_slug (apply_changes c before)" if q: "q \<in> set (ct_plans s)" "pl_id q \<noteq> i" for q
      proof (cases "pc_slug c")
        case None
        then show ?thesis
          using plan_slug_unique [OF assms(1) q(1) bm(1)] q(2) bm(2) by (simp add: apply_changes_def)
      next
        case (Some x)
        have "pc_slug c = moved (pl_slug before) (ud_slug dto)"
          by (simp add: planChanges_ok(2) [OF ch bok] changed_fields_def requested_changes_def)
        with Some have "x \<noteq> []"
          using assms(2) by (cases "ud_slug dto") (auto simp: moved_def split: if_splits)
        with cl Some have "\<not> slug_taken x i s" by simp
        then show ?thesis
          using slug_not_taken [OF _ q assms(1)] Some by (simp add: apply_changes_def)
      qed
      have "plans_ok s'"
        unfolding s'
      proof (rule plans_ok_update [OF assms(1) b, where f = "apply_changes c"])
        show "plan_ok (apply_changes c before)" by (rule planChanges_ok(1) [OF ch bok])
        show "pl_id (apply_changes c q) = pl_id q" for q by (simp add: apply_changes_def)
      qed (rule slug)
      then show ?thesis using Pair by simp
    qed
  qed
qed

lemma setPlanVisibility_ok:
  assumes "plans_ok s"
  shows "plans_ok (snd (setPlanVisibility actor i b reason s))"
proof (cases "find_plan i s")
  case (Some p)
  note pm = find_plan_SomeD [OF Some]
  have "plan_ok p" using assms pm by (auto simp: plans_ok_def list_all_iff)
  then have "\<not> (b \<and> \<not> pl_isActive p) \<Longrightarrow> plan_ok (p\<lparr>pl_isPublic := b\<rparr>)" by (auto simp: plan_ok_def)
  moreover have "pl_slug q \<noteq> pl_slug (p\<lparr>pl_isPublic := b\<rparr>)" if "q \<in> set (ct_plans s)" "pl_id q \<noteq> i" for q
    using plan_slug_unique [OF assms that(1), of p] pm that(2) by simp
  ultimately show ?thesis
    using assms Some plans_ok_update [OF assms Some, of "\<lambda>p. p\<lparr>pl_isPublic := b\<rparr>"]
    by (simp add: setPlanVisibility_def)
qed (simp add: setPlanVisibility_def assms)

lemma setPlanActive_ok:
  assumes "plans_ok s"
  shows "plans_ok (snd (setPlanActive actor i b reason s))"
proof (cases "find_plan i s")
  case (Some p)
  note pm = find_plan_SomeD [OF Some]
  have "plan_ok p" using assms pm by (auto simp: plans_ok_def list_all_iff)
  then have "plan_ok (retired_plan b p)" by (auto simp: plan_ok_def retired_plan_def)
  moreover have "pl_slug q \<noteq> pl_slug (retired_plan b p)" if "q \<in> set (ct_plans s)" "pl_id q \<noteq> i" for q
    using plan_slug_unique [OF assms that(1), of p] pm that(2) by (simp add: retired_plan_def)
  ultimately show ?thesis
    using Some plans_ok_update [OF assms Some, of "retired_plan b"]
    by (simp add: setPlanActive_def Let_def retired_plan_def)
qed (simp add: setPlanActive_def assms)

lemma upsert_data_ok: "consistent_upsert dto \<Longrightarrow> plan_ok (upsert_data dto p)"
  by (auto simp: plan_ok_def upsert_data_def consistent_upsert_def)

lemma upsert_data_ids [simp]: "pl_id (upsert_data dto p) = pl_id p" "pl_slug (upsert_data dto p) = un_slug dto"
  by (simp_all add: upsert_data_def)

lemma plans_ok_add:
  assumes "plans_ok s" "plan_ok p" "pl_id p \<notin> pl_id ` set (ct_plans s)" "plan_with_slug (pl_slug p) s = None"
  shows "plans_ok (s\<lparr>ct_plans := ct_plans s @ [p], ct_audit := l\<rparr>)"
proof -
  have "pl_slug p \<notin> pl_slug ` set (ct_plans s)"
    using assms(4) by (auto simp: plan_with_slug_def find_row_None_iff)
  then show ?thesis using assms(1-3) by (simp add: plans_ok_def)
qed

lemma upsertPlan_ok:
  assumes "plans_ok s" "consistent_upsert dto" "newId \<notin> pl_id ` set (ct_plans s)" "un_id dto \<noteq> Some []"
  shows "plans_ok (snd (upsertPlan newId actor dto s))"
proof (cases "truthy (un_id dto) \<and> find_plan (the (un_id dto)) s = None
    \<or> (case plan_with_slug (un_slug dto) s of None \<Rightarrow> False | Some c \<Rightarrow> Some (pl_id c) \<noteq> un_id dto)")
  case True
  then show ?thesis using assms(1) by (auto simp: upsertPlan_def Let_def)
next
  case False
  then have clash: "(case plan_with_slug (un_slug dto) s of None \<Rightarrow> False | Some c \<Rightarrow> Some (pl_id c) \<noteq> un_id dto) = False"
    by simp
  show ?thesis
  proof (cases "un_id dto")
    case (Some i)
    with False assms(4) obtain b where b: "find_plan i s = Some b" "truthy (un_id dto)" by auto
    have pm: "b \<in> set (ct_plans s)" "pl_id b = i" using find_plan_SomeD [OF b(1)] by simp_all
    have "pl_slug q \<noteq> pl_slug (upsert_data dto b)" if q: "q \<in> set (ct_plans s)" "pl_id q \<noteq> i" for q
      using slug_not_taken [OF _ q assms(1), of "un_slug dto"] clash Some
      by (auto simp: slug_taken_def split: option.splits)
    then have "plans_ok (s\<lparr>ct_plans := update_where (\<lambda>q. pl_id q = i) (upsert_data dto) (ct_plans s), ct_audit := l\<rparr>)" for l
      by (intro plans_ok_update [OF assms(1) b(1), where f = "upsert_data dto"] upsert_data_ok [OF assms(2)]) simp_all
    then show ?thesis
      unfolding upsertPlan_def Let_def clash using Some b pm(2) by simp
  next
    case None
    then have n: "plan_with_slug (un_slug dto) s = None" using clash by (auto split: option.splits)
    have "plans_ok (s\<lparr>ct_plans := ct_plans s @ [upsert_data dto (empty_plan newId)], ct_audit := l\<rparr>)" for l
      using assms(3) n by (intro plans_ok_add [OF assms(1) upsert_data_ok [OF assms(2)]]) (simp_all add: empty_plan_def)
    then show ?thesis
      unfolding upsertPlan_def Let_def clash using None by simp
  qed
qed

section \<open>Every history of catalogue requests\<close>

datatype catalogue_op =
    CreateProduct string principal upsert_product
  | UpdateProduct principal string upsert_product
  | UpsertPricing string principal upsert_pricing
  | UpsertPlan string principal upsert_plan_dto
  | UpdatePlan principal string update_plan
  | SetVisibility principal string bool string
  | SetActive principal string bool string
  | UpsertCost string principal upsert_cost
  | SetMargin string principal string string millis string

fun catalogue_step :: "(millis \<Rightarrow> string) \<Rightarrow> catalogue_op \<Rightarrow> catalogue_state \<Rightarrow> catalogue_state" where
  "catalogue_step iso8601 (CreateProduct i a d) s = snd (createProduct i a d s)"
| "catalogue_step iso8601 (UpdateProduct a i d) s = snd (updateProduct a i d s)"
| "catalogue_step iso8601 (UpsertPricing i a d) s = snd (upsertPricing i a d s)"
| "catalogue_step iso8601 (UpsertPlan i a d) s = snd (upsertPlan i a d s)"
| "catalogue_step iso8601 (UpdatePlan a i d) s = snd (updatePlan a i d s)"
| "catalogue_step iso8601 (SetVisibility a i b r) s = snd (setPlanVisibility a i b r s)"
| "catalogue_step iso8601 (SetActive a i b r) s = snd (setPlanActive a i b r s)"
| "catalogue_step iso8601 (UpsertCost i a d) s = snd (upsertProviderCost iso8601 i a d s)"
| "catalogue_step iso8601 (SetMargin i a c t f r) s = snd (setMarginTarget iso8601 i a c t f r s)"

text \<open>What validation and the database's ids give: no empty slug or id, and full upserts that are consistent.\<close>

fun catalogue_op_ok :: "catalogue_op \<Rightarrow> catalogue_state \<Rightarrow> bool" where
  "catalogue_op_ok (UpsertPlan i a d) s =
     (consistent_upsert d \<and> un_id d \<noteq> Some [] \<and> i \<notin> pl_id ` set (ct_plans s))"
| "catalogue_op_ok (UpdatePlan a i d) s = (ud_slug d \<noteq> Some [])"
| "catalogue_op_ok _ s = True"

inductive catalogue_run :: "(millis \<Rightarrow> string) \<Rightarrow> catalogue_state \<Rightarrow> catalogue_state \<Rightarrow> bool" for iso8601 where
  catalogue_start: "catalogue_run iso8601 s s"
| catalogue_more: "catalogue_run iso8601 s s' \<Longrightarrow> catalogue_op_ok op s' \<Longrightarrow> catalogue_run iso8601 s (catalogue_step iso8601 op s')"

lemma same_plans_ok: "plans_ok s \<Longrightarrow> ct_plans s' = ct_plans s \<Longrightarrow> plans_ok s'"
  by (simp add: plans_ok_def)

lemma other_ops_plans:
  "ct_plans (snd (createProduct i a d s)) = ct_plans s"
  "ct_plans (snd (updateProduct a i d s)) = ct_plans s"
  "ct_plans (snd (upsertPricing i a p s)) = ct_plans s"
  "ct_plans (snd (upsertProviderCost iso8601 i a c s)) = ct_plans s"
  "ct_plans (snd (setMarginTarget iso8601 i a ch t f r s)) = ct_plans s"
  by (simp_all add: createProduct_def updateProduct_def upsertPricing_def upsertProviderCost_def
      setMarginTarget_def Let_def split: option.split)

lemma catalogue_step_ok:
  "plans_ok s \<Longrightarrow> catalogue_op_ok op s \<Longrightarrow> plans_ok (catalogue_step iso8601 op s)"
  by (cases op)
    (auto intro: same_plans_ok simp: other_ops_plans upsertPlan_ok updatePlan_ok setPlanVisibility_ok setPlanActive_ok)


definition demo_staff :: principal where
  "demo_staff = \<lparr>sp_id = ''s1'', sp_email = ''a@b.c'', sp_name = ''Ada'', sp_roleId = ''r1'', sp_roleKey = ''admin'',
     sp_permissions = [''plans.manage''], sp_sessionId = ''x'', sp_sessionEpoch = 0, sp_ip = None, sp_userAgent = None,
     sp_impersonating = None\<rparr>"

definition demo_upsert :: "bool option \<Rightarrow> upsert_plan_dto" where
  "demo_upsert active = \<lparr>un_id = None, un_name = ''Starter'', un_slug = ''starter'', un_description = None,
     un_type = ''SUBSCRIPTION'', un_channel = ''EMAIL'', un_billingInterval = None, un_basePrice = ''5000'',
     un_overagePrice = ''2.50'', un_overageEnabled = None, un_monthlyQuota = ''10000'', un_dailyQuota = None,
     un_maxContacts = None, un_isActive = active, un_isPublic = None, un_isFree = None, un_reason = ''new plan''\<rparr>"

definition empty_catalogue :: catalogue_state where
  "empty_catalogue = \<lparr>ct_products = [], ct_pricing = [], ct_plans = [], ct_subscriptions = [], ct_costs = [],
     ct_margins = [], ct_audit = []\<rparr>"


text \<open>
  A full upsert can leave a retired plan on offer: creating a plan with isActive false and
  isPublic left out (no plan has its slug) succeeds and stores a plan that is public and not
  active, the state updatePlan and setPlanVisibility refuse with an error.
\<close>

theorem upsert_offers_retired_plan:
  assumes "un_id dto = None" "un_isActive dto = Some False" "un_isPublic dto = None"
    "plan_with_slug (un_slug dto) s = None"
  shows "\<exists>p s'. upsertPlan newId actor dto s = (Inr p, s') \<and> p \<in> set (ct_plans s')
    \<and> pl_id p = newId \<and> pl_isPublic p \<and> \<not> pl_isActive p"
  using assms by (simp add: upsertPlan_def Let_def upsert_data_def empty_plan_def)

theorem upsert_offers_retired_plan_witness:
  "\<exists>p s'. upsertPlan ''p1'' demo_staff (demo_upsert (Some False)) empty_catalogue = (Inr p, s') \<and> p \<in> set (ct_plans s')
    \<and> pl_id p = ''p1'' \<and> pl_isPublic p \<and> \<not> pl_isActive p"
  by (rule upsert_offers_retired_plan)
    (simp_all add: demo_upsert_def plan_with_slug_def empty_catalogue_def)

section \<open>Edits\<close>

text \<open>A price after an edit: as it was, or the amount sent; a field of the same amount is not rewritten.\<close>

definition price_edit :: "string \<Rightarrow> string option \<Rightarrow> string" where
  "price_edit current v = (case v of None \<Rightarrow> current
     | Some x \<Rightarrow> if num_same (js_Number current) (js_Number x) then current else x)"

lemma keep_or_moved_price [simp]: "keep_or c (moved_price c v) = price_edit c v"
  by (simp add: keep_or_def moved_price_def price_edit_def split: option.split)

definition edited :: "update_plan \<Rightarrow> plan_row \<Rightarrow> plan_row" where
  "edited dto p = p\<lparr>pl_name := keep_or (pl_name p) (ud_name dto), pl_slug := keep_or (pl_slug p) (ud_slug dto),
     pl_description := keep_or (pl_description p) (ud_description dto), pl_type := keep_or (pl_type p) (ud_type dto),
     pl_channel := keep_or (pl_channel p) (ud_channel dto),
     pl_billingInterval := keep_or (pl_billingInterval p) (ud_billingInterval dto),
     pl_basePrice := price_edit (pl_basePrice p) (ud_basePrice dto),
     pl_overagePrice := price_edit (pl_overagePrice p) (ud_overagePrice dto),
     pl_overageEnabled := keep_or (pl_overageEnabled p) (ud_overageEnabled dto),
     pl_monthlyQuota := (if truthy (ud_monthlyQuota dto) then quota (the (ud_monthlyQuota dto)) else pl_monthlyQuota p),
     pl_dailyQuota := (case ud_dailyQuota dto of None \<Rightarrow> pl_dailyQuota p | Some q \<Rightarrow> map_option quota q),
     pl_maxContacts := (if truthy (ud_maxContacts dto) then quota (the (ud_maxContacts dto)) else pl_maxContacts p),
     pl_isPublic := keep_or (pl_isPublic p) (ud_isPublic dto), pl_isFree := keep_or (pl_isFree p) (ud_isFree dto)\<rparr>"

lemma keep_or_quota:
  "keep_or c (if truthy v then map_option f v else None) = (if truthy v then f (the v) else c)"
  by (cases v) auto

lemma keep_or_map: "keep_or c (map_option f v) = (case v of None \<Rightarrow> c | Some q \<Rightarrow> f q)"
  by (cases v) auto

lemma apply_changed_fields:
  "apply_changes (changed_fields p (requested_changes dto)) p = edited dto p"
  unfolding apply_changes_def changed_fields_def requested_changes_def edited_def plan_changes.simps
    keep_or_quota keep_or_moved keep_or_moved_price keep_or_map by (rule refl)

text \<open>
  A successful edit of a plan changes exactly what was sent: the row becomes the old one with
  the fields that were sent (a null clears the daily quota and the description, a price of the
  same amount is left as written, whether the plan is active never changes), every other plan
  stays as it was, no product, price, subscription or cost is touched, and the audit entry holds
  the changed fields before and after with the reason.
\<close>

theorem plan_edit_exact:
  assumes "updatePlan actor i dto s = (Inr (plan, n), s')"
  shows "\<exists>before. find_plan i s = Some before \<and> plan = edited dto before
    \<and> s' = s\<lparr>ct_plans := ct_plans s', ct_audit := ct_audit s'\<rparr>
    \<and> filter (\<lambda>p. pl_id p \<noteq> i) (ct_plans s') = filter (\<lambda>p. pl_id p \<noteq> i) (ct_plans s)
    \<and> find_plan i s' = Some plan
    \<and> ct_audit s' = audit_record (staff_entry actor ''plans.updated'' ''plan'' i (Some (ud_reason dto))
        (changes_json (changed_fields before (requested_changes dto)) before)
        (changes_json (changed_fields before (requested_changes dto)) plan)
        (JObj [(''activeSubscribers'', JInt (int n))])) (ct_audit s)"
proof (rule updatePlan_success [OF assms])
  fix before c
  assume b: "find_plan i s = Some before" and ch: "planChanges before dto = Inr c"
    and pl: "plan = apply_changes c before" and n: "n = activeSubscribers i s"
    and s': "s' = s\<lparr>ct_plans := update_where (\<lambda>p. pl_id p = i) (apply_changes c) (ct_plans s),
       ct_audit := audit_record (staff_entry actor ''plans.updated'' ''plan'' i (Some (ud_reason dto))
         (changes_json c before) (changes_json c plan)
         (JObj [(''activeSubscribers'', JInt (int (activeSubscribers i s)))])) (ct_audit s)\<rparr>"
  have c: "c = changed_fields before (requested_changes dto)"
    using ch unfolding planChanges_def Let_def by (auto split: if_splits)
  have pe: "plan = edited dto before" by (simp add: pl c apply_changed_fields)
  have ids: "pl_id (apply_changes c q) = pl_id q" for q by (simp add: apply_changes_def)
  have o: "filter (\<lambda>p. pl_id p \<noteq> i) (update_where (\<lambda>p. pl_id p = i) (apply_changes c) rows)
      = filter (\<lambda>p. pl_id p \<noteq> i) rows" for rows
    by (induction rows) (auto simp: ids)
  have "find_row (\<lambda>p. pl_id p = i) (update_where (\<lambda>p. pl_id p = i) (apply_changes c) (ct_plans s)) = Some plan"
    using b pl find_plan_SomeD [OF b] by (subst find_row_update_where) (auto simp: ids find_plan_def)
  then have f: "find_plan i s' = Some plan" by (simp add: find_plan_def s')
  show ?thesis
    using b pe f o n by (intro exI [of _ before]) (simp add: s' c)
qed

definition no_edit :: update_plan where
  "no_edit = \<lparr>ud_name = None, ud_slug = None, ud_description = None, ud_type = None, ud_channel = None,
     ud_billingInterval = None, ud_basePrice = None, ud_overagePrice = None, ud_overageEnabled = None,
     ud_monthlyQuota = None, ud_dailyQuota = None, ud_maxContacts = None, ud_isPublic = None, ud_isFree = None,
     ud_reason = ''because''\<rparr>"

definition demo_plan :: plan_row where
  "demo_plan = (empty_plan ''p1'')\<lparr>pl_name := ''Starter'', pl_slug := ''starter'', pl_basePrice := ''5000'',
     pl_dailyQuota := Some 500, pl_isPublic := False\<rparr>"

definition demo_catalogue :: catalogue_state where
  "demo_catalogue = empty_catalogue\<lparr>ct_plans := [demo_plan], ct_subscriptions := [(''p1'', ''ACTIVE'')]\<rparr>"

theorem plan_edit_exact_witness:
  "\<exists>plan n s'. updatePlan demo_staff ''p1'' (no_edit\<lparr>ud_name := Some ''Starter 2'', ud_dailyQuota := Some None\<rparr>) demo_catalogue
      = (Inr (plan, n), s')
    \<and> plan = demo_plan\<lparr>pl_name := ''Starter 2'', pl_dailyQuota := None\<rparr> \<and> n = 1
    \<and> s' = demo_catalogue\<lparr>ct_plans := ct_plans s', ct_audit := ct_audit s'\<rparr>"
proof -
  let ?d = "no_edit\<lparr>ud_name := Some ''Starter 2'', ud_dailyQuota := Some None\<rparr>"
  have f: "find_plan ''p1'' demo_catalogue = Some demo_plan"
    by (simp add: find_plan_def demo_catalogue_def demo_plan_def empty_plan_def)
  have ch: "planChanges demo_plan ?d = Inr (no_changes\<lparr>pc_name := Some ''Starter 2'', pc_dailyQuota := Some None\<rparr>)"
    by (simp add: planChanges_def changed_fields_def requested_changes_def no_edit_def no_changes_def moved_def
        moved_price_def demo_plan_def empty_plan_def)
  have a: "activeSubscribers ''p1'' demo_catalogue = 1"
    by (simp add: activeSubscribers_def demo_catalogue_def)
  have ne: "no_changes\<lparr>pc_name := Some ''Starter 2'', pc_dailyQuota := Some None\<rparr> \<noteq> no_changes"
    by (simp add: no_changes_def)
  obtain plan s' where u: "updatePlan demo_staff ''p1'' ?d demo_catalogue = (Inr (plan, 1), s')"
    unfolding updatePlan_def f option.case ch sum.case a if_not_P [OF ne] by (simp add: no_changes_def Let_def)
  from plan_edit_exact [OF u] obtain before where b: "find_plan ''p1'' demo_catalogue = Some before"
    "plan = edited ?d before" and e: "s' = demo_catalogue\<lparr>ct_plans := ct_plans s', ct_audit := ct_audit s'\<rparr>"
    by (elim exE conjE) (rule that)
  have p: "plan = edited ?d demo_plan" using b f by simp
  have "edited ?d demo_plan = demo_plan\<lparr>pl_name := ''Starter 2'', pl_dailyQuota := None\<rparr>"
    by (simp add: edited_def no_edit_def price_edit_def demo_plan_def empty_plan_def)
  with p have "plan = demo_plan\<lparr>pl_name := ''Starter 2'', pl_dailyQuota := None\<rparr>" by (rule trans)
  then show ?thesis
    by (intro exI [of _ plan] exI [of _ 1] exI [of _ s'] conjI u e refl)
qed

section \<open>Provider costs\<close>

lemma first_by_map:
  assumes "\<And>a b. before (f a) (f b) = before a b"
  shows "first_by before (map f rows) = map_option f (first_by before rows)"
  by (induction rows) (auto simp: assms split: option.split)

lemma first_by_mem: "first_by before rows = Some r \<Longrightarrow> r \<in> set rows"
  by (induction rows arbitrary: r) (auto split: option.splits if_splits)

lemma first_by_None [simp]: "first_by before rows = None \<longleftrightarrow> rows = []"
  by (induction rows) (auto split: option.split)

text \<open>
  Recording a new provider cost does not move the past: at every moment before it takes
  effect, the cost of every channel, provider, country and network is the row it was, with the
  same unit cost, although the row it supersedes is closed.
\<close>

theorem cost_history_kept:
  assumes "distinct (map co_id (ct_costs s))" "t < uc_from dto"
  shows "map_option (\<lambda>c. (co_id c, co_unitCost c, co_from c))
      (costAt ch t provider country network (snd (upsertProviderCost iso8601 newId actor dto s)))
    = map_option (\<lambda>c. (co_id c, co_unitCost c, co_from c)) (costAt ch t provider country network s)"
proof -
  let ?rows = "ct_costs s" and ?m = "cost_matches ch t provider country network"
  define f :: "provider_cost \<Rightarrow> provider_cost" where "f c = (case superseded dto (ct_costs s) of None \<Rightarrow> c
    | Some o' \<Rightarrow> if co_id c = co_id o' then c\<lparr>co_to := Some (uc_from dto)\<rparr> else c)" for c
  have rows: "ct_costs (snd (upsertProviderCost iso8601 newId actor dto s)) = map f ?rows @ [new_cost newId actor dto]"
    by (simp add: upsertProviderCost_def Let_def f_def [abs_def] update_where_def split: option.split)
  have new: "\<not> ?m (new_cost newId actor dto)"
    using assms(2) by (simp add: cost_matches_def in_force_def new_cost_def)
  have m: "?m (f c) = ?m c" if "c \<in> set ?rows" for c
  proof (cases "superseded dto ?rows")
    case (Some o')
    have o': "o' \<in> set ?rows" "co_to o' = None"
      using first_by_mem [OF Some [unfolded superseded_def]] by auto
    show ?thesis
    proof (cases "co_id c = co_id o'")
      case True
      then have "c = o'" using o'(1) that assms(1) by (metis distinct_map inj_on_eq_iff)
      then show ?thesis
        using o'(2) assms(2) Some by (auto simp: f_def cost_matches_def in_force_def)
    qed (simp add: f_def Some)
  qed (simp add: f_def)
  have "filter ?m (map f ?rows @ [new_cost newId actor dto]) = map f (filter ?m ?rows)"
    using new m by (simp add: filter_map o_def cong: filter_cong)
  moreover have "cost_before (f a) (f b) = cost_before a b" for a b
    by (simp add: f_def cost_before_def split: option.split)
  ultimately have "costAt ch t provider country network (snd (upsertProviderCost iso8601 newId actor dto s))
      = map_option f (costAt ch t provider country network s)"
    unfolding costAt_def rows by (simp add: first_by_map)
  moreover have "(co_id (f c), co_unitCost (f c), co_from (f c)) = (co_id c, co_unitCost c, co_from c)" for c
    by (simp add: f_def split: option.split)
  ultimately show ?thesis
    by (simp add: option.map_comp o_def)
qed

definition demo_cost :: "string \<Rightarrow> millis \<Rightarrow> provider_cost" where
  "demo_cost i from = \<lparr>co_id = i, co_provider = ''termii'', co_channel = ''SMS'', co_country = None, co_network = None,
     co_unitCost = ''2.5'', co_from = from, co_to = None, co_note = None, co_createdBy = ''s1''\<rparr>"

definition demo_new_cost :: upsert_cost where
  "demo_new_cost = \<lparr>uc_provider = ''termii'', uc_channel = ''SMS'', uc_country = None, uc_network = None,
     uc_unitCost = ''3'', uc_from = 100, uc_to = None, uc_note = None, uc_reason = ''new rate card''\<rparr>"

theorem cost_history_kept_witness:
  "let s = empty_catalogue\<lparr>ct_costs := [demo_cost ''c1'' 0]\<rparr>;
       s' = snd (upsertProviderCost (\<lambda>_. []) ''c2'' demo_staff demo_new_cost s)
   in map co_to (ct_costs s') = [Some 100, None]
    \<and> map_option (\<lambda>c. (co_id c, co_unitCost c, co_from c)) (costAt ''SMS'' 50 None None None s') = Some (''c1'', ''2.5'', 0)"
proof -
  let ?s = "empty_catalogue\<lparr>ct_costs := [demo_cost ''c1'' 0]\<rparr>"
  have "costAt ''SMS'' 50 None None None ?s = Some (demo_cost ''c1'' 0)"
    by (simp add: costAt_def cost_matches_def in_force_def demo_cost_def)
  then have "map_option (\<lambda>c. (co_id c, co_unitCost c, co_from c))
      (costAt ''SMS'' 50 None None None (snd (upsertProviderCost (\<lambda>_. []) ''c2'' demo_staff demo_new_cost ?s))) = Some (''c1'', ''2.5'', 0)"
    by (subst cost_history_kept) (simp_all add: demo_new_cost_def demo_cost_def)
  moreover have "map co_to (ct_costs (snd (upsertProviderCost (\<lambda>_. []) ''c2'' demo_staff demo_new_cost ?s))) = [Some 100, None]"
    by (simp add: upsertProviderCost_def superseded_def new_cost_def demo_new_cost_def demo_cost_def Let_def)
  ultimately show ?thesis by (simp add: Let_def)
qed

section \<open>The order of costAt\<close>

lemma first_by_class:
  assumes "\<And>a b. p a \<Longrightarrow> \<not> p b \<Longrightarrow> before a b" "\<And>a b. p a \<Longrightarrow> before b a \<Longrightarrow> p b"
    "c \<in> set rows" "p c" "first_by before rows = Some r"
  shows "p r"
  using assms(3-)
proof (induction rows arbitrary: r)
  case (Cons x rows)
  show ?case
  proof (cases "first_by before rows")
    case None
    then show ?thesis using Cons.prems by simp
  next
    case (Some y)
    then have r: "r = (if before y x then y else x)" using Cons.prems(3) by (simp split: if_splits)
    show ?thesis
    proof (cases "c = x")
      case True
      then show ?thesis using r Cons.prems(2) assms(2) [of x y] by simp
    next
      case False
      then have "p y" using Cons.IH [OF _ _ Some] Cons.prems(1,2) by simp
      then show ?thesis using r assms(1) [of y x] by auto
    qed
  qed
qed simp

text \<open>
  A cost for every network in force wins over one for the network asked for: the order puts the
  rows without a network first.
\<close>

lemma costAt_prefers_generic:
  assumes "c \<in> set (ct_costs s)" "cost_matches ch t provider country network c" "co_network c = None"
    "costAt ch t provider country network s = Some r"
  shows "co_network r = None"
  by (rule first_by_class [of "\<lambda>c. co_network c = None" cost_before])
    (use assms in \<open>auto simp: costAt_def cost_before_def desc_nulls_first_def split: option.splits\<close>)

end
