(* ===== verification/Lagos.thy ===== *)
theory Lagos
  imports Prelude
begin

text \<open>
  \<open>common/time/lagos.ts\<close>: Africa/Lagos is one hour ahead of UTC all year, so an instant's Lagos
  day and hour are plain arithmetic on milliseconds.  A Lagos calendar day is its number of days
  since 1970-01-01; ISO date strings are read by an argument.
\<close>

definition hour_len :: millis where "hour_len = 3600000"

definition day_len :: millis where "day_len = 86400000"

definition lagos_day :: "millis \<Rightarrow> int" where
  "lagos_day t = (t + hour_len) div day_len"

definition day_start :: "int \<Rightarrow> millis" where
  "day_start d = d * day_len - hour_len"

text \<open>\<open>endOf('day')\<close> is the last millisecond of the day.\<close>

definition day_end :: "int \<Rightarrow> millis" where
  "day_end d = day_start (d + 1) - 1"

definition lagosDateOnly :: "millis \<Rightarrow> millis" where
  "lagosDateOnly t = lagos_day t * day_len"

definition lagosHour :: "millis \<Rightarrow> int" where
  "lagosHour t = (t + hour_len) mod day_len div hour_len"

definition lagosDayBounds :: "millis \<Rightarrow> millis \<times> millis" where
  "lagosDayBounds t = (day_start (lagos_day t), day_start (lagos_day t + 1))"

definition lagosHourBounds :: "millis \<Rightarrow> millis \<times> millis" where
  "lagosHourBounds t = (let s = t div hour_len * hour_len in (s, s + hour_len))"

text \<open>\<open>parse\<close> reads an ISO date as a Lagos day, or not at all.\<close>

definition resolveRange ::
  "(string \<Rightarrow> int option) \<Rightarrow> millis \<Rightarrow> string option \<Rightarrow> string option \<Rightarrow> int \<Rightarrow> (millis \<times> millis) result" where
  "resolveRange parse now from to defaultDays =
     (let last_day = (case to of None \<Rightarrow> Some (lagos_day now) | Some x \<Rightarrow> if x = [] then Some (lagos_day now) else parse x);
          first_day = (case from of None \<Rightarrow> map_option (\<lambda>d. d - defaultDays) last_day
            | Some x \<Rightarrow> if x = [] then map_option (\<lambda>d. d - defaultDays) last_day else parse x)
      in (case (first_day, last_day) of
            (Some f, Some l) \<Rightarrow> Inr (day_start f, day_end l)
          | _ \<Rightarrow> Inl (PlainError ''Invalid date range; expected ISO dates such as 2026-09-01'')))"

text \<open>The loop over days: from a first day to a last one, both included.\<close>

function day_loop :: "int \<Rightarrow> int \<Rightarrow> int list" where
  "day_loop cursor last_day = (if cursor \<le> last_day then cursor # day_loop (cursor + 1) last_day else [])"
  by pat_completeness auto
termination
  by (relation "measure (\<lambda>(c, l). nat (l + 1 - c))") auto

declare day_loop.simps [simp del]

definition eachLagosDay :: "millis \<Rightarrow> millis \<Rightarrow> millis list" where
  "eachLagosDay start end_at = map (\<lambda>d. d * day_len) (day_loop (lagos_day start) (lagos_day end_at))"

section \<open>Facts\<close>

lemma day_loop_upto: "day_loop c l = [c..l]"
  by (induction c l rule: day_loop.induct) (subst day_loop.simps, subst upto.simps, auto)

lemma div_is_iff: "0 < L \<Longrightarrow> x div L = d \<longleftrightarrow> d * L \<le> x \<and> x < (d + 1) * L" for x L d :: int
proof
  assume "0 < L" "x div L = d"
  moreover from \<open>0 < L\<close> have "x mod L < L" "0 \<le> x mod L" by simp_all
  moreover have "x = x div L * L + x mod L" by simp
  ultimately have "x = d * L + x mod L" by metis
  with \<open>x mod L < L\<close> \<open>0 \<le> x mod L\<close> show "d * L \<le> x \<and> x < (d + 1) * L"
    unfolding distrib_right by linarith
next
  assume "0 < L" "d * L \<le> x \<and> x < (d + 1) * L"
  then show "x div L = d"
    by (intro int_div_pos_eq [of x L d "x - d * L"]) (simp_all add: algebra_simps)
qed

lemma day_len_pos: "0 < day_len" "0 < hour_len"
  by (simp_all add: day_len_def hour_len_def)

lemma lagos_day_iff: "lagos_day t = d \<longleftrightarrow> day_start d \<le> t \<and> t < day_start (d + 1)"
  unfolding lagos_day_def day_start_def div_is_iff [OF day_len_pos(1)] by auto

lemma lagos_day_bounds: "day_start (lagos_day t) \<le> t" "t < day_start (lagos_day t + 1)"
  using lagos_day_iff [of t "lagos_day t"] by simp_all

lemma lagos_day_start [simp]: "lagos_day (day_start d) = d" "lagos_day (day_end d) = d"
  by (auto simp: lagos_day_iff day_end_def day_start_def day_len_def)

lemma lagos_hour_range: "0 \<le> lagosHour t \<and> lagosHour t < 24"
proof -
  have "0 \<le> (t + hour_len) mod day_len" "(t + hour_len) mod day_len < 24 * hour_len"
    using day_len_pos(1) pos_mod_bound [of day_len "t + hour_len"] by (simp_all add: day_len_def hour_len_def)
  moreover have "lagosHour t * hour_len \<le> (t + hour_len) mod day_len"
    using div_is_iff [OF day_len_pos(2), of "(t + hour_len) mod day_len" "lagosHour t"]
    by (simp add: lagosHour_def)
  ultimately have "lagosHour t * hour_len < 24 * hour_len" by linarith
  moreover have "0 \<le> lagosHour t"
    using day_len_pos \<open>0 \<le> (t + hour_len) mod day_len\<close> by (simp add: lagosHour_def pos_imp_zdiv_nonneg_iff)
  ultimately show ?thesis
    using day_len_pos(2) by (simp only: mult_less_cancel_right_pos simp_thms)
qed

text \<open>The day and the hour name the hour the instant falls in.\<close>

lemma lagos_hour_of_day:
  "fst (lagosHourBounds t) = day_start (lagos_day t) + lagosHour t * hour_len"
proof -
  let ?x = "t + hour_len"
  have L: "day_len = 24 * hour_len" by (simp add: day_len_def hour_len_def)
  have "?x div hour_len = (?x mod day_len + ?x div day_len * 24 * hour_len) div hour_len"
    using div_mult_mod_eq [of ?x day_len] by (simp add: L algebra_simps)
  also have "\<dots> = ?x mod day_len div hour_len + ?x div day_len * 24"
    using day_len_pos(2) by simp
  finally have "?x div hour_len = ?x mod day_len div hour_len + ?x div day_len * 24" .
  moreover have "?x div hour_len = t div hour_len + 1"
    using day_len_pos(2) by (intro div_add_self2) simp
  ultimately have "t div hour_len + 1 = ?x mod day_len div hour_len + ?x div day_len * 24" by simp
  then have "(t div hour_len + 1) * hour_len = (?x mod day_len div hour_len + ?x div day_len * 24) * hour_len" by simp
  then show ?thesis
    unfolding lagosHourBounds_def Let_def day_start_def lagos_day_def lagosHour_def fst_conv
    by (simp add: L distrib_right)
qed

text \<open>A default range of n days covers n + 1 Lagos days, today included.\<close>

lemma default_range_days:
  assumes "0 \<le> n"
  shows "\<exists>s e. resolveRange parse now None None n = Inr (s, e) \<and> length (eachLagosDay s e) = nat n + 1"
  using assms by (simp add: resolveRange_def eachLagosDay_def day_loop_upto)

end
