(* ===== verification/Jobs.thy ===== *)
theory Jobs
  imports Lagos Js_Number
begin

text \<open>
  \<open>modules/jobs\<close>: which days are owed (\<open>catch-up.ts\<close>), the work queued at start
  (\<open>catch-up.service.ts\<close>) and by the clock (\<open>scheduler.service.ts\<close>), the rollup jobs' effect on
  the watermarks (\<open>rollups.processor.ts\<close>) and the maintenance jobs.  A Lagos day is its day
  number; \<open>isod\<close> stands for toISODate and \<open>stamp\<close> for the minute format of the job ids.  The queue
  keeps finished and failed jobs on file and drops a job added under an id it still has.
\<close>

section \<open>Days owed\<close>

definition MAX_CATCH_UP_DAYS :: int where "MAX_CATCH_UP_DAYS = 14"

definition MAX_HISTORY_DAYS :: int where "MAX_HISTORY_DAYS = 120"

definition RECENT_DAYS_LEFT_ALONE :: int where "RECENT_DAYS_LEFT_ALONE = 3"

definition missingFinaliseDays :: "millis option \<Rightarrow> millis \<Rightarrow> int list" where
  "missingFinaliseDays processedTo now =
     (let today = lagos_day now;
          yesterday = today - 1;
          earliest = yesterday - (MAX_CATCH_UP_DAYS - 1);
          cursor = (case processedTo of Some p \<Rightarrow> lagos_day p | None \<Rightarrow> yesterday - 1)
      in day_loop (if cursor < earliest then earliest else cursor) yesterday)"

definition historyDays :: "millis option \<Rightarrow> millis \<Rightarrow> int list" where
  "historyDays firstActivity now =
     (case firstActivity of None \<Rightarrow> []
      | Some f \<Rightarrow>
         (let today = lagos_day now;
              last_day = today - RECENT_DAYS_LEFT_ALONE;
              earliest = today - MAX_HISTORY_DAYS;
              cursor = lagos_day f
          in day_loop (if cursor < earliest then earliest else cursor) last_day))"

section \<open>Queues\<close>

datatype job_name = RollUsageCurrentDay | FinalisePreviousDay | RollRequests | Reconcile | ProviderHealth
  | RiskScan | SlaSweep | SenderIdSync | Retention | Partitions | GeoipRefresh | EventSweep

datatype job_state = Waiting | Completed | FailedJob

record queue_job =
  qj_name :: job_name
  qj_id :: "string option"
  qj_day :: "int option"
  qj_historical :: bool
  qj_state :: job_state

record job_queues =
  jq_rollups :: "queue_job list"
  jq_maintenance :: "queue_job list"
  jq_events :: "queue_job list"

definition on_file :: "string \<Rightarrow> queue_job list \<Rightarrow> bool" where
  "on_file i q \<longleftrightarrow> (\<exists>j \<in> set q. qj_id j = Some i)"

definition add_queue_job :: "job_name \<Rightarrow> int option \<Rightarrow> bool \<Rightarrow> string option \<Rightarrow> queue_job list \<Rightarrow> queue_job list" where
  "add_queue_job name day historical i q =
     (if (case i of None \<Rightarrow> False | Some x \<Rightarrow> on_file x q) then q
      else q @ [\<lparr>qj_name = name, qj_id = i, qj_day = day, qj_historical = historical, qj_state = Waiting\<rparr>])"

definition add_rollup :: "job_name \<Rightarrow> int option \<Rightarrow> bool \<Rightarrow> string option \<Rightarrow> job_queues \<Rightarrow> job_queues" where
  "add_rollup name day historical i s = s\<lparr>jq_rollups := add_queue_job name day historical i (jq_rollups s)\<rparr>"

definition add_maintenance :: "job_name \<Rightarrow> string option \<Rightarrow> job_queues \<Rightarrow> job_queues" where
  "add_maintenance name i s = s\<lparr>jq_maintenance := add_queue_job name None False i (jq_maintenance s)\<rparr>"

definition finalise_id :: "(int \<Rightarrow> string) \<Rightarrow> int \<Rightarrow> string" where
  "finalise_id isod d = ''finalise-'' @ isod d"

definition history_id :: "(int \<Rightarrow> string) \<Rightarrow> int \<Rightarrow> string" where
  "history_id isod d = ''history-'' @ isod d"

section \<open>Watermarks\<close>

text \<open>\<open>rollup_watermarks\<close>: how far each job got.\<close>

type_synonym watermarks = "string \<rightharpoonup> millis"

definition markProcessed :: "string \<Rightarrow> millis \<Rightarrow> watermarks \<Rightarrow> watermarks" where
  "markProcessed job processedTo w = w(job \<mapsto> processedTo)"

section \<open>Start-up\<close>

definition queue_finalise :: "(int \<Rightarrow> string) \<Rightarrow> int \<Rightarrow> job_queues \<Rightarrow> job_queues" where
  "queue_finalise isod d = add_rollup FinalisePreviousDay (Some d) False (Some (finalise_id isod d))"

definition queue_history :: "(int \<Rightarrow> string) \<Rightarrow> int \<Rightarrow> job_queues \<Rightarrow> job_queues" where
  "queue_history isod d = add_rollup FinalisePreviousDay (Some d) True (Some (history_id isod d))"

definition loadHistory ::
  "(int \<Rightarrow> string) \<Rightarrow> millis option \<Rightarrow> millis \<Rightarrow> watermarks \<Rightarrow> job_queues \<Rightarrow> watermarks \<times> job_queues" where
  "loadHistory isod firstActivity now w q =
     (if w ''history.backfill'' \<noteq> None then (w, q)
      else (w(''history.backfill'' \<mapsto> now), fold (queue_history isod) (historyDays firstActivity now) q))"

definition onApplicationBootstrap ::
  "(int \<Rightarrow> string) \<Rightarrow> millis option \<Rightarrow> millis \<Rightarrow> watermarks \<Rightarrow> job_queues \<Rightarrow> watermarks \<times> job_queues" where
  "onApplicationBootstrap isod firstActivity now w q =
     (let days = missingFinaliseDays (w ''usage.finalise'') now;
          q1 = fold (queue_finalise isod) days q;
          q2 = (if days = [] then q1
                else add_rollup Reconcile (Some (last days)) False (Some (''reconcile-'' @ isod (last days))) q1);
          q3 = add_rollup RollUsageCurrentDay (Some (lagos_day now)) False (Some (''usage-boot-'' @ dec (nat now))) q2;
          (w', q4) = loadHistory isod firstActivity now w q3;
          q5 = add_rollup RollRequests None False (Some (''requests-boot-'' @ dec (nat now))) q4
      in (w', add_maintenance SenderIdSync (Some (''sender-id-sync-boot-'' @ dec (nat now))) q5))"

section \<open>The clock\<close>

datatype tick = TickCurrentDay | TickFinalise | TickReconcile | TickProviderHealth | TickRiskScan
  | TickSenderIdSync | TickSlaSweep | TickEventSweep | TickRetention | TickGeoip | TickModuleInit

fun scheduler_tick :: "(int \<Rightarrow> string) \<Rightarrow> (millis \<Rightarrow> string) \<Rightarrow> millis \<Rightarrow> tick \<Rightarrow> job_queues \<Rightarrow> job_queues" where
  "scheduler_tick isod stamp now TickModuleInit q = add_maintenance Partitions None q"
| "scheduler_tick isod stamp now TickCurrentDay q =
     add_rollup RollRequests None False (Some (''requests-'' @ stamp now))
       (add_rollup RollUsageCurrentDay (Some (lagos_day now)) False (Some (''usage-'' @ stamp now)) q)"
| "scheduler_tick isod stamp now TickFinalise q = queue_finalise isod (lagos_day now - 1) q"
| "scheduler_tick isod stamp now TickReconcile q =
     add_rollup Reconcile (Some (lagos_day now - 1)) False (Some (''reconcile-'' @ isod (lagos_day now - 1))) q"
| "scheduler_tick isod stamp now TickProviderHealth q = add_rollup ProviderHealth None False None q"
| "scheduler_tick isod stamp now TickRiskScan q = add_rollup RiskScan None False None q"
| "scheduler_tick isod stamp now TickSenderIdSync q = add_maintenance SenderIdSync None q"
| "scheduler_tick isod stamp now TickSlaSweep q = add_maintenance SlaSweep None q"
| "scheduler_tick isod stamp now TickEventSweep q =
     q\<lparr>jq_events := add_queue_job EventSweep None False None (jq_events q)\<rparr>"
| "scheduler_tick isod stamp now TickRetention q = add_maintenance Retention None (add_maintenance Partitions None q)"
| "scheduler_tick isod stamp now TickGeoip q = add_maintenance GeoipRefresh None q"

section \<open>The rollup processor\<close>

text \<open>
  What a rollup job asks of the services, and the watermark it leaves.  The services' answers
  (a count of buckets or an error) are the argument \<open>svc\<close>; the calls are recorded.
\<close>

datatype rollup_call =
    RollCurrentDay millis
  | FinaliseDay millis bool
  | ReconcileDay millis
  | RollRequestsWindow millis millis
  | SampleProviders
  | ScanRisk

definition run_call :: "(rollup_call \<Rightarrow> nat result) \<Rightarrow> rollup_call \<Rightarrow> rollup_call list \<Rightarrow> nat result \<times> rollup_call list" where
  "run_call svc c calls = (svc c, calls @ [c])"

fun rollups_run ::
  "(rollup_call \<Rightarrow> nat result) \<Rightarrow> millis \<Rightarrow> queue_job \<Rightarrow> watermarks \<times> rollup_call list
     \<Rightarrow> nat option result \<times> watermarks \<times> rollup_call list" where
  "rollups_run svc now job (w, calls) =
     (case (qj_name job, qj_day job) of
        (RollUsageCurrentDay, Some d) \<Rightarrow>
          (case run_call svc (RollCurrentDay (day_start d)) calls of
             (Inl e, c) \<Rightarrow> (Inl e, w, c)
           | (Inr n, c) \<Rightarrow> (Inr (Some n), markProcessed ''usage.current_day'' now w, c))
      | (FinalisePreviousDay, Some d) \<Rightarrow>
          (case run_call svc (FinaliseDay (day_start d) (qj_historical job)) calls of
             (Inl e, c) \<Rightarrow> (Inl e, w, c)
           | (Inr n, c) \<Rightarrow>
               if qj_historical job
               then (case run_call svc (ReconcileDay (day_start d)) c of
                   (Inl e, c') \<Rightarrow> (Inl e, w, c')
                 | (Inr _, c') \<Rightarrow> (Inr (Some n), w, c'))
               else (Inr (Some n), markProcessed ''usage.finalise'' (day_start (d + 1)) w, c))
      | (RollRequests, _) \<Rightarrow>
          (case run_call svc (RollRequestsWindow (day_start (lagos_day now)) now) calls of
             (Inl e, c) \<Rightarrow> (Inl e, w, c)
           | (Inr n, c) \<Rightarrow> (Inr (Some n), markProcessed ''requests'' now w, c))
      | (Reconcile, Some d) \<Rightarrow>
          (case run_call svc (ReconcileDay (day_start d)) calls of
             (Inl e, c) \<Rightarrow> (Inl e, w, c) | (Inr n, c) \<Rightarrow> (Inr (Some n), w, c))
      | (ProviderHealth, _) \<Rightarrow>
          (case run_call svc SampleProviders calls of (Inl e, c) \<Rightarrow> (Inl e, w, c) | (Inr n, c) \<Rightarrow> (Inr (Some n), w, c))
      | (RiskScan, _) \<Rightarrow>
          (case run_call svc ScanRisk calls of (Inl e, c) \<Rightarrow> (Inl e, w, c) | (Inr n, c) \<Rightarrow> (Inr (Some n), w, c))
      | _ \<Rightarrow> (Inr None, w, calls))"

section \<open>Maintenance\<close>

definition PARTITION_LOOKAHEAD_DAYS :: int where "PARTITION_LOOKAHEAD_DAYS = 3"

text \<open>
  The partitions of the request log by table name, and the export rows as their status and
  expiry.  \<open>fmt\<close> writes the day of a partition's name; \<open>read_day\<close> reads it back: None when the name
  does not match the pattern, Some None when it matches but is no date.
\<close>

record maintenance_state =
  mn_partitions :: "(string \<times> millis \<times> millis) list"
  mn_exports :: "(string \<times> millis option) list"

definition create_partition :: "(int \<Rightarrow> string) \<Rightarrow> int \<Rightarrow> maintenance_state \<Rightarrow> maintenance_state" where
  "create_partition fmt d s =
     (let name = ''request_logs_'' @ fmt d in
      if name \<in> fst ` set (mn_partitions s) then s
      else s\<lparr>mn_partitions := mn_partitions s @ [(name, day_start d, day_start (d + 1))]\<rparr>)"

definition ensurePartitions :: "(int \<Rightarrow> string) \<Rightarrow> millis \<Rightarrow> maintenance_state \<Rightarrow> nat \<times> maintenance_state" where
  "ensurePartitions fmt now s =
     (let days = map (\<lambda>offset. lagos_day now + offset) (day_loop 0 PARTITION_LOOKAHEAD_DAYS)
      in (length days, fold (create_partition fmt) days s))"

definition expired_partition :: "(string \<Rightarrow> int option option) \<Rightarrow> int \<Rightarrow> string \<Rightarrow> bool" where
  "expired_partition read_day cutoff name =
     (case read_day name of None \<Rightarrow> False
      | Some None \<Rightarrow> True
      | Some (Some d) \<Rightarrow> \<not> cutoff \<le> d)"

definition dropExpiredPartitions ::
  "(string \<Rightarrow> int option option) \<Rightarrow> int \<Rightarrow> millis \<Rightarrow> maintenance_state \<Rightarrow> string list \<times> maintenance_state" where
  "dropExpiredPartitions read_day retentionDays now s =
     (let gone = expired_partition read_day (lagos_day now - retentionDays) in
      (filter gone (map fst (mn_partitions s)),
       s\<lparr>mn_partitions := filter (\<lambda>p. \<not> gone (fst p)) (mn_partitions s)\<rparr>))"

definition expireExports :: "millis \<Rightarrow> maintenance_state \<Rightarrow> nat \<times> maintenance_state" where
  "expireExports now s =
     (let due = (\<lambda>(st, e). st = ''READY'' \<and> (case e of None \<Rightarrow> False | Some t \<Rightarrow> t < now)) in
      (count_where due (mn_exports s),
       s\<lparr>mn_exports := update_where due (\<lambda>(st, e). (''EXPIRED'', e)) (mn_exports s)\<rparr>))"

text \<open>
  What the job modules guarantee: the days owed are exactly the ones between the watermark and
  yesterday, a first start loads every day of history once, the partitions of the request log
  exist ahead of time and are dropped when they expire; and which days can be lost.
\<close>

section \<open>Days owed\<close>

lemma missing_upto:
  "missingFinaliseDays p now =
     [max (lagos_day now - 14) (case p of Some t \<Rightarrow> lagos_day t | None \<Rightarrow> lagos_day now - 2) .. lagos_day now - 1]"
  by (auto simp: missingFinaliseDays_def Let_def day_loop_upto MAX_CATCH_UP_DAYS_def max_def split: option.split)

lemma history_upto:
  "historyDays (Some f) now = [max (lagos_day now - 120) (lagos_day f) .. lagos_day now - 3]"
  by (auto simp: historyDays_def Let_def day_loop_upto MAX_HISTORY_DAYS_def RECENT_DAYS_LEFT_ALONE_def max_def)

text \<open>
  The days a start owes are exactly those after the watermark and before today, at most the
  last fourteen, each once and oldest first; without a watermark, the last two.
\<close>

theorem days_owed:
  "set (missingFinaliseDays p now) =
      {d. lagos_day now - 14 \<le> d \<and> d < lagos_day now
        \<and> (case p of Some t \<Rightarrow> lagos_day t \<le> d | None \<Rightarrow> lagos_day now - 2 \<le> d)}
   \<and> sorted (missingFinaliseDays p now) \<and> distinct (missingFinaliseDays p now)
   \<and> length (missingFinaliseDays p now) \<le> 14"
  by (auto simp: missing_upto split: option.splits)

section \<open>Adding jobs\<close>

lemma on_file_append [simp]: "on_file i (a @ b) \<longleftrightarrow> on_file i a \<or> on_file i b"
  by (auto simp: on_file_def)

lemma on_file_Nil [simp]: "\<not> on_file i []"
  by (simp add: on_file_def)

lemma on_file_Cons [simp]: "on_file i (j # q) \<longleftrightarrow> qj_id j = Some i \<or> on_file i q"
  by (auto simp: on_file_def)

definition day_job :: "(int \<Rightarrow> string) \<Rightarrow> bool \<Rightarrow> int \<Rightarrow> queue_job" where
  "day_job idf h d = \<lparr>qj_name = FinalisePreviousDay, qj_id = Some (idf d), qj_day = Some d, qj_historical = h, qj_state = Waiting\<rparr>"

lemma add_fresh_days:
  assumes "distinct days" "inj_on idf (set days)" "\<forall>d \<in> set days. \<not> on_file (idf d) q"
  shows "fold (\<lambda>d. add_queue_job FinalisePreviousDay (Some d) h (Some (idf d))) days q = q @ map (day_job idf h) days"
  using assms
proof (induction days arbitrary: q)
  case (Cons d days)
  have "\<forall>e \<in> set days. \<not> on_file (idf e) (q @ [day_job idf h d])"
    using Cons.prems by (auto simp: day_job_def inj_on_def)
  with Cons.IH [of "q @ [day_job idf h d]"] Cons.prems show ?case
    by (simp add: add_queue_job_def day_job_def inj_on_def)
qed simp

lemma fold_rollups:
  "jq_rollups (fold (\<lambda>d. add_rollup n (f d) h (g d)) days q) = fold (\<lambda>d. add_queue_job n (f d) h (g d)) days (jq_rollups q)"
  by (induction days arbitrary: q) (simp_all add: add_rollup_def)

lemma rollups_finalise:
  "jq_rollups (fold (queue_finalise isod) days q) =
     fold (\<lambda>d. add_queue_job FinalisePreviousDay (Some d) False (Some (finalise_id isod d))) days (jq_rollups q)"
  unfolding queue_finalise_def [abs_def] by (rule fold_rollups)

lemma rollups_history:
  "jq_rollups (fold (queue_history isod) days q) =
     fold (\<lambda>d. add_queue_job FinalisePreviousDay (Some d) True (Some (history_id isod d))) days (jq_rollups q)"
  unfolding queue_history_def [abs_def] by (rule fold_rollups)

lemma add_rollup_rollups: "jq_rollups (add_rollup n d h i q) = add_queue_job n d h i (jq_rollups q)"
  by (simp add: add_rollup_def)

lemma add_maintenance_rollups [simp]: "jq_rollups (add_maintenance n i q) = jq_rollups q"
  by (simp add: add_maintenance_def)

definition finalise_jobs :: "queue_job list \<Rightarrow> queue_job list" where
  "finalise_jobs q = filter (\<lambda>j. qj_name j = FinalisePreviousDay) q"

lemma finalise_jobs_other [simp]:
  "n \<noteq> FinalisePreviousDay \<Longrightarrow> finalise_jobs (add_queue_job n d h i q) = finalise_jobs q"
  by (simp add: finalise_jobs_def add_queue_job_def)

lemma finalise_jobs_append [simp]: "finalise_jobs (a @ b) = finalise_jobs a @ finalise_jobs b"
  by (simp add: finalise_jobs_def)

lemma finalise_jobs_days [simp]: "finalise_jobs (map (day_job idf h) days) = map (day_job idf h) days"
  by (simp add: finalise_jobs_def day_job_def)

text \<open>The start-up jobs of other kinds never carry an id of the history.\<close>

lemma on_file_add:
  "on_file x (add_queue_job n d h i q) \<longleftrightarrow> on_file x q \<or> i = Some x"
  by (auto simp: add_queue_job_def split: option.splits)

section \<open>First start\<close>

lemma boot_rollups:
  assumes "w ''history.backfill'' = None"
  shows "finalise_jobs (jq_rollups (snd (onApplicationBootstrap isod first now w q))) =
    (let q3 = add_queue_job RollUsageCurrentDay (Some (lagos_day now)) False (Some (''usage-boot-'' @ dec (nat now)))
           (let q1 = fold (\<lambda>d. add_queue_job FinalisePreviousDay (Some d) False (Some (finalise_id isod d)))
                  (missingFinaliseDays (w ''usage.finalise'') now) (jq_rollups q)
            in if missingFinaliseDays (w ''usage.finalise'') now = [] then q1
               else add_queue_job Reconcile (Some (last (missingFinaliseDays (w ''usage.finalise'') now))) False
                 (Some (''reconcile-'' @ isod (last (missingFinaliseDays (w ''usage.finalise'') now)))) q1)
     in finalise_jobs (fold (\<lambda>d. add_queue_job FinalisePreviousDay (Some d) True (Some (history_id isod d)))
          (historyDays first now) q3))"
  using assms
  by (simp add: onApplicationBootstrap_def loadHistory_def Let_def rollups_history rollups_finalise add_rollup_rollups
      del: append.simps)

text \<open>
  The first start of a console deployed into a running product queues every day from the
  product's first activity (at most 120 days back) to yesterday for loading exactly once: the last
  two by the nightly catch-up and the rest as history.  \<open>isod\<close> (toISODate) tells days apart.
\<close>

theorem first_start_loads_history:
  assumes "inj isod" "w ''usage.finalise'' = None" "w ''history.backfill'' = None" "jq_rollups q = []"
    "lagos_day now - 120 \<le> lagos_day f" "lagos_day f < lagos_day now - 2"
  shows "map (\<lambda>j. (qj_day j, qj_historical j)) (finalise_jobs (jq_rollups (snd (onApplicationBootstrap isod (Some f) now w q))))
    = map (\<lambda>d. (Some d, False)) [lagos_day now - 2, lagos_day now - 1]
      @ map (\<lambda>d. (Some d, True)) [lagos_day f .. lagos_day now - 3]"
proof -
  let ?t = "lagos_day now"
  have m: "missingFinaliseDays None now = [?t - 2, ?t - 1]"
    unfolding missing_upto by (simp add: upto.simps)
  have h: "historyDays (Some f) now = [lagos_day f .. ?t - 3]"
    using assms(5) by (simp add: history_upto)
  let ?q1 = "[day_job (finalise_id isod) False (?t - 2), day_job (finalise_id isod) False (?t - 1)]"
  have i: "inj_on (finalise_id isod) A" "inj_on (history_id isod) A" for A
    using assms(1) by (auto simp: inj_on_def finalise_id_def history_id_def dest: injD)
  have f1: "fold (\<lambda>d. add_queue_job FinalisePreviousDay (Some d) False (Some (finalise_id isod d))) [?t - 2, ?t - 1] []
      = [] @ map (day_job (finalise_id isod) False) [?t - 2, ?t - 1]"
    by (rule add_fresh_days) (simp, rule i, simp)
  define q3 where "q3 = add_queue_job RollUsageCurrentDay (Some ?t) False (Some (''usage-boot-'' @ dec (nat now)))
    (add_queue_job Reconcile (Some (?t - 1)) False (Some (''reconcile-'' @ isod (?t - 1))) ?q1)"
  have fresh: "\<not> on_file (history_id isod d) q3" for d
    by (simp add: q3_def on_file_add day_job_def history_id_def finalise_id_def)
  have f2: "fold (\<lambda>d. add_queue_job FinalisePreviousDay (Some d) True (Some (history_id isod d))) [lagos_day f .. ?t - 3] q3
      = q3 @ map (day_job (history_id isod) True) [lagos_day f .. ?t - 3]"
    using fresh i by (intro add_fresh_days) simp_all
  have "finalise_jobs q3 = ?q1"
    unfolding q3_def by (simp add: finalise_jobs_def [of "[_, _]"] day_job_def)
  then have "finalise_jobs (jq_rollups (snd (onApplicationBootstrap isod (Some f) now w q))) =
      ?q1 @ map (day_job (history_id isod) True) [lagos_day f .. ?t - 3]"
    unfolding boot_rollups [where w = w, OF assms(3)] assms(2,4) m h Let_def f1 append_Nil
    by (simp add: f2 del: append.simps flip: q3_def)
  then show ?thesis by (simp add: day_job_def o_def)
qed

definition demo_iso :: "int \<Rightarrow> string" where
  "demo_iso d = (if d < 0 then ''-'' @ dec (nat (- d)) else dec (nat d))"

lemma demo_iso_inj: "inj demo_iso"
proof (rule injI)
  fix a b assume e: "demo_iso a = demo_iso b"
  have m: "CHR ''-'' # s \<noteq> dec n" for s n
    using dec_digits [of n] by (auto simp: is_digit_def dest!: sym [of _ "dec n"])
  show "a = b"
    using e m m [symmetric] by (auto simp: demo_iso_def dest!: dec_inj split: if_splits)
qed

theorem first_start_loads_history_witness:
  "let q = snd (onApplicationBootstrap demo_iso (Some (day_start 90 + 5)) (day_start 100 + 7) (\<lambda>_. None)
        \<lparr>jq_rollups = [], jq_maintenance = [], jq_events = []\<rparr>)
   in map (\<lambda>j. (qj_day j, qj_historical j)) (finalise_jobs (jq_rollups q))
     = [(Some 98, False), (Some 99, False), (Some 90, True), (Some 91, True), (Some 92, True), (Some 93, True),
        (Some 94, True), (Some 95, True), (Some 96, True), (Some 97, True)]"
proof -
  have d: "lagos_day (day_start 90 + 5) = 90" "lagos_day (day_start 100 + 7) = 100"
    by (simp_all add: lagos_day_iff day_start_def day_len_def hour_len_def)
  have u: "[90..97] = [90, 91, 92, 93, 94, 95, 96, 97::int]" by (simp add: upto.simps)
  show ?thesis
    using first_start_loads_history [OF demo_iso_inj, of "\<lambda>_. None"
        "\<lparr>jq_rollups = [], jq_maintenance = [], jq_events = []\<rparr>" "day_start 100 + 7" "day_start 90 + 5"]
    by (simp add: d u Let_def)
qed

section \<open>Days that are lost\<close>

lemma add_queue_job_kept:
  "on_file x q \<Longrightarrow> filter (\<lambda>j. qj_id j = Some x) (add_queue_job n d h i q) = filter (\<lambda>j. qj_id j = Some x) q"
  by (auto simp: add_queue_job_def split: option.splits)

lemma fold_add_kept:
  "on_file x q \<Longrightarrow> filter (\<lambda>j. qj_id j = Some x) (fold (\<lambda>d. add_queue_job n (f d) h (g d)) days q) = filter (\<lambda>j. qj_id j = Some x) q
     \<and> on_file x (fold (\<lambda>d. add_queue_job n (f d) h (g d)) days q)"
  by (induction days arbitrary: q) (auto simp: add_queue_job_kept on_file_add)

text \<open>Whatever a start queues, a job id on file keeps the jobs it has.\<close>

lemma boot_keeps_id:
  assumes "on_file x (jq_rollups q)"
  shows "filter (\<lambda>j. qj_id j = Some x) (jq_rollups (snd (onApplicationBootstrap isod first now w q)))
    = filter (\<lambda>j. qj_id j = Some x) (jq_rollups q)"
  using assms
  by (simp add: onApplicationBootstrap_def loadHistory_def Let_def rollups_history rollups_finalise add_rollup_rollups
      add_queue_job_kept fold_add_kept on_file_add del: append.simps)

text \<open>The watermark a finalisation leaves excludes every earlier day from what is owed, for ever.\<close>

lemma finalise_forgets_earlier:
  assumes "qj_name job = FinalisePreviousDay" "qj_day job = Some e" "\<not> qj_historical job"
    "svc (FinaliseDay (day_start e) False) = Inr n" "d < e + 1"
  shows "d \<notin> set (missingFinaliseDays (fst (snd (rollups_run svc at_time job (w, calls))) ''usage.finalise'') now)"
  using assms by (simp add: run_call_def markProcessed_def missing_upto)

text \<open>
  A day whose nightly finalisation fails can be lost.  While its failed job is on file (it is
  kept for seven days), every start that owes the day adds nothing under its id, so no job waits
  to finalise it; and as soon as the next day's job succeeds, the watermark moves past the day and
  no start owes it any more.
\<close>

theorem failed_day_lost:
  assumes "on_file (finalise_id isod d) (jq_rollups q)"
    "filter (\<lambda>j. qj_id j = Some (finalise_id isod d) \<and> qj_state j = Waiting) (jq_rollups q) = []"
    "qj_name job = FinalisePreviousDay" "qj_day job = Some (d + 1)" "\<not> qj_historical job"
    "svc (FinaliseDay (day_start (d + 1)) False) = Inr n"
  shows "filter (\<lambda>j. qj_id j = Some (finalise_id isod d) \<and> qj_state j = Waiting)
      (jq_rollups (snd (onApplicationBootstrap isod first now w q))) = []
    \<and> d \<notin> set (missingFinaliseDays (fst (snd (rollups_run svc t job (w, calls))) ''usage.finalise'') later)"
proof -
  have f: "filter (\<lambda>j. qj_id j = Some x \<and> qj_state j = Waiting) rs =
      filter (\<lambda>j. qj_state j = Waiting) (filter (\<lambda>j. qj_id j = Some x) rs)" for x and rs :: "queue_job list"
    by (simp add: conj_commute)
  show ?thesis
    using boot_keeps_id [OF assms(1), of isod first now w] assms(2)
      finalise_forgets_earlier [where job = job and svc = svc and d = d and at_time = t and w = w and calls = calls and now = later, OF assms(3-6)]
    unfolding f by simp
qed

theorem failed_day_lost_witness:
  "let job = \<lparr>qj_name = FinalisePreviousDay, qj_id = Some (finalise_id demo_iso 99), qj_day = Some 99,
         qj_historical = False, qj_state = FailedJob\<rparr>;
       next_job = \<lparr>qj_name = FinalisePreviousDay, qj_id = Some (finalise_id demo_iso 100), qj_day = Some 100,
         qj_historical = False, qj_state = Waiting\<rparr>;
       q = \<lparr>jq_rollups = [job], jq_maintenance = [], jq_events = []\<rparr>
   in 99 \<in> set (missingFinaliseDays None (day_start 100 + 7))
    \<and> filter (\<lambda>j. qj_id j = Some (finalise_id demo_iso 99) \<and> qj_state j = Waiting)
        (jq_rollups (snd (onApplicationBootstrap demo_iso None (day_start 100 + 7) (\<lambda>_. None) q))) = []
    \<and> 99 \<notin> set (missingFinaliseDays
        (fst (snd (rollups_run (\<lambda>_. Inr 4) (day_start 101) next_job (\<lambda>_. None, []))) ''usage.finalise'') (day_start 101 + 7))"
proof -
  have d: "lagos_day (day_start 100 + 7) = 100"
    by (simp add: lagos_day_iff day_start_def day_len_def hour_len_def)
  have m: "99 \<in> set (missingFinaliseDays None (day_start 100 + 7))"
    by (simp add: missing_upto d)
  let ?next = "\<lparr>qj_name = FinalisePreviousDay, qj_id = Some (finalise_id demo_iso 100), qj_day = Some 100,
    qj_historical = False, qj_state = Waiting\<rparr>"
  let ?q = "\<lparr>jq_rollups = [\<lparr>qj_name = FinalisePreviousDay, qj_id = Some (finalise_id demo_iso 99), qj_day = Some 99,
    qj_historical = False, qj_state = FailedJob\<rparr>], jq_maintenance = [], jq_events = []\<rparr>"
  show ?thesis
    unfolding Let_def
    by (rule conjI [OF m failed_day_lost [where d = 99 and isod = demo_iso and q = ?q and job = ?next and n = 4]]) simp_all
qed

section \<open>Ticks of two instances\<close>

text \<open>
  The jobs with an id are queued once however many instances tick; the others are not: every
  instance adds its own, although the class comment promises one job between them.
\<close>

lemma add_queue_job_again:
  "add_queue_job n d h (Some x) (add_queue_job n d h (Some x) q) = add_queue_job n d h (Some x) q"
  by (simp add: add_queue_job_def on_file_def)

lemma tick_with_id_once:
  "scheduler_tick isod stamp now TickFinalise (scheduler_tick isod stamp now TickFinalise q)
     = scheduler_tick isod stamp now TickFinalise q"
  "scheduler_tick isod stamp now TickReconcile (scheduler_tick isod stamp now TickReconcile q)
     = scheduler_tick isod stamp now TickReconcile q"
  by (simp_all add: queue_finalise_def add_rollup_def add_queue_job_again del: append.simps)

lemma tick_without_id_twice:
  "length (jq_rollups (scheduler_tick isod stamp now TickRiskScan q)) = Suc (length (jq_rollups q))"
  "length (jq_maintenance (scheduler_tick isod stamp now TickSlaSweep q)) = Suc (length (jq_maintenance q))"
  "length (jq_events (scheduler_tick isod stamp now TickEventSweep q)) = Suc (length (jq_events q))"
  by (simp_all add: add_rollup_def add_maintenance_def add_queue_job_def)

section \<open>Partitions of the request log\<close>

lemma create_partitions:
  "fst ` set (mn_partitions (fold (create_partition fmt) days s)) =
     fst ` set (mn_partitions s) \<union> (\<lambda>d. ''request_logs_'' @ fmt d) ` set days"
proof (induction days arbitrary: s)
  case (Cons d days)
  have "fst ` set (mn_partitions (create_partition fmt d s)) = insert (''request_logs_'' @ fmt d) (fst ` set (mn_partitions s))"
    by (auto simp: create_partition_def Let_def image_iff simp del: append.simps)
  with Cons.IH [of "create_partition fmt d s"] show ?case by auto
qed simp

text \<open>
  After the nightly maintenance (partitions, then retention) the request log has a partition
  for today and each of the next three days, and the partitions dropped are exactly those named
  for a day before the retention period (or for no date at all): no log inside the period is lost.
  \<open>read_day\<close> reads a partition's name back as the day \<open>fmt\<close> wrote into it.
\<close>

theorem log_partitions_kept:
  assumes "\<And>d. read_day (''request_logs_'' @ fmt d) = Some (Some d)" "0 \<le> retentionDays"
  shows "let s1 = snd (ensurePartitions fmt now s);
             (dropped, s2) = dropExpiredPartitions read_day retentionDays now s1
         in list_all (\<lambda>k. ''request_logs_'' @ fmt (lagos_day now + k) \<in> fst ` set (mn_partitions s2)) [0, 1, 2, 3]
          \<and> set dropped = {n \<in> fst ` set (mn_partitions s1). case read_day n of None \<Rightarrow> False
              | Some None \<Rightarrow> True | Some (Some d) \<Rightarrow> d < lagos_day now - retentionDays}
          \<and> fst ` set (mn_partitions s2) = fst ` set (mn_partitions s1) - set dropped"
proof -
  have loop: "day_loop 0 PARTITION_LOOKAHEAD_DAYS = [0, 1, 2, 3]"
    by (simp add: day_loop_upto PARTITION_LOOKAHEAD_DAYS_def upto.simps)
  let ?gone = "expired_partition read_day (lagos_day now - retentionDays)"
  define s1 where "s1 = snd (ensurePartitions fmt now s)"
  have in1: "''request_logs_'' @ fmt (lagos_day now + k) \<in> fst ` set (mn_partitions s1)" if "k \<in> set [0, 1, 2, 3]" for k
  proof -
    have "fst ` set (mn_partitions s1) = fst ` set (mn_partitions s)
        \<union> (\<lambda>d. ''request_logs_'' @ fmt d) ` set (map (\<lambda>o'. lagos_day now + o') [0, 1, 2, 3])"
      unfolding s1_def ensurePartitions_def Let_def loop snd_conv by (rule create_partitions)
    moreover have "lagos_day now + k \<in> set (map (\<lambda>o'. lagos_day now + o') [0, 1, 2, 3])"
      unfolding set_map using that by (rule imageI)
    ultimately show ?thesis
      by (simp only:) (rule UnI2, rule imageI)
  qed
  have keep: "\<not> ?gone (''request_logs_'' @ fmt (lagos_day now + k))" if "k \<in> set [0, 1, 2, 3]" for k
    using assms that by (auto simp: expired_partition_def simp del: append.simps)
  have parts: "fst ` set (filter (\<lambda>p. \<not> ?gone (fst p)) ps) = {n \<in> fst ` set ps. \<not> ?gone n}" for ps :: "(string \<times> millis \<times> millis) list"
    by auto
  have g: "?gone n \<longleftrightarrow> (case read_day n of None \<Rightarrow> False | Some None \<Rightarrow> True | Some (Some d) \<Rightarrow> d < lagos_day now - retentionDays)" for n
    by (auto simp: expired_partition_def split: option.split)
  have "''request_logs_'' @ fmt (lagos_day now + k) \<in> fst ` set (filter (\<lambda>p. \<not> ?gone (fst p)) (mn_partitions s1))"
    if "k \<in> set [0, 1, 2, 3]" for k
    unfolding parts using in1 [OF that] keep [OF that] by (intro CollectI conjI)
  then have A: "list_all (\<lambda>k. ''request_logs_'' @ fmt (lagos_day now + k) \<in>
      fst ` set (filter (\<lambda>p. \<not> ?gone (fst p)) (mn_partitions s1))) [0, 1, 2, 3]"
    unfolding list_all_iff by blast
  have B: "set (filter ?gone (map fst (mn_partitions s1))) = {n \<in> fst ` set (mn_partitions s1). ?gone n}"
    unfolding set_filter set_map by (rule refl)
  have C: "fst ` set (filter (\<lambda>p. \<not> ?gone (fst p)) (mn_partitions s1)) =
      fst ` set (mn_partitions s1) - set (filter ?gone (map fst (mn_partitions s1)))"
    unfolding parts B by blast
  have U: "mn_partitions (s1\<lparr>mn_partitions := ps\<rparr>) = ps" for ps by simp
  show ?thesis
    unfolding Let_def dropExpiredPartitions_def s1_def [symmetric] prod.case g [symmetric] U
    using A B C by (intro conjI)
qed

definition demo_read :: "string \<Rightarrow> int option option" where
  "demo_read n = (let t = drop 13 n in
     if take 13 n \<noteq> ''request_logs_'' then None
     else if t \<noteq> [] \<and> hd t = CHR ''-'' then Some (Some (- int (radix_value 10 (tl t))))
     else Some (Some (int (radix_value 10 t))))"

lemma demo_read_iso: "demo_read (''request_logs_'' @ demo_iso d) = Some (Some d)"
proof -
  have "hd (dec n) \<noteq> CHR ''-''" for n
    using dec_digits [of n] by (cases "dec n") (auto simp: is_digit_def)
  moreover have "dec n \<noteq> []" for n using dec_digits [of n] by simp
  ultimately show ?thesis by (simp add: demo_read_def demo_iso_def Let_def radix_value_dec)
qed

theorem log_partitions_kept_witness:
  "let s1 = snd (ensurePartitions demo_iso (day_start 100) \<lparr>mn_partitions = [(''request_logs_5'', 0, 1)], mn_exports = []\<rparr>);
       (dropped, s2) = dropExpiredPartitions demo_read 90 (day_start 100) s1
   in set dropped = {''request_logs_5''}
    \<and> list_all (\<lambda>k. ''request_logs_'' @ demo_iso (100 + k) \<in> fst ` set (mn_partitions s2)) [0, 1, 2, 3]"
proof -
  let ?s = "\<lparr>mn_partitions = [(''request_logs_5'', 0::int, 1::int)], mn_exports = [] :: (string \<times> millis option) list\<rparr>"
  have five: "demo_read ''request_logs_5'' = Some (Some 5)" by code_simp
  have loop: "day_loop 0 PARTITION_LOOKAHEAD_DAYS = [0, 1, 2, 3]"
    by (simp add: day_loop_upto PARTITION_LOOKAHEAD_DAYS_def upto.simps)
  have names: "fst ` set (mn_partitions (snd (ensurePartitions demo_iso (day_start 100) ?s))) =
      {''request_logs_5''} \<union> (\<lambda>d. ''request_logs_'' @ demo_iso d) ` {100, 101, 102, 103}"
    unfolding ensurePartitions_def Let_def loop snd_conv create_partitions by (simp del: append.simps)
  have "{n \<in> {''request_logs_5''} \<union> (\<lambda>d. ''request_logs_'' @ demo_iso d) ` {100, 101, 102, 103}.
      case demo_read n of None \<Rightarrow> False | Some None \<Rightarrow> True | Some (Some d) \<Rightarrow> d < 100 - 90} = {''request_logs_5''}"
    by (auto simp: demo_read_iso five simp del: append.simps)
  note E = this
  have "let s1 = snd (ensurePartitions demo_iso (day_start 100) ?s);
       (dropped, s2) = dropExpiredPartitions demo_read 90 (day_start 100) s1
     in list_all (\<lambda>k. ''request_logs_'' @ demo_iso (lagos_day (day_start 100) + k) \<in> fst ` set (mn_partitions s2)) [0, 1, 2, 3]
      \<and> set dropped = {n \<in> fst ` set (mn_partitions s1). case demo_read n of None \<Rightarrow> False
          | Some None \<Rightarrow> True | Some (Some d) \<Rightarrow> d < lagos_day (day_start 100) - 90}
      \<and> fst ` set (mn_partitions s2) = fst ` set (mn_partitions s1) - set dropped"
    by (rule log_partitions_kept [OF demo_read_iso]) simp
  then show ?thesis
    unfolding Let_def split_def names E lagos_day_start by (elim conjE) (intro conjI)
qed

end
