(* ===== verification/Bulk_Upsert.thy ===== *)
theory Bulk_Upsert
  imports Js_Number "HOL-Library.AList"
begin

text \<open>
  \<open>modules/rollups/bulk-upsert.ts\<close>: the writers of the rollup tables.  Rows are merged by key,
  split into chunks of 500 and each chunk is one \<open>INSERT ... ON CONFLICT DO UPDATE\<close>, which
  PostgreSQL refuses when a statement names one key twice.  Money is a numeric (a rational); the
  columns hold four decimals.  \<open>ymd\<close> stands for toISOString cut to the day and \<open>dadd\<close> for the
  addition of two Decimals.
\<close>

section \<open>Statements\<close>

text \<open>A numeric stored in a Decimal(19, 4) column: four decimals, a half rounds away from zero.\<close>

definition money :: "rat \<Rightarrow> rat" where
  "money q = (let n = of_int \<lfloor>\<bar>q\<bar> * 10000 + 1 / 2\<rfloor> / 10000 in if q < 0 then - n else n)"

definition upsert_row :: "('t \<Rightarrow> 'k) \<Rightarrow> ('t \<Rightarrow> 't \<Rightarrow> 't) \<Rightarrow> 't \<Rightarrow> 't list \<Rightarrow> 't list" where
  "upsert_row key upd row table =
     (if key row \<in> set (map key table)
      then update_where (\<lambda>t. key t = key row) (upd row) table
      else table @ [row])"

definition insert_on_conflict ::
  "('t \<Rightarrow> 'k) \<Rightarrow> ('t \<Rightarrow> 't \<Rightarrow> 't) \<Rightarrow> 't list \<Rightarrow> 't list \<Rightarrow> (('t list), unit) outcome" where
  "insert_on_conflict key upd rows table =
     (if distinct (map key rows) then returns () (fold (upsert_row key upd) rows table)
      else throws (PlainError ''ON CONFLICT DO UPDATE command cannot affect row a second time'') table)"

text \<open>The loop over the chunks: a failed statement leaves what the earlier ones wrote.\<close>

fun execute_chunks ::
  "('t \<Rightarrow> 'k) \<Rightarrow> ('t \<Rightarrow> 't \<Rightarrow> 't) \<Rightarrow> 't list list \<Rightarrow> 't list \<Rightarrow> (('t list), unit) outcome" where
  "execute_chunks key upd [] table = returns () table"
| "execute_chunks key upd (c # cs) table =
     (case insert_on_conflict key upd c table of
        (Inl e, t) \<Rightarrow> throws e t
      | (Inr _, t) \<Rightarrow> execute_chunks key upd cs t)"

definition CHUNK :: nat where "CHUNK = 500"

section \<open>Merging\<close>

text \<open>A JavaScript Map keeps insertion order and replaces in place, as \<open>AList.update\<close> does.\<close>

definition merge_row :: "('r \<Rightarrow> 'k) \<Rightarrow> ('r \<Rightarrow> 'r \<Rightarrow> 'r) \<Rightarrow> 'r \<Rightarrow> ('k \<times> 'r) list \<Rightarrow> ('k \<times> 'r) list" where
  "merge_row key add2 row byKey =
     (let k = key row in
      AList.update k (case map_of byKey k of None \<Rightarrow> row | Some seen \<Rightarrow> add2 seen row) byKey)"

definition mergeByKey :: "('r \<Rightarrow> 'k) \<Rightarrow> ('r \<Rightarrow> 'r \<Rightarrow> 'r) \<Rightarrow> 'r list \<Rightarrow> 'r list" where
  "mergeByKey key add2 rows = map snd (fold (merge_row key add2) rows [])"

definition nul :: char where "nul = CHR 0x00"

definition int_text :: "int \<Rightarrow> string" where
  "int_text n = (if n < 0 then CHR ''-'' # dec (nat (- n)) else dec (nat n))"

section \<open>Usage\<close>

record usage_bucket =
  ub_date :: millis
  ub_hour :: int
  ub_channel :: string
  ub_account :: string
  ub_country :: string
  ub_provider :: string
  ub_attempted :: int
  ub_succeeded :: int
  ub_failed :: int
  ub_units :: int
  ub_revenue :: rat
  ub_cost :: rat

record usage_rollup = usage_bucket +
  ur_finalisedAt :: "millis option"
  ur_updatedAt :: millis

definition usage_key :: "('m) usage_bucket_scheme \<Rightarrow> millis \<times> int \<times> string \<times> string \<times> string \<times> string" where
  "usage_key r = (ub_date r, ub_hour r, ub_channel r, ub_account r, ub_country r, ub_provider r)"

definition usage_text :: "(millis \<Rightarrow> string) \<Rightarrow> usage_bucket \<Rightarrow> string" where
  "usage_text ymd r = join_with [nul]
     [ymd (ub_date r), int_text (ub_hour r), ub_channel r, ub_account r, ub_country r, ub_provider r]"

definition sum_usage :: "(rat \<Rightarrow> rat \<Rightarrow> rat) \<Rightarrow> usage_bucket \<Rightarrow> usage_bucket \<Rightarrow> usage_bucket" where
  "sum_usage dadd a b = a\<lparr>
     ub_attempted := ub_attempted a + ub_attempted b,
     ub_succeeded := ub_succeeded a + ub_succeeded b,
     ub_failed := ub_failed a + ub_failed b,
     ub_units := ub_units a + ub_units b,
     ub_revenue := dadd (ub_revenue a) (ub_revenue b),
     ub_cost := dadd (ub_cost a) (ub_cost b)\<rparr>"

definition mergeUsage ::
  "(millis \<Rightarrow> string) \<Rightarrow> (rat \<Rightarrow> rat \<Rightarrow> rat) \<Rightarrow> usage_bucket list \<Rightarrow> usage_bucket list" where
  "mergeUsage ymd dadd = mergeByKey (usage_text ymd) (sum_usage dadd)"

text \<open>The row a statement would insert, and what it leaves of a row already there.\<close>

definition usage_row :: "millis option \<Rightarrow> millis \<Rightarrow> usage_bucket \<Rightarrow> usage_rollup" where
  "usage_row finalisedAt dbnow r = usage_bucket.extend
     (r\<lparr>ub_revenue := money (ub_revenue r), ub_cost := money (ub_cost r)\<rparr>)
     \<lparr>ur_finalisedAt = finalisedAt, ur_updatedAt = dbnow\<rparr>"

definition replace_usage :: "usage_rollup \<Rightarrow> usage_rollup \<Rightarrow> usage_rollup" where
  "replace_usage new old = old\<lparr>
     ub_attempted := ub_attempted new, ub_succeeded := ub_succeeded new, ub_failed := ub_failed new,
     ub_units := ub_units new, ub_revenue := ub_revenue new, ub_cost := ub_cost new,
     ur_finalisedAt := (case ur_finalisedAt new of None \<Rightarrow> ur_finalisedAt old | Some t \<Rightarrow> Some t),
     ur_updatedAt := ur_updatedAt new\<rparr>"

definition upsertUsageRows ::
  "(millis \<Rightarrow> string) \<Rightarrow> (rat \<Rightarrow> rat \<Rightarrow> rat) \<Rightarrow> millis \<Rightarrow> usage_bucket list \<Rightarrow> millis option
     \<Rightarrow> usage_rollup list \<Rightarrow> (usage_rollup list, unit) outcome" where
  "upsertUsageRows ymd dadd dbnow rows finalisedAt =
     execute_chunks usage_key replace_usage
       (map (map (usage_row finalisedAt dbnow)) (chunked CHUNK (mergeUsage ymd dadd rows)))"

section \<open>Destinations\<close>

record destination_row =
  dr_date :: millis
  dr_channel :: string
  dr_account :: string
  dr_country :: string
  dr_network :: string
  dr_attempted :: int
  dr_delivered :: int
  dr_cost :: rat

record destination_rollup = destination_row +
  de_updatedAt :: millis

definition destination_key :: "('m) destination_row_scheme \<Rightarrow> millis \<times> string \<times> string \<times> string \<times> string" where
  "destination_key r = (dr_date r, dr_channel r, dr_account r, dr_country r, dr_network r)"

definition destination_text :: "(millis \<Rightarrow> string) \<Rightarrow> destination_row \<Rightarrow> string" where
  "destination_text ymd r = join_with [nul]
     [ymd (dr_date r), dr_channel r, dr_account r, dr_country r, dr_network r]"

definition sum_destinations :: "(rat \<Rightarrow> rat \<Rightarrow> rat) \<Rightarrow> destination_row \<Rightarrow> destination_row \<Rightarrow> destination_row" where
  "sum_destinations dadd a b = a\<lparr>
     dr_attempted := dr_attempted a + dr_attempted b,
     dr_delivered := dr_delivered a + dr_delivered b,
     dr_cost := dadd (dr_cost a) (dr_cost b)\<rparr>"

definition mergeDestinations ::
  "(millis \<Rightarrow> string) \<Rightarrow> (rat \<Rightarrow> rat \<Rightarrow> rat) \<Rightarrow> destination_row list \<Rightarrow> destination_row list" where
  "mergeDestinations ymd dadd = mergeByKey (destination_text ymd) (sum_destinations dadd)"

definition destination_new :: "millis \<Rightarrow> destination_row \<Rightarrow> destination_rollup" where
  "destination_new dbnow r = destination_row.extend (r\<lparr>dr_cost := money (dr_cost r)\<rparr>) \<lparr>de_updatedAt = dbnow\<rparr>"

definition replace_destination :: "destination_rollup \<Rightarrow> destination_rollup \<Rightarrow> destination_rollup" where
  "replace_destination new old = old\<lparr>
     dr_attempted := dr_attempted new, dr_delivered := dr_delivered new,
     dr_cost := dr_cost new, de_updatedAt := de_updatedAt new\<rparr>"

definition upsertDestinationRows ::
  "(millis \<Rightarrow> string) \<Rightarrow> (rat \<Rightarrow> rat \<Rightarrow> rat) \<Rightarrow> millis \<Rightarrow> destination_row list
     \<Rightarrow> destination_rollup list \<Rightarrow> (destination_rollup list, unit) outcome" where
  "upsertDestinationRows ymd dadd dbnow rows =
     execute_chunks destination_key replace_destination
       (map (map (destination_new dbnow)) (chunked CHUNK (mergeDestinations ymd dadd rows)))"

section \<open>Requests\<close>

record request_row =
  qr_date :: millis
  qr_hour :: int
  qr_account :: string
  qr_endpoint :: string
  qr_verb :: string
  qr_country :: string
  qr_total :: int
  qr_clientErrors :: int
  qr_serverErrors :: int

record request_rollup = request_row +
  re_updatedAt :: millis

definition request_key :: "('m) request_row_scheme \<Rightarrow> millis \<times> int \<times> string \<times> string \<times> string \<times> string" where
  "request_key r = (qr_date r, qr_hour r, qr_account r, qr_endpoint r, qr_verb r, qr_country r)"

definition request_text :: "(millis \<Rightarrow> string) \<Rightarrow> request_row \<Rightarrow> string" where
  "request_text ymd r = join_with [nul]
     [ymd (qr_date r), int_text (qr_hour r), qr_account r, qr_endpoint r, qr_verb r, qr_country r]"

definition sum_requests :: "request_row \<Rightarrow> request_row \<Rightarrow> request_row" where
  "sum_requests a b = a\<lparr>
     qr_total := qr_total a + qr_total b,
     qr_clientErrors := qr_clientErrors a + qr_clientErrors b,
     qr_serverErrors := qr_serverErrors a + qr_serverErrors b\<rparr>"

definition mergeRequests :: "(millis \<Rightarrow> string) \<Rightarrow> request_row list \<Rightarrow> request_row list" where
  "mergeRequests ymd = mergeByKey (request_text ymd) sum_requests"

definition request_new :: "millis \<Rightarrow> request_row \<Rightarrow> request_rollup" where
  "request_new dbnow r = request_row.extend r \<lparr>re_updatedAt = dbnow\<rparr>"

definition replace_request :: "request_rollup \<Rightarrow> request_rollup \<Rightarrow> request_rollup" where
  "replace_request new old = old\<lparr>
     qr_total := qr_total new, qr_clientErrors := qr_clientErrors new,
     qr_serverErrors := qr_serverErrors new, re_updatedAt := re_updatedAt new\<rparr>"

definition upsertRequestRows ::
  "(millis \<Rightarrow> string) \<Rightarrow> millis \<Rightarrow> request_row list
     \<Rightarrow> request_rollup list \<Rightarrow> (request_rollup list, unit) outcome" where
  "upsertRequestRows ymd dbnow rows =
     execute_chunks request_key replace_request
       (map (map (request_new dbnow)) (chunked CHUNK (mergeRequests ymd rows)))"

section \<open>Facts\<close>

subsection \<open>Statements\<close>

lemma keys_update_where:
  "(\<And>a b. key (upd a b) = key b) \<Longrightarrow> map key (update_where p (upd r) table) = map key table"
  by (rule map_update_where) simp

lemma keys_upsert_row:
  assumes "\<And>a b. key (upd a b) = key b"
  shows "map key (upsert_row key upd r table) =
    (if key r \<in> set (map key table) then map key table else map key table @ [key r])"
  using assms by (simp add: upsert_row_def keys_update_where)

lemma distinct_upsert_row:
  assumes "\<And>a b. key (upd a b) = key b" "distinct (map key table)"
  shows "distinct (map key (upsert_row key upd r table))"
  unfolding keys_upsert_row [of key upd, OF assms(1)] using assms(2) by simp

text \<open>What a row becomes: itself, or the row of its key with the new values in it.\<close>

definition put_over :: "('t \<Rightarrow> 'k) \<Rightarrow> ('t \<Rightarrow> 't \<Rightarrow> 't) \<Rightarrow> 't list \<Rightarrow> 't \<Rightarrow> 't" where
  "put_over key upd table r = (case find_row (\<lambda>t. key t = key r) table of None \<Rightarrow> r | Some t \<Rightarrow> upd r t)"

lemma find_upsert_row:
  assumes "\<And>a b. key (upd a b) = key b" "k \<noteq> key r"
  shows "find_row (\<lambda>t. key t = k) (upsert_row key upd r table) = find_row (\<lambda>t. key t = k) table"
proof (cases "key r \<in> set (map key table)")
  case True
  have "find_row (\<lambda>t. key t = k) (update_where (\<lambda>t. key t = key r) (upd r) table)
    = map_option (\<lambda>t. if key t = key r then upd r t else t) (find_row (\<lambda>t. key t = k) table)"
    by (rule find_row_update_where) (simp add: assms)
  also have "\<dots> = find_row (\<lambda>t. key t = k) table"
    using assms(2) by (cases "find_row (\<lambda>t. key t = k) table") (auto dest: find_row_SomeD)
  finally show ?thesis using True by (simp add: upsert_row_def)
next
  case False
  then show ?thesis
    using assms(2) by (simp add: upsert_row_def find_row_append split: option.splits)
qed

lemma set_upsert_row:
  assumes "\<And>a b. key (upd a b) = key b" "distinct (map key table)"
  shows "set (upsert_row key upd r table) =
    {t \<in> set table. key t \<noteq> key r} \<union> {put_over key upd table r}"
proof (cases "key r \<in> set (map key table)")
  case True
  then obtain t where t: "t \<in> set table" "key t = key r" by auto
  have f: "find_row (\<lambda>x. key x = key r) table = Some t"
    using find_row_unique [OF assms(2) t(1)] t(2) by simp
  have u: "x = t" if "x \<in> set table" "key x = key r" for x
    using find_row_unique [OF assms(2) that(1)] that(2) f by simp
  have "set (upsert_row key upd r table) = (\<lambda>x. if key x = key r then upd r x else x) ` set table"
    using True by (simp add: upsert_row_def set_update_where)
  also have "\<dots> = {x \<in> set table. key x \<noteq> key r} \<union> {upd r t}"
  proof (rule set_eqI)
    fix y
    show "y \<in> (\<lambda>x. if key x = key r then upd r x else x) ` set table
      \<longleftrightarrow> y \<in> {x \<in> set table. key x \<noteq> key r} \<union> {upd r t}"
    proof
      assume "y \<in> (\<lambda>x. if key x = key r then upd r x else x) ` set table"
      then obtain x where x: "x \<in> set table" "y = (if key x = key r then upd r x else x)" by blast
      then show "y \<in> {x \<in> set table. key x \<noteq> key r} \<union> {upd r t}"
        by (cases "key x = key r") (use u in auto)
    next
      assume "y \<in> {x \<in> set table. key x \<noteq> key r} \<union> {upd r t}"
      then show "y \<in> (\<lambda>x. if key x = key r then upd r x else x) ` set table"
        using t by (auto simp: image_iff)
    qed
  qed
  finally show ?thesis by (simp add: put_over_def f)
next
  case False
  then have "find_row (\<lambda>x. key x = key r) table = None"
    by (auto simp: find_row_None_iff image_iff)
  with False show ?thesis by (auto simp: upsert_row_def put_over_def image_iff)
qed

lemma set_upserts:
  assumes "\<And>a b. key (upd a b) = key b" "distinct (map key table)" "distinct (map key rows)"
  shows "distinct (map key (fold (upsert_row key upd) rows table)) \<and>
    set (fold (upsert_row key upd) rows table) =
      {t \<in> set table. key t \<notin> key ` set rows} \<union> put_over key upd table ` set rows"
  using assms(2,3)
proof (induction rows arbitrary: table)
  case (Cons r rs)
  let ?t = "upsert_row key upd r table"
  have d: "distinct (map key ?t)"
    by (rule distinct_upsert_row) (simp_all add: assms(1) Cons.prems)
  have p: "put_over key upd ?t x = put_over key upd table x" if "x \<in> set rs" for x
  proof -
    have "key x \<noteq> key r" using Cons.prems(2) that by (metis distinct.simps(2) image_eqI list.set_map list.simps(9))
    then show ?thesis
      unfolding put_over_def by (simp add: find_upsert_row [of key upd, OF assms(1)])
  qed
  have k: "key (put_over key upd table r) = key r"
    unfolding put_over_def by (auto split: option.splits simp: assms(1) dest: find_row_SomeD)
  have nr: "key r \<notin> key ` set rs" using Cons.prems(2) by simp
  have s: "set (fold (upsert_row key upd) rs ?t) =
      {t \<in> set ?t. key t \<notin> key ` set rs} \<union> put_over key upd ?t ` set rs"
    and dd: "distinct (map key (fold (upsert_row key upd) rs ?t))"
    using Cons.IH [OF d] Cons.prems(2) by simp_all
  have "put_over key upd ?t ` set rs = put_over key upd table ` set rs"
    using p by (rule image_cong [OF refl])
  moreover have "{t \<in> set ?t. key t \<notin> key ` set rs} =
      {t \<in> set table. key t \<notin> key ` set (r # rs)} \<union> {put_over key upd table r}"
    unfolding set_upsert_row [of key upd, OF assms(1) Cons.prems(1)] using k nr by (auto simp: image_iff)
  ultimately show ?case using s dd by (simp add: Un_assoc insert_commute Un_commute)
qed simp

lemma fold_execute_chunks:
  assumes "distinct (map key (concat cs))"
  shows "execute_chunks key upd cs table = returns () (fold (upsert_row key upd) (concat cs) table)"
  using assms by (induction cs arbitrary: table) (auto simp: insert_on_conflict_def)

subsection \<open>Merging\<close>

lemma merge_row_keys:
  "map fst (merge_row key add2 r m) = (if key r \<in> fst ` set m then map fst m else map fst m @ [key r])"
  by (simp add: merge_row_def Let_def update_keys)

lemma distinct_merged:
  "distinct (map fst m) \<Longrightarrow> distinct (map fst (fold (merge_row key add2) rows m))"
  by (induction rows arbitrary: m) (simp_all add: merge_row_keys)

lemma set_AList_update: "p \<in> set (AList.update k v al) \<Longrightarrow> p \<in> set al \<or> p = (k, v)"
  by (induction al) (auto split: if_splits)

lemma merge_keeps_keys:
  assumes "\<And>a b. key (add2 a b) = key a" "\<forall>p \<in> set m. key (snd p) = fst p"
  shows "\<forall>p \<in> set (fold (merge_row key add2) rows m). key (snd p) = fst p"
  using assms(2)
proof (induction rows arbitrary: m)
  case (Cons r rs)
  have "\<forall>p \<in> set (merge_row key add2 r m). key (snd p) = fst p"
  proof
    fix p assume "p \<in> set (merge_row key add2 r m)"
    then have "p \<in> set m \<or> p = (key r, case map_of m (key r) of None \<Rightarrow> r | Some seen \<Rightarrow> add2 seen r)"
      by (auto simp: merge_row_def Let_def dest: set_AList_update)
    then show "key (snd p) = fst p"
      using Cons.prems by (force simp: assms(1) split: option.splits dest: map_of_SomeD)
  qed
  then show ?case using Cons.IH by simp
qed simp

lemma merged_fst: "map fst (fold (merge_row key add2) rows m) = map fst m @ js_set (filter (\<lambda>k. k \<notin> fst ` set m) (map key rows))"
proof (induction rows arbitrary: m)
  case (Cons r rs)
  have s: "fst ` set (merge_row key add2 r m) = insert (key r) (fst ` set m)"
    by (simp add: merge_row_def Let_def dom_update)
  show ?case
    unfolding fold_simps Cons.IH s merge_row_keys
    by (cases "key r \<in> fst ` set m") (simp_all add: insert_absorb conj_commute)
qed simp

lemma length_js_set_le: "length (js_set xs) \<le> length xs"
  by (induction xs rule: js_set.induct) (auto intro: le_trans [OF _ length_filter_le])

lemma js_set_distinct: "distinct xs \<Longrightarrow> js_set xs = xs"
proof (induction xs rule: js_set.induct)
  case (2 x xs)
  then have "filter (\<lambda>y. y \<noteq> x) xs = xs" by (auto simp: filter_id_conv)
  with 2 show ?case by simp
qed simp

text \<open>
  The contract of a rollup table's writer: the merge key is unchanged by adding rows together and
  is settled by the columns of the unique index, which an update leaves alone.
\<close>

locale rollup_table =
  fixes key_text :: "'r \<Rightarrow> string" and add2 :: "'r \<Rightarrow> 'r \<Rightarrow> 'r" and new_row :: "'r \<Rightarrow> 't"
    and key :: "'t \<Rightarrow> 'k" and upd :: "'t \<Rightarrow> 't \<Rightarrow> 't"
  assumes text_add: "key_text (add2 a b) = key_text a"
    and key_settles: "key (new_row a) = key (new_row b) \<Longrightarrow> key_text a = key_text b"
    and key_upd: "key (upd x y) = key y"
begin

lemma merged_texts: "map key_text (mergeByKey key_text add2 rows) = js_set (map key_text rows)"
proof -
  let ?m = "fold (merge_row key_text add2) rows []"
  have "map key_text (map snd ?m) = map fst ?m"
    using merge_keeps_keys [of key_text add2 "[]" rows, OF text_add] by auto
  then show ?thesis
    by (simp add: mergeByKey_def merged_fst)
qed

lemma merged_distinct: "distinct (map (key \<circ> new_row) (mergeByKey key_text add2 rows))"
proof -
  let ?m = "mergeByKey key_text add2 rows"
  have "distinct (map key_text ?m)" by (simp add: merged_texts)
  then have "inj_on key_text (set ?m)" and "distinct ?m" by (simp_all add: distinct_map)
  then have "inj_on (key \<circ> new_row) (set ?m)"
    by (auto simp: inj_on_def dest: key_settles)
  with \<open>distinct ?m\<close> show ?thesis by (simp add: distinct_map)
qed

text \<open>The statements of a run never name a key twice: it writes every merged row, whatever the chunks.\<close>

lemma writes_all:
  "0 < n \<Longrightarrow> execute_chunks key upd (map (map new_row) (chunked n (mergeByKey key_text add2 rows))) table
    = returns () (fold (upsert_row key upd) (map new_row (mergeByKey key_text add2 rows)) table)"
proof -
  assume "0 < n"
  then have c: "concat (map (map new_row) (chunked n (mergeByKey key_text add2 rows)))
      = map new_row (mergeByKey key_text add2 rows)"
    by (simp add: map_concat [symmetric] concat_chunked)
  show ?thesis
    unfolding fold_execute_chunks [of key "map (map new_row) (chunked n (mergeByKey key_text add2 rows))",
      unfolded c, simplified, OF merged_distinct] by (rule refl)
qed

lemma merged_distinct_id:
  assumes "distinct (map key_text rows)"
  shows "mergeByKey key_text add2 rows = rows"
proof -
  have "fold (merge_row key_text add2) rows m = m @ map (\<lambda>r. (key_text r, r)) rows"
    if "distinct (map fst m @ map key_text rows)" for m
    using that
  proof (induction rows arbitrary: m)
    case (Cons r rs)
    then have n: "key_text r \<notin> fst ` set m" by auto
    have "AList.update (key_text r) v m = m @ [(key_text r, v)]" for v
      using n by (induction m) auto
    moreover have "map_of m (key_text r) = None" using n by (simp add: map_of_eq_None_iff)
    ultimately have "merge_row key_text add2 r m = m @ [(key_text r, r)]"
      by (simp add: merge_row_def)
    with Cons show ?case by simp
  qed simp
  from this [of "[]"] assms show ?thesis
    by (simp add: mergeByKey_def comp_def)
qed

lemma merged_total:
  fixes f :: "'r \<Rightarrow> 'v::comm_monoid_add"
  assumes "\<And>a b. f (add2 a b) = f a + f b"
  shows "(\<Sum>r \<leftarrow> mergeByKey key_text add2 rows. f r) = (\<Sum>r \<leftarrow> rows. f r)"
proof -
  have u: "(\<Sum>p \<leftarrow> AList.update k (case map_of m k of None \<Rightarrow> r | Some s \<Rightarrow> add2 s r) m. f (snd p))
      = (\<Sum>p \<leftarrow> m. f (snd p)) + f r" for m k r
    by (induction m) (auto simp: assms ac_simps)
  have "(\<Sum>p \<leftarrow> fold (merge_row key_text add2) rows m. f (snd p)) = (\<Sum>p \<leftarrow> m. f (snd p)) + (\<Sum>r \<leftarrow> rows. f r)" for m
    by (induction rows arbitrary: m) (simp_all add: merge_row_def Let_def u ac_simps)
  from this [of "[]"] show ?thesis by (simp add: mergeByKey_def comp_def)
qed

end

text \<open>The three writers of the code.\<close>

interpretation usage: rollup_table "usage_text ymd" "sum_usage dadd" "usage_row finalisedAt dbnow" usage_key replace_usage
  for ymd dadd finalisedAt dbnow
  by unfold_locales (simp_all add: usage_text_def sum_usage_def usage_row_def usage_key_def replace_usage_def usage_bucket.defs)

interpretation destinations: rollup_table "destination_text ymd" "sum_destinations dadd" "destination_new dbnow"
    destination_key replace_destination
  for ymd dadd dbnow
  by unfold_locales (simp_all add: destination_text_def sum_destinations_def destination_new_def destination_key_def
      replace_destination_def destination_row.defs)

interpretation requests: rollup_table "request_text ymd" sum_requests "request_new dbnow" request_key replace_request
  for ymd dbnow
  by unfold_locales (simp_all add: request_text_def sum_requests_def request_new_def request_key_def
      replace_request_def request_row.defs)

lemma CHUNK_pos: "0 < CHUNK"
  by (simp add: CHUNK_def)

text \<open>Every run of a writer succeeds and leaves the merged rows over what was there.\<close>

lemma upsertUsageRows_writes:
  "upsertUsageRows ymd dadd dbnow rows f table =
    returns () (fold (upsert_row usage_key replace_usage) (map (usage_row f dbnow) (mergeUsage ymd dadd rows)) table)"
  unfolding upsertUsageRows_def mergeUsage_def by (rule usage.writes_all [OF CHUNK_pos])

lemma upsertDestinationRows_writes:
  "upsertDestinationRows ymd dadd dbnow rows table =
    returns () (fold (upsert_row destination_key replace_destination)
      (map (destination_new dbnow) (mergeDestinations ymd dadd rows)) table)"
  unfolding upsertDestinationRows_def mergeDestinations_def by (rule destinations.writes_all [OF CHUNK_pos])

lemma upsertRequestRows_writes:
  "upsertRequestRows ymd dbnow rows table =
    returns () (fold (upsert_row request_key replace_request) (map (request_new dbnow) (mergeRequests ymd rows)) table)"
  unfolding upsertRequestRows_def mergeRequests_def by (rule requests.writes_all [OF CHUNK_pos])

subsection \<open>The joined key\<close>

lemma split_join:
  assumes "xs \<noteq> []" "\<forall>x \<in> set xs. c \<notin> set x"
  shows "split_on c (join_with [c] xs) = xs"
  using assms
proof (induction xs)
  case (Cons x xs)
  then show ?case
    by (cases xs) (simp_all add: split_on_no_sep split_on_append)
qed simp

text \<open>Without a NUL in the parts, which PostgreSQL's text never has, the joined text settles the parts.\<close>

lemma join_inj:
  assumes "join_with [c] xs = join_with [c] ys" "xs \<noteq> []" "ys \<noteq> []"
    "\<forall>x \<in> set xs. c \<notin> set x" "\<forall>y \<in> set ys. c \<notin> set y"
  shows "xs = ys"
  using split_join [OF assms(2,4)] split_join [OF assms(3,5)] assms(1) by metis

lemma int_text_inj: "int_text a = int_text b \<Longrightarrow> a = b"
proof -
  assume e: "int_text a = int_text b"
  have d: "\<not> is_digit (CHR ''-'')" by (simp add: is_digit_def)
  have h: "\<exists>c cs. dec n = c # cs \<and> is_digit c" for n
    using dec_digits [of n] by (cases "dec n") auto
  show "a = b"
  proof (cases "a < 0"; cases "b < 0")
    assume "a < 0" "b < 0"
    with e have "dec (nat (- a)) = dec (nat (- b))" by (simp add: int_text_def)
    then have "nat (- a) = nat (- b)" by (rule dec_inj)
    with \<open>a < 0\<close> \<open>b < 0\<close> show ?thesis by simp
  next
    assume "\<not> a < 0" "\<not> b < 0"
    with e have "dec (nat a) = dec (nat b)" by (simp add: int_text_def)
    then have "nat a = nat b" by (rule dec_inj)
    with \<open>\<not> a < 0\<close> \<open>\<not> b < 0\<close> show ?thesis by simp
  next
    assume "a < 0" "\<not> b < 0"
    with e d h [of "nat b"] show ?thesis by (auto simp: int_text_def)
  next
    assume "\<not> a < 0" "b < 0"
    with e d h [of "nat a"] show ?thesis by (auto simp: int_text_def)
  qed
qed

lemma int_text_no_nul: "nul \<notin> set (int_text n)"
proof -
  have "nul \<notin> set (dec m)" for m
    using dec_digits [of m] by (auto simp: list_all_iff nul_def is_digit_def)
  then show ?thesis by (simp add: int_text_def nul_def)
qed

lemma usage_text_settles:
  assumes "usage_text ymd a = usage_text ymd b"
    "\<And>d. nul \<notin> set (ymd d)" "\<And>d e. ymd d = ymd e \<Longrightarrow> d \<in> D \<Longrightarrow> e \<in> D \<Longrightarrow> d = e" "ub_date a \<in> D" "ub_date b \<in> D"
    "\<forall>t \<in> {ub_channel a, ub_account a, ub_country a, ub_provider a, ub_channel b, ub_account b, ub_country b, ub_provider b}. nul \<notin> set t"
  shows "usage_key a = usage_key b"
proof -
  have "[ymd (ub_date a), int_text (ub_hour a), ub_channel a, ub_account a, ub_country a, ub_provider a]
      = [ymd (ub_date b), int_text (ub_hour b), ub_channel b, ub_account b, ub_country b, ub_provider b]"
    by (rule join_inj [of nul]) (use assms in \<open>simp_all add: usage_text_def int_text_no_nul\<close>)
  then show ?thesis
    using assms(3-5) by (simp add: usage_key_def int_text_inj)
qed

end
