(* ===== verification/Rollups.thy ===== *)
theory Rollups
  imports Bulk_Upsert Lagos
begin

text \<open>
  \<open>modules/rollups/rollups.service.ts\<close>: the aggregates every screen reads, built from the
  product's rows.  The SQL is written out over lists of rows: a WHERE is a filter, a GROUP BY lists
  each distinct key once with its rows.  A timestamp is its instant, a date column the UTC midnight
  that carries a Lagos day.  \<open>qdiv\<close> is PostgreSQL's division of numerics, \<open>now\<close> the service's clock
  and \<open>dbnow\<close> the clock of the Admin database.
\<close>

section \<open>The product's rows\<close>

record log_event =
  lg_id :: string
  lg_account :: string
  lg_channel :: string
  lg_status :: string
  lg_tab :: "string option"
  lg_operator :: "string option"
  lg_country :: "string option"
  lg_cost :: "rat option"
  lg_createdAt :: millis

record tab_transaction =
  tb_id :: string
  tb_type :: string
  tb_status :: string
  tb_charge :: rat
  tb_refundFor :: "string option"
  tb_account :: string
  tb_channel :: "string option"
  tb_balanceAfter :: rat
  tb_requestId :: string
  tb_createdAt :: millis

record payment =
  py_amount :: rat
  py_status :: string
  py_createdAt :: millis

record account_balance =
  ab_id :: string
  ab_status :: string
  ab_balance :: rat
  ab_createdAt :: millis
  ab_country :: string
  ab_billingAddress :: string
  ab_ownerName :: "string option"
  ab_email :: string

record subscription =
  sb_planId :: string
  sb_status :: string
  sb_createdAt :: millis
  sb_cancelledAt :: "millis option"
  sb_periodStart :: millis

record plan_price =
  pz_id :: string
  pz_interval :: string
  pz_basePrice :: rat

record api_call =
  cl_prefix :: "string option"
  cl_endpoint :: string
  cl_method :: string
  cl_country :: "string option"
  cl_statusCode :: int
  cl_createdAt :: millis

record product_db =
  pd_events :: "log_event list"
  pd_tabs :: "tab_transaction list"
  pd_payments :: "payment list"
  pd_accounts :: "account_balance list"
  pd_subscriptions :: "subscription list"
  pd_plans :: "plan_price list"
  pd_calls :: "api_call list"
  pd_keys :: "(string \<times> string) list"

section \<open>The rollup tables\<close>

record cash_rollup =
  cr_date :: millis
  cr_collected :: rat
  cr_refunded :: rat
  cr_fees :: rat
  cr_paymentCount :: nat
  cr_failedCount :: nat

record finance_snapshot =
  fs_date :: millis
  fs_subscriptionRevenue :: rat
  fs_creditLiability :: rat
  fs_mrr :: rat
  fs_activeAccounts :: nat
  fs_newAccounts :: nat
  fs_activatedAccounts :: nat

record watermark =
  wm_job :: string
  wm_processedTo :: millis
  wm_lastRunAt :: millis
  wm_lastError :: "string option"

record rollup_store =
  rs_usage :: "usage_rollup list"
  rs_destinations :: "destination_rollup list"
  rs_requests :: "request_rollup list"
  rs_cash :: "cash_rollup list"
  rs_finance :: "finance_snapshot list"
  rs_watermarks :: "watermark list"

section \<open>Queries\<close>

definition coalesce :: "'a option \<Rightarrow> 'a \<Rightarrow> 'a" where
  "coalesce x d = (case x of None \<Rightarrow> d | Some v \<Rightarrow> v)"

definition in_window :: "millis \<Rightarrow> millis \<Rightarrow> millis \<Rightarrow> bool" where
  "in_window start finish t \<longleftrightarrow> start \<le> t \<and> t < finish"

definition group_rows :: "('a \<Rightarrow> 'k) \<Rightarrow> 'a list \<Rightarrow> ('k \<times> 'a list) list" where
  "group_rows key rows = map (\<lambda>k. (k, filter (\<lambda>r. key r = k) rows)) (js_set (map key rows))"

text \<open>The events of a window, and what each of them earned.\<close>

definition window_events :: "product_db \<Rightarrow> millis \<Rightarrow> millis \<Rightarrow> log_event list" where
  "window_events src start finish = filter (\<lambda>e. in_window start finish (lg_createdAt e)) (pd_events src)"

definition tab_of :: "product_db \<Rightarrow> log_event \<Rightarrow> tab_transaction option" where
  "tab_of src e = (case lg_tab e of None \<Rightarrow> None | Some i \<Rightarrow> find_row (\<lambda>t. tb_id t = i) (pd_tabs src))"

definition counted_debit :: "product_db \<Rightarrow> tab_transaction \<Rightarrow> bool" where
  "counted_debit src t \<longleftrightarrow> tb_type t = ''DEBIT'' \<and> tb_status t \<noteq> ''FAILED''
     \<and> find_row (\<lambda>r. tb_refundFor r = Some (tb_id t)) (pd_tabs src) = None"

definition event_revenue :: "(rat \<Rightarrow> nat \<Rightarrow> rat) \<Rightarrow> product_db \<Rightarrow> log_event list \<Rightarrow> log_event \<Rightarrow> rat" where
  "event_revenue qdiv src w e =
     (case tab_of src e of
        None \<Rightarrow> coalesce (lg_cost e) 0
      | Some t \<Rightarrow>
         if counted_debit src t
         then qdiv (tb_charge t) (count_where (\<lambda>f. lg_tab f = lg_tab e) w)
         else 0)"

definition usage_group :: "bool \<Rightarrow> log_event \<Rightarrow> millis \<times> int \<times> string \<times> string \<times> string \<times> string" where
  "usage_group daily e =
     (lagosDateOnly (lg_createdAt e), if daily then - 1 else lagosHour (lg_createdAt e),
      lg_channel e, lg_account e, coalesce (lg_country e) ''UNKNOWN'', coalesce (lg_operator e) ''UNKNOWN'')"

fun make_bucket ::
  "(log_event \<Rightarrow> rat) \<Rightarrow> (millis \<times> int \<times> string \<times> string \<times> string \<times> string) \<times> log_event list \<Rightarrow> usage_bucket" where
  "make_bucket revenue ((date, hour, channel, account, country, provider), es) =
     \<lparr>ub_date = date, ub_hour = hour, ub_channel = channel, ub_account = account,
      ub_country = country, ub_provider = provider,
      ub_attempted = int (length es),
      ub_succeeded = int (count_where (\<lambda>e. lg_status e = ''DELIVERED'') es),
      ub_failed = int (count_where (\<lambda>e. lg_status e = ''FAILED'') es),
      ub_units = int (length es),
      ub_revenue = (\<Sum>e \<leftarrow> es. revenue e),
      ub_cost = 0\<rparr>"

definition usageBuckets ::
  "(rat \<Rightarrow> nat \<Rightarrow> rat) \<Rightarrow> product_db \<Rightarrow> millis \<Rightarrow> millis \<Rightarrow> bool \<Rightarrow> usage_bucket list" where
  "usageBuckets qdiv src start finish daily =
     (let w = window_events src start finish
      in map (make_bucket (event_revenue qdiv src w)) (group_rows (usage_group daily) w))"

section \<open>Usage\<close>

text \<open>What every writer here needs from outside: the division, the day text, the Decimal addition and the clocks.\<close>

record rollup_env =
  rx_qdiv :: "rat \<Rightarrow> nat \<Rightarrow> rat"
  rx_ymd :: "millis \<Rightarrow> string"
  rx_dadd :: "rat \<Rightarrow> rat \<Rightarrow> rat"
  rx_now :: millis
  rx_dbnow :: millis

definition write_usage ::
  "rollup_env \<Rightarrow> usage_bucket list \<Rightarrow> millis option \<Rightarrow> rollup_store \<Rightarrow> (rollup_store, unit) outcome" where
  "write_usage env buckets finalisedAt db =
     (case upsertUsageRows (rx_ymd env) (rx_dadd env) (rx_dbnow env) buckets finalisedAt (rs_usage db) of
        (r, t) \<Rightarrow> (r, db\<lparr>rs_usage := t\<rparr>))"

definition rollUsage ::
  "rollup_env \<Rightarrow> product_db \<Rightarrow> millis \<Rightarrow> millis \<Rightarrow> rollup_store \<Rightarrow> (rollup_store, nat) outcome" where
  "rollUsage env src start finish db =
     (let buckets = usageBuckets (rx_qdiv env) src start finish False in
      case write_usage env buckets None db of
        (Inl e, db') \<Rightarrow> throws e db'
      | (Inr _, db') \<Rightarrow> returns (length buckets) db')"

text \<open>The daily rows of a date whose stamp is missing or older than the run.\<close>

definition stale_daily :: "millis \<Rightarrow> millis \<Rightarrow> usage_rollup \<Rightarrow> bool" where
  "stale_daily date runStartedAt r \<longleftrightarrow> ub_date r = date \<and> ub_hour r = - 1
     \<and> (case ur_finalisedAt r of None \<Rightarrow> True | Some t \<Rightarrow> t < runStartedAt)"

definition sweep_daily :: "millis \<Rightarrow> millis \<Rightarrow> rollup_store \<Rightarrow> rollup_store" where
  "sweep_daily date runStartedAt db =
     db\<lparr>rs_usage := filter (\<lambda>r. \<not> stale_daily date runStartedAt r) (rs_usage db)\<rparr>"

section \<open>Destinations\<close>

definition destination_channels :: "string list" where
  "destination_channels = [''SMS'', ''WHATSAPP'', ''VOICE'', ''AUDIO'']"

definition destination_group :: "log_event \<Rightarrow> millis \<times> string \<times> string \<times> string \<times> string option" where
  "destination_group e =
     (lagosDateOnly (lg_createdAt e), lg_channel e, lg_account e,
      coalesce (lg_country e) ''UNKNOWN'', lg_operator e)"

fun make_destination ::
  "(millis \<times> string \<times> string \<times> string \<times> string option) \<times> log_event list \<Rightarrow> destination_row" where
  "make_destination ((date, channel, account, country, network), es) =
     \<lparr>dr_date = date, dr_channel = channel, dr_account = account, dr_country = country,
      dr_network = coalesce network [], dr_attempted = int (length es),
      dr_delivered = int (count_where (\<lambda>e. lg_status e = ''DELIVERED'') es), dr_cost = 0\<rparr>"

definition destination_rows :: "product_db \<Rightarrow> millis \<Rightarrow> millis \<Rightarrow> destination_row list" where
  "destination_rows src start finish =
     map make_destination
       (group_rows destination_group
         (filter (\<lambda>e. lg_channel e \<in> set destination_channels) (window_events src start finish)))"

definition rollDestinations ::
  "rollup_env \<Rightarrow> product_db \<Rightarrow> millis \<Rightarrow> rollup_store \<Rightarrow> (rollup_store, nat) outcome" where
  "rollDestinations env src day db =
     (let (start, finish) = lagosDayBounds day;
          rows = destination_rows src start finish
      in case upsertDestinationRows (rx_ymd env) (rx_dadd env) (rx_dbnow env) rows (rs_destinations db) of
           (Inl e, t) \<Rightarrow> throws e (db\<lparr>rs_destinations := t\<rparr>)
         | (Inr _, t) \<Rightarrow>
             returns (length rows)
               (db\<lparr>rs_destinations := filter
                  (\<lambda>r. \<not> (dr_date r = lagosDateOnly day \<and> de_updatedAt r < rx_now env)) t\<rparr>))"

section \<open>Cash\<close>

definition collected :: "product_db \<Rightarrow> string \<Rightarrow> millis \<Rightarrow> millis \<Rightarrow> payment list" where
  "collected src status start finish =
     filter (\<lambda>p. in_window start finish (py_createdAt p) \<and> py_status p = status) (pd_payments src)"

definition cash_of :: "product_db \<Rightarrow> millis \<Rightarrow> cash_rollup" where
  "cash_of src day =
     (let (start, finish) = lagosDayBounds day
      in \<lparr>cr_date = lagosDateOnly day,
          cr_collected = money (\<Sum>p \<leftarrow> collected src ''SUCCESS'' start finish. py_amount p),
          cr_refunded = money (\<Sum>p \<leftarrow> collected src ''REVERSED'' start finish. py_amount p),
          cr_fees = 0,
          cr_paymentCount = length (collected src ''SUCCESS'' start finish),
          cr_failedCount = length (collected src ''FAILED'' start finish)\<rparr>)"

definition rollCash :: "product_db \<Rightarrow> millis \<Rightarrow> rollup_store \<Rightarrow> rollup_store" where
  "rollCash src day db =
     db\<lparr>rs_cash := upsert_row cr_date (\<lambda>new old. new) (cash_of src day) (rs_cash db)\<rparr>"

section \<open>The finance snapshot\<close>

definition credit_liability :: "product_db \<Rightarrow> rat" where
  "credit_liability src =
     (\<Sum>a \<leftarrow> filter (\<lambda>a. ab_status a \<notin> {''CANCELED'', ''BANNED''}) (pd_accounts src). ab_balance a)"

definition plan_of :: "product_db \<Rightarrow> subscription \<Rightarrow> plan_price list" where
  "plan_of src s = (case find_row (\<lambda>p. pz_id p = sb_planId s) (pd_plans src) of None \<Rightarrow> [] | Some p \<Rightarrow> [p])"

definition monthly_revenue :: "(rat \<Rightarrow> nat \<Rightarrow> rat) \<Rightarrow> product_db \<Rightarrow> millis \<Rightarrow> rat" where
  "monthly_revenue qdiv src finish =
     (\<Sum>p \<leftarrow> concat (map (plan_of src)
        (filter (\<lambda>s. sb_status s = ''ACTIVE'' \<and> sb_createdAt s < finish
           \<and> (case sb_cancelledAt s of None \<Rightarrow> True | Some t \<Rightarrow> finish \<le> t)) (pd_subscriptions src))).
      if pz_interval p = ''YEARLY'' then qdiv (pz_basePrice p) 12 else pz_basePrice p)"

definition subscription_revenue :: "product_db \<Rightarrow> millis \<Rightarrow> millis \<Rightarrow> rat" where
  "subscription_revenue src start finish =
     (\<Sum>p \<leftarrow> concat (map (plan_of src)
        (filter (\<lambda>s. in_window start finish (sb_periodStart s)) (pd_subscriptions src))). pz_basePrice p)"

definition new_accounts :: "product_db \<Rightarrow> millis \<Rightarrow> millis \<Rightarrow> account_balance list" where
  "new_accounts src start finish = filter (\<lambda>a. in_window start finish (ab_createdAt a)) (pd_accounts src)"

text \<open>Created in the last fourteen days, with a paid send within fourteen days of being created.\<close>

definition activated_accounts :: "product_db \<Rightarrow> millis \<Rightarrow> millis \<Rightarrow> account_balance list" where
  "activated_accounts src start finish =
     filter (\<lambda>a. find_row (\<lambda>e. lg_account e = ab_id a \<and> lg_createdAt e \<le> ab_createdAt a + 14 * day_len
         \<and> (case lg_cost e of None \<Rightarrow> False | Some c \<Rightarrow> 0 < c)) (pd_events src) \<noteq> None)
       (new_accounts src (start - 14 * day_len) finish)"

definition snapshot_of :: "(rat \<Rightarrow> nat \<Rightarrow> rat) \<Rightarrow> product_db \<Rightarrow> millis \<Rightarrow> finance_snapshot" where
  "snapshot_of qdiv src day =
     (let (start, finish) = lagosDayBounds day
      in \<lparr>fs_date = lagosDateOnly day,
          fs_subscriptionRevenue = money (subscription_revenue src start finish),
          fs_creditLiability = money (credit_liability src),
          fs_mrr = money (monthly_revenue qdiv src finish),
          fs_activeAccounts = length (js_set (map lg_account (window_events src start finish))),
          fs_newAccounts = length (new_accounts src start finish),
          fs_activatedAccounts = length (activated_accounts src start finish)\<rparr>)"

definition snapshotFinance ::
  "rollup_env \<Rightarrow> product_db \<Rightarrow> millis \<Rightarrow> bool \<Rightarrow> rollup_store \<Rightarrow> rollup_store" where
  "snapshotFinance env src day historical db =
     (let data = snapshot_of (rx_qdiv env) src day;
          created = (if historical then data\<lparr>fs_creditLiability := 0\<rparr> else data)
      in db\<lparr>rs_finance := upsert_row fs_date
           (\<lambda>new old. if historical then data\<lparr>fs_creditLiability := fs_creditLiability old\<rparr> else data)
           created (rs_finance db)\<rparr>)"

section \<open>Requests\<close>

definition request_group :: "api_call \<Rightarrow> millis \<times> int \<times> string option \<times> string \<times> string \<times> string" where
  "request_group c =
     (lagosDateOnly (cl_createdAt c), lagosHour (cl_createdAt c), cl_prefix c, cl_endpoint c,
      cl_method c, coalesce (cl_country c) ''UNKNOWN'')"

definition accountByPrefix :: "product_db \<Rightarrow> string list \<Rightarrow> string \<rightharpoonup> string" where
  "accountByPrefix src prefixes = map_of (rev (filter (\<lambda>(p, a). p \<in> set prefixes) (pd_keys src)))"

fun make_request ::
  "(string \<rightharpoonup> string) \<Rightarrow> (millis \<times> int \<times> string option \<times> string \<times> string \<times> string) \<times> api_call list \<Rightarrow> request_row" where
  "make_request accounts ((date, hour, prefix, endpoint, verb, country), cs) =
     \<lparr>qr_date = date, qr_hour = hour,
      qr_account = (if truthy prefix then coalesce (accounts (the prefix)) [] else []),
      qr_endpoint = endpoint, qr_verb = verb, qr_country = country,
      qr_total = int (length cs),
      qr_clientErrors = int (count_where (\<lambda>c. 400 \<le> cl_statusCode c \<and> cl_statusCode c \<le> 499) cs),
      qr_serverErrors = int (count_where (\<lambda>c. 500 \<le> cl_statusCode c) cs)\<rparr>"

definition request_rows :: "product_db \<Rightarrow> millis \<Rightarrow> millis \<Rightarrow> request_row list" where
  "request_rows src start finish =
     (let rows = group_rows request_group (filter (\<lambda>c. in_window start finish (cl_createdAt c)) (pd_calls src));
          prefixes = js_set (map the (filter truthy (map (\<lambda>((d, h, p, k), cs). p) rows)))
      in map (make_request (accountByPrefix src prefixes)) rows)"

definition rollRequests ::
  "rollup_env \<Rightarrow> product_db \<Rightarrow> millis \<Rightarrow> millis \<Rightarrow> rollup_store \<Rightarrow> (rollup_store, nat) outcome" where
  "rollRequests env src start finish db =
     (let rows = request_rows src start finish
      in case upsertRequestRows (rx_ymd env) (rx_dbnow env) rows (rs_requests db) of
           (Inl e, t) \<Rightarrow> throws e (db\<lparr>rs_requests := t\<rparr>)
         | (Inr _, t) \<Rightarrow>
             returns (length rows) (db\<lparr>rs_requests := t\<rparr>))"

section \<open>A day\<close>

definition finaliseDay ::
  "rollup_env \<Rightarrow> product_db \<Rightarrow> millis \<Rightarrow> bool \<Rightarrow> rollup_store \<Rightarrow> (rollup_store, nat) outcome" where
  "finaliseDay env src day historical db =
     (let (start, finish) = lagosDayBounds day;
          buckets = usageBuckets (rx_qdiv env) src start finish True
      in case write_usage env buckets (Some (rx_now env)) db of
           (Inl e, db1) \<Rightarrow> throws e db1
         | (Inr _, db1) \<Rightarrow>
           (case rollDestinations env src day (sweep_daily (lagosDateOnly day) (rx_now env) db1) of
              (Inl e, db2) \<Rightarrow> throws e db2
            | (Inr _, db2) \<Rightarrow>
              (case rollRequests env src start finish (rollCash src day db2) of
                 (Inl e, db3) \<Rightarrow> throws e db3
               | (Inr _, db3) \<Rightarrow> returns (length buckets) (snapshotFinance env src day historical db3))))"

definition rollCurrentDay ::
  "rollup_env \<Rightarrow> product_db \<Rightarrow> millis \<Rightarrow> rollup_store \<Rightarrow> (rollup_store, nat) outcome" where
  "rollCurrentDay env src day db =
     (let (start, finish) = lagosDayBounds day
      in case rollUsage env src start finish db of
           (Inl e, db1) \<Rightarrow> throws e db1
         | (Inr hourly, db1) \<Rightarrow>
           (let daily = usageBuckets (rx_qdiv env) src start finish True
            in case write_usage env daily (Some (rx_now env)) db1 of
                 (Inl e, db2) \<Rightarrow> throws e db2
               | (Inr _, db2) \<Rightarrow>
                 (case rollDestinations env src day (sweep_daily (lagosDateOnly day) (rx_now env) db2) of
                    (Inl e, db3) \<Rightarrow> throws e db3
                  | (Inr _, db3) \<Rightarrow> returns (hourly + length daily) (rollCash src day db3))))"

section \<open>Watermarks\<close>

definition record_watermark ::
  "string \<Rightarrow> millis \<Rightarrow> string option \<Rightarrow> rollup_env \<Rightarrow> rollup_store \<Rightarrow> rollup_store" where
  "record_watermark job processedTo failure env db =
     (if job \<in> set (map wm_job (rs_watermarks db))
      then db\<lparr>rs_watermarks := update_where (\<lambda>w. wm_job w = job)
             (\<lambda>w. w\<lparr>wm_processedTo := processedTo, wm_lastRunAt := rx_now env, wm_lastError := failure\<rparr>)
             (rs_watermarks db)\<rparr>
      else db\<lparr>rs_watermarks := rs_watermarks db @ [\<lparr>wm_job = job, wm_processedTo = processedTo,
             wm_lastRunAt = rx_dbnow env, wm_lastError = failure\<rparr>]\<rparr>)"

text \<open>Math.round of the minutes: halves go up.\<close>

definition round_minutes :: "millis \<Rightarrow> int" where
  "round_minutes d = (2 * d + 60000) div 120000"

definition rollup_lag :: "millis \<Rightarrow> rollup_store \<Rightarrow> (string \<times> millis \<times> int \<times> string option) list" where
  "rollup_lag now db =
     map (\<lambda>w. (wm_job w, wm_processedTo w, round_minutes (now - wm_processedTo w), wm_lastError w))
       (filter (\<lambda>w. wm_job w \<noteq> ''history.backfill'') (rs_watermarks db))"

end
