(* ===== verification/Csv.thy ===== *)
theory Csv
  imports Rollups
begin

text \<open>
  The CSV text of an export (\<open>toCsv\<close> in \<open>modules/jobs/exports.processor.ts\<close>, \<open>common/http/stringify.ts\<close>)
  and a reader of RFC 4180 to check it against.
\<close>

section \<open>Writing\<close>

text \<open>The scalars a row builder puts in a cell.\<close>

datatype cell = CNull | CText string | CInt int

fun cell_text :: "cell \<Rightarrow> string" where
  "cell_text CNull = []"
| "cell_text (CText s) = s"
| "cell_text (CInt n) = int_text n"

definition quote :: char where "quote = CHR 0x22"

definition formula_chars :: "char list" where
  "formula_chars = [CHR ''='', CHR ''+'', CHR ''-'', CHR ''@'', CHR 0x09, CHR 0x0D]"

definition starts_formula :: "string \<Rightarrow> bool" where
  "starts_formula s \<longleftrightarrow> s \<noteq> [] \<and> js_includes formula_chars (hd s)"

definition csv_guard :: "string \<Rightarrow> string" where
  "csv_guard text = (if starts_formula text then CHR 0x27 # text else text)"

definition double_quotes :: "string \<Rightarrow> string" where
  "double_quotes s = concat (map (\<lambda>c. if c = quote then [quote, quote] else [c]) s)"

definition csv_escape :: "cell \<Rightarrow> string" where
  "csv_escape value =
     (if value = CNull then [] else quote # double_quotes (csv_guard (cell_text value)) @ [quote])"

type_synonym csv_row = "(string \<times> cell) list"

definition cell_of :: "csv_row \<Rightarrow> string \<Rightarrow> cell" where
  "cell_of row h = (case map_of row h of None \<Rightarrow> CNull | Some c \<Rightarrow> c)"

definition toCsv :: "csv_row list \<Rightarrow> string" where
  "toCsv rows =
     (case rows of [] \<Rightarrow> []
      | first # _ \<Rightarrow>
         (let headers = map fst first
          in join_with [CHR 0x0A]
               (join_with '','' (map (\<lambda>h. csv_escape (CText h)) headers)
                # map (\<lambda>row. join_with '','' (map (\<lambda>h. csv_escape (cell_of row h)) headers)) rows)))"

section \<open>Reading\<close>

fun quoted :: "string \<Rightarrow> string \<times> string" where
  "quoted [] = ([], [])"
| "quoted (c # s) =
     (if c \<noteq> quote then (let (t, r) = quoted s in (c # t, r))
      else (case s of
          [] \<Rightarrow> ([], [])
        | d # u \<Rightarrow> if d = quote then (let (t, r) = quoted u in (quote # t, r)) else ([], d # u)))"

definition plain_char :: "char \<Rightarrow> bool" where
  "plain_char c \<longleftrightarrow> c \<noteq> CHR '','' \<and> c \<noteq> CHR 0x0A"

definition csv_field :: "string \<Rightarrow> string \<times> string" where
  "csv_field s = (if s \<noteq> [] \<and> hd s = quote then quoted (tl s) else (takeWhile plain_char s, dropWhile plain_char s))"

lemma quoted_length: "length (snd (quoted s)) \<le> length s"
proof (induction s rule: quoted.induct)
  case (2 c s)
  show ?case
  proof (cases "c = quote")
    case False
    with 2 show ?thesis by (simp add: split_beta le_SucI)
  next
    case True
    show ?thesis
    proof (cases s)
      case (Cons d u)
      then have "d = quote \<Longrightarrow> length (snd (quoted u)) \<le> length u" using 2(2) True by simp
      then have "d = quote \<Longrightarrow> length (snd (quoted u)) \<le> Suc (Suc (length u))" by simp
      with True Cons show ?thesis by (simp add: split_beta)
    qed (simp add: True)
  qed
qed simp

lemma csv_field_length: "length (snd (csv_field s)) \<le> length s"
  using quoted_length [of "tl s"] by (cases s) (auto simp: csv_field_def length_dropWhile_le le_SucI)

lemma csv_field_shorter: "(f, c # r) = csv_field s \<Longrightarrow> length r < length s"
  using csv_field_length [of s] by (metis Suc_le_eq length_Cons snd_conv)

function parse_csv :: "string \<Rightarrow> string list list" where
  "parse_csv s =
     (let (f, r) = csv_field s in
      case r of [] \<Rightarrow> [[f]]
      | c # r' \<Rightarrow>
         if c = CHR '','' then (case parse_csv r' of [] \<Rightarrow> [[f]] | fs # rs \<Rightarrow> (f # fs) # rs)
         else [f] # parse_csv r')"
  by pat_completeness auto
termination
  by (relation "measure length") (auto dest!: csv_field_shorter)

declare parse_csv.simps [simp del]

section \<open>Facts\<close>

text \<open>What follows a field: nothing, a comma or a line break.\<close>

definition at_break :: "string \<Rightarrow> bool" where
  "at_break r \<longleftrightarrow> r = [] \<or> \<not> plain_char (hd r)"

lemma break_no_quote: "at_break r \<Longrightarrow> r = [] \<or> hd r \<noteq> quote"
  by (auto simp: at_break_def plain_char_def quote_def)

lemma quoted_doubled:
  assumes "at_break r"
  shows "quoted (double_quotes s @ quote # r) = (s, r)"
proof (induction s)
  case Nil
  show ?case
    using break_no_quote [OF assms] by (cases r) (auto simp: double_quotes_def)
next
  case (Cons c s)
  then show ?case by (auto simp: double_quotes_def)
qed

text \<open>What a cell reads back as.\<close>

definition shown :: "cell \<Rightarrow> string" where
  "shown c = csv_guard (cell_text c)"

lemma csv_field_escape:
  assumes "at_break r"
  shows "csv_field (csv_escape c @ r) = (shown c, r)"
proof (cases "c = CNull")
  case True
  have "takeWhile plain_char r = [] \<and> dropWhile plain_char r = r"
    using assms by (cases r) (auto simp: at_break_def)
  moreover have "r = [] \<or> hd r \<noteq> quote" using break_no_quote [OF assms] .
  ultimately show ?thesis
    using True by (auto simp: csv_field_def csv_escape_def shown_def csv_guard_def starts_formula_def)
next
  case False
  then have "csv_field (csv_escape c @ r) = quoted (double_quotes (shown c) @ quote # r)"
    by (simp add: csv_field_def csv_escape_def shown_def)
  with quoted_doubled [OF assms] show ?thesis by simp
qed

lemma parse_last: "parse_csv (csv_escape c) = [[shown c]]"
  using csv_field_escape [of "[]" c] by (subst parse_csv.simps) (simp add: at_break_def)

lemma parse_comma: "parse_csv r = fs # rs \<Longrightarrow> parse_csv (csv_escape c @ CHR '','' # r) = (shown c # fs) # rs"
  using csv_field_escape [of "CHR '','' # r" c] by (subst parse_csv.simps) (simp add: at_break_def plain_char_def)

lemma parse_newline: "parse_csv (csv_escape c @ CHR 0x0A # r) = [shown c] # parse_csv r"
  using csv_field_escape [of "CHR 0x0A # r" c] by (subst parse_csv.simps) (simp add: at_break_def plain_char_def)

lemma parse_line:
  assumes "cs \<noteq> []"
  shows "parse_csv (join_with '','' (map csv_escape cs)) = [map shown cs]"
    and "parse_csv (join_with '','' (map csv_escape cs) @ CHR 0x0A # r) = map shown cs # parse_csv r"
  using assms
proof (induction cs)
  case (Cons c cs)
  {
    case 1
    show ?case using Cons.IH by (cases cs) (simp_all add: parse_last parse_comma)
  next
    case 2
    show ?case using Cons.IH by (cases cs) (simp_all add: parse_newline parse_comma)
  }
qed simp_all

lemma parse_lines:
  assumes "\<forall>l \<in> set ls. l \<noteq> []" "ls \<noteq> []"
  shows "parse_csv (join_with [CHR 0x0A] (map (\<lambda>cs. join_with '','' (map csv_escape cs)) ls)) = map (map shown) ls"
  using assms
proof (induction ls)
  case (Cons l ls)
  then show ?case by (cases ls) (simp_all add: parse_line)
qed simp



end
