(* ===== verification/Rollup_Facts.thy ===== *)
theory Rollup_Facts
  imports Rollups
begin

text \<open>
  What the rollups promise: a finalised day is its source, whatever was there before and however
  often it runs; no total is lost when rows merge; and where runs that overlap, a database clock
  that is behind, or a debit shared across midnight break the figures.
\<close>

section \<open>Windows and groups\<close>

lemma in_day_window: "in_window (day_start d) (day_start (d + 1)) t \<longleftrightarrow> lagos_day t = d"
  by (auto simp: in_window_def lagos_day_iff)

definition events_of_day :: "product_db \<Rightarrow> int \<Rightarrow> log_event list" where
  "events_of_day src d = filter (\<lambda>e. lagos_day (lg_createdAt e) = d) (pd_events src)"

lemma window_events_day: "window_events src (day_start d) (day_start (d + 1)) = events_of_day src d"
  by (simp add: window_events_def events_of_day_def in_day_window)

lemma set_group_rows: "set (group_rows key rows) = (\<lambda>k. (k, filter (\<lambda>r. key r = k) rows)) ` key ` set rows"
  by (simp add: group_rows_def)

lemma fst_group_rows: "map fst (group_rows key rows) = js_set (map key rows)"
  by (simp add: group_rows_def comp_def)

lemma group_rows_member: "(k, es) \<in> set (group_rows key rows) \<Longrightarrow> es = filter (\<lambda>r. key r = k) rows \<and> es \<noteq> []"
  by (auto simp: set_group_rows filter_empty_conv)

lemma sum_js_set_groups:
  fixes g :: "'a \<Rightarrow> 'v::comm_monoid_add"
  assumes "distinct ks" "key ` set rows \<subseteq> set ks"
  shows "(\<Sum>k \<leftarrow> ks. \<Sum>r \<leftarrow> filter (\<lambda>r. key r = k) rows. g r) = (\<Sum>r \<leftarrow> rows. g r)"
  using assms(2)
proof (induction rows)
  case (Cons r rs)
  have "(\<Sum>k \<leftarrow> ks. \<Sum>x \<leftarrow> filter (\<lambda>x. key x = k) (r # rs). g x)
      = (\<Sum>k \<leftarrow> ks. (if k = key r then g r else 0) + (\<Sum>x \<leftarrow> filter (\<lambda>x. key x = k) rs. g x))"
    by (rule arg_cong [where f = sum_list]) (auto intro: map_cong)
  also have "\<dots> = (\<Sum>k \<leftarrow> ks. if k = key r then g r else 0) + (\<Sum>k \<leftarrow> ks. \<Sum>x \<leftarrow> filter (\<lambda>x. key x = k) rs. g x)"
    by (rule sum_list_addf)
  also have "(\<Sum>k \<leftarrow> ks. if k = key r then g r else 0) = g r"
    using assms(1) Cons.prems by (simp add: sum_list_distinct_conv_sum_set sum.delta)
  finally show ?case using Cons by simp
qed simp

text \<open>Grouping loses nothing: the groups' sums add up to the sum over the rows.\<close>

lemma sum_groups:
  fixes g :: "'a \<Rightarrow> 'v::comm_monoid_add"
  shows "(\<Sum>p \<leftarrow> group_rows key rows. \<Sum>r \<leftarrow> snd p. g r) = (\<Sum>r \<leftarrow> rows. g r)"
  using sum_js_set_groups [of "js_set (map key rows)" key rows g]
  by (simp add: group_rows_def comp_def)

lemma length_as_sum: "int (length xs) = (\<Sum>x \<leftarrow> xs. 1)"
  by (induction xs) simp_all

lemma count_as_sum: "int (count_where p xs) = (\<Sum>x \<leftarrow> xs. if p x then 1 else 0)"
  by (induction xs) simp_all

section \<open>Daily rows\<close>

definition daily_row :: "int \<Rightarrow> usage_rollup \<Rightarrow> bool" where
  "daily_row d r \<longleftrightarrow> ub_date r = d * day_len \<and> ub_hour r = - 1"

lemma replace_usage_same:
  assumes "usage_key new = usage_key old" "ur_finalisedAt new = Some t"
  shows "replace_usage new old = new"
  using assms by (cases new; cases old) (simp add: replace_usage_def usage_key_def)

lemma put_over_usage:
  assumes "ur_finalisedAt r = Some t"
  shows "put_over usage_key replace_usage table r = r"
proof (cases "find_row (\<lambda>x. usage_key x = usage_key r) table")
  case (Some old)
  then have "usage_key r = usage_key old" by (auto dest: find_row_SomeD)
  from replace_usage_same [OF this assms] Some show ?thesis by (simp add: put_over_def)
qed (simp add: put_over_def)

text \<open>The Decimal texts never matter here: the keys of a window's buckets are distinct.\<close>

definition texts_ok :: "product_db \<Rightarrow> bool" where
  "texts_ok src \<longleftrightarrow> list_all (\<lambda>e. nul \<notin> set (lg_channel e) \<and> nul \<notin> set (lg_account e)
     \<and> nul \<notin> set (coalesce (lg_country e) []) \<and> nul \<notin> set (coalesce (lg_operator e) [])) (pd_events src)"

definition days_ok :: "(millis \<Rightarrow> string) \<Rightarrow> bool" where
  "days_ok ymd \<longleftrightarrow> (\<forall>d e. ymd (d * day_len) = ymd (e * day_len) \<longrightarrow> d = e) \<and> (\<forall>t. nul \<notin> set (ymd t))"

lemma usage_key_make: "usage_key (make_bucket g p) = fst p"
  by (induction g p rule: make_bucket.induct) (simp add: usage_key_def)

lemma usageBuckets_keys:
  "map usage_key (usageBuckets qdiv src s f daily) = js_set (map (usage_group daily) (window_events src s f))"
  by (simp add: usageBuckets_def Let_def comp_def usage_key_make fst_group_rows [symmetric])

lemma bucket_key_event:
  assumes "b \<in> set (usageBuckets qdiv src s f daily)"
  obtains e where "e \<in> set (window_events src s f)" "usage_key b = usage_group daily e"
proof -
  have "usage_key b \<in> set (map usage_key (usageBuckets qdiv src s f daily))" using assms by simp
  then show ?thesis using that unfolding usageBuckets_keys by auto
qed

lemma bucket_texts:
  assumes "texts_ok src" "b \<in> set (usageBuckets qdiv src s f daily)"
  shows "\<exists>d. ub_date b = d * day_len"
    "nul \<notin> set (ub_channel b)" "nul \<notin> set (ub_account b)" "nul \<notin> set (ub_country b)" "nul \<notin> set (ub_provider b)"
proof -
  obtain e where e: "e \<in> set (window_events src s f)" "usage_key b = usage_group daily e"
    using assms(2) by (rule bucket_key_event)
  have u: "nul \<notin> set ''UNKNOWN''" by (simp add: nul_def)
  have t: "nul \<notin> set (lg_channel e)" "nul \<notin> set (lg_account e)"
    "nul \<notin> set (coalesce (lg_country e) [])" "nul \<notin> set (coalesce (lg_operator e) [])"
    using assms(1) e(1) by (auto simp: texts_ok_def window_events_def list_all_iff)
  show "\<exists>d. ub_date b = d * day_len"
    using e(2) by (auto simp: usage_key_def usage_group_def lagosDateOnly_def)
  show "nul \<notin> set (ub_channel b)" "nul \<notin> set (ub_account b)"
    using e(2) t by (simp_all add: usage_key_def usage_group_def)
  show "nul \<notin> set (ub_country b)"
    using e(2) t(3) u by (cases "lg_country e") (simp_all add: usage_key_def usage_group_def coalesce_def)
  show "nul \<notin> set (ub_provider b)"
    using e(2) t(4) u by (cases "lg_operator e") (simp_all add: usage_key_def usage_group_def coalesce_def)
qed

lemma mergeUsage_buckets:
  assumes "texts_ok src" "days_ok ymd"
  shows "mergeUsage ymd dadd (usageBuckets qdiv src s f daily) = usageBuckets qdiv src s f daily"
    (is "_ = ?bs")
proof -
  have d: "distinct (map usage_key ?bs)" by (simp add: usageBuckets_keys)
  have "usage_key a = usage_key b"
    if "a \<in> set ?bs" "b \<in> set ?bs" "usage_text ymd a = usage_text ymd b" for a b
  proof (rule usage_text_settles [OF that(3), where D = "range (\<lambda>d. d * day_len)"])
    show "nul \<notin> set (ymd t)" for t using assms(2) by (simp add: days_ok_def)
    show "x = y" if "ymd x = ymd y" "x \<in> range (\<lambda>d. d * day_len)" "y \<in> range (\<lambda>d. d * day_len)" for x y
    proof -
      from that(2,3) obtain m n where "x = m * day_len" "y = n * day_len" by blast
      with that(1) assms(2) show ?thesis unfolding days_ok_def by blast
    qed
  qed (use bucket_texts [OF assms(1) that(1)] bucket_texts [OF assms(1) that(2)] in auto)
  moreover have "inj_on usage_key (set ?bs)" using d by (simp add: distinct_map)
  ultimately have "inj_on (usage_text ymd) (set ?bs)"
    by (metis inj_on_def)
  then have "distinct (map (usage_text ymd) ?bs)"
    using d by (simp add: distinct_map)
  then show ?thesis
    unfolding mergeUsage_def by (rule usage.merged_distinct_id)
qed

section \<open>A finalised day\<close>

text \<open>
  The row a day's events call for under a key, straight from the product's rows: no window, no
  grouping, no merging.
\<close>

definition event_key :: "log_event \<Rightarrow> string \<times> string \<times> string \<times> string" where
  "event_key e = (lg_channel e, lg_account e, coalesce (lg_country e) ''UNKNOWN'', coalesce (lg_operator e) ''UNKNOWN'')"

definition source_row ::
  "rollup_env \<Rightarrow> product_db \<Rightarrow> int \<Rightarrow> string \<times> string \<times> string \<times> string \<Rightarrow> usage_rollup" where
  "source_row env src d k =
     (let mine = (\<lambda>e. lagos_day (lg_createdAt e) = d \<and> event_key e = k)
      in \<lparr>ub_date = d * day_len, ub_hour = - 1,
          ub_channel = fst k, ub_account = fst (snd k), ub_country = fst (snd (snd k)), ub_provider = snd (snd (snd k)),
          ub_attempted = int (count_where mine (pd_events src)),
          ub_succeeded = int (count_where (\<lambda>e. mine e \<and> lg_status e = ''DELIVERED'') (pd_events src)),
          ub_failed = int (count_where (\<lambda>e. mine e \<and> lg_status e = ''FAILED'') (pd_events src)),
          ub_units = int (count_where mine (pd_events src)),
          ub_revenue = money (\<Sum>e \<leftarrow> filter mine (pd_events src).
             event_revenue (rx_qdiv env) src (events_of_day src d) e),
          ub_cost = 0, ur_finalisedAt = Some (rx_now env), ur_updatedAt = rx_dbnow env\<rparr>)"

lemma money_0 [simp]: "money 0 = 0"
  by (simp add: money_def floor_eq_iff)

lemma usage_group_day:
  "lagos_day (lg_createdAt e) = d \<Longrightarrow> usage_group True e = (d * day_len, - 1, event_key e)"
  by (simp add: usage_group_def event_key_def lagosDateOnly_def)

lemma source_row_bucket:
  "usage_row (Some (rx_now env)) (rx_dbnow env)
     (make_bucket (event_revenue (rx_qdiv env) src (events_of_day src d))
        ((d * day_len, - 1, k), filter (\<lambda>e. usage_group True e = (d * day_len, - 1, k)) (events_of_day src d)))
   = source_row env src d k"
proof -
  have f: "filter (\<lambda>e. usage_group True e = (d * day_len, - 1, k)) (events_of_day src d)
      = filter (\<lambda>e. lagos_day (lg_createdAt e) = d \<and> event_key e = k) (pd_events src)"
    unfolding events_of_day_def filter_filter
    by (rule filter_cong [OF refl]) (auto simp: usage_group_day)
  obtain a b c e where k: "k = (a, b, c, e)" by (cases k)
  show ?thesis
    unfolding f
    unfolding k by (simp add: usage_row_def source_row_def Let_def count_where_def filter_filter conj_ac usage_bucket.defs)
qed

lemma day_rows:
  "usage_row (Some (rx_now env)) (rx_dbnow env) ` set (usageBuckets (rx_qdiv env) src (day_start d) (day_start (d + 1)) True)
   = source_row env src d ` event_key ` set (events_of_day src d)"
proof -
  have k: "usage_group True ` set (events_of_day src d) = (\<lambda>k. (d * day_len, - 1, k)) ` event_key ` set (events_of_day src d)"
    by (auto simp: events_of_day_def usage_group_day image_iff)
  show ?thesis
    unfolding usageBuckets_def Let_def window_events_day set_map set_group_rows k image_image source_row_bucket
    by (rule refl)
qed

text \<open>The daily rows already there carry an older stamp, or none: what any earlier run leaves.\<close>

definition older_stamps :: "millis \<Rightarrow> int \<Rightarrow> usage_rollup list \<Rightarrow> bool" where
  "older_stamps now d rows \<longleftrightarrow>
     list_all (\<lambda>r. daily_row d r \<longrightarrow> (case ur_finalisedAt r of None \<Rightarrow> True | Some t \<Rightarrow> t < now)) rows"

lemma write_usage_result:
  "write_usage env bs f db =
    returns () (db\<lparr>rs_usage := fold (upsert_row usage_key replace_usage)
      (map (usage_row f (rx_dbnow env)) (mergeUsage (rx_ymd env) (rx_dadd env) bs)) (rs_usage db)\<rparr>)"
  by (simp add: write_usage_def upsertUsageRows_writes)

lemma replace_usage_key: "usage_key (replace_usage x y) = usage_key y"
  by (simp add: usage_key_def replace_usage_def)

lemma usage_row_simps [simp]:
  "usage_key (usage_row f n b) = usage_key b" "ur_finalisedAt (usage_row f n b) = f"
  "ub_date (usage_row f n b) = ub_date b" "ub_hour (usage_row f n b) = ub_hour b"
  by (simp_all add: usage_row_def usage_key_def usage_bucket.defs)

lemma written_day:
  fixes env :: rollup_env and d :: int
  assumes "distinct (map usage_key table)" "texts_ok src" "days_ok (rx_ymd env)"
  defines "new \<equiv> map (usage_row (Some (rx_now env)) (rx_dbnow env))
      (mergeUsage (rx_ymd env) (rx_dadd env) (usageBuckets (rx_qdiv env) src (day_start d) (day_start (d + 1)) True))"
  shows "distinct (map usage_key (fold (upsert_row usage_key replace_usage) new table))"
    and "set (fold (upsert_row usage_key replace_usage) new table) =
      {r \<in> set table. usage_key r \<notin> usage_key ` set new} \<union> set new"
    and "set new = source_row env src d ` event_key ` set (events_of_day src d)"
    and "\<forall>r \<in> set new. daily_row d r \<and> ur_finalisedAt r = Some (rx_now env)"
proof -
  have m: "new = map (usage_row (Some (rx_now env)) (rx_dbnow env))
      (usageBuckets (rx_qdiv env) src (day_start d) (day_start (d + 1)) True)"
    unfolding new_def mergeUsage_buckets [OF assms(2,3)] by (rule refl)
  have k: "map usage_key new = js_set (map (usage_group True) (events_of_day src d))"
    unfolding m by (simp add: comp_def usageBuckets_keys window_events_day)
  then have dk: "distinct (map usage_key new)" by simp
  have "put_over usage_key replace_usage table ` set new = set new"
    by (force simp: m put_over_usage)
  then show "distinct (map usage_key (fold (upsert_row usage_key replace_usage) new table))"
    and "set (fold (upsert_row usage_key replace_usage) new table) =
      {r \<in> set table. usage_key r \<notin> usage_key ` set new} \<union> set new"
    using set_upserts [of usage_key replace_usage, OF replace_usage_key assms(1) dk] by simp_all
  show e: "set new = source_row env src d ` event_key ` set (events_of_day src d)"
    unfolding m set_map by (rule day_rows)
  show "\<forall>r \<in> set new. daily_row d r \<and> ur_finalisedAt r = Some (rx_now env)"
    unfolding e by (auto simp: source_row_def Let_def daily_row_def)
qed

lemma stale_daily_iff:
  "stale_daily (d * day_len) now r \<longleftrightarrow> daily_row d r \<and> (case ur_finalisedAt r of None \<Rightarrow> True | Some t \<Rightarrow> t < now)"
  by (simp add: stale_daily_def daily_row_def)

text \<open>Writing a day and sweeping it replaces the day's rows by its source and touches no other row.\<close>

lemma replaced_day:
  assumes "distinct (map usage_key table)" "texts_ok src" "days_ok (rx_ymd env)"
    "older_stamps (rx_now env) d table"
  defines "table' \<equiv> filter (\<lambda>r. \<not> stale_daily (d * day_len) (rx_now env) r)
    (fold (upsert_row usage_key replace_usage)
      (map (usage_row (Some (rx_now env)) (rx_dbnow env))
        (mergeUsage (rx_ymd env) (rx_dadd env) (usageBuckets (rx_qdiv env) src (day_start d) (day_start (d + 1)) True)))
      table)"
  shows "distinct (map usage_key table')"
    and "{r \<in> set table'. daily_row d r} = source_row env src d ` event_key ` set (events_of_day src d)"
    and "{r \<in> set table'. \<not> daily_row d r} = {r \<in> set table. \<not> daily_row d r}"
proof -
  note w = written_day [where d = d and src = src and env = env, OF assms(1-3)]
  show "distinct (map usage_key table')"
    unfolding table'_def by (rule distinct_map_filter) (rule w(1))
  have old: "stale_daily (d * day_len) (rx_now env) r" if "r \<in> set table" "daily_row d r" for r
    using assms(4) that by (auto simp: older_stamps_def list_all_iff stale_daily_iff)
  have new: "\<not> stale_daily (d * day_len) (rx_now env) r" "daily_row d r"
    if "r \<in> source_row env src d ` event_key ` set (events_of_day src d)" for r
    using w(4) that unfolding w(3) by (auto simp: stale_daily_iff)
  have nk: "usage_key r \<notin> usage_key ` source_row env src d ` event_key ` set (events_of_day src d)"
    if "\<not> daily_row d r" for r
    using that by (auto simp: daily_row_def usage_key_def source_row_def Let_def)
  have s: "set table' = {r \<in> {r \<in> set table. usage_key r \<notin> usage_key ` source_row env src d ` event_key ` set (events_of_day src d)}
      \<union> source_row env src d ` event_key ` set (events_of_day src d). \<not> stale_daily (d * day_len) (rx_now env) r}"
    unfolding table'_def set_filter w(2) w(3) by (rule refl)
  show "{r \<in> set table'. daily_row d r} = source_row env src d ` event_key ` set (events_of_day src d)"
    unfolding s using old new by blast
  show "{r \<in> set table'. \<not> daily_row d r} = {r \<in> set table. \<not> daily_row d r}"
    unfolding s stale_daily_iff using new(2) nk by blast
qed

subsection \<open>The steps of a run\<close>

lemma rollDestinations_result:
  "rollDestinations env src day db = returns (length (destination_rows src (fst (lagosDayBounds day)) (snd (lagosDayBounds day))))
    (db\<lparr>rs_destinations := filter (\<lambda>r. \<not> (dr_date r = lagosDateOnly day \<and> de_updatedAt r < rx_now env))
      (fold (upsert_row destination_key replace_destination)
        (map (destination_new (rx_dbnow env)) (mergeDestinations (rx_ymd env) (rx_dadd env)
          (destination_rows src (fst (lagosDayBounds day)) (snd (lagosDayBounds day))))) (rs_destinations db))\<rparr>)"
  by (simp add: rollDestinations_def Let_def split_def upsertDestinationRows_writes)

lemma rollRequests_result:
  "rollRequests env src start finish db = returns (length (request_rows src start finish))
    (db\<lparr>rs_requests := fold (upsert_row request_key replace_request)
      (map (request_new (rx_dbnow env)) (mergeRequests (rx_ymd env) (request_rows src start finish))) (rs_requests db)\<rparr>)"
  by (simp add: rollRequests_def Let_def upsertRequestRows_writes)

lemma lagosDayBounds_start: "lagosDayBounds (day_start d) = (day_start d, day_start (d + 1))"
  by (simp add: lagosDayBounds_def)

lemma lagosDateOnly_start: "lagosDateOnly (day_start d) = d * day_len"
  by (simp add: lagosDateOnly_def)

lemmas rollup_steps = write_usage_result rollDestinations_result rollRequests_result sweep_daily_def
  rollCash_def snapshotFinance_def Let_def

lemma finaliseDay_returns:
  "fst (finaliseDay env src (day_start d) historical db) =
    Inr (length (usageBuckets (rx_qdiv env) src (day_start d) (day_start (d + 1)) True))"
  by (simp add: finaliseDay_def lagosDayBounds_start rollup_steps)

lemma finaliseDay_usage:
  "rs_usage (snd (finaliseDay env src (day_start d) historical db)) =
    filter (\<lambda>r. \<not> stale_daily (d * day_len) (rx_now env) r)
      (fold (upsert_row usage_key replace_usage)
        (map (usage_row (Some (rx_now env)) (rx_dbnow env))
          (mergeUsage (rx_ymd env) (rx_dadd env) (usageBuckets (rx_qdiv env) src (day_start d) (day_start (d + 1)) True)))
        (rs_usage db))"
  by (simp add: finaliseDay_def lagosDayBounds_start lagosDateOnly_start rollup_steps)

lemma finaliseDay_cash:
  "rs_cash (snd (finaliseDay env src (day_start d) historical db)) =
    upsert_row cr_date (\<lambda>new old. new) (cash_of src (day_start d)) (rs_cash db)"
  by (simp add: finaliseDay_def lagosDayBounds_start rollup_steps)

lemma finaliseDay_finance:
  "rs_finance (snd (finaliseDay env src (day_start d) historical db)) =
    rs_finance (snapshotFinance env src (day_start d) historical db)"
  by (simp add: finaliseDay_def lagosDayBounds_start rollup_steps)

lemma finaliseDay_destinations:
  "rs_destinations (snd (finaliseDay env src (day_start d) historical db)) =
    rs_destinations (snd (rollDestinations env src (day_start d) db))"
  by (simp add: finaliseDay_def lagosDayBounds_start rollup_steps)

lemma card_source_rows:
  "length (usageBuckets qdiv src (day_start d) (day_start (d + 1)) True) = card (event_key ` set (events_of_day src d))"
proof -
  have "length (usageBuckets qdiv src (day_start d) (day_start (d + 1)) True)
      = length (js_set (map (usage_group True) (events_of_day src d)))"
    by (metis usageBuckets_keys window_events_day length_map)
  also have "\<dots> = card (usage_group True ` set (events_of_day src d))"
    by (metis distinct_card distinct_js_set set_js_set list.set_map)
  also have "usage_group True ` set (events_of_day src d) = (\<lambda>k. (d * day_len, - 1, k)) ` event_key ` set (events_of_day src d)"
    by (auto simp: events_of_day_def usage_group_day image_iff)
  also have "card \<dots> = card (event_key ` set (events_of_day src d))"
    by (rule card_image) (simp add: inj_on_def)
  finally show ?thesis .
qed

text \<open>
  C19. Finalising a Lagos day makes its daily usage rows the source's: one row for each channel,
  account, country and provider with an event that day, holding the counts and the revenue of
  exactly those events, whatever rows an earlier run had left; the day's stale rows are gone and
  no row of another day or hour changes.  The number answered is the number of rows.
\<close>
theorem finalised_day_is_source:
  assumes "distinct (map usage_key (rs_usage db))" "older_stamps (rx_now env) d (rs_usage db)"
    "texts_ok src" "days_ok (rx_ymd env)"
  shows "case finaliseDay env src (day_start d) historical db of (n, db') \<Rightarrow>
    n = Inr (card (event_key ` set (events_of_day src d)))
    \<and> distinct (map usage_key (rs_usage db'))
    \<and> {u \<in> set (rs_usage db'). daily_row d u} = source_row env src d ` event_key ` set (events_of_day src d)
    \<and> {u \<in> set (rs_usage db'). \<not> daily_row d u} = {u \<in> set (rs_usage db). \<not> daily_row d u}"
proof -
  note p = replaced_day [OF assms(1,3,4,2)]
  show ?thesis
    unfolding split_beta finaliseDay_returns finaliseDay_usage card_source_rows
    by (intro conjI refl p)
qed

definition plain_day :: "millis \<Rightarrow> string" where
  "plain_day t = int_text (t div day_len)"

lemma plain_day_ok: "days_ok plain_day"
  unfolding days_ok_def
proof (intro conjI allI impI)
  fix d e assume "plain_day (d * day_len) = plain_day (e * day_len)"
  then have "d * day_len div day_len = e * day_len div day_len"
    unfolding plain_day_def by (rule int_text_inj)
  then show "d = e" using day_len_pos(1) by simp
next
  fix t show "nul \<notin> set (plain_day t)" unfolding plain_day_def by (rule int_text_no_nul)
qed

definition sample_event :: "string \<Rightarrow> string \<Rightarrow> string option \<Rightarrow> millis \<Rightarrow> log_event" where
  "sample_event i st tab t = \<lparr>lg_id = i, lg_account = ''acc'', lg_channel = ''SMS'', lg_status = st, lg_tab = tab,
     lg_operator = Some ''MTN'', lg_country = Some ''NG'', lg_cost = Some 4, lg_createdAt = t\<rparr>"

definition sample_product :: product_db where
  "sample_product = \<lparr>pd_events = [sample_event ''e1'' ''DELIVERED'' (Some ''t1'') (day_start 20000 + 5),
       sample_event ''e2'' ''FAILED'' (Some ''t1'') (day_start 20000 + 7),
       sample_event ''e3'' ''DELIVERED'' (Some ''t1'') (day_start 20001 + 1)],
     pd_tabs = [\<lparr>tb_id = ''t1'', tb_type = ''DEBIT'', tb_status = ''DELIVERED'', tb_charge = 12, tb_refundFor = None,
       tb_account = ''acc'', tb_channel = Some ''SMS'', tb_balanceAfter = 88, tb_requestId = ''r1'', tb_createdAt = day_start 20000 + 4\<rparr>],
     pd_payments = [\<lparr>py_amount = 500, py_status = ''SUCCESS'', py_createdAt = day_start 20000 + 9\<rparr>],
     pd_accounts = [], pd_subscriptions = [], pd_plans = [], pd_calls = [], pd_keys = []\<rparr>"

definition sample_env :: "millis \<Rightarrow> millis \<Rightarrow> rollup_env" where
  "sample_env now dbnow = \<lparr>rx_qdiv = (\<lambda>a n. a / of_nat n), rx_ymd = plain_day, rx_dadd = (+), rx_now = now, rx_dbnow = dbnow\<rparr>"

definition empty_store :: rollup_store where
  "empty_store = \<lparr>rs_usage = [], rs_destinations = [], rs_requests = [], rs_cash = [], rs_finance = [], rs_watermarks = []\<rparr>"

lemma sample_texts: "texts_ok sample_product"
  by (simp add: texts_ok_def sample_product_def sample_event_def coalesce_def nul_def)

lemma sample_days: "lagos_day (day_start 20000 + 5) = 20000" "lagos_day (day_start 20000 + 7) = 20000"
  "lagos_day (day_start 20001 + 1) = 20001"
  by (simp_all add: lagos_day_iff day_start_def day_len_def)

theorem finalised_day_is_source_witness:
  "fst (finaliseDay (sample_env 50 50) sample_product (day_start 20000) False empty_store) = Inr 1"
proof -
  have "event_key ` set (events_of_day sample_product 20000) = {(''SMS'', ''acc'', ''NG'', ''MTN'')}"
    by (simp add: events_of_day_def sample_product_def sample_event_def event_key_def coalesce_def sample_days)
  then show ?thesis
    using finalised_day_is_source [of empty_store "sample_env 50 50" 20000 sample_product False] sample_texts plain_day_ok
    by (simp add: split_beta empty_store_def older_stamps_def sample_env_def)
qed

section \<open>Runs that overlap\<close>

text \<open>
  The rollup worker takes two jobs at a time, so two runs of one day can interleave: each writes its
  buckets under its own stamp and then sweeps what carries an older one.
\<close>

definition run_write :: "rollup_env \<Rightarrow> product_db \<Rightarrow> int \<Rightarrow> rollup_store \<Rightarrow> rollup_store" where
  "run_write env src d db =
     snd (write_usage env (usageBuckets (rx_qdiv env) src (day_start d) (day_start (d + 1)) True) (Some (rx_now env)) db)"

definition run_sweep :: "rollup_env \<Rightarrow> int \<Rightarrow> rollup_store \<Rightarrow> rollup_store" where
  "run_sweep env d = sweep_daily (d * day_len) (rx_now env)"

text \<open>One after the other they are the two halves of the finalisation.\<close>

lemma finaliseDay_halves:
  "rs_usage (snd (finaliseDay env src (day_start d) historical db)) = rs_usage (run_sweep env d (run_write env src d db))"
  by (simp add: finaliseDay_usage run_sweep_def run_write_def write_usage_result sweep_daily_def)

lemma run_write_set:
  assumes "distinct (map usage_key (rs_usage db))" "texts_ok src" "days_ok (rx_ymd env)"
  shows "distinct (map usage_key (rs_usage (run_write env src d db)))"
    and "{u \<in> set (rs_usage (run_write env src d db)). daily_row d u} =
      {u \<in> set (rs_usage db). daily_row d u \<and> usage_key u \<notin> usage_key ` source_row env src d ` event_key ` set (events_of_day src d)}
      \<union> source_row env src d ` event_key ` set (events_of_day src d)"
proof -
  note w = written_day [where d = d and src = src and env = env, OF assms]
  show "distinct (map usage_key (rs_usage (run_write env src d db)))"
    unfolding run_write_def write_usage_result by simp (rule w(1))
  have n: "daily_row d u" if "u \<in> source_row env src d ` event_key ` set (events_of_day src d)" for u
    using w(4) that unfolding w(3) by blast
  have s: "set (rs_usage (run_write env src d db)) =
      {u \<in> set (rs_usage db). usage_key u \<notin> usage_key ` source_row env src d ` event_key ` set (events_of_day src d)}
      \<union> source_row env src d ` event_key ` set (events_of_day src d)"
    using w(2) unfolding w(3) by (simp add: run_write_def write_usage_result)
  show "{u \<in> set (rs_usage (run_write env src d db)). daily_row d u} =
      {u \<in> set (rs_usage db). daily_row d u \<and> usage_key u \<notin> usage_key ` source_row env src d ` event_key ` set (events_of_day src d)}
      \<union> source_row env src d ` event_key ` set (events_of_day src d)"
    unfolding s using n by blast
qed

lemma source_row_key: "usage_key (source_row env src d k) = (d * day_len, - 1, k)"
  by (simp add: usage_key_def source_row_def Let_def)

lemma source_row_stamp: "ur_finalisedAt (source_row env src d k) = Some (rx_now env)"
  by (simp add: source_row_def Let_def)

text \<open>
  C40. Two runs of one day that overlap can empty it: when the earlier run writes after the later
  one, it puts its older stamp on every bucket, and the later run's sweep then deletes the whole day.
\<close>
theorem overlapping_runs_erase_day:
  assumes "distinct (map usage_key (rs_usage db))" "older_stamps (rx_now early) d (rs_usage db)"
    "texts_ok src" "days_ok (rx_ymd early)" "days_ok (rx_ymd late)" "rx_now early < rx_now late"
  shows "{u \<in> set (rs_usage (run_sweep late d (run_write early src d (run_write late src d db)))). daily_row d u} = {}"
proof -
  let ?K = "event_key ` set (events_of_day src d)"
  let ?b = "run_write late src d db"
  note l = run_write_set [OF assms(1,3,5), of d] and e = run_write_set [OF run_write_set(1) [OF assms(1,3,5)] assms(3,4), of d]
  have "stale_daily (d * day_len) (rx_now late) u"
    if "u \<in> set (rs_usage (run_write early src d ?b))" "daily_row d u" for u
  proof -
    have "u \<in> {u \<in> set (rs_usage ?b). daily_row d u \<and> usage_key u \<notin> usage_key ` source_row early src d ` ?K}
      \<union> source_row early src d ` ?K"
      using that e(2) by blast
    then show ?thesis
    proof
      assume "u \<in> source_row early src d ` ?K"
      then show ?thesis using assms(6) that(2) by (auto simp: stale_daily_iff source_row_stamp)
    next
      assume a: "u \<in> {u \<in> set (rs_usage ?b). daily_row d u \<and> usage_key u \<notin> usage_key ` source_row early src d ` ?K}"
      have "usage_key ` source_row late src d ` ?K = usage_key ` source_row early src d ` ?K"
        by (simp add: image_image source_row_key)
      then have "u \<notin> source_row late src d ` ?K" using a by blast
      with a l(2) have "u \<in> set (rs_usage db)" by blast
      then have "case ur_finalisedAt u of None \<Rightarrow> True | Some t \<Rightarrow> t < rx_now early"
        using assms(2) that(2) by (simp add: older_stamps_def list_all_iff)
      then show ?thesis
        using assms(6) that(2) by (auto simp: stale_daily_iff split: option.splits)
    qed
  qed
  then show ?thesis
    unfolding run_sweep_def sweep_daily_def by auto
qed

theorem overlapping_runs_erase_day_witness:
  "{u \<in> set (rs_usage (run_sweep (sample_env 60 60) 20000
     (run_write (sample_env 50 50) sample_product 20000 (run_write (sample_env 60 60) sample_product 20000 empty_store)))).
      daily_row 20000 u} = {}"
  by (rule overlapping_runs_erase_day)
    (simp_all add: empty_store_def older_stamps_def sample_env_def sample_texts plain_day_ok)

section \<open>Revenue\<close>

lemma sum_constant: "(\<And>x. x \<in> set xs \<Longrightarrow> f x = c) \<Longrightarrow> (\<Sum>x \<leftarrow> xs. f x) = of_nat (length xs) * (c :: rat)"
  by (induction xs) (simp_all add: algebra_simps)

text \<open>The shares of a debit within a day add up to the debit.\<close>

lemma debit_shares:
  assumes "find_row (\<lambda>t. tb_id t = i) (pd_tabs src) = Some t" "counted_debit src t"
    "\<And>n. 0 < n \<Longrightarrow> of_nat n * qdiv (tb_charge t) n = tb_charge t"
    "e \<in> set w" "lg_tab e = Some i"
  shows "(\<Sum>e \<leftarrow> filter (\<lambda>e. lg_tab e = Some i) w. event_revenue qdiv src w e) = tb_charge t"
proof -
  let ?n = "count_where (\<lambda>f. lg_tab f = Some i) w"
  have "0 < ?n" using assms(4,5) by (auto simp: count_where_pos_iff)
  have "event_revenue qdiv src w x = qdiv (tb_charge t) ?n" if "x \<in> set (filter (\<lambda>e. lg_tab e = Some i) w)" for x
    using that assms(1,2) by (simp add: event_revenue_def tab_of_def)
  then have "(\<Sum>e \<leftarrow> filter (\<lambda>e. lg_tab e = Some i) w. event_revenue qdiv src w e)
      = of_nat (length (filter (\<lambda>e. lg_tab e = Some i) w)) * qdiv (tb_charge t) ?n"
    by (rule sum_constant)
  also have "\<dots> = tb_charge t"
    using assms(3) [OF \<open>0 < ?n\<close>] by (simp add: count_where_def)
  finally show ?thesis .
qed

text \<open>The revenue a day books for a debit: over the events of that day that share it.\<close>

definition booked :: "(rat \<Rightarrow> nat \<Rightarrow> rat) \<Rightarrow> product_db \<Rightarrow> string \<Rightarrow> int \<Rightarrow> rat" where
  "booked qdiv src i d = (\<Sum>e \<leftarrow> filter (\<lambda>e. lg_tab e = Some i) (events_of_day src d). event_revenue qdiv src (events_of_day src d) e)"

text \<open>
  A debit is booked in full on every day one of its messages falls on: a bulk request that runs
  across midnight counts its charge once for each day, although the customer paid it once.
\<close>
theorem debit_across_midnight_booked_twice:
  assumes "find_row (\<lambda>t. tb_id t = i) (pd_tabs src) = Some t" "counted_debit src t"
    "\<And>n. 0 < n \<Longrightarrow> of_nat n * qdiv (tb_charge t) n = tb_charge t"
    "e \<in> set (events_of_day src d)" "lg_tab e = Some i"
    "f \<in> set (events_of_day src (d + 1))" "lg_tab f = Some i"
  shows "booked qdiv src i d + booked qdiv src i (d + 1) = 2 * tb_charge t"
  unfolding booked_def
  using debit_shares [where i = i and t = t and qdiv = qdiv and src = src, OF assms(1-3) assms(4,5)]
    debit_shares [where i = i and t = t and qdiv = qdiv and src = src, OF assms(1-3) assms(6,7)] by simp

theorem debit_across_midnight_booked_twice_witness:
  "booked (\<lambda>a n. a / of_nat n) sample_product ''t1'' 20000 + booked (\<lambda>a n. a / of_nat n) sample_product ''t1'' 20001 = 24"
  using debit_across_midnight_booked_twice [of "''t1''" sample_product _ "\<lambda>a n. a / of_nat n"
      "sample_event ''e1'' ''DELIVERED'' (Some ''t1'') (day_start 20000 + 5)" 20000
      "sample_event ''e3'' ''DELIVERED'' (Some ''t1'') (day_start 20001 + 1)"]
  by (simp add: sample_product_def sample_event_def events_of_day_def sample_days counted_debit_def)

section \<open>Destinations\<close>

lemma put_over_destination: "put_over destination_key replace_destination table r = r"
proof (cases "find_row (\<lambda>x. destination_key x = destination_key r) table")
  case (Some old)
  then have "destination_key r = destination_key old" by (auto dest: find_row_SomeD)
  with Some show ?thesis
    by (cases r; cases old) (simp add: put_over_def replace_destination_def destination_key_def)
qed (simp add: put_over_def)

lemma replace_destination_key: "destination_key (replace_destination x y) = destination_key y"
  by (simp add: destination_key_def replace_destination_def)

definition counted_events :: "product_db \<Rightarrow> int \<Rightarrow> log_event list" where
  "counted_events src d = filter (\<lambda>e. lg_channel e \<in> set destination_channels) (events_of_day src d)"

lemma destination_rows_day:
  "destination_rows src (day_start d) (day_start (d + 1)) =
    map make_destination (group_rows destination_group (counted_events src d))"
  by (simp add: destination_rows_def window_events_day counted_events_def)

lemma make_destination_simps [simp]:
  "dr_date (make_destination p) = fst (fst p)" "dr_attempted (make_destination p) = int (length (snd p))"
  "dr_delivered (make_destination p) = int (count_where (\<lambda>e. lg_status e = ''DELIVERED'') (snd p))"
  by (induction p rule: make_destination.induct) simp_all

definition merged_day :: "rollup_env \<Rightarrow> product_db \<Rightarrow> int \<Rightarrow> destination_row list" where
  "merged_day env src d = mergeDestinations (rx_ymd env) (rx_dadd env)
     (map make_destination (group_rows destination_group (counted_events src d)))"

lemma merged_member:
  assumes "\<And>a b. dr_date (add2 a b) = dr_date a" "r \<in> set (mergeByKey key add2 rows)" "\<forall>x \<in> set rows. dr_date x = D"
  shows "dr_date r = D"
proof -
  have "\<forall>p \<in> set (fold (merge_row key add2) rows m). dr_date (snd p) = D" if "\<forall>p \<in> set m. dr_date (snd p) = D" for m
    using assms(3) that
  proof (induction rows arbitrary: m)
    case (Cons x xs)
    have "\<forall>p \<in> set (merge_row key add2 x m). dr_date (snd p) = D"
    proof
      fix p assume "p \<in> set (merge_row key add2 x m)"
      then have "p \<in> set m \<or> p = (key x, case map_of m (key x) of None \<Rightarrow> x | Some seen \<Rightarrow> add2 seen x)"
        unfolding merge_row_def Let_def by (rule set_AList_update)
      then show "dr_date (snd p) = D"
      proof
        assume "p = (key x, case map_of m (key x) of None \<Rightarrow> x | Some seen \<Rightarrow> add2 seen x)"
        moreover have "dr_date seen = D" if "map_of m (key x) = Some seen" for seen
          using Cons.prems(2) map_of_SomeD [OF that] by (metis snd_conv)
        ultimately show ?thesis
          using Cons.prems(1) assms(1) by (cases "map_of m (key x)") simp_all
      qed (use Cons.prems(2) in blast)
    qed
    then show ?case
      using Cons.IH [of "merge_row key add2 x m"] Cons.prems(1) by (simp only: fold_simps list.set_intros(2) ball_simps set_simps) blast
  qed simp
  from this [of "[]"] assms(2) show ?thesis by (auto simp: mergeByKey_def)
qed

lemma merged_day_date: "r \<in> set (merged_day env src d) \<Longrightarrow> dr_date r = d * day_len"
  unfolding merged_day_def mergeDestinations_def
  by (erule merged_member [rotated])
    (auto simp: sum_destinations_def set_group_rows destination_group_def lagosDateOnly_def counted_events_def events_of_day_def)

lemma merged_day_distinct: "distinct (map destination_key (map (destination_new n) (merged_day env src d)))"
  using destinations.merged_distinct [of n "rx_ymd env" "rx_dadd env"] by (simp add: merged_day_def mergeDestinations_def)

lemma destination_new_simps [simp]:
  "dr_date (destination_new n r) = dr_date r" "de_updatedAt (destination_new n r) = n"
  "dr_attempted (destination_new n r) = dr_attempted r" "dr_delivered (destination_new n r) = dr_delivered r"
  by (simp_all add: destination_new_def destination_row.defs)

definition older_destinations :: "millis \<Rightarrow> int \<Rightarrow> destination_rollup list \<Rightarrow> bool" where
  "older_destinations now d rows \<longleftrightarrow> list_all (\<lambda>r. dr_date r = d * day_len \<longrightarrow> de_updatedAt r < now) rows"

lemma destinations_after:
  assumes "distinct (map destination_key (rs_destinations db))" "older_destinations (rx_now env) d (rs_destinations db)"
  shows "{r \<in> set (rs_destinations (snd (rollDestinations env src (day_start d) db))). dr_date r = d * day_len} =
    (if rx_now env \<le> rx_dbnow env then destination_new (rx_dbnow env) ` set (merged_day env src d) else {})"
proof -
  let ?new = "map (destination_new (rx_dbnow env)) (merged_day env src d)"
  have p: "put_over destination_key replace_destination (rs_destinations db) ` set ?new = set ?new"
    by (simp add: put_over_destination)
  have "rs_destinations (snd (rollDestinations env src (day_start d) db)) =
      filter (\<lambda>r. \<not> (dr_date r = d * day_len \<and> de_updatedAt r < rx_now env))
        (fold (upsert_row destination_key replace_destination) ?new (rs_destinations db))"
    by (simp add: rollDestinations_result lagosDayBounds_start lagosDateOnly_start destination_rows_day merged_day_def)
  then have s: "set (rs_destinations (snd (rollDestinations env src (day_start d) db))) =
      {r \<in> {t \<in> set (rs_destinations db). destination_key t \<notin> destination_key ` set ?new} \<union> set ?new.
        \<not> (dr_date r = d * day_len \<and> de_updatedAt r < rx_now env)}"
    using set_upserts [of destination_key replace_destination, OF replace_destination_key assms(1) merged_day_distinct
        [of "rx_dbnow env" env src d]]
    unfolding p by simp
  have old: "de_updatedAt r < rx_now env" if "r \<in> set (rs_destinations db)" "dr_date r = d * day_len" for r
    using assms(2) that by (auto simp: older_destinations_def list_all_iff)
  have new: "dr_date r = d * day_len \<and> de_updatedAt r = rx_dbnow env" if "r \<in> set ?new" for r
    using that by (auto dest: merged_day_date)
  have m: "set ?new = destination_new (rx_dbnow env) ` set (merged_day env src d)" by simp
  show ?thesis
  proof (cases "rx_now env \<le> rx_dbnow env")
    case True
    have "{r \<in> set (rs_destinations (snd (rollDestinations env src (day_start d) db))). dr_date r = d * day_len} = set ?new"
      unfolding s using old new True by fastforce
    with True m show ?thesis by simp
  next
    case False
    have "{r \<in> set (rs_destinations (snd (rollDestinations env src (day_start d) db))). dr_date r = d * day_len} = {}"
      unfolding s using old new False by fastforce
    with False show ?thesis by simp
  qed
qed

lemma merged_day_total:
  fixes f :: "destination_row \<Rightarrow> int"
  assumes "\<And>a b. f (sum_destinations (rx_dadd env) a b) = f a + f b" "\<And>n r. g (destination_new n r) = f r"
    "\<And>p. f (make_destination p) = (\<Sum>e \<leftarrow> snd p. h e)"
  shows "(\<Sum>r \<in> destination_new n ` set (merged_day env src d). g r) = (\<Sum>e \<leftarrow> counted_events src d. h e)"
proof -
  have d: "distinct (map (destination_new n) (merged_day env src d))"
    using merged_day_distinct [of n env src d] unfolding distinct_map [of destination_key] by (rule conjunct1)
  have "(\<Sum>r \<in> set (map (destination_new n) (merged_day env src d)). g r)
      = (\<Sum>r \<leftarrow> map (destination_new n) (merged_day env src d). g r)"
    using d by (simp only: sum_list_distinct_conv_sum_set)
  also have "\<dots> = (\<Sum>r \<leftarrow> merged_day env src d. f r)"
    by (simp add: comp_def assms(2))
  also have "\<dots> = (\<Sum>r \<leftarrow> map make_destination (group_rows destination_group (counted_events src d)). f r)"
    unfolding merged_day_def mergeDestinations_def by (rule destinations.merged_total) (rule assms(1))
  also have "\<dots> = (\<Sum>p \<leftarrow> group_rows destination_group (counted_events src d). \<Sum>e \<leftarrow> snd p. h e)"
    by (simp add: comp_def assms(3))
  also have "\<dots> = (\<Sum>e \<leftarrow> counted_events src d. h e)" by (rule sum_groups)
  finally show ?thesis by simp
qed

text \<open>
  The day's destination rows together count exactly the day's messages on the counted
  channels: merging the rows whose network is null with those whose network is empty loses none.
\<close>
theorem destinations_keep_totals:
  assumes "distinct (map destination_key (rs_destinations db))" "older_destinations (rx_now env) d (rs_destinations db)"
    "rx_now env \<le> rx_dbnow env"
  shows "let rows = {r \<in> set (rs_destinations (snd (rollDestinations env src (day_start d) db))). dr_date r = d * day_len}
    in (\<Sum>r \<in> rows. dr_attempted r) = int (length (counted_events src d))
     \<and> (\<Sum>r \<in> rows. dr_delivered r) = int (count_where (\<lambda>e. lg_status e = ''DELIVERED'') (counted_events src d))"
  unfolding destinations_after [OF assms(1,2)] Let_def if_P [OF assms(3)]
proof
  show "(\<Sum>r \<in> destination_new (rx_dbnow env) ` set (merged_day env src d). dr_attempted r) = int (length (counted_events src d))"
    unfolding length_as_sum
    by (rule merged_day_total [where f = dr_attempted]) (simp_all add: sum_destinations_def length_as_sum)
  show "(\<Sum>r \<in> destination_new (rx_dbnow env) ` set (merged_day env src d). dr_delivered r)
      = int (count_where (\<lambda>e. lg_status e = ''DELIVERED'') (counted_events src d))"
    unfolding count_as_sum
    by (rule merged_day_total [where f = dr_delivered]) (simp_all add: sum_destinations_def count_as_sum)
qed

text \<open>
  The destination rows are stamped by the database's clock and swept by the service's: when the
  database's clock is behind, a run deletes every row it has just written for the day.
\<close>
theorem slow_database_clock_erases_destinations:
  assumes "distinct (map destination_key (rs_destinations db))" "older_destinations (rx_now env) d (rs_destinations db)"
    "rx_dbnow env < rx_now env"
  shows "{r \<in> set (rs_destinations (snd (rollDestinations env src (day_start d) db))). dr_date r = d * day_len} = {}"
  unfolding destinations_after [OF assms(1,2)] using assms(3) by simp

theorem destinations_keep_totals_witness:
  "(\<Sum>r \<in> {r \<in> set (rs_destinations (snd (rollDestinations (sample_env 50 51) sample_product (day_start 20000) empty_store))).
      dr_date r = 20000 * day_len}. dr_attempted r) = 2"
proof -
  have "length (counted_events sample_product 20000) = 2"
    by (simp add: counted_events_def destination_channels_def events_of_day_def sample_product_def sample_event_def sample_days)
  then show ?thesis
    using destinations_keep_totals [of empty_store "sample_env 50 51" 20000 sample_product]
    by (simp add: empty_store_def older_destinations_def sample_env_def Let_def)
qed

theorem slow_database_clock_erases_destinations_witness:
  "{r \<in> set (rs_destinations (snd (rollDestinations (sample_env 50 49) sample_product (day_start 20000) empty_store))).
      dr_date r = 20000 * day_len} = {}"
  by (rule slow_database_clock_erases_destinations) (simp_all add: empty_store_def older_destinations_def sample_env_def)

section \<open>Finance\<close>

text \<open>Without history, cash rows have one per date and a finalised day's row is the source's.\<close>

lemma find_row_upsert:
  assumes "distinct (map key table)" "key r = k" "\<And>old. key old = k \<Longrightarrow> upd r old = r"
  shows "find_row (\<lambda>c. key c = k) (upsert_row key upd r table) = Some r"
  using assms by (induction table) (auto simp: upsert_row_def find_row_append split: if_splits)

lemma cash_after:
  "distinct (map cr_date (rs_cash db)) \<Longrightarrow>
    find_row (\<lambda>c. cr_date c = d * day_len) (rs_cash (rollCash src (day_start d) db)) = Some (cash_of src (day_start d))"
  unfolding rollCash_def
  by (simp add: find_row_upsert cash_of_def Let_def lagosDayBounds_start lagosDateOnly_start)

text \<open>A historical run leaves the liability of a day alone: zero on a new row, kept on an old one.\<close>

lemma historical_liability_kept:
  assumes "f \<in> set (rs_finance (snapshotFinance env src (day_start d) True db))" "fs_date f = d * day_len"
  shows "fs_creditLiability f = 0 \<or> (\<exists>g \<in> set (rs_finance db). fs_date g = d * day_len \<and> fs_creditLiability f = fs_creditLiability g)"
proof -
  have d: "fs_date (snapshot_of (rx_qdiv env) src (day_start d)) = d * day_len"
    by (simp add: snapshot_of_def Let_def lagosDayBounds_start lagosDateOnly_start)
  show ?thesis
  proof (cases "d * day_len \<in> set (map fs_date (rs_finance db))")
    case True
    with assms obtain g where "g \<in> set (rs_finance db)"
      "f = (if fs_date g = d * day_len
        then snapshot_of (rx_qdiv env) src (day_start d)\<lparr>fs_creditLiability := fs_creditLiability g\<rparr> else g)"
      by (auto simp: snapshotFinance_def Let_def upsert_row_def d set_update_where image_iff)
    with assms(2) show ?thesis by (auto split: if_splits)
  next
    case False
    with assms show ?thesis by (auto simp: snapshotFinance_def Let_def upsert_row_def d)
  qed
qed

end
