(* ===== verification/Js_Float.thy ===== *)
theory Js_Float
  imports Js_Number
begin

text \<open>
  Arithmetic on JavaScript numbers: a finite number is the rational it denotes and each operation
  rounds its exact result to the nearest double.  The amounts the services compute with stay far
  below the largest double, so overflow to Infinity does not arise.
\<close>

definition js_value :: "js_num \<Rightarrow> rat" where
  "js_value x = (case x of
      Fin m e \<Rightarrow> if 0 \<le> e then of_int m * 2 ^ nat e else of_int m / 2 ^ nat (- e)
    | _ \<Rightarrow> 0)"

definition fl :: "rat \<Rightarrow> rat" where
  "fl q = (let (n, d) = quotient_of q in js_value (to_double (n < 0) (nat \<bar>n\<bar>) (nat d)))"

text \<open>Math.round: the nearest integer, halves upwards.\<close>

definition js_round :: "rat \<Rightarrow> int" where
  "js_round x = \<lfloor>x + 1 / 2\<rfloor>"

lemma js_value_int:
  assumes "num_int x = Some n"
  shows "js_value x = of_int n"
proof (cases x)
  case (Fin m e)
  show ?thesis
  proof (cases "0 \<le> e")
    case True
    with assms Fin show ?thesis by (auto simp: js_value_def)
  next
    case False
    with assms Fin have "m mod 2 ^ nat (- e) = 0" "n = m div 2 ^ nat (- e)"
      by (auto split: if_splits)
    then have "m = n * 2 ^ nat (- e)" by auto
    then have "(of_int m :: rat) = of_int n * 2 ^ nat (- e)" by simp
    with False Fin show ?thesis by (simp add: js_value_def)
  qed
qed (use assms in simp_all)

lemma to_double_neg: "js_value (to_double True a b) = - js_value (to_double False a b)"
  by (simp add: to_double_def js_value_def Let_def)

text \<open>Integers up to 53 bits are kept.\<close>

lemma fl_int:
  assumes "\<bar>n\<bar> < 2 ^ 53"
  shows "fl (of_int n) = of_int n"
proof -
  have n: "nat \<bar>n\<bar> < 2 ^ 53" using assms by (simp add: nat_less_iff)
  have v: "js_value (to_double False (nat \<bar>n\<bar>) 1) = of_int \<bar>n\<bar>"
    using js_value_int [OF to_double_int [OF n]] by simp
  have q: "quotient_of (of_int n) = (n, 1)" by (simp flip: Fract_of_int_eq add: quotient_of_Fract)
  show ?thesis
    using v to_double_neg [of "nat \<bar>n\<bar>" 1] by (cases "n < 0") (simp_all add: fl_def q)
qed

lemma fl_0 [simp]: "fl 0 = 0"
  using fl_int [of 0] by simp

section \<open>Rounding is idempotent\<close>

abbreviation p2 :: "int \<Rightarrow> rat" where "p2 e \<equiv> 2 powi e"

lemma p2_pos [simp]: "0 < p2 e"
  by simp

lemma p2_nat: "p2 e = 2 ^ nat e / 2 ^ nat (- e)"
  by (cases "0 \<le> e") (simp_all add: power_int_def power_one_over)

lemma bitlen_bounds: "0 < n \<Longrightarrow> 2 ^ (bitlen n - 1) \<le> n \<and> n < 2 ^ bitlen n \<and> 0 < bitlen n"
proof (induction n rule: bitlen.induct)
  case (1 n)
  show ?case
  proof (cases "n div 2 = 0")
    case True
    with "1.prems" have "n = 1" by linarith
    then show ?thesis using bitlen.simps [of 1] bitlen.simps [of 0] by simp
  next
    case False
    then have ih: "2 ^ (bitlen (n div 2) - 1) \<le> n div 2" "n div 2 < 2 ^ bitlen (n div 2)" "0 < bitlen (n div 2)"
      using "1.IH" "1.prems" by simp_all
    have b: "bitlen n = Suc (bitlen (n div 2))" using "1.prems" by (simp add: bitlen.simps [of n])
    obtain k where k: "bitlen (n div 2) = Suc k" using ih(3) by (cases "bitlen (n div 2)") simp_all
    have "2 * 2 ^ k \<le> 2 * (n div 2)" "2 * (n div 2) \<le> n" "n < 2 * (n div 2) + 2" using ih(1) k by simp_all
    moreover have "2 * (n div 2) + 2 \<le> 2 * 2 ^ Suc k" using ih(2) k by simp
    ultimately show ?thesis unfolding b k by simp
  qed
qed

lemma bitlen_p2: "0 < n \<Longrightarrow> p2 (int (bitlen n) - 1) \<le> of_nat n \<and> of_nat n < p2 (int (bitlen n))"
proof -
  assume "0 < n"
  note b = bitlen_bounds [OF this]
  have "int (bitlen n) - 1 = int (bitlen n - 1)" using b by simp
  then have "p2 (int (bitlen n) - 1) = of_nat (2 ^ (bitlen n - 1))"
    by (simp only: power_int_of_nat of_nat_power of_nat_numeral)
  moreover have "p2 (int (bitlen n)) = of_nat (2 ^ bitlen n)"
    by (simp only: power_int_of_nat of_nat_power of_nat_numeral)
  ultimately show ?thesis using b by (simp only: of_nat_le_iff of_nat_less_iff)
qed

text \<open>The scaled value lies below 2 to the 53, and above 2 to the 52 unless the exponent is the least one.\<close>

lemma double_exponent_bounds:
  assumes "0 < num" "0 < den"
  defines "q \<equiv> of_nat num / of_nat den :: rat"
  defines "e \<equiv> double_exponent num den"
  shows "q < p2 (e + 53)" "e = - 1074 \<or> p2 (e + 52) \<le> q" "- 1074 \<le> e"
proof -
  define e0 where "e0 = int (bitlen num) - int (bitlen den) - 53"
  define e1 where "e1 = (if q < p2 (e0 + 53) then e0 else e0 + 1)"
  have d: "0 < (of_nat den :: rat)" using assms(2) by simp
  have c: "num * 2 ^ nat (- e0) < 2 ^ 53 * den * 2 ^ nat e0 \<longleftrightarrow> q < p2 (e0 + 53)"
  proof -
    have "num * 2 ^ nat (- e0) < 2 ^ 53 * den * 2 ^ nat e0
        \<longleftrightarrow> (of_nat num * 2 ^ nat (- e0) :: rat) < 2 ^ 53 * of_nat den * 2 ^ nat e0"
      unfolding of_nat_less_iff [where 'a = rat, of "num * 2 ^ nat (- e0)", symmetric]
      by (simp only: of_nat_mult of_nat_power of_nat_numeral)
    also have "\<dots> \<longleftrightarrow> q < 2 ^ 53 * p2 e0"
      using d by (simp add: q_def p2_nat field_simps)
    also have "2 ^ 53 * p2 e0 = p2 (e0 + 53)" by (simp add: power_int_add)
    finally show ?thesis .
  qed
  have e: "e = max e1 (- 1074)"
    unfolding e_def double_exponent_def Let_def e0_def [symmetric] c e1_def by (rule refl)
  note n = bitlen_p2 [OF assms(1)] and dn = bitlen_p2 [OF assms(2)]
  have lo: "p2 (e0 + 52) < q"
  proof -
    have "p2 (e0 + 52) * of_nat den < p2 (e0 + 52) * p2 (int (bitlen den))" using dn by simp
    also have "\<dots> = p2 (int (bitlen num) - 1)"
      by (subst power_int_add [symmetric]) (simp_all add: e0_def)
    also have "\<dots> \<le> of_nat num" using n by simp
    finally show ?thesis using d by (simp add: q_def field_simps)
  qed
  have hi: "q < p2 (e0 + 54)"
  proof -
    have "of_nat num < p2 (int (bitlen num))" using n by simp
    also have "\<dots> = p2 (e0 + 54) * p2 (int (bitlen den) - 1)"
      by (subst power_int_add [symmetric]) (simp_all add: e0_def)
    also have "\<dots> \<le> p2 (e0 + 54) * of_nat den" using dn by simp
    finally show ?thesis using d by (simp add: q_def field_simps)
  qed
  have h1: "q < p2 (e1 + 53)"
  proof (cases "q < p2 (e0 + 53)")
    case True then show ?thesis unfolding e1_def by (simp only: if_True)
  next
    case False
    have "e0 + 1 + 53 = e0 + 54" by simp
    with False hi show ?thesis unfolding e1_def by (simp only: if_False)
  qed
  have l1: "p2 (e1 + 52) \<le> q"
  proof (cases "q < p2 (e0 + 53)")
    case True with lo show ?thesis unfolding e1_def by (simp only: if_True less_imp_le)
  next
    case False
    have "e0 + 1 + 52 = e0 + 53" by simp
    then show ?thesis unfolding e1_def if_not_P [OF False] using False by (simp only: not_less)
  qed
  have "p2 (e1 + 53) \<le> p2 (e + 53)" by (rule power_int_increasing) (simp_all add: e)
  with h1 show "q < p2 (e + 53)" by simp
  show "e = - 1074 \<or> p2 (e + 52) \<le> q" using l1 e by (auto simp: max_def)
  show "- 1074 \<le> e" using e by simp
qed

definition representable :: "rat \<Rightarrow> bool" where
  "representable q \<longleftrightarrow> \<bar>q\<bar> < 2 ^ 1024 \<and> (\<exists>m e. \<bar>m\<bar> \<le> 2 ^ 53 \<and> - 1074 \<le> e \<and> q = of_int m * p2 e)"

lemma representable_0: "representable 0"
  unfolding representable_def by (rule conjI, simp) (rule exI [of _ 0], rule exI [of _ 0], simp)

lemma representable_minus: "representable (- q) \<longleftrightarrow> representable q"
proof -
  have "representable (- r)" if "representable r" for r
  proof -
    from that obtain m e where "\<bar>r\<bar> < 2 ^ 1024" "\<bar>m\<bar> \<le> 2 ^ 53" "- 1074 \<le> e" "r = of_int m * p2 e"
      unfolding representable_def by blast
    then show ?thesis
      unfolding representable_def by (intro conjI exI [of _ "- m"] exI [of _ e]) simp_all
  qed
  from this [of q] this [of "- q"] show ?thesis by auto
qed

lemma js_value_Fin: "js_value (Fin m e) = of_int m * p2 e"
  by (cases "0 \<le> e") (simp_all add: js_value_def p2_nat)

lemma fl_minus: "fl (- q) = - fl q"
proof -
  obtain n d where q: "quotient_of q = (n, d)" by (cases "quotient_of q")
  then have q': "quotient_of (- q) = (- n, d)" by (simp add: rat_uminus_code)
  have z: "js_value (to_double False 0 k) = 0" for k
    by (cases "k = 0") (simp_all add: to_double_def Let_def js_value_def round_half_even_def)
  have f: "fl q = js_value (to_double (n < 0) (nat \<bar>n\<bar>) (nat d))"
    "fl (- q) = js_value (to_double (- n < 0) (nat \<bar>- n\<bar>) (nat d))"
    unfolding fl_def q q' Let_def by (simp_all only: prod.case)
  show ?thesis
  proof (cases n "0 :: int" rule: linorder_cases)
    case less
    then have "(n < 0) = True" "(- n < 0) = False" "\<bar>- n\<bar> = \<bar>n\<bar>" by simp_all
    then show ?thesis unfolding f by (simp only: to_double_neg minus_minus)
  next
    case equal
    then show ?thesis unfolding f by (simp add: z)
  next
    case greater
    then have "(n < 0) = False" "(- n < 0) = True" "\<bar>- n\<bar> = \<bar>n\<bar>" by simp_all
    then show ?thesis unfolding f by (simp only: to_double_neg)
  qed
qed

lemma fl_pos:
  assumes "0 < q"
  obtains num den where "0 < num" "0 < den" "q = of_nat num / of_nat den" "fl q = js_value (to_double False num den)"
proof -
  obtain n d where q: "quotient_of q = (n, d)" by (cases "quotient_of q")
  have d: "0 < d" using q by (rule quotient_of_denom_pos)
  have v: "q = of_int n / of_int d" using q by (rule quotient_of_div)
  have n: "0 < n"
  proof (rule ccontr)
    assume "\<not> 0 < n"
    then have "q \<le> 0" unfolding v using d by (intro divide_nonpos_pos) simp_all
    with assms show False by simp
  qed
  show ?thesis
    by (rule that [of "nat n" "nat d"]) (use n d v q in \<open>simp_all add: fl_def\<close>)
qed

lemma round_exact: "0 < b \<Longrightarrow> round_half_even (k * b) b = k"
  by (simp add: round_half_even_def)

lemma round_le:
  assumes "a \<le> k * b" "0 < b"
  shows "round_half_even a b \<le> k"
proof (cases "a mod b = 0")
  case True
  with assms show ?thesis by (simp add: round_half_even_def Let_def less_eq_div_iff_mult_less_eq div_le_mono) (metis div_le_mono nonzero_mult_div_cancel_right not_less0)
next
  case False
  have "a = a div b * b + a mod b" by simp
  with False assms(1) have "a div b * b < k * b" by linarith
  then have "a div b < k" using assms(2) by simp
  then show ?thesis by (simp add: round_half_even_def Let_def)
qed

lemma scaled:
  "of_nat (num * 2 ^ nat (- e)) / of_nat (den * 2 ^ nat e) = (of_nat num / of_nat den :: rat) / p2 e"
  by (simp add: p2_nat)

text \<open>Every result is a double, and a double is left as it is.\<close>

lemma fl_representable: "representable (fl q)"
proof -
  have pos: "representable (fl q)" if p: "0 < q" for q
  proof -
    obtain num den where nd: "0 < num" "0 < den" "q = of_nat num / of_nat den"
      "fl q = js_value (to_double False num den)" by (rule fl_pos [OF p])
    define e where "e = double_exponent num den"
    define k where "k = round_half_even (num * 2 ^ nat (- e)) (den * 2 ^ nat e)"
    note b = double_exponent_bounds [OF nd(1,2), folded nd(3) e_def]
    have dpos: "0 < den * 2 ^ nat e" using nd(2) by simp
    have "of_nat (num * 2 ^ nat (- e)) / of_nat (den * 2 ^ nat e) = q / p2 e"
      using scaled [of num e den] nd(3) by simp
    also have "\<dots> < 2 ^ 53" using b(1) by (simp add: power_int_add divide_less_eq mult.commute)
    finally have "(of_nat (num * 2 ^ nat (- e)) :: rat) < of_nat (2 ^ 53 * (den * 2 ^ nat e))"
      using dpos by (simp add: divide_less_eq del: of_nat_mult)
    then have "num * 2 ^ nat (- e) \<le> 2 ^ 53 * (den * 2 ^ nat e)"
      by (simp only: of_nat_less_iff less_imp_le)
    then have k: "k \<le> 2 ^ 53" unfolding k_def using dpos by (rule round_le)
    have t: "to_double False num den = (if 0 < e \<and> 2 ^ 1024 \<le> k * 2 ^ nat e then Infinite False else Fin (int k) e)"
      by (simp add: to_double_def Let_def e_def [symmetric] k_def [symmetric])
    show ?thesis
    proof (cases "0 < e \<and> 2 ^ 1024 \<le> k * 2 ^ nat e")
      case True
      then show ?thesis unfolding nd(4) t by (simp add: js_value_def representable_def) (rule exI [of _ 0], simp)
    next
      case False
      then have v: "fl q = of_int (int k) * p2 e" unfolding nd(4) t by (simp only: if_False js_value_Fin)
      have "of_nat k * p2 e < 2 ^ 1024"
      proof (cases "0 < e")
        case True
        with False have "k * 2 ^ nat e < 2 ^ 1024" by simp
        then have "(of_nat (k * 2 ^ nat e) :: rat) < of_nat (2 ^ 1024)" by (simp only: of_nat_less_iff)
        with True show ?thesis by (simp add: power_int_def)
      next
        case e: False
        have "p2 e \<le> p2 0" by (rule power_int_increasing) (use e in simp_all)
        moreover have "(of_nat k :: rat) \<le> of_nat (2 ^ 53)" using k by (simp only: of_nat_le_iff)
        ultimately have "of_nat k * p2 e \<le> of_nat (2 ^ 53) * 1" by (intro mult_mono) simp_all
        then show ?thesis by simp
      qed
      then show ?thesis
        unfolding representable_def v using k b(3)
        by (intro conjI exI [of _ "int k"] exI [of _ e]) simp_all
    qed
  qed
  show ?thesis
    using pos [of q] pos [of "- q"] by (cases q "0 :: rat" rule: linorder_cases)
      (simp_all add: fl_minus representable_minus representable_0)
qed

lemma fl_of_representable:
  assumes "representable q"
  shows "fl q = q"
proof -
  have pos: "fl q = q" if p: "0 < q" and r: "representable q" for q
  proof -
    obtain num den where nd: "0 < num" "0 < den" "q = of_nat num / of_nat den"
      "fl q = js_value (to_double False num den)" by (rule fl_pos [OF p])
    define e where "e = double_exponent num den"
    define k where "k = round_half_even (num * 2 ^ nat (- e)) (den * 2 ^ nat e)"
    note b = double_exponent_bounds [OF nd(1,2), folded nd(3) e_def]
    have dpos: "0 < den * 2 ^ nat e" using nd(2) by simp
    obtain m f where mf: "\<bar>m\<bar> \<le> 2 ^ 53" "- 1074 \<le> f" "q = of_int m * p2 f"
      using r unfolding representable_def by blast
    have "\<exists>j::int. q / p2 e = of_int j"
    proof (cases "e \<le> f")
      case True
      have "q / p2 e = of_int m * p2 (f - e)" by (simp add: mf(3) power_int_diff)
      also have "p2 (f - e) = of_int (2 ^ nat (f - e))" using True by (simp add: power_int_def)
      finally show ?thesis by (metis of_int_mult)
    next
      case False
      with mf(2) b(2) have l: "p2 (e + 52) \<le> q" by auto
      have "p2 (f + 53) \<le> p2 (e + 52)" using False by (intro power_int_increasing) simp_all
      moreover have "q \<le> p2 (f + 53)"
      proof -
        have "of_int m \<le> (of_int (2 ^ 53) :: rat)" using mf(1) by (simp only: of_int_le_iff abs_le_iff)
        then have "of_int m * p2 f \<le> of_int (2 ^ 53) * p2 f" by (intro mult_right_mono) simp_all
        then show ?thesis by (simp add: mf(3) power_int_add mult.commute)
      qed
      ultimately have "q = p2 (e + 52)" using l by simp
      then have "q / p2 e = of_int (2 ^ 52)" by (simp add: power_int_add)
      then show ?thesis by blast
    qed
    then obtain j :: int where j: "q / p2 e = of_int j" by blast
    have "0 < q / p2 e" using p by simp
    then have j0: "0 < j" by (simp add: j)
    have "(of_nat (num * 2 ^ nat (- e)) :: rat) = of_nat (nat j * (den * 2 ^ nat e))"
    proof -
      have "(of_nat (num * 2 ^ nat (- e)) :: rat) / of_nat (den * 2 ^ nat e) = of_nat (nat j)"
        using scaled [of num e den] nd(3) j j0 by (simp add: of_nat_nat)
      then show ?thesis using dpos by (simp add: divide_eq_eq del: of_nat_mult) (simp)
    qed
    then have "num * 2 ^ nat (- e) = nat j * (den * 2 ^ nat e)" by (simp only: of_nat_eq_iff)
    then have k: "k = nat j" unfolding k_def using round_exact [OF dpos] by simp
    have q: "q = of_nat k * p2 e"
      using j j0 by (simp add: k divide_eq_eq of_nat_nat)
    have "\<not> (0 < e \<and> 2 ^ 1024 \<le> k * 2 ^ nat e)"
    proof
      assume a: "0 < e \<and> 2 ^ 1024 \<le> k * 2 ^ nat e"
      then have "(of_nat (2 ^ 1024) :: rat) \<le> of_nat (k * 2 ^ nat e)" by (simp only: of_nat_le_iff)
      also have "\<dots> = q" using a by (simp add: q power_int_def)
      finally show False using r by (simp add: representable_def)
    qed
    then show ?thesis
      unfolding nd(4) to_double_def Let_def e_def [symmetric] k_def [symmetric]
      by (simp only: if_False js_value_Fin) (simp add: q)
  qed
  show ?thesis
  proof (cases q "0 :: rat" rule: linorder_cases)
    case less
    have "representable (- q)" using assms by (simp only: representable_minus)
    then show ?thesis using pos [of "- q"] less by (simp add: fl_minus)
  next
    case greater
    then show ?thesis using pos assms by blast
  qed simp
qed

lemma fl_idem [simp]: "fl (fl q) = fl q"
  by (rule fl_of_representable) (rule fl_representable)

text \<open>Rounding stays below a double that bounds the exact value, and keeps the sign.\<close>

lemma fl_le:
  assumes "0 \<le> q" "q \<le> u" "representable u"
  shows "fl q \<le> u"
proof (cases "q = 0")
  case True
  with assms show ?thesis by simp
next
  case False
  with assms(1) have p: "0 < q" by simp
  obtain num den where nd: "0 < num" "0 < den" "q = of_nat num / of_nat den"
    "fl q = js_value (to_double False num den)" by (rule fl_pos [OF p])
  define e where "e = double_exponent num den"
  define k where "k = round_half_even (num * 2 ^ nat (- e)) (den * 2 ^ nat e)"
  note b = double_exponent_bounds [OF nd(1,2), folded nd(3) e_def]
  have dpos: "0 < den * 2 ^ nat e" using nd(2) by simp
  obtain m f where mf: "\<bar>m\<bar> \<le> 2 ^ 53" "- 1074 \<le> f" "u = of_int m * p2 f"
    using assms(3) unfolding representable_def by blast
  have t: "to_double False num den = (if 0 < e \<and> 2 ^ 1024 \<le> k * 2 ^ nat e then Infinite False else Fin (int k) e)"
    by (simp add: to_double_def Let_def e_def [symmetric] k_def [symmetric])
  show ?thesis
  proof (cases "0 < e \<and> 2 ^ 1024 \<le> k * 2 ^ nat e")
    case True
    then show ?thesis unfolding nd(4) t using assms by (simp add: js_value_def)
  next
    case nover: False
    then have v: "fl q = of_nat k * p2 e" unfolding nd(4) t by (simp only: if_False js_value_Fin of_int_of_nat_eq)
    show ?thesis
    proof (cases "e \<le> f")
      case True
      have "u / p2 e = of_int m * p2 (f - e)" by (simp add: mf(3) power_int_diff)
      also have "p2 (f - e) = of_int (2 ^ nat (f - e))" using True by (simp add: power_int_def)
      finally obtain j :: int where j: "u / p2 e = of_int j" by (metis of_int_mult)
      have "0 < u / p2 e" using p assms(2) by (intro divide_pos_pos) simp_all
      then have j0: "0 < j" by (simp add: j)
      have "(of_nat num / of_nat den) / p2 e \<le> (of_nat (nat j) :: rat)"
        using assms(2) j j0 by (simp add: nd(3) [symmetric] divide_right_mono flip: j)
      then have "(of_nat (num * 2 ^ nat (- e)) :: rat) / of_nat (den * 2 ^ nat e) \<le> of_nat (nat j)"
        by (simp only: scaled)
      then have "(of_nat (num * 2 ^ nat (- e)) :: rat) \<le> of_nat (nat j * (den * 2 ^ nat e))"
        using dpos by (simp only: pos_divide_le_eq of_nat_0_less_iff flip: of_nat_mult)
      then have "num * 2 ^ nat (- e) \<le> nat j * (den * 2 ^ nat e)" by (simp only: of_nat_le_iff)
      then have "k \<le> nat j" unfolding k_def using dpos by (rule round_le)
      then have "(of_nat k :: rat) \<le> of_int j" using j0 by (simp add: le_nat_iff)
      then have "of_nat k * p2 e \<le> of_int j * p2 e" by (intro mult_right_mono) simp_all
      then show ?thesis using j v by (simp add: divide_eq_eq)
    next
      case False
      with mf(2) b(2) have l: "p2 (e + 52) \<le> q" by auto
      have "p2 (f + 53) \<le> p2 (e + 52)" using False by (intro power_int_increasing) simp_all
      moreover have "u \<le> p2 (f + 53)"
      proof -
        have "of_int m \<le> (of_int (2 ^ 53) :: rat)" using mf(1) by (simp only: of_int_le_iff abs_le_iff)
        then have "of_int m * p2 f \<le> of_int (2 ^ 53) * p2 f" by (intro mult_right_mono) simp_all
        then show ?thesis by (simp add: mf(3) power_int_add mult.commute)
      qed
      ultimately have "q = u" using l assms(2) by simp
      with fl_of_representable [OF assms(3)] show ?thesis by simp
    qed
  qed
qed

lemma fl_nonneg: "0 \<le> q \<Longrightarrow> 0 \<le> fl q"
proof (cases "q = 0")
  case False
  assume "0 \<le> q"
  with False have "0 < q" by simp
  then obtain num den where "fl q = js_value (to_double False num den)" by (rule fl_pos)
  then show ?thesis by (simp add: to_double_def Let_def js_value_def)
qed simp

end
