(* ===== verification/Reconciliation.thy ===== *)
theory Reconciliation
  imports Rollup_Facts Js_Float Inbox "HOL-Library.Product_Lexorder"
begin

text \<open>
  \<open>modules/finance/reconciliation.service.ts\<close> and \<open>reconciliation-kinds.ts\<close>: the daily check of the
  cash rollup against the product's payments.  Number of a Decimal text is the nearest double;
  \<open>fixed\<close> stands for toFixed.
\<close>

section \<open>Kinds\<close>

definition KINDS :: "(string \<times> string \<times> string) list" where
  "KINDS =
     [(''PAYSTACK_SETTLEMENT'', ''Payments check'',
       ''The successful payments recorded in the product for the day, against the console's own cash total for the same day. It confirms the console's figures match your database. It does not check Paystack or your bank.''),
      (''PROVIDER_INVOICE'', ''Provider invoice check'',
       ''Recorded provider cost against the price book. Not running yet: the product does not record provider cost per send.'')]"

definition reconciliationKindInfo :: "string \<Rightarrow> string \<times> string" where
  "reconciliationKindInfo kind =
     (case map_of KINDS kind of Some i \<Rightarrow> i
      | None \<Rightarrow> (toLowerCase (map (\<lambda>c. if c = CHR ''_'' then CHR '' '' else c) kind), []))"

section \<open>A run\<close>

datatype reconciliation_status = OK | VARIANCE | RECON_FAILED

record reconciliation_run =
  rn_date :: millis
  rn_kind :: string
  rn_status :: reconciliation_status
  rn_expected :: string
  rn_actual :: string
  rn_variancePct :: string
  rn_note :: string

record finance_state =
  fo_store :: rollup_store
  fo_runs :: "reconciliation_run list"
  fo_inbox :: inbox_state

record recon_env =
  rcn_fixed :: "rat \<Rightarrow> nat \<Rightarrow> string"
  rcn_ymd :: "millis \<Rightarrow> string"
  rcn_thresholdPct :: rat
  rcn_now :: millis

definition settlement_total :: "product_db \<Rightarrow> millis \<Rightarrow> rat" where
  "settlement_total src day =
     (let (start, finish) = lagosDayBounds day
      in \<Sum>p \<leftarrow> collected src ''SUCCESS'' start finish. py_amount p)"

definition cash_collected :: "rollup_store \<Rightarrow> millis \<Rightarrow> rat" where
  "cash_collected db day =
     (case find_row (\<lambda>c. cr_date c = lagosDateOnly day) (rs_cash db) of None \<Rightarrow> 0 | Some c \<Rightarrow> cr_collected c)"

definition variancePct :: "rat \<Rightarrow> rat \<Rightarrow> rat" where
  "variancePct expected actual =
     (if expected = 0 then if actual = 0 then 0 else 100
      else fl (fl (fl (actual - expected) / expected) * 100))"

definition variance_alert :: "recon_env \<Rightarrow> millis \<Rightarrow> string \<Rightarrow> rat \<Rightarrow> rat \<Rightarrow> staff_alert" where
  "variance_alert env date kind expected actual = \<lparr>
     al_type = ''reconciliation.variance'', al_severity = HIGH,
     al_title = fst (reconciliationKindInfo kind) @ '': '' @ rcn_fixed env (variancePct expected actual) 2 @ ''% variance'',
     al_body = Some (''The product recorded '' @ rcn_fixed env expected 2
       @ '' of successful payments for the day; the console recorded '' @ rcn_fixed env actual 2 @ ''.''),
     al_link = Some (''/finance/reconciliation?date='' @ rcn_ymd env date)\<rparr>"

definition record_run ::
  "recon_env \<Rightarrow> millis \<Rightarrow> string \<Rightarrow> rat \<Rightarrow> rat \<Rightarrow> string \<Rightarrow> finance_state \<Rightarrow> reconciliation_run \<times> finance_state" where
  "record_run env day kind expected actual note s =
     (let v = variancePct expected actual;
          breached = \<bar>v\<bar> > rcn_thresholdPct env;
          date = lagosDateOnly day;
          run = \<lparr>rn_date = date, rn_kind = kind, rn_status = (if breached then VARIANCE else OK),
                 rn_expected = rcn_fixed env expected 4, rn_actual = rcn_fixed env actual 4,
                 rn_variancePct = rcn_fixed env v 6, rn_note = note\<rparr>;
          s1 = s\<lparr>fo_runs := upsert_row (\<lambda>r. (rn_date r, rn_kind r)) (\<lambda>new old. new) run (fo_runs s)\<rparr>
      in (run,
          if breached
          then s1\<lparr>fo_inbox := snd (broadcastToPermission (rcn_now env) ''finance.read''
                 (variance_alert env date kind expected actual) (fo_inbox s1))\<rparr>
          else s1))"

definition reconcileCash :: "recon_env \<Rightarrow> product_db \<Rightarrow> millis \<Rightarrow> finance_state \<Rightarrow> reconciliation_run \<times> finance_state" where
  "reconcileCash env src day s =
     record_run env day ''PAYSTACK_SETTLEMENT'' (fl (settlement_total src day)) (fl (cash_collected (fo_store s) day))
       ''Successful payments in the product against the console's cash total, for the same Lagos day'' s"

definition runForDay ::
  "recon_env \<Rightarrow> product_db \<Rightarrow> millis \<Rightarrow> finance_state \<Rightarrow> (millis \<times> reconciliation_run list) \<times> finance_state" where
  "runForDay env src day s = (let (run, s') = reconcileCash env src day s in ((lagosDateOnly day, [run]), s'))"

text \<open>Newest day first; the kinds of a day in the order of the enum.\<close>

definition kind_rank :: "string \<Rightarrow> nat" where
  "kind_rank k = (if k = ''PAYSTACK_SETTLEMENT'' then 0 else 1)"

definition reconciliation_list :: "millis \<Rightarrow> millis \<Rightarrow> finance_state \<Rightarrow> (reconciliation_run \<times> string \<times> string) list" where
  "reconciliation_list from to_day s =
     map (\<lambda>r. (r, reconciliationKindInfo (rn_kind r)))
       (sort_key (\<lambda>r. (- rn_date r, kind_rank (rn_kind r)))
         (filter (\<lambda>r. lagosDateOnly from \<le> rn_date r \<and> rn_date r \<le> lagosDateOnly to_day) (fo_runs s)))"

section \<open>Facts\<close>

text \<open>Amounts with four decimals are stored as they are, and so are their sums.\<close>

lemma money_fixed: "money q = q \<longleftrightarrow> (\<exists>n::int. q = of_int n / 10000)"
proof
  assume m: "money q = q"
  let ?k = "\<lfloor>\<bar>q\<bar> * 10000 + 1 / 2\<rfloor>"
  have "q = of_int (if q < 0 then - ?k else ?k) / 10000"
    using m by (cases "q < 0") (simp_all add: money_def Let_def)
  then show "\<exists>n::int. q = of_int n / 10000" by blast
next
  assume "\<exists>n::int. q = of_int n / 10000"
  then obtain n :: int where n: "q = of_int n / 10000" by blast
  have "\<bar>q\<bar> * 10000 = of_int \<bar>n\<bar>" by (simp add: n abs_divide)
  moreover have "\<lfloor>(of_int k :: rat) + 1 / 2\<rfloor> = k" for k :: int
    by (simp add: floor_eq_iff)
  ultimately have "\<lfloor>\<bar>q\<bar> * 10000 + 1 / 2\<rfloor> = \<bar>n\<bar>"
    by metis
  then show "money q = q"
    by (simp add: money_def Let_def n divide_less_0_iff)
qed

lemma money_sum:
  assumes "\<forall>x \<in> set xs. money (f x) = f x"
  shows "money (\<Sum>x \<leftarrow> xs. f x) = (\<Sum>x \<leftarrow> xs. f x)"
  using assms
proof (induction xs)
  case (Cons x xs)
  then obtain a b :: int where ab: "f x = of_int a / 10000" "(\<Sum>x \<leftarrow> xs. f x) = of_int b / 10000"
    by (auto simp: money_fixed)
  then have "(\<Sum>x \<leftarrow> x # xs. f x) = of_int (a + b) / 10000"
    by (simp add: add_divide_distrib)
  then show ?case unfolding money_fixed by blast
qed simp

lemma variance_equal [simp]: "variancePct x x = 0"
  by (simp add: variancePct_def)

lemma stored_run:
  "fst (record_run env day kind e a note s) \<in> set (fo_runs (snd (record_run env day kind e a note s)))"
  by (auto simp: record_run_def Let_def upsert_row_def set_update_where image_iff)

lemma finaliseDay_cash_row:
  assumes "distinct (map cr_date (rs_cash db))"
  shows "find_row (\<lambda>c. cr_date c = d * day_len) (rs_cash (snd (finaliseDay env src (day_start d) historical db)))
    = Some (cash_of src (day_start d))"
  using cash_after [OF assms, of d src] by (simp add: finaliseDay_cash rollCash_def)

text \<open>
  A day that has just been finalised reconciles: the check finds the very total the
  finalisation stored, records the run as OK and alerts nobody.
\<close>
theorem finalised_day_reconciles:
  assumes "distinct (map cr_date (rs_cash (fo_store s)))" "0 \<le> rcn_thresholdPct env"
    "\<forall>p \<in> set (collected src ''SUCCESS'' (day_start d) (day_start (d + 1))). money (py_amount p) = py_amount p"
  shows "case runForDay env src (day_start d)
      (s\<lparr>fo_store := snd (finaliseDay renv src (day_start d) historical (fo_store s))\<rparr>) of
    ((date, runs), s') \<Rightarrow> date = d * day_len \<and> map rn_status runs = [OK] \<and> set runs \<subseteq> set (fo_runs s') \<and> fo_inbox s' = fo_inbox s"
proof -
  let ?s = "s\<lparr>fo_store := snd (finaliseDay renv src (day_start d) historical (fo_store s))\<rparr>"
  have t: "cash_collected (snd (finaliseDay renv src (day_start d) historical (fo_store s))) (day_start d) = settlement_total src (day_start d)"
    using money_sum [OF assms(3)] finaliseDay_cash_row [OF assms(1)]
    by (simp add: cash_collected_def settlement_total_def lagosDateOnly_start lagosDayBounds_start cash_of_def)
  have r: "runForDay env src (day_start d) ?s
      = (let (run, s') = reconcileCash env src (day_start d) ?s in ((d * day_len, [run]), s'))"
    by (simp add: runForDay_def lagosDateOnly_start)
  have i: "fst (reconcileCash env src (day_start d) ?s) \<in> set (fo_runs (snd (reconcileCash env src (day_start d) ?s)))"
    unfolding reconcileCash_def by (rule stored_run)
  have o: "rn_status (fst (reconcileCash env src (day_start d) ?s)) = OK"
    "fo_inbox (snd (reconcileCash env src (day_start d) ?s)) = fo_inbox s"
    using assms(2) by (simp_all add: reconcileCash_def t record_run_def Let_def)
  show ?thesis
    unfolding r Let_def split_beta using i o by simp
qed

definition sample_recon :: recon_env where
  "sample_recon = \<lparr>rcn_fixed = (\<lambda>q n. []), rcn_ymd = plain_day, rcn_thresholdPct = 1, rcn_now = 60\<rparr>"

definition sample_finance :: finance_state where
  "sample_finance = \<lparr>fo_store = empty_store, fo_runs = [], fo_inbox = \<lparr>ib_staff = [], ib_roles = [], ib_notes = [],
     ib_nextNote = 0, ib_pushed = [], ib_mails = []\<rparr>\<rparr>"

theorem finalised_day_reconciles_witness:
  "map rn_status (snd (fst (runForDay sample_recon sample_product (day_start 20000)
     (sample_finance\<lparr>fo_store := snd (finaliseDay (sample_env 50 50) sample_product (day_start 20000) False (fo_store sample_finance))\<rparr>)))) = [OK]"
proof -
  have "money (500 :: rat) = 500" unfolding money_fixed by (rule exI [of _ 5000000]) simp
  then show ?thesis
    using finalised_day_reconciles [of sample_finance sample_recon sample_product 20000 "sample_env 50 50" False]
    by (simp add: sample_finance_def empty_store_def sample_recon_def collected_def sample_product_def split_beta)
qed

end
