(* ===== verification/Finance.thy ===== *)
theory Finance
  imports Reconciliation
begin

text \<open>
  \<open>modules/finance/finance.service.ts\<close>: revenue, profit, cash and cohort figures, read from the
  rollups over Lagos days.  A SUM is exact, its Number the nearest double, and every JavaScript
  operation rounds (\<open>fl\<close>).  \<open>parse\<close> reads the ISO dates of the query.
\<close>

section \<open>Queries\<close>

record finance_query =
  fq_from :: "string option"
  fq_to :: "string option"
  fq_groupBy :: "string list"
  fq_channel :: "string option"
  fq_accountId :: "string option"
  fq_country :: "string option"
  fq_provider :: "string option"

definition js_round_dp :: "rat \<Rightarrow> nat \<Rightarrow> rat" where
  "js_round_dp v dp = fl (of_int (js_round (fl (v * 10 ^ dp))) / 10 ^ dp)"

text \<open>\<open>rows.reduce((acc, r) => acc + D(r), 0)\<close>.\<close>

definition js_total :: "('r \<Rightarrow> rat) \<Rightarrow> 'r list \<Rightarrow> rat" where
  "js_total f rows = foldl (\<lambda>acc r. fl (acc + fl (f r))) 0 rows"

definition group_dims :: "(string \<times> string) list" where
  "group_dims = [(''channel'', ''channel''), (''account'', ''accountId''), (''country'', ''country''),
     (''provider'', ''provider''), (''plan'', ''planId'')]"

definition groupClause :: "finance_query \<Rightarrow> string list" where
  "groupClause dto = map snd (filter (\<lambda>(k, d). js_includes (fq_groupBy dto) k) group_dims)"

text \<open>A dimension of a row; no writer sets the plan of a rollup.\<close>

definition dim_value :: "string \<Rightarrow> usage_rollup \<Rightarrow> string option" where
  "dim_value d r =
     (if d = ''channel'' then Some (ub_channel r)
      else if d = ''accountId'' then Some (ub_account r)
      else if d = ''country'' then Some (ub_country r)
      else if d = ''provider'' then Some (ub_provider r)
      else None)"

definition wants :: "string option \<Rightarrow> string \<Rightarrow> bool" where
  "wants q v \<longleftrightarrow> (truthy q \<longrightarrow> q = Some v)"

definition date_in :: "millis \<Rightarrow> millis \<Rightarrow> millis \<Rightarrow> bool" where
  "date_in start finish date \<longleftrightarrow> lagosDateOnly start \<le> date \<and> date \<le> lagosDateOnly finish"

definition profit_where :: "finance_query \<Rightarrow> millis \<Rightarrow> millis \<Rightarrow> usage_rollup \<Rightarrow> bool" where
  "profit_where dto start finish r \<longleftrightarrow> ub_hour r = - 1 \<and> date_in start finish (ub_date r)
     \<and> wants (fq_channel dto) (ub_channel r) \<and> wants (fq_accountId dto) (ub_account r)
     \<and> wants (fq_country dto) (ub_country r) \<and> wants (fq_provider dto) (ub_provider r)"

section \<open>Profit\<close>

record profit_totals =
  pt_recognisedRevenue :: rat
  pt_usageRevenue :: rat
  pt_subscriptionRevenue :: rat
  pt_providerCost :: rat
  pt_paymentFees :: rat
  pt_grossProfit :: rat
  pt_grossMargin :: "rat option"

record profit_row =
  pw_dims :: "(string \<times> string option) list"
  pw_revenue :: rat
  pw_providerCost :: rat
  pw_contribution :: rat
  pw_margin :: "rat option"
  pw_attempted :: int
  pw_succeeded :: int
  pw_failed :: int

definition sum_of :: "('r \<Rightarrow> rat) \<Rightarrow> 'r list \<Rightarrow> rat" where
  "sum_of f rows = (\<Sum>r \<leftarrow> rows. f r)"

definition profit_groups ::
  "finance_query \<Rightarrow> millis \<Rightarrow> millis \<Rightarrow> rollup_store \<Rightarrow> ((string \<times> string option) list \<times> usage_rollup list) list" where
  "profit_groups dto start finish db =
     (let dims = (if groupClause dto = [] then [''channel''] else groupClause dto)
      in group_rows (\<lambda>r. map (\<lambda>d. (d, dim_value d r)) dims) (filter (profit_where dto start finish) (rs_usage db)))"

definition finance_profit ::
  "(string \<Rightarrow> int option) \<Rightarrow> millis \<Rightarrow> finance_query \<Rightarrow> rollup_store \<Rightarrow> (profit_totals \<times> profit_row list) result" where
  "finance_profit parse now dto db =
     (case resolveRange parse now (fq_from dto) (fq_to dto) 30 of
        Inl e \<Rightarrow> Inl e
      | Inr (start, finish) \<Rightarrow>
         (let groups = profit_groups dto start finish db;
              usageRevenue = js_total (\<lambda>(k, rs). sum_of ub_revenue rs) groups;
              providerCost = js_total (\<lambda>(k, rs). sum_of ub_cost rs) groups;
              subscriptionRevenue = fl (sum_of fs_subscriptionRevenue (filter (\<lambda>f. date_in start finish (fs_date f)) (rs_finance db)));
              paymentFees = fl (sum_of cr_fees (filter (\<lambda>c. date_in start finish (cr_date c)) (rs_cash db)));
              recognisedRevenue = fl (usageRevenue + subscriptionRevenue);
              grossProfit = fl (fl (recognisedRevenue - providerCost) - paymentFees)
          in Inr
            (\<lparr>pt_recognisedRevenue = js_round_dp recognisedRevenue 2,
              pt_usageRevenue = js_round_dp usageRevenue 2,
              pt_subscriptionRevenue = js_round_dp subscriptionRevenue 2,
              pt_providerCost = js_round_dp providerCost 2,
              pt_paymentFees = js_round_dp paymentFees 2,
              pt_grossProfit = js_round_dp grossProfit 2,
              pt_grossMargin = (if recognisedRevenue \<noteq> 0 then Some (js_round_dp (fl (grossProfit / recognisedRevenue)) 4) else None)\<rparr>,
             map (\<lambda>(k, rs).
               (let revenue = fl (sum_of ub_revenue rs); cost = fl (sum_of ub_cost rs)
                in \<lparr>pw_dims = k, pw_revenue = js_round_dp revenue 2, pw_providerCost = js_round_dp cost 2,
                    pw_contribution = js_round_dp (fl (revenue - cost)) 2,
                    pw_margin = (if revenue \<noteq> 0 then Some (js_round_dp (fl (fl (revenue - cost) / revenue)) 4) else None),
                    pw_attempted = (\<Sum>r \<leftarrow> rs. ub_attempted r),
                    pw_succeeded = (\<Sum>r \<leftarrow> rs. ub_succeeded r),
                    pw_failed = (\<Sum>r \<leftarrow> rs. ub_failed r)\<rparr>)) groups)))"

section \<open>Revenue by day\<close>

record revenue_point =
  rp_date :: millis
  rp_creditsConsumed :: rat
  rp_subscriptionRevenue :: rat
  rp_cashCollected :: rat
  rp_creditLiability :: rat
  rp_mrr :: rat

definition revenue_point_of :: "finance_query \<Rightarrow> rollup_store \<Rightarrow> millis \<Rightarrow> revenue_point" where
  "revenue_point_of dto db date =
     (let u = filter (\<lambda>r. ub_hour r = - 1 \<and> ub_date r = date \<and> wants (fq_channel dto) (ub_channel r)) (rs_usage db);
          c = find_row (\<lambda>c. cr_date c = date) (rev (rs_cash db));
          s = find_row (\<lambda>s. fs_date s = date) (rev (rs_finance db));
          d = (\<lambda>x. fl (coalesce x 0))
      in \<lparr>rp_date = date,
          rp_creditsConsumed = js_round_dp (fl (sum_of ub_revenue u)) 2,
          rp_subscriptionRevenue = js_round_dp (d (map_option fs_subscriptionRevenue s)) 2,
          rp_cashCollected = js_round_dp (fl (d (map_option cr_collected c) - d (map_option cr_refunded c))) 2,
          rp_creditLiability = js_round_dp (d (map_option fs_creditLiability s)) 2,
          rp_mrr = js_round_dp (d (map_option fs_mrr s)) 2\<rparr>)"

definition revenueTimeseries ::
  "(string \<Rightarrow> int option) \<Rightarrow> millis \<Rightarrow> finance_query \<Rightarrow> rollup_store \<Rightarrow> revenue_point list result" where
  "revenueTimeseries parse now dto db =
     (case resolveRange parse now (fq_from dto) (fq_to dto) 30 of
        Inl e \<Rightarrow> Inl e
      | Inr (start, finish) \<Rightarrow> Inr (map (revenue_point_of dto db) (eachLagosDay start finish)))"

section \<open>Cash\<close>

record cash_view =
  cv_collected :: rat
  cv_grossCollected :: rat
  cv_refunded :: rat
  cv_successfulPayments :: nat
  cv_failedPayments :: nat
  cv_creditLiability :: rat

text \<open>The newest snapshot on or before the last day.\<close>

definition latest_snapshot :: "millis \<Rightarrow> finance_snapshot list \<Rightarrow> finance_snapshot option" where
  "latest_snapshot finish rows =
     (case rev (sort_key fs_date (filter (\<lambda>s. fs_date s \<le> lagosDateOnly finish) rows)) of
        [] \<Rightarrow> None | s # _ \<Rightarrow> Some s)"

definition finance_cash ::
  "(string \<Rightarrow> int option) \<Rightarrow> millis \<Rightarrow> finance_query \<Rightarrow> rollup_store \<Rightarrow> cash_view result" where
  "finance_cash parse now dto db =
     (case resolveRange parse now (fq_from dto) (fq_to dto) 30 of
        Inl e \<Rightarrow> Inl e
      | Inr (start, finish) \<Rightarrow>
         (let rows = filter (\<lambda>c. date_in start finish (cr_date c)) (rs_cash db);
              collected = fl (sum_of cr_collected rows);
              refunded = fl (sum_of cr_refunded rows)
          in Inr \<lparr>cv_collected = js_round_dp (fl (collected - refunded)) 2,
               cv_grossCollected = js_round_dp collected 2,
               cv_refunded = js_round_dp refunded 2,
               cv_successfulPayments = (\<Sum>c \<leftarrow> rows. cr_paymentCount c),
               cv_failedPayments = (\<Sum>c \<leftarrow> rows. cr_failedCount c),
               cv_creditLiability = js_round_dp (fl (coalesce (map_option fs_creditLiability (latest_snapshot finish (rs_finance db))) 0)) 2\<rparr>))"

section \<open>Cohorts\<close>

record cohort_metrics =
  cm_activeAccounts :: nat
  cm_arpaCredits :: rat
  cm_revenueChurn :: "rat option"
  cm_churnedCredits :: rat
  cm_priorStart :: millis
  cm_priorRevenue :: rat

text \<open>Revenue per account over the daily rows whose date passes a test.\<close>

definition by_account :: "(millis \<Rightarrow> bool) \<Rightarrow> rollup_store \<Rightarrow> (string \<times> rat) list" where
  "by_account dates db =
     map (\<lambda>(a, rs). (a, sum_of ub_revenue rs))
       (group_rows ub_account (filter (\<lambda>r. ub_hour r = - 1 \<and> dates (ub_date r)) (rs_usage db)))"

definition prior_start :: "millis \<Rightarrow> millis \<Rightarrow> millis" where
  "prior_start start finish = start - (finish - start)"

definition prior_dates :: "millis \<Rightarrow> millis \<Rightarrow> millis \<Rightarrow> bool" where
  "prior_dates start finish date \<longleftrightarrow>
     lagosDateOnly (prior_start start finish) \<le> date \<and> date < lagosDateOnly start"

definition cohortMetrics ::
  "(string \<Rightarrow> int option) \<Rightarrow> millis \<Rightarrow> finance_query \<Rightarrow> rollup_store \<Rightarrow> cohort_metrics result" where
  "cohortMetrics parse now dto db =
     (case resolveRange parse now (fq_from dto) (fq_to dto) 30 of
        Inl e \<Rightarrow> Inl e
      | Inr (start, finish) \<Rightarrow>
         (let current = by_account (date_in start finish) db;
              prior = by_account (prior_dates start finish) db;
              priorRevenue = js_total snd prior;
              currentRevenue = js_total snd current;
              churned = js_total snd (filter (\<lambda>(a, v). a \<notin> set (map fst current)) prior)
          in Inr \<lparr>cm_activeAccounts = length current,
               cm_arpaCredits = (if current = [] then 0 else js_round_dp (fl (currentRevenue / of_nat (length current))) 2),
               cm_revenueChurn = (if priorRevenue \<noteq> 0 then Some (js_round_dp (fl (churned / priorRevenue)) 4) else None),
               cm_churnedCredits = js_round_dp churned 2,
               cm_priorStart = prior_start start finish,
               cm_priorRevenue = js_round_dp priorRevenue 2\<rparr>))"

section \<open>Facts\<close>

lemma resolved_range:
  assumes "resolveRange parse now from to_day n = Inr (start, finish)"
  obtains f l where "start = day_start f" "finish = day_end l"
  using assms that by (auto simp: resolveRange_def Let_def split: option.splits if_splits)

text \<open>The date window of the period before: as many days, ending where the period starts.\<close>

lemma prior_dates_days:
  assumes "f \<le> l"
  shows "prior_dates (day_start f) (day_end l) (d * day_len) \<longleftrightarrow> f - (l - f + 1) \<le> d \<and> d < f"
proof -
  have p: "prior_start (day_start f) (day_end l) = day_start (f - (l - f + 1)) + 1"
    by (simp add: prior_start_def day_end_def day_start_def algebra_simps)
  have "lagos_day (day_start (f - (l - f + 1)) + 1) = f - (l - f + 1)"
    by (simp add: lagos_day_iff day_start_def day_len_def)
  then show ?thesis
    using day_len_pos(1) by (simp add: prior_dates_def p lagosDateOnly_def)
qed

lemma date_in_days: "date_in (day_start f) (day_end l) (d * day_len) \<longleftrightarrow> f \<le> d \<and> d \<le> l"
  using day_len_pos(1) by (simp add: date_in_def lagosDateOnly_def)

section \<open>What profit says\<close>

text \<open>No writer records a cost or a fee.\<close>

definition no_costs :: "rollup_store \<Rightarrow> bool" where
  "no_costs db \<longleftrightarrow> list_all (\<lambda>r. ub_cost r = 0) (rs_usage db) \<and> list_all (\<lambda>c. cr_fees c = 0) (rs_cash db)"

lemma upsert_row_all:
  assumes "list_all P table" "P r" "\<And>x. P x \<Longrightarrow> P (upd r x)"
  shows "list_all P (upsert_row key upd r table)"
  using assms by (auto simp: upsert_row_def list_all_iff set_update_where)

lemma upserts_all:
  assumes "list_all P table" "\<forall>r \<in> set rows. P r" "\<And>r x. P r \<Longrightarrow> P x \<Longrightarrow> P (upd r x)"
  shows "list_all P (fold (upsert_row key upd) rows table)"
  using assms(1,2)
proof (induction rows arbitrary: table)
  case (Cons r rs)
  have "list_all P (upsert_row key upd r table)"
    by (rule upsert_row_all) (use Cons.prems assms(3) in auto)
  then show ?case using Cons by simp
qed simp

lemma finaliseDay_no_costs:
  assumes "no_costs db" "texts_ok src" "days_ok (rx_ymd env)"
  shows "no_costs (snd (finaliseDay env src (day_start d) historical db))"
proof -
  have z: "\<forall>r \<in> set (map (usage_row (Some (rx_now env)) (rx_dbnow env))
      (mergeUsage (rx_ymd env) (rx_dadd env) (usageBuckets (rx_qdiv env) src (day_start d) (day_start (d + 1)) True))). ub_cost r = 0"
    unfolding mergeUsage_buckets [OF assms(2,3)] set_map day_rows by (auto simp: source_row_def Let_def)
  have "list_all (\<lambda>r. ub_cost r = 0) (fold (upsert_row usage_key replace_usage)
      (map (usage_row (Some (rx_now env)) (rx_dbnow env))
        (mergeUsage (rx_ymd env) (rx_dadd env) (usageBuckets (rx_qdiv env) src (day_start d) (day_start (d + 1)) True))) (rs_usage db))"
    by (rule upserts_all) (use assms(1) z in \<open>auto simp: no_costs_def replace_usage_def\<close>)
  then have "list_all (\<lambda>r. ub_cost r = 0) (rs_usage (snd (finaliseDay env src (day_start d) historical db)))"
    unfolding finaliseDay_usage by (auto simp: list_all_iff)
  moreover have "list_all (\<lambda>c. cr_fees c = 0) (rs_cash (snd (finaliseDay env src (day_start d) historical db)))"
    unfolding finaliseDay_cash
    by (rule upsert_row_all) (use assms(1) in \<open>auto simp: no_costs_def cash_of_def Let_def lagosDayBounds_start\<close>)
  ultimately show ?thesis by (simp add: no_costs_def)
qed

lemma sum_of_0: "(\<And>r. r \<in> set rows \<Longrightarrow> f r = 0) \<Longrightarrow> sum_of f rows = 0"
  unfolding sum_of_def by (induction rows) simp_all

lemma js_total_0: "(\<And>r. r \<in> set rows \<Longrightarrow> f r = 0) \<Longrightarrow> js_total f rows = 0"
proof -
  have "(\<And>r. r \<in> set rows \<Longrightarrow> f r = 0) \<Longrightarrow> foldl (\<lambda>acc r. fl (acc + fl (f r))) 0 rows = 0"
    by (induction rows) simp_all
  then show "(\<And>r. r \<in> set rows \<Longrightarrow> f r = 0) \<Longrightarrow> js_total f rows = 0"
    by (simp add: js_total_def)
qed

lemma js_round_dp_1: "js_round_dp 1 4 = 1"
proof -
  have "js_round 10000 = 10000" by (simp add: js_round_def floor_eq_iff)
  moreover have "fl 10000 = 10000" "fl 1 = 1" using fl_int [of 10000] fl_int [of 1] by simp_all
  ultimately show ?thesis by (simp add: js_round_dp_def)
qed

lemma profit_without_costs:
  assumes "no_costs db" "finance_profit parse now dto db = Inr (t, rows)"
  shows "pt_grossProfit t = pt_recognisedRevenue t \<and> pt_grossMargin t \<in> {None, Some 1}"
proof -
  obtain start finish where r: "resolveRange parse now (fq_from dto) (fq_to dto) 30 = Inr (start, finish)"
    using assms(2) by (auto simp: finance_profit_def split: sum.splits)
  have c: "js_total (\<lambda>(k, rs). sum_of ub_cost rs) (profit_groups dto start finish db) = 0"
  proof (rule js_total_0)
    fix p assume "p \<in> set (profit_groups dto start finish db)"
    then have "\<forall>x \<in> set (snd p). x \<in> set (rs_usage db)"
      by (auto simp: profit_groups_def Let_def set_group_rows)
    then show "(case p of (k, rs) \<Rightarrow> sum_of ub_cost rs) = 0"
      using assms(1) by (auto simp: split_beta no_costs_def list_all_iff intro: sum_of_0)
  qed
  have f: "sum_of cr_fees (filter (\<lambda>c. date_in start finish (cr_date c)) (rs_cash db)) = 0"
    by (rule sum_of_0) (use assms(1) in \<open>auto simp: no_costs_def list_all_iff\<close>)
  have o: "fl 1 = 1" using fl_int [of 1] by simp
  show ?thesis
    using assms(2) unfolding finance_profit_def r by (auto simp: Let_def c f js_round_dp_1 o split: if_splits)
qed

text \<open>
  The profit endpoint reports the revenue as profit: no rollup ever holds a provider cost or a
  payment fee, so after any finalised day the gross profit equals the recognised revenue and the
  margin, where one is shown, is 100 percent.
\<close>
theorem profit_equals_revenue:
  assumes "no_costs db" "texts_ok src" "days_ok (rx_ymd env)"
    "finance_profit parse now dto (snd (finaliseDay env src (day_start d) historical db)) = Inr (t, rows)"
  shows "pt_grossProfit t = pt_recognisedRevenue t \<and> pt_grossMargin t \<in> {None, Some 1}"
  by (rule profit_without_costs [OF finaliseDay_no_costs [OF assms(1-3)] assms(4)])

definition plain_query :: finance_query where
  "plain_query = \<lparr>fq_from = None, fq_to = None, fq_groupBy = [], fq_channel = None, fq_accountId = None,
     fq_country = None, fq_provider = None\<rparr>"

theorem profit_equals_revenue_witness:
  "\<exists>t rows. finance_profit (\<lambda>s. None) (day_start 20000)
     plain_query (snd (finaliseDay (sample_env 50 50) sample_product (day_start 20000) False empty_store)) = Inr (t, rows)
     \<and> pt_grossProfit t = pt_recognisedRevenue t"
proof -
  obtain t rows where r: "finance_profit (\<lambda>s. None) (day_start 20000) plain_query
      (snd (finaliseDay (sample_env 50 50) sample_product (day_start 20000) False empty_store)) = Inr (t, rows)"
    by (simp add: finance_profit_def plain_query_def resolveRange_def Let_def)
  have "no_costs empty_store" by (simp add: no_costs_def empty_store_def)
  from profit_equals_revenue [OF this sample_texts _ r] plain_day_ok r show ?thesis
    by (auto simp: sample_env_def)
qed

section \<open>What a day shows\<close>

lemma wanted_rows: "\<not> truthy (fq_channel dto) \<Longrightarrow> wants (fq_channel dto) c"
  by (simp add: wants_def)

lemma day_revenue:
  assumes "distinct (map usage_key (rs_usage db))" "older_stamps (rx_now env) d (rs_usage db)"
    "texts_ok src" "days_ok (rx_ymd env)"
  shows "sum_of ub_revenue (filter (\<lambda>r. ub_hour r = - 1 \<and> ub_date r = d * day_len)
      (rs_usage (snd (finaliseDay env src (day_start d) historical db))))
    = (\<Sum>k \<in> event_key ` set (events_of_day src d). ub_revenue (source_row env src d k))"
proof -
  let ?t = "rs_usage (snd (finaliseDay env src (day_start d) historical db))"
  note r = replaced_day [OF assms(1,3,4,2), folded finaliseDay_usage [where historical = historical]]
  have "distinct ?t" using r(1) by (simp only: distinct_map)
  then have "sum_of ub_revenue (filter (daily_row d) ?t) = (\<Sum>u \<in> {u \<in> set ?t. daily_row d u}. ub_revenue u)"
    by (simp add: sum_of_def sum_list_distinct_conv_sum_set)
  also have "\<dots> = (\<Sum>k \<in> event_key ` set (events_of_day src d). ub_revenue (source_row env src d k))"
    unfolding r(2)
  proof (rule sum.reindex_cong [OF _ refl refl])
    show "inj_on (source_row env src d) (event_key ` set (events_of_day src d))"
      by (rule inj_onI) (metis source_row_key prod.inject)
  qed
  finally show ?thesis by (simp add: daily_row_def [abs_def] conj_commute)
qed

lemma keys_upsert_replace:
  "(\<And>t. key t = key r \<Longrightarrow> key (upd r t) = key r) \<Longrightarrow>
    map key (upsert_row key upd r table) = (if key r \<in> set (map key table) then map key table else map key table @ [key r])"
proof -
  assume k: "\<And>t. key t = key r \<Longrightarrow> key (upd r t) = key r"
  have "map key (update_where (\<lambda>t. key t = key r) (upd r) table) = map key table"
    by (induction table) (simp_all add: k)
  then show ?thesis by (simp add: upsert_row_def)
qed

lemma day_cash:
  assumes "distinct (map cr_date (rs_cash db))"
  shows "find_row (\<lambda>c. cr_date c = d * day_len) (rev (rs_cash (snd (finaliseDay env src (day_start d) historical db))))
    = Some (cash_of src (day_start d))"
proof -
  let ?t = "rs_cash (snd (finaliseDay env src (day_start d) historical db))"
  have "distinct (map cr_date ?t)"
    using assms unfolding finaliseDay_cash by (subst keys_upsert_replace) simp_all
  then have "distinct (map cr_date (rev ?t))" by (simp add: rev_map [symmetric])
  moreover have "cash_of src (day_start d) \<in> set (rev ?t)" "cr_date (cash_of src (day_start d)) = d * day_len"
    using find_row_SomeD [OF finaliseDay_cash_row [OF assms, of d env src historical]] by simp_all
  ultimately show ?thesis using find_row_unique by metis
qed

text \<open>
  The revenue screen shows every day of its range once, in order, and for a day just finalised
  the figures of the product's own rows: the revenue of the day's events and its payments less refunds.
\<close>
theorem revenue_screen_shows_source:
  assumes "distinct (map usage_key (rs_usage db))" "older_stamps (rx_now env) d (rs_usage db)"
    "texts_ok src" "days_ok (rx_ymd env)" "distinct (map cr_date (rs_cash db))" "\<not> truthy (fq_channel dto)"
    "f \<le> d" "d \<le> l"
  shows "let db' = snd (finaliseDay env src (day_start d) historical db);
      series = map (revenue_point_of dto db') (eachLagosDay (day_start f) (day_end l));
      p = series ! nat (d - f)
    in map rp_date series = map (\<lambda>d. d * day_len) [f..l] \<and> rp_date p = d * day_len
     \<and> rp_creditsConsumed p = js_round_dp (fl (\<Sum>k \<in> event_key ` set (events_of_day src d). ub_revenue (source_row env src d k))) 2
     \<and> rp_cashCollected p = js_round_dp (fl (fl (cr_collected (cash_of src (day_start d))) - fl (cr_refunded (cash_of src (day_start d))))) 2"
proof -
  define db' where "db' = snd (finaliseDay env src (day_start d) historical db)"
  have e: "eachLagosDay (day_start f) (day_end l) = map (\<lambda>d. d * day_len) [f..l]"
    by (simp add: eachLagosDay_def day_loop_upto)
  have n: "map (revenue_point_of dto db') (map (\<lambda>d. d * day_len) [f..l]) ! nat (d - f) = revenue_point_of dto db' (d * day_len)"
    using assms(7,8) by (simp add: nth_upto)
  have u: "sum_of ub_revenue (filter (\<lambda>r. ub_hour r = - 1 \<and> ub_date r = d * day_len \<and> wants (fq_channel dto) (ub_channel r)) (rs_usage db'))
      = (\<Sum>k \<in> event_key ` set (events_of_day src d). ub_revenue (source_row env src d k))"
    by (simp add: db'_def wanted_rows [OF assms(6)] day_revenue [OF assms(1-4)])
  have c: "find_row (\<lambda>c. cr_date c = d * day_len) (rev (rs_cash db')) = Some (cash_of src (day_start d))"
    unfolding db'_def by (rule day_cash [OF assms(5)])
  have "map rp_date (map (revenue_point_of dto db') (map (\<lambda>d. d * day_len) [f..l])) = map (\<lambda>d. d * day_len) [f..l]"
    by (simp add: revenue_point_of_def Let_def comp_def)
  then show ?thesis
    unfolding Let_def e db'_def [symmetric] n
    by (simp add: revenue_point_of_def Let_def u c coalesce_def)
qed

theorem revenue_screen_shows_source_witness:
  "map rp_date (map (revenue_point_of plain_query (snd (finaliseDay (sample_env 50 50) sample_product (day_start 20000) False empty_store)))
     (eachLagosDay (day_start 19999) (day_end 20000))) = [19999 * day_len, 20000 * day_len]"
proof -
  have u: "[19999..20000] = [19999, 20000::int]" by (simp add: upto_rec1)
  show ?thesis
    using revenue_screen_shows_source [of empty_store "sample_env 50 50" 20000 sample_product plain_query 19999 20000 False]
      sample_texts plain_day_ok
    by (simp add: empty_store_def older_stamps_def sample_env_def plain_query_def u Let_def)
qed

end
