(* ===== verification/Exports.thy ===== *)
theory Exports
  imports Csv Finance Masking Pagination
begin

text \<open>
  Exports: \<open>modules/finance/exports.service.ts\<close>, the job that builds them
  (\<open>modules/jobs/exports.processor.ts\<close>) and the bucket they are parked in
  (\<open>integrations/s3/s3.service.ts\<close>).  The audit log is kept with the time of each row; the object
  store, its signed links and the date texts are arguments.
\<close>

section \<open>State\<close>

datatype export_status = QUEUED | RUNNING | READY | EXPORT_FAILED | EXPIRED

fun export_status_name :: "export_status \<Rightarrow> string" where
  "export_status_name QUEUED = ''QUEUED''"
| "export_status_name RUNNING = ''RUNNING''"
| "export_status_name READY = ''READY''"
| "export_status_name EXPORT_FAILED = ''FAILED''"
| "export_status_name EXPIRED = ''EXPIRED''"

record create_export =
  ce_kind :: string
  ce_from :: "string option"
  ce_to :: "string option"
  ce_channel :: "string option"
  ce_accountId :: "string option"

record export_job =
  xj_id :: string
  xj_requestedById :: string
  xj_kind :: string
  xj_params :: create_export
  xj_containsPii :: bool
  xj_status :: export_status
  xj_rowCount :: "nat option"
  xj_objectKey :: "string option"
  xj_expiresAt :: "millis option"
  xj_error :: "string option"
  xj_createdAt :: millis
  xj_completedAt :: "millis option"

record exports_state =
  xs_jobs :: "export_job list"
  xs_queue :: "string list"
  xs_objects :: "(string \<times> string) list"
  xs_log :: "(millis \<times> audit_row) list"

text \<open>What an export reads, and what the code gets from outside.\<close>

record export_sources =
  so_product :: product_db
  so_rollups :: rollup_store
  so_staff :: "staff_row list"

record export_env =
  xe_iso :: "millis \<Rightarrow> string"
  xe_ymd :: "millis \<Rightarrow> string"
  xe_decimal :: "rat \<Rightarrow> string"
  xe_fixed :: "rat \<Rightarrow> nat \<Rightarrow> string"
  xe_parse :: "string \<Rightarrow> int option"
  xe_put :: "string \<Rightarrow> string \<Rightarrow> unit result"
  xe_link :: "string \<Rightarrow> string \<Rightarrow> nat \<Rightarrow> string"
  xe_prefix :: string
  xe_ttlHours :: int

definition find_export :: "string \<Rightarrow> exports_state \<Rightarrow> export_job option" where
  "find_export i s = find_row (\<lambda>j. xj_id j = i) (xs_jobs s)"

definition update_export :: "string \<Rightarrow> (export_job \<Rightarrow> export_job) \<Rightarrow> exports_state \<Rightarrow> exports_state" where
  "update_export i f s = s\<lparr>xs_jobs := update_where (\<lambda>j. xj_id j = i) f (xs_jobs s)\<rparr>"

definition log_export :: "millis \<Rightarrow> audit_entry \<Rightarrow> exports_state \<Rightarrow> exports_state" where
  "log_export now e s = s\<lparr>xs_log := xs_log s @ map (Pair now) (audit_record e [])\<rparr>"

section \<open>The object store\<close>

text \<open>\<open>sanitiseFileName\<close>: each run of other characters becomes one underscore, at most 180 in all.\<close>

definition name_char :: "char \<Rightarrow> bool" where
  "name_char c \<longleftrightarrow> is_word c \<or> c = CHR ''.'' \<or> c = CHR ''-'' \<or> c = CHR '' ''"

fun squash_runs :: "string \<Rightarrow> string" where
  "squash_runs [] = []"
| "squash_runs (c # s) =
     (if name_char c then c # squash_runs s
      else CHR ''_'' # (case s of [] \<Rightarrow> [] | d # u \<Rightarrow> if name_char d then squash_runs s else tl (squash_runs s)))"

definition sanitiseFileName :: "string \<Rightarrow> string" where
  "sanitiseFileName name = take 180 (squash_runs name)"

definition putExport :: "export_env \<Rightarrow> string \<Rightarrow> string \<Rightarrow> exports_state \<Rightarrow> (exports_state, string) outcome" where
  "putExport env key body s =
     (let objectKey = xe_prefix env @ key in
      case xe_put env objectKey body of
        Inl e \<Rightarrow> throws e s
      | Inr _ \<Rightarrow> returns objectKey (s\<lparr>xs_objects := AList.update objectKey body (xs_objects s)\<rparr>))"

definition presignExport :: "export_env \<Rightarrow> millis \<Rightarrow> string \<Rightarrow> string \<Rightarrow> nat \<Rightarrow> string \<times> millis" where
  "presignExport env now objectKey fileName ttlSeconds =
     (xe_link env objectKey (''attachment; filename='' @ [quote] @ sanitiseFileName fileName @ [quote]) ttlSeconds,
      now + int ttlSeconds * 1000)"

section \<open>Requesting and fetching\<close>

definition PII_KINDS :: "string list" where
  "PII_KINDS = [''customers'', ''ledger'', ''audit'']"

definition PII_ROLES :: "string list" where
  "PII_ROLES = [''finance'', ''super_admin'']"

definition params_json :: "create_export \<Rightarrow> json" where
  "params_json dto = JObj ((''kind'', JStr (ce_kind dto)) # concat (map (\<lambda>(k, v). case v of None \<Rightarrow> [] | Some x \<Rightarrow> [(k, JStr x)])
     [(''from'', ce_from dto), (''to'', ce_to dto), (''channel'', ce_channel dto), (''accountId'', ce_accountId dto)]))"

definition create_export_job ::
  "export_env \<Rightarrow> millis \<Rightarrow> string \<Rightarrow> principal \<Rightarrow> create_export \<Rightarrow> exports_state
     \<Rightarrow> (exports_state, string \<times> export_status \<times> millis option) outcome" where
  "create_export_job env now newId actor dto s =
     (let containsPii = js_includes PII_KINDS (ce_kind dto) in
      if containsPii \<and> \<not> js_includes PII_ROLES (sp_roleKey actor)
      then throws (Forbidden ''Exports containing personal data are limited to Finance and Super admin'') s
      else
        (let job = \<lparr>xj_id = newId, xj_requestedById = sp_id actor, xj_kind = ce_kind dto, xj_params = dto,
               xj_containsPii = containsPii, xj_status = QUEUED, xj_rowCount = None, xj_objectKey = None,
               xj_expiresAt = Some (now + xe_ttlHours env * hour_len), xj_error = None, xj_createdAt = now,
               xj_completedAt = None\<rparr>;
             s1 = s\<lparr>xs_jobs := xs_jobs s @ [job], xs_queue := xs_queue s @ [newId]\<rparr>
         in returns (newId, QUEUED, xj_expiresAt job)
              (log_export now (staff_entry actor ''finance.export_requested'' ''export_job'' newId None JNull JNull
                 (JObj [(''kind'', JStr (ce_kind dto)), (''containsPii'', JBool containsPii), (''params'', params_json dto)])) s1)))"

definition list_exports :: "principal \<Rightarrow> nat \<Rightarrow> exports_state \<Rightarrow> (export_job, cursor_key) page" where
  "list_exports actor limit s =
     buildPage (\<lambda>j. (xj_createdAt j, xj_id j))
       (findMany_desc (\<lambda>j. (xj_createdAt j, xj_id j)) None (limit + 1)
         (filter (\<lambda>j. xj_requestedById j = sp_id actor) (xs_jobs s))) limit"

definition download_export ::
  "export_env \<Rightarrow> millis \<Rightarrow> principal \<Rightarrow> string \<Rightarrow> exports_state \<Rightarrow> (exports_state, string \<times> millis) outcome" where
  "download_export env now actor exportId s =
     (case find_export exportId s of
        None \<Rightarrow> throws (NotFound ''Export not found'') s
      | Some job \<Rightarrow>
         if xj_requestedById job \<noteq> sp_id actor \<and> sp_roleKey actor \<noteq> ''super_admin''
         then throws (Forbidden ''Exports are downloadable only by the staff member who ran them'') s
         else if xj_status job \<noteq> READY \<or> \<not> truthy (xj_objectKey job)
         then throws (NotFound (''Export is '' @ export_status_name (xj_status job))) s
         else if (case xj_expiresAt job of None \<Rightarrow> False | Some t \<Rightarrow> t < now)
         then throws (NotFound ''Export has expired; run it again'')
                (update_export exportId (\<lambda>j. j\<lparr>xj_status := EXPIRED\<rparr>) s)
         else returns
           (presignExport env now (the (xj_objectKey job))
              (xj_kind job @ ''-'' @ take 10 (xe_iso env (xj_createdAt job)) @ ''.csv'') (15 * 60))
           (log_export now (staff_entry actor ''finance.export_downloaded'' ''export_job'' exportId None JNull JNull
              (JObj [(''kind'', JStr (xj_kind job)), (''containsPii'', JBool (xj_containsPii job))])) s))"

section \<open>Running\<close>

definition MAX_ROWS :: nat where "MAX_ROWS = 200000"

definition opt_cell :: "string option \<Rightarrow> cell" where
  "opt_cell v = (case v of None \<Rightarrow> CNull | Some x \<Rightarrow> CText x)"

definition revenue_rows :: "export_env \<Rightarrow> millis \<Rightarrow> millis \<Rightarrow> create_export \<Rightarrow> rollup_store \<Rightarrow> csv_row list" where
  "revenue_rows env start finish params db =
     map (\<lambda>((date, channel, provider), rs).
         [(''date'', CText (take 10 (xe_iso env date))), (''channel'', CText channel), (''provider'', CText provider),
          (''attempted'', CInt (\<Sum>r \<leftarrow> rs. ub_attempted r)), (''succeeded'', CInt (\<Sum>r \<leftarrow> rs. ub_succeeded r)),
          (''revenueNgn'', CText (xe_decimal env (sum_of ub_revenue rs))),
          (''providerCostNgn'', CText (xe_decimal env (sum_of ub_cost rs))),
          (''contributionNgn'', CText (xe_fixed env (fl (fl (sum_of ub_revenue rs) - fl (sum_of ub_cost rs))) 2))])
       (sort_key (\<lambda>((date, channel, provider), rs). (date, channel))
         (group_rows (\<lambda>r. (ub_date r, ub_channel r, ub_provider r))
           (filter (\<lambda>r. ub_hour r = - 1 \<and> date_in start finish (ub_date r) \<and> wants (ce_channel params) (ub_channel r))
             (rs_usage db))))"

definition cash_rows :: "export_env \<Rightarrow> millis \<Rightarrow> millis \<Rightarrow> rollup_store \<Rightarrow> csv_row list" where
  "cash_rows env start finish db =
     map (\<lambda>r. [(''date'', CText (take 10 (xe_iso env (cr_date r)))), (''collectedNgn'', CText (xe_decimal env (cr_collected r))),
          (''refundedNgn'', CText (xe_decimal env (cr_refunded r))), (''feesNgn'', CText (xe_decimal env (cr_fees r))),
          (''payments'', CInt (int (cr_paymentCount r))), (''failed'', CInt (int (cr_failedCount r)))])
       (sort_key cr_date (filter (\<lambda>c. date_in start finish (cr_date c)) (rs_cash db)))"

definition usage_rows :: "export_env \<Rightarrow> millis \<Rightarrow> millis \<Rightarrow> create_export \<Rightarrow> rollup_store \<Rightarrow> csv_row list" where
  "usage_rows env start finish params db =
     map (\<lambda>r. [(''date'', CText (take 10 (xe_iso env (ub_date r)))), (''accountId'', CText (ub_account r)),
          (''channel'', CText (ub_channel r)), (''country'', CText (ub_country r)),
          (''attempted'', CInt (ub_attempted r)), (''succeeded'', CInt (ub_succeeded r)), (''failed'', CInt (ub_failed r)),
          (''revenueNgn'', CText (xe_decimal env (ub_revenue r))), (''costNgn'', CText (xe_decimal env (ub_cost r)))])
       (take MAX_ROWS (sort_key ub_date
         (filter (\<lambda>r. ub_hour r = - 1 \<and> date_in start finish (ub_date r) \<and> wants (ce_accountId params) (ub_account r)) (rs_usage db))))"

definition ledger_rows :: "export_env \<Rightarrow> millis \<Rightarrow> millis \<Rightarrow> create_export \<Rightarrow> product_db \<Rightarrow> csv_row list" where
  "ledger_rows env start finish params src =
     map (\<lambda>r. [(''id'', CText (tb_id r)), (''createdAt'', CText (xe_iso env (tb_createdAt r))), (''accountId'', CText (tb_account r)),
          (''type'', CText (tb_type r)), (''status'', CText (tb_status r)), (''channel'', opt_cell (tb_channel r)),
          (''charge'', CText (xe_decimal env (tb_charge r))), (''balanceAfter'', CText (xe_decimal env (tb_balanceAfter r))),
          (''requestId'', CText (tb_requestId r)), (''refundForId'', opt_cell (tb_refundFor r))])
       (take MAX_ROWS (sort_key tb_createdAt
         (filter (\<lambda>r. start \<le> tb_createdAt r \<and> tb_createdAt r \<le> finish \<and> wants (ce_accountId params) (tb_account r)) (pd_tabs src))))"

definition customer_rows :: "export_env \<Rightarrow> millis \<Rightarrow> product_db \<Rightarrow> csv_row list" where
  "customer_rows env finish src =
     map (\<lambda>r. [(''id'', CText (ab_id r)), (''ownerName'', opt_cell (ab_ownerName r)), (''email'', opt_cell (maskEmail (Some (ab_email r)))),
          (''status'', CText (ab_status r)), (''country'', CText (ab_country r)), (''creditBalance'', CText (xe_decimal env (ab_balance r))),
          (''billingAddress'', CText (ab_billingAddress r)), (''createdAt'', CText (xe_iso env (ab_createdAt r)))])
       (take MAX_ROWS (sort_key ab_createdAt (filter (\<lambda>r. ab_createdAt r \<le> finish) (pd_accounts src))))"

definition audit_actor_text :: "staff_row list \<Rightarrow> audit_row \<Rightarrow> string" where
  "audit_actor_text staff r =
     (case (case au_actorId r of None \<Rightarrow> None | Some i \<Rightarrow> find_row (\<lambda>t. st_id t = i) staff) of
        Some t \<Rightarrow> st_email t
      | None \<Rightarrow> coalesce (au_actorEmail r) ''system'')"

definition audit_rows :: "export_env \<Rightarrow> millis \<Rightarrow> millis \<Rightarrow> staff_row list \<Rightarrow> (millis \<times> audit_row) list \<Rightarrow> csv_row list" where
  "audit_rows env start finish staff logged =
     map (\<lambda>(t, r). [(''createdAt'', CText (xe_iso env t)), (''actor'', CText (audit_actor_text staff r)), (''action'', CText (au_action r)),
          (''targetType'', opt_cell (au_targetType r)), (''targetId'', opt_cell (au_targetId r)),
          (''reason'', opt_cell (au_reason r)), (''ip'', opt_cell (au_ip r))])
       (take MAX_ROWS (sort_key fst (filter (\<lambda>(t, r). start \<le> t \<and> t \<le> finish) logged)))"

definition rowsFor ::
  "export_env \<Rightarrow> export_sources \<Rightarrow> string \<Rightarrow> millis \<Rightarrow> millis \<Rightarrow> create_export \<Rightarrow> (millis \<times> audit_row) list \<Rightarrow> csv_row list result" where
  "rowsFor env src kind start finish params logged =
     (if kind = ''revenue'' \<or> kind = ''profit'' then Inr (revenue_rows env start finish params (so_rollups src))
      else if kind = ''cash'' then Inr (cash_rows env start finish (so_rollups src))
      else if kind = ''usage'' then Inr (usage_rows env start finish params (so_rollups src))
      else if kind = ''ledger'' then Inr (ledger_rows env start finish params (so_product src))
      else if kind = ''customers'' then Inr (customer_rows env finish (so_product src))
      else if kind = ''audit'' then Inr (audit_rows env start finish (so_staff src) logged)
      else Inl (PlainError (''Unsupported export kind '' @ kind)))"

datatype export_reply = ExportMissing | ExportRows nat

text \<open>The part inside the try: the rows, the file and its key.\<close>

definition build_export ::
  "export_env \<Rightarrow> export_sources \<Rightarrow> millis \<Rightarrow> export_job \<Rightarrow> exports_state \<Rightarrow> (exports_state, nat \<times> string) outcome" where
  "build_export env src now job s =
     (case resolveRange (xe_parse env) now (ce_from (xj_params job)) (ce_to (xj_params job)) 30 of
        Inl e \<Rightarrow> throws e s
      | Inr (start, finish) \<Rightarrow>
         (case rowsFor env src (xj_kind job) start finish (xj_params job) (xs_log s) of
            Inl e \<Rightarrow> throws e s
          | Inr rows \<Rightarrow>
             (case putExport env (xj_id job @ ''.csv'') (toCsv rows) s of
                (Inl e, s') \<Rightarrow> throws e s'
              | (Inr k, s') \<Rightarrow> returns (length rows, k) s')))"

definition run_export ::
  "export_env \<Rightarrow> export_sources \<Rightarrow> millis \<Rightarrow> string \<Rightarrow> exports_state \<Rightarrow> (exports_state, export_reply) outcome" where
  "run_export env src now exportId s =
     (case find_export exportId s of
        None \<Rightarrow> returns ExportMissing s
      | Some job \<Rightarrow>
         (case build_export env src now job (update_export exportId (\<lambda>j. j\<lparr>xj_status := RUNNING\<rparr>) s) of
            (Inl e, s1) \<Rightarrow>
              throws e (update_export exportId
                (\<lambda>j. j\<lparr>xj_status := EXPORT_FAILED, xj_error := Some (take 500 (error_message e))\<rparr>) s1)
          | (Inr (n, k), s1) \<Rightarrow>
              returns (ExportRows n) (update_export exportId
                (\<lambda>j. j\<lparr>xj_status := READY, xj_objectKey := Some k, xj_rowCount := Some n, xj_completedAt := Some now\<rparr>) s1)))"

text \<open>The nightly expiry: \<open>expireExports\<close> of the maintenance job, on this table.\<close>

definition expire_ready :: "millis \<Rightarrow> exports_state \<Rightarrow> exports_state" where
  "expire_ready now s = s\<lparr>xs_jobs := update_where
     (\<lambda>j. xj_status j = READY \<and> (case xj_expiresAt j of None \<Rightarrow> False | Some t \<Rightarrow> t < now))
     (\<lambda>j. j\<lparr>xj_status := EXPIRED\<rparr>) (xs_jobs s)\<rparr>"

section \<open>Histories\<close>

datatype export_op =
    XCreate millis string principal create_export
  | XRun export_sources millis string
  | XDownload millis principal string
  | XExpire millis

text \<open>A new row's id is a fresh uuid.\<close>

fun export_step :: "export_env \<Rightarrow> export_op \<Rightarrow> exports_state \<Rightarrow> exports_state" where
  "export_step env (XCreate now i actor dto) s =
     (if find_export i s = None then snd (create_export_job env now i actor dto s) else s)"
| "export_step env (XRun src now i) s = snd (run_export env src now i s)"
| "export_step env (XDownload now actor i) s = snd (download_export env now actor i s)"
| "export_step env (XExpire now) s = expire_ready now s"

definition exports_after :: "export_env \<Rightarrow> export_op list \<Rightarrow> exports_state" where
  "exports_after env ops = fold (export_step env) ops \<lparr>xs_jobs = [], xs_queue = [], xs_objects = [], xs_log = []\<rparr>"

definition export_key :: "export_env \<Rightarrow> string \<Rightarrow> string" where
  "export_key env i = xe_prefix env @ i @ ''.csv''"

definition pii_origin :: "export_op list \<Rightarrow> export_job \<Rightarrow> bool" where
  "pii_origin ops j \<longleftrightarrow> (\<exists>now actor dto. XCreate now (xj_id j) actor dto \<in> set ops
     \<and> sp_id actor = xj_requestedById j \<and> js_includes PII_ROLES (sp_roleKey actor))"

definition job_ok :: "export_env \<Rightarrow> export_op list \<Rightarrow> exports_state \<Rightarrow> export_job \<Rightarrow> bool" where
  "job_ok env ops s j \<longleftrightarrow>
     (js_includes PII_KINDS (xj_kind j) \<longrightarrow> xj_containsPii j)
     \<and> (xj_containsPii j \<longrightarrow> pii_origin ops j)
     \<and> (xj_status j = READY \<longrightarrow> xj_objectKey j = Some (export_key env (xj_id j))
          \<and> export_key env (xj_id j) \<in> fst ` set (xs_objects s))"

definition exports_ok :: "export_env \<Rightarrow> export_op list \<Rightarrow> exports_state \<Rightarrow> bool" where
  "exports_ok env ops s \<longleftrightarrow> (\<forall>j \<in> set (xs_jobs s). job_ok env ops s j)"

lemma job_ok_more: "job_ok env ops s j \<Longrightarrow> set ops \<subseteq> set ops' \<Longrightarrow> xs_objects s' = xs_objects s \<Longrightarrow> job_ok env ops' s' j"
  unfolding job_ok_def pii_origin_def by (simp only:) blast

text \<open>An update that keeps who asked for what, and makes nothing ready, keeps the invariant.\<close>

lemma exports_ok_update:
  assumes "exports_ok env ops s" "set ops \<subseteq> set ops'"
    "\<And>k. k \<in> fst ` set (xs_objects s) \<Longrightarrow> k \<in> fst ` set (xs_objects s')"
    "xs_jobs s' = update_where p f (xs_jobs s)"
    "\<And>j. j \<in> set (xs_jobs s) \<Longrightarrow> p j \<Longrightarrow> xj_id (f j) = xj_id j \<and> xj_requestedById (f j) = xj_requestedById j
       \<and> xj_kind (f j) = xj_kind j \<and> xj_containsPii (f j) = xj_containsPii j
       \<and> (xj_status (f j) = READY \<longrightarrow> xj_objectKey (f j) = Some (export_key env (xj_id j))
          \<and> export_key env (xj_id j) \<in> fst ` set (xs_objects s'))"
  shows "exports_ok env ops' s'"
  unfolding exports_ok_def
proof
  fix x assume "x \<in> set (xs_jobs s')"
  then obtain j where j: "j \<in> set (xs_jobs s)" "x = (if p j then f j else j)"
    unfolding assms(4) by (auto dest: in_update_where)
  have ok: "job_ok env ops s j" using assms(1) j(1) by (simp add: exports_ok_def)
  have o: "pii_origin ops j \<Longrightarrow> pii_origin ops' j" using assms(2) by (auto simp: pii_origin_def)
  show "job_ok env ops' s' x"
  proof (cases "p j")
    case True
    have "pii_origin ops' (f j) = pii_origin ops' j"
      using assms(5) [OF j(1) True] by (simp add: pii_origin_def)
    then show ?thesis
      using ok o assms(5) [OF j(1) True] j(2) True by (simp add: job_ok_def)
  next
    case False
    then show ?thesis using ok o assms(3) j(2) by (simp add: job_ok_def)
  qed
qed

lemma exports_ok_objects:
  assumes "exports_ok env ops s" "set ops \<subseteq> set ops'"
    "\<And>k. k \<in> fst ` set (xs_objects s) \<Longrightarrow> k \<in> fst ` set (xs_objects s')" "xs_jobs s' = xs_jobs s"
  shows "exports_ok env ops' s'"
  by (rule exports_ok_update [OF assms(1-3), where p = "\<lambda>j. False" and f = "\<lambda>j. j"])
    (simp_all add: assms(4))

lemma build_export_frame:
  assumes "build_export env src now job s = (r, s')"
  shows "xs_jobs s' = xs_jobs s \<and> fst ` set (xs_objects s) \<subseteq> fst ` set (xs_objects s')
    \<and> (\<forall>n k. r = Inr (n, k) \<longrightarrow> k = export_key env (xj_id job) \<and> k \<in> fst ` set (xs_objects s'))"
  using assms
  by (force simp: build_export_def putExport_def Let_def export_key_def dom_update
      split: sum.splits prod.splits)

text \<open>Each operation keeps the invariant.\<close>

lemma export_create_ok:
  assumes "exports_ok env ops s" "find_export i s = None"
  shows "exports_ok env (ops @ [XCreate now i actor dto]) (snd (create_export_job env now i actor dto s))"
proof (cases "js_includes PII_KINDS (ce_kind dto) \<and> \<not> js_includes PII_ROLES (sp_roleKey actor)")
  case True
  then show ?thesis
    by (simp add: create_export_job_def) (rule exports_ok_objects [OF assms(1)], auto)
next
  case False
  let ?s = "snd (create_export_job env now i actor dto s)"
  have old: "job_ok env (ops @ [XCreate now i actor dto]) ?s j" if "j \<in> set (xs_jobs s)" for j
    by (rule job_ok_more [of env ops s])
      (use assms(1) that False in \<open>auto simp: exports_ok_def create_export_job_def Let_def log_export_def\<close>)
  have jobs: "\<exists>j. xs_jobs ?s = xs_jobs s @ [j] \<and> xj_id j = i \<and> xj_requestedById j = sp_id actor
      \<and> xj_kind j = ce_kind dto \<and> xj_containsPii j = js_includes PII_KINDS (ce_kind dto) \<and> xj_status j = QUEUED"
    using False by (simp add: create_export_job_def Let_def log_export_def)
  then obtain j where j: "xs_jobs ?s = xs_jobs s @ [j]" "xj_id j = i" "xj_requestedById j = sp_id actor"
    "xj_kind j = ce_kind dto" "xj_containsPii j = js_includes PII_KINDS (ce_kind dto)" "xj_status j = QUEUED" by blast
  have "job_ok env (ops @ [XCreate now i actor dto]) ?s j"
    using False j by (auto simp: job_ok_def pii_origin_def)
  with old j(1) show ?thesis by (auto simp: exports_ok_def)
qed

lemma run_ok:
  assumes "exports_ok env ops s"
  shows "exports_ok env (ops @ [op]) (snd (run_export env src now i s))"
proof (cases "find_export i s")
  case None
  then show ?thesis by (simp add: run_export_def) (rule exports_ok_objects [OF assms], auto)
next
  case (Some job)
  then have id: "xj_id job = i" by (auto simp: find_export_def dest: find_row_SomeD)
  let ?s0 = "update_export i (\<lambda>j. j\<lparr>xj_status := RUNNING\<rparr>) s"
  obtain r s1 where b: "build_export env src now job ?s0 = (r, s1)" by (cases "build_export env src now job ?s0")
  note f = build_export_frame [OF b, unfolded id]
  have s0: "exports_ok env (ops @ [op]) ?s0"
    by (rule exports_ok_update [OF assms, where p = "\<lambda>j. xj_id j = i" and f = "\<lambda>j. j\<lparr>xj_status := RUNNING\<rparr>"])
      (auto simp: update_export_def)
  have s1: "exports_ok env (ops @ [op]) s1"
    by (rule exports_ok_objects [OF s0]) (use f in auto)
  show ?thesis
  proof (cases r)
    case (Inl e)
    have "snd (run_export env src now i s) = update_export i
        (\<lambda>j. j\<lparr>xj_status := EXPORT_FAILED, xj_error := Some (take 500 (error_message e))\<rparr>) s1"
      using Some b Inl by (simp add: run_export_def)
    then show ?thesis
      by (simp only:) (rule exports_ok_update [OF s1, where p = "\<lambda>j. xj_id j = i"
        and f = "\<lambda>j. j\<lparr>xj_status := EXPORT_FAILED, xj_error := Some (take 500 (error_message e))\<rparr>"],
        auto simp: update_export_def)
  next
    case (Inr nk)
    obtain n k where nk: "nk = (n, k)" by (cases nk)
    have k: "k = export_key env i" "k \<in> fst ` set (xs_objects s1)" using f Inr nk by auto
    have "snd (run_export env src now i s) = update_export i
        (\<lambda>j. j\<lparr>xj_status := READY, xj_objectKey := Some k, xj_rowCount := Some n, xj_completedAt := Some now\<rparr>) s1"
      using Some b Inr nk by (simp add: run_export_def)
    then show ?thesis
      by (simp only:) (rule exports_ok_update [OF s1, where p = "\<lambda>j. xj_id j = i"
        and f = "\<lambda>j. j\<lparr>xj_status := READY, xj_objectKey := Some k, xj_rowCount := Some n, xj_completedAt := Some now\<rparr>"],
        use k in \<open>auto simp: update_export_def\<close>)
  qed
qed

lemma download_ok:
  assumes "exports_ok env ops s"
  shows "exports_ok env (ops @ [op]) (snd (download_export env now actor i s))"
proof -
  have same: "exports_ok env (ops @ [op]) (log_export now e s)" for e
    by (rule exports_ok_objects [OF assms]) (auto simp: log_export_def)
  have idle: "exports_ok env (ops @ [op]) s"
    by (rule exports_ok_objects [OF assms]) auto
  have expired: "exports_ok env (ops @ [op]) (update_export i (\<lambda>j. j\<lparr>xj_status := EXPIRED\<rparr>) s)"
    by (rule exports_ok_update [OF assms, where p = "\<lambda>j. xj_id j = i" and f = "\<lambda>j. j\<lparr>xj_status := EXPIRED\<rparr>"])
      (auto simp: update_export_def)
  show ?thesis
    unfolding download_export_def by (simp add: same idle expired split: option.split)
qed

lemma expire_ok: "exports_ok env ops s \<Longrightarrow> exports_ok env (ops @ [op]) (expire_ready now s)"
  by (erule exports_ok_update [where f = "\<lambda>j. j\<lparr>xj_status := EXPIRED\<rparr>"
      and p = "\<lambda>j. xj_status j = READY \<and> (case xj_expiresAt j of None \<Rightarrow> False | Some t \<Rightarrow> t < now)"])
    (auto simp: expire_ready_def)

lemma exports_after_ok: "exports_ok env ops (exports_after env ops)"
proof (induction ops rule: rev_induct)
  case Nil
  show ?case by (simp add: exports_ok_def exports_after_def)
next
  case (snoc op ops)
  have s: "exports_after env (ops @ [op]) = export_step env op (exports_after env ops)"
    by (simp add: exports_after_def)
  show ?case
    unfolding s
  proof (cases op)
    case (XCreate now i actor dto)
    have "exports_ok env (ops @ [op]) (exports_after env ops)"
      by (rule exports_ok_objects [OF snoc.IH]) auto
    then show "exports_ok env (ops @ [op]) (export_step env op (exports_after env ops))"
      using export_create_ok [OF snoc.IH] by (simp add: XCreate)
  qed (simp_all add: run_ok download_ok expire_ok snoc.IH)
qed

text \<open>
  C25. Whatever staff and jobs have done, a link is handed out only to the one who asked for the
  export or to a super admin, for a file that was stored and has not expired, for fifteen minutes,
  and each hand-out is audited; and an export with personal data was asked for under a role that may.
\<close>
theorem export_link_guarded:
  assumes "download_export env now actor i (exports_after env ops) = (Inr (url, expiresAt), s')"
  shows "\<exists>j row. find_export i (exports_after env ops) = Some j
    \<and> (xj_requestedById j = sp_id actor \<or> sp_roleKey actor = ''super_admin'')
    \<and> (js_includes PII_KINDS (xj_kind j) \<longrightarrow> pii_origin ops j)
    \<and> xj_status j = READY \<and> export_key env i \<in> fst ` set (xs_objects (exports_after env ops))
    \<and> (\<forall>t. xj_expiresAt j = Some t \<longrightarrow> now \<le> t) \<and> expiresAt = now + 900000
    \<and> s' = (exports_after env ops)\<lparr>xs_log := xs_log (exports_after env ops) @ [(now, row)]\<rparr>
    \<and> au_action row = ''finance.export_downloaded'' \<and> au_actorId row = Some (sp_id actor)"
proof -
  let ?s = "exports_after env ops"
  obtain j where f: "find_export i ?s = Some j"
    using assms by (cases "find_export i ?s") (simp_all add: download_export_def)
  then have j: "j \<in> set (xs_jobs ?s)" "xj_id j = i" by (auto simp: find_export_def dest: find_row_SomeD)
  then have ok: "job_ok env ops ?s j" using exports_after_ok [of env ops] by (simp add: exports_ok_def)
  have r: "xj_requestedById j = sp_id actor \<or> sp_roleKey actor = ''super_admin''" "xj_status j = READY"
    "\<forall>t. xj_expiresAt j = Some t \<longrightarrow> now \<le> t" "expiresAt = now + 900000"
    "\<exists>row. s' = ?s\<lparr>xs_log := xs_log ?s @ [(now, row)]\<rparr>
      \<and> au_action row = ''finance.export_downloaded'' \<and> au_actorId row = Some (sp_id actor)"
    using assms f by (auto simp: download_export_def presignExport_def log_export_def audit_record_def
        staff_entry_def actor_of_def split: if_splits option.splits)
  then obtain row where row: "s' = ?s\<lparr>xs_log := xs_log ?s @ [(now, row)]\<rparr>"
    "au_action row = ''finance.export_downloaded''" "au_actorId row = Some (sp_id actor)" by blast
  have "js_includes PII_KINDS (xj_kind j) \<longrightarrow> pii_origin ops j" "export_key env i \<in> fst ` set (xs_objects ?s)"
    using ok j(2) r(2) by (simp_all add: job_ok_def)
  with f r(1-4) row show ?thesis by blast
qed

text \<open>
  The personal-data rule is checked when an export is asked for and not when it is fetched: the
  one who asked for it still gets the file after losing the role that allowed it.
\<close>
theorem pii_role_not_checked_at_download:
  assumes "find_export i s = Some j" "xj_requestedById j = sp_id actor" "xj_status j = READY"
    "truthy (xj_objectKey j)" "xj_expiresAt j = Some t" "now \<le> t"
    "xj_containsPii j" "\<not> js_includes PII_ROLES (sp_roleKey actor)"
  shows "succeeded (download_export env now actor i s)"
  using assms by (simp add: download_export_def)

definition export_staff :: "string \<Rightarrow> principal" where
  "export_staff role = \<lparr>sp_id = ''s1'', sp_email = ''s1@x.io'', sp_name = ''S'', sp_roleId = ''r'', sp_roleKey = role,
     sp_permissions = [''finance.export''], sp_sessionId = ''t'', sp_sessionEpoch = 0, sp_ip = None, sp_userAgent = None,
     sp_impersonating = None\<rparr>"

definition sample_export_env :: export_env where
  "sample_export_env = \<lparr>xe_iso = (\<lambda>t. []), xe_ymd = (\<lambda>t. []), xe_decimal = (\<lambda>q. []), xe_fixed = (\<lambda>q n. []),
     xe_parse = (\<lambda>s. None), xe_put = (\<lambda>k b. Inr ()), xe_link = (\<lambda>k n t. k), xe_prefix = ''exports/'', xe_ttlHours = 24\<rparr>"

definition sample_ops :: "export_op list" where
  "sample_ops = [XCreate 100 ''e1'' (export_staff ''finance'') \<lparr>ce_kind = ''customers'', ce_from = None, ce_to = None, ce_channel = None, ce_accountId = None\<rparr>,
     XRun \<lparr>so_product = sample_product, so_rollups = empty_store, so_staff = []\<rparr> 200 ''e1'']"

lemma sample_export_ready:
  "\<exists>j. find_export ''e1'' (exports_after sample_export_env sample_ops) = Some j \<and> xj_requestedById j = ''s1'' \<and> xj_status j = READY
    \<and> xj_objectKey j = Some ''exports/e1.csv'' \<and> xj_expiresAt j = Some 86400100 \<and> xj_containsPii j"
  by (simp add: exports_after_def sample_ops_def create_export_job_def export_staff_def sample_export_env_def PII_KINDS_def PII_ROLES_def
      find_export_def log_export_def Let_def run_export_def update_export_def update_where_def build_export_def resolveRange_def
      rowsFor_def putExport_def hour_len_def)

theorem export_link_guarded_witness:
  "\<exists>url s'. download_export sample_export_env 300 (export_staff ''finance'') ''e1'' (exports_after sample_export_env sample_ops) = (Inr (url, 900300), s')"
proof -
  obtain j where j: "find_export ''e1'' (exports_after sample_export_env sample_ops) = Some j" "xj_requestedById j = ''s1''"
    "xj_status j = READY" "xj_objectKey j = Some ''exports/e1.csv''" "xj_expiresAt j = Some 86400100"
    using sample_export_ready by blast
  obtain url e s' where d: "download_export sample_export_env 300 (export_staff ''finance'') ''e1'' (exports_after sample_export_env sample_ops)
      = (Inr (url, e), s')"
    using j by (simp add: download_export_def export_staff_def presignExport_def)
  have "e = 900300" using export_link_guarded [OF d] by auto
  with d show ?thesis by blast
qed

theorem pii_role_not_checked_at_download_witness:
  "succeeded (download_export sample_export_env 300 (export_staff ''support'') ''e1'' (exports_after sample_export_env sample_ops))"
proof -
  obtain j where j: "find_export ''e1'' (exports_after sample_export_env sample_ops) = Some j" "xj_requestedById j = ''s1''"
    "xj_status j = READY" "xj_objectKey j = Some ''exports/e1.csv''" "xj_expiresAt j = Some 86400100" "xj_containsPii j"
    using sample_export_ready by blast
  show ?thesis
    by (rule pii_role_not_checked_at_download [OF j(1) _ j(3) _ j(5) _ j(6)])
      (simp_all add: j export_staff_def PII_ROLES_def)
qed

end
