(* ===== verification/Risk.thy ===== *)
theory Risk
  imports Rollup_Facts Js_Float Events
begin

text \<open>
  \<open>modules/risk/risk.service.ts\<close>: the automatic flags raised from the rollups and the sign-ins.
  The five checks run one after the other; how a number is written (toLocaleString, toFixed) is an
  argument.
\<close>

section \<open>Rules and flags\<close>

definition volumeSpikeMultiple :: rat where "volumeSpikeMultiple = 5"
definition volumeSpikeMinimum :: rat where "volumeSpikeMinimum = 500"
definition failureRate :: rat where "failureRate = fl (35 / 100)"
definition failureMinimum :: rat where "failureMinimum = 100"
definition destinationCountries :: nat where "destinationCountries = 15"
definition signInCountries :: nat where "signInCountries = 5"
definition pumpingConcentration :: rat where "pumpingConcentration = fl (8 / 10)"
definition pumpingMinimum :: rat where "pumpingMinimum = 1000"

datatype evidence = EvNum rat | EvText string

datatype flag_source = AUTOMATIC | MANUAL

record risk_flag =
  fg_id :: nat
  fg_accountId :: string
  fg_type :: string
  fg_severity :: risk_severity
  fg_source :: flag_source
  fg_summary :: string
  fg_evidence :: "(string \<times> evidence) list"
  fg_raisedBy :: "string option"
  fg_resolvedAt :: "millis option"
  fg_resolvedBy :: "string option"
  fg_resolution :: "string option"
  fg_createdAt :: millis

record risk_state =
  rk_flags :: "risk_flag list"
  rk_next :: nat
  rk_inbox :: inbox_state

record number_texts =
  nt_locale :: "rat \<Rightarrow> string"
  nt_fixed :: "rat \<Rightarrow> nat \<Rightarrow> string"

text \<open>What a check asks to raise.\<close>

record suspicion =
  su_accountId :: string
  su_type :: string
  su_severity :: risk_severity
  su_summary :: string
  su_evidence :: "(string \<times> evidence) list"

section \<open>Raising\<close>

definition open_flag :: "string \<Rightarrow> string \<Rightarrow> risk_flag \<Rightarrow> bool" where
  "open_flag account type f \<longleftrightarrow> fg_accountId f = account \<and> fg_type f = type \<and> fg_resolvedAt f = None"

definition spaced :: "string \<Rightarrow> string" where
  "spaced s = map (\<lambda>c. if c = CHR ''_'' then CHR '' '' else c) (toLowerCase s)"

definition flag_alert :: "suspicion \<Rightarrow> staff_alert" where
  "flag_alert u = \<lparr>al_type = ''risk.flag_raised'', al_severity = su_severity u,
     al_title = ''Risk flag on '' @ su_accountId u @ '': '' @ spaced (su_type u),
     al_body = Some (su_summary u), al_link = Some (''/customers/'' @ su_accountId u)\<rparr>"

definition new_flag :: "millis \<Rightarrow> nat \<Rightarrow> suspicion \<Rightarrow> risk_flag" where
  "new_flag now i u = \<lparr>fg_id = i, fg_accountId = su_accountId u, fg_type = su_type u, fg_severity = su_severity u,
     fg_source = AUTOMATIC, fg_summary = su_summary u, fg_evidence = su_evidence u, fg_raisedBy = None,
     fg_resolvedAt = None, fg_resolvedBy = None, fg_resolution = None, fg_createdAt = now\<rparr>"

definition raise_flag :: "millis \<Rightarrow> suspicion \<Rightarrow> risk_state \<Rightarrow> risk_flag option \<times> risk_state" where
  "raise_flag now u s =
     (case find_row (open_flag (su_accountId u) (su_type u)) (rk_flags s) of
        Some f \<Rightarrow> (None, s\<lparr>rk_flags := update_where (\<lambda>g. fg_id g = fg_id f)
           (\<lambda>g. g\<lparr>fg_summary := su_summary u, fg_evidence := su_evidence u\<rparr>) (rk_flags s)\<rparr>)
      | None \<Rightarrow>
          (let f = new_flag now (rk_next s) u;
               s1 = s\<lparr>rk_flags := rk_flags s @ [f], rk_next := Suc (rk_next s)\<rparr>
           in (Some f,
               if su_severity u = HIGH \<or> su_severity u = CRITICAL
               then s1\<lparr>rk_inbox := snd (broadcastToPermission now ''customers.read'' (flag_alert u) (rk_inbox s1))\<rparr>
               else s1)))"

fun raise_all :: "millis \<Rightarrow> suspicion list \<Rightarrow> risk_state \<Rightarrow> risk_flag list \<times> risk_state" where
  "raise_all now [] s = ([], s)"
| "raise_all now (u # us) s =
     (let (f, s1) = raise_flag now u s; (fs, s2) = raise_all now us s1
      in ((case f of None \<Rightarrow> fs | Some x \<Rightarrow> x # fs), s2))"

section \<open>The checks\<close>

definition attempted_of :: "usage_rollup list \<Rightarrow> rat" where
  "attempted_of rs = fl (of_int (\<Sum>r \<leftarrow> rs. ub_attempted r))"

definition volume_today :: "millis \<Rightarrow> rollup_store \<Rightarrow> (string \<times> rat) list" where
  "volume_today today db =
     map (\<lambda>(a, rs). (a, attempted_of rs)) (group_rows ub_account (filter (\<lambda>r. ub_date r = today) (rs_usage db)))"

definition weekly_average :: "millis \<Rightarrow> millis \<Rightarrow> rollup_store \<Rightarrow> string \<Rightarrow> rat" where
  "weekly_average weekAgo today db account =
     (let rs = filter (\<lambda>r. weekAgo \<le> ub_date r \<and> ub_date r < today \<and> ub_hour r = - 1 \<and> ub_account r = account) (rs_usage db)
      in if rs = [] then 0 else fl (attempted_of rs / 7))"

definition volumeSpikes :: "number_texts \<Rightarrow> millis \<Rightarrow> millis \<Rightarrow> rollup_store \<Rightarrow> suspicion list" where
  "volumeSpikes nt today weekAgo db =
     concat (map (\<lambda>(account, volume).
       (let average = weekly_average weekAgo today db account in
        if volume < volumeSpikeMinimum then []
        else if average = 0 then []
        else if volume < fl (average * volumeSpikeMultiple) then []
        else [\<lparr>su_accountId = account, su_type = ''VOLUME_SPIKE'', su_severity = HIGH,
               su_summary = nt_locale nt volume @ '' sends today against a 7-day average of '' @ nt_locale nt (of_int (js_round average)),
               su_evidence = [(''volume'', EvNum volume), (''average'', EvNum (of_int (js_round average))),
                 (''multiple'', EvText (nt_fixed nt (fl (volume / average)) 1))]\<rparr>]))
       (volume_today today db))"

definition failureRates :: "number_texts \<Rightarrow> millis \<Rightarrow> rollup_store \<Rightarrow> suspicion list" where
  "failureRates nt today db =
     concat (map (\<lambda>((account, channel), rs).
       (let attempted = attempted_of rs; failed = fl (of_int (\<Sum>r \<leftarrow> rs. ub_failed r)); rate = fl (failed / attempted) in
        if attempted < failureMinimum then []
        else if rate < failureRate then []
        else [\<lparr>su_accountId = account, su_type = ''HIGH_FAILURE_RATE'', su_severity = MEDIUM,
               su_summary = nt_fixed nt (fl (rate * 100)) 0 @ ''% of '' @ channel @ '' sends failed today''
                 @ '' ('' @ nt_fixed nt failed 0 @ '' of '' @ nt_fixed nt attempted 0 @ '')'',
               su_evidence = [(''channel'', EvText channel), (''attempted'', EvNum attempted), (''failed'', EvNum failed),
                 (''rate'', EvText (nt_fixed nt rate 4))]\<rparr>]))
       (group_rows (\<lambda>r. (ub_account r, ub_channel r)) (filter (\<lambda>r. ub_date r = today) (rs_usage db))))"

text \<open>\<open>_count: { country: true }\<close> counts the rows whose country is not null.\<close>

definition destinationSpread :: "millis \<Rightarrow> rollup_store \<Rightarrow> suspicion list" where
  "destinationSpread today db =
     concat (map (\<lambda>(account, rs).
        if length rs < destinationCountries then []
        else [\<lparr>su_accountId = account, su_type = ''MANY_DESTINATION_COUNTRIES'', su_severity = MEDIUM,
               su_summary = ''Sending to '' @ dec (length rs) @ '' destination countries today'',
               su_evidence = [(''countries'', EvNum (of_nat (length rs)))]\<rparr>])
       (group_rows dr_account (filter (\<lambda>r. dr_date r = today) (rs_destinations db))))"

definition recent_signins :: "millis \<Rightarrow> signin_row list \<Rightarrow> signin_row list" where
  "recent_signins now rows =
     filter (\<lambda>r. now - 24 * 3600000 \<le> sg_occurredAt r \<and> sg_accountId r \<noteq> None \<and> sg_success r) rows"

definition country_count :: "signin_row list \<Rightarrow> nat" where
  "country_count rows = count_where (\<lambda>r. gl_country (sg_location r) \<noteq> None) rows"

definition signInSpread :: "millis \<Rightarrow> signin_row list \<Rightarrow> suspicion list" where
  "signInSpread now signins =
     concat (map (\<lambda>(account, rs).
        if \<not> truthy account \<or> country_count rs < signInCountries then []
        else [\<lparr>su_accountId = the account, su_type = ''MANY_SIGNIN_COUNTRIES'', su_severity = HIGH,
               su_summary = ''Signed in from '' @ dec (country_count rs) @ '' countries in the last 24 hours'',
               su_evidence = [(''countries'', EvNum (of_nat (country_count rs)))]\<rparr>])
       (group_rows sg_accountId (recent_signins now signins)))"

definition sms_total :: "destination_rollup list \<Rightarrow> string \<Rightarrow> rat" where
  "sms_total rows account =
     foldl (\<lambda>t r. fl (t + fl (of_int (dr_attempted r)))) 0 (filter (\<lambda>r. dr_account r = account) rows)"

definition pumping :: "number_texts \<Rightarrow> millis \<Rightarrow> rollup_store \<Rightarrow> suspicion list" where
  "pumping nt today db =
     (let rows = filter (\<lambda>r. dr_date r = today \<and> dr_channel r = ''SMS'') (rs_destinations db) in
      concat (map (\<lambda>row.
       (let total = sms_total rows (dr_account row); attempted = fl (of_int (dr_attempted row)) in
        if total < pumpingMinimum then []
        else if fl (attempted / total) < pumpingConcentration then []
        else if dr_country row = ''NG'' then []
        else [\<lparr>su_accountId = dr_account row, su_type = ''SMS_PUMPING_SUSPECTED'', su_severity = CRITICAL,
               su_summary = nt_fixed nt (fl (fl (attempted / total) * 100)) 0 @ ''% of today's SMS went to '' @ dr_country row
                 @ (if dr_network row = [] then [] else '' / '' @ dr_network row),
               su_evidence = [(''country'', EvText (dr_country row)), (''network'', EvText (dr_network row)),
                 (''attempted'', EvNum attempted), (''total'', EvNum total)]\<rparr>])) rows))"

definition suspicions :: "number_texts \<Rightarrow> millis \<Rightarrow> rollup_store \<Rightarrow> signin_row list \<Rightarrow> suspicion list" where
  "suspicions nt now db signins =
     (let today = lagosDateOnly now; weekAgo = lagosDateOnly (now - 7 * day_len)
      in volumeSpikes nt today weekAgo db @ failureRates nt today db @ destinationSpread today db
         @ signInSpread now signins @ pumping nt today db)"

definition risk_scan ::
  "number_texts \<Rightarrow> millis \<Rightarrow> rollup_store \<Rightarrow> signin_row list \<Rightarrow> risk_state \<Rightarrow> (nat \<times> millis) \<times> risk_state" where
  "risk_scan nt now db signins s =
     (let (raised, s') = raise_all now (suspicions nt now db signins) s in ((length raised, now), s'))"

section \<open>Facts\<close>

text \<open>At most one open flag of a type per account, and ids below the next one.\<close>

definition flags_ok :: "risk_state \<Rightarrow> bool" where
  "flags_ok s \<longleftrightarrow> distinct (map fg_id (rk_flags s)) \<and> list_all (\<lambda>f. fg_id f < rk_next s) (rk_flags s)
     \<and> distinct (map (\<lambda>f. (fg_accountId f, fg_type f)) (filter (\<lambda>f. fg_resolvedAt f = None) (rk_flags s)))"

lemma update_evidence_keys:
  "map fg_id (update_where p (\<lambda>g. g\<lparr>fg_summary := a, fg_evidence := b\<rparr>) fs) = map fg_id fs"
  "map (\<lambda>f. (fg_accountId f, fg_type f)) (filter (\<lambda>f. fg_resolvedAt f = None)
      (update_where p (\<lambda>g. g\<lparr>fg_summary := a, fg_evidence := b\<rparr>) fs))
    = map (\<lambda>f. (fg_accountId f, fg_type f)) (filter (\<lambda>f. fg_resolvedAt f = None) fs)"
  by (induction fs) auto

lemma raise_flag_ok:
  assumes "flags_ok s"
  shows "flags_ok (snd (raise_flag now u s))"
proof (cases "find_row (open_flag (su_accountId u) (su_type u)) (rk_flags s)")
  case (Some f)
  have "list_all (\<lambda>f. fg_id f < rk_next s) (update_where p (\<lambda>g. g\<lparr>fg_summary := a, fg_evidence := b\<rparr>) (rk_flags s))" for p a b
    using assms by (auto simp: flags_ok_def list_all_iff set_update_where)
  then show ?thesis
    using assms Some by (simp add: raise_flag_def flags_ok_def update_evidence_keys)
next
  case None
  then have n: "\<forall>f \<in> set (rk_flags s). \<not> open_flag (su_accountId u) (su_type u) f"
    by (simp add: find_row_None_iff)
  have "rk_flags (snd (raise_flag now u s)) = rk_flags s @ [new_flag now (rk_next s) u]"
    "rk_next (snd (raise_flag now u s)) = Suc (rk_next s)"
    using None by (simp_all add: raise_flag_def Let_def)
  then show ?thesis
    using assms n by (auto simp: flags_ok_def new_flag_def open_flag_def list_all_iff)
qed

lemma raise_all_ok: "flags_ok s \<Longrightarrow> flags_ok (snd (raise_all now us s))"
proof (induction us arbitrary: s)
  case (Cons u us)
  then show ?case
    using raise_flag_ok [OF Cons.prems, of now u] by (simp add: Let_def split_beta)
qed simp

end
