(* ===== verification/Risk_Facts.thy ===== *)
theory Risk_Facts
  imports Risk
begin

text \<open>
  What a scan leaves, and where its counts are not what they are called: the day's volume is read
  from the hourly and the daily rows together, and countries are counted as rows.
\<close>

section \<open>A scan\<close>

lemma raise_flag_open:
  "\<exists>f \<in> set (rk_flags (snd (raise_flag now u s))). open_flag (su_accountId u) (su_type u) f"
proof (cases "find_row (open_flag (su_accountId u) (su_type u)) (rk_flags s)")
  case None
  then show ?thesis by (auto simp: raise_flag_def Let_def new_flag_def open_flag_def)
next
  case (Some f)
  then have f: "f \<in> set (rk_flags s)" "open_flag (su_accountId u) (su_type u) f" by (auto dest: find_row_SomeD)
  then have "f\<lparr>fg_summary := su_summary u, fg_evidence := su_evidence u\<rparr> \<in> set (rk_flags (snd (raise_flag now u s)))"
    using Some by (force simp: raise_flag_def set_update_where)
  moreover have "open_flag (su_accountId u) (su_type u) (f\<lparr>fg_summary := su_summary u, fg_evidence := su_evidence u\<rparr>)"
    using f(2) by (simp add: open_flag_def)
  ultimately show ?thesis by (rule bexI [rotated])
qed

lemma raise_flag_keeps_open:
  assumes "f \<in> set (rk_flags s)" "open_flag a t f"
  shows "\<exists>g \<in> set (rk_flags (snd (raise_flag now u s))). open_flag a t g"
proof (cases "find_row (open_flag (su_accountId u) (su_type u)) (rk_flags s)")
  case None
  then show ?thesis using assms by (auto simp: raise_flag_def Let_def)
next
  case (Some h)
  let ?f = "if fg_id f = fg_id h then f\<lparr>fg_summary := su_summary u, fg_evidence := su_evidence u\<rparr> else f"
  have "?f \<in> set (rk_flags (snd (raise_flag now u s)))"
    using assms(1) Some by (simp add: raise_flag_def set_update_where)
  moreover have "open_flag a t ?f" using assms(2) by (simp add: open_flag_def)
  ultimately show ?thesis by blast
qed

lemma raise_flag_keeps_resolved:
  assumes "distinct (map fg_id (rk_flags s))"
  shows "filter (\<lambda>f. fg_resolvedAt f \<noteq> None) (rk_flags (snd (raise_flag now u s))) = filter (\<lambda>f. fg_resolvedAt f \<noteq> None) (rk_flags s)"
proof (cases "find_row (open_flag (su_accountId u) (su_type u)) (rk_flags s)")
  case None
  then show ?thesis by (simp add: raise_flag_def Let_def new_flag_def)
next
  case (Some h)
  then have h: "h \<in> set (rk_flags s)" "fg_resolvedAt h = None" by (auto dest!: find_row_SomeD simp: open_flag_def)
  have "fg_resolvedAt f = None" if "f \<in> set (rk_flags s)" "fg_id f = fg_id h" for f
    using assms that h by (metis distinct_map inj_on_eq_iff)
  then have "filter (\<lambda>f. fg_resolvedAt f \<noteq> None) (update_where (\<lambda>g. fg_id g = fg_id h) k fs) = filter (\<lambda>f. fg_resolvedAt f \<noteq> None) fs"
    if "set fs \<subseteq> set (rk_flags s)" "\<And>f. fg_resolvedAt (k f) = fg_resolvedAt f" for k fs
    using that by (induction fs) auto
  then show ?thesis using Some by (simp add: raise_flag_def)
qed

lemma raise_all_keeps_open:
  "f \<in> set (rk_flags s) \<Longrightarrow> open_flag a t f \<Longrightarrow> \<exists>g \<in> set (rk_flags (snd (raise_all now us s))). open_flag a t g"
proof (induction us arbitrary: s f)
  case (Cons u us)
  from raise_flag_keeps_open [OF Cons.prems] obtain g where
    "g \<in> set (rk_flags (snd (raise_flag now u s)))" "open_flag a t g" by blast
  from Cons.IH [OF this] show ?case by (simp add: Let_def split_beta)
qed auto

lemma raise_all_opens:
  "u \<in> set us \<Longrightarrow> \<exists>g \<in> set (rk_flags (snd (raise_all now us s))). open_flag (su_accountId u) (su_type u) g"
proof (induction us arbitrary: s)
  case (Cons x us)
  show ?case
  proof (cases "u \<in> set us")
    case True
    from Cons.IH [OF this] show ?thesis by (simp add: Let_def split_beta)
  next
    case False
    with Cons.prems have "u = x" by simp
    then obtain f where "f \<in> set (rk_flags (snd (raise_flag now x s)))" "open_flag (su_accountId u) (su_type u) f"
      using raise_flag_open by blast
    from raise_all_keeps_open [OF this] show ?thesis by (simp add: Let_def split_beta)
  qed
qed simp

lemma raise_all_keeps_resolved:
  "flags_ok s \<Longrightarrow> filter (\<lambda>f. fg_resolvedAt f \<noteq> None) (rk_flags (snd (raise_all now us s))) = filter (\<lambda>f. fg_resolvedAt f \<noteq> None) (rk_flags s)"
proof (induction us arbitrary: s)
  case (Cons u us)
  have "distinct (map fg_id (rk_flags s))" using Cons.prems by (simp add: flags_ok_def)
  from raise_flag_keeps_resolved [OF this] Cons.IH [OF raise_flag_ok [OF Cons.prems]]
  show ?case by (simp add: Let_def split_beta)
qed simp


section \<open>Volume\<close>

lemma appended_rows:
  assumes "distinct (map key rows)" "key ` set rows \<inter> key ` set table = {}"
  shows "fold (upsert_row key upd) rows table = table @ rows"
  using assms
proof (induction rows arbitrary: table)
  case (Cons r rs)
  then have "key r \<notin> key ` set table" by auto
  then have "upsert_row key upd r table = table @ [r]" by (simp add: upsert_row_def)
  moreover have "key ` set rs \<inter> key ` set (table @ [r]) = {}" using Cons.prems by auto
  ultimately show ?case using Cons.IH [of "table @ [r]"] Cons.prems(1) by simp
qed simp

lemma group_account_sum:
  "(\<Sum>b \<leftarrow> filter (\<lambda>b. ub_account b = a) (usageBuckets qdiv src s f daily). ub_attempted b)
    = int (count_where (\<lambda>e. lg_account e = a) (window_events src s f))"
proof -
  let ?w = "window_events src s f"
  have m: "ub_account (make_bucket g p) = fst (snd (snd (snd (fst p))))" "ub_attempted (make_bucket g p) = int (length (snd p))" for g p
    by (induction g p rule: make_bucket.induct) simp_all
  have f: "(\<Sum>b \<leftarrow> filter P xs. h b) = (\<Sum>b \<leftarrow> xs. if P b then h b else (0 :: int))" for P h and xs :: "usage_bucket list"
    by (induction xs) simp_all
  have g: "(if fst (snd (snd (snd (fst p)))) = a then int (length (snd p)) else 0) = (\<Sum>e \<leftarrow> snd p. if lg_account e = a then 1 else 0)"
    if "p \<in> set (group_rows (usage_group daily) ?w)" for p
  proof -
    obtain k es where p: "p = (k, es)" by (cases p)
    have es: "es = filter (\<lambda>e. usage_group daily e = k) ?w" using group_rows_member [OF that [unfolded p]] by (rule conjunct1)
    have "\<forall>e \<in> set es. lg_account e = fst (snd (snd (snd k)))"
      unfolding es by (auto simp: usage_group_def)
    then have "(\<Sum>e \<leftarrow> es. if lg_account e = a then 1 else 0) = (\<Sum>e \<leftarrow> es. if fst (snd (snd (snd k))) = a then 1 else (0 :: int))"
      by (intro arg_cong [where f = sum_list] map_cong) auto
    also have "\<dots> = (if fst (snd (snd (snd k))) = a then int (length es) else 0)"
      by (cases "fst (snd (snd (snd k))) = a") (simp_all only: simp_thms if_True if_False sum_list_triv of_nat_mult mult_1_right mult_zero_right)
    finally show ?thesis unfolding p by simp
  qed
  have "(\<Sum>b \<leftarrow> filter (\<lambda>b. ub_account b = a) (usageBuckets qdiv src s f daily). ub_attempted b)
      = (\<Sum>p \<leftarrow> group_rows (usage_group daily) ?w. if fst (snd (snd (snd (fst p)))) = a then int (length (snd p)) else 0)"
    unfolding f by (simp add: usageBuckets_def Let_def comp_def m cong: if_cong)
  also have "\<dots> = (\<Sum>p \<leftarrow> group_rows (usage_group daily) ?w. \<Sum>e \<leftarrow> snd p. if lg_account e = a then 1 else 0)"
    by (intro arg_cong [where f = sum_list] map_cong refl g)
  also have "\<dots> = int (count_where (\<lambda>e. lg_account e = a) ?w)"
    unfolding count_as_sum by (rule sum_groups)
  finally show ?thesis .
qed

lemma daily_hour_disjoint:
  assumes "b \<in> set (usageBuckets qdiv src s f False)"
  shows "\<exists>t. ub_hour b = lagosHour t"
proof -
  obtain e where "usage_key b = usage_group False e" using assms by (rule bucket_key_event)
  then show ?thesis by (auto simp: usage_key_def usage_group_def)
qed

lemma bucket_hours:
  "b \<in> set (usageBuckets qdiv src s f False) \<Longrightarrow> 0 \<le> ub_hour b"
  "b \<in> set (usageBuckets qdiv src s f True) \<Longrightarrow> ub_hour b = - 1"
proof -
  assume "b \<in> set (usageBuckets qdiv src s f False)"
  then show "0 \<le> ub_hour b" using daily_hour_disjoint lagos_hour_range by metis
next
  assume "b \<in> set (usageBuckets qdiv src s f True)"
  then obtain e where "usage_key b = usage_group True e" by (rule bucket_key_event)
  then show "ub_hour b = - 1" by (simp add: usage_key_def usage_group_def)
qed

lemma bucket_date:
  assumes "b \<in> set (usageBuckets qdiv src (day_start d) (day_start (d + 1)) daily)"
  shows "ub_date b = d * day_len"
proof -
  obtain e where e: "e \<in> set (window_events src (day_start d) (day_start (d + 1)))" "usage_key b = usage_group daily e"
    using assms by (rule bucket_key_event)
  then show ?thesis by (simp add: usage_key_def usage_group_def window_events_day events_of_day_def lagosDateOnly_def)
qed

text \<open>The first run of a day leaves its hourly rows and its daily rows side by side.\<close>

lemma first_run_rows:
  assumes "texts_ok src" "days_ok (rx_ymd env)" "\<forall>r \<in> set (rs_usage db). ub_date r \<noteq> d * day_len"
  shows "rs_usage (snd (rollCurrentDay env src (day_start d) db)) = rs_usage db
    @ map (usage_row None (rx_dbnow env)) (usageBuckets (rx_qdiv env) src (day_start d) (day_start (d + 1)) False)
    @ map (usage_row (Some (rx_now env)) (rx_dbnow env)) (usageBuckets (rx_qdiv env) src (day_start d) (day_start (d + 1)) True)"
proof -
  let ?H = "usageBuckets (rx_qdiv env) src (day_start d) (day_start (d + 1)) False"
  let ?D = "usageBuckets (rx_qdiv env) src (day_start d) (day_start (d + 1)) True"
  let ?h = "map (usage_row None (rx_dbnow env)) ?H"
  let ?d = "map (usage_row (Some (rx_now env)) (rx_dbnow env)) ?D"
  have kh: "usage_key ` set ?h = usage_key ` set ?H" and kd: "usage_key ` set ?d = usage_key ` set ?D"
    by (auto simp: image_image)
  have dist: "distinct (map usage_key ?h)" "distinct (map usage_key ?d)"
    by (simp_all add: comp_def usageBuckets_keys)
  have dates: "ub_date r \<noteq> d * day_len" if "r \<in> set (rs_usage db)" for r using assms(3) that by blast
  have "usage_key ` set ?h \<inter> usage_key ` set (rs_usage db) = {}"
    unfolding kh using bucket_date dates by (force simp: usage_key_def)
  note w1 = appended_rows [OF dist(1) this]
  have "usage_key ` set ?d \<inter> usage_key ` set (rs_usage db @ ?h) = {}"
    unfolding kd set_append image_Un kh using bucket_date dates bucket_hours by (fastforce simp: usage_key_def)
  note w2 = appended_rows [OF dist(2) this]
  have k: "\<not> stale_daily (d * day_len) (rx_now env) r" if "r \<in> set ((rs_usage db @ ?h) @ ?d)" for r
    using that dates bucket_hours(1) by (fastforce simp: stale_daily_def)
  have "rs_usage (snd (rollCurrentDay env src (day_start d) db))
      = filter (\<lambda>r. \<not> stale_daily (d * day_len) (rx_now env) r)
          (fold (upsert_row usage_key replace_usage) ?d (fold (upsert_row usage_key replace_usage) ?h (rs_usage db)))"
    by (simp add: rollCurrentDay_def rollUsage_def lagosDayBounds_start lagosDateOnly_start rollup_steps
        mergeUsage_buckets [OF assms(1,2)])
  also have "\<dots> = (rs_usage db @ ?h) @ ?d"
    unfolding w1 w2 by (rule filter_True, rule ballI, rule k)
  finally show ?thesis by simp
qed

text \<open>
  The scan reads the day's volume from the hourly rows and from the daily row that repeats
  them, so every message of the day counts twice against the threshold of a spike.
\<close>
theorem volume_counts_twice:
  assumes "texts_ok src" "days_ok (rx_ymd env)" "\<forall>r \<in> set (rs_usage db). ub_date r \<noteq> d * day_len"
    "e \<in> set (events_of_day src d)"
  shows "(lg_account e, fl (of_nat (2 * count_where (\<lambda>x. lg_account x = lg_account e) (events_of_day src d))))
    \<in> set (volume_today (d * day_len) (snd (rollCurrentDay env src (day_start d) db)))"
proof -
  let ?a = "lg_account e"
  let ?B = "\<lambda>daily. usageBuckets (rx_qdiv env) src (day_start d) (day_start (d + 1)) daily"
  let ?h = "map (usage_row None (rx_dbnow env)) (?B False)"
  let ?d = "map (usage_row (Some (rx_now env)) (rx_dbnow env)) (?B True)"
  let ?n = "count_where (\<lambda>x. lg_account x = ?a) (events_of_day src d)"
  have today: "filter (\<lambda>r. ub_date r = d * day_len) (rs_usage (snd (rollCurrentDay env src (day_start d) db))) = ?h @ ?d"
    unfolding first_run_rows [OF assms(1-3)] filter_append using assms(3) bucket_date
    by (auto simp: filter_empty_conv filter_id_conv)
  have row: "ub_account (usage_row f n b) = ub_account b" "ub_attempted (usage_row f n b) = ub_attempted b" for f n b
    by (simp_all add: usage_row_def usage_bucket.defs)
  have s: "(\<Sum>r \<leftarrow> filter (\<lambda>r. ub_account r = ?a) (map (usage_row f n) (?B daily)). ub_attempted r) = int ?n" for f n daily
    using group_account_sum [of ?a "rx_qdiv env" src "day_start d" "day_start (d + 1)" daily]
    by (simp add: filter_map comp_def row window_events_day)
  have "?n > 0" using assms(4) by (auto simp: count_where_pos_iff)
  then have "filter (\<lambda>r. ub_account r = ?a) ?d \<noteq> []"
    using s [of "Some (rx_now env)" "rx_dbnow env" True] by (cases "filter (\<lambda>r. ub_account r = ?a) ?d") simp_all
  then obtain r where "r \<in> set ?d" "ub_account r = ?a" unfolding filter_empty_conv by blast
  then have "?a \<in> ub_account ` set (?h @ ?d)" unfolding set_append image_Un by (metis UnI2 image_eqI)
  then have g: "(?a, filter (\<lambda>r. ub_account r = ?a) (?h @ ?d)) \<in> set (group_rows ub_account (?h @ ?d))"
    unfolding set_group_rows by (rule image_eqI [OF refl])
  have "(\<Sum>r \<leftarrow> filter (\<lambda>r. ub_account r = ?a) (?h @ ?d). ub_attempted r) = 2 * int ?n"
    unfolding filter_append map_append sum_list.append s by simp
  then have "attempted_of (filter (\<lambda>r. ub_account r = ?a) (?h @ ?d)) = fl (of_nat (2 * ?n))"
    by (simp only: attempted_of_def of_int_mult of_int_of_nat_eq of_int_numeral of_nat_mult of_nat_numeral)
  with g show ?thesis
    unfolding volume_today_def today set_map by (metis (no_types, lifting) image_eqI case_prod_conv)
qed

theorem volume_counts_twice_witness:
  "(''acc'', fl (of_nat (2 * 2))) \<in> set (volume_today (20000 * day_len)
     (snd (rollCurrentDay (sample_env 50 50) sample_product (day_start 20000) empty_store)))"
proof -
  have "events_of_day sample_product 20000 = [sample_event ''e1'' ''DELIVERED'' (Some ''t1'') (day_start 20000 + 5),
      sample_event ''e2'' ''FAILED'' (Some ''t1'') (day_start 20000 + 7)]"
    by (simp add: events_of_day_def sample_product_def sample_event_def sample_days)
  then show ?thesis
    using volume_counts_twice [of sample_product "sample_env 50 50" empty_store 20000
        "sample_event ''e1'' ''DELIVERED'' (Some ''t1'') (day_start 20000 + 5)"] sample_texts plain_day_ok
    by (simp add: sample_env_def empty_store_def sample_event_def)
qed

section \<open>Countries\<close>

lemma one_country_suspicion:
  assumes "\<forall>r \<in> set rows. sg_accountId r = Some a \<and> gl_country (sg_location r) = Some c \<and> sg_success r \<and> now - 86400000 \<le> sg_occurredAt r"
    "signInCountries \<le> length rows" "a \<noteq> []"
  shows "\<exists>u \<in> set (signInSpread now rows). su_accountId u = a \<and> su_type u = ''MANY_SIGNIN_COUNTRIES'' \<and> su_severity u = HIGH"
proof -
  have r: "recent_signins now rows = rows" using assms(1) by (auto simp: recent_signins_def filter_id_conv)
  have ne: "rows \<noteq> []" using assms(2) by (auto simp: signInCountries_def)
  have "filter (\<lambda>r. sg_accountId r = Some a) rows = rows" using assms(1) by (auto simp: filter_id_conv)
  moreover have "Some a \<in> sg_accountId ` set rows" using assms(1) ne by (cases rows) (auto simp: image_iff)
  ultimately have g: "(Some a, rows) \<in> set (group_rows sg_accountId rows)"
    unfolding set_group_rows by (intro image_eqI [of _ _ "Some a"]) simp_all
  have "filter (\<lambda>r. gl_country (sg_location r) \<noteq> None) rows = rows" using assms(1) by (auto simp: filter_id_conv)
  then have "country_count rows = length rows" by (simp add: country_count_def count_where_def)
  then have "\<not> country_count rows < signInCountries" using assms(2) by simp
  then have "\<lparr>su_accountId = a, su_type = ''MANY_SIGNIN_COUNTRIES'', su_severity = HIGH,
      su_summary = ''Signed in from '' @ dec (country_count rows) @ '' countries in the last 24 hours'',
      su_evidence = [(''countries'', EvNum (of_nat (country_count rows)))]\<rparr> \<in> set (signInSpread now rows)"
    unfolding signInSpread_def r set_concat set_map image_image
    by (intro UN_I [OF g]) (simp add: assms(3))
  then show ?thesis by (rule bexI [rotated]) simp
qed

text \<open>
  Sign-ins are counted, not countries: five successful sign-ins of an account within a day
  raise the flag for signing in from many countries although all came from one.
\<close>
theorem one_country_raises_signin_flag:
  assumes "\<forall>r \<in> set rows. sg_accountId r = Some a \<and> gl_country (sg_location r) = Some c \<and> sg_success r \<and> now - 86400000 \<le> sg_occurredAt r"
    "signInCountries \<le> length rows" "a \<noteq> []"
  shows "\<exists>f \<in> set (rk_flags (snd (risk_scan nt now db rows s))). open_flag a ''MANY_SIGNIN_COUNTRIES'' f"
proof -
  obtain u where u: "u \<in> set (signInSpread now rows)" "su_accountId u = a" "su_type u = ''MANY_SIGNIN_COUNTRIES''"
    using one_country_suspicion [OF assms] by blast
  then have "u \<in> set (suspicions nt now db rows)" by (simp add: suspicions_def Let_def)
  from raise_all_opens [OF this] u show ?thesis by (simp add: risk_scan_def Let_def split_beta)
qed

text \<open>Five sign-ins from Nigeria.\<close>

definition nigerian_signins :: "signin_row list" where
  "nigerian_signins = map (\<lambda>u. \<lparr>sg_surface = ''CUSTOMER_APP'', sg_staffId = None, sg_accountId = Some ''acc'', sg_userId = Some u, sg_email = None, sg_success = True,
     sg_ip = None, sg_userAgent = None, sg_location = no_location\<lparr>gl_country := Some ''NG''\<rparr>, sg_occurredAt = 1000\<rparr>)
     [''1'', ''2'', ''3'', ''4'', ''5'']"

definition no_flags :: risk_state where
  "no_flags = \<lparr>rk_flags = [], rk_next = 0, rk_inbox = \<lparr>ib_staff = [], ib_roles = [], ib_notes = [], ib_nextNote = 0, ib_pushed = [], ib_mails = []\<rparr>\<rparr>"

definition plain_numbers :: number_texts where
  "plain_numbers = \<lparr>nt_locale = (\<lambda>x. dec (nat \<lfloor>x\<rfloor>)), nt_fixed = (\<lambda>x k. dec (nat \<lfloor>x\<rfloor>))\<rparr>"

lemma nigerian_signins_ok:
  "\<forall>r \<in> set nigerian_signins. sg_accountId r = Some ''acc'' \<and> gl_country (sg_location r) = Some ''NG'' \<and> sg_success r
     \<and> 2000 - 86400000 \<le> sg_occurredAt r"
  "signInCountries \<le> length nigerian_signins" "flags_ok no_flags"
  by (simp_all add: nigerian_signins_def signInCountries_def no_flags_def flags_ok_def)

theorem one_country_raises_signin_flag_witness:
  "\<exists>f \<in> set (rk_flags (snd (risk_scan plain_numbers 2000 Rollup_Facts.empty_store nigerian_signins no_flags))). open_flag ''acc'' ''MANY_SIGNIN_COUNTRIES'' f"
  using nigerian_signins_ok by (intro one_country_raises_signin_flag [where c = "''NG''"]) simp_all


end
