(* ===== verification/Api_Answers.thy ===== *)
theory Api_Answers
  imports Codec Admin_Model
begin

text \<open>
  What the services read from an answer of api-core and put into their audit entries.
\<close>

text \<open>A field of an answer: missing, or null, is null; a number that is no integer is left out.\<close>

fun json_of :: "jval \<Rightarrow> json" where
  "json_of JvNull = JNull"
| "json_of (JvBool b) = JBool b"
| "json_of (JvNum n) = (case num_int n of None \<Rightarrow> JNull | Some i \<Rightarrow> JInt i)"
| "json_of (JvStr t) = JStr t"
| "json_of (JvArr vs) = JArr (map json_of vs)"
| "json_of (JvObj fs) = JObj (map (\<lambda>(k, v). (k, json_of v)) fs)"

definition answer_field :: "jval \<Rightarrow> string \<Rightarrow> json" where
  "answer_field v k = (case field_of v k of None \<Rightarrow> JNull | Some x \<Rightarrow> json_of x)"

text \<open>A field that is undefined does not appear in the snapshot at all.\<close>

definition sent_field :: "jval \<Rightarrow> string \<Rightarrow> (string \<times> json) list" where
  "sent_field v k = (case field_of v k of None \<Rightarrow> [] | Some x \<Rightarrow> [(k, json_of x)])"

text \<open>A property counts as true unless it is missing, null, false, zero, NaN or the empty string.\<close>

fun jv_truthy :: "jval option \<Rightarrow> bool" where
  "jv_truthy None = False"
| "jv_truthy (Some JvNull) = False"
| "jv_truthy (Some (JvBool b)) = b"
| "jv_truthy (Some (JvNum n)) = (n \<noteq> NaN \<and> num_int n \<noteq> Some 0)"
| "jv_truthy (Some (JvStr t)) = (t \<noteq> [])"
| "jv_truthy (Some _) = True"

text \<open>Reading a property of null throws.\<close>

definition null_property :: "string \<Rightarrow> http_error" where
  "null_property k = PlainError (''Cannot read properties of null (reading '' @ k @ '')'')"

end
