(* ===== verification/Customer_Actions.thy ===== *)
theory Customer_Actions
  imports Risk Review_Client Credits Api_Answers
begin

text \<open>
  \<open>modules/customers/customer-actions.service.ts\<close>, with the cache it clears
  (\<open>common/redis/product-cache.service.ts\<close>) and the guard of the product's write connection
  (\<open>common/prisma/zapiack-write.service.ts\<close>): what staff do to a customer's account.  The product's
  tables are lists of rows, its Redis is a map, and what is sent to api-core is kept.
\<close>

section \<open>The product\<close>

record api_key_row =
  ky_id :: string
  ky_accountId :: string
  ky_keyPrefix :: string
  ky_isActive :: bool
  ky_isDeleted :: bool

record project_row =
  pj_id :: string
  pj_accountId :: string
  pj_name :: string
  pj_isDeleted :: bool

record plan_entry =
  pe_id :: string
  pe_name :: string
  pe_basePrice :: rat

record plan_holding =
  ph_accountId :: string
  ph_planId :: string
  ph_status :: string

text \<open>A call to the review routes: who made it, the request and the fields of its body.\<close>

type_synonym money_call = "principal \<times> api_request \<times> (string \<times> string) list"

record customer_state =
  cu_accounts :: "account_balance list"
  cu_keys :: "api_key_row list"
  cu_projects :: "project_row list"
  cu_plans :: "plan_entry list"
  cu_holdings :: "plan_holding list"
  cu_cache :: "string \<rightharpoonup> string"
  cu_risk :: risk_state
  cu_posts :: "signed_post list"
  cu_calls :: "money_call list"
  cu_log :: "audit_row list"

record customer_env =
  cn_hmac :: "string \<Rightarrow> string \<Rightarrow> string"
  cn_core :: api_core_config
  cn_fetch :: "signed_post \<Rightarrow> post_answer"
  cn_uuid1 :: string
  cn_uuid2 :: string
  cn_review :: review_config
  cn_reviewFetch :: "(string \<times> string) list \<Rightarrow> sent_request \<Rightarrow> fetched"
  cn_canWrite :: bool
  cn_redisUp :: bool
  cn_limit :: int
  cn_locale :: "int \<Rightarrow> string"
  cn_decimal :: "rat \<Rightarrow> string"
  cn_now :: millis

section \<open>Writing to the product\<close>

definition FORBIDDEN_WRITE_MODELS :: "string list" where
  "FORBIDDEN_WRITE_MODELS = [''tabtransaction'', ''transactions'']"

definition MUTATING :: "string list" where
  "MUTATING = [''create'', ''createMany'', ''createManyAndReturn'', ''update'', ''updateMany'',
     ''updateManyAndReturn'', ''upsert'', ''delete'', ''deleteMany'']"

definition isLedgerWrite :: "string \<Rightarrow> string option \<Rightarrow> bool" where
  "isLedgerWrite operation model =
     (if \<not> truthy model \<or> \<not> js_includes MUTATING operation then False
      else js_includes FORBIDDEN_WRITE_MODELS (toLowerCase (the model)))"

text \<open>An operation of the guarded client; without the grant the database refuses it.\<close>

definition guarded_write ::
  "customer_env \<Rightarrow> string \<Rightarrow> string \<Rightarrow> (customer_state \<Rightarrow> customer_state) \<Rightarrow> customer_state \<Rightarrow> (customer_state, unit) outcome" where
  "guarded_write env operation model f s =
     (if isLedgerWrite operation (Some model)
      then throws (PlainError (''Refused '' @ operation @ '' on '' @ model
        @ '': the credit ledger belongs to api-core. Route balance changes through the credit adjustment flow.'')) s
      else if \<not> cn_canWrite env then throws (PlainError ''permission denied'') s
      else returns () (f s))"

section \<open>The product's cache\<close>

definition sender_id_key :: "string \<Rightarrow> string" where
  "sender_id_key projectId = ''sender:'' @ projectId"

definition account_status_key :: "string \<Rightarrow> string" where
  "account_status_key accountId = ''account:'' @ accountId @ '':status''"

definition api_key_key :: "string \<Rightarrow> string" where
  "api_key_key keyPrefix = ''apikey:'' @ keyPrefix"

definition cache_del :: "customer_env \<Rightarrow> string \<Rightarrow> customer_state \<Rightarrow> bool \<times> customer_state" where
  "cache_del env k s = (if cn_redisUp env then (True, s\<lparr>cu_cache := (cu_cache s)(k := None)\<rparr>) else (False, s))"

definition invalidateSenderId :: "customer_env \<Rightarrow> string \<Rightarrow> customer_state \<Rightarrow> bool \<times> customer_state" where
  "invalidateSenderId env projectId s = cache_del env (sender_id_key projectId) s"

definition invalidateAccountStatus :: "customer_env \<Rightarrow> string \<Rightarrow> customer_state \<Rightarrow> bool \<times> customer_state" where
  "invalidateAccountStatus env accountId s = cache_del env (account_status_key accountId) s"

definition invalidateApiKey :: "customer_env \<Rightarrow> string \<Rightarrow> customer_state \<Rightarrow> bool \<times> customer_state" where
  "invalidateApiKey env keyPrefix s = cache_del env (api_key_key keyPrefix) s"

section \<open>Reads, audit and calls\<close>

definition requireAccount :: "string \<Rightarrow> customer_state \<Rightarrow> account_balance result" where
  "requireAccount accountId s =
     (case find_row (\<lambda>a. ab_id a = accountId) (cu_accounts s) of
        None \<Rightarrow> Inl (NotFound ''Account not found'') | Some a \<Rightarrow> Inr a)"

definition find_plan_entry :: "string \<Rightarrow> customer_state \<Rightarrow> plan_entry option" where
  "find_plan_entry planId s = find_row (\<lambda>p. pe_id p = planId) (cu_plans s)"

definition plan_json :: "plan_entry \<Rightarrow> json" where
  "plan_json p = JObj [(''id'', JStr (pe_id p)), (''name'', JStr (pe_name p))]"

definition current_plan :: "string \<Rightarrow> customer_state \<Rightarrow> json" where
  "current_plan accountId s =
     (case find_row (\<lambda>h. ph_accountId h = accountId \<and> ph_status h = ''ACTIVE'') (cu_holdings s) of
        None \<Rightarrow> JNull
      | Some h \<Rightarrow> (case find_plan_entry (ph_planId h) s of None \<Rightarrow> JNull | Some p \<Rightarrow> plan_json p))"

definition customer_log :: "audit_entry \<Rightarrow> customer_state \<Rightarrow> customer_state" where
  "customer_log e s = s\<lparr>cu_log := audit_record e (cu_log s)\<rparr>"

definition core_command ::
  "customer_env \<Rightarrow> command \<Rightarrow> (string \<times> string) list \<Rightarrow> principal \<Rightarrow> string option \<Rightarrow> customer_state \<Rightarrow> (customer_state, jval) outcome" where
  "core_command env c payload actor key s =
     (let (r, sent) = post (cn_hmac env) (cn_core env) (cn_fetch env) (cn_now env) (cn_uuid1 env) (cn_uuid2 env)
            (command_path c) (json_stringify (VObj (map (\<lambda>(k, v). (k, VStr v)) payload)))
            \<lparr>cx_actorId = sp_id actor, cx_actorEmail = sp_email actor, cx_idempotencyKey = key, cx_requestId = None\<rparr>
            (cu_posts s)
      in (r, s\<lparr>cu_posts := sent\<rparr>))"

text \<open>An answer without a readable body is null.\<close>

definition review_command ::
  "customer_env \<Rightarrow> principal \<Rightarrow> api_request \<Rightarrow> (string \<times> string) list \<Rightarrow> customer_state \<Rightarrow> (customer_state, jval) outcome" where
  "review_command env actor rq payload s =
     (map_sum id (\<lambda>p. case p of None \<Rightarrow> JvNull | Some v \<Rightarrow> v) (call (cn_review env) (cn_reviewFetch env payload) rq),
      if configured (cn_review env) then s\<lparr>cu_calls := cu_calls s @ [(actor, rq, payload)]\<rparr> else s)"

section \<open>Account status\<close>

definition write_refused :: http_error where
  "write_refused = ServiceUnavailable (''The account could not be updated. admin-core has no write access to the product database: ''
     @ ''check ZAPIACK_WRITE_DATABASE_URL and the zapiack_admin write grants.'')"

definition ban_refused :: "customer_env \<Rightarrow> account_balance \<Rightarrow> http_error" where
  "ban_refused env a = Conflict (''Account still holds '' @ cn_decimal env (ab_balance a) @ '' credits. ''
     @ ''Refund or zero the balance before banning, or suspend instead.'')"

definition setStatus ::
  "customer_env \<Rightarrow> principal \<Rightarrow> string \<Rightarrow> string \<Rightarrow> string \<Rightarrow> customer_state \<Rightarrow> (customer_state, string \<times> string \<times> bool) outcome" where
  "setStatus env actor accountId status reason s =
     (case requireAccount accountId s of
        Inl e \<Rightarrow> throws e s
      | Inr before \<Rightarrow>
         if ab_status before = status then throws (Conflict (''Account is already '' @ status)) s
         else if status = ''BANNED'' \<and> fl (ab_balance before) > 0 then throws (ban_refused env before) s
         else
           (case guarded_write env ''update'' ''Accounts'' (\<lambda>t. t\<lparr>cu_accounts := update_where (\<lambda>a. ab_id a = accountId)
                   (\<lambda>a. a\<lparr>ab_status := status\<rparr>) (cu_accounts t)\<rparr>) s of
              (Inl e, s1) \<Rightarrow> throws write_refused s1
            | (Inr _, s1) \<Rightarrow>
                (let (effective, s2) = invalidateAccountStatus env accountId s1 in
                 returns (accountId, status, effective)
                   (customer_log (staff_entry actor (''customers.status_'' @ toLowerCase status) ''account'' accountId
                      (Some reason) (JObj [(''status'', JStr (ab_status before))]) (JObj [(''status'', JStr status)])
                      (JObj [(''immediate'', JBool effective)])) s2))))"

definition suspend where "suspend env actor accountId reason = setStatus env actor accountId ''SUSPENDED'' reason"

definition reactivate where "reactivate env actor accountId reason = setStatus env actor accountId ''ACTIVE'' reason"

definition ban where "ban env actor accountId reason = setStatus env actor accountId ''BANNED'' reason"

definition forceLogout ::
  "customer_env \<Rightarrow> principal \<Rightarrow> string \<Rightarrow> string \<Rightarrow> string option \<Rightarrow> customer_state \<Rightarrow> (customer_state, string \<times> json) outcome" where
  "forceLogout env actor accountId reason key s =
     (case requireAccount accountId s of
        Inl e \<Rightarrow> throws e s
      | Inr _ \<Rightarrow>
         (case core_command env (ForceLogout accountId) [] actor key s of
            (Inl e, s1) \<Rightarrow> throws e s1
          | (Inr v, s1) \<Rightarrow>
              returns (accountId, answer_field v ''revokedSessions'')
                (customer_log (staff_entry actor ''customers.force_logout'' ''account'' accountId (Some reason) JNull
                   (JObj [(''revokedSessions'', answer_field v ''revokedSessions'')]) JNull) s1)))"

section \<open>Keys, projects and limits\<close>

definition setApiKeyActive ::
  "customer_env \<Rightarrow> principal \<Rightarrow> string \<Rightarrow> string \<Rightarrow> bool \<Rightarrow> string \<Rightarrow> customer_state \<Rightarrow> (customer_state, string \<times> string \<times> bool \<times> bool) outcome" where
  "setApiKeyActive env actor accountId apiKeyId isActive reason s =
     (case find_row (\<lambda>k. ky_id k = apiKeyId \<and> ky_accountId k = accountId) (cu_keys s) of
        None \<Rightarrow> throws (NotFound ''API key not found on this account'') s
      | Some apiKey \<Rightarrow>
         if ky_isDeleted apiKey then throws (Conflict ''This key has been deleted'') s
         else
           (case guarded_write env ''update'' ''ApiKeys'' (\<lambda>t. t\<lparr>cu_keys := update_where (\<lambda>k. ky_id k = apiKeyId)
                   (\<lambda>k. k\<lparr>ky_isActive := isActive\<rparr>) (cu_keys t)\<rparr>) s of
              (Inl e, s1) \<Rightarrow> throws e s1
            | (Inr _, s1) \<Rightarrow>
                (let (effective, s2) = invalidateApiKey env (ky_keyPrefix apiKey) s1 in
                 returns (accountId, apiKeyId, isActive, effective)
                   (customer_log (staff_entry actor (if isActive then ''customers.restore_key'' else ''customers.revoke_key'')
                      ''api_key'' apiKeyId (Some reason) (JObj [(''isActive'', JBool (ky_isActive apiKey))])
                      (JObj [(''isActive'', JBool isActive)])
                      (JObj [(''accountId'', JStr accountId), (''prefix'', JStr (ky_keyPrefix apiKey)),
                         (''immediate'', JBool effective)])) s2))))"

definition archiveProject ::
  "customer_env \<Rightarrow> principal \<Rightarrow> string \<Rightarrow> string \<Rightarrow> string \<Rightarrow> customer_state \<Rightarrow> (customer_state, string \<times> string \<times> bool) outcome" where
  "archiveProject env actor accountId projectId reason s =
     (case find_row (\<lambda>p. pj_id p = projectId \<and> pj_accountId p = accountId) (cu_projects s) of
        None \<Rightarrow> throws (NotFound ''Project not found on this account'') s
      | Some project \<Rightarrow>
         (case guarded_write env ''update'' ''Projects'' (\<lambda>t. t\<lparr>cu_projects := update_where (\<lambda>p. pj_id p = projectId)
                 (\<lambda>p. p\<lparr>pj_isDeleted := True\<rparr>) (cu_projects t)\<rparr>) s of
            (Inl e, s1) \<Rightarrow> throws e s1
          | (Inr _, s1) \<Rightarrow>
              returns (accountId, projectId, True)
                (customer_log (staff_entry actor ''customers.project_archived'' ''project'' projectId (Some reason)
                   (JObj [(''isDeleted'', JBool (pj_isDeleted project))]) (JObj [(''isDeleted'', JBool True)])
                   (JObj [(''accountId'', JStr accountId), (''name'', JStr (pj_name project))])) s1)))"

definition resetRateLimits ::
  "customer_env \<Rightarrow> principal \<Rightarrow> string \<Rightarrow> string \<Rightarrow> string option \<Rightarrow> customer_state \<Rightarrow> (customer_state, string \<times> bool) outcome" where
  "resetRateLimits env actor accountId reason key s =
     (case requireAccount accountId s of
        Inl e \<Rightarrow> throws e s
      | Inr _ \<Rightarrow>
         (case core_command env (ResetRateLimits accountId) [] actor key s of
            (Inl e, s1) \<Rightarrow> throws e s1
          | (Inr _, s1) \<Rightarrow>
              returns (accountId, True)
                (customer_log (staff_entry actor ''customers.reset_rate_limits'' ''account'' accountId (Some reason)
                   JNull JNull JNull) s1)))"

section \<open>Plans\<close>

definition changePlan ::
  "customer_env \<Rightarrow> principal \<Rightarrow> string \<Rightarrow> string \<Rightarrow> string \<Rightarrow> string option \<Rightarrow> customer_state
     \<Rightarrow> (customer_state, string \<times> string \<times> json) outcome" where
  "changePlan env actor accountId planId reason key s =
     (case requireAccount accountId s of
        Inl e \<Rightarrow> throws e s
      | Inr _ \<Rightarrow>
         (case find_plan_entry planId s of
            None \<Rightarrow> throws (NotFound ''Plan not found'') s
          | Some plan \<Rightarrow>
             (case core_command env (ChangePlan accountId) [(''planId'', planId), (''reason'', reason)] actor key s of
                (Inl e, s1) \<Rightarrow> throws e s1
              | (Inr v, s1) \<Rightarrow>
                  returns (accountId, planId, answer_field v ''subscriptionId'')
                    (customer_log (staff_entry actor ''customers.change_plan'' ''account'' accountId (Some reason)
                       (JObj [(''plan'', current_plan accountId s)]) (JObj [(''plan'', plan_json plan)]) JNull) s1))))"

definition number_value :: "js_num \<Rightarrow> rat option" where
  "number_value x = (case x of Fin m e \<Rightarrow> Some (of_int m * 2 powi e) | _ \<Rightarrow> None)"

definition hasNoApproval :: "principal \<Rightarrow> bool" where
  "hasNoApproval actor \<longleftrightarrow> \<not> js_includes (sp_permissions actor) ''credits.approve''"

definition chargePlanToCard ::
  "customer_env \<Rightarrow> principal \<Rightarrow> string \<Rightarrow> string \<Rightarrow> string \<Rightarrow> customer_state \<Rightarrow> (customer_state, jval) outcome" where
  "chargePlanToCard env actor accountId planId reason s =
     (case requireAccount accountId s of
        Inl e \<Rightarrow> throws e s
      | Inr _ \<Rightarrow>
         (case find_plan_entry planId s of
            None \<Rightarrow> throws (NotFound ''Plan not found'') s
          | Some plan \<Rightarrow>
             if fl (pe_basePrice plan) > of_int (cn_limit env) \<and> hasNoApproval actor
             then throws (Forbidden (''Charging a card for more than '' @ cn_locale env (cn_limit env)
                    @ '' needs someone with credit approval.'')) s
             else
               (case review_command env actor (plan_card_request accountId) [(''planId'', planId)] s of
                  (Inl e, s1) \<Rightarrow> throws e s1
                | (Inr v, s1) \<Rightarrow>
                    if v = JvNull then throws (null_property ''reference'') s1
                    else returns v
                      (customer_log (staff_entry actor ''customers.plan_card_charge'' ''account'' accountId (Some reason)
                         JNull (JObj [(''plan'', plan_json plan), (''reference'', answer_field v ''reference''),
                            (''paidWith'', answer_field v ''paidWith'')]) JNull) s1))))"

record plan_payment =
  pp_planId :: string
  pp_amountReceivedNgn :: string
  pp_reference :: string
  pp_reason :: string

definition payment_body :: "principal \<Rightarrow> plan_payment \<Rightarrow> (string \<times> string) list" where
  "payment_body actor input = [(''planId'', pp_planId input), (''amountReceivedNgn'', pp_amountReceivedNgn input),
     (''reference'', pp_reference input), (''reason'', pp_reason input), (''recordedBy'', sp_email actor)]"

definition payment_logged ::
  "customer_env \<Rightarrow> principal \<Rightarrow> string \<Rightarrow> plan_payment \<Rightarrow> plan_entry \<Rightarrow> jval \<Rightarrow> account_balance \<Rightarrow> customer_state \<Rightarrow> customer_state" where
  "payment_logged env actor accountId input plan v before s =
     customer_log (staff_entry actor ''customers.plan_payment_recorded'' ''account'' accountId (Some (pp_reason input))
       (JObj [(''creditBalance'', JStr (cn_decimal env (ab_balance before)))])
       (JObj ([(''plan'', plan_json plan), (''reference'', JStr (pp_reference input))]
          @ sent_field v ''credited'' @ sent_field v ''charged'' @ sent_field v ''subscriptionId'')) JNull) s"

definition recordPlanPayment ::
  "customer_env \<Rightarrow> principal \<Rightarrow> string \<Rightarrow> plan_payment \<Rightarrow> customer_state \<Rightarrow> (customer_state, jval) outcome" where
  "recordPlanPayment env actor accountId input s =
     (case requireAccount accountId s of
        Inl e \<Rightarrow> throws e s
      | Inr before \<Rightarrow>
         (case number_value (js_Number (pp_amountReceivedNgn input)) of
            None \<Rightarrow> throws (Conflict ''The amount received cannot be negative.'') s
          | Some amount \<Rightarrow>
             if amount < 0 then throws (Conflict ''The amount received cannot be negative.'') s
             else if amount > of_int (cn_limit env) \<and> hasNoApproval actor
             then throws (Forbidden (''Payments above '' @ cn_locale env (cn_limit env)
                    @ '' need someone with credit approval to record them.'')) s
             else
               (case find_plan_entry (pp_planId input) s of
                  None \<Rightarrow> throws (NotFound ''Plan not found'') s
                | Some plan \<Rightarrow>
                   (case review_command env actor (plan_payment_request accountId) (payment_body actor input) s of
                      (Inl e, s1) \<Rightarrow> throws e s1
                    | (Inr v, s1) \<Rightarrow>
                        if v = JvNull then throws (null_property ''alreadyApplied'') s1
                        else if jv_truthy (field_of v ''alreadyApplied'') then returns v s1
                        else returns v (payment_logged env actor accountId input plan v before s1)))))"

section \<open>Risk flags\<close>

record flag_request =
  fr_type :: string
  fr_severity :: risk_severity
  fr_summary :: string
  fr_reason :: string

definition severity_word :: "risk_severity \<Rightarrow> string" where
  "severity_word v = (case v of LOW \<Rightarrow> ''LOW'' | MEDIUM \<Rightarrow> ''MEDIUM'' | HIGH \<Rightarrow> ''HIGH'' | CRITICAL \<Rightarrow> ''CRITICAL'')"

definition raiseFlag ::
  "customer_env \<Rightarrow> principal \<Rightarrow> string \<Rightarrow> flag_request \<Rightarrow> customer_state \<Rightarrow> (customer_state, risk_flag) outcome" where
  "raiseFlag env actor accountId input s =
     (let r = cu_risk s;
          flag = \<lparr>fg_id = rk_next r, fg_accountId = accountId, fg_type = fr_type input, fg_severity = fr_severity input,
            fg_source = MANUAL, fg_summary = fr_summary input, fg_evidence = [], fg_raisedBy = Some (sp_id actor),
            fg_resolvedAt = None, fg_resolvedBy = None, fg_resolution = None, fg_createdAt = cn_now env\<rparr>
      in returns flag
           (customer_log (staff_entry actor ''customers.risk_flag_raised'' ''account'' accountId (Some (fr_reason input)) JNull
              (JObj [(''flagId'', JInt (int (fg_id flag))), (''type'', JStr (fg_type flag)),
                 (''severity'', JStr (severity_word (fg_severity flag)))]) JNull)
             (s\<lparr>cu_risk := r\<lparr>rk_flags := rk_flags r @ [flag], rk_next := Suc (rk_next r)\<rparr>\<rparr>)))"

definition resolveFlag ::
  "customer_env \<Rightarrow> principal \<Rightarrow> nat \<Rightarrow> string \<Rightarrow> customer_state \<Rightarrow> (customer_state, risk_flag) outcome" where
  "resolveFlag env actor flagId resolution s =
     (let r = cu_risk s;
          resolve = (\<lambda>f. f\<lparr>fg_resolvedAt := Some (cn_now env), fg_resolvedBy := Some (sp_id actor), fg_resolution := Some resolution\<rparr>)
      in case find_row (\<lambda>f. fg_id f = flagId) (rk_flags r) of
           None \<Rightarrow> throws RecordNotFound s
         | Some f \<Rightarrow>
             returns (resolve f)
               (customer_log (staff_entry actor ''customers.risk_flag_resolved'' ''risk_flag'' (dec flagId) (Some resolution) JNull
                  (JObj [(''accountId'', JStr (fg_accountId f))]) JNull)
                 (s\<lparr>cu_risk := r\<lparr>rk_flags := update_where (\<lambda>g. fg_id g = flagId) resolve (rk_flags r)\<rparr>\<rparr>)))"

section \<open>Histories\<close>

datatype customer_op =
    CStatus principal string string string
  | CLogout principal string string "string option"
  | CKey principal string string bool string
  | CArchive principal string string string
  | CPlan principal string string string "string option"
  | CCharge principal string string string
  | CPayment principal string plan_payment
  | CLimits principal string string "string option"
  | CRaise principal string flag_request
  | CResolve principal nat string

fun customer_step :: "customer_env \<Rightarrow> customer_op \<Rightarrow> customer_state \<Rightarrow> customer_state" where
  "customer_step env (CStatus p a st r) s = snd (setStatus env p a st r s)"
| "customer_step env (CLogout p a r k) s = snd (forceLogout env p a r k s)"
| "customer_step env (CKey p a i b r) s = snd (setApiKeyActive env p a i b r s)"
| "customer_step env (CArchive p a i r) s = snd (archiveProject env p a i r s)"
| "customer_step env (CPlan p a i r k) s = snd (changePlan env p a i r k s)"
| "customer_step env (CCharge p a i r) s = snd (chargePlanToCard env p a i r s)"
| "customer_step env (CPayment p a input) s = snd (recordPlanPayment env p a input s)"
| "customer_step env (CLimits p a r k) s = snd (resetRateLimits env p a r k s)"
| "customer_step env (CRaise p a input) s = snd (raiseFlag env p a input s)"
| "customer_step env (CResolve p i r) s = snd (resolveFlag env p i r s)"

text \<open>The environment of each step is its own: answers, clock and failures change over time.\<close>

definition customers_after :: "(customer_env \<times> customer_op) list \<Rightarrow> customer_state \<Rightarrow> customer_state" where
  "customers_after steps s = fold (\<lambda>(env, op). customer_step env op) steps s"

text \<open>
  What the actions on a customer's account do and what they leave alone: the status, the product's
  cache, the credit ledger and the calls that move money.
\<close>

lemma ledger_models [simp]:
  "isLedgerWrite ''update'' (Some ''Accounts'') = False" "isLedgerWrite ''update'' (Some ''ApiKeys'') = False"
  "isLedgerWrite ''update'' (Some ''Projects'') = False"
  by code_simp+

lemma guarded_write_open:
  "\<not> isLedgerWrite op (Some m) \<Longrightarrow> guarded_write env op m f s =
    (if cn_canWrite env then returns () (f s) else throws (PlainError ''permission denied'') s)"
  by (simp add: guarded_write_def)

text \<open>However a ledger model is written, whatever its case, the guarded client refuses every mutation of it.\<close>

lemma ledger_writes_refused:
  assumes "toLowerCase m = ''tabtransaction'' \<or> toLowerCase m = ''transactions''" "op \<in> set MUTATING"
  shows "\<exists>e. guarded_write env op m f s = throws e s"
proof -
  have "m \<noteq> []" using assms(1) by (auto simp: toLowerCase_def)
  then have "isLedgerWrite op (Some m)"
    using assms by (auto simp: isLedgerWrite_def truthy_def FORBIDDEN_WRITE_MODELS_def)
  then show ?thesis by (simp add: guarded_write_def)
qed

section \<open>Account status\<close>

lemma requireAccount_simps:
  "requireAccount a s = Inr r \<Longrightarrow> r \<in> set (cu_accounts s) \<and> ab_id r = a"
  by (auto simp: requireAccount_def split: option.splits dest: find_row_SomeD)

text \<open>
  A change of an account's status either fails and leaves everything as it was, or changes the
  status of that one account and nothing else of any account, is audited once, and when it is
  reported as immediate the product's cached status is gone. An account that holds credits is not banned.
\<close>
theorem status_change_exact:
  assumes "distinct (map ab_id (cu_accounts s))"
  shows "case setStatus env actor accountId status reason s of
      (Inl e, s') \<Rightarrow> s' = s
    | (Inr (i, st, immediate), s') \<Rightarrow>
        (\<exists>a \<in> set (cu_accounts s). ab_id a = accountId \<and> ab_status a \<noteq> status \<and> (status = ''BANNED'' \<longrightarrow> fl (ab_balance a) \<le> 0)
          \<and> set (cu_accounts s') = insert (a\<lparr>ab_status := status\<rparr>) (set (cu_accounts s) - {a}))
        \<and> cu_cache s' = (if immediate then (cu_cache s)(account_status_key accountId := None) else cu_cache s)
        \<and> (\<exists>row. cu_log s' = cu_log s @ [row] \<and> au_actorId row = Some (sp_id actor) \<and> au_targetId row = Some accountId \<and> au_reason row = Some reason)
        \<and> cu_keys s' = cu_keys s \<and> cu_projects s' = cu_projects s \<and> cu_calls s' = cu_calls s \<and> cu_posts s' = cu_posts s"
proof (cases "requireAccount accountId s")
  case (Inl e)
  then show ?thesis by (simp add: setStatus_def)
next
  case (Inr a)
  note a = requireAccount_simps [OF Inr]
  let ?f = "\<lambda>a. a\<lparr>ab_status := status\<rparr>"
  have u: "set (update_where (\<lambda>x. ab_id x = accountId) ?f (cu_accounts s)) = insert (?f a) (set (cu_accounts s) - {a})"
  proof -
    have "ab_id x = accountId \<longleftrightarrow> x = a" if "x \<in> set (cu_accounts s)" for x
      using that a assms by (metis distinct_map inj_on_eq_iff)
    then have "set (update_where (\<lambda>x. ab_id x = accountId) ?f (cu_accounts s)) = (\<lambda>x. if x = a then ?f x else x) ` set (cu_accounts s)"
      unfolding set_update_where by (intro image_cong) simp_all
    also have "\<dots> = insert (?f a) (set (cu_accounts s) - {a})" using a by auto
    finally show ?thesis .
  qed
  consider "ab_status a = status" | "ab_status a \<noteq> status" "status = ''BANNED''" "fl (ab_balance a) > 0"
    | "ab_status a \<noteq> status" "\<not> (status = ''BANNED'' \<and> fl (ab_balance a) > 0)" "\<not> cn_canWrite env"
    | "ab_status a \<noteq> status" "\<not> (status = ''BANNED'' \<and> fl (ab_balance a) > 0)" "cn_canWrite env"
    by blast
  then show ?thesis
  proof cases
    case 4
    have "cu_accounts (snd (setStatus env actor accountId status reason s)) = update_where (\<lambda>x. ab_id x = accountId) ?f (cu_accounts s)"
      using Inr 4 by (auto simp: setStatus_def guarded_write_open invalidateAccountStatus_def cache_del_def customer_log_def)
    then show ?thesis
      using Inr 4 a u
      by (auto simp: setStatus_def guarded_write_open invalidateAccountStatus_def cache_del_def customer_log_def audit_record_def
          staff_entry_def actor_of_def intro!: bexI [of _ a])
  qed (use Inr in \<open>simp_all add: setStatus_def guarded_write_open\<close>)
qed

section \<open>Money\<close>

text \<open>
  A call that moves money: by staff with credit approval, or a plan priced within the limit, or a
  payment that is a number between zero and the limit.
\<close>

definition money_call_ok :: "int \<Rightarrow> plan_entry list \<Rightarrow> money_call \<Rightarrow> bool" where
  "money_call_ok limit plans c = (case c of (actor, rq, payload) \<Rightarrow>
     js_includes (sp_permissions actor) ''credits.approve''
     \<or> (\<exists>a p. rq = plan_card_request a \<and> payload = [(''planId'', pe_id p)] \<and> p \<in> set plans \<and> fl (pe_basePrice p) \<le> of_int limit)
     \<or> (\<exists>a input x. rq = plan_payment_request a \<and> payload = payment_body actor input
          \<and> number_value (js_Number (pp_amountReceivedNgn input)) = Some x \<and> 0 \<le> x \<and> x \<le> of_int limit))"

named_theorems customer_ops \<open>the definitions of the actions\<close>

lemmas [customer_ops] = setStatus_def guarded_write_def invalidateAccountStatus_def invalidateApiKey_def cache_del_def
  customer_log_def Let_def forceLogout_def core_command_def setApiKeyActive_def archiveProject_def resetRateLimits_def
  changePlan_def chargePlanToCard_def recordPlanPayment_def payment_logged_def review_command_def raiseFlag_def resolveFlag_def

text \<open>What an account holds, which no action writes.\<close>

definition holdings :: "customer_state \<Rightarrow> (string \<times> rat) list" where
  "holdings s = map (\<lambda>a. (ab_id a, ab_balance a)) (cu_accounts s)"

lemma holdings_status: "map (\<lambda>a. (ab_id a, ab_balance a)) (update_where p (\<lambda>a. a\<lparr>ab_status := st\<rparr>) rs) = map (\<lambda>a. (ab_id a, ab_balance a)) rs"
  by (rule map_update_where) simp

lemma customer_step_keeps:
  "holdings (customer_step env op s) = holdings s" "cu_plans (customer_step env op s) = cu_plans s"
proof -
  show "holdings (customer_step env op s) = holdings s"
    by (cases op) (auto simp: customer_ops holdings_def holdings_status split: sum.splits option.splits prod.splits if_splits)
  show "cu_plans (customer_step env op s) = cu_plans s"
    by (cases op) (auto simp: customer_ops split: sum.splits option.splits prod.splits if_splits)
qed

lemma customer_step_calls:
  "set (cu_calls (customer_step env op s)) \<subseteq> set (cu_calls s) \<union> {c. money_call_ok (cn_limit env) (cu_plans s) c}"
proof -
  have p: "find_plan_entry i s = Some p \<Longrightarrow> p \<in> set (cu_plans s) \<and> pe_id p = i" for i p
    by (auto simp: find_plan_entry_def dest: find_row_SomeD)
  have charge: "money_call_ok (cn_limit env) (cu_plans s) (actor, plan_card_request a, [(''planId'', i)])"
    if "find_plan_entry i s = Some p" "\<not> (fl (pe_basePrice p) > of_int (cn_limit env) \<and> hasNoApproval actor)" for actor a i p
    using p [OF that(1)] that(2) by (auto simp: money_call_ok_def hasNoApproval_def)
  have payment: "money_call_ok (cn_limit env) (cu_plans s) (actor, plan_payment_request a, payment_body actor input)"
    if "number_value (js_Number (pp_amountReceivedNgn input)) = Some x" "\<not> x < 0"
      "\<not> (x > of_int (cn_limit env) \<and> hasNoApproval actor)" for actor a input x
    using that by (auto simp: money_call_ok_def hasNoApproval_def)
  show ?thesis
  proof (cases op)
    case (CCharge actor a i r)
    then show ?thesis
      using charge [of i _ actor a]
      by (auto simp: customer_ops split: sum.splits option.splits prod.splits if_splits)
  next
    case (CPayment actor a input)
    then show ?thesis
      using payment [of input _ actor a]
      by (auto simp: customer_ops not_less split: sum.splits option.splits prod.splits if_splits)
  qed (auto simp: customer_ops split: sum.splits option.splits prod.splits if_splits)
qed

text \<open>
  C11. Whatever staff do to customers, in any order and whatever the services around answer, no
  account's credits are written by the console, and every call that charges a card or records a
  payment was made within the limit or by someone with credit approval.
\<close>
theorem money_calls_within_limit:
  assumes "\<forall>(env, op) \<in> set steps. cn_limit env = limit" "cu_calls s = []"
  shows "holdings (customers_after steps s) = holdings s
    \<and> (\<forall>c \<in> set (cu_calls (customers_after steps s)). money_call_ok limit (cu_plans s) c)"
proof -
  have "holdings (customers_after steps t) = holdings t \<and> cu_plans (customers_after steps t) = cu_plans t
      \<and> (\<forall>c \<in> set (cu_calls (customers_after steps t)). money_call_ok limit (cu_plans t) c)"
    if "\<forall>c \<in> set (cu_calls t). money_call_ok limit (cu_plans t) c" for t
    using assms(1) that
  proof (induction steps arbitrary: t)
    case (Cons st steps)
    obtain env op where st: "st = (env, op)" by (cases st)
    let ?t = "customer_step env op t"
    have "\<forall>c \<in> set (cu_calls ?t). money_call_ok limit (cu_plans ?t) c"
      using Cons.prems customer_step_calls [of env op t] by (auto simp: st customer_step_keeps)
    from Cons.IH [OF _ this] Cons.prems(1) show ?case
      by (simp add: st customers_after_def customer_step_keeps)
  qed (simp add: customers_after_def)
  with assms(2) show ?thesis by simp
qed

text \<open>
  A card that was charged can leave no trace: when api-core's answer to the charge has no
  readable body, the handler throws before it writes the audit entry, although the call was made.
\<close>
theorem unreadable_charge_unaudited:
  assumes "requireAccount accountId s = Inr a" "find_plan_entry planId s = Some plan"
    "\<not> (fl (pe_basePrice plan) > of_int (cn_limit env) \<and> hasNoApproval actor)"
    "call (cn_review env) (cn_reviewFetch env [(''planId'', planId)]) (plan_card_request accountId) = Inr answer"
    "answer = None \<or> answer = Some JvNull"
  shows "case chargePlanToCard env actor accountId planId reason s of (r, s') \<Rightarrow>
    isl r \<and> cu_log s' = cu_log s \<and> cu_calls s' = cu_calls s @ [(actor, plan_card_request accountId, [(''planId'', planId)])]"
proof -
  have "configured (cn_review env)" using assms(4) by (rule call_key_only_to_api_core)
  then show ?thesis
    using assms by (auto simp: chargePlanToCard_def review_command_def)
qed

text \<open>A flag that was resolved can be resolved again, which loses who resolved it, when and why.\<close>

lemma resolution_overwritten:
  assumes "find_row (\<lambda>f. fg_id f = i) (rk_flags (cu_risk s)) = Some f" "fg_resolvedBy f = Some other"
  shows "\<exists>g s'. resolveFlag env actor i text s = returns g s' \<and> fg_resolvedBy g = Some (sp_id actor) \<and> fg_resolution g = Some text"
  using assms by (simp add: resolveFlag_def Let_def)

section \<open>Witnesses\<close>

definition sample_actor :: "string list \<Rightarrow> principal" where
  "sample_actor permissions = \<lparr>sp_id = ''s1'', sp_email = ''s1@x.io'', sp_name = ''S'', sp_roleId = ''r'', sp_roleKey = ''support'',
     sp_permissions = permissions, sp_sessionId = ''x'', sp_sessionEpoch = 0, sp_ip = None, sp_userAgent = None, sp_impersonating = None\<rparr>"

definition sample_account :: account_balance where
  "sample_account = \<lparr>ab_id = ''a1'', ab_status = ''ACTIVE'', ab_balance = 0, ab_createdAt = 0, ab_country = ''NG'',
     ab_billingAddress = [], ab_ownerName = None, ab_email = []\<rparr>"

definition sample_customers :: customer_state where
  "sample_customers = \<lparr>cu_accounts = [sample_account], cu_keys = [], cu_projects = [],
     cu_plans = [\<lparr>pe_id = ''p1'', pe_name = ''Plan'', pe_basePrice = 0\<rparr>], cu_holdings = [],
     cu_cache = [account_status_key ''a1'' \<mapsto> ''ACTIVE''],
     cu_risk = \<lparr>rk_flags = [], rk_next = 0, rk_inbox = \<lparr>ib_staff = [], ib_roles = [], ib_notes = [], ib_nextNote = 0, ib_pushed = [], ib_mails = []\<rparr>\<rparr>,
     cu_posts = [], cu_calls = [], cu_log = []\<rparr>"

definition customer_sample_env :: "string \<Rightarrow> customer_env" where
  "customer_sample_env answer = \<lparr>cn_hmac = (\<lambda>k m. []),
     cn_core = \<lparr>ak_baseUrl = [], ak_serviceToken = [], ak_signingSecret = [], ak_timeoutMs = 1\<rparr>, cn_fetch = (\<lambda>p. TimedOut),
     cn_uuid1 = [], cn_uuid2 = [], cn_review = \<lparr>rc_adminKey = ''k'', rc_adminBaseUrl = ''u''\<rparr>,
     cn_reviewFetch = (\<lambda>b r. Answered 200 answer), cn_canWrite = True, cn_redisUp = True, cn_limit = 100,
     cn_locale = (\<lambda>n. []), cn_decimal = (\<lambda>q. []), cn_now = 5\<rparr>"

theorem status_change_exact_witness:
  "\<exists>s'. setStatus (customer_sample_env []) (sample_actor []) ''a1'' ''BANNED'' ''fraud'' sample_customers = (Inr (''a1'', ''BANNED'', True), s')
    \<and> map ab_status (cu_accounts s') = [''BANNED''] \<and> cu_cache s' (account_status_key ''a1'') = None"
proof -
  let ?r = "setStatus (customer_sample_env []) (sample_actor []) ''a1'' ''BANNED'' ''fraud'' sample_customers"
  have r: "fst ?r = Inr (''a1'', ''BANNED'', True)" "map ab_status (cu_accounts (snd ?r)) = [''BANNED'']"
    by (simp_all add: setStatus_def sample_customers_def requireAccount_def sample_account_def guarded_write_open
        customer_sample_env_def invalidateAccountStatus_def cache_del_def customer_log_def)
  obtain s' where s': "?r = (Inr (''a1'', ''BANNED'', True), s')" using r(1) by (metis prod.collapse)
  have "distinct (map ab_id (cu_accounts sample_customers))" by (simp add: sample_customers_def)
  from status_change_exact [where env = "customer_sample_env []" and actor = "sample_actor []" and accountId = "''a1''"
      and status = "''BANNED''" and reason = "''fraud''", OF this]
  have "cu_cache s' (account_status_key ''a1'') = None" unfolding s' by simp
  with r s' show ?thesis by simp
qed

lemma sample_charge:
  "requireAccount ''a1'' sample_customers = Inr sample_account" "find_plan_entry ''p1'' sample_customers = Some \<lparr>pe_id = ''p1'', pe_name = ''Plan'', pe_basePrice = 0\<rparr>"
  "call (cn_review (customer_sample_env [])) (cn_reviewFetch (customer_sample_env []) payload) rq = Inr None"
  "configured (cn_review (customer_sample_env []))"
  by (simp_all add: requireAccount_def find_plan_entry_def sample_customers_def sample_account_def call_def configured_def
      customer_sample_env_def response_ok_def payload_of_def)

theorem money_calls_within_limit_witness:
  "\<exists>c. cu_calls (customers_after [(customer_sample_env [], CCharge (sample_actor []) ''a1'' ''p1'' ''asked'')] sample_customers) = [c]
    \<and> money_call_ok 100 (cu_plans sample_customers) c"
proof -
  let ?s = "customers_after [(customer_sample_env [], CCharge (sample_actor []) ''a1'' ''p1'' ''asked'')] sample_customers"
  have c: "cu_calls ?s = [(sample_actor [], plan_card_request ''a1'', [(''planId'', ''p1'')])]"
    by (simp add: customers_after_def chargePlanToCard_def sample_charge review_command_def)
      (simp add: customer_sample_env_def sample_customers_def)
  have "cu_calls sample_customers = []" by (simp add: sample_customers_def)
  from money_calls_within_limit [OF _ this, of "[(customer_sample_env [], CCharge (sample_actor []) ''a1'' ''p1'' ''asked'')]" 100]
  have "money_call_ok 100 (cu_plans sample_customers) (sample_actor [], plan_card_request ''a1'', [(''planId'', ''p1'')])"
    unfolding c by (simp add: customer_sample_env_def)
  with c show ?thesis by blast
qed

theorem unreadable_charge_unaudited_witness:
  "isl (fst (chargePlanToCard (customer_sample_env []) (sample_actor []) ''a1'' ''p1'' ''asked'' sample_customers))
    \<and> length (cu_calls (snd (chargePlanToCard (customer_sample_env []) (sample_actor []) ''a1'' ''p1'' ''asked'' sample_customers))) = 1"
proof -
  have "\<not> (fl (pe_basePrice \<lparr>pe_id = ''p1'', pe_name = ''Plan'', pe_basePrice = 0\<rparr>) > of_int (cn_limit (customer_sample_env [])) \<and> hasNoApproval (sample_actor []))"
    by (simp add: customer_sample_env_def)
  from unreadable_charge_unaudited [where reason = "''asked''", OF sample_charge(1,2) this sample_charge(3)]
  show ?thesis by (simp add: split_beta sample_customers_def)
qed

end
