(* ===== verification/Log_Redaction.thy ===== *)
theory Log_Redaction
  imports Review_Client Uri
begin

text \<open>
  \<open>common/log-redaction.ts\<close>: which of the configured values count as credentials, and how they are taken
  out of what is printed.  The URL parser's password is an argument; an argument that is not a string is
  first rendered by \<open>util.inspect\<close>, an argument too.
\<close>

section \<open>encodeURIComponent\<close>

text \<open>What \<open>encodeURIComponent\<close> writes, the percent decoder reads back.\<close>

lemma hex_digit_upper:
  assumes "k < 16"
  shows "hex_digit (''0123456789ABCDEF'' ! k) = Some k"
  using hex_upper_value(1) [OF assms] assms by (simp add: hex_digit_def)

lemma percent_decode_escape: "percent_decode (uri_escape c @ s) = map_option (Cons c) (percent_decode s)"
proof (cases "uri_kept c")
  case True
  moreover have "\<not> uri_kept (CHR ''%'')" by code_simp
  ultimately have "c \<noteq> CHR ''%''" by metis
  with True show ?thesis by (simp add: uri_escape_def)
next
  case False
  let ?b = "of_char c :: nat"
  have "?b div 16 < 16" "?b mod 16 < 16" by (simp_all add: less_mult_imp_div_less)
  moreover have "char_of (16 * (?b div 16) + ?b mod 16) = c" by simp
  ultimately show ?thesis using False by (simp add: uri_escape_def hex_digit_upper del: mod_mult_div_eq mult_div_mod_eq)
qed

lemma percent_decode_encode: "percent_decode (encodeURIComponent s) = Some s"
  by (induction s) (simp_all add: encodeURIComponent_def percent_decode_escape)

text \<open>Decoding gives back every string that was encoded, whatever characters it has.\<close>

theorem uri_round_trip:
  assumes "utf8_ok (map of_char s)"
  shows "decodeURIComponent (encodeURIComponent s) = Some s"
  using assms by (simp add: decodeURIComponent_def percent_decode_encode)

theorem uri_round_trip_witness: "decodeURIComponent (encodeURIComponent ''p:ss @w%'') = Some ''p:ss @w%''"
  by (rule uri_round_trip) code_simp

section \<open>Credentials\<close>

definition MIN_LENGTH :: nat where "MIN_LENGTH = 6"

definition secret_words :: "string list" where
  "secret_words = [''SECRET'', ''TOKEN'', ''PASSWORD'', ''ACCESS_KEY'']"

definition secret_name :: "string \<Rightarrow> bool" where
  "secret_name name \<longleftrightarrow> list_ex (\<lambda>w. contains_str (toUpperCase name) w) secret_words"

definition url_name :: "string \<Rightarrow> bool" where
  "url_name name \<longleftrightarrow> endsWith name ''_URL''"

text \<open>What \<open>add\<close> puts in the set.\<close>

definition forms_of :: "string \<Rightarrow> string list" where
  "forms_of v = (if length v < MIN_LENGTH then [] else [v, encodeURIComponent v])"

text \<open>\<open>parse\<close> gives the password of a URL, or None where the URL does not parse.\<close>

definition secrets_of :: "(string \<Rightarrow> string option) \<Rightarrow> string \<times> string \<Rightarrow> string list" where
  "secrets_of parse nv =
     (case nv of (name, v) \<Rightarrow>
        if v = [] then []
        else if url_name name then
          (case parse (trim v) of
             None \<Rightarrow> forms_of v
           | Some password \<Rightarrow>
               if password = [] then []
               else forms_of password @ (case decodeURIComponent password of None \<Rightarrow> [] | Some p \<Rightarrow> forms_of p))
        else if secret_name name then forms_of v
        else [])"

definition collectSecrets :: "(string \<Rightarrow> string option) \<Rightarrow> (string \<times> string) list \<Rightarrow> string list" where
  "collectSecrets parse env = sort_key (\<lambda>s. - int (length s)) (js_set (concat (map (secrets_of parse) env)))"

section \<open>Redaction\<close>

text \<open>\<open>split\<close> with a string that is not empty, then \<open>join\<close>: the occurrences left to right, not overlapping.\<close>

function replace_all :: "string \<Rightarrow> string \<Rightarrow> string \<Rightarrow> string" where
  "replace_all secret by [] = []"
| "replace_all secret by (c # cs) =
     (if secret \<noteq> [] \<and> startsWith (c # cs) secret then by @ replace_all secret by (drop (length secret) (c # cs))
      else c # replace_all secret by cs)"
  by pat_completeness auto
termination
  by (relation "measure (\<lambda>(s, b, t). length t)") auto

definition REDACTED :: string where "REDACTED = ''[redacted]''"

definition redact :: "string list \<Rightarrow> string \<Rightarrow> string" where
  "redact secrets text =
     foldl (\<lambda>out s. if contains_str out s then replace_all s REDACTED out else out) text secrets"

text \<open>An argument of a console method.\<close>

datatype 'o console_arg = TextArg string | ObjectArg 'o

definition printed :: "('o \<Rightarrow> string) \<Rightarrow> string list \<Rightarrow> 'o console_arg list \<Rightarrow> string list" where
  "printed inspect secrets args =
     map (\<lambda>a. case a of TextArg t \<Rightarrow> redact secrets t | ObjectArg x \<Rightarrow> redact secrets (inspect x)) args"

text \<open>\<open>installLogRedaction\<close>: with no secret configured the methods are left as they are.\<close>

definition console_output ::
  "(string \<Rightarrow> string option) \<Rightarrow> ('o \<Rightarrow> string) \<Rightarrow> (string \<times> string) list \<Rightarrow> 'o console_arg list \<Rightarrow> string list option" where
  "console_output parse inspect env args =
     (if collectSecrets parse env = [] then None else Some (printed inspect (collectSecrets parse env) args))"

section \<open>No credential is printed\<close>

lemma startsWith_append: "startsWith s p \<longleftrightarrow> (\<exists>r. s = p @ r)"
  unfolding startsWith_def by (metis append_eq_conv_conj append_take_drop_id)

lemma contains_str_iff: "contains_str s q \<longleftrightarrow> (\<exists>a b. s = a @ q @ b)"
proof (induction s)
  case (Cons c cs)
  have "(\<exists>a b. c # cs = a @ q @ b) \<longleftrightarrow> (\<exists>b. c # cs = q @ b) \<or> (\<exists>a b. cs = a @ q @ b)"
    by (metis append_Cons append_Nil list.exhaust list.sel(3))
  with Cons show ?case by (simp add: startsWith_append)
qed simp

text \<open>
  A word that avoids the brackets and is no part of the word redacted: where it occurs after a
  replacement it occurred before.
\<close>

definition plain_secret :: "string \<Rightarrow> bool" where
  "plain_secret q \<longleftrightarrow> q \<noteq> [] \<and> CHR ''['' \<notin> set q \<and> CHR '']'' \<notin> set q \<and> \<not> contains_str ''redacted'' q"

lemma prefix_split:
  assumes "q @ b = u @ v" "length q \<le> length u"
  shows "\<exists>r. u = q @ r"
  using assms by (metis append_eq_append_conv_if append_take_drop_id)

text \<open>An occurrence across the marker would hold a bracket or lie inside it.\<close>

lemma occurrence_beside:
  assumes "plain_secret q" "a @ q @ b = REDACTED @ t"
  shows "\<exists>a' b'. t = a' @ q @ b'"
proof (cases "length a < 10")
  case False
  then have "REDACTED @ t = take 10 a @ drop 10 a @ q @ b" using assms(2) by (metis append.assoc append_take_drop_id)
  moreover have "length (take 10 a) = length REDACTED" using False by (simp add: REDACTED_def)
  ultimately have "t = drop 10 a @ q @ b" by (metis append_eq_append_conv)
  then show ?thesis by blast
next
  case True
  have nth: "(REDACTED @ t) ! i = (a @ q @ b) ! i" for i using assms(2) by simp
  have q: "(REDACTED @ t) ! (length a + i) = q ! i" if "i < length q" for i
    using that unfolding nth by (simp add: nth_append)
  have a0: "length a \<noteq> 0"
  proof
    assume "length a = 0"
    with q [of 0] assms(1) have "q ! 0 = CHR ''[''" by (simp add: plain_secret_def REDACTED_def)
    with assms(1) show False by (cases q) (auto simp: plain_secret_def)
  qed
  have short: "length a + length q \<le> 9"
  proof (rule ccontr)
    assume "\<not> length a + length q \<le> 9"
    with True have i: "9 - length a < length q" by linarith
    from q [OF i] True have "q ! (9 - length a) = CHR '']''" by (simp add: REDACTED_def)
    with i assms(1) show False by (metis nth_mem plain_secret_def)
  qed
  have "take 8 (drop 1 (REDACTED @ t)) = ''redacted''" by (simp add: REDACTED_def)
  then have "''redacted'' = take 8 (drop 1 (a @ q @ b))" using assms(2) by simp
  also have "\<dots> = drop 1 a @ q @ take (8 - length (drop 1 a @ q)) b"
    using a0 short by (cases a) simp_all
  finally have "contains_str ''redacted'' q" unfolding contains_str_iff by blast
  with assms(1) show ?thesis by (simp add: plain_secret_def)
qed


lemma replace_all_prefix:
  assumes "replace_all secret REDACTED t = p @ b" "CHR ''['' \<notin> set p"
  shows "\<exists>r. t = p @ r"
  using assms
proof (induction p arbitrary: t)
  case (Cons d ds)
  show ?case
  proof (cases t)
    case t: (Cons x xs)
    show ?thesis
    proof (cases "secret \<noteq> [] \<and> startsWith (x # xs) secret")
      case True
      with Cons.prems(1) t have "d = CHR ''[''" by (simp add: REDACTED_def)
      with Cons.prems(2) show ?thesis by simp
    next
      case False
      with Cons.prems(1) t have "x = d" "replace_all secret REDACTED xs = ds @ b" by simp_all
      with Cons.IH [of xs] Cons.prems(2) t show ?thesis by auto
    qed
  qed (use Cons.prems(1) in simp)
qed simp

text \<open>
  After a replacement every occurrence of a plain word was one before, and the word replaced has none.
\<close>

lemma replace_all_no_new:
  assumes "plain_secret q" "replace_all secret REDACTED t = a @ q @ b"
  shows "q \<noteq> secret \<and> (\<exists>a' b'. t = a' @ q @ b')"
  using assms(2)
proof (induction "length t" arbitrary: t a b rule: less_induct)
  case less
  show ?case
  proof (cases t)
    case Nil
    with less.prems assms(1) show ?thesis by (simp add: plain_secret_def)
  next
    case t: (Cons c cs)
    show ?thesis
    proof (cases "secret \<noteq> [] \<and> startsWith (c # cs) secret")
      case True
      let ?rest = "drop (length secret) t"
      have "a @ q @ b = REDACTED @ replace_all secret REDACTED ?rest" using less.prems unfolding t replace_all.simps(2) if_P [OF True] by simp
      from occurrence_beside [OF assms(1) this] obtain a1 b1 where r: "replace_all secret REDACTED ?rest = a1 @ q @ b1" by blast
      have "length ?rest < length t" using True t by simp
      from less.hyps [OF this r] obtain a' b' where "q \<noteq> secret" "?rest = a' @ q @ b'" by blast
      moreover from this have "t = (take (length secret) t @ a') @ q @ b'" by (metis append_assoc append_take_drop_id)
      ultimately show ?thesis by blast
    next
      case False
      then have e: "c # replace_all secret REDACTED cs = a @ q @ b" using less.prems unfolding t replace_all.simps(2) if_not_P [OF False] by simp
      show ?thesis
      proof (cases a)
        case (Cons x xs)
        then have "replace_all secret REDACTED cs = xs @ q @ b" using e by simp
        from less.hyps [OF _ this] t obtain a' b' where "q \<noteq> secret" "cs = a' @ q @ b'" by auto
        moreover from this t have "t = (c # a') @ q @ b'" by simp
        ultimately show ?thesis by blast
      next
        case Nil
        obtain q' where q: "q = c # q'" using e Nil assms(1) by (cases q) (auto simp: plain_secret_def)
        have "replace_all secret REDACTED cs = q' @ b" using e Nil q by simp
        moreover have "CHR ''['' \<notin> set q'" using assms(1) q by (simp add: plain_secret_def)
        ultimately obtain r where "cs = q' @ r" using replace_all_prefix by blast
        with q t have "t = [] @ q @ r" by simp
        moreover from this False t have "q \<noteq> secret" by (auto simp: startsWith_append q)
        ultimately show ?thesis by blast
      qed
    qed
  qed
qed

lemma redact_steps:
  assumes "plain_secret q"
  shows "contains_str (redact secrets u) q \<Longrightarrow> contains_str u q \<and> q \<notin> set secrets"
proof (induction secrets arbitrary: u)
  case (Cons s secrets)
  let ?out = "if contains_str u s then replace_all s REDACTED u else u"
  have "contains_str (redact secrets ?out) q" using Cons.prems by (simp add: redact_def)
  from Cons.IH [OF this] have out: "contains_str ?out q" "q \<notin> set secrets" by simp_all
  show ?case
  proof (cases "contains_str u s")
    case True
    with out(1) obtain a b where "replace_all s REDACTED u = a @ q @ b" by (auto simp: contains_str_iff)
    from replace_all_no_new [OF assms this] out(2) show ?thesis by (auto simp: contains_str_iff)
  next
    case False
    with out show ?thesis by auto
  qed
qed (simp add: redact_def)


text \<open>
  The keys of the two services this backend calls are not among the credentials: the names of their
  variables say neither secret, token, password nor access key, so what is printed keeps them.
\<close>
theorem service_keys_printed:
  "collectSecrets parse [(''API_CORE_ADMIN_KEY'', key1), (''SMS_CORE_API_KEY'', key2)] = []
   \<and> console_output parse inspect [(''API_CORE_ADMIN_KEY'', key1), (''SMS_CORE_API_KEY'', key2)] args = None"
proof -
  have "\<not> url_name ''API_CORE_ADMIN_KEY''" "\<not> secret_name ''API_CORE_ADMIN_KEY''"
    "\<not> url_name ''SMS_CORE_API_KEY''" "\<not> secret_name ''SMS_CORE_API_KEY''" by code_simp+
  then have "secrets_of parse (''API_CORE_ADMIN_KEY'', key1) = []" "secrets_of parse (''SMS_CORE_API_KEY'', key2) = []"
    by (simp_all add: secrets_of_def)
  then show ?thesis by (simp add: collectSecrets_def console_output_def)
qed


end
