(* ===== verification/Documents.thy ===== *)
theory Documents
  imports Sender_Ids Review_Client Api_Answers Uri Log_Redaction
begin

text \<open>
  \<open>modules/sender-ids/documents.service.ts\<close>, \<open>document-source.ts\<close> and the sender-ID part of
  \<open>integrations/s3/s3.service.ts\<close>: how the documents of an application are handed out, read and
  zipped.  The parsing of a URL, what S3 and the CDN answer and how a time is written are arguments.
\<close>

section \<open>Where a document is read from\<close>

text \<open>What \<open>new URL(x)\<close> answers: the protocol, the origin, the path and the address as text.\<close>

record url_parts =
  ur_protocol :: string
  ur_origin :: string
  ur_pathname :: string
  ur_href :: string

record storage_config =
  sg_cdnBaseUrl :: string
  sg_bucket :: string
  sg_prefix :: string

datatype document_source = FromS3 string | FromCdn string

definition documentSource :: "(string \<Rightarrow> url_parts option) \<Rightarrow> storage_config \<Rightarrow> string \<Rightarrow> document_source option" where
  "documentSource parse cfg fileUrl =
     (case (parse fileUrl, parse (sg_cdnBaseUrl cfg)) of
        (Some url, Some cdn) \<Rightarrow>
          if ur_protocol url \<noteq> ''https:'' \<or> ur_origin url \<noteq> ur_origin cdn then None
          else (case decodeURIComponent (ur_pathname url) of
              None \<Rightarrow> None
            | Some path \<Rightarrow>
               (let key = dropWhile (\<lambda>c. c = CHR ''/'') path in
                if key = [] \<or> js_includes (split_on (CHR ''/'') key) ''..'' then None
                else if sg_bucket cfg \<noteq> [] \<and> sg_prefix cfg \<noteq> [] \<and> startsWith key (sg_prefix cfg)
                then Some (FromS3 key)
                else Some (FromCdn (ur_href url))))
      | _ \<Rightarrow> None)"

section \<open>State\<close>

record document_row =
  dc_id :: string
  dc_senderId :: string
  dc_type :: string
  dc_provider :: "string option"
  dc_fileOriginalName :: string
  dc_fileName :: string
  dc_fileUrl :: string
  dc_createdAt :: millis

text \<open>\<open>dm_fetched\<close> and \<open>dm_opened\<close>: the addresses requested and the objects read, in order.\<close>

record documents_state =
  dm_reviews :: "review list"
  dm_documents :: "document_row list"
  dm_log :: "audit_row list"
  dm_fetched :: "string list"
  dm_opened :: "string list"
  dm_calls :: "(api_request \<times> bool) list"

text \<open>A fetch fails, or is answered with a status, a body (none, or its content) and its length header.\<close>

record web_answer =
  wa_status :: nat
  wa_body :: "string option"
  wa_length :: "string option"

record documents_env =
  dn_parse :: "string \<Rightarrow> url_parts option"
  dn_storage :: storage_config
  dn_s3 :: "string \<Rightarrow> string option result"
  dn_fetch :: "string \<Rightarrow> web_answer result"
  dn_review :: review_config
  dn_letters :: "bool \<Rightarrow> sent_request \<Rightarrow> fetched"
  dn_iso :: "millis \<Rightarrow> string"
  dn_now :: millis

section \<open>File names\<close>

definition contentTypeOf :: "string \<Rightarrow> string" where
  "contentTypeOf fileName =
     (let ext = last (split_on (CHR ''.'') (toLowerCase fileName)) in
      if ext = ''pdf'' then ''application/pdf''
      else if ext = ''png'' then ''image/png''
      else if ext = ''jpg'' \<or> ext = ''jpeg'' then ''image/jpeg''
      else ''application/octet-stream'')"

text \<open>A run of characters that are not kept becomes one underscore.\<close>

fun squash :: "(char \<Rightarrow> bool) \<Rightarrow> string \<Rightarrow> string" where
  "squash keep [] = []"
| "squash keep (c # s) =
     (if keep c then c # squash keep s
      else CHR ''_'' # (case s of [] \<Rightarrow> [] | d # u \<Rightarrow> if keep d then squash keep s else tl (squash keep s)))"

definition sanitise :: "string \<Rightarrow> string" where
  "sanitise v = take 60 (squash (\<lambda>c. is_word c \<or> c = CHR ''.'' \<or> c = CHR ''-'') v)"

text \<open>The number goes before the last dot.\<close>

definition prefixName :: "string \<Rightarrow> nat \<Rightarrow> string" where
  "prefixName fileName index =
     (if CHR ''.'' \<notin> set fileName then fileName @ ''('' @ dec index @ '')''
      else (let ext = rev (takeWhile (\<lambda>c. c \<noteq> CHR ''.'') (rev fileName)); dot = length fileName - length ext - 1
            in take dot fileName @ ''('' @ dec index @ '')'' @ drop dot fileName))"

section \<open>Access\<close>

definition documents_log :: "audit_entry \<Rightarrow> documents_state \<Rightarrow> documents_state" where
  "documents_log e s = s\<lparr>dm_log := audit_record e (dm_log s)\<rparr>"

definition resolveDocument :: "string \<Rightarrow> string \<Rightarrow> documents_state \<Rightarrow> (review \<times> document_row) result" where
  "resolveDocument reviewId documentId s =
     (case find_row (\<lambda>r. rv_id r = reviewId) (dm_reviews s) of
        None \<Rightarrow> Inl (NotFound ''Review not found'')
      | Some rv \<Rightarrow>
         (case find_row (\<lambda>d. dc_id d = documentId \<and> dc_senderId d = rv_applicationId rv) (dm_documents s) of
            None \<Rightarrow> Inl (NotFound ''Document not found on this application'')
          | Some d \<Rightarrow> Inr (rv, d)))"

datatype disposition = Attachment | Inline

fun disposition_name :: "disposition \<Rightarrow> string" where
  "disposition_name Attachment = ''attachment''"
| "disposition_name Inline = ''inline''"

definition access_entry :: "principal \<Rightarrow> disposition \<Rightarrow> review \<Rightarrow> document_row \<Rightarrow> audit_entry" where
  "access_entry actor disposition rv d =
     staff_entry actor (if disposition = Inline then ''senderid.document.preview'' else ''senderid.document.download'')
       ''sender_id_document'' (dc_id d) None JNull JNull
       (JObj [(''reviewId'', JStr (rv_id rv)), (''applicationId'', JStr (rv_applicationId rv)),
          (''accountId'', JStr (rv_accountId rv)), (''fileName'', JStr (dc_fileOriginalName d)), (''type'', JStr (dc_type d))])"

definition shown_type :: "document_row \<Rightarrow> string" where
  "shown_type d = contentTypeOf (if dc_fileOriginalName d \<noteq> [] then dc_fileOriginalName d else dc_fileName d)"

record document_link =
  dl_url :: string
  dl_fileName :: string
  dl_contentType :: string
  dl_type :: string
  dl_provider :: "string option"
  dl_uploadedAt :: millis
  dl_disposition :: disposition

definition document_resolve ::
  "principal \<Rightarrow> string \<Rightarrow> string \<Rightarrow> disposition \<Rightarrow> documents_state \<Rightarrow> (documents_state, document_link) outcome" where
  "document_resolve actor reviewId documentId disposition s =
     (case resolveDocument reviewId documentId s of
        Inl e \<Rightarrow> throws e s
      | Inr (rv, d) \<Rightarrow>
          returns \<lparr>dl_url = dc_fileUrl d, dl_fileName = dc_fileOriginalName d, dl_contentType = shown_type d,
              dl_type = dc_type d, dl_provider = dc_provider d, dl_uploadedAt = dc_createdAt d, dl_disposition = disposition\<rparr>
            (documents_log (access_entry actor disposition rv d) s))"

section \<open>Reading\<close>

definition assertSenderIdKey :: "documents_env \<Rightarrow> string \<Rightarrow> unit result" where
  "assertSenderIdKey env objectKey =
     (if \<not> startsWith objectKey (sg_prefix (dn_storage env)) \<or> contains_str objectKey ''..''
      then Inl (NotFound ''Document not available'') else Inr ())"

definition openSenderIdDocument :: "documents_env \<Rightarrow> string \<Rightarrow> documents_state \<Rightarrow> (documents_state, string) outcome" where
  "openSenderIdDocument env objectKey s =
     (case assertSenderIdKey env objectKey of
        Inl e \<Rightarrow> throws e s
      | Inr _ \<Rightarrow>
         (case dn_s3 env objectKey of
            Inl e \<Rightarrow> throws e (s\<lparr>dm_opened := dm_opened s @ [objectKey]\<rparr>)
          | Inr None \<Rightarrow> throws (NotFound ''Document body missing in S3'') (s\<lparr>dm_opened := dm_opened s @ [objectKey]\<rparr>)
          | Inr (Some body) \<Rightarrow> returns body (s\<lparr>dm_opened := dm_opened s @ [objectKey]\<rparr>)))"

definition fetch_document ::
  "documents_env \<Rightarrow> string \<Rightarrow> documents_state \<Rightarrow> (documents_state, string \<times> string option) outcome" where
  "fetch_document env url s =
     (let s1 = s\<lparr>dm_fetched := dm_fetched s @ [url]\<rparr> in
      case dn_fetch env url of
        Inl e \<Rightarrow> throws e s1
      | Inr w \<Rightarrow> (case wa_body w of
            Some body \<Rightarrow> if response_ok (wa_status w) then returns (body, wa_length w) s1
              else throws (PlainError (''CDN responded '' @ dec (wa_status w))) s1
          | None \<Rightarrow> throws (PlainError (''CDN responded '' @ dec (wa_status w))) s1))"

definition read_source ::
  "documents_env \<Rightarrow> document_source \<Rightarrow> documents_state \<Rightarrow> (documents_state, string \<times> string option) outcome" where
  "read_source env src s =
     (case src of
        FromS3 key \<Rightarrow> (case openSenderIdDocument env key s of
            (Inl e, s1) \<Rightarrow> throws e s1
          | (Inr body, s1) \<Rightarrow> returns (body, None) s1)
      | FromCdn url \<Rightarrow> fetch_document env url s)"

record file_reply =
  rp_headers :: "(string \<times> string) list"
  rp_body :: string

definition file_headers :: "disposition \<Rightarrow> document_row \<Rightarrow> string option \<Rightarrow> (string \<times> string) list" where
  "file_headers disposition d len =
     [(''Content-Type'', shown_type d),
      (''Content-Disposition'', disposition_name disposition @ ''; filename='' @ [CHR 0x22] @ sanitise (dc_fileOriginalName d) @ [CHR 0x22]),
      (''Cache-Control'', ''private, no-store''), (''X-Content-Type-Options'', ''nosniff'')]
     @ (if truthy len then [(''Content-Length'', the len)] else [])"

definition document_file ::
  "documents_env \<Rightarrow> principal \<Rightarrow> string \<Rightarrow> string \<Rightarrow> disposition \<Rightarrow> documents_state \<Rightarrow> (documents_state, file_reply) outcome" where
  "document_file env actor reviewId documentId disposition s =
     (case resolveDocument reviewId documentId s of
        Inl e \<Rightarrow> throws e s
      | Inr (rv, d) \<Rightarrow>
         (case documentSource (dn_parse env) (dn_storage env) (dc_fileUrl d) of
            None \<Rightarrow> throws (NotFound ''Document not available'') s
          | Some src \<Rightarrow>
             (case read_source env src (documents_log (access_entry actor disposition rv d) s) of
                (Inl e, s1) \<Rightarrow> throws (BadGateway ''The document could not be retrieved from storage. Try again shortly.'') s1
              | (Inr (body, len), s1) \<Rightarrow> returns \<lparr>rp_headers = file_headers disposition d len, rp_body = body\<rparr> s1)))"

section \<open>Letters\<close>

definition letters_logged :: "principal \<Rightarrow> review \<Rightarrow> bool \<Rightarrow> jval \<Rightarrow> documents_state \<Rightarrow> documents_state" where
  "letters_logged actor rv force v s =
     documents_log (staff_entry actor ''senderid.letters.generated'' ''sender_id_application'' (rv_applicationId rv) None JNull JNull
       (JObj ([(''reviewId'', JStr (rv_id rv)), (''accountId'', JStr (rv_accountId rv))] @ sent_field v ''networks''
          @ [(''forced'', JBool force)]))) s"

definition generateLetters ::
  "documents_env \<Rightarrow> principal \<Rightarrow> string \<Rightarrow> bool \<Rightarrow> documents_state \<Rightarrow> (documents_state, jval) outcome" where
  "generateLetters env actor reviewId force s =
     (case find_row (\<lambda>r. rv_id r = reviewId) (dm_reviews s) of
        None \<Rightarrow> throws (NotFound ''Review not found'') s
      | Some rv \<Rightarrow>
         (let rq = letters_request (rv_applicationId rv);
              s1 = (if configured (dn_review env) then s\<lparr>dm_calls := dm_calls s @ [(rq, force)]\<rparr> else s)
          in case call (dn_review env) (dn_letters env force) rq of
               Inl e \<Rightarrow> throws e s1
             | Inr None \<Rightarrow> throws (null_property ''generated'') s1
             | Inr (Some v) \<Rightarrow>
                 if v = JvNull then throws (null_property ''generated'') s1
                 else if jv_truthy (field_of v ''generated'') then returns v (letters_logged actor rv force v s1)
                 else returns v s1))"

section \<open>The zip\<close>

definition missing_text :: "documents_env \<Rightarrow> string" where
  "missing_text env = ''This document could not be retrieved at '' @ dn_iso env (dn_now env) @ ''.'' @ [CHR 0x0A]"

text \<open>The loop over the documents; \<open>seen\<close> holds the original names met so far.\<close>

fun zip_entries ::
  "documents_env \<Rightarrow> string list \<Rightarrow> document_row list \<Rightarrow> documents_state \<Rightarrow> (string \<times> string) list \<times> documents_state" where
  "zip_entries env seen [] s = ([], s)"
| "zip_entries env seen (d # ds) s =
     (let count = count_where (\<lambda>n. n = dc_fileOriginalName d) seen;
          entryName = (if count = 0 then dc_fileOriginalName d else prefixName (dc_fileOriginalName d) count);
          path = dc_type d @ ''/'' @ entryName;
          (r, s1) = fetch_document env (dc_fileUrl d) s;
          entry = (case r of Inr (body, len) \<Rightarrow> (path, body) | Inl e \<Rightarrow> (path @ ''.MISSING.txt'', missing_text env));
          (es, s2) = zip_entries env (seen @ [dc_fileOriginalName d]) ds s1
      in (entry # es, s2))"

definition zip_documents :: "review \<Rightarrow> documents_state \<Rightarrow> document_row list" where
  "zip_documents rv s = sort_key dc_createdAt (filter (\<lambda>d. dc_senderId d = rv_applicationId rv) (dm_documents s))"

definition zip_logged :: "principal \<Rightarrow> review \<Rightarrow> nat \<Rightarrow> documents_state \<Rightarrow> documents_state" where
  "zip_logged actor rv n s =
     documents_log (staff_entry actor ''senderid.documents.download_all'' ''sender_id_application'' (rv_applicationId rv) None JNull JNull
       (JObj [(''reviewId'', JStr (rv_id rv)), (''documentCount'', JInt (int n)), (''accountId'', JStr (rv_accountId rv))])) s"

definition streamZip ::
  "documents_env \<Rightarrow> principal \<Rightarrow> string \<Rightarrow> documents_state
     \<Rightarrow> (documents_state, (string \<times> string) list \<times> (string \<times> string) list) outcome" where
  "streamZip env actor reviewId s =
     (case find_row (\<lambda>r. rv_id r = reviewId) (dm_reviews s) of
        None \<Rightarrow> throws (NotFound ''Review not found'') s
      | Some rv \<Rightarrow>
         (let documents = zip_documents rv s in
          if documents = [] then throws (NotFound ''This application has no documents'') s
          else (let (entries, s1) = zip_entries env [] documents (zip_logged actor rv (length documents) s)
            in returns
              ([(''Content-Type'', ''application/zip''),
                (''Content-Disposition'', ''attachment; filename='' @ [CHR 0x22] @ sanitise (rv_senderId rv) @ ''_''
                   @ rv_applicationId rv @ ''.zip'' @ [CHR 0x22])], entries) s1)))"

text \<open>
  What reading a document touches, what the zip contains, and where the zip leaves the rules of the
  single read.
\<close>

section \<open>Escapes\<close>

lemma ascii_utf8: "list_all (\<lambda>b. b < 128) bs \<Longrightarrow> utf8_ok bs"
  by (induction bs) simp_all

text \<open>What \<open>encodeURIComponent\<close> writes of an ASCII text, \<open>decodeURIComponent\<close> reads back.\<close>

lemma decode_encoded:
  assumes "list_all (\<lambda>c. of_char c < (128 :: nat)) s"
  shows "decodeURIComponent (encodeURIComponent s) = Some s"
proof -
  have "utf8_ok (map of_char s)" using assms by (intro ascii_utf8) (simp add: list_all_iff)
  then show ?thesis by (simp add: decodeURIComponent_def percent_decode_encode)
qed

section \<open>A single document\<close>

lemma documentSource_checked:
  assumes "documentSource parse cfg u = Some src"
  shows "\<exists>url cdn. parse u = Some url \<and> parse (sg_cdnBaseUrl cfg) = Some cdn \<and> ur_protocol url = ''https:''
    \<and> ur_origin url = ur_origin cdn \<and> (\<forall>x. src = FromCdn x \<longrightarrow> x = ur_href url)
    \<and> (\<forall>k. src = FromS3 k \<longrightarrow> startsWith k (sg_prefix cfg))"
  using assms by (auto simp: documentSource_def Let_def split: option.splits if_splits)

lemma resolveDocument_scope:
  assumes "resolveDocument reviewId documentId s = Inr (rv, d)"
  shows "rv \<in> set (dm_reviews s)" "rv_id rv = reviewId" "d \<in> set (dm_documents s)" "dc_id d = documentId" "dc_senderId d = rv_applicationId rv"
  using assms by (auto simp: resolveDocument_def split: option.splits dest!: find_row_SomeD)

lemma read_source_touches:
  assumes "read_source env src s = (r, s')"
  shows "dm_log s' = dm_log s" "dm_documents s' = dm_documents s"
    "(dm_fetched s' = dm_fetched s \<or> (\<exists>u. src = FromCdn u \<and> dm_fetched s' = dm_fetched s @ [u]))
     \<and> (dm_opened s' = dm_opened s \<or> (\<exists>k. src = FromS3 k \<and> dm_opened s' = dm_opened s @ [k]
          \<and> startsWith k (sg_prefix (dn_storage env)) \<and> \<not> contains_str k ''..''))"
  using assms
  by (auto simp: read_source_def openSenderIdDocument_def assertSenderIdKey_def fetch_document_def Let_def
      split: document_source.splits sum.splits option.splits if_splits prod.splits)


section \<open>The zip\<close>

definition zip_content :: "documents_env \<Rightarrow> document_row \<Rightarrow> string" where
  "zip_content env d =
     (case dn_fetch env (dc_fileUrl d) of
        Inr w \<Rightarrow> (case wa_body w of Some b \<Rightarrow> if response_ok (wa_status w) then b else missing_text env | None \<Rightarrow> missing_text env)
      | Inl e \<Rightarrow> missing_text env)"

lemma fetch_document_result:
  "dm_fetched (snd (fetch_document env u s)) = dm_fetched s @ [u]" "dm_log (snd (fetch_document env u s)) = dm_log s"
  by (auto simp: fetch_document_def Let_def split: sum.splits option.splits)

lemma zip_entries_Cons:
  "zip_entries env seen (d # ds) s =
    (let path = dc_type d @ ''/'' @ (if count_where (\<lambda>n. n = dc_fileOriginalName d) seen = 0 then dc_fileOriginalName d
           else prefixName (dc_fileOriginalName d) (count_where (\<lambda>n. n = dc_fileOriginalName d) seen));
         rest = zip_entries env (seen @ [dc_fileOriginalName d]) ds (snd (fetch_document env (dc_fileUrl d) s))
     in ((if isl (fst (fetch_document env (dc_fileUrl d) s)) then path @ ''.MISSING.txt'' else path, zip_content env d) # fst rest, snd rest))"
proof -
  have "(case fst (fetch_document env (dc_fileUrl d) s) of Inl e \<Rightarrow> (path @ ''.MISSING.txt'', missing_text env) | Inr (body, len) \<Rightarrow> (path, body))
      = (if isl (fst (fetch_document env (dc_fileUrl d) s)) then path @ ''.MISSING.txt'' else path, zip_content env d)" for path
    by (auto simp: zip_content_def fetch_document_def Let_def split: sum.splits option.splits)
  then show ?thesis by (simp add: Let_def split_beta)
qed

lemma zip_entries_all:
  "map snd (fst (zip_entries env seen ds s)) = map (zip_content env) ds
   \<and> dm_fetched (snd (zip_entries env seen ds s)) = dm_fetched s @ map dc_fileUrl ds
   \<and> dm_log (snd (zip_entries env seen ds s)) = dm_log s
   \<and> list_all2 (\<lambda>e d. startsWith (fst e) (dc_type d @ ''/'')) (fst (zip_entries env seen ds s)) ds"
proof (induction ds arbitrary: seen s)
  case (Cons d ds)
  have "startsWith (dc_type d @ ''/'' @ x) (dc_type d @ ''/'')" for x by (simp add: startsWith_def)
  with Cons.IH show ?case
    by (simp add: zip_entries_Cons Let_def fetch_document_result del: zip_entries.simps)
qed simp

lemmas zip_entries_result = zip_entries_all [THEN conjunct1] zip_entries_all [THEN conjunct2, THEN conjunct1]
  zip_entries_all [THEN conjunct2, THEN conjunct2, THEN conjunct1] zip_entries_all [THEN conjunct2, THEN conjunct2, THEN conjunct2]

text \<open>
  The zip of an application has one entry for each of its documents, oldest first, in the folder of
  its type: the document itself, or a note when it could not be read. It is audited once, with the number.
\<close>
theorem zip_complete:
  assumes "find_row (\<lambda>r. rv_id r = reviewId) (dm_reviews s) = Some rv" "zip_documents rv s \<noteq> []"
  shows "\<exists>headers entries s'. streamZip env actor reviewId s = returns (headers, entries) s'
    \<and> map snd entries = map (zip_content env) (zip_documents rv s)
    \<and> list_all2 (\<lambda>e d. startsWith (fst e) (dc_type d @ ''/'')) entries (zip_documents rv s)
    \<and> sorted (map dc_createdAt (zip_documents rv s))
    \<and> set (zip_documents rv s) = {d \<in> set (dm_documents s). dc_senderId d = rv_applicationId rv}
    \<and> length (dm_log s') = Suc (length (dm_log s))"
proof -
  let ?z = "zip_entries env [] (zip_documents rv s) (zip_logged actor rv (length (zip_documents rv s)) s)"
  have "\<exists>headers. streamZip env actor reviewId s = returns (headers, fst ?z) (snd ?z)"
    using assms by (simp add: streamZip_def Let_def split_beta)
  moreover have "sorted (map dc_createdAt (zip_documents rv s))" "set (zip_documents rv s) = {d \<in> set (dm_documents s). dc_senderId d = rv_applicationId rv}"
    by (simp_all add: zip_documents_def)
  moreover have "length (dm_log (snd ?z)) = Suc (length (dm_log s))"
    by (simp add: zip_entries_result zip_logged_def documents_log_def)
  ultimately show ?thesis using zip_entries_result(1,4) by blast
qed

text \<open>
  The zip requests every document at the address the row holds, even one the single read refuses:
  a row with a foreign address makes the service request it.
\<close>
theorem zip_requests_refused_address:
  assumes "find_row (\<lambda>r. rv_id r = reviewId) (dm_reviews s) = Some rv" "d \<in> set (dm_documents s)"
    "dc_senderId d = rv_applicationId rv" "distinct (map dc_id (dm_documents s))"
    "documentSource (dn_parse env) (dn_storage env) (dc_fileUrl d) = None"
  shows "fst (document_file env actor reviewId (dc_id d) disposition s) = Inl (NotFound ''Document not available'')
    \<and> dc_fileUrl d \<in> set (dm_fetched (snd (streamZip env actor reviewId s)))"
proof
  have "find_row (\<lambda>x. dc_id x = dc_id d) (dm_documents s) = Some d"
    using assms(2,4) by (intro find_row_unique)
  have "find_row (\<lambda>x. dc_id x = dc_id d \<and> dc_senderId x = rv_applicationId rv) (dm_documents s) = Some d"
  proof (cases "find_row (\<lambda>x. dc_id x = dc_id d \<and> dc_senderId x = rv_applicationId rv) (dm_documents s)")
    case None
    then show ?thesis using assms(2,3) by (auto simp: find_row_None_iff)
  next
    case (Some x)
    then have "x \<in> set (dm_documents s)" "dc_id x = dc_id d" by (auto dest: find_row_SomeD)
    then have "x = d" using assms(2,4) by (metis distinct_map inj_on_eq_iff)
    with Some show ?thesis by simp
  qed
  then have "resolveDocument reviewId (dc_id d) s = Inr (rv, d)" using assms(1) by (simp add: resolveDocument_def)
  then show "fst (document_file env actor reviewId (dc_id d) disposition s) = Inl (NotFound ''Document not available'')"
    using assms(5) by (simp add: document_file_def)
  have "d \<in> set (zip_documents rv s)" using assms(2,3) by (simp add: zip_documents_def)
  moreover from this have "zip_documents rv s \<noteq> []" by auto
  ultimately show "dc_fileUrl d \<in> set (dm_fetched (snd (streamZip env actor reviewId s)))"
    using assms(1) by (simp add: streamZip_def Let_def split_beta zip_entries_result)
qed

lemma prefixName_longer: "length (prefixName n i) = length n + length (dec i) + 2"
proof (cases "CHR ''.'' \<in> set n")
  case True
  let ?e = "rev (takeWhile (\<lambda>c. c \<noteq> CHR ''.'') (rev n))"
  have "length ?e < length n"
  proof -
    have "dropWhile (\<lambda>c. c \<noteq> CHR ''.'') (rev n) \<noteq> []" using True by (simp add: dropWhile_eq_Nil_conv)
    moreover have "length (rev n) = length (takeWhile (\<lambda>c. c \<noteq> CHR ''.'') (rev n)) + length (dropWhile (\<lambda>c. c \<noteq> CHR ''.'') (rev n))"
      by (metis takeWhile_dropWhile_id length_append)
    ultimately show ?thesis by simp
  qed
  with True show ?thesis by (simp add: prefixName_def Let_def)
qed (simp add: prefixName_def)

text \<open>
  Two documents of a zip can have one path, so that one hides the other: the number put into the
  second of two equal names can be the name of a third.
\<close>
theorem zip_paths_collide:
  assumes "find_row (\<lambda>r. rv_id r = reviewId) (dm_reviews s) = Some rv" "zip_documents rv s = [a, b, c]"
    "dc_type b = dc_type c" "dc_fileOriginalName a = dc_fileOriginalName b"
    "dc_fileOriginalName c = prefixName (dc_fileOriginalName b) 1"
    "\<forall>d \<in> {b, c}. \<exists>len s'. fetch_document env (dc_fileUrl d) s = (Inr (zip_content env d, len), s')"
  shows "\<exists>headers entries s'. streamZip env actor reviewId s = returns (headers, entries) s' \<and> length entries = 3 \<and> fst (entries ! 1) = fst (entries ! 2)"
proof -
  have ok: "\<exists>len. fst (fetch_document env (dc_fileUrl d) t) = Inr (zip_content env d, len)" if "d \<in> {b, c}" for d t
  proof -
    have "fst (fetch_document env u t) = fst (fetch_document env u s)" for u
      by (auto simp: fetch_document_def Let_def split: sum.splits option.splits)
    then show ?thesis using assms(6) that by (metis fst_conv)
  qed
  have n: "dc_fileOriginalName c \<noteq> dc_fileOriginalName b"
  proof
    assume e: "dc_fileOriginalName c = dc_fileOriginalName b"
    have "length (dc_fileOriginalName c) = length (dc_fileOriginalName b) + length (dec 1) + 2"
      unfolding assms(5) by (rule prefixName_longer)
    with e show False by simp
  qed
  have ok: "\<not> isl (fst (fetch_document env (dc_fileUrl d) t))" if "d \<in> {b, c}" for d t
    using ok [OF that, of t] by auto
  let ?z = "\<lambda>t. fst (zip_entries env [] [a, b, c] t)"
  have "length (?z t) = 3" "fst (?z t ! 1) = fst (?z t ! 2)" for t
    using ok assms(3,4,5) n by (simp_all add: zip_entries_Cons Let_def numeral_2_eq_2 del: zip_entries.simps(2))
  moreover have "\<exists>headers s'. streamZip env actor reviewId s = returns (headers, ?z (zip_logged actor rv 3 s)) s'"
    unfolding streamZip_def assms(1) option.case Let_def assms(2) split_beta by (simp add: numeral_3_eq_3 del: zip_entries.simps)
  ultimately show ?thesis by blast
qed

section \<open>Witnesses\<close>

definition sample_document :: "string \<Rightarrow> string \<Rightarrow> string \<Rightarrow> document_row" where
  "sample_document i name url = \<lparr>dc_id = i, dc_senderId = ''app'', dc_type = ''letter'', dc_provider = Some i,
     dc_fileOriginalName = name, dc_fileName = name, dc_fileUrl = url, dc_createdAt = 1\<rparr>"

definition sample_review :: review where
  "sample_review = \<lparr>rv_id = ''r1'', rv_applicationId = ''app'', rv_accountId = ''acc'', rv_senderId = ''ACME'',
     rv_status = RS_SUBMITTED, rv_assigneeId = None, rv_submittedAt = 0, rv_slaDueAt = 0, rv_decidedAt = None, rv_decisionReason = None,
     rv_checklist = [], rv_events = []\<rparr>"

definition sample_store :: "document_row list \<Rightarrow> documents_state" where
  "sample_store ds = \<lparr>dm_reviews = [sample_review], dm_documents = ds, dm_log = [], dm_fetched = [], dm_opened = [], dm_calls = []\<rparr>"

text \<open>Addresses on cdn.x are of the CDN, all others of some other origin.\<close>

definition sample_parse :: "string \<Rightarrow> url_parts option" where
  "sample_parse u = Some \<lparr>ur_protocol = ''https:'', ur_origin = take 13 u, ur_pathname = drop 13 u, ur_href = u\<rparr>"

definition sample_documents_env :: documents_env where
  "sample_documents_env = \<lparr>dn_parse = sample_parse,
     dn_storage = \<lparr>sg_cdnBaseUrl = ''https://cdn.x'', sg_bucket = ''b'', sg_prefix = ''sms/''\<rparr>,
     dn_s3 = (\<lambda>k. Inr (Some k)), dn_fetch = (\<lambda>u. Inr \<lparr>wa_status = 200, wa_body = Some u, wa_length = None\<rparr>),
     dn_review = \<lparr>rc_adminKey = [], rc_adminBaseUrl = []\<rparr>, dn_letters = (\<lambda>b r. Unreached), dn_iso = (\<lambda>t. []), dn_now = 0\<rparr>"

definition sample_principal :: principal where
  "sample_principal = \<lparr>sp_id = ''s1'', sp_email = [], sp_name = [], sp_roleId = [], sp_roleKey = [], sp_permissions = [],
     sp_sessionId = [], sp_sessionEpoch = 0, sp_ip = None, sp_userAgent = None, sp_impersonating = None\<rparr>"

lemma sample_file_source: "documentSource sample_parse (dn_storage sample_documents_env) ''https://cdn.x/f'' = Some (FromCdn ''https://cdn.x/f'')"
  by code_simp

lemma sample_read:
  "dm_fetched (snd (document_file sample_documents_env sample_principal ''r1'' ''d1'' Inline
     (sample_store [sample_document ''d1'' ''a.pdf'' ''https://cdn.x/f'']))) = [''https://cdn.x/f'']"
proof -
  have "resolveDocument ''r1'' ''d1'' (sample_store [sample_document ''d1'' ''a.pdf'' ''https://cdn.x/f''])
      = Inr (sample_review, sample_document ''d1'' ''a.pdf'' ''https://cdn.x/f'')"
    by (simp add: resolveDocument_def sample_store_def sample_review_def sample_document_def)
  moreover have "dc_fileUrl (sample_document ''d1'' ''a.pdf'' ''https://cdn.x/f'') = ''https://cdn.x/f''" "dn_parse sample_documents_env = sample_parse"
    by (simp_all add: sample_document_def sample_documents_env_def)
  ultimately show ?thesis
    by (simp add: document_file_def sample_file_source read_source_def split_beta split: sum.splits)
      (simp add: fetch_document_def sample_documents_env_def response_ok_def documents_log_def sample_store_def)
qed


lemma sample_found: "find_row (\<lambda>r. rv_id r = ''r1'') (dm_reviews (sample_store ds)) = Some sample_review"
  by (simp add: sample_store_def sample_review_def)

lemma sample_zip: "zip_documents sample_review (sample_store ds) = sort_key dc_createdAt (filter (\<lambda>d. dc_senderId d = ''app'') ds)"
  by (simp add: zip_documents_def sample_store_def sample_review_def)

theorem zip_complete_witness:
  "\<exists>headers e s'. streamZip sample_documents_env sample_principal ''r1'' (sample_store [sample_document ''d1'' ''a.pdf'' ''https://cdn.x/f''])
    = returns (headers, [e]) s' \<and> snd e = ''https://cdn.x/f'' \<and> length (dm_log s') = 1"
proof -
  let ?s = "sample_store [sample_document ''d1'' ''a.pdf'' ''https://cdn.x/f'']"
  have z: "zip_documents sample_review ?s = [sample_document ''d1'' ''a.pdf'' ''https://cdn.x/f'']"
    by (simp add: sample_zip sample_document_def)
  have "zip_content sample_documents_env (sample_document ''d1'' ''a.pdf'' ''https://cdn.x/f'') = ''https://cdn.x/f''"
    by (simp add: zip_content_def sample_documents_env_def sample_document_def response_ok_def)
  note c = this
  have "zip_documents sample_review ?s \<noteq> []" "dm_log ?s = []" by (simp_all add: z) (simp add: sample_store_def)
  with zip_complete [where env = sample_documents_env and actor = sample_principal, OF sample_found this(1)]
  obtain headers entries s' where e: "streamZip sample_documents_env sample_principal ''r1'' ?s = returns (headers, entries) s'"
    "map snd entries = map (zip_content sample_documents_env) (zip_documents sample_review ?s)" "length (dm_log s') = 1"
    by (metis list.size(3) One_nat_def)
  from e(2) c obtain x where "entries = [x]" "snd x = ''https://cdn.x/f''" unfolding z by (cases entries) auto
  with e show ?thesis by blast
qed

theorem zip_requests_refused_address_witness:
  "''http://10.0.0.1/x'' \<in> set (dm_fetched (snd (streamZip sample_documents_env sample_principal ''r1''
     (sample_store [sample_document ''d1'' ''a.pdf'' ''http://10.0.0.1/x'']))))"
proof -
  let ?d = "sample_document ''d1'' ''a.pdf'' ''http://10.0.0.1/x''"
  have d: "?d \<in> set (dm_documents (sample_store [?d]))" "dc_senderId ?d = rv_applicationId sample_review" "dc_fileUrl ?d = ''http://10.0.0.1/x''"
    "distinct (map dc_id (dm_documents (sample_store [?d])))"
    by (simp_all add: sample_store_def sample_document_def sample_review_def)
  have "documentSource (dn_parse sample_documents_env) (dn_storage sample_documents_env) ''http://10.0.0.1/x'' = None"
    by code_simp
  then show ?thesis
    using zip_requests_refused_address [OF sample_found d(1,2,4), of sample_documents_env sample_principal Inline] d(3) by simp
qed

theorem zip_paths_collide_witness:
  "\<exists>headers entries s'. streamZip sample_documents_env sample_principal ''r1''
     (sample_store [sample_document ''MTN'' ''a.pdf'' ''https://cdn.x/1'', sample_document ''AIRTEL'' ''a.pdf'' ''https://cdn.x/2'',
        sample_document ''GLO'' ''a(1).pdf'' ''https://cdn.x/3'']) = returns (headers, entries) s'
     \<and> fst (entries ! 1) = fst (entries ! 2)"
proof -
  let ?a = "sample_document ''MTN'' ''a.pdf'' ''https://cdn.x/1''" and ?b = "sample_document ''AIRTEL'' ''a.pdf'' ''https://cdn.x/2''"
    and ?c = "sample_document ''GLO'' ''a(1).pdf'' ''https://cdn.x/3''"
  have z: "zip_documents sample_review (sample_store [?a, ?b, ?c]) = [?a, ?b, ?c]"
    by (simp add: sample_zip sample_document_def)
  have p: "prefixName ''a.pdf'' 1 = ''a(1).pdf''" by code_simp
  have f: "\<exists>len s'. fetch_document sample_documents_env (dc_fileUrl d) (sample_store [?a, ?b, ?c]) = (Inr (zip_content sample_documents_env d, len), s')" for d
    by (simp add: fetch_document_def sample_documents_env_def response_ok_def zip_content_def)
  have "dc_type ?b = dc_type ?c" "dc_fileOriginalName ?a = dc_fileOriginalName ?b" "dc_fileOriginalName ?c = prefixName (dc_fileOriginalName ?b) 1"
    using p by (simp_all add: sample_document_def)
  from zip_paths_collide [OF sample_found z this, of sample_documents_env sample_principal] f show ?thesis by blast
qed

end
