(* ===== verification/Customer_List.thy ===== *)
theory Customer_List
  imports Risk Finance Masking
begin

text \<open>
  \<open>modules/customers/customers.service.ts\<close>, the customer list: the table with numbered pages, the
  totals above it, the search with a cursor, and the risk score.  An account carries its owner, its
  subscriptions with their plans, its billings and its sender-ID filings, as the queries join them.
  Decimal addition and division and the text of a Decimal are arguments.
\<close>

section \<open>Accounts\<close>

record owner_row =
  ow_id :: string
  ow_email :: string
  ow_displayName :: "string option"
  ow_emailVerified :: bool
  ow_country :: "string option"
  ow_city :: "string option"
  ow_region :: "string option"
  ow_lastLoginAt :: "millis option"

record plan_detail =
  pq_id :: string
  pq_name :: string
  pq_type :: string
  pq_channel :: string
  pq_basePrice :: rat
  pq_interval :: string
  pq_isFree :: bool
  pq_overageEnabled :: bool
  pq_monthlyQuota :: int

record holding =
  hd_id :: string
  hd_plan :: plan_detail
  hd_channel :: string
  hd_type :: string
  hd_status :: string
  hd_isTrial :: bool
  hd_usageCount :: int
  hd_createdAt :: millis
  hd_periodEnd :: millis

record account_billing =
  bl_id :: string
  bl_channel :: string
  bl_billingType :: string
  bl_product :: string

record usage_buffer =
  uf_channel :: string
  uf_daily :: int
  uf_monthly :: int
  uf_lastSyncedAt :: millis

record filing =
  fi_id :: string
  fi_senderId :: string
  fi_businessName :: string
  fi_cacRegNo :: string
  fi_status :: string
  fi_projectId :: string
  fi_createdAt :: millis

record project_card =
  pc_id :: string
  pc_name :: string
  pc_slug :: string
  pc_emailUsageCount :: int
  pc_apiUsageCount :: int
  pc_isDeleted :: bool
  pc_createdAt :: millis

record key_card =
  kc_id :: string
  kc_name :: string
  kc_keyPrefix :: string
  kc_permission :: string
  kc_usageCount :: int
  kc_isActive :: bool
  kc_isDeleted :: bool
  kc_projectId :: "string option"
  kc_lastUsedAt :: "millis option"
  kc_expiresAt :: "millis option"
  kc_createdAt :: millis

record customer_account =
  ka_id :: string
  ka_status :: string
  ka_country :: string
  ka_balance :: rat
  ka_billingAddress :: string
  ka_createdAt :: millis
  ka_welcomeBonusGrantedAt :: "millis option"
  ka_currentPeriodEnd :: "millis option"
  ka_owner :: owner_row
  ka_holdings :: "holding list"
  ka_billings :: "account_billing list"
  ka_buffers :: "usage_buffer list"
  ka_filings :: "filing list"
  ka_projects :: "project_card list"
  ka_keys :: "key_card list"

definition account_key :: "customer_account \<Rightarrow> cursor_key" where
  "account_key a = (ka_createdAt a, ka_id a)"

record decimal_ops =
  do_plus :: "rat \<Rightarrow> rat \<Rightarrow> rat"
  do_twelfth :: "rat \<Rightarrow> rat"
  do_text :: "rat \<Rightarrow> string"

section \<open>Risk\<close>

definition SEVERITY_WEIGHT :: "risk_severity \<Rightarrow> nat" where
  "SEVERITY_WEIGHT s = (case s of LOW \<Rightarrow> 10 | MEDIUM \<Rightarrow> 25 | HIGH \<Rightarrow> 45 | CRITICAL \<Rightarrow> 70)"

definition riskScore :: "risk_severity list \<Rightarrow> nat" where
  "riskScore severities = min 100 (foldl (\<lambda>n s. n + SEVERITY_WEIGHT s) 0 severities)"

datatype risk_level = Low_Risk | Medium_Risk | High_Risk

definition riskLevel :: "risk_severity list \<Rightarrow> risk_level" where
  "riskLevel severities =
     (let score = riskScore severities
      in if 45 \<le> score then High_Risk else if 20 \<le> score then Medium_Risk else Low_Risk)"

definition open_flags :: "risk_flag list \<Rightarrow> string \<Rightarrow> risk_severity list" where
  "open_flags flags account =
     map fg_severity (filter (\<lambda>f. fg_accountId f = account \<and> fg_resolvedAt f = None) flags)"

definition flagged_ids :: "nat \<Rightarrow> risk_flag list \<Rightarrow> string list" where
  "flagged_ids n flags = take n (js_set (map fg_accountId (filter (\<lambda>f. fg_resolvedAt f = None) flags)))"

section \<open>Products\<close>

definition PAYG :: string where "PAYG = ''Pay as you go''"

definition billedOnly :: "holding list \<Rightarrow> account_billing list \<Rightarrow> account_billing list" where
  "billedOnly subs billings = filter (\<lambda>b. \<not> js_includes (map hd_channel subs) (bl_channel b)) billings"

definition active_holdings :: "customer_account \<Rightarrow> holding list" where
  "active_holdings a = sort_key hd_createdAt (filter (\<lambda>h. hd_status h = ''ACTIVE'') (ka_holdings a))"

definition paying_holding :: "holding \<Rightarrow> bool" where
  "paying_holding h \<longleftrightarrow> hd_status h = ''ACTIVE'' \<and> \<not> pq_isFree (hd_plan h) \<and> pq_basePrice (hd_plan h) > 0"

definition holdings_mrr :: "decimal_ops \<Rightarrow> holding list \<Rightarrow> rat" where
  "holdings_mrr ops subs = foldl (\<lambda>total h. if pq_isFree (hd_plan h) then total
     else do_plus ops total (if pq_interval (hd_plan h) = ''YEARLY'' then do_twelfth ops (pq_basePrice (hd_plan h))
        else pq_basePrice (hd_plan h))) 0 subs"

record product_line =
  py_channel :: string
  py_type :: "string option"
  py_plan :: string
  py_isFree :: bool
  py_isTrial :: bool

definition table_products :: "customer_account \<Rightarrow> product_line list" where
  "table_products a =
     map (\<lambda>h. \<lparr>py_channel = hd_channel h, py_type = Some (pq_type (hd_plan h)), py_plan = pq_name (hd_plan h),
        py_isFree = pq_isFree (hd_plan h), py_isTrial = hd_isTrial h\<rparr>) (active_holdings a)
     @ map (\<lambda>b. \<lparr>py_channel = bl_channel b, py_type = None, py_plan = PAYG, py_isFree = False, py_isTrial = False\<rparr>)
         (billedOnly (active_holdings a) (ka_billings a))"

section \<open>The table\<close>

record table_query =
  tq_page :: "nat option"
  tq_pageSize :: "nat option"
  tq_q :: "string option"
  tq_status :: "string option"
  tq_segment :: "string option"
  tq_planId :: "string option"
  tq_country :: "string option"
  tq_channel :: "string option"

definition contains_insensitive :: "string \<Rightarrow> string \<Rightarrow> bool" where
  "contains_insensitive t q = contains_str (toLowerCase t) (toLowerCase q)"

definition owner_matches :: "string \<Rightarrow> customer_account \<Rightarrow> bool" where
  "owner_matches q a \<longleftrightarrow> ka_id a = q \<or> contains_insensitive (ow_email (ka_owner a)) q
     \<or> (case ow_displayName (ka_owner a) of None \<Rightarrow> False | Some n \<Rightarrow> contains_insensitive n q)"

definition in_segment :: "risk_flag list \<Rightarrow> string option \<Rightarrow> customer_account \<Rightarrow> bool" where
  "in_segment flags segment a =
     (if segment = Some ''active'' then ka_status a = ''ACTIVE''
      else if segment = Some ''suspended'' then ka_status a = ''SUSPENDED''
      else if segment = Some ''paying'' then list_ex paying_holding (ka_holdings a)
      else if segment = Some ''free'' then \<not> list_ex paying_holding (ka_holdings a)
      else if segment = Some ''flagged'' then js_includes (flagged_ids 5000 flags) (ka_id a)
      else True)"

definition table_search :: "string \<Rightarrow> customer_account \<Rightarrow> bool" where
  "table_search q a \<longleftrightarrow> q = [] \<or> owner_matches q a
     \<or> list_ex (\<lambda>f. contains_insensitive (fi_businessName f) q) (ka_filings a)
     \<or> list_ex (\<lambda>f. toLowerCase (fi_senderId f) = toLowerCase q) (ka_filings a)"

definition holds :: "(holding \<Rightarrow> bool) \<Rightarrow> customer_account \<Rightarrow> bool" where
  "holds p a = list_ex (\<lambda>h. p h \<and> hd_status h = ''ACTIVE'') (ka_holdings a)"

definition table_where :: "risk_flag list \<Rightarrow> table_query \<Rightarrow> string \<Rightarrow> customer_account \<Rightarrow> bool" where
  "table_where flags query q a \<longleftrightarrow> wants (tq_status query) (ka_status a) \<and> wants (tq_country query) (ka_country a)
     \<and> (truthy (tq_planId query) \<longrightarrow> holds (\<lambda>h. Some (pq_id (hd_plan h)) = tq_planId query) a)
     \<and> (truthy (tq_channel query) \<longrightarrow> holds (\<lambda>h. Some (hd_channel h) = tq_channel query) a)
     \<and> in_segment flags (tq_segment query) a \<and> table_search q a"

record table_row =
  ct_id :: string
  ct_name :: "string option"
  ct_email :: "string option"
  ct_plan :: "string option"
  ct_products :: "product_line list"
  ct_channels :: "string list"
  ct_mrr :: string
  ct_wallet :: string
  ct_status :: string
  ct_isTrial :: bool
  ct_openRiskFlags :: nat
  ct_risk :: risk_level
  ct_lastActiveAt :: "millis option"
  ct_createdAt :: millis

definition latest_filing :: "customer_account \<Rightarrow> filing option" where
  "latest_filing a = (case rev (sort_key fi_createdAt (ka_filings a)) of [] \<Rightarrow> None | f # fs \<Rightarrow> Some f)"

definition table_name :: "customer_account \<Rightarrow> string option" where
  "table_name a = (case latest_filing a of Some f \<Rightarrow> Some (fi_businessName f)
     | None \<Rightarrow> (case ow_displayName (ka_owner a) of Some n \<Rightarrow> Some n | None \<Rightarrow> maskEmail (Some (ow_email (ka_owner a)))))"

definition table_row_of :: "decimal_ops \<Rightarrow> risk_flag list \<Rightarrow> customer_account \<Rightarrow> table_row" where
  "table_row_of ops flags a =
     (let subs = active_holdings a; opened = open_flags flags (ka_id a)
      in \<lparr>ct_id = ka_id a, ct_name = table_name a, ct_email = maskEmail (Some (ow_email (ka_owner a))),
          ct_plan = (case subs of [] \<Rightarrow> None | h # hs \<Rightarrow> Some (pq_name (hd_plan h))),
          ct_products = table_products a, ct_channels = map bl_channel (ka_billings a),
          ct_mrr = do_text ops (holdings_mrr ops subs), ct_wallet = do_text ops (ka_balance a),
          ct_status = ka_status a, ct_isTrial = list_ex hd_isTrial subs,
          ct_openRiskFlags = length opened, ct_risk = riskLevel opened,
          ct_lastActiveAt = ow_lastLoginAt (ka_owner a), ct_createdAt = ka_createdAt a\<rparr>)"

record table_page =
  tg_data :: "table_row list"
  tg_page :: nat
  tg_pageSize :: nat
  tg_total :: nat
  tg_totalPages :: nat

definition loadTable ::
  "decimal_ops \<Rightarrow> risk_flag list \<Rightarrow> customer_account list \<Rightarrow> nat \<Rightarrow> nat \<Rightarrow> string \<Rightarrow> table_query \<Rightarrow> table_page" where
  "loadTable ops flags accounts page pageSize q query =
     (let found = filter (table_where flags query q) accounts; total = length found
      in \<lparr>tg_data = map (table_row_of ops flags) (take pageSize (drop ((page - 1) * pageSize) (newest_first account_key found))),
          tg_page = page, tg_pageSize = pageSize, tg_total = total,
          tg_totalPages = max 1 ((total + pageSize - 1) div pageSize)\<rparr>)"

definition customers_table :: "decimal_ops \<Rightarrow> risk_flag list \<Rightarrow> customer_account list \<Rightarrow> table_query \<Rightarrow> table_page" where
  "customers_table ops flags accounts query =
     loadTable ops flags accounts (case tq_page query of None \<Rightarrow> 1 | Some p \<Rightarrow> p)
       (case tq_pageSize query of None \<Rightarrow> 6 | Some n \<Rightarrow> n)
       (case tq_q query of None \<Rightarrow> [] | Some t \<Rightarrow> trim t) query"

section \<open>The totals\<close>

record customer_summary =
  sy_total :: nat
  sy_newThisMonth :: nat
  sy_active :: nat
  sy_suspended :: nat
  sy_paying :: nat
  sy_free :: nat
  sy_flagged :: nat
  sy_payingPct :: rat
  sy_mrr :: rat
  sy_prepaidWallets :: rat
  sy_walletCount :: nat

definition counted_account :: "customer_account \<Rightarrow> bool" where
  "counted_account a \<longleftrightarrow> ka_status a \<noteq> ''CANCELED'' \<and> ka_status a \<noteq> ''BANNED''"

text \<open>\<open>monthStart\<close>: the first instant of the clock's UTC month.\<close>

definition loadSummary ::
  "(rat \<Rightarrow> nat \<Rightarrow> rat) \<Rightarrow> millis \<Rightarrow> risk_flag list \<Rightarrow> customer_account list \<Rightarrow> customer_summary" where
  "loadSummary qdiv monthStart flags accounts =
     (let counted = filter counted_account accounts; total = length counted;
          paying = count_where (\<lambda>a. list_ex paying_holding (ka_holdings a)) counted
      in \<lparr>sy_total = total,
          sy_newThisMonth = count_where (\<lambda>a. monthStart \<le> ka_createdAt a) counted,
          sy_active = count_where (\<lambda>a. ka_status a = ''ACTIVE'') counted,
          sy_suspended = count_where (\<lambda>a. ka_status a = ''SUSPENDED'') counted,
          sy_paying = paying, sy_free = total - paying, sy_flagged = length (flagged_ids 5000 flags),
          sy_payingPct = (if total = 0 then 0 else fl (of_int (js_round (fl (fl (of_nat paying / of_nat total) * 1000))) / 10)),
          sy_mrr = (\<Sum>h \<leftarrow> filter paying_holding (concat (map ka_holdings accounts)).
             if pq_interval (hd_plan h) = ''YEARLY'' then qdiv (pq_basePrice (hd_plan h)) 12 else pq_basePrice (hd_plan h)),
          sy_prepaidWallets = (\<Sum>a \<leftarrow> filter (\<lambda>a. ka_balance a > 0) counted. ka_balance a),
          sy_walletCount = total\<rparr>)"

section \<open>The search\<close>

record search_query =
  sq_limit :: "nat option"
  sq_q :: "string option"
  sq_status :: "string option"
  sq_planId :: "string option"
  sq_country :: "string option"
  sq_flaggedOnly :: bool

record search_row =
  sw_id :: string
  sw_businessName :: "string option"
  sw_ownerName :: "string option"
  sw_email :: "string option"
  sw_status :: string
  sw_creditBalance :: rat
  sw_country :: string
  sw_plan :: "(string \<times> string) option"
  sw_openRiskFlags :: nat
  sw_createdAt :: millis

text \<open>The accounts a key prefix or a filing leads to: at most two hundred rows of each.\<close>

definition ids_from_relations :: "customer_account list \<Rightarrow> string \<Rightarrow> string list" where
  "ids_from_relations accounts q =
     js_set (take 200 (concat (map (\<lambda>a. map (\<lambda>k. ka_id a) (filter (\<lambda>k. startsWith (kc_keyPrefix k) q) (ka_keys a))) accounts))
       @ take 200 (concat (map (\<lambda>a. map (\<lambda>f. ka_id a)
           (filter (\<lambda>f. toLowerCase (fi_senderId f) = toLowerCase q \<or> contains_insensitive (fi_businessName f) q) (ka_filings a))) accounts)))"

definition search_where :: "risk_flag list \<Rightarrow> customer_account list \<Rightarrow> search_query \<Rightarrow> customer_account \<Rightarrow> bool" where
  "search_where flags accounts query a \<longleftrightarrow>
     (let q = (case sq_q query of None \<Rightarrow> [] | Some t \<Rightarrow> trim t)
      in wants (sq_status query) (ka_status a) \<and> wants (sq_country query) (ka_country a)
       \<and> (sq_flaggedOnly query \<longrightarrow> js_includes (flagged_ids 1000 flags) (ka_id a))
       \<and> (truthy (sq_planId query) \<longrightarrow> holds (\<lambda>h. Some (pq_id (hd_plan h)) = sq_planId query) a)
       \<and> (q \<noteq> [] \<longrightarrow> owner_matches q a \<or> js_includes (ids_from_relations accounts q) (ka_id a)))"

definition search_row_of :: "risk_flag list \<Rightarrow> customer_account \<Rightarrow> search_row" where
  "search_row_of flags a =
     \<lparr>sw_id = ka_id a, sw_businessName = map_option fi_businessName (latest_filing a),
      sw_ownerName = ow_displayName (ka_owner a), sw_email = maskEmail (Some (ow_email (ka_owner a))),
      sw_status = ka_status a, sw_creditBalance = ka_balance a, sw_country = ka_country a,
      sw_plan = map_option (\<lambda>h. (pq_id (hd_plan h), pq_name (hd_plan h))) (find_row (\<lambda>h. hd_status h = ''ACTIVE'') (ka_holdings a)),
      sw_openRiskFlags = length (open_flags flags (ka_id a)), sw_createdAt = ka_createdAt a\<rparr>"

definition customer_search ::
  "risk_flag list \<Rightarrow> customer_account list \<Rightarrow> search_query \<Rightarrow> cursor_key option \<Rightarrow> (search_row, cursor_key) page" where
  "customer_search flags accounts query cursor =
     (let limit = (case sq_limit query of None \<Rightarrow> 50 | Some n \<Rightarrow> n) in
      if sq_flaggedOnly query \<and> flagged_ids 1000 flags = [] then \<lparr>pg_data = [], pg_next = None, pg_hasMore = False\<rparr>
      else map_page (search_row_of flags)
        (buildPage account_key (findMany_desc account_key cursor (limit + 1)
           (filter (search_where flags accounts query) accounts)) limit))"

end
