(* ===== verification/Customer_View.thy ===== *)
theory Customer_View
  imports Customer_List
begin

text \<open>
  \<open>modules/customers/customers.service.ts\<close>, one customer: the overview in one call, the ledger, the
  usage, the requests, the reveal of personal data and the notes.
\<close>

section \<open>State\<close>

record activity_row =
  av_id :: string
  av_requestId :: string
  av_keyPrefix :: "string option"
  av_projectId :: "string option"
  av_ip :: "string option"
  av_country :: "string option"
  av_city :: "string option"
  av_region :: "string option"
  av_timezone :: "string option"
  av_endpoint :: string
  av_method :: string
  av_statusCode :: int
  av_status :: string
  av_message :: string
  av_service :: string
  av_createdAt :: millis

record customer_note =
  ns_id :: string
  ns_accountId :: string
  ns_authorId :: string
  ns_body :: string
  ns_pinned :: bool
  ns_createdAt :: millis

record customers_db =
  kd_accounts :: "customer_account list"
  kd_tabs :: "tab_transaction list"
  kd_activity :: "activity_row list"
  kd_flags :: "risk_flag list"
  kd_notes :: "customer_note list"
  kd_tags :: "(string \<times> string) list"
  kd_signins :: "signin_row list"
  kd_rollups :: rollup_store
  kd_reviews :: "review list"
  kd_staff :: "staff_row list"
  kd_log :: "audit_row list"

definition find_customer :: "string \<Rightarrow> customers_db \<Rightarrow> customer_account option" where
  "find_customer accountId db = find_row (\<lambda>a. ka_id a = accountId) (kd_accounts db)"

text \<open>A note with its author's id and name.\<close>

type_synonym note_view = "customer_note \<times> string \<times> string option"

definition note_view_of :: "staff_row list \<Rightarrow> customer_note \<Rightarrow> note_view" where
  "note_view_of staff n = (n, ns_authorId n, map_option st_name (find_row (\<lambda>t. st_id t = ns_authorId n) staff))"

section \<open>Customer 360\<close>

record customer_overview =
  co_mrr :: string
  co_paidPlans :: nat
  co_messages30d :: rat
  co_messagesAllTime :: rat
  co_deliveredPct :: "rat option"
  co_lifetimeSpend :: string
  co_lastTopUpAt :: "millis option"
  co_lastTopUp :: "string option"
  co_riskScore :: nat
  co_riskLevel :: risk_level

record customer_product =
  cp_id :: string
  cp_line :: product_line
  cp_price :: string
  cp_interval :: string
  cp_overageEnabled :: bool
  cp_monthlyQuota :: int
  cp_used :: int
  cp_currentPeriodEnd :: "millis option"

record customer_profile =
  cf_id :: string
  cf_businessName :: "string option"
  cf_ownerName :: "string option"
  cf_email :: "string option"
  cf_emailVerified :: bool
  cf_status :: string
  cf_country :: string
  cf_billingAddress :: string
  cf_createdAt :: millis
  cf_lastLoginAt :: "millis option"

record shown_key =
  sk_id :: string
  sk_name :: string
  sk_prefix :: "string option"
  sk_permission :: string
  sk_usageCount :: int
  sk_isActive :: bool
  sk_projectId :: "string option"
  sk_lastUsedAt :: "millis option"
  sk_expiresAt :: "millis option"

record customer_view =
  cw_overview :: customer_overview
  cw_products :: "customer_product list"
  cw_subscriptions :: "(string \<times> string \<times> string \<times> string \<times> string \<times> millis) list"
  cw_profile :: customer_profile
  cw_creditBalance :: rat
  cw_welcomeBonusGrantedAt :: "millis option"
  cw_currentPeriodEnd :: "millis option"
  cw_subscription :: "holding option"
  cw_billing :: "(string \<times> string \<times> string) list"
  cw_quotaUsage :: "usage_buffer list"
  cw_projects :: "(string \<times> string \<times> string \<times> int \<times> int \<times> millis) list"
  cw_users :: "(string \<times> string option \<times> string option \<times> millis option \<times> string) list"
  cw_apiKeys :: "shown_key list"
  cw_senderIds :: "(filing \<times> string option \<times> millis option) list"
  cw_usageByChannel :: "(string \<times> int \<times> int \<times> int \<times> rat) list"
  cw_signInLocations :: "(millis \<times> string option \<times> string option \<times> string option \<times> string option \<times> string option) list"
  cw_riskFlags :: "risk_flag list"
  cw_notes :: "note_view list"
  cw_tags :: "string list"

definition last_top_up :: "string \<Rightarrow> customers_db \<Rightarrow> tab_transaction option" where
  "last_top_up accountId db =
     (case rev (sort_key tb_createdAt (filter (\<lambda>t. tb_account t = accountId \<and> tb_type t = ''CREDIT'') (kd_tabs db))) of
        [] \<Rightarrow> None | t # ts \<Rightarrow> Some t)"

definition account_days :: "string \<Rightarrow> customers_db \<Rightarrow> usage_rollup list" where
  "account_days accountId db = filter (\<lambda>r. ub_account r = accountId \<and> ub_hour r = - 1) (rs_usage (kd_rollups db))"

definition account_open_flags :: "string \<Rightarrow> customers_db \<Rightarrow> risk_flag list" where
  "account_open_flags accountId db =
     rev (sort_key fg_createdAt (filter (\<lambda>f. fg_accountId f = accountId \<and> fg_resolvedAt f = None) (kd_flags db)))"

definition customer_overview_of :: "decimal_ops \<Rightarrow> millis \<Rightarrow> customer_account \<Rightarrow> customers_db \<Rightarrow> customer_overview" where
  "customer_overview_of ops now a db =
     (let days = account_days (ka_id a) db;
          recent = filter (\<lambda>r. lagosDateOnly (now - 30 * 24 * 3600000) \<le> ub_date r) days;
          attempted30 = fl (of_int (\<Sum>r \<leftarrow> recent. ub_attempted r));
          succeeded30 = fl (of_int (\<Sum>r \<leftarrow> recent. ub_succeeded r));
          severities = map fg_severity (account_open_flags (ka_id a) db)
      in \<lparr>co_mrr = do_text ops (holdings_mrr ops (active_holdings a)),
          co_paidPlans = count_where (\<lambda>h. \<not> pq_isFree (hd_plan h)) (active_holdings a),
          co_messages30d = attempted30,
          co_messagesAllTime = fl (of_int (\<Sum>r \<leftarrow> days. ub_attempted r)),
          co_deliveredPct = (if attempted30 = 0 then None
             else Some (fl (of_int (js_round (fl (fl (succeeded30 / attempted30) * 1000))) / 10))),
          co_lifetimeSpend = do_text ops (sum_of ub_revenue days),
          co_lastTopUpAt = map_option tb_createdAt (last_top_up (ka_id a) db),
          co_lastTopUp = map_option (\<lambda>t. do_text ops (tb_charge t)) (last_top_up (ka_id a) db),
          co_riskScore = riskScore severities, co_riskLevel = riskLevel severities\<rparr>)"

definition monthly_count :: "customer_account \<Rightarrow> string \<Rightarrow> int option" where
  "monthly_count a channel = map_option uf_monthly (find_row (\<lambda>u. uf_channel u = channel) (rev (ka_buffers a)))"

definition customer_products :: "decimal_ops \<Rightarrow> customer_account \<Rightarrow> customer_product list" where
  "customer_products ops a =
     map (\<lambda>h. \<lparr>cp_id = hd_id h,
         cp_line = \<lparr>py_channel = hd_channel h, py_type = Some (pq_type (hd_plan h)), py_plan = pq_name (hd_plan h),
           py_isFree = pq_isFree (hd_plan h), py_isTrial = hd_isTrial h\<rparr>,
         cp_price = do_text ops (pq_basePrice (hd_plan h)), cp_interval = pq_interval (hd_plan h),
         cp_overageEnabled = pq_overageEnabled (hd_plan h), cp_monthlyQuota = pq_monthlyQuota (hd_plan h),
         cp_used = (case monthly_count a (hd_channel h) of None \<Rightarrow> hd_usageCount h | Some n \<Rightarrow> n),
         cp_currentPeriodEnd = Some (hd_periodEnd h)\<rparr>) (active_holdings a)
     @ map (\<lambda>b. \<lparr>cp_id = bl_id b,
         cp_line = \<lparr>py_channel = bl_channel b, py_type = None, py_plan = PAYG, py_isFree = False, py_isTrial = False\<rparr>,
         cp_price = ''0'', cp_interval = ''MONTHLY'', cp_overageEnabled = True, cp_monthlyQuota = 0,
         cp_used = (case monthly_count a (bl_channel b) of None \<Rightarrow> 0 | Some n \<Rightarrow> n),
         cp_currentPeriodEnd = None\<rparr>) (billedOnly (active_holdings a) (ka_billings a))"

text \<open>The account's filings, newest first, at most twenty.\<close>

definition recent_filings :: "customer_account \<Rightarrow> filing list" where
  "recent_filings a = take 20 (rev (sort_key fi_createdAt (ka_filings a)))"

definition customer_profile_of :: "customer_account \<Rightarrow> customer_profile" where
  "customer_profile_of a =
     \<lparr>cf_id = ka_id a, cf_businessName = map_option fi_businessName (latest_filing a),
      cf_ownerName = ow_displayName (ka_owner a), cf_email = maskEmail (Some (ow_email (ka_owner a))),
      cf_emailVerified = ow_emailVerified (ka_owner a), cf_status = ka_status a, cf_country = ka_country a,
      cf_billingAddress = ka_billingAddress a, cf_createdAt = ka_createdAt a, cf_lastLoginAt = ow_lastLoginAt (ka_owner a)\<rparr>"

definition shown_keys :: "customer_account \<Rightarrow> shown_key list" where
  "shown_keys a =
     map (\<lambda>k. \<lparr>sk_id = kc_id k, sk_name = kc_name k, sk_prefix = maskApiKeyPrefix (Some (kc_keyPrefix k)),
        sk_permission = kc_permission k, sk_usageCount = kc_usageCount k, sk_isActive = kc_isActive k,
        sk_projectId = kc_projectId k, sk_lastUsedAt = kc_lastUsedAt k, sk_expiresAt = kc_expiresAt k\<rparr>)
       (take 20 (rev (sort_key kc_createdAt (filter (\<lambda>k. \<not> kc_isDeleted k) (ka_keys a)))))"

text \<open>The review of a filing among the account's twenty latest; a later one in the list wins.\<close>

definition review_of_filing :: "string \<Rightarrow> customers_db \<Rightarrow> filing \<Rightarrow> review option" where
  "review_of_filing accountId db f =
     find_row (\<lambda>r. rv_applicationId r = fi_id f)
       (rev (take 20 (rev (sort_key rv_submittedAt (filter (\<lambda>r. rv_accountId r = accountId) (kd_reviews db))))))"

definition signin_locations :: "string \<Rightarrow> customers_db
     \<Rightarrow> (millis \<times> string option \<times> string option \<times> string option \<times> string option \<times> string option) list" where
  "signin_locations accountId db =
     map (\<lambda>r. (sg_occurredAt r, gl_country (sg_location r), gl_city (sg_location r), maskIp (sg_ip r),
          gl_latitude (sg_location r), gl_longitude (sg_location r)))
       (take 10 (rev (sort_key sg_occurredAt (filter (\<lambda>r. sg_accountId r = Some accountId) (kd_signins db)))))"

definition first_notes :: "string \<Rightarrow> customers_db \<Rightarrow> note_view list" where
  "first_notes accountId db =
     map (note_view_of (kd_staff db))
       (take 20 (rev (sort_key (\<lambda>n. (ns_pinned n, ns_createdAt n)) (filter (\<lambda>n. ns_accountId n = accountId) (kd_notes db)))))"

definition get_customer :: "decimal_ops \<Rightarrow> millis \<Rightarrow> string \<Rightarrow> customers_db \<Rightarrow> customer_view result" where
  "get_customer ops now accountId db =
     (case find_customer accountId db of
        None \<Rightarrow> Inl (NotFound ''Account not found'')
      | Some a \<Rightarrow> Inr
          \<lparr>cw_overview = customer_overview_of ops now a db,
           cw_products = customer_products ops a,
           cw_subscriptions = map (\<lambda>h. (hd_id h, hd_status h, pq_id (hd_plan h), pq_name (hd_plan h), pq_channel (hd_plan h), hd_periodEnd h))
             (active_holdings a),
           cw_profile = customer_profile_of a,
           cw_creditBalance = ka_balance a,
           cw_welcomeBonusGrantedAt = ka_welcomeBonusGrantedAt a,
           cw_currentPeriodEnd = ka_currentPeriodEnd a,
           cw_subscription = (case rev (sort_key hd_createdAt (ka_holdings a)) of [] \<Rightarrow> None | h # hs \<Rightarrow> Some h),
           cw_billing = map (\<lambda>b. (bl_channel b, bl_billingType b, bl_product b)) (ka_billings a),
           cw_quotaUsage = ka_buffers a,
           cw_projects = map (\<lambda>p. (pc_id p, pc_name p, pc_slug p, pc_emailUsageCount p, pc_apiUsageCount p, pc_createdAt p))
             (take 20 (sort_key pc_createdAt (filter (\<lambda>p. \<not> pc_isDeleted p) (ka_projects a)))),
           cw_users = [(ow_id (ka_owner a), ow_displayName (ka_owner a), maskEmail (Some (ow_email (ka_owner a))),
             ow_lastLoginAt (ka_owner a), ''OWNER'')],
           cw_apiKeys = shown_keys a,
           cw_senderIds = map (\<lambda>f. (f, map_option rv_id (review_of_filing accountId db f), map_option rv_slaDueAt (review_of_filing accountId db f)))
             (recent_filings a),
           cw_usageByChannel = map (\<lambda>(channel, rs). (channel, \<Sum>r \<leftarrow> rs. ub_attempted r, \<Sum>r \<leftarrow> rs. ub_succeeded r,
                \<Sum>r \<leftarrow> rs. ub_failed r, sum_of ub_revenue rs))
             (group_rows ub_channel (account_days accountId db)),
           cw_signInLocations = signin_locations accountId db,
           cw_riskFlags = account_open_flags accountId db,
           cw_notes = first_notes accountId db,
           cw_tags = map snd (filter (\<lambda>(i, t). i = accountId) (kd_tags db))\<rparr>)"

section \<open>Ledger, usage and requests\<close>

record ledger_query =
  lq_limit :: "nat option"
  lq_from :: "string option"
  lq_to :: "string option"
  lq_type :: "string option"

definition tab_key :: "tab_transaction \<Rightarrow> cursor_key" where
  "tab_key t = (tb_createdAt t, tb_id t)"

definition ledger_page ::
  "(string \<Rightarrow> int option) \<Rightarrow> millis \<Rightarrow> string \<Rightarrow> ledger_query \<Rightarrow> cursor_key option \<Rightarrow> customers_db \<Rightarrow> (tab_transaction, cursor_key) page result" where
  "ledger_page parse now accountId query cursor db =
     (let limit = (case lq_limit query of None \<Rightarrow> 50 | Some n \<Rightarrow> n) in
      case resolveRange parse now (lq_from query) (lq_to query) 90 of
        Inl e \<Rightarrow> Inl e
      | Inr (start, finish) \<Rightarrow>
          Inr (buildPage tab_key (findMany_desc tab_key cursor (limit + 1)
            (filter (\<lambda>t. tb_account t = accountId \<and> start \<le> tb_createdAt t \<and> tb_createdAt t \<le> finish \<and> wants (lq_type query) (tb_type t))
              (kd_tabs db))) limit))"

record usage_point =
  up_date :: millis
  up_channel :: string
  up_attempted :: int
  up_succeeded :: int
  up_failed :: int
  up_units :: int
  up_creditsSpent :: rat

definition customer_usage ::
  "(string \<Rightarrow> int option) \<Rightarrow> millis \<Rightarrow> string \<Rightarrow> string option \<Rightarrow> string option \<Rightarrow> string option \<Rightarrow> customers_db \<Rightarrow> usage_point list result" where
  "customer_usage parse now accountId from to_day channel db =
     (case resolveRange parse now from to_day 30 of
        Inl e \<Rightarrow> Inl e
      | Inr (start, finish) \<Rightarrow>
          Inr (map (\<lambda>((date, ch), rs). \<lparr>up_date = date, up_channel = ch, up_attempted = (\<Sum>r \<leftarrow> rs. ub_attempted r),
              up_succeeded = (\<Sum>r \<leftarrow> rs. ub_succeeded r), up_failed = (\<Sum>r \<leftarrow> rs. ub_failed r),
              up_units = (\<Sum>r \<leftarrow> rs. ub_units r), up_creditsSpent = sum_of ub_revenue rs\<rparr>)
            (sort_key (\<lambda>((date, ch), rs). date)
              (group_rows (\<lambda>r. (ub_date r, ub_channel r))
                (filter (\<lambda>r. date_in start finish (ub_date r) \<and> wants channel (ub_channel r)) (account_days accountId db))))))"

definition account_prefixes :: "string \<Rightarrow> customers_db \<Rightarrow> string list" where
  "account_prefixes accountId db =
     concat (map (\<lambda>a. if ka_id a = accountId then map kc_keyPrefix (ka_keys a) else []) (kd_accounts db))"

definition account_activity :: "string \<Rightarrow> customers_db \<Rightarrow> activity_row list" where
  "account_activity accountId db =
     filter (\<lambda>r. case av_keyPrefix r of None \<Rightarrow> False | Some p \<Rightarrow> js_includes (account_prefixes accountId db) p) (kd_activity db)"

text \<open>A shown request carries the address masked, or raw for those who may see it.\<close>

definition customer_requests ::
  "(string \<Rightarrow> int option) \<Rightarrow> millis \<Rightarrow> string \<Rightarrow> nat option \<Rightarrow> string option \<Rightarrow> string option \<Rightarrow> bool \<Rightarrow> customers_db
     \<Rightarrow> (activity_row, cursor_key) page result" where
  "customer_requests parse now accountId limit_opt from to_day canSeeRawIp db =
     (let limit = (case limit_opt of None \<Rightarrow> 50 | Some n \<Rightarrow> n) in
      case resolveRange parse now from to_day 7 of
        Inl e \<Rightarrow> Inl e
      | Inr (start, finish) \<Rightarrow>
          if account_prefixes accountId db = [] then Inr \<lparr>pg_data = [], pg_next = None, pg_hasMore = False\<rparr>
          else (let rows = take limit (rev (sort_key av_createdAt
              (filter (\<lambda>r. start \<le> av_createdAt r \<and> av_createdAt r \<le> finish) (account_activity accountId db))))
            in Inr \<lparr>pg_data = map (\<lambda>r. if canSeeRawIp then r else r\<lparr>av_ip := maskIp (av_ip r)\<rparr>) rows,
                 pg_next = None, pg_hasMore = (length rows = limit)\<rparr>))"

section \<open>Personal data\<close>

datatype revealed =
    RevEmail string
  | RevUsers "string \<times> string \<times> string option \<times> string option \<times> string option \<times> string option"
  | RevIps "(string option \<times> millis \<times> string option \<times> string option) list"
  | RevPhone
  | RevKyc

definition owner_details :: "owner_row \<Rightarrow> string \<times> string \<times> string option \<times> string option \<times> string option \<times> string option" where
  "owner_details w = (ow_id w, ow_email w, ow_displayName w, ow_country w, ow_city w, ow_region w)"

definition recent_ips :: "string \<Rightarrow> customers_db \<Rightarrow> (string option \<times> millis \<times> string option \<times> string option) list" where
  "recent_ips accountId db =
     map (\<lambda>r. (av_ip r, av_createdAt r, av_country r, av_city r)) (take 20 (rev (sort_key av_createdAt (account_activity accountId db))))"

definition revealed_fields :: "string list \<Rightarrow> customer_account \<Rightarrow> customers_db \<Rightarrow> revealed list" where
  "revealed_fields wanted a db =
     (if js_includes wanted ''email'' then [RevEmail (ow_email (ka_owner a))] else [])
     @ (if js_includes wanted ''users'' then [RevUsers (owner_details (ka_owner a))] else [])
     @ (if js_includes wanted ''ip'' then [RevIps (recent_ips (ka_id a) db)] else [])
     @ (if js_includes wanted ''phone'' then [RevPhone] else [])
     @ (if js_includes wanted ''kyc'' then [RevKyc] else [])"

definition revealPii ::
  "principal \<Rightarrow> string \<Rightarrow> string list \<Rightarrow> string \<Rightarrow> customers_db \<Rightarrow> (customers_db, revealed list) outcome" where
  "revealPii actor accountId wanted reason db =
     (case find_customer accountId db of
        None \<Rightarrow> throws (NotFound ''Account not found'') db
      | Some a \<Rightarrow>
          returns (revealed_fields wanted a db)
            (db\<lparr>kd_log := audit_record (staff_entry actor ''pii.reveal'' ''account'' accountId (Some reason) JNull JNull
               (JObj [(''fields'', jstrs wanted)])) (kd_log db)\<rparr>))"

section \<open>Notes\<close>

definition note_key :: "customer_note \<Rightarrow> cursor_key" where
  "note_key n = (ns_createdAt n, ns_id n)"

definition addNote ::
  "principal \<Rightarrow> millis \<Rightarrow> string \<Rightarrow> string \<Rightarrow> string \<Rightarrow> bool \<Rightarrow> customers_db \<Rightarrow> (customers_db, note_view) outcome" where
  "addNote actor now newId accountId body pinned db =
     (let n = \<lparr>ns_id = newId, ns_accountId = accountId, ns_authorId = sp_id actor, ns_body = body, ns_pinned = pinned, ns_createdAt = now\<rparr>
      in returns (note_view_of (kd_staff db) n)
           (db\<lparr>kd_notes := kd_notes db @ [n],
               kd_log := audit_record (staff_entry actor ''customers.note_added'' ''account'' accountId None JNull
                 (JObj [(''noteId'', JStr newId)]) JNull) (kd_log db)\<rparr>))"

definition listNotes ::
  "string \<Rightarrow> nat option \<Rightarrow> cursor_key option \<Rightarrow> customers_db \<Rightarrow> (note_view, cursor_key) page" where
  "listNotes accountId limit_opt cursor db =
     (let limit = (case limit_opt of None \<Rightarrow> 50 | Some n \<Rightarrow> n)
      in map_page (note_view_of (kd_staff db))
           (buildPage note_key (findMany_desc note_key cursor (limit + 1)
              (filter (\<lambda>n. ns_accountId n = accountId) (kd_notes db))) limit))"

text \<open>
  What the lists of customers show, page by page; what the overview gives away of personal data; and
  where the totals and the request list say something else than what can be reached.
\<close>

section \<open>Pages by number\<close>

lemma concat_windows: "concat (map (\<lambda>i. take n (drop (i * n) xs)) [0..<k]) = take (k * n) xs"
proof (induction k)
  case (Suc k)
  have "take (k * n) xs @ take n (drop (k * n) xs) = take (k * n + n) xs" by (simp add: take_add)
  with Suc show ?case by (simp add: add.commute)
qed simp

lemma pages_enough:
  assumes "0 < (n::nat)"
  shows "t \<le> max 1 ((t + n - 1) div n) * n"
proof -
  have "t \<le> (t + n - 1) div n * n"
    using assms div_mult_mod_eq [of "t + n - 1" n] mod_less_divisor [of n "t + n - 1"] by linarith
  also have "\<dots> \<le> max 1 ((t + n - 1) div n) * n" by (rule mult_le_mono1) simp
  finally show ?thesis .
qed

text \<open>
  The numbered pages of the customer table, one after the other, show every account that matches
  the filters exactly once, the newest first, and the total is their number.
\<close>
theorem table_pages_cover:
  assumes "0 < pageSize" "distinct (map ka_id accounts)"
  shows "let found = filter (table_where flags query q) accounts;
      page = (\<lambda>p. loadTable ops flags accounts p pageSize q query)
    in concat (map (\<lambda>p. tg_data (page p)) [1..<Suc (tg_totalPages (page 1))]) = map (table_row_of ops flags) (newest_first account_key found)
      \<and> tg_total (page 1) = length found \<and> distinct (map account_key (newest_first account_key found))
      \<and> set (newest_first account_key found) = set found"
proof -
  let ?found = "filter (table_where flags query q) accounts"
  let ?xs = "newest_first account_key ?found"
  let ?k = "tg_totalPages (loadTable ops flags accounts 1 pageSize q query)"
  have l: "length ?xs = length ?found" by (simp add: newest_first_def)
  have "length ?xs \<le> ?k * pageSize"
    using pages_enough [OF assms(1), of "length ?found"] by (simp add: loadTable_def Let_def l)
  moreover have "concat (map (\<lambda>p. tg_data (loadTable ops flags accounts p pageSize q query)) [1..<Suc ?k])
      = map (table_row_of ops flags) (concat (map (\<lambda>i. take pageSize (drop (i * pageSize) ?xs)) [0..<?k]))"
  proof -
    have "[1..<Suc ?k] = map Suc [0..<?k]" by (simp add: map_Suc_upt)
    then show ?thesis by (simp add: loadTable_def Let_def map_concat comp_def)
  qed
  moreover have "distinct (map account_key ?xs)"
  proof -
    have "distinct (map ka_id ?found)" using assms(2) by (simp add: distinct_map_filter)
    then have "distinct (map account_key ?found)"
      by (auto simp: distinct_map inj_on_def account_key_def)
    then show ?thesis by (simp add: newest_first_def rev_map [symmetric] distinct_map)
  qed
  ultimately show ?thesis
    by (simp add: concat_windows Let_def) (simp add: loadTable_def Let_def newest_first_def)
qed

text \<open>Following the cursors of the customer search shows every match exactly once, the newest first.\<close>

theorem search_walk_complete:
  assumes "distinct (map ka_id accounts)" "length accounts < fuel" "sq_limit query \<noteq> Some 0"
  shows "walk_pages (customer_search flags accounts query) fuel None =
    map (search_row_of flags) (newest_first account_key (filter (search_where flags accounts query) accounts))"
proof (cases "sq_flaggedOnly query \<and> flagged_ids 1000 flags = []")
  case True
  then have "filter (search_where flags accounts query) accounts = []"
    by (auto simp: search_where_def filter_empty_conv)
  then show ?thesis
    using True assms(2) by (cases fuel) (simp_all add: customer_search_def newest_first_def)
next
  case False
  let ?n = "case sq_limit query of None \<Rightarrow> 50 | Some n \<Rightarrow> n"
  let ?found = "filter (search_where flags accounts query) accounts"
  have "distinct (map account_key ?found)"
    using assms(1) by (auto simp: distinct_map inj_on_def account_key_def intro: distinct_filter)
  moreover have "0 < ?n" using assms(3) by (auto split: option.splits)
  moreover have "length ?found < fuel" using assms(2) le_less_trans [OF length_filter_le] by blast
  ultimately have "walk_pages (\<lambda>c. buildPage account_key (findMany_desc account_key c (?n + 1) ?found) ?n) fuel None
      = newest_first account_key ?found"
    unfolding newest_first_def by (rule desc_pages_cover_rows)
  moreover have "customer_search flags accounts query
      = (\<lambda>c. map_page (search_row_of flags) (buildPage account_key (findMany_desc account_key c (?n + 1) ?found) ?n))"
    using False by (auto simp: customer_search_def Let_def)
  ultimately show ?thesis by (simp only: walk_map_page)
qed

section \<open>Totals\<close>

text \<open>
  The number the list shows for its Free tab is not the header's: the tab also counts the
  cancelled and banned accounts that pay nothing, which the header leaves out.
\<close>
theorem free_tab_exceeds_header:
  "tg_total (customers_table ops flags accounts
      \<lparr>tq_page = None, tq_pageSize = None, tq_q = None, tq_status = None, tq_segment = Some ''free'', tq_planId = None, tq_country = None, tq_channel = None\<rparr>)
    = sy_free (loadSummary qdiv monthStart flags accounts)
      + count_where (\<lambda>a. \<not> counted_account a \<and> \<not> list_ex paying_holding (ka_holdings a)) accounts"
proof -
  let ?p = "\<lambda>a. list_ex paying_holding (ka_holdings a)"
  have "length (filter counted_account accounts) = count_where (\<lambda>a. ?p a \<and> counted_account a) accounts + count_where (\<lambda>a. \<not> ?p a \<and> counted_account a) accounts"
    by (induction accounts) auto
  moreover have "count_where ?p (filter counted_account accounts) = count_where (\<lambda>a. ?p a \<and> counted_account a) accounts"
    by (simp add: count_where_def conj_commute)
  moreover have "length (filter (\<lambda>a. \<not> ?p a) accounts)
      = count_where (\<lambda>a. \<not> ?p a \<and> counted_account a) accounts + count_where (\<lambda>a. \<not> counted_account a \<and> \<not> ?p a) accounts"
    by (induction accounts) auto
  moreover have "table_where flags \<lparr>tq_page = None, tq_pageSize = None, tq_q = None, tq_status = None, tq_segment = Some ''free'',
      tq_planId = None, tq_country = None, tq_channel = None\<rparr> [] = (\<lambda>a. \<not> ?p a)"
    by (rule ext) (simp add: table_where_def wants_def in_segment_def table_search_def)
  ultimately show ?thesis
    by (simp add: customers_table_def loadTable_def Let_def loadSummary_def)
qed

text \<open>The Paying and the Free tab together are the list without a tab.\<close>

lemma paying_free_partition:
  "tg_total (loadTable ops flags accounts p n q (query\<lparr>tq_segment := Some ''paying''\<rparr>))
    + tg_total (loadTable ops flags accounts p n q (query\<lparr>tq_segment := Some ''free''\<rparr>))
    = tg_total (loadTable ops flags accounts p n q (query\<lparr>tq_segment := None\<rparr>))"
  by (induction accounts) (simp_all add: loadTable_def Let_def table_where_def in_segment_def)

section \<open>Personal data\<close>

text \<open>The same data base with other email addresses, key prefixes and sign-in addresses.\<close>

definition other_account :: "(customer_account \<Rightarrow> string) \<Rightarrow> (key_card \<Rightarrow> string) \<Rightarrow> customer_account \<Rightarrow> customer_account" where
  "other_account email prefix a =
     a\<lparr>ka_owner := (ka_owner a)\<lparr>ow_email := email a\<rparr>, ka_keys := map (\<lambda>k. k\<lparr>kc_keyPrefix := prefix k\<rparr>) (ka_keys a)\<rparr>"

definition other_data ::
  "(customer_account \<Rightarrow> string) \<Rightarrow> (key_card \<Rightarrow> string) \<Rightarrow> (signin_row \<Rightarrow> string option) \<Rightarrow> customers_db \<Rightarrow> customers_db" where
  "other_data email prefix ip db =
     db\<lparr>kd_accounts := map (other_account email prefix) (kd_accounts db),
        kd_signins := map (\<lambda>r. r\<lparr>sg_ip := ip r\<rparr>) (kd_signins db)\<rparr>"

lemma sort_key_map_keep: "(\<And>x. k (f x) = k x) \<Longrightarrow> sort_key k (map f xs) = map f (sort_key k xs)"
proof (induction xs)
  case (Cons x xs)
  have "insort_key k (f x) (map f ys) = map f (insort_key k x ys)" for ys
    using Cons.prems by (induction ys) simp_all
  with Cons show ?case by simp
qed simp

lemma find_other_account:
  "find_row (\<lambda>a. ka_id a = i) (map (other_account email prefix) as) = map_option (other_account email prefix) (find_row (\<lambda>a. ka_id a = i) as)"
  by (induction as) (simp_all add: other_account_def)

lemma other_account_simps [simp]:
  "ka_id (other_account e p a) = ka_id a" "ka_status (other_account e p a) = ka_status a" "ka_country (other_account e p a) = ka_country a"
  "ka_balance (other_account e p a) = ka_balance a" "ka_billingAddress (other_account e p a) = ka_billingAddress a"
  "ka_createdAt (other_account e p a) = ka_createdAt a" "ka_welcomeBonusGrantedAt (other_account e p a) = ka_welcomeBonusGrantedAt a"
  "ka_currentPeriodEnd (other_account e p a) = ka_currentPeriodEnd a" "ka_holdings (other_account e p a) = ka_holdings a"
  "ka_billings (other_account e p a) = ka_billings a" "ka_buffers (other_account e p a) = ka_buffers a"
  "ka_filings (other_account e p a) = ka_filings a" "ka_projects (other_account e p a) = ka_projects a"
  "ka_owner (other_account e p a) = (ka_owner a)\<lparr>ow_email := e a\<rparr>"
  "ka_keys (other_account e p a) = map (\<lambda>k. k\<lparr>kc_keyPrefix := p k\<rparr>) (ka_keys a)"
  by (simp_all add: other_account_def)

lemma other_data_simps [simp]:
  "kd_accounts (other_data e p i db) = map (other_account e p) (kd_accounts db)" "kd_tabs (other_data e p i db) = kd_tabs db"
  "kd_flags (other_data e p i db) = kd_flags db" "kd_notes (other_data e p i db) = kd_notes db" "kd_tags (other_data e p i db) = kd_tags db"
  "kd_signins (other_data e p i db) = map (\<lambda>r. r\<lparr>sg_ip := i r\<rparr>) (kd_signins db)" "kd_rollups (other_data e p i db) = kd_rollups db"
  "kd_reviews (other_data e p i db) = kd_reviews db" "kd_staff (other_data e p i db) = kd_staff db"
  by (simp_all add: other_data_def)

lemma other_shown_keys:
  assumes "\<And>k. maskApiKeyPrefix (Some (prefix k)) = maskApiKeyPrefix (Some (kc_keyPrefix k))"
  shows "shown_keys (other_account email prefix a) = shown_keys a"
  by (simp add: shown_keys_def filter_map comp_def sort_key_map_keep rev_map take_map assms)

lemma other_signins:
  assumes "\<And>r. maskIp (ip r) = maskIp (sg_ip r)"
  shows "signin_locations i (other_data email prefix ip db) = signin_locations i db"
  by (simp add: signin_locations_def filter_map comp_def sort_key_map_keep rev_map take_map assms)

text \<open>
  C17. The overview of a customer gives nothing away beyond the masks: two data bases that differ only in
  email addresses, key prefixes and sign-in addresses with the same masks show the same overview.
\<close>
theorem overview_shows_masks_only:
  assumes "\<And>a. maskEmail (Some (email a)) = maskEmail (Some (ow_email (ka_owner a)))"
    "\<And>k. maskApiKeyPrefix (Some (prefix k)) = maskApiKeyPrefix (Some (kc_keyPrefix k))"
    "\<And>r. maskIp (ip r) = maskIp (sg_ip r)"
  shows "get_customer ops now accountId (other_data email prefix ip db) = get_customer ops now accountId db"
proof -
  have "customer_overview_of ops now (other_account email prefix a) (other_data email prefix ip db) = customer_overview_of ops now a db" for a
    by (simp add: customer_overview_of_def account_days_def account_open_flags_def last_top_up_def active_holdings_def)
  moreover have "customer_products ops (other_account email prefix a) = customer_products ops a" for a
    by (simp add: customer_products_def active_holdings_def monthly_count_def)
  moreover have "customer_profile_of (other_account email prefix a) = customer_profile_of a" for a
    by (simp add: customer_profile_of_def latest_filing_def assms(1))
  moreover have "first_notes i (other_data email prefix ip db) = first_notes i db" "account_open_flags i (other_data email prefix ip db) = account_open_flags i db"
    "account_days i (other_data email prefix ip db) = account_days i db" "review_of_filing i (other_data email prefix ip db) f = review_of_filing i db f" for i f
    by (simp_all add: first_notes_def account_open_flags_def account_days_def review_of_filing_def)
  ultimately show ?thesis
    by (simp add: get_customer_def find_customer_def find_other_account active_holdings_def recent_filings_def assms(1)
        other_shown_keys [OF assms(2)] other_signins [OF assms(3)] split: option.splits)
qed

text \<open>
  A reveal writes exactly one audit entry, with the reason and the fields asked for, and shows the
  address of the owner only when it was asked for as email or users.
\<close>
theorem reveal_audited:
  "case revealPii actor accountId wanted reason db of
     (Inl e, db') \<Rightarrow> db' = db
   | (Inr shown, db') \<Rightarrow> (\<exists>row. db' = db\<lparr>kd_log := kd_log db @ [row]\<rparr> \<and> au_action row = ''pii.reveal'' \<and> au_actorId row = Some (sp_id actor)
       \<and> au_targetId row = Some accountId \<and> au_reason row = Some reason \<and> au_metadata row = JObj [(''fields'', jstrs wanted)])
     \<and> ((\<exists>e. RevEmail e \<in> set shown) = (''email'' \<in> set wanted)) \<and> ((\<exists>u. RevUsers u \<in> set shown) = (''users'' \<in> set wanted))
     \<and> ((\<exists>x. RevIps x \<in> set shown) = (''ip'' \<in> set wanted))"
  by (auto simp: revealPii_def audit_record_def staff_entry_def actor_of_def revealed_fields_def split: option.splits)

section \<open>Requests\<close>

text \<open>
  The list of requests says there is more and gives no cursor: whatever matches beyond the first page
  cannot be reached, and a page that happens to be full says so even when it is the last.
\<close>

lemma requests_tail_unreachable:
  assumes "resolveRange parse now from to_day 7 = Inr (start, finish)" "account_prefixes accountId db \<noteq> []" "limit \<noteq> 0"
    "limit \<le> length (filter (\<lambda>r. start \<le> av_createdAt r \<and> av_createdAt r \<le> finish) (account_activity accountId db))"
  shows "\<exists>p. customer_requests parse now accountId (Some limit) from to_day raw db = Inr p \<and> pg_hasMore p \<and> pg_next p = None \<and> length (pg_data p) = limit"
  using assms by (simp add: customer_requests_def Let_def)

section \<open>Risk\<close>

lemma riskScore_sum: "riskScore ss = min 100 (\<Sum>s \<leftarrow> ss. SEVERITY_WEIGHT s)"
proof -
  have "foldl (\<lambda>n s. n + SEVERITY_WEIGHT s) k ss = k + (\<Sum>s \<leftarrow> ss. SEVERITY_WEIGHT s)" for k
    by (induction ss arbitrary: k) simp_all
  then show ?thesis by (simp add: riskScore_def)
qed

text \<open>
  The level is high exactly when an open flag is high or critical, or several together weigh 45;
  raising a flag never lowers it.
\<close>

lemma risk_level_high: "HIGH \<in> set ss \<or> CRITICAL \<in> set ss \<Longrightarrow> riskLevel ss = High_Risk"
proof -
  assume "HIGH \<in> set ss \<or> CRITICAL \<in> set ss"
  then have "45 \<le> (\<Sum>s \<leftarrow> ss. SEVERITY_WEIGHT s)"
    by (induction ss) (auto simp: SEVERITY_WEIGHT_def)
  then show ?thesis by (simp add: riskLevel_def riskScore_sum Let_def)
qed

lemma riskScore_mono: "riskScore ss \<le> riskScore (s # ss)" "riskScore ss \<le> 100"
  by (simp_all add: riskScore_sum)

section \<open>Witnesses\<close>

definition plain_account :: "string \<Rightarrow> string \<Rightarrow> customer_account" where
  "plain_account i email = \<lparr>ka_id = i, ka_status = ''ACTIVE'', ka_country = ''NG'', ka_balance = 0, ka_billingAddress = [], ka_createdAt = 7,
     ka_welcomeBonusGrantedAt = None, ka_currentPeriodEnd = None,
     ka_owner = \<lparr>ow_id = i, ow_email = email, ow_displayName = None, ow_emailVerified = True, ow_country = None, ow_city = None, ow_region = None,
       ow_lastLoginAt = None\<rparr>,
     ka_holdings = [], ka_billings = [], ka_buffers = [], ka_filings = [], ka_projects = [], ka_keys = []\<rparr>"

definition plain_db :: "string \<Rightarrow> customers_db" where
  "plain_db email = \<lparr>kd_accounts = [plain_account ''a1'' email], kd_tabs = [], kd_activity = [], kd_flags = [], kd_notes = [], kd_tags = [],
     kd_signins = [], kd_rollups = Rollup_Facts.empty_store, kd_reviews = [], kd_staff = [], kd_log = []\<rparr>"

definition plain_ops :: decimal_ops where
  "plain_ops = \<lparr>do_plus = (+), do_twelfth = (\<lambda>q. q / 12), do_text = (\<lambda>q. [])\<rparr>"

definition any_query :: table_query where
  "any_query = \<lparr>tq_page = None, tq_pageSize = None, tq_q = None, tq_status = None, tq_segment = None, tq_planId = None, tq_country = None, tq_channel = None\<rparr>"

theorem table_pages_cover_witness:
  "tg_total (loadTable plain_ops [] [plain_account ''a1'' [], plain_account ''a2'' []] 1 1 [] any_query) = 2
   \<and> concat (map (\<lambda>p. tg_data (loadTable plain_ops [] [plain_account ''a1'' [], plain_account ''a2'' []] p 1 [] any_query)) [1..<3])
     = map (table_row_of plain_ops []) (newest_first account_key [plain_account ''a1'' [], plain_account ''a2'' []])"
proof -
  let ?as = "[plain_account ''a1'' [], plain_account ''a2'' []]"
  have f: "filter (table_where [] any_query []) ?as = ?as"
    by (simp add: table_where_def any_query_def wants_def in_segment_def table_search_def)
  have "tg_totalPages (loadTable plain_ops [] ?as 1 1 [] any_query) = 2"
    unfolding loadTable_def Let_def f by simp
  moreover have "distinct (map ka_id ?as)" by (simp add: plain_account_def)
  moreover have "[1..<Suc 2] = [1..<3::nat]" by simp
  ultimately show ?thesis
    using table_pages_cover [of 1 ?as "[]" any_query "[]" plain_ops] unfolding Let_def f by simp
qed

theorem search_walk_complete_witness:
  "walk_pages (customer_search [] [plain_account ''a1'' [], plain_account ''a2'' []]
      \<lparr>sq_limit = Some 1, sq_q = None, sq_status = None, sq_planId = None, sq_country = None, sq_flaggedOnly = False\<rparr>) 3 None
    = map (search_row_of []) (newest_first account_key [plain_account ''a1'' [], plain_account ''a2'' []])"
proof -
  let ?as = "[plain_account ''a1'' [], plain_account ''a2'' []]"
  let ?q = "\<lparr>sq_limit = Some 1, sq_q = None, sq_status = None, sq_planId = None, sq_country = None, sq_flaggedOnly = False\<rparr>"
  have f: "filter (search_where [] ?as ?q) ?as = ?as" by (simp add: search_where_def wants_def)
  have "distinct (map ka_id ?as)" by (simp add: plain_account_def)
  from search_walk_complete [OF this, of 3 ?q "[]"] show ?thesis unfolding f by simp
qed

text \<open>Two addresses with one mask.\<close>

theorem overview_shows_masks_only_witness:
  "get_customer plain_ops 0 ''a1'' (other_data (\<lambda>a. if ow_email (ka_owner a) = ''abc@x.io'' then ''abd@x.io'' else ow_email (ka_owner a)) kc_keyPrefix sg_ip (plain_db ''abc@x.io''))
     = get_customer plain_ops 0 ''a1'' (plain_db ''abc@x.io'')"
proof (rule overview_shows_masks_only)
  have "maskEmail (Some ''abd@x.io'') = maskEmail (Some ''abc@x.io'')" by code_simp
  then show "maskEmail (Some (if ow_email (ka_owner a) = ''abc@x.io'' then ''abd@x.io'' else ow_email (ka_owner a))) = maskEmail (Some (ow_email (ka_owner a)))" for a
    by simp
qed simp_all

end
