(* ===== verification/Geocode.thy ===== *)
theory Geocode
  imports Js_String Ttl_Cache Js_Float
begin

text \<open>
  \<open>common/geo/geocode.ts\<close> and \<open>modules/geo/customer-names.ts\<close>: where a city or a country lies,
  and whom a project belongs to.  The list of cities is an argument (it comes from a package), and so
  is the removal of accents.
\<close>

section \<open>Places\<close>

text \<open>A row of the package's list; a missing field, or one that is not what it should be, is None.\<close>

record city_row =
  cy_iso2 :: "string option"
  cy_lat :: "rat option"
  cy_lng :: "rat option"
  cy_pop :: "rat option"
  cy_city :: "string option"
  cy_city_ascii :: "string option"

record place =
  pl_lat :: rat
  pl_lng :: rat
  pl_pop :: rat

datatype precision = PreciseCity | PreciseCountry

record coordinates =
  cd_lat :: rat
  cd_lng :: rat
  cd_precision :: precision

definition norm_name :: "(string \<Rightarrow> string) \<Rightarrow> string \<Rightarrow> string" where
  "norm_name deaccent s = trim (toLowerCase (deaccent s))"

definition city_key :: "(string \<Rightarrow> string) \<Rightarrow> string \<Rightarrow> string \<Rightarrow> string" where
  "city_key deaccent cc name = cc @ ''|'' @ norm_name deaccent name"

definition keep_larger :: "string \<Rightarrow> place \<Rightarrow> (string \<rightharpoonup> place) \<Rightarrow> (string \<rightharpoonup> place)" where
  "keep_larger key entry m =
     (case m key of
        None \<Rightarrow> m(key \<mapsto> entry)
      | Some seen \<Rightarrow> if pl_pop entry > pl_pop seen then m(key \<mapsto> entry) else m)"

text \<open>The country code and the place of a row that can be used, and the names it is known by.\<close>

definition place_of :: "city_row \<Rightarrow> (string \<times> place) option" where
  "place_of c =
     (case (cy_iso2 c, cy_lat c, cy_lng c) of
        (Some iso2, Some lat, Some lng) \<Rightarrow>
          if length iso2 = 2
          then Some (toUpperCase iso2, \<lparr>pl_lat = lat, pl_lng = lng, pl_pop = (case cy_pop c of None \<Rightarrow> 0 | Some p \<Rightarrow> p)\<rparr>)
          else None
      | _ \<Rightarrow> None)"

definition city_names :: "city_row \<Rightarrow> string list" where
  "city_names c = concat (map (\<lambda>n. case n of Some x \<Rightarrow> if truthy n then [x] else [] | None \<Rightarrow> []) [cy_city c, cy_city_ascii c])"

text \<open>The two indexes: by country and name, and by country.\<close>

type_synonym place_index = "(string \<rightharpoonup> place) \<times> (string \<rightharpoonup> place)"

definition add_city :: "(string \<Rightarrow> string) \<Rightarrow> place_index \<Rightarrow> city_row \<Rightarrow> place_index" where
  "add_city deaccent ix c =
     (case place_of c of
        None \<Rightarrow> ix
      | Some (cc, entry) \<Rightarrow>
          (foldl (\<lambda>m name. keep_larger (city_key deaccent cc name) entry m) (fst ix) (city_names c),
           keep_larger cc entry (snd ix)))"

definition place_index :: "(string \<Rightarrow> string) \<Rightarrow> city_row list \<Rightarrow> place_index" where
  "place_index deaccent cities = foldl (add_city deaccent) (Map.empty, Map.empty) cities"

definition geocode :: "(string \<Rightarrow> string) \<Rightarrow> place_index \<Rightarrow> string option \<Rightarrow> string option \<Rightarrow> coordinates option" where
  "geocode deaccent ix country city =
     (case country of
        None \<Rightarrow> None
      | Some c \<Rightarrow>
          if \<not> truthy country then None
          else (let cc = toUpperCase c;
                    hit = (case city of None \<Rightarrow> None
                      | Some n \<Rightarrow> if truthy city then fst ix (city_key deaccent cc n) else None)
            in case hit of
                 Some p \<Rightarrow> Some \<lparr>cd_lat = pl_lat p, cd_lng = pl_lng p, cd_precision = PreciseCity\<rparr>
               | None \<Rightarrow> map_option (\<lambda>p. \<lparr>cd_lat = pl_lat p, cd_lng = pl_lng p, cd_precision = PreciseCountry\<rparr>) (snd ix cc)))"

section \<open>Names of customers\<close>

record named_filing =
  nf_businessName :: string
  nf_createdAt :: millis

record project_owner =
  po_id :: string
  po_filings :: "named_filing list"
  po_displayName :: "string option"

definition NAMES_TTL_MS :: int where "NAMES_TTL_MS = 10 * 60000"
definition NAMES_MAX_ENTRIES :: nat where "NAMES_MAX_ENTRIES = 2000"

definition owner_name :: "project_owner \<Rightarrow> string option" where
  "owner_name p =
     (case rev (sort_key nf_createdAt (po_filings p)) of
        f # fs \<Rightarrow> Some (nf_businessName f)
      | [] \<Rightarrow> po_displayName p)"

text \<open>\<open>found.get(id) ?? null\<close>: what the product says of a project now.\<close>

definition project_name :: "project_owner list \<Rightarrow> string \<Rightarrow> string option" where
  "project_name projects i = (case find_row (\<lambda>p. po_id p = i) projects of None \<Rightarrow> None | Some p \<Rightarrow> owner_name p)"

type_synonym known_names = "(string \<times> string option \<times> millis) list"

definition wanted_ids :: "string option list \<Rightarrow> string list" where
  "wanted_ids ids = js_set (map the (filter truthy ids))"

definition missing_ids :: "millis \<Rightarrow> known_names \<Rightarrow> string list \<Rightarrow> string list" where
  "missing_ids now known wanted =
     filter (\<lambda>i. case entry_of i known of None \<Rightarrow> True | Some (_, _, expires) \<Rightarrow> expires \<le> now) wanted"

definition learn_names :: "millis \<Rightarrow> project_owner list \<Rightarrow> string list \<Rightarrow> known_names \<Rightarrow> known_names" where
  "learn_names now projects missing known =
     foldl (\<lambda>k i. map_set i (project_name projects i, now + NAMES_TTL_MS) k)
       (if length known + length missing > NAMES_MAX_ENTRIES then [] else known) missing"

definition known_name :: "known_names \<Rightarrow> string \<Rightarrow> string option" where
  "known_name known i =
     (case entry_of i known of Some (_, Some n, _) \<Rightarrow> if truthy (Some n) then Some n else None | _ \<Rightarrow> None)"

definition resolve_names ::
  "millis \<Rightarrow> project_owner list \<Rightarrow> string option list \<Rightarrow> known_names \<Rightarrow> (string \<rightharpoonup> string) \<times> known_names" where
  "resolve_names now projects ids known =
     (let wanted = wanted_ids ids;
          missing = missing_ids now known wanted;
          known1 = (if missing = [] then known else learn_names now projects missing known)
      in (\<lambda>i. if i \<in> set wanted then known_name known1 i else None, known1))"

text \<open>
  What the map's places and the customers' names are: a place is the largest of its name, and a name
  is the product's own of the last ten minutes.
\<close>

section \<open>Places\<close>

text \<open>Everything the list of cities says, as keyed entries in the order the indexes are built.\<close>

definition city_entries :: "(string \<Rightarrow> string) \<Rightarrow> city_row list \<Rightarrow> (string \<times> place) list" where
  "city_entries deaccent cities =
     concat (map (\<lambda>c. case place_of c of None \<Rightarrow> [] | Some (cc, p) \<Rightarrow> map (\<lambda>n. (city_key deaccent cc n, p)) (city_names c)) cities)"

definition country_entries :: "city_row list \<Rightarrow> (string \<times> place) list" where
  "country_entries cities = concat (map (\<lambda>c. case place_of c of None \<Rightarrow> [] | Some e \<Rightarrow> [e]) cities)"

abbreviation index_of :: "(string \<times> place) list \<Rightarrow> (string \<rightharpoonup> place) \<Rightarrow> (string \<rightharpoonup> place)" where
  "index_of es m \<equiv> foldl (\<lambda>m e. keep_larger (fst e) (snd e) m) m es"

lemma entries_Cons:
  "city_entries deaccent (c # cs) = city_entries deaccent [c] @ city_entries deaccent cs"
  "country_entries (c # cs) = country_entries [c] @ country_entries cs"
  by (simp_all add: city_entries_def country_entries_def)

lemma add_city_entries:
  "add_city deaccent ix c = (index_of (city_entries deaccent [c]) (fst ix), index_of (country_entries [c]) (snd ix))"
  by (simp add: add_city_def city_entries_def country_entries_def foldl_map split: option.split prod.split)

lemma place_index_split:
  "foldl (add_city deaccent) ix cities = (index_of (city_entries deaccent cities) (fst ix), index_of (country_entries cities) (snd ix))"
proof (induction cities arbitrary: ix)
  case Nil
  then show ?case by (simp add: city_entries_def country_entries_def)
next
  case (Cons c cs)
  have "foldl (add_city deaccent) ix (c # cs) = foldl (add_city deaccent) (add_city deaccent ix c) cs" by simp
  then show ?case
    unfolding entries_Cons [where c = c and cs = cs] foldl_append Cons add_city_entries [of deaccent ix c] fst_conv snd_conv .
qed

text \<open>The kept entry of a key is one of the entries given, and none is larger.\<close>

lemma index_of_largest:
  "case index_of es m k of
     None \<Rightarrow> m k = None \<and> (\<forall>e \<in> set es. fst e \<noteq> k)
   | Some p \<Rightarrow> (m k = Some p \<or> (k, p) \<in> set es) \<and> (\<forall>q. (k, q) \<in> set es \<or> m k = Some q \<longrightarrow> pl_pop q \<le> pl_pop p)"
proof (induction es arbitrary: m)
  case Nil
  then show ?case by (simp split: option.split)
next
  case (Cons e es)
  obtain k' p' where e: "e = (k', p')" by (cases e)
  show ?case
    using Cons.IH [of "keep_larger k' p' m"]
    by (cases "k' = k") (auto simp: e keep_larger_def split: option.splits if_splits)
qed

lemma index_of_new:
  "index_of es Map.empty k = Some p \<Longrightarrow> (k, p) \<in> set es \<and> (\<forall>q. (k, q) \<in> set es \<longrightarrow> pl_pop q \<le> pl_pop p)"
  "index_of es Map.empty k = None \<Longrightarrow> \<forall>e \<in> set es. fst e \<noteq> k"
  using index_of_largest [where es = es and m = Map.empty and k = k] by auto

lemma city_entries_iff:
  "(city_key deaccent cc name, p) \<in> set (city_entries deaccent cities)
     \<longleftrightarrow> (\<exists>c \<in> set cities. \<exists>cc' n. place_of c = Some (cc', p) \<and> n \<in> set (city_names c) \<and> city_key deaccent cc name = city_key deaccent cc' n)"
  by (force simp: city_entries_def split: option.splits)

lemma country_entries_iff: "(cc, p) \<in> set (country_entries cities) \<longleftrightarrow> (\<exists>c \<in> set cities. place_of c = Some (cc, p))"
  by (force simp: country_entries_def split: option.splits)

text \<open>
  A request is placed on the largest of the cities of its country with its name, whatever case and
  accents it is written with, or else on the largest place of the country; it is left off the map only
  when it has no country or one without a place.
\<close>
theorem geocode_largest:
  "case geocode deaccent (place_index deaccent cities) (Some cc) city of
     None \<Rightarrow> cc = [] \<or> (\<forall>c \<in> set cities. \<forall>p. place_of c \<noteq> Some (toUpperCase cc, p))
   | Some pt \<Rightarrow> (\<exists>c \<in> set cities. \<exists>p cc'. place_of c = Some (cc', p) \<and> cd_lat pt = pl_lat p \<and> cd_lng pt = pl_lng p
       \<and> (case cd_precision pt of
            PreciseCity \<Rightarrow> (\<exists>name n. city = Some name \<and> n \<in> set (city_names c)
              \<and> city_key deaccent (toUpperCase cc) name = city_key deaccent cc' n
              \<and> (\<forall>d \<in> set cities. \<forall>q m. place_of d = Some (toUpperCase cc, q) \<and> m \<in> set (city_names d)
                   \<and> norm_name deaccent m = norm_name deaccent name \<longrightarrow> pl_pop q \<le> pl_pop p))
          | PreciseCountry \<Rightarrow> cc' = toUpperCase cc
              \<and> (\<forall>d \<in> set cities. \<forall>q. place_of d = Some (toUpperCase cc, q) \<longrightarrow> pl_pop q \<le> pl_pop p)))"
proof -
  let ?cc = "toUpperCase cc"
  have ix: "place_index deaccent cities = (index_of (city_entries deaccent cities) Map.empty, index_of (country_entries cities) Map.empty)"
    by (simp add: place_index_def place_index_split)
  show ?thesis
  proof (cases "cc = []")
    case True
    then show ?thesis by (simp add: geocode_def truthy_def)
  next
    case False
    define hit where "hit = (case city of None \<Rightarrow> None
      | Some n \<Rightarrow> if truthy city then fst (place_index deaccent cities) (city_key deaccent ?cc n) else None)"
    show ?thesis
    proof (cases hit)
      case (Some p)
      then obtain name where name: "city = Some name" "fst (place_index deaccent cities) (city_key deaccent ?cc name) = Some p"
        by (auto simp: hit_def split: option.splits if_splits)
      note best = index_of_new(1) [OF name(2) [unfolded ix fst_conv]]
      obtain c cc' n where c: "c \<in> set cities" "place_of c = Some (cc', p)" "n \<in> set (city_names c)"
        "city_key deaccent ?cc name = city_key deaccent cc' n"
        using best unfolding city_entries_iff by blast
      have "pl_pop q \<le> pl_pop p" if "d \<in> set cities" "place_of d = Some (?cc, q)" "m \<in> set (city_names d)"
        "norm_name deaccent m = norm_name deaccent name" for d q m
      proof -
        have "(city_key deaccent ?cc name, q) \<in> set (city_entries deaccent cities)"
          unfolding city_entries_iff using that by (force simp: city_key_def)
        with best show ?thesis by blast
      qed
      moreover have "geocode deaccent (place_index deaccent cities) (Some cc) city
          = Some \<lparr>cd_lat = pl_lat p, cd_lng = pl_lng p, cd_precision = PreciseCity\<rparr>"
        using False Some by (simp add: geocode_def truthy_def hit_def [symmetric] Let_def)
      ultimately show ?thesis using c name(1)
        by simp (rule bexI [OF _ c(1)], rule exI [of _ p], rule exI [of _ cc'], auto)
    next
      case None
      then have g: "geocode deaccent (place_index deaccent cities) (Some cc) city
          = map_option (\<lambda>p. \<lparr>cd_lat = pl_lat p, cd_lng = pl_lng p, cd_precision = PreciseCountry\<rparr>) (snd (place_index deaccent cities) ?cc)"
        using False by (simp add: geocode_def truthy_def hit_def [symmetric] Let_def)
      show ?thesis
      proof (cases "snd (place_index deaccent cities) ?cc")
        case None
        from index_of_new(2) [OF this [unfolded ix snd_conv]] have "(?cc, p) \<notin> set (country_entries cities)" for p
          by force
        with g None show ?thesis by (auto simp: country_entries_iff)
      next
        case (Some p)
        note best = index_of_new(1) [OF this [unfolded ix snd_conv], unfolded country_entries_iff]
        then obtain c where "c \<in> set cities" "place_of c = Some (?cc, p)" by blast
        with g Some best show ?thesis by auto
      qed
    qed
  qed
qed


section \<open>Names\<close>

lemma entry_of_map_set: "entry_of i (map_set j x es) = (if i = j then Some (j, x) else entry_of i es)"
  by (induction es) (auto simp: entry_of_def)

lemma learned_entries:
  "entry_of i (foldl (\<lambda>k i. map_set i (name i, e) k) known ids) = (if i \<in> set ids then Some (i, name i, e) else entry_of i known)"
  by (induction ids arbitrary: known) (auto simp: entry_of_map_set)

lemma entry_of_Nil: "entry_of i [] = None"
  by (simp add: entry_of_def)

lemma learned_length: "length (foldl (\<lambda>k i. map_set i (f i) k) known ids) \<le> length known + length ids"
proof (induction ids arbitrary: known)
  case (Cons i ids)
  from Cons.IH [of "map_set i (f i) known"] map_set_length [of i "f i" known] show ?case by simp
qed simp

lemma learned_distinct: "distinct (map fst known) \<Longrightarrow> distinct (map fst (foldl (\<lambda>k i. map_set i (f i) k) known ids))"
  by (induction ids arbitrary: known) (simp_all add: map_set_distinct)

definition shown_name :: "project_owner list \<Rightarrow> string \<Rightarrow> string option" where
  "shown_name projects i = (case project_name projects i of None \<Rightarrow> None | Some n \<Rightarrow> if n = [] then None else Some n)"

lemma entry_of_key: "entry_of i es = Some (j, x) \<Longrightarrow> j = i"
  by (auto simp: entry_of_def dest: find_row_SomeD)

lemma missing_ids_iff:
  "i \<in> set (missing_ids now known wanted) \<longleftrightarrow> i \<in> set wanted \<and> \<not> (\<exists>n e. entry_of i known = Some (i, n, e) \<and> now < e)"
  by (auto simp: missing_ids_def not_less split: option.split dest: entry_of_key)

text \<open>
  The cache of names is invisible to one who reads it while the product's names stay the same: as long
  as it is not emptied during the call, every wanted project is answered by the name it has in the
  product, and what is held for later is that name again.
\<close>
theorem names_cache_transparent:
  assumes "\<And>i j n e. entry_of i known = Some (j, n, e) \<Longrightarrow> now < e \<Longrightarrow> n = project_name projects i"
    "length known + length (missing_ids now known (wanted_ids ids)) \<le> NAMES_MAX_ENTRIES"
  shows "fst (resolve_names now projects ids known) = (\<lambda>i. if Some i \<in> set ids \<and> i \<noteq> [] then shown_name projects i else None)
    \<and> (\<forall>i j n e. entry_of i (snd (resolve_names now projects ids known)) = Some (j, n, e) \<and> now < e \<longrightarrow> n = project_name projects i)"
proof -
  let ?w = "wanted_ids ids" and ?m = "missing_ids now known (wanted_ids ids)"
  let ?known = "snd (resolve_names now projects ids known)"
  have w: "i \<in> set ?w \<longleftrightarrow> Some i \<in> set ids \<and> i \<noteq> []" for i
    by (force simp: wanted_ids_def truthy_def split: option.splits)
  have k: "?known = (if ?m = [] then known else foldl (\<lambda>k i. map_set i (project_name projects i, now + NAMES_TTL_MS) k) known ?m)"
    using assms(2) by (simp add: resolve_names_def learn_names_def Let_def)
  have e: "entry_of i ?known = (if i \<in> set ?m then Some (i, project_name projects i, now + NAMES_TTL_MS) else entry_of i known)" for i
    by (cases "?m = []") (simp_all add: k learned_entries)
  have "known_name ?known i = shown_name projects i" if "i \<in> set ?w" for i
  proof (cases "i \<in> set ?m")
    case True
    then show ?thesis by (simp add: known_name_def e shown_name_def truthy_def split: option.split)
  next
    case False
    with that obtain n x where "entry_of i known = Some (i, n, x)" "now < x" by (auto simp: missing_ids_iff)
    moreover from this have "n = project_name projects i" by (rule assms(1))
    ultimately show ?thesis using False by (simp add: known_name_def e shown_name_def truthy_def split: option.split)
  qed
  then have "fst (resolve_names now projects ids known) = (\<lambda>i. if Some i \<in> set ids \<and> i \<noteq> [] then shown_name projects i else None)"
    by (auto simp: resolve_names_def Let_def w)
  moreover have "n = project_name projects i" if "entry_of i ?known = Some (j, n, x)" "now < x" for i j n x
    using that assms(1) by (auto simp: e split: if_splits)
  ultimately show ?thesis by blast
qed

text \<open>The names held never outgrow the limit, if no single call asks for more projects than that.\<close>

lemma names_bounded:
  assumes "length known \<le> NAMES_MAX_ENTRIES" "length (wanted_ids ids) \<le> NAMES_MAX_ENTRIES"
  shows "length (snd (resolve_names now projects ids known)) \<le> NAMES_MAX_ENTRIES"
proof -
  have "length (missing_ids now known (wanted_ids ids)) \<le> NAMES_MAX_ENTRIES"
    using assms(2) le_trans [OF length_filter_le] by (fastforce simp: missing_ids_def)
  moreover have "length (learn_names now projects m known) \<le> NAMES_MAX_ENTRIES" if "length m \<le> NAMES_MAX_ENTRIES" for m
    using learned_length [of "\<lambda>i. (project_name projects i, now + NAMES_TTL_MS)" known m]
      learned_length [of "\<lambda>i. (project_name projects i, now + NAMES_TTL_MS)" "[]" m] that
    by (simp add: learn_names_def)
  ultimately show ?thesis using assms(1) by (simp add: resolve_names_def Let_def)
qed

text \<open>
  When one new name makes the cache too full it is emptied first, the names this very call was
  answered from among them: a project that is known and wanted is then left without its name.
\<close>
theorem cleared_names_unanswered:
  assumes "entry_of i known = Some (i, Some n, e)" "now < e" "n \<noteq> []"
    "Some i \<in> set ids" "i \<noteq> []" "Some j \<in> set ids" "j \<noteq> []" "entry_of j known = None"
    "NAMES_MAX_ENTRIES \<le> length known"
  shows "fst (resolve_names now projects [Some i] known) i = Some n \<and> fst (resolve_names now projects ids known) i = None"
proof
  have w: "i \<in> set (wanted_ids xs) \<longleftrightarrow> Some i \<in> set xs \<and> i \<noteq> []" for i xs
    by (force simp: wanted_ids_def truthy_def split: option.splits)
  have hit: "i \<notin> set (missing_ids now known xs)" for xs using assms(1,2) by (auto simp: missing_ids_iff)
  have "x = i" if "x \<in> set (missing_ids now known (wanted_ids [Some i]))" for x
    using that w [of x "[Some i]"] by (simp add: missing_ids_iff)
  with hit [of "wanted_ids [Some i]"] have "set (missing_ids now known (wanted_ids [Some i])) = {}" by (metis ex_in_conv)
  then have "missing_ids now known (wanted_ids [Some i]) = []" by simp
  then show "fst (resolve_names now projects [Some i] known) i = Some n"
    using assms(1,3,5) w [of i "[Some i]"] by (simp add: resolve_names_def Let_def known_name_def truthy_def)
  have m: "j \<in> set (missing_ids now known (wanted_ids ids))" using assms(6,7,8) by (simp add: missing_ids_iff w)
  then have "0 < length (missing_ids now known (wanted_ids ids))" by (cases "missing_ids now known (wanted_ids ids)") simp_all
  with assms(9) have "NAMES_MAX_ENTRIES < length known + length (missing_ids now known (wanted_ids ids))" by linarith
  with m hit [of "wanted_ids ids"] show "fst (resolve_names now projects ids known) i = None"
    by (auto simp: resolve_names_def Let_def learn_names_def known_name_def learned_entries entry_of_Nil)
qed

end
