(* ===== verification/Float_Bounds.thy ===== *)
theory Float_Bounds
  imports Js_Float
begin

text \<open>How far rounding moves a number: the bounds an index or a share computed in floating point is held to.\<close>

lemma round_ge: "k * b \<le> a \<Longrightarrow> 0 < b \<Longrightarrow> k \<le> round_half_even a b"
  using div_le_mono [of "k * b" a b] by (simp add: round_half_even_def Let_def)

text \<open>A value below 2 to the 60 rounds to 53 bits times a power of two, without overflow.\<close>

lemma fl_parts:
  assumes "0 < q" "q \<le> 2 ^ 60"
  obtains num den e k where "0 < num" "0 < den" "q = of_nat num / of_nat den" "e = double_exponent num den"
    "k = round_half_even (num * 2 ^ nat (- e)) (den * 2 ^ nat e)" "fl q = of_nat k * p2 e"
proof -
  obtain num den where nd: "0 < num" "0 < den" "q = of_nat num / of_nat den"
    "fl q = js_value (to_double False num den)" by (rule fl_pos [OF assms(1)])
  define e where "e = double_exponent num den"
  define k where "k = round_half_even (num * 2 ^ nat (- e)) (den * 2 ^ nat e)"
  note b = double_exponent_bounds [OF nd(1,2), folded nd(3) e_def]
  have dpos: "0 < den * 2 ^ nat e" using nd(2) by simp
  have "of_nat (num * 2 ^ nat (- e)) / of_nat (den * 2 ^ nat e) = q / p2 e"
    using scaled [of num e den] nd(3) by simp
  also have "\<dots> < 2 ^ 53" using b(1) by (simp add: power_int_add divide_less_eq mult.commute)
  finally have "(of_nat (num * 2 ^ nat (- e)) :: rat) < of_nat (2 ^ 53 * (den * 2 ^ nat e))"
    using dpos by (simp add: divide_less_eq del: of_nat_mult)
  then have "num * 2 ^ nat (- e) \<le> 2 ^ 53 * (den * 2 ^ nat e)"
    by (simp only: of_nat_less_iff less_imp_le)
  then have k: "k \<le> 2 ^ 53" unfolding k_def using dpos by (rule round_le)
  have "\<not> (0 < e \<and> 2 ^ 1024 \<le> k * 2 ^ nat e)"
  proof
    assume a: "0 < e \<and> 2 ^ 1024 \<le> k * 2 ^ nat e"
    with b(2) have "p2 (e + 52) \<le> 2 ^ 60" using assms(2) by auto
    then have "p2 (e + 52) \<le> p2 60" by simp
    moreover have "p2 60 < p2 (e + 52)" if "60 < e + 52" using that by (intro power_int_strict_increasing) simp_all
    ultimately have "e + 52 \<le> 60" by linarith
    then have "k * 2 ^ nat e \<le> 2 ^ 53 * 2 ^ 8" using k by (intro mult_mono power_increasing) simp_all
    with a show False by simp
  qed
  then have "to_double False num den = Fin (int k) e"
    unfolding to_double_def Let_def e_def [symmetric] k_def [symmetric] by (simp only: if_False)
  with nd(4) have "fl q = of_nat k * p2 e" by (simp only: js_value_Fin of_int_of_nat_eq)
  with nd(1-3) e_def k_def that show ?thesis by blast
qed

lemma fl_ge:
  assumes "u \<le> q" "0 < u" "q \<le> 2 ^ 60" "representable u"
  shows "u \<le> fl q"
proof -
  have "0 < q" using assms(1,2) by simp
  from fl_parts [OF this assms(3)] obtain num den e k where nd: "0 < num" "0 < den" "q = of_nat num / of_nat den"
    and e: "e = double_exponent num den" and k: "k = round_half_even (num * 2 ^ nat (- e)) (den * 2 ^ nat e)"
    and v: "fl q = of_nat k * p2 e" by blast
  note b = double_exponent_bounds [OF nd(1,2), folded nd(3) e]
  have dpos: "0 < den * 2 ^ nat e" using nd(2) by simp
  have above: "of_nat j * p2 e \<le> fl q" if "of_nat j * p2 e \<le> q" for j
  proof -
    have "(of_nat j :: rat) \<le> (of_nat num / of_nat den) / p2 e" using that by (simp add: nd(3) [symmetric] pos_le_divide_eq)
    then have "(of_nat j :: rat) \<le> of_nat (num * 2 ^ nat (- e)) / of_nat (den * 2 ^ nat e)" by (simp only: scaled)
    then have "(of_nat (j * (den * 2 ^ nat e)) :: rat) \<le> of_nat (num * 2 ^ nat (- e))"
      using dpos by (simp only: pos_le_divide_eq of_nat_0_less_iff flip: of_nat_mult)
    then have "j \<le> k" unfolding k using dpos by (intro round_ge) (simp_all only: of_nat_le_iff)
    then show ?thesis by (simp add: v)
  qed
  obtain m f where mf: "\<bar>m\<bar> \<le> 2 ^ 53" "- 1074 \<le> f" "u = of_int m * p2 f"
    using assms(4) unfolding representable_def by blast
  show ?thesis
  proof (cases "e \<le> f")
    case True
    have "u / p2 e = of_int m * p2 (f - e)" by (simp add: mf(3) power_int_diff)
    also have "p2 (f - e) = of_int (2 ^ nat (f - e))" using True by (simp add: power_int_def)
    finally obtain j :: int where j: "u / p2 e = of_int j" by (metis of_int_mult)
    have "0 < u / p2 e" using assms(2) by simp
    then have "0 < j" by (simp add: j)
    with j have "u = of_nat (nat j) * p2 e" by (simp add: divide_eq_eq)
    with above [of "nat j"] assms(1) show ?thesis by simp
  next
    case False
    with mf(2) b(2) have l: "p2 (e + 52) \<le> q" by auto
    have "p2 (f + 53) \<le> p2 (e + 52)" using False by (intro power_int_increasing) simp_all
    moreover have "u \<le> p2 (f + 53)"
    proof -
      have "of_int m \<le> (of_int (2 ^ 53) :: rat)" using mf(1) by (simp only: of_int_le_iff abs_le_iff)
      then have "of_int m * p2 f \<le> of_int (2 ^ 53) * p2 f" by (intro mult_right_mono) simp_all
      then show ?thesis by (simp add: mf(3) power_int_add mult.commute)
    qed
    moreover have "p2 (e + 52) \<le> fl q"
      using above [of "2 ^ 52"] l by (simp add: power_int_add mult.commute)
    ultimately show ?thesis by simp
  qed
qed

text \<open>Multiples of 1/1024 up to 2 to the 40 are doubles, so rounding moves a value by less than 1/1024.\<close>

lemma representable_1024:
  assumes "\<bar>m\<bar> \<le> 2 ^ 50"
  shows "representable (of_int m / 1024)"
proof -
  have "\<bar>of_int m / 1024 :: rat\<bar> \<le> of_int (2 ^ 50)"
  proof -
    have "\<bar>of_int m :: rat\<bar> \<le> of_int (2 ^ 50)" using assms by (simp only: of_int_abs [symmetric] of_int_le_iff)
    then show ?thesis by simp
  qed
  then have "\<bar>of_int m / 1024 :: rat\<bar> < 2 ^ 1024" by (rule le_less_trans) simp
  moreover have "(of_int m / 1024 :: rat) = of_int m * p2 (- 10)" by (simp add: power_int_def power_one_over)
  moreover have "\<bar>m\<bar> \<le> 2 ^ 53" using assms by (rule order_trans) simp
  moreover have "(- 1074 :: int) \<le> - 10" by simp
  ultimately show ?thesis unfolding representable_def by blast
qed

lemma fl_above:
  assumes "0 \<le> q" "q \<le> 2 ^ 39"
  shows "fl q \<le> q + 1 / 1024"
proof -
  let ?m = "\<lceil>q * 1024\<rceil>"
  have c: "q * 1024 \<le> of_int ?m" "of_int ?m < q * 1024 + 1" by linarith+
  have "?m \<le> 2 ^ 49" using assms(2) by (simp add: ceiling_le_iff)
  moreover have "0 \<le> ?m" using assms(1) by simp
  ultimately have "representable (of_int ?m / 1024)" by (intro representable_1024) simp
  then have "fl q \<le> of_int ?m / 1024" using assms(1) c(1) by (intro fl_le) simp_all
  with c(2) show ?thesis by simp
qed

lemma fl_below:
  assumes "m / 1024 \<le> q" "m = of_int k" "0 < k" "k \<le> 2 ^ 50" "q \<le> 2 ^ 60"
  shows "m / 1024 \<le> fl q"
  using assms by (intro fl_ge) (simp_all add: representable_1024)

end
