(* ===== verification/Even_Sample.thy ===== *)
theory Even_Sample
  imports Float_Bounds
begin

text \<open>
  \<open>evenSample\<close> of \<open>modules/geo/activity-tail.worker.ts\<close>: a sample spread across a batch, with the
  indexes computed in floating point.  \<open>rows[i]\<close> out of range reads nothing.
\<close>

definition sample_index :: "nat \<Rightarrow> int \<Rightarrow> nat \<Rightarrow> int" where
  "sample_index n want i = (let step = fl (of_nat n / of_int want) in \<lfloor>fl (of_nat i * step)\<rfloor>)"

definition evenSample :: "'r list \<Rightarrow> int \<Rightarrow> 'r option list" where
  "evenSample rows want =
     (if want \<le> 0 then []
      else map (\<lambda>i. let j = sample_index (length rows) want i in
               if 0 \<le> j \<and> j < int (length rows) then Some (rows ! nat j) else None) [0..<nat want])"

lemma step_bounds:
  assumes "0 < want" "want < int n" "n \<le> 200"
  shows "1 + 1 / 256 \<le> fl (of_nat n / of_int want)" "fl (of_nat n / of_int want) \<le> of_nat n / of_int want + 1 / 1024"
    "fl (of_nat n / of_int want) \<le> 201"
proof -
  let ?q = "of_nat n / of_int want :: rat"
  have w: "0 < (of_int want :: rat)" using assms(1) by simp
  have "of_int want + 1 \<le> (of_nat n :: rat)" using assms(2)
    by (metis of_int_1 of_int_add of_int_le_iff of_int_of_nat_eq add1_zle_eq)
  moreover have "(of_int want :: rat) \<le> of_int 256" using assms by (simp only: of_int_le_iff)
  ultimately have "of_int want * (1 + 1 / 256) \<le> (of_nat n :: rat)" by (simp add: field_simps)
  then have "1 + 1 / 256 \<le> ?q" using w by (simp add: pos_le_divide_eq mult.commute)
  then have lo: "1028 / 1024 \<le> ?q" by simp
  have "(of_nat n :: rat) \<le> of_nat 200" using assms(3) by (simp only: of_nat_le_iff)
  moreover have "(1 :: rat) \<le> of_int want" using assms(1) by simp
  ultimately have "of_nat n \<le> 200 * (of_int want :: rat)" by simp
  then have hi: "?q \<le> 200" using w by (simp add: pos_divide_le_eq)
  have "?q \<le> 2 ^ 60" using hi by (rule order_trans) simp
  then have "1028 / 1024 \<le> fl ?q" by (intro fl_below [OF lo, of 1028]) simp_all
  then show "1 + 1 / 256 \<le> fl ?q" by simp
  show up: "fl ?q \<le> ?q + 1 / 1024" 
  proof (rule fl_above)
    show "0 \<le> ?q" using w by simp
    show "?q \<le> 2 ^ 39" using hi by (rule order_trans) simp
  qed
  show "fl ?q \<le> 201" using up hi by simp
qed

lemma floor_fl:
  assumes "0 \<le> y" "y \<le> 2 ^ 30"
  shows "\<lfloor>y\<rfloor> \<le> \<lfloor>fl y\<rfloor>" "of_int \<lfloor>fl y\<rfloor> \<le> y + 1 / 1024"
proof -
  show "of_int \<lfloor>fl y\<rfloor> \<le> y + 1 / 1024" using fl_above [OF assms(1)] assms(2) by (simp add: floor_le_iff) linarith
  show "\<lfloor>y\<rfloor> \<le> \<lfloor>fl y\<rfloor>"
  proof (cases "\<lfloor>y\<rfloor> \<le> 0")
    case True
    moreover have "0 \<le> \<lfloor>fl y\<rfloor>" using fl_nonneg [OF assms(1)] by simp
    ultimately show ?thesis by linarith
  next
    case False
    have "of_int \<lfloor>y\<rfloor> \<le> (of_int (2 ^ 30) :: rat)" using assms(2) of_int_floor_le [of y] by simp
    then have "\<lfloor>y\<rfloor> \<le> 2 ^ 30" by (simp only: of_int_le_iff)
    moreover have "(of_int (1024 * \<lfloor>y\<rfloor>) :: rat) / 1024 \<le> y" by simp
    ultimately have "(of_int (1024 * \<lfloor>y\<rfloor>) :: rat) / 1024 \<le> fl y"
      using False assms(2) by (intro fl_below [of _ _ "1024 * \<lfloor>y\<rfloor>"]) simp_all
    then show ?thesis by (simp add: le_floor_iff)
  qed
qed

text \<open>The indexes grow and stay inside the batch, whatever the rounding does.\<close>

lemma sample_index_spread:
  assumes "0 < want" "want < int n" "n \<le> 200"
  shows "0 \<le> sample_index n want i"
    "int i < want \<Longrightarrow> sample_index n want i < int n"
    "i < j \<Longrightarrow> int j < want \<Longrightarrow> sample_index n want i < sample_index n want j"
proof -
  define s where "s = fl (of_nat n / of_int want)"
  note s = step_bounds [OF assms, folded s_def]
  have x: "sample_index n want i = \<lfloor>fl (of_nat i * s)\<rfloor>" for i by (simp add: sample_index_def s_def)
  have pos: "0 \<le> of_nat i * s" for i using s(1) by simp
  show "0 \<le> sample_index n want i" unfolding x using fl_nonneg [OF pos] by simp
  have small: "of_nat i * s \<le> 2 ^ 30" if "int i < want" for i
  proof -
    have "i \<le> 200" using that assms by linarith
    then have "of_nat i \<le> (200 :: rat)" by simp
    then have "of_nat i * s \<le> 200 * 201" using s(1,3) by (intro mult_mono) simp_all
    then show ?thesis by simp
  qed
  show "sample_index n want i < int n" if i: "int i < want"
  proof -
    have "of_int (int i + 1) \<le> (of_int want :: rat)" using i by (simp only: of_int_le_iff)
    then have w: "of_nat i + 1 \<le> (of_int want :: rat)" by simp
    have w0: "0 < (of_int want :: rat)" using assms(1) by simp
    have q: "1 < (of_nat n / of_int want :: rat)"
    proof -
      have "(of_int want :: rat) < of_int (int n)" using assms(2) by (simp only: of_int_less_iff)
      then show ?thesis using w0 by simp
    qed
    have "of_nat i * s \<le> of_nat i * (of_nat n / of_int want + 1 / 1024)" using s(2) by (intro mult_left_mono) simp_all
    also have "\<dots> = of_nat i * (of_nat n / of_int want) + of_nat i / 1024" by (simp add: distrib_left)
    also have "\<dots> \<le> (of_int want - 1) * (of_nat n / of_int want) + of_nat i / 1024"
      using w q by (intro add_right_mono mult_right_mono) simp_all
    also have "(of_int want - 1) * (of_nat n / of_int want) = (of_nat n - of_nat n / of_int want :: rat)"
      using w0 by (simp add: left_diff_distrib diff_divide_distrib)
    also have "of_nat n - of_nat n / of_int want + of_nat i / 1024 < (of_nat n - 1 + 200 / 1024 :: rat)"
    proof -
      have "(of_nat i :: rat) \<le> 200" using i assms by simp
      with q show ?thesis by simp
    qed
    finally have "of_int \<lfloor>fl (of_nat i * s)\<rfloor> < (of_nat n :: rat)"
      using floor_fl(2) [OF pos small [OF i]] by simp
    then have "of_int \<lfloor>fl (of_nat i * s)\<rfloor> < (of_int (int n) :: rat)" by simp
    then show ?thesis unfolding x by (simp only: of_int_less_iff)
  qed
  show "sample_index n want i < sample_index n want j" if ij: "i < j" "int j < want"
  proof -
    have "of_nat i + 1 \<le> (of_nat j :: rat)" using ij(1) by (metis Suc_leI of_nat_Suc of_nat_le_iff add.commute)
    then have "(of_nat i + 1) * s \<le> of_nat j * s" using s(1) by (intro mult_right_mono) simp_all
    then have "of_nat i * s + s \<le> of_nat j * s" by (simp add: distrib_right)
    moreover have "of_int \<lfloor>fl (of_nat i * s)\<rfloor> \<le> of_nat i * s + 1 / 1024"
      using ij by (intro floor_fl(2) pos small) simp
    ultimately have "of_int (\<lfloor>fl (of_nat i * s)\<rfloor> + 1) \<le> of_nat j * s" using s(1) by simp
    then have "\<lfloor>fl (of_nat i * s)\<rfloor> + 1 \<le> \<lfloor>of_nat j * s\<rfloor>" by (simp only: le_floor_iff)
    also have "\<dots> \<le> \<lfloor>fl (of_nat j * s)\<rfloor>" using ij by (intro floor_fl(1) pos small) simp
    finally show ?thesis unfolding x by simp
  qed
qed

lemma sample_rows:
  assumes "0 < want" "want < int (length rows)" "length rows \<le> 200"
  shows "\<exists>js. evenSample rows want = map (\<lambda>j. Some (rows ! j)) js
    \<and> length js = nat want \<and> sorted_wrt (<) js \<and> (\<forall>j \<in> set js. j < length rows)"
proof -
  let ?n = "length rows"
  let ?js = "map (\<lambda>i. nat (sample_index ?n want i)) [0..<nat want]"
  note x = sample_index_spread [OF assms]
  have "evenSample rows want = map (\<lambda>j. Some (rows ! j)) ?js"
    using assms(1) x(1,2) by (auto simp: evenSample_def Let_def)
  moreover have "sorted_wrt (<) ?js"
    unfolding sorted_wrt_map sorted_wrt_iff_nth_less
    using x(3) le_less_trans [OF x(1) x(3)] by (simp add: zless_nat_conj)
  moreover have "\<forall>j \<in> set ?js. j < ?n" using x(1,2) by (auto simp: nat_less_iff)
  ultimately show ?thesis by (intro exI [of _ ?js]) simp
qed

text \<open>
  A sample of fewer rows than a batch of at most 200 has: exactly the rows asked for, none of them
  twice, in the order of the batch; no index falls outside it.
\<close>
theorem even_sample_spread:
  assumes "0 < want" "want < int (length rows)" "length rows \<le> 200"
  shows "\<exists>js. evenSample rows want = map (\<lambda>j. Some (rows ! j)) js
    \<and> length js = nat want \<and> sorted_wrt (<) js \<and> (\<forall>j \<in> set js. j < length rows)"
  using assms by (rule sample_rows)

theorem even_sample_spread_witness:
  "\<exists>js. evenSample ''abcde'' 2 = map (\<lambda>j. Some (''abcde'' ! j)) js \<and> length js = 2 \<and> distinct js"
proof -
  have "0 < (2 :: int)" "2 < int (length ''abcde'')" "length ''abcde'' \<le> 200" by simp_all
  from even_sample_spread [OF this] obtain js where
    "evenSample ''abcde'' 2 = map (\<lambda>j. Some (''abcde'' ! j)) js" "length js = nat 2" "sorted_wrt (<) js" by blast
  then show ?thesis by (intro exI [of _ js]) (simp add: strict_sorted_iff)
qed

end
