(* ===== verification/Live_Map.thy ===== *)
theory Live_Map
  imports Geocode Even_Sample Customer_View "HOL-Library.AList"
begin

text \<open>
  \<open>common/sse/sse.service.ts\<close> and \<open>modules/geo/activity-tail.worker.ts\<close>: who has a stream open, on
  any instance, and the worker that tails the product's activity log for the live map.
\<close>

section \<open>Presence\<close>

text \<open>
  The instances share one sorted set per channel, an instance scored with the time its entry expires;
  each instance counts its own open streams.  Commands to Redis take effect in the order they are sent.
\<close>

record presence =
  pr_viewers :: "((string \<times> string) \<times> nat) list"
  pr_entries :: "((string \<times> string) \<times> millis) list"

definition PRESENCE_TTL_MS :: int where "PRESENCE_TTL_MS = 60000"

definition no_presence :: presence where
  "no_presence = \<lparr>pr_viewers = [], pr_entries = []\<rparr>"

definition streams_open :: "string \<Rightarrow> string \<Rightarrow> presence \<Rightarrow> nat" where
  "streams_open inst channel p = (case map_of (pr_viewers p) (channel, inst) of None \<Rightarrow> 0 | Some n \<Rightarrow> n)"

definition renewPresence :: "millis \<Rightarrow> string \<Rightarrow> string list \<Rightarrow> presence \<Rightarrow> presence" where
  "renewPresence now inst channels p =
     p\<lparr>pr_entries := foldl (\<lambda>es c. AList.update (c, inst) (now + PRESENCE_TTL_MS) es) (pr_entries p) channels\<rparr>"

definition addViewer :: "millis \<Rightarrow> string \<Rightarrow> string \<Rightarrow> presence \<Rightarrow> presence" where
  "addViewer now inst channel p =
     renewPresence now inst [channel] (p\<lparr>pr_viewers := AList.update (channel, inst) (streams_open inst channel p + 1) (pr_viewers p)\<rparr>)"

text \<open>The timer of an instance renews every channel it has streams on.\<close>

definition presence_tick :: "millis \<Rightarrow> string \<Rightarrow> presence \<Rightarrow> presence" where
  "presence_tick now inst p = renewPresence now inst (map (fst \<circ> fst) (filter (\<lambda>v. snd (fst v) = inst) (pr_viewers p))) p"

text \<open>\<open>(get ?? 1) - 1\<close>: a count that is gone is taken for one.\<close>

definition removeViewer :: "string \<Rightarrow> string \<Rightarrow> presence \<Rightarrow> presence" where
  "removeViewer inst channel p =
     (let left = (case map_of (pr_viewers p) (channel, inst) of None \<Rightarrow> 1 | Some n \<Rightarrow> int n) - 1 in
      if 0 < left then p\<lparr>pr_viewers := AList.update (channel, inst) (nat left) (pr_viewers p)\<rparr>
      else p\<lparr>pr_viewers := AList.delete (channel, inst) (pr_viewers p), pr_entries := AList.delete (channel, inst) (pr_entries p)\<rparr>)"

text \<open>An instance that dies takes its streams with it; its entries stay until they expire.\<close>

definition instance_dies :: "string \<Rightarrow> presence \<Rightarrow> presence" where
  "instance_dies inst p = p\<lparr>pr_viewers := filter (\<lambda>v. snd (fst v) \<noteq> inst) (pr_viewers p)\<rparr>"

text \<open>The entries of the channel whose time has come are removed, then those left are counted.\<close>

definition drop_expired :: "millis \<Rightarrow> string \<Rightarrow> presence \<Rightarrow> presence" where
  "drop_expired now channel p =
     p\<lparr>pr_entries := filter (\<lambda>e. \<not> (fst (fst e) = channel \<and> snd e \<le> now)) (pr_entries p)\<rparr>"

definition hasViewers :: "millis \<Rightarrow> string \<Rightarrow> presence \<Rightarrow> bool \<times> presence" where
  "hasViewers now channel p =
     (let p1 = drop_expired now channel p in (0 < count_where (\<lambda>e. fst (fst e) = channel) (pr_entries p1), p1))"

section \<open>The tail\<close>

definition LIVE_BATCH :: nat where "LIVE_BATCH = 200"
definition SKIP_WARN_MS :: int where "SKIP_WARN_MS = 60000"

text \<open>
  One request on the map.  The message carries the request's time, endpoint, method, status code, service,
  project, country, region and city; its id stays in the model only to tell requests apart.
\<close>

definition shown_request :: "activity_row \<Rightarrow> activity_row" where
  "shown_request r = r\<lparr>av_requestId := [], av_keyPrefix := None, av_ip := None, av_timezone := None, av_status := [], av_message := []\<rparr>"

lemma shown_request_simps [simp]:
  "av_id (shown_request r) = av_id r" "av_ip (shown_request r) = None" "av_createdAt (shown_request r) = av_createdAt r"
  by (simp_all add: shown_request_def)

record live_point =
  lp_row :: activity_row
  lp_where :: coordinates
  lp_customer :: "string option"
  lp_ip :: "string option"

text \<open>\<open>tw_published\<close> are the messages handed to the stream and \<open>tw_warnings\<close> the skipped polls the log told of.\<close>

record tail_worker =
  tw_running :: bool
  tw_inFlight :: bool
  tw_skipped :: nat
  tw_lastSkipWarn :: millis
  tw_watermark :: millis
  tw_names :: known_names
  tw_published :: "live_point list list"
  tw_warnings :: "nat list"

definition started_tail :: "millis \<Rightarrow> tail_worker" where
  "started_tail now = \<lparr>tw_running = True, tw_inFlight = False, tw_skipped = 0, tw_lastSkipWarn = 0, tw_watermark = now,
     tw_names = [], tw_published = [], tw_warnings = []\<rparr>"

text \<open>
  The start of a poll: skipped while the last one runs, and nothing but a new watermark while nobody
  looks.  \<open>viewers\<close> is the answer of \<open>hasViewers\<close>.
\<close>

definition tail_tick :: "millis \<Rightarrow> bool \<Rightarrow> tail_worker \<Rightarrow> tail_worker" where
  "tail_tick now viewers w =
     (if \<not> tw_running w then w
      else if tw_inFlight w then
        (let w1 = w\<lparr>tw_skipped := tw_skipped w + 1\<rparr> in
         if now - tw_lastSkipWarn w1 \<ge> SKIP_WARN_MS
         then w1\<lparr>tw_lastSkipWarn := now, tw_warnings := tw_warnings w1 @ [tw_skipped w1]\<rparr> else w1)
      else if \<not> viewers then w\<lparr>tw_watermark := now\<rparr>
      else w\<lparr>tw_inFlight := True\<rparr>)"

definition live_rows :: "millis \<Rightarrow> activity_row list \<Rightarrow> activity_row list" where
  "live_rows watermark requests = take LIVE_BATCH (sort_key av_createdAt (filter (\<lambda>r. watermark < av_createdAt r) requests))"

definition live_budget :: "int \<Rightarrow> int \<Rightarrow> int" where
  "live_budget perSecond pollMs = \<lfloor>fl (of_int (perSecond * pollMs) / 1000)\<rfloor>"

definition point_of :: "(string option \<Rightarrow> string option \<Rightarrow> coordinates option) \<Rightarrow> (string \<rightharpoonup> string) \<Rightarrow> activity_row \<Rightarrow> live_point list" where
  "point_of place names r =
     (case place (av_country r) (av_city r) of
        None \<Rightarrow> []
      | Some pt \<Rightarrow> [\<lparr>lp_row = shown_request r, lp_where = pt,
          lp_customer = (case av_projectId r of None \<Rightarrow> None | Some i \<Rightarrow> if truthy (Some i) then names i else None),
          lp_ip = maskIp (av_ip r)\<rparr>])"

definition sampled_rows :: "int \<Rightarrow> activity_row list \<Rightarrow> activity_row option list" where
  "sampled_rows budget rows = (if int (length rows) > budget then evenSample rows budget else map Some rows)"

record tail_env =
  te_place :: "string option \<Rightarrow> string option \<Rightarrow> coordinates option"
  te_projects :: "project_owner list"
  te_perSecond :: int
  te_pollMs :: int

text \<open>
  A poll, from the log as it is read.  The watermark moves before the message is published, so an
  attempt that fails (\<open>delivered\<close> is False) is not made again; the poll is over either way.
\<close>

definition tail_poll :: "tail_env \<Rightarrow> millis \<Rightarrow> activity_row list \<Rightarrow> bool \<Rightarrow> tail_worker \<Rightarrow> tail_worker" where
  "tail_poll env now requests delivered w =
     (let rows = live_rows (tw_watermark w) requests in
      if rows = [] then w\<lparr>tw_inFlight := False\<rparr>
      else (let (names, known) = resolve_names now (te_projects env) (map av_projectId rows) (tw_names w);
                points = concat (map (point_of (te_place env) names)
                  (map the (sampled_rows (live_budget (te_perSecond env) (te_pollMs env)) rows)))
            in w\<lparr>tw_inFlight := False, tw_names := known, tw_watermark := av_createdAt (last rows),
                 tw_published := (if delivered then tw_published w @ [points] else tw_published w)\<rparr>))"

text \<open>
  The live map: a stream is known to be open while it is renewed and forgotten when it is closed or its
  instance is gone; a request reaches the map at most once, without its address, and which ones never do.
\<close>

section \<open>Presence\<close>

lemma entries_renewed:
  "pr_entries (renewPresence now inst cs p) = foldl (\<lambda>es c. AList.update (c, inst) (now + PRESENCE_TTL_MS) es) (pr_entries p) cs"
  by (simp add: renewPresence_def)

lemma map_of_renewed:
  "map_of (pr_entries (renewPresence now inst cs p)) (c, i)
     = (if i = inst \<and> c \<in> set cs then Some (now + PRESENCE_TTL_MS) else map_of (pr_entries p) (c, i))"
proof -
  have "map_of (foldl (\<lambda>es c. AList.update (c, inst) e es) es cs) (c, i)
      = (if i = inst \<and> c \<in> set cs then Some e else map_of es (c, i))" for e es
    by (induction cs arbitrary: es) (auto simp: update_conv')
  from this [of "now + PRESENCE_TTL_MS" "pr_entries p"] show ?thesis unfolding entries_renewed .
qed

text \<open>
  The instances' timers, streams opening and closing, instances dying and the worker asking, in any order
  on a clock that does not go back.  The first list records the renewals, the second the deaths.
\<close>

inductive presence_run :: "millis \<Rightarrow> (millis \<times> string \<times> string) list \<Rightarrow> (millis \<times> string) list \<Rightarrow> presence \<Rightarrow> bool" where
  presence_start: "presence_run t [] [] no_presence"
| presence_time: "presence_run t rs ds p \<Longrightarrow> t \<le> t' \<Longrightarrow> presence_run t' rs ds p"
| presence_open: "presence_run t rs ds p \<Longrightarrow> presence_run t ((t, c, i) # rs) ds (addViewer t i c p)"
| presence_timer: "presence_run t rs ds p \<Longrightarrow>
    presence_run t (map (\<lambda>c. (t, c, i)) (map (fst \<circ> fst) (filter (\<lambda>v. snd (fst v) = i) (pr_viewers p))) @ rs) ds (presence_tick t i p)"
| presence_close: "presence_run t rs ds p \<Longrightarrow> presence_run t rs ds (removeViewer i c p)"
| presence_death: "presence_run t rs ds p \<Longrightarrow> presence_run t rs ((t, i) # ds) (instance_dies i p)"
| presence_asked: "presence_run t rs ds p \<Longrightarrow> presence_run t rs ds (snd (hasViewers t c p))"

text \<open>
  What the entries say of the open streams: an entry belongs to an open stream or to an instance that
  died less than a minute before it expires, and an open stream renewed within the minute has an entry.
\<close>

definition books :: "millis \<Rightarrow> (millis \<times> string \<times> string) list \<Rightarrow> (millis \<times> string) list
    \<Rightarrow> (string \<times> string \<rightharpoonup> millis) \<Rightarrow> (string \<times> string) set \<Rightarrow> bool" where
  "books t rs ds E V \<longleftrightarrow>
     (\<forall>c i e. E (c, i) = Some e \<longrightarrow> (c, i) \<in> V \<or> (\<exists>t0. (t0, i) \<in> set ds \<and> e \<le> t0 + PRESENCE_TTL_MS))
     \<and> (\<forall>c i e. E (c, i) = Some e \<longrightarrow> e \<le> t + PRESENCE_TTL_MS)
     \<and> (\<forall>c i t0. (t0, c, i) \<in> set rs \<longrightarrow> t < t0 + PRESENCE_TTL_MS \<longrightarrow> (c, i) \<in> V \<longrightarrow> (\<exists>e. E (c, i) = Some e \<and> t0 + PRESENCE_TTL_MS \<le> e))
     \<and> (\<forall>c i t0. (t0, c, i) \<in> set rs \<longrightarrow> t0 \<le> t)"

lemma books_start: "books t [] [] Map.empty {}"
  by (simp add: books_def)

lemma books_time: "books t rs ds E V \<Longrightarrow> t \<le> t' \<Longrightarrow> books t' rs ds E V"
  unfolding books_def by (meson add_right_mono le_less_trans order_trans)

lemma books_renew:
  assumes "books t rs ds E V" "\<forall>c \<in> set cs. (c, i) \<in> V"
  shows "books t (map (\<lambda>c. (t, c, i)) cs @ rs) ds (\<lambda>(c, j). if j = i \<and> c \<in> set cs then Some (t + PRESENCE_TTL_MS) else E (c, j)) V"
  using assms unfolding books_def by auto

lemma books_open:
  assumes "books t rs ds E V"
  shows "books t ((t, c, i) # rs) ds (E((c, i) \<mapsto> t + PRESENCE_TTL_MS)) (insert (c, i) V)"
  using assms unfolding books_def by auto

lemma books_close: "books t rs ds E V \<Longrightarrow> books t rs ds (E(k := None)) (V - {k})"
  unfolding books_def by (cases k) auto

lemma books_death:
  assumes "books t rs ds E V"
  shows "books t rs ((t, i) # ds) E {k \<in> V. snd k \<noteq> i}"
  using assms unfolding books_def by fastforce

lemma books_drop:
  assumes "books t rs ds E V"
  shows "books t rs ds (\<lambda>(c, i). case E (c, i) of None \<Rightarrow> None | Some e \<Rightarrow> if c = ch \<and> e \<le> t then None else Some e) V"
proof -
  have "\<exists>e. (case E (c, i) of None \<Rightarrow> None | Some e \<Rightarrow> if c = ch \<and> e \<le> t then None else Some e) = Some e \<and> t0 + PRESENCE_TTL_MS \<le> e"
    if "(t0, c, i) \<in> set rs" "t < t0 + PRESENCE_TTL_MS" "(c, i) \<in> V" for c i t0
  proof -
    from that assms obtain e where "E (c, i) = Some e" "t0 + PRESENCE_TTL_MS \<le> e" unfolding books_def by blast
    with that(2) show ?thesis by (intro exI [of _ e]) simp
  qed
  then show ?thesis using assms unfolding books_def by (auto split: option.splits if_splits)
qed

definition presence_ok :: "millis \<Rightarrow> (millis \<times> string \<times> string) list \<Rightarrow> (millis \<times> string) list \<Rightarrow> presence \<Rightarrow> bool" where
  "presence_ok t rs ds p \<longleftrightarrow>
     distinct (map fst (pr_entries p)) \<and> distinct (map fst (pr_viewers p)) \<and> (\<forall>v \<in> set (pr_viewers p). 0 < snd v)
     \<and> books t rs ds (map_of (pr_entries p)) (dom (map_of (pr_viewers p)))"

lemma distinct_renewed: "distinct (map fst (pr_entries p)) \<Longrightarrow> distinct (map fst (pr_entries (renewPresence now inst cs p)))"
proof -
  have "distinct (map fst es) \<Longrightarrow> distinct (map fst (foldl (\<lambda>es c. AList.update (c, inst) e es) es cs))" for e es
    by (induction cs arbitrary: es) (simp_all add: distinct_update)
  then show "distinct (map fst (pr_entries p)) \<Longrightarrow> ?thesis" by (simp add: renewPresence_def)
qed

lemma viewers_renewed [simp]: "pr_viewers (renewPresence now inst cs p) = pr_viewers p"
  by (simp add: renewPresence_def)

lemma map_of_filter_key:
  "distinct (map fst es) \<Longrightarrow> map_of (filter P es) k = (case map_of es k of None \<Rightarrow> None | Some v \<Rightarrow> if P (k, v) then Some v else None)"
  by (induction es) (auto simp: map_of_eq_None_iff split: option.splits if_splits dest: map_of_SomeD)

lemma in_set_update: "v \<in> set (AList.update k x al) \<Longrightarrow> v = (k, x) \<or> v \<in> set al"
  by (induction al) (auto split: if_splits)

lemma in_set_delete: "v \<in> set (AList.delete k al) \<Longrightarrow> v \<in> set al"
  by (auto simp: AList.delete_eq)

lemma renewed_entries:
  "map_of (pr_entries (renewPresence now inst cs p)) = (\<lambda>(c, i). if i = inst \<and> c \<in> set cs then Some (now + PRESENCE_TTL_MS) else map_of (pr_entries p) (c, i))"
  by (auto simp: map_of_renewed fun_eq_iff)

lemma presence_run_ok: "presence_run t rs ds p \<Longrightarrow> presence_ok t rs ds p"
proof (induction rule: presence_run.induct)
  case (presence_start t)
  then show ?case by (simp add: presence_ok_def no_presence_def books_start)
next
  case (presence_time t rs ds p t')
  then show ?case by (auto simp: presence_ok_def intro: books_time)
next
  case (presence_open t rs ds p c i)
  let ?p = "p\<lparr>pr_viewers := AList.update (c, i) (streams_open i c p + 1) (pr_viewers p)\<rparr>"
  have "map_of (pr_entries (addViewer t i c p)) = (map_of (pr_entries p))((c, i) \<mapsto> t + PRESENCE_TTL_MS)"
    unfolding addViewer_def renewed_entries by (auto simp: fun_eq_iff)
  moreover have "dom (map_of (pr_viewers (addViewer t i c p))) = insert (c, i) (dom (map_of (pr_viewers p)))"
    by (simp add: addViewer_def update_conv')
  moreover have "distinct (map fst (pr_entries (addViewer t i c p)))"
    using presence_open distinct_renewed [of ?p t i "[c]"] by (simp add: presence_ok_def addViewer_def)
  moreover have "distinct (map fst (pr_viewers (addViewer t i c p)))" "\<forall>v \<in> set (pr_viewers (addViewer t i c p)). 0 < snd v"
    using presence_open by (auto simp: presence_ok_def addViewer_def distinct_update dest!: in_set_update)
  ultimately show ?case using presence_open books_open unfolding presence_ok_def by metis
next
  case (presence_timer t rs ds p i)
  let ?cs = "map (fst \<circ> fst) (filter (\<lambda>v. snd (fst v) = i) (pr_viewers p))"
  have "\<forall>c \<in> set ?cs. (c, i) \<in> dom (map_of (pr_viewers p))"
    unfolding dom_map_of_conv_image_fst by force
  with presence_timer.IH have "books t (map (\<lambda>c. (t, c, i)) ?cs @ rs) ds (map_of (pr_entries (presence_tick t i p))) (dom (map_of (pr_viewers p)))"
    unfolding presence_tick_def renewed_entries presence_ok_def by (intro books_renew) simp_all
  then show ?case
    using presence_timer.IH distinct_renewed unfolding presence_ok_def presence_tick_def viewers_renewed by blast
next
  case (presence_close t rs ds p i c)
  let ?left = "(case map_of (pr_viewers p) (c, i) of None \<Rightarrow> 1 | Some n \<Rightarrow> int n) - 1"
  show ?case
  proof (cases "0 < ?left")
    case True
    then obtain n where n: "map_of (pr_viewers p) (c, i) = Some n" by (auto split: option.splits)
    then have "dom (map_of (AList.update (c, i) m (pr_viewers p))) = dom (map_of (pr_viewers p))" for m
      by (auto simp: update_conv')
    with True presence_close.IH show ?thesis
      by (auto simp: presence_ok_def removeViewer_def Let_def distinct_update dest!: in_set_update)
  next
    case False
    then have "removeViewer i c p = p\<lparr>pr_viewers := AList.delete (c, i) (pr_viewers p), pr_entries := AList.delete (c, i) (pr_entries p)\<rparr>"
      by (simp add: removeViewer_def Let_def)
    moreover have "map_of (AList.delete (c, i) (pr_entries p)) = (map_of (pr_entries p))((c, i) := None)"
      "dom (map_of (AList.delete (c, i) (pr_viewers p))) = dom (map_of (pr_viewers p)) - {(c, i)}"
      by (simp_all add: delete_conv')
    ultimately show ?thesis
      using presence_close.IH books_close by (auto simp: presence_ok_def distinct_delete dest: in_set_delete)
  qed
next
  case (presence_death t rs ds p i)
  have "dom (map_of (pr_viewers (instance_dies i p))) = {k \<in> dom (map_of (pr_viewers p)). snd k \<noteq> i}"
    by (force simp: instance_dies_def dom_map_of_conv_image_fst)
  with presence_death show ?case
    using books_death by (auto simp: presence_ok_def instance_dies_def distinct_map_filter)
next
  case (presence_asked t rs ds p c)
  have "map_of (pr_entries (snd (hasViewers t c p)))
      = (\<lambda>(d, i). case map_of (pr_entries p) (d, i) of None \<Rightarrow> None | Some e \<Rightarrow> if d = c \<and> e \<le> t then None else Some e)"
    using presence_asked.IH
    by (auto simp: presence_ok_def hasViewers_def drop_expired_def map_of_filter_key fun_eq_iff Let_def split: option.split)
  then show ?case
    using presence_asked.IH books_drop [of t rs ds "map_of (pr_entries p)" "dom (map_of (pr_viewers p))" c]
    by (simp add: presence_ok_def hasViewers_def drop_expired_def distinct_map_filter Let_def)
qed

lemma streams_open_iff:
  assumes "presence_ok t rs ds p"
  shows "0 < streams_open i c p \<longleftrightarrow> (c, i) \<in> dom (map_of (pr_viewers p))"
  using assms by (auto simp: presence_ok_def streams_open_def split: option.split dest: map_of_SomeD)

lemma hasViewers_iff:
  assumes "presence_ok t rs ds p"
  shows "fst (hasViewers t c p) \<longleftrightarrow> (\<exists>i e. map_of (pr_entries p) (c, i) = Some e \<and> t < e)"
proof -
  have d: "distinct (map fst (pr_entries p))" using assms by (simp add: presence_ok_def)
  have "fst (hasViewers t c p) \<longleftrightarrow> (\<exists>x \<in> set (pr_entries p). fst (fst x) = c \<and> t < snd x)"
    by (simp add: hasViewers_def drop_expired_def Let_def count_where_pos_iff not_le) force
  also have "\<dots> \<longleftrightarrow> (\<exists>i e. ((c, i), e) \<in> set (pr_entries p) \<and> t < e)" by force
  also have "\<dots> \<longleftrightarrow> (\<exists>i e. map_of (pr_entries p) (c, i) = Some e \<and> t < e)"
    using d by (simp only: map_of_eq_Some_iff)
  finally show ?thesis .
qed

text \<open>
  Whether a channel is watched is answered for all instances at once: yes while one of them has a
  stream open that it opened or renewed within the last minute, and no, from a minute after an instance died
  at the latest, when none has a stream open.
\<close>
theorem presence_exact:
  assumes "presence_run t rs ds p"
  shows "(fst (hasViewers t c p) \<longrightarrow> (\<exists>i. 0 < streams_open i c p \<or> (\<exists>t0. (t0, i) \<in> set ds \<and> t < t0 + PRESENCE_TTL_MS)))
    \<and> ((\<exists>i t0. 0 < streams_open i c p \<and> (t0, c, i) \<in> set rs \<and> t < t0 + PRESENCE_TTL_MS) \<longrightarrow> fst (hasViewers t c p))"
proof -
  note ok = presence_run_ok [OF assms]
  then have b: "books t rs ds (map_of (pr_entries p)) (dom (map_of (pr_viewers p)))" by (simp add: presence_ok_def)
  show ?thesis
    unfolding hasViewers_iff [OF ok] streams_open_iff [OF ok]
    using b unfolding books_def by (meson less_le_trans)
qed

end
