(* ===== verification/Tail_Facts.thy ===== *)
theory Tail_Facts
  imports Live_Map
begin

text \<open>
  The tail of the activity log over every history of the log, the polls and the viewers: which requests
  reach the live map, how often, and which never do.
\<close>

section \<open>One poll\<close>

abbreviation point_id :: "live_point \<Rightarrow> string" where
  "point_id x \<equiv> av_id (lp_row x)"

lemma point_of_row: "x \<in> set (point_of place names r) \<Longrightarrow> lp_row x = shown_request r \<and> lp_ip x = maskIp (av_ip r)"
  by (auto simp: point_of_def split: option.splits)

lemma points_distinct:
  "distinct (map av_id rows) \<Longrightarrow> distinct (map point_id (concat (map (point_of place names) rows)))"
proof (induction rows)
  case (Cons r rows)
  have "distinct (map point_id (point_of place names r))" by (simp add: point_of_def split: option.split)
  moreover have "point_id ` set (point_of place names r) \<inter> point_id ` set (concat (map (point_of place names) rows)) = {}"
    using Cons.prems by (force dest: point_of_row)
  ultimately show ?case using Cons by (simp add: Cons.IH)
qed simp

text \<open>A sample is some of the rows, in their order.\<close>

lemma sampled_rows_facts:
  assumes "length rows \<le> 200"
  shows "set (map the (sampled_rows budget rows)) \<subseteq> set rows"
    "distinct (map f rows) \<Longrightarrow> distinct (map f (map the (sampled_rows budget rows)))"
    "sorted (map g rows) \<Longrightarrow> sorted (map g (map the (sampled_rows budget rows)))"
proof -
  have "\<exists>js. map the (sampled_rows budget rows) = map (\<lambda>j. rows ! j) js \<and> sorted_wrt (<) js \<and> (\<forall>j \<in> set js. j < length rows)"
  proof -
    consider "int (length rows) \<le> budget" | "budget \<le> 0" "budget < int (length rows)" | "0 < budget" "budget < int (length rows)" by linarith
    then show ?thesis
    proof cases
      case 1
      then show ?thesis
        by (intro exI [of _ "[0..<length rows]"]) (simp add: sampled_rows_def map_nth comp_def)
    next
      case 2
      then show ?thesis by (intro exI [of _ "[]"]) (simp add: sampled_rows_def evenSample_def)
    next
      case 3
      from sample_rows [OF 3 assms] obtain js where
        "evenSample rows budget = map (\<lambda>j. Some (rows ! j)) js" "sorted_wrt (<) js" "\<forall>j \<in> set js. j < length rows"
        by blast
      with 3 show ?thesis by (intro exI [of _ js]) (simp add: sampled_rows_def comp_def)
    qed
  qed
  then obtain js where js: "map the (sampled_rows budget rows) = map (\<lambda>j. rows ! j) js" "sorted_wrt (<) js"
    "\<forall>j \<in> set js. j < length rows" by blast
  show "set (map the (sampled_rows budget rows)) \<subseteq> set rows" unfolding js(1) using js(3) by auto
  show "distinct (map f (map the (sampled_rows budget rows)))" if "distinct (map f rows)"
  proof -
    have "distinct js" using js(2) by (simp add: strict_sorted_iff)
    moreover have "inj_on (\<lambda>j. f (rows ! j)) (set js)"
      using that js(3) by (auto simp: inj_on_def distinct_conv_nth)
    ultimately show ?thesis unfolding js(1) by (simp add: distinct_map comp_def)
  qed
  show "sorted (map g (map the (sampled_rows budget rows)))" if "sorted (map g rows)"
    unfolding js(1) using that js(2,3)
    by (auto simp: sorted_wrt_map sorted_wrt_iff_nth_less sorted_iff_nth_mono)
qed

lemma live_rows_facts:
  "length (live_rows m requests) \<le> 200" "sorted (map av_createdAt (live_rows m requests))"
  "set (live_rows m requests) \<subseteq> {r \<in> set requests. m < av_createdAt r}"
  "distinct (map av_id requests) \<Longrightarrow> distinct (map av_id (live_rows m requests))"
proof -
  let ?sorted = "sort_key av_createdAt (filter (\<lambda>r. m < av_createdAt r) requests)"
  show "length (live_rows m requests) \<le> 200" by (simp add: live_rows_def LIVE_BATCH_def)
  have "sorted (map av_createdAt ?sorted)" by simp
  then show "sorted (map av_createdAt (live_rows m requests))"
    unfolding live_rows_def take_map [symmetric] by (rule sorted_wrt_take)
  show "set (live_rows m requests) \<subseteq> {r \<in> set requests. m < av_createdAt r}"
    unfolding live_rows_def using set_take_subset [of LIVE_BATCH ?sorted] by auto
  assume "distinct (map av_id requests)"
  then have "inj_on av_id (set requests)" "distinct requests" by (simp_all add: distinct_map)
  then have "distinct (map av_id ?sorted)" by (simp add: distinct_map inj_on_def)
  then show "distinct (map av_id (live_rows m requests))" unfolding live_rows_def take_map [symmetric] by (rule distinct_take)
qed

lemma last_live_row:
  assumes "live_rows m requests \<noteq> []" "r \<in> set (live_rows m requests)"
  shows "av_createdAt r \<le> av_createdAt (last (live_rows m requests))" "m < av_createdAt (last (live_rows m requests))"
proof -
  let ?rows = "live_rows m requests"
  obtain i where "i < length ?rows" "r = ?rows ! i" using assms(2) by (metis in_set_conv_nth)
  then show "av_createdAt r \<le> av_createdAt (last ?rows)"
    using live_rows_facts(2) [of m requests] assms(1) by (simp add: last_conv_nth sorted_iff_nth_mono)
  have "last ?rows \<in> set ?rows" using assms(1) by simp
  then show "m < av_createdAt (last ?rows)" using live_rows_facts(3) [of m requests] by blast
qed

definition poll_points :: "tail_env \<Rightarrow> millis \<Rightarrow> activity_row list \<Rightarrow> tail_worker \<Rightarrow> live_point list" where
  "poll_points env now requests w =
     (let rows = live_rows (tw_watermark w) requests in
      concat (map (point_of (te_place env) (fst (resolve_names now (te_projects env) (map av_projectId rows) (tw_names w))))
        (map the (sampled_rows (live_budget (te_perSecond env) (te_pollMs env)) rows))))"

lemma tail_poll_result:
  "live_rows (tw_watermark w) requests = [] \<Longrightarrow> tail_poll env now requests delivered w = w\<lparr>tw_inFlight := False\<rparr>"
  "live_rows (tw_watermark w) requests \<noteq> [] \<Longrightarrow>
     tw_watermark (tail_poll env now requests delivered w) = av_createdAt (last (live_rows (tw_watermark w) requests))
     \<and> tw_published (tail_poll env now requests delivered w) = tw_published w @ (if delivered then [poll_points env now requests w] else [])"
  by (simp_all add: tail_poll_def poll_points_def Let_def split: prod.split)

lemma poll_points_facts:
  "x \<in> set (poll_points env now requests w) \<Longrightarrow>
     \<exists>r \<in> set (live_rows (tw_watermark w) requests). lp_row x = shown_request r \<and> lp_ip x = maskIp (av_ip r)"
  "distinct (map av_id requests) \<Longrightarrow> distinct (map point_id (poll_points env now requests w))"
proof -
  let ?rows = "live_rows (tw_watermark w) requests"
  note s = sampled_rows_facts [OF live_rows_facts(1) [of "tw_watermark w" requests], where budget = "live_budget (te_perSecond env) (te_pollMs env)"]
  show "\<exists>r \<in> set ?rows. lp_row x = shown_request r \<and> lp_ip x = maskIp (av_ip r)" if "x \<in> set (poll_points env now requests w)"
    using that s(1) unfolding poll_points_def Let_def by (fastforce dest: point_of_row)
  show "distinct (map point_id (poll_points env now requests w))" if "distinct (map av_id requests)"
    unfolding poll_points_def Let_def by (rule points_distinct [OF s(2) [OF live_rows_facts(4) [OF that]]])
qed

section \<open>Histories\<close>

text \<open>
  The worker beside the log: requests are logged with the time they arrive at, the clock does not go
  back, polls start with or without viewers and end delivered or not.
\<close>

inductive tail_step :: "tail_env \<Rightarrow> millis \<times> activity_row list \<times> tail_worker \<Rightarrow> millis \<times> activity_row list \<times> tail_worker \<Rightarrow> bool" for env where
  step_time: "t \<le> t' \<Longrightarrow> tail_step env (t, requests, w) (t', requests, w)"
| step_logged: "av_createdAt r \<le> t \<Longrightarrow> av_id r \<notin> av_id ` set requests \<Longrightarrow> tail_step env (t, requests, w) (t, requests @ [r], w)"
| step_tick: "tail_step env (t, requests, w) (t, requests, tail_tick t viewers w)"
| step_poll: "tw_inFlight w \<Longrightarrow> tail_step env (t, requests, w) (t, requests, tail_poll env t requests delivered w)"

inductive tail_run :: "tail_env \<Rightarrow> millis \<times> activity_row list \<times> tail_worker \<Rightarrow> bool" for env where
  run_start: "\<forall>r \<in> set requests. av_createdAt r \<le> t \<Longrightarrow> distinct (map av_id requests) \<Longrightarrow> tail_run env (t, requests, started_tail t)"
| run_step: "tail_run env s \<Longrightarrow> tail_step env s s' \<Longrightarrow> tail_run env s'"

definition shown_from :: "activity_row list \<Rightarrow> millis \<Rightarrow> live_point \<Rightarrow> bool" where
  "shown_from requests upto_time x \<longleftrightarrow>
     (\<exists>r \<in> set requests. lp_row x = shown_request r \<and> lp_ip x = maskIp (av_ip r) \<and> av_createdAt r \<le> upto_time)"

lemma shown_from_later: "shown_from requests m x \<Longrightarrow> m \<le> m' \<Longrightarrow> set requests \<subseteq> set requests' \<Longrightarrow> shown_from requests' m' x"
  by (fastforce simp: shown_from_def)

definition tail_ok :: "millis \<times> activity_row list \<times> tail_worker \<Rightarrow> bool" where
  "tail_ok s \<longleftrightarrow> (case s of (t, requests, w) \<Rightarrow>
     distinct (map av_id requests) \<and> (\<forall>r \<in> set requests. av_createdAt r \<le> t) \<and> tw_watermark w \<le> t
     \<and> distinct (map point_id (concat (tw_published w)))
     \<and> (\<forall>x \<in> set (concat (tw_published w)). shown_from requests (tw_watermark w) x))"

lemma tail_okI:
  assumes "distinct (map av_id requests)" "\<forall>r \<in> set requests. av_createdAt r \<le> t" "tw_watermark w \<le> t"
    "distinct (map point_id (concat (tw_published w)))"
    "\<And>x. x \<in> set (concat (tw_published w)) \<Longrightarrow> shown_from requests (tw_watermark w) x"
  shows "tail_ok (t, requests, w)"
  using assms unfolding tail_ok_def by blast

lemma tail_okD:
  assumes "tail_ok (t, requests, w)"
  shows "distinct (map av_id requests)" "\<forall>r \<in> set requests. av_createdAt r \<le> t" "tw_watermark w \<le> t"
    "distinct (map point_id (concat (tw_published w)))"
    "x \<in> set (concat (tw_published w)) \<Longrightarrow> shown_from requests (tw_watermark w) x"
  using assms unfolding tail_ok_def by blast+

lemma tail_ok_keep:
  assumes "tail_ok (t, requests, w)" "tw_published w' = tw_published w" "tw_watermark w \<le> tw_watermark w'" "tw_watermark w' \<le> t'"
    "distinct (map av_id requests')" "set requests \<subseteq> set requests'" "\<forall>r \<in> set requests'. av_createdAt r \<le> t'"
  shows "tail_ok (t', requests', w')"
proof (rule tail_okI)
  show "shown_from requests' (tw_watermark w') x" if "x \<in> set (concat (tw_published w'))" for x
    using tail_okD(5) [OF assms(1)] that assms(2,3,6) by (auto intro: shown_from_later)
qed (use assms tail_okD(4) [OF assms(1)] in simp_all)

lemma tail_tick_keeps:
  "tw_published (tail_tick t viewers w) = tw_published w"
  "tw_watermark (tail_tick t viewers w) = tw_watermark w \<or> tw_watermark (tail_tick t viewers w) = t"
  by (auto simp: tail_tick_def Let_def)

lemma tail_poll_ok:
  assumes "tail_ok (t, requests, w)"
  shows "tail_ok (t, requests, tail_poll env t requests delivered w)" "tw_watermark w \<le> tw_watermark (tail_poll env t requests delivered w)"
proof -
  let ?rows = "live_rows (tw_watermark w) requests" and ?w = "tail_poll env t requests delivered w"
  have "tail_ok (t, requests, ?w) \<and> tw_watermark w \<le> tw_watermark ?w"
  proof (cases "?rows = []")
    case True
    then show ?thesis using assms by (simp add: tail_poll_result(1) tail_ok_def)
  next
    case False
    note p = tail_poll_result(2) [OF False, of env t delivered]
    note pts = poll_points_facts [where env = env and now = t and requests = requests and w = w]
    have up: "tw_watermark w < av_createdAt (last ?rows)" using last_live_row(2) [OF False] False by (meson last_in_set)
    have "last ?rows \<in> set requests" using live_rows_facts(3) [of "tw_watermark w" requests] last_in_set [OF False] by blast
    then have top: "av_createdAt (last ?rows) \<le> t" using assms by (simp add: tail_ok_def)
    have new: "\<exists>r \<in> set requests. lp_row x = shown_request r \<and> lp_ip x = maskIp (av_ip r) \<and> av_createdAt r \<le> av_createdAt (last ?rows)
        \<and> tw_watermark w < av_createdAt r" if x: "x \<in> set (poll_points env t requests w)" for x
      using pts(1) [OF x] last_live_row(1) [OF False] live_rows_facts(3) [of "tw_watermark w" requests] by blast
    have old: "shown_from requests (tw_watermark w) x"
      if "x \<in> set (concat (tw_published w))" for x
      using that assms by (auto simp: tail_ok_def)
    have "point_id x \<noteq> point_id y" if xy: "x \<in> set (concat (tw_published w))" "y \<in> set (poll_points env t requests w)" for x y
    proof -
      obtain r q where "r \<in> set requests" "lp_row x = shown_request r" "av_createdAt r \<le> tw_watermark w"
        "q \<in> set requests" "lp_row y = shown_request q" "tw_watermark w < av_createdAt q"
        using old [OF xy(1)] new [OF xy(2)] unfolding shown_from_def by blast
      moreover have "inj_on av_id (set requests)" using assms by (simp add: tail_ok_def distinct_map)
      ultimately show ?thesis by (auto simp: inj_on_def)
    qed
    then have dist: "distinct (map point_id (concat (tw_published w) @ poll_points env t requests w))"
      using assms pts(2) by (auto simp: tail_ok_def)
    have shown: "shown_from requests (av_createdAt (last ?rows)) x"
      if x: "x \<in> set (concat (tw_published w) @ poll_points env t requests w)" for x
    proof (cases "x \<in> set (concat (tw_published w))")
      case True
      from shown_from_later [OF old [OF this]] up show ?thesis by simp
    next
      case False
      with x new [of x] show ?thesis unfolding shown_from_def by auto
    qed
    have "tail_ok (t, requests, ?w)"
    proof (cases delivered)
      case True
      then have pub: "concat (tw_published ?w) = concat (tw_published w) @ poll_points env t requests w" using p by simp
      show ?thesis
        using tail_okD(1,2) [OF assms] top conjunct1 [OF p] dist shown by (intro tail_okI) (simp_all only: pub)
    next
      case False
      then have "tw_published ?w = tw_published w" using p by simp
      with tail_okD(1,2) [OF assms] top p up show ?thesis by (intro tail_ok_keep [OF assms]) simp_all
    qed
    with p up show ?thesis by simp
  qed
  then show "tail_ok (t, requests, ?w)" "tw_watermark w \<le> tw_watermark ?w" by simp_all
qed

lemma tail_step_ok:
  assumes "tail_step env s s'" "tail_ok s"
  shows "tail_ok s'" "tw_watermark (snd (snd s)) \<le> tw_watermark (snd (snd s'))"
proof -
  have "tail_ok s' \<and> tw_watermark (snd (snd s)) \<le> tw_watermark (snd (snd s'))"
    using assms
  proof (cases rule: tail_step.cases)
    case (step_tick t requests w viewers)
    then have ok: "tail_ok (t, requests, w)" using assms(2) by simp
    note f = tail_okD(1-3) [OF ok] tail_tick_keeps [of t viewers w]
    from f have "tail_ok (t, requests, tail_tick t viewers w)" by (intro tail_ok_keep [OF ok]) auto
    with f step_tick show ?thesis by auto
  next
    case (step_poll w t requests delivered)
    then show ?thesis using assms(2) tail_poll_ok by simp
  next
    case (step_time t t' requests w)
    then have ok: "tail_ok (t, requests, w)" using assms(2) by simp
    have "tail_ok (t', requests, w)" using step_time tail_okD(1-3) [OF ok] by (intro tail_ok_keep [OF ok]) force+
    with step_time show ?thesis by simp
  next
    case (step_logged r t requests w)
    then have ok: "tail_ok (t, requests, w)" using assms(2) by simp
    have "tail_ok (t, requests @ [r], w)" using step_logged tail_okD(1-3) [OF ok] by (intro tail_ok_keep [OF ok]) auto
    with step_logged show ?thesis by simp
  qed
  then show "tail_ok s'" "tw_watermark (snd (snd s)) \<le> tw_watermark (snd (snd s'))" by simp_all
qed

lemma tail_run_ok: "tail_run env s \<Longrightarrow> tail_ok s"
proof (induction rule: tail_run.induct)
  case (run_step s s')
  then show ?case by (blast intro: tail_step_ok(1))
qed (simp add: started_tail_def tail_ok_def)

text \<open>
  C14. Over every history each request is on the map at most once, with its address masked and nothing of the
  raw one, and none from after the watermark, which never passes the clock.
\<close>
theorem live_map_once:
  assumes "tail_run env (t, requests, w)"
  shows "distinct (map point_id (concat (tw_published w))) \<and> tw_watermark w \<le> t
    \<and> (\<forall>x \<in> set (concat (tw_published w)). av_ip (lp_row x) = None
        \<and> (\<exists>r \<in> set requests. av_id r = point_id x \<and> lp_ip x = maskIp (av_ip r) \<and> av_createdAt r \<le> tw_watermark w))"
  using tail_run_ok [OF assms] by (fastforce simp: tail_ok_def shown_from_def)

text \<open>While the worker keeps up, a poll shows every request since the last one that has a place, in order.\<close>

lemma poll_shows_all:
  assumes "live_rows (tw_watermark w) requests \<noteq> []"
    "length (filter (\<lambda>r. tw_watermark w < av_createdAt r) requests) \<le> LIVE_BATCH"
    "int (length (filter (\<lambda>r. tw_watermark w < av_createdAt r) requests)) \<le> live_budget (te_perSecond env) (te_pollMs env)"
  shows "\<exists>names. last (tw_published (tail_poll env now requests True w)) =
      concat (map (point_of (te_place env) names) (sort_key av_createdAt (filter (\<lambda>r. tw_watermark w < av_createdAt r) requests)))
    \<and> (\<forall>r \<in> set requests. av_createdAt r \<le> tw_watermark (tail_poll env now requests True w))"
proof -
  let ?new = "sort_key av_createdAt (filter (\<lambda>r. tw_watermark w < av_createdAt r) requests)"
  have rows: "live_rows (tw_watermark w) requests = ?new" using assms(2) by (simp add: live_rows_def)
  have all: "map the (sampled_rows (live_budget (te_perSecond env) (te_pollMs env)) ?new) = ?new"
    using assms(3) by (simp add: sampled_rows_def comp_def)
  have "last (tw_published (tail_poll env now requests True w)) = poll_points env now requests w"
    using tail_poll_result(2) [OF assms(1), of env now True] by simp
  then have "last (tw_published (tail_poll env now requests True w))
      = concat (map (point_of (te_place env) (fst (resolve_names now (te_projects env) (map av_projectId ?new) (tw_names w)))) ?new)"
    unfolding poll_points_def Let_def rows all .
  moreover have "av_createdAt r \<le> tw_watermark (tail_poll env now requests True w)" if r: "r \<in> set requests" for r
  proof (cases "tw_watermark w < av_createdAt r")
    case True
    then have "r \<in> set (live_rows (tw_watermark w) requests)" using r by (simp add: rows)
    then show ?thesis using last_live_row(1) [OF assms(1)] tail_poll_result(2) [OF assms(1)] by simp
  next
    case False
    moreover have "tw_watermark w < av_createdAt (last (live_rows (tw_watermark w) requests))"
      using last_live_row(2) [OF assms(1)] assms(1) by (meson last_in_set)
    ultimately show ?thesis using tail_poll_result(2) [OF assms(1)] by simp
  qed
  ultimately show ?thesis by blast
qed

text \<open>
  Requests of the millisecond a full page ends in are lost: what did not fit the page is beyond the
  watermark for ever and reaches the map in no continuation of the history.
\<close>
theorem page_edge_lost:
  assumes "tail_run env (t, requests, w)" "tw_inFlight w" "live_rows (tw_watermark w) requests \<noteq> []"
    "r \<in> set requests" "tw_watermark w < av_createdAt r" "r \<notin> set (live_rows (tw_watermark w) requests)"
    "av_createdAt r = av_createdAt (last (live_rows (tw_watermark w) requests))"
    "(tail_step env)\<^sup>*\<^sup>* (t, requests, tail_poll env t requests delivered w) (t', requests', w')"
  shows "av_id r \<notin> point_id ` set (concat (tw_published w'))"
proof -
  define lost :: "millis \<times> activity_row list \<times> tail_worker \<Rightarrow> bool" where
    "lost s \<longleftrightarrow> (case s of (t, requests, w) \<Rightarrow> tail_ok s \<and> r \<in> set requests \<and> av_createdAt r \<le> tw_watermark w
       \<and> av_id r \<notin> point_id ` set (concat (tw_published w)))" for s
  have row: "q = r" if "tail_ok (u, requests, v)" "q \<in> set requests" "av_id q = av_id r" "r \<in> set requests" for q u v requests
    using that by (auto simp: tail_ok_def distinct_map inj_on_def)
  have start: "lost (t, requests, tail_poll env t requests delivered w)"
  proof -
    note ok = tail_run_ok [OF assms(1)]
    have "av_id r \<notin> point_id ` set (concat (tw_published w))"
    proof
      assume "av_id r \<in> point_id ` set (concat (tw_published w))"
      then obtain x where x: "x \<in> set (concat (tw_published w))" "av_id r = point_id x" by blast
      obtain q where q: "q \<in> set requests" "lp_row x = shown_request q" "av_createdAt q \<le> tw_watermark w"
        using tail_okD(5) [OF ok x(1)] unfolding shown_from_def by blast
      have "q = r" using q(2) x(2) by (intro row [OF ok q(1) _ assms(4)]) simp
      with q(3) assms(5) show False by simp
    qed
    moreover have "av_id r \<notin> point_id ` set (poll_points env t requests w)"
    proof
      assume "av_id r \<in> point_id ` set (poll_points env t requests w)"
      then obtain x where x: "x \<in> set (poll_points env t requests w)" "av_id r = point_id x" by blast
      from poll_points_facts(1) [OF x(1)] obtain q where
        q: "q \<in> set (live_rows (tw_watermark w) requests)" "lp_row x = shown_request q" by blast
      then have "q \<in> set requests" using live_rows_facts(3) [of "tw_watermark w" requests] by blast
      with q(2) x(2) have "q = r" by (intro row [OF ok _ _ assms(4)]) simp_all
      with q(1) assms(6) show False by simp
    qed
    ultimately show ?thesis
      using tail_poll_ok(1) [OF ok] tail_poll_result(2) [OF assms(3), of env t delivered] assms(4,7)
      by (cases delivered) (auto simp: lost_def)
  qed
  have step: "lost s'" if "tail_step env s s'" "lost s" for s s'
  proof -
    obtain t0 q0 w0 t1 q1 w1 where s: "s = (t0, q0, w0)" "s' = (t1, q1, w1)" by (metis prod_cases3)
    have ok: "tail_ok s" "tail_ok s'" and up: "tw_watermark w0 \<le> tw_watermark w1"
      using that tail_step_ok [OF that(1)] by (auto simp: lost_def s)
    have "r \<in> set q1" using that by (cases rule: tail_step.cases) (auto simp: lost_def s)
    moreover have "av_id r \<notin> point_id ` set (concat (tw_published w1))"
      using that(1)
    proof (cases rule: tail_step.cases)
      case (step_poll w t requests delivered)
      have old: "av_id r \<notin> point_id ` set (concat (tw_published w))" using that(2) step_poll by (simp add: lost_def)
      have "av_id r \<notin> point_id ` set (poll_points env t requests w)"
      proof
        assume "av_id r \<in> point_id ` set (poll_points env t requests w)"
        then obtain x where x: "x \<in> set (poll_points env t requests w)" "av_id r = point_id x" by blast
        from poll_points_facts(1) [OF x(1)] obtain q where
          q: "q \<in> set (live_rows (tw_watermark w) requests)" "lp_row x = shown_request q" by blast
        then have new: "q \<in> set requests" "tw_watermark w < av_createdAt q"
          using live_rows_facts(3) [of "tw_watermark w" requests] by blast+
        have l: "tail_ok (t, requests, w)" "r \<in> set requests" "av_createdAt r \<le> tw_watermark w"
          using that(2) step_poll by (simp_all add: lost_def)
        have "q = r" using q(2) x(2) by (intro row [OF l(1) new(1) _ l(2)]) simp
        with new(2) l(3) show False by simp
      qed
      with old step_poll s show ?thesis
        using tail_poll_result(1) [of w requests env t delivered] tail_poll_result(2) [of w requests env t delivered]
        by (cases "live_rows (tw_watermark w) requests = []"; cases delivered) auto
    qed (use that(2) s in \<open>auto simp: lost_def tail_tick_keeps\<close>)
    ultimately show ?thesis using that(2) ok up by (auto simp: lost_def s)
  qed
  have "lost (t', requests', w')"
    using assms(8) start by (induction rule: rtranclp_induct) (auto intro: step)
  then show ?thesis by (simp add: lost_def)
qed

section \<open>Witnesses\<close>

text \<open>201 requests of one millisecond, one more than a page.\<close>

definition sample_request :: "nat \<Rightarrow> activity_row" where
  "sample_request i = \<lparr>av_id = replicate i CHR ''a'', av_requestId = replicate i CHR ''r'', av_keyPrefix = None, av_projectId = None, av_ip = Some ''1.2.3.4'', av_country = Some ''NG'',
     av_city = None, av_region = None, av_timezone = None, av_endpoint = ''/sms'', av_method = ''POST'', av_statusCode = 200, av_status = ''SUCCESS'',
     av_message = [], av_service = ''SMS'', av_createdAt = 5\<rparr>"

definition sample_tail_env :: tail_env where
  "sample_tail_env = \<lparr>te_place = (\<lambda>_ _. Some \<lparr>cd_lat = 6, cd_lng = 3, cd_precision = PreciseCountry\<rparr>), te_projects = [],
     te_perSecond = 20, te_pollMs = 10000\<rparr>"

definition sample_tail :: tail_worker where
  "sample_tail = tail_tick 5 True (started_tail 0)"

lemma sample_tail_parts: "tw_inFlight sample_tail" "tw_watermark sample_tail = 0" "tw_published sample_tail = []" "tw_names sample_tail = []"
  by (simp_all add: sample_tail_def tail_tick_def started_tail_def)

lemma tail_run_logged:
  "tail_run env (t, requests, w) \<Longrightarrow> \<forall>r \<in> set rs. av_createdAt r \<le> t \<Longrightarrow> distinct (map av_id (requests @ rs)) \<Longrightarrow>
     tail_run env (t, requests @ rs, w)"
proof (induction rs rule: rev_induct)
  case (snoc r rs)
  then have "tail_run env (t, requests @ rs, w)" by simp
  moreover have "tail_step env (t, requests @ rs, w) (t, (requests @ rs) @ [r], w)" using snoc.prems by (intro step_logged) auto
  ultimately show ?case by (metis append_assoc run_step)
qed simp

lemma sample_tail_run: "tail_run sample_tail_env (5, map sample_request [0..<n], sample_tail)"
proof -
  have "tail_run sample_tail_env (0, [], started_tail 0)" by (rule run_start) simp_all
  then have "tail_run sample_tail_env (5, [], started_tail 0)" by (rule run_step) (rule step_time, simp)
  then have "tail_run sample_tail_env (5, [], sample_tail)" unfolding sample_tail_def by (rule run_step) (rule step_tick)
  moreover have "distinct (map av_id ([] @ map sample_request [0..<n]))"
    by (auto simp: distinct_map inj_on_def sample_request_def)
  ultimately show ?thesis using tail_run_logged [of sample_tail_env 5 "[]" sample_tail "map sample_request [0..<n]"]
    by (simp add: sample_request_def)
qed

lemma sample_live_rows: "live_rows (tw_watermark sample_tail) (map sample_request [0..<n]) = take 200 (map sample_request [0..<n])"
proof -
  have "filter (\<lambda>r. 0 < av_createdAt r) (map sample_request [0..<n]) = map sample_request [0..<n]"
    by (rule filter_True) (auto simp: sample_request_def)
  moreover have "sort_key av_createdAt (map sample_request [0..<n]) = map sample_request [0..<n]"
    by (rule sort_key_id_if_sorted) (simp add: sample_request_def comp_def map_replicate_const)
  ultimately show ?thesis by (simp add: live_rows_def sample_tail_parts LIVE_BATCH_def)
qed

theorem page_edge_lost_witness:
  "av_id (sample_request 200) \<notin> point_id ` set (concat (tw_published (tail_poll sample_tail_env 5 (map sample_request [0..<201]) True sample_tail)))"
proof -
  let ?rs = "map sample_request [0..<201]"
  have take: "take 200 ?rs = map sample_request [0..<200]" by (simp add: take_map take_upt)
  have rows: "live_rows (tw_watermark sample_tail) ?rs = map sample_request [0..<200]" by (simp only: sample_live_rows take)
  show ?thesis
  proof (rule page_edge_lost [OF sample_tail_run [of 201] sample_tail_parts(1), unfolded rows])
    show "map sample_request [0..<200] \<noteq> []" by simp
    show "sample_request 200 \<in> set ?rs" by simp
    show "tw_watermark sample_tail < av_createdAt (sample_request 200)" by (simp add: sample_tail_parts sample_request_def)
    show "sample_request 200 \<notin> set (map sample_request [0..<200])"
      by (auto simp: sample_request_def dest: arg_cong [where f = length])
    show "av_createdAt (sample_request 200) = av_createdAt (last (map sample_request [0..<200]))"
      by (simp add: last_conv_nth) (simp add: sample_request_def)
  qed (rule rtranclp.rtrancl_refl)
qed

theorem live_map_once_witness:
  "map lp_ip (concat (tw_published (tail_poll sample_tail_env 5 [sample_request 0] True sample_tail))) = [Some ''1.2.x.x'']
   \<and> tw_watermark (tail_poll sample_tail_env 5 [sample_request 0] True sample_tail) \<le> 5"
proof -
  let ?w = "tail_poll sample_tail_env 5 [sample_request 0] True sample_tail"
  have run: "tail_run sample_tail_env (5, [sample_request 0], ?w)"
    using run_step [OF sample_tail_run [of 1] step_poll [OF sample_tail_parts(1)]] by simp
  have rows: "live_rows (tw_watermark sample_tail) [sample_request 0] = [sample_request 0]"
    using sample_live_rows [of 1] by simp
  have "1 \<le> live_budget 20 10000"
  proof -
    have "fl (of_int (20 * 10000) / 1000) = 200" using fl_int [of 200] by simp
    then show ?thesis by (simp add: live_budget_def)
  qed
  then have "map lp_ip (poll_points sample_tail_env 5 [sample_request 0] sample_tail) = [maskIp (Some ''1.2.3.4'')]"
    unfolding poll_points_def Let_def rows
    by (simp add: sampled_rows_def sample_tail_env_def point_of_def) (simp add: sample_request_def)
  moreover have "maskIp (Some ''1.2.3.4'') = Some ''1.2.x.x''" by code_simp
  moreover have "live_rows (tw_watermark sample_tail) [sample_request 0] \<noteq> []" unfolding rows by simp
  note conjunct2 [OF tail_poll_result(2) [OF this, of sample_tail_env 5 True]]
  ultimately have "map lp_ip (concat (tw_published ?w)) = [Some ''1.2.x.x'']"
    by (simp add: sample_tail_parts(3))
  then show ?thesis using live_map_once [OF run] by simp
qed

end
