(* ===== verification/Geo_Reports.thy ===== *)
theory Geo_Reports
  imports Live_Map Rollup_Facts "HOL-Library.Multiset"
begin

text \<open>
  \<open>modules/geo/geo.service.ts\<close>: where requests come from, where messages go, who signs in from where,
  and the raw request log.  The half-minute cache in front of the aggregates is that of the in-process
  cache theory and is not composed here.
\<close>

section \<open>Requests by origin\<close>

record geo_query =
  gq_from :: "string option"
  gq_to :: "string option"
  gq_accountId :: "string option"
  gq_country :: "string option"
  gq_groupBy :: "string option"
  gq_limit :: "nat option"

text \<open>\<open>Number(x.toFixed(dp))\<close> of a number that is not negative.\<close>

definition fixed_number :: "rat \<Rightarrow> nat \<Rightarrow> rat" where
  "fixed_number x dp = fl (of_int \<lfloor>x * 10 ^ dp + 1 / 2\<rfloor> / 10 ^ dp)"

definition rate4 :: "int \<Rightarrow> int \<Rightarrow> rat" where
  "rate4 part whole = fixed_number (fl (of_int part / of_int whole)) 4"

record origin_row =
  og_key :: string
  og_country :: "string option"
  og_city :: "string option"
  og_total :: int
  og_clientErrors :: int
  og_serverErrors :: int
  og_errorRate :: rat
  og_place :: "coordinates option"

text \<open>\<open>ORDER BY total DESC LIMIT n\<close>.\<close>

definition top_groups :: "nat \<Rightarrow> ('g \<Rightarrow> int) \<Rightarrow> 'g list \<Rightarrow> 'g list" where
  "top_groups n weight gs = take n (sort_key (\<lambda>g. - weight g) gs)"

definition limit_of :: "nat option \<Rightarrow> nat" where
  "limit_of l = (case l of None \<Rightarrow> 100 | Some n \<Rightarrow> n)"

definition origins_by_city ::
  "(string option \<Rightarrow> string option \<Rightarrow> coordinates option) \<Rightarrow> nat \<Rightarrow> millis \<Rightarrow> millis \<Rightarrow> activity_row list \<Rightarrow> origin_row list" where
  "origins_by_city place n start finish requests =
     map (\<lambda>((country, city), rs).
        (let total = int (length rs); serverErrors = int (count_where (\<lambda>r. 500 \<le> av_statusCode r) rs)
         in \<lparr>og_key = (case city of Some c \<Rightarrow> c | None \<Rightarrow> (case country of Some c \<Rightarrow> c | None \<Rightarrow> ''Unknown'')),
             og_country = country, og_city = city, og_total = total,
             og_clientErrors = int (count_where (\<lambda>r. 400 \<le> av_statusCode r \<and> av_statusCode r \<le> 499) rs),
             og_serverErrors = serverErrors, og_errorRate = (if total \<noteq> 0 then rate4 serverErrors total else 0),
             og_place = place country city\<rparr>))
       (top_groups n (\<lambda>(k, rs). int (length rs))
         (group_rows (\<lambda>r. (av_country r, av_city r))
           (filter (\<lambda>r. start \<le> av_createdAt r \<and> av_createdAt r \<le> finish \<and> (av_city r \<noteq> None \<or> av_country r \<noteq> None)) requests)))"

definition request_total :: "request_rollup list \<Rightarrow> int" where
  "request_total rs = (\<Sum>r \<leftarrow> rs. qr_total r)"

text \<open>The latency is null: no writer of the rollup sets it.\<close>

definition origins_by ::
  "(request_rollup \<Rightarrow> string) \<Rightarrow> nat \<Rightarrow> (request_rollup \<Rightarrow> bool) \<Rightarrow> request_rollup list \<Rightarrow> origin_row list" where
  "origins_by facet n wanted rows =
     map (\<lambda>(k, rs).
        (let total = request_total rs; serverErrors = (\<Sum>r \<leftarrow> rs. qr_serverErrors r)
         in \<lparr>og_key = k, og_country = None, og_city = None, og_total = total,
             og_clientErrors = (\<Sum>r \<leftarrow> rs. qr_clientErrors r), og_serverErrors = serverErrors,
             og_errorRate = (if total \<noteq> 0 then rate4 serverErrors total else 0), og_place = None\<rparr>))
       (top_groups n (\<lambda>(k, rs). request_total rs) (group_rows facet (filter wanted rows)))"

record geo_db =
  gd_activity :: "activity_row list"
  gd_keys :: "(string \<times> string) list"
  gd_rollups :: rollup_store
  gd_signins :: "signin_row list"
  gd_projects :: "project_owner list"

definition geo_requests ::
  "(string \<Rightarrow> int option) \<Rightarrow> (string option \<Rightarrow> string option \<Rightarrow> coordinates option) \<Rightarrow> millis \<Rightarrow> geo_query \<Rightarrow> geo_db \<Rightarrow> origin_row list result" where
  "geo_requests parse place now dto db =
     (case resolveRange parse now (gq_from dto) (gq_to dto) 7 of
        Inl e \<Rightarrow> Inl e
      | Inr (start, finish) \<Rightarrow>
          (let groupBy = (case gq_groupBy dto of None \<Rightarrow> ''country'' | Some g \<Rightarrow> g);
               n = limit_of (gq_limit dto);
               wanted = (\<lambda>r. date_in start finish (qr_date r) \<and> wants (gq_accountId dto) (qr_account r) \<and> wants (gq_country dto) (qr_country r))
           in Inr (if groupBy = ''city'' then origins_by_city place n start finish (gd_activity db)
               else origins_by (if groupBy = ''endpoint'' then qr_endpoint else qr_country) n wanted (rs_requests (gd_rollups db)))))"

section \<open>The map as it opens\<close>

text \<open>The requests of the last minutes, the newest first; no address is selected.\<close>

definition recentLive ::
  "(string option \<Rightarrow> string option \<Rightarrow> coordinates option) \<Rightarrow> millis \<Rightarrow> int \<Rightarrow> nat \<Rightarrow> geo_db \<Rightarrow> known_names \<Rightarrow> live_point list \<times> known_names" where
  "recentLive place now minutes n db known =
     (let since = now - minutes * 60000;
          rows = take n (rev (sort_key av_createdAt (filter (\<lambda>r. since < av_createdAt r) (gd_activity db))));
          (names, known1) = resolve_names now (gd_projects db) (map av_projectId rows) known
      in (concat (map (point_of place names) (map (\<lambda>r. r\<lparr>av_ip := None\<rparr>) rows)), known1))"

section \<open>Sign-ins and destinations\<close>

definition geo_signIns ::
  "(string \<Rightarrow> int option) \<Rightarrow> millis \<Rightarrow> geo_query \<Rightarrow> bool \<Rightarrow> geo_db
     \<Rightarrow> ((string option \<times> string \<times> nat) list \<times> signin_row list) result" where
  "geo_signIns parse now dto canSeeRawIp db =
     (case resolveRange parse now (gq_from dto) (gq_to dto) 7 of
        Inl e \<Rightarrow> Inl e
      | Inr (start, finish) \<Rightarrow>
          (let rows = filter (\<lambda>r. start \<le> sg_occurredAt r \<and> sg_occurredAt r \<le> finish
                 \<and> (truthy (gq_accountId dto) \<longrightarrow> sg_accountId r = gq_accountId dto)) (gd_signins db)
           in Inr
             (map (\<lambda>((country, surface), rs). (country, surface, length rs))
                (top_groups (limit_of (gq_limit dto)) (\<lambda>((country, surface), rs). if country = None then 0 else int (length rs))
                  (group_rows (\<lambda>r. (gl_country (sg_location r), sg_surface r)) rows)),
              map (\<lambda>r. if canSeeRawIp then r else r\<lparr>sg_ip := maskIp (sg_ip r)\<rparr>)
                (take 100 (rev (sort_key sg_occurredAt rows))))))"

record destination_total =
  dt_country :: string
  dt_channel :: string
  dt_attempted :: int
  dt_delivered :: int
  dt_deliveryRate :: "rat option"
  dt_cost :: rat

definition geo_destinations ::
  "(string \<Rightarrow> int option) \<Rightarrow> millis \<Rightarrow> geo_query \<Rightarrow> geo_db \<Rightarrow> destination_total list result" where
  "geo_destinations parse now dto db =
     (case resolveRange parse now (gq_from dto) (gq_to dto) 30 of
        Inl e \<Rightarrow> Inl e
      | Inr (start, finish) \<Rightarrow> Inr
          (map (\<lambda>((country, channel), rs).
             (let attempted = (\<Sum>r \<leftarrow> rs. dr_attempted r); delivered = (\<Sum>r \<leftarrow> rs. dr_delivered r)
              in \<lparr>dt_country = country, dt_channel = channel, dt_attempted = attempted, dt_delivered = delivered,
                  dt_deliveryRate = (if attempted \<noteq> 0 then Some (rate4 delivered attempted) else None), dt_cost = sum_of dr_cost rs\<rparr>))
            (top_groups (limit_of (gq_limit dto)) (\<lambda>(k, rs). \<Sum>r \<leftarrow> rs. dr_attempted r)
              (group_rows (\<lambda>r. (dr_country r, dr_channel r))
                (filter (\<lambda>r. date_in start finish (dr_date r) \<and> wants (gq_accountId dto) (dr_account r)) (rs_destinations (gd_rollups db)))))))"

section \<open>The request log\<close>

record log_query =
  rl_from :: "string option"
  rl_to :: "string option"
  rl_accountId :: "string option"
  rl_endpoint :: "string option"
  rl_country :: "string option"
  rl_statusCode :: "int option"
  rl_limit :: "nat option"

text \<open>The key prefixes of an account; the list of keys has the prefix and the account of each.\<close>

definition keys_of_account :: "string \<Rightarrow> geo_db \<Rightarrow> string list" where
  "keys_of_account accountId db = map fst (filter (\<lambda>(p, a). a = accountId) (gd_keys db))"

definition log_where :: "string list option \<Rightarrow> log_query \<Rightarrow> millis \<Rightarrow> millis \<Rightarrow> activity_row \<Rightarrow> bool" where
  "log_where prefixes dto start finish r \<longleftrightarrow>
     start \<le> av_createdAt r \<and> av_createdAt r \<le> finish
     \<and> (case prefixes of None \<Rightarrow> True | Some ps \<Rightarrow> (case av_keyPrefix r of None \<Rightarrow> False | Some p \<Rightarrow> js_includes ps p))
     \<and> (truthy (rl_endpoint dto) \<longrightarrow> contains_str (av_endpoint r) (the (rl_endpoint dto)))
     \<and> (truthy (rl_country dto) \<longrightarrow> av_country r = rl_country dto)
     \<and> (case rl_statusCode dto of None \<Rightarrow> True | Some c \<Rightarrow> c = 0 \<or> av_statusCode r = c)"

definition requestLog :: "(string \<Rightarrow> int option) \<Rightarrow> millis \<Rightarrow> log_query \<Rightarrow> bool \<Rightarrow> geo_db \<Rightarrow> activity_row list result" where
  "requestLog parse now dto canSeeRawIp db =
     (case resolveRange parse now (rl_from dto) (rl_to dto) 1 of
        Inl e \<Rightarrow> Inl e
      | Inr (start, finish) \<Rightarrow>
          (let prefixes = (if truthy (rl_accountId dto) then Some (keys_of_account (the (rl_accountId dto)) db) else None) in
           if prefixes = Some [] then Inr []
           else Inr (map (\<lambda>r. if canSeeRawIp then r else r\<lparr>av_ip := maskIp (av_ip r)\<rparr>)
             (take (limit_of (rl_limit dto)) (rev (sort_key av_createdAt (filter (log_where prefixes dto start finish) (gd_activity db))))))))"

section \<open>Facts\<close>

text \<open>The log of an account has requests of its own keys only, in the range, at most the limit, and no raw address.\<close>

lemma request_log_scope:
  assumes "requestLog parse now dto canSeeRawIp db = Inr rows" "resolveRange parse now (rl_from dto) (rl_to dto) 1 = Inr (start, finish)"
  shows "length rows \<le> limit_of (rl_limit dto)
    \<and> (\<forall>x \<in> set rows. \<exists>r \<in> set (gd_activity db). x = (if canSeeRawIp then r else r\<lparr>av_ip := maskIp (av_ip r)\<rparr>)
        \<and> start \<le> av_createdAt r \<and> av_createdAt r \<le> finish
        \<and> (truthy (rl_accountId dto) \<longrightarrow> (\<exists>p. av_keyPrefix r = Some p \<and> (p, the (rl_accountId dto)) \<in> set (gd_keys db))))"
proof -
  define prefixes where "prefixes = (if truthy (rl_accountId dto) then Some (keys_of_account (the (rl_accountId dto)) db) else None)"
  let ?found = "rev (sort_key av_createdAt (filter (log_where prefixes dto start finish) (gd_activity db)))"
  have rows: "rows = (if prefixes = Some [] then []
      else map (\<lambda>r. if canSeeRawIp then r else r\<lparr>av_ip := maskIp (av_ip r)\<rparr>) (take (limit_of (rl_limit dto)) ?found))"
    using assms by (simp add: requestLog_def Let_def prefixes_def split: if_splits)
  have found: "log_where prefixes dto start finish r \<and> r \<in> set (gd_activity db)" if "r \<in> set (take (limit_of (rl_limit dto)) ?found)" for r
    using in_set_takeD [OF that] by simp
  have keyed: "\<exists>p. av_keyPrefix r = Some p \<and> (p, the (rl_accountId dto)) \<in> set (gd_keys db)"
    if "log_where prefixes dto start finish r" "truthy (rl_accountId dto)" for r
    using that by (auto simp: log_where_def prefixes_def keys_of_account_def split: option.splits)
  have "\<exists>r \<in> set (gd_activity db). x = (if canSeeRawIp then r else r\<lparr>av_ip := maskIp (av_ip r)\<rparr>)
        \<and> start \<le> av_createdAt r \<and> av_createdAt r \<le> finish
        \<and> (truthy (rl_accountId dto) \<longrightarrow> (\<exists>p. av_keyPrefix r = Some p \<and> (p, the (rl_accountId dto)) \<in> set (gd_keys db)))"
    if "x \<in> set rows" for x
  proof -
    from that obtain r where r: "r \<in> set (take (limit_of (rl_limit dto)) ?found)"
      "x = (if canSeeRawIp then r else r\<lparr>av_ip := maskIp (av_ip r)\<rparr>)"
      unfolding rows by (auto split: if_splits)
    note w = found [OF r(1)]
    then have "start \<le> av_createdAt r \<and> av_createdAt r \<le> finish" unfolding log_where_def by blast
    with w r(2) keyed show ?thesis by blast
  qed
  moreover have "length rows \<le> limit_of (rl_limit dto)" by (simp add: rows)
  ultimately show ?thesis by blast
qed

text \<open>Nothing of an origin is counted twice or left out: when the limit is not met the rows are all groups, each once.\<close>

lemma top_groups_all: "length gs \<le> n \<Longrightarrow> mset (top_groups n weight gs) = mset gs"
  by (simp add: top_groups_def)

lemma sum_list_mset:
  fixes f :: "'a \<Rightarrow> 'b::comm_monoid_add"
  assumes "mset xs = mset ys"
  shows "(\<Sum>x \<leftarrow> xs. f x) = (\<Sum>x \<leftarrow> ys. f x)"
proof -
  have "mset (map f xs) = mset (map f ys)" using assms by simp
  then have "sum_mset (mset (map f xs)) = sum_mset (mset (map f ys))" by (rule arg_cong)
  then show ?thesis by (simp only: sum_mset_sum_list)
qed

lemma origins_sum:
  assumes "length (js_set (map facet (filter wanted rows))) \<le> n"
  shows "(\<Sum>x \<leftarrow> origins_by facet n wanted rows. og_total x) = request_total (filter wanted rows)"
proof -
  let ?gs = "group_rows facet (filter wanted rows)"
  have "length ?gs \<le> n" using assms by (simp add: group_rows_def)
  then have m: "mset (top_groups n (\<lambda>(k, rs). request_total rs) ?gs) = mset ?gs" by (rule top_groups_all)
  have "(\<Sum>x \<leftarrow> origins_by facet n wanted rows. og_total x) = (\<Sum>p \<leftarrow> top_groups n (\<lambda>(k, rs). request_total rs) ?gs. request_total (snd p))"
    by (simp add: origins_by_def comp_def Let_def case_prod_unfold)
  also have "\<dots> = (\<Sum>p \<leftarrow> ?gs. request_total (snd p))"
    using m by (rule sum_list_mset)
  also have "\<dots> = request_total (filter wanted rows)"
    using sum_groups [of "\<lambda>r. qr_total r" facet "filter wanted rows"] by (simp add: request_total_def)
  finally show ?thesis .
qed

end
