(* ===== verification/Overview.thy ===== *)
theory Overview
  imports Finance Float_Bounds Risk
begin

text \<open>
  \<open>modules/overview/overview.service.ts\<close> and \<open>activity.service.ts\<close>: the landing screen's figures,
  its daily series, the freshness of the rollups and the feed of what just happened.  A SUM is exact,
  its Number the nearest double.  The caches in front of them are those of the in-process cache theory
  and are not composed here.
\<close>

section \<open>State\<close>

text \<open>A subscription with the two columns of its plan that decide whether it pays.\<close>

record plan_subscription =
  os_accountId :: string
  os_status :: string
  os_isFree :: bool
  os_basePrice :: rat
  os_createdAt :: millis
  os_cancelledAt :: "millis option"

record overview_db =
  od_rollups :: rollup_store
  od_statuses :: "string list"
  od_subscriptions :: "plan_subscription list"
  od_flags :: "risk_flag list"
  od_reviews :: "review list"

section \<open>Customers\<close>

record customer_counts =
  ct_total :: nat
  ct_paying :: nat
  ct_payingAtStart :: nat
  ct_churned :: nat

definition paid_plan :: "plan_subscription \<Rightarrow> bool" where
  "paid_plan s \<longleftrightarrow> \<not> os_isFree s \<and> os_basePrice s > 0"

text \<open>\<open>COUNT(DISTINCT accountId)\<close>; a comparison with a NULL is not true.\<close>

definition distinct_accounts :: "(plan_subscription \<Rightarrow> bool) \<Rightarrow> plan_subscription list \<Rightarrow> nat" where
  "distinct_accounts p ss = length (js_set (map os_accountId (filter p ss)))"

definition customerCounts :: "millis \<Rightarrow> millis \<Rightarrow> overview_db \<Rightarrow> customer_counts" where
  "customerCounts start finish db =
     \<lparr>ct_total = count_where (\<lambda>s. s \<noteq> ''CANCELED'' \<and> s \<noteq> ''BANNED'') (od_statuses db),
      ct_paying = distinct_accounts (\<lambda>s. os_status s = ''ACTIVE'' \<and> paid_plan s) (od_subscriptions db),
      ct_payingAtStart = distinct_accounts (\<lambda>s. paid_plan s \<and> os_createdAt s < start
        \<and> (case os_cancelledAt s of None \<Rightarrow> True | Some t \<Rightarrow> start \<le> t)) (od_subscriptions db),
      ct_churned = distinct_accounts (\<lambda>s. paid_plan s
        \<and> (case os_cancelledAt s of None \<Rightarrow> False | Some t \<Rightarrow> start \<le> t \<and> t \<le> finish)) (od_subscriptions db)\<rparr>"

section \<open>Figures\<close>

record overview_kpis =
  ok_creditsConsumed :: rat
  ok_creditsChangePct :: "rat option"
  ok_cashCollected :: rat
  ok_creditLiability :: rat
  ok_mrr :: rat
  ok_billableEvents :: rat
  ok_successRate :: "rat option"
  ok_apiRequests :: rat
  ok_apiErrorRate :: "rat option"
  ok_clientErrors :: rat
  ok_active :: nat
  ok_new :: nat
  ok_activated :: nat
  ok_customers :: customer_counts
  ok_openRiskFlags :: nat
  ok_senderIdsAwaitingReview :: nat
  ok_senderIdsOverdue :: nat

definition span_days :: "millis \<Rightarrow> millis \<Rightarrow> int" where
  "span_days start finish = max 1 (js_round (fl (of_int (finish - start) / of_int (24 * 3600000))))"

definition prior_begin :: "millis \<Rightarrow> millis \<Rightarrow> millis" where
  "prior_begin start finish = start - span_days start finish * 24 * 3600000"

text \<open>The dates of the period before.\<close>

definition before_dates :: "millis \<Rightarrow> millis \<Rightarrow> millis \<Rightarrow> bool" where
  "before_dates start finish date \<longleftrightarrow> lagosDateOnly (prior_begin start finish) \<le> date \<and> date < lagosDateOnly start"

definition ratio :: "rat \<Rightarrow> rat \<Rightarrow> nat \<Rightarrow> rat option" where
  "ratio part whole dp = (if whole \<noteq> 0 then Some (js_round_dp (fl (part / whole)) dp) else None)"

definition daily_usage :: "(millis \<Rightarrow> bool) \<Rightarrow> rollup_store \<Rightarrow> usage_rollup list" where
  "daily_usage dates db = filter (\<lambda>r. ub_hour r = - 1 \<and> dates (ub_date r)) (rs_usage db)"

definition int_sum :: "('r \<Rightarrow> int) \<Rightarrow> 'r list \<Rightarrow> rat" where
  "int_sum f rows = fl (of_int (\<Sum>r \<leftarrow> rows. f r))"

definition latest_upto :: "millis \<Rightarrow> finance_snapshot list \<Rightarrow> finance_snapshot option" where
  "latest_upto finish rows =
     (case rev (sort_key fs_date (filter (\<lambda>s. fs_date s \<le> lagosDateOnly finish) rows)) of [] \<Rightarrow> None | s # ss \<Rightarrow> Some s)"

definition loadKpis :: "(string \<Rightarrow> int option) \<Rightarrow> millis \<Rightarrow> string option \<Rightarrow> string option \<Rightarrow> overview_db \<Rightarrow> overview_kpis result" where
  "loadKpis parse now from to_day db =
     (case resolveRange parse now from to_day 30 of
        Inl e \<Rightarrow> Inl e
      | Inr (start, finish) \<Rightarrow>
         (let rolls = od_rollups db;
              usage = daily_usage (date_in start finish) rolls;
              cash = filter (\<lambda>c. date_in start finish (cr_date c)) (rs_cash rolls);
              snapshot = latest_upto finish (rs_finance rolls);
              days = filter (\<lambda>s. date_in start finish (fs_date s)) (rs_finance rolls);
              requests = filter (\<lambda>r. date_in start finish (qr_date r)) (rs_requests rolls);
              credits = fl (sum_of ub_revenue usage);
              priorCredits = fl (sum_of ub_revenue (daily_usage (before_dates start finish) rolls));
              attempted = int_sum ub_attempted usage;
              totalRequests = int_sum qr_total requests
          in Inr \<lparr>ok_creditsConsumed = js_round_dp credits 2,
               ok_creditsChangePct = (if priorCredits \<noteq> 0
                 then Some (js_round_dp (fl (fl (fl (credits - priorCredits) / \<bar>priorCredits\<bar>) * 100)) 1) else None),
               ok_cashCollected = js_round_dp (fl (fl (sum_of cr_collected cash) - fl (sum_of cr_refunded cash))) 2,
               ok_creditLiability = js_round_dp (fl (coalesce (map_option fs_creditLiability snapshot) 0)) 2,
               ok_mrr = js_round_dp (fl (coalesce (map_option fs_mrr snapshot) 0)) 2,
               ok_billableEvents = attempted,
               ok_successRate = ratio (int_sum ub_succeeded usage) attempted 4,
               ok_apiRequests = totalRequests,
               ok_apiErrorRate = ratio (int_sum qr_serverErrors requests) totalRequests 4,
               ok_clientErrors = int_sum qr_clientErrors requests,
               ok_active = fold max (map fs_activeAccounts days) 0,
               ok_new = sum_list (map fs_newAccounts days),
               ok_activated = sum_list (map fs_activatedAccounts days),
               ok_customers = customerCounts start finish db,
               ok_openRiskFlags = count_where (\<lambda>f. fg_resolvedAt f = None) (od_flags db),
               ok_senderIdsAwaitingReview = count_where (\<lambda>r. rv_decidedAt r = None \<and> rv_status r \<in> {RS_SUBMITTED, RS_IN_REVIEW}) (od_reviews db),
               ok_senderIdsOverdue = count_where (\<lambda>r. rv_decidedAt r = None \<and> rv_slaDueAt r < now) (od_reviews db)\<rparr>))"

section \<open>Series\<close>

record overview_point =
  op_date :: millis
  op_creditsConsumed :: rat
  op_billableEvents :: rat
  op_successRate :: "rat option"
  op_apiRequests :: rat
  op_apiErrorRate :: "rat option"
  op_newAccounts :: nat
  op_mrr :: rat

text \<open>A day of the series; where two snapshots had one date the later would win.\<close>

definition overview_point_of :: "rollup_store \<Rightarrow> millis \<Rightarrow> overview_point" where
  "overview_point_of db date =
     (let u = daily_usage (\<lambda>d. d = date) db;
          r = filter (\<lambda>r. qr_date r = date) (rs_requests db);
          f = find_row (\<lambda>s. fs_date s = date) (rev (rs_finance db));
          attempted = int_sum ub_attempted u;
          calls = int_sum qr_total r
      in \<lparr>op_date = date, op_creditsConsumed = js_round_dp (fl (sum_of ub_revenue u)) 2,
          op_billableEvents = attempted, op_successRate = ratio (int_sum ub_succeeded u) attempted 4,
          op_apiRequests = calls, op_apiErrorRate = ratio (int_sum qr_serverErrors r) calls 4,
          op_newAccounts = coalesce (map_option fs_newAccounts f) 0,
          op_mrr = js_round_dp (fl (coalesce (map_option fs_mrr f) 0)) 2\<rparr>)"

definition loadTimeseries :: "(string \<Rightarrow> int option) \<Rightarrow> millis \<Rightarrow> string option \<Rightarrow> string option \<Rightarrow> rollup_store \<Rightarrow> overview_point list result" where
  "loadTimeseries parse now from to_day db =
     (case resolveRange parse now from to_day 30 of
        Inl e \<Rightarrow> Inl e
      | Inr (start, finish) \<Rightarrow> Inr (map (overview_point_of db) (eachLagosDay start finish)))"

text \<open>\<open>loadHealth\<close>: the jobs with their lag and their last run.\<close>

definition loadHealth :: "millis \<Rightarrow> rollup_store \<Rightarrow> (string \<times> millis \<times> int \<times> millis \<times> string option) list" where
  "loadHealth now db =
     map (\<lambda>w. (wm_job w, wm_processedTo w, round_minutes (now - wm_processedTo w), wm_lastRunAt w, wm_lastError w))
       (filter (\<lambda>w. wm_job w \<noteq> ''history.backfill'') (rs_watermarks db))"

section \<open>The feed\<close>

datatype activity_kind = ProviderDegraded | SenderidSubmitted | PaymentReceived | CustomerSignedUp | AccountFlagged

datatype activity_tone = ToneDanger | ToneWarning | ToneSuccess | ToneInfo | ToneNeutral

record activity_item =
  ai_id :: string
  ai_kind :: activity_kind
  ai_tone :: activity_tone
  ai_title :: string
  ai_detail :: string
  ai_at :: millis
  ai_link :: "string option"

record paid_transaction =
  px_id :: string
  px_accountId :: string
  px_status :: string
  px_amount :: rat
  px_description :: "string option"
  px_ownerName :: "string option"
  px_createdAt :: millis

record signed_up =
  su_id :: string
  su_ownerName :: "string option"
  su_createdAt :: millis

record sender_application =
  sa_id :: string
  sa_senderId :: string
  sa_businessName :: string
  sa_status :: string
  sa_createdAt :: millis

record health_sample =
  hs_id :: string
  hs_provider :: string
  hs_channel :: string
  hs_windowStart :: millis
  hs_windowEnd :: millis
  hs_attempted :: int
  hs_delivered :: int
  hs_failed :: int
  hs_avgDlrLatencyMs :: "int option"
  hs_errorRate :: rat
  hs_status :: string

record feed_db =
  fd_payments :: "paid_transaction list"
  fd_signups :: "signed_up list"
  fd_applications :: "sender_application list"
  fd_flags :: "risk_flag list"
  fd_samples :: "health_sample list"

text \<open>How numbers are written: \<open>toFixed(1)\<close>, the locale's grouping and the naira format.\<close>

record feed_texts =
  ft_fixed1 :: "rat \<Rightarrow> string"
  ft_locale :: "int \<Rightarrow> string"
  ft_naira :: "rat \<Rightarrow> string"

definition PER_SOURCE :: nat where "PER_SOURCE = 6"
definition FEED_LIMIT :: nat where "FEED_LIMIT = 12"

definition capitalise :: "string \<Rightarrow> string" where
  "capitalise v = toUpperCase (take 1 v) @ toLowerCase (drop 1 v)"

definition newest :: "nat \<Rightarrow> ('r \<Rightarrow> millis) \<Rightarrow> 'r list \<Rightarrow> 'r list" where
  "newest n at_time rows = take n (rev (sort_key at_time rows))"

definition provider_item :: "feed_texts \<Rightarrow> health_sample \<Rightarrow> activity_item" where
  "provider_item ft p =
     \<lparr>ai_id = ''provider-'' @ hs_id p, ai_kind = ProviderDegraded, ai_tone = ToneDanger,
      ai_title = capitalise (hs_channel p) @ '' delivery '' @ (if hs_status p = ''OUTAGE'' then ''down'' else ''degraded''),
      ai_detail = (if hs_attempted p \<noteq> 0
        then ft_fixed1 ft (fl (fl (hs_errorRate p) * 100)) @ ''% failures across '' @ ft_locale ft (hs_attempted p) @ '' sends via '' @ hs_provider p
        else hs_provider p @ '' reported '' @ int_text (hs_failed p) @ '' failures''),
      ai_at = hs_windowEnd p, ai_link = Some ''/services''\<rparr>"

definition application_item :: "sender_application \<Rightarrow> activity_item" where
  "application_item a =
     \<lparr>ai_id = ''senderid-'' @ sa_id a, ai_kind = SenderidSubmitted, ai_tone = ToneWarning,
      ai_title = ''Sender ID '' @ sa_senderId a @ '' submitted'', ai_detail = sa_businessName a @ ''  awaiting review'',
      ai_at = sa_createdAt a, ai_link = Some (''/compliance/sender-ids/'' @ sa_id a)\<rparr>"

definition payment_item :: "feed_texts \<Rightarrow> paid_transaction \<Rightarrow> activity_item" where
  "payment_item ft t =
     (let detail = join_with ''  '' (map the (filter truthy [px_ownerName t, px_description t])) in
      \<lparr>ai_id = ''payment-'' @ px_id t, ai_kind = PaymentReceived, ai_tone = ToneSuccess,
       ai_title = ''Payment received  '' @ ft_naira ft (fl (px_amount t)),
       ai_detail = (if detail = [] then ''Payment'' else detail),
       ai_at = px_createdAt t, ai_link = Some (''/customers/'' @ px_accountId t)\<rparr>)"

definition signup_item :: "signed_up \<Rightarrow> activity_item" where
  "signup_item s =
     \<lparr>ai_id = ''signup-'' @ su_id s, ai_kind = CustomerSignedUp, ai_tone = ToneNeutral, ai_title = ''New customer signed up'',
      ai_detail = coalesce (su_ownerName s) ''New account'', ai_at = su_createdAt s, ai_link = Some (''/customers/'' @ su_id s)\<rparr>"

definition flag_item :: "risk_flag \<Rightarrow> activity_item" where
  "flag_item f =
     \<lparr>ai_id = ''flag-'' @ dec (fg_id f), ai_kind = AccountFlagged,
      ai_tone = (if fg_severity f = LOW then ToneWarning else ToneDanger),
      ai_title = ''Account flagged'', ai_detail = fg_summary f, ai_at = fg_createdAt f,
      ai_link = Some (''/customers/'' @ fg_accountId f)\<rparr>"

text \<open>Every event there is, the rows each source keeps of them, and the merge.\<close>

definition feed_items :: "nat \<Rightarrow> feed_texts \<Rightarrow> millis \<Rightarrow> feed_db \<Rightarrow> activity_item list" where
  "feed_items n ft now db =
     map (provider_item ft) (newest n hs_windowStart
       (filter (\<lambda>p. now - 6 * 60 * 60000 \<le> hs_windowStart p \<and> hs_status p \<noteq> ''HEALTHY'') (fd_samples db)))
     @ map application_item (newest n sa_createdAt (filter (\<lambda>a. sa_status a = ''PENDING_REVIEW'') (fd_applications db)))
     @ map (payment_item ft) (newest n px_createdAt (filter (\<lambda>t. px_status t = ''SUCCESS'') (fd_payments db)))
     @ map signup_item (newest n su_createdAt (fd_signups db))
     @ map flag_item (newest n fg_createdAt (filter (\<lambda>f. fg_resolvedAt f = None) (fd_flags db)))"

definition activity_recent :: "feed_texts \<Rightarrow> millis \<Rightarrow> feed_db \<Rightarrow> activity_item list" where
  "activity_recent ft now db = take FEED_LIMIT (sort_key (\<lambda>i. - ai_at i) (feed_items PER_SOURCE ft now db))"

text \<open>
  The period a figure is compared with, the daily series against the source, and what the feed shows.
\<close>

section \<open>The period before\<close>

lemma span_days_range:
  assumes "f \<le> l" "l - f < 2 ^ 30"
  shows "span_days (day_start f) (day_end l) = l - f + 1"
proof -
  let ?n = "l - f + 1"
  let ?q = "of_int (day_end l - day_start f) / of_int (24 * 3600000) :: rat"
  have len: "day_end l - day_start f = ?n * day_len - 1" by (simp add: day_end_def day_start_def algebra_simps)
  have "(of_int (24 * 3600000) :: rat) = of_int day_len" by (simp add: day_len_def)
  then have q: "?q = of_int ?n - 1 / of_int day_len"
    unfolding len using day_len_pos by (simp add: field_simps)
  have d: "(1 :: rat) / of_int day_len \<le> 1 / 1024" "0 < (1 :: rat) / of_int day_len" by (simp_all add: day_len_def)
  have n: "(1 :: rat) \<le> of_int ?n" "of_int ?n \<le> (2 ^ 30 :: rat)"
  proof -
    have "(of_int 1 :: rat) \<le> of_int ?n" using assms(1) by (simp only: of_int_le_iff)
    then show "(1 :: rat) \<le> of_int ?n" by simp
    have "(of_int ?n :: rat) \<le> of_int (2 ^ 30)" using assms(2) by (simp only: of_int_le_iff)
    then show "of_int ?n \<le> (2 ^ 30 :: rat)" by simp
  qed
  define Q N c where "Q = ?q" and "N = (of_int ?n :: rat)" and "c = (1 :: rat) / of_int day_len"
  have b: "Q = N - c" "c \<le> 1 / 1024" "0 < c" "1 \<le> N" "N \<le> 2 ^ 30"
    unfolding Q_def N_def c_def by (rule q d n)+
  have "fl Q \<le> Q + 1 / 1024"
  proof (rule fl_above)
    show "0 \<le> Q" using b by linarith
    have "N \<le> 2 ^ 39" using b(5) by (rule order_trans) simp
    then show "Q \<le> 2 ^ 39" using b by linarith
  qed
  then have up: "fl Q \<le> N + 1 / 1024" using b by linarith
  have m: "(of_int (1024 * ?n - 1) :: rat) / 1024 = N - 1 / 1024" by (simp add: N_def diff_divide_distrib)
  have "of_int (1024 * ?n - 1) / 1024 \<le> fl Q"
  proof (rule fl_below)
    show "of_int (1024 * ?n - 1) / 1024 \<le> Q" unfolding m using b by linarith
    show "0 < 1024 * ?n - 1" using assms(1) by simp
    show "1024 * ?n - 1 \<le> 2 ^ 50" using assms(2) by simp
    have "N \<le> 2 ^ 60" using b(5) by (rule order_trans) simp
    then show "Q \<le> 2 ^ 60" using b by linarith
  qed (rule refl)
  with up have "N \<le> fl Q + 1 / 2" "fl Q + 1 / 2 < N + 1" unfolding m by linarith+
  then have "\<lfloor>fl Q + 1 / 2\<rfloor> = ?n" unfolding N_def by (simp add: floor_eq_iff)
  then have "js_round (fl ?q) = ?n" by (simp only: js_round_def Q_def)
  with assms(1) show ?thesis unfolding span_days_def by simp
qed

text \<open>
  The period a figure is compared with has as many days as the range and ends the day before it,
  whatever the rounding of the number of days does.
\<close>
theorem prior_period_adjacent:
  assumes "f \<le> l" "l - f < 2 ^ 30"
  shows "before_dates (day_start f) (day_end l) (d * day_len) \<longleftrightarrow> d \<in> {f - (l - f + 1) ..< f}"
proof -
  have "prior_begin (day_start f) (day_end l) = day_start (f - (l - f + 1))"
    unfolding prior_begin_def span_days_range [OF assms] by (simp add: day_start_def day_len_def algebra_simps)
  then show ?thesis using day_len_pos(1) by (auto simp: before_dates_def lagosDateOnly_def)
qed

section \<open>The series\<close>

lemma day_attempted:
  assumes "distinct (map usage_key (rs_usage db))" "older_stamps (rx_now env) d (rs_usage db)"
    "texts_ok src" "days_ok (rx_ymd env)"
  shows "(\<Sum>r \<leftarrow> filter (daily_row d) (rs_usage (snd (finaliseDay env src (day_start d) historical db))). ub_attempted r)
      = int (length (events_of_day src d))"
    "(\<Sum>r \<leftarrow> filter (daily_row d) (rs_usage (snd (finaliseDay env src (day_start d) historical db))). ub_succeeded r)
      = int (count_where (\<lambda>e. lg_status e = ''DELIVERED'') (events_of_day src d))"
proof -
  let ?t = "rs_usage (snd (finaliseDay env src (day_start d) historical db))"
  let ?K = "event_key ` set (events_of_day src d)"
  note r = replaced_day [OF assms(1,3,4,2), folded finaliseDay_usage [where historical = historical]]
  have dist: "distinct ?t" using r(1) by (simp only: distinct_map)
  have sums: "(\<Sum>u \<leftarrow> filter (daily_row d) ?t. g u) = (\<Sum>k \<in> ?K. g (source_row env src d k))" for g :: "usage_rollup \<Rightarrow> int"
  proof -
    have "(\<Sum>u \<leftarrow> filter (daily_row d) ?t. g u) = (\<Sum>u \<in> {u \<in> set ?t. daily_row d u}. g u)"
      using dist by (simp add: sum_list_distinct_conv_sum_set)
    also have "\<dots> = (\<Sum>k \<in> ?K. g (source_row env src d k))"
      unfolding r(2)
    proof (rule sum.reindex_cong [OF _ refl refl])
      show "inj_on (source_row env src d) ?K" by (rule inj_onI) (metis source_row_key prod.inject)
    qed
    finally show ?thesis .
  qed
  have count: "(\<Sum>k \<in> ?K. int (count_where (\<lambda>e. (lagos_day (lg_createdAt e) = d \<and> event_key e = k) \<and> p e) (pd_events src)))
      = int (count_where p (events_of_day src d))" for p
  proof -
    have "(\<Sum>k \<in> ?K. int (count_where (\<lambda>e. (lagos_day (lg_createdAt e) = d \<and> event_key e = k) \<and> p e) (pd_events src)))
        = (\<Sum>k \<in> ?K. \<Sum>e \<leftarrow> filter (\<lambda>e. event_key e = k) (events_of_day src d). if p e then 1 else 0)"
    proof (rule sum.cong [OF refl])
      fix k
      have "count_where (\<lambda>e. (lagos_day (lg_createdAt e) = d \<and> event_key e = k) \<and> p e) (pd_events src)
          = count_where p (filter (\<lambda>e. event_key e = k) (events_of_day src d))"
        unfolding count_where_def events_of_day_def filter_filter by (rule arg_cong [where f = length], rule filter_cong) auto
      then show "int (count_where (\<lambda>e. (lagos_day (lg_createdAt e) = d \<and> event_key e = k) \<and> p e) (pd_events src))
          = (\<Sum>e \<leftarrow> filter (\<lambda>e. event_key e = k) (events_of_day src d). if p e then 1 else 0)"
        by (simp only: count_as_sum)
    qed
    also have "\<dots> = (\<Sum>k \<leftarrow> js_set (map event_key (events_of_day src d)). \<Sum>e \<leftarrow> filter (\<lambda>e. event_key e = k) (events_of_day src d). if p e then 1 else 0)"
      by (simp add: sum_list_distinct_conv_sum_set)
    also have "\<dots> = (\<Sum>e \<leftarrow> events_of_day src d. if p e then 1 else 0)"
      by (rule sum_js_set_groups) simp_all
    finally show ?thesis by (simp only: count_as_sum)
  qed
  show "(\<Sum>u \<leftarrow> filter (daily_row d) ?t. ub_attempted u) = int (length (events_of_day src d))"
    using count [of "\<lambda>e. True"] by (simp add: sums source_row_def Let_def count_where_def)
  show "(\<Sum>u \<leftarrow> filter (daily_row d) ?t. ub_succeeded u) = int (count_where (\<lambda>e. lg_status e = ''DELIVERED'') (events_of_day src d))"
    using count [of "\<lambda>e. lg_status e = ''DELIVERED''"] by (simp add: sums source_row_def Let_def conj_assoc)
qed

text \<open>
  C18. The series has every day of the range once, in order, and for a day just finalised it counts
  exactly the product's events of the day and the share of them that was delivered.
\<close>
theorem overview_series_counts_source:
  assumes "distinct (map usage_key (rs_usage db))" "older_stamps (rx_now env) d (rs_usage db)"
    "texts_ok src" "days_ok (rx_ymd env)" "f \<le> d" "d \<le> l" "length (events_of_day src d) < 2 ^ 53"
  shows "let db' = snd (finaliseDay env src (day_start d) historical db);
      series = map (overview_point_of db') (eachLagosDay (day_start f) (day_end l));
      p = series ! nat (d - f); n = length (events_of_day src d)
    in map op_date series = map (\<lambda>d. d * day_len) [f..l] \<and> op_date p = d * day_len
     \<and> op_billableEvents p = of_nat n
     \<and> op_successRate p = ratio (of_nat (count_where (\<lambda>e. lg_status e = ''DELIVERED'') (events_of_day src d))) (of_nat n) 4"
proof -
  define db' where "db' = snd (finaliseDay env src (day_start d) historical db)"
  have e: "eachLagosDay (day_start f) (day_end l) = map (\<lambda>d. d * day_len) [f..l]"
    by (simp add: eachLagosDay_def day_loop_upto)
  have n: "map (overview_point_of db') (map (\<lambda>d. d * day_len) [f..l]) ! nat (d - f) = overview_point_of db' (d * day_len)"
    using assms(5,6) by (simp add: nth_upto)
  have u: "daily_usage (\<lambda>x. x = d * day_len) db' = filter (daily_row d) (rs_usage db')"
    by (simp add: daily_usage_def daily_row_def [abs_def] conj_commute)
  note a = day_attempted [OF assms(1-4), of historical, folded db'_def]
  have small: "fl (of_nat m) = of_nat m" if "m < 2 ^ 53" for m
    using fl_int [of "int m"] that by simp
  have "count_where (\<lambda>e. lg_status e = ''DELIVERED'') (events_of_day src d) < 2 ^ 53"
    using count_where_le assms(7) by (rule le_less_trans)
  note s = small [OF assms(7)] small [OF this]
  have "map op_date (map (overview_point_of db') (map (\<lambda>d. d * day_len) [f..l])) = map (\<lambda>d. d * day_len) [f..l]"
    by (simp add: overview_point_of_def Let_def comp_def)
  then show ?thesis
    unfolding Let_def e db'_def [symmetric] n
    by (simp add: overview_point_of_def Let_def u int_sum_def a s)
qed

theorem overview_series_counts_source_witness:
  "let db' = snd (finaliseDay (sample_env 50 50) sample_product (day_start 20000) False empty_store);
       series = map (overview_point_of db') (eachLagosDay (day_start 19999) (day_end 20000))
   in map op_date series = [19999 * day_len, 20000 * day_len] \<and> op_billableEvents (series ! 1) = of_nat (length (events_of_day sample_product 20000))"
proof -
  have u: "[19999..20000] = [19999, 20000::int]" by (simp add: upto_rec1)
  have n: "nat (20000 - 19999) = 1" by simp
  have h: "distinct (map usage_key (rs_usage empty_store))" "older_stamps (rx_now (sample_env 50 50)) 20000 (rs_usage empty_store)"
    "days_ok (rx_ymd (sample_env 50 50))" "(19999 :: int) \<le> 20000" "(20000 :: int) \<le> 20000"
    by (simp_all add: empty_store_def older_stamps_def sample_env_def plain_day_ok)
  have "length (events_of_day sample_product 20000) \<le> length (pd_events sample_product)"
    by (simp add: events_of_day_def)
  also have "\<dots> < 2 ^ 53" by (simp add: sample_product_def)
  finally have l: "length (events_of_day sample_product 20000) < 2 ^ 53" .
  show ?thesis
    using overview_series_counts_source [OF h(1,2) sample_texts h(3,4,5) l, of False]
    unfolding Let_def u n list.map by (elim conjE) (intro conjI; assumption)
qed

section \<open>The feed\<close>

text \<open>A row that fewer rows come before, or beside, than are taken is taken.\<close>

lemma take_ordered_keeps:
  fixes g :: "'r \<Rightarrow> int"
  assumes "sorted (map g ys)" "x \<in> set ys" "count_where (\<lambda>y. g y \<le> g x) ys \<le> n"
  shows "x \<in> set (take n ys)"
proof -
  obtain i where i: "i < length ys" "ys ! i = x" using assms(2) by (metis in_set_conv_nth)
  have "filter (\<lambda>y. g y \<le> g x) (take (Suc i) ys) = take (Suc i) ys"
  proof (rule filter_True, rule ballI)
    fix y assume "y \<in> set (take (Suc i) ys)"
    then obtain j where "j < Suc i" "y = ys ! j" "j < length ys" unfolding in_set_conv_nth by auto
    with sorted_nth_mono [OF assms(1), of j i] i show "g y \<le> g x" by simp
  qed
  then have "Suc i \<le> length (filter (\<lambda>y. g y \<le> g x) ys)"
    using i(1) append_take_drop_id [of "Suc i" ys]
    by (metis (no_types, lifting) Suc_leI filter_append le_add1 length_append length_take min.absorb2)
  with assms(3) have "i < n" by (simp add: count_where_def)
  then show ?thesis using i by (auto simp: in_set_conv_nth)
qed

lemma newest_keeps:
  assumes "x \<in> set xs" "count_where (\<lambda>y. f x \<le> f y) xs \<le> n"
  shows "x \<in> set (newest n f xs)"
  unfolding newest_def
proof (rule take_ordered_keeps [where g = "\<lambda>y. - f y"])
  have "sorted_wrt (\<lambda>a b. f a \<le> f b) (sort_key f xs)" using sorted_sort_key [of f xs] by (simp add: sorted_wrt_map)
  then show "sorted (map (\<lambda>y. - f y) (rev (sort_key f xs)))"
    by (simp add: sorted_wrt_map sorted_wrt_rev)
  show "x \<in> set (rev (sort_key f xs))" using assms(1) by simp
  show "count_where (\<lambda>y. - f y \<le> - f x) (rev (sort_key f xs)) \<le> n"
    using assms(2) by (simp add: count_where_def filter_sort rev_filter [symmetric])
qed

lemma newest_subset: "set (newest n f xs) \<subseteq> set xs"
  unfolding newest_def using set_take_subset by fastforce

text \<open>All the feed's events, however many a source has.\<close>

definition all_items :: "feed_texts \<Rightarrow> millis \<Rightarrow> feed_db \<Rightarrow> activity_item list" where
  "all_items ft now db =
     map (provider_item ft) (filter (\<lambda>p. now - 6 * 60 * 60000 \<le> hs_windowStart p \<and> hs_status p \<noteq> ''HEALTHY'') (fd_samples db))
     @ map application_item (filter (\<lambda>a. sa_status a = ''PENDING_REVIEW'') (fd_applications db))
     @ map (payment_item ft) (filter (\<lambda>t. px_status t = ''SUCCESS'') (fd_payments db))
     @ map signup_item (fd_signups db)
     @ map flag_item (filter (\<lambda>f. fg_resolvedAt f = None) (fd_flags db))"

lemma item_kinds:
  "ai_kind (provider_item ft p) = ProviderDegraded" "ai_kind (application_item a) = SenderidSubmitted"
  "ai_kind (payment_item ft t) = PaymentReceived" "ai_kind (signup_item s) = CustomerSignedUp" "ai_kind (flag_item f) = AccountFlagged"
  "ai_at (application_item a) = sa_createdAt a" "ai_at (payment_item ft t) = px_createdAt t"
  "ai_at (signup_item s) = su_createdAt s" "ai_at (flag_item f) = fg_createdAt f"
  by (simp_all add: provider_item_def application_item_def payment_item_def signup_item_def flag_item_def Let_def)

lemma count_where_map: "count_where p (map f xs) = count_where (\<lambda>x. p (f x)) xs"
  by (induction xs) simp_all

text \<open>One source: an event with at most n events of the source as new as it is among the n newest.\<close>

lemma source_keeps:
  assumes "i \<in> f ` set xs" "\<And>x. ai_at (f x) = at_time x" "count_where (\<lambda>j. ai_at i \<le> ai_at j) (map f xs) \<le> n"
  shows "i \<in> set (map f (newest n at_time xs))"
proof -
  obtain x where x: "x \<in> set xs" "i = f x" using assms(1) by blast
  have "count_where (\<lambda>y. at_time x \<le> at_time y) xs \<le> n"
    using assms(3) by (simp add: x(2) count_where_map assms(2))
  from newest_keeps [OF x(1) this] x(2) show ?thesis by simp
qed

lemma count_newest: "count_where p (newest n f xs) \<le> count_where p xs"
proof -
  have "count_where p (take n ys) \<le> count_where p ys" for ys
    using append_take_drop_id [of n ys] by (metis count_where_append le_add1)
  from this [of "rev (sort_key f xs)"] show ?thesis
    by (simp add: newest_def count_where_def filter_sort rev_filter [symmetric])
qed

lemma feed_count: "count_where p (feed_items n ft now db) \<le> count_where p (all_items ft now db)"
  unfolding feed_items_def all_items_def count_where_append count_where_map
  by (intro add_mono count_newest)

text \<open>
  The feed never drops what is newest: an event that at most six of all events are as new as, itself
  included, is in the feed, whichever source it is from (provider samples, which are taken by the start
  of their window and shown by its end, aside); and the feed is in order, the newest first.
\<close>
theorem feed_shows_newest:
  assumes "i \<in> set (all_items ft now db)" "ai_kind i \<noteq> ProviderDegraded"
    "count_where (\<lambda>j. ai_at i \<le> ai_at j) (all_items ft now db) \<le> 6"
  shows "i \<in> set (activity_recent ft now db) \<and> length (activity_recent ft now db) \<le> 12
    \<and> sorted_wrt (\<lambda>a b. ai_at b \<le> ai_at a) (activity_recent ft now db)"
proof -
  let ?p = "\<lambda>j. ai_at i \<le> ai_at j"
  have "i \<in> set (feed_items 6 ft now db)"
  proof -
    note parts = assms(3) [unfolded all_items_def count_where_append]
    from assms(1,2) consider
        "i \<in> application_item ` set (filter (\<lambda>a. sa_status a = ''PENDING_REVIEW'') (fd_applications db))"
      | "i \<in> payment_item ft ` set (filter (\<lambda>t. px_status t = ''SUCCESS'') (fd_payments db))"
      | "i \<in> signup_item ` set (fd_signups db)"
      | "i \<in> flag_item ` set (filter (\<lambda>f. fg_resolvedAt f = None) (fd_flags db))"
      by (auto simp: all_items_def item_kinds)
    then show ?thesis
    proof cases
      case 1
      from source_keeps [OF this item_kinds(6), of 6] parts show ?thesis by (simp add: feed_items_def)
    next
      case 2
      from source_keeps [OF this item_kinds(7), of 6] parts show ?thesis by (simp add: feed_items_def)
    next
      case 3
      from source_keeps [OF this item_kinds(8), of 6] parts show ?thesis by (simp add: feed_items_def)
    next
      case 4
      from source_keeps [OF this item_kinds(9), of 6] parts show ?thesis by (simp add: feed_items_def)
    qed
  qed
  moreover have "count_where (\<lambda>j. - ai_at j \<le> - ai_at i) (sort_key (\<lambda>i. - ai_at i) (feed_items 6 ft now db)) \<le> 12"
    using le_trans [OF feed_count assms(3), of 6] by (simp add: count_where_def filter_sort)
  moreover have order: "sorted (map (\<lambda>i. - ai_at i) (sort_key (\<lambda>i. - ai_at i) (feed_items 6 ft now db)))" by simp
  ultimately have "i \<in> set (activity_recent ft now db)"
    unfolding activity_recent_def PER_SOURCE_def FEED_LIMIT_def
    by (intro take_ordered_keeps [where g = "\<lambda>i. - ai_at i"]) simp_all
  moreover have "sorted_wrt (\<lambda>a b. ai_at b \<le> ai_at a) (activity_recent ft now db)"
    unfolding activity_recent_def PER_SOURCE_def using order by (simp add: sorted_wrt_map sorted_wrt_take)
  ultimately show ?thesis by (simp add: activity_recent_def FEED_LIMIT_def)
qed

end
