(* ===== verification/Messages.thy ===== *)
theory Messages
  imports Customer_List
begin

text \<open>
  \<open>modules/messages/message-signals.ts\<close> and \<open>messages.service.ts\<close>: the links of a message, its
  preview, and the messages a reviewer reads.  The URL parser's host is an argument.
\<close>

section \<open>Links\<close>

text \<open>The characters a link may go on with, and those taken off its end.\<close>

definition link_char :: "char \<Rightarrow> bool" where
  "link_char c \<longleftrightarrow> \<not> is_space c \<and> c \<notin> set ''<>)]'' \<and> of_char c \<noteq> (34 :: nat) \<and> of_char c \<noteq> (39 :: nat)"

definition trailing_mark :: "char \<Rightarrow> bool" where
  "trailing_mark c \<longleftrightarrow> c \<in> set ''.,;:!?''"

definition starts_insensitive :: "string \<Rightarrow> string \<Rightarrow> bool" where
  "starts_insensitive s p \<longleftrightarrow> startsWith (toLowerCase s) p"

text \<open>The literal part of a link that begins here: http, https or www.\<close>

definition link_head :: "string \<Rightarrow> nat option" where
  "link_head s =
     (if starts_insensitive s ''http://'' then Some 7
      else if starts_insensitive s ''https://'' then Some 8
      else if starts_insensitive s ''www.'' then Some 4
      else None)"

text \<open>One match at this place: the head and at least one more character.\<close>

definition link_at :: "string \<Rightarrow> string option" where
  "link_at s =
     (case link_head s of
        None \<Rightarrow> None
      | Some n \<Rightarrow> (let body = takeWhile link_char (drop n s) in if body = [] then None else Some (take n s @ body)))"

lemma link_at_prefix:
  assumes "link_at s = Some m"
  shows "m \<noteq> []" "take (length m) s = m"
proof -
  obtain n where n: "link_head s = Some n" "takeWhile link_char (drop n s) \<noteq> []" "m = take n s @ takeWhile link_char (drop n s)"
    using assms by (auto simp: link_at_def Let_def split: option.splits if_splits)
  show "m \<noteq> []" using n by simp
  have "s = take n s @ takeWhile link_char (drop n s) @ dropWhile link_char (drop n s)" by simp
  then have "s = m @ dropWhile link_char (drop n s)" unfolding n(3) append_assoc .
  then show "take (length m) s = m" by (metis append_eq_conv_conj)
qed

text \<open>The matches of the pattern, left to right; a link begins at a word boundary only.\<close>

function links_from :: "bool \<Rightarrow> string \<Rightarrow> string list" where
  "links_from word_before [] = []"
| "links_from word_before (c # cs) =
     (case (if word_before then None else link_at (c # cs)) of
        Some m \<Rightarrow> m # links_from (is_word (last m)) (drop (length m) (c # cs))
      | None \<Rightarrow> links_from (is_word c) cs)"
  by pat_completeness auto

termination
  by (relation "measure (\<lambda>(b, s). length s)") (auto dest!: link_at_prefix(1) split: if_splits)

definition trimmed_link :: "string \<Rightarrow> string" where
  "trimmed_link m = rev (dropWhile trailing_mark (rev m))"

record message_link =
  ml_url :: string
  ml_host :: string
  ml_shortener :: bool

definition SHORTENERS :: "string list" where
  "SHORTENERS = [''bit.ly'', ''tinyurl.com'', ''t.co'', ''goo.gl'', ''ow.ly'', ''is.gd'', ''buff.ly'', ''cutt.ly'',
     ''rb.gy'', ''shorturl.at'', ''tiny.cc'', ''rebrand.ly'']"

definition hostOf :: "(string \<Rightarrow> string option) \<Rightarrow> string \<Rightarrow> string" where
  "hostOf hostname url =
     (let full = (if starts_insensitive url ''http://'' \<or> starts_insensitive url ''https://'' then url else ''http://'' @ url)
      in case hostname full of
           None \<Rightarrow> []
         | Some h \<Rightarrow> (let low = toLowerCase h in if startsWith low ''www.'' then drop 4 low else low))"

definition link_of :: "(string \<Rightarrow> string option) \<Rightarrow> string \<Rightarrow> message_link" where
  "link_of hostname url =
     \<lparr>ml_url = url, ml_host = hostOf hostname url, ml_shortener = js_includes SHORTENERS (hostOf hostname url)\<rparr>"

definition extractLinks :: "(string \<Rightarrow> string option) \<Rightarrow> string option list \<Rightarrow> message_link list" where
  "extractLinks hostname texts =
     map (link_of hostname)
       (js_set (map trimmed_link (concat (map (\<lambda>t. case t of None \<Rightarrow> [] | Some s \<Rightarrow> links_from False s) texts))))"

section \<open>Preview\<close>

text \<open>\<open>replace(/\s+/g, ' ')\<close>.\<close>

fun flatten_spaces :: "string \<Rightarrow> string" where
  "flatten_spaces [] = []"
| "flatten_spaces [c] = (if is_space c then '' '' else [c])"
| "flatten_spaces (c # d # cs) =
     (if is_space c then (if is_space d then flatten_spaces (d # cs) else CHR '' '' # flatten_spaces (d # cs))
      else c # flatten_spaces (d # cs))"

definition message_preview :: "string option \<Rightarrow> nat \<Rightarrow> string" where
  "message_preview text n =
     (let flat = trim (flatten_spaces (case text of None \<Rightarrow> [] | Some t \<Rightarrow> t))
      in if length flat > n then take (n - 1) flat else flat)"

section \<open>Messages\<close>

record message_row =
  mg_id :: string
  mg_accountId :: string
  mg_projectId :: "string option"
  mg_channel :: string
  mg_status :: string
  mg_recipient :: string
  mg_content :: string
  mg_senderId :: "string option"
  mg_country :: "string option"
  mg_operator :: "string option"
  mg_error :: "string option"
  mg_requestId :: string
  mg_metadata :: "jval option"
  mg_createdAt :: millis

record mail_event =
  me_id :: string
  me_from :: string
  me_replyTo :: "string option"
  me_subject :: string
  me_text :: "string option"
  me_html :: "string option"
  me_variables :: "jval option"
  me_templateId :: "string option"

record message_query =
  mq_limit :: "nat option"
  mq_from :: "string option"
  mq_to :: "string option"
  mq_channel :: "string option"
  mq_accountId :: "string option"
  mq_projectId :: "string option"
  mq_status :: "string option"
  mq_templateId :: "string option"
  mq_q :: "string option"

definition maskRecipient :: "string \<Rightarrow> string \<Rightarrow> string" where
  "maskRecipient channel v =
     (case (if channel = ''EMAIL'' then maskEmail (Some v) else maskPhone (Some v)) of None \<Rightarrow> ''***'' | Some m \<Rightarrow> m)"

definition metadata_field :: "message_row \<Rightarrow> string \<Rightarrow> jval option" where
  "metadata_field r k = (case mg_metadata r of None \<Rightarrow> None | Some v \<Rightarrow> field_of v k)"

definition message_where :: "message_query \<Rightarrow> millis \<Rightarrow> millis \<Rightarrow> message_row \<Rightarrow> bool" where
  "message_where query start finish r \<longleftrightarrow>
     start \<le> mg_createdAt r \<and> mg_createdAt r \<le> finish
     \<and> wants (mq_channel query) (mg_channel r) \<and> wants (mq_accountId query) (mg_accountId r)
     \<and> (truthy (mq_projectId query) \<longrightarrow> mg_projectId r = mq_projectId query)
     \<and> wants (mq_status query) (mg_status r)
     \<and> (truthy (mq_templateId query) \<longrightarrow> metadata_field r ''templateId'' = map_option JvStr (mq_templateId query))
     \<and> (let q = map_option trim (mq_q query) in truthy q \<longrightarrow> contains_insensitive (mg_content r) (the q))"

record message_line =
  mi_id :: string
  mi_channel :: string
  mi_status :: string
  mi_accountId :: string
  mi_projectId :: "string option"
  mi_recipient :: string
  mi_sender :: "jval option"
  mi_country :: "string option"
  mi_templateId :: "jval option"
  mi_templateName :: "jval option"
  mi_preview :: string
  mi_hasLinks :: bool
  mi_createdAt :: millis

text \<open>\<open>x ?? y ?? null\<close> of values that may be JSON nulls.\<close>

definition present :: "jval option \<Rightarrow> jval option" where
  "present v = (if v = Some JvNull then None else v)"

definition message_line_of :: "(string \<Rightarrow> string option) \<Rightarrow> message_row \<Rightarrow> message_line" where
  "message_line_of hostname r =
     \<lparr>mi_id = mg_id r, mi_channel = mg_channel r, mi_status = mg_status r, mi_accountId = mg_accountId r,
      mi_projectId = mg_projectId r, mi_recipient = maskRecipient (mg_channel r) (mg_recipient r),
      mi_sender = (case mg_senderId r of Some i \<Rightarrow> Some (JvStr i) | None \<Rightarrow> present (metadata_field r ''from'')),
      mi_country = mg_country r,
      mi_templateId = present (metadata_field r ''templateId''), mi_templateName = present (metadata_field r ''templateName''),
      mi_preview = message_preview (Some (mg_content r)) 160,
      mi_hasLinks = (extractLinks hostname [Some (mg_content r)] \<noteq> []),
      mi_createdAt = mg_createdAt r\<rparr>"

definition message_key :: "message_row \<Rightarrow> cursor_key" where
  "message_key r = (mg_createdAt r, mg_id r)"

definition list_messages ::
  "(string \<Rightarrow> string option) \<Rightarrow> (string \<Rightarrow> int option) \<Rightarrow> millis \<Rightarrow> message_query \<Rightarrow> cursor_key option \<Rightarrow> message_row list
     \<Rightarrow> (message_line, cursor_key) page result" where
  "list_messages hostname parse now query cursor rows =
     (let limit = (case mq_limit query of None \<Rightarrow> 50 | Some n \<Rightarrow> n) in
      case resolveRange parse now (mq_from query) (mq_to query) 7 of
        Inl e \<Rightarrow> Inl e
      | Inr (start, finish) \<Rightarrow>
          Inr (map_page (message_line_of hostname)
            (buildPage message_key (findMany_desc message_key cursor (limit + 1) (filter (message_where query start finish) rows)) limit)))"

section \<open>One message\<close>

text \<open>What every message shows, and what an email or another message shows besides.\<close>

record message_base =
  mb_id :: string
  mb_channel :: string
  mb_status :: string
  mb_accountId :: string
  mb_projectId :: "string option"
  mb_recipient :: string
  mb_country :: "string option"
  mb_operator :: "string option"
  mb_error :: "string option"
  mb_createdAt :: millis

datatype message_body =
    PlainBody "string option" string "message_link list"
  | EmailBody "string option" "string option" string "string option" "string option" bool "jval option"
      "(string \<times> string \<times> string) option" "message_link list"

definition message_base_of :: "message_row \<Rightarrow> message_base" where
  "message_base_of r =
     \<lparr>mb_id = mg_id r, mb_channel = mg_channel r, mb_status = mg_status r, mb_accountId = mg_accountId r,
      mb_projectId = mg_projectId r, mb_recipient = maskRecipient (mg_channel r) (mg_recipient r), mb_country = mg_country r,
      mb_operator = mg_operator r, mb_error = mg_error r, mb_createdAt = mg_createdAt r\<rparr>"

text \<open>The body of an email: from its mail event, where there is one; templates are id, name and status.\<close>

definition email_body :: "(string \<Rightarrow> string option) \<Rightarrow> mail_event list \<Rightarrow> (string \<times> string \<times> string) list \<Rightarrow> message_row \<Rightarrow> message_body" where
  "email_body hostname mails templates r =
     (case find_row (\<lambda>m. me_id m = mg_requestId r) mails of
        None \<Rightarrow> EmailBody None None (mg_content r) None None True None None (extractLinks hostname [None, None, None])
      | Some m \<Rightarrow>
          EmailBody (Some (me_from m)) (me_replyTo m) (me_subject m) (me_text m) (me_html m)
            (me_html m = None \<and> me_text m = None) (me_variables m)
            (if truthy (me_templateId m) then find_row (\<lambda>(i, n, s). Some i = me_templateId m) templates else None)
            (extractLinks hostname [me_text m, me_html m, Some (me_subject m)]))"

definition get_message ::
  "(string \<Rightarrow> string option) \<Rightarrow> mail_event list \<Rightarrow> (string \<times> string \<times> string) list \<Rightarrow> string \<Rightarrow> message_row list
     \<Rightarrow> (message_base \<times> message_body) result" where
  "get_message hostname mails templates i rows =
     (case find_row (\<lambda>r. mg_id r = i) rows of
        None \<Rightarrow> Inl (NotFound ''Message not found'')
      | Some r \<Rightarrow> Inr (message_base_of r,
          if mg_channel r \<noteq> ''EMAIL'' then PlainBody (mg_senderId r) (mg_content r) (extractLinks hostname [Some (mg_content r)])
          else email_body hostname mails templates r))"

section \<open>What is shown\<close>

lemma extract_distinct: "distinct (map ml_url (extractLinks hostname texts))"
  by (simp add: extractLinks_def link_of_def comp_def)

text \<open>Every link found is in the text.\<close>

lemma links_in_text: "m \<in> set (links_from b s) \<Longrightarrow> \<exists>xs ys. s = xs @ m @ ys"
proof (induction b s rule: links_from.induct)
  case (2 b c cs)
  show ?case
  proof (cases "if b then None else link_at (c # cs)")
    case None
    with 2 obtain xs ys where "cs = xs @ m @ ys" by auto
    then have "c # cs = (c # xs) @ m @ ys" by simp
    then show ?thesis by blast
  next
    case (Some k)
    then have k: "link_at (c # cs) = Some k" by (simp split: if_splits)
    have split: "c # cs = k @ drop (length k) (c # cs)"
      using link_at_prefix(2) [OF k] append_take_drop_id [of "length k" "c # cs"] by metis
    show ?thesis
    proof (cases "m = k")
      case True
      with split have "c # cs = [] @ m @ drop (length k) (c # cs)" by simp
      then show ?thesis by blast
    next
      case False
      with 2 Some obtain xs ys where "drop (length k) (c # cs) = xs @ m @ ys" by auto
      with split have "c # cs = (k @ xs) @ m @ ys" by (metis append_assoc)
      then show ?thesis by blast
    qed
  qed
qed simp

text \<open>A text reported without links has none: at no word boundary does one begin.\<close>

lemma no_links:
  assumes "links_from b (xs @ ys) = []" "xs = [] \<Longrightarrow> \<not> b" "xs \<noteq> [] \<Longrightarrow> \<not> is_word (last xs)"
  shows "link_at ys = None"
  using assms
proof (induction xs arbitrary: b)
  case Nil
  then show ?case by (cases ys) (auto simp: link_at_def link_head_def starts_insensitive_def startsWith_def toLowerCase_def split: option.splits)
next
  case (Cons x xs)
  have "links_from (is_word x) (xs @ ys) = []"
    using Cons.prems(1) by (simp split: option.splits)
  then show ?case using Cons.prems(3) by (intro Cons.IH) auto
qed

text \<open>
  The list's mark for links misses none: a message is marked as having links exactly when one begins
  somewhere in it, at its start or after a character that is not part of a word.
\<close>
theorem links_flag_exact:
  "mi_hasLinks (message_line_of hostname r) \<longleftrightarrow>
     (\<exists>xs ys. mg_content r = xs @ ys \<and> link_at ys \<noteq> None \<and> \<not> (xs \<noteq> [] \<and> is_word (last xs)))"
proof -
  have some: "\<exists>xs ys. s = xs @ ys \<and> link_at ys \<noteq> None \<and> (xs = [] \<and> \<not> b \<or> xs \<noteq> [] \<and> \<not> is_word (last xs))" if "links_from b s \<noteq> []" for b s
    using that
  proof (induction b s rule: links_from.induct)
    case (2 b c cs)
    show ?case
    proof (cases "if b then None else link_at (c # cs)")
      case None
      with 2 obtain xs ys where "cs = xs @ ys" "link_at ys \<noteq> None" "xs = [] \<and> \<not> is_word c \<or> xs \<noteq> [] \<and> \<not> is_word (last xs)" by auto
      then show ?thesis by (intro exI [of _ "c # xs"] exI [of _ ys]) auto
    next
      case (Some k)
      then show ?thesis by (intro exI [of _ "[]"] exI [of _ "c # cs"]) (auto split: if_splits)
    qed
  qed simp
  have "mi_hasLinks (message_line_of hostname r) \<longleftrightarrow> links_from False (mg_content r) \<noteq> []"
  proof -
    have "js_set xs = [] \<longleftrightarrow> xs = []" for xs :: "string list" by (cases xs) simp_all
    then show ?thesis by (simp add: message_line_of_def extractLinks_def)
  qed
  also have "\<dots> \<longleftrightarrow> (\<exists>xs ys. mg_content r = xs @ ys \<and> link_at ys \<noteq> None \<and> \<not> (xs \<noteq> [] \<and> is_word (last xs)))"
    using some [of False "mg_content r"] no_links [of False] by metis
  finally show ?thesis .
qed

text \<open>Following the cursors of the list shows every message that matches once, the newest first.\<close>

lemma messages_walk_complete:
  assumes "resolveRange parse now (mq_from query) (mq_to query) 7 = Inr (start, finish)" "distinct (map mg_id rows)"
    "length rows < fuel" "mq_limit query \<noteq> Some 0"
  shows "walk_pages (\<lambda>c. projr (list_messages hostname parse now query c rows)) fuel None =
    map (message_line_of hostname) (newest_first message_key (filter (message_where query start finish) rows))"
proof -
  let ?n = "case mq_limit query of None \<Rightarrow> 50 | Some n \<Rightarrow> n"
  let ?found = "filter (message_where query start finish) rows"
  have "distinct (map message_key ?found)"
    using assms(2) by (auto simp: distinct_map inj_on_def message_key_def intro: distinct_filter)
  moreover have "0 < ?n" using assms(4) by (auto split: option.splits)
  moreover have "length ?found < fuel" using assms(3) le_less_trans [OF length_filter_le] by blast
  ultimately have "walk_pages (\<lambda>c. buildPage message_key (findMany_desc message_key c (?n + 1) ?found) ?n) fuel None
      = newest_first message_key ?found"
    unfolding newest_first_def by (rule desc_pages_cover_rows)
  moreover have "(\<lambda>c. projr (list_messages hostname parse now query c rows))
      = (\<lambda>c. map_page (message_line_of hostname) (buildPage message_key (findMany_desc message_key c (?n + 1) ?found) ?n))"
    by (simp add: list_messages_def assms(1) Let_def)
  ultimately show ?thesis by (simp only: walk_map_page)
qed

lemma message_preview_length: "length (message_preview text n) \<le> n"
  by (simp add: message_preview_def Let_def)

end
