(* ===== verification/Provider_Health.thy ===== *)
theory Provider_Health
  imports Overview
begin

text \<open>
  \<open>modules/services/provider-health.service.ts\<close>: the delivery health of a route, an operator with a
  channel, from the failures of the last ten minutes.  The thresholds compare doubles.
\<close>

section \<open>A window\<close>

definition OUTAGE_ERROR_RATE :: rat where "OUTAGE_ERROR_RATE = fl (4 / 10)"
definition DEGRADED_ERROR_RATE :: rat where "DEGRADED_ERROR_RATE = fl (1 / 10)"
definition WINDOW_MINUTES :: int where "WINDOW_MINUTES = 10"
definition MIN_SAMPLE :: nat where "MIN_SAMPLE = 20"

record route_counts =
  rc_provider :: string
  rc_channel :: string
  rc_attempted :: nat
  rc_delivered :: nat
  rc_failed :: nat

definition route_key :: "log_event \<Rightarrow> string \<times> string" where
  "route_key e = (coalesce (lg_operator e) ''UNKNOWN'', lg_channel e)"

definition window_routes :: "millis \<Rightarrow> log_event list \<Rightarrow> route_counts list" where
  "window_routes now events =
     map (\<lambda>((provider, channel), es).
        \<lparr>rc_provider = provider, rc_channel = channel, rc_attempted = length es,
         rc_delivered = count_where (\<lambda>e. lg_status e = ''DELIVERED'') es,
         rc_failed = count_where (\<lambda>e. lg_status e = ''FAILED'') es\<rparr>)
       (group_rows route_key (filter (\<lambda>e. in_window (now - WINDOW_MINUTES * 60000) now (lg_createdAt e)) events))"

definition error_rate :: "nat \<Rightarrow> nat \<Rightarrow> rat" where
  "error_rate attempted failed = (if attempted \<noteq> 0 then fl (of_nat failed / of_nat attempted) else 0)"

definition route_status :: "nat \<Rightarrow> nat \<Rightarrow> string" where
  "route_status attempted failed =
     (if attempted < MIN_SAMPLE then ''HEALTHY''
      else if error_rate attempted failed \<ge> OUTAGE_ERROR_RATE then ''OUTAGE''
      else if error_rate attempted failed \<ge> DEGRADED_ERROR_RATE then ''DEGRADED''
      else ''HEALTHY'')"

section \<open>Sampling\<close>

text \<open>\<open>he_broadcasts\<close> are the alerts handed to the inbox, each with its route.\<close>

record health_state =
  he_samples :: "health_sample list"
  he_next :: nat
  he_inbox :: inbox_state
  he_broadcasts :: "((string \<times> string) \<times> string) list"

definition sample_route :: "health_sample \<Rightarrow> string \<times> string" where
  "sample_route p = (hs_provider p, hs_channel p)"

definition latest_sample :: "string \<times> string \<Rightarrow> health_sample list \<Rightarrow> health_sample option" where
  "latest_sample route rows =
     (case rev (sort_key hs_windowStart (filter (\<lambda>p. sample_route p = route) rows)) of [] \<Rightarrow> None | p # ps \<Rightarrow> Some p)"

definition new_sample :: "string \<Rightarrow> millis \<Rightarrow> route_counts \<Rightarrow> health_sample" where
  "new_sample i now row =
     \<lparr>hs_id = i, hs_provider = rc_provider row, hs_channel = rc_channel row,
      hs_windowStart = now - WINDOW_MINUTES * 60000, hs_windowEnd = now,
      hs_attempted = int (rc_attempted row), hs_delivered = int (rc_delivered row), hs_failed = int (rc_failed row),
      hs_avgDlrLatencyMs = None,
      hs_errorRate = of_int \<lfloor>error_rate (rc_attempted row) (rc_failed row) * 10 ^ 4 + 1 / 2\<rfloor> / 10 ^ 4,
      hs_status = route_status (rc_attempted row) (rc_failed row)\<rparr>"

text \<open>An update leaves the window's end and the latency as they are.\<close>

definition upsert_sample :: "health_sample \<Rightarrow> health_sample list \<Rightarrow> health_sample list" where
  "upsert_sample new rows =
     upsert_row (\<lambda>p. (sample_route p, hs_windowStart p))
       (\<lambda>new old. old\<lparr>hs_attempted := hs_attempted new, hs_delivered := hs_delivered new, hs_failed := hs_failed new,
          hs_errorRate := hs_errorRate new, hs_status := hs_status new\<rparr>) new rows"

definition outage_alert :: "feed_texts \<Rightarrow> route_counts \<Rightarrow> staff_alert" where
  "outage_alert ft row =
     (let status = route_status (rc_attempted row) (rc_failed row); rate = error_rate (rc_attempted row) (rc_failed row) in
      \<lparr>al_type = ''provider.outage'', al_severity = (if status = ''OUTAGE'' then CRITICAL else HIGH),
       al_title = rc_provider row @ '' ('' @ rc_channel row @ '') is '' @ toLowerCase status,
       al_body = Some (ft_fixed1 ft (fl (rate * 100)) @ ''% failures across '' @ dec (rc_attempted row)
         @ '' sends in the last 10 minutes''),
       al_link = Some (''/services/'' @ toLowerCase (rc_channel row))\<rparr>)"

definition sample_row :: "feed_texts \<Rightarrow> millis \<Rightarrow> route_counts \<Rightarrow> health_state \<Rightarrow> health_state" where
  "sample_row ft now row s =
     (let route = (rc_provider row, rc_channel row);
          status = route_status (rc_attempted row) (rc_failed row);
          previous = latest_sample route (he_samples s);
          s1 = s\<lparr>he_samples := upsert_sample (new_sample (dec (he_next s)) now row) (he_samples s), he_next := Suc (he_next s)\<rparr>
      in case previous of
           None \<Rightarrow> s1
         | Some p \<Rightarrow>
             if hs_status p \<noteq> status \<and> status \<noteq> ''HEALTHY''
             then s1\<lparr>he_inbox := snd (broadcastToPermission now ''metrics.read'' (outage_alert ft row) (he_inbox s1)),
                     he_broadcasts := he_broadcasts s1 @ [(route, status)]\<rparr>
             else s1)"

definition sample_health :: "feed_texts \<Rightarrow> millis \<Rightarrow> log_event list \<Rightarrow> health_state \<Rightarrow> nat \<times> health_state" where
  "sample_health ft now events s =
     (let rows = window_routes now events in (length rows, foldl (\<lambda>s row. sample_row ft now row s) s rows))"

section \<open>The current state\<close>

record health_line =
  hl_provider :: string
  hl_channel :: string
  hl_status :: string
  hl_errorRate :: rat
  hl_avgDlrLatencyMs :: "int option"
  hl_windowStart :: millis
  hl_trend :: "(millis \<times> rat \<times> string) list"

text \<open>The newest first; each route is shown with its newest sample and its last thirty-six.\<close>

definition loadCurrent :: "millis \<Rightarrow> health_sample list \<Rightarrow> health_line list" where
  "loadCurrent now rows =
     (let samples = rev (sort_key hs_windowStart (filter (\<lambda>p. now - 6 * 60 * 60000 \<le> hs_windowStart p) rows)) in
      map (\<lambda>(key, ps). let p = hd ps in
          \<lparr>hl_provider = hs_provider p, hl_channel = hs_channel p, hl_status = hs_status p, hl_errorRate = hs_errorRate p,
           hl_avgDlrLatencyMs = hs_avgDlrLatencyMs p, hl_windowStart = hs_windowStart p,
           hl_trend = map (\<lambda>q. (hs_windowStart q, hs_errorRate q, hs_status q)) (take 36 ps)\<rparr>)
        (group_rows (\<lambda>p. hs_provider p @ '':'' @ hs_channel p) samples))"

section \<open>The thresholds\<close>

text \<open>A share compared with a threshold: doubles close around the exact fraction decide as the fraction does.\<close>

lemma representable_scaled:
  assumes "\<bar>m\<bar> \<le> 2 ^ 53" "k \<le> 100"
  shows "representable (of_int m / 2 ^ k)"
proof -
  have "(of_int m / 2 ^ k :: rat) = of_int m * p2 (- int k)" by (simp add: power_int_minus divide_inverse)
  moreover have "- 1074 \<le> - int k" using assms(2) by simp
  moreover have "\<bar>of_int m / 2 ^ k :: rat\<bar> < 2 ^ 1024"
  proof -
    have "\<bar>of_int m / 2 ^ k :: rat\<bar> \<le> of_int \<bar>m\<bar> / 1" unfolding abs_divide of_int_abs by (rule divide_left_mono) simp_all
    also have "\<dots> \<le> of_int (2 ^ 53)" using assms(1) by (simp only: div_by_1 of_int_le_iff)
    also have "\<dots> < 2 ^ 1024" by simp
    finally show ?thesis .
  qed
  ultimately show ?thesis using assms(1) unfolding representable_def by blast
qed

lemma threshold_exact:
  fixes attempted failed num den :: nat
  defines "t \<equiv> of_nat num / of_nat den :: rat"
  assumes "0 < attempted" "attempted \<le> 2 ^ 49" "failed \<le> attempted" "0 < den" "den \<le> 16" "t \<le> 1"
    "representable hi" "t \<le> hi" "hi \<le> t + 1 / 2 ^ 53"
    "representable lo" "lo \<le> t" "0 < lo"
    "representable r" "r < lo" "t - 1 / 2 ^ 53 \<le> r"
  shows "fl t \<le> error_rate attempted failed \<longleftrightarrow> num * attempted \<le> den * failed"
proof -
  let ?q = "of_nat failed / of_nat attempted :: rat"
  have a: "0 < (of_nat attempted :: rat)" "0 < (of_nat den :: rat)" using assms by simp_all
  have e: "error_rate attempted failed = fl ?q" using assms by (simp add: error_rate_def)
  have le1: "?q \<le> 1" using assms(4) a by simp
  have gap: "1 / 2 ^ 53 \<le> (1 :: rat) / (of_nat den * of_nat attempted)"
  proof (rule divide_left_mono)
    have "(of_nat (den * attempted) :: rat) \<le> of_nat (16 * 2 ^ 49)"
      using assms(3,6) by (intro of_nat_mono mult_mono) simp_all
    then show "(of_nat den * of_nat attempted :: rat) \<le> 2 ^ 53" by simp
  qed (use a in simp_all)
  have diff: "?q - t = (of_nat (den * failed) - of_nat (num * attempted)) / (of_nat den * of_nat attempted)"
    unfolding t_def using a by (simp add: field_simps)
  have ft: "fl t \<le> hi" "lo \<le> fl t"
  proof -
    show "fl t \<le> hi" using assms(8,9,12,13) by (intro fl_le) simp_all
    have "t \<le> 2 ^ 60" using assms(7) by (rule order_trans) simp
    then show "lo \<le> fl t" using assms(11,12,13) by (intro fl_ge) simp_all
  qed
  consider "num * attempted = den * failed" | "num * attempted + 1 \<le> den * failed" | "den * failed + 1 \<le> num * attempted" by linarith
  then show ?thesis
  proof cases
    case 1
    then have "?q = t" using diff by simp
    with 1 e show ?thesis by simp
  next
    case 2
    then have "(of_nat (num * attempted + 1) :: rat) \<le> of_nat (den * failed)" by (simp only: of_nat_mono)
    then have "1 \<le> (of_nat (den * failed) - of_nat (num * attempted) :: rat)" by (simp only: of_nat_add of_nat_1)
    then have "1 / (of_nat den * of_nat attempted) \<le> ?q - t" unfolding diff using a by (intro divide_right_mono) simp_all
    then have "hi \<le> ?q" using gap assms(10) by linarith
    moreover have "0 < hi" using assms(9,12,13) by linarith
    moreover have "?q \<le> 2 ^ 60" using le1 by (rule order_trans) simp
    ultimately have "hi \<le> fl ?q" using assms(8) by (intro fl_ge) simp_all
    with 2 e ft(1) show ?thesis by simp
  next
    case 3
    then have "(of_nat (den * failed + 1) :: rat) \<le> of_nat (num * attempted)" by (simp only: of_nat_mono)
    then have "(of_nat (den * failed) - of_nat (num * attempted) :: rat) \<le> - 1" by (simp only: of_nat_add of_nat_1)
    then have "?q - t \<le> - 1 / (of_nat den * of_nat attempted)" unfolding diff using a by (intro divide_right_mono) simp_all
    then have "?q \<le> r" using gap assms(16) by simp
    then have "fl ?q \<le> r" using assms(14) by (intro fl_le) simp_all
    with 3 e assms(15) ft(2) show ?thesis by simp
  qed
qed

text \<open>The status of a window is that of the exact fractions, a tenth and two fifths, whatever the rounding does.\<close>

lemma status_exact:
  assumes "attempted \<le> 2 ^ 49" "failed \<le> attempted"
  shows "route_status attempted failed =
    (if attempted < 20 then ''HEALTHY'' else if 2 * attempted \<le> 5 * failed then ''OUTAGE''
     else if attempted \<le> 10 * failed then ''DEGRADED'' else ''HEALTHY'')"
proof (cases "attempted < 20")
  case False
  let ?m = "7205759403792793"
  have out: "OUTAGE_ERROR_RATE \<le> error_rate attempted failed \<longleftrightarrow> 2 * attempted \<le> 5 * failed"
  proof -
    have "representable (of_int (?m + 1) / 2 ^ 54)" "representable (of_int ?m / 2 ^ 54)" "representable (of_int (?m - 1) / 2 ^ 54)"
      by (rule representable_scaled; simp)+
    moreover have "of_nat 2 / of_nat 5 \<le> (of_int (?m + 1) / 2 ^ 54 :: rat)" "of_int (?m + 1) / 2 ^ 54 \<le> (of_nat 2 / of_nat 5 + 1 / 2 ^ 53 :: rat)"
      "of_int ?m / 2 ^ 54 \<le> (of_nat 2 / of_nat 5 :: rat)" "(of_nat 2 / of_nat 5 :: rat) - 1 / 2 ^ 53 \<le> of_int (?m - 1) / 2 ^ 54"
      "(of_nat 2 / of_nat 5 :: rat) \<le> 1" "(0 :: rat) < of_int ?m / 2 ^ 54" "(of_int (?m - 1) / 2 ^ 54 :: rat) < of_int ?m / 2 ^ 54"
      by simp_all
    note near = calculation this
    have "fl (of_nat 2 / of_nat 5) \<le> error_rate attempted failed \<longleftrightarrow> 2 * attempted \<le> 5 * failed"
      by (rule threshold_exact [where hi = "of_int (?m + 1) / 2 ^ 54" and lo = "of_int ?m / 2 ^ 54" and r = "of_int (?m - 1) / 2 ^ 54"])
        (rule near | use assms False in simp)+
    then show ?thesis by (simp add: OUTAGE_ERROR_RATE_def)
  qed
  have deg: "DEGRADED_ERROR_RATE \<le> error_rate attempted failed \<longleftrightarrow> 1 * attempted \<le> 10 * failed"
  proof -
    have "representable (of_int (?m + 1) / 2 ^ 56)" "representable (of_int ?m / 2 ^ 56)" "representable (of_int (?m - 1) / 2 ^ 56)"
      by (rule representable_scaled; simp)+
    moreover have "of_nat 1 / of_nat 10 \<le> (of_int (?m + 1) / 2 ^ 56 :: rat)" "of_int (?m + 1) / 2 ^ 56 \<le> (of_nat 1 / of_nat 10 + 1 / 2 ^ 53 :: rat)"
      "of_int ?m / 2 ^ 56 \<le> (of_nat 1 / of_nat 10 :: rat)" "(of_nat 1 / of_nat 10 :: rat) - 1 / 2 ^ 53 \<le> of_int (?m - 1) / 2 ^ 56"
      "(of_nat 1 / of_nat 10 :: rat) \<le> 1" "(0 :: rat) < of_int ?m / 2 ^ 56" "(of_int (?m - 1) / 2 ^ 56 :: rat) < of_int ?m / 2 ^ 56"
      by simp_all
    note near = calculation this
    have "fl (of_nat 1 / of_nat 10) \<le> error_rate attempted failed \<longleftrightarrow> 1 * attempted \<le> 10 * failed"
      by (rule threshold_exact [where hi = "of_int (?m + 1) / 2 ^ 56" and lo = "of_int ?m / 2 ^ 56" and r = "of_int (?m - 1) / 2 ^ 56"])
        (rule near | use assms False in simp)+
    then show ?thesis by (simp add: DEGRADED_ERROR_RATE_def)
  qed
  show ?thesis using False out deg by (simp add: route_status_def MIN_SAMPLE_def)
qed (simp add: route_status_def MIN_SAMPLE_def)

section \<open>Alerts\<close>

text \<open>Runs of the job, each with its clock and the events there are.\<close>

fun health_runs :: "feed_texts \<Rightarrow> (millis \<times> log_event list) list \<Rightarrow> health_state \<Rightarrow> health_state" where
  "health_runs ft [] s = s"
| "health_runs ft ((now, events) # runs) s = health_runs ft runs (snd (sample_health ft now events s))"

definition no_samples :: "inbox_state \<Rightarrow> health_state" where
  "no_samples ib = \<lparr>he_samples = [], he_next = 0, he_inbox = ib, he_broadcasts = []\<rparr>"

definition row_route :: "route_counts \<Rightarrow> string \<times> string" where
  "row_route row = (rc_provider row, rc_channel row)"

definition row_status :: "route_counts \<Rightarrow> string" where
  "row_status row = route_status (rc_attempted row) (rc_failed row)"

text \<open>The status of a route in a run, None where it carried nothing.\<close>

definition seen_status :: "string \<times> string \<Rightarrow> millis \<times> log_event list \<Rightarrow> string option" where
  "seen_status route run = map_option row_status (find_row (\<lambda>r. row_route r = route) (window_routes (fst run) (snd run)))"

text \<open>The changes to a status that is not healthy; where nothing was carried the last status stays.\<close>

fun transitions :: "string option \<Rightarrow> string option list \<Rightarrow> string list" where
  "transitions last_seen [] = []"
| "transitions last_seen (None # xs) = transitions last_seen xs"
| "transitions last_seen (Some st # xs) =
     (if last_seen \<noteq> None \<and> last_seen \<noteq> Some st \<and> st \<noteq> ''HEALTHY'' then st # transitions (Some st) xs
      else transitions (Some st) xs)"

lemma insort_key_snoc: "f x \<le> f p \<Longrightarrow> insort_key f x (ys @ [p]) = insort_key f x ys @ [p]"
  by (induction ys) auto

lemma sort_key_snoc:
  assumes "\<And>x. x \<in> set xs \<Longrightarrow> f x \<le> f p"
  shows "sort_key f (xs @ [p]) = sort_key f xs @ [p]"
  using assms by (induction xs) (simp_all add: insort_key_snoc)

lemma latest_sample_snoc:
  assumes "\<And>x. x \<in> set rows \<Longrightarrow> hs_windowStart x \<le> hs_windowStart p"
  shows "latest_sample route (rows @ [p]) = (if sample_route p = route then Some p else latest_sample route rows)"
proof (cases "sample_route p = route")
  case True
  have "sort_key hs_windowStart (filter (\<lambda>p. sample_route p = route) rows @ [p])
      = sort_key hs_windowStart (filter (\<lambda>p. sample_route p = route) rows) @ [p]"
    by (rule sort_key_snoc) (simp add: assms)
  with True show ?thesis by (simp add: latest_sample_def)
qed (simp add: latest_sample_def)

lemma new_sample_simps [simp]:
  "sample_route (new_sample i now row) = row_route row" "hs_windowStart (new_sample i now row) = now - 600000"
  "hs_status (new_sample i now row) = row_status row"
  by (simp_all add: new_sample_def sample_route_def row_route_def row_status_def WINDOW_MINUTES_def)

text \<open>One row, where the route has no sample of this window yet.\<close>

definition row_alerts :: "route_counts \<Rightarrow> health_sample list \<Rightarrow> ((string \<times> string) \<times> string) list" where
  "row_alerts row samples =
     (case latest_sample (row_route row) samples of
        None \<Rightarrow> []
      | Some p \<Rightarrow> if hs_status p \<noteq> row_status row \<and> row_status row \<noteq> ''HEALTHY'' then [(row_route row, row_status row)] else [])"

lemma sample_row_fresh:
  assumes "\<And>p. p \<in> set (he_samples s) \<Longrightarrow> sample_route p = row_route row \<Longrightarrow> hs_windowStart p < now - 600000"
  shows "he_samples (sample_row ft now row s) = he_samples s @ [new_sample (dec (he_next s)) now row]"
    "he_broadcasts (sample_row ft now row s) = he_broadcasts s @ row_alerts row (he_samples s)"
proof -
  have "(row_route row, now - 600000) \<notin> set (map (\<lambda>p. (sample_route p, hs_windowStart p)) (he_samples s))"
    using assms by fastforce
  then have "upsert_sample (new_sample (dec (he_next s)) now row) (he_samples s) = he_samples s @ [new_sample (dec (he_next s)) now row]"
    by (simp add: upsert_sample_def upsert_row_def)
  then show "he_samples (sample_row ft now row s) = he_samples s @ [new_sample (dec (he_next s)) now row]"
    "he_broadcasts (sample_row ft now row s) = he_broadcasts s @ row_alerts row (he_samples s)"
    unfolding sample_row_def Let_def row_alerts_def row_route_def [symmetric] row_status_def [symmetric]
    by (simp_all split: option.split)
qed

lemma health_rows:
  assumes "distinct (map row_route rows)"
    "\<And>p. p \<in> set (he_samples s) \<Longrightarrow> hs_windowStart p \<le> now - 600000"
    "\<And>p. p \<in> set (he_samples s) \<Longrightarrow> sample_route p \<in> row_route ` set rows \<Longrightarrow> hs_windowStart p < now - 600000"
    "s' = foldl (\<lambda>s row. sample_row ft now row s) s rows"
  shows "(\<forall>p \<in> set (he_samples s'). hs_windowStart p \<le> now - 600000)
    \<and> map_option hs_status (latest_sample route (he_samples s')) =
        (case find_row (\<lambda>r. row_route r = route) rows of None \<Rightarrow> map_option hs_status (latest_sample route (he_samples s)) | Some row \<Rightarrow> Some (row_status row))
    \<and> filter (\<lambda>b. fst b = route) (he_broadcasts s') = filter (\<lambda>b. fst b = route) (he_broadcasts s)
        @ (case find_row (\<lambda>r. row_route r = route) rows of None \<Rightarrow> [] | Some row \<Rightarrow> row_alerts row (he_samples s))"
  using assms(1-3) unfolding assms(4)
proof (induction rows arbitrary: s)
  case (Cons row rows)
  have fresh: "hs_windowStart p < now - 600000" if "p \<in> set (he_samples s)" "sample_route p = row_route row" for p
    using Cons.prems(3) [OF that(1)] that(2) by simp
  have step: "he_samples (sample_row ft now row s) = he_samples s @ [new_sample (dec (he_next s)) now row]"
    "he_broadcasts (sample_row ft now row s) = he_broadcasts s @ row_alerts row (he_samples s)"
    by (rule sample_row_fresh, erule (1) fresh)+
  let ?s = "sample_row ft now row s"
  have latest: "latest_sample q (he_samples ?s)
      = (if row_route row = q then Some (new_sample (dec (he_next s)) now row) else latest_sample q (he_samples s))" for q
    unfolding step using latest_sample_snoc [of "he_samples s" "new_sample (dec (he_next s)) now row" q] Cons.prems(2) by simp
  have IH: "(\<forall>p \<in> set (he_samples (foldl (\<lambda>s row. sample_row ft now row s) ?s rows)). hs_windowStart p \<le> now - 600000)
    \<and> map_option hs_status (latest_sample route (he_samples (foldl (\<lambda>s row. sample_row ft now row s) ?s rows))) =
        (case find_row (\<lambda>r. row_route r = route) rows of None \<Rightarrow> map_option hs_status (latest_sample route (he_samples ?s)) | Some row \<Rightarrow> Some (row_status row))
    \<and> filter (\<lambda>b. fst b = route) (he_broadcasts (foldl (\<lambda>s row. sample_row ft now row s) ?s rows)) = filter (\<lambda>b. fst b = route) (he_broadcasts ?s)
        @ (case find_row (\<lambda>r. row_route r = route) rows of None \<Rightarrow> [] | Some row \<Rightarrow> row_alerts row (he_samples ?s))"
  proof (rule Cons.IH)
    show "distinct (map row_route rows)" using Cons.prems(1) by simp
    show "hs_windowStart p \<le> now - 600000" if "p \<in> set (he_samples ?s)" for p
      using that Cons.prems(2) unfolding step by auto
    show "hs_windowStart p < now - 600000" if "p \<in> set (he_samples ?s)" "sample_route p \<in> row_route ` set rows" for p
      using that Cons.prems(1,3) unfolding step by auto
  qed
  have own: "find_row (\<lambda>r. row_route r = route) rows = None" if "row_route row = route"
    using Cons.prems(1) that unfolding find_row_None_iff by (metis distinct.simps(2) image_eqI list.set_map list.simps(9))
  have other: "row_alerts r (he_samples ?s) = row_alerts r (he_samples s)" if "row_route r \<noteq> row_route row" for r
    using that by (simp add: row_alerts_def latest)
  have mine: "\<forall>b \<in> set (row_alerts row (he_samples s)). fst b = row_route row"
    by (cases "latest_sample (row_route row) (he_samples s)") (simp_all add: row_alerts_def)
  show ?case
  proof (cases "row_route row = route")
    case True
    with IH own mine show ?thesis by (simp add: latest step(2))
  next
    case False
    have "filter (\<lambda>b. fst b = route) (row_alerts row (he_samples s)) = []" using mine False by (simp add: filter_empty_conv)
    moreover have "row_alerts r (he_samples ?s) = row_alerts r (he_samples s)" if "find_row (\<lambda>r. row_route r = route) rows = Some r" for r
      using other find_row_SomeD [OF that] False by simp
    ultimately show ?thesis using IH False by (simp add: latest step(2) split: option.splits)
  qed
qed simp

lemma routes_distinct: "distinct (map row_route (window_routes now events))"
proof -
  have "map row_route (window_routes now events) = map fst (group_rows route_key (filter (\<lambda>e. in_window (now - WINDOW_MINUTES * 60000) now (lg_createdAt e)) events))"
    by (auto simp: window_routes_def row_route_def)
  then show ?thesis by (simp add: group_rows_def comp_def)
qed

text \<open>
  C20. Staff are told of a route exactly when its status changes to one that is not healthy: over any
  number of runs, the alerts of a route are the changes among the statuses it was seen with.  The first
  time a route is seen it has no status to change from, so a route first seen down raises nothing.
\<close>
theorem alerts_on_change:
  assumes "sorted_wrt (<) (map fst runs)"
  shows "map snd (filter (\<lambda>b. fst b = route) (he_broadcasts (health_runs ft runs (no_samples ib))))
    = transitions None (map (seen_status route) runs)"
proof -
  have "map snd (filter (\<lambda>b. fst b = route) (he_broadcasts (health_runs ft runs s)))
      = map snd (filter (\<lambda>b. fst b = route) (he_broadcasts s))
        @ transitions (map_option hs_status (latest_sample route (he_samples s))) (map (seen_status route) runs)"
    if "\<And>p now. p \<in> set (he_samples s) \<Longrightarrow> now \<in> set (map fst runs) \<Longrightarrow> hs_windowStart p < now - 600000" for s
    using assms that
  proof (induction runs arbitrary: s)
    case (Cons run runs)
    obtain now events where run: "run = (now, events)" by (cases run)
    let ?s = "snd (sample_health ft now events s)"
    have before: "hs_windowStart p < now - 600000" if "p \<in> set (he_samples s)" for p
      using Cons.prems(2) [OF that, of now] run by simp
    have rows: "(\<forall>p \<in> set (he_samples ?s). hs_windowStart p \<le> now - 600000)
      \<and> map_option hs_status (latest_sample route (he_samples ?s)) =
          (case find_row (\<lambda>r. row_route r = route) (window_routes now events) of None \<Rightarrow> map_option hs_status (latest_sample route (he_samples s)) | Some row \<Rightarrow> Some (row_status row))
      \<and> filter (\<lambda>b. fst b = route) (he_broadcasts ?s) = filter (\<lambda>b. fst b = route) (he_broadcasts s)
          @ (case find_row (\<lambda>r. row_route r = route) (window_routes now events) of None \<Rightarrow> [] | Some row \<Rightarrow> row_alerts row (he_samples s))"
      unfolding sample_health_def Let_def snd_conv
      by (rule health_rows [OF routes_distinct _ _ refl]) (simp_all add: before less_imp_le)
    have IH: "map snd (filter (\<lambda>b. fst b = route) (he_broadcasts (health_runs ft runs ?s)))
        = map snd (filter (\<lambda>b. fst b = route) (he_broadcasts ?s))
          @ transitions (map_option hs_status (latest_sample route (he_samples ?s))) (map (seen_status route) runs)"
    proof (rule Cons.IH)
      show "sorted_wrt (<) (map fst runs)" using Cons.prems(1) by simp
      fix p now' assume "p \<in> set (he_samples ?s)" "now' \<in> set (map fst runs)"
      then show "hs_windowStart p < now' - 600000" using rows Cons.prems(1) run by fastforce
    qed
    show ?case
    proof (cases "find_row (\<lambda>r. row_route r = route) (window_routes now events)")
      case None
      then have "seen_status route run = None" by (simp add: seen_status_def run)
      with None IH rows run show ?thesis by simp
    next
      case (Some row)
      then have "seen_status route run = Some (row_status row)" "row_route row = route"
        using find_row_SomeD [OF Some] by (simp_all add: seen_status_def run)
      with Some IH rows run show ?thesis
        by (cases "latest_sample route (he_samples s)") (simp_all add: row_alerts_def)
    qed
  qed simp
  from this [of "no_samples ib"] show ?thesis by (simp add: no_samples_def latest_sample_def)
qed

theorem alerts_on_change_witness:
  "\<forall>ft ib. let e = \<lparr>lg_id = ''e'', lg_account = ''a'', lg_channel = ''SMS'', lg_status = ''DELIVERED'', lg_tab = None, lg_operator = Some ''MTN'',
        lg_country = None, lg_cost = None, lg_createdAt = 10\<rparr>;
      runs = [(20, replicate 20 e), (1000020, replicate 20 (e\<lparr>lg_status := ''FAILED'', lg_createdAt := 1000010\<rparr>))]
    in map snd (filter (\<lambda>b. fst b = (''MTN'', ''SMS'')) (he_broadcasts (health_runs ft runs (no_samples ib)))) = [''OUTAGE'']"
proof -
  define e where "e = \<lparr>lg_id = ''e'', lg_account = ''a'', lg_channel = ''SMS'', lg_status = ''DELIVERED'', lg_tab = None, lg_operator = Some ''MTN'',
        lg_country = None, lg_cost = None, lg_createdAt = 10\<rparr>"
  define runs where "runs = [(20 :: millis, replicate 20 e), (1000020, replicate 20 (e\<lparr>lg_status := ''FAILED'', lg_createdAt := 1000010\<rparr>))]"
  have w: "window_routes 20 (replicate 20 e) = [\<lparr>rc_provider = ''MTN'', rc_channel = ''SMS'', rc_attempted = 20, rc_delivered = 20, rc_failed = 0\<rparr>]"
    "window_routes 1000020 (replicate 20 (e\<lparr>lg_status := ''FAILED'', lg_createdAt := 1000010\<rparr>))
      = [\<lparr>rc_provider = ''MTN'', rc_channel = ''SMS'', rc_attempted = 20, rc_delivered = 0, rc_failed = 20\<rparr>]"
    unfolding e_def by code_simp+
  have "map (seen_status (''MTN'', ''SMS'')) runs = [Some ''HEALTHY'', Some ''OUTAGE'']"
    by (simp add: runs_def seen_status_def w row_route_def row_status_def status_exact)
  moreover have "sorted_wrt (<) (map fst runs)" by (simp add: runs_def)
  ultimately have "map snd (filter (\<lambda>b. fst b = (''MTN'', ''SMS'')) (he_broadcasts (health_runs ft runs (no_samples ib)))) = [''OUTAGE'']" for ft ib
    using alerts_on_change [of runs "(''MTN'', ''SMS'')" ft ib] by simp
  then show ?thesis unfolding Let_def runs_def e_def by blast
qed

end
