(* ===== verification/Services.thy ===== *)
theory Services
  imports Geo_Reports Overview Messages
begin

text \<open>
  \<open>modules/services/service-catalogue.ts\<close> and \<open>services.service.ts\<close>: the product lines and their figures.
  A message's metadata is its JSON column; how PostgreSQL writes a JSON value that is neither a text nor
  a flag, and its division of numerics, are arguments.  The minute's cache is not composed here, and
  the latencies, which no writer of the rollup sets, are left out.
\<close>

section \<open>The catalogue\<close>

datatype metric_kind = MetricSum | MetricAvg | MetricRate

record service_metric =
  sm_key :: string
  sm_label :: string
  sm_kind :: metric_kind
  sm_attribute :: "string option"

record service_definition =
  sd_key :: string
  sd_channel :: string
  sd_label :: string
  sd_unit :: string
  sd_live :: bool
  sd_specificMetrics :: "service_metric list"

definition metric_of :: "string \<Rightarrow> string \<Rightarrow> metric_kind \<Rightarrow> string option \<Rightarrow> service_metric" where
  "metric_of k l kind a = \<lparr>sm_key = k, sm_label = l, sm_kind = kind, sm_attribute = a\<rparr>"

definition SERVICES :: "service_definition list" where
  "SERVICES =
     [\<lparr>sd_key = ''sms'', sd_channel = ''SMS'', sd_label = ''SMS'', sd_unit = ''message'', sd_live = True,
       sd_specificMetrics =
         [metric_of ''delivered'' ''Delivered'' MetricSum None,
          metric_of ''pages'' ''Pages per message'' MetricAvg (Some ''pages''),
          metric_of ''dlrLatencyMs'' ''DLR latency'' MetricAvg (Some ''dlrLatencyMs''),
          metric_of ''deliveryRateByNetwork'' ''Delivery rate by network'' MetricRate None]\<rparr>,
      \<lparr>sd_key = ''email'', sd_channel = ''EMAIL'', sd_label = ''Email'', sd_unit = ''message'', sd_live = True,
       sd_specificMetrics =
         [metric_of ''hardBounces'' ''Hard bounces'' MetricSum (Some ''hardBounce''),
          metric_of ''softBounces'' ''Soft bounces'' MetricSum (Some ''softBounce''),
          metric_of ''complaints'' ''Complaint rate'' MetricRate (Some ''complaint''),
          metric_of ''opens'' ''Open rate where tracked'' MetricRate (Some ''opened'')]\<rparr>,
      \<lparr>sd_key = ''whatsapp'', sd_channel = ''WHATSAPP'', sd_label = ''WhatsApp'', sd_unit = ''conversation'', sd_live = False,
       sd_specificMetrics =
         [metric_of ''category'' ''Conversations by category'' MetricSum (Some ''category''),
          metric_of ''read'' ''Read'' MetricSum (Some ''read''),
          metric_of ''templateApprovalRate'' ''Template approval rate'' MetricRate (Some ''templateApproved'')]\<rparr>,
      \<lparr>sd_key = ''voice'', sd_channel = ''VOICE'', sd_label = ''Voice and audio'', sd_unit = ''call'', sd_live = False,
       sd_specificMetrics =
         [metric_of ''answeredRate'' ''Answered rate'' MetricRate (Some ''answered''),
          metric_of ''billedMinutes'' ''Billed minutes'' MetricSum (Some ''billedMinutes''),
          metric_of ''avgDurationSeconds'' ''Average call duration'' MetricAvg (Some ''durationSeconds''),
          metric_of ''ttsCharacters'' ''TTS characters'' MetricSum (Some ''ttsCharacters'')]\<rparr>,
      \<lparr>sd_key = ''audio'', sd_channel = ''AUDIO'', sd_label = ''Video'', sd_unit = ''session'', sd_live = False,
       sd_specificMetrics =
         [metric_of ''participantMinutes'' ''Participant minutes'' MetricSum (Some ''participantMinutes''),
          metric_of ''avgSessionSeconds'' ''Average session length'' MetricAvg (Some ''durationSeconds''),
          metric_of ''failedJoins'' ''Failed joins'' MetricSum (Some ''failedJoins'')]\<rparr>]"

definition service_by_key :: "string \<Rightarrow> service_definition option" where
  "service_by_key k = find_row (\<lambda>s. sd_key s = k) SERVICES"

section \<open>Cards\<close>

record service_card =
  sc_service :: service_definition
  sc_attempted :: rat
  sc_succeeded :: rat
  sc_failed :: rat
  sc_successRate :: "rat option"
  sc_revenue :: rat
  sc_cost :: rat
  sc_profit :: rat

text \<open>\<open>Number(x.toFixed(dp))\<close>, of either sign.\<close>

definition signed_fixed :: "rat \<Rightarrow> nat \<Rightarrow> rat" where
  "signed_fixed x dp = (if x < 0 then - fixed_number (- x) dp else fixed_number x dp)"

definition success_rate :: "rat \<Rightarrow> rat \<Rightarrow> rat option" where
  "success_rate part whole = (if whole \<noteq> 0 then Some (fixed_number (fl (part / whole)) 4) else None)"

definition channel_usage :: "string \<Rightarrow> millis \<Rightarrow> millis \<Rightarrow> rollup_store \<Rightarrow> usage_rollup list" where
  "channel_usage channel start finish db = filter (\<lambda>r. ub_channel r = channel) (daily_usage (date_in start finish) db)"

definition card_of :: "service_definition \<Rightarrow> usage_rollup list \<Rightarrow> service_card" where
  "card_of service rows =
     (let attempted = int_sum ub_attempted rows; succeeded = int_sum ub_succeeded rows;
          revenue = fl (sum_of ub_revenue rows); cost = fl (sum_of ub_cost rows)
      in \<lparr>sc_service = service, sc_attempted = attempted, sc_succeeded = succeeded, sc_failed = int_sum ub_failed rows,
          sc_successRate = success_rate succeeded attempted, sc_revenue = revenue, sc_cost = cost,
          sc_profit = signed_fixed (fl (revenue - cost)) 2\<rparr>)"

definition loadList :: "(string \<Rightarrow> int option) \<Rightarrow> millis \<Rightarrow> string option \<Rightarrow> string option \<Rightarrow> rollup_store \<Rightarrow> service_card list result" where
  "loadList parse now from to_day db =
     (case resolveRange parse now from to_day 7 of
        Inl e \<Rightarrow> Inl e
      | Inr (start, finish) \<Rightarrow> Inr (map (\<lambda>s. card_of s (channel_usage (sd_channel s) start finish db)) SERVICES))"

section \<open>The service's own metrics\<close>

text \<open>\<open>metadata ->> attribute\<close>: a text as it is, a flag by its name, a null as nothing.\<close>

definition attribute_text :: "(jval \<Rightarrow> string) \<Rightarrow> string \<Rightarrow> message_row \<Rightarrow> string option" where
  "attribute_text json attribute r =
     (case metadata_field r attribute of
        None \<Rightarrow> None
      | Some JvNull \<Rightarrow> None
      | Some (JvStr s) \<Rightarrow> Some s
      | Some (JvBool b) \<Rightarrow> Some (if b then ''true'' else ''false'')
      | Some v \<Rightarrow> Some (json v))"

text \<open>
  The pattern as the database sees it: in a template literal the backslash before the point is gone, so
  any one character may stand between the digits.
\<close>

definition numeric_like :: "string \<Rightarrow> bool" where
  "numeric_like s \<longleftrightarrow>
     (let t = (if startsWith s ''-'' then tl s else s); rest = dropWhile is_digit t
      in takeWhile is_digit t \<noteq> [] \<and> (rest = [] \<or> tl rest \<noteq> [] \<and> list_all is_digit (tl rest)))"

text \<open>
  \<open>numeric\<close> is PostgreSQL's cast of a text, None where it raises.  The result is None when the cast
  fails, and Some None where the CASE has no branch for the text.
\<close>

definition attribute_number :: "(string \<Rightarrow> rat option) \<Rightarrow> (jval \<Rightarrow> string) \<Rightarrow> string \<Rightarrow> message_row \<Rightarrow> rat option option" where
  "attribute_number numeric json attribute r =
     (case attribute_text json attribute r of
        None \<Rightarrow> Some None
      | Some t \<Rightarrow>
          if t = ''true'' then Some (Some 1) else if t = ''false'' then Some (Some 0)
          else if numeric_like t then map_option Some (numeric t) else Some None)"

record metric_result =
  mr_key :: string
  mr_label :: string
  mr_kind :: metric_kind
  mr_value :: "rat option"
  mr_sampleSize :: nat

definition carriers :: "string \<Rightarrow> message_row list \<Rightarrow> nat" where
  "carriers attribute rows = count_where (\<lambda>r. metadata_field r attribute \<noteq> None) rows"

definition metric_result_of ::
  "(string \<Rightarrow> rat option) \<Rightarrow> (jval \<Rightarrow> string) \<Rightarrow> (rat \<Rightarrow> nat \<Rightarrow> rat) \<Rightarrow> message_row list \<Rightarrow> service_metric \<Rightarrow> string
     \<Rightarrow> metric_result result" where
  "metric_result_of numeric json qdiv rows metric attribute =
     (let total = carriers attribute rows;
          read = map (attribute_number numeric json attribute) rows;
          numbers = List.map_filter (\<lambda>x. x) (List.map_filter (\<lambda>x. x) read);
          reply = (\<lambda>v. Inr \<lparr>mr_key = sm_key metric, mr_label = sm_label metric, mr_kind = sm_kind metric,
            mr_value = v, mr_sampleSize = total\<rparr>)
      in case sm_kind metric of
           MetricRate \<Rightarrow>
             reply (if total \<noteq> 0
               then Some (rate4 (int (count_where (\<lambda>r. attribute_text json attribute r = Some ''true'') rows)) (int total))
               else None)
         | MetricSum \<Rightarrow>
             if None \<in> set read then Inl (PlainError ''invalid input syntax for type numeric'')
             else reply (if numbers = [] then None else Some (fl (sum_list numbers)))
         | MetricAvg \<Rightarrow>
             if None \<in> set read then Inl (PlainError ''invalid input syntax for type numeric'')
             else reply (if numbers = [] then None else Some (fl (qdiv (sum_list numbers) (length numbers)))))"

text \<open>\<open>Promise.all\<close>: one failure fails them all.\<close>

fun all_results :: "'a result list \<Rightarrow> 'a list result" where
  "all_results [] = Inr []"
| "all_results (r # rs) =
     (case r of Inl e \<Rightarrow> Inl e | Inr x \<Rightarrow> (case all_results rs of Inl e \<Rightarrow> Inl e | Inr xs \<Rightarrow> Inr (x # xs)))"

definition serviceSpecific ::
  "(string \<Rightarrow> rat option) \<Rightarrow> (jval \<Rightarrow> string) \<Rightarrow> (rat \<Rightarrow> nat \<Rightarrow> rat) \<Rightarrow> string \<Rightarrow> message_row list \<Rightarrow> metric_result list result" where
  "serviceSpecific numeric json qdiv channel rows =
     (case find_row (\<lambda>s. sd_channel s = channel) SERVICES of
        None \<Rightarrow> Inr []
      | Some s \<Rightarrow> all_results (concat (map (\<lambda>m. case sm_attribute m of None \<Rightarrow> [] | Some a \<Rightarrow> [metric_result_of numeric json qdiv rows m a])
          (sd_specificMetrics s))))"

section \<open>The page of a service\<close>

record service_day =
  sy_date :: millis
  sy_attempted :: int
  sy_succeeded :: int
  sy_failed :: int
  sy_units :: int
  sy_revenue :: rat
  sy_cost :: rat

definition day_of :: "millis \<times> usage_rollup list \<Rightarrow> service_day" where
  "day_of g = (case g of (date, rows) \<Rightarrow>
     \<lparr>sy_date = date, sy_attempted = (\<Sum>r \<leftarrow> rows. ub_attempted r), sy_succeeded = (\<Sum>r \<leftarrow> rows. ub_succeeded r),
      sy_failed = (\<Sum>r \<leftarrow> rows. ub_failed r), sy_units = (\<Sum>r \<leftarrow> rows. ub_units r),
      sy_revenue = sum_of ub_revenue rows, sy_cost = sum_of ub_cost rows\<rparr>)"

record service_page =
  vp_service :: service_definition
  vp_attempted :: rat
  vp_succeeded :: rat
  vp_failed :: rat
  vp_revenue :: rat
  vp_cost :: rat
  vp_successRate :: "rat option"
  vp_profit :: rat
  vp_margin :: "rat option"
  vp_series :: "service_day list"
  vp_failureReasons :: "(string \<times> nat) list"
  vp_specificMetrics :: "metric_result list"
  vp_destinations :: "(string \<times> rat \<times> rat) list"

definition failure_reasons :: "message_row list \<Rightarrow> (string \<times> nat) list" where
  "failure_reasons rows =
     map (\<lambda>(reason, rs). (coalesce reason ''unknown'', length rs))
       (top_groups 20 (\<lambda>(reason, rs). int (length rs)) (group_rows mg_error (filter (\<lambda>r. mg_status r = ''FAILED'') rows)))"

definition service_destinations :: "string \<Rightarrow> millis \<Rightarrow> millis \<Rightarrow> rollup_store \<Rightarrow> (string \<times> rat \<times> rat) list" where
  "service_destinations channel start finish db =
     map (\<lambda>(country, rs). (country, int_sum dr_attempted rs, int_sum dr_delivered rs))
       (top_groups 20 (\<lambda>(country, rs). \<Sum>r \<leftarrow> rs. dr_attempted r)
         (group_rows dr_country (filter (\<lambda>r. dr_channel r = channel \<and> date_in start finish (dr_date r)) (rs_destinations db))))"

definition service_days :: "string \<Rightarrow> millis \<Rightarrow> millis \<Rightarrow> rollup_store \<Rightarrow> service_day list" where
  "service_days channel start finish db =
     map day_of (sort_key fst (group_rows ub_date (channel_usage channel start finish db)))"

definition service_page_of ::
  "service_definition \<Rightarrow> millis \<Rightarrow> millis \<Rightarrow> message_row list \<Rightarrow> metric_result list \<Rightarrow> rollup_store \<Rightarrow> service_page" where
  "service_page_of service start finish rows specific db =
     (let channel = sd_channel service;
          days = service_days channel start finish db;
          attempted = js_total (\<lambda>d. of_int (sy_attempted d)) days;
          succeeded = js_total (\<lambda>d. of_int (sy_succeeded d)) days;
          revenue = js_total sy_revenue days;
          cost = js_total sy_cost days
      in \<lparr>vp_service = service, vp_attempted = attempted, vp_succeeded = succeeded,
          vp_failed = js_total (\<lambda>d. of_int (sy_failed d)) days, vp_revenue = revenue, vp_cost = cost,
          vp_successRate = success_rate succeeded attempted,
          vp_profit = signed_fixed (fl (revenue - cost)) 2,
          vp_margin = (if revenue \<noteq> 0 then Some (signed_fixed (fl (fl (revenue - cost) / revenue)) 4) else None),
          vp_series = days, vp_failureReasons = failure_reasons rows,
          vp_specificMetrics = specific,
          vp_destinations = service_destinations channel start finish db\<rparr>)"

text \<open>The channel's messages of the range, which the failures and the metrics are read from.\<close>

definition service_messages :: "string \<Rightarrow> millis \<Rightarrow> millis \<Rightarrow> message_row list \<Rightarrow> message_row list" where
  "service_messages channel start finish messages =
     filter (\<lambda>r. mg_channel r = channel \<and> start \<le> mg_createdAt r \<and> mg_createdAt r \<le> finish) messages"

definition loadMetrics ::
  "(string \<Rightarrow> rat option) \<Rightarrow> (jval \<Rightarrow> string) \<Rightarrow> (rat \<Rightarrow> nat \<Rightarrow> rat) \<Rightarrow> (string \<Rightarrow> int option) \<Rightarrow> millis \<Rightarrow> string
     \<Rightarrow> string option \<Rightarrow> string option \<Rightarrow> message_row list \<Rightarrow> rollup_store \<Rightarrow> service_page result" where
  "loadMetrics numeric json qdiv parse now serviceKey from to_day messages db =
     (case service_by_key serviceKey of
        None \<Rightarrow> Inl (NotFound (''Unknown service '' @ serviceKey))
      | Some service \<Rightarrow>
          (case resolveRange parse now from to_day 7 of
             Inl e \<Rightarrow> Inl e
           | Inr (start, finish) \<Rightarrow>
               (let rows = service_messages (sd_channel service) start finish messages in
                case serviceSpecific numeric json qdiv (sd_channel service) rows of
                  Inl e \<Rightarrow> Inl e
                | Inr specific \<Rightarrow> Inr (service_page_of service start finish rows specific db))))"

section \<open>The card and the page\<close>

lemma js_total_ints:
  assumes "\<And>d. d \<in> set ds \<Longrightarrow> 0 \<le> f d" "(\<Sum>d \<leftarrow> ds. f d) < 2 ^ 53"
  shows "js_total (\<lambda>d. of_int (f d)) ds = of_int (\<Sum>d \<leftarrow> ds. f d)"
proof -
  have "foldl (\<lambda>acc d. fl (acc + fl (of_int (f d)))) (of_int a) ds = of_int (a + (\<Sum>d \<leftarrow> ds. f d))"
    if "0 \<le> a" "a + (\<Sum>d \<leftarrow> ds. f d) < 2 ^ 53" for a
    using that assms(1)
  proof (induction ds arbitrary: a)
    case (Cons d ds)
    have r: "0 \<le> (\<Sum>d \<leftarrow> ds. f d)" using Cons.prems(3) by (intro sum_list_nonneg) auto
    have d: "0 \<le> f d" using Cons.prems(3) by simp
    have small: "\<bar>f d\<bar> < 2 ^ 53" "\<bar>a + f d\<bar> < 2 ^ 53" using Cons.prems r d by simp_all
    have "fl (of_int a + fl (of_int (f d))) = of_int (a + f d)"
      using fl_int [OF small(1)] fl_int [OF small(2)] by simp
    then show ?case using Cons.IH [of "a + f d"] Cons.prems d by (simp add: add.assoc)
  qed simp
  from this [of 0] assms(2) show ?thesis by (simp add: js_total_def)
qed

lemma sum_list_sort_key: "(\<Sum>x \<leftarrow> sort_key k xs. f x :: int) = (\<Sum>x \<leftarrow> xs. f x)"
proof -
  have "mset (map f (sort_key k xs)) = mset (map f xs)" by simp
  then show ?thesis by (metis sum_mset_sum_list)
qed

lemma day_sums:
  fixes f :: "usage_rollup \<Rightarrow> int"
  shows "(\<Sum>g \<leftarrow> sort_key fst (group_rows ub_date rows). \<Sum>r \<leftarrow> snd g. f r) = (\<Sum>r \<leftarrow> rows. f r)"
  unfolding sum_list_sort_key group_rows_def by (simp add: comp_def sum_js_set_groups)

lemma days_total:
  fixes f :: "usage_rollup \<Rightarrow> int"
  assumes "\<And>g. h (day_of g) = (\<Sum>r \<leftarrow> snd g. f r)"
    "\<And>r. r \<in> set (channel_usage channel start finish db) \<Longrightarrow> 0 \<le> f r"
    "(\<Sum>r \<leftarrow> channel_usage channel start finish db. f r) < 2 ^ 53"
  shows "js_total (\<lambda>d. of_int (h d)) (service_days channel start finish db) = int_sum f (channel_usage channel start finish db)"
proof -
  let ?rows = "channel_usage channel start finish db"
  have total: "(\<Sum>d \<leftarrow> service_days channel start finish db. h d) = (\<Sum>r \<leftarrow> ?rows. f r)"
    unfolding service_days_def by (simp add: comp_def assms(1) day_sums)
  have "0 \<le> h d" if "d \<in> set (service_days channel start finish db)" for d
  proof -
    have "d \<in> day_of ` set (group_rows ub_date ?rows)" using that by (simp add: service_days_def)
    then obtain k where "d = day_of (k, filter (\<lambda>r. ub_date r = k) ?rows)"
      unfolding group_rows_def by auto
    then show ?thesis using assms(2) by (auto simp: assms(1) intro!: sum_list_nonneg)
  qed
  then have "js_total (\<lambda>d. of_int (h d)) (service_days channel start finish db) = of_int (\<Sum>r \<leftarrow> ?rows. f r)"
    using assms(3) by (subst js_total_ints) (simp_all add: total)
  also have "\<dots> = int_sum f ?rows"
    unfolding int_sum_def
  proof (rule fl_int [symmetric])
    have "0 \<le> (\<Sum>r \<leftarrow> ?rows. f r)" using assms(2) by (intro sum_list_nonneg) auto
    with assms(3) show "\<bar>\<Sum>r \<leftarrow> ?rows. f r\<bar> < 2 ^ 53" by simp
  qed
  finally show ?thesis .
qed

lemma catalogue_distinct: "distinct (map sd_key SERVICES)" "distinct (map sd_channel SERVICES)"
  by code_simp+

text \<open>A row's counts are none of them negative, and it has no more successes or failures than attempts.\<close>

definition sound_counts :: "usage_rollup \<Rightarrow> bool" where
  "sound_counts r \<longleftrightarrow> 0 \<le> ub_attempted r \<and> 0 \<le> ub_succeeded r \<and> 0 \<le> ub_failed r
     \<and> ub_succeeded r \<le> ub_attempted r \<and> ub_failed r \<le> ub_attempted r"

lemma sum_filter_le: "list_all (\<lambda>x. 0 \<le> f x) xs \<Longrightarrow> (\<Sum>x \<leftarrow> filter p xs. f x :: int) \<le> (\<Sum>x \<leftarrow> xs. f x)"
  by (induction xs) auto

text \<open>
  C22. A service's page counts what its card counts: the page adds the days up and the card takes one sum,
  and for every product line the attempts, successes, failures and the success rate are the same.
\<close>
theorem card_and_page_agree:
  assumes "s \<in> set SERVICES" "loadList parse now from to_day db = Inr cards"
    "loadMetrics numeric json qdiv parse now (sd_key s) from to_day messages db = Inr page"
    "list_all sound_counts (rs_usage db)" "(\<Sum>r \<leftarrow> rs_usage db. ub_attempted r) < 2 ^ 53"
  shows "\<exists>card. find_row (\<lambda>c. sc_service c = s) cards = Some card
    \<and> vp_attempted page = sc_attempted card \<and> vp_succeeded page = sc_succeeded card \<and> vp_failed page = sc_failed card
    \<and> vp_successRate page = sc_successRate card"
proof -
  obtain start finish where r: "resolveRange parse now from to_day 7 = Inr (start, finish)"
    and cards: "cards = map (\<lambda>s. card_of s (channel_usage (sd_channel s) start finish db)) SERVICES"
    using assms(2) by (auto simp: loadList_def split: sum.splits)
  let ?rows = "channel_usage (sd_channel s) start finish db"
  have rows: "sound_counts x" if "x \<in> set ?rows" for x
    using that assms(4) by (auto simp: channel_usage_def daily_usage_def list_all_iff)
  have key: "find_row (\<lambda>x. sd_key x = sd_key s) SERVICES = Some s"
  proof -
    have "find_row (\<lambda>x. sd_key x = sd_key s) xs = Some s" if "s \<in> set xs" "distinct (map sd_key xs)" for xs
      using that by (induction xs) auto
    with assms(1) catalogue_distinct(1) show ?thesis by blast
  qed
  have card: "find_row (\<lambda>c. sc_service c = s) cards = Some (card_of s ?rows)"
  proof -
    have "find_row (\<lambda>c. sc_service c = s) (map (\<lambda>s. card_of s (channel_usage (sd_channel s) start finish db)) xs) = Some (card_of s ?rows)"
      if "s \<in> set xs" for xs
      using that by (induction xs) (auto simp: card_of_def Let_def)
    with assms(1) show ?thesis by (simp add: cards)
  qed
  have le: "(\<Sum>x \<leftarrow> ?rows. f x) \<le> (\<Sum>x \<leftarrow> ?rows. ub_attempted x)" if "\<And>x. sound_counts x \<Longrightarrow> f x \<le> ub_attempted x" for f :: "usage_rollup \<Rightarrow> int"
    using rows that by (intro sum_list_mono) blast
  have "list_all (\<lambda>x. 0 \<le> ub_attempted x) (rs_usage db)"
    using assms(4) unfolding list_all_iff sound_counts_def by blast
  then have "(\<Sum>r \<leftarrow> ?rows. ub_attempted r) \<le> (\<Sum>r \<leftarrow> rs_usage db. ub_attempted r)"
    unfolding channel_usage_def daily_usage_def filter_filter by (rule sum_filter_le)
  with assms(5) have small: "(\<Sum>r \<leftarrow> ?rows. ub_attempted r) < 2 ^ 53" by simp
  have a: "js_total (\<lambda>d. of_int (sy_attempted d)) (service_days (sd_channel s) start finish db) = int_sum ub_attempted ?rows"
  proof (rule days_total)
    show "sy_attempted (day_of g) = (\<Sum>r \<leftarrow> snd g. ub_attempted r)" for g by (simp add: day_of_def split: prod.split)
    show "(\<Sum>r \<leftarrow> ?rows. ub_attempted r) < 2 ^ 53" by (rule small)
  qed (use rows in \<open>auto simp: sound_counts_def\<close>)
  have b: "js_total (\<lambda>d. of_int (sy_succeeded d)) (service_days (sd_channel s) start finish db) = int_sum ub_succeeded ?rows"
  proof (rule days_total)
    show "sy_succeeded (day_of g) = (\<Sum>r \<leftarrow> snd g. ub_succeeded r)" for g by (simp add: day_of_def split: prod.split)
    show "(\<Sum>r \<leftarrow> ?rows. ub_succeeded r) < 2 ^ 53" by (rule le_less_trans [OF le small]) (simp add: sound_counts_def)
  qed (use rows in \<open>auto simp: sound_counts_def\<close>)
  have c: "js_total (\<lambda>d. of_int (sy_failed d)) (service_days (sd_channel s) start finish db) = int_sum ub_failed ?rows"
  proof (rule days_total)
    show "sy_failed (day_of g) = (\<Sum>r \<leftarrow> snd g. ub_failed r)" for g by (simp add: day_of_def split: prod.split)
    show "(\<Sum>r \<leftarrow> ?rows. ub_failed r) < 2 ^ 53" by (rule le_less_trans [OF le small]) (simp add: sound_counts_def)
  qed (use rows in \<open>auto simp: sound_counts_def\<close>)
  obtain ms specific where "page = service_page_of s start finish ms specific db"
    using assms(3) by (auto simp: loadMetrics_def service_by_key_def key r Let_def split: sum.splits)
  with card show ?thesis
    by (intro exI [of _ "card_of s ?rows"]) (simp add: service_page_of_def card_of_def Let_def a b c)
qed

theorem card_and_page_agree_witness:
  "let row = \<lparr>ub_date = 0, ub_hour = - 1, ub_channel = ''SMS'', ub_account = ''a'', ub_country = ''NG'', ub_provider = ''MTN'',
         ub_attempted = 10, ub_succeeded = 9, ub_failed = 1, ub_units = 10, ub_revenue = 5, ub_cost = 0,
         ur_finalisedAt = None, ur_updatedAt = 0\<rparr>;
       db = empty_store\<lparr>rs_usage := [row]\<rparr>;
     page = projr (loadMetrics (\<lambda>s. None) (\<lambda>v. []) (\<lambda>x n. x) (\<lambda>s. None) 3600000 ''sms'' None None [] db)
   in \<exists>card. find_row (\<lambda>c. sc_service c = hd SERVICES) (projr (loadList (\<lambda>s. None) 3600000 None None db)) = Some card
      \<and> vp_attempted page = sc_attempted card \<and> vp_succeeded page = sc_succeeded card \<and> vp_failed page = sc_failed card
      \<and> vp_successRate page = sc_successRate card"
proof -
  define db where "db = empty_store\<lparr>rs_usage := [\<lparr>ub_date = 0, ub_hour = - 1, ub_channel = ''SMS'', ub_account = ''a'', ub_country = ''NG'',
    ub_provider = ''MTN'', ub_attempted = 10, ub_succeeded = 9, ub_failed = 1, ub_units = 10, ub_revenue = 5, ub_cost = 0,
    ur_finalisedAt = None, ur_updatedAt = 0\<rparr>]\<rparr>"
  have "loadList (\<lambda>s. None) 3600000 None None db = Inr (projr (loadList (\<lambda>s. None) 3600000 None None db))"
    by (simp add: loadList_def resolveRange_def Let_def)
  moreover have "loadMetrics (\<lambda>s. None) (\<lambda>v. []) (\<lambda>x n. x) (\<lambda>s. None) 3600000 ''sms'' None None [] db
      = Inr (projr (loadMetrics (\<lambda>s. None) (\<lambda>v. []) (\<lambda>x n. x) (\<lambda>s. None) 3600000 ''sms'' None None [] db))"
    by (simp add: loadMetrics_def service_by_key_def SERVICES_def resolveRange_def Let_def service_messages_def serviceSpecific_def
      metric_of_def metric_result_of_def)
  moreover have "hd SERVICES \<in> set SERVICES" "sd_key (hd SERVICES) = ''sms''" by (simp_all add: SERVICES_def)
  moreover have "list_all sound_counts (rs_usage db)" "(\<Sum>r \<leftarrow> rs_usage db. ub_attempted r) < 2 ^ 53"
    by (simp_all add: db_def sound_counts_def)
  ultimately show ?thesis
    using card_and_page_agree [of "hd SERVICES" "\<lambda>s. None" 3600000 None None db _ "\<lambda>s. None" "\<lambda>v. []" "\<lambda>x n. x" "[]"]
    unfolding Let_def db_def [symmetric] by simp
qed

section \<open>Labels and flags\<close>

lemma whatsapp_metrics:
  "find_row (\<lambda>s. sd_channel s = ''WHATSAPP'') SERVICES = Some (SERVICES ! 2)"
  "service_by_key ''whatsapp'' = Some (SERVICES ! 2)" "sd_channel (SERVICES ! 2) = ''WHATSAPP''"
  "sd_specificMetrics (SERVICES ! 2) =
      [metric_of ''category'' ''Conversations by category'' MetricSum (Some ''category''),
       metric_of ''read'' ''Read'' MetricSum (Some ''read''),
       metric_of ''templateApprovalRate'' ''Template approval rate'' MetricRate (Some ''templateApproved'')]"
  by (simp_all add: SERVICES_def service_by_key_def)

lemma metric_of_simps [simp]:
  "sm_key (metric_of i l k a) = i" "sm_label (metric_of i l k a) = l" "sm_kind (metric_of i l k a) = k" "sm_attribute (metric_of i l k a) = a"
  by (simp_all add: metric_of_def)

text \<open>
  C31. A metric must not fail the page for a label it cannot read, but one does: a category with a single
  character that is not a digit between digits passes the pattern, the cast raises, and the page of the
  service is an error as long as that message is in the range.
\<close>
theorem label_fails_page:
  assumes "resolveRange parse now from to_day 7 = Inr (start, finish)"
    "r \<in> set (service_messages ''WHATSAPP'' start finish messages)" "metadata_field r ''category'' = Some (JvStr label)"
    "numeric_like label" "numeric label = None"
  shows "loadMetrics numeric json qdiv parse now ''whatsapp'' from to_day messages db
    = Inl (PlainError ''invalid input syntax for type numeric'')"
proof -
  have "\<not> numeric_like ''true''" "\<not> numeric_like ''false''" by code_simp+
  with assms(4) have "label \<noteq> ''true''" "label \<noteq> ''false''" by metis+
  with assms(3-5) have "attribute_number numeric json ''category'' r = None"
    by (simp add: attribute_number_def attribute_text_def)
  then have "None \<in> set (map (attribute_number numeric json ''category'') (service_messages ''WHATSAPP'' start finish messages))"
    using imageI [OF assms(2), of "attribute_number numeric json ''category''"] by simp
  then show ?thesis
    by (simp add: loadMetrics_def whatsapp_metrics assms(1) Let_def serviceSpecific_def metric_result_of_def)
qed

text \<open>What the cast is documented to do with plain digits, and with nothing else.\<close>

definition plain_numeric :: "string \<Rightarrow> rat option" where
  "plain_numeric s = (if s \<noteq> [] \<and> list_all is_digit s then Some (of_nat (radix_value 10 s)) else None)"

theorem label_fails_page_witness:
  "let r = \<lparr>mg_id = ''m'', mg_accountId = ''a'', mg_projectId = None, mg_channel = ''WHATSAPP'', mg_status = ''DELIVERED'',
       mg_recipient = ''x'', mg_content = ''hi'', mg_senderId = None, mg_country = None, mg_operator = None, mg_error = None,
       mg_requestId = ''q'', mg_metadata = Some (JvObj [(''category'', JvStr ''2026-08'')]), mg_createdAt = 3600000\<rparr>
   in loadMetrics plain_numeric (\<lambda>v. []) (\<lambda>x n. x) (\<lambda>s. None) 3600000 ''whatsapp'' None None [r] empty_store
        = Inl (PlainError ''invalid input syntax for type numeric'')"
proof -
  define r where "r = \<lparr>mg_id = ''m'', mg_accountId = ''a'', mg_projectId = None, mg_channel = ''WHATSAPP'', mg_status = ''DELIVERED'',
       mg_recipient = ''x'', mg_content = ''hi'', mg_senderId = None, mg_country = None, mg_operator = None, mg_error = None,
       mg_requestId = ''q'', mg_metadata = Some (JvObj [(''category'', JvStr ''2026-08'')]), mg_createdAt = 3600000\<rparr>"
  have d: "resolveRange (\<lambda>s. None) 3600000 None None 7 = Inr (day_start (lagos_day 3600000 - 7), day_end (lagos_day 3600000))"
    by (simp add: resolveRange_def Let_def)
  have "r \<in> set (service_messages ''WHATSAPP'' (day_start (lagos_day 3600000 - 7)) (day_end (lagos_day 3600000)) [r])"
    by (simp add: service_messages_def r_def day_start_def day_end_def lagos_day_def hour_len_def day_len_def)
  moreover have "metadata_field r ''category'' = Some (JvStr ''2026-08'')" by (simp add: r_def metadata_field_def)
  moreover have "numeric_like ''2026-08''" "plain_numeric ''2026-08'' = None" by code_simp+
  ultimately show ?thesis
    using label_fails_page [OF d, of r "[r]" "''2026-08''" plain_numeric "\<lambda>v. []" "\<lambda>x n. x" empty_store]
    unfolding Let_def r_def [symmetric] by simp
qed

text \<open>A label that is not read contributes nothing: however many conversations there are, the category metric is null.\<close>

lemma categories_not_counted:
  assumes "list_all (\<lambda>r. metadata_field r ''category'' = Some (JvStr ''marketing'')) rows"
  shows "metric_result_of numeric json qdiv rows (metric_of ''category'' ''Conversations by category'' MetricSum (Some ''category'')) ''category''
    = Inr \<lparr>mr_key = ''category'', mr_label = ''Conversations by category'', mr_kind = MetricSum, mr_value = None, mr_sampleSize = length rows\<rparr>"
proof -
  have "\<not> numeric_like ''marketing''" by code_simp
  then have "attribute_number numeric json ''category'' r = Some None" if "r \<in> set rows" for r
    using assms that by (simp add: list_all_iff attribute_number_def attribute_text_def)
  then have "map (attribute_number numeric json ''category'') rows = replicate (length rows) (Some None)"
    by (simp add: map_replicate_const [symmetric] cong: map_cong)
  moreover have "List.map_filter (\<lambda>x. x) (List.map_filter (\<lambda>x. x) (replicate n (Some (None :: rat option)))) = []" for n
    by (induction n) (simp_all add: List.map_filter_simps)
  moreover have "carriers ''category'' rows = length rows"
    using assms by (simp add: carriers_def count_where_def list_all_iff filter_id_conv)
  ultimately show ?thesis by (simp add: metric_result_of_def Let_def)
qed

text \<open>A sum over flags is the number of messages whose flag is set.\<close>

lemma flags_counted:
  assumes "list_all (\<lambda>r. \<exists>b. metadata_field r a = Some (JvBool b)) rows" "rows \<noteq> []" "length rows < 2 ^ 53" "sm_kind metric = MetricSum"
  shows "map_sum id mr_value (metric_result_of numeric json qdiv rows metric a)
    = Inr (Some (of_nat (count_where (\<lambda>r. metadata_field r a = Some (JvBool True)) rows)))"
proof -
  let ?one = "\<lambda>r. if metadata_field r a = Some (JvBool True) then 1 else (0 :: rat)"
  have "attribute_number numeric json a r = Some (Some (?one r))" if "r \<in> set rows" for r
    using assms(1) that by (auto simp: list_all_iff attribute_number_def attribute_text_def)
  then have m: "map (attribute_number numeric json a) rows = map (\<lambda>r. Some (Some (?one r))) rows" by simp
  have f: "List.map_filter (\<lambda>x. x) (List.map_filter (\<lambda>x. x) (map (\<lambda>r. Some (Some (?one r))) xs)) = map ?one xs" for xs
    by (induction xs) (simp_all add: List.map_filter_simps)
  have c: "sum_list (map ?one xs) = of_nat (count_where (\<lambda>r. metadata_field r a = Some (JvBool True)) xs)" for xs
    by (induction xs) simp_all
  have "count_where (\<lambda>r. metadata_field r a = Some (JvBool True)) rows < 2 ^ 53"
    using count_where_le assms(3) by (rule le_less_trans)
  then have "fl (of_nat (count_where (\<lambda>r. metadata_field r a = Some (JvBool True)) rows))
      = of_nat (count_where (\<lambda>r. metadata_field r a = Some (JvBool True)) rows)"
    using fl_int [of "int (count_where (\<lambda>r. metadata_field r a = Some (JvBool True)) rows)"] by simp
  then show ?thesis using assms(2,4) by (auto simp: metric_result_of_def Let_def m f c)
qed

end
