(* ===== verification/Diagnostics.thy ===== *)
theory Diagnostics
  imports Services Configuration
begin

text \<open>
  \<open>modules/services/diagnostics.service.ts\<close>: what the product holds for today in Lagos beside what the
  console shows.  The order of texts in the database, the URL parser and how an amount is written are
  arguments.
\<close>

section \<open>The two sides\<close>

record diagnostics_db =
  dx_product :: product_db
  dx_activity :: "activity_row list"
  dx_applications :: "string list"
  dx_transactions :: "paid_transaction list"
  dx_rollups :: rollup_store
  dx_reviews :: "review list"

record channel_events =
  ce_channel :: string
  ce_events :: nat
  ce_withCost :: nat
  ce_costSum :: rat
  ce_linkedToLedger :: nat

record ledger_group =
  le_type :: string
  le_status :: string
  le_channel :: "string option"
  le_rows :: nat
  le_chargeSum :: rat

record request_geography =
  gy_total :: nat
  gy_withCountry :: nat
  gy_withCity :: nat
  gy_withIp :: nat

definition today_start :: "millis \<Rightarrow> millis" where
  "today_start now = day_start (lagos_day now)"

definition today_end :: "millis \<Rightarrow> millis" where
  "today_end now = day_start (lagos_day now + 1)"

definition events_today :: "millis \<Rightarrow> product_db \<Rightarrow> channel_events list" where
  "events_today now src =
     map (\<lambda>(c, es). \<lparr>ce_channel = c, ce_events = length es, ce_withCost = count_where (\<lambda>e. lg_cost e \<noteq> None) es,
            ce_costSum = (\<Sum>e \<leftarrow> es. coalesce (lg_cost e) 0), ce_linkedToLedger = count_where (\<lambda>e. lg_tab e \<noteq> None) es\<rparr>)
       (sort_key (\<lambda>(c, es). - int (length es))
         (group_rows lg_channel (window_events src (today_start now) (today_end now))))"

text \<open>\<open>rank\<close> is the place of a row in the database's order of texts.\<close>

definition ledger_today :: "(string option list \<Rightarrow> int) \<Rightarrow> millis \<Rightarrow> product_db \<Rightarrow> ledger_group list" where
  "ledger_today rank now src =
     map (\<lambda>((type, status, channel), ts). \<lparr>le_type = type, le_status = status, le_channel = channel, le_rows = length ts,
            le_chargeSum = (\<Sum>t \<leftarrow> ts. tb_charge t)\<rparr>)
       (sort_key (\<lambda>((type, status, channel), ts). rank [Some type, Some status, channel])
         (group_rows (\<lambda>t. (tb_type t, tb_status t, tb_channel t))
           (filter (\<lambda>t. in_window (today_start now) (today_end now) (tb_createdAt t)) (pd_tabs src))))"

definition requests_now :: "millis \<Rightarrow> activity_row list \<Rightarrow> activity_row list" where
  "requests_now now requests = filter (\<lambda>r. in_window (today_start now) (today_end now) (av_createdAt r)) requests"

definition requests_today :: "millis \<Rightarrow> activity_row list \<Rightarrow> (string \<times> nat) list" where
  "requests_today now requests =
     map (\<lambda>(s, rs). (s, length rs))
       (sort_key (\<lambda>(s, rs). - int (length rs)) (group_rows av_service (requests_now now requests)))"

definition geography_today :: "millis \<Rightarrow> activity_row list \<Rightarrow> request_geography" where
  "geography_today now requests =
     (let rs = requests_now now requests in
      \<lparr>gy_total = length rs, gy_withCountry = count_where (\<lambda>r. av_country r \<noteq> None) rs,
       gy_withCity = count_where (\<lambda>r. av_city r \<noteq> None) rs, gy_withIp = count_where (\<lambda>r. av_ip r \<noteq> None) rs\<rparr>)"

definition by_status :: "string list \<Rightarrow> (string \<times> nat) list" where
  "by_status statuses = map (\<lambda>(s, ss). (s, length ss)) (sort_key (\<lambda>(s, ss). - int (length ss)) (group_rows (\<lambda>s. s) statuses))"

definition payments_today :: "(string option list \<Rightarrow> int) \<Rightarrow> millis \<Rightarrow> paid_transaction list \<Rightarrow> (string \<times> nat \<times> rat) list" where
  "payments_today rank now ts =
     map (\<lambda>(s, ps). (s, length ps, sum_of px_amount ps))
       (sort_key (\<lambda>(s, ps). rank [Some s])
         (group_rows px_status (filter (\<lambda>t. in_window (today_start now) (today_end now) (px_createdAt t)) ts)))"

definition newest_of :: "millis list \<Rightarrow> millis option" where
  "newest_of ts = (if ts = [] then None else Some (Max (set ts)))"

section \<open>Findings\<close>

text \<open>A finding with the figures its text quotes.\<close>

datatype finding =
    UsageBehind rat rat
  | RequestsBehind rat rat
  | FewRequests rat rat
  | CostMissing rat
  | ReviewsMissing rat nat
  | NoCountries

definition source_events :: "millis \<Rightarrow> product_db \<Rightarrow> rat" where
  "source_events now src = js_total (\<lambda>c. of_nat (ce_events c)) (events_today now src)"

definition source_requests :: "millis \<Rightarrow> activity_row list \<Rightarrow> rat" where
  "source_requests now requests = js_total (\<lambda>(s, n). of_nat n) (requests_today now requests)"

text \<open>A draft has not been filed.\<close>

definition source_applications :: "string list \<Rightarrow> rat" where
  "source_applications statuses =
     js_total (\<lambda>(s, n). of_nat n) (filter (\<lambda>(s, n). toUpperCase (trim s) \<noteq> ''DRAFT'') (by_status statuses))"

definition ledger_debits :: "(string option list \<Rightarrow> int) \<Rightarrow> millis \<Rightarrow> product_db \<Rightarrow> rat" where
  "ledger_debits rank now src =
     js_total le_chargeSum (filter (\<lambda>l. le_type l = ''DEBIT'' \<and> le_status l \<noteq> ''FAILED'') (ledger_today rank now src))"

definition event_cost_sum :: "millis \<Rightarrow> product_db \<Rightarrow> rat" where
  "event_cost_sum now src = js_total ce_costSum (events_today now src)"

definition usage_of_day :: "millis \<Rightarrow> bool \<Rightarrow> rollup_store \<Rightarrow> usage_rollup list" where
  "usage_of_day now daily db =
     filter (\<lambda>r. ub_date r = lagosDateOnly (today_start now) \<and> (if daily then ub_hour r = - 1 else 0 \<le> ub_hour r)) (rs_usage db)"

definition rolled_events :: "millis \<Rightarrow> rollup_store \<Rightarrow> rat" where
  "rolled_events now db = int_sum ub_attempted (usage_of_day now True db)"

definition rolled_requests :: "millis \<Rightarrow> rollup_store \<Rightarrow> rat" where
  "rolled_requests now db = int_sum qr_total (filter (\<lambda>r. qr_date r = lagosDateOnly (today_start now)) (rs_requests db))"

definition diagnostics_findings :: "(string option list \<Rightarrow> int) \<Rightarrow> millis \<Rightarrow> diagnostics_db \<Rightarrow> finding list" where
  "diagnostics_findings rank now db =
     (let src = dx_product db;
          sourceEvents = source_events now src;
          sourceRequests = source_requests now (dx_activity db);
          sourceApplications = source_applications (dx_applications db);
          debits = ledger_debits rank now src;
          eventCostSum = event_cost_sum now src;
          rolledEvents = rolled_events now (dx_rollups db);
          rolledRequests = rolled_requests now (dx_rollups db);
          reviews = length (dx_reviews db);
          geo = geography_today now (dx_activity db)
      in (if sourceEvents \<noteq> rolledEvents then [UsageBehind rolledEvents sourceEvents] else [])
         @ (if sourceRequests \<noteq> rolledRequests then [RequestsBehind rolledRequests sourceRequests] else [])
         @ (if sourceEvents > 0 \<and> fl (sourceRequests * 5) < sourceEvents then [FewRequests sourceRequests sourceEvents] else [])
         @ (if eventCostSum = 0 \<and> debits > 0 then [CostMissing debits] else [])
         @ (if of_nat reviews < sourceApplications then [ReviewsMissing sourceApplications reviews] else [])
         @ (if gy_total geo > 0 \<and> gy_withCountry geo = 0 then [NoCountries] else []))"

section \<open>The report\<close>

record diagnostics_report =
  rp_generatedAt :: millis
  rp_lagosDay :: int
  rp_target :: "string \<times> string"
  rp_findings :: "finding list"
  rp_accounts :: nat
  rp_newest :: "millis option \<times> millis option \<times> millis option"
  rp_messageEvents :: "channel_events list"
  rp_ledger :: "ledger_group list"
  rp_apiRequests :: "(string \<times> nat) list"
  rp_geography :: request_geography
  rp_applicationStatuses :: "(string \<times> nat) list"
  rp_payments :: "(string \<times> nat \<times> rat) list"
  rp_usageDaily :: "nat \<times> rat \<times> rat"
  rp_usageHourly :: "nat \<times> rat \<times> rat"
  rp_rolledRequests :: rat
  rp_reviews :: nat
  rp_reviewsByStatus :: "(review_status \<times> nat) list"
  rp_watermarks :: "(string \<times> millis \<times> string option) list"

text \<open>The first slash of the path is taken out.\<close>

definition productTarget :: "(string \<Rightarrow> parsed_url option) \<Rightarrow> string option \<Rightarrow> string \<times> string" where
  "productTarget url raw =
     (case url (coalesce raw []) of
        None \<Rightarrow> (''unparseable'', ''unparseable'')
      | Some u \<Rightarrow> (pu_hostname u, drop_slash (pu_pathname u)))"

definition usage_shown :: "usage_rollup list \<Rightarrow> nat \<times> rat \<times> rat" where
  "usage_shown rows = (length rows, int_sum ub_attempted rows, sum_of ub_revenue rows)"

definition dataHealth ::
  "(string option list \<Rightarrow> int) \<Rightarrow> (string \<Rightarrow> parsed_url option) \<Rightarrow> string option \<Rightarrow> millis \<Rightarrow> diagnostics_db \<Rightarrow> diagnostics_report" where
  "dataHealth rank url raw now db =
     (let src = dx_product db in
      \<lparr>rp_generatedAt = now, rp_lagosDay = lagos_day now, rp_target = productTarget url raw,
       rp_findings = diagnostics_findings rank now db,
       rp_accounts = length (pd_accounts src),
       rp_newest = (newest_of (map lg_createdAt (pd_events src)), newest_of (map av_createdAt (dx_activity db)),
         newest_of (map tb_createdAt (pd_tabs src))),
       rp_messageEvents = events_today now src, rp_ledger = ledger_today rank now src,
       rp_apiRequests = requests_today now (dx_activity db), rp_geography = geography_today now (dx_activity db),
       rp_applicationStatuses = by_status (dx_applications db),
       rp_payments = payments_today rank now (dx_transactions db),
       rp_usageDaily = usage_shown (usage_of_day now True (dx_rollups db)),
       rp_usageHourly = usage_shown (usage_of_day now False (dx_rollups db)),
       rp_rolledRequests = rolled_requests now (dx_rollups db),
       rp_reviews = length (dx_reviews db),
       rp_reviewsByStatus = map (\<lambda>(s, rs). (s, length rs)) (group_rows rv_status (dx_reviews db)),
       rp_watermarks = map (\<lambda>w. (wm_job w, wm_processedTo w, wm_lastError w)) (rs_watermarks (dx_rollups db))\<rparr>)"

section \<open>The findings\<close>

lemma js_total_nats:
  assumes "(\<Sum>d \<leftarrow> ds. f d) < (2 :: nat) ^ 53"
  shows "js_total (\<lambda>d. of_nat (f d)) ds = of_nat (\<Sum>d \<leftarrow> ds. f d)"
proof -
  have i: "(\<Sum>d \<leftarrow> ds. int (f d)) = int (\<Sum>d \<leftarrow> ds. f d)" by (induction ds) simp_all
  have "int (\<Sum>d \<leftarrow> ds. f d) < int (2 ^ 53)" using assms by (simp only: of_nat_less_iff)
  then have "js_total (\<lambda>d. of_int (int (f d))) ds = of_int (\<Sum>d \<leftarrow> ds. int (f d))"
    by (intro js_total_ints) (simp_all add: i)
  then show ?thesis by (simp add: i)
qed

lemma group_lengths: "(\<Sum>g \<leftarrow> group_rows key rows. length (snd g)) = length rows"
proof -
  have "(\<Sum>g \<leftarrow> group_rows key rows. length (snd g)) = (\<Sum>k \<leftarrow> js_set (map key rows). \<Sum>r \<leftarrow> filter (\<lambda>r. key r = k) rows. 1)"
    unfolding group_rows_def by (simp add: comp_def sum_list_triv)
  also have "\<dots> = (\<Sum>r \<leftarrow> rows. 1)" by (rule sum_js_set_groups) simp_all
  finally show ?thesis by (simp add: sum_list_triv)
qed

lemma sum_list_sort_key_nat: "(\<Sum>x \<leftarrow> sort_key k xs. f x :: nat) = (\<Sum>x \<leftarrow> xs. f x)"
proof -
  have "mset (map f (sort_key k xs)) = mset (map f xs)" by simp
  then show ?thesis by (metis sum_mset_sum_list)
qed

lemma source_events_count:
  assumes "length (events_of_day src (lagos_day now)) < 2 ^ 53"
  shows "source_events now src = of_nat (length (events_of_day src (lagos_day now)))"
proof -
  let ?es = "events_of_day src (lagos_day now)"
  have e: "map ce_events (events_today now src) = map (\<lambda>g. length (snd g)) (sort_key (\<lambda>(c, es). - int (length es)) (group_rows lg_channel ?es))"
    unfolding events_today_def today_start_def today_end_def window_events_day by (simp add: split_def)
  have "(\<Sum>c \<leftarrow> events_today now src. ce_events c) = length ?es"
    unfolding e sum_list_sort_key_nat group_lengths ..
  with assms show ?thesis unfolding source_events_def by (subst js_total_nats) simp_all
qed

text \<open>
  The report finds the usage rollup behind exactly when it does not count the product's events of the
  day, with the two counts it quotes, and right after the day has been rolled up it never does.
\<close>
theorem usage_finding_exact:
  assumes "length (events_of_day (dx_product db) (lagos_day now)) < 2 ^ 53"
  shows "(UsageBehind a b \<in> set (rp_findings (dataHealth rank url raw now db)) \<longleftrightarrow>
      a = rolled_events now (dx_rollups db) \<and> b = of_nat (length (events_of_day (dx_product db) (lagos_day now))) \<and> a \<noteq> b)
    \<and> \<not> (distinct (map usage_key (rs_usage old)) \<and> older_stamps (rx_now env) (lagos_day now) (rs_usage old) \<and> texts_ok (dx_product db)
      \<and> days_ok (rx_ymd env) \<and> dx_rollups db = snd (finaliseDay env (dx_product db) (today_start now) historical old)
      \<and> UsageBehind a b \<in> set (rp_findings (dataHealth rank url raw now db)))"
proof -
  let ?d = "lagos_day now"
  let ?n = "of_nat (length (events_of_day (dx_product db) ?d)) :: rat"
  have first: "UsageBehind a b \<in> set (rp_findings (dataHealth rank url raw now db)) \<longleftrightarrow> a = rolled_events now (dx_rollups db) \<and> b = ?n \<and> a \<noteq> b"
    by (auto simp: dataHealth_def diagnostics_findings_def Let_def source_events_count [OF assms])
  moreover have "rolled_events now (dx_rollups db) = ?n"
    if h: "distinct (map usage_key (rs_usage old))" "older_stamps (rx_now env) ?d (rs_usage old)" "texts_ok (dx_product db)"
      "days_ok (rx_ymd env)" "dx_rollups db = snd (finaliseDay env (dx_product db) (today_start now) historical old)"
  proof -
    have u: "usage_of_day now True (dx_rollups db) = filter (daily_row ?d) (rs_usage (dx_rollups db))"
      by (simp add: usage_of_day_def daily_row_def [abs_def] today_start_def lagosDateOnly_def)
    have "(\<Sum>r \<leftarrow> usage_of_day now True (dx_rollups db). ub_attempted r) = int (length (events_of_day (dx_product db) ?d))"
      unfolding u unfolding h(5) today_start_def by (rule day_attempted [OF h(1,2,3,4)])
    then show ?thesis using fl_int [of "int (length (events_of_day (dx_product db) ?d))"] assms
      by (simp add: rolled_events_def int_sum_def)
  qed
  ultimately show ?thesis by blast
qed

theorem usage_finding_exact_witness:
  "let db = \<lparr>dx_product = sample_product, dx_activity = [], dx_applications = [], dx_transactions = [],
       dx_rollups = snd (finaliseDay (sample_env 50 50) sample_product (today_start (day_start 20000 + 10)) False empty_store), dx_reviews = []\<rparr>
   in UsageBehind a b \<notin> set (rp_findings (dataHealth (\<lambda>x. 0) (\<lambda>x. None) None (day_start 20000 + 10) db))"
proof -
  define db where "db = \<lparr>dx_product = sample_product, dx_activity = [], dx_applications = [], dx_transactions = [],
       dx_rollups = snd (finaliseDay (sample_env 50 50) sample_product (today_start (day_start 20000 + 10)) False empty_store), dx_reviews = []\<rparr>"
  have d: "lagos_day (day_start 20000 + 10) = 20000"
    by (simp add: lagos_day_def day_start_def hour_len_def day_len_def)
  have "length (events_of_day sample_product 20000) \<le> length (pd_events sample_product)"
    by (simp add: events_of_day_def)
  also have "\<dots> < 2 ^ 53" by (simp add: sample_product_def)
  finally have l: "length (events_of_day (dx_product db) (lagos_day (day_start 20000 + 10))) < 2 ^ 53"
    unfolding d by (simp add: db_def)
  have "distinct (map usage_key (rs_usage empty_store))" "older_stamps (rx_now (sample_env 50 50)) 20000 (rs_usage empty_store)"
    "texts_ok (dx_product db)" "days_ok (rx_ymd (sample_env 50 50))"
    "dx_rollups db = snd (finaliseDay (sample_env 50 50) (dx_product db) (today_start (day_start 20000 + 10)) False empty_store)"
    using sample_texts plain_day_ok by (simp_all add: empty_store_def older_stamps_def sample_env_def db_def)
  then have "UsageBehind a b \<notin> set (rp_findings (dataHealth (\<lambda>x. 0) (\<lambda>x. None) None (day_start 20000 + 10) db))"
    using usage_finding_exact [OF l, of a b "\<lambda>x. 0" "\<lambda>x. None" None empty_store "sample_env 50 50" False] unfolding d by blast
  then show ?thesis unfolding Let_def db_def .
qed

end
