(* ===== verification/Markets.thy ===== *)
theory Markets
  imports Review_Client Api_Answers
begin

text \<open>
  \<open>modules/markets/markets.service.ts\<close> and \<open>modules/availability/availability.service.ts\<close>: how each
  country's new accounts are set up and which products each country may use.  The rows live with
  api-core: its answers are arguments (a payload that is null, where the body was not JSON, is None) and
  the calls that change something are recorded as sent.
\<close>

section \<open>Billing markets\<close>

record market =
  mk_id :: string
  mk_countryCode :: string
  mk_currency :: string
  mk_welcomeBonusEnabled :: bool
  mk_welcomeBonusAmount :: "string option"
  mk_note :: "string option"

record market_change =
  mc_countryCode :: string
  mc_currency :: string
  mc_welcomeBonusEnabled :: bool
  mc_welcomeBonusAmount :: "rat option"
  mc_note :: "string option"
  mc_updatedBy :: string

record market_dto =
  md_countryCode :: string
  md_currency :: string
  md_welcomeBonusEnabled :: bool
  md_welcomeBonusAmount :: "rat option"
  md_note :: "string option"
  md_reason :: string

definition market_view :: "market \<Rightarrow> (string \<times> json) list" where
  "market_view m =
     [(''currency'', JStr (mk_currency m)), (''welcomeBonusEnabled'', JBool (mk_welcomeBonusEnabled m)),
      (''welcomeBonusAmount'', jstr_opt (mk_welcomeBonusAmount m)), (''note'', jstr_opt (mk_note m))]"

record market_api =
  ma_list :: "market list option result"
  ma_set :: "market_change \<Rightarrow> market option result"
  ma_delete :: "string \<Rightarrow> market option result"

datatype market_call = SetMarket market_change | DeleteMarket string

record markets_state =
  ms_calls :: "market_call list"
  ms_audit :: "audit_row list"

definition change_of :: "principal \<Rightarrow> market_dto \<Rightarrow> market_change" where
  "change_of actor dto = \<lparr>mc_countryCode = toUpperCase (md_countryCode dto), mc_currency = md_currency dto,
     mc_welcomeBonusEnabled = md_welcomeBonusEnabled dto, mc_welcomeBonusAmount = md_welcomeBonusAmount dto,
     mc_note = md_note dto, mc_updatedBy = sp_email actor\<rparr>"

definition market_entry :: "principal \<Rightarrow> market_dto \<Rightarrow> market option \<Rightarrow> market \<Rightarrow> audit_entry" where
  "market_entry actor dto before row =
     staff_entry actor ''markets.set'' ''billing_market'' (mk_id row) (Some (md_reason dto))
       (case before of None \<Rightarrow> JNull | Some m \<Rightarrow> JObj (market_view m))
       (JObj ((''countryCode'', JStr (toUpperCase (md_countryCode dto))) # market_view row)) JNull"

definition set_market :: "market_api \<Rightarrow> principal \<Rightarrow> market_dto \<Rightarrow> markets_state \<Rightarrow> (markets_state, market) outcome" where
  "set_market api actor dto s =
     (let countryCode = toUpperCase (md_countryCode dto) in
      case ma_list api of
        Inl e \<Rightarrow> throws e s
      | Inr None \<Rightarrow> throws (null_property ''find'') s
      | Inr (Some rows) \<Rightarrow>
          (let before = find_row (\<lambda>m. mk_countryCode m = countryCode) rows;
               s1 = s\<lparr>ms_calls := ms_calls s @ [SetMarket (change_of actor dto)]\<rparr>
           in case ma_set api (change_of actor dto) of
                Inl e \<Rightarrow> throws e s1
              | Inr None \<Rightarrow> throws (null_property ''id'') s1
              | Inr (Some row) \<Rightarrow> returns row (s1\<lparr>ms_audit := audit_record (market_entry actor dto before row) (ms_audit s1)\<rparr>)))"

definition remove_market :: "market_api \<Rightarrow> principal \<Rightarrow> string \<Rightarrow> string \<Rightarrow> markets_state \<Rightarrow> (markets_state, market) outcome" where
  "remove_market api actor i reason s =
     (let s1 = s\<lparr>ms_calls := ms_calls s @ [DeleteMarket i]\<rparr> in
      case ma_delete api i of
        Inl e \<Rightarrow> throws e s1
      | Inr None \<Rightarrow> throws (null_property ''countryCode'') s1
      | Inr (Some row) \<Rightarrow> returns row (s1\<lparr>ms_audit := audit_record
          (staff_entry actor ''markets.removed'' ''billing_market'' i (Some reason)
            (JObj ((''countryCode'', JStr (mk_countryCode row)) # market_view row)) JNull JNull) (ms_audit s1)\<rparr>))"

section \<open>Availability\<close>

record availability_rule =
  ar_id :: string
  ar_accountCountry :: string
  ar_service :: string
  ar_destinationCountry :: string
  ar_messageType :: string
  ar_enabled :: bool

record rule_dto =
  rd_accountCountry :: string
  rd_service :: string
  rd_destinationCountry :: string
  rd_messageType :: "string option"
  rd_enabled :: bool
  rd_note :: "string option"

record availability_dto =
  ad_upserts :: "rule_dto list"
  ad_deleteIds :: "string list"
  ad_reason :: string

text \<open>A change as it is sent: the rule without its id, the note and who asked.\<close>

record rule_change =
  ru_rule :: availability_rule
  ru_note :: "string option"
  ru_updatedBy :: string

definition describe_rule :: "availability_rule \<Rightarrow> json" where
  "describe_rule r = JObj
     [(''accountCountry'', JStr (ar_accountCountry r)), (''service'', JStr (ar_service r)),
      (''destinationCountry'', JStr (ar_destinationCountry r)), (''messageType'', JStr (ar_messageType r)),
      (''enabled'', JBool (ar_enabled r))]"

definition rule_change_of :: "principal \<Rightarrow> rule_dto \<Rightarrow> rule_change" where
  "rule_change_of actor r =
     \<lparr>ru_rule = \<lparr>ar_id = [], ar_accountCountry = toUpperCase (rd_accountCountry r), ar_service = rd_service r,
        ar_destinationCountry = toUpperCase (rd_destinationCountry r),
        ar_messageType = (case rd_messageType r of None \<Rightarrow> ''*'' | Some t \<Rightarrow> t), ar_enabled = rd_enabled r\<rparr>,
      ru_note = rd_note r, ru_updatedBy = sp_email actor\<rparr>"

record availability_api =
  aa_list :: "availability_rule list option result"
  aa_change :: "rule_change list \<Rightarrow> string list \<Rightarrow> availability_rule list option result"

record availability_state =
  as_calls :: "(rule_change list \<times> string list) list"
  as_audit :: "audit_row list"

text \<open>\<open>new Map\<close> over the rules: the last of an id wins; an id that is not there is passed over.\<close>

definition removed_rules :: "availability_rule list \<Rightarrow> string list \<Rightarrow> availability_rule list" where
  "removed_rules before ids = List.map_filter (map_of (map (\<lambda>r. (ar_id r, r)) (rev before))) ids"

definition availability_entry :: "principal \<Rightarrow> availability_dto \<Rightarrow> availability_rule list \<Rightarrow> nat \<Rightarrow> audit_entry" where
  "availability_entry actor dto before n =
     staff_entry actor ''availability.changed'' ''availability_rule'' ''bulk'' (Some (ad_reason dto))
       (JObj [(''removed'', JArr (map describe_rule (removed_rules before (ad_deleteIds dto))))])
       (JObj [(''saved'', JArr (map (describe_rule \<circ> ru_rule \<circ> rule_change_of actor) (ad_upserts dto))), (''rules'', JInt (int n))]) JNull"

definition change_availability ::
  "availability_api \<Rightarrow> principal \<Rightarrow> availability_dto \<Rightarrow> availability_state \<Rightarrow> (availability_state, availability_rule list) outcome" where
  "change_availability api actor dto s =
     (case aa_list api of
        Inl e \<Rightarrow> throws e s
      | Inr None \<Rightarrow> throws (null_property ''map'') s
      | Inr (Some before) \<Rightarrow>
          (let upserts = map (rule_change_of actor) (ad_upserts dto);
               s1 = s\<lparr>as_calls := as_calls s @ [(upserts, ad_deleteIds dto)]\<rparr>
           in case aa_change api upserts (ad_deleteIds dto) of
                Inl e \<Rightarrow> throws e s1
              | Inr None \<Rightarrow> throws (null_property ''length'') s1
              | Inr (Some after) \<Rightarrow>
                  returns after (s1\<lparr>as_audit := audit_record (availability_entry actor dto before (length after)) (as_audit s1)\<rparr>)))"

section \<open>What is recorded\<close>

text \<open>
  A market changes hands with api-core at most once per call and is audited exactly when it answered
  with the row: then by one entry, for the country in capitals, with the row it had before; a refusal is
  passed on and leaves the log as it was.
\<close>
theorem market_change_audited:
  "case set_market api actor dto s of
     (Inr row, s') \<Rightarrow>
        ms_calls s' = ms_calls s @ [SetMarket (change_of actor dto)] \<and> ma_set api (change_of actor dto) = Inr (Some row)
        \<and> (\<exists>rows. ma_list api = Inr (Some rows) \<and> ms_audit s' = audit_record
             (market_entry actor dto (find_row (\<lambda>m. mk_countryCode m = toUpperCase (md_countryCode dto)) rows) row) (ms_audit s))
   | (Inl e, s') \<Rightarrow> ms_audit s' = ms_audit s \<and> length (ms_calls s') \<le> length (ms_calls s) + 1
        \<and> (ma_list api = Inl e \<or> ma_set api (change_of actor dto) = Inl e \<or> e = null_property ''find'' \<or> e = null_property ''id'')"
  by (auto simp: set_market_def Let_def split: sum.splits option.splits)

text \<open>
  A save of availability rules records what it sent, the rules it took away as they were, and nothing of
  what a rule it changed said before: two products that differ in a rule that is not removed leave the
  same entry.
\<close>
theorem changed_rule_before_lost:
  assumes "aa_list api = Inr (Some before)" "aa_list api' = Inr (Some before')"
    "aa_change api = aa_change api'" "removed_rules before (ad_deleteIds dto) = removed_rules before' (ad_deleteIds dto)"
  shows "change_availability api actor dto s = change_availability api' actor dto s"
  using assms by (simp add: change_availability_def availability_entry_def Let_def split: sum.split option.split)

theorem changed_rule_before_lost_witness:
  "let r = \<lparr>ar_id = ''r1'', ar_accountCountry = ''NG'', ar_service = ''SMS'', ar_destinationCountry = ''*'', ar_messageType = ''*'', ar_enabled = True\<rparr>;
       dto = \<lparr>ad_upserts = [\<lparr>rd_accountCountry = ''ng'', rd_service = ''SMS'', rd_destinationCountry = ''*'', rd_messageType = None,
               rd_enabled = True, rd_note = None\<rparr>], ad_deleteIds = [], ad_reason = ''opening the route''\<rparr>;
       on = \<lparr>aa_list = Inr (Some [r]), aa_change = (\<lambda>u d. Inr (Some [r]))\<rparr>;
       off = \<lparr>aa_list = Inr (Some [r\<lparr>ar_enabled := False\<rparr>]), aa_change = (\<lambda>u d. Inr (Some [r]))\<rparr>
   in change_availability on actor dto s = change_availability off actor dto s"
  unfolding Let_def by (rule changed_rule_before_lost) (simp_all add: removed_rules_def List.map_filter_simps)

text \<open>What is saved has its countries in capitals.\<close>

lemma saved_rules_capital:
  "toUpperCase (ar_accountCountry (ru_rule (rule_change_of actor r))) = ar_accountCountry (ru_rule (rule_change_of actor r))"
  by (simp add: rule_change_of_def toUpperCase_idem)

end
