(* ===== verification/Totp.thy ===== *)
theory Totp
  imports Codec
begin

text \<open>
  \<open>modules/auth/totp.service.ts\<close>: how the second factor's secret is kept and a code is checked.  The
  cipher (AES-256-GCM), the hash and the one-time-password library are arguments; the three parts of a
  stored secret are standard base64, which the decoder of the codec theory reads too.
\<close>

section \<open>Standard base64\<close>

definition std_alphabet :: string where
  "std_alphabet = ''ABCDEFGHIJKLMNOPQRSTUVWXYZabcdefghijklmnopqrstuvwxyz0123456789+/''"

definition base64_encode :: "string \<Rightarrow> string" where
  "base64_encode s = map ((!) std_alphabet) (b64_sextets (map of_char s))
     @ replicate (if length s mod 3 = 1 then 2 else if length s mod 3 = 2 then 1 else 0) (CHR ''='')"

lemma std_char_value:
  assumes "n < 64"
  shows "b64_value (std_alphabet ! n) = Some n" "std_alphabet ! n \<noteq> CHR ''=''" "std_alphabet ! n \<noteq> CHR ''.''"
proof -
  have "take 62 std_alphabet = take 62 b64_alphabet" by (simp add: std_alphabet_def b64_alphabet_def)
  then have "std_alphabet ! n = b64_char n" if "n < 62"
    using that unfolding b64_char_def by (metis nth_take)
  moreover have "b64_value (std_alphabet ! 62) = Some 62" "b64_value (std_alphabet ! 63) = Some 63"
    unfolding std_alphabet_def by (simp_all add: b64_value_def is_upper_def is_lower_def is_digit_def)
  moreover have "n < 62 \<or> n = 62 \<or> n = 63" using assms by linarith
  ultimately show v: "b64_value (std_alphabet ! n) = Some n"
    using b64_char_value(1) [OF assms] by auto
  have "b64_value (CHR ''='') = None" "b64_value (CHR ''.'') = None" by code_simp+
  with v show "std_alphabet ! n \<noteq> CHR ''=''" "std_alphabet ! n \<noteq> CHR ''.''" by auto
qed

lemma base64_decode_encode: "base64url_decode (base64_encode s) = s"
proof -
  have o: "\<forall>n \<in> set (map of_char s). n < (256 :: nat)" by auto
  have r: "List.map_filter b64_value (takeWhile (\<lambda>c. c \<noteq> CHR ''='') (map ((!) std_alphabet) ns @ replicate k (CHR ''=''))) = ns"
    if "\<forall>n \<in> set ns. n < 64" for ns k
    using that by (induction ns) (cases k, auto simp: std_char_value List.map_filter_simps)
  show ?thesis
    unfolding base64url_decode_def base64_encode_def r [OF b64_sextets_bound [OF o]] b64_octets_sextets [OF o]
    by (simp add: comp_def)
qed

lemma base64_no_dot: "CHR ''.'' \<notin> set (base64_encode s)"
proof -
  have o: "\<forall>n \<in> set (map of_char s). n < (256 :: nat)" by auto
  show ?thesis using b64_sextets_bound [OF o] std_char_value(3) by (auto simp: base64_encode_def dest: sym)
qed

section \<open>Secrets at rest\<close>

text \<open>\<open>seal key iv text\<close> gives the bytes and the tag; \<open>unseal key iv tag bytes\<close> None where the tag does not match.\<close>

record totp_crypto =
  tp_hash :: "string \<Rightarrow> string"
  tp_seal :: "string \<Rightarrow> string \<Rightarrow> string \<Rightarrow> string \<times> string"
  tp_unseal :: "string \<Rightarrow> string \<Rightarrow> string \<Rightarrow> string \<Rightarrow> string option"

definition totp_key :: "totp_crypto \<Rightarrow> string \<Rightarrow> string" where
  "totp_key c jwtSecret = tp_hash c (''totp:'' @ jwtSecret)"

definition totp_encrypt :: "totp_crypto \<Rightarrow> string \<Rightarrow> string \<Rightarrow> string \<Rightarrow> string" where
  "totp_encrypt c jwtSecret iv secret =
     (let (enc, tag) = tp_seal c (totp_key c jwtSecret) iv secret
      in join_with ''.'' [base64_encode iv, base64_encode tag, base64_encode enc])"

text \<open>A part that is missing, or a tag that does not match, throws; a fourth part is ignored.\<close>

definition totp_decrypt :: "totp_crypto \<Rightarrow> string \<Rightarrow> string \<Rightarrow> string result" where
  "totp_decrypt c jwtSecret stored =
     (case split_on (CHR ''.'') stored of
        ivB64 # tagB64 # dataB64 # more_parts \<Rightarrow>
          (case tp_unseal c (totp_key c jwtSecret) (base64url_decode ivB64) (base64url_decode tagB64) (base64url_decode dataB64) of
             None \<Rightarrow> Inl (PlainError ''Unsupported state or unable to authenticate data'')
           | Some t \<Rightarrow> Inr t)
      | _ \<Rightarrow> Inl (PlainError ''The first argument must be of type string''))"

text \<open>A code is compared without its spaces; a library that throws counts as a wrong code.\<close>

definition totp_verify :: "(string \<Rightarrow> string \<Rightarrow> bool option) \<Rightarrow> string \<Rightarrow> string \<Rightarrow> bool" where
  "totp_verify check secret token = (case check secret (filter (\<lambda>c. \<not> is_space c) token) of None \<Rightarrow> False | Some valid \<Rightarrow> valid)"

lemma split_on_dots:
  assumes "d \<notin> set a"
  shows "split_on d (a @ d # r) = a # split_on d r"
  using assms by (induction a) auto

lemma split_on_none: "d \<notin> set a \<Longrightarrow> split_on d a = [a]"
  by (induction a) auto

text \<open>A secret that was encrypted is read back, whatever bytes the cipher and its tag have, by the key it was encrypted with.\<close>

theorem totp_secret_round_trip:
  assumes "\<And>key iv s. case tp_seal c key iv s of (enc, tag) \<Rightarrow> tp_unseal c key iv tag enc = Some s"
  shows "totp_decrypt c jwtSecret (totp_encrypt c jwtSecret iv secret) = Inr secret"
proof -
  obtain enc tag where e: "tp_seal c (totp_key c jwtSecret) iv secret = (enc, tag)" by force
  with assms [of "totp_key c jwtSecret" iv secret] have u: "tp_unseal c (totp_key c jwtSecret) iv tag enc = Some secret" by simp
  have "split_on (CHR ''.'') (totp_encrypt c jwtSecret iv secret) = [base64_encode iv, base64_encode tag, base64_encode enc]"
    by (simp add: totp_encrypt_def e split_on_dots split_on_none base64_no_dot)
  then show ?thesis by (simp add: totp_decrypt_def base64_decode_encode u)
qed

theorem totp_secret_round_trip_witness:
  "totp_decrypt \<lparr>tp_hash = rev, tp_seal = (\<lambda>k iv s. (rev s, k @ iv)), tp_unseal = (\<lambda>k iv tag e. if tag = k @ iv then Some (rev e) else None)\<rparr>
     ''jwt'' (totp_encrypt \<lparr>tp_hash = rev, tp_seal = (\<lambda>k iv s. (rev s, k @ iv)), tp_unseal = (\<lambda>k iv tag e. if tag = k @ iv then Some (rev e) else None)\<rparr>
       ''jwt'' ''iv'' ''JBSWY3DP'') = Inr ''JBSWY3DP''"
  by (rule totp_secret_round_trip) simp

end
