(* ===== verification/Cache_Key.thy ===== *)
theory Cache_Key
  imports Codec Bulk_Upsert
begin

text \<open>
  \<open>cacheKey\<close> of \<open>common/cache/ttl-cache.ts\<close>: the text a request's fields are cached under.  A DTO is flat,
  its fields texts and integers, some of them undefined; \<open>rank\<close> is the place of a name in the order of
  \<open>localeCompare\<close>.
\<close>

datatype dto_value = DtoText string | DtoInt int

fun dto_text :: "dto_value \<Rightarrow> string" where
  "dto_text (DtoText t) = json_quote t"
| "dto_text (DtoInt i) = int_text i"

definition defined_fields :: "(string \<times> dto_value option) list \<Rightarrow> (string \<times> dto_value) list" where
  "defined_fields fs = List.map_filter (\<lambda>(k, v). map_option (Pair k) v) fs"

definition field_text :: "string \<times> dto_value \<Rightarrow> string" where
  "field_text f = json_quote (fst f) @ '':'' @ dto_text (snd f)"

definition cacheKey :: "(string \<Rightarrow> nat) \<Rightarrow> (string \<times> dto_value option) list \<Rightarrow> string" where
  "cacheKey rank fs = ''{'' @ join_with '','' (map field_text (sort_key (rank \<circ> fst) (defined_fields fs))) @ ''}''"

section \<open>One key, one request\<close>

lemma quoted_inj:
  assumes "json_quote a @ r = json_quote b @ t"
  shows "a = b \<and> r = t"
proof -
  have "json_chars (concat (map json_escape a) @ CHR 0x22 # r) = json_chars (concat (map json_escape b) @ CHR 0x22 # t)"
    using assms by (simp add: json_quote_def)
  then show ?thesis by (simp add: json_chars_quoted)
qed

definition after_value :: "string \<Rightarrow> bool" where
  "after_value r \<longleftrightarrow> r \<noteq> [] \<and> (hd r = CHR '','' \<or> hd r = CHR ''}'')"

definition number_char :: "char \<Rightarrow> bool" where
  "number_char c \<longleftrightarrow> is_digit c \<or> c = CHR ''-''"

lemma int_text_chars: "list_all number_char (int_text i) \<and> int_text i \<noteq> []"
  using dec_digits [of "nat i"] dec_digits [of "nat (- i)"]
  by (auto simp: int_text_def number_char_def list_all_iff)

lemma int_text_read:
  assumes "after_value r"
  shows "takeWhile number_char (int_text i @ r) = int_text i"
proof -
  have "takeWhile number_char r = []"
    using assms by (cases r) (auto simp: after_value_def number_char_def is_digit_def)
  moreover have "takeWhile number_char (int_text i @ r) = int_text i @ takeWhile number_char r"
    using int_text_chars [of i] by (intro takeWhile_append2) (simp add: list_all_iff)
  ultimately show ?thesis by simp
qed

lemma dto_text_inj:
  assumes "dto_text v @ r = dto_text w @ t" "after_value r" "after_value t"
  shows "v = w \<and> r = t"
proof -
  have q: "json_quote a @ x \<noteq> int_text i @ y" for a x i y
  proof
    assume e: "json_quote a @ x = int_text i @ y"
    obtain c cs where "int_text i = c # cs" "number_char c" using int_text_chars [of i] by (cases "int_text i") auto
    with e have "number_char (CHR 0x22)" by (simp add: json_quote_def)
    then show False by (simp add: number_char_def is_digit_def)
  qed
  show ?thesis
  proof (cases v; cases w)
    fix a b assume "v = DtoText a" "w = DtoText b"
    with quoted_inj [of a r b t] assms(1) show ?thesis by simp
  next
    fix i j assume vw: "v = DtoInt i" "w = DtoInt j"
    with assms have "int_text i = int_text j" by (metis dto_text.simps(2) int_text_read)
    with vw assms(1) show ?thesis by (auto dest: int_text_inj)
  next
    fix a j assume "v = DtoText a" "w = DtoInt j"
    with q [of a r j t] assms(1) show ?thesis by simp
  next
    fix i b assume "v = DtoInt i" "w = DtoText b"
    with q [of b t i r] assms(1) show ?thesis by simp
  qed
qed

definition fields_tail :: "(string \<times> dto_value) list \<Rightarrow> string" where
  "fields_tail fs = (if fs = [] then ''}'' else CHR '','' # join_with '','' (map field_text fs) @ ''}'')"

lemma fields_tail_step: "join_with '','' (map field_text (f # fs)) @ ''}'' = field_text f @ fields_tail fs"
  by (cases fs) (simp_all add: fields_tail_def)

lemma fields_inj:
  assumes "join_with '','' (map field_text fs) @ ''}'' = join_with '','' (map field_text gs) @ ''}''"
  shows "fs = gs"
  using assms
proof (induction fs arbitrary: gs)
  case Nil
  then show ?case
  proof (cases gs)
    case (Cons g gs')
    with Nil have "''}'' = field_text g @ fields_tail gs'" by (simp only: fields_tail_step) simp
    then show ?thesis by (simp add: field_text_def json_quote_def)
  qed simp
next
  case (Cons f fs)
  show ?case
  proof (cases gs)
    case Nil
    with Cons.prems have "field_text f @ fields_tail fs = ''}''" by (simp only: fields_tail_step) simp
    then show ?thesis by (simp add: field_text_def json_quote_def)
  next
    case gs: (Cons g gs')
    from Cons.prems have "field_text f @ fields_tail fs = field_text g @ fields_tail gs'"
      unfolding gs fields_tail_step .
    then have "json_quote (fst f) @ CHR '':'' # dto_text (snd f) @ fields_tail fs = json_quote (fst g) @ CHR '':'' # dto_text (snd g) @ fields_tail gs'"
      by (simp add: field_text_def)
    from quoted_inj [OF this] have k: "fst f = fst g" "dto_text (snd f) @ fields_tail fs = dto_text (snd g) @ fields_tail gs'" by simp_all
    have "after_value (fields_tail hs)" for hs by (simp add: after_value_def fields_tail_def)
    from dto_text_inj [OF k(2) this this] have v: "snd f = snd g" "fields_tail fs = fields_tail gs'" by simp_all
    then have "fs = gs'" using Cons.IH [of gs'] by (auto simp: fields_tail_def split: if_splits)
    with k(1) v(1) gs show ?thesis by (simp add: prod_eq_iff)
  qed
qed

lemma defined_fields_member: "(k, x) \<in> set (defined_fields hs) \<longleftrightarrow> (k, Some x) \<in> set hs"
  by (force simp: defined_fields_def List.map_filter_def)

text \<open>
  Two requests share a cache entry exactly when they ask the same: the key tells apart any two that
  differ in a field, and neither the order of the fields nor the undefined ones matter.
\<close>
theorem cache_key_exact:
  assumes "inj_on rank (set (map fst fs) \<union> set (map fst gs))" "distinct (map fst fs)" "distinct (map fst gs)"
  shows "cacheKey rank fs = cacheKey rank gs \<longleftrightarrow> set (defined_fields fs) = set (defined_fields gs)"
proof -
  have d: "distinct (map fst (defined_fields hs))" if "distinct (map fst hs)" for hs
    using that
  proof (induction hs)
    case (Cons h hs)
    obtain k v where h: "h = (k, v)" by (cases h)
    have "k \<notin> fst ` set (defined_fields hs)"
      using Cons.prems h by (auto simp: defined_fields_member) (metis fst_conv image_eqI)
    with Cons h show ?case by (cases v) (simp_all add: defined_fields_def List.map_filter_simps)
  qed (simp add: defined_fields_def List.map_filter_simps)
  let ?f = "sort_key (rank \<circ> fst) (defined_fields fs)" and ?g = "sort_key (rank \<circ> fst) (defined_fields gs)"
  have "cacheKey rank fs = cacheKey rank gs \<longleftrightarrow> ?f = ?g"
    using fields_inj [of ?f ?g] by (auto simp: cacheKey_def)
  also have "\<dots> \<longleftrightarrow> set (defined_fields fs) = set (defined_fields gs)"
  proof
    assume "?f = ?g"
    then show "set (defined_fields fs) = set (defined_fields gs)" by (metis set_sort)
  next
    assume e: "set (defined_fields fs) = set (defined_fields gs)"
    have sub: "set (map fst (defined_fields hs)) \<subseteq> set (map fst hs)" for hs
      by (force simp: defined_fields_member)
    have i: "distinct (map (rank \<circ> fst) (defined_fields hs))" if "distinct (map fst hs)" "hs = fs \<or> hs = gs" for hs
      using d [OF that(1)] inj_on_subset [OF assms(1), of "set (map fst (defined_fields hs))"] sub [of hs] that(2)
      by (auto simp: distinct_map intro: comp_inj_on)
    have s: "distinct (map (rank \<circ> fst) (sort_key (rank \<circ> fst) (defined_fields hs)))" if "distinct (map fst hs)" "hs = fs \<or> hs = gs" for hs
      using i [OF that] by (simp add: distinct_map)
    have "inj_on (rank \<circ> fst) (set (defined_fields fs))"
      using i [OF assms(2)] by (simp add: distinct_map)
    with e show "?f = ?g"
      by (intro map_sorted_distinct_set_unique [where f = "rank \<circ> fst"]) (simp_all add: s assms(2,3))
  qed
  finally show ?thesis .
qed


theorem cache_key_exact_witness:
  "let rank = (\<lambda>k. if k = ''from'' then 0 else if k = ''limit'' then 1 else (2 :: nat));
       a = [(''to'', Some (DtoText ''2026-09-30'')), (''from'', Some (DtoText ''2026-09-01'')), (''limit'', None)];
       b = [(''from'', Some (DtoText ''2026-09-01'')), (''to'', Some (DtoText ''2026-09-30''))];
       c = [(''from'', Some (DtoText ''2026-09-01'')), (''to'', Some (DtoText ''2026-09-30'')), (''limit'', Some (DtoInt 5))]
   in cacheKey rank a = cacheKey rank b \<and> cacheKey rank b \<noteq> cacheKey rank c"
proof -
  define rank where "rank = (\<lambda>k. if k = ''from'' then 0 else if k = ''limit'' then 1 else (2 :: nat))"
  define a where "a = [(''to'', Some (DtoText ''2026-09-30'')), (''from'', Some (DtoText ''2026-09-01'')), (''limit'', None)]"
  define b where "b = [(''from'', Some (DtoText ''2026-09-01'')), (''to'', Some (DtoText ''2026-09-30''))]"
  define c where "c = [(''from'', Some (DtoText ''2026-09-01'')), (''to'', Some (DtoText ''2026-09-30'')), (''limit'', Some (DtoInt 5))]"
  have "inj_on rank (set (map fst a) \<union> set (map fst b))" "inj_on rank (set (map fst b) \<union> set (map fst c))"
    by (auto simp: rank_def a_def b_def c_def)
  moreover have "distinct (map fst a)" "distinct (map fst b)" "distinct (map fst c)" by (simp_all add: a_def b_def c_def)
  moreover have "set (defined_fields a) = set (defined_fields b)"
    by (simp add: a_def b_def defined_fields_def List.map_filter_simps insert_commute)
  moreover have "(''limit'', DtoInt 5) \<in> set (defined_fields c) - set (defined_fields b)"
    by (simp add: b_def c_def defined_fields_def List.map_filter_simps)
  then have "set (defined_fields b) \<noteq> set (defined_fields c)" by blast
  ultimately show ?thesis
    using cache_key_exact [of rank a b] cache_key_exact [of rank b c]
    unfolding Let_def rank_def [symmetric] a_def [symmetric] b_def [symmetric] c_def [symmetric] by blast
qed

end
