(* ===== verification/Http_Edge.thy ===== *)
theory Http_Edge
  imports Configuration Sessions Pagination Admin_Model Lagos
begin

text \<open>
  The edge of the service: how an exception becomes a reply (\<open>common/http/all-exceptions.filter.ts\<close>), the id
  of a request (\<open>request-id.middleware.ts\<close>), the serialisation of replies (\<open>serialisation.interceptor.ts\<close>),
  booleans in a query (\<open>common/dto/query-transforms.ts\<close>), the cookies of a session
  (\<open>modules/auth/auth.controller.ts\<close>) and reading the audit log (\<open>modules/audit/audit-query.controller.ts\<close>).
\<close>

section \<open>Errors\<close>

text \<open>Exceptions that are not HTTP exceptions (a plain Error, Prisma's) answer 500.\<close>

fun http_status :: "http_error \<Rightarrow> nat" where
  "http_status (BadRequest m) = 400"
| "http_status (Unauthorized m) = 401"
| "http_status (Forbidden m) = 403"
| "http_status (NotFound m) = 404"
| "http_status (Conflict m) = 409"
| "http_status (ServiceUnavailable m) = 503"
| "http_status (BadGateway m) = 502"
| "http_status (NotImplementedHttp m) = 501"
| "http_status (UpstreamError n m) = n"
| "http_status RecordNotFound = 500"
| "http_status UniqueViolation = 500"
| "http_status (PlainError m) = 500"

record error_body =
  eb_statusCode :: nat
  eb_error :: string
  eb_message :: string
  eb_requestId :: "string option"

text \<open>\<open>names\<close> is the enumeration of statuses.\<close>

definition error_reply :: "(nat \<Rightarrow> string option) \<Rightarrow> string option \<Rightarrow> http_error \<Rightarrow> error_body" where
  "error_reply names requestId e =
     \<lparr>eb_statusCode = http_status e, eb_error = (case names (http_status e) of None \<Rightarrow> ''ERROR'' | Some n \<Rightarrow> n),
      eb_message = (if http_status e = 500 then ''Something went wrong'' else error_message e), eb_requestId = requestId\<rparr>"

definition error_logged :: "http_error \<Rightarrow> bool" where
  "error_logged e \<longleftrightarrow> 500 \<le> http_status e"

section \<open>Request ids\<close>

definition request_id_char :: "char \<Rightarrow> bool" where
  "request_id_char c \<longleftrightarrow> is_word c \<or> c = CHR ''.'' \<or> c = CHR ''-''"

definition request_id :: "string \<Rightarrow> string option \<Rightarrow> string" where
  "request_id fresh incoming =
     (case incoming of
        None \<Rightarrow> fresh
      | Some t \<Rightarrow> if 8 \<le> length t \<and> length t \<le> 128 \<and> list_all request_id_char t then t else fresh)"

section \<open>Replies\<close>

text \<open>What a handler returns: JSON values, and bigints, dates and decimals with the text each has.\<close>

datatype reply =
    RNull | RUndefined | RBool bool | RNumber rat | RText string
  | RBig int | RDate string | RDecimal string | RList "reply list" | RObject "(string \<times> reply) list"

fun normalise :: "reply \<Rightarrow> reply" where
  "normalise (RBig n) = RNumber (fl (of_int n))"
| "normalise (RDate iso_text) = RText iso_text"
| "normalise (RDecimal t) = RText t"
| "normalise (RList rs) = RList (map normalise rs)"
| "normalise (RObject fs) = RObject (map (\<lambda>(k, v). (k, normalise v)) fs)"
| "normalise v = v"

section \<open>Booleans in a query\<close>

text \<open>A value as the transformer is given it: missing or null, a boolean, a text, or something else.\<close>

datatype query_value = QAbsent | QBool bool | QText string | QOther

fun boolean_query :: "query_value \<Rightarrow> bool option" where
  "boolean_query QAbsent = None"
| "boolean_query (QBool b) = Some b"
| "boolean_query QOther = None"
| "boolean_query (QText t) =
     (if t = [] then None
      else if toLowerCase t \<in> {''true'', ''1'', ''yes''} then Some True
      else if toLowerCase t \<in> {''false'', ''0'', ''no''} then Some False
      else None)"

section \<open>Session cookies\<close>

record cookie_options =
  ko_httpOnly :: bool
  ko_secure :: bool
  ko_sameSite :: string
  ko_domain :: "string option"
  ko_path :: string
  ko_maxAge :: "int option"

datatype cookie_header = SetCookie string string cookie_options | ClearCookie string cookie_options

definition cookieOptions ::
  "(string \<Rightarrow> parsed_url option) \<Rightarrow> session_config \<Rightarrow> string \<Rightarrow> string option \<Rightarrow> int option \<Rightarrow> cookie_options" where
  "cookieOptions url cfg hostname origin maxAge =
     (let (domain, sameSite) = cookieScope url
        \<lparr>ks_domain = Configuration.sc_cookieDomain cfg, ks_sameSite = sc_sameSite cfg, ks_secure = sc_secureCookies cfg\<rparr> hostname origin
      in \<lparr>ko_httpOnly = True, ko_secure = sc_secureCookies cfg, ko_sameSite = sameSite, ko_domain = domain, ko_path = ''/'', ko_maxAge = maxAge\<rparr>)"

definition setSessionCookies ::
  "(string \<Rightarrow> parsed_url option) \<Rightarrow> session_config \<Rightarrow> string \<Rightarrow> string option \<Rightarrow> millis \<Rightarrow> session_record \<Rightarrow> cookie_header list" where
  "setSessionCookies url cfg hostname origin now session =
     (let options = cookieOptions url cfg hostname origin (Some (se_absoluteExpiresAt session - now)) in
      [SetCookie (sc_accessCookie cfg) (se_sessionId session) options,
       SetCookie (sc_csrfCookie cfg) (se_csrfToken session) (options\<lparr>ko_httpOnly := False\<rparr>)])"

definition clearSessionCookies ::
  "(string \<Rightarrow> parsed_url option) \<Rightarrow> session_config \<Rightarrow> string \<Rightarrow> string option \<Rightarrow> cookie_header list" where
  "clearSessionCookies url cfg hostname origin =
     (let base = cookieOptions url cfg hostname origin None; hostOnly = base\<lparr>ko_domain := None\<rparr> in
      [ClearCookie (sc_accessCookie cfg) base, ClearCookie (sc_csrfCookie cfg) base,
       ClearCookie (sc_accessCookie cfg) hostOnly, ClearCookie (sc_csrfCookie cfg) hostOnly])"

section \<open>The audit log\<close>

record logged_row = audit_row +
  lo_id :: string
  lo_createdAt :: millis

record audit_query =
  aq_cursor :: "cursor_key option"
  aq_limit :: "nat option"
  aq_actorId :: "string option"
  aq_action :: "string option"
  aq_targetType :: "string option"
  aq_targetId :: "string option"
  aq_from :: "string option"
  aq_to :: "string option"

text \<open>The action is trimmed as it comes in, and matches as a prefix.\<close>

definition audit_where :: "audit_query \<Rightarrow> millis \<Rightarrow> millis \<Rightarrow> logged_row \<Rightarrow> bool" where
  "audit_where q start finish r \<longleftrightarrow>
     start \<le> lo_createdAt r \<and> lo_createdAt r \<le> finish
     \<and> (truthy (aq_actorId q) \<longrightarrow> au_actorId r = aq_actorId q)
     \<and> (truthy (map_option trim (aq_action q)) \<longrightarrow> startsWith (au_action r) (trim (the (aq_action q))))
     \<and> (truthy (aq_targetType q) \<longrightarrow> au_targetType r = aq_targetType q)
     \<and> (truthy (aq_targetId q) \<longrightarrow> au_targetId r = aq_targetId q)"

definition logged_key :: "logged_row \<Rightarrow> cursor_key" where
  "logged_key r = (lo_createdAt r, lo_id r)"

definition list_audit ::
  "(string \<Rightarrow> int option) \<Rightarrow> millis \<Rightarrow> audit_query \<Rightarrow> logged_row list \<Rightarrow> (logged_row, cursor_key) page result" where
  "list_audit parse now q rows =
     (let limit = (case aq_limit q of None \<Rightarrow> 50 | Some n \<Rightarrow> n) in
      case resolveRange parse now (aq_from q) (aq_to q) 30 of
        Inl e \<Rightarrow> Inl e
      | Inr (start, finish) \<Rightarrow>
          Inr (buildPage logged_key (findMany_desc logged_key (aq_cursor q) (limit + 1) (filter (audit_where q start finish) rows)) limit))"

definition audit_actions :: "logged_row list \<Rightarrow> (string \<times> nat) list" where
  "audit_actions rows =
     take 200 (sort_key (\<lambda>(a, n). - int n) (map (\<lambda>a. (a, count_where (\<lambda>r. au_action r = a) rows)) (js_set (map au_action rows))))"

section \<open>What the edge guarantees\<close>

text \<open>
  What an exception that is not meant for the client says stays inside: two such exceptions get one and
  the same reply; those meant for it are passed on as they are.
\<close>
lemma internal_messages_kept:
  "http_status e = 500 \<Longrightarrow> http_status e' = 500 \<Longrightarrow> error_reply names i e = error_reply names i e'"
  by (simp add: error_reply_def)

text \<open>An unreachable api-core is reported with its address and the network's error: the reply echoes it.\<close>

lemma bad_gateway_echoed: "eb_message (error_reply names i (BadGateway m)) = m"
  by (simp add: error_reply_def)

text \<open>A reply holds nothing JSON does not know, once it is normalised, and a second pass changes nothing.\<close>

fun json_safe :: "reply \<Rightarrow> bool" where
  "json_safe (RBig n) = False"
| "json_safe (RDate t) = False"
| "json_safe (RDecimal t) = False"
| "json_safe (RList rs) = list_all json_safe rs"
| "json_safe (RObject fs) = list_all (\<lambda>(k, v). json_safe v) fs"
| "json_safe v = True"

lemma normalise_safe: "json_safe (normalise v)"
  by (induction v rule: normalise.induct) (auto simp: list_all_iff)

lemma normalise_idem: "json_safe v \<Longrightarrow> normalise v = v"
  by (induction v rule: json_safe.induct) (auto simp: list_all_iff intro!: map_idI)

theorem reply_is_json:
  "json_safe (normalise v) \<and> normalise (normalise v) = normalise v"
  by (simp add: normalise_safe normalise_idem)

text \<open>
  Signing out takes back what signing in gave: each cookie that was set for a request is cleared for a
  request to the same host, under the same domain and path, and once more without a domain.
\<close>
theorem logout_clears_login_cookies:
  assumes "SetCookie name v options \<in> set (setSessionCookies url cfg hostname origin now session)"
  shows "\<exists>cleared. ClearCookie name cleared \<in> set (clearSessionCookies url cfg hostname origin')
      \<and> ko_domain cleared = ko_domain options \<and> ko_path cleared = ko_path options \<and> ko_secure cleared = ko_secure options"
    and "\<exists>cleared. ClearCookie name cleared \<in> set (clearSessionCookies url cfg hostname origin') \<and> ko_domain cleared = None"
proof -
  have d: "fst (cookieScope url s hostname origin) = fst (cookieScope url s hostname origin')" for s
    by (simp add: cookieScope_def Let_def)
  let ?base = "cookieOptions url cfg hostname origin' None"
  have "ko_domain ?base = ko_domain options" "ko_path ?base = ko_path options" "ko_secure ?base = ko_secure options"
    "name = sc_accessCookie cfg \<or> name = sc_csrfCookie cfg"
    using assms d [of "\<lparr>ks_domain = Configuration.sc_cookieDomain cfg, ks_sameSite = sc_sameSite cfg, ks_secure = sc_secureCookies cfg\<rparr>"]
    by (auto simp: setSessionCookies_def cookieOptions_def Let_def split: prod.splits)
  moreover have "{ClearCookie n ?base, ClearCookie n (?base\<lparr>ko_domain := None\<rparr>)} \<subseteq> set (clearSessionCookies url cfg hostname origin')"
    if "n = sc_accessCookie cfg \<or> n = sc_csrfCookie cfg" for n
    using that by (auto simp: clearSessionCookies_def Let_def)
  ultimately have "ClearCookie name ?base \<in> set (clearSessionCookies url cfg hostname origin')"
    "ClearCookie name (?base\<lparr>ko_domain := None\<rparr>) \<in> set (clearSessionCookies url cfg hostname origin')" by blast+
  with \<open>ko_domain ?base = ko_domain options\<close> \<open>ko_path ?base = ko_path options\<close> \<open>ko_secure ?base = ko_secure options\<close>
  show "\<exists>cleared. ClearCookie name cleared \<in> set (clearSessionCookies url cfg hostname origin')
      \<and> ko_domain cleared = ko_domain options \<and> ko_path cleared = ko_path options \<and> ko_secure cleared = ko_secure options"
    and "\<exists>cleared. ClearCookie name cleared \<in> set (clearSessionCookies url cfg hostname origin') \<and> ko_domain cleared = None"
    by fastforce+
qed

text \<open>Following the cursors of the audit log shows every entry asked for once, the newest first.\<close>

lemma audit_walk_complete:
  assumes "resolveRange parse now (aq_from q) (aq_to q) 30 = Inr (start, finish)" "distinct (map lo_id rows)"
    "length rows < fuel" "aq_limit q \<noteq> Some 0"
  shows "walk_pages (\<lambda>c. projr (list_audit parse now (q\<lparr>aq_cursor := c\<rparr>) rows)) fuel None =
    newest_first logged_key (filter (audit_where q start finish) rows)"
proof -
  let ?n = "case aq_limit q of None \<Rightarrow> 50 | Some n \<Rightarrow> n"
  let ?found = "filter (audit_where q start finish) rows"
  have "distinct (map logged_key ?found)"
    using assms(2) by (auto simp: distinct_map inj_on_def logged_key_def intro: distinct_filter)
  moreover have "0 < ?n" using assms(4) by (auto split: option.splits)
  moreover have "length ?found < fuel" using assms(3) le_less_trans [OF length_filter_le] by blast
  ultimately have "walk_pages (\<lambda>c. buildPage logged_key (findMany_desc logged_key c (?n + 1) ?found) ?n) fuel None
      = newest_first logged_key ?found"
    unfolding newest_first_def by (rule desc_pages_cover_rows)
  moreover have "(\<lambda>c. projr (list_audit parse now (q\<lparr>aq_cursor := c\<rparr>) rows))
      = (\<lambda>c. buildPage logged_key (findMany_desc logged_key c (?n + 1) ?found) ?n)"
    by (simp add: list_audit_def assms(1) Let_def audit_where_def [abs_def])
  ultimately show ?thesis by simp
qed

end
