(* ===== verification/Routes.thy ===== *)
theory Routes
  imports Guards Staff_Admin Bulk_Upsert
begin

text \<open>
  The routes of the service: the decorators of \<open>common/auth/decorators.ts\<close>, every controller's table of
  handlers in the order Nest registers them (\<open>app.module.ts\<close>; a module comes before the modules it
  imports), which handler a request reaches, and the entry \<open>AuditInterceptor\<close> writes for it.
  A handler is the service call it makes, by name, and where each argument comes from.
\<close>

section \<open>Decorators\<close>

record audit_spec =
  ax_action :: string
  ax_targetType :: "string option"
  ax_targetParam :: "string option"

datatype decorator =
    Public
  | RequirePermissions "string list"
  | Audited audit_spec
  | RequireReason
  | Idempotent
  | SensitiveWrite audit_spec "string list"
  | HttpCode nat

fun apply_decorators :: "decorator \<Rightarrow> decorator list" where
  "apply_decorators (SensitiveWrite spec permissions) = [RequirePermissions permissions, RequireReason, Idempotent, Audited spec]"
| "apply_decorators d = [d]"

definition metadata :: "decorator list \<Rightarrow> decorator list" where
  "metadata ds = concat (map apply_decorators ds)"

fun required_in :: "decorator list \<Rightarrow> string list option" where
  "required_in [] = None"
| "required_in (RequirePermissions ps # ds) = Some ps"
| "required_in (d # ds) = required_in ds"

fun audited_in :: "decorator list \<Rightarrow> audit_spec option" where
  "audited_in [] = None"
| "audited_in (Audited spec # ds) = Some spec"
| "audited_in (d # ds) = audited_in ds"

fun status_in :: "decorator list \<Rightarrow> nat option" where
  "status_in [] = None"
| "status_in (HttpCode n # ds) = Some n"
| "status_in (d # ds) = status_in ds"

text \<open>\<open>getAllAndOverride\<close>: what the handler says, or else what its class says.\<close>

definition or_class :: "'a option \<Rightarrow> 'a option \<Rightarrow> 'a option" where
  "or_class handler cls = (case handler of None \<Rightarrow> cls | Some x \<Rightarrow> Some x)"

section \<open>Controllers\<close>

datatype handler_arg =
    TheStaff
  | ParamArg string
  | QueryArg
  | QueryField string
  | QueryFieldOr string string
  | QueryRange nat
  | BodyArg
  | BodyField string
  | BodyFlag string
  | HeaderArg string
  | HoldsPermission string
  | Fixed bool
  | TheRequest
  | TheResponse

record handler =
  ha_method :: string
  ha_path :: string
  ha_decorators :: "decorator list"
  ha_call :: string
  ha_args :: "handler_arg list"

record controller =
  cn_prefix :: string
  cn_decorators :: "decorator list"
  cn_handlers :: "handler list"

definition on_get :: "string \<Rightarrow> decorator list \<Rightarrow> string \<Rightarrow> handler_arg list \<Rightarrow> handler" where
  "on_get path ds call args = \<lparr>ha_method = ''GET'', ha_path = path, ha_decorators = ds, ha_call = call, ha_args = args\<rparr>"

definition on_post :: "string \<Rightarrow> decorator list \<Rightarrow> string \<Rightarrow> handler_arg list \<Rightarrow> handler" where
  "on_post path ds call args = \<lparr>ha_method = ''POST'', ha_path = path, ha_decorators = ds, ha_call = call, ha_args = args\<rparr>"

definition on_patch :: "string \<Rightarrow> decorator list \<Rightarrow> string \<Rightarrow> handler_arg list \<Rightarrow> handler" where
  "on_patch path ds call args = \<lparr>ha_method = ''PATCH'', ha_path = path, ha_decorators = ds, ha_call = call, ha_args = args\<rparr>"

definition on_delete :: "string \<Rightarrow> decorator list \<Rightarrow> string \<Rightarrow> handler_arg list \<Rightarrow> handler" where
  "on_delete path ds call args = \<lparr>ha_method = ''DELETE'', ha_path = path, ha_decorators = ds, ha_call = call, ha_args = args\<rparr>"

text \<open>An event stream is opened by a GET.\<close>

definition on_sse :: "string \<Rightarrow> decorator list \<Rightarrow> string \<Rightarrow> handler_arg list \<Rightarrow> handler" where
  "on_sse = on_get"

definition spec_on :: "string \<Rightarrow> string \<Rightarrow> string \<Rightarrow> audit_spec" where
  "spec_on action targetType targetParam = \<lparr>ax_action = action, ax_targetType = Some targetType, ax_targetParam = Some targetParam\<rparr>"

subsection \<open>Health and sign-in\<close>

definition HealthController :: controller where
  "HealthController = \<lparr>cn_prefix = ''health'', cn_decorators = [], cn_handlers = [
     on_get [] [Public] ''health.live'' [],
     on_get ''ready'' [Public] ''health.ready'' []]\<rparr>"

definition AuthController :: controller where
  "AuthController = \<lparr>cn_prefix = ''auth'', cn_decorators = [], cn_handlers = [
     on_post ''login'' [Public, HttpCode 200] ''auth.login'' [BodyField ''email'', BodyField ''password'', TheRequest, TheResponse],
     on_post ''2fa/verify'' [Public, HttpCode 200] ''auth.verifyTotp'' [BodyField ''code'', TheRequest, TheResponse],
     on_post ''logout'' [HttpCode 204] ''auth.logout'' [TheStaff, TheRequest, TheResponse],
     on_get ''me'' [] ''auth.me'' [TheStaff],
     on_post ''password'' [HttpCode 204] ''auth.changePassword'' [TheStaff, BodyField ''currentPassword'', BodyField ''newPassword''],
     on_post ''invites/accept'' [Public, HttpCode 201] ''auth.acceptInvite'' [BodyField ''token'', BodyField ''password'', TheRequest],
     on_post ''impersonate'' [RequirePermissions [''customers.impersonate'']] ''auth.startImpersonation''
       [TheStaff, BodyField ''accountId'', BodyField ''reason''],
     on_post ''impersonate/end'' [HttpCode 204] ''auth.endImpersonation'' [TheStaff]]\<rparr>"

subsection \<open>Staff\<close>

definition StaffController :: controller where
  "StaffController = \<lparr>cn_prefix = [], cn_decorators = [RequirePermissions [''staff.manage'']], cn_handlers = [
     on_get ''staff'' [] ''staff.list'' [QueryArg],
     on_post ''staff'' [Idempotent] ''staff.invite'' [TheStaff, BodyArg],
     on_patch ''staff/:id'' [] ''staff.update'' [TheStaff, ParamArg ''id'', BodyArg],
     on_post ''staff/invites/:id/revoke'' [Audited (spec_on ''staff.invite_revoked'' ''staff_invite'' ''id'')]
       ''staff.revokeInvite'' [TheStaff, ParamArg ''id''],
     on_get ''roles'' [] ''staff.listRoles'' [],
     on_get ''roles/permissions'' [] ''staff.permissionCatalogue'' [],
     on_post ''roles'' [] ''staff.upsertRole'' [TheStaff, BodyArg]]\<rparr>"

subsection \<open>Customers\<close>

definition customer_reads :: "handler list" where
  "customer_reads = [
     on_get [] [RequirePermissions [''customers.read'']] ''customers.search'' [QueryArg],
     on_get ''summary'' [RequirePermissions [''customers.read'']] ''customers.summary'' [],
     on_get ''table'' [RequirePermissions [''customers.read'']] ''customers.table'' [QueryArg],
     on_get '':id'' [RequirePermissions [''customers.read'']] ''customers.get'' [ParamArg ''id''],
     on_get '':id/usage'' [RequirePermissions [''customers.read'']] ''customers.usage'' [ParamArg ''id'', QueryArg],
     on_get '':id/ledger'' [RequirePermissions [''customers.read'']] ''customers.ledger'' [ParamArg ''id'', QueryArg],
     on_get '':id/requests'' [RequirePermissions [''customers.read'']] ''customers.requests''
       [ParamArg ''id'', QueryArg, HoldsPermission ''pii.reveal'']]"

definition customer_actions :: "handler list" where
  "customer_actions = [
     on_post '':id/suspend'' [SensitiveWrite (spec_on ''customers.suspend'' ''account'' ''id'') [''customers.suspend'']]
       ''actions.suspend'' [TheStaff, ParamArg ''id'', BodyField ''reason''],
     on_post '':id/reactivate'' [RequirePermissions [''customers.manage''], Idempotent]
       ''actions.reactivate'' [TheStaff, ParamArg ''id'', BodyField ''reason''],
     on_post '':id/ban'' [SensitiveWrite (spec_on ''customers.ban'' ''account'' ''id'') [''customers.suspend'']]
       ''actions.ban'' [TheStaff, ParamArg ''id'', BodyField ''reason''],
     on_patch '':id/status'' [SensitiveWrite (spec_on ''customers.status_changed'' ''account'' ''id'') [''customers.suspend'']]
       ''actions.setStatus'' [TheStaff, ParamArg ''id'', BodyField ''status'', BodyField ''reason''],
     on_post '':id/force-logout'' [RequirePermissions [''customers.manage''], Idempotent]
       ''actions.forceLogout'' [TheStaff, ParamArg ''id'', BodyField ''reason'', HeaderArg ''idempotency-key''],
     on_patch '':id/api-keys'' [SensitiveWrite (spec_on ''customers.revoke_key'' ''api_key'' ''id'') [''customers.manage'']]
       ''actions.setApiKeyActive'' [TheStaff, ParamArg ''id'', BodyField ''apiKeyId'', BodyField ''isActive'', BodyField ''reason''],
     on_post '':id/projects/archive'' [SensitiveWrite (spec_on ''customers.project_archived'' ''project'' ''id'') [''customers.manage'']]
       ''actions.archiveProject'' [TheStaff, ParamArg ''id'', BodyField ''projectId'', BodyField ''reason'']]"

definition customer_plan_actions :: "handler list" where
  "customer_plan_actions = [
     on_post '':id/change-plan'' [RequirePermissions [''customers.manage''], Idempotent]
       ''actions.changePlan'' [TheStaff, ParamArg ''id'', BodyField ''planId'', BodyField ''reason'', HeaderArg ''idempotency-key''],
     on_post '':id/plan-payment'' [RequirePermissions [''credits.adjust''], Idempotent]
       ''actions.recordPlanPayment'' [TheStaff, ParamArg ''id'', BodyArg],
     on_post '':id/plan-card'' [RequirePermissions [''credits.adjust''], Idempotent]
       ''actions.chargePlanToCard'' [TheStaff, ParamArg ''id'', BodyArg],
     on_post '':id/reset-rate-limits'' [RequirePermissions [''customers.manage''], Idempotent]
       ''actions.resetRateLimits'' [TheStaff, ParamArg ''id'', BodyField ''reason'', HeaderArg ''idempotency-key'']]"

definition customer_notes :: "handler list" where
  "customer_notes = [
     on_post '':id/reveal'' [RequirePermissions [''pii.reveal'']] ''customers.revealPii'' [TheStaff, ParamArg ''id'', BodyArg],
     on_get '':id/notes'' [RequirePermissions [''customers.read'']] ''customers.listNotes'' [ParamArg ''id'', QueryArg],
     on_post '':id/notes'' [RequirePermissions [''customers.notes'']]
       ''customers.addNote'' [TheStaff, ParamArg ''id'', BodyField ''body'', BodyField ''pinned''],
     on_post '':id/risk-flags'' [RequirePermissions [''customers.manage''], Audited (spec_on ''customers.risk_flag_raised'' ''account'' ''id'')]
       ''actions.raiseFlag'' [TheStaff, ParamArg ''id'', BodyArg],
     on_post ''risk-flags/:flagId/resolve'' [RequirePermissions [''customers.manage'']]
       ''actions.resolveFlag'' [TheStaff, ParamArg ''flagId'', BodyField ''reason'']]"

definition CustomersController :: controller where
  "CustomersController = \<lparr>cn_prefix = ''customers'', cn_decorators = [],
     cn_handlers = customer_reads @ customer_actions @ customer_plan_actions @ customer_notes\<rparr>"

subsection \<open>Availability, markets, credits, plans, finance\<close>

definition AvailabilityController :: controller where
  "AvailabilityController = \<lparr>cn_prefix = ''availability'', cn_decorators = [RequirePermissions [''availability.manage'']], cn_handlers = [
     on_get [] [] ''availability.list'' [],
     on_post [] [Idempotent] ''availability.change'' [TheStaff, BodyArg]]\<rparr>"

definition MarketsController :: controller where
  "MarketsController = \<lparr>cn_prefix = ''markets'', cn_decorators = [RequirePermissions [''pricing.manage'']], cn_handlers = [
     on_get [] [] ''markets.list'' [],
     on_post [] [Idempotent] ''markets.set'' [TheStaff, BodyArg],
     on_delete '':id'' [] ''markets.remove'' [TheStaff, ParamArg ''id'', QueryField ''reason'']]\<rparr>"

definition CreditsController :: controller where
  "CreditsController = \<lparr>cn_prefix = [], cn_decorators = [], cn_handlers = [
     on_post ''customers/:id/credit-adjustments'' [SensitiveWrite (spec_on ''credits.adjust'' ''account'' ''id'') [''credits.adjust'']]
       ''credits.request'' [TheStaff, ParamArg ''id'', BodyArg],
     on_get ''credit-adjustments'' [RequirePermissions [''credits.adjust'']] ''credits.list'' [QueryArg],
     on_post ''credit-adjustments/:id/approve'' [RequirePermissions [''credits.approve''], Idempotent]
       ''credits.approve'' [TheStaff, ParamArg ''id'', BodyField ''reason''],
     on_post ''credit-adjustments/:id/reject'' [RequirePermissions [''credits.approve'']]
       ''credits.reject'' [TheStaff, ParamArg ''id'', BodyField ''reason''],
     on_post ''credit-adjustments/:id/retry'' [RequirePermissions [''credits.approve'']]
       ''credits.retry'' [TheStaff, ParamArg ''id'']]\<rparr>"

definition plan_handlers :: "handler list" where
  "plan_handlers = [
     on_get ''plans'' [RequirePermissions [''metrics.read'']] ''plans.listPlans'' [],
     on_post ''plans'' [RequirePermissions [''plans.manage''], Idempotent] ''catalogue.upsertPlan'' [TheStaff, BodyArg],
     on_patch ''plans/:id'' [RequirePermissions [''plans.manage'']] ''catalogue.updatePlan'' [TheStaff, ParamArg ''id'', BodyArg],
     on_post ''plans/:id/visibility'' [RequirePermissions [''plans.manage'']] ''catalogue.setPlanVisibility'' [TheStaff, ParamArg ''id'', BodyArg],
     on_post ''plans/:id/retire'' [RequirePermissions [''plans.manage'']]
       ''catalogue.setPlanActive'' [TheStaff, ParamArg ''id'', Fixed False, BodyField ''reason''],
     on_post ''plans/:id/activate'' [RequirePermissions [''plans.manage'']]
       ''catalogue.setPlanActive'' [TheStaff, ParamArg ''id'', Fixed True, BodyField ''reason'']]"

definition product_handlers :: "handler list" where
  "product_handlers = [
     on_get ''products'' [RequirePermissions [''metrics.read'']] ''catalogue.listProducts'' [],
     on_post ''products'' [RequirePermissions [''plans.manage''], Idempotent] ''catalogue.createProduct'' [TheStaff, BodyArg],
     on_patch ''products/:id'' [RequirePermissions [''plans.manage'']] ''catalogue.updateProduct'' [TheStaff, ParamArg ''id'', BodyArg],
     on_get ''pricing'' [RequirePermissions [''metrics.read'']] ''plans.listPricing'' [QueryArg],
     on_post ''pricing'' [RequirePermissions [''pricing.manage''], Idempotent] ''catalogue.upsertPricing'' [TheStaff, BodyArg],
     on_get ''provider-costs'' [RequirePermissions [''finance.read'']] ''plans.listProviderCosts'' [QueryArg],
     on_post ''provider-costs'' [RequirePermissions [''pricing.manage''], Idempotent] ''plans.upsertProviderCost'' [TheStaff, BodyArg],
     on_post ''margin-targets'' [RequirePermissions [''pricing.manage'']] ''plans.setMarginTarget'' [TheStaff, BodyArg]]"

definition PlansController :: controller where
  "PlansController = \<lparr>cn_prefix = [], cn_decorators = [], cn_handlers = plan_handlers @ product_handlers\<rparr>"

definition FinanceController :: controller where
  "FinanceController = \<lparr>cn_prefix = [], cn_decorators = [], cn_handlers = [
     on_get ''finance/revenue'' [RequirePermissions [''finance.read'']] ''finance.revenueTimeseries'' [QueryArg],
     on_get ''finance/profit'' [RequirePermissions [''finance.read'']] ''finance.profit'' [QueryArg],
     on_get ''finance/cash'' [RequirePermissions [''finance.read'']] ''finance.cash'' [QueryArg],
     on_get ''finance/cohorts'' [RequirePermissions [''finance.read'']] ''finance.cohortMetrics'' [QueryArg],
     on_get ''finance/reconciliation'' [RequirePermissions [''finance.read'']] ''reconciliation.list'' [QueryRange 30],
     on_post ''exports'' [RequirePermissions [''finance.export''], Idempotent] ''exports.create'' [TheStaff, BodyArg],
     on_get ''exports'' [RequirePermissions [''finance.export'']] ''exports.list'' [TheStaff],
     on_get ''exports/:id/download'' [RequirePermissions [''finance.export'']] ''exports.download'' [TheStaff, ParamArg ''id'']]\<rparr>"

subsection \<open>Inbox, services, messages, templates, map\<close>

definition InboxController :: controller where
  "InboxController = \<lparr>cn_prefix = [], cn_decorators = [], cn_handlers = [
     on_get ''inbox'' [] ''inbox.list'' [TheStaff, QueryArg],
     on_post ''inbox/:id/read'' [HttpCode 204] ''inbox.markRead'' [TheStaff, ParamArg ''id''],
     on_post ''inbox/read-all'' [] ''inbox.markAllRead'' [TheStaff],
     on_sse ''events'' [] ''sse.subscribe'' [TheStaff]]\<rparr>"

definition ServicesController :: controller where
  "ServicesController = \<lparr>cn_prefix = [], cn_decorators = [RequirePermissions [''metrics.read'']], cn_handlers = [
     on_get ''services'' [] ''services.list'' [QueryArg],
     on_get ''services/:service/metrics'' [] ''services.metrics'' [ParamArg ''service'', QueryArg],
     on_get ''providers/health'' [] ''providerHealth.current'' []]\<rparr>"

definition DiagnosticsController :: controller where
  "DiagnosticsController = \<lparr>cn_prefix = ''diagnostics'', cn_decorators = [RequirePermissions [''staff.manage'']], cn_handlers = [
     on_get ''data-health'' [] ''diagnostics.dataHealth'' []]\<rparr>"

definition MessagesController :: controller where
  "MessagesController = \<lparr>cn_prefix = ''messages'', cn_decorators = [RequirePermissions [''messages.read'']], cn_handlers = [
     on_get [] [] ''messages.list'' [QueryArg],
     on_get '':id'' [Audited (spec_on ''messages.view'' ''message'' ''id'')] ''messages.get'' [ParamArg ''id'']]\<rparr>"

definition TemplatesController :: controller where
  "TemplatesController = \<lparr>cn_prefix = ''templates'', cn_decorators = [RequirePermissions [''templates.review'']], cn_handlers = [
     on_get [] [] ''templates.list'' [QueryArg],
     on_get '':id'' [] ''templates.get'' [ParamArg ''id''],
     on_post '':id/approve'' [Idempotent] ''templates.approve'' [TheStaff, ParamArg ''id'', BodyField ''reason''],
     on_post '':id/reject'' [Idempotent] ''templates.reject'' [TheStaff, ParamArg ''id'', BodyField ''reason''],
     on_post '':id/revoke'' [Idempotent] ''templates.revoke'' [TheStaff, ParamArg ''id'', BodyField ''reason'']]\<rparr>"

definition GeoController :: controller where
  "GeoController = \<lparr>cn_prefix = ''geo'', cn_decorators = [RequirePermissions [''geo.view'']], cn_handlers = [
     on_get ''requests'' [] ''geo.requests'' [QueryArg],
     on_get ''live/recent'' [] ''geo.recentLive'' [],
     on_get ''signins'' [] ''geo.signIns'' [QueryArg, HoldsPermission ''pii.reveal''],
     on_get ''destinations'' [] ''geo.destinations'' [QueryArg],
     on_get ''request-log'' [] ''geo.requestLog'' [QueryArg, HoldsPermission ''pii.reveal''],
     on_sse ''live'' [] ''sse.subscribe'' [HoldsPermission ''pii.reveal'']]\<rparr>"

subsection \<open>Sender IDs and campaigns\<close>

definition SenderIdsController :: controller where
  "SenderIdsController = \<lparr>cn_prefix = ''sender-ids'', cn_decorators = [], cn_handlers = [
     on_get [] [RequirePermissions [''senderid.review'']] ''senderIds.list'' [QueryArg],
     on_get ''drafts'' [RequirePermissions [''senderid.review'']] ''senderIds.drafts'' [QueryArg],
     on_get ''unfiled'' [RequirePermissions [''senderid.review'']] ''senderIds.unfiled'' [],
     on_get '':id'' [RequirePermissions [''senderid.review'']] ''senderIds.get'' [ParamArg ''id''],
     on_post '':id/assign'' [RequirePermissions [''senderid.review'']] ''senderIds.assign'' [TheStaff, ParamArg ''id'', BodyField ''assigneeId''],
     on_post '':id/checklist'' [RequirePermissions [''senderid.review'']] ''senderIds.updateChecklist'' [TheStaff, ParamArg ''id'', BodyArg],
     on_post '':id/decision'' [RequirePermissions [''senderid.review''], Idempotent] ''senderIds.decide'' [TheStaff, ParamArg ''id'', BodyArg],
     on_get '':id/documents/:docId/url'' [RequirePermissions [''senderid.documents.download'']]
       ''documents.resolve'' [TheStaff, ParamArg ''id'', ParamArg ''docId'', QueryFieldOr ''disposition'' ''attachment''],
     on_get '':id/documents/:docId/file'' [RequirePermissions [''senderid.documents.download'']]
       ''documents.file'' [TheStaff, ParamArg ''id'', ParamArg ''docId'', QueryFieldOr ''disposition'' ''attachment'', TheResponse],
     on_post '':id/letters'' [RequirePermissions [''senderid.review'']] ''documents.generateLetters'' [TheStaff, ParamArg ''id'', BodyFlag ''force''],
     on_get '':id/documents.zip'' [RequirePermissions [''senderid.documents.download'']]
       ''documents.streamZip'' [TheStaff, ParamArg ''id'', TheResponse]]\<rparr>"

definition campaign_handlers :: "handler list" where
  "campaign_handlers = [
     on_get ''campaigns'' [RequirePermissions [''notifications.send'']] ''campaigns.list'' [QueryArg],
     on_get ''campaigns/:id'' [RequirePermissions [''notifications.send'']] ''campaigns.get'' [ParamArg ''id''],
     on_post ''campaigns'' [RequirePermissions [''notifications.send''], Idempotent] ''campaigns.create'' [TheStaff, BodyArg],
     on_post ''campaigns/:id/test'' [RequirePermissions [''notifications.send'']] ''campaigns.testSend'' [TheStaff, ParamArg ''id''],
     on_post ''campaigns/:id/approve'' [RequirePermissions [''notifications.broadcast'']]
       ''campaigns.approve'' [TheStaff, ParamArg ''id'', BodyField ''reason''],
     on_post ''campaigns/:id/schedule'' [RequirePermissions [''notifications.send''], Idempotent]
       ''campaigns.schedule'' [TheStaff, ParamArg ''id'', BodyArg],
     on_post ''campaigns/:id/send'' [RequirePermissions [''notifications.send''], Idempotent] ''campaigns.sendNow'' [TheStaff, ParamArg ''id''],
     on_post ''campaigns/:id/retry'' [RequirePermissions [''notifications.send''], Idempotent] ''campaigns.retry'' [TheStaff, ParamArg ''id''],
     on_post ''campaigns/:id/cancel'' [RequirePermissions [''notifications.send'']]
       ''campaigns.cancel'' [TheStaff, ParamArg ''id'', BodyField ''reason'']]"

definition segment_handlers :: "handler list" where
  "segment_handlers = [
     on_get ''segments'' [RequirePermissions [''notifications.segments'']] ''segments.list'' [],
     on_post ''segments'' [RequirePermissions [''notifications.segments'']] ''segments.upsert'' [TheStaff, BodyArg],
     on_post ''segments/preview'' [RequirePermissions [''notifications.segments'']] ''segments.preview'' [BodyArg],
     on_get ''templates'' [RequirePermissions [''notifications.send'']] ''campaigns.listTemplates'' [],
     on_post ''templates'' [RequirePermissions [''notifications.send'']] ''campaigns.upsertTemplate'' [TheStaff, BodyArg]]"

definition NotificationsController :: controller where
  "NotificationsController = \<lparr>cn_prefix = [], cn_decorators = [], cn_handlers = campaign_handlers @ segment_handlers\<rparr>"

subsection \<open>Audit log, overview, events\<close>

definition AuditQueryController :: controller where
  "AuditQueryController = \<lparr>cn_prefix = ''audit'', cn_decorators = [], cn_handlers = [
     on_get [] [RequirePermissions [''audit.read'']] ''audit.list'' [QueryArg],
     on_get ''actions'' [RequirePermissions [''audit.read'']] ''audit.actions'' []]\<rparr>"

definition OverviewController :: controller where
  "OverviewController = \<lparr>cn_prefix = ''overview'', cn_decorators = [RequirePermissions [''metrics.read'']], cn_handlers = [
     on_get ''kpis'' [] ''overview.kpis'' [QueryArg],
     on_get ''timeseries'' [] ''overview.timeseries'' [QueryArg],
     on_get ''activity'' [] ''activity.recent'' [],
     on_get ''health'' [] ''overview.health'' []]\<rparr>"

definition EventsController :: controller where
  "EventsController = \<lparr>cn_prefix = ''events'', cn_decorators = [], cn_handlers = [
     on_post ''ingest'' [Public] ''events.ingestBatch''
       [TheRequest, HeaderArg ''x-admin-signature'', HeaderArg ''x-admin-timestamp'', BodyArg],
     on_get ''stats'' [RequirePermissions [''metrics.read'']] ''events.stats'' []]\<rparr>"

text \<open>The order of \<open>AppModule\<close>: its own controller, then its imports; the inbox comes with the first module that imports it.\<close>

definition controllers :: "controller list" where
  "controllers = [HealthController, AuthController, StaffController, CustomersController, AvailabilityController, MarketsController,
     CreditsController, PlansController, FinanceController, InboxController, ServicesController, DiagnosticsController,
     MessagesController, TemplatesController, GeoController, SenderIdsController, NotificationsController, AuditQueryController,
     OverviewController, EventsController]"

section \<open>Which handler a request reaches\<close>

record endpoint =
  ep_method :: string
  ep_path :: "string list"
  ep_public :: bool
  ep_permissions :: "string list"
  ep_reason :: bool
  ep_idempotent :: bool
  ep_audit :: "audit_spec option"
  ep_status :: nat
  ep_call :: string
  ep_args :: "handler_arg list"

definition path_segments :: "string \<Rightarrow> string list" where
  "path_segments p = filter (\<lambda>s. s \<noteq> []) (split_on (CHR ''/'') p)"

definition UNPREFIXED :: "string list list" where
  "UNPREFIXED = [[''health''], [''health'', ''ready'']]"

definition with_global_prefix :: "string list \<Rightarrow> string list" where
  "with_global_prefix segs = (if js_includes UNPREFIXED segs then segs else ''admin'' # ''v1'' # segs)"

definition endpoint_of :: "controller \<Rightarrow> handler \<Rightarrow> endpoint" where
  "endpoint_of c h =
     (let ds = metadata (ha_decorators h); cs = metadata (cn_decorators c) in
      \<lparr>ep_method = ha_method h,
       ep_path = with_global_prefix (path_segments (cn_prefix c) @ path_segments (ha_path h)),
       ep_public = (Public \<in> set ds \<or> Public \<in> set cs),
       ep_permissions = (case or_class (required_in ds) (required_in cs) of None \<Rightarrow> [] | Some ps \<Rightarrow> ps),
       ep_reason = (RequireReason \<in> set ds \<or> RequireReason \<in> set cs),
       ep_idempotent = (Idempotent \<in> set ds \<or> Idempotent \<in> set cs),
       ep_audit = or_class (audited_in ds) (audited_in cs),
       ep_status = (case status_in ds of Some n \<Rightarrow> n | None \<Rightarrow> if ha_method h = ''POST'' then 201 else 200),
       ep_call = ha_call h, ep_args = ha_args h\<rparr>)"

definition endpoints :: "endpoint list" where
  "endpoints = concat (map (\<lambda>c. map (endpoint_of c) (cn_handlers c)) controllers)"

text \<open>
  Express: the first route registered whose path matches, a parameter matching any segment and the rest
  compared without regard to case; a HEAD request is answered by the GET handler.
\<close>

definition is_param :: "string \<Rightarrow> bool" where
  "is_param s \<longleftrightarrow> s \<noteq> [] \<and> hd s = CHR '':''"

definition segment_matches :: "string \<Rightarrow> string \<Rightarrow> bool" where
  "segment_matches p s \<longleftrightarrow> (if is_param p then s \<noteq> [] else toLowerCase p = toLowerCase s)"

definition method_matches :: "string \<Rightarrow> string \<Rightarrow> bool" where
  "method_matches p m \<longleftrightarrow> p = m \<or> (m = ''HEAD'' \<and> p = ''GET'')"

definition endpoint_matches :: "string \<Rightarrow> string list \<Rightarrow> endpoint \<Rightarrow> bool" where
  "endpoint_matches m segs e \<longleftrightarrow> method_matches (ep_method e) m \<and> list_all2 segment_matches (ep_path e) segs"

definition dispatch :: "string \<Rightarrow> string list \<Rightarrow> endpoint option" where
  "dispatch m segs = find (endpoint_matches m segs) endpoints"

text \<open>\<open>request.params\<close>.\<close>

definition route_params :: "endpoint \<Rightarrow> string list \<Rightarrow> (string \<times> string) list" where
  "route_params e segs = map (\<lambda>(p, s). (tl p, s)) (filter (\<lambda>(p, s). is_param p) (zip (ep_path e) segs))"

text \<open>The guards run on the route that was matched; a path without one is Not Found.\<close>

definition guarded_as :: "endpoint \<Rightarrow> route" where
  "guarded_as e = \<lparr>ro_isPublic = ep_public e, ro_required = ep_permissions e, ro_reasonRequired = ep_reason e\<rparr>"

definition receive ::
  "session_cfg \<Rightarrow> string \<Rightarrow> millis \<Rightarrow> http_request \<Rightarrow> string list \<Rightarrow> guard_state \<Rightarrow> (guard_state, endpoint \<times> principal option) outcome" where
  "receive cfg accessCookie now rq segs s =
     (case dispatch (rq_method rq) segs of
        None \<Rightarrow> throws (NotFound (''Cannot '' @ rq_method rq @ '' /'' @ join_with ''/'' segs)) s
      | Some e \<Rightarrow>
          (case admit cfg accessCookie now (guarded_as e) rq s of
             (Inl err, s1) \<Rightarrow> throws err s1
           | (Inr staff, s1) \<Rightarrow> returns (e, staff) s1))"

section \<open>The entry of the audit interceptor\<close>

definition SUMMARY_KEYS :: "string list" where
  "SUMMARY_KEYS = [''id'', ''status'', ''count'', ''total'', ''applicationId'', ''accountId'']"

text \<open>A list is an object whose keys are its indices.\<close>

fun summarise :: "json \<Rightarrow> json" where
  "summarise (JObj fs) =
     (let picked = List.map_filter (\<lambda>k. map_option (Pair k) (map_of fs k)) SUMMARY_KEYS in
      if picked \<noteq> [] then JObj picked else JObj [(''keys'', JArr (map JStr (take 10 (map fst fs))))])"
| "summarise (JArr xs) = JObj [(''keys'', JArr (map (JStr \<circ> int_text \<circ> int) (take 10 [0..<length xs])))]"
| "summarise v = v"

text \<open>Written once the handler succeeded; \<open>result\<close> is None where it returned nothing.\<close>

definition interceptor_entry ::
  "endpoint \<Rightarrow> principal option \<Rightarrow> string \<Rightarrow> string \<Rightarrow> string list \<Rightarrow> string option \<Rightarrow> json option \<Rightarrow> string option \<Rightarrow> audit_entry option" where
  "interceptor_entry e staff httpMethod originalUrl segs reason result requestId =
     map_option (\<lambda>spec. \<lparr>en_actor = map_option actor_of staff, en_action = ax_action spec, en_targetType = ax_targetType spec,
       en_targetId = map_option (\<lambda>p. case map_of (route_params e segs) p of None \<Rightarrow> [] | Some v \<Rightarrow> v) (ax_targetParam spec),
       en_before = JNull, en_after = JNull, en_reason = map_option trim reason,
       en_metadata = JObj ([(''method'', JStr httpMethod), (''path'', JStr originalUrl)]
         @ (case result of None \<Rightarrow> [] | Some v \<Rightarrow> [(''result'', summarise v)])),
       en_requestId = requestId\<rparr>) (ep_audit e)"

end
