(* ===== verification/Route_Facts.thy ===== *)
theory Route_Facts
  imports Routes
begin

text \<open>
  What the table of routes guarantees: which routes are open, what a write needs, and that every route but
  one is the first that matches its own path.
\<close>

section \<open>Facts of the table\<close>

definition OPEN_CALLS :: "string list" where
  "OPEN_CALLS = [''health.live'', ''health.ready'', ''auth.login'', ''auth.verifyTotp'', ''auth.acceptInvite'', ''events.ingestBatch'']"

definition OWN_ACCOUNT :: "string list" where
  "OWN_ACCOUNT = [''auth.logout'', ''auth.changePassword'', ''auth.endImpersonation'', ''inbox.markRead'', ''inbox.markAllRead'']"

definition READING :: "string list" where
  "READING = [''metrics.read'', ''customers.read'', ''finance.read'', ''geo.view'', ''messages.read'', ''audit.read'']"

lemma open_endpoints: "map ep_call (filter ep_public endpoints) = OPEN_CALLS"
  by code_simp

lemma write_permissions:
  "list_all (\<lambda>e. ep_public e \<or> ep_method e = ''GET'' \<or> js_includes OWN_ACCOUNT (ep_call e)
     \<or> list_ex (\<lambda>q. \<not> js_includes READING q) (ep_permissions e)) endpoints"
  by code_simp

text \<open>No route asks for a permission that does not exist.\<close>

lemma permissions_catalogued: "list_all (\<lambda>e. list_all (js_includes ALL_PERMISSIONS) (ep_permissions e)) endpoints"
  by code_simp

lemma methods_plain: "list_all (\<lambda>e. ep_method e \<noteq> ''HEAD'') endpoints"
  by code_simp

lemma segments_nonempty: "list_all (\<lambda>e. list_all (\<lambda>p. p \<noteq> []) (ep_path e)) endpoints"
  by code_simp

section \<open>Paths that meet\<close>

text \<open>A path as a client writes it: the literals of the route, and a value for each parameter.\<close>

definition fill :: "(string \<Rightarrow> string) \<Rightarrow> endpoint \<Rightarrow> string list" where
  "fill v e = map (\<lambda>p. if is_param p then v (tl p) else p) (ep_path e)"

definition route_words :: "string list" where
  "route_words = map toLowerCase (filter (\<lambda>p. \<not> is_param p) (concat (map ep_path endpoints)))"

definition covers :: "string \<Rightarrow> string \<Rightarrow> bool" where
  "covers p q \<longleftrightarrow> is_param p \<or> (\<not> is_param q \<and> toLowerCase p = toLowerCase q)"

text \<open>\<open>e\<close> takes what is meant for \<open>e'\<close>.\<close>

definition shadows :: "endpoint \<Rightarrow> endpoint \<Rightarrow> bool" where
  "shadows e' e \<longleftrightarrow> ep_method e = ep_method e' \<and> list_all2 covers (ep_path e) (ep_path e')"

lemma shadows_self: "shadows e e"
  by (simp add: shadows_def list.rel_refl covers_def)

lemma covers_filled:
  assumes "\<not> is_param p \<Longrightarrow> toLowerCase p \<in> set route_words" "\<not> is_param q \<Longrightarrow> q \<noteq> []"
    "\<And>k. v k \<noteq> [] \<and> toLowerCase (v k) \<notin> set route_words"
  shows "segment_matches p (if is_param q then v (tl q) else q) \<longleftrightarrow> covers p q"
proof -
  have "is_param p \<or> toLowerCase p \<noteq> toLowerCase (v (tl q))" using assms(1,3) by metis
  then show ?thesis using assms(2,3) by (auto simp: segment_matches_def covers_def)
qed

lemma list_all2_map_right: "list_all2 P xs (map f ys) \<longleftrightarrow> list_all2 (\<lambda>x y. P x (f y)) xs ys"
  by (simp add: list_all2_map2)

lemma matches_filled:
  assumes "e \<in> set endpoints" "e' \<in> set endpoints" "\<And>k. v k \<noteq> [] \<and> toLowerCase (v k) \<notin> set route_words"
  shows "endpoint_matches (ep_method e') (fill v e') e \<longleftrightarrow> shadows e' e"
proof -
  have "method_matches (ep_method e) (ep_method e') \<longleftrightarrow> ep_method e = ep_method e'"
    using methods_plain assms(2) by (auto simp: method_matches_def list_all_iff)
  moreover have "list_all2 segment_matches (ep_path e) (fill v e') \<longleftrightarrow> list_all2 covers (ep_path e) (ep_path e')"
    unfolding fill_def list_all2_map_right
    using assms segments_nonempty by (intro list.rel_cong covers_filled) (auto simp: route_words_def list_all_iff)
  ultimately show ?thesis by (simp add: endpoint_matches_def shadows_def)
qed

lemma find_congr: "(\<And>x. x \<in> set xs \<Longrightarrow> P x = Q x) \<Longrightarrow> find P xs = find Q xs"
  by (induction xs) auto

lemma dispatch_filled:
  assumes "e' \<in> set endpoints" "\<And>k. v k \<noteq> [] \<and> toLowerCase (v k) \<notin> set route_words"
  shows "dispatch (ep_method e') (fill v e') = find (shadows e') endpoints"
  unfolding dispatch_def by (intro find_congr matches_filled assms)

section \<open>The order of the routes\<close>

text \<open>
  A route as it is compared: its method, whether it is the one exception, and its segments from the last,
  a parameter being None.
\<close>

type_synonym route_key = "string \<times> bool \<times> string option list"

definition segment_key :: "string \<Rightarrow> string option" where
  "segment_key p = (if is_param p then None else Some (toLowerCase p))"

definition handler_key :: "controller \<Rightarrow> handler \<Rightarrow> route_key" where
  "handler_key c h = (ha_method h, ha_call h = ''campaigns.listTemplates'',
     rev (map segment_key (path_segments (cn_prefix c) @ path_segments (ha_path h))))"

fun covers_path :: "string option list \<Rightarrow> string option list \<Rightarrow> bool" where
  "covers_path [] [] = True"
| "covers_path (None # ps) (q # qs) = covers_path ps qs"
| "covers_path (Some p # ps) (Some q # qs) = (if p = q then covers_path ps qs else False)"
| "covers_path ps qs = False"

fun hides :: "route_key \<Rightarrow> route_key \<Rightarrow> bool" where
  "hides (m, _, ps) (m', exempt, qs) = (if exempt then False else if m = m' then covers_path ps qs else False)"

fun clear_of :: "route_key list \<Rightarrow> route_key \<Rightarrow> bool" where
  "clear_of [] y = True"
| "clear_of (x # xs) y = (if hides x y then False else clear_of xs y)"

fun block_clear :: "route_key list \<Rightarrow> route_key list \<Rightarrow> bool" where
  "block_clear xs [] = True"
| "block_clear xs (y # ys) = (if clear_of xs y then block_clear xs ys else False)"

fun own_clear :: "route_key list \<Rightarrow> bool" where
  "own_clear [] = True"
| "own_clear (x # xs) = (if block_clear [x] xs then own_clear xs else False)"

fun blocks_clear :: "route_key list \<Rightarrow> route_key list list \<Rightarrow> bool" where
  "blocks_clear xs [] = True"
| "blocks_clear xs (b # bs) = (if block_clear xs b then blocks_clear xs bs else False)"

fun all_clear :: "route_key list list \<Rightarrow> bool" where
  "all_clear [] = True"
| "all_clear (b # bs) = (if own_clear b then if blocks_clear b bs then all_clear bs else False else False)"

lemma clear_of_iff: "clear_of xs y \<longleftrightarrow> (\<forall>x \<in> set xs. \<not> hides x y)"
  by (induction xs) auto

lemma block_clear_iff: "block_clear xs ys \<longleftrightarrow> (\<forall>x \<in> set xs. \<forall>y \<in> set ys. \<not> hides x y)"
  by (induction ys) (auto simp: clear_of_iff simp del: hides.simps)

lemma own_clear_iff: "own_clear xs \<longleftrightarrow> sorted_wrt (\<lambda>x y. \<not> hides x y) xs"
  by (induction xs) (auto simp: block_clear_iff simp del: hides.simps)

lemma blocks_clear_iff: "blocks_clear xs bs \<longleftrightarrow> (\<forall>x \<in> set xs. \<forall>y \<in> set (concat bs). \<not> hides x y)"
proof (induction bs)
  case (Cons b bs)
  show ?case unfolding blocks_clear.simps Cons block_clear_iff by (simp del: hides.simps split_paired_All split_paired_Ex add: ball_Un) blast
qed simp

lemma all_clear_iff: "all_clear bs \<longleftrightarrow> sorted_wrt (\<lambda>x y. \<not> hides x y) (concat bs)"
  by (induction bs) (auto simp: own_clear_iff blocks_clear_iff sorted_wrt_append simp del: hides.simps)

lemma routes_clear: "all_clear (map (\<lambda>c. map (handler_key c) (cn_handlers c)) controllers)"
  by code_simp

lemma covers_path_iff:
  "covers_path (map segment_key ps) (map segment_key qs) \<longleftrightarrow> list_all2 covers ps qs"
proof (induction ps arbitrary: qs)
  case Nil
  then show ?case by (cases qs) simp_all
next
  case (Cons p ps)
  then show ?case by (cases qs; cases "is_param p"; cases "is_param (hd qs)") (simp_all add: segment_key_def covers_def)
qed

lemma prefix_covers:
  assumes "list_all2 covers (with_global_prefix ps) (with_global_prefix qs)"
  shows "list_all2 covers ps qs"
proof -
  have "\<not> covers ''health'' ''admin''" "\<not> covers ''admin'' ''health''" by code_simp+
  with assms show ?thesis
    by (auto simp: with_global_prefix_def UNPREFIXED_def split: if_splits)
qed

lemma handler_fields:
  "ep_method (endpoint_of c h) = ha_method h" "ep_call (endpoint_of c h) = ha_call h"
  "ep_path (endpoint_of c h) = with_global_prefix (path_segments (cn_prefix c) @ path_segments (ha_path h))"
  by (simp_all add: endpoint_of_def Let_def)

lemma hides_shadow:
  assumes "shadows (endpoint_of c' h') (endpoint_of c h)" "ha_call h' \<noteq> ''campaigns.listTemplates''"
  shows "hides (handler_key c h) (handler_key c' h')"
proof -
  let ?p = "path_segments (cn_prefix c) @ path_segments (ha_path h)" and ?q = "path_segments (cn_prefix c') @ path_segments (ha_path h')"
  have "list_all2 covers ?p ?q"
    using assms(1) unfolding shadows_def handler_fields by (intro conjunct2 [THEN prefix_covers])
  then have "list_all2 covers (rev ?p) (rev ?q)" by (simp only: list_all2_rev)
  then have c: "covers_path (rev (map segment_key ?p)) (rev (map segment_key ?q))"
    by (simp only: rev_map covers_path_iff)
  have m: "ha_method h = ha_method h'"
    using assms(1) unfolding shadows_def handler_fields by (rule conjunct1)
  show ?thesis
    unfolding handler_key_def hides.simps if_not_P [OF assms(2)] if_P [OF m] by (rule c)
qed

lemma find_first:
  assumes "sorted_wrt (\<lambda>y x. Q x \<longrightarrow> \<not> P x y) xs" "x \<in> set xs" "P x x" "Q x"
  shows "find (P x) xs = Some x"
  using assms by (induction xs) auto

lemma endpoints_ordered:
  "sorted_wrt (\<lambda>e e'. ep_call e' \<noteq> ''campaigns.listTemplates'' \<longrightarrow> \<not> shadows e' e) endpoints"
proof -
  let ?hs = "concat (map (\<lambda>c. map (Pair c) (cn_handlers c)) controllers)"
  let ?key = "\<lambda>x. handler_key (fst x) (snd x)" and ?ep = "\<lambda>x. endpoint_of (fst x) (snd x)"
  have k: "concat (map (\<lambda>c. map (handler_key c) (cn_handlers c)) controllers) = map ?key ?hs"
    by (simp add: map_concat comp_def)
  have "sorted_wrt (\<lambda>x y. \<not> hides (?key x) (?key y)) ?hs"
    using routes_clear unfolding all_clear_iff k sorted_wrt_map .
  then have s: "sorted_wrt (\<lambda>x y. ep_call (?ep y) \<noteq> ''campaigns.listTemplates'' \<longrightarrow> \<not> shadows (?ep y) (?ep x)) ?hs"
    by (rule sorted_wrt_mono_rel [rotated]) (auto simp: handler_fields(2) simp del: hides.simps dest: hides_shadow)
  have e: "endpoints = map ?ep ?hs"
    by (simp add: endpoints_def map_concat comp_def)
  show ?thesis unfolding e sorted_wrt_map by (rule s)
qed

lemma find_Some_mem: "find P xs = Some x \<Longrightarrow> x \<in> set xs \<and> P x"
  by (induction xs) (auto split: if_splits)


text \<open>The one exception: first the controllers up to the one that reviews templates.\<close>

definition first_controllers :: "controller list" where
  "first_controllers = takeWhile (\<lambda>c. cn_prefix c \<noteq> ''geo'') controllers"

definition table_of :: "controller list \<Rightarrow> endpoint list" where
  "table_of cs = concat (map (\<lambda>c. map (endpoint_of c) (cn_handlers c)) cs)"

lemma earlier_routes:
  "list_all (\<lambda>e. ep_call e \<noteq> ''campaigns.listTemplates'') (table_of first_controllers)"
  by code_simp

lemma review_queue_route:
  "list_ex (\<lambda>e. ep_method e = ''GET'' \<and> ep_path e = [''admin'', ''v1'', ''templates'']) (table_of first_controllers)"
  by code_simp

lemma template_list_route:
  "list_all (\<lambda>e. if ep_call e = ''campaigns.listTemplates'' then ep_method e = ''GET'' \<and> ep_path e = [''admin'', ''v1'', ''templates''] else True) endpoints"
  by code_simp

lemma table_split: "endpoints = table_of first_controllers @ table_of (dropWhile (\<lambda>c. cn_prefix c \<noteq> ''geo'') controllers)"
  unfolding table_of_def first_controllers_def endpoints_def concat_append [symmetric] map_append [symmetric]
  by (simp only: takeWhile_dropWhile_id)

lemma find_append: "find P (xs @ ys) = (case find P xs of None \<Rightarrow> find P ys | Some x \<Rightarrow> Some x)"
  by (induction xs) auto

text \<open>
  C30. The one exception: the list of message templates for campaigns is registered after the review queue at
  the same path, so no request ever reaches it, and who asks for it needs the reviewers' permission.
\<close>
theorem template_list_unreachable:
  "map_option ep_call (dispatch m segs) \<noteq> Some ''campaigns.listTemplates''"
proof
  assume "map_option ep_call (dispatch m segs) = Some ''campaigns.listTemplates''"
  then obtain e where e: "dispatch m segs = Some e" "ep_call e = ''campaigns.listTemplates''" by auto
  then have m: "e \<in> set endpoints" "endpoint_matches m segs e" by (auto simp: dispatch_def dest: find_Some_mem)
  with e template_list_route have "ep_method e = ''GET''" "ep_path e = [''admin'', ''v1'', ''templates'']"
    by (auto simp: list_all_iff)
  moreover obtain q where q: "q \<in> set (table_of first_controllers)" "ep_method q = ''GET''" "ep_path q = [''admin'', ''v1'', ''templates'']"
    using review_queue_route by (auto simp: list_ex_iff)
  ultimately have "endpoint_matches m segs q" using m(2) by (simp add: endpoint_matches_def)
  with q(1) obtain r where r: "find (endpoint_matches m segs) (table_of first_controllers) = Some r"
    by (metis find_None_iff not_None_eq)
  then have "dispatch m segs = Some r" by (simp add: dispatch_def table_split find_append)
  moreover have "ep_call r \<noteq> ''campaigns.listTemplates''"
    using earlier_routes find_Some_mem [OF r] by (auto simp: list_all_iff)
  ultimately show False using e by simp
qed

section \<open>What a request needs\<close>

lemma receive_admitted:
  assumes "receive cfg ck now rq segs s = returns (e, staff) s'"
  shows "e \<in> set endpoints" "endpoint_matches (rq_method rq) segs e" "admit cfg ck now (guarded_as e) rq s = returns staff s'"
  using assms by (auto simp: receive_def dispatch_def split: option.splits prod.splits sum.splits dest: find_Some_mem)

lemma admitted_permissions:
  assumes "admit cfg ck now route rq s = returns (Some p) s'"
  shows "ro_required route = [] \<or> set (ro_required route) \<subseteq> set (sp_permissions p) \<and> (sp_impersonating p = None \<or> rq_method rq = ''GET'')"
proof -
  have "permissions_guard (ro_required route) (rq_method rq) (Some p) = Inr ()"
    using assms by (auto simp: admit_def split: prod.splits sum.splits)
  then show ?thesis by (simp add: permissions_guard_iff)
qed

lemma public_no_principal:
  assumes "admit cfg ck now route rq s = returns staff s'"
  shows "ro_isPublic route \<longleftrightarrow> staff = None"
proof
  assume "ro_isPublic route"
  with assms show "staff = None"
    by (auto simp: admit_def session_guard_def split: prod.splits sum.splits)
next
  assume "staff = None"
  show "ro_isPublic route"
  proof (rule ccontr)
    assume "\<not> ro_isPublic route"
    with assms have "session_guard cfg ck now False rq s = returns staff s'"
      by (auto simp: admit_def split: prod.splits sum.splits)
    from session_guard_success [OF this] \<open>staff = None\<close> show False by auto
  qed
qed

text \<open>
  C2. A request that changes anything outside the caller's own account runs only for a signed-in staff member
  who is not viewing as a customer and holds every permission the route asks for, among them one that the
  reading roles do not have.  The six routes open to everyone are the exception.
\<close>
theorem writes_need_permission:
  assumes "receive cfg ck now rq segs s = returns (e, staff) s'" "ep_method e \<noteq> ''GET''"
    "\<not> js_includes OPEN_CALLS (ep_call e)" "\<not> js_includes OWN_ACCOUNT (ep_call e)"
  shows "\<exists>p q. staff = Some p \<and> sp_impersonating p = None \<and> set (ep_permissions e) \<subseteq> set (sp_permissions p)
    \<and> q \<in> set (ep_permissions e) \<and> \<not> js_includes READING q"
proof -
  note r = receive_admitted [OF assms(1)]
  have "ep_call e \<in> set (map ep_call (filter ep_public endpoints))" if "ep_public e"
    using that r(1) by auto
  then have np: "\<not> ep_public e" using assms(3) unfolding open_endpoints js_includes_def by blast
  then obtain p where p: "staff = Some p"
    using public_no_principal [OF r(3)] by (cases staff) (simp_all add: guarded_as_def)
  have "list_ex (\<lambda>q. \<not> js_includes READING q) (ep_permissions e)"
    using write_permissions r(1) np assms(2,4) by (auto simp: list_all_iff)
  then obtain q where q: "q \<in> set (ep_permissions e)" "\<not> js_includes READING q" by (auto simp: list_ex_iff)
  have "rq_method rq \<noteq> ''GET''" using r(2) assms(2) by (auto simp: endpoint_matches_def method_matches_def)
  with admitted_permissions [OF r(3) [unfolded p]] q(1)
  have "set (ep_permissions e) \<subseteq> set (sp_permissions p)" "sp_impersonating p = None"
    by (auto simp: guarded_as_def)
  with p q show ?thesis by blast
qed

section \<open>A request at work\<close>

lemma ex_dispatch:
  "case dispatch ''POST'' [''admin'', ''v1'', ''customers'', ''acc1'', ''credit-adjustments''] of None \<Rightarrow> False
   | Some e \<Rightarrow> ep_call e = ''credits.request'' \<and> ep_method e = ''POST'' \<and> guarded_as e = ex_route"
  by code_simp

theorem writes_need_permission_witness:
  "\<exists>e p s'. receive ex_cfg ''zpk'' 1000 ex_request [''admin'', ''v1'', ''customers'', ''acc1'', ''credit-adjustments''] ex_guards = returns (e, Some p) s'
     \<and> ep_call e = ''credits.request'' \<and> sp_impersonating p = None"
proof -
  obtain e where e: "dispatch ''POST'' [''admin'', ''v1'', ''customers'', ''acc1'', ''credit-adjustments''] = Some e"
    "ep_call e = ''credits.request''" "ep_method e = ''POST''" "guarded_as e = ex_route"
    using ex_dispatch by (auto split: option.splits)
  obtain p s' where a: "admit ex_cfg ''zpk'' 1000 ex_route ex_request ex_guards = returns (Some p) s'"
    using ex_admitted by blast
  have r: "receive ex_cfg ''zpk'' 1000 ex_request [''admin'', ''v1'', ''customers'', ''acc1'', ''credit-adjustments''] ex_guards = returns (e, Some p) s'"
    by (simp add: receive_def ex_request_def e) (simp add: ex_request_def [symmetric] a)
  have "\<not> js_includes OPEN_CALLS ''credits.request''" "\<not> js_includes OWN_ACCOUNT ''credits.request''" by code_simp+
  with writes_need_permission [OF r] e have "sp_impersonating p = None" by auto
  with r e show ?thesis by blast
qed

lemma ex_customer_route:
  "list_ex (\<lambda>e. ep_call e = ''customers.get'' \<and> ep_method e = ''GET'' \<and> ep_path e = [''admin'', ''v1'', ''customers'', '':id'']) endpoints"
  by code_simp

lemma ex_id_no_word: "\<not> js_includes route_words (toLowerCase ''acc1'')"
  by code_simp


section \<open>The interceptor's entry\<close>

text \<open>What is summarised keeps no field of the result but the six that identify it.\<close>

lemma summary_bounded:
  "summarise (JObj fs) = JObj gs \<Longrightarrow> set (map fst gs) \<subseteq> insert ''keys'' (set SUMMARY_KEYS)"
  by (auto simp: Let_def List.map_filter_def split: if_splits)

lemma entry_names_target:
  assumes "interceptor_entry e staff m url segs reason result rid = Some entry"
  shows "\<exists>spec. ep_audit e = Some spec \<and> en_action entry = ax_action spec \<and> en_actor entry = map_option actor_of staff"
  using assms by (auto simp: interceptor_entry_def)

end
