(* ===== verification/Handlers.thy ===== *)
theory Handlers
  imports Auth Guards Http_Edge
begin

text \<open>
  The handlers that do more than call a service: signing in and out (\<open>modules/auth/auth.controller.ts\<close>), the
  live map's stream (\<open>modules/geo/geo.controller.ts\<close>) and the inbox (\<open>modules/inbox/inbox.controller.ts\<close>).
\<close>

text \<open>Signing in and out: the service's answer, and the cookies the reply sets or clears.\<close>

record browser_request =
  br_hostname :: string
  br_origin :: "string option"
  br_cookie :: "string option"
  br_context :: login_context

record edge =
  eg_url :: "string \<Rightarrow> parsed_url option"
  eg_config :: session_config

datatype sign_in_reply = TotpRequired "(string \<times> string) option" | Authenticated string

definition login_request ::
  "edge \<Rightarrow> auth_env \<Rightarrow> auth_cfg \<Rightarrow> millis \<Rightarrow> string \<Rightarrow> string \<Rightarrow> string \<Rightarrow> string \<Rightarrow> string \<Rightarrow> browser_request \<Rightarrow> console_state
   \<Rightarrow> (console_state, sign_in_reply \<times> cookie_header list) outcome" where
  "login_request eg env cfg now sid csrf secret email password br s =
     (case login env cfg now sid csrf secret email password (br_context br) s of
        (Inl e, s1) \<Rightarrow> throws e s1
      | (Inr result, s1) \<Rightarrow> returns (TotpRequired (lr_enrolment result),
          setSessionCookies (eg_url eg) (eg_config eg) (br_hostname br) (br_origin br) now (lr_session result)) s1)"

definition verify_request ::
  "edge \<Rightarrow> auth_env \<Rightarrow> auth_cfg \<Rightarrow> millis \<Rightarrow> string \<Rightarrow> browser_request \<Rightarrow> console_state
   \<Rightarrow> (console_state, sign_in_reply \<times> cookie_header list) outcome" where
  "verify_request eg env cfg now code br s =
     (let sessionIds = cookieValues (br_cookie br) (sc_accessCookie (eg_config eg)) in
      if sessionIds = [] then throws (Unauthorized ''Sign in first'') s
      else (case verifyTotp env cfg now sessionIds code (br_context br) s of
          (Inl e, s1) \<Rightarrow> throws e s1
        | (Inr session, s1) \<Rightarrow> returns (Authenticated (se_csrfToken session),
            setSessionCookies (eg_url eg) (eg_config eg) (br_hostname br) (br_origin br) now session) s1))"

definition logout_request :: "edge \<Rightarrow> principal \<Rightarrow> millis \<Rightarrow> browser_request \<Rightarrow> console_state \<Rightarrow> console_state \<times> cookie_header list" where
  "logout_request eg staff now br s =
     (logout staff now s, clearSessionCookies (eg_url eg) (eg_config eg) (br_hostname br) (br_origin br))"

text \<open>The live map's dots, without the raw address for a viewer who may not see it; a message that is no list is passed on.\<close>

definition live_message :: "bool \<Rightarrow> json \<Rightarrow> json" where
  "live_message canSeeRawIp message =
     (if canSeeRawIp then message
      else (case message of
          JArr dots \<Rightarrow> JArr (map (\<lambda>dot. case dot of JObj fs \<Rightarrow> JObj (filter (\<lambda>(k, v). k \<noteq> ''ip'') fs) | other \<Rightarrow> other) dots)
        | other \<Rightarrow> other))"

text \<open>The caller's own inbox, newest first, and how much of it is unread; \<open>key\<close> is a note's createdAt and id.\<close>

definition list_inbox ::
  "(staff_note \<Rightarrow> cursor_key) \<Rightarrow> principal \<Rightarrow> cursor_key option \<Rightarrow> nat option \<Rightarrow> bool option \<Rightarrow> inbox_state
   \<Rightarrow> (staff_note, cursor_key) page \<times> nat" where
  "list_inbox key staff cursor limit_query unreadOnly s =
     (let n = (case limit_query of None \<Rightarrow> 50 | Some k \<Rightarrow> k);
          found = filter (\<lambda>x. no_staffId x = sp_id staff \<and> (unreadOnly = Some True \<longrightarrow> no_readAt x = None)) (ib_notes s)
      in (buildPage key (findMany_desc key cursor (n + 1) found) n, inbox_unread (sp_id staff) s))"

section \<open>What they keep\<close>

text \<open>Without the permission no dot of the live map carries an address.\<close>

lemma live_message_strips:
  "live_message False (JArr dots) = JArr out \<Longrightarrow> JObj fs \<in> set out \<Longrightarrow> ''ip'' \<notin> fst ` set fs"
  by (auto simp: live_message_def split: json.splits)

text \<open>An inbox shows its owner's notes only.\<close>

lemma inbox_own_only:
  "x \<in> set (pg_data (fst (list_inbox key staff cursor limit_query unreadOnly s))) \<Longrightarrow> no_staffId x = sp_id staff \<and> x \<in> set (ib_notes s)"
  by (auto simp: list_inbox_def Let_def buildPage_def findMany_desc_def newest_first_def split: if_splits dest!: in_set_takeD)

text \<open>The session's id leaves in cookies scripts cannot read only, and never in a body.\<close>

lemma session_cookie_http_only:
  assumes "login_request eg env cfg now sid csrf secret email password br s = returns (answer, cookies) s'"
    "SetCookie name v options \<in> set cookies" "name \<noteq> sc_csrfCookie (eg_config eg)"
  shows "ko_httpOnly options \<and> (\<exists>enrolment. answer = TotpRequired enrolment)"
  using assms by (auto simp: login_request_def setSessionCookies_def cookieOptions_def Let_def split: prod.splits sum.splits)

end
