(* ===== verification/Operations.thy ===== *)
theory Operations
  imports Guards Staff_Admin Totp Bulk_Upsert Lagos Js_Float Credits
begin

text \<open>
  What runs beside the handlers: password hashing (\<open>modules/auth/password.service.ts\<close>), the command line
  tools (\<open>cli/reset-password.ts\<close>, \<open>seed.ts\<close>, \<open>cli/backfill.ts\<close>), the read-only product client
  (\<open>common/prisma/zapiack-prisma.service.ts\<close>), names in Redis (\<open>common/redis/redis.service.ts\<close>), mail and
  text messages (\<open>integrations\<close>), readiness (\<open>health.controller.ts\<close>), the memory line and trace
  (\<open>common/diagnostics\<close>) and the last words of a crash (\<open>common/fatal.ts\<close>).
\<close>

section \<open>Password hashes\<close>

text \<open>\<open>scrypt password salt length (N, r, p)\<close>; None where the library throws.  \<open>maxmem\<close> is a function of the rest.\<close>

type_synonym scrypt_fun = "string \<Rightarrow> string \<Rightarrow> nat \<Rightarrow> int \<times> int \<times> int \<Rightarrow> string option"

definition SCRYPT_PARAMS :: "nat \<times> nat \<times> nat" where
  "SCRYPT_PARAMS = (65536, 8, 1)"

definition KEY_LENGTH :: nat where
  "KEY_LENGTH = 64"

definition hash_password :: "scrypt_fun \<Rightarrow> string \<Rightarrow> string \<Rightarrow> string result" where
  "hash_password scrypt salt password =
     (let (n, r, p) = SCRYPT_PARAMS in
      case scrypt password salt KEY_LENGTH (int n, int r, int p) of
        None \<Rightarrow> Inl (PlainError ''scrypt'')
      | Some derived \<Rightarrow> Inr (join_with ''$'' [''scrypt'', dec n, dec r, dec p, base64_encode salt, base64_encode derived]))"

definition verify_password :: "scrypt_fun \<Rightarrow> string \<Rightarrow> string \<Rightarrow> bool result" where
  "verify_password scrypt password stored =
     (let parts = split_on (CHR ''$'') stored in
      if hd parts \<noteq> ''scrypt'' then Inr False
      else (case parts of
          _ # n # r # p # saltB64 # hashB64 # _ \<Rightarrow>
            (let expected = base64url_decode hashB64 in
             case (num_int (js_Number n), num_int (js_Number r), num_int (js_Number p)) of
               (Some n, Some r, Some p) \<Rightarrow>
                 (case scrypt password (base64url_decode saltB64) (length expected) (n, r, p) of
                    None \<Rightarrow> Inl (PlainError ''scrypt'')
                  | Some derived \<Rightarrow> Inr (length derived = length expected \<and> derived = expected))
             | _ \<Rightarrow> Inl (PlainError ''ERR_OUT_OF_RANGE''))
        | _ \<Rightarrow> Inl (PlainError ''The first argument must be of type string'')))"

section \<open>The password reset tool\<close>

definition generatePassword :: "string \<Rightarrow> string" where
  "generatePassword randomBytes = filter (\<lambda>c. \<not> js_includes ''/+='' c) (base64_encode randomBytes) @ ''Aa1!''"

record reset_args =
  rs_argv :: "string list"
  rs_url :: "string option"
  rs_random :: string

text \<open>What the tool prints: the password on success, and else the reason it exits with 1.\<close>

datatype cli_end = CliExit string | CliPassword string

definition reset_staff :: "auth_env \<Rightarrow> string \<Rightarrow> bool \<Rightarrow> staff_row \<Rightarrow> staff_row" where
  "reset_staff env password reset2fa st =
     (let st1 = st\<lparr>st_passwordHash := cx_hash env password, st_failedLoginCount := 0, st_lockedUntil := None,
                   st_sessionEpoch := Suc (st_sessionEpoch st)\<rparr>
      in if reset2fa then st1\<lparr>st_totpSecret := None, st_totpEnabled := False\<rparr> else st1)"

definition reset_audit :: "string \<Rightarrow> string \<Rightarrow> bool \<Rightarrow> audit_row" where
  "reset_audit staffId email reset2fa =
     \<lparr>au_actorId = None, au_actorEmail = Some ''cli'', au_action = ''staff.password_reset_cli'', au_targetType = Some ''staff'',
      au_targetId = Some staffId, au_before = JNull, au_after = JNull, au_reason = None,
      au_metadata = JObj [(''email'', JStr email), (''reset2fa'', JBool reset2fa), (''via'', JStr ''reset-password.js'')],
      au_ip = None, au_userAgent = None, au_requestId = None\<rparr>"

definition reset_password :: "auth_env \<Rightarrow> reset_args \<Rightarrow> console_state \<Rightarrow> cli_end \<times> console_state" where
  "reset_password env args s =
     (let email = map_option toLowerCase (find (\<lambda>a. \<not> startsWith a ''--'') (rs_argv args));
          reset2fa = js_includes (rs_argv args) ''--reset-2fa''
      in if \<not> truthy email then (CliExit ''Usage: node dist/cli/reset-password.js <email> [--reset-2fa]'', s)
         else if \<not> truthy (rs_url args) then (CliExit ''ADMIN_DATABASE_URL is not set.'', s)
         else (case find_row (\<lambda>st. st_email st = the email) (co_staff s) of
             None \<Rightarrow> (CliExit (''No staff member with the email '' @ the email), s)
           | Some st \<Rightarrow>
               (let password = generatePassword (rs_random args);
                    s1 = update_staff (st_id st) (reset_staff env password reset2fa) s
                in (CliPassword password, s1\<lparr>co_audit := co_audit s1 @ [reset_audit (st_id st) (the email) reset2fa]\<rparr>))))"

section \<open>Seeding\<close>

definition ROLE_TEXTS :: "(string \<times> string \<times> string) list" where
  "ROLE_TEXTS =
    [(''super_admin'', ''Super admin'', ''Founder, CTO. Everything, including staff management, roles and pricing.''),
     (''finance'', ''Finance'', ''Revenue, profit, ledger, exports, credit adjustments above threshold, refunds.''),
     (''support'', ''Support'', ''View customers, reveal masked PII with a reason, small credit adjustments, single-account notifications.''),
     (''compliance'', ''Compliance'', ''Sender ID queue, document download, approve / reject / request changes, suspend for abuse.''),
     (''ops'', ''Ops / Engineering'', ''God's-eye map, request logs, channel health, provider status. Read-only on money.''),
     (''growth'', ''Growth'', ''Segments and notification campaigns. Aggregate metrics only, no PII reveal.''),
     (''read_only'', ''Read-only'', ''Investors, auditors. Aggregate dashboards; no PII, no exports.'')]"

definition role_text :: "string \<Rightarrow> string \<times> string" where
  "role_text key = (case map_of ROLE_TEXTS key of None \<Rightarrow> ([], []) | Some t \<Rightarrow> t)"

text \<open>\<open>upsert\<close> by the key: the allow list of a role that exists is left alone.\<close>

definition seed_role :: "(string \<Rightarrow> string) \<Rightarrow> string \<times> string list \<Rightarrow> role_row list \<Rightarrow> role_row list" where
  "seed_role newId entry roles =
     (let (key, permissions) = entry; (name, description) = role_text key in
      case find_row (\<lambda>ro. ro_key ro = key) roles of
        None \<Rightarrow> roles @ [\<lparr>ro_id = newId key, ro_key = key, ro_name = name, ro_description = Some description,
          ro_permissions = permissions, ro_ipAllowlist = [], ro_isSystem = True\<rparr>]
      | Some _ \<Rightarrow> update_where (\<lambda>ro. ro_key ro = key)
          (\<lambda>ro. ro\<lparr>ro_name := name, ro_description := Some description, ro_permissions := permissions\<rparr>) roles)"

definition seed_roles :: "(string \<Rightarrow> string) \<Rightarrow> role_row list \<Rightarrow> role_row list" where
  "seed_roles newId roles = fold (seed_role newId) SYSTEM_ROLES roles"

record seed_env =
  sv_newId :: "string \<Rightarrow> string"
  sv_email :: "string option"
  sv_password :: "string option"
  sv_name :: "string option"

definition seeded_admin :: "auth_env \<Rightarrow> seed_env \<Rightarrow> string \<Rightarrow> staff_row" where
  "seeded_admin env v roleId =
     \<lparr>st_id = sv_newId v ''staff'', st_email = toLowerCase (the (sv_email v)),
      st_name = (case sv_name v of None \<Rightarrow> ''Super Admin'' | Some n \<Rightarrow> n), st_passwordHash = cx_hash env (the (sv_password v)),
      st_totpSecret = None, st_totpEnabled = False, st_status = ACTIVE, st_roleId = roleId, st_extraPermissions = [],
      st_failedLoginCount = 0, st_lockedUntil = None, st_lastLoginAt = None, st_lastLoginIp = None, st_sessionEpoch = 0, st_emailPrefs = []\<rparr>"

definition seed_main :: "auth_env \<Rightarrow> seed_env \<Rightarrow> console_state \<Rightarrow> (console_state, unit) outcome" where
  "seed_main env v s =
     (let s1 = s\<lparr>co_roles := seed_roles (sv_newId v) (co_roles s)\<rparr> in
      if \<not> truthy (sv_email v) \<or> \<not> truthy (sv_password v) then returns () s1
      else if length (the (sv_password v)) < 12 then throws (PlainError ''ADMIN_SEED_PASSWORD must be at least 12 characters'') s1
      else (case find_row (\<lambda>ro. ro_key ro = ''super_admin'') (co_roles s1) of
          None \<Rightarrow> throws RecordNotFound s1
        | Some role \<Rightarrow>
            (case find_row (\<lambda>st. st_email st = toLowerCase (the (sv_email v))) (co_staff s1) of
               Some _ \<Rightarrow> returns () s1
             | None \<Rightarrow> returns () (s1\<lparr>co_staff := co_staff s1 @ [seeded_admin env v (ro_id role)]\<rparr>))))"

section \<open>Backfill\<close>

text \<open>The calls a backfill makes, in order; a date is a Lagos day.\<close>

datatype backfill_step =
    FinaliseDay millis
  | RollUsage millis millis
  | RollRequests millis millis
  | MarkProcessed string
  | EnsureReview string
  | SampleProviders
  | ScanRisk
  | ReconcileDay millis

fun arg_after :: "string \<Rightarrow> string list \<Rightarrow> string option" where
  "arg_after name [] = None"
| "arg_after name (a # rest) = (if a = ''--'' @ name then (case rest of [] \<Rightarrow> None | v # _ \<Rightarrow> Some v) else arg_after name rest)"

definition backfill_days :: "(string \<Rightarrow> int option) \<Rightarrow> string list \<Rightarrow> millis \<Rightarrow> (int \<times> int) option" where
  "backfill_days parse argv now =
     (let last_day = (case arg_after ''to'' argv of None \<Rightarrow> Some (lagos_day now) | Some t \<Rightarrow> if t = [] then Some (lagos_day now) else parse t);
          span = (case arg_after ''days'' argv of None \<Rightarrow> Some 14 | Some t \<Rightarrow> num_int (js_Number t));
          first_day = (if truthy (arg_after ''from'' argv) then parse (the (arg_after ''from'' argv))
             else (case (last_day, span) of (Some d, Some n) \<Rightarrow> Some (d - (n - 1)) | _ \<Rightarrow> None))
      in case (first_day, last_day) of (Some f, Some l) \<Rightarrow> Some (f, l) | _ \<Rightarrow> None)"

definition backfill_plan :: "string list \<Rightarrow> millis \<Rightarrow> int \<times> int \<Rightarrow> backfill_step list" where
  "backfill_plan applicationIds now days =
     (let (first_day, last_day) = days; today = lagos_day now in
      map (\<lambda>d. FinaliseDay (day_start d)) (day_loop first_day last_day)
      @ (if today \<le> last_day then [RollUsage (day_start today) (day_start (today + 1))] else [])
      @ [RollRequests (day_start first_day) (day_end last_day), MarkProcessed ''usage.current_day'', MarkProcessed ''requests'']
      @ map EnsureReview applicationIds
      @ [SampleProviders, ScanRisk, ReconcileDay (day_start last_day)])"

section \<open>The read-only client and names in Redis\<close>

definition MUTATING_READ :: "string list" where
  "MUTATING_READ = [''create'', ''createMany'', ''createManyAndReturn'', ''update'', ''updateMany'', ''updateManyAndReturn'', ''upsert'',
     ''delete'', ''deleteMany'', ''executeRaw'', ''executeRawUnsafe'', ''$executeRaw'', ''$executeRawUnsafe'']"

definition guarded_read :: "string \<Rightarrow> string option \<Rightarrow> ('s \<Rightarrow> 'a \<times> 's) \<Rightarrow> 's \<Rightarrow> ('s, 'a) outcome" where
  "guarded_read operation model query s =
     (if js_includes MUTATING_READ operation
      then throws (PlainError (''Refused '' @ operation @ '' on '' @ (case model of None \<Rightarrow> ''raw SQL'' | Some m \<Rightarrow> m)
        @ '': the Zapiack DB is read-only from admin-core. Route the write through api-core.'')) s
      else (let (a, s') = query s in returns a s'))"

definition redis_key :: "string list \<Rightarrow> string" where
  "redis_key parts = join_with '':'' parts"

definition redis_channel :: "string \<Rightarrow> string list \<Rightarrow> string" where
  "redis_channel prefix parts = prefix @ join_with '':'' parts"

definition redis_streamKey :: "string \<Rightarrow> string \<Rightarrow> string" where
  "redis_streamKey prefix name = prefix @ name"

text \<open>The key a command of the prefixed connection reaches the server with.\<close>

definition server_key :: "string \<Rightarrow> string \<Rightarrow> string" where
  "server_key prefix key = prefix @ key"

text \<open>The line logged at start-up, from the server's two reports; None where a report could not be read.\<close>

definition report_lines :: "string \<Rightarrow> string list" where
  "report_lines t = concat (map (split_on (CHR 0x0D)) (split_on (CHR 0x0A) t))"

definition report_field :: "string \<Rightarrow> string \<Rightarrow> string" where
  "report_field t name =
     (case find (\<lambda>l. startsWith l (name @ '':'')) (report_lines t) of None \<Rightarrow> ''?'' | Some l \<Rightarrow> trim (drop (Suc (length name)) l))"

record redis_health =
  rh_info :: string
  rh_warning :: "string option"

definition redis_health_of :: "string \<Rightarrow> string \<Rightarrow> redis_health" where
  "redis_health_of memory stats =
     (let evicted = report_field stats ''evicted_keys'' in
      \<lparr>rh_info = ''Redis memory '' @ report_field memory ''used_memory_human'' @ '' of '' @ report_field memory ''maxmemory_human''
         @ '', policy '' @ report_field memory ''maxmemory_policy'' @ '', evicted keys since start '' @ evicted,
       rh_warning = (if num_exceeds (js_Number evicted) 0
         then Some (''Redis has evicted '' @ evicted @ '' key(s). Session and queue keys can be among them; use a database with spare memory and a noeviction policy dedicated to admin-core.'')
         else None)\<rparr>)"

section \<open>Mail and text messages\<close>

text \<open>\<open>replace(/<style[\s\S]*?<\/style>/gi, '')\<close>: the rest after the first closing tag, if there is one.\<close>

fun after_close :: "string \<Rightarrow> string option" where
  "after_close [] = None"
| "after_close (c # cs) = (if startsWith (toLowerCase (c # cs)) ''</style>'' then Some (drop 8 (c # cs)) else after_close cs)"

lemma after_close_shorter: "after_close s = Some r \<Longrightarrow> length r < length s"
  by (induction s) (auto split: if_splits)

function drop_styles :: "string \<Rightarrow> string" where
  "drop_styles [] = []"
| "drop_styles (c # cs) =
     (case (if startsWith (toLowerCase (c # cs)) ''<style'' then after_close (drop 6 (c # cs)) else None) of
        Some rest \<Rightarrow> drop_styles rest
      | None \<Rightarrow> c # drop_styles cs)"
  by pat_completeness auto

termination
  by (relation "measure length") (auto dest!: after_close_shorter split: if_splits)

text \<open>\<open>replace(/<[^>]+>/g, ' ')\<close>.\<close>

definition tag_at :: "string \<Rightarrow> string option" where
  "tag_at s = (if s \<noteq> [] \<and> hd s = CHR ''<'' \<and> takeWhile (\<lambda>c. c \<noteq> CHR ''>'') (tl s) \<noteq> [] \<and> CHR ''>'' \<in> set (tl s)
     then Some (tl (dropWhile (\<lambda>c. c \<noteq> CHR ''>'') (tl s))) else None)"

lemma tag_at_shorter: "tag_at s = Some r \<Longrightarrow> length r < length s"
  using length_dropWhile_le [of "\<lambda>c. c \<noteq> CHR ''>''" "tl s"] by (cases s) (auto simp: tag_at_def split: if_splits)

function replace_tags :: "string \<Rightarrow> string" where
  "replace_tags [] = []"
| "replace_tags (c # cs) = (case tag_at (c # cs) of Some rest \<Rightarrow> CHR '' '' # replace_tags rest | None \<Rightarrow> c # replace_tags cs)"
  by pat_completeness auto

termination
  by (relation "measure length") (auto dest!: tag_at_shorter)

fun collapse_spaces :: "string \<Rightarrow> string" where
  "collapse_spaces [] = []"
| "collapse_spaces (c # cs) =
     (if is_space c then (case cs of [] \<Rightarrow> '' '' | d # _ \<Rightarrow> if is_space d then collapse_spaces cs else CHR '' '' # collapse_spaces cs)
      else c # collapse_spaces cs)"

definition stripHtml :: "string \<Rightarrow> string" where
  "stripHtml html = trim (collapse_spaces (replace_tags (drop_styles html)))"

record mail_input =
  mi_to :: string
  mi_subject :: string
  mi_html :: string
  mi_text :: "string option"

record ses_mail =
  sm_from :: string
  sm_replyTo :: "string list option"
  sm_to :: "string list"
  sm_subject :: string
  sm_html :: string
  sm_text :: string

definition ses_message :: "string \<Rightarrow> string option \<Rightarrow> mail_input \<Rightarrow> ses_mail" where
  "ses_message fromAddress replyTo email =
     \<lparr>sm_from = fromAddress, sm_replyTo = (if truthy replyTo then Some [the replyTo] else None), sm_to = [mi_to email],
      sm_subject = mi_subject email, sm_html = mi_html email,
      sm_text = (case mi_text email of None \<Rightarrow> stripHtml (mi_html email) | Some t \<Rightarrow> t)\<rparr>"

text \<open>One result per mail: a mail that fails does not stop the others.\<close>

definition send_batch_mail :: "(ses_mail \<Rightarrow> string option result) \<Rightarrow> string \<Rightarrow> string option \<Rightarrow> mail_input list \<Rightarrow> string option result list" where
  "send_batch_mail client fromAddress replyTo emails = map (client \<circ> ses_message fromAddress replyTo) emails"

record sms_request =
  sq_url :: string
  sq_headers :: "(string \<times> string) list"
  sq_to :: string
  sq_from :: string
  sq_body :: string

definition sms_message :: "string \<Rightarrow> string \<Rightarrow> string \<Rightarrow> string \<Rightarrow> string \<Rightarrow> sms_request" where
  "sms_message baseUrl apiKey senderId to body =
     \<lparr>sq_url = baseUrl @ ''/messages'',
      sq_headers = [(''content-type'', ''application/json''), (''authorization'', ''Bearer '' @ apiKey), (''x-zapiack-internal'', ''admin-console'')],
      sq_to = to, sq_from = senderId, sq_body = body\<rparr>"

text \<open>\<open>answer\<close> is the status, the body's text, and the id and cost a good body has.\<close>

definition sms_result :: "nat \<Rightarrow> string \<Rightarrow> string option \<times> string option \<Rightarrow> (string option \<times> string option) result" where
  "sms_result status detail parsed =
     (if 200 \<le> status \<and> status \<le> 299 then Inr parsed
      else Inl (PlainError (''sms-core rejected the send ('' @ dec status @ ''): '' @ take 300 detail)))"

section \<open>Readiness, memory, crashes\<close>

record readiness =
  rd_ready :: bool
  rd_adminDb :: bool
  rd_zapiackDb :: bool
  rd_redis :: bool
  rd_geoip :: bool

definition health_ready :: "unit result \<Rightarrow> unit result \<Rightarrow> unit result \<Rightarrow> bool \<Rightarrow> readiness" where
  "health_ready adminDb zapiackDb redis geoip =
     (let a = \<not> isl adminDb; z = \<not> isl zapiackDb; r = \<not> isl redis in
      \<lparr>rd_ready = (a \<and> z \<and> r), rd_adminDb = a, rd_zapiackDb = z, rd_redis = r, rd_geoip = geoip\<rparr>)"

record memory_sample =
  my_rss :: nat
  my_heapUsed :: nat
  my_heapTotal :: nat
  my_external :: nat
  my_arrayBuffers :: nat

definition megabytes :: "nat \<Rightarrow> int" where
  "megabytes bytes = \<lfloor>rat_of_nat bytes / 1048576 + 1 / 2\<rfloor>"

definition handle_counts :: "string list \<Rightarrow> (string \<times> nat) list" where
  "handle_counts handles = take 6 (sort_key (\<lambda>(name, n). - int n) (map (\<lambda>name. (name, count_where (\<lambda>h. h = name) handles)) (js_set handles)))"

definition formatMemory :: "memory_sample \<Rightarrow> string list \<Rightarrow> nat \<Rightarrow> string" where
  "formatMemory sample handles uptimeSeconds =
     (let resources = join_with '' '' (map (\<lambda>(name, n). name @ ''='' @ dec n) (handle_counts handles)) in
      ''memory rss='' @ int_text (megabytes (my_rss sample)) @ ''MB heapUsed='' @ int_text (megabytes (my_heapUsed sample))
      @ ''MB heapTotal='' @ int_text (megabytes (my_heapTotal sample)) @ ''MB external='' @ int_text (megabytes (my_external sample))
      @ ''MB arrayBuffers='' @ int_text (megabytes (my_arrayBuffers sample))
      @ ''MB uptime='' @ int_text \<lfloor>rat_of_nat uptimeSeconds / 60 + 1 / 2\<rfloor> @ ''min''
      @ (if resources = [] then [] else '' handles: '' @ resources))"

definition traceEnabled :: "string option \<Rightarrow> bool" where
  "traceEnabled memoryTrace \<longleftrightarrow> toLowerCase (case memoryTrace of None \<Rightarrow> [] | Some t \<Rightarrow> t) = ''true''"

type_synonym trace_totals = "(string \<times> nat \<times> rat) list"

text \<open>\<open>traced\<close>: the result passes through, a failure too; what the work retained is added to its label.\<close>

definition traced :: "bool \<Rightarrow> string \<Rightarrow> rat \<Rightarrow> rat \<Rightarrow> 'a result \<Rightarrow> trace_totals \<Rightarrow> 'a result \<times> trace_totals" where
  "traced enabled label before after result totals =
     (if \<not> enabled then (result, totals)
      else (let (runs, kept) = (case map_of totals label of None \<Rightarrow> (0, 0) | Some t \<Rightarrow> t);
                entry = (Suc runs, fl (kept + fl (after - before)))
            in (result, if map_of totals label = None then totals @ [(label, entry)]
                 else map (\<lambda>(l, t). if l = label then (l, entry) else (l, t)) totals)))"

definition trace_lines :: "nat \<Rightarrow> trace_totals \<Rightarrow> trace_totals" where
  "trace_lines limit totals = filter (\<lambda>(l, n, kept). kept > fl (5 / 100)) (take limit (sort_key (\<lambda>(l, n, kept). - kept) totals))"

definition everyNth :: "nat \<Rightarrow> nat \<Rightarrow> bool \<times> nat" where
  "everyNth every n = (Suc n mod every = 0, Suc n)"

datatype crash_reason = ErrorReason string string | OtherReason string

definition describe_crash :: "crash_reason \<Rightarrow> string" where
  "describe_crash reason = (case reason of ErrorReason name message \<Rightarrow> name @ '': '' @ message | OtherReason t \<Rightarrow> ''Error: '' @ t)"

section \<open>Passwords\<close>

lemma base64_chars: "c \<in> set (base64_encode s) \<Longrightarrow> c = CHR ''='' \<or> b64_value c \<noteq> None"
proof -
  have o: "\<forall>n \<in> set (map of_char s). n < (256 :: nat)" by auto
  assume "c \<in> set (base64_encode s)"
  then show ?thesis using b64_sextets_bound [OF o] by (auto simp: base64_encode_def std_char_value(1) split: if_splits)
qed

lemma no_dollar: "CHR ''$'' \<notin> set (base64_encode s)" "CHR ''$'' \<notin> set (dec n)"
proof -
  have "b64_value (CHR ''$'') = None" by code_simp
  then show "CHR ''$'' \<notin> set (base64_encode s)" using base64_chars [of "CHR ''$''" s] by auto
  have "\<not> is_digit (CHR ''$'')" by code_simp
  then show "CHR ''$'' \<notin> set (dec n)" using dec_digits [of n] by (auto simp: list_all_iff)
qed

text \<open>
  A stored hash accepts exactly the passwords that derive the same key: the parameters and the salt are
  read back from it as they were written.
\<close>
theorem stored_hash_accepts:
  assumes "scrypt password salt 64 (65536, 8, 1) = Some key" "length key = 64"
    "scrypt attempt salt 64 (65536, 8, 1) = Some key'"
  shows "\<exists>stored. hash_password scrypt salt password = Inr stored \<and> verify_password scrypt attempt stored = Inr (key' = key)"
proof -
  let ?stored = "join_with ''$'' [''scrypt'', dec 65536, dec 8, dec 1, base64_encode salt, base64_encode key]"
  have h: "hash_password scrypt salt password = Inr ?stored"
    by (simp add: hash_password_def SCRYPT_PARAMS_def KEY_LENGTH_def assms(1))
  have "CHR ''$'' \<notin> set ''scrypt''" by code_simp
  then have "split_on (CHR ''$'') ?stored = [''scrypt'', dec 65536, dec 8, dec 1, base64_encode salt, base64_encode key]"
    by (simp add: split_on_dots split_on_none no_dollar del: dec.simps)
  moreover have "num_int (js_Number (dec 65536)) = Some 65536" "num_int (js_Number (dec 8)) = Some 8" "num_int (js_Number (dec 1)) = Some 1"
    using js_Number_dec [of 65536] js_Number_dec [of 8] js_Number_dec [of 1] by simp_all
  ultimately have "verify_password scrypt attempt ?stored = Inr (length key' = length key \<and> key' = key)"
    by (simp add: verify_password_def Let_def base64_decode_encode assms del: dec.simps join_with.simps)
  with h show ?thesis by auto
qed

theorem stored_hash_accepts_witness:
  "let scrypt = (\<lambda>password salt n params. Some (replicate 63 (CHR ''x'') @ [hd password])) in
   \<exists>stored. hash_password scrypt ''salt'' ''pass'' = Inr stored \<and> verify_password scrypt ''word'' stored = Inr False"
proof -
  let ?scrypt = "\<lambda>password salt n params. Some (replicate 63 (CHR ''x'') @ [hd password])"
  have "\<exists>stored. hash_password ?scrypt ''salt'' ''pass'' = Inr stored
      \<and> verify_password ?scrypt ''word'' stored = Inr (replicate 63 (CHR ''x'') @ [hd ''word''] = replicate 63 (CHR ''x'') @ [hd ''pass''])"
    by (rule stored_hash_accepts) simp_all
  then show ?thesis by simp
qed

text \<open>
  A generated password has an upper and a lower case letter, a digit and a symbol, but nothing makes it
  long: every \<open>/\<close>, \<open>+\<close> and \<open>=\<close> of its base64 is dropped.
\<close>

lemma generated_password_mixed: "set (validateStrength (generatePassword bytes)) \<subseteq> {''must be at least 12 characters''}"
proof -
  let ?p = "generatePassword bytes"
  have "set ''Aa1!'' \<subseteq> set ?p" by (simp add: generatePassword_def)
  then have m: "CHR ''A'' \<in> set ?p" "CHR ''a'' \<in> set ?p" "CHR ''1'' \<in> set ?p" "CHR ''!'' \<in> set ?p" by auto
  have "is_upper (CHR ''A'')" "is_lower (CHR ''a'')" "is_digit (CHR ''1'')" "\<not> is_word (CHR ''!'')" "\<not> is_space (CHR ''!'')" by code_simp+
  with m show ?thesis unfolding validateStrength_def by (auto simp: list_ex_iff)
qed

theorem generated_password_short:
  "generatePassword (replicate 15 (CHR 0xFF)) = ''Aa1!'' \<and> validateStrength (generatePassword (replicate 15 (CHR 0xFF))) \<noteq> []"
  by code_simp

section \<open>After a reset\<close>

lemma reset_facts:
  assumes "reset_password env args s = (CliPassword password, s')"
  shows "\<exists>st. st \<in> set (co_staff s)
    \<and> co_staff s' = update_where (\<lambda>x. st_id x = st_id st) (reset_staff env password (js_includes (rs_argv args) ''--reset-2fa'')) (co_staff s)
    \<and> co_audit s' = co_audit s @ [reset_audit (st_id st) (st_email st) (js_includes (rs_argv args) ''--reset-2fa'')]"
proof -
  obtain e where e: "find (\<lambda>a. \<not> startsWith a ''--'') (rs_argv args) = Some e"
    using assms by (cases "find (\<lambda>a. \<not> startsWith a ''--'') (rs_argv args)") (simp_all add: reset_password_def)
  then obtain st where st: "find_row (\<lambda>x. st_email x = toLowerCase e) (co_staff s) = Some st"
    using assms by (auto simp: reset_password_def Let_def split: if_splits option.splits)
  have "(CliPassword password, s') = (let s1 = update_staff (st_id st) (reset_staff env (generatePassword (rs_random args)) (js_includes (rs_argv args) ''--reset-2fa'')) s
      in (CliPassword (generatePassword (rs_random args)), s1\<lparr>co_audit := co_audit s1 @ [reset_audit (st_id st) (toLowerCase e) (js_includes (rs_argv args) ''--reset-2fa'')]\<rparr>))"
    using assms e st by (auto simp: reset_password_def Let_def split: if_splits)
  with find_row_SomeD [OF st] show ?thesis
    by (intro exI [of _ st]) (simp add: Let_def update_staff_def)
qed

text \<open>
  After a reset no session the staff member had before passes the guard, once the guard has no copy of the
  row from before; the account has the new password, no failed attempts and no lock, and the audit log
  says so.
\<close>
theorem reset_ends_sessions:
  assumes "reset_password env args s = (CliPassword password, s')" "distinct (map st_id (co_staff s))"
  shows "\<exists>st st' b. st \<in> set (co_staff s) \<and> co_audit s' = co_audit s @ [reset_audit (st_id st) (st_email st) b]
    \<and> find_row (\<lambda>x. st_id x = st_id st) (co_staff s') = Some st' \<and> st_passwordHash st' = cx_hash env password
    \<and> st_failedLoginCount st' = 0 \<and> st_lockedUntil st' = None
    \<and> (\<forall>cfg now rq r g. se_staffId r = st_id st \<and> se_sessionEpoch r \<le> st_sessionEpoch st \<and> gs_staff g = co_staff s'
        \<and> cache_hit now (st_id st) (gs_cache g) = None \<longrightarrow> isl (fst (guard_staff cfg now rq r g)))"
proof -
  let ?b = "js_includes (rs_argv args) ''--reset-2fa''"
  obtain st where st: "st \<in> set (co_staff s)" and f: "co_staff s' = update_where (\<lambda>x. st_id x = st_id st) (reset_staff env password ?b) (co_staff s)"
    and a: "co_audit s' = co_audit s @ [reset_audit (st_id st) (st_email st) ?b]"
    using reset_facts [OF assms(1)] by blast
  have n: "find_row (\<lambda>x. st_id x = st_id st) (co_staff s') = Some (reset_staff env password ?b st)"
    unfolding f using find_row_unique [OF assms(2) st]
    by (subst find_row_update_where) (simp_all add: reset_staff_def Let_def)
  have "isl (fst (guard_staff cfg now rq r g))"
    if "se_staffId r = st_id st" "se_sessionEpoch r \<le> st_sessionEpoch st" "gs_staff g = co_staff s'" "cache_hit now (st_id st) (gs_cache g) = None"
    for cfg now rq r g
  proof (rule ccontr)
    assume "\<not> isl (fst (guard_staff cfg now rq r g))"
    then obtain p g' where "guard_staff cfg now rq r g = returns p g'"
      by (cases "guard_staff cfg now rq r g"; cases "fst (guard_staff cfg now rq r g)") auto
    then obtain st' ro where "served g now (se_staffId r) = Some (st', ro)" "st_sessionEpoch st' = se_sessionEpoch r"
      by (rule guard_staff_success)
    then have "st_sessionEpoch (reset_staff env password ?b st) = se_sessionEpoch r"
      using n that by (auto simp: served_def load_staff_def)
    with that(2) show False by (simp add: reset_staff_def Let_def split: if_splits)
  qed
  with st a n show ?thesis
    by (intro exI [of _ st] exI [of _ "reset_staff env password ?b st"] exI [of _ ?b]) (simp add: reset_staff_def Let_def)
qed

theorem reset_ends_sessions_witness:
  "\<exists>st' s'. snd (reset_password ex_env \<lparr>rs_argv = [''A@z''], rs_url = Some ''postgresql://db'', rs_random = ''xyz''\<rparr> ex_console) = s'
     \<and> find_row (\<lambda>x. st_id x = st_id ex_member) (co_staff s') = Some st' \<and> st_lockedUntil st' = None"
proof -
  let ?args = "\<lparr>rs_argv = [''A@z''], rs_url = Some ''postgresql://db'', rs_random = ''xyz''\<rparr>"
  have low: "trim ''a@z'' = ''a@z''" "toLowerCase ''A@z'' = ''a@z''" and "\<not> startsWith ''A@z'' ''--''" by code_simp+
  then obtain password s' where r: "reset_password ex_env ?args ex_console = (CliPassword password, s')"
    using ex_by_email unfolding low by (auto simp: reset_password_def Let_def low)
  have "distinct (map st_id (co_staff ex_console))" "\<And>st. st \<in> set (co_staff ex_console) \<Longrightarrow> st = ex_member" by (simp_all add: ex_console_def)
  with reset_ends_sessions [OF r] r show ?thesis by fastforce
qed

section \<open>What a seed leaves\<close>

lemma seed_role_found:
  "find_row (\<lambda>ro. ro_key ro = key) (seed_role newId (key, permissions) roles) = Some ro \<Longrightarrow> ro_permissions ro = permissions"
  by (auto dest: find_row_SomeD simp: seed_role_def Let_def find_row_append find_row_update_where split: prod.splits option.splits)

lemma seed_role_exists: "find_row (\<lambda>ro. ro_key ro = key) (seed_role newId (key, permissions) roles) \<noteq> None"
  by (auto simp: seed_role_def Let_def find_row_append find_row_update_where split: prod.splits option.splits)

lemma seed_role_other:
  "key' \<noteq> key \<Longrightarrow> find_row (\<lambda>ro. ro_key ro = key') (seed_role newId (key, permissions) roles) = find_row (\<lambda>ro. ro_key ro = key') roles"
  by (auto dest: find_row_SomeD simp: seed_role_def Let_def find_row_append find_row_update_where split: prod.splits option.splits)

lemma seed_fold:
  assumes "distinct (map fst entries)"
  shows "(key, permissions) \<in> set entries \<Longrightarrow>
      \<exists>ro. find_row (\<lambda>ro. ro_key ro = key) (fold (seed_role newId) entries roles) = Some ro \<and> ro_permissions ro = permissions"
    and "key \<notin> fst ` set entries \<Longrightarrow> find_row (\<lambda>ro. ro_key ro = key) (fold (seed_role newId) entries roles) = find_row (\<lambda>ro. ro_key ro = key) roles"
proof -
  show o: "find_row (\<lambda>ro. ro_key ro = key) (fold (seed_role newId) entries roles) = find_row (\<lambda>ro. ro_key ro = key) roles"
    if "key \<notin> fst ` set entries"
    using that by (induction entries arbitrary: roles) (auto simp: seed_role_other)
  show "\<exists>ro. find_row (\<lambda>ro. ro_key ro = key) (fold (seed_role newId) entries roles) = Some ro \<and> ro_permissions ro = permissions"
    if "(key, permissions) \<in> set entries"
    using assms that
  proof (induction entries arbitrary: roles)
    case (Cons x entries)
    show ?case
    proof (cases "x = (key, permissions)")
      case True
      have "key \<notin> fst ` set entries" using Cons.prems(1) True by simp
      then have f: "find_row (\<lambda>ro. ro_key ro = key) (fold (seed_role newId) entries rs) = find_row (\<lambda>ro. ro_key ro = key) rs" for rs
        by (induction entries arbitrary: rs) (auto simp: seed_role_other)
      show ?thesis
        using seed_role_exists [of key newId permissions roles] seed_role_found [of key newId permissions roles]
        by (auto simp: True f)
    next
      case False
      with Cons show ?thesis by simp
    qed
  qed simp
qed

text \<open>
  After a seed every system role is there with exactly the permissions of the catalogue, whatever the
  table held; the other roles are as they were, and the super admin is created only where nobody has the
  address.
\<close>
theorem seed_restores_roles:
  assumes "(key, permissions) \<in> set SYSTEM_ROLES"
  shows "\<exists>role. find_row (\<lambda>ro. ro_key ro = key) (co_roles (snd (seed_main env v s))) = Some role \<and> ro_permissions role = permissions"
proof -
  have "co_roles (snd (seed_main env v s)) = seed_roles (sv_newId v) (co_roles s)"
    by (auto simp: seed_main_def Let_def split: option.splits)
  moreover have "distinct (map fst SYSTEM_ROLES)" by code_simp
  ultimately show ?thesis using seed_fold(1) [OF _ assms] by (simp add: seed_roles_def)
qed

theorem seed_restores_roles_witness:
  "\<exists>role. find_row (\<lambda>ro. ro_key ro = ''read_only'') (co_roles (snd (seed_main ex_env \<lparr>sv_newId = id, sv_email = None, sv_password = None, sv_name = None\<rparr> ex_console))) = Some role
     \<and> ro_permissions role = [''metrics.read'', ''finance.read'']"
  by (rule seed_restores_roles) (simp add: SYSTEM_ROLES_def)

section \<open>Small guarantees\<close>

text \<open>A backfill finalises each day of its range once, in order, and nothing after the last.\<close>

lemma backfill_days_once:
  "map (\<lambda>d. FinaliseDay (day_start d)) [f..l] = filter (\<lambda>x. case x of FinaliseDay t \<Rightarrow> True | _ \<Rightarrow> False) (backfill_plan ids now (f, l))"
  by (simp add: backfill_plan_def Let_def day_loop_upto filter_id_conv comp_def)

lemma read_client_refuses:
  "js_includes MUTATING_READ operation \<Longrightarrow> snd (guarded_read operation model query s) = s \<and> isl (fst (guarded_read operation model query s))"
  by (simp add: guarded_read_def)

text \<open>A prefixed key, and a channel or stream written out in full, name the same thing on the server.\<close>

lemma redis_names_agree:
  "server_key prefix (redis_key parts) = redis_channel prefix parts" "redis_streamKey prefix name = redis_channel prefix [name]"
  by (simp_all add: server_key_def redis_key_def redis_channel_def redis_streamKey_def)

lemma traced_result: "fst (traced enabled label before after result totals) = result"
  by (simp add: traced_def Let_def split: prod.split)

lemma mail_results_per_mail: "length (send_batch_mail client a r emails) = length emails"
  by (simp add: send_batch_mail_def)

end
